(* ===== verification/Prelude.thy ===== *)
theory Prelude
  imports "HOL-Library.Word"
begin

text \<open>
  Shared vocabulary of the development: flag words and their bit operations
  (\<open>test_bit\<close>, \<open>set_bit\<close> and \<open>clear_bit\<close> of the Linux kernel are
  \<^const>\<open>bit\<close>, \<^const>\<open>set_bit\<close> and \<^const>\<open>unset_bit\<close> on
  32-bit words), the byte representation of C \<open>int\<close> fields inside
  messages and commands, user memory as a map from 32-bit addresses to bytes,
  the intrusive Linux lists as HOL lists, and the generic lemmas the component
  theories share.  The ABI is ILP32 little-endian, the one of the x86 kernel
  the module is built for.
\<close>

named_theorems kst_simps \<open>read-over-write rules of the kernel state\<close>
named_theorems byte_simps \<open>fields of byte buffers\<close>
named_theorems code_defs \<open>constants of the source, unfolded for evaluation\<close>

type_synonym byte = "8 word"
type_synonym addr = "32 word"
type_synonym flags = "32 word"
type_synonym memory = "addr \<Rightarrow> byte"

section \<open>Flag words\<close>

lemma bit_set_word [simp]:
  "bit (set_bit n (w :: flags)) m \<longleftrightarrow> bit w m \<or> (m = n \<and> n < 32)"
  by (auto simp: bit_set_bit_iff)

lemma bit_unset_word [simp]:
  "bit (unset_bit n (w :: flags)) m \<longleftrightarrow> bit w m \<and> m \<noteq> n"
  by (auto simp: bit_unset_bit_iff)

lemma flags_zero_iff: "(w :: flags) = 0 \<longleftrightarrow> (\<forall>n. \<not> bit w n)"
  by (auto intro: bit_word_eqI)

lemma unset_zero_iff: "unset_bit n (w :: flags) = 0 \<longleftrightarrow> (\<forall>m. bit w m \<longrightarrow> m = n)"
  by (auto simp: flags_zero_iff)

lemma set_bit_nonzero: "n < 32 \<Longrightarrow> set_bit n (w :: flags) \<noteq> 0"
  by (auto simp: flags_zero_iff)

lemma bit_nonzero: "bit (w :: flags) n \<Longrightarrow> w \<noteq> 0"
  by auto

lemma unset_bit_idem: "\<not> bit (w :: flags) n \<Longrightarrow> unset_bit n w = w"
  by (rule bit_word_eqI) auto

lemma unset_set_bit: "\<not> bit (w :: flags) n \<Longrightarrow> unset_bit n (set_bit n w) = w"
  by (rule bit_word_eqI) auto

lemma uint_less32: "uint (w :: flags) < 4294967296"
proof -
  have "uint w < 2 ^ LENGTH(32)" by (rule unsigned_less)
  then show ?thesis by simp
qed

lemma unat_less32: "unat (w :: flags) < 4294967296"
proof -
  have "unat w < 2 ^ LENGTH(32)" by (rule unsigned_less)
  then show ?thesis by simp
qed

section \<open>C arithmetic\<close>

text \<open>C's truncating division and remainder on \<open>int\<close>.\<close>

definition cdiv :: "int \<Rightarrow> int \<Rightarrow> int" where
  "cdiv a b = sgn a * sgn b * (\<bar>a\<bar> div \<bar>b\<bar>)"

definition cmod :: "int \<Rightarrow> int \<Rightarrow> int" where
  "cmod a b = a - cdiv a b * b"

definition int32 :: "int \<Rightarrow> bool" where
  "int32 v \<longleftrightarrow> - (2 ^ 31) \<le> v \<and> v < 2 ^ 31"

lemma cdiv_nonneg [simp]: "0 \<le> a \<Longrightarrow> 0 < b \<Longrightarrow> cdiv a b = a div b"
  by (cases "a = 0") (auto simp: cdiv_def sgn_if)

lemma cmod_nonneg [simp]: "0 \<le> a \<Longrightarrow> 0 < b \<Longrightarrow> cmod a b = a mod b"
  by (simp add: cmod_def minus_div_mult_eq_mod)

section \<open>Integers in byte buffers\<close>

definition i32_bytes :: "int \<Rightarrow> byte list" where
  "i32_bytes v = [word_of_int v, word_of_int (v div 2 ^ 8),
                  word_of_int (v div 2 ^ 16), word_of_int (v div 2 ^ 24)]"

definition bytes_u32 :: "byte list \<Rightarrow> int" where
  "bytes_u32 bs = uint (bs ! 0) + 2 ^ 8 * uint (bs ! 1)
                 + 2 ^ 16 * uint (bs ! 2) + 2 ^ 24 * uint (bs ! 3)"

definition bytes_i32 :: "byte list \<Rightarrow> int" where
  "bytes_i32 bs = (let u = bytes_u32 bs in if u < 2 ^ 31 then u else u - 2 ^ 32)"

definition get_i32 :: "nat \<Rightarrow> byte list \<Rightarrow> int" where
  "get_i32 off bs = bytes_i32 (take 4 (drop off bs))"

definition put_i32 :: "nat \<Rightarrow> int \<Rightarrow> byte list \<Rightarrow> byte list" where
  "put_i32 off v bs = take off bs @ i32_bytes v @ drop (off + 4) bs"

lemma length_i32_bytes [simp]: "length (i32_bytes v) = 4"
  by (simp add: i32_bytes_def)

lemma bytes_u32_i32_bytes: "bytes_u32 (i32_bytes v) = v mod 2 ^ 32"
proof -
  have low: "x mod (256 * n) = x mod 256 + 256 * (x div 256 mod n)" if "n > 0" for x n :: int
    using that by (simp add: zmod_zmult2_eq add.commute)
  have d2: "v div 256 div 256 = v div 65536" and d3: "v div 65536 div 256 = v div 16777216"
    using zdiv_zmult2_eq [of 256 v 256] zdiv_zmult2_eq [of 256 v 65536] by simp_all
  have b: "bytes_u32 (i32_bytes v) = v mod 256 + 256 * (v div 256 mod 256)
      + 65536 * (v div 65536 mod 256) + 16777216 * (v div 16777216 mod 256)"
    by (simp add: bytes_u32_def i32_bytes_def uint_word_of_int)
  have "v mod 2 ^ 32 = v mod (256 * 16777216)" by simp
  also have "\<dots> = v mod 256 + 256 * (v div 256 mod (256 * 65536))"
    by (subst low) simp_all
  also have "v div 256 mod (256 * 65536) = v div 256 mod 256 + 256 * (v div 65536 mod (256 * 256))"
    unfolding d2 [symmetric] by (subst low) simp_all
  also have "v div 65536 mod (256 * 256) = v div 65536 mod 256 + 256 * (v div 16777216 mod 256)"
    unfolding d3 [symmetric] by (subst low) simp_all
  finally show ?thesis unfolding b by (simp only: distrib_left mult.assoc [symmetric] add.assoc [symmetric] arith_simps)
qed

lemma bytes_i32_i32_bytes: "int32 v \<Longrightarrow> bytes_i32 (i32_bytes v) = v"
proof (cases "0 \<le> v")
  case True
  assume "int32 v"
  with True have "v mod 2 ^ 32 = v" "v < 2 ^ 31"
    by (auto simp: int32_def)
  then show ?thesis by (simp add: bytes_i32_def bytes_u32_i32_bytes)
next
  case False
  assume "int32 v"
  with False have "2 ^ 31 \<le> v + 2 ^ 32" "v + 2 ^ 32 < 2 ^ 32"
    by (auto simp: int32_def)
  then have "(v + 2 ^ 32) mod 2 ^ 32 = v + 2 ^ 32"
    by (intro mod_pos_pos_trivial) simp_all
  then have "v mod 2 ^ 32 = v + 2 ^ 32" by simp
  with \<open>2 ^ 31 \<le> v + 2 ^ 32\<close> show ?thesis
    by (simp add: bytes_i32_def bytes_u32_i32_bytes)
qed

lemma length_put_i32 [simp]: "off + 4 \<le> length bs \<Longrightarrow> length (put_i32 off v bs) = length bs"
  by (simp add: put_i32_def)

lemma get_put_i32 [byte_simps]:
  "off + 4 \<le> length bs \<Longrightarrow> int32 v \<Longrightarrow> get_i32 off (put_i32 off v bs) = v"
  by (simp add: get_i32_def put_i32_def bytes_i32_i32_bytes)

lemma get_put_i32_other [byte_simps]:
  assumes "off + 4 \<le> length bs" "off' + 4 \<le> off \<or> off + 4 \<le> off'"
  shows "get_i32 off' (put_i32 off v bs) = get_i32 off' bs"
proof -
  have "take 4 (drop off' (put_i32 off v bs)) = take 4 (drop off' bs)"
  proof (cases "off' + 4 \<le> off")
    case True
    then have "take 4 (drop off' (take off bs)) = take 4 (drop off' bs)"
      by (simp add: drop_take min_def)
    with True assms(1) show ?thesis by (simp add: put_i32_def)
  next
    case False
    with assms show ?thesis by (simp add: put_i32_def add.commute)
  qed
  then show ?thesis by (simp add: get_i32_def)
qed

section \<open>User memory\<close>

definition read_mem :: "memory \<Rightarrow> addr \<Rightarrow> nat \<Rightarrow> byte list" where
  "read_mem m a n = map (\<lambda>i. m (a + of_nat i)) [0..<n]"

definition write_mem :: "addr \<Rightarrow> byte list \<Rightarrow> memory \<Rightarrow> memory" where
  "write_mem a bs m = (\<lambda>x. if unat (x - a) < length bs then bs ! unat (x - a) else m x)"

lemma length_read_mem [simp]: "length (read_mem m a n) = n"
  by (simp add: read_mem_def)

lemma unat_offset: "i < 2 ^ 32 \<Longrightarrow> unat ((a + of_nat i) - (a :: addr)) = i"
  by (simp add: unat_of_nat)

lemma read_write_mem:
  assumes "length bs \<le> 2 ^ 32"
  shows "read_mem (write_mem a bs m) a (length bs) = bs"
  using assms by (intro nth_equalityI) (auto simp: read_mem_def write_mem_def unat_of_nat)

lemma write_mem_Nil [simp]: "write_mem a [] m = m"
  by (simp add: write_mem_def)

lemma write_mem_outside: "length bs \<le> unat (x - a) \<Longrightarrow> write_mem a bs m x = m x"
  by (simp add: write_mem_def)

section \<open>Linux lists\<close>

text \<open>
  A \<open>list_head\<close> queue is the list of the descriptors linked on it, in order.
  \<open>list_add_tail\<close> appends, \<open>list_add\<close> prepends and \<open>list_del_init\<close>
  removes the entry from the queue it is on.
\<close>

definition list_add_tail :: "'a \<Rightarrow> 'a list \<Rightarrow> 'a list" where
  "list_add_tail x xs = xs @ [x]"

definition list_del :: "'a \<Rightarrow> 'a list \<Rightarrow> 'a list" where
  "list_del x xs = remove1 x xs"

lemma list_del_notin [simp]: "x \<notin> set xs \<Longrightarrow> list_del x xs = xs"
  by (simp add: list_del_def remove1_idem)

lemma list_del_add_tail: "x \<notin> set xs \<Longrightarrow> list_del x (list_add_tail x xs) = xs"
  by (simp add: list_del_def list_add_tail_def remove1_append)

lemma set_list_add_tail [simp]: "set (list_add_tail x xs) = insert x (set xs)"
  by (auto simp: list_add_tail_def)

lemma distinct_list_add_tail [simp]:
  "distinct (list_add_tail x xs) \<longleftrightarrow> x \<notin> set xs \<and> distinct xs"
  by (auto simp: list_add_tail_def)

lemma set_list_del: "distinct xs \<Longrightarrow> set (list_del x xs) = set xs - {x}"
  by (simp add: list_del_def)

lemma distinct_list_del [simp]: "distinct xs \<Longrightarrow> distinct (list_del x xs)"
  by (simp add: list_del_def)

end
