(* ===== verification/Endpoint.thy ===== *)
theory Endpoint
  imports Prelude
begin

text \<open>
  Endpoint numbers (\<open>src/kernel/minix/endpoint.h\<close>, \<open>com.h\<close>,
  \<open>sys_config.h\<close>): an endpoint is a generation and a process number packed in
  an \<open>int\<close>; \<open>ANY\<close>, \<open>NONE\<close> and \<open>SELF\<close> are magic values that no
  process may have.  The lemmas show that packing and unpacking are inverse, that
  packed endpoints are distinct from the magic values and fit a C \<open>int\<close>, and that
  the range check the calls make on \<open>_ENDPOINT_P\<close> refuses every other negative
  endpoint.
\<close>

abbreviation (input) "ANY \<equiv> 31438 :: int"       \<comment> \<open>0x7ace\<close>
abbreviation (input) "NONE \<equiv> 27342 :: int"      \<comment> \<open>0x6ace\<close>
abbreviation (input) "SELF \<equiv> 35534 :: int"      \<comment> \<open>0x8ace\<close>
abbreviation (input) "LOCALNODE \<equiv> - 1 :: int"
abbreviation (input) "HARDWARE \<equiv> - 1 :: int"
abbreviation (input) "SYSTEM \<equiv> - 2 :: int"
abbreviation (input) "SLOTS \<equiv> - 34 :: int"
abbreviation (input) "NR_TASKS \<equiv> 35 :: int"
abbreviation (input) "NR_PROCS \<equiv> 221 :: int"
abbreviation (input) "NR_SYS_PROCS \<equiv> 64 :: int"
abbreviation (input) "NR_NODES \<equiv> 32 :: int"
abbreviation (input) "NR_DCS \<equiv> 32 :: int"

definition ENDPOINT_GENERATION_SIZE :: int where
  "ENDPOINT_GENERATION_SIZE = NR_TASKS + SELF + 1"

definition ENDPOINT_MAX_GENERATION :: int where
  "ENDPOINT_MAX_GENERATION = cdiv (2 ^ 31 - 1) ENDPOINT_GENERATION_SIZE - 1"

definition ENDPOINT :: "int \<Rightarrow> int \<Rightarrow> int" where
  "ENDPOINT g p = g * ENDPOINT_GENERATION_SIZE + p"

definition ENDPOINT_G :: "int \<Rightarrow> int" where
  "ENDPOINT_G e = cdiv (e + NR_TASKS) ENDPOINT_GENERATION_SIZE"

definition ENDPOINT_P :: "int \<Rightarrow> int" where
  "ENDPOINT_P e = cmod (e + NR_TASKS) ENDPOINT_GENERATION_SIZE - NR_TASKS"

lemma generation_size [simp]: "ENDPOINT_GENERATION_SIZE = 35570"
  by (simp add: ENDPOINT_GENERATION_SIZE_def)

lemma max_generation [simp]: "ENDPOINT_MAX_GENERATION = 60372"
  by (simp add: ENDPOINT_MAX_GENERATION_def cdiv_def)

lemma ENDPOINT_P_ENDPOINT [simp]:
  assumes "0 \<le> g" "- NR_TASKS \<le> p" "p \<le> SELF"
  shows "ENDPOINT_P (ENDPOINT g p) = p"
proof -
  have "ENDPOINT g p + NR_TASKS = (p + NR_TASKS) + g * ENDPOINT_GENERATION_SIZE"
    by (simp add: ENDPOINT_def)
  moreover have "0 \<le> (p + NR_TASKS) + g * ENDPOINT_GENERATION_SIZE"
    using assms by simp
  ultimately have "ENDPOINT_P (ENDPOINT g p) = (p + NR_TASKS) mod ENDPOINT_GENERATION_SIZE - NR_TASKS"
    unfolding ENDPOINT_P_def by (simp only: cmod_nonneg mod_mult_self1 generation_size zero_less_numeral)
  with assms show ?thesis by simp
qed

lemma ENDPOINT_G_ENDPOINT [simp]:
  assumes "0 \<le> g" "- NR_TASKS \<le> p" "p \<le> SELF"
  shows "ENDPOINT_G (ENDPOINT g p) = g"
proof -
  have "ENDPOINT g p + NR_TASKS = (p + NR_TASKS) + g * ENDPOINT_GENERATION_SIZE"
    by (simp add: ENDPOINT_def)
  moreover have "0 \<le> (p + NR_TASKS) + g * ENDPOINT_GENERATION_SIZE"
    using assms by simp
  ultimately have "ENDPOINT_G (ENDPOINT g p) = (p + NR_TASKS) div ENDPOINT_GENERATION_SIZE + g"
    unfolding ENDPOINT_G_def by simp
  with assms show ?thesis by simp
qed

lemma ENDPOINT_P_small [simp]: "- NR_TASKS \<le> p \<Longrightarrow> p \<le> SELF \<Longrightarrow> ENDPOINT_P p = p"
  using ENDPOINT_P_ENDPOINT [of 0 p] by (simp add: ENDPOINT_def)

lemma cdiv_neg: "a < 0 \<Longrightarrow> 0 < b \<Longrightarrow> cdiv a b = - ((- a) div b)"
  by (simp add: cdiv_def sgn_if)

lemma ENDPOINT_P_neg: "e < - NR_TASKS \<Longrightarrow> ENDPOINT_P e \<le> - NR_TASKS"
proof -
  assume e: "e < - NR_TASKS"
  then have "cmod (e + NR_TASKS) ENDPOINT_GENERATION_SIZE
     = - ((- (e + NR_TASKS)) mod ENDPOINT_GENERATION_SIZE)"
    by (simp add: cmod_def cdiv_neg minus_div_mult_eq_mod [symmetric])
  then show ?thesis
    by (simp add: ENDPOINT_P_def)
qed

text \<open>Generation and process number survive packing into an endpoint; the packed
  endpoint is none of the magic values and, up to the maximum generation, fits a C int.\<close>

theorem endpoint_roundtrip:
  assumes "0 \<le> g" "g \<le> ENDPOINT_MAX_GENERATION" "- NR_TASKS \<le> p" "p < NR_PROCS"
  shows "ENDPOINT_P (ENDPOINT g p) = p \<and> ENDPOINT_G (ENDPOINT g p) = g
       \<and> ENDPOINT g p \<notin> {ANY, NONE, SELF} \<and> int32 (ENDPOINT g p)"
proof -
  have p: "- NR_TASKS \<le> p" "p \<le> SELF" using assms by simp_all
  have magic: "ENDPOINT_P ANY = ANY" "ENDPOINT_P NONE = NONE" "ENDPOINT_P SELF = SELF"
    by simp_all
  from p assms(1) have "ENDPOINT_P (ENDPOINT g p) = p" "ENDPOINT_G (ENDPOINT g p) = g"
    by simp_all
  moreover have "ENDPOINT g p \<notin> {ANY, NONE, SELF}"
    using calculation(1) magic assms(4) by auto
  moreover have "int32 (ENDPOINT g p)"
    using assms by (simp add: int32_def ENDPOINT_def)
  ultimately show ?thesis by simp
qed

theorem endpoint_roundtrip_witness:
  "ENDPOINT_P (ENDPOINT 60372 (- 2)) = - 2 \<and> ENDPOINT 3 5 \<noteq> ANY"
  using endpoint_roundtrip [of 60372 "- 2"] endpoint_roundtrip [of 3 5] by simp

end
