(* ===== verification/Sys_Map.thy ===== *)
theory Sys_Map
  imports Prelude
begin

text \<open>
  Bitmaps.  \<open>sys_map_t\<close> (\<open>src/kernel/minix/types.h\<close>) is an array of 16-bit
  chunks indexed by the macros of \<open>src/kernel/minix/macros.h\<close>; node and DC maps
  are single words handled with \<open>set_bit\<close>/\<open>clear_bit\<close>.  The locale
  \<open>bitset\<close> is the interface both provide: a bitmap represents a finite set of
  small numbers, and set, unset and get are insertion, deletion and membership.
\<close>

abbreviation (input) "BITCHUNK_BITS \<equiv> 16 :: nat"
abbreviation (input) "NR_SYS_CHUNKS \<equiv> 4 :: nat"

type_synonym bitchunk = "16 word"
type_synonym sys_map = "bitchunk list"

definition BITMAP_CHUNKS :: "nat \<Rightarrow> nat" where
  "BITMAP_CHUNKS nr_bits = (nr_bits + BITCHUNK_BITS - 1) div BITCHUNK_BITS"

definition get_sys_bit :: "sys_map \<Rightarrow> nat \<Rightarrow> bool" where
  "get_sys_bit m b = bit (m ! (b div BITCHUNK_BITS)) (b mod BITCHUNK_BITS)"

definition set_sys_bit :: "nat \<Rightarrow> sys_map \<Rightarrow> sys_map" where
  "set_sys_bit b m = m[b div BITCHUNK_BITS :=
     set_bit (b mod BITCHUNK_BITS) (m ! (b div BITCHUNK_BITS))]"

definition unset_sys_bit :: "nat \<Rightarrow> sys_map \<Rightarrow> sys_map" where
  "unset_sys_bit b m = m[b div BITCHUNK_BITS :=
     unset_bit (b mod BITCHUNK_BITS) (m ! (b div BITCHUNK_BITS))]"

definition sys_map_ok :: "sys_map \<Rightarrow> bool" where
  "sys_map_ok m \<longleftrightarrow> length m = NR_SYS_CHUNKS"

definition empty_sys_map :: sys_map where
  "empty_sys_map = replicate NR_SYS_CHUNKS 0"

lemma chunks_of_sys_procs: "BITMAP_CHUNKS 64 = NR_SYS_CHUNKS"
  by (simp add: BITMAP_CHUNKS_def)

locale bitset =
  fixes get :: "'m \<Rightarrow> nat \<Rightarrow> bool"
    and ins :: "nat \<Rightarrow> 'm \<Rightarrow> 'm"
    and del :: "nat \<Rightarrow> 'm \<Rightarrow> 'm"
    and inv :: "'m \<Rightarrow> bool"
    and size :: nat
  assumes get_ins: "inv m \<Longrightarrow> i < size \<Longrightarrow> j < size \<Longrightarrow> get (ins i m) j \<longleftrightarrow> j = i \<or> get m j"
    and get_del: "inv m \<Longrightarrow> i < size \<Longrightarrow> j < size \<Longrightarrow> get (del i m) j \<longleftrightarrow> j \<noteq> i \<and> get m j"
    and inv_ins: "inv m \<Longrightarrow> i < size \<Longrightarrow> inv (ins i m)"
    and inv_del: "inv m \<Longrightarrow> i < size \<Longrightarrow> inv (del i m)"
begin

definition elems :: "'m \<Rightarrow> nat set" where
  "elems m = {i. i < size \<and> get m i}"

lemma elems_ins: "inv m \<Longrightarrow> i < size \<Longrightarrow> elems (ins i m) = insert i (elems m)"
  by (auto simp: elems_def get_ins)

lemma elems_del: "inv m \<Longrightarrow> i < size \<Longrightarrow> elems (del i m) = elems m - {i}"
  by (auto simp: elems_def get_del)

lemma elems_del_ins: "inv m \<Longrightarrow> i < size \<Longrightarrow> i \<notin> elems m \<Longrightarrow> elems (del i (ins i m)) = elems m"
  by (simp add: elems_del elems_ins inv_ins)

lemma finite_elems: "finite (elems m)"
  by (auto simp: elems_def)

lemma card_elems_ins:
  "inv m \<Longrightarrow> i < size \<Longrightarrow> i \<notin> elems m \<Longrightarrow> card (elems (ins i m)) = Suc (card (elems m))"
  by (simp add: elems_ins finite_elems)

lemma card_elems_del:
  "inv m \<Longrightarrow> i < size \<Longrightarrow> i \<in> elems m \<Longrightarrow> Suc (card (elems (del i m))) = card (elems m)"
  using card_Suc_Diff1 [OF finite_elems, of i m] by (simp only: elems_del)

lemma card_elems_le: "card (elems m) \<le> size"
  using card_mono [of "{..<size}" "elems m"] by (auto simp: elems_def)

end

lemma bit16_set [simp]: "bit (set_bit n (w :: bitchunk)) m \<longleftrightarrow> bit w m \<or> (m = n \<and> n < 16)"
  by (auto simp: bit_set_bit_iff)

lemma bit16_unset [simp]: "bit (unset_bit n (w :: bitchunk)) m \<longleftrightarrow> bit w m \<and> m \<noteq> n"
  by (auto simp: bit_unset_bit_iff)

lemma chunk_index: "(i :: nat) < 64 \<Longrightarrow> i div 16 < 4"
  by simp

lemma chunk_split: "i div 16 = j div 16 \<Longrightarrow> i mod 16 = j mod 16 \<Longrightarrow> i = (j :: nat)"
  by (metis div_mult_mod_eq)

interpretation smap: bitset get_sys_bit set_sys_bit unset_sys_bit sys_map_ok 64
proof unfold_locales
  fix m :: sys_map and i j :: nat
  assume ok: "sys_map_ok m" "i < 64" "j < 64"
  then have l: "i div 16 < length m" "j div 16 < length m"
    by (simp_all add: sys_map_ok_def)
  show "get_sys_bit (set_sys_bit i m) j \<longleftrightarrow> j = i \<or> get_sys_bit m j"
    using l by (auto simp: get_sys_bit_def set_sys_bit_def nth_list_update dest: chunk_split)
  show "get_sys_bit (unset_sys_bit i m) j \<longleftrightarrow> j \<noteq> i \<and> get_sys_bit m j"
    using l by (auto simp: get_sys_bit_def unset_sys_bit_def nth_list_update dest: chunk_split)
qed (simp_all add: sys_map_ok_def set_sys_bit_def unset_sys_bit_def)

interpretation word_map: bitset "bit :: flags \<Rightarrow> nat \<Rightarrow> bool" set_bit unset_bit "\<lambda>_. True" 32
  by unfold_locales auto

lemma get_empty_sys_map [simp]: "i < 64 \<Longrightarrow> \<not> get_sys_bit empty_sys_map i"
  by (simp add: get_sys_bit_def empty_sys_map_def)

lemma sys_map_ok_empty [simp]: "sys_map_ok empty_sys_map"
  by (simp add: sys_map_ok_def empty_sys_map_def)

lemma sys_map_ok_set [simp]: "sys_map_ok (set_sys_bit b m) = sys_map_ok m"
  by (simp add: sys_map_ok_def set_sys_bit_def)

lemma sys_map_ok_unset [simp]: "sys_map_ok (unset_sys_bit b m) = sys_map_ok m"
  by (simp add: sys_map_ok_def unset_sys_bit_def)

end
