(* ===== verification/Kernel_State.thy ===== *)
theory Kernel_State
  imports Endpoint Sys_Map
begin

text \<open>
  The data of the IPC module: the process descriptor, the DC, node and proxy
  tables, the DVS parameters and the Linux tasks they refer to, with the
  constants and the small macros every call uses.  Fields keep the names of
  \<open>src/kernel/minix/*.h\<close>; the \<open>p_usr\<close>, \<open>s_usr\<close>, \<open>dc_usr\<close>,
  \<open>n_usr\<close> and \<open>px_usr\<close> sub-structures are inlined.  Queues
  (\<open>p_list\<close>, \<open>p_mlist\<close>, \<open>p_ulist\<close>) are lists of descriptor references.
\<close>

unbundle bit_operations_syntax

section \<open>Constants\<close>

abbreviation (input) "OK \<equiv> 0 :: int"
abbreviation (input) "TIMEOUT_NOWAIT \<equiv> 0 :: int"
abbreviation (input) "TIMEOUT_FOREVER \<equiv> - 1 :: int"
abbreviation (input) "TIMEOUT_MOLCALL \<equiv> 30000 :: int"
abbreviation (input) "DVS_NO_INIT \<equiv> - 1 :: int"
abbreviation (input) "PROC_NO_PID \<equiv> - 1 :: int"
abbreviation (input) "PROXY_NO_DC \<equiv> - 1 :: int"
abbreviation (input) "NO_PROXIES \<equiv> - 1 :: int"
abbreviation (input) "USER_ROOT \<equiv> 0 :: int"
abbreviation (input) "NOTIFY_MESSAGE \<equiv> 4096 :: int"
abbreviation (input) "MAXCOPYBUF \<equiv> 65536 :: int"
abbreviation (input) "MAXCOPYLEN \<equiv> 1048576 :: int"
abbreviation (input) "MSG_SIZE \<equiv> 36 :: nat"        \<comment> \<open>sizeof(message)\<close>
abbreviation (input) "HDR_SIZE \<equiv> 88 :: nat"        \<comment> \<open>sizeof(proxy_hdr_t)\<close>

abbreviation (input) "BIT_SLOT_FREE \<equiv> 0 :: nat"
abbreviation (input) "BIT_NO_MAP \<equiv> 1 :: nat"
abbreviation (input) "BIT_NO_ENDPOINT \<equiv> 9 :: nat"
abbreviation (input) "BIT_SENDING \<equiv> 2 :: nat"
abbreviation (input) "BIT_RECEIVING \<equiv> 3 :: nat"
abbreviation (input) "BIT_SIGNALED \<equiv> 4 :: nat"
abbreviation (input) "BIT_ONCOPY \<equiv> 10 :: nat"
abbreviation (input) "BIT_MIGRATE \<equiv> 11 :: nat"
abbreviation (input) "BIT_REMOTE \<equiv> 12 :: nat"
abbreviation (input) "BIT_RMTOPER \<equiv> 13 :: nat"
abbreviation (input) "BIT_WAITMIGR \<equiv> 15 :: nat"
abbreviation (input) "BIT_WAITUNBIND \<equiv> 17 :: nat"
abbreviation (input) "BIT_WAITBIND \<equiv> 18 :: nat"
abbreviation (input) "SLOT_FREE \<equiv> 1 :: flags"
abbreviation (input) "ONCOPY \<equiv> 1024 :: flags"
abbreviation (input) "REMOTE \<equiv> 4096 :: flags"
abbreviation (input) "PROC_RUNNING \<equiv> 0 :: flags"

abbreviation (input) "MIS_BIT_PROXY \<equiv> 0 :: nat"
abbreviation (input) "MIS_BIT_CONNECTED \<equiv> 1 :: nat"
abbreviation (input) "MIS_BIT_NOTIFY \<equiv> 2 :: nat"
abbreviation (input) "MIS_BIT_NEEDMIGR \<equiv> 3 :: nat"
abbreviation (input) "MIS_BIT_RMTBACKUP \<equiv> 4 :: nat"
abbreviation (input) "MIS_BIT_GRPLEADER \<equiv> 5 :: nat"
abbreviation (input) "MIS_BIT_KTHREAD \<equiv> 6 :: nat"
abbreviation (input) "MIS_BIT_REPLICATED \<equiv> 7 :: nat"
abbreviation (input) "MIS_BIT_KILLED \<equiv> 8 :: nat"
abbreviation (input) "MIS_BIT_WOKENUP \<equiv> 9 :: nat"
abbreviation (input) "MIS_RMTBACKUP \<equiv> 16 :: nat"   \<comment> \<open>the mask, used by check_caller as a bit number\<close>

abbreviation (input) "DC_FREE \<equiv> 2 :: int"
abbreviation (input) "DC_RUNNING \<equiv> 0 :: int"
abbreviation (input) "NODE_FREE \<equiv> 0 :: flags"
abbreviation (input) "NODE_ATTACHED \<equiv> 2 :: flags"
abbreviation (input) "NODE_SCONNECTED \<equiv> 4 :: flags"
abbreviation (input) "NODE_BIT_ATTACHED \<equiv> 1 :: nat"
abbreviation (input) "NODE_BIT_SCONNECTED \<equiv> 2 :: nat"
abbreviation (input) "NODE_BIT_RCONNECTED \<equiv> 3 :: nat"
abbreviation (input) "PX_BIT_SCONNECTED \<equiv> 1 :: nat"
abbreviation (input) "PX_BIT_RCONNECTED \<equiv> 2 :: nat"
abbreviation (input) "PROXIES_FREE \<equiv> 0 :: flags"
abbreviation (input) "PROXIES_INUSE \<equiv> 1 :: flags"
abbreviation (input) "PROXY_PRIV \<equiv> 5 :: int"
abbreviation (input) "CONNECT_SPROXY \<equiv> 1 :: int"
abbreviation (input) "CONNECT_RPROXY \<equiv> 2 :: int"
abbreviation (input) "DISCONNECT_SPROXY \<equiv> 3 :: int"
abbreviation (input) "DISCONNECT_RPROXY \<equiv> 4 :: int"
abbreviation (input) "SELF_BIND \<equiv> 0 :: int"
abbreviation (input) "LCL_BIND \<equiv> 1 :: int"
abbreviation (input) "RMT_BIND \<equiv> 2 :: int"
abbreviation (input) "BKUP_BIND \<equiv> 3 :: int"
abbreviation (input) "REPLICA_BIND \<equiv> 4 :: int"

abbreviation (input) "CMD_NONE \<equiv> 0 :: int"
abbreviation (input) "CMD_SEND_MSG \<equiv> 1 :: int"
abbreviation (input) "CMD_NTFY_MSG \<equiv> 2 :: int"
abbreviation (input) "CMD_SNDREC_MSG \<equiv> 3 :: int"
abbreviation (input) "CMD_REPLY_MSG \<equiv> 4 :: int"
abbreviation (input) "CMD_COPYIN_DATA \<equiv> 5 :: int"
abbreviation (input) "CMD_COPYOUT_RQST \<equiv> 6 :: int"
abbreviation (input) "CMD_COPYLCL_RQST \<equiv> 7 :: int"
abbreviation (input) "CMD_COPYRMT_RQST \<equiv> 8 :: int"
abbreviation (input) "CMD_COPYIN_RQST \<equiv> 9 :: int"
abbreviation (input) "CMD_SEND_ACK \<equiv> 8193 :: int"
abbreviation (input) "CMD_SNDREC_ACK \<equiv> 8195 :: int"
abbreviation (input) "CMD_COPYIN_ACK \<equiv> 8197 :: int"
abbreviation (input) "CMD_COPYOUT_DATA \<equiv> 8198 :: int"
abbreviation (input) "CMD_COPYLCL_ACK \<equiv> 8199 :: int"
abbreviation (input) "CMD_COPYRMT_ACK \<equiv> 8200 :: int"
abbreviation (input) "BIT_ACKNOWLEDGE \<equiv> 13 :: nat"

abbreviation (input) "EPERM_NEG \<equiv> - 1 :: int"       \<comment> \<open>-EPERM\<close>
abbreviation (input) "EMOLPERM \<equiv> - 1 :: int"
abbreviation (input) "EMOL2BIG \<equiv> - 7 :: int"
abbreviation (input) "EMOLAGAIN \<equiv> - 11 :: int"
abbreviation (input) "EMOLBUSY \<equiv> - 16 :: int"
abbreviation (input) "EMOLNODEV \<equiv> - 19 :: int"
abbreviation (input) "EMOLINVAL \<equiv> - 22 :: int"
abbreviation (input) "EMOLRANGE \<equiv> - 34 :: int"
abbreviation (input) "EMOLTIMEDOUT \<equiv> - 61 :: int"
abbreviation (input) "EMOLNOTCONN \<equiv> - 64 :: int"
abbreviation (input) "EMOLSHUTDOWN \<equiv> - 65 :: int"
abbreviation (input) "EMOLADDRNOTAVAIL \<equiv> - 71 :: int"
abbreviation (input) "EMOLMSGSIZE \<equiv> - 73 :: int"
abbreviation (input) "EMOLBADCALL \<equiv> - 102 :: int"
abbreviation (input) "EMOLDEADSRCDST \<equiv> - 105 :: int"
abbreviation (input) "EMOLNOTREADY \<equiv> - 106 :: int"
abbreviation (input) "EMOLBADREQUEST \<equiv> - 107 :: int"
abbreviation (input) "EMOLSRCDIED \<equiv> - 108 :: int"
abbreviation (input) "EMOLDSTDIED \<equiv> - 109 :: int"
abbreviation (input) "EMOLBADNODEID \<equiv> - 301 :: int"
abbreviation (input) "EMOLBADDCID \<equiv> - 302 :: int"
abbreviation (input) "EMOLDCNOTRUN \<equiv> - 303 :: int"
abbreviation (input) "EMOLBADPROC \<equiv> - 304 :: int"
abbreviation (input) "EMOLBADPID \<equiv> - 305 :: int"
abbreviation (input) "EMOLENDPOINT \<equiv> - 306 :: int"
abbreviation (input) "EMOLNOPROXY \<equiv> - 307 :: int"
abbreviation (input) "EMOLRMTPROC \<equiv> - 308 :: int"
abbreviation (input) "EMOLLCLPROC \<equiv> - 309 :: int"
abbreviation (input) "EMOLNOTBIND \<equiv> - 310 :: int"
abbreviation (input) "EMOLPROXYRUN \<equiv> - 311 :: int"
abbreviation (input) "EMOLACKDST \<equiv> - 312 :: int"
abbreviation (input) "EMOLACKSRC \<equiv> - 313 :: int"
abbreviation (input) "EMOLNODEBUSY \<equiv> - 315 :: int"
abbreviation (input) "EMOLNONODE \<equiv> - 316 :: int"
abbreviation (input) "EMOLDVSBUSY \<equiv> - 317 :: int"
abbreviation (input) "EMOLDVSINIT \<equiv> - 318 :: int"
abbreviation (input) "EMOLNODCNODE \<equiv> - 319 :: int"
abbreviation (input) "EMOLPROCRUN \<equiv> - 320 :: int"
abbreviation (input) "EMOLDCRUN \<equiv> - 323 :: int"
abbreviation (input) "EMOLPROCSTS \<equiv> - 324 :: int"
abbreviation (input) "EMOLNODEFREE \<equiv> - 325 :: int"
abbreviation (input) "EMOLDCNODE \<equiv> - 326 :: int"
abbreviation (input) "EMOLBADPROXY \<equiv> - 327 :: int"
abbreviation (input) "EMOLONCOPY \<equiv> - 328 :: int"
abbreviation (input) "EMOLENQUEUED \<equiv> - 329 :: int"
abbreviation (input) "EMOLOVERRUN \<equiv> - 330 :: int"
abbreviation (input) "EMOLMIGRATE \<equiv> - 332 :: int"
abbreviation (input) "EMOLPROXYFREE \<equiv> - 333 :: int"
abbreviation (input) "EMOLGRPLEADER \<equiv> - 334 :: int"
abbreviation (input) "EMOLPRIVILEGES \<equiv> - 335 :: int"
abbreviation (input) "EMOLBINDTYPE \<equiv> - 336 :: int"
abbreviation (input) "EMOLSLOTUSED \<equiv> - 337 :: int"
abbreviation (input) "EMOLBADRANGE \<equiv> - 338 :: int"
abbreviation (input) "EMOLBADVALUE \<equiv> - 339 :: int"
abbreviation (input) "EMOLBADDIR \<equiv> - 340 :: int"
abbreviation (input) "EMOLBADFILE \<equiv> - 341 :: int"
abbreviation (input) "EMOLRSCBUSY \<equiv> - 342 :: int"
abbreviation (input) "EMOLNAMESIZE \<equiv> - 343 :: int"
abbreviation (input) "EMOLALLOCMEM \<equiv> - 344 :: int"
abbreviation (input) "EMOLPROXYID \<equiv> - 345 :: int"
abbreviation (input) "EMOLALIGN \<equiv> - 347 :: int"
abbreviation (input) "EMOLWOKENUP \<equiv> - 348 :: int"
abbreviation (input) "ERESTARTSYS_NEG \<equiv> - 512 :: int" \<comment> \<open>-ERESTARTSYS of wait_event_interruptible\<close>

section \<open>Data\<close>

type_synonym timespec = "int \<times> int"
type_synonym message = "byte list"
type_synonym cpumask = "32 word"

text \<open>A reference to a process descriptor: entry \<open>i\<close> of the table of a DC, or the sender
  or receiver proxy of a proxy pair.\<close>

datatype pref = DcProc int int | Sproxy int | Rproxy int

record cmd =
  c_cmd :: int
  c_dcid :: int
  c_src :: int
  c_dst :: int
  c_snode :: int
  c_dnode :: int
  c_rcode :: int
  c_len :: int
  c_flags :: flags
  c_snd_seq :: flags
  c_ack_seq :: flags
  c_timestamp :: timespec
  c_u :: "byte list"

record priv =
  s_id :: int
  s_warn :: int
  s_level :: int
  s_trap_mask :: int
  s_ipc_from :: sys_map
  s_ipc_to :: sys_map
  s_call_mask :: int
  s_notify_pending :: sys_map
  s_int_pending :: flags
  s_sig_pending :: flags
  s_updt_pending :: flags

record proc =
  p_nr :: int
  p_endpoint :: int
  p_dcid :: int
  p_rts_flags :: flags
  p_lpid :: int
  p_nodeid :: int
  p_nodemap :: flags
  p_misc_flags :: flags
  p_getfrom :: int
  p_sendto :: int
  p_waitmigr :: int
  p_waitunbind :: int
  p_proxy :: int
  p_lclsent :: flags
  p_rmtsent :: flags
  p_lclcopy :: flags
  p_rmtcopy :: flags
  p_name :: string
  p_cpumask :: cpumask
  p_rcode :: int
  p_priv :: priv
  p_list :: "pref list"
  p_mlist :: "pref list"
  p_ulist :: "pref list"
  p_message :: message
  p_umsg :: addr
  p_pseudosem :: int
  p_rmtcmd :: cmd
  p_task :: "int option"

record dc_desc =
  dc_dcid :: int
  dc_flags :: int
  dc_nr_procs :: int
  dc_nr_tasks :: int
  dc_nr_sysprocs :: int
  dc_nr_nodes :: int
  dc_nodes :: flags
  dc_warn2proc :: int
  dc_warnmsg :: int
  dc_name :: string
  dc_cpumask :: cpumask
  dc_kref :: int

record cluster_node =
  n_nodeid :: int
  n_flags :: flags
  n_proxies :: int
  n_dcs :: flags
  n_stimestamp :: timespec
  n_rtimestamp :: timespec
  n_pxsent :: flags
  n_pxrcvd :: flags
  n_name :: string

record proxies =
  px_id :: int
  px_flags :: flags
  px_maxbytes :: int
  px_maxbcmds :: int
  px_name :: string

record dvs_usr =
  d_nr_dcs :: int
  d_nr_nodes :: int
  d_nr_procs :: int
  d_nr_tasks :: int
  d_nr_sysprocs :: int
  d_max_copybuf :: int
  d_max_copylen :: int
  d_dbglvl :: flags
  d_version :: int
  d_subver :: int
  d_size_proc :: int

text \<open>What the module uses of a Linux task: its thread group and leader, effective user,
  address space and the descriptor \<open>task_proc\<close> it is bound to.\<close>

record task =
  t_live :: bool
  t_tgid :: int
  t_leader :: "int option"
  t_euid :: int
  t_mm :: int
  t_proc :: "pref option"
  t_comm :: string
  t_parent :: int

record kstate =
  local_nodeid :: int
  dvs :: dvs_usr
  dc :: "int \<Rightarrow> dc_desc"
  node :: "int \<Rightarrow> cluster_node"
  proxies :: "int \<Rightarrow> proxies"
  procs :: "pref \<Rightarrow> proc"
  tasks :: "int \<Rightarrow> task"
  umem :: "int \<Rightarrow> memory"
  kmem :: memory
  affinity :: "int \<Rightarrow> cpumask"
  dvs_kref :: int

text \<open>
  What Linux contributes, as a parameter: the clock, whether \<open>get_user_pages\<close>
  pins the page of an address, how many bytes \<open>copy_to_user\<close> and
  \<open>copy_from_user\<close> leave uncopied, the running CPU, the result of
  \<open>send_sig_info\<close>, and \<open>sched_setaffinity\<close>.
\<close>

record env =
  e_now :: timespec
  e_gup :: "int \<Rightarrow> addr \<Rightarrow> bool"
  e_uncopied :: "int \<Rightarrow> addr \<Rightarrow> nat \<Rightarrow> nat"
  e_cpu :: nat
  e_sendsig :: "int option \<Rightarrow> int"
  e_setaffinity :: "int \<Rightarrow> cpumask \<Rightarrow> (int \<Rightarrow> cpumask) \<Rightarrow> (int \<Rightarrow> cpumask)"

section \<open>Access and update\<close>

definition upd :: "pref \<Rightarrow> (proc \<Rightarrow> proc) \<Rightarrow> kstate \<Rightarrow> kstate" where
  "upd p f s = s\<lparr>procs := (procs s)(p := f (procs s p))\<rparr>"

lemma procs_upd [simp]: "procs (upd p f s) q = (if q = p then f (procs s p) else procs s q)"
  by (simp add: upd_def)

lemma upd_frame [simp]:
  "local_nodeid (upd p f s) = local_nodeid s" "dvs (upd p f s) = dvs s" "dc (upd p f s) = dc s"
  "node (upd p f s) = node s" "proxies (upd p f s) = proxies s" "tasks (upd p f s) = tasks s"
  "umem (upd p f s) = umem s" "kmem (upd p f s) = kmem s" "affinity (upd p f s) = affinity s"
  by (simp_all add: upd_def)

abbreviation rts :: "kstate \<Rightarrow> pref \<Rightarrow> nat \<Rightarrow> bool" where
  "rts s p b \<equiv> bit (p_rts_flags (procs s p)) b"

abbreviation mis :: "kstate \<Rightarrow> pref \<Rightarrow> nat \<Rightarrow> bool" where
  "mis s p b \<equiv> bit (p_misc_flags (procs s p)) b"

abbreviation set_rts :: "nat \<Rightarrow> pref \<Rightarrow> kstate \<Rightarrow> kstate" where
  "set_rts b p s \<equiv> upd p (\<lambda>x. x\<lparr>p_rts_flags := set_bit b (p_rts_flags x)\<rparr>) s"

abbreviation clear_rts :: "nat \<Rightarrow> pref \<Rightarrow> kstate \<Rightarrow> kstate" where
  "clear_rts b p s \<equiv> upd p (\<lambda>x. x\<lparr>p_rts_flags := unset_bit b (p_rts_flags x)\<rparr>) s"

abbreviation set_mis :: "nat \<Rightarrow> pref \<Rightarrow> kstate \<Rightarrow> kstate" where
  "set_mis b p s \<equiv> upd p (\<lambda>x. x\<lparr>p_misc_flags := set_bit b (p_misc_flags x)\<rparr>) s"

abbreviation clear_mis :: "nat \<Rightarrow> pref \<Rightarrow> kstate \<Rightarrow> kstate" where
  "clear_mis b p s \<equiv> upd p (\<lambda>x. x\<lparr>p_misc_flags := unset_bit b (p_misc_flags x)\<rparr>) s"

definition IT_IS_REMOTE :: "kstate \<Rightarrow> pref \<Rightarrow> bool" where
  "IT_IS_REMOTE s p = rts s p BIT_REMOTE"

definition NBR2PTR :: "kstate \<Rightarrow> int \<Rightarrow> int \<Rightarrow> pref" where
  "NBR2PTR s dcid nr = DcProc dcid (nr + dc_nr_tasks (dc s dcid))"

definition ENDPOINT2PTR :: "kstate \<Rightarrow> int \<Rightarrow> int \<Rightarrow> pref" where
  "ENDPOINT2PTR s dcid ep = NBR2PTR s dcid (ENDPOINT_P ep)"

definition NODE2SPROXY :: "kstate \<Rightarrow> int \<Rightarrow> pref" where
  "NODE2SPROXY s n = Sproxy (n_proxies (node s n))"

definition NODE2RPROXY :: "kstate \<Rightarrow> int \<Rightarrow> pref" where
  "NODE2RPROXY s n = Rproxy (n_proxies (node s n))"

definition NODE2MAXBYTES :: "kstate \<Rightarrow> int \<Rightarrow> int" where
  "NODE2MAXBYTES s n = px_maxbytes (proxies s (n_proxies (node s n)))"

definition DVS_NOT_INIT :: "kstate \<Rightarrow> bool" where
  "DVS_NOT_INIT s \<longleftrightarrow> local_nodeid s = DVS_NO_INIT"

definition node_bit :: "int \<Rightarrow> flags \<Rightarrow> bool" where
  "node_bit n w \<longleftrightarrow> 0 \<le> n \<and> bit w (nat n)"

text \<open>The queue links: adding a descriptor at the tail of a queue, and \<open>LIST_DEL_INIT\<close>,
  which takes it off the queue it is linked on.\<close>

definition LIST_ADD_TAIL :: "pref \<Rightarrow> pref \<Rightarrow> kstate \<Rightarrow> kstate" where
  "LIST_ADD_TAIL p q s = upd q (\<lambda>x. x\<lparr>p_list := list_add_tail p (p_list x)\<rparr>) s"

definition LIST_ADD_TAIL_M :: "pref \<Rightarrow> pref \<Rightarrow> kstate \<Rightarrow> kstate" where
  "LIST_ADD_TAIL_M p q s = upd q (\<lambda>x. x\<lparr>p_mlist := list_add_tail p (p_mlist x)\<rparr>) s"

definition LIST_DEL_INIT :: "pref \<Rightarrow> kstate \<Rightarrow> kstate" where
  "LIST_DEL_INIT p s =
     s\<lparr>procs := (\<lambda>q. (procs s q)\<lparr>p_list := list_del p (p_list (procs s q))\<rparr>)\<rparr>"

definition LIST_DEL_INIT_M :: "pref \<Rightarrow> kstate \<Rightarrow> kstate" where
  "LIST_DEL_INIT_M p s =
     s\<lparr>procs := (\<lambda>q. (procs s q)\<lparr>p_mlist := list_del p (p_mlist (procs s q))\<rparr>)\<rparr>"

definition LIST_ADD_TAIL_U :: "pref \<Rightarrow> pref \<Rightarrow> kstate \<Rightarrow> kstate" where
  "LIST_ADD_TAIL_U p q s = upd q (\<lambda>x. x\<lparr>p_ulist := list_add_tail p (p_ulist x)\<rparr>) s"

definition LIST_DEL_INIT_U :: "pref \<Rightarrow> kstate \<Rightarrow> kstate" where
  "LIST_DEL_INIT_U p s =
     s\<lparr>procs := (\<lambda>q. (procs s q)\<lparr>p_ulist := list_del p (p_ulist (procs s q))\<rparr>)\<rparr>"

lemma LIST_DEL_INIT_procs [simp]:
  "procs (LIST_DEL_INIT p s) q = (procs s q)\<lparr>p_list := list_del p (p_list (procs s q))\<rparr>"
  by (simp add: LIST_DEL_INIT_def)

lemma LIST_DEL_INIT_M_procs [simp]:
  "procs (LIST_DEL_INIT_M p s) q = (procs s q)\<lparr>p_mlist := list_del p (p_mlist (procs s q))\<rparr>"
  by (simp add: LIST_DEL_INIT_M_def)

lemma LIST_DEL_INIT_frame [simp]:
  "local_nodeid (LIST_DEL_INIT p s) = local_nodeid s" "dvs (LIST_DEL_INIT p s) = dvs s"
  "dc (LIST_DEL_INIT p s) = dc s" "node (LIST_DEL_INIT p s) = node s"
  "proxies (LIST_DEL_INIT p s) = proxies s" "tasks (LIST_DEL_INIT p s) = tasks s"
  "umem (LIST_DEL_INIT p s) = umem s" "kmem (LIST_DEL_INIT p s) = kmem s"
  "affinity (LIST_DEL_INIT p s) = affinity s"
  by (simp_all add: LIST_DEL_INIT_def)

lemma LIST_DEL_INIT_M_frame [simp]:
  "local_nodeid (LIST_DEL_INIT_M p s) = local_nodeid s" "dvs (LIST_DEL_INIT_M p s) = dvs s"
  "dc (LIST_DEL_INIT_M p s) = dc s" "node (LIST_DEL_INIT_M p s) = node s"
  "proxies (LIST_DEL_INIT_M p s) = proxies s" "tasks (LIST_DEL_INIT_M p s) = tasks s"
  "umem (LIST_DEL_INIT_M p s) = umem s" "kmem (LIST_DEL_INIT_M p s) = kmem s"
  "affinity (LIST_DEL_INIT_M p s) = affinity s"
  by (simp_all add: LIST_DEL_INIT_M_def)

lemma LIST_DEL_INIT_U_procs [simp]:
  "procs (LIST_DEL_INIT_U p s) q = (procs s q)\<lparr>p_ulist := list_del p (p_ulist (procs s q))\<rparr>"
  by (simp add: LIST_DEL_INIT_U_def)

lemma LIST_DEL_INIT_U_frame [simp]:
  "local_nodeid (LIST_DEL_INIT_U p s) = local_nodeid s" "dvs (LIST_DEL_INIT_U p s) = dvs s"
  "dc (LIST_DEL_INIT_U p s) = dc s" "node (LIST_DEL_INIT_U p s) = node s"
  "proxies (LIST_DEL_INIT_U p s) = proxies s" "tasks (LIST_DEL_INIT_U p s) = tasks s"
  "umem (LIST_DEL_INIT_U p s) = umem s" "kmem (LIST_DEL_INIT_U p s) = kmem s"
  "affinity (LIST_DEL_INIT_U p s) = affinity s"
  by (simp_all add: LIST_DEL_INIT_U_def)

end
