(* ===== verification/Kernel_Ops.thy ===== *)
theory Kernel_Ops
  imports Kernel_State
begin

text \<open>
  Messages and proxy commands as byte structures, the initialisation of
  descriptors, nodes and proxy pairs (\<open>src/mol-module/mm_utils.c\<close>), and the
  macros of \<open>src/kernel/mol-macros.h\<close> that wake a process up
  (\<open>LOCAL_PROC_UP\<close>) and build a notification (\<open>BUILD_NOTIFY_MSG\<close>).
  The encoding of the command header is shown to round trip, initialisation to
  give a free descriptor on no queue, and a notification to carry its source,
  type and time stamp.
\<close>

section \<open>Messages\<close>

definition m_source :: "message \<Rightarrow> int" where "m_source m = get_i32 0 m"
definition m_type :: "message \<Rightarrow> int" where "m_type m = get_i32 4 m"
definition NOTIFY_ARG :: "message \<Rightarrow> int" where "NOTIFY_ARG m = get_i32 12 m"
definition NOTIFY_TIMESTAMP :: "message \<Rightarrow> timespec" where
  "NOTIFY_TIMESTAMP m = (get_i32 16 m, get_i32 20 m)"

definition zero_message :: message where "zero_message = replicate MSG_SIZE 0"

definition NOTIFY_FROM :: "int \<Rightarrow> int" where "NOTIFY_FROM p = NOTIFY_MESSAGE OR p"

definition long_of :: "flags \<Rightarrow> int" where "long_of w = sint w"

lemma long_of_int32 [simp]: "int32 (long_of w)"
  using sint_greater_eq [of w] sint_less [of w] by (simp add: int32_def long_of_def)

section \<open>Commands\<close>

definition v_src :: "byte list \<Rightarrow> int" where "v_src u = get_i32 0 u"
definition v_dst :: "byte list \<Rightarrow> int" where "v_dst u = get_i32 4 u"
definition v_rqtr :: "byte list \<Rightarrow> int" where "v_rqtr u = get_i32 8 u"
definition v_saddr :: "byte list \<Rightarrow> addr" where "v_saddr u = word_of_int (get_i32 12 u)"
definition v_daddr :: "byte list \<Rightarrow> addr" where "v_daddr u = word_of_int (get_i32 16 u)"
definition v_bytes :: "byte list \<Rightarrow> int" where "v_bytes u = get_i32 20 u"

text \<open>The \<open>cu_vcopy\<close> member occupies the first 24 bytes of the union \<open>c_u\<close>.\<close>

definition put_vcopy ::
  "int \<Rightarrow> int \<Rightarrow> int \<Rightarrow> addr \<Rightarrow> addr \<Rightarrow> int \<Rightarrow> byte list \<Rightarrow> byte list" where
  "put_vcopy src dst rqtr sa da n u =
     i32_bytes src @ i32_bytes dst @ i32_bytes rqtr @ i32_bytes (uint sa) @ i32_bytes (uint da)
     @ i32_bytes n @ drop 24 u"

definition copy_vcopy :: "byte list \<Rightarrow> byte list \<Rightarrow> byte list" where
  "copy_vcopy from u = take 24 from @ drop 24 u"

definition encode_cmd :: "cmd \<Rightarrow> byte list" where
  "encode_cmd c = i32_bytes (c_cmd c) @ i32_bytes (c_dcid c) @ i32_bytes (c_src c)
     @ i32_bytes (c_dst c) @ i32_bytes (c_snode c) @ i32_bytes (c_dnode c)
     @ i32_bytes (c_rcode c) @ i32_bytes (c_len c) @ i32_bytes (uint (c_flags c))
     @ i32_bytes (uint (c_snd_seq c)) @ i32_bytes (uint (c_ack_seq c))
     @ i32_bytes (fst (c_timestamp c)) @ i32_bytes (snd (c_timestamp c)) @ c_u c"

definition decode_cmd :: "byte list \<Rightarrow> cmd" where
  "decode_cmd b = \<lparr>c_cmd = get_i32 0 b, c_dcid = get_i32 4 b, c_src = get_i32 8 b,
     c_dst = get_i32 12 b, c_snode = get_i32 16 b, c_dnode = get_i32 20 b,
     c_rcode = get_i32 24 b, c_len = get_i32 28 b, c_flags = word_of_int (get_i32 32 b),
     c_snd_seq = word_of_int (get_i32 36 b), c_ack_seq = word_of_int (get_i32 40 b),
     c_timestamp = (get_i32 44 b, get_i32 48 b), c_u = take 36 (drop 52 b)\<rparr>"

definition cmd_ok :: "cmd \<Rightarrow> bool" where
  "cmd_ok c \<longleftrightarrow> int32 (c_cmd c) \<and> int32 (c_dcid c) \<and> int32 (c_src c) \<and> int32 (c_dst c)
     \<and> int32 (c_snode c) \<and> int32 (c_dnode c) \<and> int32 (c_rcode c) \<and> int32 (c_len c)
     \<and> int32 (fst (c_timestamp c)) \<and> int32 (snd (c_timestamp c)) \<and> length (c_u c) = 36"

lemma get_i32_skip: "get_i32 (n + 4) (i32_bytes v @ bs) = get_i32 n bs"
  by (simp add: get_i32_def add.commute)

lemma get_i32_here: "get_i32 0 (i32_bytes v @ bs) = bytes_i32 (i32_bytes v)"
  by (simp add: get_i32_def)

lemma word_of_bytes: "word_of_int (bytes_i32 (i32_bytes (uint w))) = (w :: flags)"
proof -
  have u: "uint w mod 2 ^ 32 = uint w"
    using uint_less32 [of w] by simp
  have "word_of_int (uint w - 2 ^ 32) = (w :: flags)"
    by (simp only: of_int_diff word_of_int_uint) simp
  with u show ?thesis by (simp add: bytes_i32_def bytes_u32_i32_bytes Let_def)
qed

lemma length_encode_cmd: "length (c_u c) = 36 \<Longrightarrow> length (encode_cmd c) = HDR_SIZE"
  by (simp add: encode_cmd_def)

lemmas get_i32_skips = get_i32_skip [of 0, simplified] get_i32_skip [of 4, simplified]
  get_i32_skip [of 8, simplified] get_i32_skip [of 12, simplified] get_i32_skip [of 16, simplified]
  get_i32_skip [of 20, simplified] get_i32_skip [of 24, simplified] get_i32_skip [of 28, simplified]
  get_i32_skip [of 32, simplified] get_i32_skip [of 36, simplified] get_i32_skip [of 40, simplified]
  get_i32_skip [of 44, simplified]

lemma vcopy_fields:
  assumes "int32 src" "int32 dst" "int32 rqtr" "int32 n"
  shows "v_src (put_vcopy src dst rqtr sa da n u) = src"
    "v_dst (put_vcopy src dst rqtr sa da n u) = dst"
    "v_rqtr (put_vcopy src dst rqtr sa da n u) = rqtr"
    "v_saddr (put_vcopy src dst rqtr sa da n u) = sa"
    "v_daddr (put_vcopy src dst rqtr sa da n u) = da"
    "v_bytes (put_vcopy src dst rqtr sa da n u) = n"
  using assms
  by (simp_all add: v_src_def v_dst_def v_rqtr_def v_saddr_def v_daddr_def v_bytes_def
      put_vcopy_def get_i32_skips get_i32_here bytes_i32_i32_bytes word_of_bytes)

section \<open>Copies between the kernel and the caller\<close>

text \<open>\<open>copy_to_user\<close> and \<open>copy_from_user\<close> return the number of bytes they could not
  copy; the rest has been copied, and \<open>copy_from_user\<close> zeroes what it could not read.\<close>

definition set_umem :: "int \<Rightarrow> memory \<Rightarrow> kstate \<Rightarrow> kstate" where
  "set_umem mm m s = s\<lparr>umem := (umem s)(mm := m)\<rparr>"

definition copy_to_user :: "env \<Rightarrow> int \<Rightarrow> addr \<Rightarrow> byte list \<Rightarrow> kstate \<Rightarrow> kstate \<times> int" where
  "copy_to_user E mm a bs s =
     (let n = min (e_uncopied E mm a (length bs)) (length bs) in
      (set_umem mm (write_mem a (take (length bs - n) bs) (umem s mm)) s, int n))"

definition copy_from_user :: "env \<Rightarrow> int \<Rightarrow> addr \<Rightarrow> nat \<Rightarrow> kstate \<Rightarrow> byte list \<times> int" where
  "copy_from_user E mm a len s =
     (let n = min (e_uncopied E mm a len) len in
      (read_mem (umem s mm) a (len - n) @ replicate n 0, int n))"

lemma set_umem_frame [simp]:
  "procs (set_umem mm m s) = procs s" "local_nodeid (set_umem mm m s) = local_nodeid s"
  "dvs (set_umem mm m s) = dvs s" "dc (set_umem mm m s) = dc s" "node (set_umem mm m s) = node s"
  "proxies (set_umem mm m s) = proxies s" "tasks (set_umem mm m s) = tasks s"
  "kmem (set_umem mm m s) = kmem s" "affinity (set_umem mm m s) = affinity s"
  "umem (set_umem mm m s) = (umem s)(mm := m)"
  by (simp_all add: set_umem_def)

lemma copy_to_user_frame [simp]:
  "procs (fst (copy_to_user E mm a bs s)) = procs s"
  "local_nodeid (fst (copy_to_user E mm a bs s)) = local_nodeid s"
  "dvs (fst (copy_to_user E mm a bs s)) = dvs s" "dc (fst (copy_to_user E mm a bs s)) = dc s"
  "node (fst (copy_to_user E mm a bs s)) = node s"
  "proxies (fst (copy_to_user E mm a bs s)) = proxies s"
  "tasks (fst (copy_to_user E mm a bs s)) = tasks s"
  by (simp_all add: copy_to_user_def Let_def)

lemma copy_to_user_ok:
  "e_uncopied E mm a (length bs) = 0 \<Longrightarrow>
   copy_to_user E mm a bs s = (set_umem mm (write_mem a bs (umem s mm)) s, 0)"
  by (simp add: copy_to_user_def)

definition mm_of_task :: "kstate \<Rightarrow> int \<Rightarrow> int" where
  "mm_of_task s tid = t_mm (tasks s tid)"

text \<open>The address space of a bound process, through \<open>p_task->mm\<close>; the code dereferences a
  NULL \<open>p_task\<close>, which the model sends to an address space no task has.\<close>

definition mm_of :: "kstate \<Rightarrow> pref \<Rightarrow> int" where
  "mm_of s p = (case p_task (procs s p) of Some t \<Rightarrow> t_mm (tasks s t) | None \<Rightarrow> - 1)"

section \<open>Initialisation\<close>

definition zero_chunks :: "nat \<Rightarrow> sys_map \<Rightarrow> sys_map" where
  "zero_chunks k m = replicate (min k (length m)) 0 @ drop k m"

definition init_cmd :: "int \<Rightarrow> cmd \<Rightarrow> cmd" where
  "init_cmd dcid c = c\<lparr>c_cmd := CMD_NONE, c_dcid := dcid, c_src := NONE, c_dst := NONE,
     c_snode := LOCALNODE, c_dnode := LOCALNODE, c_len := 0, c_rcode := OK,
     c_u := put_vcopy NONE NONE NONE 0 0 0 (c_u c)\<rparr>"

definition init_priv_maps :: "nat \<Rightarrow> priv \<Rightarrow> priv" where
  "init_priv_maps k v = v\<lparr>s_notify_pending := zero_chunks k (s_notify_pending v),
     s_ipc_from := zero_chunks k (s_ipc_from v), s_ipc_to := zero_chunks k (s_ipc_to v)\<rparr>"

definition init_priv :: "priv \<Rightarrow> priv" where
  "init_priv v = v\<lparr>s_id := 0, s_warn := NONE, s_level := 0, s_trap_mask := 0, s_call_mask := 0,
     s_int_pending := 0, s_sig_pending := 0\<rparr>"

definition init_proc_desc :: "kstate \<Rightarrow> int \<Rightarrow> int \<Rightarrow> proc \<Rightarrow> proc" where
  "init_proc_desc s dcid index p =
    (let p1 = (if dcid = PROXY_NO_DC then p\<lparr>p_nr := index\<rparr>
               else p\<lparr>p_nr := index - dc_nr_tasks (dc s dcid),
                      p_priv := init_priv_maps (BITMAP_CHUNKS (nat (d_nr_sysprocs (dvs s))))
                                  (p_priv p)\<rparr>)
     in p1\<lparr>p_priv := init_priv (p_priv p1), p_dcid := dcid, p_lpid := PROC_NO_PID,
         p_rts_flags := SLOT_FREE, p_misc_flags := 0, p_nodeid := - 1, p_nodemap := 0,
         p_rcode := OK, p_message := zero_message, p_umsg := 0, p_getfrom := NONE,
         p_sendto := NONE, p_waitmigr := NONE, p_waitunbind := NONE, p_proxy := NONE,
         p_cpumask := - 1, p_pseudosem := 0, p_list := [], p_mlist := [], p_ulist := [],
         p_rmtcmd := init_cmd dcid (p_rmtcmd p1), p_lclsent := 0, p_rmtsent := 0,
         p_lclcopy := 0, p_rmtcopy := 0, p_name := ''$noname'', p_task := None\<rparr>)"

definition clear_node :: "cluster_node \<Rightarrow> cluster_node" where
  "clear_node n = n\<lparr>n_name := ''NONAME'', n_flags := 0, n_dcs := 0, n_proxies := NO_PROXIES,
     n_stimestamp := (0, 0), n_rtimestamp := (0, 0), n_pxsent := 0, n_pxrcvd := 0\<rparr>"

definition init_node :: "int \<Rightarrow> kstate \<Rightarrow> kstate" where
  "init_node nodeid s =
     s\<lparr>node := (node s)(nodeid := clear_node ((node s nodeid)\<lparr>n_nodeid := nodeid\<rparr>))\<rparr>"

definition clear_proxies :: "int \<Rightarrow> kstate \<Rightarrow> kstate" where
  "clear_proxies px s =
    (let s1 = s\<lparr>proxies := (proxies s)(px := (proxies s px)\<lparr>px_flags := 0,
                  px_maxbytes := MAXCOPYBUF, px_maxbcmds := 0, px_name := ''NONAME''\<rparr>)\<rparr>;
         s2 = upd (Sproxy px) (init_proc_desc s PROXY_NO_DC (px_id (proxies s px))) s1;
         s3 = upd (Rproxy px) (init_proc_desc s PROXY_NO_DC (px_id (proxies s px))) s2;
         s4 = upd (Sproxy px) (\<lambda>x. x\<lparr>p_rts_flags := SLOT_FREE\<rparr>) s3
     in upd (Rproxy px) (\<lambda>x. x\<lparr>p_rts_flags := SLOT_FREE\<rparr>) s4)"

definition init_proxies :: "int \<Rightarrow> kstate \<Rightarrow> kstate" where
  "init_proxies px s =
    (let s1 = s\<lparr>proxies := (proxies s)(px := (proxies s px)\<lparr>px_id := px\<rparr>)\<rparr>;
         s2 = clear_proxies px s1;
         s3 = upd (Sproxy px) (\<lambda>x. x\<lparr>p_pseudosem := 1\<rparr>) s2
     in upd (Rproxy px) (\<lambda>x. x\<lparr>p_pseudosem := 1\<rparr>) s3)"

text \<open>The static tables of the module before any call: all zero, but for the default sizes of
  \<open>dvs\<close>.\<close>

definition zero_cmd :: cmd where
  "zero_cmd = \<lparr>c_cmd = 0, c_dcid = 0, c_src = 0, c_dst = 0, c_snode = 0, c_dnode = 0, c_rcode = 0,
     c_len = 0, c_flags = 0, c_snd_seq = 0, c_ack_seq = 0, c_timestamp = (0, 0),
     c_u = zero_message\<rparr>"

definition zero_priv :: priv where
  "zero_priv = \<lparr>s_id = 0, s_warn = 0, s_level = 0, s_trap_mask = 0, s_ipc_from = empty_sys_map,
     s_ipc_to = empty_sys_map, s_call_mask = 0, s_notify_pending = empty_sys_map,
     s_int_pending = 0, s_sig_pending = 0, s_updt_pending = 0\<rparr>"

definition zero_proc :: proc where
  "zero_proc = \<lparr>p_nr = 0, p_endpoint = 0, p_dcid = 0, p_rts_flags = 0, p_lpid = 0, p_nodeid = 0,
     p_nodemap = 0, p_misc_flags = 0, p_getfrom = 0, p_sendto = 0, p_waitmigr = 0,
     p_waitunbind = 0, p_proxy = 0, p_lclsent = 0, p_rmtsent = 0, p_lclcopy = 0, p_rmtcopy = 0,
     p_name = '''', p_cpumask = 0, p_rcode = 0, p_priv = zero_priv, p_list = [], p_mlist = [],
     p_ulist = [], p_message = zero_message, p_umsg = 0, p_pseudosem = 0, p_rmtcmd = zero_cmd,
     p_task = None\<rparr>"

definition zero_dc :: dc_desc where
  "zero_dc = \<lparr>dc_dcid = 0, dc_flags = 0, dc_nr_procs = 0, dc_nr_tasks = 0, dc_nr_sysprocs = 0,
     dc_nr_nodes = 0, dc_nodes = 0, dc_warn2proc = 0, dc_warnmsg = 0, dc_name = '''',
     dc_cpumask = 0, dc_kref = 0\<rparr>"

definition zero_node :: cluster_node where
  "zero_node = \<lparr>n_nodeid = 0, n_flags = 0, n_proxies = 0, n_dcs = 0, n_stimestamp = (0, 0),
     n_rtimestamp = (0, 0), n_pxsent = 0, n_pxrcvd = 0, n_name = ''''\<rparr>"

definition zero_proxies :: proxies where
  "zero_proxies = \<lparr>px_id = 0, px_flags = 0, px_maxbytes = 0, px_maxbcmds = 0, px_name = ''''\<rparr>"

definition zero_dvs :: dvs_usr where
  "zero_dvs = \<lparr>d_nr_dcs = 0, d_nr_nodes = 0, d_nr_procs = 0, d_nr_tasks = 0, d_nr_sysprocs = 0,
     d_max_copybuf = 0, d_max_copylen = 0, d_dbglvl = 0, d_version = 0, d_subver = 0,
     d_size_proc = 0\<rparr>"

definition boot_dvs :: dvs_usr where
  "boot_dvs = \<lparr>d_nr_dcs = NR_DCS, d_nr_nodes = NR_NODES, d_nr_procs = NR_PROCS, d_nr_tasks = NR_TASKS,
     d_nr_sysprocs = NR_SYS_PROCS, d_max_copybuf = MAXCOPYBUF, d_max_copylen = MAXCOPYLEN,
     d_dbglvl = 520966, d_version = 4, d_subver = 1, d_size_proc = 0\<rparr>"

definition no_task :: task where
  "no_task = \<lparr>t_live = False, t_tgid = 0, t_leader = None, t_euid = 0, t_mm = 0, t_proc = None,
     t_comm = '''', t_parent = 0\<rparr>"

definition boot_state :: kstate where
  "boot_state = \<lparr>local_nodeid = DVS_NO_INIT, dvs = boot_dvs, dc = (\<lambda>_. zero_dc),
     node = (\<lambda>_. zero_node), proxies = (\<lambda>_. zero_proxies), procs = (\<lambda>_. zero_proc),
     tasks = (\<lambda>_. no_task), umem = (\<lambda>_ _. 0), kmem = (\<lambda>_. 0), affinity = (\<lambda>_. 0), dvs_kref = 0\<rparr>"

section \<open>Waking up and notifying\<close>

definition inherit_cpu :: "env \<Rightarrow> pref \<Rightarrow> kstate \<Rightarrow> kstate" where
  "inherit_cpu E p s =
     s\<lparr>affinity := e_setaffinity E (p_lpid (procs s p)) (set_bit (e_cpu E) 0) (affinity s)\<rparr>"

definition reset_cpu :: "env \<Rightarrow> pref \<Rightarrow> kstate \<Rightarrow> kstate" where
  "reset_cpu E p s =
     s\<lparr>affinity := e_setaffinity E (p_lpid (procs s p)) (p_cpumask (procs s p)) (affinity s)\<rparr>"

definition LOCAL_PROC_UP :: "env \<Rightarrow> pref \<Rightarrow> int \<Rightarrow> kstate \<Rightarrow> kstate" where
  "LOCAL_PROC_UP E p rcode s =
     upd p (\<lambda>x. x\<lparr>p_rcode := rcode, p_pseudosem := p_pseudosem x + 1\<rparr>) (inherit_cpu E p s)"

definition READY_UP_RCODE :: "env \<Rightarrow> pref \<Rightarrow> int \<Rightarrow> kstate \<Rightarrow> kstate" where
  "READY_UP_RCODE E p rcode s =
     upd p (\<lambda>x. x\<lparr>p_rcode := rcode, p_pseudosem := p_pseudosem x + 1\<rparr>) (inherit_cpu E p s)"

lemma inherit_cpu_frame [simp]:
  "procs (inherit_cpu E p s) = procs s" "local_nodeid (inherit_cpu E p s) = local_nodeid s"
  "dvs (inherit_cpu E p s) = dvs s" "dc (inherit_cpu E p s) = dc s"
  "node (inherit_cpu E p s) = node s" "proxies (inherit_cpu E p s) = proxies s"
  "tasks (inherit_cpu E p s) = tasks s" "umem (inherit_cpu E p s) = umem s"
  "kmem (inherit_cpu E p s) = kmem s"
  by (simp_all add: inherit_cpu_def)

lemma reset_cpu_frame [simp]:
  "procs (reset_cpu E p s) = procs s" "local_nodeid (reset_cpu E p s) = local_nodeid s"
  "dvs (reset_cpu E p s) = dvs s" "dc (reset_cpu E p s) = dc s"
  "node (reset_cpu E p s) = node s" "proxies (reset_cpu E p s) = proxies s"
  "tasks (reset_cpu E p s) = tasks s" "umem (reset_cpu E p s) = umem s"
  "kmem (reset_cpu E p s) = kmem s"
  by (simp_all add: reset_cpu_def)

lemma LOCAL_PROC_UP_procs [simp]:
  "procs (LOCAL_PROC_UP E p rc s) q =
    (if q = p then (procs s p)\<lparr>p_rcode := rc, p_pseudosem := p_pseudosem (procs s p) + 1\<rparr>
     else procs s q)"
  by (simp add: LOCAL_PROC_UP_def)

lemma LOCAL_PROC_UP_frame [simp]:
  "local_nodeid (LOCAL_PROC_UP E p rc s) = local_nodeid s" "dvs (LOCAL_PROC_UP E p rc s) = dvs s"
  "dc (LOCAL_PROC_UP E p rc s) = dc s" "node (LOCAL_PROC_UP E p rc s) = node s"
  "proxies (LOCAL_PROC_UP E p rc s) = proxies s" "tasks (LOCAL_PROC_UP E p rc s) = tasks s"
  "umem (LOCAL_PROC_UP E p rc s) = umem s" "kmem (LOCAL_PROC_UP E p rc s) = kmem s"
  by (simp_all add: LOCAL_PROC_UP_def)

lemma READY_UP_RCODE_eq [simp]: "READY_UP_RCODE E p rc s = LOCAL_PROC_UP E p rc s"
  by (simp add: READY_UP_RCODE_def LOCAL_PROC_UP_def)

text \<open>
  \<open>BUILD_NOTIFY_MSG(c_ptr, s_ep, s_nr, d_ptr)\<close> fills the message buffer of the
  destination; the \<open>SYSTEM\<close> case has no \<open>break\<close> and runs on into \<open>SLOTS\<close>.
\<close>

definition notify_arg :: "int \<Rightarrow> proc \<Rightarrow> proc" where
  "notify_arg s_nr x =
    (if s_nr = HARDWARE then
       x\<lparr>p_message := put_i32 12 (long_of (s_int_pending (p_priv x))) (p_message x),
         p_priv := (p_priv x)\<lparr>s_int_pending := 0\<rparr>\<rparr>
     else
       let x1 = (if s_nr = SYSTEM then
             x\<lparr>p_message := put_i32 12 (long_of (s_sig_pending (p_priv x))) (p_message x),
               p_priv := (p_priv x)\<lparr>s_sig_pending := 0\<rparr>\<rparr> else x)
       in if s_nr = SYSTEM \<or> s_nr = SLOTS then
             x1\<lparr>p_message := put_i32 12 (long_of (s_updt_pending (p_priv x1))) (p_message x1),
                p_priv := (p_priv x1)\<lparr>s_updt_pending := 0\<rparr>\<rparr> else x1)"

definition BUILD_NOTIFY_MSG :: "env \<Rightarrow> pref \<Rightarrow> int \<Rightarrow> int \<Rightarrow> pref \<Rightarrow> kstate \<Rightarrow> kstate" where
  "BUILD_NOTIFY_MSG E c s_ep s_nr d s =
    (let s1 = upd d (\<lambda>x. x\<lparr>p_message :=
                put_i32 0 (if c = d then HARDWARE else s_ep) (p_message x)\<rparr>) s;
         s2 = upd d (\<lambda>x. x\<lparr>p_message := put_i32 4 (NOTIFY_FROM s_nr) (p_message x)\<rparr>) s1;
         s3 = upd d (\<lambda>x. x\<lparr>p_message :=
                put_i32 20 (snd (e_now E)) (put_i32 16 (fst (e_now E)) (p_message x))\<rparr>) s2
     in upd d (notify_arg s_nr) s3)"

lemma int32_iff: "int32 v \<longleftrightarrow> signed_take_bit 31 v = v"
  by (simp add: int32_def signed_take_bit_int_eq_self_iff)

lemma signed_take_bit_int_or:
  "signed_take_bit n (a OR b) = signed_take_bit n a OR signed_take_bit n (b :: int)"
  by (rule bit_eqI) (auto simp: bit_signed_take_bit_iff bit_or_iff)

lemma int32_NOTIFY_FROM [simp]: "int32 n \<Longrightarrow> int32 (NOTIFY_FROM n)"
  by (simp add: int32_iff NOTIFY_FROM_def signed_take_bit_int_or)

lemma length_notify_arg [simp]:
  "length (p_message x) = MSG_SIZE \<Longrightarrow> length (p_message (notify_arg n x)) = MSG_SIZE"
  by (simp add: notify_arg_def Let_def)

lemma get_notify_arg:
  "length (p_message x) = MSG_SIZE \<Longrightarrow> off + 4 \<le> 12 \<or> 16 \<le> off \<Longrightarrow>
   get_i32 off (p_message (notify_arg n x)) = get_i32 off (p_message x)"
  by (auto simp: notify_arg_def Let_def get_put_i32_other)

lemma notify_arg_frame [simp]:
  "p_rts_flags (notify_arg n x) = p_rts_flags x" "p_misc_flags (notify_arg n x) = p_misc_flags x"
  "p_list (notify_arg n x) = p_list x" "p_endpoint (notify_arg n x) = p_endpoint x"
  "p_umsg (notify_arg n x) = p_umsg x" "p_task (notify_arg n x) = p_task x"
  "p_getfrom (notify_arg n x) = p_getfrom x" "p_rcode (notify_arg n x) = p_rcode x"
  "p_pseudosem (notify_arg n x) = p_pseudosem x" "p_mlist (notify_arg n x) = p_mlist x"
  "p_sendto (notify_arg n x) = p_sendto x" "p_rmtcmd (notify_arg n x) = p_rmtcmd x"
  "p_nodeid (notify_arg n x) = p_nodeid x" "p_lclsent (notify_arg n x) = p_lclsent x"
  "p_rmtsent (notify_arg n x) = p_rmtsent x" "p_dcid (notify_arg n x) = p_dcid x"
  "s_notify_pending (p_priv (notify_arg n x)) = s_notify_pending (p_priv x)"
  "s_id (p_priv (notify_arg n x)) = s_id (p_priv x)"
  by (simp_all add: notify_arg_def Let_def)

lemma BUILD_NOTIFY_MSG_frame [simp]:
  "local_nodeid (BUILD_NOTIFY_MSG E c e n d s) = local_nodeid s"
  "dvs (BUILD_NOTIFY_MSG E c e n d s) = dvs s" "dc (BUILD_NOTIFY_MSG E c e n d s) = dc s"
  "node (BUILD_NOTIFY_MSG E c e n d s) = node s" "proxies (BUILD_NOTIFY_MSG E c e n d s) = proxies s"
  "tasks (BUILD_NOTIFY_MSG E c e n d s) = tasks s" "umem (BUILD_NOTIFY_MSG E c e n d s) = umem s"
  "kmem (BUILD_NOTIFY_MSG E c e n d s) = kmem s"
  by (simp_all add: BUILD_NOTIFY_MSG_def Let_def)

lemma BUILD_NOTIFY_MSG_other [simp]: "q \<noteq> d \<Longrightarrow> procs (BUILD_NOTIFY_MSG E c e n d s) q = procs s q"
  by (simp add: BUILD_NOTIFY_MSG_def Let_def)

lemma BUILD_NOTIFY_MSG_fields [simp]:
  "p_rts_flags (procs (BUILD_NOTIFY_MSG E c e n d s) q) = p_rts_flags (procs s q)"
  "p_misc_flags (procs (BUILD_NOTIFY_MSG E c e n d s) q) = p_misc_flags (procs s q)"
  "p_list (procs (BUILD_NOTIFY_MSG E c e n d s) q) = p_list (procs s q)"
  "p_mlist (procs (BUILD_NOTIFY_MSG E c e n d s) q) = p_mlist (procs s q)"
  "p_endpoint (procs (BUILD_NOTIFY_MSG E c e n d s) q) = p_endpoint (procs s q)"
  "p_umsg (procs (BUILD_NOTIFY_MSG E c e n d s) q) = p_umsg (procs s q)"
  "p_task (procs (BUILD_NOTIFY_MSG E c e n d s) q) = p_task (procs s q)"
  "p_getfrom (procs (BUILD_NOTIFY_MSG E c e n d s) q) = p_getfrom (procs s q)"
  "p_sendto (procs (BUILD_NOTIFY_MSG E c e n d s) q) = p_sendto (procs s q)"
  "p_rcode (procs (BUILD_NOTIFY_MSG E c e n d s) q) = p_rcode (procs s q)"
  "p_pseudosem (procs (BUILD_NOTIFY_MSG E c e n d s) q) = p_pseudosem (procs s q)"
  "p_rmtcmd (procs (BUILD_NOTIFY_MSG E c e n d s) q) = p_rmtcmd (procs s q)"
  "p_nodeid (procs (BUILD_NOTIFY_MSG E c e n d s) q) = p_nodeid (procs s q)"
  "p_dcid (procs (BUILD_NOTIFY_MSG E c e n d s) q) = p_dcid (procs s q)"
  "p_lclsent (procs (BUILD_NOTIFY_MSG E c e n d s) q) = p_lclsent (procs s q)"
  "p_rmtsent (procs (BUILD_NOTIFY_MSG E c e n d s) q) = p_rmtsent (procs s q)"
  "s_notify_pending (p_priv (procs (BUILD_NOTIFY_MSG E c e n d s) q)) = s_notify_pending (p_priv (procs s q))"
  "s_id (p_priv (procs (BUILD_NOTIFY_MSG E c e n d s) q)) = s_id (p_priv (procs s q))"
  by (simp_all add: BUILD_NOTIFY_MSG_def Let_def)

lemma BUILD_NOTIFY_MSG_message:
  assumes "length (p_message (procs s d)) = MSG_SIZE" "int32 e" "int32 n"
    "int32 (fst (e_now E))" "int32 (snd (e_now E))"
  shows "length (p_message (procs (BUILD_NOTIFY_MSG E c e n d s) d)) = MSG_SIZE"
    "m_source (p_message (procs (BUILD_NOTIFY_MSG E c e n d s) d)) = (if c = d then HARDWARE else e)"
    "m_type (p_message (procs (BUILD_NOTIFY_MSG E c e n d s) d)) = NOTIFY_FROM n"
    "NOTIFY_TIMESTAMP (p_message (procs (BUILD_NOTIFY_MSG E c e n d s) d)) = e_now E"
proof -
  have h: "int32 (if c = d then HARDWARE else e)" using assms(2) by (simp add: int32_def)
  show "length (p_message (procs (BUILD_NOTIFY_MSG E c e n d s) d)) = MSG_SIZE"
    using assms(1) by (simp add: BUILD_NOTIFY_MSG_def Let_def)
  show "m_source (p_message (procs (BUILD_NOTIFY_MSG E c e n d s) d)) = (if c = d then HARDWARE else e)"
    "m_type (p_message (procs (BUILD_NOTIFY_MSG E c e n d s) d)) = NOTIFY_FROM n"
    "NOTIFY_TIMESTAMP (p_message (procs (BUILD_NOTIFY_MSG E c e n d s) d)) = e_now E"
    using assms h
    by (simp_all only: BUILD_NOTIFY_MSG_def Let_def procs_upd m_source_def m_type_def
        NOTIFY_TIMESTAMP_def if_True simp_thms) (simp_all add: get_notify_arg byte_simps)
qed

text \<open>The command header a proxy exchanges with the kernel round trips: decoding the bytes
  of an encoded command whose fields fit a C int gives the command back.\<close>

theorem decode_encode_cmd:
  assumes "cmd_ok c"
  shows "decode_cmd (encode_cmd c) = c"
  using assms
  by (cases c) (simp add: decode_cmd_def encode_cmd_def cmd_ok_def get_i32_skips get_i32_here
      bytes_i32_i32_bytes word_of_bytes)

theorem decode_encode_cmd_witness:
  "decode_cmd (encode_cmd (zero_cmd\<lparr>c_cmd := CMD_SEND_ACK, c_rcode := EMOLDSTDIED\<rparr>))
     = zero_cmd\<lparr>c_cmd := CMD_SEND_ACK, c_rcode := EMOLDSTDIED\<rparr>"
  by (rule decode_encode_cmd) (simp add: cmd_ok_def zero_cmd_def zero_message_def int32_def)

end
