(* ===== verification/User_Copy.thy ===== *)
theory User_Copy
  imports Kernel_Ops
begin

text \<open>
  The page-wise copies of \<open>src/mol-module/mm_utils.c\<close> between two user
  spaces (\<open>copy_usr2usr\<close>) and between a kernel thread and a user space
  (\<open>copy_krn2usr\<close>, \<open>copy_usr2krn\<close>).  Each loop maps one page of either
  side, copies what both pages hold, and goes on; when a message is copied the
  loop overwrites \<open>m_source\<close> with the sender.  The lemmas show that the loops
  end, and that the chunked copy equals one block copy.
\<close>

abbreviation (input) "PAGE_SIZE \<equiv> 4096 :: nat"

definition page_off :: "addr \<Rightarrow> nat" where
  "page_off a = unat a mod PAGE_SIZE"

definition chunk_len :: "addr \<Rightarrow> addr \<Rightarrow> nat \<Rightarrow> nat" where
  "chunk_len sa da n = min (min (PAGE_SIZE - page_off sa) (PAGE_SIZE - page_off da)) n"

lemma page_off_less [simp]: "page_off a < PAGE_SIZE"
  by (simp add: page_off_def)

lemma chunk_len_pos: "0 < n \<Longrightarrow> 0 < chunk_len sa da n"
  using page_off_less [of sa] page_off_less [of da] by (simp add: chunk_len_def)

lemma chunk_len_le [simp]: "chunk_len sa da n \<le> n"
  by (simp add: chunk_len_def)

text \<open>The store to \<open>m_source\<close> through the mapped destination page: bytes beyond the page
  end fall outside the mapping.\<close>

definition fill_source :: "int \<Rightarrow> addr \<Rightarrow> memory \<Rightarrow> memory" where
  "fill_source source da m = write_mem da (take (PAGE_SIZE - page_off da) (i32_bytes source)) m"

function usr2usr_loop ::
  "env \<Rightarrow> int \<Rightarrow> int \<Rightarrow> addr \<Rightarrow> int \<Rightarrow> addr \<Rightarrow> nat \<Rightarrow> (int \<Rightarrow> memory) \<Rightarrow> (int \<Rightarrow> memory) \<times> int" where
  "usr2usr_loop E source smm sa dmm da n M =
    (if n = 0 then (M, OK)
     else if \<not> e_gup E smm sa then (M, EMOLADDRNOTAVAIL)
     else if \<not> e_gup E dmm da then (M, EMOLADDRNOTAVAIL)
     else let len = chunk_len sa da n;
              M1 = M(dmm := write_mem da (read_mem (M smm) sa len) (M dmm));
              M2 = (if source \<noteq> NONE \<and> n = MSG_SIZE
                    then M1(dmm := fill_source source da (M1 dmm)) else M1)
          in usr2usr_loop E source smm (sa + of_nat len) dmm (da + of_nat len) (n - len) M2)"
  by pat_completeness auto
termination
  using chunk_len_pos by (relation "measure (\<lambda>(_, _, _, _, _, _, n, _). n)") auto

declare usr2usr_loop.simps [simp del]

definition copy_usr2usr ::
  "env \<Rightarrow> int \<Rightarrow> pref \<Rightarrow> addr \<Rightarrow> pref \<Rightarrow> addr \<Rightarrow> int \<Rightarrow> kstate \<Rightarrow> kstate \<times> int" where
  "copy_usr2usr E source src sa dst da bytes s =
    (if bytes < 0 \<or> bytes > MAXCOPYLEN then (s, EMOLRANGE)
     else let (M, ret) = usr2usr_loop E source (mm_of s src) sa (mm_of s dst) da (nat bytes) (umem s)
          in (s\<lparr>umem := M\<rparr>, ret))"

text \<open>\<open>copy_krn2usr\<close> and \<open>copy_usr2krn\<close>: the kernel side is addressed by
  \<open>src_addr + src_off\<close>, an offset on top of an address that already has it, except for
  whole pages.\<close>

definition krn_pos :: "addr \<Rightarrow> nat \<Rightarrow> addr" where
  "krn_pos ka len = (if len = PAGE_SIZE then ka else ka + of_nat (page_off ka))"

definition npages :: "addr \<Rightarrow> nat \<Rightarrow> nat" where
  "npages a n = (page_off a + n + PAGE_SIZE - 1) div PAGE_SIZE"

function krn2usr_loop ::
  "env \<Rightarrow> int \<Rightarrow> memory \<Rightarrow> addr \<Rightarrow> int \<Rightarrow> addr \<Rightarrow> nat \<Rightarrow> memory \<Rightarrow> memory \<times> int" where
  "krn2usr_loop E source K ka dmm da n m =
    (if n = 0 then (m, OK)
     else if \<not> e_gup E dmm da then (m, EMOLADDRNOTAVAIL)
     else let len = chunk_len ka da n;
              m1 = write_mem da (read_mem K (krn_pos ka len) len) m;
              m2 = (if source \<noteq> NONE \<and> n = MSG_SIZE then fill_source source da m1 else m1)
          in krn2usr_loop E source K (ka + of_nat len) dmm (da + of_nat len) (n - len) m2)"
  by pat_completeness auto
termination
  using chunk_len_pos by (relation "measure (\<lambda>(_, _, _, _, _, _, n, _). n)") auto

declare krn2usr_loop.simps [simp del]

definition copy_krn2usr ::
  "env \<Rightarrow> int \<Rightarrow> addr \<Rightarrow> pref \<Rightarrow> addr \<Rightarrow> int \<Rightarrow> kstate \<Rightarrow> kstate \<times> int" where
  "copy_krn2usr E source ka dst da bytes s =
    (if bytes < 0 \<or> bytes > MAXCOPYLEN then (s, EMOLRANGE)
     else let n = nat bytes; src_npag = npages ka n; dst_npag = npages da n; dmm = mm_of s dst in
      if src_npag \<noteq> dst_npag then (s, EMOLALIGN)
      else if src_npag \<noteq> 1 \<and> page_off ka \<noteq> page_off da \<and> n \<noteq> MSG_SIZE then (s, EMOLALIGN)
      else let (m, ret) = krn2usr_loop E source (kmem s) ka dmm da n (umem s dmm)
           in (set_umem dmm m s, ret))"

function usr2krn_loop ::
  "env \<Rightarrow> int \<Rightarrow> int \<Rightarrow> memory \<Rightarrow> addr \<Rightarrow> addr \<Rightarrow> nat \<Rightarrow> memory \<Rightarrow> memory \<times> int" where
  "usr2krn_loop E source smm U sa ka n K =
    (if n = 0 then (K, OK)
     else if \<not> e_gup E smm sa then (K, EMOLADDRNOTAVAIL)
     else let len = chunk_len sa ka n;
              K1 = write_mem (krn_pos ka len) (read_mem U sa len) K;
              K2 = (if source \<noteq> NONE \<and> n = MSG_SIZE
                    then write_mem (ka + of_nat (page_off ka)) (i32_bytes source) K1 else K1)
          in usr2krn_loop E source smm U (sa + of_nat len) (ka + of_nat len) (n - len) K2)"
  by pat_completeness auto
termination
  using chunk_len_pos by (relation "measure (\<lambda>(_, _, _, _, _, _, n, _). n)") auto

declare usr2krn_loop.simps [simp del]

definition copy_usr2krn ::
  "env \<Rightarrow> int \<Rightarrow> pref \<Rightarrow> addr \<Rightarrow> addr \<Rightarrow> int \<Rightarrow> kstate \<Rightarrow> kstate \<times> int" where
  "copy_usr2krn E source src sa ka bytes s =
    (if bytes < 0 \<or> bytes > MAXCOPYLEN then (s, EMOLRANGE)
     else if page_off sa \<noteq> page_off ka then (s, EMOLALIGN)
     else let smm = mm_of s src;
              (K, ret) = usr2krn_loop E source smm (umem s smm) sa ka (nat bytes) (kmem s)
          in (s\<lparr>kmem := K\<rparr>, ret))"

section \<open>What the copies change\<close>

lemma copy_usr2usr_frame [simp]:
  "procs (fst (copy_usr2usr E src p sa q da n s)) = procs s"
  "local_nodeid (fst (copy_usr2usr E src p sa q da n s)) = local_nodeid s"
  "dvs (fst (copy_usr2usr E src p sa q da n s)) = dvs s"
  "dc (fst (copy_usr2usr E src p sa q da n s)) = dc s"
  "node (fst (copy_usr2usr E src p sa q da n s)) = node s"
  "proxies (fst (copy_usr2usr E src p sa q da n s)) = proxies s"
  "tasks (fst (copy_usr2usr E src p sa q da n s)) = tasks s"
  "kmem (fst (copy_usr2usr E src p sa q da n s)) = kmem s"
  "affinity (fst (copy_usr2usr E src p sa q da n s)) = affinity s"
  by (simp_all add: copy_usr2usr_def split_beta Let_def)

lemma copy_krn2usr_frame [simp]:
  "procs (fst (copy_krn2usr E src ka q da n s)) = procs s"
  "local_nodeid (fst (copy_krn2usr E src ka q da n s)) = local_nodeid s"
  "dvs (fst (copy_krn2usr E src ka q da n s)) = dvs s"
  "dc (fst (copy_krn2usr E src ka q da n s)) = dc s"
  "node (fst (copy_krn2usr E src ka q da n s)) = node s"
  "proxies (fst (copy_krn2usr E src ka q da n s)) = proxies s"
  "tasks (fst (copy_krn2usr E src ka q da n s)) = tasks s"
  by (simp_all add: copy_krn2usr_def split_beta Let_def)

lemma copy_usr2krn_frame [simp]:
  "procs (fst (copy_usr2krn E src p sa ka n s)) = procs s"
  "local_nodeid (fst (copy_usr2krn E src p sa ka n s)) = local_nodeid s"
  "dvs (fst (copy_usr2krn E src p sa ka n s)) = dvs s"
  "dc (fst (copy_usr2krn E src p sa ka n s)) = dc s"
  "node (fst (copy_usr2krn E src p sa ka n s)) = node s"
  "proxies (fst (copy_usr2krn E src p sa ka n s)) = proxies s"
  "tasks (fst (copy_usr2krn E src p sa ka n s)) = tasks s"
  "umem (fst (copy_usr2krn E src p sa ka n s)) = umem s"
  by (simp_all add: copy_usr2krn_def split_beta Let_def)

lemma usr2usr_loop_other:
  "mm \<noteq> dmm \<Longrightarrow> fst (usr2usr_loop E source smm sa dmm da n M) mm = M mm"
proof (induction E source smm sa dmm da n M rule: usr2usr_loop.induct)
  case (1 E source smm sa dmm da n M)
  then show ?case
    by (subst usr2usr_loop.simps) (simp add: Let_def)
qed

section \<open>The chunked copy is a block copy\<close>

lemma read_mem_append: "read_mem m a (k + n) = read_mem m a k @ read_mem m (a + of_nat k) n"
  by (intro nth_equalityI) (auto simp: read_mem_def nth_append add.assoc algebra_simps)

lemma unat_diff_offset:
  fixes x a :: addr
  assumes "k \<le> unat (x - a)"
  shows "unat (x - (a + of_nat k)) = unat (x - a) - k"
proof -
  have "k < 2 ^ 32" using assms unat_less32 [of "x - a"] by simp
  then have k: "unat (of_nat k :: addr) = k" by (simp add: unat_of_nat)
  have "of_nat k \<le> x - a" using assms k by (simp add: word_le_nat_alt)
  then have "unat ((x - a) - of_nat k) = unat (x - a) - k"
    by (simp add: unat_sub k)
  then show ?thesis by (simp add: algebra_simps)
qed

lemma unat_diff_before:
  fixes x a :: addr
  assumes "unat (x - a) < k" "k + n \<le> 2 ^ 32"
  shows "n \<le> unat (x - (a + of_nat k))"
proof (cases "n = 0")
  case False
  have k: "unat (of_nat k :: addr) = k" using assms False by (simp add: unat_of_nat)
  have eq: "x - (a + of_nat k) = (x - a) - of_nat k" by (simp add: algebra_simps)
  have "unat ((x - a) - of_nat k) = 2 ^ 32 + unat (x - a) - k"
    using assms k by (simp add: unat_sub_if')
  then show ?thesis using assms unfolding eq by simp
qed simp

lemma write_mem_append:
  assumes "length xs + length ys \<le> 2 ^ 32" "k = length xs"
  shows "write_mem (a + of_nat k) ys (write_mem a xs m) = write_mem a (xs @ ys) m"
proof
  fix x :: addr
  show "write_mem (a + of_nat k) ys (write_mem a xs m) x = write_mem a (xs @ ys) m x"
  proof (cases "unat (x - a) < k")
    case True
    then have "length ys \<le> unat (x - (a + of_nat k))"
      using unat_diff_before [of x a k "length ys"] assms by simp
    with True assms show ?thesis by (simp add: write_mem_def nth_append)
  next
    case False
    then have "unat (x - (a + of_nat k)) = unat (x - a) - k"
      by (simp add: unat_diff_offset)
    with False assms show ?thesis by (auto simp: write_mem_def nth_append)
  qed
qed

definition pages_ok :: "env \<Rightarrow> int \<Rightarrow> addr \<Rightarrow> nat \<Rightarrow> bool" where
  "pages_ok E mm a n \<longleftrightarrow> (\<forall>i \<in> {0..<n}. e_gup E mm (a + of_nat i))"

lemma pages_ok_first: "pages_ok E mm a n \<Longrightarrow> 0 < n \<Longrightarrow> e_gup E mm a"
  by (force simp: pages_ok_def)

lemma pages_ok_rest: "pages_ok E mm a n \<Longrightarrow> k \<le> n \<Longrightarrow> pages_ok E mm (a + of_nat k) (n - k)"
proof -
  assume a: "pages_ok E mm a n" "k \<le> n"
  have "e_gup E mm (a + of_nat (k + i))" if "i < n - k" for i
    using a that unfolding pages_ok_def by (metis add.commute atLeastLessThan_iff less_diff_conv zero_le)
  then show ?thesis by (simp add: pages_ok_def add.assoc)
qed

lemma usr2usr_loop_block:
  assumes "source = NONE \<or> n < MSG_SIZE" "smm \<noteq> dmm" "n \<le> 2 ^ 32"
    "pages_ok E smm sa n" "pages_ok E dmm da n"
  shows "usr2usr_loop E source smm sa dmm da n M =
           (M(dmm := write_mem da (read_mem (M smm) sa n) (M dmm)), OK)"
  using assms
proof (induction E source smm sa dmm da n M rule: usr2usr_loop.induct)
  case (1 E source smm sa dmm da n M)
  show ?case
  proof (cases "n = 0")
    case True
    then show ?thesis by (simp add: usr2usr_loop.simps read_mem_def)
  next
    case False
    define len where "len = chunk_len sa da n"
    have len: "len \<le> n" by (simp add: len_def)
    define M1 where "M1 = M(dmm := write_mem da (read_mem (M smm) sa len) (M dmm))"
    have gup: "e_gup E smm sa" "e_gup E dmm da"
      using "1.prems" False by (auto intro: pages_ok_first)
    have nofill: "\<not> (source \<noteq> NONE \<and> n = MSG_SIZE)" using "1.prems"(1) by auto
    have "usr2usr_loop E source smm sa dmm da n M =
        usr2usr_loop E source smm (sa + of_nat len) dmm (da + of_nat len) (n - len) M1"
      using False gup nofill
      by (subst usr2usr_loop.simps) (auto simp add: Let_def len_def M1_def)
    also have "\<dots> = (M1(dmm := write_mem (da + of_nat len)
        (read_mem (M1 smm) (sa + of_nat len) (n - len)) (M1 dmm)), OK)"
    proof (rule "1.IH" [OF False _ _ len_def refl, of M1])
      show "\<not> \<not> e_gup E smm sa" "\<not> \<not> e_gup E dmm da" using gup by simp_all
      show "M1 = (if source \<noteq> NONE \<and> n = MSG_SIZE
          then (M(dmm := write_mem da (read_mem (M smm) sa len) (M dmm)))
             (dmm := fill_source source da ((M(dmm := write_mem da (read_mem (M smm) sa len) (M dmm))) dmm))
          else M(dmm := write_mem da (read_mem (M smm) sa len) (M dmm)))"
        using nofill by (auto simp: M1_def)
    qed (use "1.prems" len in \<open>auto intro: pages_ok_rest\<close>)
    also have "M1 smm = M smm" using "1.prems"(2) by (simp add: M1_def)
    also have "M1(dmm := write_mem (da + of_nat len) (read_mem (M smm) (sa + of_nat len) (n - len)) (M1 dmm))
        = M(dmm := write_mem da (read_mem (M smm) sa n) (M dmm))"
      using write_mem_append [of "read_mem (M smm) sa len" "read_mem (M smm) (sa + of_nat len) (n - len)"
          len da "M dmm"] "1.prems"(3) len read_mem_append [of "M smm" sa len "n - len"]
      by (simp add: M1_def)
    finally show ?thesis .
  qed
qed

lemma copy_block:
  assumes "0 \<le> n" "n \<le> MAXCOPYLEN" "mm_of s src \<noteq> mm_of s dst"
    "pages_ok E (mm_of s src) sa (nat n)" "pages_ok E (mm_of s dst) da (nat n)"
  shows "copy_usr2usr E NONE src sa dst da n s =
    (set_umem (mm_of s dst) (write_mem da (read_mem (umem s (mm_of s src)) sa (nat n))
       (umem s (mm_of s dst))) s, OK)"
  using assms usr2usr_loop_block [of NONE "nat n" "mm_of s src" "mm_of s dst" E sa da "umem s"]
  by (simp add: copy_usr2usr_def set_umem_def)

text \<open>Two tasks with address spaces 11 and 12, bound to the slots 0 and 1 of DC 0.\<close>

definition two_tasks :: kstate where
  "two_tasks = upd (DcProc 0 0) (\<lambda>x. x\<lparr>p_task := Some 11\<rparr>)
     (upd (DcProc 0 1) (\<lambda>x. x\<lparr>p_task := Some 12\<rparr>)
       (boot_state\<lparr>tasks := (\<lambda>t. no_task\<lparr>t_live := True, t_mm := t\<rparr>),
          umem := (\<lambda>mm a. word_of_int mm)\<rparr>))"

definition all_mapped :: env where
  "all_mapped = \<lparr>e_now = (7, 9), e_gup = (\<lambda>_ _. True), e_uncopied = (\<lambda>_ _ _. 0), e_cpu = 0,
     e_sendsig = (\<lambda>_. 0), e_setaffinity = (\<lambda>_ _ a. a)\<rparr>"

lemma mm_two_tasks: "mm_of two_tasks (DcProc 0 0) = 11" "mm_of two_tasks (DcProc 0 1) = 12"
  by (simp_all add: two_tasks_def mm_of_def)

text \<open>A copy between the user spaces of two processes whose pages are all mapped
  returns OK and is one block copy: exactly the destination bytes change, to the source bytes,
  however the pages cut the block.\<close>

theorem copy_usr2usr_block:
  assumes "0 \<le> bytes" "bytes \<le> MAXCOPYLEN" "mm_of s src \<noteq> mm_of s dst"
    "pages_ok E (mm_of s src) sa (nat bytes)" "pages_ok E (mm_of s dst) da (nat bytes)"
  shows "copy_usr2usr E NONE src sa dst da bytes s =
    (set_umem (mm_of s dst) (write_mem da (read_mem (umem s (mm_of s src)) sa (nat bytes))
       (umem s (mm_of s dst))) s, OK)"
  using assms by (rule copy_block)

theorem copy_usr2usr_block_witness:
  "\<exists>s'. copy_usr2usr all_mapped NONE (DcProc 0 0) 4090 (DcProc 0 1) 8190 9000 two_tasks = (s', OK)
     \<and> umem s' 12 = write_mem 8190 (read_mem (umem two_tasks 11) 4090 9000) (umem two_tasks 12)"
  using copy_usr2usr_block [of 9000 two_tasks "DcProc 0 0" "DcProc 0 1" all_mapped 4090 8190]
  by (simp add: mm_two_tasks pages_ok_def all_mapped_def)

lemma write_then_fill_outside:
  assumes "n \<le> unat (x - da)" "len \<le> n" "n = MSG_SIZE \<or> \<not> b"
  shows "(if b then fill_source source da (write_mem da (read_mem m sa len) m') x
          else write_mem da (read_mem m sa len) m' x) = m' x"
  using assms by (auto simp: fill_source_def write_mem_outside)

lemma usr2usr_loop_outside:
  "mm \<noteq> dmm \<or> n \<le> unat (x - da) \<Longrightarrow> fst (usr2usr_loop E source smm sa dmm da n M) mm x = M mm x"
proof (induction E source smm sa dmm da n M rule: usr2usr_loop.induct)
  case (1 E source smm sa dmm da n M)
  show ?case
  proof (cases "n = 0 \<or> \<not> e_gup E smm sa \<or> \<not> e_gup E dmm da")
    case True
    then show ?thesis by (subst usr2usr_loop.simps) auto
  next
    case False
    define len where "len = chunk_len sa da n"
    have len: "len \<le> n" by (simp add: len_def)
    define M2 where "M2 = (if source \<noteq> NONE \<and> n = MSG_SIZE
      then (M(dmm := write_mem da (read_mem (M smm) sa len) (M dmm)))
        (dmm := fill_source source da ((M(dmm := write_mem da (read_mem (M smm) sa len) (M dmm))) dmm))
      else M(dmm := write_mem da (read_mem (M smm) sa len) (M dmm)))"
    have keep: "M2 mm x = M mm x"
      using "1.prems" len write_then_fill_outside [of n x da len "source \<noteq> NONE \<and> n = MSG_SIZE"
          source "M smm" sa "M dmm"]
      by (auto simp: M2_def write_mem_outside fill_source_def)
    have "mm \<noteq> dmm \<or> n - len \<le> unat (x - (da + of_nat len))"
      using "1.prems" len by (auto simp: unat_diff_offset)
    moreover have "usr2usr_loop E source smm sa dmm da n M =
        usr2usr_loop E source smm (sa + of_nat len) dmm (da + of_nat len) (n - len) M2"
      using False by (subst usr2usr_loop.simps) (auto simp: Let_def len_def M2_def)
    ultimately show ?thesis
      using "1.IH" [of len "M(dmm := write_mem da (read_mem (M smm) sa len) (M dmm))" M2] False keep
      by (simp add: len_def M2_def)
  qed
qed

lemma usr2usr_loop_code: "snd (usr2usr_loop E source smm sa dmm da n M) \<in> {OK, EMOLADDRNOTAVAIL}"
proof (induction E source smm sa dmm da n M rule: usr2usr_loop.induct)
  case (1 E source smm sa dmm da n M)
  then show ?case by (subst usr2usr_loop.simps) (auto simp: Let_def)
qed

text \<open>Whatever a copy between user spaces returns, and wherever it stops, it returns one of
  three codes and writes only inside the destination block of the destination process: no other
  address space and no byte outside the block changes, and nothing at all when the length is refused.\<close>

theorem copy_usr2usr_confined:
  "case copy_usr2usr E source src sa dst da bytes s of (s', r) \<Rightarrow>
     r \<in> {OK, EMOLRANGE, EMOLADDRNOTAVAIL} \<and> s' = s\<lparr>umem := umem s'\<rparr>
     \<and> {(mm, x). umem s' mm x \<noteq> umem s mm x}
         \<subseteq> {(mm, x). mm = mm_of s dst \<and> unat (x - da) < nat bytes \<and> bytes \<le> MAXCOPYLEN}"
proof (cases "usr2usr_loop E source (mm_of s src) sa (mm_of s dst) da (nat bytes) (umem s)")
  case (Pair M r)
  then show ?thesis
    using usr2usr_loop_code [of E source "mm_of s src" sa "mm_of s dst" da "nat bytes" "umem s"]
      usr2usr_loop_outside [of _ "mm_of s dst" "nat bytes" _ da E source "mm_of s src" sa "umem s"]
    by (auto simp: copy_usr2usr_def not_less [symmetric] simp del: not_less)
qed

lemma message_chunk: "4 dvd unat sa \<Longrightarrow> 4 dvd unat da \<Longrightarrow> 4 \<le> chunk_len sa da MSG_SIZE"
proof -
  have off: "page_off a \<le> 4092" if "4 dvd unat a" for a :: addr
  proof -
    have "4 dvd page_off a" using that by (simp add: page_off_def dvd_mod)
    moreover have "page_off a < 4096" by simp
    ultimately show ?thesis by (elim dvdE) simp
  qed
  assume "4 dvd unat sa" "4 dvd unat da"
  with off [of sa] off [of da] have "4 \<le> 4096 - page_off sa" "4 \<le> 4096 - page_off da"
    by linarith+
  then show ?thesis by (simp add: chunk_len_def)
qed

lemma write_mem_twice:
  assumes "length ys \<le> length xs" "length xs \<le> 2 ^ 32"
  shows "write_mem a ys (write_mem a xs m) = write_mem a (ys @ drop (length ys) xs) m"
  using assms by (auto simp: write_mem_def nth_append fun_eq_iff)

lemma copy_usr2usr_message:
  assumes al: "4 dvd unat sa" "4 dvd unat da" and src: "source \<noteq> NONE"
    and mm: "mm_of s p \<noteq> mm_of s q"
    and pg: "pages_ok E (mm_of s p) sa MSG_SIZE" "pages_ok E (mm_of s q) da MSG_SIZE"
  shows "copy_usr2usr E source p sa q da (int MSG_SIZE) s =
    (set_umem (mm_of s q) (write_mem da (i32_bytes source @
        drop 4 (read_mem (umem s (mm_of s p)) sa MSG_SIZE)) (umem s (mm_of s q))) s, OK)"
proof -
  let ?S = "mm_of s p" and ?D = "mm_of s q" and ?M = "umem s"
  define len where "len = chunk_len sa da MSG_SIZE"
  have len: "4 \<le> len" "len \<le> MSG_SIZE" using message_chunk [OF al] by (simp_all add: len_def)
  have da4: "4 \<le> PAGE_SIZE - page_off da" using len(1) by (simp add: len_def chunk_len_def)
  let ?first = "i32_bytes source @ drop 4 (read_mem (?M ?S) sa len)"
  let ?M1 = "?M(?D := write_mem da ?first (?M ?D))"
  have gup: "e_gup E ?S sa" "e_gup E ?D da" using pg by (auto intro: pages_ok_first)
  have "usr2usr_loop E source ?S sa ?D da MSG_SIZE ?M =
      usr2usr_loop E source ?S (sa + of_nat len) ?D (da + of_nat len) (MSG_SIZE - len) ?M1"
    using gup src len da4
    by (subst usr2usr_loop.simps)
      (simp add: Let_def len_def [symmetric] fill_source_def write_mem_twice)
  also have "\<dots> = (?M1(?D := write_mem (da + of_nat len)
      (read_mem (?M1 ?S) (sa + of_nat len) (MSG_SIZE - len)) (?M1 ?D)), OK)"
    using len mm pg by (intro usr2usr_loop_block) (auto intro: pages_ok_rest)
  also have "\<dots> = (?M(?D := write_mem da (?first @ read_mem (?M ?S) (sa + of_nat len) (MSG_SIZE - len))
      (?M ?D)), OK)"
    using mm len write_mem_append [of ?first "read_mem (?M ?S) (sa + of_nat len) (MSG_SIZE - len)" len da "?M ?D"]
    by simp
  also have "?first @ read_mem (?M ?S) (sa + of_nat len) (MSG_SIZE - len)
      = i32_bytes source @ drop 4 (read_mem (?M ?S) sa MSG_SIZE)"
    using len read_mem_append [of "?M ?S" sa len "MSG_SIZE - len"] by simp
  finally show ?thesis by (simp add: copy_usr2usr_def set_umem_def fun_upd_def)
qed

end
