(* ===== verification/Sleep.thy ===== *)
theory Sleep
  imports User_Copy
begin

text \<open>
  Blocking.  A call of the module runs under the descriptor locks until it
  sleeps in \<open>sleep_proc\<close>, \<open>sleep_proc2\<close> or \<open>sleep_proc3\<close>
  (\<open>src/mol-module/mm_utils.c\<close>), so it is modelled as a sequence of atomic
  parts cut at the sleeps: a part ends with a return code, blocked at a program
  point, or going to a program point (the \<open>retry\<close> loops and the
  \<open>goto ..._replay\<close> of the code).  \<open>sleep_begin\<close> is the part of
  \<open>sleep_proc\<close> before the wait, \<open>sleep_wake\<close> and \<open>sleep_fini\<close> the
  part after it, which takes the result of \<open>wait_event_interruptible\<close> as an
  argument.  \<open>check_caller\<close>, the prologue of every call, is here because it may
  sleep itself.
\<close>

section \<open>Calls and program points\<close>

datatype molcall =
    Send int addr int
  | Receive int addr int
  | Sendrec int addr int
  | Notify int int int
  | Rcvrqst addr int
  | Reply int addr int
  | Vcopy int addr int addr int
  | Get2rmt addr addr int
  | Put2lcl addr addr

text \<open>The local variables that live across a sleep: the DC, caller, peer, endpoint argument, message
  address and timeout.\<close>

record locals =
  l_dcid :: int
  l_caller :: pref
  l_peer :: pref
  l_ep :: int
  l_msg :: addr
  l_timeout :: int

text \<open>The same for \<open>mm_vcopy\<close>: which of the three remote loops it is in, the requester, the
  source and the destination with their endpoints, and what is left to copy.\<close>

datatype vkind = V_l2r | V_r2l | V_r2r

record vlocals =
  vl_dcid :: int
  vl_nr :: int
  vl_caller :: pref
  vl_src :: pref
  vl_dst :: pref
  vl_src_ep :: int
  vl_dst_ep :: int
  vl_saddr :: addr
  vl_daddr :: addr
  vl_bytes :: int

datatype pp =
    PP_check molcall pref int int
  | PP_send_migr locals | PP_send_replay locals | PP_send_rmt locals | PP_send_lcl locals
  | PP_receive locals
  | PP_sendrec_migr locals | PP_sendrec_replay locals | PP_sendrec_rmt locals
  | PP_sendrec_rcv locals | PP_sendrec_queue locals
  | PP_notify_rmt locals int int int | PP_notify_replay locals int int int
  | PP_rcvrqst locals
  | PP_reply_migr locals | PP_reply_replay locals | PP_reply_rmt locals
  | PP_vcopy_check vlocals | PP_vcopy_migr vlocals bool | PP_vcopy_lcl vlocals
  | PP_vcopy_rmt vkind vlocals int bool
  | PP_get2rmt pref addr addr int | PP_get2rmt_next pref addr addr int "pref option"
  | PP_oncopy pref int pp

datatype outcome = Return int | Block pp | Goto pp

section \<open>sleep_proc\<close>

definition take_needmigr :: "pref \<Rightarrow> kstate \<Rightarrow> kstate" where
  "take_needmigr p s =
    (if mis s p MIS_BIT_NEEDMIGR
     then set_rts BIT_MIGRATE p (clear_mis MIS_BIT_NEEDMIGR p s) else s)"

text \<open>Up to the wait; the second component says whether the process really sleeps.\<close>

definition sleep_begin :: "pref \<Rightarrow> int \<Rightarrow> kstate \<Rightarrow> kstate \<times> bool" where
  "sleep_begin p timeout s =
    (if timeout = TIMEOUT_NOWAIT
     then (upd p (\<lambda>x. x\<lparr>p_rcode := EMOLAGAIN\<rparr>) (take_needmigr p s), False)
     else (upd p (\<lambda>x. x\<lparr>p_pseudosem := - 1, p_rcode := OK\<rparr>) s, True))"

text \<open>What \<open>wait_event_interruptible(_timeout)\<close> may have returned when the sleeper holds its
  lock again and the semaphore has a given value.  The lock is taken after the wait, so a wake-up may come
  between the two: a wait that timed out (result 0) may find any semaphore value.\<close>

definition wait_result :: "int \<Rightarrow> int \<Rightarrow> int \<Rightarrow> bool" where
  "wait_result timeout sem wret \<longleftrightarrow>
     wret = ERESTARTSYS_NEG
     \<or> (if timeout < 0 then wret = 0 \<and> 0 \<le> sem else (0 < wret \<and> 0 \<le> sem) \<or> wret = 0)"

definition sleep_ret :: "int \<Rightarrow> int \<Rightarrow> int \<Rightarrow> int" where
  "sleep_ret rcode timeout wret =
    (if rcode < 0 then rcode
     else if wret < 0 then wret
     else if wret = 0 then (if 0 \<le> timeout then EMOLTIMEDOUT else wret)
     else OK)"

definition sleep_wake :: "pref \<Rightarrow> int \<Rightarrow> int \<Rightarrow> kstate \<Rightarrow> kstate \<times> int" where
  "sleep_wake p timeout wret s =
    (let ret = sleep_ret (p_rcode (procs s p)) timeout wret;
         s1 = upd p (\<lambda>x. x\<lparr>p_rcode := ret\<rparr>) s
     in (if ret \<noteq> 0
         then upd p (\<lambda>x. if p_pseudosem x < 0 then x\<lparr>p_pseudosem := p_pseudosem x + 1\<rparr> else x) s1
         else s1, ret))"

definition sleep_fini :: "env \<Rightarrow> pref \<Rightarrow> kstate \<Rightarrow> kstate" where
  "sleep_fini E p s = reset_cpu E p (take_needmigr p s)"

text \<open>The whole second half; \<open>None\<close> while the process still has to yield because a copy
  on it is in progress (the \<open>while(test_bit(BIT_ONCOPY...)) schedule()\<close> loop).\<close>

definition sleep_end :: "env \<Rightarrow> pref \<Rightarrow> int \<Rightarrow> int \<Rightarrow> kstate \<Rightarrow> kstate \<times> int option" where
  "sleep_end E p timeout wret s =
    (let (s1, ret) = sleep_wake p timeout wret s
     in if ret \<noteq> 0 \<and> timeout < 0 \<and> rts s1 p BIT_ONCOPY then (s1, None)
        else (sleep_fini E p s1, Some ret))"

text \<open>\<open>sleep_proc2\<close> has the same effect on the descriptor (it only releases one more
  lock); \<open>sleep_proc3\<close> sets the semaphore to 0 and yields whatever the timeout.\<close>

definition sleep_proc3_wake :: "pref \<Rightarrow> int \<Rightarrow> int \<Rightarrow> kstate \<Rightarrow> kstate \<times> int" where
  "sleep_proc3_wake p timeout wret s =
    (let ret = sleep_ret (p_rcode (procs s p)) timeout wret;
         s1 = upd p (\<lambda>x. x\<lparr>p_rcode := ret\<rparr>) s
     in (if ret \<noteq> 0
         then upd p (\<lambda>x. if p_pseudosem x < 0 then x\<lparr>p_pseudosem := 0\<rparr> else x) s1
         else s1, ret))"

definition sleep_proc3_end :: "env \<Rightarrow> pref \<Rightarrow> int \<Rightarrow> int \<Rightarrow> kstate \<Rightarrow> kstate \<times> int option" where
  "sleep_proc3_end E p timeout wret s =
    (let (s1, ret) = sleep_proc3_wake p timeout wret s
     in if ret \<noteq> 0 \<and> rts s1 p BIT_ONCOPY then (s1, None)
        else (sleep_fini E p s1, Some ret))"

lemma take_needmigr_other [simp]: "q \<noteq> p \<Longrightarrow> procs (take_needmigr p s) q = procs s q"
  by (simp add: take_needmigr_def)

lemma take_needmigr_fields [simp]:
  "p_rcode (procs (take_needmigr p s) q) = p_rcode (procs s q)"
  "p_pseudosem (procs (take_needmigr p s) q) = p_pseudosem (procs s q)"
  "p_list (procs (take_needmigr p s) q) = p_list (procs s q)"
  "p_mlist (procs (take_needmigr p s) q) = p_mlist (procs s q)"
  "p_sendto (procs (take_needmigr p s) q) = p_sendto (procs s q)"
  "p_getfrom (procs (take_needmigr p s) q) = p_getfrom (procs s q)"
  "p_endpoint (procs (take_needmigr p s) q) = p_endpoint (procs s q)"
  "p_dcid (procs (take_needmigr p s) q) = p_dcid (procs s q)"
  "p_lclsent (procs (take_needmigr p s) q) = p_lclsent (procs s q)"
  "p_rmtsent (procs (take_needmigr p s) q) = p_rmtsent (procs s q)"
  "p_proxy (procs (take_needmigr p s) q) = p_proxy (procs s q)"
  "p_task (procs (take_needmigr p s) q) = p_task (procs s q)"
  "p_message (procs (take_needmigr p s) q) = p_message (procs s q)"
  "p_umsg (procs (take_needmigr p s) q) = p_umsg (procs s q)"
  "p_rmtcmd (procs (take_needmigr p s) q) = p_rmtcmd (procs s q)"
  "p_priv (procs (take_needmigr p s) q) = p_priv (procs s q)"
  "p_nodeid (procs (take_needmigr p s) q) = p_nodeid (procs s q)"
  by (simp_all add: take_needmigr_def)

lemma take_needmigr_frame [simp]:
  "local_nodeid (take_needmigr p s) = local_nodeid s" "dvs (take_needmigr p s) = dvs s"
  "dc (take_needmigr p s) = dc s" "node (take_needmigr p s) = node s"
  "proxies (take_needmigr p s) = proxies s" "tasks (take_needmigr p s) = tasks s"
  "umem (take_needmigr p s) = umem s" "kmem (take_needmigr p s) = kmem s"
  by (simp_all add: take_needmigr_def)

lemma take_needmigr_bits [simp]:
  "b \<noteq> BIT_MIGRATE \<Longrightarrow> rts (take_needmigr p s) q b = rts s q b"
  by (simp add: take_needmigr_def)

section \<open>check_caller\<close>

text \<open>The descriptor the calling thread is bound through, and the pid to check it against:
  its own, or that of its thread group leader.\<close>

definition pick_caller :: "kstate \<Rightarrow> int \<Rightarrow> int + pref \<times> int" where
  "pick_caller s tid =
    (let t = tasks s tid in
     if t_leader t = Some tid then
       (case t_proc t of None \<Rightarrow> Inl EMOLNOTBIND | Some c \<Rightarrow> Inr (c, tid))
     else (case t_proc t of Some c \<Rightarrow> Inr (c, tid)
       | None \<Rightarrow> (case t_leader t of None \<Rightarrow> Inl EMOLNOTBIND
           | Some l \<Rightarrow> (case t_proc (tasks s l) of None \<Rightarrow> Inl EMOLNOTBIND
                         | Some c \<Rightarrow> Inr (c, t_tgid (tasks s l))))))"

definition check_caller_status :: "pref \<Rightarrow> int \<Rightarrow> int \<Rightarrow> kstate \<Rightarrow> int + pref \<times> int" where
  "check_caller_status c pid dcid s =
    (if \<not> mis s c MIS_RMTBACKUP \<and> p_rts_flags (procs s c) \<noteq> 0 then Inl EMOLNOTREADY
     else if mis s c MIS_BIT_PROXY then Inr (c, pid)
     else if dcid < 0 \<or> dcid \<ge> d_nr_dcs (dvs s) then Inl EMOLBADDCID
     else if dc_flags (dc s dcid) \<noteq> 0 then Inl EMOLDCNOTRUN
     else Inr (c, pid))"

datatype checked = Chk_err int | Chk_sleep pref int int | Chk_ok pref int

definition chk_of :: "int + pref \<times> int \<Rightarrow> checked" where
  "chk_of r = (case r of Inl e \<Rightarrow> Chk_err e | Inr (c, pid) \<Rightarrow> Chk_ok c pid)"

definition check_caller :: "int \<Rightarrow> kstate \<Rightarrow> kstate \<times> checked" where
  "check_caller tid s =
    (case pick_caller s tid of
       Inl e \<Rightarrow> (s, Chk_err e)
     | Inr (c, pid) \<Rightarrow>
        (let dcid = p_dcid (procs s c); s1 = take_needmigr c s in
         if rts s1 c BIT_MIGRATE
         then (fst (sleep_begin c TIMEOUT_FOREVER s1), Chk_sleep c pid dcid)
         else (s1, chk_of (check_caller_status c pid dcid s1))))"

lemma check_caller_ok:
  assumes "check_caller tid s = (s1, Chk_ok c pid)"
  shows "s1 = take_needmigr c s" "pick_caller s tid = Inr (c, pid)" "\<not> rts s1 c BIT_MIGRATE"
    "mis s1 c MIS_RMTBACKUP \<or> p_rts_flags (procs s1 c) = 0"
    "mis s1 c MIS_BIT_PROXY \<or> (0 \<le> p_dcid (procs s1 c) \<and> p_dcid (procs s1 c) < d_nr_dcs (dvs s1)
        \<and> dc_flags (dc s1 (p_dcid (procs s1 c))) = 0)"
  using assms
  by (auto simp: check_caller_def check_caller_status_def chk_of_def Let_def
      split: sum.splits prod.splits if_splits)

lemma check_caller_ready:
  "check_caller tid s = (s, Chk_ok c pid) \<longleftrightarrow> pick_caller s tid = Inr (c, pid)
     \<and> \<not> mis s c MIS_BIT_NEEDMIGR \<and> \<not> rts s c BIT_MIGRATE
     \<and> check_caller_status c pid (p_dcid (procs s c)) s = Inr (c, pid)" (is "?l = ?r")
proof
  assume ?r
  then show ?l by (simp add: check_caller_def take_needmigr_def chk_of_def)
next
  assume l: ?l
  have t: "take_needmigr c s = s" using check_caller_ok(1) [OF l] by simp
  have "\<not> mis (take_needmigr c s) c MIS_BIT_NEEDMIGR" by (simp add: take_needmigr_def)
  then have n: "\<not> mis s c MIS_BIT_NEEDMIGR" unfolding t .
  have "pick_caller s tid = Inr (c, pid)" "\<not> rts s c BIT_MIGRATE" using check_caller_ok(2,3) [OF l] t by simp_all
  with l n t show ?r
    by (auto simp: check_caller_def chk_of_def check_caller_status_def Let_def split: sum.splits prod.splits if_splits)
qed

lemma pick_caller_cong: "tasks t = tasks s \<Longrightarrow> pick_caller t tid = pick_caller s tid"
  by (simp add: pick_caller_def Let_def split: option.split)

text \<open>The shape of every call: \<open>check_caller\<close>, then the body for the bound caller.\<close>

definition after_check ::
  "molcall \<Rightarrow> (pref \<Rightarrow> int \<Rightarrow> kstate \<Rightarrow> kstate \<times> outcome) \<Rightarrow> kstate \<times> checked \<Rightarrow> kstate \<times> outcome" where
  "after_check call body r =
    (case r of (s, Chk_err e) \<Rightarrow> (s, Return e)
     | (s, Chk_sleep c pid dcid) \<Rightarrow> (s, Block (PP_check call c pid dcid))
     | (s, Chk_ok c pid) \<Rightarrow> body c pid s)"

text \<open>Sleeping: the call blocks at a program point or, with \<open>TIMEOUT_NOWAIT\<close>, goes on.\<close>

definition sleep_or ::
  "pref \<Rightarrow> int \<Rightarrow> pp \<Rightarrow> (kstate \<Rightarrow> kstate \<times> outcome) \<Rightarrow> kstate \<Rightarrow> kstate \<times> outcome" where
  "sleep_or p timeout pt k s =
    (let (s1, asleep) = sleep_begin p timeout s in if asleep then (s1, Block pt) else k s1)"

lemma sleep_or_block:
  "timeout \<noteq> TIMEOUT_NOWAIT \<Longrightarrow>
   sleep_or p timeout pt k s = (upd p (\<lambda>x. x\<lparr>p_pseudosem := - 1, p_rcode := OK\<rparr>) s, Block pt)"
  by (simp add: sleep_or_def sleep_begin_def)

lemma sleep_or_nowait:
  "sleep_or p TIMEOUT_NOWAIT pt k s = k (upd p (\<lambda>x. x\<lparr>p_rcode := EMOLAGAIN\<rparr>) (take_needmigr p s))"
  by (simp add: sleep_or_def sleep_begin_def)

end
