(* ===== verification/Proxy_Queue.thy ===== *)
theory Proxy_Queue
  imports Sleep
begin

text \<open>
  The queues of descriptors and the sender proxy: \<open>sproxy_enqueue\<close>
  (\<open>src/mol-module/mm_sproxy.c\<close>) links a descriptor whose remote command is
  filled in at the tail of the queue of the sender proxy of the destination node,
  and \<open>src/mol-module/mm_acks.c\<close> builds the acknowledgements.  The locale
  \<open>fifo\<close> states what the senders' queues promise; it is interpreted on the
  \<open>p_list\<close> and \<open>p_mlist\<close> queues of the kernel state.
\<close>

section \<open>The queue interface\<close>

locale fifo =
  fixes enq :: "'x \<Rightarrow> 's \<Rightarrow> 's"
    and del :: "'x \<Rightarrow> 's \<Rightarrow> 's"
    and items :: "'s \<Rightarrow> 'x list"
  assumes items_enq: "items (enq x s) = items s @ [x]"
    and items_del: "items (del x s) = remove1 x (items s)"
begin

lemma order_kept: "items s = xs @ x # ys \<Longrightarrow> \<exists>zs. items (enq y s) = xs @ x # zs"
  by (simp add: items_enq)

lemma head_stays: "items s \<noteq> [] \<Longrightarrow> hd (items (enq y s)) = hd (items s)"
  by (simp add: items_enq)

lemma del_enq: "x \<notin> set (items s) \<Longrightarrow> items (del x (enq x s)) = items s"
  by (simp add: items_enq items_del remove1_append)

lemma distinct_enq: "distinct (items (enq x s)) \<longleftrightarrow> x \<notin> set (items s) \<and> distinct (items s)"
  by (auto simp: items_enq)

lemma distinct_del: "distinct (items s) \<Longrightarrow> distinct (items (del x s))"
  by (simp add: items_del)

lemma del_head: "items s = x # xs \<Longrightarrow> items (del x s) = xs"
  by (simp add: items_del)

lemma gone: "distinct (items s) \<Longrightarrow> x \<notin> set (items (del x s))"
  by (simp add: items_del)

end

interpretation plist: fifo "\<lambda>p. LIST_ADD_TAIL p q" LIST_DEL_INIT "\<lambda>s. p_list (procs s q)" for q
  by unfold_locales (simp_all add: LIST_ADD_TAIL_def list_add_tail_def list_del_def)

interpretation mlist: fifo "\<lambda>p. LIST_ADD_TAIL_M p q" LIST_DEL_INIT_M "\<lambda>s. p_mlist (procs s q)" for q
  by unfold_locales (simp_all add: LIST_ADD_TAIL_M_def list_add_tail_def list_del_def)

interpretation ulist: fifo "\<lambda>p. LIST_ADD_TAIL_U p q" LIST_DEL_INIT_U "\<lambda>s. p_ulist (procs s q)" for q
  by unfold_locales (simp_all add: LIST_ADD_TAIL_U_def list_add_tail_def list_del_def)

lemma LIST_ADD_TAIL_procs [simp]:
  "procs (LIST_ADD_TAIL p q s) r =
    (if r = q then (procs s q)\<lparr>p_list := p_list (procs s q) @ [p]\<rparr> else procs s r)"
  by (simp add: LIST_ADD_TAIL_def list_add_tail_def)

lemma LIST_ADD_TAIL_M_procs [simp]:
  "procs (LIST_ADD_TAIL_M p q s) r =
    (if r = q then (procs s q)\<lparr>p_mlist := p_mlist (procs s q) @ [p]\<rparr> else procs s r)"
  by (simp add: LIST_ADD_TAIL_M_def list_add_tail_def)

lemma LIST_ADD_TAIL_frame [simp]:
  "local_nodeid (LIST_ADD_TAIL p q s) = local_nodeid s" "dvs (LIST_ADD_TAIL p q s) = dvs s"
  "dc (LIST_ADD_TAIL p q s) = dc s" "node (LIST_ADD_TAIL p q s) = node s"
  "proxies (LIST_ADD_TAIL p q s) = proxies s" "tasks (LIST_ADD_TAIL p q s) = tasks s"
  "umem (LIST_ADD_TAIL p q s) = umem s" "kmem (LIST_ADD_TAIL p q s) = kmem s"
  by (simp_all add: LIST_ADD_TAIL_def)

lemma LIST_ADD_TAIL_M_frame [simp]:
  "local_nodeid (LIST_ADD_TAIL_M p q s) = local_nodeid s" "dvs (LIST_ADD_TAIL_M p q s) = dvs s"
  "dc (LIST_ADD_TAIL_M p q s) = dc s" "node (LIST_ADD_TAIL_M p q s) = node s"
  "proxies (LIST_ADD_TAIL_M p q s) = proxies s" "tasks (LIST_ADD_TAIL_M p q s) = tasks s"
  "umem (LIST_ADD_TAIL_M p q s) = umem s" "kmem (LIST_ADD_TAIL_M p q s) = kmem s"
  by (simp_all add: LIST_ADD_TAIL_M_def)

section \<open>sproxy_enqueue\<close>

text \<open>Clearing \<open>BIT_RECEIVING\<close> and waking the process up if nothing else holds it.\<close>

definition up_if_ready :: "env \<Rightarrow> pref \<Rightarrow> int \<Rightarrow> kstate \<Rightarrow> kstate" where
  "up_if_ready E p rcode s =
    (if p_rts_flags (procs s p) = 0 then LOCAL_PROC_UP E p rcode s else s)"

definition sproxy_enqueue :: "env \<Rightarrow> pref \<Rightarrow> kstate \<Rightarrow> kstate \<times> int" where
  "sproxy_enqueue E p s =
    (let sp = NODE2SPROXY s (c_dnode (p_rmtcmd (procs s p))) in
     if p_rts_flags (procs s sp) = SLOT_FREE then (s, EMOLNOPROXY)
     else
      let s1 = upd p (\<lambda>x. x\<lparr>p_proxy := p_nr (procs s sp)\<rparr>) s;
          s2 = LIST_ADD_TAIL p sp s1;
          s3 = (if rts s2 sp BIT_RECEIVING
                then up_if_ready E sp OK (clear_rts BIT_RECEIVING sp s2) else s2)
      in (s3, OK))"

abbreviation set_cmd :: "(cmd \<Rightarrow> cmd) \<Rightarrow> pref \<Rightarrow> kstate \<Rightarrow> kstate" where
  "set_cmd f p s \<equiv> upd p (\<lambda>x. x\<lparr>p_rmtcmd := f (p_rmtcmd x)\<rparr>) s"

lemma up_if_ready_frame [simp]:
  "local_nodeid (up_if_ready E p rc s) = local_nodeid s" "dvs (up_if_ready E p rc s) = dvs s"
  "dc (up_if_ready E p rc s) = dc s" "node (up_if_ready E p rc s) = node s"
  "proxies (up_if_ready E p rc s) = proxies s" "tasks (up_if_ready E p rc s) = tasks s"
  "umem (up_if_ready E p rc s) = umem s" "kmem (up_if_ready E p rc s) = kmem s"
  by (simp_all add: up_if_ready_def)

lemma up_if_ready_fields [simp]:
  "p_list (procs (up_if_ready E p rc s) q) = p_list (procs s q)"
  "p_mlist (procs (up_if_ready E p rc s) q) = p_mlist (procs s q)"
  "p_rts_flags (procs (up_if_ready E p rc s) q) = p_rts_flags (procs s q)"
  "p_misc_flags (procs (up_if_ready E p rc s) q) = p_misc_flags (procs s q)"
  "p_endpoint (procs (up_if_ready E p rc s) q) = p_endpoint (procs s q)"
  "p_sendto (procs (up_if_ready E p rc s) q) = p_sendto (procs s q)"
  "p_getfrom (procs (up_if_ready E p rc s) q) = p_getfrom (procs s q)"
  "p_rmtcmd (procs (up_if_ready E p rc s) q) = p_rmtcmd (procs s q)"
  "p_message (procs (up_if_ready E p rc s) q) = p_message (procs s q)"
  "p_nodeid (procs (up_if_ready E p rc s) q) = p_nodeid (procs s q)"
  "p_proxy (procs (up_if_ready E p rc s) q) = p_proxy (procs s q)"
  "p_lclsent (procs (up_if_ready E p rc s) q) = p_lclsent (procs s q)"
  "p_rmtsent (procs (up_if_ready E p rc s) q) = p_rmtsent (procs s q)"
  "p_dcid (procs (up_if_ready E p rc s) q) = p_dcid (procs s q)"
  "p_task (procs (up_if_ready E p rc s) q) = p_task (procs s q)"
  "p_priv (procs (up_if_ready E p rc s) q) = p_priv (procs s q)"
  "p_umsg (procs (up_if_ready E p rc s) q) = p_umsg (procs s q)"
  by (simp_all add: up_if_ready_def)

lemma up_if_ready_other [simp]: "q \<noteq> p \<Longrightarrow> procs (up_if_ready E p rc s) q = procs s q"
  by (simp add: up_if_ready_def)

section \<open>Acknowledgements to a remote process\<close>

definition generic_ack_lcl2rmt :: "env \<Rightarrow> int \<Rightarrow> pref \<Rightarrow> pref \<Rightarrow> int \<Rightarrow> kstate \<Rightarrow> kstate \<times> int" where
  "generic_ack_lcl2rmt E ack rmt lcl rcode s =
    (let s1 = set_rts BIT_RMTOPER rmt s;
         r = procs s1 rmt;
         s2 = set_cmd (\<lambda>c. c\<lparr>c_cmd := ack, c_dcid := p_dcid r,
                c_src := p_endpoint (procs s1 lcl), c_dst := p_endpoint r,
                c_snode := local_nodeid s1, c_dnode := p_nodeid r, c_len := 0,
                c_rcode := rcode\<rparr>) rmt s1
     in sproxy_enqueue E rmt s2)"

definition error_lcl2rmt :: "env \<Rightarrow> int \<Rightarrow> pref \<Rightarrow> cmd \<Rightarrow> int \<Rightarrow> kstate \<Rightarrow> kstate \<times> int" where
  "error_lcl2rmt E ack rmt h rcode s =
    (let s1 = set_rts BIT_RMTOPER rmt s;
         r = procs s1 rmt;
         s2 = set_cmd (\<lambda>c. c\<lparr>c_cmd := ack, c_dcid := c_dcid h, c_src := c_dst h,
                c_dst := p_endpoint r, c_snode := local_nodeid s1, c_dnode := p_nodeid r,
                c_len := 0, c_rcode := rcode\<rparr>) rmt s1
     in sproxy_enqueue E rmt s2)"

definition copyin_rqst_lcl2rmt :: "env \<Rightarrow> pref \<Rightarrow> pref \<Rightarrow> kstate \<Rightarrow> kstate \<times> int" where
  "copyin_rqst_lcl2rmt E rmt lcl s =
    (let s1 = set_rts BIT_RMTOPER rmt s;
         r = procs s1 rmt;
         s2 = set_cmd (\<lambda>c. c\<lparr>c_cmd := CMD_COPYIN_RQST, c_dcid := p_dcid (procs s1 lcl),
                c_src := p_endpoint (procs s1 lcl), c_dst := p_nodeid r,
                c_snode := local_nodeid s1, c_dnode := p_nodeid r,
                c_len := v_bytes (c_u c), c_rcode := OK\<rparr>) rmt s1
     in sproxy_enqueue E rmt s2)"

definition copyout_data_lcl2rmt :: "env \<Rightarrow> pref \<Rightarrow> pref \<Rightarrow> int \<Rightarrow> kstate \<Rightarrow> kstate \<times> int" where
  "copyout_data_lcl2rmt E rmt lcl rcode s =
    (let s1 = set_rts BIT_RMTOPER rmt s;
         r = procs s1 rmt;
         s2 = set_cmd (\<lambda>c. c\<lparr>c_cmd := CMD_COPYOUT_DATA, c_dcid := p_dcid r,
                c_src := p_endpoint (procs s1 lcl), c_dst := p_endpoint r,
                c_snode := local_nodeid s1, c_dnode := p_nodeid r,
                c_len := v_bytes (c_u c), c_rcode := rcode\<rparr>) rmt s1
     in sproxy_enqueue E rmt s2)"

section \<open>Acknowledgements from a remote process\<close>

definition send_ack_rmt2lcl :: "env \<Rightarrow> pref \<Rightarrow> pref \<Rightarrow> int \<Rightarrow> kstate \<Rightarrow> kstate \<times> int" where
  "send_ack_rmt2lcl E rmt lcl rcode s =
    (if rts s rmt BIT_SENDING then (s, EMOLPROCSTS)
     else if \<not> rts s lcl BIT_SENDING then (s, EMOLACKDST)
     else if p_sendto (procs s lcl) \<noteq> p_endpoint (procs s rmt) then (s, EMOLACKSRC)
     else
      let s1 = clear_rts BIT_SENDING lcl s;
          s2 = upd lcl (\<lambda>x. x\<lparr>p_sendto := NONE\<rparr>) s1;
          s3 = (if p_rts_flags (procs s2 lcl) = 0 then READY_UP_RCODE E lcl rcode s2 else s2)
      in (s3, OK))"

definition generic_ack_rmt2lcl :: "env \<Rightarrow> int \<Rightarrow> pref \<Rightarrow> pref \<Rightarrow> int \<Rightarrow> kstate \<Rightarrow> kstate \<times> int" where
  "generic_ack_rmt2lcl E ack rmt lcl rcode s =
    (if \<not> IT_IS_REMOTE s rmt then (s, EMOLLCLPROC)
     else if p_rts_flags (procs s lcl) = PROC_RUNNING then (s, EMOLPROCRUN)
     else if \<not> rts s lcl BIT_ONCOPY then (s, EMOLPROCSTS)
     else if \<not> rts s rmt BIT_ONCOPY then (s, EMOLPROCSTS)
     else (if p_rts_flags (procs s lcl) = ONCOPY then READY_UP_RCODE E lcl rcode s else s, OK))"

section \<open>Facts about the proxy queue\<close>

lemma sproxy_enqueue_frame [simp]:
  "local_nodeid (fst (sproxy_enqueue E p s)) = local_nodeid s"
  "dvs (fst (sproxy_enqueue E p s)) = dvs s" "dc (fst (sproxy_enqueue E p s)) = dc s"
  "node (fst (sproxy_enqueue E p s)) = node s" "proxies (fst (sproxy_enqueue E p s)) = proxies s"
  "tasks (fst (sproxy_enqueue E p s)) = tasks s" "umem (fst (sproxy_enqueue E p s)) = umem s"
  "kmem (fst (sproxy_enqueue E p s)) = kmem s"
  by (simp_all add: sproxy_enqueue_def Let_def)

lemma sproxy_enqueue_fields [simp]:
  "p_nr (procs (fst (sproxy_enqueue E p s)) q) = p_nr (procs s q)"
  "p_endpoint (procs (fst (sproxy_enqueue E p s)) q) = p_endpoint (procs s q)"
  "p_dcid (procs (fst (sproxy_enqueue E p s)) q) = p_dcid (procs s q)"
  "p_lpid (procs (fst (sproxy_enqueue E p s)) q) = p_lpid (procs s q)"
  "p_nodeid (procs (fst (sproxy_enqueue E p s)) q) = p_nodeid (procs s q)"
  "p_nodemap (procs (fst (sproxy_enqueue E p s)) q) = p_nodemap (procs s q)"
  "p_misc_flags (procs (fst (sproxy_enqueue E p s)) q) = p_misc_flags (procs s q)"
  "p_getfrom (procs (fst (sproxy_enqueue E p s)) q) = p_getfrom (procs s q)"
  "p_sendto (procs (fst (sproxy_enqueue E p s)) q) = p_sendto (procs s q)"
  "p_waitmigr (procs (fst (sproxy_enqueue E p s)) q) = p_waitmigr (procs s q)"
  "p_waitunbind (procs (fst (sproxy_enqueue E p s)) q) = p_waitunbind (procs s q)"
  "p_lclsent (procs (fst (sproxy_enqueue E p s)) q) = p_lclsent (procs s q)"
  "p_rmtsent (procs (fst (sproxy_enqueue E p s)) q) = p_rmtsent (procs s q)"
  "p_lclcopy (procs (fst (sproxy_enqueue E p s)) q) = p_lclcopy (procs s q)"
  "p_rmtcopy (procs (fst (sproxy_enqueue E p s)) q) = p_rmtcopy (procs s q)"
  "p_cpumask (procs (fst (sproxy_enqueue E p s)) q) = p_cpumask (procs s q)"
  "p_priv (procs (fst (sproxy_enqueue E p s)) q) = p_priv (procs s q)"
  "p_mlist (procs (fst (sproxy_enqueue E p s)) q) = p_mlist (procs s q)"
  "p_ulist (procs (fst (sproxy_enqueue E p s)) q) = p_ulist (procs s q)"
  "p_message (procs (fst (sproxy_enqueue E p s)) q) = p_message (procs s q)"
  "p_umsg (procs (fst (sproxy_enqueue E p s)) q) = p_umsg (procs s q)"
  "p_rmtcmd (procs (fst (sproxy_enqueue E p s)) q) = p_rmtcmd (procs s q)"
  "p_task (procs (fst (sproxy_enqueue E p s)) q) = p_task (procs s q)"
  by (simp_all add: sproxy_enqueue_def up_if_ready_def Let_def)

lemma sproxy_enqueue_dcproc [simp]:
  "p_rts_flags (procs (fst (sproxy_enqueue E p s)) (DcProc i j)) = p_rts_flags (procs s (DcProc i j))"
  "p_rcode (procs (fst (sproxy_enqueue E p s)) (DcProc i j)) = p_rcode (procs s (DcProc i j))"
  "p_pseudosem (procs (fst (sproxy_enqueue E p s)) (DcProc i j)) = p_pseudosem (procs s (DcProc i j))"
  "p_list (procs (fst (sproxy_enqueue E p s)) (DcProc i j)) = p_list (procs s (DcProc i j))"
  by (auto simp: sproxy_enqueue_def up_if_ready_def Let_def NODE2SPROXY_def)

lemma sproxy_enqueue_list:
  assumes "p_rts_flags (procs s (NODE2SPROXY s (c_dnode (p_rmtcmd (procs s p))))) \<noteq> SLOT_FREE"
  shows "p_list (procs (fst (sproxy_enqueue E p s)) q) = p_list (procs s q)
     @ (if q = NODE2SPROXY s (c_dnode (p_rmtcmd (procs s p))) then [p] else [])"
  using assms by (simp add: sproxy_enqueue_def up_if_ready_def Let_def)

lemma NODE2SPROXY_ne [simp]: "NODE2SPROXY s n \<noteq> DcProc i j" "NODE2SPROXY s n \<noteq> Rproxy i"
  "DcProc i j \<noteq> NODE2SPROXY s n"
  by (simp_all add: NODE2SPROXY_def)

lemma NODE2SPROXY_cong [simp]: "NODE2SPROXY (upd p f s) n = NODE2SPROXY s n"
  "NODE2RPROXY (upd p f s) n = NODE2RPROXY s n"
  by (simp_all add: NODE2SPROXY_def NODE2RPROXY_def)

lemma sproxy_enqueue_queue:
  assumes "sproxy_enqueue E p s = (s', OK)" "p \<noteq> NODE2SPROXY s (c_dnode (p_rmtcmd (procs s p)))"
  shows "p_list (procs s' (NODE2SPROXY s (c_dnode (p_rmtcmd (procs s p)))))
           = p_list (procs s (NODE2SPROXY s (c_dnode (p_rmtcmd (procs s p))))) @ [p]"
    and "p_proxy (procs s' p) = p_nr (procs s (NODE2SPROXY s (c_dnode (p_rmtcmd (procs s p)))))"
    and "p_rmtcmd (procs s' p) = p_rmtcmd (procs s p)"
  using assms by (auto simp: sproxy_enqueue_def Let_def split: if_splits)

end
