(* ===== verification/Scenario.thy ===== *)
theory Scenario
  imports Proxy_Queue
begin

text \<open>
  A small running DVS on which the witnesses evaluate: node 0 is the local node,
  DC 0 spans nodes 0 and 1; processes 1, 2 and 3 are local (Linux tasks 101, 102
  and 103, each with its own address space), process 5 lives on node 1, and the
  proxy pair 1 of node 1 is bound and connected (tasks 301 and 302).
\<close>

definition scn_env :: env where
  "scn_env = \<lparr>e_now = (7, 9), e_gup = (\<lambda>_ _. True), e_uncopied = (\<lambda>_ _ _. 0), e_cpu = 0,
     e_sendsig = (\<lambda>_. 0), e_setaffinity = (\<lambda>_ _ a. a)\<rparr>"

definition scn_free :: proc where
  "scn_free = zero_proc\<lparr>p_rts_flags := SLOT_FREE, p_lpid := PROC_NO_PID, p_getfrom := NONE,
     p_sendto := NONE, p_nodeid := - 1\<rparr>"

definition scn_local :: "int \<Rightarrow> proc" where
  "scn_local nr = zero_proc\<lparr>p_nr := nr, p_endpoint := nr, p_lpid := 100 + nr, p_getfrom := NONE,
     p_sendto := NONE, p_task := Some (100 + nr),
     p_priv := zero_priv\<lparr>s_id := nr + NR_TASKS\<rparr>\<rparr>"

definition scn_remote :: "int \<Rightarrow> int \<Rightarrow> proc" where
  "scn_remote nr n = zero_proc\<lparr>p_nr := nr, p_endpoint := nr, p_lpid := PROC_NO_PID,
     p_rts_flags := REMOTE, p_nodeid := n, p_getfrom := NONE, p_sendto := NONE\<rparr>"

definition scn_proxy :: "int \<Rightarrow> int \<Rightarrow> proc" where
  "scn_proxy px pid = zero_proc\<lparr>p_nr := px, p_dcid := - 1, p_lpid := pid, p_misc_flags := 3,
     p_nodemap := 2, p_getfrom := NONE, p_sendto := NONE, p_task := Some pid\<rparr>"

definition scn_task :: "int \<Rightarrow> pref \<Rightarrow> task" where
  "scn_task pid p = no_task\<lparr>t_live := True, t_tgid := pid, t_leader := Some pid, t_mm := pid,
     t_proc := Some p\<rparr>"

definition scn :: kstate where
  "scn = boot_state\<lparr>local_nodeid := 0,
     dvs := zero_dvs\<lparr>d_nr_dcs := NR_DCS, d_nr_nodes := NR_NODES, d_nr_procs := NR_PROCS,
              d_nr_tasks := NR_TASKS, d_nr_sysprocs := NR_SYS_PROCS,
              d_max_copybuf := MAXCOPYBUF, d_max_copylen := MAXCOPYLEN\<rparr>,
     dc := (\<lambda>i. zero_dc\<lparr>dc_dcid := i, dc_flags := (if i = 0 then 0 else 2), dc_nr_procs := NR_PROCS,
              dc_nr_tasks := NR_TASKS, dc_nr_sysprocs := NR_SYS_PROCS, dc_nr_nodes := NR_NODES,
              dc_nodes := 3\<rparr>),
     node := (\<lambda>n. zero_node\<lparr>n_nodeid := n, n_proxies := n, n_dcs := 1\<rparr>),
     proxies := (\<lambda>i. zero_proxies\<lparr>px_id := i, px_flags := 7, px_maxbytes := MAXCOPYBUF\<rparr>),
     procs := (\<lambda>_. scn_free)
       (DcProc 0 36 := scn_local 1, DcProc 0 37 := scn_local 2, DcProc 0 38 := scn_local 3,
        DcProc 0 40 := scn_remote 5 1,
        Sproxy 1 := scn_proxy 1 301, Rproxy 1 := scn_proxy 1 302),
     tasks := (\<lambda>_. no_task)
       (101 := scn_task 101 (DcProc 0 36), 102 := scn_task 102 (DcProc 0 37),
        103 := scn_task 103 (DcProc 0 38),
        301 := scn_task 301 (Sproxy 1), 302 := scn_task 302 (Rproxy 1)),
     umem := (\<lambda>mm a. word_of_int mm)\<rparr>"

text \<open>Process 2 blocked in a receive from anyone, its buffer at address 4096.\<close>

definition scn_waiting :: kstate where
  "scn_waiting = upd (DcProc 0 37)
     (\<lambda>x. x\<lparr>p_rts_flags := 8, p_getfrom := ANY, p_umsg := 4096, p_pseudosem := - 1\<rparr>) scn"

lemmas scn_defs = scn_def scn_free_def scn_local_def scn_remote_def scn_proxy_def scn_task_def
  boot_state_def zero_proc_def zero_priv_def zero_cmd_def zero_dc_def zero_node_def zero_dvs_def
  zero_proxies_def no_task_def

lemma scn_env_sel [simp]:
  "e_now scn_env = (7, 9)" "e_gup scn_env mm a" "e_uncopied scn_env mm a n = 0" "e_cpu scn_env = 0"
  "e_setaffinity scn_env p m f = f"
  by (simp_all add: scn_env_def)

lemma scn_pages [simp]: "pages_ok scn_env mm a n"
  by (simp add: pages_ok_def)

lemmas check_defs = DVS_NOT_INIT_def check_caller_def pick_caller_def take_needmigr_def
  check_caller_status_def chk_of_def

end
