(* ===== verification/Ipc_Send.thy ===== *)
theory Ipc_Send
  imports Scenario
begin

text \<open>
  \<open>mm_mini_send\<close> (\<open>src/mol-module/mm_ipc.c\<close>): the parameter checks, the
  destination check with its retry loop for a migrating destination, the remote
  branch through the sender proxy and the local rendezvous, each with the part
  that runs after the sleep.
\<close>

section \<open>The call\<close>

text \<open>The status of a proxy descriptor before a remote operation.\<close>

definition proxy_status :: "kstate \<Rightarrow> pref \<Rightarrow> int" where
  "proxy_status s px =
    (if p_lpid (procs s px) = PROC_NO_PID then EMOLNOPROXY
     else if rts s px BIT_SLOT_FREE then EMOLNOPROXY
     else if \<not> mis s px MIS_BIT_PROXY then EMOLNOPROXY
     else if \<not> mis s px MIS_BIT_CONNECTED then EMOLNOTCONN
     else OK)"

text \<open>Is \<open>d\<close> blocked receiving, and would it take a message from \<open>ep\<close>?\<close>

definition waiting_for :: "kstate \<Rightarrow> pref \<Rightarrow> int \<Rightarrow> bool" where
  "waiting_for s d ep \<longleftrightarrow> rts s d BIT_RECEIVING \<and> \<not> rts s d BIT_SENDING
     \<and> (p_getfrom (procs s d) = ANY \<or> p_getfrom (procs s d) = ep)"

definition send_remote_post :: "locals \<Rightarrow> kstate \<Rightarrow> kstate \<times> outcome" where
  "send_remote_post l s =
    (let c = l_caller l; ret = p_rcode (procs s c) in
     if ret = OK then (upd c (\<lambda>x. x\<lparr>p_rmtsent := p_rmtsent x + 1\<rparr>) s, Return OK)
     else
      let s1 = (if rts s c BIT_SENDING then LIST_DEL_INIT c s else s);
          s2 = clear_rts BIT_SENDING c s1;
          s3 = upd c (\<lambda>x. x\<lparr>p_sendto := NONE\<rparr>) s2;
          s4 = clear_rts BIT_RMTOPER c s3;
          s5 = upd c (\<lambda>x. x\<lparr>p_proxy := NONE\<rparr>) s4
      in (s5, if ret = EMOLMIGRATE then Goto (PP_send_replay l) else Return ret))"

definition send_remote :: "env \<Rightarrow> int \<Rightarrow> locals \<Rightarrow> kstate \<Rightarrow> kstate \<times> outcome" where
  "send_remote E tid l s =
    (let c = l_caller l; d = l_peer l; ret = proxy_status s (NODE2SPROXY s (p_nodeid (procs s d))) in
     if ret \<noteq> OK then (s, Return ret)
     else
      let s1 = clear_rts BIT_RECEIVING d s;
          s2 = upd d (\<lambda>x. if p_getfrom x = p_endpoint (procs s1 c)
                 then x\<lparr>p_getfrom := NONE\<rparr> else x) s1;
          s3 = set_cmd (\<lambda>k. k\<lparr>c_cmd := CMD_SEND_MSG, c_src := p_endpoint (procs s2 c),
                 c_dst := l_ep l, c_dcid := p_dcid (procs s2 c), c_snode := local_nodeid s2,
                 c_dnode := p_nodeid (procs s2 d), c_rcode := OK, c_len := 0\<rparr>) c s2;
          msg = fst (copy_from_user E (mm_of_task s3 tid) (l_msg l) MSG_SIZE s3);
          s4 = set_cmd (\<lambda>k. k\<lparr>c_u := msg\<rparr>) c s3;
          s5 = set_rts BIT_SENDING c s4;
          s6 = upd c (\<lambda>x. x\<lparr>p_sendto := l_ep l\<rparr>) s5;
          s7 = set_rts BIT_RMTOPER c s6;
          s8 = fst (sproxy_enqueue E c s7)
      in sleep_or c (l_timeout l) (PP_send_rmt l) (send_remote_post l) s8)"

definition send_local_post :: "locals \<Rightarrow> kstate \<Rightarrow> kstate \<times> outcome" where
  "send_local_post l s =
    (let c = l_caller l; ret = p_rcode (procs s c) in
     if ret = OK then (upd c (\<lambda>x. x\<lparr>p_lclsent := p_lclsent x + 1\<rparr>) s, Return OK)
     else
      let s1 = (if rts s c BIT_SENDING then LIST_DEL_INIT c s else s);
          s2 = clear_rts BIT_SENDING c s1;
          s3 = upd c (\<lambda>x. x\<lparr>p_sendto := NONE\<rparr>) s2
      in (s3, if ret = EMOLMIGRATE then Goto (PP_send_replay l) else Return ret))"

definition send_local :: "env \<Rightarrow> locals \<Rightarrow> kstate \<Rightarrow> kstate \<times> outcome" where
  "send_local E l s =
    (let c = l_caller l; d = l_peer l; caller_ep = p_endpoint (procs s c) in
     if waiting_for s d caller_ep then
       let (s1, ret) = copy_usr2usr E caller_ep c (l_msg l) d (p_umsg (procs s d)) (int MSG_SIZE) s in
       if ret \<noteq> OK then (s1, Return ret)
       else
        let s2 = clear_rts BIT_RECEIVING d s1;
            s3 = upd d (\<lambda>x. x\<lparr>p_getfrom := NONE\<rparr>) s2;
            s4 = up_if_ready E d ret s3;
            s5 = upd c (\<lambda>x. x\<lparr>p_lclsent := p_lclsent x + 1\<rparr>) s4
        in (s5, Return OK)
     else
       let s1 = set_rts BIT_SENDING c s;
           s2 = upd c (\<lambda>x. x\<lparr>p_sendto := l_ep l, p_umsg := l_msg l\<rparr>) s1;
           s3 = LIST_ADD_TAIL c d s2
       in sleep_or c (l_timeout l) (PP_send_lcl l) (send_local_post l) s3)"

text \<open>One round of the destination check; a migrating destination makes the caller wait on
  its \<open>p_mlist\<close> and check again.\<close>

definition send_replay :: "env \<Rightarrow> int \<Rightarrow> locals \<Rightarrow> kstate \<Rightarrow> kstate \<times> outcome" where
  "send_replay E tid l s =
    (let c = l_caller l; d = l_peer l; nodeid = p_nodeid (procs s d) in
     if p_endpoint (procs s d) \<noteq> l_ep l then (s, Return EMOLENDPOINT)
     else if rts s d BIT_SLOT_FREE then (s, Return EMOLDSTDIED)
     else if rts s d BIT_MIGRATE then
       let s1 = set_rts BIT_WAITMIGR c s;
           s2 = upd c (\<lambda>x. x\<lparr>p_waitmigr := l_ep l\<rparr>) s1;
           s3 = LIST_ADD_TAIL_M c d s2
       in sleep_or c (l_timeout l) (PP_send_migr l) (\<lambda>s. (s, Goto (PP_send_replay l))) s3
     else if nodeid < 0 \<or> nodeid \<ge> d_nr_nodes (dvs s) then (s, Return EMOLBADNODEID)
     else if \<not> node_bit nodeid (dc_nodes (dc s (l_dcid l))) then (s, Return EMOLNODCNODE)
     else
       let s1 = upd c (\<lambda>x. x\<lparr>p_rcode := OK\<rparr>) s in
       if IT_IS_REMOTE s1 d then send_remote E tid l s1 else send_local E l s1)"

definition mm_mini_send_body ::
  "env \<Rightarrow> int \<Rightarrow> int \<Rightarrow> addr \<Rightarrow> int \<Rightarrow> pref \<Rightarrow> int \<Rightarrow> kstate \<Rightarrow> kstate \<times> outcome" where
  "mm_mini_send_body E tid dst_ep m_ptr timeout_ms c caller_pid s =
    (let caller_ep = p_endpoint (procs s c); dcid = p_dcid (procs s c); dst_nr = ENDPOINT_P dst_ep in
     if caller_pid \<noteq> p_lpid (procs s c) then (s, Return EMOLBADPID)
     else if dcid < 0 \<or> dcid \<ge> d_nr_dcs (dvs s) then (s, Return EMOLBADDCID)
     else if dc_flags (dc s dcid) \<noteq> 0 then (s, Return EMOLDCNOTRUN)
     else if dst_nr < - dc_nr_tasks (dc s dcid) \<or> dst_nr \<ge> dc_nr_procs (dc s dcid)
       then (s, Return EMOLRANGE)
     else if caller_ep = dst_ep then (s, Return EMOLENDPOINT)
     else send_replay E tid
            \<lparr>l_dcid = dcid, l_caller = c, l_peer = NBR2PTR s dcid dst_nr, l_ep = dst_ep,
             l_msg = m_ptr, l_timeout = timeout_ms\<rparr>
            (upd c (\<lambda>x. x\<lparr>p_umsg := m_ptr\<rparr>) s))"

definition mm_mini_send :: "env \<Rightarrow> int \<Rightarrow> int \<Rightarrow> addr \<Rightarrow> int \<Rightarrow> kstate \<Rightarrow> kstate \<times> outcome" where
  "mm_mini_send E tid dst_ep m_ptr timeout_ms s =
    (if DVS_NOT_INIT s then (s, Return EMOLDVSINIT)
     else after_check (Send dst_ep m_ptr timeout_ms)
            (mm_mini_send_body E tid dst_ep m_ptr timeout_ms) (check_caller tid s))"

section \<open>Functional behaviour\<close>

text \<open>The destination passed every check of the call.\<close>

definition dst_ok :: "kstate \<Rightarrow> locals \<Rightarrow> bool" where
  "dst_ok s l \<longleftrightarrow> p_endpoint (procs s (l_peer l)) = l_ep l \<and> \<not> rts s (l_peer l) BIT_SLOT_FREE
     \<and> \<not> rts s (l_peer l) BIT_MIGRATE \<and> 0 \<le> p_nodeid (procs s (l_peer l))
     \<and> p_nodeid (procs s (l_peer l)) < d_nr_nodes (dvs s)
     \<and> node_bit (p_nodeid (procs s (l_peer l))) (dc_nodes (dc s (l_dcid l)))"

lemma send_replay_local:
  "dst_ok s l \<Longrightarrow> \<not> IT_IS_REMOTE s (l_peer l) \<Longrightarrow>
   send_replay E tid l s = send_local E l (upd (l_caller l) (\<lambda>x. x\<lparr>p_rcode := OK\<rparr>) s)"
  by (auto simp: send_replay_def dst_ok_def IT_IS_REMOTE_def Let_def)

lemma send_replay_remote:
  "dst_ok s l \<Longrightarrow> IT_IS_REMOTE s (l_peer l) \<Longrightarrow>
   send_replay E tid l s = send_remote E tid l (upd (l_caller l) (\<lambda>x. x\<lparr>p_rcode := OK\<rparr>) s)"
  by (auto simp: send_replay_def dst_ok_def IT_IS_REMOTE_def Let_def)

lemma mm_of_upd [simp]: "(\<And>x. p_task (f x) = p_task x) \<Longrightarrow> mm_of (upd p f s) q = mm_of s q"
  by (simp add: mm_of_def split: option.split)

text \<open>The caller and the destination number pass the checks before the destination is locked.\<close>

definition call_ready :: "kstate \<Rightarrow> int \<Rightarrow> pref \<Rightarrow> int \<Rightarrow> bool" where
  "call_ready s tid c ep \<longleftrightarrow> \<not> DVS_NOT_INIT s
     \<and> check_caller tid s = (s, Chk_ok c (p_lpid (procs s c)))
     \<and> 0 \<le> p_dcid (procs s c) \<and> p_dcid (procs s c) < d_nr_dcs (dvs s)
     \<and> dc_flags (dc s (p_dcid (procs s c))) = 0
     \<and> - dc_nr_tasks (dc s (p_dcid (procs s c))) \<le> ENDPOINT_P ep
     \<and> ENDPOINT_P ep < dc_nr_procs (dc s (p_dcid (procs s c)))
     \<and> p_endpoint (procs s c) \<noteq> ep"

definition mk_locals :: "kstate \<Rightarrow> pref \<Rightarrow> int \<Rightarrow> addr \<Rightarrow> int \<Rightarrow> locals" where
  "mk_locals s c ep m timeout = \<lparr>l_dcid = p_dcid (procs s c), l_caller = c,
     l_peer = NBR2PTR s (p_dcid (procs s c)) (ENDPOINT_P ep), l_ep = ep, l_msg = m,
     l_timeout = timeout\<rparr>"

lemma mk_locals_sel [simp]:
  "l_caller (mk_locals s c ep m t) = c" "l_ep (mk_locals s c ep m t) = ep"
  "l_msg (mk_locals s c ep m t) = m" "l_timeout (mk_locals s c ep m t) = t"
  "l_dcid (mk_locals s c ep m t) = p_dcid (procs s c)"
  "l_peer (mk_locals s c ep m t) = NBR2PTR s (p_dcid (procs s c)) (ENDPOINT_P ep)"
  by (simp_all add: mk_locals_def)

lemma mm_mini_send_ready:
  "call_ready s tid c ep \<Longrightarrow>
   mm_mini_send E tid ep m t s =
     send_replay E tid (mk_locals s c ep m t) (upd c (\<lambda>x. x\<lparr>p_umsg := m\<rparr>) s)"
  by (auto simp: mm_mini_send_def call_ready_def after_check_def mm_mini_send_body_def mk_locals_def
      Let_def)

lemma dst_ok_ne: "call_ready s tid c ep \<Longrightarrow> dst_ok s (mk_locals s c ep m t) \<Longrightarrow>
   l_peer (mk_locals s c ep m t) \<noteq> c"
  by (auto simp: call_ready_def dst_ok_def)

lemma dst_ok_upd_caller [simp]:
  "l_peer l \<noteq> c \<Longrightarrow> dst_ok (upd c f s) l = dst_ok s l"
  by (simp add: dst_ok_def)

text \<open>A message can be copied between the two processes: word-aligned buffers in different
  address spaces whose pages are mapped.\<close>

definition msg_copyable :: "env \<Rightarrow> kstate \<Rightarrow> pref \<Rightarrow> addr \<Rightarrow> pref \<Rightarrow> addr \<Rightarrow> bool" where
  "msg_copyable E s p sa q da \<longleftrightarrow> 4 dvd unat sa \<and> 4 dvd unat da \<and> mm_of s p \<noteq> mm_of s q
     \<and> pages_ok E (mm_of s p) sa MSG_SIZE \<and> pages_ok E (mm_of s q) da MSG_SIZE"

text \<open>The message as the receiver gets it: the sender's bytes with \<open>m_source\<close> overwritten.\<close>

definition delivered_bytes :: "int \<Rightarrow> kstate \<Rightarrow> pref \<Rightarrow> addr \<Rightarrow> message" where
  "delivered_bytes ep s p a = i32_bytes ep @ drop 4 (read_mem (umem s (mm_of s p)) a MSG_SIZE)"

lemma copy_message:
  "msg_copyable E s p sa q da \<Longrightarrow> ep \<noteq> NONE \<Longrightarrow>
   copy_usr2usr E ep p sa q da 36 s =
     (set_umem (mm_of s q) (write_mem da (delivered_bytes ep s p sa) (umem s (mm_of s q))) s, OK)"
  using copy_usr2usr_message [of sa da ep s p q E]
  by (simp add: msg_copyable_def delivered_bytes_def)

lemma length_delivered [simp]: "length (delivered_bytes ep s p a) = MSG_SIZE"
  by (simp add: delivered_bytes_def)

lemma read_delivered: "read_mem (write_mem a (delivered_bytes ep s p b) m) a MSG_SIZE = delivered_bytes ep s p b"
  using read_write_mem [of "delivered_bytes ep s p b" a m] by simp

lemma send_local_waiting:
  assumes "l_peer l \<noteq> l_caller l" "waiting_for s (l_peer l) (p_endpoint (procs s (l_caller l)))"
    "msg_copyable E s (l_caller l) (l_msg l) (l_peer l) (p_umsg (procs s (l_peer l)))"
    "p_endpoint (procs s (l_caller l)) \<noteq> NONE"
  shows "send_local E l s =
    (upd (l_caller l) (\<lambda>x. x\<lparr>p_lclsent := p_lclsent x + 1\<rparr>)
      (up_if_ready E (l_peer l) OK (upd (l_peer l) (\<lambda>x. x\<lparr>p_getfrom := NONE\<rparr>)
        (clear_rts BIT_RECEIVING (l_peer l)
          (set_umem (mm_of s (l_peer l)) (write_mem (p_umsg (procs s (l_peer l)))
             (delivered_bytes (p_endpoint (procs s (l_caller l))) s (l_caller l) (l_msg l))
             (umem s (mm_of s (l_peer l)))) s)))), Return OK)"
  using assms by (simp add: send_local_def copy_message Let_def)

lemma unset_receiving_8: "unset_bit BIT_RECEIVING (8 :: flags) = 0"
  by (simp add: unset_bit_eq_and_not)

text \<open>C25: a send to a local process that is blocked receiving from the caller or from anyone
  returns OK at once; the receiver's buffer then holds the caller's message with m_source set to
  the caller's endpoint, the receiver is no longer receiving, no queue changes, and a receiver that
  had no other reason to sleep is woken with return code OK.\<close>

theorem send_rendezvous:
  assumes ready: "call_ready s tid c dst_ep" and l: "l = mk_locals s c dst_ep m t"
    and d: "d = l_peer l" and ok: "dst_ok s l" "\<not> IT_IS_REMOTE s d"
    and w: "waiting_for s d (p_endpoint (procs s c))"
    and cp: "msg_copyable E s c m d (p_umsg (procs s d))" "p_endpoint (procs s c) \<noteq> NONE"
  shows "\<exists>s'. mm_mini_send E tid dst_ep m t s = (s', Return OK)
    \<and> read_mem (umem s' (mm_of s d)) (p_umsg (procs s d)) MSG_SIZE
        = delivered_bytes (p_endpoint (procs s c)) s c m
    \<and> \<not> rts s' d BIT_RECEIVING \<and> p_getfrom (procs s' d) = NONE
    \<and> (\<forall>q. p_list (procs s' q) = p_list (procs s q))
    \<and> p_lclsent (procs s' c) = p_lclsent (procs s c) + 1
    \<and> (p_rts_flags (procs s d) = 8 \<longrightarrow> p_rcode (procs s' d) = OK
          \<and> p_pseudosem (procs s' d) = p_pseudosem (procs s d) + 1)"
proof -
  have ne: "d \<noteq> c" using dst_ok_ne [OF ready] ok(1) unfolding d l by blast
  have lsel: "l_caller l = c" "l_peer l = d" "l_msg l = m" using l d by simp_all
  let ?s1 = "upd c (\<lambda>x. x\<lparr>p_rcode := OK\<rparr>) (upd c (\<lambda>x. x\<lparr>p_umsg := m\<rparr>) s)"
  let ?ep = "p_endpoint (procs s c)" and ?da = "p_umsg (procs s d)"
  have cp1: "msg_copyable E ?s1 c m d ?da" and del: "delivered_bytes ?ep ?s1 c m = delivered_bytes ?ep s c m"
    using cp(1) by (simp_all add: msg_copyable_def delivered_bytes_def)
  let ?s2 = "set_umem (mm_of s d) (write_mem ?da (delivered_bytes ?ep s c m) (umem s (mm_of s d))) ?s1"
  have "mm_mini_send E tid dst_ep m t s = send_local E l ?s1"
    using ne ok mm_mini_send_ready [OF ready, of E m t] lsel l
    by (simp add: send_replay_local IT_IS_REMOTE_def)
  also have "\<dots> = (upd c (\<lambda>x. x\<lparr>p_lclsent := p_lclsent x + 1\<rparr>)
      (up_if_ready E d OK (upd d (\<lambda>x. x\<lparr>p_getfrom := NONE\<rparr>) (clear_rts BIT_RECEIVING d ?s2))), Return OK)"
    using ne w cp1 cp(2) del lsel
    by (subst send_local_waiting) (simp_all add: waiting_for_def)
  finally have call: "mm_mini_send E tid dst_ep m t s = \<dots>" .
  show ?thesis
    unfolding call using ne
    by (auto simp: read_delivered up_if_ready_def unset_receiving_8)
qed

theorem send_rendezvous_witness:
  "\<exists>s'. mm_mini_send scn_env 101 2 8192 TIMEOUT_FOREVER scn_waiting = (s', Return OK)
    \<and> read_mem (umem s' 102) 4096 MSG_SIZE = delivered_bytes 1 scn_waiting (DcProc 0 36) 8192
    \<and> p_rcode (procs s' (DcProc 0 37)) = OK \<and> p_pseudosem (procs s' (DcProc 0 37)) = 0"
proof -
  have "call_ready scn_waiting 101 (DcProc 0 36) 2"
    by (simp add: call_ready_def scn_waiting_def scn_defs check_defs)
  moreover have "dst_ok scn_waiting (mk_locals scn_waiting (DcProc 0 36) 2 8192 (- 1))"
    by (simp add: dst_ok_def NBR2PTR_def scn_waiting_def scn_defs node_bit_def)
  moreover have "l_peer (mk_locals scn_waiting (DcProc 0 36) 2 8192 (- 1)) = DcProc 0 37"
    by (simp add: NBR2PTR_def scn_waiting_def scn_defs)
  moreover have "msg_copyable scn_env scn_waiting (DcProc 0 36) 8192 (DcProc 0 37) 4096"
    by (simp add: msg_copyable_def mm_of_def scn_waiting_def scn_defs)
  moreover have "waiting_for scn_waiting (DcProc 0 37) 1" "\<not> IT_IS_REMOTE scn_waiting (DcProc 0 37)"
    by (simp_all add: waiting_for_def IT_IS_REMOTE_def scn_waiting_def)
  moreover have "p_endpoint (procs scn_waiting (DcProc 0 36)) = 1" "mm_of scn_waiting (DcProc 0 37) = 102"
    "p_umsg (procs scn_waiting (DcProc 0 37)) = 4096" "p_rts_flags (procs scn_waiting (DcProc 0 37)) = 8"
    "p_pseudosem (procs scn_waiting (DcProc 0 37)) = - 1"
    by (simp_all add: mm_of_def scn_waiting_def scn_defs)
  ultimately show ?thesis
    using send_rendezvous [of scn_waiting 101 "DcProc 0 36" 2 _ 8192 "- 1" "DcProc 0 37" scn_env, OF _ refl]
    by auto
qed

section \<open>Blocking, timing out, not waiting\<close>

lemma send_local_block:
  assumes "\<not> waiting_for s (l_peer l) (p_endpoint (procs s (l_caller l)))"
    "l_timeout l \<noteq> TIMEOUT_NOWAIT"
  shows "send_local E l s =
    (upd (l_caller l) (\<lambda>x. x\<lparr>p_pseudosem := - 1, p_rcode := OK\<rparr>)
      (LIST_ADD_TAIL (l_caller l) (l_peer l)
        (upd (l_caller l) (\<lambda>x. x\<lparr>p_sendto := l_ep l, p_umsg := l_msg l\<rparr>)
          (set_rts BIT_SENDING (l_caller l) s))), Block (PP_send_lcl l))"
  using assms by (simp add: send_local_def sleep_or_block Let_def)

text \<open>A send to a local process that is not waiting for it blocks the caller: it becomes
  the last of the destination's queue of senders, in state SENDING to that destination, and every
  other queue is unchanged.\<close>

theorem send_enqueues_at_tail:
  assumes ready: "call_ready s tid c dst_ep" and l: "l = mk_locals s c dst_ep m t"
    and d: "d = l_peer l" and ok: "dst_ok s l" "\<not> IT_IS_REMOTE s d"
    and w: "\<not> waiting_for s d (p_endpoint (procs s c))" and t: "t \<noteq> TIMEOUT_NOWAIT"
  shows "\<exists>s'. mm_mini_send E tid dst_ep m t s = (s', Block (PP_send_lcl l))
    \<and> p_list (procs s' d) = p_list (procs s d) @ [c]
    \<and> (\<forall>q. q \<noteq> d \<longrightarrow> p_list (procs s' q) = p_list (procs s q))
    \<and> rts s' c BIT_SENDING \<and> p_sendto (procs s' c) = dst_ep \<and> p_umsg (procs s' c) = m
    \<and> p_pseudosem (procs s' c) = - 1 \<and> p_rcode (procs s' c) = OK
    \<and> (\<forall>q. q \<notin> {c, d} \<longrightarrow> procs s' q = procs s q)"
proof -
  have ne: "d \<noteq> c" using dst_ok_ne [OF ready] ok(1) unfolding d l by blast
  have lsel: "l_caller l = c" "l_peer l = d" "l_msg l = m" "l_ep l = dst_ep" "l_timeout l = t"
    using l d by simp_all
  let ?s1 = "upd c (\<lambda>x. x\<lparr>p_rcode := OK\<rparr>) (upd c (\<lambda>x. x\<lparr>p_umsg := m\<rparr>) s)"
  have "mm_mini_send E tid dst_ep m t s = send_local E l ?s1"
    using ne ok mm_mini_send_ready [OF ready, of E m t] lsel l
    by (simp add: send_replay_local IT_IS_REMOTE_def)
  moreover have "\<not> waiting_for ?s1 (l_peer l) (p_endpoint (procs ?s1 (l_caller l)))"
    using w ne lsel by (simp add: waiting_for_def)
  ultimately show ?thesis
    using ne lsel t by (simp add: send_local_block)
qed

theorem send_enqueues_at_tail_witness:
  "\<exists>s'. mm_mini_send scn_env 101 2 8192 TIMEOUT_FOREVER scn =
      (s', Block (PP_send_lcl (mk_locals scn (DcProc 0 36) 2 8192 (- 1))))
    \<and> p_list (procs s' (DcProc 0 37)) = [DcProc 0 36]"
proof -
  have "call_ready scn 101 (DcProc 0 36) 2"
    by (simp add: call_ready_def scn_defs check_defs)
  moreover have "dst_ok scn (mk_locals scn (DcProc 0 36) 2 8192 (- 1))"
    by (simp add: dst_ok_def NBR2PTR_def scn_defs node_bit_def)
  moreover have "l_peer (mk_locals scn (DcProc 0 36) 2 8192 (- 1)) = DcProc 0 37"
    by (simp add: NBR2PTR_def scn_defs)
  moreover have "\<not> waiting_for scn (DcProc 0 37) 1" "\<not> IT_IS_REMOTE scn (DcProc 0 37)"
    "p_endpoint (procs scn (DcProc 0 36)) = 1" "p_list (procs scn (DcProc 0 37)) = []"
    by (simp_all add: waiting_for_def IT_IS_REMOTE_def scn_defs)
  ultimately show ?thesis
    using send_enqueues_at_tail [of scn 101 "DcProc 0 36" 2 _ 8192 "- 1" "DcProc 0 37" scn_env, OF _ refl]
    by auto
qed

text \<open>What a timed-out or interrupted sender leaves behind.\<close>

lemma send_local_post_error:
  assumes "p_rcode (procs s (l_caller l)) \<noteq> OK" "p_rcode (procs s (l_caller l)) \<noteq> EMOLMIGRATE"
    "rts s (l_caller l) BIT_SENDING"
  shows "send_local_post l s =
    (upd (l_caller l) (\<lambda>x. x\<lparr>p_sendto := NONE\<rparr>)
       (clear_rts BIT_SENDING (l_caller l) (LIST_DEL_INIT (l_caller l) s)),
     Return (p_rcode (procs s (l_caller l))))"
  using assms by (simp add: send_local_post_def Let_def)

text \<open>C27: a sender that blocked on a local destination and whose timeout expires before it is
  served returns EMOLTIMEDOUT and leaves no trace: the destination's queue is what it was before
  the call, and the caller has its old flags and no destination.\<close>

theorem send_timeout_leaves_no_trace:
  assumes w: "\<not> waiting_for s (l_peer l) (p_endpoint (procs s (l_caller l)))"
    and t: "0 < l_timeout l" and ne: "l_peer l \<noteq> l_caller l"
    and fresh: "\<forall>q. l_caller l \<notin> set (p_list (procs s q))"
    and idle: "p_rts_flags (procs s (l_caller l)) = 0" "\<not> mis s (l_caller l) MIS_BIT_NEEDMIGR"
  shows "\<exists>s1 s2 s3. send_local E l s = (s1, Block (PP_send_lcl l))
    \<and> wait_result (l_timeout l) (p_pseudosem (procs s1 (l_caller l))) 0
    \<and> sleep_end E (l_caller l) (l_timeout l) 0 s1 = (s2, Some EMOLTIMEDOUT)
    \<and> send_local_post l s2 = (s3, Return EMOLTIMEDOUT)
    \<and> (\<forall>q. p_list (procs s3 q) = p_list (procs s q))
    \<and> p_rts_flags (procs s3 (l_caller l)) = 0 \<and> p_sendto (procs s3 (l_caller l)) = NONE
    \<and> p_pseudosem (procs s3 (l_caller l)) = 0"
  using t ne fresh idle
  by (simp add: send_local_block [OF w] wait_result_def sleep_end_def sleep_wake_def sleep_ret_def
      sleep_fini_def take_needmigr_def send_local_post_error remove1_append unset_set_bit
      list_del_def remove1_idem)

theorem send_timeout_leaves_no_trace_witness:
  "\<exists>s1 s2 s3. send_local scn_env (mk_locals scn (DcProc 0 36) 2 8192 500) scn
      = (s1, Block (PP_send_lcl (mk_locals scn (DcProc 0 36) 2 8192 500)))
    \<and> sleep_end scn_env (DcProc 0 36) 500 0 s1 = (s2, Some EMOLTIMEDOUT)
    \<and> send_local_post (mk_locals scn (DcProc 0 36) 2 8192 500) s2 = (s3, Return EMOLTIMEDOUT)
    \<and> p_list (procs s3 (DcProc 0 37)) = []"
proof -
  let ?l = "mk_locals scn (DcProc 0 36) 2 8192 500"
  have "l_peer ?l = DcProc 0 37" by (simp add: NBR2PTR_def scn_defs)
  moreover have "\<not> waiting_for scn (DcProc 0 37) (p_endpoint (procs scn (DcProc 0 36)))"
    "\<forall>q. DcProc 0 36 \<notin> set (p_list (procs scn q))"
    "p_rts_flags (procs scn (DcProc 0 36)) = 0" "\<not> mis scn (DcProc 0 36) MIS_BIT_NEEDMIGR"
    "p_list (procs scn (DcProc 0 37)) = []"
    by (simp_all add: waiting_for_def scn_defs)
  ultimately show ?thesis
    using send_timeout_leaves_no_trace [of scn ?l scn_env] by auto
qed

text \<open>Rounds of the destination check loop: \<open>Goto (PP_send_replay l)\<close> starts the next.\<close>

fun send_rounds :: "env \<Rightarrow> int \<Rightarrow> locals \<Rightarrow> nat \<Rightarrow> kstate \<Rightarrow> kstate \<times> outcome" where
  "send_rounds E tid l 0 s = (s, Goto (PP_send_replay l))"
| "send_rounds E tid l (Suc n) s =
    (case send_replay E tid l s of
       (s1, Goto p) \<Rightarrow> if p = PP_send_replay l then send_rounds E tid l n s1 else (s1, Goto p)
     | r \<Rightarrow> r)"

lemma send_replay_migrating_nowait:
  assumes "p_endpoint (procs s (l_peer l)) = l_ep l" "\<not> rts s (l_peer l) BIT_SLOT_FREE"
    "rts s (l_peer l) BIT_MIGRATE" "l_timeout l = TIMEOUT_NOWAIT" "l_peer l \<noteq> l_caller l"
  shows "\<exists>s'. send_replay E tid l s = (s', Goto (PP_send_replay l))
    \<and> (\<exists>ml. procs s' (l_peer l) = (procs s (l_peer l))\<lparr>p_mlist := ml\<rparr>
         \<and> length ml = Suc (length (p_mlist (procs s (l_peer l)))))"
  using assms
  by (auto simp: send_replay_def sleep_or_nowait Let_def
      intro!: exI [of _ "p_mlist (procs s (l_peer l)) @ [l_caller l]"])

text \<open>With TIMEOUT_NOWAIT and a migrating destination the call never returns: whatever the
  number of rounds of its check loop, it is still in the loop, and each round has linked the caller
  once more on the destination's migration queue.\<close>

theorem send_nowait_migrating_never_returns:
  assumes "p_endpoint (procs s (l_peer l)) = l_ep l" "\<not> rts s (l_peer l) BIT_SLOT_FREE"
    "rts s (l_peer l) BIT_MIGRATE" "l_timeout l = TIMEOUT_NOWAIT" "l_peer l \<noteq> l_caller l"
  shows "snd (send_rounds E tid l n s) = Goto (PP_send_replay l)
    \<and> length (p_mlist (procs (fst (send_rounds E tid l n s)) (l_peer l)))
        = n + length (p_mlist (procs s (l_peer l)))"
  using assms
proof (induction n arbitrary: s)
  case (Suc n)
  obtain s' ml where r: "send_replay E tid l s = (s', Goto (PP_send_replay l))"
    "procs s' (l_peer l) = (procs s (l_peer l))\<lparr>p_mlist := ml\<rparr>"
    "length ml = Suc (length (p_mlist (procs s (l_peer l))))"
    using send_replay_migrating_nowait [OF Suc.prems] by blast
  with Suc.IH [of s'] Suc.prems show ?case by simp
qed simp

theorem send_nowait_migrating_never_returns_witness:
  "snd (send_rounds scn_env 101 (mk_locals scn (DcProc 0 36) 2 8192 0) 1000
      (set_rts BIT_MIGRATE (DcProc 0 37) scn))
    = Goto (PP_send_replay (mk_locals scn (DcProc 0 36) 2 8192 0))"
proof -
  let ?l = "mk_locals scn (DcProc 0 36) 2 8192 0"
  have "l_peer ?l = DcProc 0 37" "l_ep ?l = 2" by (simp_all add: NBR2PTR_def scn_defs)
  then show ?thesis
    using send_nowait_migrating_never_returns [of "set_rts BIT_MIGRATE (DcProc 0 37) scn" ?l scn_env 101 1000]
    by (simp add: scn_defs)
qed

section \<open>Sending to a remote process\<close>

text \<open>What a remote send leaves in the caller's command and in the queue of the proxy.\<close>

lemma send_remote_queued:
  assumes px: "proxy_status s (NODE2SPROXY s (p_nodeid (procs s (l_peer l)))) = OK"
    and ne: "l_peer l \<noteq> l_caller l" and c: "l_caller l = DcProc i j" "l_peer l = DcProc i k"
    and t: "l_timeout l \<noteq> TIMEOUT_NOWAIT"
    and cp: "e_uncopied E (mm_of_task s tid) (l_msg l) MSG_SIZE = 0"
  shows "\<exists>s'. send_remote E tid l s = (s', Block (PP_send_rmt l))
    \<and> p_list (procs s' (NODE2SPROXY s (p_nodeid (procs s (l_peer l)))))
        = p_list (procs s (NODE2SPROXY s (p_nodeid (procs s (l_peer l))))) @ [l_caller l]
    \<and> c_cmd (p_rmtcmd (procs s' (l_caller l))) = CMD_SEND_MSG
    \<and> c_src (p_rmtcmd (procs s' (l_caller l))) = p_endpoint (procs s (l_caller l))
    \<and> c_dst (p_rmtcmd (procs s' (l_caller l))) = l_ep l
    \<and> c_snode (p_rmtcmd (procs s' (l_caller l))) = local_nodeid s
    \<and> c_dnode (p_rmtcmd (procs s' (l_caller l))) = p_nodeid (procs s (l_peer l))
    \<and> c_u (p_rmtcmd (procs s' (l_caller l))) = read_mem (umem s (mm_of_task s tid)) (l_msg l) MSG_SIZE
    \<and> rts s' (l_caller l) BIT_SENDING \<and> rts s' (l_caller l) BIT_RMTOPER
    \<and> p_sendto (procs s' (l_caller l)) = l_ep l"
proof -
  have "p_rts_flags (procs s (NODE2SPROXY s (p_nodeid (procs s (l_peer l))))) \<noteq> SLOT_FREE"
    using px by (auto simp: proxy_status_def split: if_splits)
  then show ?thesis
    using px ne t cp unfolding c
    by (simp add: send_remote_def sleep_or_block sproxy_enqueue_list Let_def c
        copy_from_user_def mm_of_task_def)
qed

lemma send_remote_frame:
  assumes run: "send_remote E tid l s = (s', Block (PP_send_rmt l))" and t: "l_timeout l \<noteq> TIMEOUT_NOWAIT"
    and c: "l_caller l = DcProc i j" "l_peer l \<noteq> l_caller l"
  shows "dc s' = dc s" "dvs s' = dvs s" "node s' = node s" "tasks s' = tasks s" "umem s' = umem s"
    "p_dcid (procs s' q) = p_dcid (procs s q)" "p_nodeid (procs s' q) = p_nodeid (procs s q)"
    "p_nodemap (procs s' q) = p_nodemap (procs s q)" "p_misc_flags (procs s' q) = p_misc_flags (procs s q)"
    "p_endpoint (procs s' q) = p_endpoint (procs s q)"
    "p_rts_flags (procs s' (l_caller l)) = set_bit BIT_RMTOPER (set_bit BIT_SENDING (p_rts_flags (procs s (l_caller l))))"
    "c_dcid (p_rmtcmd (procs s' (l_caller l))) = p_dcid (procs s (l_caller l))"
    "c_len (p_rmtcmd (procs s' (l_caller l))) = 0" "c_rcode (p_rmtcmd (procs s' (l_caller l))) = OK"
    "c_timestamp (p_rmtcmd (procs s' (l_caller l))) = c_timestamp (p_rmtcmd (procs s (l_caller l)))"
    "p_pseudosem (procs s' (l_caller l)) = - 1"
  using run t c by (auto simp: send_remote_def sleep_or_block Let_def split: if_splits)

lemma mm_mini_send_remote:
  assumes ready: "call_ready s tid c dst_ep" and l: "l = mk_locals s c dst_ep m t" and d: "d = l_peer l"
    and ok: "dst_ok s l" "IT_IS_REMOTE s d"
  shows "mm_mini_send E tid dst_ep m t s
      = send_remote E tid l (upd c (\<lambda>x. x\<lparr>p_rcode := OK\<rparr>) (upd c (\<lambda>x. x\<lparr>p_umsg := m\<rparr>) s))" "d \<noteq> c"
    "d = DcProc (p_dcid (procs s c)) (ENDPOINT_P dst_ep + dc_nr_tasks (dc s (p_dcid (procs s c))))"
proof -
  show ne: "d \<noteq> c" using dst_ok_ne [OF ready] ok(1) unfolding d l by blast
  show "d = DcProc (p_dcid (procs s c)) (ENDPOINT_P dst_ep + dc_nr_tasks (dc s (p_dcid (procs s c))))"
    by (simp add: d l NBR2PTR_def)
  have lsel: "l_caller l = c" "l_peer l = d" "l_msg l = m" "l_ep l = dst_ep" "l_timeout l = t" using l d by simp_all
  then show "mm_mini_send E tid dst_ep m t s
      = send_remote E tid l (upd c (\<lambda>x. x\<lparr>p_rcode := OK\<rparr>) (upd c (\<lambda>x. x\<lparr>p_umsg := m\<rparr>) s))"
    using ne ok mm_mini_send_ready [OF ready, of E m t] l
    by (simp add: send_replay_def dst_ok_def IT_IS_REMOTE_def Let_def)
qed

text \<open>A send to a process of a connected remote node fills the caller's remote command with
  a SEND command that carries the caller's message, and leaves the caller, blocked, at the tail of
  the queue of that node's sender proxy.\<close>

theorem send_remote_enqueues_command:
  assumes ready: "call_ready s tid c dst_ep" and l: "l = mk_locals s c dst_ep m t" and d: "d = l_peer l"
    and ok: "dst_ok s l" "IT_IS_REMOTE s d" and px: "sp = NODE2SPROXY s (p_nodeid (procs s d))" "proxy_status s sp = OK"
    and c: "c = DcProc (p_dcid (procs s c)) j" and t: "t \<noteq> TIMEOUT_NOWAIT"
    and cp: "e_uncopied E (mm_of_task s tid) m MSG_SIZE = 0"
  shows "\<exists>s'. mm_mini_send E tid dst_ep m t s = (s', Block (PP_send_rmt l))
    \<and> p_list (procs s' sp) = p_list (procs s sp) @ [c]
    \<and> c_cmd (p_rmtcmd (procs s' c)) = CMD_SEND_MSG \<and> c_src (p_rmtcmd (procs s' c)) = p_endpoint (procs s c)
    \<and> c_dst (p_rmtcmd (procs s' c)) = dst_ep \<and> c_snode (p_rmtcmd (procs s' c)) = local_nodeid s
    \<and> c_dnode (p_rmtcmd (procs s' c)) = p_nodeid (procs s d)
    \<and> c_u (p_rmtcmd (procs s' c)) = read_mem (umem s (mm_of_task s tid)) m MSG_SIZE
    \<and> rts s' c BIT_SENDING \<and> rts s' c BIT_RMTOPER \<and> p_sendto (procs s' c) = dst_ep"
proof -
  let ?s1 = "upd c (\<lambda>x. x\<lparr>p_rcode := OK\<rparr>) (upd c (\<lambda>x. x\<lparr>p_umsg := m\<rparr>) s)"
  note run = mm_mini_send_remote(1) [OF ready l d ok, of E] and ne = mm_mini_send_remote(2) [OF ready l d ok]
    and dp = mm_mini_send_remote(3) [OF ready l d ok]
  have lsel: "l_caller l = c" "l_peer l = d" "l_msg l = m" "l_ep l = dst_ep" "l_timeout l = t" using l d by simp_all
  have sp: "NODE2SPROXY ?s1 (p_nodeid (procs ?s1 (l_peer l))) = sp"
    using ne lsel(2) px(1) by (simp add: NODE2SPROXY_def)
  have spc: "sp \<noteq> c" using px(1) c by (cases c) (auto simp: NODE2SPROXY_def)
  have st: "proxy_status ?s1 sp = OK" using px(2) spc by (auto simp: proxy_status_def split: if_splits)
  show ?thesis
    unfolding run using send_remote_queued [of ?s1 l "p_dcid (procs s c)" j _ E tid, unfolded lsel sp [unfolded lsel], OF st ne c dp t] spc ne cp
    by (simp add: mm_of_task_def)
qed

theorem send_remote_enqueues_command_witness:
  "\<exists>s'. mm_mini_send scn_env 101 5 8192 TIMEOUT_FOREVER scn
      = (s', Block (PP_send_rmt (mk_locals scn (DcProc 0 36) 5 8192 (- 1))))
    \<and> p_list (procs s' (Sproxy 1)) = [DcProc 0 36]
    \<and> c_cmd (p_rmtcmd (procs s' (DcProc 0 36))) = CMD_SEND_MSG"
proof -
  let ?l = "mk_locals scn (DcProc 0 36) 5 8192 (- 1)"
  have "l_peer ?l = DcProc 0 40" "call_ready scn 101 (DcProc 0 36) 5" "dst_ok scn ?l"
    "IT_IS_REMOTE scn (DcProc 0 40)" "p_dcid (procs scn (DcProc 0 36)) = 0" "p_list (procs scn (Sproxy 1)) = []"
    by (simp_all add: call_ready_def dst_ok_def NBR2PTR_def scn_defs check_defs node_bit_def IT_IS_REMOTE_def bit_1_iff)
  moreover have "Sproxy 1 = NODE2SPROXY scn (p_nodeid (procs scn (DcProc 0 40)))" "proxy_status scn (Sproxy 1) = OK"
    by (simp_all add: NODE2SPROXY_def proxy_status_def scn_defs)
  ultimately show ?thesis
    using send_remote_enqueues_command [of scn 101 "DcProc 0 36" 5 ?l 8192 "- 1" "DcProc 0 40" "Sproxy 1" 36 scn_env]
    by auto
qed

end
