(* ===== verification/Ipc_Receive.thy ===== *)
theory Ipc_Receive
  imports Ipc_Send
begin

text \<open>
  \<open>mm_mini_receive\<close> and \<open>mm_mini_rcvrqst\<close>
  (\<open>src/mol-module/mm_ipc.c\<close>): the source checks, the scan of the pending
  notifications, the search of the queue of senders, and the wait.
\<close>

section \<open>The scan of pending notifications\<close>

text \<open>\<open>for (i=0; ! (*chunk & (1<<i)); ++i)\<close> on a non-zero chunk of 16 bits.\<close>

fun low_bit_loop :: "nat \<Rightarrow> nat \<Rightarrow> bitchunk \<Rightarrow> nat" where
  "low_bit_loop 0 i w = i"
| "low_bit_loop (Suc n) i w = (if bit w i then i else low_bit_loop n (Suc i) w)"

definition low_bit :: "bitchunk \<Rightarrow> nat" where
  "low_bit w = low_bit_loop BITCHUNK_BITS 0 w"

text \<open>
  The chunk loop.  It returns the system id whose notification is delivered and
  the value of \<open>src_ep\<close> afterwards: the loop assigns \<open>src_ep\<close> before it
  tests it.
\<close>

fun notify_scan :: "nat \<Rightarrow> sys_map \<Rightarrow> int \<Rightarrow> int \<Rightarrow> int \<Rightarrow> nat option \<times> int" where
  "notify_scan k [] nr_sys nr_tasks src_ep = (None, src_ep)"
| "notify_scan k (w # ws) nr_sys nr_tasks src_ep =
    (if w = 0 then notify_scan (Suc k) ws nr_sys nr_tasks src_ep
     else
      let sys_id = k * BITCHUNK_BITS + low_bit w in
      if nr_sys \<le> int sys_id then (None, src_ep)
      else
       let sys_nr = int sys_id - nr_tasks; src_ep1 = sys_nr in
       if src_ep1 \<noteq> ANY \<and> ENDPOINT_P src_ep1 \<noteq> sys_nr
       then notify_scan (Suc k) ws nr_sys nr_tasks src_ep1
       else (Some sys_id, src_ep1))"

section \<open>mm_mini_receive\<close>

definition rproxy_status :: "kstate \<Rightarrow> int \<Rightarrow> int \<Rightarrow> int" where
  "rproxy_status s dcid nodeid =
    (let rp = NODE2RPROXY s nodeid in
     if \<not> node_bit nodeid (dc_nodes (dc s dcid)) then EMOLNODCNODE
     else if p_lpid (procs s rp) = PROC_NO_PID then EMOLNOPROXY
     else if rts s rp BIT_SLOT_FREE then EMOLNOPROXY
     else if \<not> mis s rp MIS_BIT_PROXY then EMOLNOPROXY
     else if \<not> mis s rp MIS_BIT_CONNECTED then EMOLNOTCONN
     else OK)"

definition receive_check_src :: "kstate \<Rightarrow> int \<Rightarrow> pref \<Rightarrow> int \<Rightarrow> int" where
  "receive_check_src s dcid c src_ep =
    (if src_ep = ANY then OK
     else
      let src_nr = ENDPOINT_P src_ep; src = NBR2PTR s dcid src_nr;
          nodeid = p_nodeid (procs s src) in
      if src_nr < - dc_nr_tasks (dc s dcid)
         \<or> src_nr \<ge> dc_nr_procs (dc s dcid) - dc_nr_tasks (dc s dcid) then EMOLRANGE
      else if p_endpoint (procs s c) = src_ep then EMOLENDPOINT
      else if rts s src BIT_SLOT_FREE then EMOLSRCDIED
      else if p_endpoint (procs s src) \<noteq> src_ep then EMOLENDPOINT
      else if nodeid < 0 \<or> nodeid \<ge> d_nr_nodes (dvs s) then EMOLBADNODEID
      else if IT_IS_REMOTE s src then rproxy_status s dcid nodeid
      else OK)"

text \<open>Delivery of a pending notification.\<close>

definition deliver_pending :: "env \<Rightarrow> int \<Rightarrow> int \<Rightarrow> pref \<Rightarrow> addr \<Rightarrow> nat \<Rightarrow> int \<Rightarrow> kstate \<Rightarrow> kstate \<times> outcome" where
  "deliver_pending E tid dcid c m_ptr sys_id src_ep s =
    (let sys_nr = int sys_id - dc_nr_tasks (dc s dcid);
         s1 = upd c (\<lambda>x. x\<lparr>p_priv := (p_priv x)\<lparr>s_notify_pending :=
                unset_sys_bit sys_id (s_notify_pending (p_priv x))\<rparr>\<rparr>) s;
         s2 = BUILD_NOTIFY_MSG E (NBR2PTR s1 dcid sys_nr) src_ep sys_nr c s1;
         (s3, ret) = copy_to_user E (mm_of_task s2 tid) m_ptr (p_message (procs s2 c)) s2
     in (s3, Return (if ret \<noteq> 0 then EMOLMSGSIZE else OK)))"

text \<open>The status tests on the sender found in the queue.\<close>

definition sender_status :: "kstate \<Rightarrow> pref \<Rightarrow> pref \<Rightarrow> int \<Rightarrow> int" where
  "sender_status s c x src_ep =
    (if rts s x BIT_SLOT_FREE then EMOLSRCDIED
     else if \<not> rts s x BIT_SENDING then EMOLPROCSTS
     else if p_sendto (procs s x) \<noteq> p_endpoint (procs s c) then EMOLPROCSTS
     else if src_ep \<noteq> ANY \<and> p_endpoint (procs s x) \<noteq> src_ep then EMOLENDPOINT
     else OK)"

text \<open>Taking the message of the sender \<open>x\<close>, shared text of the two receive calls.\<close>

definition take_message :: "env \<Rightarrow> int \<Rightarrow> pref \<Rightarrow> pref \<Rightarrow> addr \<Rightarrow> kstate \<Rightarrow> kstate \<times> int" where
  "take_message E tid c x m_ptr s =
    (let (s1, ret) =
       (if IT_IS_REMOTE s x then
          let (s1, ret) = copy_to_user E (mm_of_task s tid) m_ptr (p_message (procs s x)) s in
          (if \<not> rts s1 x BIT_RECEIVING
           then fst (generic_ack_lcl2rmt E CMD_SEND_ACK x c ret s1) else s1, ret)
        else copy_usr2usr E (p_endpoint (procs s x)) x (p_umsg (procs s x)) c m_ptr (int MSG_SIZE) s);
         s2 = clear_rts BIT_SENDING x s1;
         s3 = upd x (\<lambda>y. y\<lparr>p_sendto := NONE\<rparr>) s2
     in (up_if_ready E x ret s3, ret))"

definition receive_from ::
  "env \<Rightarrow> int \<Rightarrow> pref \<Rightarrow> pref \<Rightarrow> int \<Rightarrow> addr \<Rightarrow> kstate \<Rightarrow> kstate \<times> outcome" where
  "receive_from E tid c x src_ep m_ptr s =
    (let s1 = LIST_DEL_INIT x s; ret = sender_status s1 c x src_ep in
     if ret = OK then
       let (s2, ret2) = take_message E tid c x m_ptr s1 in (s2, Return ret2)
     else (s1, Return ret))"

definition receive_post :: "env \<Rightarrow> int \<Rightarrow> locals \<Rightarrow> kstate \<Rightarrow> kstate \<times> outcome" where
  "receive_post E tid l s =
    (let c = l_caller l; ret = p_rcode (procs s c);
         (s1, ret1) =
          (if ret \<noteq> OK
           then (upd c (\<lambda>x. x\<lparr>p_getfrom := NONE\<rparr>) (clear_rts BIT_RECEIVING c s), ret)
           else if mis s c MIS_BIT_NOTIFY
           then copy_to_user E (mm_of_task s tid) (p_umsg (procs s c)) (p_message (procs s c)) s
           else (s, ret));
         s2 = clear_mis MIS_BIT_NOTIFY c s1
     in (s2, Return ret1))"

text \<open>The queue search: the first sender with an acceptable endpoint.\<close>

definition first_sender :: "kstate \<Rightarrow> int \<Rightarrow> pref list \<Rightarrow> pref option" where
  "first_sender s src_ep q = find (\<lambda>x. src_ep = p_endpoint (procs s x) \<or> src_ep = ANY) q"

definition receive_wait :: "env \<Rightarrow> int \<Rightarrow> locals \<Rightarrow> kstate \<Rightarrow> kstate \<times> outcome" where
  "receive_wait E tid l s =
    (let c = l_caller l;
         s1 = set_rts BIT_RECEIVING c s;
         s2 = clear_mis MIS_BIT_NOTIFY c s1;
         s3 = upd c (\<lambda>x. x\<lparr>p_getfrom := l_ep l, p_rcode := OK\<rparr>) s2
     in sleep_or c (l_timeout l) (PP_receive l) (receive_post E tid l) s3)"

definition receive_message ::
  "env \<Rightarrow> int \<Rightarrow> int \<Rightarrow> pref \<Rightarrow> int \<Rightarrow> addr \<Rightarrow> int \<Rightarrow> kstate \<Rightarrow> kstate \<times> outcome" where
  "receive_message E tid dcid c src_ep m_ptr timeout_ms s =
    (case first_sender s src_ep (p_list (procs s c)) of
       Some x \<Rightarrow> receive_from E tid c x src_ep m_ptr s
     | None \<Rightarrow> receive_wait E tid \<lparr>l_dcid = dcid, l_caller = c, l_peer = c, l_ep = src_ep,
                   l_msg = m_ptr, l_timeout = timeout_ms\<rparr> s)"

definition mm_mini_receive_body ::
  "env \<Rightarrow> int \<Rightarrow> int \<Rightarrow> addr \<Rightarrow> int \<Rightarrow> pref \<Rightarrow> int \<Rightarrow> kstate \<Rightarrow> kstate \<times> outcome" where
  "mm_mini_receive_body E tid src_ep m_ptr timeout_ms c caller_pid s =
    (let dcid = p_dcid (procs s c) in
     if caller_pid \<noteq> p_lpid (procs s c) then (s, Return EMOLBADPID)
     else if dcid < 0 \<or> dcid \<ge> d_nr_dcs (dvs s) then (s, Return EMOLBADDCID)
     else if dc_flags (dc s dcid) \<noteq> 0 then (s, Return EMOLDCNOTRUN)
     else if receive_check_src s dcid c src_ep \<noteq> OK
       then (s, Return (receive_check_src s dcid c src_ep))
     else if mis s c MIS_BIT_WOKENUP \<and> src_ep = ANY
       then (clear_mis MIS_BIT_WOKENUP c s, Return EMOLWOKENUP)
     else
      let s1 = upd c (\<lambda>x. x\<lparr>p_umsg := m_ptr\<rparr>) s in
      case notify_scan 0 (s_notify_pending (p_priv (procs s1 c))) (dc_nr_sysprocs (dc s dcid))
             (dc_nr_tasks (dc s dcid)) src_ep of
        (Some sys_id, ep) \<Rightarrow> deliver_pending E tid dcid c m_ptr sys_id ep s1
      | (None, ep) \<Rightarrow> receive_message E tid dcid c ep m_ptr timeout_ms s1)"

definition mm_mini_receive :: "env \<Rightarrow> int \<Rightarrow> int \<Rightarrow> addr \<Rightarrow> int \<Rightarrow> kstate \<Rightarrow> kstate \<times> outcome" where
  "mm_mini_receive E tid src_ep m_ptr timeout_ms s =
    (if DVS_NOT_INIT s then (s, Return EMOLDVSINIT)
     else after_check (Receive src_ep m_ptr timeout_ms)
            (mm_mini_receive_body E tid src_ep m_ptr timeout_ms) (check_caller tid s))"

section \<open>mm_mini_rcvrqst\<close>

definition rcvrqst_post :: "locals \<Rightarrow> kstate \<Rightarrow> kstate \<times> outcome" where
  "rcvrqst_post l s =
    (let c = l_caller l;
         s1 = clear_rts BIT_RECEIVING c s;
         s2 = upd c (\<lambda>x. x\<lparr>p_getfrom := NONE\<rparr>) s1
     in (s2, Return (p_rcode (procs s2 c))))"

definition rcvrqst_from :: "env \<Rightarrow> int \<Rightarrow> pref \<Rightarrow> pref \<Rightarrow> addr \<Rightarrow> kstate \<Rightarrow> kstate \<times> outcome" where
  "rcvrqst_from E tid c x m_ptr s =
    (let s1 = LIST_DEL_INIT x s;
         ret = (if rts s1 x BIT_SLOT_FREE then EMOLSRCDIED
                else if \<not> rts s1 x BIT_SENDING then EMOLPROCSTS
                else if p_sendto (procs s1 x) \<noteq> p_endpoint (procs s1 c) then EMOLPROCSTS
                else OK) in
     if ret = OK then
       let (s2, ret2) = take_message E tid c x m_ptr s1 in (s2, Return ret2)
     else (s1, Return ret))"

definition rcvrqst_wait :: "locals \<Rightarrow> kstate \<Rightarrow> kstate \<times> outcome" where
  "rcvrqst_wait l s =
    (let c = l_caller l;
         s1 = set_rts BIT_RECEIVING c s;
         s2 = clear_mis MIS_BIT_NOTIFY c s1;
         s3 = upd c (\<lambda>x. x\<lparr>p_getfrom := ANY, p_rcode := OK\<rparr>) s2
     in sleep_or c (l_timeout l) (PP_rcvrqst l) (rcvrqst_post l) s3)"

definition mm_mini_rcvrqst_body ::
  "env \<Rightarrow> int \<Rightarrow> addr \<Rightarrow> int \<Rightarrow> pref \<Rightarrow> int \<Rightarrow> kstate \<Rightarrow> kstate \<times> outcome" where
  "mm_mini_rcvrqst_body E tid m_ptr timeout_ms c caller_pid s =
    (let dcid = p_dcid (procs s c) in
     if caller_pid \<noteq> p_lpid (procs s c) then (s, Return EMOLBADPID)
     else if dcid < 0 \<or> dcid \<ge> d_nr_dcs (dvs s) then (s, Return EMOLBADDCID)
     else if dc_flags (dc s dcid) \<noteq> 0 then (s, Return EMOLDCNOTRUN)
     else if mis s c MIS_BIT_WOKENUP then (clear_mis MIS_BIT_WOKENUP c s, Return EMOLWOKENUP)
     else
      let s1 = upd c (\<lambda>x. x\<lparr>p_umsg := m_ptr\<rparr>) s in
      case p_list (procs s1 c) of
        x # _ \<Rightarrow> rcvrqst_from E tid c x m_ptr s1
      | [] \<Rightarrow> rcvrqst_wait \<lparr>l_dcid = dcid, l_caller = c, l_peer = c, l_ep = ANY, l_msg = m_ptr,
                 l_timeout = timeout_ms\<rparr> s1)"

definition mm_mini_rcvrqst :: "env \<Rightarrow> int \<Rightarrow> addr \<Rightarrow> int \<Rightarrow> kstate \<Rightarrow> kstate \<times> outcome" where
  "mm_mini_rcvrqst E tid m_ptr timeout_ms s =
    (if DVS_NOT_INIT s then (s, Return EMOLDVSINIT)
     else after_check (Rcvrqst m_ptr timeout_ms)
            (mm_mini_rcvrqst_body E tid m_ptr timeout_ms) (check_caller tid s))"

section \<open>The scan finds the lowest pending notification\<close>

lemma low_bit_loop_found:
  "i + n = 16 \<Longrightarrow> \<exists>j \<ge> i. bit (w :: bitchunk) j \<Longrightarrow>
   bit w (low_bit_loop n i w) \<and> i \<le> low_bit_loop n i w \<and> low_bit_loop n i w < 16
   \<and> (\<forall>j. i \<le> j \<and> j < low_bit_loop n i w \<longrightarrow> \<not> bit w j)"
proof (induction n i w rule: low_bit_loop.induct)
  case (1 i w)
  then show ?case by (auto dest: bit_imp_le_length)
next
  case (2 n i w)
  show ?case
  proof (cases "bit w i")
    case False
    with "2.prems" have "\<exists>j \<ge> Suc i. bit w j"
      by (metis Suc_leI le_neq_implies_less)
    with "2.IH" [OF False] "2.prems" False show ?thesis
      by (auto simp: not_less_eq_eq le_Suc_eq) (metis le_antisym not_less_eq_eq)
  qed (use "2.prems" in auto)
qed

lemma low_bit_found:
  assumes "w \<noteq> (0 :: bitchunk)"
  shows "bit w (low_bit w)" "low_bit w < 16" "j < low_bit w \<Longrightarrow> \<not> bit w j"
proof -
  have "\<exists>j \<ge> 0. bit w j" using assms bit_eq_iff [of w 0] by auto
  from low_bit_loop_found [of 0 16 w, OF _ this]
  show "bit w (low_bit w)" "low_bit w < 16" "j < low_bit w \<Longrightarrow> \<not> bit w j"
    by (auto simp: low_bit_def)
qed

text \<open>The bit of a chunk list that starts at chunk \<open>k\<close> of a map.\<close>

definition chunk_bit :: "nat \<Rightarrow> sys_map \<Rightarrow> nat \<Rightarrow> bool" where
  "chunk_bit k ws i \<longleftrightarrow> k \<le> i div 16 \<and> i div 16 < k + length ws \<and> bit (ws ! (i div 16 - k)) (i mod 16)"

lemma chunk_bit_Cons:
  "chunk_bit k (w # ws) i \<longleftrightarrow> (i div 16 = k \<and> bit w (i mod 16)) \<or> chunk_bit (Suc k) ws i"
proof (cases "i div 16 \<le> k")
  case False
  then have "i div 16 - k = Suc (i div 16 - Suc k)" by simp
  with False show ?thesis by (auto simp: chunk_bit_def)
qed (auto simp: chunk_bit_def)

lemma sys_nr_endpoint: "0 \<le> nt \<Longrightarrow> nt \<le> NR_TASKS \<Longrightarrow> j < 64 \<Longrightarrow> ENDPOINT_P (int j - nt) = int j - nt"
  by (rule ENDPOINT_P_small) simp_all

lemma notify_scan_spec:
  assumes "k + length ws \<le> 4" "0 \<le> nt" "nt \<le> NR_TASKS"
  shows "case notify_scan k ws nr nt ep of
      (Some sid, e) \<Rightarrow> chunk_bit k ws sid \<and> int sid < nr \<and> (\<forall>j < sid. \<not> chunk_bit k ws j) \<and> e = int sid - nt
    | (None, e) \<Rightarrow> (\<forall>j. int j < nr \<longrightarrow> \<not> chunk_bit k ws j) \<and> e = ep"
  using assms
proof (induction k ws nr nt ep rule: notify_scan.induct)
  case (1 k nr nt ep)
  then show ?case by (simp add: chunk_bit_def)
next
  case (2 k w ws nr nt ep)
  show ?case
  proof (cases "w = 0")
    case True
    with "2.IH"(1) [OF True] "2.prems" show ?thesis
      by (auto simp: chunk_bit_Cons split: option.splits prod.splits)
  next
    case False
    define sid where "sid = k * 16 + low_bit w"
    have lb: "bit w (low_bit w)" "low_bit w < 16" using low_bit_found [OF False] by auto
    have sid: "sid div 16 = k" "sid mod 16 = low_bit w" "sid < 64"
      using lb "2.prems" by (simp_all add: sid_def)
    have here: "chunk_bit k (w # ws) sid" using sid lb by (simp add: chunk_bit_Cons)
    have least: "\<not> chunk_bit k (w # ws) j" if "j < sid" for j
    proof
      assume b: "chunk_bit k (w # ws) j"
      then have "k \<le> j div 16" by (simp add: chunk_bit_def)
      with that sid have "j div 16 = k" by (metis div_le_mono le_antisym less_imp_le)
      with b have "bit w (j mod 16)" by (auto simp: chunk_bit_Cons chunk_bit_def)
      moreover have "j mod 16 < low_bit w"
        using that sid \<open>j div 16 = k\<close> by (metis div_mult_mod_eq nat_add_left_cancel_less)
      ultimately show False using low_bit_found(3) [OF False] by blast
    qed
    have ep: "ENDPOINT_P (int sid - nt) = int sid - nt"
      using sys_nr_endpoint "2.prems" sid by blast
    show ?thesis
    proof (cases "nr \<le> int sid")
      case True
      then have "\<not> chunk_bit k (w # ws) j" if "int j < nr" for j using least that by force
      with False True show ?thesis by (simp add: Let_def sid_def [symmetric])
    next
      case le: False
      with False ep here least show ?thesis by (simp add: Let_def sid_def [symmetric])
    qed
  qed
qed

lemma chunk_bit_get: "sys_map_ok m \<Longrightarrow> i < 64 \<Longrightarrow> chunk_bit 0 m i = get_sys_bit m i"
  by (auto simp: chunk_bit_def get_sys_bit_def sys_map_ok_def)

lemma chunk_bit_less: "sys_map_ok m \<Longrightarrow> chunk_bit 0 m i \<Longrightarrow> i < 64"
  by (auto simp: chunk_bit_def sys_map_ok_def)

text \<open>The scan of pending notifications selects the lowest system sid that is pending and
  below the number of system processes, and selects nothing exactly when there is none.\<close>

theorem notify_scan_lowest:
  assumes "sys_map_ok m" "0 \<le> nt" "nt \<le> NR_TASKS" "nr \<le> NR_SYS_PROCS"
  shows "notify_scan 0 m nr nt ep =
    (if \<exists>i. int i < nr \<and> get_sys_bit m i
     then (let i = LEAST i. int i < nr \<and> get_sys_bit m i in (Some i, int i - nt))
     else (None, ep))"
proof -
  have spec: "case notify_scan 0 m nr nt ep of
      (Some sid, e) \<Rightarrow> chunk_bit 0 m sid \<and> int sid < nr \<and> (\<forall>j < sid. \<not> chunk_bit 0 m j) \<and> e = int sid - nt
    | (None, e) \<Rightarrow> (\<forall>j. int j < nr \<longrightarrow> \<not> chunk_bit 0 m j) \<and> e = ep"
    using notify_scan_spec [of 0 m nt nr ep] assms by (simp add: sys_map_ok_def)
  have get: "chunk_bit 0 m j = get_sys_bit m j" if "int j < nr" for j
    using chunk_bit_get [OF assms(1)] that assms(4) by simp
  obtain r e where r: "notify_scan 0 m nr nt ep = (r, e)" by (cases "notify_scan 0 m nr nt ep")
  show ?thesis
  proof (cases r)
    case None
    with spec r get show ?thesis by auto
  next
    case (Some sid)
    with spec r have sid: "chunk_bit 0 m sid" "int sid < nr" "\<forall>j < sid. \<not> chunk_bit 0 m j" "e = int sid - nt"
      by auto
    then have "(LEAST i. int i < nr \<and> get_sys_bit m i) = sid"
      using get by (intro Least_equality) (auto simp: not_less [symmetric])
    with sid get r Some show ?thesis by (auto simp: Let_def)
  qed
qed

theorem notify_scan_lowest_witness:
  "notify_scan 0 (set_sys_bit 36 (set_sys_bit 40 empty_sys_map)) 64 35 ANY = (Some 36, 1)"
proof -
  let ?m = "set_sys_bit 36 (set_sys_bit 40 empty_sys_map)"
  have get: "get_sys_bit ?m i \<longleftrightarrow> i = 36 \<or> i = 40" if "i < 64" for i
    using that by (simp add: smap.get_ins)
  have least: "(LEAST i. int i < 64 \<and> get_sys_bit ?m i) = 36"
    by (rule Least_equality) (auto simp: get)
  moreover have "\<exists>i. int i < 64 \<and> get_sys_bit ?m i" by (rule exI [of _ 36]) (simp add: get)
  moreover have "sys_map_ok ?m" by simp
  ultimately show ?thesis using notify_scan_lowest [of ?m 35 64 ANY] by (simp add: Let_def)
qed

lemma notify_scan_none:
  assumes "sys_map_ok m" "0 \<le> nt" "nt \<le> NR_TASKS" "\<And>i. i < 64 \<Longrightarrow> \<not> get_sys_bit m i"
  shows "notify_scan 0 m nr nt ep = (None, ep)"
proof -
  have no: "\<not> chunk_bit 0 m i" for i
    using assms chunk_bit_less [of m i] chunk_bit_get [of m i] by blast
  obtain r e where r: "notify_scan 0 m nr nt ep = (r, e)" by (cases "notify_scan 0 m nr nt ep")
  with notify_scan_spec [of 0 m nt nr ep] assms no show ?thesis
    by (cases r) (auto simp: sys_map_ok_def)
qed

section \<open>Receiving\<close>

text \<open>The caller passes every check of a receive from \<open>src_ep\<close>.\<close>

definition recv_ready :: "kstate \<Rightarrow> int \<Rightarrow> pref \<Rightarrow> int \<Rightarrow> bool" where
  "recv_ready s tid c src_ep \<longleftrightarrow> \<not> DVS_NOT_INIT s
     \<and> check_caller tid s = (s, Chk_ok c (p_lpid (procs s c)))
     \<and> 0 \<le> p_dcid (procs s c) \<and> p_dcid (procs s c) < d_nr_dcs (dvs s)
     \<and> dc_flags (dc s (p_dcid (procs s c))) = 0
     \<and> receive_check_src s (p_dcid (procs s c)) c src_ep = OK
     \<and> \<not> (mis s c MIS_BIT_WOKENUP \<and> src_ep = ANY)
     \<and> 0 \<le> dc_nr_tasks (dc s (p_dcid (procs s c))) \<and> dc_nr_tasks (dc s (p_dcid (procs s c))) \<le> NR_TASKS
     \<and> sys_map_ok (s_notify_pending (p_priv (procs s c)))"

definition no_pending :: "kstate \<Rightarrow> pref \<Rightarrow> bool" where
  "no_pending s c \<longleftrightarrow> s_notify_pending (p_priv (procs s c)) = empty_sys_map"

lemma receive_message_step:
  assumes "recv_ready s tid c src_ep" "no_pending s c"
  shows "mm_mini_receive E tid src_ep m t s =
    receive_message E tid (p_dcid (procs s c)) c src_ep m t (upd c (\<lambda>x. x\<lparr>p_umsg := m\<rparr>) s)"
proof -
  have "notify_scan 0 empty_sys_map nr (dc_nr_tasks (dc s (p_dcid (procs s c)))) src_ep = (None, src_ep)"
    for nr using assms(1) by (intro notify_scan_none) (simp_all add: recv_ready_def)
  with assms show ?thesis
    by (auto simp: mm_mini_receive_def recv_ready_def no_pending_def after_check_def
        mm_mini_receive_body_def Let_def)
qed

lemma find_first: "(\<And>y. y \<in> set xs \<Longrightarrow> \<not> P y) \<Longrightarrow> P x \<Longrightarrow> find P (xs @ x # ys) = Some x"
  by (induction xs) auto

lemma mm_of_LIST_DEL_INIT [simp]: "mm_of (LIST_DEL_INIT p s) q = mm_of s q"
  by (simp add: mm_of_def split: option.split)

text \<open>A local process \<open>x\<close> blocked sending to \<open>c\<close>.\<close>

definition sending_to :: "kstate \<Rightarrow> pref \<Rightarrow> pref \<Rightarrow> bool" where
  "sending_to s x c \<longleftrightarrow> \<not> rts s x BIT_SLOT_FREE \<and> rts s x BIT_SENDING
     \<and> p_sendto (procs s x) = p_endpoint (procs s c)"

lemma unset_sending_4: "unset_bit BIT_SENDING (4 :: flags) = 0"
  by (simp add: unset_bit_eq_and_not)

lemma receive_from_local:
  assumes "sending_to s x c" "\<not> IT_IS_REMOTE s x" "x \<noteq> c"
    "src_ep = ANY \<or> p_endpoint (procs s x) = src_ep"
    "msg_copyable E s x (p_umsg (procs s x)) c m" "p_endpoint (procs s x) \<noteq> NONE"
  shows "receive_from E tid c x src_ep m s =
    (up_if_ready E x OK (upd x (\<lambda>y. y\<lparr>p_sendto := NONE\<rparr>) (clear_rts BIT_SENDING x
       (set_umem (mm_of s c) (write_mem m
          (delivered_bytes (p_endpoint (procs s x)) s x (p_umsg (procs s x))) (umem s (mm_of s c)))
          (LIST_DEL_INIT x s)))), Return OK)"
proof -
  have "copy_usr2usr E (p_endpoint (procs s x)) x (p_umsg (procs s x)) c m 36 (LIST_DEL_INIT x s) =
      (set_umem (mm_of s c) (write_mem m (delivered_bytes (p_endpoint (procs s x)) s x (p_umsg (procs s x)))
        (umem s (mm_of s c))) (LIST_DEL_INIT x s), OK)"
    using copy_message [of E "LIST_DEL_INIT x s" x "p_umsg (procs s x)" c m "p_endpoint (procs s x)"] assms
    by (simp add: msg_copyable_def delivered_bytes_def)
  with assms show ?thesis
    by (auto simp: receive_from_def take_message_def sender_status_def sending_to_def IT_IS_REMOTE_def Let_def)
qed

text \<open>The state a receive leaves when it serves \<open>x\<close>.\<close>

definition served :: "env \<Rightarrow> pref \<Rightarrow> pref \<Rightarrow> addr \<Rightarrow> kstate \<Rightarrow> kstate" where
  "served E c x m s =
    up_if_ready E x OK (upd x (\<lambda>y. y\<lparr>p_sendto := NONE\<rparr>) (clear_rts BIT_SENDING x
      (set_umem (mm_of s c) (write_mem m
         (delivered_bytes (p_endpoint (procs s x)) s x (p_umsg (procs s x))) (umem s (mm_of s c)))
         (LIST_DEL_INIT x (upd c (\<lambda>y. y\<lparr>p_umsg := m\<rparr>) s)))))"

lemma receive_served:
  assumes ready: "recv_ready s tid c src_ep" "no_pending s c"
    and q: "p_list (procs s c) = xs @ x # ys"
    and skip: "\<forall>y \<in> set xs. src_ep \<noteq> ANY \<and> p_endpoint (procs s y) \<noteq> src_ep"
    and acc: "src_ep = ANY \<or> p_endpoint (procs s x) = src_ep"
    and snd: "sending_to s x c" "\<not> IT_IS_REMOTE s x" "x \<noteq> c"
    and cp: "msg_copyable E s x (p_umsg (procs s x)) c m" "p_endpoint (procs s x) \<noteq> NONE"
  shows "mm_mini_receive E tid src_ep m t s = (served E c x m s, Return OK)"
proof -
  let ?s1 = "upd c (\<lambda>x. x\<lparr>p_umsg := m\<rparr>) s"
  have "first_sender ?s1 src_ep (p_list (procs ?s1 c)) = Some x"
    using q(1) skip acc snd(3) unfolding first_sender_def
    by (auto intro!: find_first)
  then have "mm_mini_receive E tid src_ep m t s = receive_from E tid c x src_ep m ?s1"
    by (simp add: receive_message_step [OF ready] receive_message_def)
  also have "\<dots> = (served E c x m s, Return OK)"
    using snd acc cp unfolding served_def
    by (subst receive_from_local)
      (simp_all add: sending_to_def IT_IS_REMOTE_def msg_copyable_def delivered_bytes_def)
  finally show ?thesis .
qed

text \<open>C26: a receive with no pending notification serves the first process of the queue of
  senders whose endpoint is acceptable: its message arrives in the caller's buffer with m_source
  set to that sender, the sender leaves the queue while the others keep their order, and a sender
  blocked only on this message is woken with return code OK.\<close>

theorem receive_serves_first_acceptable:
  assumes ready: "recv_ready s tid c src_ep" "no_pending s c"
    and q: "p_list (procs s c) = xs @ x # ys" "distinct (p_list (procs s c))"
    and skip: "\<forall>y \<in> set xs. src_ep \<noteq> ANY \<and> p_endpoint (procs s y) \<noteq> src_ep"
    and acc: "src_ep = ANY \<or> p_endpoint (procs s x) = src_ep"
    and snd: "sending_to s x c" "\<not> IT_IS_REMOTE s x" "x \<noteq> c"
    and cp: "msg_copyable E s x (p_umsg (procs s x)) c m" "p_endpoint (procs s x) \<noteq> NONE"
  shows "\<exists>s'. mm_mini_receive E tid src_ep m t s = (s', Return OK)
    \<and> read_mem (umem s' (mm_of s c)) m MSG_SIZE
        = delivered_bytes (p_endpoint (procs s x)) s x (p_umsg (procs s x))
    \<and> p_list (procs s' c) = xs @ ys
    \<and> \<not> rts s' x BIT_SENDING \<and> p_sendto (procs s' x) = NONE
    \<and> (p_rts_flags (procs s x) = 4 \<longrightarrow> p_rcode (procs s' x) = OK
         \<and> p_pseudosem (procs s' x) = p_pseudosem (procs s x) + 1)"
proof -
  have "remove1 x (xs @ x # ys) = xs @ ys"
    using q by (simp add: remove1_append)
  then show ?thesis
    unfolding receive_served [OF ready q(1) skip acc snd cp, of t] served_def using snd(3) q(1)
    by (auto simp: read_delivered up_if_ready_def unset_sending_4 list_del_def)
qed

text \<open>Process 1 blocked sending the message at 8192 to process 2.\<close>

definition scn_queued :: kstate where
  "scn_queued = upd (DcProc 0 37) (\<lambda>x. x\<lparr>p_list := [DcProc 0 36]\<rparr>)
     (upd (DcProc 0 36) (\<lambda>x. x\<lparr>p_rts_flags := 4, p_sendto := 2, p_umsg := 8192, p_pseudosem := - 1\<rparr>) scn)"

lemma scn_queued_ready: "recv_ready scn_queued 102 (DcProc 0 37) ANY" "no_pending scn_queued (DcProc 0 37)"
  by (simp_all add: recv_ready_def no_pending_def scn_queued_def scn_defs check_defs receive_check_src_def)

theorem receive_serves_first_acceptable_witness:
  "\<exists>s'. mm_mini_receive scn_env 102 ANY 4096 TIMEOUT_FOREVER scn_queued = (s', Return OK)
    \<and> read_mem (umem s' 102) 4096 MSG_SIZE = delivered_bytes 1 scn_queued (DcProc 0 36) 8192
    \<and> p_list (procs s' (DcProc 0 37)) = []"
proof -
  have "p_list (procs scn_queued (DcProc 0 37)) = [] @ DcProc 0 36 # []"
    "sending_to scn_queued (DcProc 0 36) (DcProc 0 37)" "\<not> IT_IS_REMOTE scn_queued (DcProc 0 36)"
    "msg_copyable scn_env scn_queued (DcProc 0 36) 8192 (DcProc 0 37) 4096"
    "p_umsg (procs scn_queued (DcProc 0 36)) = 8192" "p_endpoint (procs scn_queued (DcProc 0 36)) = 1"
    "mm_of scn_queued (DcProc 0 37) = 102"
    by (simp_all add: sending_to_def IT_IS_REMOTE_def msg_copyable_def mm_of_def scn_queued_def scn_defs)
  then show ?thesis
    using receive_serves_first_acceptable [OF scn_queued_ready, of "[]" "DcProc 0 36" "[]" scn_env 4096]
    by auto
qed

text \<open>A receive that finds neither a notification nor an acceptable sender blocks the caller
  in state RECEIVING from the requested source, and touches nothing else.\<close>

theorem receive_blocks:
  assumes ready: "recv_ready s tid c src_ep" "no_pending s c"
    and none: "\<forall>y \<in> set (p_list (procs s c)). src_ep \<noteq> ANY \<and> p_endpoint (procs s y) \<noteq> src_ep"
    and self: "c \<notin> set (p_list (procs s c))" and t: "t \<noteq> TIMEOUT_NOWAIT"
  shows "\<exists>s' l. mm_mini_receive E tid src_ep m t s = (s', Block (PP_receive l))
    \<and> rts s' c BIT_RECEIVING \<and> p_getfrom (procs s' c) = src_ep \<and> p_umsg (procs s' c) = m
    \<and> p_pseudosem (procs s' c) = - 1 \<and> (\<forall>q. q \<noteq> c \<longrightarrow> procs s' q = procs s q)
    \<and> p_list (procs s' c) = p_list (procs s c) \<and> umem s' = umem s"
proof -
  let ?s1 = "upd c (\<lambda>x. x\<lparr>p_umsg := m\<rparr>) s"
  have "first_sender ?s1 src_ep (p_list (procs ?s1 c)) = None"
    using none self unfolding first_sender_def by (auto simp: find_None_iff)
  then show ?thesis
    using t by (simp add: receive_message_step [OF ready] receive_message_def receive_wait_def
        sleep_or_block Let_def)
qed

theorem receive_blocks_witness:
  "\<exists>s' l. mm_mini_receive scn_env 102 1 4096 TIMEOUT_FOREVER scn = (s', Block (PP_receive l))
    \<and> p_getfrom (procs s' (DcProc 0 37)) = 1"
proof -
  have "recv_ready scn 102 (DcProc 0 37) 1" "no_pending scn (DcProc 0 37)"
    by (simp_all add: recv_ready_def no_pending_def scn_defs check_defs receive_check_src_def
        NBR2PTR_def IT_IS_REMOTE_def)
  moreover have "p_list (procs scn (DcProc 0 37)) = []" by (simp add: scn_defs)
  ultimately show ?thesis
    using receive_blocks [of scn 102 "DcProc 0 37" 1 "- 1" scn_env 4096] by auto
qed

section \<open>Pending notifications\<close>

text \<open>Pending notifications are delivered before any message, lowest system id first and
  whatever source the caller asked for: the caller's buffer holds a notification of that system
  process and exactly its pending bit is cleared.  (The requested source does not matter because
  the loop overwrites src_ep before testing it.)\<close>

theorem receive_delivers_lowest_notification:
  assumes ready: "recv_ready s tid c src_ep"
    and sid: "get_sys_bit (s_notify_pending (p_priv (procs s c))) sid"
      "int sid < dc_nr_sysprocs (dc s (p_dcid (procs s c)))"
      "\<forall>j < sid. \<not> get_sys_bit (s_notify_pending (p_priv (procs s c))) j"
    and nsys: "dc_nr_sysprocs (dc s (p_dcid (procs s c))) \<le> NR_SYS_PROCS"
    and msg: "length (p_message (procs s c)) = MSG_SIZE" "int32 (fst (e_now E))" "int32 (snd (e_now E))"
    and nr: "nr = int sid - dc_nr_tasks (dc s (p_dcid (procs s c)))"
    and cp: "e_uncopied E (mm_of_task s tid) m MSG_SIZE = 0"
  shows "\<exists>s'. mm_mini_receive E tid src_ep m t s = (s', Return OK)
    \<and> m_type (read_mem (umem s' (mm_of_task s tid)) m MSG_SIZE) = NOTIFY_FROM nr
    \<and> (NBR2PTR s (p_dcid (procs s c)) nr \<noteq> c \<longrightarrow>
         m_source (read_mem (umem s' (mm_of_task s tid)) m MSG_SIZE) = nr)
    \<and> NOTIFY_TIMESTAMP (read_mem (umem s' (mm_of_task s tid)) m MSG_SIZE) = e_now E
    \<and> smap.elems (s_notify_pending (p_priv (procs s' c)))
        = smap.elems (s_notify_pending (p_priv (procs s c))) - {sid}
    \<and> p_list (procs s' c) = p_list (procs s c)"
proof -
  let ?d = "p_dcid (procs s c)" and ?m = "s_notify_pending (p_priv (procs s c))"
  have ok: "sys_map_ok ?m" "0 \<le> dc_nr_tasks (dc s ?d)" "dc_nr_tasks (dc s ?d) \<le> NR_TASKS"
    using ready by (simp_all add: recv_ready_def)
  have s64: "sid < 64" using sid(2) nsys by simp
  have "(LEAST i. int i < dc_nr_sysprocs (dc s ?d) \<and> get_sys_bit ?m i) = sid"
    using sid by (intro Least_equality) (auto simp: not_less [symmetric])
  then have scan: "notify_scan 0 ?m (dc_nr_sysprocs (dc s ?d)) (dc_nr_tasks (dc s ?d)) src_ep = (Some sid, nr)"
    using notify_scan_lowest [OF ok nsys, of src_ep] sid(1,2) by (auto simp: Let_def nr)
  define s1 where "s1 = upd c (\<lambda>x. x\<lparr>p_priv := (p_priv x)\<lparr>s_notify_pending := unset_sys_bit sid
      (s_notify_pending (p_priv x))\<rparr>\<rparr>) (upd c (\<lambda>x. x\<lparr>p_umsg := m\<rparr>) s)"
  define s2 where "s2 = BUILD_NOTIFY_MSG E (NBR2PTR s1 ?d nr) nr nr c s1"
  have mm: "mm_of_task s2 tid = mm_of_task s tid" by (simp add: s1_def s2_def mm_of_task_def)
  have n32: "int32 nr" using s64 ok by (simp add: nr int32_def)
  have l1: "length (p_message (procs s1 c)) = MSG_SIZE" using msg by (simp add: s1_def)
  note built = BUILD_NOTIFY_MSG_message [OF l1 n32 n32 msg(2,3), of "NBR2PTR s1 ?d nr", folded s2_def]
  have nbr: "NBR2PTR s1 ?d nr = NBR2PTR s ?d nr" by (simp add: NBR2PTR_def s1_def)
  have "mm_mini_receive E tid src_ep m t s =
      (set_umem (mm_of_task s tid) (write_mem m (p_message (procs s2 c)) (umem s (mm_of_task s tid))) s2, Return OK)"
    using ready scan cp built(1)
    by (auto simp: mm_mini_receive_def recv_ready_def after_check_def mm_mini_receive_body_def
        deliver_pending_def Let_def nr s1_def [symmetric] s2_def [symmetric, unfolded nr]
        copy_to_user_ok mm) (simp_all add: s2_def s1_def)
  moreover have "read_mem (write_mem m (p_message (procs s2 c)) M) m MSG_SIZE = p_message (procs s2 c)" for M
    using read_write_mem [of "p_message (procs s2 c)" m M] built(1) by simp
  ultimately show ?thesis
    using built nbr ok s64 by (simp add: s2_def s1_def smap.elems_del)
qed

text \<open>Process 2 asks for a message of process 3 while a notification of process 1 is pending.\<close>

definition scn_pending :: kstate where
  "scn_pending = upd (DcProc 0 37) (\<lambda>x. x\<lparr>p_priv := (p_priv x)\<lparr>s_notify_pending :=
     set_sys_bit 36 empty_sys_map\<rparr>\<rparr>) scn"

theorem receive_delivers_lowest_notification_witness:
  "\<exists>s'. mm_mini_receive scn_env 102 3 4096 TIMEOUT_FOREVER scn_pending = (s', Return OK)
    \<and> m_source (read_mem (umem s' 102) 4096 MSG_SIZE) = 1"
proof -
  have ready: "recv_ready scn_pending 102 (DcProc 0 37) 3"
    by (simp add: recv_ready_def scn_pending_def scn_defs check_defs receive_check_src_def
        NBR2PTR_def IT_IS_REMOTE_def)
  have map: "s_notify_pending (p_priv (procs scn_pending (DcProc 0 37))) = set_sys_bit 36 empty_sys_map"
    by (simp add: scn_pending_def)
  have get: "get_sys_bit (set_sys_bit 36 empty_sys_map) j \<longleftrightarrow> j = 36" if "j < 64" for j
    using that by (simp add: smap.get_ins)
  have rest: "p_dcid (procs scn_pending (DcProc 0 37)) = 0" "dc_nr_sysprocs (dc scn_pending 0) = 64"
    "dc_nr_tasks (dc scn_pending 0) = 35" "length (p_message (procs scn_pending (DcProc 0 37))) = MSG_SIZE"
    "mm_of_task scn_pending 102 = 102" "NBR2PTR scn_pending 0 1 = DcProc 0 36"
    by (simp_all add: scn_pending_def scn_defs zero_message_def mm_of_task_def NBR2PTR_def)
  show ?thesis
    using receive_delivers_lowest_notification [OF ready, of 36 scn_env 1 4096 "- 1"]
    by (auto simp: map rest get int32_def)
qed

end
