(* ===== verification/Ipc_Sendrec.thy ===== *)
theory Ipc_Sendrec
  imports Ipc_Receive
begin

text \<open>
  \<open>mm_mini_sendrec\<close> and \<open>mm_mini_reply\<close> (\<open>src/mol-module/mm_ipc.c\<close>):
  a request that waits for its answer, and the answer, which is only accepted by a
  process waiting for the replier.
\<close>

section \<open>mm_mini_sendrec\<close>

definition sendrec_remote_post :: "locals \<Rightarrow> kstate \<Rightarrow> kstate \<times> outcome" where
  "sendrec_remote_post l s =
    (let c = l_caller l; ret = p_rcode (procs s c) in
     if ret = OK then (upd c (\<lambda>x. x\<lparr>p_rmtsent := p_rmtsent x + 1\<rparr>) s, Return OK)
     else
      let s1 = (if rts s c BIT_SENDING then LIST_DEL_INIT c s else s);
          s2 = clear_rts BIT_SENDING c s1;
          s3 = clear_rts BIT_RECEIVING c s2;
          s4 = clear_rts BIT_RMTOPER c s3;
          s5 = upd c (\<lambda>x. x\<lparr>p_sendto := NONE, p_getfrom := NONE, p_proxy := NONE\<rparr>) s4
      in (s5, if ret = EMOLMIGRATE then Goto (PP_sendrec_replay l) else Return ret))"

definition sendrec_remote :: "env \<Rightarrow> int \<Rightarrow> locals \<Rightarrow> kstate \<Rightarrow> kstate \<times> outcome" where
  "sendrec_remote E tid l s =
    (let c = l_caller l; d = l_peer l; nodeid = p_nodeid (procs s d);
         ret = (if \<not> node_bit nodeid (dc_nodes (dc s (l_dcid l))) then EMOLNODCNODE
                else proxy_status s (NODE2SPROXY s nodeid)) in
     if ret \<noteq> OK then (s, Return ret)
     else
      let s1 = set_cmd (\<lambda>k. k\<lparr>c_cmd := CMD_SNDREC_MSG, c_src := p_endpoint (procs s c),
                 c_dst := l_ep l, c_dcid := p_dcid (procs s c), c_snode := local_nodeid s,
                 c_dnode := nodeid, c_rcode := OK, c_len := 0\<rparr>) c s;
          msg = fst (copy_from_user E (mm_of_task s1 tid) (l_msg l) MSG_SIZE s1);
          s2 = set_cmd (\<lambda>k. k\<lparr>c_u := msg\<rparr>) c s1;
          s3 = set_rts BIT_SENDING c s2;
          s4 = set_rts BIT_RECEIVING c s3;
          s5 = set_rts BIT_RMTOPER c s4;
          s6 = upd c (\<lambda>x. x\<lparr>p_sendto := l_ep l, p_getfrom := l_ep l\<rparr>) s5;
          s7 = fst (sproxy_enqueue E c s6)
      in sleep_or c (l_timeout l) (PP_sendrec_rmt l) (sendrec_remote_post l) s7)"

definition sendrec_rcv_post :: "locals \<Rightarrow> kstate \<Rightarrow> kstate \<times> outcome" where
  "sendrec_rcv_post l s =
    (let c = l_caller l; ret = p_rcode (procs s c) in
     if ret \<noteq> OK then
       let s1 = clear_rts BIT_RECEIVING c s;
           s2 = clear_rts BIT_SENDING c s1;
           s3 = upd c (\<lambda>x. x\<lparr>p_getfrom := NONE, p_sendto := NONE\<rparr>) s2
       in (s3, Return ret)
     else (upd c (\<lambda>x. x\<lparr>p_lclsent := p_lclsent x + 1\<rparr>) s, Return OK))"

definition sendrec_queue_post :: "locals \<Rightarrow> kstate \<Rightarrow> kstate \<times> outcome" where
  "sendrec_queue_post l s =
    (let c = l_caller l; ret = p_rcode (procs s c) in
     if ret \<noteq> OK then
       let s1 = (if rts s c BIT_SENDING then LIST_DEL_INIT c s
                 else upd c (\<lambda>x. x\<lparr>p_lclsent := p_lclsent x + 1\<rparr>) s);
           s2 = clear_rts BIT_RECEIVING c s1;
           s3 = clear_rts BIT_SENDING c s2;
           s4 = upd c (\<lambda>x. x\<lparr>p_getfrom := NONE, p_sendto := NONE\<rparr>) s3
       in (s4, if ret = EMOLMIGRATE then Goto (PP_sendrec_replay l) else Return ret)
     else (upd c (\<lambda>x. x\<lparr>p_lclsent := p_lclsent x + 1\<rparr>) s, Return OK))"

definition sendrec_local :: "env \<Rightarrow> locals \<Rightarrow> kstate \<Rightarrow> kstate \<times> outcome" where
  "sendrec_local E l s =
    (let c = l_caller l; d = l_peer l; caller_ep = p_endpoint (procs s c) in
     if waiting_for s d caller_ep then
       let s1 = clear_rts BIT_RECEIVING d s;
           s2 = upd d (\<lambda>x. x\<lparr>p_getfrom := NONE\<rparr>) s1;
           (s3, ret) = copy_usr2usr E caller_ep c (l_msg l) d (p_umsg (procs s2 d)) (int MSG_SIZE) s2;
           s4 = up_if_ready E d ret s3 in
       if ret \<noteq> OK then (upd c (\<lambda>x. x\<lparr>p_getfrom := NONE, p_sendto := NONE\<rparr>) s4, Return ret)
       else sleep_or c (l_timeout l) (PP_sendrec_rcv l) (sendrec_rcv_post l)
              (set_rts BIT_RECEIVING c s4)
     else
       let s1 = upd c (\<lambda>x. x\<lparr>p_message := put_i32 0 (p_endpoint x) (p_message x)\<rparr>) s;
           s2 = set_rts BIT_RECEIVING c s1;
           s3 = set_rts BIT_SENDING c s2;
           s4 = upd c (\<lambda>x. x\<lparr>p_sendto := l_ep l\<rparr>) s3;
           s5 = LIST_ADD_TAIL c d s4
       in sleep_or c (l_timeout l) (PP_sendrec_queue l) (sendrec_queue_post l) s5)"

definition sendrec_replay :: "env \<Rightarrow> int \<Rightarrow> locals \<Rightarrow> kstate \<Rightarrow> kstate \<times> outcome" where
  "sendrec_replay E tid l s =
    (let c = l_caller l; d = l_peer l; nodeid = p_nodeid (procs s d) in
     if p_endpoint (procs s d) \<noteq> l_ep l then (s, Return EMOLENDPOINT)
     else if rts s d BIT_SLOT_FREE then (s, Return EMOLDEADSRCDST)
     else if rts s d BIT_MIGRATE then
       let s1 = set_rts BIT_WAITMIGR c s;
           s2 = upd c (\<lambda>x. x\<lparr>p_waitmigr := l_ep l\<rparr>) s1;
           s3 = LIST_ADD_TAIL_M c d s2
       in sleep_or c (l_timeout l) (PP_sendrec_migr l) (\<lambda>s. (s, Goto (PP_sendrec_replay l))) s3
     else if nodeid < 0 \<or> nodeid \<ge> d_nr_nodes (dvs s) then (s, Return EMOLBADNODEID)
     else if \<not> node_bit nodeid (dc_nodes (dc s (l_dcid l))) then (s, Return EMOLNODCNODE)
     else
       let s1 = upd c (\<lambda>x. x\<lparr>p_rcode := OK, p_getfrom := l_ep l\<rparr>) s in
       if IT_IS_REMOTE s1 d then sendrec_remote E tid l s1 else sendrec_local E l s1)"

definition mm_mini_sendrec_body ::
  "env \<Rightarrow> int \<Rightarrow> int \<Rightarrow> addr \<Rightarrow> int \<Rightarrow> pref \<Rightarrow> int \<Rightarrow> kstate \<Rightarrow> kstate \<times> outcome" where
  "mm_mini_sendrec_body E tid srcdst_ep m_ptr timeout_ms c caller_pid s =
    (let caller_ep = p_endpoint (procs s c); dcid = p_dcid (procs s c);
         srcdst_nr = ENDPOINT_P srcdst_ep in
     if caller_pid \<noteq> p_lpid (procs s c) then (s, Return EMOLBADPID)
     else if dcid < 0 \<or> dcid \<ge> d_nr_dcs (dvs s) then (s, Return EMOLBADDCID)
     else if dc_flags (dc s dcid) \<noteq> 0 then (s, Return EMOLDCNOTRUN)
     else if srcdst_nr < - dc_nr_tasks (dc s dcid) \<or> srcdst_nr \<ge> dc_nr_procs (dc s dcid)
       then (s, Return EMOLRANGE)
     else if caller_ep = srcdst_ep then (s, Return EMOLENDPOINT)
     else sendrec_replay E tid
            \<lparr>l_dcid = dcid, l_caller = c, l_peer = NBR2PTR s dcid srcdst_nr, l_ep = srcdst_ep,
             l_msg = m_ptr, l_timeout = timeout_ms\<rparr>
            (upd c (\<lambda>x. x\<lparr>p_umsg := m_ptr\<rparr>) s))"

definition mm_mini_sendrec :: "env \<Rightarrow> int \<Rightarrow> int \<Rightarrow> addr \<Rightarrow> int \<Rightarrow> kstate \<Rightarrow> kstate \<times> outcome" where
  "mm_mini_sendrec E tid srcdst_ep m_ptr timeout_ms s =
    (if DVS_NOT_INIT s then (s, Return EMOLDVSINIT)
     else after_check (Sendrec srcdst_ep m_ptr timeout_ms)
            (mm_mini_sendrec_body E tid srcdst_ep m_ptr timeout_ms) (check_caller tid s))"

section \<open>mm_mini_reply\<close>

definition reply_remote_post :: "locals \<Rightarrow> kstate \<Rightarrow> kstate \<times> outcome" where
  "reply_remote_post l s =
    (let c = l_caller l; ret = p_rcode (procs s c) in
     if ret = OK then (upd c (\<lambda>x. x\<lparr>p_rmtsent := p_rmtsent x + 1\<rparr>) s, Return OK)
     else
      let s1 = (if rts s c BIT_SENDING then LIST_DEL_INIT c s else s);
          s2 = clear_rts BIT_SENDING c s1;
          s3 = upd c (\<lambda>x. x\<lparr>p_sendto := NONE\<rparr>) s2;
          s4 = clear_rts BIT_RMTOPER c s3;
          s5 = upd c (\<lambda>x. x\<lparr>p_proxy := NONE\<rparr>) s4
      in (s5, if ret = EMOLMIGRATE then Goto (PP_reply_replay l) else Return ret))"

definition reply_remote :: "env \<Rightarrow> int \<Rightarrow> locals \<Rightarrow> kstate \<Rightarrow> kstate \<times> outcome" where
  "reply_remote E tid l s =
    (let c = l_caller l; d = l_peer l; ret = proxy_status s (NODE2SPROXY s (p_nodeid (procs s d))) in
     if ret \<noteq> OK then (s, Return ret)
     else
      let s1 = clear_rts BIT_RECEIVING d s;
          s2 = upd d (\<lambda>x. if p_getfrom x = p_endpoint (procs s1 c)
                 then x\<lparr>p_getfrom := NONE\<rparr> else x) s1;
          s3 = set_cmd (\<lambda>k. k\<lparr>c_cmd := CMD_REPLY_MSG, c_src := p_endpoint (procs s2 c),
                 c_dst := l_ep l, c_dcid := p_dcid (procs s2 c), c_snode := local_nodeid s2,
                 c_dnode := p_nodeid (procs s2 d), c_rcode := OK, c_len := 0\<rparr>) c s2;
          msg = fst (copy_from_user E (mm_of_task s3 tid) (l_msg l) MSG_SIZE s3);
          s4 = set_cmd (\<lambda>k. k\<lparr>c_u := msg\<rparr>) c s3;
          s5 = set_rts BIT_SENDING c s4;
          s6 = upd c (\<lambda>x. x\<lparr>p_sendto := l_ep l\<rparr>) s5;
          s7 = set_rts BIT_RMTOPER c s6;
          s8 = fst (sproxy_enqueue E c s7)
      in sleep_or c (l_timeout l) (PP_reply_rmt l) (reply_remote_post l) s8)"

definition reply_local :: "env \<Rightarrow> locals \<Rightarrow> kstate \<Rightarrow> kstate \<times> outcome" where
  "reply_local E l s =
    (let c = l_caller l; d = l_peer l; caller_ep = p_endpoint (procs s c) in
     if rts s d BIT_RECEIVING \<and> \<not> rts s d BIT_SENDING \<and> p_getfrom (procs s d) = caller_ep then
       let (s1, ret) = copy_usr2usr E caller_ep c (l_msg l) d (p_umsg (procs s d)) (int MSG_SIZE) s in
       if ret \<noteq> OK then (s1, Return ret)
       else
        let s2 = clear_rts BIT_RECEIVING d s1;
            s3 = upd d (\<lambda>x. x\<lparr>p_getfrom := NONE\<rparr>) s2;
            s4 = up_if_ready E d ret s3;
            s5 = upd c (\<lambda>x. x\<lparr>p_lclsent := p_lclsent x + 1\<rparr>) s4
        in (s5, Return OK)
     else (s, Return EMOLPROCSTS))"

definition reply_replay :: "env \<Rightarrow> int \<Rightarrow> locals \<Rightarrow> kstate \<Rightarrow> kstate \<times> outcome" where
  "reply_replay E tid l s =
    (let c = l_caller l; d = l_peer l; nodeid = p_nodeid (procs s d) in
     if p_endpoint (procs s d) \<noteq> l_ep l then (s, Return EMOLENDPOINT)
     else if rts s d BIT_SLOT_FREE then (s, Return EMOLDSTDIED)
     else if rts s d BIT_MIGRATE then
       let s1 = set_rts BIT_WAITMIGR c s;
           s2 = upd c (\<lambda>x. x\<lparr>p_waitmigr := l_ep l\<rparr>) s1;
           s3 = LIST_ADD_TAIL_M c d s2
       in sleep_or c (l_timeout l) (PP_reply_migr l) (\<lambda>s. (s, Goto (PP_reply_replay l))) s3
     else if nodeid < 0 \<or> nodeid \<ge> d_nr_nodes (dvs s) then (s, Return EMOLBADNODEID)
     else if \<not> node_bit nodeid (dc_nodes (dc s (l_dcid l))) then (s, Return EMOLNODCNODE)
     else
       let s1 = upd c (\<lambda>x. x\<lparr>p_rcode := OK\<rparr>) s in
       if IT_IS_REMOTE s1 d then reply_remote E tid l s1 else reply_local E l s1)"

definition mm_mini_reply_body ::
  "env \<Rightarrow> int \<Rightarrow> int \<Rightarrow> addr \<Rightarrow> int \<Rightarrow> pref \<Rightarrow> int \<Rightarrow> kstate \<Rightarrow> kstate \<times> outcome" where
  "mm_mini_reply_body E tid dst_ep m_ptr timeout_ms c caller_pid s =
    (let caller_ep = p_endpoint (procs s c); dcid = p_dcid (procs s c); dst_nr = ENDPOINT_P dst_ep in
     if caller_pid \<noteq> p_lpid (procs s c) then (s, Return EMOLBADPID)
     else if dcid < 0 \<or> dcid \<ge> d_nr_dcs (dvs s) then (s, Return EMOLBADDCID)
     else if dc_flags (dc s dcid) \<noteq> 0 then (s, Return EMOLDCNOTRUN)
     else if dst_nr < - dc_nr_tasks (dc s dcid) \<or> dst_nr \<ge> dc_nr_procs (dc s dcid)
       then (s, Return EMOLRANGE)
     else if caller_ep = dst_ep then (s, Return EMOLENDPOINT)
     else reply_replay E tid
            \<lparr>l_dcid = dcid, l_caller = c, l_peer = NBR2PTR s dcid dst_nr, l_ep = dst_ep,
             l_msg = m_ptr, l_timeout = timeout_ms\<rparr>
            (upd c (\<lambda>x. x\<lparr>p_umsg := m_ptr\<rparr>) s))"

definition mm_mini_reply :: "env \<Rightarrow> int \<Rightarrow> int \<Rightarrow> addr \<Rightarrow> int \<Rightarrow> kstate \<Rightarrow> kstate \<times> outcome" where
  "mm_mini_reply E tid dst_ep m_ptr timeout_ms s =
    (if DVS_NOT_INIT s then (s, Return EMOLDVSINIT)
     else after_check (Reply dst_ep m_ptr timeout_ms)
            (mm_mini_reply_body E tid dst_ep m_ptr timeout_ms) (check_caller tid s))"

section \<open>A request and its answer\<close>

lemma mm_mini_reply_ready:
  "call_ready s tid c ep \<Longrightarrow>
   mm_mini_reply E tid ep m t s =
     reply_replay E tid (mk_locals s c ep m t) (upd c (\<lambda>x. x\<lparr>p_umsg := m\<rparr>) s)"
  by (auto simp: mm_mini_reply_def call_ready_def after_check_def mm_mini_reply_body_def mk_locals_def
      Let_def)

lemma mm_mini_sendrec_ready:
  "call_ready s tid c ep \<Longrightarrow>
   mm_mini_sendrec E tid ep m t s =
     sendrec_replay E tid (mk_locals s c ep m t) (upd c (\<lambda>x. x\<lparr>p_umsg := m\<rparr>) s)"
  by (auto simp: mm_mini_sendrec_def call_ready_def after_check_def mm_mini_sendrec_body_def
      mk_locals_def Let_def)

lemma reply_replay_local:
  "dst_ok s l \<Longrightarrow> \<not> IT_IS_REMOTE s (l_peer l) \<Longrightarrow>
   reply_replay E tid l s = reply_local E l (upd (l_caller l) (\<lambda>x. x\<lparr>p_rcode := OK\<rparr>) s)"
  by (auto simp: reply_replay_def dst_ok_def IT_IS_REMOTE_def Let_def)

lemma sendrec_replay_local:
  "dst_ok s l \<Longrightarrow> \<not> IT_IS_REMOTE s (l_peer l) \<Longrightarrow>
   sendrec_replay E tid l s =
     sendrec_local E l (upd (l_caller l) (\<lambda>x. x\<lparr>p_rcode := OK, p_getfrom := l_ep l\<rparr>) s)"
  by (auto simp: sendrec_replay_def dst_ok_def IT_IS_REMOTE_def Let_def)

lemma sendrec_local_waiting:
  assumes "l_peer l \<noteq> l_caller l" "waiting_for s (l_peer l) (p_endpoint (procs s (l_caller l)))"
    "msg_copyable E s (l_caller l) (l_msg l) (l_peer l) (p_umsg (procs s (l_peer l)))"
    "p_endpoint (procs s (l_caller l)) \<noteq> NONE" "l_timeout l \<noteq> TIMEOUT_NOWAIT"
  shows "sendrec_local E l s =
    (upd (l_caller l) (\<lambda>x. x\<lparr>p_pseudosem := - 1, p_rcode := OK\<rparr>)
      (set_rts BIT_RECEIVING (l_caller l)
        (up_if_ready E (l_peer l) OK
          (set_umem (mm_of s (l_peer l)) (write_mem (p_umsg (procs s (l_peer l)))
             (delivered_bytes (p_endpoint (procs s (l_caller l))) s (l_caller l) (l_msg l))
             (umem s (mm_of s (l_peer l))))
           (upd (l_peer l) (\<lambda>x. x\<lparr>p_getfrom := NONE\<rparr>) (clear_rts BIT_RECEIVING (l_peer l) s))))),
     Block (PP_sendrec_rcv l))"
proof -
  let ?s2 = "upd (l_peer l) (\<lambda>x. x\<lparr>p_getfrom := NONE\<rparr>) (clear_rts BIT_RECEIVING (l_peer l) s)"
  have "msg_copyable E ?s2 (l_caller l) (l_msg l) (l_peer l) (p_umsg (procs s (l_peer l)))"
    using assms(3) by (simp add: msg_copyable_def)
  from copy_message [OF this assms(4)] assms show ?thesis
    by (simp add: sendrec_local_def sleep_or_block Let_def delivered_bytes_def)
qed

text \<open>A sendrec to a local process that is waiting for the caller delivers the request and
  leaves the caller blocked in RECEIVING, no longer sending and listening only to that process.\<close>

theorem sendrec_rendezvous:
  assumes ready: "call_ready s tid c dst_ep" and l: "l = mk_locals s c dst_ep m t"
    and d: "d = l_peer l" and ok: "dst_ok s l" "\<not> IT_IS_REMOTE s d"
    and idle: "p_rts_flags (procs s c) = 0" and t: "t \<noteq> TIMEOUT_NOWAIT"
    and w: "waiting_for s d (p_endpoint (procs s c))"
    and cp: "msg_copyable E s c m d (p_umsg (procs s d))" "p_endpoint (procs s c) \<noteq> NONE"
  shows "\<exists>s'. mm_mini_sendrec E tid dst_ep m t s = (s', Block (PP_sendrec_rcv l))
    \<and> read_mem (umem s' (mm_of s d)) (p_umsg (procs s d)) MSG_SIZE
        = delivered_bytes (p_endpoint (procs s c)) s c m
    \<and> rts s' c BIT_RECEIVING \<and> \<not> rts s' c BIT_SENDING \<and> p_getfrom (procs s' c) = dst_ep
    \<and> p_umsg (procs s' c) = m \<and> \<not> rts s' d BIT_RECEIVING
    \<and> (\<forall>q. p_list (procs s' q) = p_list (procs s q))
    \<and> (p_rts_flags (procs s d) = 8 \<longrightarrow> p_rcode (procs s' d) = OK
         \<and> p_pseudosem (procs s' d) = p_pseudosem (procs s d) + 1)"
proof -
  have ne: "d \<noteq> c" using dst_ok_ne [OF ready] ok(1) unfolding d l by blast
  have lsel: "l_caller l = c" "l_peer l = d" "l_msg l = m" "l_ep l = dst_ep" "l_timeout l = t"
    using l d by simp_all
  let ?s1 = "upd c (\<lambda>x. x\<lparr>p_rcode := OK, p_getfrom := dst_ep\<rparr>) (upd c (\<lambda>x. x\<lparr>p_umsg := m\<rparr>) s)"
  let ?ep = "p_endpoint (procs s c)" and ?da = "p_umsg (procs s d)"
  have cp1: "msg_copyable E ?s1 c m d ?da" and del: "delivered_bytes ?ep ?s1 c m = delivered_bytes ?ep s c m"
    using cp(1) by (simp_all add: msg_copyable_def delivered_bytes_def)
  have "mm_mini_sendrec E tid dst_ep m t s = sendrec_local E l ?s1"
    using ne ok mm_mini_sendrec_ready [OF ready, of E m t] lsel l
    by (simp add: sendrec_replay_local IT_IS_REMOTE_def)
  also have "\<dots> = (upd c (\<lambda>x. x\<lparr>p_pseudosem := - 1, p_rcode := OK\<rparr>) (set_rts BIT_RECEIVING c
      (up_if_ready E d OK (set_umem (mm_of s d) (write_mem ?da (delivered_bytes ?ep s c m) (umem s (mm_of s d)))
         (upd d (\<lambda>x. x\<lparr>p_getfrom := NONE\<rparr>) (clear_rts BIT_RECEIVING d ?s1))))), Block (PP_sendrec_rcv l))"
    using ne w cp1 cp(2) del lsel t
    by (subst sendrec_local_waiting) (simp_all add: waiting_for_def)
  finally have call: "mm_mini_sendrec E tid dst_ep m t s = \<dots>" .
  show ?thesis
    unfolding call using ne idle
    by (auto simp: read_delivered up_if_ready_def unset_receiving_8)
qed

theorem sendrec_rendezvous_witness:
  "\<exists>s'. mm_mini_sendrec scn_env 101 2 8192 TIMEOUT_FOREVER scn_waiting
      = (s', Block (PP_sendrec_rcv (mk_locals scn_waiting (DcProc 0 36) 2 8192 (- 1))))
    \<and> p_getfrom (procs s' (DcProc 0 36)) = 2"
proof -
  have "call_ready scn_waiting 101 (DcProc 0 36) 2"
    by (simp add: call_ready_def scn_waiting_def scn_defs check_defs)
  moreover have "dst_ok scn_waiting (mk_locals scn_waiting (DcProc 0 36) 2 8192 (- 1))"
    by (simp add: dst_ok_def NBR2PTR_def scn_waiting_def scn_defs node_bit_def)
  moreover have "l_peer (mk_locals scn_waiting (DcProc 0 36) 2 8192 (- 1)) = DcProc 0 37"
    by (simp add: NBR2PTR_def scn_waiting_def scn_defs)
  moreover have "msg_copyable scn_env scn_waiting (DcProc 0 36) 8192 (DcProc 0 37) 4096"
    "waiting_for scn_waiting (DcProc 0 37) 1" "\<not> IT_IS_REMOTE scn_waiting (DcProc 0 37)"
    "p_endpoint (procs scn_waiting (DcProc 0 36)) = 1" "p_rts_flags (procs scn_waiting (DcProc 0 36)) = 0"
    "p_umsg (procs scn_waiting (DcProc 0 37)) = 4096"
    by (simp_all add: msg_copyable_def waiting_for_def IT_IS_REMOTE_def mm_of_def scn_waiting_def scn_defs)
  ultimately show ?thesis
    using sendrec_rendezvous [of scn_waiting 101 "DcProc 0 36" 2 _ 8192 "- 1" "DcProc 0 37" scn_env, OF _ refl]
    by auto
qed

lemma reply_local_waiting:
  assumes "l_peer l \<noteq> l_caller l" "rts s (l_peer l) BIT_RECEIVING" "\<not> rts s (l_peer l) BIT_SENDING"
    "p_getfrom (procs s (l_peer l)) = p_endpoint (procs s (l_caller l))"
    "msg_copyable E s (l_caller l) (l_msg l) (l_peer l) (p_umsg (procs s (l_peer l)))"
    "p_endpoint (procs s (l_caller l)) \<noteq> NONE"
  shows "reply_local E l s = send_local E l s"
  using assms
  by (simp add: reply_local_def send_local_waiting waiting_for_def copy_message Let_def)

text \<open>A reply to a local process that waits for the replier is exactly a successful send to
  it, and a reply to a process that is not waiting for the replier - one that receives from anyone
  included - is refused with EMOLPROCSTS and changes nothing but the caller's own bookkeeping.\<close>

theorem reply_accepted_or_refused:
  assumes ready: "call_ready s tid c dst_ep" and l: "l = mk_locals s c dst_ep m t"
    and d: "d = l_peer l" and ok: "dst_ok s l" "\<not> IT_IS_REMOTE s d"
    and cp: "msg_copyable E s c m d (p_umsg (procs s d))" "p_endpoint (procs s c) \<noteq> NONE"
  shows "if rts s d BIT_RECEIVING \<and> \<not> rts s d BIT_SENDING \<and> p_getfrom (procs s d) = p_endpoint (procs s c)
    then mm_mini_reply E tid dst_ep m t s = mm_mini_send E tid dst_ep m t s
       \<and> snd (mm_mini_reply E tid dst_ep m t s) = Return OK
    else mm_mini_reply E tid dst_ep m t s
       = (upd c (\<lambda>x. x\<lparr>p_umsg := m, p_rcode := OK\<rparr>) s, Return EMOLPROCSTS)"
proof -
  have ne: "d \<noteq> c" using dst_ok_ne [OF ready] ok(1) unfolding d l by blast
  have lsel: "l_caller l = c" "l_peer l = d" "l_msg l = m" using l d by simp_all
  let ?s1 = "upd c (\<lambda>x. x\<lparr>p_rcode := OK\<rparr>) (upd c (\<lambda>x. x\<lparr>p_umsg := m\<rparr>) s)"
  have r: "mm_mini_reply E tid dst_ep m t s = reply_local E l ?s1"
    using ne ok mm_mini_reply_ready [OF ready, of E m t] lsel l
    by (simp add: reply_replay_local IT_IS_REMOTE_def)
  have p: "mm_mini_send E tid dst_ep m t s = send_local E l ?s1"
    using ne ok mm_mini_send_ready [OF ready, of E m t] lsel l
    by (simp add: send_replay_local IT_IS_REMOTE_def)
  have cp1: "msg_copyable E ?s1 c m d (p_umsg (procs s d))" using cp(1) by (simp add: msg_copyable_def)
  show ?thesis
  proof (cases "rts s d BIT_RECEIVING \<and> \<not> rts s d BIT_SENDING \<and> p_getfrom (procs s d) = p_endpoint (procs s c)")
    case True
    then show ?thesis
      using ne cp1 cp(2) lsel r p
      by (simp add: reply_local_waiting send_local_waiting waiting_for_def)
  next
    case False
    then show ?thesis
      using ne lsel r by (auto simp: reply_local_def upd_def)
  qed
qed

theorem reply_accepted_or_refused_witness:
  "mm_mini_reply scn_env 101 2 8192 TIMEOUT_FOREVER scn_waiting
     = (upd (DcProc 0 36) (\<lambda>x. x\<lparr>p_umsg := 8192, p_rcode := OK\<rparr>) scn_waiting, Return EMOLPROCSTS)"
proof -
  have "call_ready scn_waiting 101 (DcProc 0 36) 2"
    by (simp add: call_ready_def scn_waiting_def scn_defs check_defs)
  moreover have "dst_ok scn_waiting (mk_locals scn_waiting (DcProc 0 36) 2 8192 (- 1))"
    by (simp add: dst_ok_def NBR2PTR_def scn_waiting_def scn_defs node_bit_def)
  moreover have "l_peer (mk_locals scn_waiting (DcProc 0 36) 2 8192 (- 1)) = DcProc 0 37"
    by (simp add: NBR2PTR_def scn_waiting_def scn_defs)
  moreover have "msg_copyable scn_env scn_waiting (DcProc 0 36) 8192 (DcProc 0 37) 4096"
    "\<not> IT_IS_REMOTE scn_waiting (DcProc 0 37)" "p_endpoint (procs scn_waiting (DcProc 0 36)) = 1"
    "p_umsg (procs scn_waiting (DcProc 0 37)) = 4096" "p_getfrom (procs scn_waiting (DcProc 0 37)) = ANY"
    by (simp_all add: msg_copyable_def IT_IS_REMOTE_def mm_of_def scn_waiting_def scn_defs)
  ultimately show ?thesis
    using reply_accepted_or_refused [of scn_waiting 101 "DcProc 0 36" 2 _ 8192 "- 1" "DcProc 0 37" scn_env, OF _ refl]
    by simp
qed

end
