(* ===== verification/Ipc_Notify.thy ===== *)
theory Ipc_Notify
  imports Ipc_Sendrec
begin

text \<open>
  \<open>mm_mini_notify\<close> and \<open>mm_hdw_notify\<close> (\<open>src/mol-module/mm_ipc.c\<close>):
  non-blocking notifications.  A waiting destination gets the message at once;
  otherwise the notification becomes a bit of the destination's
  \<open>s_notify_pending\<close> map, which \<open>mm_mini_receive\<close> scans.
\<close>

section \<open>mm_hdw_notify\<close>

definition hdw_notify_deliver :: "env \<Rightarrow> int \<Rightarrow> int \<Rightarrow> pref \<Rightarrow> kstate \<Rightarrow> kstate \<times> int" where
  "hdw_notify_deliver E dst_ep dst_nr d s =
    (if waiting_for s d HARDWARE then
       let s1 = BUILD_NOTIFY_MSG E d dst_ep dst_nr d s;
           s2 = set_mis MIS_BIT_NOTIFY d s1;
           s3 = clear_rts BIT_RECEIVING d s2;
           s4 = upd d (\<lambda>x. x\<lparr>p_getfrom := NONE\<rparr>) s3
       in (up_if_ready E d OK s4, OK)
     else
       let ret = (if get_sys_bit (s_notify_pending (p_priv (procs s d))) (nat (s_id (p_priv (procs s d))))
                  then EMOLOVERRUN else OK);
           s1 = upd d (\<lambda>x. x\<lparr>p_priv := (p_priv x)\<lparr>s_notify_pending :=
                  set_sys_bit (nat (s_id (p_priv x))) (s_notify_pending (p_priv x))\<rparr>\<rparr>) s
       in (s1, ret))"

definition mm_hdw_notify :: "env \<Rightarrow> int \<Rightarrow> int \<Rightarrow> int \<Rightarrow> kstate \<Rightarrow> kstate \<times> int" where
  "mm_hdw_notify E tid dcid dst_ep s =
    (let dst_nr = ENDPOINT_P dst_ep; d = NBR2PTR s dcid dst_nr; nodeid = p_nodeid (procs s d) in
     if DVS_NOT_INIT s then (s, EMOLDVSINIT)
     else if t_euid (tasks s tid) \<noteq> USER_ROOT then (s, EMOLPRIVILEGES)
     else if dcid < 0 \<or> dcid \<ge> d_nr_dcs (dvs s) then (s, EMOLBADDCID)
     else if dc_flags (dc s dcid) \<noteq> 0 then (s, EMOLDCNOTRUN)
     else if dst_nr < - dc_nr_tasks (dc s dcid) \<or> dst_nr \<ge> dc_nr_procs (dc s dcid)
       then (s, EMOLRANGE)
     else if HARDWARE = dst_ep then (s, EMOLENDPOINT)
     else if rts s d BIT_SLOT_FREE then (s, EMOLDSTDIED)
     else if nodeid < 0 \<or> nodeid \<ge> d_nr_nodes (dvs s) then (s, EMOLBADNODEID)
     else if \<not> node_bit nodeid (dc_nodes (dc s dcid)) then (s, EMOLNODCNODE)
     else if rts s d BIT_MIGRATE then (s, EMOLMIGRATE)
     else if s_id (p_priv (procs s d)) \<ge> dc_nr_sysprocs (dc s dcid) then (s, EMOLPRIVILEGES)
     else if IT_IS_REMOTE s d then (s, EMOLRMTPROC)
     else hdw_notify_deliver E dst_ep dst_nr d s)"

section \<open>mm_mini_notify\<close>

text \<open>The common end: the counters, or the clean-up of a failed remote notification.\<close>

definition notify_tail :: "locals \<Rightarrow> kstate \<Rightarrow> kstate \<times> outcome" where
  "notify_tail l s =
    (let c = l_caller l; ret = p_rcode (procs s c) in
     if ret = OK then
       (upd c (if IT_IS_REMOTE s (l_peer l) then (\<lambda>x. x\<lparr>p_rmtsent := p_rmtsent x + 1\<rparr>)
               else (\<lambda>x. x\<lparr>p_lclsent := p_lclsent x + 1\<rparr>)) s, Return OK)
     else (upd c (\<lambda>x. x\<lparr>p_sendto := NONE\<rparr>) (clear_rts BIT_SENDING c s), Return ret))"

definition notify_remote_post :: "locals \<Rightarrow> int \<Rightarrow> int \<Rightarrow> int \<Rightarrow> kstate \<Rightarrow> kstate \<times> outcome" where
  "notify_remote_post l src_nr src_ep update_proc s =
    (let c = l_caller l; ret = p_rcode (procs s c) in
     if ret = OK then notify_tail l (upd c (\<lambda>x. x\<lparr>p_rmtsent := p_rmtsent x + 1\<rparr>) s)
     else
      let s1 = (if rts s c BIT_SENDING then LIST_DEL_INIT c s else s);
          s2 = clear_rts BIT_SENDING c s1;
          s3 = clear_rts BIT_RMTOPER c s2;
          s4 = upd c (\<lambda>x. x\<lparr>p_sendto := NONE, p_proxy := NONE\<rparr>) s3
      in if ret = EMOLMIGRATE then (s4, Goto (PP_notify_replay l src_nr src_ep update_proc))
         else notify_tail l s4)"

definition notify_remote :: "env \<Rightarrow> locals \<Rightarrow> int \<Rightarrow> int \<Rightarrow> int \<Rightarrow> kstate \<Rightarrow> kstate \<times> outcome" where
  "notify_remote E l src_nr src_ep update_proc s =
    (let c = l_caller l; d = l_peer l; ret = proxy_status s (NODE2SPROXY s (p_nodeid (procs s d))) in
     if ret \<noteq> OK then (s, Return ret)
     else
      let s1 = clear_rts BIT_RECEIVING d s;
          s2 = upd d (\<lambda>x. if p_getfrom x = p_endpoint (procs s1 c)
                 then x\<lparr>p_getfrom := NONE\<rparr> else x) s1;
          s3 = set_cmd (\<lambda>k. k\<lparr>c_cmd := CMD_NTFY_MSG, c_src := p_endpoint (procs s2 c),
                 c_dst := l_ep l, c_dcid := p_dcid (procs s2 c), c_snode := local_nodeid s2,
                 c_dnode := p_nodeid (procs s2 d),
                 c_rcode := (if 0 \<le> update_proc \<and> update_proc < 32 then update_proc else - 1),
                 c_len := 0\<rparr>) c s2;
          s4 = BUILD_NOTIFY_MSG E c src_ep src_nr d s3;
          s5 = set_cmd (\<lambda>k. k\<lparr>c_u := p_message (procs s4 d)\<rparr>) c s4;
          s6 = set_rts BIT_SENDING c s5;
          s7 = set_rts BIT_RMTOPER c s6;
          s8 = upd c (\<lambda>x. x\<lparr>p_sendto := l_ep l\<rparr>) s7;
          s9 = fst (sproxy_enqueue E c s8)
      in sleep_or c TIMEOUT_FOREVER (PP_notify_rmt l src_nr src_ep update_proc)
           (notify_remote_post l src_nr src_ep update_proc) s9)"

definition set_update :: "int \<Rightarrow> pref \<Rightarrow> kstate \<Rightarrow> kstate" where
  "set_update update_proc p s =
    (if 0 \<le> update_proc \<and> update_proc < 32
     then upd p (\<lambda>x. x\<lparr>p_priv := (p_priv x)\<lparr>s_updt_pending :=
            set_bit (nat update_proc) (s_updt_pending (p_priv x))\<rparr>\<rparr>) s else s)"

definition set_pending :: "nat \<Rightarrow> pref \<Rightarrow> kstate \<Rightarrow> kstate" where
  "set_pending i d s = upd d (\<lambda>x. x\<lparr>p_priv := (p_priv x)\<lparr>s_notify_pending :=
     set_sys_bit i (s_notify_pending (p_priv x))\<rparr>\<rparr>) s"

definition notify_local :: "env \<Rightarrow> locals \<Rightarrow> int \<Rightarrow> int \<Rightarrow> int \<Rightarrow> kstate \<Rightarrow> kstate \<times> outcome" where
  "notify_local E l src_nr src_ep update_proc s =
    (let c = l_caller l; d = l_peer l in
     if waiting_for s d src_ep then
       let s1 = set_update update_proc c s;
           s2 = BUILD_NOTIFY_MSG E c src_ep src_nr d s1;
           s3 = set_mis MIS_BIT_NOTIFY d s2;
           s4 = clear_rts BIT_RECEIVING d s3;
           s5 = upd d (\<lambda>x. x\<lparr>p_getfrom := NONE\<rparr>) s4
       in notify_tail l (up_if_ready E d OK s5)
     else if s_id (p_priv (procs s d)) \<ge> dc_nr_sysprocs (dc s (l_dcid l)) then (s, Return EMOLPRIVILEGES)
     else
       let s1 = set_pending (nat (s_id (p_priv (procs s c)))) d s;
           s2 = set_update update_proc c s1
       in notify_tail l s2)"

definition notify_replay :: "env \<Rightarrow> locals \<Rightarrow> int \<Rightarrow> int \<Rightarrow> int \<Rightarrow> kstate \<Rightarrow> kstate \<times> outcome" where
  "notify_replay E l src_nr src_ep update_proc s =
    (let c = l_caller l; d = l_peer l; nodeid = p_nodeid (procs s d);
         sid = nat (s_id (p_priv (procs s c))) in
     if p_endpoint (procs s d) \<noteq> l_ep l then (s, Return EMOLENDPOINT)
     else if rts s d BIT_SLOT_FREE then (s, Return EMOLDSTDIED)
     else if nodeid < 0 \<or> nodeid \<ge> d_nr_nodes (dvs s) then (s, Return EMOLBADNODEID)
     else if \<not> node_bit nodeid (dc_nodes (dc s (l_dcid l))) then (s, Return EMOLNODCNODE)
     else if rts s d BIT_MIGRATE then
       (if get_sys_bit (s_notify_pending (p_priv (procs s d))) sid then (s, Return EMOLOVERRUN)
        else (set_pending sid d s, Return OK))
     else
       let s1 = upd c (\<lambda>x. x\<lparr>p_rcode := OK\<rparr>) s in
       if IT_IS_REMOTE s1 d then notify_remote E l src_nr src_ep update_proc s1
       else notify_local E l src_nr src_ep update_proc s1)"

definition mm_mini_notify_body ::
  "env \<Rightarrow> int \<Rightarrow> int \<Rightarrow> int \<Rightarrow> pref \<Rightarrow> int \<Rightarrow> kstate \<Rightarrow> kstate \<times> outcome" where
  "mm_mini_notify_body E src_nr dst_ep update_proc c caller_pid s =
    (let caller_ep = p_endpoint (procs s c); dcid = p_dcid (procs s c); dst_nr = ENDPOINT_P dst_ep in
     if caller_pid \<noteq> p_lpid (procs s c) then (s, Return EMOLBADPID)
     else if dcid < 0 \<or> dcid \<ge> d_nr_dcs (dvs s) then (s, Return EMOLBADDCID)
     else if dc_flags (dc s dcid) \<noteq> 0 then (s, Return EMOLDCNOTRUN)
     else
      let (nr, src_ep) = (if src_nr = SELF then (p_nr (procs s c), caller_ep)
                          else (src_nr, p_endpoint (procs s (NBR2PTR s dcid src_nr)))) in
      if dst_nr < - dc_nr_tasks (dc s dcid) \<or> dst_nr \<ge> dc_nr_procs (dc s dcid)
        then (s, Return EMOLRANGE)
      else if caller_ep = dst_ep then (s, Return EMOLENDPOINT)
      else if s_id (p_priv (procs s c)) \<ge> dc_nr_sysprocs (dc s dcid) then (s, Return EMOLPRIVILEGES)
      else notify_replay E
             \<lparr>l_dcid = dcid, l_caller = c, l_peer = NBR2PTR s dcid dst_nr, l_ep = dst_ep,
              l_msg = 0, l_timeout = TIMEOUT_FOREVER\<rparr> nr src_ep update_proc s)"

definition mm_mini_notify_checked ::
  "env \<Rightarrow> int \<Rightarrow> int \<Rightarrow> int \<Rightarrow> int \<Rightarrow> kstate \<times> checked \<Rightarrow> kstate \<times> outcome" where
  "mm_mini_notify_checked E tid src_nr dst_ep update_proc r =
    (case r of
       (s, Chk_sleep c pid dcid) \<Rightarrow> (s, Block (PP_check (Notify src_nr dst_ep update_proc) c pid dcid))
     | (s, chk) \<Rightarrow>
        if src_nr = HARDWARE then
          let (s1, ret) = mm_hdw_notify E tid update_proc dst_ep s in (s1, Return ret)
        else (case chk of
            Chk_ok c pid \<Rightarrow> mm_mini_notify_body E src_nr dst_ep update_proc c pid s
          | Chk_err e \<Rightarrow> (s, Return e)
          | Chk_sleep c pid dcid \<Rightarrow> (s, Return OK)))"

definition mm_mini_notify :: "env \<Rightarrow> int \<Rightarrow> int \<Rightarrow> int \<Rightarrow> int \<Rightarrow> kstate \<Rightarrow> kstate \<times> outcome" where
  "mm_mini_notify E tid src_nr dst_ep update_proc s =
    (if DVS_NOT_INIT s then (s, Return EMOLDVSINIT)
     else mm_mini_notify_checked E tid src_nr dst_ep update_proc (check_caller tid s))"

section \<open>Behaviour\<close>

text \<open>The caller may notify: it passes the checks and its system id is in range.\<close>

definition notify_ready :: "kstate \<Rightarrow> int \<Rightarrow> pref \<Rightarrow> int \<Rightarrow> bool" where
  "notify_ready s tid c ep \<longleftrightarrow> call_ready s tid c ep
     \<and> 0 \<le> s_id (p_priv (procs s c))
     \<and> s_id (p_priv (procs s c)) < dc_nr_sysprocs (dc s (p_dcid (procs s c)))
     \<and> dc_nr_sysprocs (dc s (p_dcid (procs s c))) \<le> NR_SYS_PROCS"

lemma mm_mini_notify_ready:
  "notify_ready s tid c ep \<Longrightarrow>
   mm_mini_notify E tid SELF ep update_proc s =
     notify_replay E (mk_locals s c ep 0 TIMEOUT_FOREVER) (p_nr (procs s c)) (p_endpoint (procs s c)) update_proc s"
  by (auto simp: mm_mini_notify_def mm_mini_notify_checked_def notify_ready_def call_ready_def
      mm_mini_notify_body_def mk_locals_def Let_def)

lemma notify_replay_local:
  "dst_ok s l \<Longrightarrow> \<not> IT_IS_REMOTE s (l_peer l) \<Longrightarrow>
   notify_replay E l nr ep u s = notify_local E l nr ep u (upd (l_caller l) (\<lambda>x. x\<lparr>p_rcode := OK\<rparr>) s)"
  by (auto simp: notify_replay_def dst_ok_def IT_IS_REMOTE_def Let_def)

lemma set_update_procs [simp]:
  "q \<noteq> p \<Longrightarrow> procs (set_update u p s) q = procs s q"
  "p_rts_flags (procs (set_update u p s) q) = p_rts_flags (procs s q)"
  "p_rcode (procs (set_update u p s) q) = p_rcode (procs s q)"
  "p_lclsent (procs (set_update u p s) q) = p_lclsent (procs s q)"
  "p_endpoint (procs (set_update u p s) q) = p_endpoint (procs s q)"
  "p_list (procs (set_update u p s) q) = p_list (procs s q)"
  "s_notify_pending (p_priv (procs (set_update u p s) q)) = s_notify_pending (p_priv (procs s q))"
  "dc (set_update u p s) = dc s" "umem (set_update u p s) = umem s"
  by (simp_all add: set_update_def)

lemma set_pending_procs [simp]:
  "procs (set_pending i d s) q = (if q = d then (procs s d)\<lparr>p_priv := (p_priv (procs s d))
     \<lparr>s_notify_pending := set_sys_bit i (s_notify_pending (p_priv (procs s d)))\<rparr>\<rparr> else procs s q)"
  by (simp add: set_pending_def)

lemma set_pending_frame [simp]:
  "local_nodeid (set_pending i d s) = local_nodeid s" "dvs (set_pending i d s) = dvs s"
  "dc (set_pending i d s) = dc s" "node (set_pending i d s) = node s"
  "tasks (set_pending i d s) = tasks s" "umem (set_pending i d s) = umem s"
  by (simp_all add: set_pending_def)

text \<open>A notification to a local process that is not waiting for it is not lost and does not
  block: the call returns OK, and exactly the caller's system id is added to the destination's set
  of pending notifications (where a second one before a receive is absorbed).\<close>

theorem notify_becomes_pending:
  assumes ready: "notify_ready s tid c dst_ep" and l: "l = mk_locals s c dst_ep 0 TIMEOUT_FOREVER"
    and d: "d = l_peer l" and ok: "dst_ok s l" "\<not> IT_IS_REMOTE s d"
    and w: "\<not> waiting_for s d (p_endpoint (procs s c))"
    and priv: "s_id (p_priv (procs s d)) < dc_nr_sysprocs (dc s (p_dcid (procs s c)))"
    and map: "sys_map_ok (s_notify_pending (p_priv (procs s d)))"
  shows "\<exists>s'. mm_mini_notify E tid SELF dst_ep update_proc s = (s', Return OK)
    \<and> smap.elems (s_notify_pending (p_priv (procs s' d)))
        = insert (nat (s_id (p_priv (procs s c)))) (smap.elems (s_notify_pending (p_priv (procs s d))))
    \<and> p_rts_flags (procs s' d) = p_rts_flags (procs s d)
    \<and> p_lclsent (procs s' c) = p_lclsent (procs s c) + 1
    \<and> (\<forall>q. p_list (procs s' q) = p_list (procs s q)) \<and> umem s' = umem s"
proof -
  have ne: "d \<noteq> c" using dst_ok_ne [of s tid c dst_ep 0 "- 1"] ready ok(1) unfolding d l notify_ready_def by blast
  have lsel: "l_caller l = c" "l_peer l = d" "l_dcid l = p_dcid (procs s c)" using l d by simp_all
  have sid: "nat (s_id (p_priv (procs s c))) < 64" using ready by (auto simp: notify_ready_def)
  let ?s1 = "upd c (\<lambda>x. x\<lparr>p_rcode := OK\<rparr>) s"
  have "mm_mini_notify E tid SELF dst_ep update_proc s
      = notify_local E l (p_nr (procs s c)) (p_endpoint (procs s c)) update_proc ?s1"
    using ok lsel l by (simp add: mm_mini_notify_ready [OF ready] notify_replay_local)
  moreover have "\<not> waiting_for ?s1 d (p_endpoint (procs s c))" using w ne by (simp add: waiting_for_def)
  ultimately show ?thesis
    using ne lsel priv map sid ok(2)
    by (simp add: notify_local_def notify_tail_def IT_IS_REMOTE_def Let_def smap.elems_ins)
qed

lemmas notify_defs = notify_ready_def call_ready_def dst_ok_def NBR2PTR_def node_bit_def
  waiting_for_def IT_IS_REMOTE_def

theorem notify_becomes_pending_witness:
  "\<exists>s'. mm_mini_notify scn_env 101 SELF 2 (- 1) scn = (s', Return OK)
    \<and> smap.elems (s_notify_pending (p_priv (procs s' (DcProc 0 37)))) = insert 36 (smap.elems empty_sys_map)"
proof -
  have "notify_ready scn 101 (DcProc 0 36) 2"
    by (simp add: notify_defs scn_defs check_defs)
  moreover have "dst_ok scn (mk_locals scn (DcProc 0 36) 2 0 (- 1))"
    "l_peer (mk_locals scn (DcProc 0 36) 2 0 (- 1)) = DcProc 0 37" "\<not> IT_IS_REMOTE scn (DcProc 0 37)"
    "\<not> waiting_for scn (DcProc 0 37) 1"
    by (simp_all add: notify_defs scn_defs)
  moreover have "p_endpoint (procs scn (DcProc 0 36)) = 1" "s_id (p_priv (procs scn (DcProc 0 36))) = 36"
    "s_id (p_priv (procs scn (DcProc 0 37))) < dc_nr_sysprocs (dc scn (p_dcid (procs scn (DcProc 0 36))))"
    "s_notify_pending (p_priv (procs scn (DcProc 0 37))) = empty_sys_map"
    by (simp_all add: scn_defs)
  ultimately show ?thesis
    using notify_becomes_pending [of scn 101 "DcProc 0 36" 2 _ "DcProc 0 37" scn_env "- 1", OF _ refl]
    by auto
qed

text \<open>A notification to a local process blocked receiving from the caller or from anyone is
  delivered at once: the receiver's kernel buffer holds a notification message with the caller's
  endpoint as source, the caller's number in its type and the current time, the receiver is flagged
  to copy it out, it is no longer receiving, and it is woken if nothing else holds it.  The caller's
  call returns OK without blocking.\<close>

theorem notify_delivers:
  assumes ready: "notify_ready s tid c dst_ep" and l: "l = mk_locals s c dst_ep 0 TIMEOUT_FOREVER"
    and d: "d = l_peer l" and ok: "dst_ok s l" "\<not> IT_IS_REMOTE s d"
    and w: "waiting_for s d (p_endpoint (procs s c))"
    and msg: "length (p_message (procs s d)) = MSG_SIZE"
    and i32: "int32 (p_endpoint (procs s c))" "int32 (p_nr (procs s c))"
      "int32 (fst (e_now E))" "int32 (snd (e_now E))"
  shows "\<exists>s'. mm_mini_notify E tid SELF dst_ep update_proc s = (s', Return OK)
    \<and> m_source (p_message (procs s' d)) = p_endpoint (procs s c)
    \<and> m_type (p_message (procs s' d)) = NOTIFY_FROM (p_nr (procs s c))
    \<and> NOTIFY_TIMESTAMP (p_message (procs s' d)) = e_now E
    \<and> mis s' d MIS_BIT_NOTIFY \<and> \<not> rts s' d BIT_RECEIVING \<and> p_getfrom (procs s' d) = NONE
    \<and> s_notify_pending (p_priv (procs s' d)) = s_notify_pending (p_priv (procs s d))
    \<and> p_lclsent (procs s' c) = p_lclsent (procs s c) + 1
    \<and> (p_rts_flags (procs s d) = 8 \<longrightarrow> p_rcode (procs s' d) = OK
          \<and> p_pseudosem (procs s' d) = p_pseudosem (procs s d) + 1)"
proof -
  have ne: "d \<noteq> c" using dst_ok_ne [of s tid c dst_ep 0 "- 1"] ready ok(1) unfolding d l notify_ready_def by blast
  have lsel: "l_caller l = c" "l_peer l = d" "l_dcid l = p_dcid (procs s c)" using l d by simp_all
  let ?s1 = "upd c (\<lambda>x. x\<lparr>p_rcode := OK\<rparr>) s"
  let ?s2 = "set_update update_proc c ?s1"
  let ?B = "BUILD_NOTIFY_MSG E c (p_endpoint (procs s c)) (p_nr (procs s c)) d ?s2"
  have "mm_mini_notify E tid SELF dst_ep update_proc s
      = notify_local E l (p_nr (procs s c)) (p_endpoint (procs s c)) update_proc ?s1"
    using ok lsel l by (simp add: mm_mini_notify_ready [OF ready] notify_replay_local)
  moreover have "waiting_for ?s1 d (p_endpoint (procs s c))" using w ne by (simp add: waiting_for_def)
  moreover have "length (p_message (procs ?s2 d)) = MSG_SIZE" using msg ne by simp
  note BUILD_NOTIFY_MSG_message [OF this i32, of c]
  ultimately show ?thesis
    using ne lsel ok(2)
    by (auto simp: notify_local_def notify_tail_def IT_IS_REMOTE_def Let_def up_if_ready_def unset_receiving_8)
qed

theorem notify_delivers_witness:
  "\<exists>s'. mm_mini_notify scn_env 101 SELF 2 (- 1) scn_waiting = (s', Return OK)
    \<and> m_source (p_message (procs s' (DcProc 0 37))) = 1
    \<and> m_type (p_message (procs s' (DcProc 0 37))) = NOTIFY_FROM 1
    \<and> p_pseudosem (procs s' (DcProc 0 37)) = 0"
proof -
  have "notify_ready scn_waiting 101 (DcProc 0 36) 2"
    by (simp add: notify_defs scn_waiting_def scn_defs check_defs)
  moreover have "dst_ok scn_waiting (mk_locals scn_waiting (DcProc 0 36) 2 0 (- 1))"
    "l_peer (mk_locals scn_waiting (DcProc 0 36) 2 0 (- 1)) = DcProc 0 37"
    "\<not> IT_IS_REMOTE scn_waiting (DcProc 0 37)" "waiting_for scn_waiting (DcProc 0 37) 1"
    by (simp_all add: notify_defs scn_waiting_def scn_defs)
  moreover have "p_endpoint (procs scn_waiting (DcProc 0 36)) = 1" "p_nr (procs scn_waiting (DcProc 0 36)) = 1"
    "length (p_message (procs scn_waiting (DcProc 0 37))) = MSG_SIZE"
    "p_rts_flags (procs scn_waiting (DcProc 0 37)) = 8" "p_pseudosem (procs scn_waiting (DcProc 0 37)) = - 1"
    by (simp_all add: scn_waiting_def scn_defs zero_message_def)
  ultimately show ?thesis
    using notify_delivers [of scn_waiting 101 "DcProc 0 36" 2 _ "DcProc 0 37" scn_env "- 1", OF _ refl]
    by (auto simp: int32_def)
qed

end
