(* ===== verification/Vcopy.thy ===== *)
theory Vcopy
  imports Ipc_Notify
begin

text \<open>
  \<open>mm_vcopy\<close> (\<open>src/mol-module/mm_ipc.c\<close>): copying a block between two
  processes of the DC on behalf of a third, the source or the destination.  Two
  local processes are copied in place; otherwise a command per block goes to the
  sender proxy of the remote node and the requester sleeps until it is
  acknowledged.  The three descriptors are marked ONCOPY meanwhile.
\<close>

section \<open>The call\<close>

definition mm_mini_relay :: "int \<Rightarrow> addr \<Rightarrow> kstate \<Rightarrow> kstate \<times> outcome" where
  "mm_mini_relay dst_ep m_ptr s = (s, Return OK)"

definition tgid_of :: "kstate \<Rightarrow> pref \<Rightarrow> int" where
  "tgid_of s p = (case p_task (procs s p) of Some t \<Rightarrow> t_tgid (tasks s t) | None \<Rightarrow> - 1)"

text \<open>The check of the source (\<open>died = EMOLSRCDIED\<close>) or the destination.\<close>

definition vcopy_status :: "kstate \<Rightarrow> int \<Rightarrow> pref \<Rightarrow> pref \<Rightarrow> int \<Rightarrow> int \<Rightarrow> int" where
  "vcopy_status s dcid c p ep died =
    (if p_endpoint (procs s p) \<noteq> ep then EMOLENDPOINT
     else if rts s p BIT_SLOT_FREE then died
     else if rts s p BIT_ONCOPY then EMOLBUSY
     else if c \<noteq> p \<and> IT_IS_REMOTE s p \<and> rts s p BIT_RMTOPER then EMOLBUSY
     else if c \<noteq> p \<and> \<not> IT_IS_REMOTE s p \<and> \<not> rts s p BIT_RECEIVING then EMOLPROCSTS
     else if p_nodeid (procs s p) < 0 \<or> p_nodeid (procs s p) \<ge> d_nr_nodes (dvs s) then EMOLBADNODEID
     else if \<not> node_bit (p_nodeid (procs s p)) (dc_nodes (dc s dcid)) then EMOLNODCNODE
     else OK)"

text \<open>The end of the call: release the three descriptors, count the copy, and wake the parties
  whose own wait ended while they were being copied.\<close>

definition vcopy_release :: "vlocals \<Rightarrow> kstate \<Rightarrow> kstate" where
  "vcopy_release v s =
    (let c = vl_caller v; src = vl_src v; dst = vl_dst v;
         s1 = clear_rts BIT_ONCOPY src s;
         s2 = clear_rts BIT_ONCOPY dst s1;
         s3 = clear_rts BIT_ONCOPY c s2;
         s4 = (if c = src then
                 upd c (\<lambda>x. if IT_IS_REMOTE s3 dst then x\<lparr>p_rmtcopy := p_rmtcopy x + 1\<rparr>
                            else x\<lparr>p_lclcopy := p_lclcopy x + 1\<rparr>) s3 else s3)
     in if rts s4 c BIT_SIGNALED
        then upd c (init_proc_desc s4 (vl_dcid v) (vl_nr v + dc_nr_tasks (dc s4 (vl_dcid v)))) s4
        else s4)"

definition vcopy_wake :: "env \<Rightarrow> vlocals \<Rightarrow> int \<Rightarrow> kstate \<Rightarrow> kstate" where
  "vcopy_wake E v ret s =
    (let c = vl_caller v; src = vl_src v; dst = vl_dst v in
     if src \<noteq> c \<and> dst \<noteq> c then up_if_ready E dst ret (up_if_ready E src ret s)
     else if dst \<noteq> c then up_if_ready E dst ret s
     else up_if_ready E src ret s)"

definition vcopy_end :: "env \<Rightarrow> vlocals \<Rightarrow> int \<Rightarrow> kstate \<Rightarrow> kstate \<times> outcome" where
  "vcopy_end E v ret s =
    (let c = vl_caller v;
         (s1, ret1) = (if ret = OK then (s, p_rcode (procs s c))
            else (upd c (\<lambda>x. x\<lparr>p_proxy := NONE, p_rcode := ret\<rparr>) (clear_rts BIT_RMTOPER c s), ret));
         s2 = vcopy_release v s1
     in (vcopy_wake E v ret1 s2, Return ret1))"

text \<open>Both processes local: the block is copied in pieces of \<open>d_max_copybuf\<close>.  A zero
  \<open>d_max_copybuf\<close> makes no progress, and the loop comes back to the same point.\<close>

function vcopy_local :: "env \<Rightarrow> vlocals \<Rightarrow> kstate \<Rightarrow> kstate \<times> (int + vlocals)" where
  "vcopy_local E v s =
    (let bytes = vl_bytes v; m = d_max_copybuf (dvs s); copylen = (if bytes > m then m else bytes) in
     if bytes \<le> 0 then (s, Inl OK)
     else
      let (s1, ret) = copy_usr2usr E NONE (vl_src v) (vl_saddr v) (vl_dst v) (vl_daddr v) copylen s in
      if ret \<noteq> OK then (s1, Inl ret)
      else if copylen \<le> 0 then (s1, Inr v)
      else vcopy_local E (v\<lparr>vl_bytes := bytes - copylen, vl_saddr := vl_saddr v + of_int copylen,
             vl_daddr := vl_daddr v + of_int copylen\<rparr>) s1)"
  by pat_completeness auto
termination
  by (relation "measure (\<lambda>(_, v, _). nat (vl_bytes v))") auto

declare vcopy_local.simps [simp del]

text \<open>The command for the next block, for each of the three remote cases.\<close>

definition vcopy_len :: "vkind \<Rightarrow> vlocals \<Rightarrow> kstate \<Rightarrow> int" where
  "vcopy_len k v s =
    (let m = (case k of V_l2r \<Rightarrow> NODE2MAXBYTES s (p_nodeid (procs s (vl_dst v)))
              | V_r2l \<Rightarrow> NODE2MAXBYTES s (p_nodeid (procs s (vl_src v)))
              | V_r2r \<Rightarrow> d_max_copybuf (dvs s))
     in if vl_bytes v > m then m else vl_bytes v)"

definition vcopy_cmd :: "vkind \<Rightarrow> vlocals \<Rightarrow> int \<Rightarrow> kstate \<Rightarrow> cmd \<Rightarrow> cmd" where
  "vcopy_cmd k v copylen s x =
    (let src = procs s (vl_src v); dst = procs s (vl_dst v); c = procs s (vl_caller v);
         y = x\<lparr>c_dcid := p_dcid c, c_src := p_endpoint c, c_snode := local_nodeid s, c_rcode := OK,
               c_u := put_vcopy (p_endpoint src) (p_endpoint dst) (p_endpoint c)
                        (vl_saddr v) (vl_daddr v) copylen (c_u x)\<rparr>
     in case k of
          V_l2r \<Rightarrow> y\<lparr>c_cmd := CMD_COPYIN_DATA, c_dst := p_endpoint dst, c_dnode := p_nodeid dst, c_len := copylen\<rparr>
        | V_r2l \<Rightarrow> y\<lparr>c_cmd := CMD_COPYOUT_RQST, c_dst := p_endpoint src, c_dnode := p_nodeid src, c_len := 0\<rparr>
        | V_r2r \<Rightarrow>
            if p_nodeid src = p_nodeid dst
            then y\<lparr>c_cmd := CMD_COPYLCL_RQST, c_dst := p_endpoint dst, c_dnode := p_nodeid dst, c_len := 0\<rparr>
            else y\<lparr>c_cmd := CMD_COPYRMT_RQST, c_dst := p_endpoint src, c_dnode := p_nodeid src, c_len := 0\<rparr>)"

definition vcopy_three :: "vkind \<Rightarrow> vlocals \<Rightarrow> bool" where
  "vcopy_three k v = (case k of V_l2r \<Rightarrow> vl_src v \<noteq> vl_caller v | V_r2l \<Rightarrow> vl_dst v \<noteq> vl_caller v
     | V_r2r \<Rightarrow> True)"

text \<open>One turn of a remote loop.\<close>

definition vcopy_next :: "env \<Rightarrow> vkind \<Rightarrow> vlocals \<Rightarrow> kstate \<Rightarrow> kstate \<times> outcome" where
  "vcopy_next E k v s =
    (let c = vl_caller v; copylen = vcopy_len k v s in
     if vl_bytes v \<le> 0 then vcopy_end E v OK s
     else
      let s1 = set_cmd (vcopy_cmd k v copylen s) c s;
          s2 = set_rts BIT_RMTOPER c s1;
          (s3, ret) = sproxy_enqueue E c s2
      in if ret \<noteq> OK then vcopy_end E v ret s3
         else (fst (sleep_begin c TIMEOUT_MOLCALL s3), Block (PP_vcopy_rmt k v copylen (vcopy_three k v))))"

text \<open>After the sleep of a remote loop: the next block starts after the one acknowledged.\<close>

definition vcopy_rmt_post :: "env \<Rightarrow> vkind \<Rightarrow> vlocals \<Rightarrow> int \<Rightarrow> kstate \<Rightarrow> kstate \<times> outcome" where
  "vcopy_rmt_post E k v copylen s =
    (let ret = p_rcode (procs s (vl_caller v)) in
     if ret \<noteq> OK then vcopy_end E v ret s
     else vcopy_next E k (v\<lparr>vl_bytes := vl_bytes v - copylen, vl_saddr := vl_saddr v + of_int copylen,
            vl_daddr := vl_daddr v + of_int copylen\<rparr>) s)"

definition vcopy_lcl :: "env \<Rightarrow> vlocals \<Rightarrow> kstate \<Rightarrow> kstate \<times> outcome" where
  "vcopy_lcl E v s =
    (case vcopy_local E v s of
       (s1, Inl ret) \<Rightarrow> vcopy_end E v ret (upd (vl_caller v) (\<lambda>x. x\<lparr>p_rcode := ret\<rparr>) s1)
     | (s1, Inr v1) \<Rightarrow> (s1, Goto (PP_vcopy_lcl v1)))"

text \<open>The copy itself, once both parties have passed the checks.\<close>

definition vcopy_copy :: "env \<Rightarrow> vlocals \<Rightarrow> kstate \<Rightarrow> kstate \<times> outcome" where
  "vcopy_copy E v s =
    (let src = vl_src v; dst = vl_dst v in
     if \<not> IT_IS_REMOTE s src \<and> \<not> IT_IS_REMOTE s dst then
       if tgid_of s dst = tgid_of s src
       then vcopy_end E v EMOLPERM (upd (vl_caller v) (\<lambda>x. x\<lparr>p_rcode := EMOLPERM\<rparr>) s)
       else vcopy_lcl E v s
     else if \<not> IT_IS_REMOTE s src then
       let ret = proxy_status s (NODE2SPROXY s (p_nodeid (procs s dst)))
       in if ret \<noteq> OK then vcopy_end E v ret s else vcopy_next E V_l2r v s
     else if \<not> IT_IS_REMOTE s dst then
       let ret = proxy_status s (NODE2SPROXY s (p_nodeid (procs s src)))
       in if ret \<noteq> OK then vcopy_end E v ret s else vcopy_next E V_r2l v s
     else
       let ret = proxy_status s (NODE2SPROXY s (p_nodeid (procs s src)));
           ret1 = (if ret = OK then proxy_status s (NODE2SPROXY s (p_nodeid (procs s dst))) else ret)
       in if ret1 \<noteq> OK then vcopy_end E v ret1 s else vcopy_next E V_r2r v s)"

definition vcopy_mark :: "vlocals \<Rightarrow> kstate \<Rightarrow> kstate" where
  "vcopy_mark v s =
    (let s1 = set_rts BIT_ONCOPY (vl_caller v) s;
         s2 = set_rts BIT_ONCOPY (vl_src v) s1;
         s3 = set_rts BIT_ONCOPY (vl_dst v) s2
     in upd (vl_caller v) (\<lambda>x. x\<lparr>p_rcode := OK\<rparr>) s3)"

definition vcopy_wait_migr :: "vlocals \<Rightarrow> pref \<Rightarrow> int \<Rightarrow> bool \<Rightarrow> kstate \<Rightarrow> kstate \<times> outcome" where
  "vcopy_wait_migr v p ep three s =
    (let c = vl_caller v;
         s1 = set_rts BIT_WAITMIGR c s;
         s2 = upd c (\<lambda>x. x\<lparr>p_waitmigr := ep\<rparr>) s1;
         s3 = LIST_ADD_TAIL_M c p s2
     in (fst (sleep_begin c TIMEOUT_MOLCALL s3), Block (PP_vcopy_migr v three)))"

definition vcopy_check :: "env \<Rightarrow> vlocals \<Rightarrow> kstate \<Rightarrow> kstate \<times> outcome" where
  "vcopy_check E v s =
    (let c = vl_caller v; src = vl_src v; dst = vl_dst v;
         ret = vcopy_status s (vl_dcid v) c src (vl_src_ep v) EMOLSRCDIED;
         ret1 = vcopy_status s (vl_dcid v) c dst (vl_dst_ep v) EMOLDSTDIED in
     if ret \<noteq> OK then (s, Return ret)
     else if src \<noteq> c \<and> rts s src BIT_MIGRATE then vcopy_wait_migr v src (vl_src_ep v) (c \<noteq> dst) s
     else if ret1 \<noteq> OK then (s, Return ret1)
     else if dst \<noteq> c \<and> rts s dst BIT_MIGRATE then vcopy_wait_migr v dst (vl_dst_ep v) (c \<noteq> src) s
     else vcopy_copy E (v\<lparr>vl_nr := p_nr (procs s c)\<rparr>) (vcopy_mark v s))"

definition mm_vcopy_body ::
  "env \<Rightarrow> int \<Rightarrow> addr \<Rightarrow> int \<Rightarrow> addr \<Rightarrow> int \<Rightarrow> pref \<Rightarrow> int \<Rightarrow> kstate \<Rightarrow> kstate \<times> outcome" where
  "mm_vcopy_body E src_ep0 src_addr dst_ep0 dst_addr bytes c caller_pid s =
    (let caller_ep = p_endpoint (procs s c); dcid = p_dcid (procs s c);
         src_ep = (if src_ep0 = SELF then caller_ep else src_ep0);
         dst_ep = (if src_ep0 \<noteq> SELF \<and> dst_ep0 = SELF then caller_ep else dst_ep0);
         src_nr = ENDPOINT_P src_ep; dst_nr = ENDPOINT_P dst_ep in
     if src_ep = dst_ep \<or> src_ep = ANY \<or> dst_ep = ANY \<or> src_ep = NONE \<or> dst_ep = NONE
       then (s, Return EMOLENDPOINT)
     else if caller_pid \<noteq> p_lpid (procs s c) then (s, Return EMOLBADPID)
     else if dcid < 0 \<or> dcid \<ge> d_nr_dcs (dvs s) then (s, Return EMOLBADDCID)
     else if dc_flags (dc s dcid) \<noteq> 0 then (s, Return EMOLDCNOTRUN)
     else if src_nr < - dc_nr_tasks (dc s dcid) \<or> src_nr \<ge> dc_nr_procs (dc s dcid)
       then (s, Return EMOLRANGE)
     else if dst_nr < - dc_nr_tasks (dc s dcid) \<or> dst_nr \<ge> dc_nr_procs (dc s dcid)
       then (s, Return EMOLRANGE)
     else vcopy_check E
       \<lparr>vl_dcid = dcid, vl_nr = p_nr (procs s c), vl_caller = c, vl_src = NBR2PTR s dcid src_nr,
        vl_dst = NBR2PTR s dcid dst_nr, vl_src_ep = src_ep, vl_dst_ep = dst_ep,
        vl_saddr = src_addr, vl_daddr = dst_addr, vl_bytes = bytes\<rparr> s)"

definition mm_vcopy ::
  "env \<Rightarrow> int \<Rightarrow> int \<Rightarrow> addr \<Rightarrow> int \<Rightarrow> addr \<Rightarrow> int \<Rightarrow> kstate \<Rightarrow> kstate \<times> outcome" where
  "mm_vcopy E tid src_ep src_addr dst_ep dst_addr bytes s =
    (if t_euid (tasks s tid) \<noteq> USER_ROOT then (s, Return EPERM_NEG)
     else if bytes < 0 \<or> bytes > d_max_copylen (dvs s) then (s, Return EMOLRANGE)
     else if DVS_NOT_INIT s then (s, Return EMOLDVSINIT)
     else after_check (Vcopy src_ep src_addr dst_ep dst_addr bytes)
            (mm_vcopy_body E src_ep src_addr dst_ep dst_addr bytes) (check_caller tid s))"

section \<open>A local copy is one block copy\<close>

lemma mm_of_set_umem [simp]: "mm_of (set_umem mm m s) p = mm_of s p"
  by (simp add: mm_of_def split: option.split)

lemma set_umem_twice [simp]: "set_umem mm m (set_umem mm m' s) = set_umem mm m s"
  by (simp add: set_umem_def)

lemma pages_ok_prefix: "pages_ok E mm a n \<Longrightarrow> k \<le> n \<Longrightarrow> pages_ok E mm a k"
  by (simp add: pages_ok_def)

lemma split_block:
  assumes "k \<le> n" "n \<le> 2 ^ 32"
  shows "write_mem (da + of_nat k) (read_mem m (sa + of_nat k) (n - k)) (write_mem da (read_mem m sa k) m')
     = write_mem da (read_mem m sa n) m'"
  using assms write_mem_append [of "read_mem m sa k" "read_mem m (sa + of_nat k) (n - k)" k da m']
    read_mem_append [of m sa k "n - k"] by simp

lemma vcopy_local_block:
  assumes "0 \<le> vl_bytes v" "vl_bytes v \<le> MAXCOPYLEN" "0 < d_max_copybuf (dvs s)"
    "mm_of s (vl_src v) \<noteq> mm_of s (vl_dst v)"
    "pages_ok E (mm_of s (vl_src v)) (vl_saddr v) (nat (vl_bytes v))"
    "pages_ok E (mm_of s (vl_dst v)) (vl_daddr v) (nat (vl_bytes v))"
  shows "vcopy_local E v s =
    (set_umem (mm_of s (vl_dst v))
       (write_mem (vl_daddr v) (read_mem (umem s (mm_of s (vl_src v))) (vl_saddr v) (nat (vl_bytes v)))
         (umem s (mm_of s (vl_dst v)))) s, Inl OK)"
  using assms
proof (induction E v s rule: vcopy_local.induct)
  case (1 E v s)
  let ?n = "vl_bytes v" and ?S = "mm_of s (vl_src v)" and ?D = "mm_of s (vl_dst v)"
  let ?sa = "vl_saddr v" and ?da = "vl_daddr v"
  show ?case
  proof (cases "?n = 0")
    case True
    then show ?thesis by (simp add: vcopy_local.simps read_mem_def write_mem_def set_umem_def)
  next
    case False
    define k where "k = (if ?n > d_max_copybuf (dvs s) then d_max_copybuf (dvs s) else ?n)"
    have k: "0 < k" "k \<le> ?n" using False "1.prems" by (auto simp: k_def)
    let ?s1 = "set_umem ?D (write_mem ?da (read_mem (umem s ?S) ?sa (nat k)) (umem s ?D)) s"
    let ?v1 = "v\<lparr>vl_bytes := ?n - k, vl_saddr := ?sa + of_int k, vl_daddr := ?da + of_int k\<rparr>"
    have ofk: "(of_int k :: addr) = of_nat (nat k)" using k by simp
    have cp: "copy_usr2usr E NONE (vl_src v) ?sa (vl_dst v) ?da k s = (?s1, OK)"
      using k "1.prems" by (intro copy_block) (auto intro: pages_ok_prefix)
    have rest: "nat (?n - k) = nat ?n - nat k" using k by simp
    have "nat k \<le> nat ?n" using k by simp
    then have pg: "pages_ok E ?S (?sa + of_int k) (nat (?n - k))" "pages_ok E ?D (?da + of_int k) (nat (?n - k))"
      unfolding ofk rest using "1.prems"(5,6) by (blast intro: pages_ok_rest)+
    have "vcopy_local E v s = vcopy_local E ?v1 ?s1"
      using False k "1.prems"(1) cp by (subst vcopy_local.simps) (simp add: k_def [symmetric] Let_def)
    also have "\<dots> = (set_umem ?D (write_mem (?da + of_int k)
        (read_mem (umem ?s1 ?S) (?sa + of_int k) (nat (?n - k))) (umem ?s1 ?D)) ?s1, Inl OK)"
      using "1.IH" [OF refl refl k_def _ cp [symmetric] refl] False "1.prems" k pg by simp
    also have "umem ?s1 ?S = umem s ?S" using "1.prems"(4) by simp
    also have "write_mem (?da + of_int k) (read_mem (umem s ?S) (?sa + of_int k) (nat (?n - k))) (umem ?s1 ?D)
        = write_mem ?da (read_mem (umem s ?S) ?sa (nat ?n)) (umem s ?D)"
      unfolding ofk rest using split_block [of "nat k" "nat ?n" ?da "umem s ?S" ?sa "umem s ?D"] k "1.prems"(2)
      by simp
    finally show ?thesis by simp
  qed
qed

text \<open>The request of a vcopy whose parties passed the checks and are not migrating.\<close>

definition vcopy_ready :: "kstate \<Rightarrow> int \<Rightarrow> vlocals \<Rightarrow> bool" where
  "vcopy_ready s tid v \<longleftrightarrow> t_euid (tasks s tid) = USER_ROOT
     \<and> 0 \<le> vl_bytes v \<and> vl_bytes v \<le> d_max_copylen (dvs s) \<and> \<not> DVS_NOT_INIT s
     \<and> check_caller tid s = (s, Chk_ok (vl_caller v) (p_lpid (procs s (vl_caller v))))
     \<and> vl_dcid v = p_dcid (procs s (vl_caller v)) \<and> vl_nr v = p_nr (procs s (vl_caller v))
     \<and> 0 \<le> vl_dcid v \<and> vl_dcid v < d_nr_dcs (dvs s) \<and> dc_flags (dc s (vl_dcid v)) = 0
     \<and> - dc_nr_tasks (dc s (vl_dcid v)) \<le> ENDPOINT_P (vl_src_ep v)
     \<and> ENDPOINT_P (vl_src_ep v) < dc_nr_procs (dc s (vl_dcid v))
     \<and> - dc_nr_tasks (dc s (vl_dcid v)) \<le> ENDPOINT_P (vl_dst_ep v)
     \<and> ENDPOINT_P (vl_dst_ep v) < dc_nr_procs (dc s (vl_dcid v))
     \<and> vl_src v = NBR2PTR s (vl_dcid v) (ENDPOINT_P (vl_src_ep v))
     \<and> vl_dst v = NBR2PTR s (vl_dcid v) (ENDPOINT_P (vl_dst_ep v))
     \<and> vl_src_ep v \<noteq> vl_dst_ep v \<and> {vl_src_ep v, vl_dst_ep v} \<inter> {ANY, NONE, SELF} = {}
     \<and> vcopy_status s (vl_dcid v) (vl_caller v) (vl_src v) (vl_src_ep v) EMOLSRCDIED = OK
     \<and> vcopy_status s (vl_dcid v) (vl_caller v) (vl_dst v) (vl_dst_ep v) EMOLDSTDIED = OK
     \<and> (vl_src v = vl_caller v \<or> \<not> rts s (vl_src v) BIT_MIGRATE)
     \<and> (vl_dst v = vl_caller v \<or> \<not> rts s (vl_dst v) BIT_MIGRATE)"

lemma mm_vcopy_ready:
  "vcopy_ready s tid v \<Longrightarrow>
   mm_vcopy E tid (vl_src_ep v) (vl_saddr v) (vl_dst_ep v) (vl_daddr v) (vl_bytes v) s =
     vcopy_copy E v (vcopy_mark v s)"
  by (cases v) (auto simp: vcopy_ready_def mm_vcopy_def after_check_def mm_vcopy_body_def
      vcopy_check_def Let_def)

lemma vcopy_status_ok:
  "vcopy_status s dcid c p ep died = OK \<Longrightarrow> died \<noteq> OK \<Longrightarrow> \<not> rts s p BIT_ONCOPY \<and> p_endpoint (procs s p) = ep"
  by (auto simp: vcopy_status_def split: if_splits)

lemma vcopy_mark_frame [simp]:
  "dvs (vcopy_mark v s) = dvs s" "dc (vcopy_mark v s) = dc s" "umem (vcopy_mark v s) = umem s"
  "tasks (vcopy_mark v s) = tasks s" "mm_of (vcopy_mark v s) p = mm_of s p"
  "tgid_of (vcopy_mark v s) p = tgid_of s p"
  "p_list (procs (vcopy_mark v s) p) = p_list (procs s p)"
  "p_rcode (procs (vcopy_mark v s) (vl_caller v)) = OK"
  "IT_IS_REMOTE (vcopy_mark v s) p = IT_IS_REMOTE s p"
  by (simp_all add: vcopy_mark_def Let_def mm_of_def tgid_of_def IT_IS_REMOTE_def split: option.split)

lemma vcopy_mark_flags:
  "p_rts_flags (procs (vcopy_mark v s) q) =
    (if q \<in> {vl_caller v, vl_src v, vl_dst v} then set_bit BIT_ONCOPY (p_rts_flags (procs s q))
     else p_rts_flags (procs s q))"
  by (auto simp: vcopy_mark_def Let_def intro: bit_word_eqI)

lemma vcopy_wake_fields [simp]:
  "p_rts_flags (procs (vcopy_wake E v r s) q) = p_rts_flags (procs s q)"
  "p_list (procs (vcopy_wake E v r s) q) = p_list (procs s q)"
  "umem (vcopy_wake E v r s) = umem s"
  by (simp_all add: vcopy_wake_def Let_def)

lemma vcopy_release_flags:
  assumes "\<not> rts s (vl_caller v) BIT_SIGNALED"
  shows "p_rts_flags (procs (vcopy_release v s) q) =
    (if q \<in> {vl_caller v, vl_src v, vl_dst v} then unset_bit BIT_ONCOPY (p_rts_flags (procs s q))
     else p_rts_flags (procs s q))"
    "p_list (procs (vcopy_release v s) q) = p_list (procs s q)"
    "umem (vcopy_release v s) = umem s"
  using assms by (auto simp: vcopy_release_def Let_def intro: bit_word_eqI)

text \<open>C31: a vcopy between two local processes in different address spaces, requested by root
  (whoever of the three the requester is), returns OK and has the effect of one block copy however
  many pieces it is cut into: exactly the destination range changes, to the source bytes; every
  process ends with the status flags it had, so no one is left marked ONCOPY, and no queue changes.\<close>

theorem vcopy_local_copies:
  assumes ready: "vcopy_ready s tid v"
    and lcl: "\<not> IT_IS_REMOTE s (vl_src v)" "\<not> IT_IS_REMOTE s (vl_dst v)"
    and tg: "tgid_of s (vl_dst v) \<noteq> tgid_of s (vl_src v)" "mm_of s (vl_src v) \<noteq> mm_of s (vl_dst v)"
    and lim: "0 < d_max_copybuf (dvs s)" "d_max_copylen (dvs s) \<le> MAXCOPYLEN"
    and pg: "pages_ok E (mm_of s (vl_src v)) (vl_saddr v) (nat (vl_bytes v))"
      "pages_ok E (mm_of s (vl_dst v)) (vl_daddr v) (nat (vl_bytes v))"
    and idle: "p_rts_flags (procs s (vl_caller v)) = 0"
  shows "\<exists>s'. mm_vcopy E tid (vl_src_ep v) (vl_saddr v) (vl_dst_ep v) (vl_daddr v) (vl_bytes v) s
          = (s', Return OK)
    \<and> umem s' = (umem s)(mm_of s (vl_dst v) := write_mem (vl_daddr v)
        (read_mem (umem s (mm_of s (vl_src v))) (vl_saddr v) (nat (vl_bytes v))) (umem s (mm_of s (vl_dst v))))
    \<and> (\<forall>q. p_rts_flags (procs s' q) = p_rts_flags (procs s q))
    \<and> (\<forall>q. p_list (procs s' q) = p_list (procs s q))"
proof -
  let ?D = "mm_of s (vl_dst v)" and ?c = "vl_caller v"
  let ?m = "write_mem (vl_daddr v) (read_mem (umem s (mm_of s (vl_src v))) (vl_saddr v) (nat (vl_bytes v)))
      (umem s ?D)"
  let ?s1 = "set_umem ?D ?m (vcopy_mark v s)"
  let ?s2 = "upd ?c (\<lambda>x. x\<lparr>p_rcode := OK\<rparr>) ?s1"
  have n: "0 \<le> vl_bytes v" "vl_bytes v \<le> MAXCOPYLEN" using ready lim(2) by (auto simp: vcopy_ready_def)
  have loop: "vcopy_local E v (vcopy_mark v s) = (?s1, Inl OK)"
    using n lim(1) tg(2) pg by (subst vcopy_local_block) simp_all
  have call: "mm_vcopy E tid (vl_src_ep v) (vl_saddr v) (vl_dst_ep v) (vl_daddr v) (vl_bytes v) s
      = (vcopy_wake E v OK (vcopy_release v ?s2), Return OK)"
    using lcl tg(1) loop
    by (simp add: mm_vcopy_ready [OF ready] vcopy_copy_def vcopy_lcl_def vcopy_end_def)
  have free: "\<not> rts s q BIT_ONCOPY" if "q \<in> {?c, vl_src v, vl_dst v}" for q
    using that ready idle by (auto simp: vcopy_ready_def dest: vcopy_status_ok)
  have sig: "\<not> rts ?s2 ?c BIT_SIGNALED" using idle by (simp add: vcopy_mark_flags)
  have flags: "p_rts_flags (procs (vcopy_release v ?s2) q) = p_rts_flags (procs s q)" for q
    using free [of q] by (auto simp: vcopy_release_flags(1) [OF sig] vcopy_mark_flags unset_set_bit)
  show ?thesis unfolding call using flags by (simp add: vcopy_release_flags(2,3) [OF sig])
qed

text \<open>Process 1 copies 100000 bytes, two pieces, of its own memory to process 2.\<close>

definition scn_vcopy :: vlocals where
  "scn_vcopy = \<lparr>vl_dcid = 0, vl_nr = 1, vl_caller = DcProc 0 36, vl_src = DcProc 0 36,
     vl_dst = DcProc 0 37, vl_src_ep = 1, vl_dst_ep = 2, vl_saddr = 8192, vl_daddr = 4096,
     vl_bytes = 100000\<rparr>"

theorem vcopy_local_copies_witness:
  "\<exists>s'. mm_vcopy scn_env 101 1 8192 2 4096 100000 scn_waiting = (s', Return OK)
    \<and> umem s' = (umem scn_waiting)(102 := write_mem 4096 (read_mem (umem scn_waiting 101) 8192 100000)
        (umem scn_waiting 102))
    \<and> (\<forall>q. p_rts_flags (procs s' q) = p_rts_flags (procs scn_waiting q))"
proof -
  have "vcopy_ready scn_waiting 101 scn_vcopy"
    by (simp add: vcopy_ready_def scn_vcopy_def scn_waiting_def scn_defs check_defs vcopy_status_def
        NBR2PTR_def IT_IS_REMOTE_def node_bit_def)
  moreover have "\<not> IT_IS_REMOTE scn_waiting (vl_src scn_vcopy)" "\<not> IT_IS_REMOTE scn_waiting (vl_dst scn_vcopy)"
    by (simp_all add: scn_vcopy_def scn_waiting_def scn_defs IT_IS_REMOTE_def)
  moreover have "tgid_of scn_waiting (vl_dst scn_vcopy) = 102" "tgid_of scn_waiting (vl_src scn_vcopy) = 101"
    "mm_of scn_waiting (vl_dst scn_vcopy) = 102" "mm_of scn_waiting (vl_src scn_vcopy) = 101"
    "d_max_copybuf (dvs scn_waiting) = 65536" "d_max_copylen (dvs scn_waiting) = 1048576"
    "p_rts_flags (procs scn_waiting (vl_caller scn_vcopy)) = 0"
    by (simp_all add: scn_vcopy_def scn_waiting_def scn_defs tgid_of_def mm_of_def)
  ultimately show ?thesis
    using vcopy_local_copies [of scn_waiting 101 scn_vcopy scn_env] by (auto simp: scn_vcopy_def)
qed

section \<open>Remote copies\<close>

text \<open>A remote copy whose block is refused or times out stops there: the call returns the code
  it was woken with, sends no further block (no queue changes), and none of the three processes stays
  marked ONCOPY, nor the requester as having a remote operation in progress.\<close>

theorem vcopy_remote_failure_releases:
  assumes "p_rcode (procs s (vl_caller v)) = ret" "ret \<noteq> OK" "\<not> rts s (vl_caller v) BIT_SIGNALED"
  shows "\<exists>s'. vcopy_rmt_post E k v copylen s = (s', Return ret)
    \<and> \<not> rts s' (vl_caller v) BIT_ONCOPY \<and> \<not> rts s' (vl_src v) BIT_ONCOPY \<and> \<not> rts s' (vl_dst v) BIT_ONCOPY
    \<and> \<not> rts s' (vl_caller v) BIT_RMTOPER
    \<and> (\<forall>q. p_list (procs s' q) = p_list (procs s q)) \<and> umem s' = umem s"
  using assms by (simp add: vcopy_rmt_post_def vcopy_end_def vcopy_release_flags Let_def)

theorem vcopy_remote_failure_releases_witness:
  "\<exists>s'. vcopy_rmt_post scn_env V_l2r scn_vcopy 65536
      (upd (DcProc 0 36) (\<lambda>x. x\<lparr>p_rcode := EMOLTIMEDOUT\<rparr>) (vcopy_mark scn_vcopy scn_waiting))
      = (s', Return EMOLTIMEDOUT) \<and> \<not> rts s' (DcProc 0 37) BIT_ONCOPY"
proof -
  let ?s = "upd (DcProc 0 36) (\<lambda>x. x\<lparr>p_rcode := EMOLTIMEDOUT\<rparr>) (vcopy_mark scn_vcopy scn_waiting)"
  have "p_rcode (procs ?s (vl_caller scn_vcopy)) = EMOLTIMEDOUT"
    "\<not> rts ?s (vl_caller scn_vcopy) BIT_SIGNALED"
    by (simp_all add: vcopy_mark_flags scn_vcopy_def scn_waiting_def scn_defs)
  from vcopy_remote_failure_releases [OF this(1) _ this(2), of scn_env V_l2r 65536]
  show ?thesis by (auto simp: scn_vcopy_def)
qed

text \<open>When the sender proxy of the remote node is bound, each turn of a remote loop queues one
  command at its tail and the requester sleeps on it; the command carries the three endpoints and
  the current source and destination addresses and the length of the block, at most what is left to
  copy and, for data sent or asked for directly, at most what the proxies of that node accept.\<close>

theorem vcopy_remote_block:
  assumes "0 < vl_bytes v" "vl_caller v = DcProc i j"
    and px: "sp = NODE2SPROXY s (c_dnode (vcopy_cmd k v n s (p_rmtcmd (procs s (vl_caller v)))))"
      "p_rts_flags (procs s sp) \<noteq> SLOT_FREE"
    and n: "n = vcopy_len k v s"
    and i32: "int32 (p_endpoint (procs s (vl_src v)))" "int32 (p_endpoint (procs s (vl_dst v)))"
      "int32 (p_endpoint (procs s (vl_caller v)))" "int32 n"
  shows "\<exists>s'. vcopy_next E k v s = (s', Block (PP_vcopy_rmt k v n (vcopy_three k v)))
    \<and> p_list (procs s' sp) = p_list (procs s sp) @ [vl_caller v] \<and> n \<le> vl_bytes v
    \<and> (k = V_l2r \<longrightarrow> n \<le> NODE2MAXBYTES s (p_nodeid (procs s (vl_dst v))))
    \<and> (k = V_r2l \<longrightarrow> n \<le> NODE2MAXBYTES s (p_nodeid (procs s (vl_src v))))
    \<and> (let u = c_u (p_rmtcmd (procs s' (vl_caller v))) in
        v_src u = p_endpoint (procs s (vl_src v)) \<and> v_dst u = p_endpoint (procs s (vl_dst v))
        \<and> v_rqtr u = p_endpoint (procs s (vl_caller v)) \<and> v_saddr u = vl_saddr v \<and> v_daddr u = vl_daddr v
        \<and> v_bytes u = n)
    \<and> rts s' (vl_caller v) BIT_RMTOPER \<and> p_pseudosem (procs s' (vl_caller v)) = - 1"
proof -
  let ?c = "vl_caller v"
  let ?s2 = "set_rts BIT_RMTOPER ?c (set_cmd (vcopy_cmd k v n s) ?c s)"
  have cne: "sp \<noteq> ?c" using assms(2) px(1) by (simp add: NODE2SPROXY_def)
  have sp: "NODE2SPROXY ?s2 (c_dnode (p_rmtcmd (procs ?s2 ?c))) = sp" using px(1) by simp
  have free: "p_rts_flags (procs ?s2 (NODE2SPROXY ?s2 (c_dnode (p_rmtcmd (procs ?s2 ?c))))) \<noteq> SLOT_FREE"
    unfolding sp using px(2) cne by simp
  have enq: "snd (sproxy_enqueue E ?c ?s2) = OK" using free by (simp add: sproxy_enqueue_def Let_def)
  let ?s3 = "fst (sproxy_enqueue E ?c ?s2)"
  have call: "vcopy_next E k v s = (upd ?c (\<lambda>x. x\<lparr>p_pseudosem := - 1, p_rcode := OK\<rparr>) ?s3,
      Block (PP_vcopy_rmt k v n (vcopy_three k v)))"
    using assms(1) n enq by (simp add: vcopy_next_def sleep_begin_def split_beta Let_def)
  have u: "c_u (vcopy_cmd k v n s x) = put_vcopy (p_endpoint (procs s (vl_src v))) (p_endpoint (procs s (vl_dst v)))
      (p_endpoint (procs s ?c)) (vl_saddr v) (vl_daddr v) n (c_u x)" for x
    by (simp add: vcopy_cmd_def Let_def split: vkind.split)
  have "p_list (procs ?s3 sp) = p_list (procs s sp) @ [?c]"
    using sproxy_enqueue_list [OF free, of E sp] cne unfolding sp by simp
  moreover have "n \<le> vl_bytes v \<and> (k = V_l2r \<longrightarrow> n \<le> NODE2MAXBYTES s (p_nodeid (procs s (vl_dst v))))
    \<and> (k = V_r2l \<longrightarrow> n \<le> NODE2MAXBYTES s (p_nodeid (procs s (vl_src v))))"
    by (simp add: n vcopy_len_def Let_def)
  moreover have "rts ?s3 ?c BIT_RMTOPER" using assms(2) by simp
  ultimately show ?thesis
    unfolding call using cne by (simp add: Let_def u vcopy_fields i32)
qed

theorem vcopy_remote_block_witness:
  "\<exists>s'. vcopy_next scn_env V_l2r (scn_vcopy\<lparr>vl_dst := DcProc 0 40, vl_dst_ep := 5\<rparr>) scn
      = (s', Block (PP_vcopy_rmt V_l2r (scn_vcopy\<lparr>vl_dst := DcProc 0 40, vl_dst_ep := 5\<rparr>) 65536 False))
    \<and> p_list (procs s' (Sproxy 1)) = [DcProc 0 36]"
proof -
  let ?v = "scn_vcopy\<lparr>vl_dst := DcProc 0 40, vl_dst_ep := 5\<rparr>"
  have sp: "NODE2SPROXY scn (c_dnode (vcopy_cmd V_l2r ?v 65536 scn (p_rmtcmd (procs scn (vl_caller ?v))))) = Sproxy 1"
    by (simp add: NODE2SPROXY_def vcopy_cmd_def scn_vcopy_def scn_defs)
  have "vcopy_len V_l2r ?v scn = 65536" "vcopy_three V_l2r ?v = False"
    by (simp_all add: vcopy_len_def vcopy_three_def NODE2MAXBYTES_def scn_vcopy_def scn_defs)
  moreover have "p_rts_flags (procs scn (Sproxy 1)) \<noteq> SLOT_FREE" "p_list (procs scn (Sproxy 1)) = []"
    "p_endpoint (procs scn (vl_src ?v)) = 1" "p_endpoint (procs scn (vl_dst ?v)) = 5"
    "p_endpoint (procs scn (vl_caller ?v)) = 1" "vl_caller ?v = DcProc 0 36" "vl_bytes ?v = 100000"
    by (simp_all add: scn_vcopy_def scn_defs)
  ultimately show ?thesis
    using vcopy_remote_block [of ?v 0 36 _ scn V_l2r 65536 scn_env, OF _ _ sp [symmetric]]
    by (auto simp: int32_def)
qed

end
