(* ===== verification/Unbind.thy ===== *)
theory Unbind
  imports Vcopy
begin

text \<open>
  Leaving the system: \<open>do_unbind\<close> and \<open>mm_wakeup\<close> of
  \<open>src/mol-module/mm_hyper.c\<close>, with \<open>dc_release\<close>, and the flushing of the
  processes that wait for a dead node (\<open>flush_sending_procs\<close> and
  \<open>flush_receiving_procs\<close> of \<open>src/mol-module/mm_utils.c\<close>).
\<close>

section \<open>Reference counting of a DC\<close>

definition dc_release :: "int \<Rightarrow> kstate \<Rightarrow> kstate" where
  "dc_release d s =
    (let dcid = dc_dcid (dc s d);
         s1 = s\<lparr>dc := (dc s)(d := (dc s d)\<lparr>dc_nodes := 0\<rparr>)\<rparr>;
         s2 = s1\<lparr>node := (\<lambda>n. if 0 \<le> n \<and> n < d_nr_nodes (dvs s1) \<and> n_flags (node s1 n) \<noteq> 0
                then (node s1 n)\<lparr>n_dcs := unset_bit (nat dcid) (n_dcs (node s1 n))\<rparr> else node s1 n)\<rparr>
     in s2\<lparr>dc := (dc s2)(d := (dc s2 d)\<lparr>dc_flags := DC_FREE\<rparr>)\<rparr>)"

definition DC_INCREF :: "int \<Rightarrow> kstate \<Rightarrow> kstate" where
  "DC_INCREF d s = s\<lparr>dc := (dc s)(d := (dc s d)\<lparr>dc_kref := dc_kref (dc s d) + 1\<rparr>)\<rparr>"

definition DC_DECREF :: "int \<Rightarrow> kstate \<Rightarrow> kstate" where
  "DC_DECREF d s =
    (let s1 = s\<lparr>dc := (dc s)(d := (dc s d)\<lparr>dc_kref := dc_kref (dc s d) - 1\<rparr>)\<rparr>
     in if dc_kref (dc s1 d) = 0 then dc_release d s1 else s1)"

definition nr_slots :: "kstate \<Rightarrow> int \<Rightarrow> int" where
  "nr_slots s d = dc_nr_tasks (dc s d) + dc_nr_procs (dc s d)"

section \<open>do_unbind\<close>

text \<open>A process waiting for \<open>p\<close> is woken with a code, or its node told so.\<close>

definition wake_or_ack :: "env \<Rightarrow> pref \<Rightarrow> pref \<Rightarrow> int \<Rightarrow> kstate \<Rightarrow> kstate" where
  "wake_or_ack E q p rcode s =
    (if \<not> IT_IS_REMOTE s q then LOCAL_PROC_UP E q rcode s
     else fst (generic_ack_lcl2rmt E CMD_SEND_ACK q p rcode s))"

definition unbind_sender :: "env \<Rightarrow> pref \<Rightarrow> pref \<Rightarrow> kstate \<Rightarrow> kstate" where
  "unbind_sender E p q s =
     wake_or_ack E q p EMOLDSTDIED (clear_rts BIT_SENDING q (LIST_DEL_INIT q s))"

text \<open>Entry \<open>i\<close> of the table: forget the notifications of \<open>p\<close> and stop waiting for it.\<close>

definition unbind_slot :: "env \<Rightarrow> int \<Rightarrow> pref \<Rightarrow> int \<Rightarrow> kstate \<Rightarrow> kstate" where
  "unbind_slot E d p i s =
    (let rp = DcProc d i; sid = s_id (p_priv (procs s p)) in
     if rp = p \<or> rts s rp BIT_SLOT_FREE then s
     else
      let s1 = (if sid < dc_nr_sysprocs (dc s d)
                   \<and> get_sys_bit (s_notify_pending (p_priv (procs s rp))) (nat sid)
                then upd rp (\<lambda>x. x\<lparr>p_priv := (p_priv x)\<lparr>s_notify_pending :=
                       unset_sys_bit (nat sid) (s_notify_pending (p_priv x))\<rparr>\<rparr>) s else s)
      in if \<not> rts s1 rp BIT_SENDING \<and> rts s1 rp BIT_RECEIVING
            \<and> p_getfrom (procs s1 rp) = p_endpoint (procs s1 p)
         then if \<not> IT_IS_REMOTE s1 rp then LOCAL_PROC_UP E rp EMOLSRCDIED s1
              else fst (generic_ack_lcl2rmt E CMD_SNDREC_ACK rp p EMOLSRCDIED
                          (clear_rts BIT_RECEIVING rp s1))
         else s1)"

text \<open>Taking \<open>p\<close> itself off the queues it waits on.  The code looks the peer up at index
  \<open>_ENDPOINT_P(ep) - nr_tasks\<close>.\<close>

definition unbind_links :: "int \<Rightarrow> pref \<Rightarrow> kstate \<Rightarrow> kstate" where
  "unbind_links d p s =
    (let nt = dc_nr_tasks (dc s d);
         s1 = (if rts s p BIT_RMTOPER then
                 let s' = (if p_proxy (procs s p) \<noteq> NONE then LIST_DEL_INIT p s else s)
                 in upd p (\<lambda>x. x\<lparr>p_proxy := NONE\<rparr>) (clear_rts BIT_RMTOPER p s')
               else s);
         s2 = (if rts s1 p BIT_SENDING then
                 let rp = DcProc d (ENDPOINT_P (p_sendto (procs s1 p)) - nt);
                     s' = (if \<not> IT_IS_REMOTE s1 rp then LIST_DEL_INIT p s1 else s1)
                 in upd p (\<lambda>x. x\<lparr>p_sendto := NONE\<rparr>) (clear_rts BIT_SENDING p s')
               else s1)
     in if rts s2 p BIT_WAITMIGR
        then upd p (\<lambda>x. x\<lparr>p_waitmigr := NONE\<rparr>) (clear_rts BIT_WAITMIGR p (LIST_DEL_INIT_M p s2))
        else s2)"

definition unbind_migr :: "env \<Rightarrow> pref \<Rightarrow> pref \<Rightarrow> kstate \<Rightarrow> kstate" where
  "unbind_migr E p q s =
     wake_or_ack E q p EMOLNOTBIND
       (upd q (\<lambda>x. x\<lparr>p_waitmigr := NONE\<rparr>) (clear_rts BIT_WAITMIGR q (LIST_DEL_INIT_M q s)))"

definition unbind_ulink :: "pref \<Rightarrow> kstate \<Rightarrow> kstate" where
  "unbind_ulink p s =
    (if rts s p BIT_WAITUNBIND
     then upd p (\<lambda>x. x\<lparr>p_waitunbind := NONE\<rparr>) (clear_rts BIT_WAITUNBIND p (LIST_DEL_INIT_U p s))
     else s)"

definition unbind_waiter :: "env \<Rightarrow> pref \<Rightarrow> pref \<Rightarrow> kstate \<Rightarrow> kstate" where
  "unbind_waiter E p q s =
     wake_or_ack E q p OK
       (upd q (\<lambda>x. x\<lparr>p_waitunbind := NONE\<rparr>) (clear_rts BIT_WAITUNBIND q (LIST_DEL_INIT_U q s)))"

definition unbind_free :: "int \<Rightarrow> pref \<Rightarrow> kstate \<Rightarrow> kstate" where
  "unbind_free d p s =
     DC_DECREF d (upd p (init_proc_desc s (p_dcid (procs s p))
       (p_nr (procs s p) + dc_nr_tasks (dc s d))) s)"

text \<open>The part that detaches the process from everyone else.\<close>

definition unbind_detach :: "env \<Rightarrow> int \<Rightarrow> pref \<Rightarrow> kstate \<Rightarrow> kstate" where
  "unbind_detach E d p s =
    (let s1 = fold (unbind_sender E p) (p_list (procs s p)) s;
         s2 = fold (unbind_slot E d p) [0..nr_slots s1 d - 1] s1;
         s3 = unbind_links d p s2;
         s4 = fold (unbind_migr E p) (p_mlist (procs s3 p)) s3;
         s5 = unbind_ulink p s4
     in fold (unbind_waiter E p) (p_ulist (procs s5 p)) s5)"

definition unbind_check :: "int \<Rightarrow> int \<Rightarrow> pref \<Rightarrow> kstate \<Rightarrow> int" where
  "unbind_check tid d p s =
    (let dcid = dc_dcid (dc s d) in
     if rts s p BIT_SLOT_FREE then EMOLNOTBIND
     else if rts s p BIT_NO_ENDPOINT then EMOLENDPOINT
     else if mis s p MIS_BIT_PROXY then EMOLBADPROC
     else if p_dcid (procs s p) \<noteq> dcid then EMOLBADDCID
     else if \<not> node_bit (p_nodeid (procs s p)) (dc_nodes (dc s d)) then EMOLNODCNODE
     else case t_proc (tasks s tid) of
            None \<Rightarrow> OK
          | Some c \<Rightarrow> if p_dcid (procs s c) \<noteq> dcid then EMOLBADDCID
                      else if tid \<noteq> p_lpid (procs s c) then EMOLBADPID else OK)"

text \<open>Another local process is only asked to unbind itself.  The test of the source is
  \<open>p_rts_flags && (...)\<close>, true whenever any flag is set.\<close>

definition unbind_other :: "env \<Rightarrow> pref \<Rightarrow> kstate \<Rightarrow> kstate \<times> int" where
  "unbind_other E p s =
    (if rts s p BIT_ONCOPY
     then ((if rts s p BIT_RMTOPER then set_rts BIT_SIGNALED p s else s), OK)
     else let rc = e_sendsig E (p_task (procs s p)) in
       if rc \<noteq> 0 then (s, rc)
       else ((if p_rts_flags (procs s p) \<noteq> 0 then LOCAL_PROC_UP E p EMOLSHUTDOWN s else s), EMOLAGAIN))"

definition do_unbind :: "env \<Rightarrow> int \<Rightarrow> int \<Rightarrow> pref \<Rightarrow> kstate \<Rightarrow> kstate \<times> int" where
  "do_unbind E tid d p s =
    (let rcode = unbind_check tid d p s in
     if rcode \<noteq> OK then (s, rcode)
     else if \<not> IT_IS_REMOTE s p \<and> t_proc (tasks s tid) \<noteq> Some p then unbind_other E p s
     else if IT_IS_REMOTE s p \<and> mis s p MIS_BIT_RMTBACKUP then (unbind_free d p s, OK)
     else (unbind_free d p (unbind_detach E d p s), OK))"

section \<open>Flushing\<close>

definition flush_kind :: "pref \<Rightarrow> kstate \<Rightarrow> kstate option" where
  "flush_kind q s =
    (let cmd = c_cmd (p_rmtcmd (procs s q)) in
     if cmd = CMD_SNDREC_MSG then
       Some (upd q (\<lambda>x. x\<lparr>p_sendto := NONE\<rparr>) (clear_rts BIT_SENDING q
         (upd q (\<lambda>x. x\<lparr>p_getfrom := NONE\<rparr>) (clear_rts BIT_RECEIVING q s))))
     else if cmd \<in> {CMD_SEND_MSG, CMD_NTFY_MSG, CMD_REPLY_MSG} then
       Some (upd q (\<lambda>x. x\<lparr>p_sendto := NONE\<rparr>) (clear_rts BIT_SENDING q s))
     else if cmd \<in> {CMD_COPYIN_DATA, CMD_COPYIN_RQST, CMD_COPYLCL_RQST, CMD_COPYRMT_RQST} then
       Some (if rts s q BIT_ONCOPY \<and> p_endpoint (procs s q) = v_rqtr (c_u (p_rmtcmd (procs s q)))
             then clear_rts BIT_ONCOPY q s else s)
     else None)"

text \<open>One descriptor of the queue; the flag says that the command was a bad one, which stops the
  walk.\<close>

definition flush_sender :: "env \<Rightarrow> int \<Rightarrow> pref \<Rightarrow> kstate \<Rightarrow> kstate \<times> bool" where
  "flush_sender E nodeid q s =
    (if c_dnode (p_rmtcmd (procs s q)) \<noteq> nodeid then (s, False)
     else
      let s1 = LIST_DEL_INIT q s;
          s2 = clear_rts BIT_RMTOPER q (upd q (\<lambda>x. x\<lparr>p_proxy := NONE\<rparr>) s1)
      in if IT_IS_REMOTE s2 q
         then (upd q (\<lambda>x. x\<lparr>p_rts_flags := REMOTE, p_getfrom := NONE, p_sendto := NONE\<rparr>) s2, False)
         else case flush_kind q s2 of
                None \<Rightarrow> (s2, True)
              | Some s3 \<Rightarrow> (up_if_ready E q EMOLNOTCONN s3, False))"

fun flush_senders :: "env \<Rightarrow> int \<Rightarrow> pref list \<Rightarrow> kstate \<Rightarrow> kstate \<times> int" where
  "flush_senders E nodeid [] s = (s, OK)"
| "flush_senders E nodeid (q # qs) s =
    (case flush_sender E nodeid q s of
       (s1, True) \<Rightarrow> (s1, EMOLBADREQUEST)
     | (s1, False) \<Rightarrow> flush_senders E nodeid qs s1)"

definition flush_sending_procs :: "env \<Rightarrow> int \<Rightarrow> pref \<Rightarrow> kstate \<Rightarrow> kstate \<times> int" where
  "flush_sending_procs E nodeid sp s = flush_senders E nodeid (p_list (procs s sp)) s"

definition flush_bit :: "env \<Rightarrow> nat \<Rightarrow> pref \<Rightarrow> kstate \<Rightarrow> kstate" where
  "flush_bit E b q s =
    (let s1 = clear_rts b q s in
     if p_rts_flags (procs s1 q) = PROC_RUNNING then LOCAL_PROC_UP E q EMOLNOTCONN s1 else s1)"

definition flush_receiver :: "env \<Rightarrow> int \<Rightarrow> int \<Rightarrow> int \<Rightarrow> kstate \<Rightarrow> kstate" where
  "flush_receiver E nodeid d i s =
    (let q = DcProc d i in
     if rts s q BIT_SLOT_FREE \<or> IT_IS_REMOTE s q then s
     else
      let s1 = upd q (\<lambda>x. x\<lparr>p_rcode := EMOLNOTCONN\<rparr>) s;
          s2 = (if rts s1 q BIT_RECEIVING \<and> p_getfrom (procs s1 q) \<noteq> ANY \<and> p_getfrom (procs s1 q) \<noteq> NONE
                   \<and> nodeid = p_nodeid (procs s1 (ENDPOINT2PTR s1 d (p_getfrom (procs s1 q))))
                then flush_bit E BIT_RECEIVING q s1 else s1);
          s3 = (if rts s2 q BIT_SENDING \<and> p_sendto (procs s2 q) \<noteq> ANY \<and> p_sendto (procs s2 q) \<noteq> NONE
                   \<and> nodeid = p_nodeid (procs s2 (ENDPOINT2PTR s2 d (p_sendto (procs s2 q))))
                then flush_bit E BIT_SENDING q s2 else s2)
      in if rts s3 q BIT_ONCOPY \<and> p_endpoint (procs s3 q) = v_rqtr (c_u (p_rmtcmd (procs s3 q)))
            \<and> nodeid = c_dnode (p_rmtcmd (procs s3 q))
         then flush_bit E BIT_ONCOPY q s3 else s3)"

definition flush_dc :: "env \<Rightarrow> int \<Rightarrow> int \<Rightarrow> kstate \<Rightarrow> kstate" where
  "flush_dc E nodeid d s =
    (if dc_flags (dc s d) \<noteq> 0 then s
     else fold (flush_receiver E nodeid d) [0..nr_slots s d - 1] s)"

definition flush_receiving_procs :: "env \<Rightarrow> int \<Rightarrow> kstate \<Rightarrow> kstate \<times> int" where
  "flush_receiving_procs E nodeid s = (fold (flush_dc E nodeid) [0..d_nr_dcs (dvs s) - 1] s, OK)"

section \<open>mm_wakeup\<close>

definition mm_wakeup :: "env \<Rightarrow> int \<Rightarrow> int \<Rightarrow> int \<Rightarrow> kstate \<Rightarrow> kstate \<times> int" where
  "mm_wakeup E tid dcid proc_ep s =
    (let nr = ENDPOINT_P proc_ep; p = NBR2PTR s dcid nr; nodeid = p_nodeid (procs s p) in
     if DVS_NOT_INIT s then (s, EMOLDVSINIT)
     else if t_euid (tasks s tid) \<noteq> USER_ROOT then (s, EMOLPRIVILEGES)
     else if dcid < 0 \<or> dcid \<ge> d_nr_dcs (dvs s) then (s, EMOLBADDCID)
     else if dc_flags (dc s dcid) \<noteq> 0 then (s, EMOLDCNOTRUN)
     else if nr < - dc_nr_tasks (dc s dcid) \<or> nr \<ge> dc_nr_procs (dc s dcid) then (s, EMOLRANGE)
     else if p_task (procs s p) = Some tid then (s, EMOLBADPROC)
     else if p_endpoint (procs s p) \<noteq> proc_ep then (s, EMOLENDPOINT)
     else if rts s p BIT_SLOT_FREE then (s, EMOLDSTDIED)
     else if nodeid < 0 \<or> nodeid \<ge> d_nr_nodes (dvs s) then (s, EMOLBADNODEID)
     else if \<not> node_bit nodeid (dc_nodes (dc s dcid)) then (s, EMOLNODCNODE)
     else if rts s p BIT_MIGRATE then (s, EMOLMIGRATE)
     else if IT_IS_REMOTE s p then (s, EMOLRMTPROC)
     else if rts s p BIT_RECEIVING \<and> p_getfrom (procs s p) = ANY then
       let s1 = upd p (\<lambda>x. x\<lparr>p_getfrom := NONE\<rparr>) (clear_rts BIT_RECEIVING p s) in
       if p_rts_flags (procs s1 p) = 0 then (LOCAL_PROC_UP E p EMOLWOKENUP s1, OK)
       else (set_mis MIS_BIT_WOKENUP p s1, EMOLPROCSTS)
     else (set_mis MIS_BIT_WOKENUP p s, EMOLPROCRUN))"

section \<open>What unbinding does to the other processes\<close>

lemma get_unset_sys_bit: "get_sys_bit (unset_sys_bit b m) k \<Longrightarrow> get_sys_bit m k"
  by (cases "b div 16 < length m")
    (auto simp: get_sys_bit_def unset_sys_bit_def nth_list_update list_update_beyond split: if_splits)

text \<open>From \<open>s\<close> to \<open>s'\<close> a process of the table keeps its slot and identity, starts no
  send, gains no pending notification and loses no wake-up.\<close>

definition eased :: "int \<Rightarrow> int \<Rightarrow> kstate \<Rightarrow> kstate \<Rightarrow> bool" where
  "eased d i s s' \<longleftrightarrow> (let x = procs s (DcProc d i); y = procs s' (DcProc d i) in
     dc s' = dc s \<and> node s' = node s \<and> dvs s' = dvs s \<and> tasks s' = tasks s \<and> umem s' = umem s
     \<and> (bit (p_rts_flags y) BIT_SENDING \<longrightarrow> bit (p_rts_flags x) BIT_SENDING)
     \<and> (bit (p_rts_flags y) BIT_SLOT_FREE \<longleftrightarrow> bit (p_rts_flags x) BIT_SLOT_FREE)
     \<and> (bit (p_rts_flags y) BIT_REMOTE \<longleftrightarrow> bit (p_rts_flags x) BIT_REMOTE)
     \<and> p_pseudosem x \<le> p_pseudosem y \<and> s_id (p_priv y) = s_id (p_priv x)
     \<and> p_endpoint y = p_endpoint x \<and> p_dcid y = p_dcid x \<and> p_nr y = p_nr x
     \<and> (sys_map_ok (s_notify_pending (p_priv x)) \<longrightarrow> sys_map_ok (s_notify_pending (p_priv y)))
     \<and> (\<forall>k. get_sys_bit (s_notify_pending (p_priv y)) k \<longrightarrow> get_sys_bit (s_notify_pending (p_priv x)) k))"

lemma eased_refl [simp]: "eased d i s s"
  by (simp add: eased_def)

lemma eased_trans: "eased d i s t \<Longrightarrow> eased d i t u \<Longrightarrow> eased d i s u"
  by (auto simp: eased_def Let_def)

lemma eased_fold: "(\<And>x t. eased d i t (f x t)) \<Longrightarrow> eased d i s (fold f xs s)"
  by (induction xs arbitrary: s) (auto intro: eased_trans)

lemma eased_ack [intro]: "eased d i s t \<Longrightarrow> eased d i s (fst (generic_ack_lcl2rmt E ack q p rc t))"
  by (auto simp: eased_def generic_ack_lcl2rmt_def Let_def)

lemma eased_wake_or_ack [intro]: "eased d i s t \<Longrightarrow> eased d i s (wake_or_ack E q p rc t)"
  by (auto simp: wake_or_ack_def eased_def Let_def generic_ack_lcl2rmt_def)

lemma eased_unbind_sender: "eased d i s (unbind_sender E p q s)"
  unfolding unbind_sender_def by (rule eased_wake_or_ack) (auto simp: eased_def Let_def)

lemma eased_unbind_slot: "eased d i s (unbind_slot E d' p j s)"
proof -
  define rp where "rp = DcProc d' j"
  define s1 where "s1 = (if s_id (p_priv (procs s p)) < dc_nr_sysprocs (dc s d')
      \<and> get_sys_bit (s_notify_pending (p_priv (procs s rp))) (nat (s_id (p_priv (procs s p))))
    then upd rp (\<lambda>x. x\<lparr>p_priv := (p_priv x)\<lparr>s_notify_pending :=
       unset_sys_bit (nat (s_id (p_priv (procs s p)))) (s_notify_pending (p_priv x))\<rparr>\<rparr>) s else s)"
  have 1: "eased d i s s1"
    by (auto simp: s1_def eased_def Let_def dest: get_unset_sys_bit)
  have 2: "eased d i s (LOCAL_PROC_UP E rp EMOLSRCDIED s1)"
    using 1 by (auto simp: eased_def Let_def)
  have "eased d i s (clear_rts BIT_RECEIVING rp s1)"
    using 1 by (auto simp: eased_def Let_def)
  then have 3: "eased d i s (fst (generic_ack_lcl2rmt E CMD_SNDREC_ACK rp p EMOLSRCDIED (clear_rts BIT_RECEIVING rp s1)))"
    by (rule eased_ack)
  show ?thesis
    using 1 2 3 by (simp add: unbind_slot_def Let_def rp_def [symmetric] s1_def [symmetric])
qed

lemma eased_unbind_links: "eased d i s (unbind_links d' p s)"
  by (auto simp: unbind_links_def eased_def Let_def)

lemma eased_unbind_migr: "eased d i s (unbind_migr E p q s)"
  unfolding unbind_migr_def by (rule eased_wake_or_ack) (auto simp: eased_def Let_def)

lemma eased_unbind_ulink: "eased d i s (unbind_ulink p s)"
  by (auto simp: unbind_ulink_def eased_def Let_def)

lemma eased_unbind_waiter: "eased d i s (unbind_waiter E p q s)"
  unfolding unbind_waiter_def by (rule eased_wake_or_ack) (auto simp: eased_def Let_def)

lemmas eased_steps = eased_unbind_sender eased_unbind_slot eased_unbind_links eased_unbind_migr
  eased_unbind_ulink eased_unbind_waiter

text \<open>The four stages of the detaching.\<close>

definition unbind_rest :: "env \<Rightarrow> int \<Rightarrow> pref \<Rightarrow> kstate \<Rightarrow> kstate" where
  "unbind_rest E d p s =
    (let s3 = unbind_links d p s; s4 = fold (unbind_migr E p) (p_mlist (procs s3 p)) s3;
         s5 = unbind_ulink p s4
     in fold (unbind_waiter E p) (p_ulist (procs s5 p)) s5)"

lemma unbind_detach_stages:
  "unbind_detach E d p s = unbind_rest E d p (fold (unbind_slot E d p)
     [0..nr_slots (fold (unbind_sender E p) (p_list (procs s p)) s) d - 1]
     (fold (unbind_sender E p) (p_list (procs s p)) s))"
  by (simp add: unbind_detach_def unbind_rest_def Let_def)

lemma eased_unbind_rest: "eased d i s (unbind_rest E d' p s)"
  unfolding unbind_rest_def Let_def
  by (rule eased_trans [OF eased_unbind_links], rule eased_trans [OF eased_fold [OF eased_unbind_migr]],
      rule eased_trans [OF eased_unbind_ulink], rule eased_fold [OF eased_unbind_waiter])

lemma eased_unbind_detach: "eased d i s (unbind_detach E d' p s)"
  unfolding unbind_detach_stages
  by (rule eased_trans [OF eased_fold [OF eased_unbind_sender]],
      rule eased_trans [OF eased_fold [OF eased_unbind_slot]], rule eased_unbind_rest)

text \<open>Each sender queued on the process stops sending and gets a wake-up if it is local.\<close>

lemma unbind_sender_effect:
  "\<not> rts (unbind_sender E p (DcProc d i) s) (DcProc d i) BIT_SENDING"
  "\<not> rts s (DcProc d i) BIT_REMOTE \<Longrightarrow>
   p_pseudosem (procs (unbind_sender E p (DcProc d i) s) (DcProc d i)) = p_pseudosem (procs s (DcProc d i)) + 1"
  by (auto simp: unbind_sender_def wake_or_ack_def generic_ack_lcl2rmt_def IT_IS_REMOTE_def Let_def)

lemma unbind_senders_effect:
  assumes "DcProc d i \<in> set xs"
  shows "\<not> rts (fold (unbind_sender E p) xs s) (DcProc d i) BIT_SENDING
    \<and> (\<not> rts s (DcProc d i) BIT_REMOTE \<longrightarrow>
        p_pseudosem (procs s (DcProc d i)) < p_pseudosem (procs (fold (unbind_sender E p) xs s) (DcProc d i)))"
  using assms
proof (induction xs arbitrary: s)
  case (Cons x xs)
  let ?s = "unbind_sender E p x s" and ?q = "DcProc d i"
  have e: "eased d i s ?s" "eased d i ?s (fold (unbind_sender E p) xs ?s)"
    by (rule eased_unbind_sender, rule eased_fold [OF eased_unbind_sender])
  show ?case
  proof (cases "x = ?q")
    case True
    then show ?thesis
      using e(2) unbind_sender_effect(1) [of E p d i s] unbind_sender_effect(2) [of s d i E p]
      by (auto simp: eased_def Let_def)
  next
    case False
    with Cons.prems have "?q \<in> set xs" by simp
    from Cons.IH [OF this, of ?s] e(1) show ?thesis by (auto simp: eased_def Let_def)
  qed
qed simp

text \<open>The walk over the table leaves no notification of the process behind.\<close>

lemma unbind_slot_effect:
  assumes "DcProc d i \<noteq> p" "\<not> rts s (DcProc d i) BIT_SLOT_FREE" "0 \<le> sid" "sid < 64"
    "s_id (p_priv (procs s p)) = sid" "sid < dc_nr_sysprocs (dc s d)"
    "sys_map_ok (s_notify_pending (p_priv (procs s (DcProc d i))))"
  shows "\<not> get_sys_bit (s_notify_pending (p_priv (procs (unbind_slot E d p i s) (DcProc d i)))) (nat sid)"
  using assms
  by (auto simp: unbind_slot_def generic_ack_lcl2rmt_def Let_def smap.get_del)

lemma unbind_slots_effect:
  assumes "i \<in> set xs" "DcProc d i \<noteq> p" "p = DcProc d j" "\<not> rts s (DcProc d i) BIT_SLOT_FREE"
    "0 \<le> sid" "sid < 64" "s_id (p_priv (procs s p)) = sid" "sid < dc_nr_sysprocs (dc s d)"
    "sys_map_ok (s_notify_pending (p_priv (procs s (DcProc d i))))"
  shows "\<not> get_sys_bit (s_notify_pending (p_priv (procs (fold (unbind_slot E d p) xs s) (DcProc d i)))) (nat sid)"
  using assms
proof (induction xs arbitrary: s)
  case (Cons x xs)
  let ?s = "unbind_slot E d p x s"
  have e: "eased d i s ?s" "eased d j s ?s" "eased d i ?s (fold (unbind_slot E d p) xs ?s)"
    by (rule eased_unbind_slot, rule eased_unbind_slot, rule eased_fold [OF eased_unbind_slot])
  show ?case
  proof (cases "x = i")
    case True
    have "\<not> get_sys_bit (s_notify_pending (p_priv (procs ?s (DcProc d i)))) (nat sid)"
      unfolding True by (rule unbind_slot_effect) (use Cons.prems in auto)
    with e(3) show ?thesis by (auto simp: eased_def Let_def)
  next
    case False
    with Cons.prems have "i \<in> set xs" by simp
    moreover have "s_id (p_priv (procs ?s p)) = sid" using e(2) Cons.prems by (simp add: eased_def Let_def)
    ultimately show ?thesis
      using Cons.IH [of ?s] Cons.prems e(1) by (simp add: eased_def Let_def)
  qed
qed simp

lemma DC_DECREF_procs [simp]: "procs (DC_DECREF d s) = procs s"
  by (simp add: DC_DECREF_def dc_release_def Let_def)

lemma unbind_free_procs: "procs (unbind_free d p s) q =
   (if q = p then init_proc_desc s (p_dcid (procs s p)) (p_nr (procs s p) + dc_nr_tasks (dc s d)) (procs s p)
    else procs s q)"
  by (simp add: unbind_free_def)

lemma init_proc_desc_fields [simp]:
  "p_rts_flags (init_proc_desc s d i x) = SLOT_FREE" "p_misc_flags (init_proc_desc s d i x) = 0"
  "p_list (init_proc_desc s d i x) = []" "p_mlist (init_proc_desc s d i x) = []"
  "p_ulist (init_proc_desc s d i x) = []" "p_lpid (init_proc_desc s d i x) = PROC_NO_PID"
  "p_task (init_proc_desc s d i x) = None" "p_endpoint (init_proc_desc s d i x) = p_endpoint x"
  "p_getfrom (init_proc_desc s d i x) = NONE" "p_sendto (init_proc_desc s d i x) = NONE"
  by (simp_all add: init_proc_desc_def Let_def)

text \<open>C32: unbinding a process of a DC that unbinds itself, or a remote one that is not a backup copy
  (those are freed without this), succeeds: its slot is free with empty queues, no task and no pid;
  every bound process of the DC that was queued to send to it has stopped sending and, if local, has been given a
  wake-up; and if it was a system process, with an identifier below \<open>dc_nr_sysprocs\<close>, no bound
  process of the DC keeps a pending notification from it.\<close>

theorem unbind_forgets:
  assumes chk: "unbind_check tid d p s = OK"
    and full: "IT_IS_REMOTE s p \<or> t_proc (tasks s tid) = Some p"
      "\<not> (IT_IS_REMOTE s p \<and> mis s p MIS_BIT_RMTBACKUP)"
    and pq: "p = DcProc d j" "q = DcProc d i" "i \<noteq> j" "0 \<le> i" "i < nr_slots s d"
    and q: "\<not> rts s q BIT_SLOT_FREE" and sid: "sid = s_id (p_priv (procs s p))"
  shows "\<exists>s'. do_unbind E tid d p s = (s', OK)
    \<and> p_rts_flags (procs s' p) = SLOT_FREE \<and> p_lpid (procs s' p) = PROC_NO_PID \<and> p_task (procs s' p) = None
    \<and> p_list (procs s' p) = [] \<and> p_mlist (procs s' p) = [] \<and> p_ulist (procs s' p) = []
    \<and> (0 \<le> sid \<and> sid < dc_nr_sysprocs (dc s d) \<and> sid < 64 \<and> sys_map_ok (s_notify_pending (p_priv (procs s q)))
         \<longrightarrow> \<not> get_sys_bit (s_notify_pending (p_priv (procs s' q))) (nat sid))
    \<and> \<not> rts s' q BIT_SLOT_FREE
    \<and> (q \<in> set (p_list (procs s p)) \<longrightarrow> \<not> rts s' q BIT_SENDING
         \<and> (\<not> IT_IS_REMOTE s q \<longrightarrow> p_pseudosem (procs s q) < p_pseudosem (procs s' q)))"
proof -
  define s1 where "s1 = fold (unbind_sender E p) (p_list (procs s p)) s"
  define s2 where "s2 = fold (unbind_slot E d p) [0..nr_slots s1 d - 1] s1"
  define s3 where "s3 = unbind_rest E d p s2"
  have e1: "eased d i s s1" "eased d j s s1"
    unfolding s1_def by (rule eased_fold [OF eased_unbind_sender])+
  have e2: "eased d i s1 s2" unfolding s2_def by (rule eased_fold [OF eased_unbind_slot])
  have e3: "eased d i s2 s3" unfolding s3_def by (rule eased_unbind_rest)
  have dc1: "dc s1 = dc s" using e1 by (simp add: eased_def Let_def)
  have n3: "\<not> get_sys_bit (s_notify_pending (p_priv (procs s3 q))) (nat sid)"
    if "0 \<le> sid" "sid < dc_nr_sysprocs (dc s d)" "sid < 64" "sys_map_ok (s_notify_pending (p_priv (procs s q)))"
  proof -
    have "\<not> get_sys_bit (s_notify_pending (p_priv (procs s2 (DcProc d i)))) (nat sid)"
      unfolding s2_def using e1 pq q sid dc1 that
      by (intro unbind_slots_effect) (auto simp: eased_def Let_def nr_slots_def)
    then show ?thesis using e3 pq by (auto simp: eased_def Let_def)
  qed
  have e13: "eased d i s1 s3" using e2 e3 by (rule eased_trans)
  have snd: "\<not> rts s3 q BIT_SENDING \<and> (\<not> IT_IS_REMOTE s q \<longrightarrow> p_pseudosem (procs s q) < p_pseudosem (procs s3 q))"
    if "q \<in> set (p_list (procs s p))"
    using unbind_senders_effect [of d i "p_list (procs s p)" E p s, folded s1_def] that pq(2) e13
    by (auto simp: eased_def Let_def IT_IS_REMOTE_def)
  have "eased d i s s3" using e1(1) e13 by (rule eased_trans)
  then have fr: "\<not> rts s3 q BIT_SLOT_FREE" using q(1) pq by (auto simp: eased_def Let_def)
  have call: "do_unbind E tid d p s = (unbind_free d p s3, OK)"
    using chk full by (auto simp: do_unbind_def unbind_detach_stages s1_def s2_def s3_def)
  have ne: "q \<noteq> p" using pq by simp
  show ?thesis unfolding call using n3 snd fr ne by (simp add: unbind_free_procs)
qed

text \<open>Remote process 5 is queued on by process 2 and has notified process 1.\<close>

definition scn_unbind :: kstate where
  "scn_unbind = upd (DcProc 0 40) (\<lambda>x. x\<lparr>p_list := [DcProc 0 37], p_priv := (p_priv x)\<lparr>s_id := 40\<rparr>\<rparr>)
     (upd (DcProc 0 37) (\<lambda>x. x\<lparr>p_rts_flags := 4, p_sendto := 5, p_pseudosem := - 1,
        p_priv := (p_priv x)\<lparr>s_notify_pending := set_sys_bit 40 (s_notify_pending (p_priv x))\<rparr>\<rparr>) scn)"

theorem unbind_forgets_witness:
  "\<exists>s'. do_unbind scn_env 101 0 (DcProc 0 40) scn_unbind = (s', OK)
    \<and> get_sys_bit (s_notify_pending (p_priv (procs scn_unbind (DcProc 0 37)))) 40
    \<and> \<not> get_sys_bit (s_notify_pending (p_priv (procs s' (DcProc 0 37)))) 40
    \<and> \<not> rts s' (DcProc 0 37) BIT_SENDING \<and> - 1 < p_pseudosem (procs s' (DcProc 0 37))"
proof -
  have "unbind_check 101 0 (DcProc 0 40) scn_unbind = OK"
    by (simp add: unbind_check_def scn_unbind_def scn_defs node_bit_def)
  moreover have "IT_IS_REMOTE scn_unbind (DcProc 0 40)" "\<not> mis scn_unbind (DcProc 0 40) MIS_BIT_RMTBACKUP"
    "\<not> IT_IS_REMOTE scn_unbind (DcProc 0 37)" "nr_slots scn_unbind 0 = 256"
    by (simp_all add: scn_unbind_def scn_defs IT_IS_REMOTE_def nr_slots_def)
  moreover have "p_rts_flags (procs scn_unbind (DcProc 0 37)) = 4" "p_pseudosem (procs scn_unbind (DcProc 0 37)) = - 1"
    "s_id (p_priv (procs scn_unbind (DcProc 0 40))) = 40" "p_list (procs scn_unbind (DcProc 0 40)) = [DcProc 0 37]"
    "s_notify_pending (p_priv (procs scn_unbind (DcProc 0 37))) = set_sys_bit 40 empty_sys_map"
    "dc_nr_sysprocs (dc scn_unbind 0) = 64"
    by (simp_all add: scn_unbind_def scn_defs)
  ultimately show ?thesis
    using unbind_forgets [of 101 0 "DcProc 0 40" scn_unbind 40 "DcProc 0 37" 37 40 scn_env]
    by (auto simp: smap.get_ins)
qed

text \<open>Waking up a local process that waits for a message from anyone ends its receive: it is
  no longer receiving, and if that was the only thing it waited for, it resumes with EMOLWOKENUP;
  a process that does not wait for anyone is only marked, and its flags and queues stay.\<close>

theorem wakeup_ends_receive:
  assumes ok: "\<not> DVS_NOT_INIT s" "t_euid (tasks s tid) = USER_ROOT" "0 \<le> dcid" "dcid < d_nr_dcs (dvs s)"
      "dc_flags (dc s dcid) = 0" "- dc_nr_tasks (dc s dcid) \<le> ENDPOINT_P ep" "ENDPOINT_P ep < dc_nr_procs (dc s dcid)"
    and p: "p = NBR2PTR s dcid (ENDPOINT_P ep)" "p_task (procs s p) \<noteq> Some tid"
    and d: "dst_ok s \<lparr>l_dcid = dcid, l_caller = c, l_peer = p, l_ep = ep, l_msg = 0, l_timeout = 0\<rparr>"
      "\<not> IT_IS_REMOTE s p"
  shows "let (s', ret) = mm_wakeup E tid dcid ep s in
     if rts s p BIT_RECEIVING \<and> p_getfrom (procs s p) = ANY then
       \<not> rts s' p BIT_RECEIVING \<and> p_getfrom (procs s' p) = NONE
       \<and> (if p_rts_flags (procs s p) = 8 then ret = OK \<and> p_rcode (procs s' p) = EMOLWOKENUP
             \<and> p_pseudosem (procs s' p) = p_pseudosem (procs s p) + 1
          else ret = EMOLPROCSTS \<and> mis s' p MIS_BIT_WOKENUP)
     else ret = EMOLPROCRUN \<and> mis s' p MIS_BIT_WOKENUP \<and> p_rts_flags (procs s' p) = p_rts_flags (procs s p)"
proof -
  have f: "unset_bit BIT_RECEIVING (p_rts_flags (procs s p)) = 0 \<longleftrightarrow> p_rts_flags (procs s p) = 8"
    if "rts s p BIT_RECEIVING"
  proof
    assume "unset_bit BIT_RECEIVING (p_rts_flags (procs s p)) = 0"
    moreover have "p_rts_flags (procs s p) = set_bit 3 (unset_bit 3 (p_rts_flags (procs s p)))"
      using that by (intro bit_word_eqI) auto
    ultimately have "p_rts_flags (procs s p) = set_bit 3 0" by simp
    then show "p_rts_flags (procs s p) = 8" by (simp add: set_bit_eq_or)
  qed (simp add: unset_receiving_8)
  show ?thesis
    using ok p d f by (auto simp: mm_wakeup_def dst_ok_def Let_def split_beta)
qed

theorem wakeup_ends_receive_witness:
  "mm_wakeup scn_env 101 0 2 scn_waiting = (fst (mm_wakeup scn_env 101 0 2 scn_waiting), OK)
   \<and> p_rcode (procs (fst (mm_wakeup scn_env 101 0 2 scn_waiting)) (DcProc 0 37)) = EMOLWOKENUP"
proof -
  have "NBR2PTR scn_waiting 0 (ENDPOINT_P 2) = DcProc 0 37"
    by (simp add: NBR2PTR_def scn_waiting_def scn_defs)
  moreover have "\<not> DVS_NOT_INIT scn_waiting" "t_euid (tasks scn_waiting 101) = 0" "d_nr_dcs (dvs scn_waiting) = NR_DCS"
    "dc_flags (dc scn_waiting 0) = 0" "dc_nr_tasks (dc scn_waiting 0) = NR_TASKS"
    "dc_nr_procs (dc scn_waiting 0) = NR_PROCS" "p_task (procs scn_waiting (DcProc 0 37)) = Some 102"
    "\<not> IT_IS_REMOTE scn_waiting (DcProc 0 37)" "p_rts_flags (procs scn_waiting (DcProc 0 37)) = 8"
    "p_getfrom (procs scn_waiting (DcProc 0 37)) = ANY"
    by (simp_all add: scn_waiting_def scn_defs DVS_NOT_INIT_def IT_IS_REMOTE_def)
  moreover have "dst_ok scn_waiting \<lparr>l_dcid = 0, l_caller = DcProc 0 36, l_peer = DcProc 0 37, l_ep = 2,
      l_msg = 0, l_timeout = 0\<rparr>"
    by (simp add: dst_ok_def scn_waiting_def scn_defs node_bit_def)
  ultimately show ?thesis
    using wakeup_ends_receive [of scn_waiting 101 0 2 "DcProc 0 37" "DcProc 0 36" scn_env]
    by (simp add: split_beta prod_eq_iff)
qed

end
