(* ===== verification/Rproxy.thy ===== *)
theory Rproxy
  imports Unbind
begin

text \<open>
  The receiver proxy (\<open>src/mol-module/mm_rproxy.c\<close>): \<open>mm_put2lcl\<close> takes a
  command that came from a remote node, checks the remote and the local process
  it names, answers an error with an acknowledgement of the right kind, and
  otherwise carries the command out on the local process.
\<close>

section \<open>Messages and notifications from a remote process\<close>

text \<open>Bytes of the proxy process, or of the kernel for a kernel-thread proxy.\<close>

definition copy_from_proxy ::
  "env \<Rightarrow> pref \<Rightarrow> addr \<Rightarrow> addr \<Rightarrow> pref \<Rightarrow> addr \<Rightarrow> int \<Rightarrow> kstate \<Rightarrow> kstate \<times> int" where
  "copy_from_proxy E rp ka ua q da n s =
    (if mis s rp MIS_BIT_KTHREAD then copy_krn2usr E NONE ka q da n s
     else copy_usr2usr E NONE rp ua q da n s)"

abbreviation (input) cu_offset :: addr where "cu_offset \<equiv> 52"

definition send_rmt2lcl :: "env \<Rightarrow> addr \<Rightarrow> cmd \<Rightarrow> pref \<Rightarrow> pref \<Rightarrow> kstate \<Rightarrow> kstate \<times> int" where
  "send_rmt2lcl E usr_h h src dst s =
    (let rproxy = NODE2RPROXY s (p_nodeid (procs s src)) in
     if waiting_for s dst (p_endpoint (procs s src)) then
       let (s1, rcode) = copy_from_proxy E rproxy (p_umsg (procs s rproxy)) (usr_h + cu_offset)
                           dst (p_umsg (procs s dst)) (int MSG_SIZE) s in
       if rcode \<noteq> OK then (s1, rcode)
       else
        let s2 = (if c_cmd h = CMD_SNDREC_MSG
                  then set_rts BIT_RECEIVING src
                         (upd src (\<lambda>x. x\<lparr>p_getfrom := p_endpoint (procs s1 dst)\<rparr>) s1)
                  else fst (generic_ack_lcl2rmt E CMD_SEND_ACK src dst OK
                         (upd src (\<lambda>x. x\<lparr>p_rcode := OK\<rparr>) s1)));
            s3 = clear_rts BIT_RECEIVING dst s2;
            s4 = upd dst (\<lambda>x. x\<lparr>p_getfrom := NONE\<rparr>) s3
        in (up_if_ready E dst OK s4, OK)
     else
       let s1 = upd src (\<lambda>x. x\<lparr>p_message := take MSG_SIZE (c_u h)\<rparr>) s;
           s2 = set_rts BIT_SENDING src s1;
           s3 = (if c_cmd h = CMD_SNDREC_MSG
                 then set_rts BIT_RECEIVING src
                        (upd src (\<lambda>x. x\<lparr>p_getfrom := p_endpoint (procs s2 dst)\<rparr>) s2) else s2);
           s4 = upd src (\<lambda>x. x\<lparr>p_sendto := p_endpoint (procs s3 dst)\<rparr>) s3
       in (LIST_ADD_TAIL src dst s4, OK))"

definition notify_rmt2lcl ::
  "env \<Rightarrow> addr \<Rightarrow> cmd \<Rightarrow> pref \<Rightarrow> pref \<Rightarrow> int \<Rightarrow> kstate \<Rightarrow> kstate \<times> int" where
  "notify_rmt2lcl E usr_h h src dst update_proc s =
    (let rproxy = NODE2RPROXY s (p_nodeid (procs s src)); d = p_dcid (procs s dst);
         sid = ENDPOINT_P (m_type (c_u h) AND NOT NOTIFY_MESSAGE) + dc_nr_tasks (dc s d) in
     if sid \<ge> dc_nr_sysprocs (dc s d) then (s, EMOLPRIVILEGES)
     else if waiting_for s dst (p_endpoint (procs s src)) then
       let s1 = set_update update_proc dst s;
           s2 = fst (copy_from_proxy E rproxy (p_umsg (procs s1 rproxy)) (usr_h + cu_offset)
                       dst (p_umsg (procs s1 dst)) (int MSG_SIZE) s1);
           s3 = clear_rts BIT_RECEIVING dst s2;
           s4 = upd dst (\<lambda>x. x\<lparr>p_getfrom := NONE\<rparr>) s3
       in (up_if_ready E dst OK s4, OK)
     else
       let s1 = set_mis MIS_BIT_NOTIFY dst s;
           s2 = set_pending (nat sid) dst s1
       in (set_update update_proc dst s2, OK))"

section \<open>Copy requests and data\<close>

definition put_cu :: "cmd \<Rightarrow> pref \<Rightarrow> kstate \<Rightarrow> kstate" where
  "put_cu h p s = set_cmd (\<lambda>k. k\<lparr>c_u := copy_vcopy (c_u h) (c_u k)\<rparr>) p s"

text \<open>The checks of a request that names a source and a destination.\<close>

definition rqst_status :: "kstate \<Rightarrow> pref \<Rightarrow> cmd \<Rightarrow> int" where
  "rqst_status s lcl h =
    (let u = c_u h; d = p_dcid (procs s lcl); dst_nr = ENDPOINT_P (v_dst u) in
     if v_bytes u \<le> 0 \<or> v_bytes u > MAXCOPYLEN then EMOLRANGE
     else if rts s lcl BIT_ONCOPY then EMOLONCOPY
     else if p_endpoint (procs s lcl) \<noteq> v_src u then EMOLBADPROC
     else if dst_nr < - dc_nr_tasks (dc s d) \<or> dst_nr \<ge> dc_nr_procs (dc s d) then EMOLRANGE
     else OK)"

text \<open>ONCOPY protects the two descriptors while their locks are dropped and retaken.\<close>

definition relock :: "pref \<Rightarrow> pref \<Rightarrow> kstate \<Rightarrow> kstate" where
  "relock lcl rmt s =
    (let s1 = set_rts BIT_ONCOPY lcl s;
         s2 = set_rts BIT_ONCOPY rmt s1;
         s3 = clear_rts BIT_ONCOPY lcl s2
     in clear_rts BIT_ONCOPY rmt s3)"

definition copyrmt_rqst_rmt2lcl :: "env \<Rightarrow> pref \<Rightarrow> pref \<Rightarrow> cmd \<Rightarrow> kstate \<Rightarrow> kstate \<times> int" where
  "copyrmt_rqst_rmt2lcl E rmt lcl h s =
    (let ret0 = rqst_status s lcl h; u = c_u h;
         dst = NBR2PTR s (p_dcid (procs s lcl)) (ENDPOINT_P (v_dst u)) in
     if ret0 \<noteq> OK then (s, ret0)
     else
      let s1 = relock lcl rmt s;
          ret = (if \<not> IT_IS_REMOTE s1 dst then EMOLLCLPROC
                 else if rts s1 dst BIT_SLOT_FREE then EMOLDSTDIED
                 else if p_endpoint (procs s1 dst) \<noteq> v_dst u then EMOLENDPOINT
                 else if rts s1 dst BIT_ONCOPY then EMOLONCOPY
                 else if rts s1 dst BIT_RMTOPER then EMOLENQUEUED
                 else if rts s1 dst BIT_SENDING then EMOLENQUEUED
                 else OK)
      in if ret = OK then copyin_rqst_lcl2rmt E dst lcl (set_rts BIT_ONCOPY dst (put_cu h dst s1))
         else if ret \<noteq> EMOLENQUEUED then generic_ack_lcl2rmt E CMD_COPYRMT_ACK rmt lcl ret s1
         else (s1, ret))"

definition copylcl_rqst_rmt2lcl :: "env \<Rightarrow> pref \<Rightarrow> pref \<Rightarrow> cmd \<Rightarrow> kstate \<Rightarrow> kstate \<times> int" where
  "copylcl_rqst_rmt2lcl E rmt lcl h s =
    (let ret0 = rqst_status s lcl h; u = c_u h;
         dst = NBR2PTR s (p_dcid (procs s lcl)) (ENDPOINT_P (v_dst u)) in
     if ret0 \<noteq> OK then (s, ret0)
     else
      let s1 = relock lcl rmt s;
          ret = (if IT_IS_REMOTE s1 dst then EMOLRMTPROC
                 else if rts s1 dst BIT_SLOT_FREE then EMOLDSTDIED
                 else if p_endpoint (procs s1 dst) \<noteq> v_dst u then EMOLENDPOINT
                 else if rts s1 dst BIT_ONCOPY then EMOLONCOPY
                 else if rts s1 dst BIT_SENDING then EMOLENQUEUED
                 else OK);
          (s2, ret1) = (if ret = OK then
              let (s', r) = copy_usr2usr E NONE lcl (v_saddr u) dst (v_daddr u) (v_bytes u) s1
              in (put_cu h rmt s', r)
            else (s1, ret))
      in generic_ack_lcl2rmt E CMD_COPYLCL_ACK rmt lcl ret1 s2)"

definition copyin_data_rmt2lcl ::
  "env \<Rightarrow> pref \<Rightarrow> pref \<Rightarrow> pref \<Rightarrow> cmd \<Rightarrow> addr \<Rightarrow> kstate \<Rightarrow> kstate \<times> int" where
  "copyin_data_rmt2lcl E rproxy rmt lcl h usr_pay s =
    (let u = c_u h;
         ret = (if v_bytes u \<le> 0 \<or> v_bytes u > NODE2MAXBYTES s (c_snode h) then EMOLRANGE
                else if rts s lcl BIT_ONCOPY then EMOLONCOPY
                else if rts s lcl BIT_SENDING then EMOLENQUEUED
                else if p_endpoint (procs s lcl) \<noteq> v_dst u then EMOLBADPROC
                else OK);
         (s1, ret1) = (if ret = OK
            then copy_from_proxy E rproxy usr_pay usr_pay lcl (v_daddr u) (v_bytes u) s else (s, ret))
     in generic_ack_lcl2rmt E CMD_COPYIN_ACK rmt lcl ret1 (put_cu h rmt s1))"

definition copyin_rqst_rmt2lcl ::
  "env \<Rightarrow> pref \<Rightarrow> pref \<Rightarrow> pref \<Rightarrow> cmd \<Rightarrow> addr \<Rightarrow> kstate \<Rightarrow> kstate \<times> int" where
  "copyin_rqst_rmt2lcl E rproxy rmt lcl h usr_pay s =
    (let u = c_u h; rqtr = ENDPOINT2PTR s (c_dcid h) (v_rqtr u);
         s1 = relock lcl rmt s;
         ret = (if \<not> IT_IS_REMOTE s1 rqtr then EMOLLCLPROC
                else if v_bytes u \<le> 0 \<or> v_bytes u > NODE2MAXBYTES s1 (c_snode h) then EMOLRANGE
                else if rts s1 rqtr BIT_ONCOPY then EMOLONCOPY
                else if rts s1 rqtr BIT_RMTOPER then EMOLENQUEUED
                else if rts s1 rqtr BIT_SENDING then EMOLENQUEUED
                else OK);
         (s2, ret1) = (if ret = OK
            then copy_from_proxy E rproxy usr_pay usr_pay lcl (v_daddr u) (v_bytes u) s1 else (s1, ret));
         s3 = put_cu h rqtr s2
     in ((if ret1 \<noteq> EMOLENQUEUED then fst (generic_ack_lcl2rmt E CMD_COPYRMT_ACK rqtr lcl ret1 s3) else s3),
         ret1))"

definition copyout_rqst_rmt2lcl :: "env \<Rightarrow> pref \<Rightarrow> pref \<Rightarrow> cmd \<Rightarrow> kstate \<Rightarrow> kstate \<times> int" where
  "copyout_rqst_rmt2lcl E rmt lcl h s =
    (let u = c_u h;
         ret = (if v_bytes u \<le> 0 \<or> v_bytes u > NODE2MAXBYTES s (c_snode h) then EMOLRANGE
                else if p_rts_flags (procs s lcl) = PROC_RUNNING then EMOLPROCSTS
                else if rts s lcl BIT_ONCOPY then EMOLONCOPY
                else if p_endpoint (procs s lcl) \<noteq> v_src u then EMOLBADPROC
                else OK)
     in copyout_data_lcl2rmt E rmt lcl ret (if ret = OK then put_cu h rmt s else s))"

definition copyout_data_rmt2lcl ::
  "env \<Rightarrow> pref \<Rightarrow> pref \<Rightarrow> pref \<Rightarrow> cmd \<Rightarrow> addr \<Rightarrow> kstate \<Rightarrow> kstate \<times> int" where
  "copyout_data_rmt2lcl E rproxy rmt lcl h usr_pay s =
    (let u = c_u h; dst = ENDPOINT2PTR s (p_dcid (procs s lcl)) (v_dst u) in
     if v_bytes u \<le> 0 \<or> v_bytes u > NODE2MAXBYTES s (c_snode h) then (s, EMOLRANGE)
     else if p_rts_flags (procs s lcl) = PROC_RUNNING then (s, EMOLPROCRUN)
     else if p_rts_flags (procs s dst) = PROC_RUNNING then (s, EMOLPROCRUN)
     else if \<not> rts s lcl BIT_ONCOPY then (s, EMOLPROCSTS)
     else if \<not> rts s dst BIT_ONCOPY then (s, EMOLPROCSTS)
     else if \<not> rts s rmt BIT_ONCOPY then (s, EMOLPROCSTS)
     else
      let (s1, ret) = (if c_rcode h = OK
            then copy_from_proxy E rproxy usr_pay usr_pay dst (v_daddr u) (v_bytes u) s else (s, OK))
      in ((if p_rts_flags (procs s1 lcl) = ONCOPY then READY_UP_RCODE E lcl (c_rcode h) s1 else s1), ret))"

section \<open>mm_put2lcl\<close>

text \<open>The command header: kept in the kernel for a kernel thread, else read from the proxy.\<close>

definition put2lcl_header :: "env \<Rightarrow> int \<Rightarrow> pref \<Rightarrow> addr \<Rightarrow> addr \<Rightarrow> kstate \<Rightarrow> kstate \<times> cmd" where
  "put2lcl_header E tid rp usr_hdr usr_pay s =
    (if mis s rp MIS_BIT_KTHREAD then
       (s\<lparr>kmem := write_mem (p_umsg (procs s rp)) (read_mem (kmem s) (usr_hdr + cu_offset) MSG_SIZE) (kmem s)\<rparr>,
        decode_cmd (read_mem (kmem s) usr_hdr HDR_SIZE))
     else
       let s1 = upd rp (\<lambda>x. x\<lparr>p_umsg := usr_pay\<rparr>) s;
           h = decode_cmd (fst (copy_from_user E (mm_of_task s1 tid) usr_hdr HDR_SIZE s1))
       in (upd rp (\<lambda>x. x\<lparr>p_rmtcmd := h\<rparr>) s1, h))"

definition put2lcl_range :: "cmd \<Rightarrow> kstate \<Rightarrow> int" where
  "put2lcl_range h s =
    (let d = c_dcid h; lcl_nr = ENDPOINT_P (c_dst h); rmt_nr = ENDPOINT_P (c_src h) in
     if d < 0 \<or> d \<ge> d_nr_dcs (dvs s) then EMOLBADDCID
     else if dc_flags (dc s d) \<noteq> 0 then EMOLDCNOTRUN
     else if rmt_nr < - dc_nr_tasks (dc s d) \<or> rmt_nr \<ge> dc_nr_procs (dc s d) then EMOLRANGE
     else if lcl_nr < - dc_nr_tasks (dc s d) \<or> lcl_nr \<ge> dc_nr_procs (dc s d) then EMOLRANGE
     else if \<not> node_bit (c_snode h) (dc_nodes (dc s d)) then EMOLNODCNODE
     else if c_dnode h \<noteq> local_nodeid s then EMOLBADNODEID
     else OK)"

definition put2lcl_status :: "cmd \<Rightarrow> pref \<Rightarrow> pref \<Rightarrow> kstate \<Rightarrow> int" where
  "put2lcl_status h rmt lcl s =
    (if rts s rmt BIT_SLOT_FREE then EMOLNOTBIND
     else if IT_IS_REMOTE s rmt \<and> p_endpoint (procs s rmt) \<noteq> c_src h then EMOLENDPOINT
     else if IT_IS_REMOTE s rmt \<and> p_nodeid (procs s rmt) \<noteq> c_snode h then EMOLNONODE
     else if \<not> IT_IS_REMOTE s rmt \<and> \<not> mis s rmt MIS_BIT_REPLICATED then EMOLLCLPROC
     else if rts s rmt BIT_RMTOPER then EMOLENQUEUED
     else if rts s rmt BIT_SENDING then EMOLENQUEUED
     else if IT_IS_REMOTE s lcl then EMOLRMTPROC
     else if rts s lcl BIT_SLOT_FREE then EMOLNOTBIND
     else if p_endpoint (procs s lcl) \<noteq> c_dst h then EMOLENDPOINT
     else if rts s lcl BIT_MIGRATE then EMOLMIGRATE
     else if p_nodeid (procs s lcl) \<noteq> local_nodeid s then EMOLMIGRATE
     else OK)"

text \<open>The acknowledgement that tells the remote requester about an error.\<close>

definition error_ack :: "int \<Rightarrow> int" where
  "error_ack c =
    (if c = CMD_SNDREC_MSG \<or> c = CMD_SEND_MSG \<or> c = CMD_REPLY_MSG then CMD_SEND_ACK
     else if c = CMD_COPYIN_DATA then CMD_COPYIN_ACK
     else if c = CMD_COPYOUT_RQST then CMD_COPYOUT_DATA
     else if c = CMD_COPYLCL_RQST then CMD_COPYLCL_ACK
     else if c = CMD_COPYRMT_RQST then CMD_COPYRMT_ACK
     else CMD_NONE)"

definition put2lcl_error :: "env \<Rightarrow> cmd \<Rightarrow> pref \<Rightarrow> int \<Rightarrow> kstate \<Rightarrow> kstate \<times> int" where
  "put2lcl_error E h rmt ret s =
    (if ret \<in> {EMOLNOTBIND, EMOLNONODE, EMOLLCLPROC, EMOLENQUEUED} then (s, ret)
     else if \<not> mis s (NODE2SPROXY s (c_snode h)) MIS_BIT_CONNECTED then (s, ret)
     else if c_cmd h = CMD_COPYIN_RQST then
       let rqtr = ENDPOINT2PTR s (c_dcid h) (v_rqtr (c_u h)) in
       if \<not> IT_IS_REMOTE s rqtr then (s, EMOLLCLPROC)
       else (fst (error_lcl2rmt E CMD_COPYRMT_ACK rqtr h ret s), ret)
     else
       let ack = error_ack (c_cmd h) in
       ((if ack \<noteq> CMD_NONE then fst (error_lcl2rmt E ack rmt h ret s) else s), ret))"

definition put2lcl_dispatch ::
  "env \<Rightarrow> addr \<Rightarrow> addr \<Rightarrow> pref \<Rightarrow> cmd \<Rightarrow> pref \<Rightarrow> pref \<Rightarrow> kstate \<Rightarrow> kstate \<times> int" where
  "put2lcl_dispatch E usr_hdr usr_pay rp h rmt lcl s =
    (let c = c_cmd h in
     if c = CMD_SNDREC_MSG \<or> c = CMD_SEND_MSG \<or> c = CMD_REPLY_MSG then send_rmt2lcl E usr_hdr h rmt lcl s
     else if c = CMD_NTFY_MSG then notify_rmt2lcl E usr_hdr h rmt lcl (c_rcode h) s
     else if c = CMD_COPYIN_DATA then copyin_data_rmt2lcl E rp rmt lcl h usr_pay s
     else if c = CMD_COPYIN_RQST then copyin_rqst_rmt2lcl E rp rmt lcl h usr_pay s
     else if c = CMD_COPYOUT_RQST then copyout_rqst_rmt2lcl E rmt lcl h s
     else if c = CMD_COPYLCL_RQST then copylcl_rqst_rmt2lcl E rmt lcl h s
     else if c = CMD_COPYRMT_RQST then copyrmt_rqst_rmt2lcl E rmt lcl h s
     else if c = CMD_SEND_ACK then send_ack_rmt2lcl E rmt lcl (c_rcode h) s
     else if c = CMD_COPYIN_ACK \<or> c = CMD_COPYLCL_ACK \<or> c = CMD_COPYRMT_ACK
       then generic_ack_rmt2lcl E c rmt lcl (c_rcode h) s
     else if c = CMD_COPYOUT_DATA then copyout_data_rmt2lcl E rp rmt lcl h usr_pay s
     else (s, EMOLBADREQUEST))"

definition put2lcl_count :: "pref \<Rightarrow> cmd \<Rightarrow> pref \<Rightarrow> kstate \<Rightarrow> kstate" where
  "put2lcl_count rp h lcl s =
    (let n = c_snode h;
         s1 = upd rp (\<lambda>x. x\<lparr>p_lclsent := p_lclsent x + 1\<rparr>) s;
         s2 = s1\<lparr>node := (node s1)(n := (node s1 n)\<lparr>n_pxrcvd := n_pxrcvd (node s1 n) + 1\<rparr>)\<rparr>
     in if c_cmd h = CMD_COPYOUT_RQST \<or> c_cmd h = CMD_COPYRMT_RQST
        then upd lcl (\<lambda>x. x\<lparr>p_rmtcopy := p_rmtcopy x + 1\<rparr>) s2
        else if c_cmd h = CMD_COPYLCL_RQST then upd lcl (\<lambda>x. x\<lparr>p_lclcopy := p_lclcopy x + 1\<rparr>) s2
        else s2)"

definition mm_put2lcl_body ::
  "env \<Rightarrow> int \<Rightarrow> addr \<Rightarrow> addr \<Rightarrow> pref \<Rightarrow> kstate \<Rightarrow> kstate \<times> outcome" where
  "mm_put2lcl_body E tid usr_hdr usr_pay rp s =
    (if rts s rp BIT_SLOT_FREE then (s, Return EMOLPROCSTS)
     else if \<not> mis s rp MIS_BIT_PROXY then (s, Return EMOLNOPROXY)
     else if \<not> mis s rp MIS_BIT_CONNECTED then (s, Return EMOLNOTCONN)
     else
      let (s1, h) = put2lcl_header E tid rp usr_hdr usr_pay s;
          d = c_dcid h; n = c_snode h; ret = put2lcl_range h s1 in
      if ret \<noteq> OK then (s1, Return ret)
      else
       let s2 = s1\<lparr>node := (node s1)(n := (node s1 n)\<lparr>n_rtimestamp := e_now E\<rparr>)\<rparr>;
           rmt = NBR2PTR s2 d (ENDPOINT_P (c_src h)); lcl = NBR2PTR s2 d (ENDPOINT_P (c_dst h));
           ret1 = put2lcl_status h rmt lcl s2 in
       if ret1 \<noteq> OK then let (s3, r) = put2lcl_error E h rmt ret1 s2 in (s3, Return r)
       else
        let s3 = upd rp (\<lambda>x. x\<lparr>p_dcid := dc_dcid (dc s2 d)\<rparr>) s2;
            (s4, ret2) = put2lcl_dispatch E usr_hdr usr_pay rp h rmt lcl s3;
            s5 = (if ret2 = OK then put2lcl_count rp h lcl s4 else s4);
            (s6, ret3) = (if bit (c_cmd h) BIT_ACKNOWLEDGE \<and> c_rcode h \<in> {EMOLRMTPROC, EMOLDSTDIED, EMOLENDPOINT}
                          then (fst (do_unbind E tid d rmt s5), c_rcode h) else (s5, ret2))
        in (upd rp (\<lambda>x. x\<lparr>p_dcid := - 1\<rparr>) s6, Return ret3))"

definition mm_put2lcl :: "env \<Rightarrow> int \<Rightarrow> addr \<Rightarrow> addr \<Rightarrow> kstate \<Rightarrow> kstate \<times> outcome" where
  "mm_put2lcl E tid usr_hdr usr_pay s =
    (if t_euid (tasks s tid) \<noteq> USER_ROOT then (s, Return EPERM_NEG)
     else if DVS_NOT_INIT s then (s, Return EMOLDVSINIT)
     else after_check (Put2lcl usr_hdr usr_pay)
            (\<lambda>rp pid. mm_put2lcl_body E tid usr_hdr usr_pay rp) (check_caller tid s))"

section \<open>Behaviour\<close>

lemma NODE2_generic [simp]:
  "NODE2SPROXY (set_umem mm m s) n = NODE2SPROXY s n" "NODE2RPROXY (set_umem mm m s) n = NODE2RPROXY s n"
  by (simp_all add: NODE2SPROXY_def NODE2RPROXY_def)

text \<open>What an acknowledgement does to the queue of the sender proxy and to the descriptors.\<close>

lemma generic_ack_effect:
  assumes "rmt = DcProc d i" "sp = NODE2SPROXY s (p_nodeid (procs s rmt))" "p_rts_flags (procs s sp) \<noteq> SLOT_FREE"
  shows "p_list (procs (fst (generic_ack_lcl2rmt E ack rmt lcl rc s)) q)
           = p_list (procs s q) @ (if q = sp then [rmt] else [])"
    "p_rmtcmd (procs (fst (generic_ack_lcl2rmt E ack rmt lcl rc s)) rmt) =
       (p_rmtcmd (procs s rmt))\<lparr>c_cmd := ack, c_dcid := p_dcid (procs s rmt),
          c_src := p_endpoint (procs s lcl), c_dst := p_endpoint (procs s rmt), c_snode := local_nodeid s,
          c_dnode := p_nodeid (procs s rmt), c_len := 0, c_rcode := rc\<rparr>"
    "q = DcProc e j \<Longrightarrow> q \<noteq> rmt \<Longrightarrow>
       p_rts_flags (procs (fst (generic_ack_lcl2rmt E ack rmt lcl rc s)) q) = p_rts_flags (procs s q)
       \<and> p_pseudosem (procs (fst (generic_ack_lcl2rmt E ack rmt lcl rc s)) q) = p_pseudosem (procs s q)"
    "umem (fst (generic_ack_lcl2rmt E ack rmt lcl rc s)) = umem s"
proof -
  let ?t = "set_cmd (\<lambda>c. c\<lparr>c_cmd := ack, c_dcid := p_dcid (procs s rmt), c_src := p_endpoint (procs s lcl),
     c_dst := p_endpoint (procs s rmt), c_snode := local_nodeid s, c_dnode := p_nodeid (procs s rmt),
     c_len := 0, c_rcode := rc\<rparr>) rmt (set_rts BIT_RMTOPER rmt s)"
  have t: "generic_ack_lcl2rmt E ack rmt lcl rc s = sproxy_enqueue E rmt ?t"
    by (simp add: generic_ack_lcl2rmt_def Let_def)
  have sp: "NODE2SPROXY ?t (c_dnode (p_rmtcmd (procs ?t rmt))) = sp" using assms(2) by simp
  have ne: "sp \<noteq> rmt" using assms by (simp add: NODE2SPROXY_def)
  have f: "p_rts_flags (procs ?t (NODE2SPROXY ?t (c_dnode (p_rmtcmd (procs ?t rmt))))) \<noteq> SLOT_FREE"
    unfolding sp using assms(3) ne by simp
  show "p_list (procs (fst (generic_ack_lcl2rmt E ack rmt lcl rc s)) q)
           = p_list (procs s q) @ (if q = sp then [rmt] else [])"
    unfolding t sproxy_enqueue_list [OF f] sp by simp
qed (auto simp: generic_ack_lcl2rmt_def Let_def)

lemma send_rmt2lcl_delivers:
  assumes w: "waiting_for s dst (p_endpoint (procs s src))"
    and pr: "src = DcProc a b" "dst = DcProc e f" "src \<noteq> dst"
    and rp: "rp = NODE2RPROXY s (p_nodeid (procs s src))" "\<not> mis s rp MIS_BIT_KTHREAD"
    and sp: "sp = NODE2SPROXY s (p_nodeid (procs s src))" "p_rts_flags (procs s sp) \<noteq> SLOT_FREE"
    and mm: "mm_of s rp \<noteq> mm_of s dst" "pages_ok E (mm_of s rp) (usr_h + cu_offset) MSG_SIZE"
      "pages_ok E (mm_of s dst) (p_umsg (procs s dst)) MSG_SIZE"
    and c: "c_cmd h \<noteq> CMD_SNDREC_MSG"
  shows "\<exists>s'. send_rmt2lcl E usr_h h src dst s = (s', OK)
    \<and> umem s' = (umem s)(mm_of s dst := write_mem (p_umsg (procs s dst))
        (read_mem (umem s (mm_of s rp)) (usr_h + cu_offset) MSG_SIZE) (umem s (mm_of s dst)))
    \<and> \<not> rts s' dst BIT_RECEIVING \<and> p_getfrom (procs s' dst) = NONE
    \<and> (p_rts_flags (procs s dst) = 8 \<longrightarrow> p_rcode (procs s' dst) = OK
          \<and> p_pseudosem (procs s' dst) = p_pseudosem (procs s dst) + 1)
    \<and> p_list (procs s' sp) = p_list (procs s sp) @ [src]
    \<and> (let k = p_rmtcmd (procs s' src) in c_cmd k = CMD_SEND_ACK \<and> c_src k = p_endpoint (procs s dst)
         \<and> c_dst k = p_endpoint (procs s src) \<and> c_dnode k = p_nodeid (procs s src) \<and> c_rcode k = OK)"
proof -
  let ?s1 = "set_umem (mm_of s dst) (write_mem (p_umsg (procs s dst))
      (read_mem (umem s (mm_of s rp)) (usr_h + cu_offset) MSG_SIZE) (umem s (mm_of s dst))) s"
  let ?s2 = "upd src (\<lambda>x. x\<lparr>p_rcode := OK\<rparr>) ?s1"
  let ?s3 = "fst (generic_ack_lcl2rmt E CMD_SEND_ACK src dst OK ?s2)"
  have cp: "copy_from_proxy E rp (p_umsg (procs s rp)) (usr_h + cu_offset) dst (p_umsg (procs s dst)) 36 s = (?s1, OK)"
    using rp(2) mm copy_block [of 36 s rp dst E "usr_h + cu_offset" "p_umsg (procs s dst)"]
    by (simp add: copy_from_proxy_def)
  have spne: "sp \<noteq> src" "sp \<noteq> dst" using sp(1) pr by (simp_all add: NODE2SPROXY_def)
  have sp2: "sp = NODE2SPROXY ?s2 (p_nodeid (procs ?s2 src))" "p_rts_flags (procs ?s2 sp) \<noteq> SLOT_FREE"
    using sp spne by simp_all
  note ack = generic_ack_effect [OF pr(1) sp2, where E = E and ack = CMD_SEND_ACK and lcl = dst and rc = OK]
  have call: "send_rmt2lcl E usr_h h src dst s = (up_if_ready E dst OK
      (upd dst (\<lambda>x. x\<lparr>p_getfrom := NONE\<rparr>) (clear_rts BIT_RECEIVING dst ?s3)), OK)"
    using w cp c rp(1) by (simp add: send_rmt2lcl_def Let_def)
  have d3: "p_rts_flags (procs ?s3 dst) = p_rts_flags (procs s dst)" "p_pseudosem (procs ?s3 dst) = p_pseudosem (procs s dst)"
    using ack(3) [OF pr(2)] pr(3) by auto
  have l3: "p_list (procs ?s3 sp) = p_list (procs s sp) @ [src]" using ack(1) [where q = sp] spne by simp
  have u3: "umem ?s3 = umem ?s1" using ack(4) by simp
  show ?thesis
    unfolding call using pr(3) spne d3 l3 u3 ack(2)
    by (auto simp: up_if_ready_def unset_receiving_8 Let_def)
qed

text \<open>The message of a command is the payload of its header.\<close>

lemma header_payload: "read_mem m (a + cu_offset) MSG_SIZE = c_u (decode_cmd (read_mem m a HDR_SIZE))"
  by (rule nth_equalityI) (auto simp: decode_cmd_def read_mem_def algebra_simps)

text \<open>What the receiver proxy finds when it hands a SEND command for \<open>lcl\<close> to the module.\<close>

definition inbound_send :: "env \<Rightarrow> kstate \<Rightarrow> int \<Rightarrow> pref \<Rightarrow> addr \<Rightarrow> cmd \<Rightarrow> pref \<Rightarrow> pref \<Rightarrow> bool" where
  "inbound_send E s tid rp usr_hdr h rmt lcl \<longleftrightarrow>
     \<not> rts s rp BIT_SLOT_FREE \<and> mis s rp MIS_BIT_PROXY \<and> mis s rp MIS_BIT_CONNECTED \<and> \<not> mis s rp MIS_BIT_KTHREAD
     \<and> e_uncopied E (mm_of_task s tid) usr_hdr HDR_SIZE = 0 \<and> mm_of s rp = mm_of_task s tid
     \<and> h = decode_cmd (read_mem (umem s (mm_of_task s tid)) usr_hdr HDR_SIZE) \<and> c_cmd h = CMD_SEND_MSG
     \<and> rp = NODE2RPROXY s (p_nodeid (procs s rmt)) \<and> put2lcl_range h s = OK
     \<and> rmt = NBR2PTR s (c_dcid h) (ENDPOINT_P (c_src h)) \<and> lcl = NBR2PTR s (c_dcid h) (ENDPOINT_P (c_dst h))
     \<and> rmt \<noteq> lcl \<and> put2lcl_status h rmt lcl s = OK
     \<and> p_rts_flags (procs s (NODE2SPROXY s (p_nodeid (procs s rmt)))) \<noteq> SLOT_FREE"

lemma put2lcl_body_delivers:
  assumes ib: "inbound_send E s tid rp usr_hdr h rmt lcl"
    and w: "waiting_for s lcl (p_endpoint (procs s rmt))" "p_rts_flags (procs s lcl) = 8"
    and mm: "mm_of s rp \<noteq> mm_of s lcl" "pages_ok E (mm_of s rp) (usr_hdr + cu_offset) MSG_SIZE"
      "pages_ok E (mm_of s lcl) (p_umsg (procs s lcl)) MSG_SIZE"
    and sp: "sp = NODE2SPROXY s (p_nodeid (procs s rmt))"
  shows "\<exists>s'. mm_put2lcl_body E tid usr_hdr usr_pay rp s = (s', Return OK)
    \<and> umem s' = (umem s)(mm_of s lcl := write_mem (p_umsg (procs s lcl)) (c_u h) (umem s (mm_of s lcl)))
    \<and> \<not> rts s' lcl BIT_RECEIVING \<and> p_rcode (procs s' lcl) = OK \<and> p_pseudosem (procs s' lcl) = p_pseudosem (procs s lcl) + 1
    \<and> p_list (procs s' sp) = p_list (procs s sp) @ [rmt]
    \<and> c_cmd (p_rmtcmd (procs s' rmt)) = CMD_SEND_ACK \<and> c_dst (p_rmtcmd (procs s' rmt)) = p_endpoint (procs s rmt)
    \<and> c_rcode (p_rmtcmd (procs s' rmt)) = OK"
proof -
  have i: "\<not> rts s rp BIT_SLOT_FREE" "mis s rp MIS_BIT_PROXY" "mis s rp MIS_BIT_CONNECTED" "\<not> mis s rp MIS_BIT_KTHREAD"
    "e_uncopied E (mm_of_task s tid) usr_hdr HDR_SIZE = 0" "mm_of s rp = mm_of_task s tid"
    "h = decode_cmd (read_mem (umem s (mm_of_task s tid)) usr_hdr HDR_SIZE)" "c_cmd h = CMD_SEND_MSG"
    "rp = NODE2RPROXY s (p_nodeid (procs s rmt))" "put2lcl_range h s = OK" "rmt \<noteq> lcl" "put2lcl_status h rmt lcl s = OK"
    "p_rts_flags (procs s (NODE2SPROXY s (p_nodeid (procs s rmt)))) \<noteq> SLOT_FREE"
    and ptr: "rmt = NBR2PTR s (c_dcid h) (ENDPOINT_P (c_src h))" "lcl = NBR2PTR s (c_dcid h) (ENDPOINT_P (c_dst h))"
    using ib unfolding inbound_send_def by blast+
  define s1 where "s1 = upd rp (\<lambda>x. x\<lparr>p_rmtcmd := h\<rparr>) (upd rp (\<lambda>x. x\<lparr>p_umsg := usr_pay\<rparr>) s)"
  define s2 where "s2 = s1\<lparr>node := (node s1)(c_snode h := (node s1 (c_snode h))\<lparr>n_rtimestamp := e_now E\<rparr>)\<rparr>"
  define s3 where "s3 = upd rp (\<lambda>x. x\<lparr>p_dcid := dc_dcid (dc s2 (c_dcid h))\<rparr>) s2"
  obtain a b where rmt: "rmt = DcProc a b" using ptr(1) by (simp add: NBR2PTR_def)
  obtain e f where lcl: "lcl = DcProc e f" using ptr(2) by (simp add: NBR2PTR_def)
  have ne: "rp \<noteq> rmt" "rp \<noteq> lcl" "sp \<noteq> rp" "sp \<noteq> rmt" "sp \<noteq> lcl" using i(9) rmt lcl sp by (auto simp: NODE2RPROXY_def NODE2SPROXY_def)
  have hd: "put2lcl_header E tid rp usr_hdr usr_pay s = (s1, h)"
    using i(4,5) by (simp add: put2lcl_header_def i(7) copy_from_user_def s1_def Let_def mm_of_task_def)
  have q3: "procs s3 q = procs s q" if "q \<noteq> rp" for q using that by (simp add: s3_def s2_def s1_def)
  have f3: "dc s3 = dc s" "dvs s3 = dvs s" "local_nodeid s3 = local_nodeid s" "umem s3 = umem s" "tasks s3 = tasks s"
    by (simp_all add: s3_def s2_def s1_def)
  have n3: "n_proxies (node s3 n) = n_proxies (node s n)" for n by (simp add: s3_def s2_def s1_def)
  have "p_task (procs s3 q) = p_task (procs s q)" for q by (simp add: s3_def s2_def s1_def)
  then have mm3: "mm_of s3 q = mm_of s q" for q by (simp add: mm_of_def f3(5) split: option.split)
  have chk: "put2lcl_range h s1 = OK" "NBR2PTR s2 (c_dcid h) x = NBR2PTR s (c_dcid h) x"
    "put2lcl_status h rmt lcl s2 = OK" for x
    using i(10,12) ne by (simp_all add: put2lcl_range_def put2lcl_status_def s2_def s1_def NBR2PTR_def IT_IS_REMOTE_def Let_def split: if_splits)
  have snd: "waiting_for s3 lcl (p_endpoint (procs s3 rmt))" "rp = NODE2RPROXY s3 (p_nodeid (procs s3 rmt))"
    "\<not> mis s3 rp MIS_BIT_KTHREAD" "sp = NODE2SPROXY s3 (p_nodeid (procs s3 rmt))" "p_rts_flags (procs s3 sp) \<noteq> SLOT_FREE"
    using i(4,9,13) w(1) sp ne by (simp_all add: waiting_for_def q3 NODE2RPROXY_def NODE2SPROXY_def n3) (simp add: s3_def s2_def s1_def)
  obtain s4 where s4: "send_rmt2lcl E usr_hdr h rmt lcl s3 = (s4, OK)"
    "umem s4 = (umem s)(mm_of s lcl := write_mem (p_umsg (procs s lcl))
        (read_mem (umem s (mm_of s rp)) (usr_hdr + cu_offset) MSG_SIZE) (umem s (mm_of s lcl)))"
    "\<not> rts s4 lcl BIT_RECEIVING" "p_rcode (procs s4 lcl) = OK" "p_pseudosem (procs s4 lcl) = p_pseudosem (procs s lcl) + 1"
    "p_list (procs s4 sp) = p_list (procs s sp) @ [rmt]" "c_cmd (p_rmtcmd (procs s4 rmt)) = CMD_SEND_ACK"
    "c_dst (p_rmtcmd (procs s4 rmt)) = p_endpoint (procs s rmt)" "c_rcode (p_rmtcmd (procs s4 rmt)) = OK"
    using send_rmt2lcl_delivers [OF snd(1) rmt lcl i(11) snd(2-5), of E usr_hdr h] i(8) mm w(2) ne
    by (auto simp: mm3 q3 f3 Let_def)
  have "mm_put2lcl_body E tid usr_hdr usr_pay rp s
      = (upd rp (\<lambda>x. x\<lparr>p_dcid := - 1\<rparr>) (put2lcl_count rp h lcl s4), Return OK)"
    using i(1-3,8) hd chk s4(1) by (simp add: mm_put2lcl_body_def put2lcl_dispatch_def Let_def flip: ptr s2_def s3_def)
  moreover have "read_mem (umem s (mm_of s rp)) (usr_hdr + cu_offset) MSG_SIZE = c_u h"
    using i(6,7) by (simp add: header_payload)
  ultimately show ?thesis using s4 ne i(8) by (simp add: put2lcl_count_def Let_def)
qed

text \<open>A message that a remote process sends to a local process blocked receiving from it (or from
  anyone) is copied byte for byte from the proxy into the receiver's buffer, the receiver stops
  receiving and is woken with OK when nothing else holds it, and an acknowledgement with code OK from
  the receiver to the sender is appended to the queue of the sender proxy of the sender's node.\<close>

theorem put2lcl_send_delivers:
  assumes w: "waiting_for s dst (p_endpoint (procs s src))"
    and pr: "src = DcProc a b" "dst = DcProc e f" "src \<noteq> dst"
    and rp: "rp = NODE2RPROXY s (p_nodeid (procs s src))" "\<not> mis s rp MIS_BIT_KTHREAD"
    and sp: "sp = NODE2SPROXY s (p_nodeid (procs s src))" "p_rts_flags (procs s sp) \<noteq> SLOT_FREE"
    and mm: "mm_of s rp \<noteq> mm_of s dst" "pages_ok E (mm_of s rp) (usr_h + cu_offset) MSG_SIZE"
      "pages_ok E (mm_of s dst) (p_umsg (procs s dst)) MSG_SIZE"
    and c: "c_cmd h \<noteq> CMD_SNDREC_MSG"
  shows "\<exists>s'. send_rmt2lcl E usr_h h src dst s = (s', OK)
    \<and> umem s' = (umem s)(mm_of s dst := write_mem (p_umsg (procs s dst))
        (read_mem (umem s (mm_of s rp)) (usr_h + cu_offset) MSG_SIZE) (umem s (mm_of s dst)))
    \<and> \<not> rts s' dst BIT_RECEIVING \<and> p_getfrom (procs s' dst) = NONE
    \<and> (p_rts_flags (procs s dst) = 8 \<longrightarrow> p_rcode (procs s' dst) = OK
          \<and> p_pseudosem (procs s' dst) = p_pseudosem (procs s dst) + 1)
    \<and> p_list (procs s' sp) = p_list (procs s sp) @ [src]
    \<and> (let k = p_rmtcmd (procs s' src) in c_cmd k = CMD_SEND_ACK \<and> c_src k = p_endpoint (procs s dst)
         \<and> c_dst k = p_endpoint (procs s src) \<and> c_dnode k = p_nodeid (procs s src) \<and> c_rcode k = OK)"
  using assms by (rule send_rmt2lcl_delivers)

text \<open>A message from a remote process to a local one that is not waiting for it is not lost: it is
  kept in the remote process's descriptor, which becomes the last of the receiver's queue of senders
  (and is also marked as receiving when the remote call was a sendrec); nothing else is queued.\<close>

theorem put2lcl_send_queues:
  assumes "\<not> waiting_for s dst (p_endpoint (procs s src))" "src \<noteq> dst" "length (c_u h) = MSG_SIZE"
  shows "\<exists>s'. send_rmt2lcl E usr_h h src dst s = (s', OK)
    \<and> p_list (procs s' dst) = p_list (procs s dst) @ [src]
    \<and> (\<forall>q. q \<noteq> dst \<longrightarrow> p_list (procs s' q) = p_list (procs s q))
    \<and> p_message (procs s' src) = c_u h \<and> rts s' src BIT_SENDING
    \<and> p_sendto (procs s' src) = p_endpoint (procs s dst)
    \<and> (c_cmd h = CMD_SNDREC_MSG \<longrightarrow> rts s' src BIT_RECEIVING \<and> p_getfrom (procs s' src) = p_endpoint (procs s dst))
    \<and> umem s' = umem s"
  using assms by (simp add: send_rmt2lcl_def Let_def)

theorem put2lcl_send_queues_witness:
  "\<exists>s'. send_rmt2lcl scn_env 8192 zero_cmd (DcProc 0 40) (DcProc 0 37) scn = (s', OK)
    \<and> p_list (procs s' (DcProc 0 37)) = [DcProc 0 40]"
proof -
  have "\<not> waiting_for scn (DcProc 0 37) (p_endpoint (procs scn (DcProc 0 40)))"
    "p_list (procs scn (DcProc 0 37)) = []" "length (c_u zero_cmd) = MSG_SIZE"
    by (simp_all add: waiting_for_def scn_defs zero_message_def)
  then show ?thesis
    using put2lcl_send_queues [of scn "DcProc 0 37" "DcProc 0 40" zero_cmd scn_env 8192] by auto
qed

theorem put2lcl_send_delivers_witness:
  "\<exists>s'. send_rmt2lcl scn_env 8192 zero_cmd (DcProc 0 40) (DcProc 0 37) scn_waiting = (s', OK)
    \<and> umem s' = (umem scn_waiting)(102 := write_mem 4096 (read_mem (umem scn_waiting 302) 8244 36) (umem scn_waiting 102))
    \<and> p_list (procs s' (Sproxy 1)) = [DcProc 0 40]"
proof -
  have "waiting_for scn_waiting (DcProc 0 37) (p_endpoint (procs scn_waiting (DcProc 0 40)))"
    "NODE2RPROXY scn_waiting (p_nodeid (procs scn_waiting (DcProc 0 40))) = Rproxy 1"
    "NODE2SPROXY scn_waiting (p_nodeid (procs scn_waiting (DcProc 0 40))) = Sproxy 1"
    by (simp_all add: waiting_for_def NODE2RPROXY_def NODE2SPROXY_def scn_waiting_def scn_defs)
  moreover have "\<not> mis scn_waiting (Rproxy 1) MIS_BIT_KTHREAD" "p_rts_flags (procs scn_waiting (Sproxy 1)) \<noteq> SLOT_FREE"
    "mm_of scn_waiting (Rproxy 1) = 302" "mm_of scn_waiting (DcProc 0 37) = 102" "c_cmd zero_cmd \<noteq> CMD_SNDREC_MSG"
    "p_umsg (procs scn_waiting (DcProc 0 37)) = 4096" "p_list (procs scn_waiting (Sproxy 1)) = []"
    by (simp_all add: mm_of_def scn_waiting_def scn_defs)
  ultimately show ?thesis
    using put2lcl_send_delivers [of scn_waiting "DcProc 0 37" "DcProc 0 40" 0 40 0 37 "Rproxy 1" "Sproxy 1"
        scn_env 8192 zero_cmd]
    by auto
qed

end
