(* ===== verification/Sproxy.thy ===== *)
theory Sproxy
  imports Rproxy
begin

text \<open>
  The sender proxy (\<open>src/mol-module/mm_sproxy.c\<close>): \<open>mm_get2rmt\<close> takes the
  next command off the queue of the proxy, skips or refuses the ones that can no
  longer be sent (a stopped DC, a migrated process), copies the header and the
  payload to the proxy, and sleeps when the queue has nothing to send.
\<close>

section \<open>One command\<close>

definition copy_to_proxy ::
  "env \<Rightarrow> pref \<Rightarrow> addr \<Rightarrow> pref \<Rightarrow> addr \<Rightarrow> int \<Rightarrow> kstate \<Rightarrow> kstate \<times> int" where
  "copy_to_proxy E src sa sp pay n s =
    (if mis s sp MIS_BIT_KTHREAD then copy_usr2krn E NONE src sa pay n s
     else copy_usr2usr E NONE src sa sp pay n s)"

definition get2rmt_status :: "pref \<Rightarrow> pref \<Rightarrow> kstate \<Rightarrow> int" where
  "get2rmt_status sp x s =
    (let dcid = p_dcid (procs s x); dnode = c_dnode (p_rmtcmd (procs s x)) in
     if rts s x BIT_SLOT_FREE then EMOLNOTBIND
     else if \<not> node_bit dcid (n_dcs (node s dnode)) then EMOLNODCNODE
     else if dcid < 0 \<or> dcid \<ge> d_nr_dcs (dvs s) then EMOLBADDCID
     else if rts s x BIT_MIGRATE then EMOLMIGRATE
     else if \<not> node_bit dnode (p_nodemap (procs s sp)) then EMOLNONODE
     else OK)"

text \<open>A descriptor of a remote process carries an acknowledgement (or data it asked for).\<close>

definition send_data :: "env \<Rightarrow> pref \<Rightarrow> addr \<Rightarrow> pref \<Rightarrow> pref \<Rightarrow> kstate \<Rightarrow> kstate \<times> int" where
  "send_data E sp pay src x s =
    (let k = p_rmtcmd (procs s x); u = c_u k;
         ret = (if v_bytes u > NODE2MAXBYTES s (c_dnode k) then EMOL2BIG else OK)
     in if c_rcode k = OK then copy_to_proxy E src (v_saddr u) sp pay (v_bytes u) s else (s, ret))"

definition get2rmt_remote :: "env \<Rightarrow> pref \<Rightarrow> addr \<Rightarrow> pref \<Rightarrow> kstate \<Rightarrow> kstate \<times> int" where
  "get2rmt_remote E sp pay x s =
    (let k = p_rmtcmd (procs s x); c = c_cmd k; u = c_u k; d = p_dcid (procs s x);
         src = ENDPOINT2PTR s d (v_src u); dst = ENDPOINT2PTR s d (v_dst u) in
     if c = CMD_SEND_ACK \<or> c = CMD_SNDREC_ACK then (s, OK)
     else if c = CMD_COPYIN_ACK then
       (if p_endpoint (procs s dst) = c_src k then (clear_rts BIT_ONCOPY dst s, OK) else (s, EMOLBADPROC))
     else if c = CMD_COPYOUT_DATA then
       (if p_endpoint (procs s src) = c_src k then
          let (s1, ret) = send_data E sp pay src x s in (clear_rts BIT_ONCOPY src s1, ret)
        else (s, EMOLBADPROC))
     else if c = CMD_COPYIN_RQST then
       (if p_endpoint (procs s src) = c_src k then
          let (s1, ret) = send_data E sp pay src x s
          in (clear_rts BIT_ONCOPY x (clear_rts BIT_ONCOPY src s1), ret)
        else (s, EMOLBADPROC))
     else if c = CMD_COPYLCL_ACK then
       (if p_endpoint (procs s src) = c_src k
        then (clear_rts BIT_ONCOPY x (clear_rts BIT_ONCOPY src s), OK) else (s, EMOLBADPROC))
     else if c = CMD_COPYRMT_ACK then
       (if p_endpoint (procs s dst) = c_src k \<and> p_endpoint (procs s x) = v_rqtr u
        then (clear_rts BIT_ONCOPY x (clear_rts BIT_ONCOPY dst (clear_rts BIT_ONCOPY src s)), OK)
        else (s, EMOLBADPROC))
     else (s, EMOLINVAL))"

text \<open>A descriptor of a local process carries a request.\<close>

definition set_source :: "pref \<Rightarrow> kstate \<Rightarrow> kstate" where
  "set_source x s = set_cmd (\<lambda>k. k\<lparr>c_u := put_i32 0 (p_endpoint (procs s x)) (c_u k)\<rparr>) x s"

definition get2rmt_local :: "env \<Rightarrow> pref \<Rightarrow> addr \<Rightarrow> pref \<Rightarrow> kstate \<Rightarrow> kstate \<times> int" where
  "get2rmt_local E sp pay x s =
    (let k = p_rmtcmd (procs s x); c = c_cmd k; u = c_u k; d = p_dcid (procs s x);
         src = ENDPOINT2PTR s d (v_src u) in
     if c = CMD_COPYIN_DATA then
       (if v_bytes u > NODE2MAXBYTES s (c_dnode k) then (s, EMOL2BIG)
        else copy_to_proxy E src (v_saddr u) sp pay (v_bytes u) s)
     else if c = CMD_COPYOUT_RQST \<or> c = CMD_COPYLCL_RQST \<or> c = CMD_COPYRMT_RQST then (s, OK)
     else if c = CMD_SNDREC_MSG then
       (set_source x (clear_rts BIT_SENDING x (upd x (\<lambda>y. y\<lparr>p_sendto := NONE\<rparr>) s)), OK)
     else if c = CMD_SEND_MSG \<or> c = CMD_REPLY_MSG then (set_source x s, OK)
     else if c = CMD_NTFY_MSG then
       let s1 = set_source x (upd x (\<lambda>y. y\<lparr>p_sendto := NONE\<rparr>) s);
           s2 = clear_rts BIT_RMTOPER x (clear_rts BIT_SENDING x s1)
       in (up_if_ready E x OK s2, OK)
     else (s, EMOLINVAL))"

text \<open>Handing the header over.\<close>

definition get2rmt_header :: "env \<Rightarrow> int \<Rightarrow> pref \<Rightarrow> addr \<Rightarrow> pref \<Rightarrow> kstate \<Rightarrow> kstate" where
  "get2rmt_header E tid sp usr_hdr x s =
    (let bytes = encode_cmd (p_rmtcmd (procs s x)); n = c_dnode (p_rmtcmd (procs s x));
         s1 = (if mis s sp MIS_BIT_KTHREAD then s\<lparr>kmem := write_mem usr_hdr bytes (kmem s)\<rparr>
               else fst (copy_to_user E (mm_of_task s tid) usr_hdr bytes s));
         s2 = upd x (\<lambda>y. y\<lparr>p_rmtcmd := (p_rmtcmd y)\<lparr>c_cmd := CMD_NONE\<rparr>, p_proxy := NONE\<rparr>) s1;
         s3 = upd sp (\<lambda>y. y\<lparr>p_getfrom := NONE\<rparr>) s2;
         s4 = s3\<lparr>node := (node s3)(n := (node s3 n)\<lparr>n_stimestamp := e_now E,
                n_pxsent := n_pxsent (node s3 n) + 1\<rparr>)\<rparr>
     in upd sp (\<lambda>y. y\<lparr>p_rmtsent := p_rmtsent y + 1, p_dcid := - 1\<rparr>) s4)"

text \<open>One descriptor of the queue: sent (or refused) with a return code, or skipped.\<close>

definition get2rmt_one ::
  "env \<Rightarrow> int \<Rightarrow> pref \<Rightarrow> addr \<Rightarrow> addr \<Rightarrow> pref \<Rightarrow> kstate \<Rightarrow> kstate \<times> int option" where
  "get2rmt_one E tid sp hdr pay x s =
    (let s1 = LIST_DEL_INIT x s; st = get2rmt_status sp x s1; d = p_dcid (procs s1 x);
         ret = (if st = OK then (if dc_flags (dc s1 d) \<noteq> 0 then EMOLDCNOTRUN else OK) else st);
         s2 = (if ret = OK then upd sp (\<lambda>y. y\<lparr>p_dcid := dc_dcid (dc s1 d)\<rparr>) s1 else s1) in
     if ret \<noteq> OK then
       let s3 = upd x (\<lambda>y. y\<lparr>p_proxy := NONE\<rparr>) s2 in
       if \<not> IT_IS_REMOTE s3 x then (READY_UP_RCODE E x ret (upd x (\<lambda>y. y\<lparr>p_rts_flags := 0\<rparr>) s3), Some ret)
       else (upd x (\<lambda>y. y\<lparr>p_rts_flags := REMOTE\<rparr>) s3, None)
     else if \<not> IT_IS_REMOTE s2 x \<and> c_dnode (p_rmtcmd (procs s2 x))
               \<noteq> p_nodeid (procs s2 (ENDPOINT2PTR s2 d (c_dst (p_rmtcmd (procs s2 x))))) then
       (READY_UP_RCODE E x EMOLMIGRATE
          (upd x (\<lambda>y. y\<lparr>p_sendto := NONE, p_proxy := NONE, p_rts_flags := 0\<rparr>) s2), None)
     else
       let s3 = set_cmd (\<lambda>k. k\<lparr>c_timestamp := e_now E\<rparr>) x s2 in
       if IT_IS_REMOTE s3 x then
         let (s4, r) = get2rmt_remote E sp pay x s3 in
         if r \<noteq> OK then
           (upd sp (\<lambda>y. y\<lparr>p_dcid := - 1\<rparr>) (upd x (\<lambda>y. y\<lparr>p_rts_flags := REMOTE\<rparr>) s4), Some r)
         else
           (get2rmt_header E tid sp hdr x
              (upd x (\<lambda>y. y\<lparr>p_sendto := NONE\<rparr>) (clear_rts BIT_RMTOPER x (clear_rts BIT_SENDING x s4))), Some OK)
       else
         let (s4, r) = get2rmt_local E sp pay x (clear_rts BIT_RMTOPER x s3);
             s5 = upd x (\<lambda>y. y\<lparr>p_proxy := NONE\<rparr>) s4 in
         if r \<noteq> OK then
           (upd sp (\<lambda>y. y\<lparr>p_dcid := - 1\<rparr>)
              (READY_UP_RCODE E x r (upd x (\<lambda>y. y\<lparr>p_rts_flags := 0\<rparr>) s5)), Some r)
         else (get2rmt_header E tid sp hdr x s5, Some OK))"

section \<open>mm_get2rmt\<close>

text \<open>\<open>LIST_FOR_EACH_ENTRY_SAFE\<close> reads the successor of an entry before the body runs.  An entry
  that \<open>LIST_DEL_INIT\<close> has taken out of the queue is linked to itself; after the last entry
  comes the head of the list, where the loop ends.  (A descriptor that is in another queue by then is not
  followed there.)\<close>

fun list_next :: "pref \<Rightarrow> pref list \<Rightarrow> pref option" where
  "list_next x [] = Some x"
| "list_next x (y # ys) =
    (if x = y then (case ys of [] \<Rightarrow> None | z # zs \<Rightarrow> Some z) else list_next x ys)"

text \<open>The result of the sleep of the proxy is in its \<open>p_rcode\<close>.\<close>

definition get2rmt_fail :: "pref \<Rightarrow> kstate \<Rightarrow> kstate \<times> outcome" where
  "get2rmt_fail sp s =
     (upd sp (\<lambda>y. y\<lparr>p_rts_flags := PROC_RUNNING\<rparr>) s, Return (p_rcode (procs s sp)))"

text \<open>The loop at the entry \<open>cur\<close>, or at the head of the list, where the proxy sleeps.  The body
  gives up the lock of the proxy as it starts and takes it again when an entry is skipped, so that other
  threads may change the queue between two entries: \<open>Goto\<close> keeps the successor that was read before.
  What they do while the entry is worked on is placed after that work.\<close>

definition get2rmt_at ::
  "env \<Rightarrow> int \<Rightarrow> pref \<Rightarrow> addr \<Rightarrow> addr \<Rightarrow> int \<Rightarrow> pref option \<Rightarrow> kstate \<Rightarrow> kstate \<times> outcome" where
  "get2rmt_at E tid sp hdr pay timeout cur s =
    (case cur of
       None \<Rightarrow>
        let s1 = set_rts BIT_RECEIVING sp (upd sp (\<lambda>y. y\<lparr>p_getfrom := ANY\<rparr>) s)
        in sleep_or sp timeout (PP_get2rmt sp hdr pay timeout) (get2rmt_fail sp) s1
     | Some x \<Rightarrow>
        let nxt = list_next x (p_list (procs s sp)) in
        (case get2rmt_one E tid sp hdr pay x s of
           (s1, Some r) \<Rightarrow> (s1, Return r)
         | (s1, None) \<Rightarrow> (s1, Goto (PP_get2rmt_next sp hdr pay timeout nxt))))"

definition get2rmt_loop ::
  "env \<Rightarrow> int \<Rightarrow> pref \<Rightarrow> addr \<Rightarrow> addr \<Rightarrow> int \<Rightarrow> kstate \<Rightarrow> kstate \<times> outcome" where
  "get2rmt_loop E tid sp hdr pay timeout s =
    get2rmt_at E tid sp hdr pay timeout (case p_list (procs s sp) of [] \<Rightarrow> None | x # xs \<Rightarrow> Some x) s"

definition get2rmt_post ::
  "env \<Rightarrow> int \<Rightarrow> pref \<Rightarrow> addr \<Rightarrow> addr \<Rightarrow> int \<Rightarrow> kstate \<Rightarrow> kstate \<times> outcome" where
  "get2rmt_post E tid sp hdr pay timeout s =
    (if p_rcode (procs s sp) \<noteq> OK then get2rmt_fail sp s else get2rmt_loop E tid sp hdr pay timeout s)"

definition mm_get2rmt_body ::
  "env \<Rightarrow> int \<Rightarrow> addr \<Rightarrow> addr \<Rightarrow> int \<Rightarrow> pref \<Rightarrow> kstate \<Rightarrow> kstate \<times> outcome" where
  "mm_get2rmt_body E tid hdr pay timeout sp s =
    (if \<not> mis s sp MIS_BIT_PROXY then (s, Return EMOLNOPROXY)
     else if \<not> mis s sp MIS_BIT_CONNECTED then (s, Return EMOLNOTCONN)
     else
      let s1 = upd sp (\<lambda>y. y\<lparr>p_umsg := pay\<rparr>) s in
      if sp \<noteq> Sproxy (p_nr (procs s1 sp)) then (s1, Return EMOLBADPROXY)
      else get2rmt_loop E tid sp hdr pay timeout s1)"

definition mm_get2rmt :: "env \<Rightarrow> int \<Rightarrow> addr \<Rightarrow> addr \<Rightarrow> int \<Rightarrow> kstate \<Rightarrow> kstate \<times> outcome" where
  "mm_get2rmt E tid hdr pay timeout s =
    (if t_euid (tasks s tid) \<noteq> USER_ROOT then (s, Return EPERM_NEG)
     else if DVS_NOT_INIT s then (s, Return EMOLDVSINIT)
     else after_check (Get2rmt hdr pay timeout)
            (\<lambda>sp pid. mm_get2rmt_body E tid hdr pay timeout sp) (check_caller tid s))"

section \<open>Behaviour\<close>

lemma ENDPOINT2PTR_cong [simp]: "ENDPOINT2PTR (LIST_DEL_INIT p s) d e = ENDPOINT2PTR s d e"
  "ENDPOINT2PTR (upd p f s) d e = ENDPOINT2PTR s d e"
  by (simp_all add: ENDPOINT2PTR_def NBR2PTR_def)

lemma ENDPOINT2PTR_DcProc: "\<exists>i. ENDPOINT2PTR s d e = DcProc d i"
  by (simp add: ENDPOINT2PTR_def NBR2PTR_def)

lemma get2rmt_status_del [simp]: "get2rmt_status sp x (LIST_DEL_INIT y s) = get2rmt_status sp x s"
  by (simp add: get2rmt_status_def Let_def)

lemma mm_of_task_cong [simp]: "mm_of_task (upd p f s) t = mm_of_task s t"
  "mm_of_task (LIST_DEL_INIT p s) t = mm_of_task s t"
  by (simp_all add: mm_of_task_def)

lemma get2rmt_header_fields [simp]:
  "p_list (procs (get2rmt_header E tid sp hdr x s) q) = p_list (procs s q)"
  "p_rts_flags (procs (get2rmt_header E tid sp hdr x s) q) = p_rts_flags (procs s q)"
  "p_rcode (procs (get2rmt_header E tid sp hdr x s) q) = p_rcode (procs s q)"
  "p_pseudosem (procs (get2rmt_header E tid sp hdr x s) q) = p_pseudosem (procs s q)"
  "p_sendto (procs (get2rmt_header E tid sp hdr x s) q) = p_sendto (procs s q)"
  by (simp_all add: get2rmt_header_def Let_def)

lemma get2rmt_header_bytes:
  assumes "\<not> mis s sp MIS_BIT_KTHREAD" "cmd_ok (p_rmtcmd (procs s x))"
    "e_uncopied E (mm_of_task s tid) hdr HDR_SIZE = 0"
  shows "decode_cmd (read_mem (umem (get2rmt_header E tid sp hdr x s) (mm_of_task s tid)) hdr HDR_SIZE)
     = p_rmtcmd (procs s x)"
proof -
  let ?k = "p_rmtcmd (procs s x)"
  have len: "length (encode_cmd ?k) = HDR_SIZE" using assms(2) by (simp add: length_encode_cmd cmd_ok_def)
  have "read_mem (umem (get2rmt_header E tid sp hdr x s) (mm_of_task s tid)) hdr HDR_SIZE = encode_cmd ?k"
    using assms(1,3) len read_write_mem [of "encode_cmd ?k" hdr "umem s (mm_of_task s tid)"]
    by (simp add: get2rmt_header_def Let_def copy_to_user_ok)
  moreover have "decode_cmd (encode_cmd ?k) = ?k"
    using assms(2) by (cases ?k) (simp add: decode_cmd_def encode_cmd_def cmd_ok_def get_i32_skips
        get_i32_here bytes_i32_i32_bytes word_of_bytes)
  ultimately show ?thesis by simp
qed

text \<open>What the header of a queued message becomes on its way out.\<close>

definition stamped :: "env \<Rightarrow> int \<Rightarrow> cmd \<Rightarrow> cmd" where
  "stamped E ep k = k\<lparr>c_timestamp := e_now E, c_u := put_i32 0 ep (c_u k)\<rparr>"

lemma cmd_ok_stamped: "cmd_ok k \<Longrightarrow> int32 (fst (e_now E)) \<Longrightarrow> int32 (snd (e_now E)) \<Longrightarrow> cmd_ok (stamped E ep k)"
  by (simp add: cmd_ok_def stamped_def)

lemma get2rmt_head:
  assumes q: "p_list (procs s sp) = x # xs" "sp = Sproxy n" "x = DcProc d i"
    and k: "k = p_rmtcmd (procs s x)" "c_cmd k = CMD_SEND_MSG \<or> c_cmd k = CMD_REPLY_MSG" "cmd_ok k"
    and st: "get2rmt_status sp x s = OK" "dc_flags (dc s (p_dcid (procs s x))) = 0" "\<not> IT_IS_REMOTE s x"
      "c_dnode k = p_nodeid (procs s (ENDPOINT2PTR s (p_dcid (procs s x)) (c_dst k)))"
    and px: "\<not> mis s sp MIS_BIT_KTHREAD" "e_uncopied E (mm_of_task s tid) hdr HDR_SIZE = 0"
    and now: "int32 (fst (e_now E))" "int32 (snd (e_now E))"
  shows "\<exists>s'. get2rmt_loop E tid sp hdr pay t s = (s', Return OK) \<and> p_list (procs s' sp) = xs
    \<and> decode_cmd (read_mem (umem s' (mm_of_task s tid)) hdr HDR_SIZE) = stamped E (p_endpoint (procs s x)) k
    \<and> (rts s' x BIT_SENDING \<longleftrightarrow> rts s x BIT_SENDING) \<and> \<not> rts s' x BIT_RMTOPER
    \<and> p_pseudosem (procs s' x) = p_pseudosem (procs s x)"
proof -
  have ne: "sp \<noteq> x" using q by simp
  obtain j where j: "ENDPOINT2PTR s (p_dcid (procs s x)) (c_dst k) = DcProc (p_dcid (procs s x)) j"
    using ENDPOINT2PTR_DcProc by blast
  define s2 where "s2 = upd sp (\<lambda>y. y\<lparr>p_dcid := dc_dcid (dc s (p_dcid (procs s x)))\<rparr>) (LIST_DEL_INIT x s)"
  define s3 where "s3 = clear_rts BIT_RMTOPER x (set_cmd (\<lambda>k. k\<lparr>c_timestamp := e_now E\<rparr>) x s2)"
  define s5 where "s5 = upd x (\<lambda>y. y\<lparr>p_proxy := NONE\<rparr>) (set_source x s3)"
  have lc: "get2rmt_local E sp pay x s3 = (set_source x s3, OK)"
    using k ne by (auto simp: get2rmt_local_def s3_def s2_def Let_def)
  have one: "get2rmt_one E tid sp hdr pay x s = (get2rmt_header E tid sp hdr x s5, Some OK)"
    using st k(1) ne j q(2,3) lc unfolding s5_def s3_def s2_def
    by (simp add: get2rmt_one_def Let_def IT_IS_REMOTE_def)
  have k5: "p_rmtcmd (procs s5 x) = stamped E (p_endpoint (procs s x)) k"
    using ne k by (simp add: s5_def s3_def s2_def set_source_def stamped_def)
  have "decode_cmd (read_mem (umem (get2rmt_header E tid sp hdr x s5) (mm_of_task s5 tid)) hdr HDR_SIZE)
      = p_rmtcmd (procs s5 x)"
    by (rule get2rmt_header_bytes)
      (use ne px k now in \<open>simp_all add: k5 cmd_ok_stamped\<close>, simp_all add: s5_def s3_def s2_def set_source_def)
  moreover have "mm_of_task s5 tid = mm_of_task s tid" by (simp add: s5_def s3_def s2_def set_source_def)
  ultimately have b: "decode_cmd (read_mem (umem (get2rmt_header E tid sp hdr x s5) (mm_of_task s tid)) hdr HDR_SIZE)
      = stamped E (p_endpoint (procs s x)) k" using k5 by simp
  have call: "get2rmt_loop E tid sp hdr pay t s = (get2rmt_header E tid sp hdr x s5, Return OK)"
    using q one by (simp add: get2rmt_loop_def get2rmt_at_def)
  show ?thesis
    unfolding call using b ne q
    by (simp add: s5_def s3_def s2_def set_source_def list_del_def)
qed

text \<open>When a local process's message to a process still on the node of the proxy is first in the
  queue, get2rmt returns OK and takes exactly that entry: the header the proxy reads from its buffer is
  the queued command with the sender's endpoint written into m_source and the current time stamp; the
  sender stays blocked SENDING until the acknowledgement, but no longer has a remote operation queued.\<close>

theorem get2rmt_sends_head:
  assumes q: "p_list (procs s sp) = x # xs" "sp = Sproxy n" "x = DcProc d i"
    and k: "k = p_rmtcmd (procs s x)" "c_cmd k = CMD_SEND_MSG \<or> c_cmd k = CMD_REPLY_MSG" "cmd_ok k"
    and st: "get2rmt_status sp x s = OK" "dc_flags (dc s (p_dcid (procs s x))) = 0" "\<not> IT_IS_REMOTE s x"
      "c_dnode k = p_nodeid (procs s (ENDPOINT2PTR s (p_dcid (procs s x)) (c_dst k)))"
    and px: "\<not> mis s sp MIS_BIT_KTHREAD" "e_uncopied E (mm_of_task s tid) hdr HDR_SIZE = 0"
    and now: "int32 (fst (e_now E))" "int32 (snd (e_now E))"
  shows "\<exists>s'. get2rmt_loop E tid sp hdr pay t s = (s', Return OK) \<and> p_list (procs s' sp) = xs
    \<and> decode_cmd (read_mem (umem s' (mm_of_task s tid)) hdr HDR_SIZE) = stamped E (p_endpoint (procs s x)) k
    \<and> (rts s' x BIT_SENDING \<longleftrightarrow> rts s x BIT_SENDING) \<and> \<not> rts s' x BIT_RMTOPER
    \<and> p_pseudosem (procs s' x) = p_pseudosem (procs s x)"
  using assms by (rule get2rmt_head)

text \<open>Process 1 blocked in a send to remote process 5, its command in the queue of proxy 1.\<close>

definition scn_outbox :: kstate where
  "scn_outbox = upd (Sproxy 1) (\<lambda>x. x\<lparr>p_list := [DcProc 0 36]\<rparr>)
     (upd (DcProc 0 36) (\<lambda>x. x\<lparr>p_rts_flags := 8196, p_sendto := 5, p_proxy := 1, p_pseudosem := - 1,
        p_rmtcmd := zero_cmd\<lparr>c_cmd := CMD_SEND_MSG, c_src := 1, c_dst := 5, c_dnode := 1\<rparr>\<rparr>) scn)"

theorem get2rmt_sends_head_witness:
  "\<exists>s'. get2rmt_loop scn_env 301 (Sproxy 1) 4096 8192 TIMEOUT_FOREVER scn_outbox = (s', Return OK)
    \<and> p_list (procs s' (Sproxy 1)) = []
    \<and> decode_cmd (read_mem (umem s' 301) 4096 HDR_SIZE)
        = stamped scn_env 1 (zero_cmd\<lparr>c_cmd := CMD_SEND_MSG, c_src := 1, c_dst := 5, c_dnode := 1\<rparr>)
    \<and> rts s' (DcProc 0 36) BIT_SENDING"
proof -
  have "p_list (procs scn_outbox (Sproxy 1)) = [DcProc 0 36]" "p_endpoint (procs scn_outbox (DcProc 0 36)) = 1"
    "p_dcid (procs scn_outbox (DcProc 0 36)) = 0" "p_rts_flags (procs scn_outbox (DcProc 0 36)) = 8196"
    "p_rmtcmd (procs scn_outbox (DcProc 0 36)) = zero_cmd\<lparr>c_cmd := CMD_SEND_MSG, c_src := 1, c_dst := 5, c_dnode := 1\<rparr>"
    "dc_flags (dc scn_outbox 0) = 0" "\<not> mis scn_outbox (Sproxy 1) MIS_BIT_KTHREAD" "mm_of_task scn_outbox 301 = 301"
    by (simp_all add: scn_outbox_def scn_defs mm_of_task_def)
  moreover have "get2rmt_status (Sproxy 1) (DcProc 0 36) scn_outbox = OK"
    by (simp add: get2rmt_status_def scn_outbox_def scn_defs node_bit_def)
  moreover have "p_nodeid (procs scn_outbox (ENDPOINT2PTR scn_outbox 0 5)) = 1"
    by (simp add: ENDPOINT2PTR_def NBR2PTR_def scn_outbox_def scn_defs)
  moreover have "cmd_ok (zero_cmd\<lparr>c_cmd := CMD_SEND_MSG, c_src := 1, c_dst := 5, c_dnode := 1\<rparr>)"
    by (simp add: cmd_ok_def zero_cmd_def zero_message_def int32_def)
  ultimately show ?thesis
    using get2rmt_sends_head [of scn_outbox "Sproxy 1" "DcProc 0 36" "[]" 1 0 36 _ scn_env 301 4096 8192 "- 1", OF _ _ _ refl]
    by (auto simp: int32_def IT_IS_REMOTE_def zero_cmd_def)
qed

text \<open>C28: a proxy that looks at its queue and goes to sleep at once has found it empty, and no command
  queued while it sleeps is lost: in any later state where the proxy's descriptor is as it went to sleep,
  queueing a command succeeds, makes it the only entry, and raises the semaphore the wait is for; and when
  the wait ends by that wake-up the proxy goes on with just this entry.  (A proxy that sleeps after it has
  skipped entries has given up its lock in between, and this does not hold for it.)\<close>

theorem get2rmt_no_lost_wakeup:
  assumes sp: "sp = Sproxy n" "p_rts_flags (procs s sp) = 0"
    and sleeps: "get2rmt_loop E tid sp hdr pay t s = (s1, Block pt)" and same: "procs s2 sp = procs s1 sp"
    and p: "p = DcProc d i" "NODE2SPROXY s2 (c_dnode (p_rmtcmd (procs s2 p))) = sp"
  shows "pt = PP_get2rmt sp hdr pay t \<and> p_list (procs s sp) = [] \<and> p_pseudosem (procs s2 sp) < 0
    \<and> (\<exists>s3. sproxy_enqueue E p s2 = (s3, OK) \<and> p_list (procs s3 sp) = [p]
         \<and> \<not> rts s3 sp BIT_RECEIVING \<and> 0 \<le> p_pseudosem (procs s3 sp) \<and> p_rcode (procs s3 sp) = OK
         \<and> p_proxy (procs s3 p) = p_nr (procs s2 sp)
         \<and> (\<forall>wret. 0 < wret \<or> t < 0 \<and> wret = 0 \<longrightarrow>
              (\<exists>s4. sleep_end E sp t wret s3 = (s4, Some OK)
                \<and> get2rmt_post E tid sp hdr pay t s4 = get2rmt_at E tid sp hdr pay t (Some p) s4)))"
proof -
  have nil: "p_list (procs s sp) = []" and t: "t \<noteq> TIMEOUT_NOWAIT"
    using sleeps by (auto simp: get2rmt_loop_def get2rmt_at_def sleep_or_nowait get2rmt_fail_def Let_def
        split: list.splits prod.splits option.splits)
  have loop: "get2rmt_loop E tid sp hdr pay t s = (upd sp (\<lambda>x. x\<lparr>p_pseudosem := - 1, p_rcode := OK\<rparr>)
      (set_rts BIT_RECEIVING sp (upd sp (\<lambda>y. y\<lparr>p_getfrom := ANY\<rparr>) s)), Block (PP_get2rmt sp hdr pay t))"
    using sp nil t by (simp add: get2rmt_loop_def get2rmt_at_def sleep_or_block Let_def)
  have ne: "p \<noteq> sp" using p sp by simp
  have x: "p_rts_flags (procs s2 sp) = 8" "p_list (procs s2 sp) = []" "p_pseudosem (procs s2 sp) = - 1"
    "p_rcode (procs s2 sp) = OK"
    using same loop sp sleeps nil by (auto simp: set_bit_eq_or)
  obtain s3 where s3: "sproxy_enqueue E p s2 = (s3, OK)" "p_list (procs s3 sp) = [p]"
      "\<not> rts s3 sp BIT_RECEIVING" "p_pseudosem (procs s3 sp) = 0" "p_rcode (procs s3 sp) = OK"
      "p_proxy (procs s3 p) = p_nr (procs s2 sp)"
    using ne x p(2) by (auto simp: sproxy_enqueue_def Let_def up_if_ready_def unset_receiving_8)
  have "\<exists>s4. sleep_end E sp t wret s3 = (s4, Some OK)
      \<and> get2rmt_post E tid sp hdr pay t s4 = get2rmt_at E tid sp hdr pay t (Some p) s4"
    if "0 < wret \<or> t < 0 \<and> wret = 0" for wret
    using that s3 by (auto simp: sleep_end_def sleep_wake_def sleep_ret_def sleep_fini_def Let_def
        get2rmt_post_def get2rmt_loop_def)
  with s3 x nil sleeps loop show ?thesis by auto
qed

theorem get2rmt_no_lost_wakeup_witness:
  "let s1 = fst (get2rmt_loop scn_env 301 (Sproxy 1) 4096 8192 TIMEOUT_FOREVER scn);
       s2 = set_cmd (\<lambda>k. k\<lparr>c_cmd := CMD_SEND_MSG, c_dst := 5, c_dnode := 1\<rparr>) (DcProc 0 36) s1 in
   \<exists>s3. sproxy_enqueue scn_env (DcProc 0 36) s2 = (s3, OK) \<and> p_list (procs s3 (Sproxy 1)) = [DcProc 0 36]
     \<and> 0 \<le> p_pseudosem (procs s3 (Sproxy 1))"
proof -
  let ?s1 = "fst (get2rmt_loop scn_env 301 (Sproxy 1) 4096 8192 TIMEOUT_FOREVER scn)"
  let ?s2 = "set_cmd (\<lambda>k. k\<lparr>c_cmd := CMD_SEND_MSG, c_dst := 5, c_dnode := 1\<rparr>) (DcProc 0 36) ?s1"
  have e: "p_list (procs scn (Sproxy 1)) = []" "p_rts_flags (procs scn (Sproxy 1)) = 0"
    by (simp_all add: scn_defs)
  then have b: "get2rmt_loop scn_env 301 (Sproxy 1) 4096 8192 TIMEOUT_FOREVER scn
      = (?s1, Block (PP_get2rmt (Sproxy 1) 4096 8192 TIMEOUT_FOREVER))"
    by (simp add: get2rmt_loop_def get2rmt_at_def sleep_or_block Let_def)
  from e have "NODE2SPROXY ?s2 (c_dnode (p_rmtcmd (procs ?s2 (DcProc 0 36)))) = Sproxy 1"
    by (simp add: NODE2SPROXY_def get2rmt_loop_def get2rmt_at_def sleep_or_block Let_def) (simp add: scn_defs)
  then show ?thesis
    using get2rmt_no_lost_wakeup [OF refl e(2) b, of ?s2 "DcProc 0 36" 0 36]
    by (auto simp: Let_def)
qed

text \<open>A command whose destination has moved to another node while it was queued is not sent: the
  entry is skipped, its sender is woken with EMOLMIGRATE and leaves every waiting state, and when it
  resumes, its send goes back to checking the destination, so the message is sent again from the start.\<close>

theorem get2rmt_migrated_replays:
  assumes q: "p_list (procs s sp) = x # xs" "sp = Sproxy n" "x = DcProc d i" "x = l_caller l"
    and st: "get2rmt_status sp x s = OK" "dc_flags (dc s (p_dcid (procs s x))) = 0" "\<not> IT_IS_REMOTE s x"
    and moved: "c_dnode (p_rmtcmd (procs s x))
        \<noteq> p_nodeid (procs s (ENDPOINT2PTR s (p_dcid (procs s x)) (c_dst (p_rmtcmd (procs s x)))))"
    and sem: "p_pseudosem (procs s x) = - 1"
  shows "\<exists>s1. get2rmt_one E tid sp hdr pay x s = (s1, None) \<and> p_list (procs s1 sp) = xs
    \<and> p_rts_flags (procs s1 x) = 0 \<and> p_pseudosem (procs s1 x) = 0 \<and> p_rcode (procs s1 x) = EMOLMIGRATE
    \<and> (\<exists>s2 s3. sleep_end E x t wret s1 = (s2, Some EMOLMIGRATE)
         \<and> send_remote_post l s2 = (s3, Goto (PP_send_replay l)))"
proof -
  have ne: "sp \<noteq> x" using q by simp
  obtain j where j: "ENDPOINT2PTR s (p_dcid (procs s x)) (c_dst (p_rmtcmd (procs s x))) = DcProc (p_dcid (procs s x)) j"
    using ENDPOINT2PTR_DcProc by blast
  let ?s1 = "READY_UP_RCODE E x EMOLMIGRATE (upd x (\<lambda>y. y\<lparr>p_sendto := NONE, p_proxy := NONE, p_rts_flags := 0\<rparr>)
      (upd sp (\<lambda>y. y\<lparr>p_dcid := dc_dcid (dc s (p_dcid (procs s x)))\<rparr>) (LIST_DEL_INIT x s)))"
  have one: "get2rmt_one E tid sp hdr pay x s = (?s1, None)"
    using st ne j moved q(2,3) by (simp add: get2rmt_one_def Let_def IT_IS_REMOTE_def)
  have sl: "\<exists>s2. sleep_end E x t wret ?s1 = (s2, Some EMOLMIGRATE) \<and> p_rcode (procs s2 x) = EMOLMIGRATE"
    by (simp add: sleep_end_def sleep_wake_def sleep_ret_def sleep_fini_def Let_def)
  show ?thesis
    unfolding one using ne q sem sl
    by (auto simp: list_del_def send_remote_post_def Let_def)
qed

theorem get2rmt_migrated_replays_witness:
  "let l = \<lparr>l_dcid = 0, l_caller = DcProc 0 36, l_peer = DcProc 0 40, l_ep = 5, l_msg = 8192, l_timeout = - 1\<rparr>;
       s = upd (DcProc 0 40) (\<lambda>x. x\<lparr>p_nodeid := 0\<rparr>) scn_outbox in
   \<exists>s1. get2rmt_one scn_env 301 (Sproxy 1) 4096 8192 (DcProc 0 36) s = (s1, None)
     \<and> p_list (procs s1 (Sproxy 1)) = [] \<and> p_pseudosem (procs s1 (DcProc 0 36)) = 0"
proof -
  let ?l = "\<lparr>l_dcid = 0, l_caller = DcProc 0 36, l_peer = DcProc 0 40, l_ep = 5, l_msg = 8192, l_timeout = - 1\<rparr>"
  let ?s = "upd (DcProc 0 40) (\<lambda>x. x\<lparr>p_nodeid := 0\<rparr>) scn_outbox"
  have "p_list (procs ?s (Sproxy 1)) = [DcProc 0 36]" "p_dcid (procs ?s (DcProc 0 36)) = 0"
    "dc_flags (dc ?s 0) = 0" "\<not> IT_IS_REMOTE ?s (DcProc 0 36)" "p_pseudosem (procs ?s (DcProc 0 36)) = - 1"
    by (simp_all add: scn_outbox_def scn_defs IT_IS_REMOTE_def)
  moreover have "get2rmt_status (Sproxy 1) (DcProc 0 36) ?s = OK"
    by (simp add: get2rmt_status_def scn_outbox_def scn_defs node_bit_def)
  moreover have "c_dnode (p_rmtcmd (procs ?s (DcProc 0 36))) = 1" "c_dst (p_rmtcmd (procs ?s (DcProc 0 36))) = 5"
    "p_nodeid (procs ?s (ENDPOINT2PTR ?s 0 5)) = 0"
    by (simp_all add: ENDPOINT2PTR_def NBR2PTR_def scn_outbox_def scn_defs)
  ultimately show ?thesis
    using get2rmt_migrated_replays [of ?s "Sproxy 1" "DcProc 0 36" "[]" 1 0 36 ?l scn_env 301 4096 8192 "- 1" 0]
    unfolding Let_def by (elim exE conjE meta_impE) (auto simp del: procs_upd)
qed

end
