(* ===== verification/Ipc_Step.thy ===== *)
theory Ipc_Step
  imports Sproxy
begin

text \<open>
  The module as a transition system: threads call the primitives, sleep at
  program points, are woken (or interrupted, or timed out) and resume, in any
  interleaving of the atomic parts.  The step relation and the states reached by it
  are inductive; the root theory exhibits a run in which a command is missed.
\<close>

section \<open>Calls and resumption\<close>

text \<open>The body of a call after \<open>check_caller\<close>.\<close>

fun checked_call :: "env \<Rightarrow> int \<Rightarrow> molcall \<Rightarrow> kstate \<times> checked \<Rightarrow> kstate \<times> outcome" where
  "checked_call E tid (Send d m t) r = after_check (Send d m t) (mm_mini_send_body E tid d m t) r"
| "checked_call E tid (Receive d m t) r = after_check (Receive d m t) (mm_mini_receive_body E tid d m t) r"
| "checked_call E tid (Sendrec d m t) r = after_check (Sendrec d m t) (mm_mini_sendrec_body E tid d m t) r"
| "checked_call E tid (Notify n d u) r = mm_mini_notify_checked E tid n d u r"
| "checked_call E tid (Rcvrqst m t) r = after_check (Rcvrqst m t) (mm_mini_rcvrqst_body E tid m t) r"
| "checked_call E tid (Reply d m t) r = after_check (Reply d m t) (mm_mini_reply_body E tid d m t) r"
| "checked_call E tid (Vcopy se sa de da n) r =
     after_check (Vcopy se sa de da n) (mm_vcopy_body E se sa de da n) r"
| "checked_call E tid (Get2rmt h p t) r =
     after_check (Get2rmt h p t) (\<lambda>sp pid. mm_get2rmt_body E tid h p t sp) r"
| "checked_call E tid (Put2lcl h p) r =
     after_check (Put2lcl h p) (\<lambda>rp pid. mm_put2lcl_body E tid h p rp) r"

fun do_call :: "env \<Rightarrow> int \<Rightarrow> molcall \<Rightarrow> kstate \<Rightarrow> kstate \<times> outcome" where
  "do_call E tid (Send d m t) s = mm_mini_send E tid d m t s"
| "do_call E tid (Receive d m t) s = mm_mini_receive E tid d m t s"
| "do_call E tid (Sendrec d m t) s = mm_mini_sendrec E tid d m t s"
| "do_call E tid (Notify n d u) s = mm_mini_notify E tid n d u s"
| "do_call E tid (Rcvrqst m t) s = mm_mini_rcvrqst E tid m t s"
| "do_call E tid (Reply d m t) s = mm_mini_reply E tid d m t s"
| "do_call E tid (Vcopy se sa de da n) s = mm_vcopy E tid se sa de da n s"
| "do_call E tid (Get2rmt h p t) s = mm_get2rmt E tid h p t s"
| "do_call E tid (Put2lcl h p) s = mm_put2lcl E tid h p s"

text \<open>Which descriptor sleeps at a program point, with which timeout, and whether in
  \<open>sleep_proc3\<close>.\<close>

fun sleeper :: "pp \<Rightarrow> pref \<times> int \<times> bool" where
  "sleeper (PP_check call c pid dcid) = (c, TIMEOUT_FOREVER, False)"
| "sleeper (PP_send_migr l) = (l_caller l, l_timeout l, False)"
| "sleeper (PP_send_replay l) = (l_caller l, l_timeout l, False)"
| "sleeper (PP_send_rmt l) = (l_caller l, l_timeout l, False)"
| "sleeper (PP_send_lcl l) = (l_caller l, l_timeout l, False)"
| "sleeper (PP_receive l) = (l_caller l, l_timeout l, False)"
| "sleeper (PP_sendrec_migr l) = (l_caller l, l_timeout l, False)"
| "sleeper (PP_sendrec_replay l) = (l_caller l, l_timeout l, False)"
| "sleeper (PP_sendrec_rmt l) = (l_caller l, l_timeout l, False)"
| "sleeper (PP_sendrec_rcv l) = (l_caller l, l_timeout l, False)"
| "sleeper (PP_sendrec_queue l) = (l_caller l, l_timeout l, False)"
| "sleeper (PP_notify_rmt l n e u) = (l_caller l, TIMEOUT_FOREVER, False)"
| "sleeper (PP_notify_replay l n e u) = (l_caller l, TIMEOUT_FOREVER, False)"
| "sleeper (PP_rcvrqst l) = (l_caller l, l_timeout l, False)"
| "sleeper (PP_reply_migr l) = (l_caller l, l_timeout l, False)"
| "sleeper (PP_reply_replay l) = (l_caller l, l_timeout l, False)"
| "sleeper (PP_reply_rmt l) = (l_caller l, l_timeout l, False)"
| "sleeper (PP_vcopy_check v) = (vl_caller v, TIMEOUT_MOLCALL, False)"
| "sleeper (PP_vcopy_migr v three) = (vl_caller v, TIMEOUT_MOLCALL, three)"
| "sleeper (PP_vcopy_lcl v) = (vl_caller v, TIMEOUT_MOLCALL, False)"
| "sleeper (PP_vcopy_rmt k v n three) = (vl_caller v, TIMEOUT_MOLCALL, three)"
| "sleeper (PP_get2rmt sp h p t) = (sp, t, False)"
| "sleeper (PP_get2rmt_next sp h p t cur) = (sp, t, False)"
| "sleeper (PP_oncopy p t pt) = (p, t, False)"

text \<open>The code at a program point.\<close>

fun run_pp :: "env \<Rightarrow> int \<Rightarrow> pp \<Rightarrow> kstate \<Rightarrow> kstate \<times> outcome" where
  "run_pp E tid (PP_check call c pid dcid) s =
     checked_call E tid call (if p_rcode (procs s c) \<noteq> 0 then (s, Chk_err (p_rcode (procs s c)))
       else (s, chk_of (check_caller_status c pid dcid s)))"
| "run_pp E tid (PP_send_migr l) s = (s, Goto (PP_send_replay l))"
| "run_pp E tid (PP_send_replay l) s = send_replay E tid l s"
| "run_pp E tid (PP_send_rmt l) s = send_remote_post l s"
| "run_pp E tid (PP_send_lcl l) s = send_local_post l s"
| "run_pp E tid (PP_receive l) s = receive_post E tid l s"
| "run_pp E tid (PP_sendrec_migr l) s = (s, Goto (PP_sendrec_replay l))"
| "run_pp E tid (PP_sendrec_replay l) s = sendrec_replay E tid l s"
| "run_pp E tid (PP_sendrec_rmt l) s = sendrec_remote_post l s"
| "run_pp E tid (PP_sendrec_rcv l) s = sendrec_rcv_post l s"
| "run_pp E tid (PP_sendrec_queue l) s = sendrec_queue_post l s"
| "run_pp E tid (PP_notify_rmt l n e u) s = notify_remote_post l n e u s"
| "run_pp E tid (PP_notify_replay l n e u) s = notify_replay E l n e u s"
| "run_pp E tid (PP_rcvrqst l) s = rcvrqst_post l s"
| "run_pp E tid (PP_reply_migr l) s = (s, Goto (PP_reply_replay l))"
| "run_pp E tid (PP_reply_replay l) s = reply_replay E tid l s"
| "run_pp E tid (PP_reply_rmt l) s = reply_remote_post l s"
| "run_pp E tid (PP_vcopy_check v) s = vcopy_check E v s"
| "run_pp E tid (PP_vcopy_migr v three) s = (s, Goto (PP_vcopy_check v))"
| "run_pp E tid (PP_vcopy_lcl v) s = vcopy_lcl E v s"
| "run_pp E tid (PP_vcopy_rmt k v n three) s = vcopy_rmt_post E k v n s"
| "run_pp E tid (PP_get2rmt sp h p t) s = get2rmt_post E tid sp h p t s"
| "run_pp E tid (PP_get2rmt_next sp h p t cur) s = get2rmt_at E tid sp h p t cur s"
| "run_pp E tid (PP_oncopy p t pt) s = (s, Goto pt)"

text \<open>Resuming after a wait with result \<open>wret\<close>; a process that is being copied yields first.\<close>

definition resume_sleep :: "env \<Rightarrow> int \<Rightarrow> pp \<Rightarrow> int \<Rightarrow> kstate \<Rightarrow> kstate \<times> outcome" where
  "resume_sleep E tid pt wret s =
    (case sleeper pt of (p, t, three) \<Rightarrow>
       (case (if three then sleep_proc3_end E p t wret s else sleep_end E p t wret s) of
          (s1, None) \<Rightarrow> (s1, Block (PP_oncopy p t pt))
        | (s1, Some _) \<Rightarrow> run_pp E tid pt s1))"

definition resume :: "env \<Rightarrow> int \<Rightarrow> pp \<Rightarrow> int \<Rightarrow> kstate \<Rightarrow> kstate \<times> outcome" where
  "resume E tid pt wret s =
    (case pt of
       PP_oncopy p t pt1 \<Rightarrow>
         if rts s p BIT_ONCOPY then (s, Block pt) else run_pp E tid pt1 (sleep_fini E p s)
     | _ \<Rightarrow> resume_sleep E tid pt wret s)"

section \<open>The transition system\<close>

datatype ctl = Idle | Asleep pp | Running pp

definition ctl_of :: "outcome \<Rightarrow> ctl" where
  "ctl_of out = (case out of Return r \<Rightarrow> Idle | Block pt \<Rightarrow> Asleep pt | Goto pt \<Rightarrow> Running pt)"

type_synonym sys = "kstate \<times> (int \<Rightarrow> ctl)"

text \<open>A sleeping thread may go on when its wait can return \<open>wret\<close>.\<close>

definition may_wake :: "kstate \<Rightarrow> pp \<Rightarrow> int \<Rightarrow> bool" where
  "may_wake s pt wret = (case pt of PP_oncopy p t pt1 \<Rightarrow> True
     | _ \<Rightarrow> (case sleeper pt of (p, t, three) \<Rightarrow> wait_result t (p_pseudosem (procs s p)) wret))"

inductive step :: "sys \<Rightarrow> sys \<Rightarrow> bool" where
  call: "C tid = Idle \<Longrightarrow> do_call E tid c s = (s', out) \<Longrightarrow> step (s, C) (s', C(tid := ctl_of out))"
| wake: "C tid = Asleep pt \<Longrightarrow> may_wake s pt wret \<Longrightarrow> resume E tid pt wret s = (s', out) \<Longrightarrow>
    step (s, C) (s', C(tid := ctl_of out))"
| run: "C tid = Running pt \<Longrightarrow> run_pp E tid pt s = (s', out) \<Longrightarrow> step (s, C) (s', C(tid := ctl_of out))"
| wakeup: "mm_wakeup E tid dcid ep s = (s', ret) \<Longrightarrow> step (s, C) (s', C)"
| hdw: "mm_hdw_notify E tid dcid ep s = (s', ret) \<Longrightarrow> step (s, C) (s', C)"
| unbind: "do_unbind E tid d p s = (s', ret) \<Longrightarrow> step (s, C) (s', C)"
| flush_snd: "flush_sending_procs E n sp s = (s', ret) \<Longrightarrow> step (s, C) (s', C)"
| flush_rcv: "flush_receiving_procs E n s = (s', ret) \<Longrightarrow> step (s, C) (s', C)"

inductive reaches :: "sys \<Rightarrow> sys \<Rightarrow> bool" where
  start: "reaches x x"
| more: "reaches x y \<Longrightarrow> step y z \<Longrightarrow> reaches x z"

inductive_cases stepE: "step (s, C) (s', C')"

end
