(* ===== verification/Nodes.thy ===== *)
theory Nodes
  imports Unbind
begin

text \<open>
  Nodes and proxy pairs (\<open>src/mol-module/mm_hyper.c\<close>): which nodes a DC spans
  (\<open>mm_add_node\<close>, \<open>mm_del_node\<close>), binding a pair of proxies and attaching a
  node to it (\<open>mm_proxies_bind\<close>, \<open>mm_node_up\<close>, \<open>mm_node_down\<close>), the
  proxies reporting that they are connected or not (\<open>mm_proxy_conn\<close>), and the end of
  a node (\<open>do_node_end\<close>), with \<open>lock_sr_proxies\<close> and
  \<open>unlock_sr_proxies\<close> of \<open>src/mol-module/mm_utils.c\<close> as the codes they
  return.
\<close>

abbreviation set_dc :: "int \<Rightarrow> (dc_desc \<Rightarrow> dc_desc) \<Rightarrow> kstate \<Rightarrow> kstate" where
  "set_dc d f s \<equiv> s\<lparr>dc := (dc s)(d := f (dc s d))\<rparr>"

abbreviation set_node :: "int \<Rightarrow> (cluster_node \<Rightarrow> cluster_node) \<Rightarrow> kstate \<Rightarrow> kstate" where
  "set_node n f s \<equiv> s\<lparr>node := (node s)(n := f (node s n))\<rparr>"

abbreviation set_px :: "int \<Rightarrow> (proxies \<Rightarrow> proxies) \<Rightarrow> kstate \<Rightarrow> kstate" where
  "set_px px f s \<equiv> s\<lparr>proxies := (proxies s)(px := f (proxies s px))\<rparr>"

section \<open>The nodes of a DC\<close>

definition nr_members :: "flags \<Rightarrow> int" where
  "nr_members w = int (length (filter (bit w) [0..<32]))"

definition mm_add_node :: "int \<Rightarrow> int \<Rightarrow> int \<Rightarrow> kstate \<Rightarrow> kstate \<times> int" where
  "mm_add_node tid dcid nodeid s =
    (if t_euid (tasks s tid) \<noteq> USER_ROOT then (s, EMOLPRIVILEGES)
     else if DVS_NOT_INIT s then (s, EMOLDVSINIT)
     else if nodeid < 0 \<or> nodeid \<ge> d_nr_nodes (dvs s) then (s, EMOLBADNODEID)
     else if nodeid = local_nodeid s then (s, EMOLBADNODEID)
     else if n_flags (node s nodeid) = NODE_FREE then (s, EMOLNODEFREE)
     else if dcid < 0 \<or> dcid \<ge> d_nr_dcs (dvs s) then (s, EMOLBADDCID)
     else if dc_flags (dc s dcid) = DC_FREE then (s, EMOLDCNOTRUN)
     else if node_bit nodeid (dc_nodes (dc s dcid)) then (s, EMOLDCNODE)
     else if node_bit dcid (n_dcs (node s nodeid)) then (s, EMOLDCNODE)
     else if nr_members (dc_nodes (dc s dcid)) \<ge> dc_nr_nodes (dc s dcid) then (s, EMOLRSCBUSY)
     else
      let s1 = set_dc dcid (\<lambda>x. x\<lparr>dc_nodes := set_bit (nat nodeid) (dc_nodes x)\<rparr>) s
      in (set_node nodeid (\<lambda>x. x\<lparr>n_dcs := set_bit (nat dcid) (n_dcs x)\<rparr>) s1, OK))"

definition mm_del_node :: "int \<Rightarrow> int \<Rightarrow> int \<Rightarrow> kstate \<Rightarrow> kstate \<times> int" where
  "mm_del_node tid dcid nodeid s =
    (if t_euid (tasks s tid) \<noteq> USER_ROOT then (s, EMOLPRIVILEGES)
     else if DVS_NOT_INIT s then (s, EMOLDVSINIT)
     else if nodeid < 0 \<or> nodeid \<ge> d_nr_nodes (dvs s) then (s, EMOLBADNODEID)
     else if nodeid = local_nodeid s then (s, EMOLBADNODEID)
     else if n_flags (node s nodeid) = NODE_FREE then (s, EMOLNODEFREE)
     else if dcid < 0 \<or> dcid \<ge> d_nr_dcs (dvs s) then (s, EMOLBADDCID)
     else if dc_flags (dc s dcid) \<noteq> 0 then (s, EMOLDCNOTRUN)
     else if \<not> node_bit nodeid (dc_nodes (dc s dcid)) then (s, EMOLDCNODE)
     else if \<not> node_bit dcid (n_dcs (node s nodeid)) then (s, EMOLDCNODE)
     else
      let s1 = set_dc dcid (\<lambda>x. x\<lparr>dc_nodes := unset_bit (nat nodeid) (dc_nodes x)\<rparr>) s
      in (set_node nodeid (\<lambda>x. x\<lparr>n_dcs := unset_bit (nat dcid) (n_dcs x)\<rparr>) s1, OK))"

section \<open>Proxy pairs\<close>

definition lock_sr_proxies :: "int \<Rightarrow> int \<Rightarrow> kstate \<Rightarrow> int" where
  "lock_sr_proxies tid px s =
    (if t_euid (tasks s tid) \<noteq> USER_ROOT then EMOLPRIVILEGES
     else if DVS_NOT_INIT s then EMOLDVSINIT
     else if px < 0 \<or> px \<ge> d_nr_nodes (dvs s) then EMOLPROXYID
     else if px_flags (proxies s px) = PROXIES_FREE then EMOLPROXYFREE
     else OK)"

definition unlock_sr_proxies :: "int \<Rightarrow> int \<Rightarrow> kstate \<Rightarrow> int" where
  "unlock_sr_proxies tid px s =
    (if t_euid (tasks s tid) \<noteq> USER_ROOT then EMOLPRIVILEGES
     else if DVS_NOT_INIT s then EMOLDVSINIT
     else if px < 0 \<or> px \<ge> d_nr_nodes (dvs s) then EMOLPROXYID
     else if px_flags (proxies s px) = PROXIES_FREE then EMOLNOPROXY
     else OK)"

text \<open>A name copied from user space: the characters up to the first NUL.\<close>

definition c_string :: "byte list \<Rightarrow> string" where
  "c_string bs = map (\<lambda>b. char_of (unat b)) (takeWhile (\<lambda>b. b \<noteq> 0) bs)"

definition bind_proxy :: "pref \<Rightarrow> int \<Rightarrow> int \<Rightarrow> kstate \<Rightarrow> kstate" where
  "bind_proxy p px pid s =
    (let s1 = upd p (init_proc_desc s PROXY_NO_DC px) s;
         s2 = s1\<lparr>tasks := (tasks s1)(pid := (tasks s1 pid)\<lparr>t_proc := Some p\<rparr>)\<rparr>
     in upd p (\<lambda>x. x\<lparr>p_task := Some pid, p_name := take 15 (t_comm (tasks s2 pid)),
          p_rts_flags := PROC_RUNNING, p_nr := px, p_endpoint := NONE, p_nodeid := local_nodeid s2,
          p_lpid := pid, p_priv := (p_priv x)\<lparr>s_level := PROXY_PRIV\<rparr>, p_rmtsent := 0,
          p_misc_flags := set_bit MIS_BIT_PROXY (p_misc_flags x)\<rparr>) s2)"

definition mm_proxies_bind :: "env \<Rightarrow> int \<Rightarrow> addr \<Rightarrow> int \<Rightarrow> int \<Rightarrow> int \<Rightarrow> int \<Rightarrow> kstate \<Rightarrow> kstate \<times> int" where
  "mm_proxies_bind E tid name px spid rpid maxbytes s =
    (if t_euid (tasks s tid) \<noteq> USER_ROOT then (s, EMOLPRIVILEGES)
     else if DVS_NOT_INIT s then (s, EMOLDVSINIT)
     else if px < 0 \<or> px \<ge> d_nr_nodes (dvs s) then (s, EMOLBADNODEID)
     else if \<not> t_live (tasks s spid) \<or> \<not> t_live (tasks s rpid) then (s, EMOLBADPID)
     else if px_flags (proxies s px) \<noteq> PROXIES_FREE then (s, EMOLRSCBUSY)
     else if maxbytes > MAXCOPYBUF then (s, EMOL2BIG)
     else
      let s1 = set_px px (\<lambda>x. x\<lparr>px_maxbytes := maxbytes\<rparr>) s;
          s2 = bind_proxy (Sproxy px) px spid s1;
          s3 = bind_proxy (Rproxy px) px rpid s2;
          str = c_string (fst (copy_from_user E (mm_of_task s3 tid) name 16 s3));
          s4 = set_px px (\<lambda>x. x\<lparr>px_name := str, px_flags := PROXIES_INUSE\<rparr>) s3
      in (s4\<lparr>dvs_kref := dvs_kref s4 + 1\<rparr>, OK))"

section \<open>Connection\<close>

definition sproxy_down :: "env \<Rightarrow> pref \<Rightarrow> int \<Rightarrow> kstate \<Rightarrow> kstate" where
  "sproxy_down E sp i s =
    (if node_bit i (p_nodemap (procs s sp)) then
       let s1 = fst (flush_sending_procs E i sp s)
       in set_node i (\<lambda>x. x\<lparr>n_flags := unset_bit NODE_BIT_SCONNECTED (n_flags x)\<rparr>) s1
     else s)"

definition rproxy_down :: "env \<Rightarrow> pref \<Rightarrow> int \<Rightarrow> kstate \<Rightarrow> kstate" where
  "rproxy_down E rp i s =
    (if node_bit i (p_nodemap (procs s rp)) then
       let s1 = fst (flush_receiving_procs E i s)
       in set_node i (\<lambda>x. x\<lparr>n_flags := unset_bit NODE_BIT_RCONNECTED (n_flags x)\<rparr>) s1
     else s)"

definition node_conn :: "nat \<Rightarrow> pref \<Rightarrow> int \<Rightarrow> kstate \<Rightarrow> kstate" where
  "node_conn b p i s =
    (if node_bit i (p_nodemap (procs s p))
     then set_node i (\<lambda>x. x\<lparr>n_flags := set_bit b (n_flags x)\<rparr>) s else s)"

definition proxy_conn_step :: "env \<Rightarrow> int \<Rightarrow> int \<Rightarrow> kstate \<Rightarrow> kstate \<times> int" where
  "proxy_conn_step E px status s =
    (let sp = Sproxy px; rp = Rproxy px; nodes = [0..d_nr_nodes (dvs s) - 1] in
     if status = DISCONNECT_SPROXY then
       (fold (sproxy_down E sp) nodes (clear_mis MIS_BIT_CONNECTED sp
          (set_px px (\<lambda>x. x\<lparr>px_flags := unset_bit PX_BIT_SCONNECTED (px_flags x)\<rparr>) s)), OK)
     else if status = DISCONNECT_RPROXY then
       (fold (rproxy_down E rp) nodes (clear_mis MIS_BIT_CONNECTED rp
          (set_px px (\<lambda>x. x\<lparr>px_flags := unset_bit PX_BIT_RCONNECTED (px_flags x)\<rparr>) s)), OK)
     else if status = CONNECT_SPROXY then
       (fold (node_conn NODE_BIT_SCONNECTED sp) nodes (set_mis MIS_BIT_CONNECTED sp
          (set_px px (\<lambda>x. x\<lparr>px_flags := set_bit PX_BIT_SCONNECTED (px_flags x)\<rparr>) s)), OK)
     else if status = CONNECT_RPROXY then
       (fold (node_conn NODE_BIT_RCONNECTED rp) nodes (set_mis MIS_BIT_CONNECTED rp
          (set_px px (\<lambda>x. x\<lparr>px_flags := set_bit PX_BIT_RCONNECTED (px_flags x)\<rparr>) s)), OK)
     else (s, EMOLBADVALUE))"

definition mm_proxy_conn :: "env \<Rightarrow> int \<Rightarrow> int \<Rightarrow> int \<Rightarrow> kstate \<Rightarrow> kstate \<times> int" where
  "mm_proxy_conn E tid px status s =
    (let ret = lock_sr_proxies tid px s in
     if ret \<noteq> OK then (s, ret)
     else
      let (s1, rcode) =
            (if p_rts_flags (procs s (Sproxy px)) = SLOT_FREE \<or> p_rts_flags (procs s (Rproxy px)) = SLOT_FREE
             then (s, EMOLNOPROXY) else proxy_conn_step E px status s);
          ret1 = unlock_sr_proxies tid px s1
      in (s1, if ret1 \<noteq> OK then ret1 else rcode))"

section \<open>Attaching and detaching a node\<close>

definition node_name :: "env \<Rightarrow> int \<Rightarrow> addr \<Rightarrow> bool \<Rightarrow> kstate \<Rightarrow> byte list \<times> int" where
  "node_name E tid name kthread s =
    (if kthread then (read_mem (kmem s) name 15, OK)
     else copy_from_user E (mm_of_task s tid) name 15 s)"

definition mm_node_up :: "env \<Rightarrow> int \<Rightarrow> addr \<Rightarrow> int \<Rightarrow> int \<Rightarrow> kstate \<Rightarrow> kstate \<times> int" where
  "mm_node_up E tid name nodeid px s =
    (if t_euid (tasks s tid) \<noteq> USER_ROOT then (s, EMOLPRIVILEGES)
     else if DVS_NOT_INIT s then (s, EMOLDVSINIT)
     else if nodeid < 0 \<or> nodeid \<ge> d_nr_nodes (dvs s) then (s, EMOLBADNODEID)
     else if px < 0 \<or> px \<ge> d_nr_nodes (dvs s) then (s, EMOLPROXYID)
     else if lock_sr_proxies tid px s \<noteq> OK then (s, lock_sr_proxies tid px s)
     else
      let s1 = upd (Sproxy px) (\<lambda>x. x\<lparr>p_nodemap := set_bit (nat nodeid) (p_nodemap x)\<rparr>) s;
          s2 = upd (Rproxy px) (\<lambda>x. x\<lparr>p_nodemap := set_bit (nat nodeid) (p_nodemap x)\<rparr>) s1;
          ret = unlock_sr_proxies tid px s2 in
      if ret \<noteq> OK then (s2, ret)
      else if px_flags (proxies s2 px) = PROXIES_FREE then (s2, EMOLNOPROXY)
      else
       let pf = px_flags (proxies s2 px);
           f1 = (if bit pf PX_BIT_SCONNECTED then set_bit NODE_BIT_SCONNECTED NODE_ATTACHED else NODE_ATTACHED);
           f2 = (if bit pf PX_BIT_RCONNECTED then set_bit NODE_BIT_RCONNECTED f1 else f1);
           (bs, rc) = node_name E tid name (mis s2 (Sproxy px) MIS_BIT_KTHREAD) s2
       in (set_node nodeid (\<lambda>x. x\<lparr>n_flags := f2, n_proxies := px, n_name := c_string bs\<rparr>) s2, rc))"

text \<open>The membership test of the source is negated: the maps are cleared when the node is
  \<^emph>\<open>not\<close> in them; and the final return uses the code of the unlocking.\<close>

definition mm_node_down :: "int \<Rightarrow> int \<Rightarrow> kstate \<Rightarrow> kstate \<times> int" where
  "mm_node_down tid nodeid s =
    (if t_euid (tasks s tid) \<noteq> USER_ROOT then (s, EMOLPRIVILEGES)
     else if DVS_NOT_INIT s then (s, EMOLDVSINIT)
     else if nodeid < 0 \<or> nodeid \<ge> d_nr_nodes (dvs s) then (s, EMOLBADNODEID)
     else
      let px = n_proxies (node s nodeid); ret = lock_sr_proxies tid px s in
      if ret \<noteq> OK then (s, ret)
      else
       let s1 = (if \<not> node_bit nodeid (p_nodemap (procs s (Sproxy px))) then
                   let s' = upd (Sproxy px) (\<lambda>x. x\<lparr>p_nodemap := unset_bit (nat nodeid) (p_nodemap x)\<rparr>) s;
                       s'' = upd (Rproxy px) (\<lambda>x. x\<lparr>p_nodemap := unset_bit (nat nodeid) (p_nodemap x)\<rparr>) s'
                   in set_node nodeid clear_node s''
                 else s)
       in (s1, unlock_sr_proxies tid px s1))"

section \<open>The end of a node\<close>

definition end_node_slot :: "env \<Rightarrow> int \<Rightarrow> int \<Rightarrow> int \<Rightarrow> int \<Rightarrow> kstate \<Rightarrow> kstate" where
  "end_node_slot E tid nid d i s =
    (if IT_IS_REMOTE s (DcProc d i) \<and> p_nodeid (procs s (DcProc d i)) = nid
     then fst (do_unbind E tid d (DcProc d i) s) else s)"

definition end_node_dc :: "env \<Rightarrow> int \<Rightarrow> int \<Rightarrow> int \<Rightarrow> kstate \<Rightarrow> kstate" where
  "end_node_dc E tid nid d s =
    (if dc_flags (dc s d) \<noteq> DC_FREE then
       let s1 = fold (end_node_slot E tid nid d) [0..nr_slots s d - 1] s
       in set_dc d (\<lambda>x. x\<lparr>dc_nodes := unset_bit (nat nid) (dc_nodes x)\<rparr>) s1
     else s)"

definition do_node_end :: "env \<Rightarrow> int \<Rightarrow> int \<Rightarrow> kstate \<Rightarrow> kstate \<times> int" where
  "do_node_end E tid n s =
    (let s1 = fold (end_node_dc E tid (n_nodeid (node s n))) [0..d_nr_dcs (dvs s) - 1] s
     in (set_node n clear_node s1, OK))"

section \<open>Adding and deleting a node\<close>

text \<open>Deleting a node from a DC undoes adding it: after a successful \<open>mm_add_node\<close> to a
  running DC each is in the other's map, and \<open>mm_del_node\<close> then succeeds and gives back
  exactly the state before.\<close>

theorem del_node_undoes_add_node:
  assumes "mm_add_node tid d n s = (s1, OK)" "dc_flags (dc s d) = DC_RUNNING"
    "d_nr_dcs (dvs s) \<le> NR_DCS" "d_nr_nodes (dvs s) \<le> NR_NODES"
  shows "node_bit n (dc_nodes (dc s1 d)) \<and> node_bit d (n_dcs (node s1 n))
    \<and> mm_del_node tid d n s1 = (s, OK)"
proof -
  have ok: "t_euid (tasks s tid) = USER_ROOT" "\<not> DVS_NOT_INIT s" "0 \<le> n" "n < d_nr_nodes (dvs s)"
    "n \<noteq> local_nodeid s" "n_flags (node s n) \<noteq> NODE_FREE" "0 \<le> d" "d < d_nr_dcs (dvs s)"
    "\<not> node_bit n (dc_nodes (dc s d))" "\<not> node_bit d (n_dcs (node s n))"
    and s1: "s1 = set_node n (\<lambda>x. x\<lparr>n_dcs := set_bit (nat d) (n_dcs x)\<rparr>)
        (set_dc d (\<lambda>x. x\<lparr>dc_nodes := set_bit (nat n) (dc_nodes x)\<rparr>) s)"
    using assms(1) by (auto simp: mm_add_node_def Let_def split: if_splits)
  have lt: "nat n < 32" "nat d < 32" using ok assms(3,4) by auto
  have bits: "\<not> bit (dc_nodes (dc s d)) (nat n)" "\<not> bit (n_dcs (node s n)) (nat d)"
    using ok by (auto simp: node_bit_def)
  have "s1\<lparr>dc := dc s, node := node s\<rparr> = s" by (simp add: s1)
  then show ?thesis
    using ok lt bits assms(2)
    by (simp add: s1 mm_del_node_def DVS_NOT_INIT_def node_bit_def unset_set_bit)
qed

text \<open>Three attached nodes; DC 0 spans nodes 0 and 1.\<close>

definition scn_nodes :: kstate where
  "scn_nodes = scn\<lparr>dc := (\<lambda>i. (dc scn i)\<lparr>dc_nodes := (if i = 0 then 3 else 0)\<rparr>),
     node := (\<lambda>n. (node scn n)\<lparr>n_flags := (if n \<le> 2 then NODE_ATTACHED else NODE_FREE),
                               n_dcs := (if n \<le> 1 then 1 else 0)\<rparr>)\<rparr>"

lemma nr_members_3: "nr_members 3 = 2"
  by (simp add: nr_members_def upt_conv_Cons)

theorem del_node_undoes_add_node_witness:
  "\<exists>s1. mm_add_node 101 0 2 scn_nodes = (s1, OK) \<and> mm_del_node 101 0 2 s1 = (scn_nodes, OK)"
proof -
  have "snd (mm_add_node 101 0 2 scn_nodes) = OK"
    by (simp add: mm_add_node_def scn_nodes_def scn_defs DVS_NOT_INIT_def node_bit_def nr_members_3)
  then have "mm_add_node 101 0 2 scn_nodes = (fst (mm_add_node 101 0 2 scn_nodes), OK)"
    by (metis prod.collapse)
  moreover have "dc_flags (dc scn_nodes 0) = DC_RUNNING" "d_nr_dcs (dvs scn_nodes) \<le> NR_DCS"
    "d_nr_nodes (dvs scn_nodes) \<le> NR_NODES"
    by (simp_all add: scn_nodes_def scn_defs)
  ultimately show ?thesis using del_node_undoes_add_node by blast
qed

section \<open>The two maps agree\<close>

text \<open>The map of the nodes of a DC and the map of the DCs of a node are two views of one
  relation; a free DC spans no node and a free node carries no DC.\<close>

definition maps_agree :: "int set \<Rightarrow> kstate \<Rightarrow> bool" where
  "maps_agree N s \<longleftrightarrow>
    (\<forall>d \<in> {0..<d_nr_dcs (dvs s)}. \<forall>n \<in> {0..<d_nr_nodes (dvs s)} - N.
       bit (dc_nodes (dc s d)) (nat n) \<longleftrightarrow> bit (n_dcs (node s n)) (nat d))"

definition tables_ok :: "kstate \<Rightarrow> bool" where
  "tables_ok s \<longleftrightarrow> d_nr_dcs (dvs s) \<le> NR_DCS \<and> d_nr_nodes (dvs s) \<le> NR_NODES
    \<and> (\<forall>d \<in> {0..<d_nr_dcs (dvs s)}.
         if dc_flags (dc s d) = DC_FREE then dc_nodes (dc s d) = 0 else dc_dcid (dc s d) = d)
    \<and> (\<forall>n \<in> {0..<d_nr_nodes (dvs s)}. n_nodeid (node s n) = n
         \<and> (n_flags (node s n) = NODE_FREE \<longrightarrow> n_dcs (node s n) = 0))"

lemma decref_cases:
  "DC_DECREF d s = set_dc d (\<lambda>x. x\<lparr>dc_kref := dc_kref x - 1\<rparr>) s
   \<or> DC_DECREF d s = dc_release d (set_dc d (\<lambda>x. x\<lparr>dc_kref := dc_kref x - 1\<rparr>) s)"
  by (simp add: DC_DECREF_def Let_def)

lemma release_maps:
  assumes "maps_agree N s" "tables_ok s" "0 \<le> d" "d < d_nr_dcs (dvs s)" "dc_dcid (dc s d) = d"
  shows "maps_agree N (dc_release d s) \<and> tables_ok (dc_release d s) \<and> dc_dcid (dc (dc_release d s) d) = d
    \<and> dvs (dc_release d s) = dvs s"
  using assms
  by (auto simp: maps_agree_def tables_ok_def dc_release_def Let_def nat_eq_iff split: if_splits)

lemma decref_maps:
  assumes "maps_agree N s" "tables_ok s" "0 \<le> d" "d < d_nr_dcs (dvs s)" "dc_dcid (dc s d) = d"
  shows "maps_agree N (DC_DECREF d s) \<and> tables_ok (DC_DECREF d s) \<and> dc_dcid (dc (DC_DECREF d s) d) = d
    \<and> dvs (DC_DECREF d s) = dvs s"
proof -
  let ?t = "set_dc d (\<lambda>x. x\<lparr>dc_kref := dc_kref x - 1\<rparr>) s"
  have "maps_agree N ?t" "tables_ok ?t" "dc_dcid (dc ?t d) = d" "dvs ?t = dvs s"
    using assms by (auto simp: maps_agree_def tables_ok_def)
  with decref_cases [of d s] release_maps [of N ?t d] assms(3,4) show ?thesis by auto
qed

lemma unbind_frame:
  "dc (unbind_detach E d p s) = dc s" "node (unbind_detach E d p s) = node s"
  "dvs (unbind_detach E d p s) = dvs s"
  using eased_unbind_detach [of d 0 s E d p] by (simp_all add: eased_def Let_def)

lemma maps_cong:
  "dc t = dc s \<Longrightarrow> node t = node s \<Longrightarrow> dvs t = dvs s \<Longrightarrow> maps_agree N t = maps_agree N s"
  "dc t = dc s \<Longrightarrow> node t = node s \<Longrightarrow> dvs t = dvs s \<Longrightarrow> tables_ok t = tables_ok s"
  by (simp_all add: maps_agree_def tables_ok_def)

lemma unbind_maps:
  assumes "maps_agree N s" "tables_ok s" "0 \<le> d" "d < d_nr_dcs (dvs s)" "dc_dcid (dc s d) = d"
    and t: "t = fst (do_unbind E tid d p s)"
  shows "maps_agree N t \<and> tables_ok t \<and> dc_dcid (dc t d) = d \<and> dvs t = dvs s"
proof -
  have free: "maps_agree N (unbind_free d p u) \<and> tables_ok (unbind_free d p u)
      \<and> dc_dcid (dc (unbind_free d p u) d) = d \<and> dvs (unbind_free d p u) = dvs s"
    if "dc u = dc s" "node u = node s" "dvs u = dvs s" for u
  proof -
    let ?v = "upd p (init_proc_desc u (p_dcid (procs u p)) (p_nr (procs u p) + dc_nr_tasks (dc u d))) u"
    have v: "dc ?v = dc s" "node ?v = node s" "dvs ?v = dvs s" using that by simp_all
    show ?thesis
      unfolding unbind_free_def using decref_maps [of N ?v d] assms(1-5) maps_cong [OF v] v by simp
  qed
  have other: "dc (fst (unbind_other E p s)) = dc s" "node (fst (unbind_other E p s)) = node s"
    "dvs (fst (unbind_other E p s)) = dvs s"
    by (simp_all add: unbind_other_def Let_def)
  show ?thesis
    using assms(1-5) free [of s] free [of "unbind_detach E d p s"] unbind_frame [of E d p s]
      maps_cong [OF other] other
    by (auto simp: t do_unbind_def Let_def)
qed

lemma end_node_slots_maps:
  assumes "maps_agree N s" "tables_ok s" "0 \<le> d" "d < d_nr_dcs (dvs s)" "dc_dcid (dc s d) = d"
    and t: "t = fold (end_node_slot E tid nid d) xs s"
  shows "maps_agree N t \<and> tables_ok t \<and> dc_dcid (dc t d) = d \<and> dvs t = dvs s"
  using assms
proof (induction xs arbitrary: s)
  case (Cons x xs)
  let ?u = "end_node_slot E tid nid d x s"
  have "maps_agree N v \<and> tables_ok v \<and> dc_dcid (dc v d) = d \<and> dvs v = dvs s"
    if "v = fst (do_unbind E tid d (DcProc d x) s)" for v
    using Cons.prems(1-5) that by (rule unbind_maps)
  then have u: "maps_agree N ?u \<and> tables_ok ?u \<and> dc_dcid (dc ?u d) = d \<and> dvs ?u = dvs s"
    using Cons.prems(1-5) by (simp add: end_node_slot_def)
  then show ?case using Cons.IH [of ?u] Cons.prems by simp
qed simp

text \<open>One DC: the node leaves its map, every other node stays.\<close>

lemma end_node_dc_maps:
  assumes "maps_agree {nid} s" "tables_ok s" "0 \<le> d" "d < d_nr_dcs (dvs s)" "0 \<le> nid"
    and t: "t = end_node_dc E tid nid d s"
  shows "maps_agree {nid} t \<and> tables_ok t \<and> dvs t = dvs s \<and> \<not> bit (dc_nodes (dc t d)) (nat nid)"
proof (cases "dc_flags (dc s d) = DC_FREE")
  case True
  with assms show ?thesis by (auto simp: end_node_dc_def tables_ok_def)
next
  case False
  define u where "u = fold (end_node_slot E tid nid d) [0..nr_slots s d - 1] s"
  have "dc_dcid (dc s d) = d" using assms(2-4) False by (auto simp: tables_ok_def)
  then have u: "maps_agree {nid} u" "tables_ok u" "dc_dcid (dc u d) = d" "dvs u = dvs s"
    using end_node_slots_maps [OF assms(1-4) _ u_def] by simp_all
  have "t = set_dc d (\<lambda>x. x\<lparr>dc_nodes := unset_bit (nat nid) (dc_nodes x)\<rparr>) u"
    using False by (simp add: t end_node_dc_def u_def Let_def)
  with u assms(5) show ?thesis
    by (auto simp: maps_agree_def tables_ok_def nat_eq_iff split: if_splits)
qed

lemma decref_other_dc: "d' \<noteq> d \<Longrightarrow> dc (DC_DECREF d s) d' = dc s d'"
  by (simp add: DC_DECREF_def dc_release_def Let_def)

lemma end_node_dc_other: "d' \<noteq> d \<Longrightarrow> dc (end_node_dc E tid nid d s) d' = dc s d'"
proof -
  assume ne: "d' \<noteq> d"
  have one: "dc (end_node_slot E tid nid d i u) d' = dc u d'" for i u
    using ne unbind_frame [of E d "DcProc d i" u]
    by (simp add: end_node_slot_def do_unbind_def unbind_free_def unbind_other_def decref_other_dc Let_def)
  have "dc (fold (end_node_slot E tid nid d) xs u) d' = dc u d'" for xs u
    by (induction xs arbitrary: u) (simp_all add: one)
  with ne show ?thesis by (simp add: end_node_dc_def Let_def)
qed

lemma end_node_dcs_maps:
  assumes "maps_agree {nid} s" "tables_ok s" "0 \<le> nid" "set ds \<subseteq> {0..<d_nr_dcs (dvs s)}"
    and t: "t = fold (end_node_dc E tid nid) ds s"
  shows "maps_agree {nid} t \<and> tables_ok t \<and> dvs t = dvs s
    \<and> (\<forall>d. d \<in> set ds \<or> \<not> bit (dc_nodes (dc s d)) (nat nid) \<longrightarrow> \<not> bit (dc_nodes (dc t d)) (nat nid))"
  using assms
proof (induction ds arbitrary: s)
  case (Cons d ds)
  let ?u = "end_node_dc E tid nid d s"
  have u: "maps_agree {nid} ?u \<and> tables_ok ?u \<and> dvs ?u = dvs s \<and> \<not> bit (dc_nodes (dc ?u d)) (nat nid)"
    using Cons.prems by (intro end_node_dc_maps [OF _ _ _ _ _ refl]) auto
  then have IH: "maps_agree {nid} t \<and> tables_ok t \<and> dvs t = dvs ?u
    \<and> (\<forall>d. d \<in> set ds \<or> \<not> bit (dc_nodes (dc ?u d)) (nat nid) \<longrightarrow> \<not> bit (dc_nodes (dc t d)) (nat nid))"
    using Cons.prems by (intro Cons.IH) auto
  moreover have "bit (dc_nodes (dc ?u d')) (nat nid) \<Longrightarrow> d' \<noteq> d \<and> bit (dc_nodes (dc s d')) (nat nid)" for d'
    using u end_node_dc_other [of d' d E tid nid s] by (cases "d' = d") auto
  ultimately show ?case using u by auto
qed auto

lemma do_node_end_maps:
  assumes "maps_agree {} s" "tables_ok s" "0 \<le> n" "n < d_nr_nodes (dvs s)"
  shows "maps_agree {} (fst (do_node_end E tid n s)) \<and> tables_ok (fst (do_node_end E tid n s))"
proof -
  define t where "t = fold (end_node_dc E tid n) [0..d_nr_dcs (dvs s) - 1] s"
  have "n_nodeid (node s n) = n" using assms by (auto simp: tables_ok_def)
  then have res: "fst (do_node_end E tid n s) = set_node n clear_node t"
    by (simp add: do_node_end_def t_def Let_def)
  have "maps_agree {n} s" using assms(1) by (auto simp: maps_agree_def)
  moreover have "set [0..d_nr_dcs (dvs s) - 1] \<subseteq> {0..<d_nr_dcs (dvs s)}" by auto
  ultimately have t: "maps_agree {n} t" "tables_ok t" "dvs t = dvs s"
    "\<forall>d \<in> {0..<d_nr_dcs (dvs s)}. \<not> bit (dc_nodes (dc t d)) (nat n)"
    using end_node_dcs_maps [OF _ assms(2,3) _ t_def] by auto
  show ?thesis unfolding res
    using t by (auto simp: maps_agree_def tables_ok_def clear_node_def)
qed

lemma maps_add:
  assumes "maps_agree {} s" "tables_ok s" "0 \<le> d" "d < d_nr_dcs (dvs s)" "0 \<le> n" "n < d_nr_nodes (dvs s)"
    "dc_flags (dc s d) \<noteq> DC_FREE" "n_flags (node s n) \<noteq> NODE_FREE"
  defines "add \<equiv> set_node n (\<lambda>x. x\<lparr>n_dcs := set_bit (nat d) (n_dcs x)\<rparr>)
      (set_dc d (\<lambda>x. x\<lparr>dc_nodes := set_bit (nat n) (dc_nodes x)\<rparr>) s)"
    and "del \<equiv> set_node n (\<lambda>x. x\<lparr>n_dcs := unset_bit (nat d) (n_dcs x)\<rparr>)
      (set_dc d (\<lambda>x. x\<lparr>dc_nodes := unset_bit (nat n) (dc_nodes x)\<rparr>) s)"
  shows "maps_agree {} add" "tables_ok add" "maps_agree {} del" "tables_ok del"
proof -
  have lt: "nat n < 32" "nat d < 32" using assms(2-6) by (auto simp: tables_ok_def)
  show "maps_agree {} add" "maps_agree {} del"
    using assms(1,3-6) lt by (auto simp: maps_agree_def add_def del_def nat_eq_iff)
  show "tables_ok add" "tables_ok del"
    using assms(2-8) by (simp_all add: tables_ok_def add_def del_def)
qed

text \<open>C33: the two maps of the membership of nodes in DCs always agree: adding a node to a DC,
  deleting one, the end of a node (with the unbinding of all its processes, which may release
  DCs) and the release of a DC keep "DC \<open>d\<close> spans node \<open>n\<close> iff node \<open>n\<close> carries
  DC \<open>d\<close>" for every DC and node of the tables.\<close>

theorem node_maps_agree:
  assumes "maps_agree {} s" "tables_ok s"
  shows "maps_agree {} (fst (mm_add_node tid d n s)) \<and> tables_ok (fst (mm_add_node tid d n s))
    \<and> maps_agree {} (fst (mm_del_node tid d n s)) \<and> tables_ok (fst (mm_del_node tid d n s))
    \<and> (0 \<le> n \<and> n < d_nr_nodes (dvs s) \<longrightarrow>
        maps_agree {} (fst (do_node_end E tid n s)) \<and> tables_ok (fst (do_node_end E tid n s)))
    \<and> (0 \<le> d \<and> d < d_nr_dcs (dvs s) \<and> dc_flags (dc s d) \<noteq> DC_FREE \<longrightarrow>
        maps_agree {} (dc_release d s) \<and> tables_ok (dc_release d s))"
proof -
  have add: "maps_agree {} (fst (mm_add_node tid d n s)) \<and> tables_ok (fst (mm_add_node tid d n s))"
    using assms maps_add(1,2) [OF assms] by (simp add: mm_add_node_def Let_def)
  have del: "maps_agree {} (fst (mm_del_node tid d n s)) \<and> tables_ok (fst (mm_del_node tid d n s))"
    using assms maps_add(3,4) [OF assms] by (simp add: mm_del_node_def Let_def)
  have "dc_dcid (dc s d) = d" if "0 \<le> d" "d < d_nr_dcs (dvs s)" "dc_flags (dc s d) \<noteq> DC_FREE"
    using that assms(2) by (auto simp: tables_ok_def)
  with add del assms do_node_end_maps [OF assms] release_maps [OF assms] show ?thesis by blast
qed

lemma scn_nodes_ok: "maps_agree {} scn_nodes" "tables_ok scn_nodes"
proof -
  have three: "bit (3 :: flags) k \<longleftrightarrow> k = 0 \<or> k = 1" for k
    by (cases k) (auto simp: bit_Suc bit_0 bit_1_iff)
  have "bit (3 :: flags) (nat n) \<longleftrightarrow> n \<le> 1" if "0 \<le> n" for n :: int
    using that three [of "nat n"] by auto
  then show "maps_agree {} scn_nodes"
    by (simp add: maps_agree_def scn_nodes_def scn_defs bit_1_iff)
  show "tables_ok scn_nodes"
    by (auto simp: tables_ok_def scn_nodes_def scn_defs)
qed

theorem node_maps_agree_witness:
  "maps_agree {} scn_nodes \<and> tables_ok scn_nodes
   \<and> maps_agree {} (fst (mm_add_node 101 0 2 scn_nodes)) \<and> maps_agree {} (dc_release 0 scn_nodes)
   \<and> maps_agree {} (fst (do_node_end scn_env 101 2 scn_nodes))"
proof -
  have r: "0 \<le> (2 :: int) \<and> 2 < d_nr_nodes (dvs scn_nodes)"
    "0 \<le> (0 :: int) \<and> 0 < d_nr_dcs (dvs scn_nodes) \<and> dc_flags (dc scn_nodes 0) \<noteq> DC_FREE"
    by (simp_all add: scn_nodes_def scn_defs)
  show ?thesis
    using node_maps_agree [OF scn_nodes_ok, of 101 0 2 scn_env] r scn_nodes_ok by blast
qed

section \<open>A connected proxy pair serves its nodes\<close>

lemma bind_proxy_frame [simp]:
  "local_nodeid (bind_proxy p px pid s) = local_nodeid s" "dvs (bind_proxy p px pid s) = dvs s"
  "dc (bind_proxy p px pid s) = dc s" "node (bind_proxy p px pid s) = node s"
  "proxies (bind_proxy p px pid s) = proxies s" "umem (bind_proxy p px pid s) = umem s"
  "q \<noteq> p \<Longrightarrow> procs (bind_proxy p px pid s) q = procs s q"
  "t_euid (tasks (bind_proxy p px pid s) t) = t_euid (tasks s t)"
  "t_leader (tasks (bind_proxy p px pid s) t) = t_leader (tasks s t)"
  "t_proc (tasks (bind_proxy p px pid s) t) = (if t = pid then Some p else t_proc (tasks s t))"
  by (simp_all add: bind_proxy_def Let_def)

lemma bind_proxy_fields [simp]:
  "p_rts_flags (procs (bind_proxy p px pid s) p) = 0" "p_lpid (procs (bind_proxy p px pid s) p) = pid"
  "p_misc_flags (procs (bind_proxy p px pid s) p) = 1" "p_nr (procs (bind_proxy p px pid s) p) = px"
  "p_dcid (procs (bind_proxy p px pid s) p) = PROXY_NO_DC" "p_nodemap (procs (bind_proxy p px pid s) p) = 0"
  by (simp_all add: bind_proxy_def Let_def init_proc_desc_def)

lemma node_conn_frame [simp]:
  "procs (node_conn b p i s) = procs s" "tasks (node_conn b p i s) = tasks s"
  "proxies (node_conn b p i s) = proxies s" "dvs (node_conn b p i s) = dvs s"
  "local_nodeid (node_conn b p i s) = local_nodeid s"
  "n_proxies (node (node_conn b p i s) n) = n_proxies (node s n)"
  by (simp_all add: node_conn_def)

lemma node_conns_frame [simp]:
  "procs (fold (node_conn b p) xs s) = procs s" "tasks (fold (node_conn b p) xs s) = tasks s"
  "proxies (fold (node_conn b p) xs s) = proxies s" "dvs (fold (node_conn b p) xs s) = dvs s"
  "local_nodeid (fold (node_conn b p) xs s) = local_nodeid s"
  "n_proxies (node (fold (node_conn b p) xs s) n) = n_proxies (node s n)"
  by (induction xs arbitrary: s) simp_all

lemma node_conns_bit:
  assumes "b < 32" "n \<in> set xs \<and> node_bit n (p_nodemap (procs s p)) \<or> bit (n_flags (node s n)) b"
  shows "bit (n_flags (node (fold (node_conn b p) xs s) n)) b"
  using assms(2)
proof (induction xs arbitrary: s)
  case (Cons x xs)
  have "bit (n_flags (node (node_conn b p x s) n)) b"
    if "x = n \<and> node_bit n (p_nodemap (procs s p)) \<or> bit (n_flags (node s n)) b"
    using that assms(1) by (auto simp: node_conn_def)
  then show ?case using Cons by auto
qed auto

lemma take_needmigr_none: "\<not> mis s p MIS_BIT_NEEDMIGR \<Longrightarrow> take_needmigr p s = s"
  by (simp add: take_needmigr_def)

text \<open>Bringing a remote node up: once a proxy pair is bound, attaching a node to it and the
  sender proxy reporting itself connected both succeed, and then the node is routed through that
  pair: its sender proxy passes the status test every remote operation makes, the node is marked
  connected, and the sender proxy task passes the caller check of the kernel with its own
  descriptor, so it can fetch commands.\<close>

theorem attached_proxy_serves:
  assumes bind: "mm_proxies_bind E tid nm px spid rpid mb s = (s1, OK)"
    and n: "0 \<le> n" "n < d_nr_nodes (dvs s)" "d_nr_nodes (dvs s) \<le> NR_NODES"
    and pid: "0 < spid" "spid \<noteq> rpid"
  shows "\<exists>s2 rc s3. mm_node_up E tid nm2 n px s1 = (s2, rc)
    \<and> mm_proxy_conn E tid px CONNECT_SPROXY s2 = (s3, OK)
    \<and> NODE2SPROXY s3 n = Sproxy px \<and> proxy_status s3 (Sproxy px) = OK
    \<and> bit (n_flags (node s3 n)) NODE_BIT_SCONNECTED
    \<and> check_caller spid s3 = (s3, Chk_ok (Sproxy px) spid)"
proof -
  have ok: "t_euid (tasks s tid) = USER_ROOT" "local_nodeid s \<noteq> DVS_NO_INIT" "0 \<le> px" "px < d_nr_nodes (dvs s)"
    using bind by (auto simp: mm_proxies_bind_def DVS_NOT_INIT_def Let_def split: if_splits)
  have s1: "t_euid (tasks s1 tid) = USER_ROOT" "local_nodeid s1 = local_nodeid s" "dvs s1 = dvs s"
    "px_flags (proxies s1 px) = PROXIES_INUSE"
    "p_rts_flags (procs s1 (Sproxy px)) = 0" "p_rts_flags (procs s1 (Rproxy px)) = 0"
    "p_misc_flags (procs s1 (Sproxy px)) = 1" "p_lpid (procs s1 (Sproxy px)) = spid"
    "t_proc (tasks s1 spid) = Some (Sproxy px)" "p_dcid (procs s1 (Sproxy px)) = PROXY_NO_DC"
    using bind pid by (auto simp: mm_proxies_bind_def Let_def split: if_splits)
  define s2 where "s2 = fst (mm_node_up E tid nm2 n px s1)"
  have lt: "nat n < 32" using n by auto
  have s2: "t_euid (tasks s2 tid) = USER_ROOT" "local_nodeid s2 = local_nodeid s" "dvs s2 = dvs s"
    "px_flags (proxies s2 px) = PROXIES_INUSE"
    "p_rts_flags (procs s2 (Sproxy px)) = 0" "p_rts_flags (procs s2 (Rproxy px)) = 0"
    "p_misc_flags (procs s2 (Sproxy px)) = 1" "p_lpid (procs s2 (Sproxy px)) = spid"
    "t_proc (tasks s2 spid) = Some (Sproxy px)" "node_bit n (p_nodemap (procs s2 (Sproxy px)))"
    "n_proxies (node s2 n) = px" "p_dcid (procs s2 (Sproxy px)) = PROXY_NO_DC"
    using ok s1 n lt
    by (auto simp: s2_def mm_node_up_def lock_sr_proxies_def unlock_sr_proxies_def DVS_NOT_INIT_def
        node_bit_def Let_def split: prod.splits)
  define u where "u = set_mis MIS_BIT_CONNECTED (Sproxy px)
    (set_px px (\<lambda>x. x\<lparr>px_flags := set_bit PX_BIT_SCONNECTED (px_flags x)\<rparr>) s2)"
  define s3 where "s3 = fold (node_conn NODE_BIT_SCONNECTED (Sproxy px)) [0..d_nr_nodes (dvs s2) - 1] u"
  have flags: "set_bit PX_BIT_SCONNECTED PROXIES_INUSE \<noteq> PROXIES_FREE" by (rule set_bit_nonzero) simp
  have conn: "mm_proxy_conn E tid px CONNECT_SPROXY s2 = (s3, OK)"
    using ok s2 flags
    by (simp add: mm_proxy_conn_def lock_sr_proxies_def unlock_sr_proxies_def DVS_NOT_INIT_def
        proxy_conn_step_def s3_def u_def Let_def)
  have s3: "procs s3 = procs u" "tasks s3 = tasks s2" "n_proxies (node s3 n) = px"
    using s2 by (simp_all add: s3_def u_def)
  have "bit (n_flags (node s3 n)) NODE_BIT_SCONNECTED"
    unfolding s3_def by (rule node_conns_bit) (use n s2 in \<open>simp_all add: u_def\<close>)
  moreover have "proxy_status s3 (Sproxy px) = OK" "NODE2SPROXY s3 n = Sproxy px"
    using s2 s3 pid by (simp_all add: proxy_status_def NODE2SPROXY_def u_def bit_1_iff)
  moreover have "check_caller spid s3 = (s3, Chk_ok (Sproxy px) spid)"
    using s2 s3 by (simp add: check_caller_def pick_caller_def check_caller_status_def chk_of_def
        take_needmigr_none u_def bit_1_iff Let_def)
  ultimately show ?thesis
    using conn by (metis prod.collapse s2_def)
qed

text \<open>Proxy pair 3 of the scenario is still free; tasks 401 and 402 are its proxies to be.\<close>

definition scn_px :: kstate where
  "scn_px = scn\<lparr>proxies := (proxies scn)(3 := zero_proxies),
     tasks := (tasks scn)(401 := no_task\<lparr>t_live := True\<rparr>, 402 := no_task\<lparr>t_live := True\<rparr>)\<rparr>"

theorem attached_proxy_serves_witness:
  "\<exists>s1 s2 rc s3. mm_proxies_bind scn_env 101 4096 3 401 402 MAXCOPYBUF scn_px = (s1, OK)
    \<and> mm_node_up scn_env 101 4096 7 3 s1 = (s2, rc)
    \<and> mm_proxy_conn scn_env 101 3 CONNECT_SPROXY s2 = (s3, OK) \<and> proxy_status s3 (Sproxy 3) = OK
    \<and> check_caller 401 s3 = (s3, Chk_ok (Sproxy 3) 401)"
proof -
  define s1 where "s1 = fst (mm_proxies_bind scn_env 101 4096 3 401 402 MAXCOPYBUF scn_px)"
  have "mm_proxies_bind scn_env 101 4096 3 401 402 MAXCOPYBUF scn_px = (s1, OK)"
    by (simp add: s1_def mm_proxies_bind_def scn_px_def scn_defs DVS_NOT_INIT_def Let_def)
  moreover have "7 < d_nr_nodes (dvs scn_px)" "d_nr_nodes (dvs scn_px) \<le> NR_NODES"
    by (simp_all add: scn_px_def scn_defs)
  ultimately show ?thesis
    using attached_proxy_serves [of scn_env 101 4096 3 401 402 MAXCOPYBUF scn_px s1 7 4096] by auto
qed

section \<open>A lost connection wakes the senders\<close>

text \<open>A queued descriptor that the flush understands: a remote one, or a local one with a
  request.\<close>

definition flushable :: "kstate \<Rightarrow> pref \<Rightarrow> bool" where
  "flushable s q \<longleftrightarrow> IT_IS_REMOTE s q \<or> c_cmd (p_rmtcmd (procs s q)) \<in> {CMD_SEND_MSG, CMD_NTFY_MSG,
     CMD_SNDREC_MSG, CMD_REPLY_MSG, CMD_COPYIN_DATA, CMD_COPYIN_RQST, CMD_COPYLCL_RQST, CMD_COPYRMT_RQST}"

lemma flush_sender_other:
  "q' \<noteq> q \<Longrightarrow> procs (fst (flush_sender E n q s)) q'
     = (if c_dnode (p_rmtcmd (procs s q)) = n
        then (procs s q')\<lparr>p_list := list_del q (p_list (procs s q'))\<rparr> else procs s q')"
  by (auto simp: flush_sender_def flush_kind_def Let_def split: option.splits)

lemma flush_sender_ok: "flushable s q \<Longrightarrow> \<not> snd (flush_sender E n q s)"
  by (auto simp: flush_sender_def flush_kind_def flushable_def IT_IS_REMOTE_def Let_def split: option.splits)

lemma flush_sender_cmd [simp]:
  "p_rmtcmd (procs (fst (flush_sender E n q s)) q') = p_rmtcmd (procs s q')"
  by (cases "q' = q")
    (auto simp: flush_sender_other flush_sender_def flush_kind_def Let_def split: option.splits)

text \<open>A local process blocked in a remote send, reply or sendrec, and the same process woken with
  an error.\<close>

definition remote_waiting :: "kstate \<Rightarrow> pref \<Rightarrow> bool" where
  "remote_waiting s q \<longleftrightarrow> (let c = c_cmd (p_rmtcmd (procs s q)); f = p_rts_flags (procs s q) in
     (c = CMD_SEND_MSG \<or> c = CMD_REPLY_MSG) \<and> f = 8196 \<or> c = CMD_SNDREC_MSG \<and> f = 8204)"

definition woken :: "kstate \<Rightarrow> kstate \<Rightarrow> pref \<Rightarrow> int \<Rightarrow> bool" where
  "woken s t q rcode \<longleftrightarrow> p_rts_flags (procs t q) = 0 \<and> p_rcode (procs t q) = rcode
     \<and> p_pseudosem (procs t q) = p_pseudosem (procs s q) + 1"

definition same_wait :: "kstate \<Rightarrow> kstate \<Rightarrow> pref \<Rightarrow> bool" where
  "same_wait s t q \<longleftrightarrow> p_rts_flags (procs t q) = p_rts_flags (procs s q)
     \<and> p_rcode (procs t q) = p_rcode (procs s q) \<and> p_pseudosem (procs t q) = p_pseudosem (procs s q)"

lemma same_wait_flush: "q' \<noteq> q \<Longrightarrow> same_wait s (fst (flush_sender E n q s)) q'"
  by (simp add: same_wait_def flush_sender_other)

lemma flushable_keep: "q' \<noteq> q \<Longrightarrow> flushable (fst (flush_sender E n q s)) q' = flushable s q'"
  by (simp add: flushable_def IT_IS_REMOTE_def flush_sender_other)

lemma remote_waiting_keep: "q' \<noteq> q \<Longrightarrow> remote_waiting (fst (flush_sender E n q s)) q' = remote_waiting s q'"
  by (simp add: remote_waiting_def flush_sender_other)

lemma waiting_flags:
  "unset_bit 2 (unset_bit 13 8196 :: flags) = 0" "unset_bit 2 (unset_bit 3 (unset_bit 13 8204) :: flags) = 0"
  "\<not> bit (unset_bit 13 8196 :: flags) 12" "\<not> bit (unset_bit 13 8204 :: flags) 12"
  by (simp_all add: unset_bit_eq_and_not)

lemma flush_waiting:
  assumes "remote_waiting s q" "c_dnode (p_rmtcmd (procs s q)) = n"
  shows "woken s (fst (flush_sender E n q s)) q EMOLNOTCONN"
  using assms
  by (auto simp: remote_waiting_def flush_sender_def flush_kind_def woken_def IT_IS_REMOTE_def
      up_if_ready_def waiting_flags Let_def)

lemma flush_senders_walk:
  assumes "sp \<notin> set xs" "distinct xs" "\<forall>q \<in> set xs. flushable s q"
  shows "\<exists>t. flush_senders E n xs s = (t, OK)
    \<and> p_list (procs t sp) = fold list_del (filter (\<lambda>q. c_dnode (p_rmtcmd (procs s q)) = n) xs) (p_list (procs s sp))
    \<and> (\<forall>q. q \<notin> set xs \<longrightarrow> same_wait s t q)
    \<and> (\<forall>q \<in> set xs. c_dnode (p_rmtcmd (procs s q)) = n \<and> remote_waiting s q \<longrightarrow> woken s t q EMOLNOTCONN)"
  using assms
proof (induction xs arbitrary: s)
  case (Cons x xs)
  let ?u = "fst (flush_sender E n x s)"
  have "\<not> snd (flush_sender E n x s)" using flush_sender_ok Cons.prems(3) by simp
  then have ok: "flush_sender E n x s = (?u, False)" by (metis prod.collapse)
  have ne: "q \<noteq> x" if "q \<in> set xs" for q using that Cons.prems(2) by auto
  have fl: "\<forall>q \<in> set xs. flushable ?u q" using Cons.prems(3) ne by (simp add: flushable_keep)
  have "\<exists>t. flush_senders E n xs ?u = (t, OK)
    \<and> p_list (procs t sp) = fold list_del (filter (\<lambda>q. c_dnode (p_rmtcmd (procs ?u q)) = n) xs) (p_list (procs ?u sp))
    \<and> (\<forall>q. q \<notin> set xs \<longrightarrow> same_wait ?u t q)
    \<and> (\<forall>q \<in> set xs. c_dnode (p_rmtcmd (procs ?u q)) = n \<and> remote_waiting ?u q \<longrightarrow> woken ?u t q EMOLNOTCONN)"
    using Cons.prems(1,2) fl by (intro Cons.IH) auto
  then obtain t where t: "flush_senders E n xs ?u = (t, OK)"
    "p_list (procs t sp) = fold list_del (filter (\<lambda>q. c_dnode (p_rmtcmd (procs s q)) = n) xs) (p_list (procs ?u sp))"
    "\<And>q. q \<notin> set xs \<Longrightarrow> same_wait ?u t q"
    "\<And>q. q \<in> set xs \<Longrightarrow> c_dnode (p_rmtcmd (procs s q)) = n \<Longrightarrow> remote_waiting ?u q \<Longrightarrow> woken ?u t q EMOLNOTCONN"
    by auto
  have 1: "same_wait s t q" if "q \<notin> set (x # xs)" for q
    using that t(3) [of q] same_wait_flush [of q x s E n] by (auto simp: same_wait_def)
  have 2: "woken s t q EMOLNOTCONN"
    if "q \<in> set (x # xs)" "c_dnode (p_rmtcmd (procs s q)) = n" "remote_waiting s q" for q
  proof (cases "q = x")
    case True
    then show ?thesis
      using flush_waiting [OF that(3,2), of E] t(3) [of q] Cons.prems(2) by (auto simp: woken_def same_wait_def)
  next
    case False
    then show ?thesis
      using that t(4) [of q] remote_waiting_keep [of q x E n s] same_wait_flush [of q x s E n]
      by (auto simp: woken_def same_wait_def)
  qed
  have "p_list (procs ?u sp) = (if c_dnode (p_rmtcmd (procs s x)) = n then list_del x (p_list (procs s sp))
      else p_list (procs s sp))"
    using Cons.prems(1) by (simp add: flush_sender_other)
  with t(2) have l: "p_list (procs t sp) =
      fold list_del (filter (\<lambda>q. c_dnode (p_rmtcmd (procs s q)) = n) (x # xs)) (p_list (procs s sp))"
    by simp
  have w: "flush_senders E n (x # xs) s = (t, OK)"
    using t(1) by (subst flush_senders.simps, subst ok) simp
  show ?case
    by (intro exI [of _ t] conjI w l allI ballI impI) (use 1 2 in blast)+
qed (simp add: same_wait_def)

lemma fold_list_del: "distinct ys \<Longrightarrow> fold list_del xs ys = filter (\<lambda>y. y \<notin> set xs) ys"
proof (induction xs arbitrary: ys)
  case (Cons x xs)
  then have "list_del x ys = filter (\<lambda>y. y \<noteq> x) ys"
    by (simp add: list_del_def distinct_remove1_removeAll removeAll_filter_not_eq eq_commute)
  with Cons show ?case by (simp add: conj_commute)
qed simp

text \<open>When the connection to a node is lost, flushing the sender proxy's queue succeeds, takes
  exactly the commands for that node off the queue, keeping the others in order, and every local
  process that was blocked in a send, reply or sendrec to that node is woken up with
  \<open>EMOLNOTCONN\<close> and no flag left; processes that are not queued are not touched.\<close>

theorem flush_wakes_senders:
  assumes "distinct (p_list (procs s sp))" "sp \<notin> set (p_list (procs s sp))"
    "\<forall>q \<in> set (p_list (procs s sp)). flushable s q"
  shows "\<exists>t. flush_sending_procs E n sp s = (t, OK)
    \<and> p_list (procs t sp) = filter (\<lambda>q. c_dnode (p_rmtcmd (procs s q)) \<noteq> n) (p_list (procs s sp))
    \<and> (\<forall>q. q \<notin> set (p_list (procs s sp)) \<longrightarrow> same_wait s t q)
    \<and> (\<forall>q \<in> set (p_list (procs s sp)). c_dnode (p_rmtcmd (procs s q)) = n \<and> remote_waiting s q
         \<longrightarrow> woken s t q EMOLNOTCONN)"
proof -
  have "filter (\<lambda>y. y \<notin> set (filter (\<lambda>q. c_dnode (p_rmtcmd (procs s q)) = n) (p_list (procs s sp)))) (p_list (procs s sp))
      = filter (\<lambda>q. c_dnode (p_rmtcmd (procs s q)) \<noteq> n) (p_list (procs s sp))"
    by (rule filter_cong) auto
  then show ?thesis
    using flush_senders_walk [OF assms(2,1,3), of E n] fold_list_del [OF assms(1)]
    by (simp add: flush_sending_procs_def)
qed

text \<open>Processes 1 and 2 blocked in remote sends to process 5 of node 1 and queued on its proxy.\<close>

definition scn_flush :: kstate where
  "scn_flush = upd (Sproxy 1) (\<lambda>x. x\<lparr>p_list := [DcProc 0 36, DcProc 0 37]\<rparr>)
     (upd (DcProc 0 36) (\<lambda>x. x\<lparr>p_rts_flags := 8196, p_sendto := 5, p_pseudosem := - 1,
        p_rmtcmd := (p_rmtcmd x)\<lparr>c_cmd := CMD_SEND_MSG, c_dnode := 1\<rparr>\<rparr>)
     (upd (DcProc 0 37) (\<lambda>x. x\<lparr>p_rts_flags := 8204, p_sendto := 5, p_pseudosem := - 1,
        p_rmtcmd := (p_rmtcmd x)\<lparr>c_cmd := CMD_SNDREC_MSG, c_dnode := 1\<rparr>\<rparr>) scn))"

theorem flush_wakes_senders_witness:
  "\<exists>t. flush_sending_procs scn_env 1 (Sproxy 1) scn_flush = (t, OK) \<and> p_list (procs t (Sproxy 1)) = []
     \<and> woken scn_flush t (DcProc 0 36) EMOLNOTCONN \<and> woken scn_flush t (DcProc 0 37) EMOLNOTCONN"
proof -
  have q: "p_list (procs scn_flush (Sproxy 1)) = [DcProc 0 36, DcProc 0 37]"
    "c_dnode (p_rmtcmd (procs scn_flush (DcProc 0 36))) = 1" "c_dnode (p_rmtcmd (procs scn_flush (DcProc 0 37))) = 1"
    by (simp_all add: scn_flush_def)
  have w: "remote_waiting scn_flush (DcProc 0 36)" "remote_waiting scn_flush (DcProc 0 37)"
    "flushable scn_flush (DcProc 0 36)" "flushable scn_flush (DcProc 0 37)"
    by (simp_all add: scn_flush_def remote_waiting_def flushable_def)
  show ?thesis
    using flush_wakes_senders [of scn_flush "Sproxy 1" scn_env 1] q w by auto
qed

end
