(* ===== verification/Bind.thy ===== *)
theory Bind
  imports Nodes
begin

text \<open>
  Binding a Linux task, or a process of another node, to a slot of a DC and unbinding it
  (\<open>mm_bind\<close>, \<open>do_autobind\<close>, \<open>mm_getep\<close> and \<open>mm_unbind\<close> of
  \<open>src/mol-module/mm_hyper.c\<close>).  A pid names the task of that number.
\<close>

section \<open>mm_bind\<close>

text \<open>The node a binding is for, by kind of operation.\<close>

definition bind_node :: "int \<Rightarrow> int \<Rightarrow> kstate \<Rightarrow> int + int" where
  "bind_node oper nodeid s =
    (if oper = SELF_BIND \<or> oper = LCL_BIND \<or> oper = REPLICA_BIND then
       (if nodeid \<noteq> LOCALNODE then Inl EMOLBADNODEID else Inr (local_nodeid s))
     else if oper = RMT_BIND \<or> oper = BKUP_BIND then
       (if nodeid < 0 \<or> nodeid \<ge> d_nr_nodes (dvs s) then Inl EMOLBADNODEID
        else if nodeid = local_nodeid s then Inl EMOLBADNODEID
        else Inr nodeid)
     else Inl EMOLBINDTYPE)"

text \<open>The task to bind: a thread binds itself or its main thread, the other operations any
  live task.\<close>

definition bind_task :: "int \<Rightarrow> int \<Rightarrow> int \<Rightarrow> kstate \<Rightarrow> int + int" where
  "bind_task tid oper pid s =
    (if pid = tid then Inr tid
     else if oper = SELF_BIND \<and> t_tgid (tasks s tid) \<noteq> pid then Inl EMOLBADPROC
     else if \<not> t_live (tasks s pid) then Inl EMOLBADPROC
     else Inr pid)"

text \<open>A thread that is not the leader of its group needs a leader bound to the same DC.\<close>

definition bind_leader :: "int \<Rightarrow> int \<Rightarrow> kstate \<Rightarrow> int" where
  "bind_leader t dcid s =
    (if t_leader (tasks s t) = Some t then OK
     else case t_leader (tasks s t) of
            None \<Rightarrow> EMOLGRPLEADER
          | Some l \<Rightarrow> (case t_proc (tasks s l) of None \<Rightarrow> EMOLGRPLEADER
              | Some c \<Rightarrow> if p_dcid (procs s c) \<noteq> dcid then EMOLBADPROC else OK))"

definition bind_sid :: "int \<Rightarrow> int \<Rightarrow> kstate \<Rightarrow> int" where
  "bind_sid dcid i s = (if i < dc_nr_sysprocs (dc s dcid) then i else dc_nr_sysprocs (dc s dcid))"

definition bind_local :: "int \<Rightarrow> int \<Rightarrow> int \<Rightarrow> int \<Rightarrow> int \<Rightarrow> int \<Rightarrow> kstate \<Rightarrow> kstate" where
  "bind_local oper dcid i t pid nodeid s =
    (let p = DcProc dcid i;
         s1 = upd p (\<lambda>x. x\<lparr>p_task := Some t, p_name := take 15 (t_comm (tasks s t))\<rparr>) s;
         s2 = s1\<lparr>tasks := (tasks s1)(t := (tasks s1 t)\<lparr>t_proc := Some p\<rparr>)\<rparr>;
         s3 = (if t_leader (tasks s2 t) = Some t
               then upd p (\<lambda>x. x\<lparr>p_misc_flags := set_bit MIS_BIT_GRPLEADER 0\<rparr>) s2 else s2);
         s4 = (if oper = BKUP_BIND then
                 upd p (\<lambda>x. x\<lparr>p_rts_flags := REMOTE,
                   p_misc_flags := set_bit MIS_BIT_RMTBACKUP (p_misc_flags x), p_nodeid := nodeid\<rparr>) s3
               else
                 upd p (\<lambda>x. x\<lparr>p_rts_flags := PROC_RUNNING, p_nodeid := local_nodeid s3,
                   p_misc_flags := (if oper = REPLICA_BIND then set_bit MIS_BIT_REPLICATED (p_misc_flags x)
                                    else p_misc_flags x)\<rparr>) s3)
     in upd p (\<lambda>x. x\<lparr>p_lpid := pid, p_priv := (p_priv x)\<lparr>s_id := bind_sid dcid i s4\<rparr>,
          p_cpumask := dc_cpumask (dc s4 dcid)\<rparr>) s4)"

text \<open>A remote binding needs the proxies of the node; only the result of
  \<open>unlock_sr_proxies\<close> is tested.  The \<open>pid\<close> argument is the address of the name.\<close>

definition bind_remote :: "env \<Rightarrow> int \<Rightarrow> int \<Rightarrow> int \<Rightarrow> int \<Rightarrow> int \<Rightarrow> kstate \<Rightarrow> kstate \<times> int" where
  "bind_remote E tid dcid i pid nodeid s =
    (if unlock_sr_proxies tid (n_proxies (node s nodeid)) s \<noteq> OK then (s, EMOLNOPROXY)
     else
      let nm = c_string (fst (copy_from_user E (mm_of_task s tid) (word_of_int pid) 15 s))
      in (upd (DcProc dcid i) (\<lambda>x. x\<lparr>p_rts_flags := REMOTE, p_nodeid := nodeid,
            p_priv := (p_priv x)\<lparr>s_id := bind_sid dcid i s\<rparr>, p_name := nm\<rparr>) s, OK))"

definition bind_end :: "int \<Rightarrow> int \<Rightarrow> kstate \<Rightarrow> kstate \<times> int" where
  "bind_end dcid i s =
    (let p = DcProc dcid i;
         s1 = upd p (\<lambda>x. x\<lparr>p_nodemap := set_bit (nat (p_nodeid x)) (p_nodemap x)\<rparr>) s
     in (DC_INCREF dcid s1, p_endpoint (procs s1 p)))"

definition mm_bind :: "env \<Rightarrow> int \<Rightarrow> int \<Rightarrow> int \<Rightarrow> int \<Rightarrow> int \<Rightarrow> int \<Rightarrow> kstate \<Rightarrow> kstate \<times> int" where
  "mm_bind E tid oper dcid pid endpoint nodeid0 s =
    (if t_euid (tasks s tid) \<noteq> USER_ROOT then (s, EMOLPRIVILEGES)
     else if DVS_NOT_INIT s then (s, EMOLDVSINIT)
     else case bind_node oper nodeid0 s of Inl e \<Rightarrow> (s, e) | Inr nodeid \<Rightarrow>
      let nr = ENDPOINT_P endpoint; i = nr + dc_nr_tasks (dc s dcid); p = DcProc dcid i in
      if dcid < 0 \<or> dcid \<ge> d_nr_dcs (dvs s) then (s, EMOLBADDCID)
      else if dc_flags (dc s dcid) \<noteq> 0 then (s, EMOLDCNOTRUN)
      else if nr < - dc_nr_tasks (dc s dcid) \<or> nr \<ge> dc_nr_procs (dc s dcid) then (s, EMOLBADDCID)
      else if \<not> node_bit nodeid (dc_nodes (dc s dcid)) then (s, EMOLNODCNODE)
      else if \<not> rts s p BIT_SLOT_FREE \<and> oper \<noteq> BKUP_BIND \<and> oper \<noteq> REPLICA_BIND then (s, EMOLSLOTUSED)
      else
       let s1 = upd p (init_proc_desc s dcid i) s in
       if oper \<noteq> RMT_BIND then
         (case bind_task tid oper pid s1 of
            Inl e \<Rightarrow> (s1, e)
          | Inr t \<Rightarrow> if bind_leader t dcid s1 \<noteq> OK then (s1, bind_leader t dcid s1)
                     else bind_end dcid i (bind_local oper dcid i t pid nodeid s1))
       else
         (let (s2, rcode) = bind_remote E tid dcid i pid nodeid s1 in
          if rcode \<noteq> OK then (s2, rcode) else bind_end dcid i s2))"

section \<open>do_autobind\<close>

definition do_autobind :: "int \<Rightarrow> int \<Rightarrow> pref \<Rightarrow> int \<Rightarrow> int \<Rightarrow> kstate \<Rightarrow> kstate \<times> int" where
  "do_autobind tid d rmt endpoint nodeid s =
    (let dcid = dc_dcid (dc s d); nr = ENDPOINT_P endpoint; i = nr + dc_nr_tasks (dc s d);
         p = DcProc d i; px = n_proxies (node s nodeid) in
     if dcid < 0 \<or> dcid \<ge> d_nr_dcs (dvs s) then (s, EMOLBADDCID)
     else if nr < - dc_nr_tasks (dc s d) \<or> nr \<ge> dc_nr_procs (dc s d) then (s, EMOLBADDCID)
     else if p_nr (procs s rmt) \<noteq> nr then (s, EMOLBADPROC)
     else if nodeid < 0 \<or> nodeid \<ge> d_nr_nodes (dvs s) then (s, EMOLBADNODEID)
     else if \<not> node_bit nodeid (dc_nodes (dc s d)) then (s, EMOLNODCNODE)
     else if \<not> rts s p BIT_SLOT_FREE then (s, EMOLSLOTUSED)
     else
      let s1 = upd p (init_proc_desc s dcid i) s in
      if nodeid = local_nodeid s1 then (s1, EMOLBADNODEID)
      else if lock_sr_proxies tid px s1 \<noteq> OK then (s1, lock_sr_proxies tid px s1)
      else if p_rts_flags (procs s1 (Rproxy px)) = SLOT_FREE \<or> p_rts_flags (procs s1 (Sproxy px)) = SLOT_FREE
        then (s1, if unlock_sr_proxies tid px s1 \<noteq> OK then unlock_sr_proxies tid px s1 else EMOLNOPROXY)
      else if unlock_sr_proxies tid px s1 \<noteq> OK then (s1, unlock_sr_proxies tid px s1)
      else
       let s2 = upd p (\<lambda>x. x\<lparr>p_rts_flags := REMOTE, p_endpoint := endpoint, p_nodeid := nodeid,
              p_priv := (p_priv x)\<lparr>s_id := bind_sid d i s1\<rparr>, p_name := ''remote'',
              p_nodemap := set_bit (nat nodeid) (p_nodemap x), p_cpumask := dc_cpumask (dc s1 d)\<rparr>) s1
       in (DC_INCREF d s2, endpoint))"

section \<open>mm_getep\<close>

text \<open>After the caller check, with the caller's descriptor and pid.\<close>

definition mm_getep_body :: "int \<Rightarrow> pref \<Rightarrow> int \<Rightarrow> kstate \<Rightarrow> int" where
  "mm_getep_body pid c caller_pid s =
    (let found = (if caller_pid \<noteq> pid then
                    (if \<not> t_live (tasks s pid) then Inl EMOLBADPID
                     else case t_proc (tasks s pid) of None \<Rightarrow> Inl EMOLNOTBIND | Some p \<Rightarrow> Inr p)
                  else Inr c)
     in case found of Inl e \<Rightarrow> e | Inr p \<Rightarrow>
        if pid \<noteq> p_lpid (procs s p) then EMOLBADPID
        else if rts s p BIT_SLOT_FREE then EMOLNOTBIND
        else if mis s p MIS_BIT_PROXY then EMOLBADPROC
        else if dc_flags (dc s (p_dcid (procs s p))) \<noteq> 0 then EMOLDCNOTRUN
        else p_endpoint (procs s p))"

section \<open>mm_unbind\<close>

text \<open>The call ends, sleeps on the caller's descriptor until the process has unbound itself
  (then returning \<open>p_rcode\<close>), or waits for the pid of the slot to change.\<close>

datatype unbind_outcome = Unbind_return int | Unbind_sleep pref | Unbind_wait pref int

text \<open>The task checks for a local process.\<close>

definition unbind_task :: "int \<Rightarrow> pref \<Rightarrow> kstate \<Rightarrow> int" where
  "unbind_task tid p s =
    (if IT_IS_REMOTE s p then OK
     else if t_proc (tasks s tid) = Some p then
       (if tid \<noteq> p_lpid (procs s p) then
          (if t_tgid (tasks s tid) \<noteq> p_lpid (procs s p) then EMOLNOTBIND else OK)
        else if p_task (procs s p) \<noteq> Some tid then EMOLPROCSTS else OK)
     else if p_task (procs s p) = None then EMOLNOTBIND else OK)"

definition mm_unbind :: "env \<Rightarrow> int \<Rightarrow> int \<Rightarrow> int \<Rightarrow> int \<Rightarrow> kstate \<Rightarrow> kstate \<times> unbind_outcome" where
  "mm_unbind E tid dcid proc_ep timeout_ms s =
    (let nr = ENDPOINT_P proc_ep; p = ENDPOINT2PTR s dcid proc_ep; nodeid = p_nodeid (procs s p) in
     if t_euid (tasks s tid) \<noteq> USER_ROOT then (s, Unbind_return EMOLPRIVILEGES)
     else if DVS_NOT_INIT s then (s, Unbind_return EMOLDVSINIT)
     else if dcid < 0 \<or> dcid \<ge> d_nr_dcs (dvs s) then (s, Unbind_return EMOLBADDCID)
     else if dc_flags (dc s dcid) \<noteq> 0 then (s, Unbind_return EMOLDCNOTRUN)
     else if nr < - dc_nr_tasks (dc s dcid) \<or> nr \<ge> dc_nr_procs (dc s dcid)
       then (s, Unbind_return EMOLENDPOINT)
     else if rts s p BIT_SLOT_FREE then (s, Unbind_return EMOLNOTBIND)
     else if nodeid < 0 \<or> nodeid \<ge> d_nr_nodes (dvs s) then (s, Unbind_return EMOLBADNODEID)
     else if \<not> node_bit nodeid (dc_nodes (dc s dcid)) then (s, Unbind_return EMOLNODCNODE)
     else if unbind_task tid p s \<noteq> OK then (s, Unbind_return (unbind_task tid p s))
     else
      let (s1, ret) = do_unbind E tid dcid p s in
      if ret \<noteq> 0 then
        (case t_proc (tasks s tid) of
           Some c \<Rightarrow>
             if \<not> IT_IS_REMOTE s1 p \<and> ret = EMOLAGAIN \<and> c \<noteq> p then
               let s2 = LIST_ADD_TAIL_U c p s1;
                   s3 = upd c (\<lambda>x. x\<lparr>p_waitunbind := p_endpoint (procs s2 p)\<rparr>) s2;
                   s4 = set_rts BIT_WAITUNBIND c s3;
                   (s5, asleep) = sleep_begin c timeout_ms s4
               in (s5, if asleep then Unbind_sleep c else Unbind_return (p_rcode (procs s5 c)))
             else (s1, Unbind_return ret)
         | None \<Rightarrow> (s1, Unbind_return ret))
      else if local_nodeid s1 = nodeid \<and> t_proc (tasks s tid) \<noteq> Some p then
        (s1, case t_proc (tasks s tid) of
               None \<Rightarrow> Unbind_return OK
             | Some c \<Rightarrow> (case p_task (procs s p) of
                 Some other \<Rightarrow> Unbind_wait p other | None \<Rightarrow> Unbind_return OK))
      else (s1, Unbind_return OK))"

section \<open>Binding gives a ready process\<close>

text \<open>A local binding whose arguments are right: the caller is root, the DC runs and spans the
  local node, the slot is in the table and free, and the task is a live group leader.\<close>

definition bindable :: "int \<Rightarrow> int \<Rightarrow> int \<Rightarrow> int \<Rightarrow> int \<Rightarrow> kstate \<Rightarrow> bool" where
  "bindable tid oper dcid pid ep s \<longleftrightarrow> t_euid (tasks s tid) = USER_ROOT \<and> \<not> DVS_NOT_INIT s
     \<and> (oper = SELF_BIND \<or> oper = LCL_BIND) \<and> 0 \<le> dcid \<and> dcid < d_nr_dcs (dvs s)
     \<and> dc_flags (dc s dcid) = 0
     \<and> - dc_nr_tasks (dc s dcid) \<le> ENDPOINT_P ep \<and> ENDPOINT_P ep < dc_nr_procs (dc s dcid)
     \<and> node_bit (local_nodeid s) (dc_nodes (dc s dcid)) \<and> rts s (ENDPOINT2PTR s dcid ep) BIT_SLOT_FREE
     \<and> (pid = tid \<or> t_live (tasks s pid) \<and> (oper = SELF_BIND \<longrightarrow> t_tgid (tasks s tid) = pid))
     \<and> t_leader (tasks s pid) = Some pid"

lemma bind_steps:
  assumes "bindable tid oper dcid pid ep s"
  defines "i \<equiv> ENDPOINT_P ep + dc_nr_tasks (dc s dcid)"
  shows "ENDPOINT2PTR s dcid ep = DcProc dcid i"
    "mm_bind E tid oper dcid pid ep LOCALNODE s
     = bind_end dcid i (bind_local oper dcid i pid pid (local_nodeid s) (upd (DcProc dcid i) (init_proc_desc s dcid i) s))"
proof -
  show p: "ENDPOINT2PTR s dcid ep = DcProc dcid i" by (simp add: ENDPOINT2PTR_def NBR2PTR_def i_def)
  have free: "rts s (DcProc dcid (ENDPOINT_P ep + dc_nr_tasks (dc s dcid))) BIT_SLOT_FREE"
    using assms(1) p by (simp add: bindable_def i_def)
  show "mm_bind E tid oper dcid pid ep LOCALNODE s
     = bind_end dcid i (bind_local oper dcid i pid pid (local_nodeid s) (upd (DcProc dcid i) (init_proc_desc s dcid i) s))"
    using assms(1) free
    by (auto simp: bindable_def mm_bind_def bind_node_def bind_task_def bind_leader_def i_def Let_def)
qed

lemma bind_local_frame [simp]:
  "dc (bind_local oper d i t pid n s) = dc s" "dvs (bind_local oper d i t pid n s) = dvs s"
  "local_nodeid (bind_local oper d i t pid n s) = local_nodeid s" "node (bind_local oper d i t pid n s) = node s"
  "t_leader (tasks (bind_local oper d i t pid n s) u) = t_leader (tasks s u)"
  "t_euid (tasks (bind_local oper d i t pid n s) u) = t_euid (tasks s u)"
  "t_proc (tasks (bind_local oper d i t pid n s) u) = (if u = t then Some (DcProc d i) else t_proc (tasks s u))"
  "q \<noteq> DcProc d i \<Longrightarrow> procs (bind_local oper d i t pid n s) q = procs s q"
  by (simp_all add: bind_local_def Let_def)

lemma bind_local_fields:
  assumes "oper \<noteq> BKUP_BIND"
  shows "p_rts_flags (procs (bind_local oper d i t pid n s) (DcProc d i)) = 0"
    "p_lpid (procs (bind_local oper d i t pid n s) (DcProc d i)) = pid"
    "p_task (procs (bind_local oper d i t pid n s) (DcProc d i)) = Some t"
    "p_nodeid (procs (bind_local oper d i t pid n s) (DcProc d i)) = local_nodeid s"
    "p_dcid (procs (bind_local oper d i t pid n s) (DcProc d i)) = p_dcid (procs s (DcProc d i))"
    "p_endpoint (procs (bind_local oper d i t pid n s) (DcProc d i)) = p_endpoint (procs s (DcProc d i))"
    "p_list (procs (bind_local oper d i t pid n s) (DcProc d i)) = p_list (procs s (DcProc d i))"
    "oper \<noteq> REPLICA_BIND \<Longrightarrow> t_leader (tasks s t) = Some t \<Longrightarrow>
       p_misc_flags (procs (bind_local oper d i t pid n s) (DcProc d i)) = set_bit MIS_BIT_GRPLEADER 0"
  using assms by (simp_all add: bind_local_def Let_def)

lemma bind_end_frame [simp]:
  "procs (fst (bind_end d i s)) q = (if q = DcProc d i
     then (procs s q)\<lparr>p_nodemap := set_bit (nat (p_nodeid (procs s q))) (p_nodemap (procs s q))\<rparr> else procs s q)"
  "tasks (fst (bind_end d i s)) = tasks s" "dvs (fst (bind_end d i s)) = dvs s"
  "local_nodeid (fst (bind_end d i s)) = local_nodeid s"
  "dc (fst (bind_end d i s)) = (dc s)(d := (dc s d)\<lparr>dc_kref := dc_kref (dc s d) + 1\<rparr>)"
  "snd (bind_end d i s) = p_endpoint (procs s (DcProc d i))"
  by (simp_all add: bind_end_def DC_INCREF_def Let_def)

text \<open>Binding a live task to a free slot of a running DC succeeds and returns the endpoint of
  the slot; from then on the kernel accepts the task as a caller through that slot, \<open>mm_getep\<close>
  finds its endpoint by its pid, the slot is local, runnable and has no sender queued, the DC holds
  one more reference, and no other descriptor changes.\<close>

theorem bind_makes_ready:
  assumes "bindable tid oper dcid pid ep s" and p: "p = ENDPOINT2PTR s dcid ep"
  shows "\<exists>s'. mm_bind E tid oper dcid pid ep LOCALNODE s = (s', p_endpoint (procs s p))
    \<and> check_caller pid s' = (s', Chk_ok p pid) \<and> mm_getep_body pid p pid s' = p_endpoint (procs s p)
    \<and> \<not> IT_IS_REMOTE s' p \<and> p_nodeid (procs s' p) = local_nodeid s \<and> p_list (procs s' p) = []
    \<and> dc_kref (dc s' dcid) = dc_kref (dc s dcid) + 1 \<and> (\<forall>q. q \<noteq> p \<longrightarrow> procs s' q = procs s q)"
proof -
  define i where "i = ENDPOINT_P ep + dc_nr_tasks (dc s dcid)"
  have pi: "p = DcProc dcid i" using bind_steps(1) [OF assms(1)] p by (simp add: i_def)
  define s1 where "s1 = upd p (init_proc_desc s dcid i) s"
  define s2 where "s2 = bind_local oper dcid i pid pid (local_nodeid s) s1"
  define s' where "s' = fst (bind_end dcid i s2)"
  have b: "oper \<noteq> BKUP_BIND" "oper \<noteq> REPLICA_BIND" "t_leader (tasks s pid) = Some pid"
    "0 \<le> dcid" "dcid < d_nr_dcs (dvs s)" "dc_flags (dc s dcid) = 0"
    using assms(1) by (auto simp: bindable_def)
  have ep: "p_endpoint (procs s2 p) = p_endpoint (procs s p)"
    by (simp add: s2_def pi bind_local_fields [OF b(1)] s1_def)
  have d: "p_dcid (procs s1 p) = dcid" by (simp add: s1_def init_proc_desc_def Let_def)
  have call: "mm_bind E tid oper dcid pid ep LOCALNODE s = (s', p_endpoint (procs s p))"
    using bind_steps(2) [OF assms(1), of E] ep
    by (simp add: prod_eq_iff s'_def s2_def s1_def pi i_def)
  have f: "p_rts_flags (procs s' p) = 0" "p_misc_flags (procs s' p) = set_bit MIS_BIT_GRPLEADER 0"
    "p_lpid (procs s' p) = pid" "p_dcid (procs s' p) = dcid" "p_list (procs s' p) = []"
    "p_nodeid (procs s' p) = local_nodeid s" "p_endpoint (procs s' p) = p_endpoint (procs s p)"
    using b d ep by (simp_all add: s'_def s2_def pi bind_local_fields s1_def)
  have g: "t_leader (tasks s' pid) = Some pid" "t_proc (tasks s' pid) = Some p" "dvs s' = dvs s"
    "dc_flags (dc s' dcid) = 0"
    using b by (simp_all add: s'_def s2_def s1_def pi)
  have "check_caller pid s' = (s', Chk_ok p pid)"
    using f g b by (simp add: check_caller_def pick_caller_def check_caller_status_def chk_of_def
        take_needmigr_none Let_def)
  moreover have "mm_getep_body pid p pid s' = p_endpoint (procs s p)"
    using f g by (simp add: mm_getep_body_def)
  moreover have "dc_kref (dc s' dcid) = dc_kref (dc s dcid) + 1"
    "\<forall>q. q \<noteq> p \<longrightarrow> procs s' q = procs s q"
    by (simp_all add: s'_def s2_def s1_def pi)
  ultimately show ?thesis using call f by (auto simp: IT_IS_REMOTE_def)
qed

text \<open>The scenario with one more Linux task, 105, that is not bound.\<close>

definition scn_bind :: kstate where
  "scn_bind = scn\<lparr>tasks := (tasks scn)(105 := no_task\<lparr>t_live := True, t_tgid := 105, t_leader := Some 105\<rparr>)\<rparr>"

lemma scn_bindable: "bindable 101 LCL_BIND 0 105 4 scn_bind" "bindable 105 SELF_BIND 0 105 4 scn_bind"
  by (simp_all add: bindable_def scn_bind_def scn_defs DVS_NOT_INIT_def node_bit_def ENDPOINT2PTR_def
      NBR2PTR_def ENDPOINT_P_def ENDPOINT_GENERATION_SIZE_def cmod_def)

theorem bind_makes_ready_witness:
  "\<exists>s'. mm_bind scn_env 101 LCL_BIND 0 105 4 LOCALNODE scn_bind
        = (s', p_endpoint (procs scn_bind (ENDPOINT2PTR scn_bind 0 4)))
    \<and> check_caller 105 s' = (s', Chk_ok (ENDPOINT2PTR scn_bind 0 4) 105)"
  using bind_makes_ready [OF scn_bindable(1) refl, of scn_env] by blast

text \<open>A slot in use is never taken: binding over it fails without changing anything, unless
  the operation is the backup or replica binding that are meant to replace a descriptor.\<close>

theorem bind_respects_slot:
  assumes "\<not> rts s (ENDPOINT2PTR s dcid ep) BIT_SLOT_FREE" "oper \<noteq> BKUP_BIND" "oper \<noteq> REPLICA_BIND"
  shows "fst (mm_bind E tid oper dcid pid ep nodeid s) = s \<and> snd (mm_bind E tid oper dcid pid ep nodeid s) < 0"
  using assms
  by (auto simp: mm_bind_def bind_node_def ENDPOINT2PTR_def NBR2PTR_def Let_def)

theorem bind_respects_slot_witness:
  "\<not> rts scn_bind (ENDPOINT2PTR scn_bind 0 2) BIT_SLOT_FREE
   \<and> fst (mm_bind scn_env 101 LCL_BIND 0 105 2 LOCALNODE scn_bind) = scn_bind"
proof -
  have "\<not> rts scn_bind (ENDPOINT2PTR scn_bind 0 2) BIT_SLOT_FREE"
    by (simp add: scn_bind_def scn_defs ENDPOINT2PTR_def NBR2PTR_def ENDPOINT_P_def
        ENDPOINT_GENERATION_SIZE_def cmod_def)
  then show ?thesis using bind_respects_slot [of scn_bind 0 2 LCL_BIND scn_env 101 105 LOCALNODE] by simp
qed

section \<open>Binding and unbinding oneself\<close>

lemma unbind_self:
  assumes "t_proc (tasks s tid) = Some p" "p = ENDPOINT2PTR s dcid ep" "\<not> IT_IS_REMOTE s p"
    "unbind_check tid dcid p s = OK" "tid = p_lpid (procs s p)" "p_task (procs s p) = Some tid"
    "t_euid (tasks s tid) = USER_ROOT" "\<not> DVS_NOT_INIT s" "0 \<le> dcid" "dcid < d_nr_dcs (dvs s)"
    "dc_flags (dc s dcid) = 0" "- dc_nr_tasks (dc s dcid) \<le> ENDPOINT_P ep" "ENDPOINT_P ep < dc_nr_procs (dc s dcid)"
    "0 \<le> p_nodeid (procs s p)" "p_nodeid (procs s p) < d_nr_nodes (dvs s)"
  shows "mm_unbind E tid dcid ep timeout s = (unbind_free dcid p (unbind_detach E dcid p s), Unbind_return OK)"
proof -
  have "\<not> rts s p BIT_SLOT_FREE" "node_bit (p_nodeid (procs s p)) (dc_nodes (dc s dcid))"
    using assms(4) by (auto simp: unbind_check_def Let_def split: if_splits)
  with assms show ?thesis
    by (simp add: mm_unbind_def unbind_task_def do_unbind_def Let_def)
qed

lemma unbind_detach_tasks: "tasks (unbind_detach E d p s) = tasks s"
  using eased_unbind_detach [of d 0 s E d p] by (simp add: eased_def Let_def)

lemma unbind_free_dc:
  "dc_kref (dc s d) \<noteq> 1 \<Longrightarrow> dc (unbind_free d p s) = (dc s)(d := (dc s d)\<lparr>dc_kref := dc_kref (dc s d) - 1\<rparr>)"
  "tasks (unbind_free d p s) = tasks s"
  by (simp_all add: unbind_free_def DC_DECREF_def dc_release_def Let_def)

text \<open>A task that binds itself and then unbinds itself leaves no binding behind: both calls
  succeed, the slot is free again with empty queues and no pid, the DC has as many references as
  before, and the kernel refuses the task as a caller.\<close>

theorem bind_unbind_self:
  assumes "bindable tid oper dcid tid ep s" "p = ENDPOINT2PTR s dcid ep"
    "0 < dc_kref (dc s dcid)" "dc_dcid (dc s dcid) = dcid" "local_nodeid s < d_nr_nodes (dvs s)"
  shows "\<exists>s1 s2. mm_bind E tid oper dcid tid ep LOCALNODE s = (s1, p_endpoint (procs s p))
    \<and> mm_unbind E tid dcid ep timeout s1 = (s2, Unbind_return OK)
    \<and> p_rts_flags (procs s2 p) = SLOT_FREE \<and> p_lpid (procs s2 p) = PROC_NO_PID
    \<and> p_list (procs s2 p) = [] \<and> p_mlist (procs s2 p) = [] \<and> p_ulist (procs s2 p) = []
    \<and> dc_kref (dc s2 dcid) = dc_kref (dc s dcid) \<and> snd (check_caller tid s2) = Chk_err EMOLNOTREADY"
proof -
  define i where "i = ENDPOINT_P ep + dc_nr_tasks (dc s dcid)"
  have pi: "p = DcProc dcid i" using bind_steps(1) [OF assms(1)] assms(2) by (simp add: i_def)
  define s1 where "s1 = fst (mm_bind E tid oper dcid tid ep LOCALNODE s)"
  have b: "oper \<noteq> BKUP_BIND" "oper \<noteq> REPLICA_BIND" "t_leader (tasks s tid) = Some tid"
    "t_euid (tasks s tid) = USER_ROOT" "\<not> DVS_NOT_INIT s" "0 \<le> dcid" "dcid < d_nr_dcs (dvs s)"
    "dc_flags (dc s dcid) = 0" "- dc_nr_tasks (dc s dcid) \<le> ENDPOINT_P ep"
    "ENDPOINT_P ep < dc_nr_procs (dc s dcid)" "node_bit (local_nodeid s) (dc_nodes (dc s dcid))"
    using assms(1) by (auto simp: bindable_def)
  let ?b = "bind_local oper dcid i tid tid (local_nodeid s) (upd p (init_proc_desc s dcid i) s)"
  have s1: "s1 = fst (bind_end dcid i ?b)"
    using bind_steps(2) [OF assms(1), of E] by (simp add: s1_def pi i_def)
  have call: "mm_bind E tid oper dcid tid ep LOCALNODE s = (s1, p_endpoint (procs s p))"
    using bind_steps(2) [OF assms(1), of E] b
    by (simp add: prod_eq_iff s1_def pi i_def bind_local_fields)
  have f: "p_rts_flags (procs s1 p) = 0" "p_misc_flags (procs s1 p) = set_bit MIS_BIT_GRPLEADER 0"
    "p_lpid (procs s1 p) = tid" "p_task (procs s1 p) = Some tid" "p_nodeid (procs s1 p) = local_nodeid s"
    "p_dcid (procs s1 p) = dcid"
    using b by (simp_all add: s1 pi bind_local_fields init_proc_desc_def Let_def)
  have g: "t_proc (tasks s1 tid) = Some p" "t_leader (tasks s1 tid) = Some tid" "t_euid (tasks s1 tid) = USER_ROOT"
    "dvs s1 = dvs s" "local_nodeid s1 = local_nodeid s"
    "dc s1 = (dc s)(dcid := (dc s dcid)\<lparr>dc_kref := dc_kref (dc s dcid) + 1\<rparr>)"
    using b by (simp_all add: s1 pi)
  have p1: "p = ENDPOINT2PTR s1 dcid ep" using g(6) pi by (simp add: ENDPOINT2PTR_def NBR2PTR_def i_def)
  define s2 where "s2 = unbind_free dcid p (unbind_detach E dcid p s1)"
  have "unbind_check tid dcid p s1 = OK"
    using f g b assms(4) by (simp add: unbind_check_def Let_def)
  moreover have "0 \<le> local_nodeid s" using b(11) by (simp add: node_bit_def)
  ultimately have un: "mm_unbind E tid dcid ep timeout s1 = (s2, Unbind_return OK)"
    unfolding s2_def using p1 f g b assms(5)
    by (intro unbind_self) (simp_all add: IT_IS_REMOTE_def DVS_NOT_INIT_def)
  have q: "p_rts_flags (procs s2 p) = SLOT_FREE" "p_lpid (procs s2 p) = PROC_NO_PID"
    "p_list (procs s2 p) = []" "p_mlist (procs s2 p) = []" "p_ulist (procs s2 p) = []" "p_misc_flags (procs s2 p) = 0"
    by (simp_all add: s2_def unbind_free_procs)
  have k: "dc_kref (dc s2 dcid) = dc_kref (dc s dcid)"
    using unbind_free_dc(1) [of "unbind_detach E dcid p s1" dcid p] unbind_frame(1) [of E dcid p s1] g(6) assms(3)
    by (simp add: s2_def)
  have "tasks s2 = tasks s1" by (simp add: s2_def unbind_free_dc unbind_detach_tasks)
  then have "snd (check_caller tid s2) = Chk_err EMOLNOTREADY"
    using g q by (simp add: check_caller_def pick_caller_def check_caller_status_def chk_of_def
        take_needmigr_none bit_1_iff Let_def)
  with call un q k show ?thesis by blast
qed

theorem bind_unbind_self_witness:
  "\<exists>s1 s2. mm_bind scn_env 105 SELF_BIND 0 105 4 LOCALNODE (DC_INCREF 0 scn_bind)
        = (s1, p_endpoint (procs scn_bind (ENDPOINT2PTR scn_bind 0 4)))
    \<and> mm_unbind scn_env 105 0 4 TIMEOUT_FOREVER s1 = (s2, Unbind_return OK)
    \<and> p_rts_flags (procs s2 (ENDPOINT2PTR scn_bind 0 4)) = SLOT_FREE \<and> dc_kref (dc s2 0) = 1"
proof -
  let ?s = "DC_INCREF 0 scn_bind"
  have e: "ENDPOINT2PTR ?s 0 4 = ENDPOINT2PTR scn_bind 0 4" "procs ?s = procs scn_bind" "dc_kref (dc ?s 0) = 1"
    "dc_dcid (dc ?s 0) = 0" "local_nodeid ?s < d_nr_nodes (dvs ?s)"
    by (simp_all add: DC_INCREF_def ENDPOINT2PTR_def NBR2PTR_def scn_bind_def scn_defs)
  have "bindable 105 SELF_BIND 0 105 4 ?s"
    using scn_bindable(2) by (simp add: bindable_def DC_INCREF_def ENDPOINT2PTR_def NBR2PTR_def DVS_NOT_INIT_def)
  from bind_unbind_self [OF this refl, of scn_env TIMEOUT_FOREVER] e show ?thesis by auto
qed

section \<open>Unbinding another local process\<close>

text \<open>A bound caller may ask another local process to unbind itself.\<close>

definition unbind_asks :: "env \<Rightarrow> int \<Rightarrow> int \<Rightarrow> int \<Rightarrow> pref \<Rightarrow> pref \<Rightarrow> kstate \<Rightarrow> bool" where
  "unbind_asks E tid dcid ep c p s \<longleftrightarrow> p = ENDPOINT2PTR s dcid ep \<and> t_proc (tasks s tid) = Some c \<and> c \<noteq> p
     \<and> t_euid (tasks s tid) = USER_ROOT \<and> \<not> DVS_NOT_INIT s \<and> 0 \<le> dcid \<and> dcid < d_nr_dcs (dvs s)
     \<and> dc_flags (dc s dcid) = 0
     \<and> - dc_nr_tasks (dc s dcid) \<le> ENDPOINT_P ep \<and> ENDPOINT_P ep < dc_nr_procs (dc s dcid)
     \<and> 0 \<le> p_nodeid (procs s p) \<and> p_nodeid (procs s p) < d_nr_nodes (dvs s)
     \<and> unbind_check tid dcid p s = OK \<and> \<not> IT_IS_REMOTE s p \<and> \<not> rts s p BIT_ONCOPY
     \<and> p_task (procs s p) \<noteq> None \<and> e_sendsig E (p_task (procs s p)) = 0"

text \<open>A caller that asks another local process to unbind and does not want to wait gets
  \<open>EMOLAGAIN\<close>, but stays marked as waiting for that unbinding and linked on the process's queue:
  every later call of it is refused as not ready until the other process really unbinds.\<close>

theorem unbind_nowait_strands_caller:
  assumes "unbind_asks E tid dcid ep c p s" "\<not> mis s c MIS_BIT_NEEDMIGR" "\<not> rts s c BIT_MIGRATE"
    "\<not> mis s c MIS_RMTBACKUP"
  shows "\<exists>s'. mm_unbind E tid dcid ep TIMEOUT_NOWAIT s = (s', Unbind_return EMOLAGAIN)
    \<and> rts s' c BIT_WAITUNBIND \<and> c \<in> set (p_ulist (procs s' p))
    \<and> snd (check_caller tid s') = Chk_err EMOLNOTREADY"
proof -
  have a: "p = ENDPOINT2PTR s dcid ep" "t_proc (tasks s tid) = Some c" "c \<noteq> p" "\<not> IT_IS_REMOTE s p"
    "unbind_check tid dcid p s = OK" "\<not> rts s p BIT_ONCOPY" "e_sendsig E (p_task (procs s p)) = 0"
    using assms(1) by (auto simp: unbind_asks_def)
  define s1 where "s1 = (if p_rts_flags (procs s p) \<noteq> 0 then LOCAL_PROC_UP E p EMOLSHUTDOWN s else s)"
  have un: "do_unbind E tid dcid p s = (s1, EMOLAGAIN)"
    using a by (simp add: do_unbind_def unbind_other_def s1_def Let_def)
  have s1: "tasks s1 = tasks s" "procs s1 c = procs s c" "\<not> IT_IS_REMOTE s1 p"
    "p_rts_flags (procs s1 p) = p_rts_flags (procs s p)"
    using a by (auto simp: s1_def IT_IS_REMOTE_def)
  define s2 where "s2 = set_rts BIT_WAITUNBIND c (upd c (\<lambda>x. x\<lparr>p_waitunbind := p_endpoint (procs (LIST_ADD_TAIL_U c p s1) p)\<rparr>)
    (LIST_ADD_TAIL_U c p s1))"
  have s2: "\<not> mis s2 c MIS_BIT_NEEDMIGR" "\<not> rts s2 c BIT_MIGRATE" "rts s2 c BIT_WAITUNBIND" "c \<in> set (p_ulist (procs s2 p))"
    "tasks s2 = tasks s" "\<not> mis s2 c MIS_RMTBACKUP"
    using assms(2-4) a s1 by (simp_all add: s2_def LIST_ADD_TAIL_U_def)
  define s' where "s' = upd c (\<lambda>x. x\<lparr>p_rcode := EMOLAGAIN\<rparr>) s2"
  have "\<not> rts s p BIT_SLOT_FREE" "node_bit (p_nodeid (procs s p)) (dc_nodes (dc s dcid))"
    using a(5) by (auto simp: unbind_check_def Let_def split: if_splits)
  then have call: "mm_unbind E tid dcid ep TIMEOUT_NOWAIT s = (s', Unbind_return EMOLAGAIN)"
    using assms(1) un s1 a take_needmigr_none [OF s2(1), unfolded s2_def]
    by (simp add: unbind_asks_def mm_unbind_def unbind_task_def sleep_begin_def s2_def s'_def Let_def)
  have "rts s' c BIT_WAITUNBIND" using s2 by (simp add: s'_def)
  then have "p_rts_flags (procs s' c) \<noteq> 0" by (rule bit_nonzero)
  then have "snd (check_caller tid s') = Chk_err EMOLNOTREADY"
    using s2 a(2) by (simp add: check_caller_def pick_caller_def check_caller_status_def chk_of_def
        take_needmigr_none s'_def Let_def)
  with call s2 a(3) show ?thesis by (auto simp: s'_def)
qed

theorem unbind_nowait_strands_caller_witness:
  "\<exists>s'. mm_unbind scn_env 101 0 2 TIMEOUT_NOWAIT scn = (s', Unbind_return EMOLAGAIN)
    \<and> snd (check_caller 101 s') = Chk_err EMOLNOTREADY"
proof -
  have "ENDPOINT2PTR scn 0 2 = DcProc 0 37"
    by (simp add: scn_defs ENDPOINT2PTR_def NBR2PTR_def ENDPOINT_P_def ENDPOINT_GENERATION_SIZE_def cmod_def)
  then have "unbind_asks scn_env 101 0 2 (DcProc 0 36) (DcProc 0 37) scn"
    by (simp add: unbind_asks_def scn_defs DVS_NOT_INIT_def unbind_check_def node_bit_def IT_IS_REMOTE_def
        ENDPOINT_P_def ENDPOINT_GENERATION_SIZE_def cmod_def scn_env_def)
  moreover have "\<not> mis scn (DcProc 0 36) MIS_BIT_NEEDMIGR" "\<not> rts scn (DcProc 0 36) BIT_MIGRATE"
    "\<not> mis scn (DcProc 0 36) MIS_RMTBACKUP"
    by (simp_all add: scn_defs)
  ultimately show ?thesis using unbind_nowait_strands_caller by blast
qed

end
