(* ===== verification/Dvs_Admin.thy ===== *)
theory Dvs_Admin
  imports Bind
begin

text \<open>
  Starting the DVS on a node and opening and closing DCs (\<open>mm_dvs_init\<close>,
  \<open>dvs_release\<close>, \<open>mm_dc_init\<close>, \<open>do_dc_end\<close> and \<open>mm_dc_end\<close> of
  \<open>src/mol-module/mm_hyper.c\<close>).  Whether memory can be allocated and whether the
  files under \<open>/proc\<close> and \<open>/sys/kernel/debug\<close> can be created are parameters; the
  files themselves are not modelled.
\<close>

section \<open>mm_dvs_init\<close>

definition decode_dvs :: "byte list \<Rightarrow> dvs_usr" where
  "decode_dvs b = \<lparr>d_nr_dcs = get_i32 0 b, d_nr_nodes = get_i32 4 b, d_nr_procs = get_i32 8 b,
     d_nr_tasks = get_i32 12 b, d_nr_sysprocs = get_i32 16 b, d_max_copybuf = get_i32 20 b,
     d_max_copylen = get_i32 24 b, d_dbglvl = word_of_int (get_i32 28 b), d_version = get_i32 32 b,
     d_subver = get_i32 36 b, d_size_proc = get_i32 40 b\<rparr>"

definition dvs_check :: "dvs_usr \<Rightarrow> int" where
  "dvs_check d =
    (if d_nr_dcs d \<le> 0 \<or> d_nr_dcs d > NR_DCS then EMOLBADRANGE
     else if d_nr_nodes d \<le> 0 \<or> d_nr_nodes d > NR_NODES then EMOLBADRANGE
     else if d_nr_procs d \<le> 0 \<or> d_nr_procs d > NR_PROCS then EMOLBADRANGE
     else if d_nr_tasks d \<le> 0 \<or> d_nr_tasks d > NR_TASKS then EMOLBADRANGE
     else if d_nr_sysprocs d \<le> 0 \<or> d_nr_sysprocs d > NR_SYS_PROCS then EMOLBADRANGE
     else if d_nr_sysprocs d \<ge> d_nr_procs d + d_nr_tasks d then EMOLBADRANGE
     else if d_nr_sysprocs d \<le> d_nr_tasks d then EMOLBADRANGE
     else if d_max_copybuf d > MAXCOPYBUF then EMOLBADVALUE
     else if d_max_copylen d > MAXCOPYLEN then EMOLBADVALUE
     else if d_max_copylen d < d_max_copybuf d then EMOLBADVALUE
     else OK)"

text \<open>The size of a descriptor rounded up to a power-of-two multiple of the cache line; the
  cache line is never empty.\<close>

function proc_align :: "nat \<Rightarrow> nat \<Rightarrow> nat" where
  "proc_align sz a = (if a = 0 \<or> sz \<le> a then a else proc_align sz (2 * a))"
  by pat_completeness auto
termination by (relation "measure (\<lambda>(sz, a). sz - a)") auto

declare proc_align.simps [simp del]

fun dec_string :: "nat \<Rightarrow> string" where
  "dec_string n = (if n < 10 then [char_of (48 + n)] else dec_string (n div 10) @ [char_of (48 + n mod 10)])"

declare dec_string.simps [simp del]

definition dvs_release :: "kstate \<Rightarrow> kstate" where
  "dvs_release s = s\<lparr>local_nodeid := DVS_NO_INIT\<rparr>"

text \<open>What Linux answers: a reference on the module, the size of \<open>struct proc\<close> and of a
  cache line, and which files it can create.\<close>

record dvs_env =
  v_module :: bool
  v_size_proc :: nat
  v_cache_line :: nat
  v_dbg_dir :: bool
  v_proc_dir :: bool
  v_files :: bool

definition free_dc :: "int \<Rightarrow> kstate \<Rightarrow> kstate" where
  "free_dc i s = set_dc i (\<lambda>x. x\<lparr>dc_flags := DC_FREE, dc_cpumask := - 1\<rparr>) s"

definition dvs_tables :: "int \<Rightarrow> kstate \<Rightarrow> kstate" where
  "dvs_tables nodeid s =
    (let s1 = fold free_dc [0..d_nr_dcs (dvs s) - 1] s;
         s2 = fold init_node [0..d_nr_nodes (dvs s1) - 1] s1;
         s3 = fold init_proxies [0..d_nr_nodes (dvs s2) - 1] s2
     in set_node nodeid (\<lambda>x. x\<lparr>n_name := ''node'' @ dec_string (nat nodeid),
          n_flags := NODE_ATTACHED OR NODE_SCONNECTED OR NODE_SCONNECTED\<rparr>) s3)"

definition mm_dvs_init :: "env \<Rightarrow> dvs_env \<Rightarrow> int \<Rightarrow> int \<Rightarrow> addr \<Rightarrow> kstate \<Rightarrow> kstate \<times> int" where
  "mm_dvs_init E V tid nodeid du_addr s =
    (if t_euid (tasks s tid) \<noteq> USER_ROOT then (s, EMOLPRIVILEGES)
     else if \<not> v_module V then (s, EMOLNODEV)
     else if \<not> DVS_NOT_INIT s then (s, EMOLDVSBUSY)
     else if nodeid < 0 \<or> nodeid \<ge> d_nr_nodes (dvs s) then (s, EMOLBADNODEID)
     else
      let (bs, left) = copy_from_user E (mm_of_task s tid) du_addr 44 s;
          ret = (if du_addr = 0 then OK else if left \<noteq> 0 then left else dvs_check (decode_dvs bs)) in
      if ret \<noteq> OK then (s, ret)
      else
       let s1 = (if du_addr = 0 then s else s\<lparr>dvs := decode_dvs bs\<rparr>);
           s2 = dvs_tables nodeid s1 in
       if \<not> v_dbg_dir V \<or> \<not> v_proc_dir V then (s2, EMOLBADDIR)
       else if \<not> v_files V then (dvs_release s2, EMOLBADFILE)
       else (s2\<lparr>dvs := (dvs s2)\<lparr>d_size_proc := int (proc_align (v_size_proc V) (v_cache_line V))\<rparr>,
               dvs_kref := 1, local_nodeid := nodeid\<rparr>, nodeid))"

section \<open>mm_dc_init\<close>

text \<open>The parameters of a DC as the caller passes them, 56 bytes; \<open>dc_kref\<close> is not among
  them.\<close>

definition decode_dc :: "byte list \<Rightarrow> dc_desc" where
  "decode_dc b = \<lparr>dc_dcid = get_i32 0 b, dc_flags = get_i32 4 b, dc_nr_procs = get_i32 8 b,
     dc_nr_tasks = get_i32 12 b, dc_nr_sysprocs = get_i32 16 b, dc_nr_nodes = get_i32 20 b,
     dc_nodes = word_of_int (get_i32 24 b), dc_warn2proc = get_i32 28 b, dc_warnmsg = get_i32 32 b,
     dc_name = c_string (take 16 (drop 36 b)), dc_cpumask = word_of_int (get_i32 52 b), dc_kref = 0\<rparr>"

record dc_env =
  a_proctab :: bool
  a_sid2proc :: bool
  a_dbg_dir :: bool
  a_info :: bool
  a_procs :: bool
  a_stats :: bool

definition dc_files :: "dc_env \<Rightarrow> int" where
  "dc_files A = (if \<not> a_info A then EMOLBADDIR else if \<not> a_procs A then EMOLBADFILE
     else if \<not> a_stats A then EMOLBADFILE else OK)"

definition dc_busy :: "dc_desc \<Rightarrow> kstate \<Rightarrow> bool" where
  "dc_busy u s \<longleftrightarrow> (\<exists>i \<in> set [0..d_nr_dcs (dvs s) - 1]. dc_flags (dc s i) = DC_RUNNING
     \<and> (dc_name u = dc_name (dc s i) \<or> i = dc_dcid u))"

definition init_slot :: "int \<Rightarrow> int \<Rightarrow> kstate \<Rightarrow> kstate" where
  "init_slot d i s =
    (let s1 = upd (DcProc d i) (init_proc_desc s (dc_dcid (dc s d)) i) s
     in upd (DcProc d i) (\<lambda>x. x\<lparr>p_pseudosem := 1, p_endpoint := ENDPOINT 0 (i - dc_nr_tasks (dc s1 d)),
          p_rts_flags := SLOT_FREE\<rparr>) s1)"

definition dc_config :: "dc_desc \<Rightarrow> int \<Rightarrow> kstate \<Rightarrow> kstate" where
  "dc_config u nodeid s =
    (let d = dc_dcid u;
         s1 = set_dc d (\<lambda>x. x\<lparr>dc_dcid := d, dc_nr_procs := dc_nr_procs u, dc_nr_tasks := dc_nr_tasks u,
                dc_nr_sysprocs := dc_nr_sysprocs u, dc_nr_nodes := dc_nr_nodes u, dc_name := dc_name u,
                dc_flags := DC_RUNNING, dc_nodes := 0, dc_warn2proc := dc_warn2proc u,
                dc_warnmsg := dc_warnmsg u,
                dc_cpumask := (if dc_cpumask u = 0 then - 1 else dc_cpumask u)\<rparr>) s;
         s2 = set_dc d (\<lambda>x. x\<lparr>dc_nodes := set_bit (nat nodeid) (dc_nodes x)\<rparr>) s1
     in set_node nodeid (\<lambda>x. x\<lparr>n_dcs := set_bit (nat d) (n_dcs x)\<rparr>) s2)"

text \<open>The range checks of the source only leave their loop, with \<open>ret\<close> still 0: they
  refuse nothing.\<close>

definition mm_dc_init :: "env \<Rightarrow> dc_env \<Rightarrow> int \<Rightarrow> addr \<Rightarrow> kstate \<Rightarrow> kstate \<times> int" where
  "mm_dc_init E A tid dcu_addr s =
    (let nodeid = local_nodeid s; (bs, left) = copy_from_user E (mm_of_task s tid) dcu_addr 56 s;
         u = decode_dc bs; d = dc_dcid u in
     if t_euid (tasks s tid) \<noteq> USER_ROOT then (s, EMOLPRIVILEGES)
     else if DVS_NOT_INIT s then (s, EMOLDVSINIT)
     else if left \<noteq> 0 then (s, left)
     else if length (dc_name u) \<ge> 16 then (s, EMOLNAMESIZE)
     else if dc_busy u s then (s, EMOLRSCBUSY)
     else
      let s1 = dc_config u nodeid s in
      if \<not> a_proctab A then (s1, EMOLALLOCMEM)
      else if \<not> a_sid2proc A then (s1, EMOLALLOCMEM)
      else
       let s2 = fold (init_slot d) [0..nr_slots s1 d - 1] s1 in
       if \<not> a_dbg_dir A then (s2, EMOLBADDIR)
       else
        let ret = dc_files A;
            s3 = set_dc d (\<lambda>x. x\<lparr>dc_kref := 1\<rparr>) s2;
            s4 = s3\<lparr>dvs_kref := dvs_kref s3 + 1\<rparr>
        in if ret \<noteq> OK then (DC_DECREF d s4, ret) else (s4, nodeid))"

section \<open>mm_dc_end\<close>

text \<open>The first loop kills the local processes and unbinds the remote ones; the second waits
  until every slot is free, which is up to the killed tasks; then the references go.\<close>

definition dc_end_slot :: "env \<Rightarrow> int \<Rightarrow> int \<Rightarrow> int \<Rightarrow> kstate \<Rightarrow> kstate" where
  "dc_end_slot E tid d i s =
    (let p = DcProc d i in
     if rts s p BIT_SLOT_FREE then s
     else if \<not> IT_IS_REMOTE s p \<or> mis s p MIS_BIT_RMTBACKUP then s
     else fst (do_unbind E tid d p s))"

definition do_dc_end_begin :: "env \<Rightarrow> int \<Rightarrow> int \<Rightarrow> kstate \<Rightarrow> kstate" where
  "do_dc_end_begin E tid d s = fold (dc_end_slot E tid d) [0..nr_slots s d - 1] s"

definition dc_empty :: "int \<Rightarrow> kstate \<Rightarrow> bool" where
  "dc_empty d s \<longleftrightarrow> (\<forall>i \<in> set [0..nr_slots s d - 1]. rts s (DcProc d i) BIT_SLOT_FREE)"

definition dvs_put :: "kstate \<Rightarrow> kstate" where
  "dvs_put s = (let s1 = s\<lparr>dvs_kref := dvs_kref s - 1\<rparr> in if dvs_kref s1 = 0 then dvs_release s1 else s1)"

definition do_dc_end_finish :: "int \<Rightarrow> kstate \<Rightarrow> kstate \<times> int" where
  "do_dc_end_finish d s = (dvs_put (DC_DECREF d s), OK)"

text \<open>\<open>None\<close>: still waiting for local processes.\<close>

definition mm_dc_end :: "env \<Rightarrow> int \<Rightarrow> int \<Rightarrow> kstate \<Rightarrow> kstate \<times> int option" where
  "mm_dc_end E tid dcid s =
    (if t_euid (tasks s tid) \<noteq> USER_ROOT then (s, Some EMOLPRIVILEGES)
     else if DVS_NOT_INIT s then (s, Some EMOLDVSINIT)
     else if dcid < 0 \<or> dcid \<ge> d_nr_dcs (dvs s) then (s, Some EMOLBADDCID)
     else if dc_flags (dc s dcid) = DC_FREE then (s, Some EMOLDCNOTRUN)
     else
      let s1 = do_dc_end_begin E tid dcid s in
      if dc_empty dcid s1 then let (s2, r) = do_dc_end_finish dcid s1 in (s2, Some r) else (s1, None))"

section \<open>What a new DVS and a new DC are like\<close>

lemma fold_free_dc:
  "dvs (fold free_dc xs s) = dvs s" "node (fold free_dc xs s) = node s" "tasks (fold free_dc xs s) = tasks s"
  "proxies (fold free_dc xs s) = proxies s" "dc_nodes (dc (fold free_dc xs s) d) = dc_nodes (dc s d)"
  "dc_flags (dc (fold free_dc xs s) d) = (if d \<in> set xs then DC_FREE else dc_flags (dc s d))"
  by (induction xs arbitrary: s) (simp_all add: free_dc_def)

lemma fold_init_node:
  "dvs (fold init_node xs s) = dvs s" "dc (fold init_node xs s) = dc s" "tasks (fold init_node xs s) = tasks s"
  "n_flags (node (fold init_node xs s) n) = (if n \<in> set xs then NODE_FREE else n_flags (node s n))"
  "n_dcs (node (fold init_node xs s) n) = (if n \<in> set xs then 0 else n_dcs (node s n))"
  "n_nodeid (node (fold init_node xs s) n) = (if n \<in> set xs then n else n_nodeid (node s n))"
  by (induction xs arbitrary: s) (simp_all add: init_node_def clear_node_def)

lemma fold_init_proxies:
  "dvs (fold init_proxies xs s) = dvs s" "dc (fold init_proxies xs s) = dc s"
  "node (fold init_proxies xs s) = node s"
  by (induction xs arbitrary: s) (simp_all add: init_proxies_def clear_proxies_def Let_def)

lemma dvs_tables_facts:
  assumes "0 \<le> d" "d < d_nr_dcs (dvs s)" "0 \<le> n" "n < d_nr_nodes (dvs s)"
  shows "dvs (dvs_tables nodeid s) = dvs s" "dc_flags (dc (dvs_tables nodeid s) d) = DC_FREE"
    "dc_nodes (dc (dvs_tables nodeid s) d) = dc_nodes (dc s d)"
    "n_dcs (node (dvs_tables nodeid s) n) = 0" "n_nodeid (node (dvs_tables nodeid s) n) = n"
    "n_flags (node (dvs_tables nodeid s) n) = (if n = nodeid then NODE_ATTACHED OR NODE_SCONNECTED else NODE_FREE)"
  using assms by (simp_all add: dvs_tables_def Let_def fold_free_dc fold_init_node fold_init_proxies)

lemma dvs_tables_frame: "dvs (dvs_tables nodeid s) = dvs s"
  by (simp add: dvs_tables_def Let_def fold_free_dc fold_init_node fold_init_proxies)

text \<open>A successful \<open>mm_dvs_init\<close>, on a module whose DCs have no nodes yet, sets up consistent
  tables: every DC is free, the maps of DCs and nodes agree, the local node is attached to no DC,
  every other node is free, and the caller gets the node id.\<close>

theorem dvs_init_fresh:
  assumes "t_euid (tasks s tid) = USER_ROOT" "v_module V" "v_dbg_dir V" "v_proc_dir V" "v_files V"
    and "DVS_NOT_INIT s" "0 \<le> nodeid" "nodeid < d_nr_nodes (dvs s)"
    and left: "snd (copy_from_user E (mm_of_task s tid) a 44 s) = 0"
    and d: "d = decode_dvs (fst (copy_from_user E (mm_of_task s tid) a 44 s))"
    and "a \<noteq> 0" "dvs_check d = OK" and empty: "\<And>i. dc_nodes (dc s i) = 0"
  shows "\<exists>s'. mm_dvs_init E V tid nodeid a s = (s', nodeid) \<and> maps_agree {} s' \<and> tables_ok s'
    \<and> \<not> DVS_NOT_INIT s' \<and> dvs_kref s' = 1
    \<and> (\<forall>i. 0 \<le> i \<and> i < d_nr_dcs d \<longrightarrow> dc_flags (dc s' i) = DC_FREE)
    \<and> (\<forall>n. 0 \<le> n \<and> n < d_nr_nodes d \<longrightarrow> n_flags (node s' n) = NODE_FREE \<longleftrightarrow> n \<noteq> nodeid)"
proof -
  define s2 where "s2 = dvs_tables nodeid (s\<lparr>dvs := d\<rparr>)"
  define s' where "s' = s2\<lparr>dvs := (dvs s2)\<lparr>d_size_proc := int (proc_align (v_size_proc V) (v_cache_line V))\<rparr>,
       dvs_kref := 1, local_nodeid := nodeid\<rparr>"
  have run: "mm_dvs_init E V tid nodeid a s = (s', nodeid)"
    using assms by (simp add: mm_dvs_init_def s'_def s2_def Let_def split_def)
  have dv: "dvs s2 = d" by (simp add: s2_def dvs_tables_frame)
  have lim: "0 < d_nr_dcs d" "d_nr_dcs d \<le> NR_DCS" "0 < d_nr_nodes d" "d_nr_nodes d \<le> NR_NODES"
    using \<open>dvs_check d = OK\<close> by (auto simp: dvs_check_def split: if_splits)
  have dcs: "dc_flags (dc s2 i) = DC_FREE \<and> dc_nodes (dc s2 i) = 0" if "0 \<le> i" "i < d_nr_dcs d" for i
    using dvs_tables_facts(2,3) [of i "s\<lparr>dvs := d\<rparr>" 0 nodeid] that lim empty by (simp add: s2_def)
  have nds: "n_dcs (node s2 n) = 0 \<and> n_nodeid (node s2 n) = n
      \<and> n_flags (node s2 n) = (if n = nodeid then NODE_ATTACHED OR NODE_SCONNECTED else NODE_FREE)"
    if "0 \<le> n" "n < d_nr_nodes d" for n
    using dvs_tables_facts(4-6) [of 0 "s\<lparr>dvs := d\<rparr>" n nodeid] that lim by (simp add: s2_def)
  have "maps_agree {} s'" using dcs nds by (simp add: maps_agree_def s'_def dv)
  moreover have "tables_ok s'" using dcs nds lim by (simp add: tables_ok_def s'_def dv)
  moreover have "\<forall>i. 0 \<le> i \<and> i < d_nr_dcs d \<longrightarrow> dc_flags (dc s' i) = DC_FREE"
    using dcs by (simp add: s'_def)
  moreover have "\<forall>n. 0 \<le> n \<and> n < d_nr_nodes d \<longrightarrow> n_flags (node s' n) = NODE_FREE \<longleftrightarrow> n \<noteq> nodeid"
    using nds by (simp add: s'_def)
  moreover have "\<not> DVS_NOT_INIT s'" using \<open>0 \<le> nodeid\<close> by (simp add: DVS_NOT_INIT_def s'_def)
  moreover have "dvs_kref s' = 1" by (simp add: s'_def)
  ultimately show ?thesis using run by blast
qed

text \<open>A module just loaded, the parameters of a small DVS in the memory of task 7.\<close>

definition scn_dvs_bytes :: "byte list" where
  "scn_dvs_bytes = concat (map i32_bytes [2, 3, 20, 4, 8, 4096, 65536, 0, 2, 1, 0])"

definition scn_boot :: kstate where
  "scn_boot = boot_state\<lparr>umem := (umem boot_state)(0 := write_mem 4096 scn_dvs_bytes (umem boot_state 0))\<rparr>"

definition scn_dvs_env :: dvs_env where
  "scn_dvs_env = \<lparr>v_module = True, v_size_proc = 900, v_cache_line = 64, v_dbg_dir = True,
     v_proc_dir = True, v_files = True\<rparr>"

lemma scn_boot_copy: "copy_from_user scn_env (mm_of_task scn_boot 7) 4096 44 scn_boot = (scn_dvs_bytes, 0)"
proof -
  have "length scn_dvs_bytes = 44" by (simp add: scn_dvs_bytes_def)
  then have "read_mem (write_mem 4096 scn_dvs_bytes m) 4096 44 = scn_dvs_bytes" for m
    using read_write_mem [of scn_dvs_bytes 4096 m] by simp
  then show ?thesis
    by (simp add: copy_from_user_def Let_def scn_boot_def boot_state_def no_task_def mm_of_task_def)
qed

lemma scn_boot_decode:
  "decode_dvs scn_dvs_bytes = \<lparr>d_nr_dcs = 2, d_nr_nodes = 3, d_nr_procs = 20, d_nr_tasks = 4,
     d_nr_sysprocs = 8, d_max_copybuf = 4096, d_max_copylen = 65536, d_dbglvl = 0, d_version = 2,
     d_subver = 1, d_size_proc = 0\<rparr>"
  by (simp add: decode_dvs_def scn_dvs_bytes_def get_i32_def bytes_i32_i32_bytes int32_def)

theorem dvs_init_fresh_witness:
  "\<exists>s'. mm_dvs_init scn_env scn_dvs_env 7 1 4096 scn_boot = (s', 1) \<and> maps_agree {} s' \<and> tables_ok s'
    \<and> n_flags (node s' 2) = NODE_FREE \<and> n_flags (node s' 1) \<noteq> NODE_FREE"
proof -
  have chk: "dvs_check (decode_dvs scn_dvs_bytes) = OK" by (simp add: dvs_check_def scn_boot_decode)
  have st: "t_euid (tasks scn_boot 7) = USER_ROOT" "DVS_NOT_INIT scn_boot" "1 < d_nr_nodes (dvs scn_boot)"
    "\<And>i. dc_nodes (dc scn_boot i) = 0"
    by (simp_all add: scn_boot_def boot_state_def no_task_def zero_dc_def DVS_NOT_INIT_def boot_dvs_def)
  have env: "v_module scn_dvs_env" "v_dbg_dir scn_dvs_env" "v_proc_dir scn_dvs_env" "v_files scn_dvs_env"
    by (simp_all add: scn_dvs_env_def)
  obtain s' where "mm_dvs_init scn_env scn_dvs_env 7 1 4096 scn_boot = (s', 1)" "maps_agree {} s'" "tables_ok s'"
    "\<forall>n. 0 \<le> n \<and> n < d_nr_nodes (decode_dvs scn_dvs_bytes) \<longrightarrow> n_flags (node s' n) = NODE_FREE \<longleftrightarrow> n \<noteq> 1"
    using dvs_init_fresh [OF st(1) env st(2) _ st(3) _ _ _ chk st(4), of scn_env 4096]
    by (auto simp: scn_boot_copy)
  then show ?thesis by (intro exI [of _ s']) (simp add: scn_boot_decode)
qed

text \<open>What \<open>mm_dc_init\<close> needs to open the DC of descriptor \<open>u\<close>.\<close>

definition dc_openable :: "env \<Rightarrow> dc_env \<Rightarrow> int \<Rightarrow> addr \<Rightarrow> dc_desc \<Rightarrow> kstate \<Rightarrow> bool" where
  "dc_openable E A tid a u s \<longleftrightarrow> t_euid (tasks s tid) = USER_ROOT \<and> \<not> DVS_NOT_INIT s
     \<and> snd (copy_from_user E (mm_of_task s tid) a 56 s) = 0
     \<and> u = decode_dc (fst (copy_from_user E (mm_of_task s tid) a 56 s))
     \<and> length (dc_name u) < 16 \<and> \<not> dc_busy u s
     \<and> a_proctab A \<and> a_sid2proc A \<and> a_dbg_dir A \<and> a_info A \<and> a_procs A \<and> a_stats A
     \<and> 0 \<le> dc_dcid u \<and> dc_dcid u < d_nr_dcs (dvs s) \<and> dc_flags (dc s (dc_dcid u)) = DC_FREE
     \<and> 0 \<le> local_nodeid s \<and> local_nodeid s < d_nr_nodes (dvs s)
     \<and> n_flags (node s (local_nodeid s)) \<noteq> NODE_FREE"

lemma upd_dvs_kref [simp]: "dvs_kref (upd p f s) = dvs_kref s"
  by (simp add: upd_def)

lemma fold_init_slot_frame [simp]:
  "dc (fold (init_slot d) xs s) = dc s" "node (fold (init_slot d) xs s) = node s"
  "dvs (fold (init_slot d) xs s) = dvs s" "tasks (fold (init_slot d) xs s) = tasks s"
  "local_nodeid (fold (init_slot d) xs s) = local_nodeid s" "dvs_kref (fold (init_slot d) xs s) = dvs_kref s"
  by (induction xs arbitrary: s) (simp_all add: init_slot_def Let_def)

lemma fold_init_slot_free:
  "p_rts_flags (procs (fold (init_slot d) xs s) (DcProc d i))
     = (if i \<in> set xs then SLOT_FREE else p_rts_flags (procs s (DcProc d i)))"
  "p_endpoint (procs (fold (init_slot d) xs s) (DcProc d i))
     = (if i \<in> set xs then ENDPOINT 0 (i - dc_nr_tasks (dc s d)) else p_endpoint (procs s (DcProc d i)))"
  by (induction xs arbitrary: s) (simp_all add: init_slot_def Let_def)

definition dc_open :: "dc_desc \<Rightarrow> kstate \<Rightarrow> kstate" where
  "dc_open u s =
    (let d = dc_dcid u; s1 = dc_config u (local_nodeid s) s;
         s2 = fold (init_slot d) [0..nr_slots s1 d - 1] s1;
         s3 = set_dc d (\<lambda>x. x\<lparr>dc_kref := 1\<rparr>) s2
     in s3\<lparr>dvs_kref := dvs_kref s3 + 1\<rparr>)"

lemma dc_init_open: "dc_openable E A tid a u s \<Longrightarrow> mm_dc_init E A tid a s = (dc_open u s, local_nodeid s)"
  by (auto simp: dc_openable_def mm_dc_init_def dc_open_def dc_files_def Let_def split_def)

lemma dc_open_frame:
  assumes "d = dc_dcid u" "n = local_nodeid s"
  shows "dvs (dc_open u s) = dvs s" "tasks (dc_open u s) = tasks s" "local_nodeid (dc_open u s) = local_nodeid s"
    "dvs_kref (dc_open u s) = dvs_kref s + 1"
    "node (dc_open u s) = (node s)(n := (node s n)\<lparr>n_dcs := set_bit (nat d) (n_dcs (node s n))\<rparr>)"
    "i \<noteq> d \<Longrightarrow> dc (dc_open u s) i = dc s i"
    "dc_nodes (dc (dc_open u s) d) = set_bit (nat n) 0" "dc_kref (dc (dc_open u s) d) = 1"
    "dc_flags (dc (dc_open u s) d) = DC_RUNNING" "dc_dcid (dc (dc_open u s) d) = d"
    "dc_nr_tasks (dc (dc_open u s) d) = dc_nr_tasks u" "dc_nr_procs (dc (dc_open u s) d) = dc_nr_procs u"
  using assms by (simp_all add: dc_open_def dc_config_def Let_def)

lemma dc_open_slots:
  assumes "d = dc_dcid u" "0 \<le> i" "i < dc_nr_tasks u + dc_nr_procs u"
  shows "p_rts_flags (procs (dc_open u s) (DcProc d i)) = SLOT_FREE"
    "p_endpoint (procs (dc_open u s) (DcProc d i)) = ENDPOINT 0 (i - dc_nr_tasks u)"
  using assms by (simp_all add: dc_open_def dc_config_def Let_def fold_init_slot_free nr_slots_def)

text \<open>A free DC is in the map of no node.\<close>

lemma free_dc_unmapped:
  assumes "maps_agree {} s" "tables_ok s" "0 \<le> d" "d < d_nr_dcs (dvs s)" "dc_flags (dc s d) = DC_FREE"
    "0 \<le> n" "n < d_nr_nodes (dvs s)"
  shows "\<not> bit (n_dcs (node s n)) (nat d)" "nat d < 32" "nat n < 32"
proof -
  have "dc_nodes (dc s d) = 0" using assms(2-5) by (auto simp: tables_ok_def)
  moreover have "bit (dc_nodes (dc s d)) (nat n) \<longleftrightarrow> bit (n_dcs (node s n)) (nat d)"
    using assms(1,3,4,6,7) by (simp add: maps_agree_def)
  ultimately show "\<not> bit (n_dcs (node s n)) (nat d)" by simp
  show "nat d < 32" "nat n < 32" using assms(2-7) by (auto simp: tables_ok_def)
qed

lemma dc_open_maps:
  assumes "maps_agree {} s" "tables_ok s" "dc_openable E A tid a u s"
  shows "maps_agree {} (dc_open u s)" "tables_ok (dc_open u s)"
proof -
  let ?d = "dc_dcid u" and ?n = "local_nodeid s"
  note f = dc_open_frame [where u = u and s = s, OF refl refl]
  have o: "0 \<le> ?d" "?d < d_nr_dcs (dvs s)" "dc_flags (dc s ?d) = DC_FREE" "0 \<le> ?n"
    "?n < d_nr_nodes (dvs s)" "n_flags (node s ?n) \<noteq> NODE_FREE"
    using assms(3) by (auto simp: dc_openable_def)
  note free = free_dc_unmapped [OF assms(1,2) o(1-3)]
  have nds: "node (dc_open u s) k = (if k = ?n then (node s ?n)\<lparr>n_dcs := set_bit (nat ?d) (n_dcs (node s ?n))\<rparr> else node s k)" for k
    by (simp add: f(5))
  show "maps_agree {} (dc_open u s)"
    unfolding maps_agree_def f(1)
  proof (intro ballI)
    fix i k assume i: "i \<in> {0..<d_nr_dcs (dvs s)}" and k: "k \<in> {0..<d_nr_nodes (dvs s)} - {}"
    have "bit (dc_nodes (dc s i)) (nat k) = bit (n_dcs (node s k)) (nat i)"
      using assms(1) i k by (auto simp: maps_agree_def)
    with i k o free [of k] f(6) [of i] f(7) show
      "bit (dc_nodes (dc (dc_open u s) i)) (nat k) = bit (n_dcs (node (dc_open u s) k)) (nat i)"
      by (cases "i = ?d"; cases "k = ?n") (auto simp: nds bit_set_bit_iff bit_exp_iff nat_eq_iff)
  qed
  show "tables_ok (dc_open u s)"
    unfolding tables_ok_def f(1)
  proof (intro conjI ballI)
    fix i assume i: "i \<in> {0..<d_nr_dcs (dvs s)}"
    show "if dc_flags (dc (dc_open u s) i) = DC_FREE then dc_nodes (dc (dc_open u s) i) = 0
        else dc_dcid (dc (dc_open u s) i) = i"
      using assms(2) i f(6) [of i] f(9,10) by (cases "i = ?d") (auto simp: tables_ok_def)
  qed (use assms(2) o in \<open>auto simp: tables_ok_def nds\<close>)
qed

text \<open>When \<open>mm_dc_init\<close> opens a free DC, it returns the local node, the membership maps still
  agree, the DC runs with one reference and every slot of its table is free with generation 0;
  any live group leader can then be bound at any endpoint of the table.\<close>

theorem dc_init_opens:
  assumes "maps_agree {} s" "tables_ok s" "dc_openable E A tid a u s"
  shows "\<exists>s'. mm_dc_init E A tid a s = (s', local_nodeid s) \<and> maps_agree {} s' \<and> tables_ok s'
    \<and> dc_flags (dc s' (dc_dcid u)) = DC_RUNNING \<and> dc_kref (dc s' (dc_dcid u)) = 1
    \<and> (\<forall>i. 0 \<le> i \<and> i < dc_nr_tasks u + dc_nr_procs u \<longrightarrow>
         rts s' (DcProc (dc_dcid u) i) BIT_SLOT_FREE
         \<and> p_endpoint (procs s' (DcProc (dc_dcid u) i)) = ENDPOINT 0 (i - dc_nr_tasks u))
    \<and> (\<forall>pid ep. t_live (tasks s pid) \<and> t_leader (tasks s pid) = Some pid
         \<and> - dc_nr_tasks u \<le> ENDPOINT_P ep \<and> ENDPOINT_P ep < dc_nr_procs u
         \<longrightarrow> bindable tid LCL_BIND (dc_dcid u) pid ep s')"
proof -
  let ?d = "dc_dcid u" and ?n = "local_nodeid s"
  note f = dc_open_frame [where u = u and s = s, OF refl refl]
  have o: "t_euid (tasks s tid) = USER_ROOT" "\<not> DVS_NOT_INIT s" "0 \<le> ?d" "?d < d_nr_dcs (dvs s)"
    "dc_flags (dc s ?d) = DC_FREE" "0 \<le> ?n" "?n < d_nr_nodes (dvs s)"
    using assms(3) by (auto simp: dc_openable_def)
  have slots: "rts (dc_open u s) (DcProc ?d i) BIT_SLOT_FREE
      \<and> p_endpoint (procs (dc_open u s) (DcProc ?d i)) = ENDPOINT 0 (i - dc_nr_tasks u)"
    if "0 \<le> i" "i < dc_nr_tasks u + dc_nr_procs u" for i
    using dc_open_slots [OF refl that, of s] by simp
  have "nat ?n < 32" using free_dc_unmapped(3) [OF assms(1,2) o(3-7)] .
  then have node: "node_bit ?n (set_bit (nat ?n) (0 :: flags))" using o(6) by (simp add: node_bit_def bit_exp_iff)
  have "bindable tid LCL_BIND ?d pid ep (dc_open u s)"
    if "t_live (tasks s pid)" "t_leader (tasks s pid) = Some pid"
      "- dc_nr_tasks u \<le> ENDPOINT_P ep" "ENDPOINT_P ep < dc_nr_procs u" for pid ep
    using that o node slots [of "ENDPOINT_P ep + dc_nr_tasks u"]
    by (simp add: bindable_def f DVS_NOT_INIT_def ENDPOINT2PTR_def NBR2PTR_def)
  with slots show ?thesis
    using dc_init_open [OF assms(3)] dc_open_maps [OF assms] f(8,9) by blast
qed

text \<open>Ending a DC all of whose slots are free unbinds nothing and waits for nobody.\<close>

lemma dc_end_empty:
  assumes "dc_empty d s"
  shows "do_dc_end_begin E tid d s = s"
proof -
  have "fold (dc_end_slot E tid d) xs s = s" if "set xs \<subseteq> set [0..nr_slots s d - 1]" for xs
    using that assms by (induction xs) (auto simp: dc_empty_def dc_end_slot_def)
  then show ?thesis by (simp add: do_dc_end_begin_def)
qed

text \<open>\<open>mm_dc_end\<close> undoes \<open>mm_dc_init\<close>: ending a DC nobody was bound to returns at once,
  frees the DC, takes it out of the maps of all nodes, which are as they were before the DC was
  opened, and gives the reference on the DVS back.\<close>

theorem dc_end_undoes_dc_init:
  assumes "maps_agree {} s" "tables_ok s" "dc_openable E A tid a u s" "0 < dvs_kref s"
  shows "\<exists>s1 s2. mm_dc_init E A tid a s = (s1, local_nodeid s)
    \<and> mm_dc_end E tid (dc_dcid u) s1 = (s2, Some OK) \<and> dc_flags (dc s2 (dc_dcid u)) = DC_FREE
    \<and> dc_nodes (dc s2 (dc_dcid u)) = 0 \<and> node s2 = node s \<and> dvs s2 = dvs s
    \<and> local_nodeid s2 = local_nodeid s \<and> dvs_kref s2 = dvs_kref s
    \<and> (\<forall>i. i \<noteq> dc_dcid u \<longrightarrow> dc s2 i = dc s i)"
proof -
  let ?d = "dc_dcid u" and ?n = "local_nodeid s" and ?s1 = "dc_open u s"
  note f = dc_open_frame [where u = u and s = s, OF refl refl]
  have o: "t_euid (tasks s tid) = USER_ROOT" "\<not> DVS_NOT_INIT s" "0 \<le> ?d" "?d < d_nr_dcs (dvs s)"
    "dc_flags (dc s ?d) = DC_FREE" "0 \<le> ?n" "?n < d_nr_nodes (dvs s)" "n_flags (node s ?n) \<noteq> NODE_FREE"
    using assms(3) by (auto simp: dc_openable_def)
  note free = free_dc_unmapped(1) [OF assms(1,2) o(3-5)]
  have empty: "dc_empty ?d ?s1"
    using dc_open_slots(1) [OF refl, of _ u s] by (simp add: dc_empty_def nr_slots_def f(11,12))
  define s2 where "s2 = fst (do_dc_end_finish ?d ?s1)"
  have run: "mm_dc_end E tid ?d ?s1 = (s2, Some OK)"
    using o f(1,2,3,9) dc_end_empty [OF empty, of E tid] empty
    by (simp add: mm_dc_end_def DVS_NOT_INIT_def s2_def do_dc_end_finish_def Let_def)
  have rel: "DC_DECREF ?d ?s1 = dc_release ?d (set_dc ?d (\<lambda>x. x\<lparr>dc_kref := 0\<rparr>) ?s1)"
    by (simp add: DC_DECREF_def f(8) Let_def)
  have k: "dvs_kref (DC_DECREF ?d ?s1) = dvs_kref s + 1" "dvs (DC_DECREF ?d ?s1) = dvs s"
    "local_nodeid (DC_DECREF ?d ?s1) = ?n"
    by (simp_all add: rel dc_release_def Let_def f(1,3,4))
  have s2: "s2 = (DC_DECREF ?d ?s1)\<lparr>dvs_kref := dvs_kref s\<rparr>"
    using assms(4) by (simp add: s2_def do_dc_end_finish_def dvs_put_def Let_def k(1))
  have "node s2 k = node s k" for k
    using free [of k] o(6-8) unfolding s2 rel dc_release_def Let_def
    by (auto simp: f(1,5,10) unset_set_bit unset_bit_idem intro!: cluster_node.equality)
  moreover have "dc_flags (dc s2 ?d) = DC_FREE" "dc_nodes (dc s2 ?d) = 0" "\<forall>i. i \<noteq> ?d \<longrightarrow> dc s2 i = dc s i"
    by (simp_all add: s2 rel dc_release_def Let_def f(6))
  moreover have "dvs s2 = dvs s" "local_nodeid s2 = ?n" "dvs_kref s2 = dvs_kref s"
    by (simp_all add: s2 k)
  ultimately show ?thesis using run dc_init_open [OF assms(3)] by (metis ext)
qed

text \<open>The parameters of DC 3, named \<open>dc3\<close>, in the memory of task 101.\<close>

definition scn_dc_bytes :: "byte list" where
  "scn_dc_bytes = concat (map i32_bytes [3, 0, 20, 4, 8, 2, 0, 0, 0]) @ [100, 99, 51] @ replicate 17 0"

definition scn_dc_env :: dc_env where
  "scn_dc_env = \<lparr>a_proctab = True, a_sid2proc = True, a_dbg_dir = True, a_info = True, a_procs = True,
     a_stats = True\<rparr>"

definition scn_opening :: kstate where
  "scn_opening = scn_nodes\<lparr>umem := (umem scn_nodes)(101 := write_mem 4096 scn_dc_bytes (umem scn_nodes 101)),
     dvs_kref := 1\<rparr>"

lemma scn_opening_ok: "maps_agree {} scn_opening" "tables_ok scn_opening"
  using scn_nodes_ok maps_cong [of scn_opening scn_nodes] by (simp_all add: scn_opening_def)

lemma scn_dc_decode:
  "dc_dcid (decode_dc scn_dc_bytes) = 3" "dc_name (decode_dc scn_dc_bytes) = ''dc3''"
  "dc_nr_tasks (decode_dc scn_dc_bytes) = 4" "dc_nr_procs (decode_dc scn_dc_bytes) = 20"
  by (simp_all add: decode_dc_def scn_dc_bytes_def get_i32_def bytes_i32_i32_bytes int32_def c_string_def
      char_of_def bit_0)

lemma scn_opening_openable: "dc_openable scn_env scn_dc_env 101 4096 (decode_dc scn_dc_bytes) scn_opening"
proof -
  have "length scn_dc_bytes = 56" by (simp add: scn_dc_bytes_def)
  then have "read_mem (write_mem 4096 scn_dc_bytes m) 4096 56 = scn_dc_bytes" for m
    using read_write_mem [of scn_dc_bytes 4096 m] by simp
  then have "copy_from_user scn_env (mm_of_task scn_opening 101) 4096 56 scn_opening = (scn_dc_bytes, 0)"
    by (simp add: copy_from_user_def Let_def scn_opening_def scn_nodes_def scn_defs mm_of_task_def)
  moreover have "\<not> dc_busy (decode_dc scn_dc_bytes) scn_opening"
    by (simp add: dc_busy_def scn_dc_decode scn_opening_def scn_nodes_def scn_defs)
  ultimately show ?thesis
    by (simp add: dc_openable_def scn_dc_decode scn_dc_env_def)
      (simp add: scn_opening_def scn_nodes_def scn_defs DVS_NOT_INIT_def)
qed

theorem dc_init_opens_witness:
  "\<exists>s'. mm_dc_init scn_env scn_dc_env 101 4096 scn_opening = (s', local_nodeid scn_opening)
    \<and> maps_agree {} s' \<and> tables_ok s' \<and> bindable 101 LCL_BIND 3 102 2 s'"
proof -
  have "t_live (tasks scn_opening 102)" "t_leader (tasks scn_opening 102) = Some 102" "ENDPOINT_P 2 = 2"
    by (simp_all add: scn_opening_def scn_nodes_def scn_defs ENDPOINT_P_def ENDPOINT_GENERATION_SIZE_def cmod_def)
  then show ?thesis
    using dc_init_opens [OF scn_opening_ok scn_opening_openable] unfolding scn_dc_decode by fastforce
qed

theorem dc_end_undoes_dc_init_witness:
  "\<exists>s1 s2. mm_dc_init scn_env scn_dc_env 101 4096 scn_opening = (s1, local_nodeid scn_opening)
    \<and> mm_dc_end scn_env 101 3 s1 = (s2, Some OK) \<and> node s2 = node scn_opening"
proof -
  have "0 < dvs_kref scn_opening" by (simp add: scn_opening_def)
  then show ?thesis
    using dc_end_undoes_dc_init [OF scn_opening_ok scn_opening_openable] unfolding scn_dc_decode by blast
qed

end
