(* ===== verification/Migrate.thy ===== *)
theory Migrate
  imports Bind
begin

text \<open>
  Process migration (\<open>src/mol-module/mm_migrate.c\<close>).  The old node marks the process as
  migrating, the new node takes it over, every other node is told where it went; the
  processes that were sending to it or waiting for it replay their calls.  The threads of a
  process, in the order \<open>while_each_thread\<close> visits them from the group leader, are given by
  \<open>thr\<close>, a parameter: Linux keeps the thread lists.
\<close>

section \<open>Constants\<close>

abbreviation (input) "MIGR_START \<equiv> 0 :: int"
abbreviation (input) "MIGR_COMMIT \<equiv> 1 :: int"
abbreviation (input) "MIGR_ROLLBACK \<equiv> 2 :: int"
abbreviation (input) "EMOLNOSYS \<equiv> - 38 :: int"

section \<open>Flushing the queues\<close>

definition flush_migr_one :: "env \<Rightarrow> pref \<Rightarrow> pref \<Rightarrow> kstate \<Rightarrow> kstate" where
  "flush_migr_one E p q s =
    (let s1 = LIST_DEL_INIT_M q s in
     if p_waitmigr (procs s1 q) = p_endpoint (procs s1 p)
     then up_if_ready E q EMOLMIGRATE
            (upd q (\<lambda>x. x\<lparr>p_waitmigr := NONE\<rparr>) (clear_rts BIT_WAITMIGR q s1))
     else s1)"

definition flush_migr_list :: "env \<Rightarrow> pref \<Rightarrow> kstate \<Rightarrow> kstate" where
  "flush_migr_list E p s = fold (flush_migr_one E p) (p_mlist (procs s p)) s"

definition flush_sending_one :: "env \<Rightarrow> pref \<Rightarrow> kstate \<Rightarrow> kstate" where
  "flush_sending_one E q s =
    (let s1 = LIST_DEL_INIT q s; h = p_rmtcmd (procs s1 q) in
     if \<not> IT_IS_REMOTE s1 q then
       let s2 = clear_rts BIT_SENDING q s1;
           s3 = clear_rts BIT_RECEIVING q s2;
           s4 = upd q (\<lambda>x. x\<lparr>p_getfrom := NONE, p_sendto := NONE\<rparr>) s3
       in up_if_ready E q EMOLMIGRATE s4
     else if \<not> bit (c_cmd h) BIT_ACKNOWLEDGE
       then fst (error_lcl2rmt E (c_cmd h OR 2 ^ BIT_ACKNOWLEDGE) q h EMOLMIGRATE s1)
     else s1)"

definition flush_sending_list :: "env \<Rightarrow> pref \<Rightarrow> kstate \<Rightarrow> kstate" where
  "flush_sending_list E p s = fold (flush_sending_one E) (p_list (procs s p)) s"

section \<open>The status of a process\<close>

text \<open>The checks of \<open>migr_start\<close> and \<open>migr_rollback\<close> on one descriptor: \<open>want\<close> says
  whether it must be migrating.\<close>

definition migr_status :: "bool \<Rightarrow> kstate \<Rightarrow> pref \<Rightarrow> int" where
  "migr_status want s p =
    (if rts s p BIT_SLOT_FREE then EMOLNOTBIND
     else if rts s p BIT_ONCOPY then EMOLONCOPY
     else if rts s p BIT_RMTOPER then EMOLBUSY
     else if rts s p BIT_NO_ENDPOINT then EMOLENDPOINT
     else if rts s p BIT_MIGRATE \<noteq> want then EMOLMIGRATE
     else OK)"

text \<open>The descriptors of the bound threads, in order; the first one in a bad state decides.\<close>

definition bound_threads :: "kstate \<Rightarrow> int list \<Rightarrow> pref list" where
  "bound_threads s ts = List.map_filter (\<lambda>t. t_proc (tasks s t)) ts"

fun first_error :: "(pref \<Rightarrow> int) \<Rightarrow> pref list \<Rightarrow> int" where
  "first_error f [] = OK"
| "first_error f (p # ps) = (if f p \<noteq> OK then f p else first_error f ps)"

definition threads_of :: "(int \<Rightarrow> int list) \<Rightarrow> kstate \<Rightarrow> pref \<Rightarrow> int list" where
  "threads_of thr s p = (case p_task (procs s p) of Some t \<Rightarrow> thr t | None \<Rightarrow> [])"

section \<open>Start and rollback\<close>

definition migr_start :: "(int \<Rightarrow> int list) \<Rightarrow> pref \<Rightarrow> kstate \<Rightarrow> kstate \<times> int" where
  "migr_start thr p s =
    (if IT_IS_REMOTE s p then
       (if migr_status False s p \<noteq> OK then (s, migr_status False s p)
        else (set_rts BIT_MIGRATE p s, OK))
     else if \<not> mis s p MIS_BIT_GRPLEADER then (s, EMOLGRPLEADER)
     else
      let ps = bound_threads s (threads_of thr s p); ret = first_error (migr_status False s) ps in
      if ret \<noteq> OK then (s, ret) else (fold (set_mis MIS_BIT_NEEDMIGR) ps s, OK))"

definition rollback_one :: "env \<Rightarrow> pref \<Rightarrow> kstate \<Rightarrow> kstate" where
  "rollback_one E p s =
    (let s1 = clear_rts BIT_MIGRATE p (clear_mis MIS_BIT_NEEDMIGR p s);
         s2 = flush_migr_list E p s1
     in up_if_ready E p OK s2)"

definition migr_rollback :: "env \<Rightarrow> (int \<Rightarrow> int list) \<Rightarrow> pref \<Rightarrow> kstate \<Rightarrow> kstate \<times> int" where
  "migr_rollback E thr p s =
    (if IT_IS_REMOTE s p then
       (if migr_status True s p \<noteq> OK then (s, migr_status True s p)
        else (clear_rts BIT_MIGRATE p (clear_mis MIS_BIT_NEEDMIGR p s), OK))
     else if \<not> mis s p MIS_BIT_GRPLEADER then (s, EMOLGRPLEADER)
     else
      let ps = bound_threads s (threads_of thr s p); ret = first_error (migr_status True s) ps in
      if ret \<noteq> OK then (s, ret) else (fold (rollback_one E) ps s, OK))"

section \<open>Commit\<close>

definition leave_one :: "env \<Rightarrow> int \<Rightarrow> int \<Rightarrow> kstate \<Rightarrow> kstate" where
  "leave_one E new_nodeid t s =
    (case t_proc (tasks s t) of None \<Rightarrow> s
     | Some p \<Rightarrow>
        let s1 = clear_mis MIS_BIT_GRPLEADER p s;
            s2 = upd p (\<lambda>x. x\<lparr>p_lpid := PROC_NO_PID, p_nodeid := new_nodeid\<rparr>) s1;
            s3 = s2\<lparr>tasks := (tasks s2)(t := (tasks s2 t)\<lparr>t_proc := None\<rparr>)\<rparr>;
            s4 = clear_rts BIT_MIGRATE p (upd p (\<lambda>x. x\<lparr>p_task := None\<rparr>) s3);
            s5 = (if p_rts_flags (procs s4 p) \<noteq> PROC_RUNNING
                  then LOCAL_PROC_UP E p EMOLRMTPROC (set_rts BIT_REMOTE p s4)
                  else set_rts BIT_REMOTE p s4)
        in flush_migr_list E p (flush_sending_list E p s5))"

definition old_migrate :: "env \<Rightarrow> (int \<Rightarrow> int list) \<Rightarrow> pref \<Rightarrow> int \<Rightarrow> kstate \<Rightarrow> kstate \<times> int" where
  "old_migrate E thr p new_nodeid s =
    (let ts = threads_of thr s p in
     if \<exists>q \<in> set (bound_threads s ts). \<not> rts s q BIT_MIGRATE then (s, EMOLMIGRATE)
     else if \<not> mis s p MIS_BIT_GRPLEADER then (s, EMOLGRPLEADER)
     else (fold (leave_one E new_nodeid) ts s, OK))"

definition new_migrate :: "pref \<Rightarrow> int \<Rightarrow> kstate \<Rightarrow> kstate \<times> int" where
  "new_migrate p pid s =
    (let (s1, ret) =
       (if \<not> mis s p MIS_BIT_RMTBACKUP then
          if \<not> t_live (tasks s pid) then (s, EMOLBADPROC)
          else
           let s1 = upd p (\<lambda>x. x\<lparr>p_task := Some pid, p_name := take 15 (t_comm (tasks s pid)), p_lpid := pid\<rparr>) s
           in (s1\<lparr>tasks := (tasks s1)(pid := (tasks s1 pid)\<lparr>t_proc := Some p\<rparr>)\<rparr>, OK)
        else if p_lpid (procs s p) \<noteq> pid then (s, EMOLBADPID)
        else (s, OK))
     in if ret \<noteq> OK then (s1, ret)
        else (upd p (\<lambda>x. x\<lparr>p_nodeid := local_nodeid s1, p_rts_flags := PROC_RUNNING\<rparr>) s1, OK))"

text \<open>The source tests the DC map of the new node with \<open>dc->dc_usr.dc_dcid\<close>, the id of
  the first entry of the table.\<close>

definition commit_check :: "int \<Rightarrow> int \<Rightarrow> kstate \<Rightarrow> int" where
  "commit_check d new_nodeid s =
    (if new_nodeid < 0 \<or> new_nodeid \<ge> d_nr_nodes (dvs s) then EMOLNOPROXY
     else if n_flags (node s new_nodeid) = NODE_FREE then EMOLNOPROXY
     else if \<not> node_bit new_nodeid (dc_nodes (dc s d)) then EMOLDCNODE
     else if \<not> bit (n_dcs (node s new_nodeid)) (nat (dc_dcid (dc s 0))) then EMOLDCNODE
     else OK)"

definition migr_commit :: "env \<Rightarrow> (int \<Rightarrow> int list) \<Rightarrow> int \<Rightarrow> pref \<Rightarrow> int \<Rightarrow> int \<Rightarrow> kstate \<Rightarrow> kstate \<times> int" where
  "migr_commit E thr d p pid new_nodeid s =
    (if commit_check d new_nodeid s \<noteq> OK then (s, commit_check d new_nodeid s)
     else
      let (s1, ret) =
        (if local_nodeid s = p_nodeid (procs s p) then old_migrate E thr p new_nodeid s
         else if local_nodeid s = new_nodeid then new_migrate p pid s
         else (flush_migr_list E p (upd p (\<lambda>x. x\<lparr>p_nodeid := new_nodeid\<rparr>) s), OK)) in
      if ret \<noteq> OK then (s1, ret)
      else
       let s2 = upd p (\<lambda>x. x\<lparr>p_nodemap := set_bit (nat new_nodeid) (p_nodemap x)\<rparr>) s1;
           s3 = clear_mis MIS_BIT_NEEDMIGR p (clear_rts BIT_MIGRATE p s2)
       in (s3, OK))"

section \<open>mm_migrate\<close>

definition mm_migrate ::
  "env \<Rightarrow> (int \<Rightarrow> int list) \<Rightarrow> int \<Rightarrow> int \<Rightarrow> int \<Rightarrow> int \<Rightarrow> int \<Rightarrow> int \<Rightarrow> kstate \<Rightarrow> kstate \<times> int" where
  "mm_migrate E thr tid oper pid dcid endpoint new_nodeid s =
    (let p_nr = ENDPOINT_P endpoint; p = NBR2PTR s dcid p_nr in
     if t_euid (tasks s tid) \<noteq> USER_ROOT then (s, EPERM_NEG)
     else if DVS_NOT_INIT s then (s, EMOLDVSINIT)
     else if oper \<noteq> MIGR_START \<and> oper \<noteq> MIGR_COMMIT \<and> oper \<noteq> MIGR_ROLLBACK then (s, EMOLNOSYS)
     else if dcid < 0 \<or> dcid \<ge> d_nr_dcs (dvs s) then (s, EMOLBADDCID)
     else if p_nr < - dc_nr_tasks (dc s dcid) \<or> p_nr \<ge> dc_nr_procs (dc s dcid) then (s, EMOLRANGE)
     else if \<not> IT_IS_REMOTE s p \<and> p_task (procs s p) = None then (s, EMOLBADPROC)
     else if oper = MIGR_START then migr_start thr p s
     else if oper = MIGR_ROLLBACK then migr_rollback E thr p s
     else migr_commit E thr dcid p pid new_nodeid s)"

section \<open>What a flush does\<close>

text \<open>Both flushes take the blocked processes off a queue one by one.  A step takes \<open>q\<close> off
  every queue (\<open>del\<close>) and releases it (\<open>fin\<close>); it keeps the others blocked and leaves
  the tables alone.\<close>

locale queue_flush =
  fixes step :: "pref \<Rightarrow> kstate \<Rightarrow> kstate" and blocked :: "kstate \<Rightarrow> pref \<Rightarrow> bool"
    and del :: "pref \<Rightarrow> proc \<Rightarrow> proc" and fin :: "proc \<Rightarrow> proc"
  assumes step_procs: "blocked s q \<Longrightarrow> procs (step q s) r = (if r = q then fin (del q (procs s q)) else del q (procs s r))"
    and step_blocked: "blocked s q \<Longrightarrow> blocked s r \<Longrightarrow> r \<noteq> q \<Longrightarrow> blocked (step q s) r"
    and step_frame: "blocked s q \<Longrightarrow> tasks (step q s) = tasks s" "blocked s q \<Longrightarrow> dc (step q s) = dc s"
      "blocked s q \<Longrightarrow> dvs (step q s) = dvs s" "blocked s q \<Longrightarrow> node (step q s) = node s"
      "blocked s q \<Longrightarrow> proxies (step q s) = proxies s" "blocked s q \<Longrightarrow> local_nodeid (step q s) = local_nodeid s"
      "blocked s q \<Longrightarrow> umem (step q s) = umem s"
    and fin_del: "fin (del q x) = del q (fin x)"
begin

lemma fin_fold_del: "fin (fold del xs x) = fold del xs (fin x)"
  by (induction xs arbitrary: x) (simp_all add: fin_del)

lemma flush_procs:
  assumes "distinct xs" "\<forall>q \<in> set xs. blocked s q"
  shows "procs (fold step xs s) r = (if r \<in> set xs then fin (fold del xs (procs s r)) else fold del xs (procs s r))"
  using assms
proof (induction xs arbitrary: s)
  case (Cons a xs)
  have a: "blocked s a" and rest: "\<forall>q \<in> set xs. blocked (step a s) q"
    using Cons.prems step_blocked [of s a] by auto
  from Cons.IH [OF _ rest] Cons.prems(1) show ?case by (auto simp: step_procs [OF a] fin_fold_del fin_del)
qed simp

lemma flush_frame:
  assumes "distinct xs" "\<forall>q \<in> set xs. blocked s q"
  shows "tasks (fold step xs s) = tasks s" "dc (fold step xs s) = dc s" "dvs (fold step xs s) = dvs s"
    "node (fold step xs s) = node s" "proxies (fold step xs s) = proxies s"
    "local_nodeid (fold step xs s) = local_nodeid s" "umem (fold step xs s) = umem s"
proof -
  have "tasks (fold step xs s) = tasks s \<and> dc (fold step xs s) = dc s \<and> dvs (fold step xs s) = dvs s
    \<and> node (fold step xs s) = node s \<and> proxies (fold step xs s) = proxies s
    \<and> local_nodeid (fold step xs s) = local_nodeid s \<and> umem (fold step xs s) = umem s"
    using assms
  proof (induction xs arbitrary: s)
    case (Cons a xs)
    have a: "blocked s a" and rest: "\<forall>q \<in> set xs. blocked (step a s) q"
      using Cons.prems step_blocked [of s a] by auto
    from Cons.IH [OF _ rest] Cons.prems(1) show ?case by (simp add: step_frame [OF a])
  qed simp
  then show "tasks (fold step xs s) = tasks s" "dc (fold step xs s) = dc s" "dvs (fold step xs s) = dvs s"
    "node (fold step xs s) = node s" "proxies (fold step xs s) = proxies s"
    "local_nodeid (fold step xs s) = local_nodeid s" "umem (fold step xs s) = umem s" by auto
qed

end

text \<open>A sender blocked in a queue: only on sending, or on sending and then receiving; and a
  process waiting only for the end of the migration of \<open>p\<close>.\<close>

definition only_sending :: "kstate \<Rightarrow> pref \<Rightarrow> bool" where
  "only_sending s q \<longleftrightarrow> p_rts_flags (procs s q) = 4 \<or> p_rts_flags (procs s q) = 12"

definition only_waiting :: "pref \<Rightarrow> kstate \<Rightarrow> pref \<Rightarrow> bool" where
  "only_waiting p s q \<longleftrightarrow> p_rts_flags (procs s q) = set_bit BIT_WAITMIGR 0
     \<and> p_waitmigr (procs s q) = p_endpoint (procs s p) \<and> q \<noteq> p"

definition replaying :: "proc \<Rightarrow> proc" where
  "replaying x = x\<lparr>p_rts_flags := 0, p_getfrom := NONE, p_sendto := NONE, p_rcode := EMOLMIGRATE,
     p_pseudosem := p_pseudosem x + 1\<rparr>"

definition retrying :: "proc \<Rightarrow> proc" where
  "retrying x = x\<lparr>p_rts_flags := 0, p_waitmigr := NONE, p_rcode := EMOLMIGRATE,
     p_pseudosem := p_pseudosem x + 1\<rparr>"

definition del_link :: "pref \<Rightarrow> proc \<Rightarrow> proc" where
  "del_link q x = x\<lparr>p_list := list_del q (p_list x)\<rparr>"

definition del_mlink :: "pref \<Rightarrow> proc \<Rightarrow> proc" where
  "del_mlink q x = x\<lparr>p_mlist := list_del q (p_mlist x)\<rparr>"

lemma sending_cleared:
  "w = 4 \<or> w = 12 \<Longrightarrow> unset_bit BIT_RECEIVING (unset_bit BIT_SENDING (w :: flags)) = 0"
  "w = 4 \<or> w = 12 \<Longrightarrow> \<not> bit (w :: flags) BIT_REMOTE"
  "unset_bit BIT_WAITMIGR (set_bit BIT_WAITMIGR (0 :: flags)) = 0"
  by (auto simp: unset_bit_eq_and_not unset_set_bit)

interpretation fsend: queue_flush "flush_sending_one E" only_sending del_link replaying for E
  by unfold_locales
    (auto simp: flush_sending_one_def IT_IS_REMOTE_def only_sending_def sending_cleared up_if_ready_def
      replaying_def del_link_def Let_def)

interpretation fmigr: queue_flush "flush_migr_one E p" "only_waiting p" del_mlink retrying for E p
  by unfold_locales
    (auto simp: flush_migr_one_def only_waiting_def sending_cleared up_if_ready_def retrying_def
      del_mlink_def Let_def)

lemma fold_del_link: "fold del_link xs x = x\<lparr>p_list := fold list_del xs (p_list x)\<rparr>"
  by (induction xs arbitrary: x) (simp_all add: del_link_def)

lemma fold_del_mlink: "fold del_mlink xs x = x\<lparr>p_mlist := fold list_del xs (p_mlist x)\<rparr>"
  by (induction xs arbitrary: x) (simp_all add: del_mlink_def)

section \<open>Leaving a node\<close>

text \<open>A local process of one thread that has stopped to migrate, the processes blocked
  sending to it and those waiting for it.\<close>

definition leaving :: "(int \<Rightarrow> int list) \<Rightarrow> kstate \<Rightarrow> pref \<Rightarrow> int \<Rightarrow> bool" where
  "leaving thr s p t \<longleftrightarrow> threads_of thr s p = [t] \<and> t_proc (tasks s t) = Some p
     \<and> mis s p MIS_BIT_GRPLEADER \<and> rts s p BIT_MIGRATE \<and> local_nodeid s = p_nodeid (procs s p)
     \<and> distinct (p_list (procs s p)) \<and> p \<notin> set (p_list (procs s p)) \<and> (\<forall>q \<in> set (p_list (procs s p)). only_sending s q)
     \<and> distinct (p_mlist (procs s p)) \<and> (\<forall>q \<in> set (p_mlist (procs s p)). only_waiting p s q)"

definition departed :: "env \<Rightarrow> int \<Rightarrow> int \<Rightarrow> pref \<Rightarrow> kstate \<Rightarrow> kstate" where
  "departed E n t p s =
    (let s2 = upd p (\<lambda>x. x\<lparr>p_lpid := PROC_NO_PID, p_nodeid := n\<rparr>) (clear_mis MIS_BIT_GRPLEADER p s);
         s3 = s2\<lparr>tasks := (tasks s2)(t := (tasks s2 t)\<lparr>t_proc := None\<rparr>)\<rparr>;
         s4 = clear_rts BIT_MIGRATE p (upd p (\<lambda>x. x\<lparr>p_task := None\<rparr>) s3)
     in if p_rts_flags (procs s4 p) \<noteq> PROC_RUNNING
        then LOCAL_PROC_UP E p EMOLRMTPROC (set_rts BIT_REMOTE p s4) else set_rts BIT_REMOTE p s4)"

lemma departed_facts:
  "q \<noteq> p \<Longrightarrow> procs (departed E n t p s) q = procs s q"
  "p_list (procs (departed E n t p s) p) = p_list (procs s p)"
  "p_mlist (procs (departed E n t p s) p) = p_mlist (procs s p)"
  "p_endpoint (procs (departed E n t p s) p) = p_endpoint (procs s p)"
  "p_nodeid (procs (departed E n t p s) p) = n" "p_task (procs (departed E n t p s) p) = None"
  "p_rts_flags (procs (departed E n t p s) p) = set_bit BIT_REMOTE (unset_bit BIT_MIGRATE (p_rts_flags (procs s p)))"
  "tasks (departed E n t p s) = (tasks s)(t := (tasks s t)\<lparr>t_proc := None\<rparr>)"
  "dc (departed E n t p s) = dc s" "dvs (departed E n t p s) = dvs s" "node (departed E n t p s) = node s"
  "proxies (departed E n t p s) = proxies s" "local_nodeid (departed E n t p s) = local_nodeid s"
  "umem (departed E n t p s) = umem s"
  by (simp_all add: departed_def Let_def)

lemma fold_list_del_self: "distinct xs \<Longrightarrow> fold list_del xs xs = []"
  by (simp add: fold_list_del)

text \<open>The state in which the process has left, queue by queue.\<close>

lemma leave_one_state:
  assumes lv: "leaving thr s p t" and u: "u = leave_one E n t s"
    and xs: "xs = p_list (procs s p)" and ys: "ys = p_mlist (procs s p)"
  shows "q \<noteq> p \<Longrightarrow> q \<in> set xs \<Longrightarrow> procs u q = fold del_mlink ys (replaying (fold del_link xs (procs s q)))"
    "q \<noteq> p \<Longrightarrow> q \<in> set ys \<Longrightarrow> procs u q = retrying (fold del_mlink ys (fold del_link xs (procs s q)))"
    "q \<noteq> p \<Longrightarrow> q \<notin> set xs \<Longrightarrow> q \<notin> set ys \<Longrightarrow> procs u q = fold del_mlink ys (fold del_link xs (procs s q))"
    "procs u p = (procs (departed E n t p s) p)\<lparr>p_list := [], p_mlist := []\<rparr>"
    "tasks u = (tasks s)(t := (tasks s t)\<lparr>t_proc := None\<rparr>)" "dc u = dc s" "dvs u = dvs s" "node u = node s"
    "proxies u = proxies s" "local_nodeid u = local_nodeid s" "umem u = umem s"
proof -
  define s5 where "s5 = departed E n t p s"
  note d = departed_facts [where E = E and n = n and t = t and p = p and s = s, folded s5_def]
  have dis: "distinct xs" "distinct ys" "p \<notin> set xs" using lv xs ys by (auto simp: leaving_def)
  have snd: "\<forall>q \<in> set xs. only_sending s5 q"
  proof
    fix q assume q: "q \<in> set xs"
    with dis(3) have "q \<noteq> p" by auto
    with q lv xs show "only_sending s5 q" by (simp add: leaving_def only_sending_def d(1))
  qed
  define s6 where "s6 = fold (flush_sending_one E) xs s5"
  note p6 = fsend.flush_procs [OF dis(1) snd, where E = E, folded s6_def]
  note f6 = fsend.flush_frame [OF dis(1) snd, where E = E, folded s6_def]
  have off: "q \<notin> set xs" if "q \<in> set ys" for q
    using that lv xs ys by (auto simp: leaving_def only_sending_def only_waiting_def)
  have wt: "\<forall>q \<in> set ys. only_waiting p s6 q"
  proof
    fix q assume q: "q \<in> set ys"
    with lv ys have w: "only_waiting p s q" by (auto simp: leaving_def)
    then have "q \<noteq> p" by (simp add: only_waiting_def)
    then show "only_waiting p s6 q"
      using w off [OF q] dis(3) by (simp add: only_waiting_def p6 d(1,4) fold_del_link)
  qed
  note p7 = fmigr.flush_procs [OF dis(2) wt, where E = E]
  note f7 = fmigr.flush_frame [OF dis(2) wt, where E = E]
  have np: "p \<notin> set ys" using lv ys by (auto simp: leaving_def only_waiting_def)
  have m6: "p_mlist (procs s6 p) = ys" using d(3) ys dis(3) by (simp add: p6 fold_del_link)
  have u7: "u = fold (flush_migr_one E p) ys s6"
  proof -
    have "leave_one E n t s = flush_migr_list E p (flush_sending_list E p s5)"
      using lv by (simp add: leave_one_def leaving_def s5_def departed_def Let_def)
    then show ?thesis using d(2) xs m6 by (simp add: u flush_sending_list_def flush_migr_list_def s6_def)
  qed
  show "procs u q = fold del_mlink ys (replaying (fold del_link xs (procs s q)))" if "q \<noteq> p" "q \<in> set xs"
    using that off d(1) by (auto simp: u7 p7 p6)
  show "procs u q = retrying (fold del_mlink ys (fold del_link xs (procs s q)))" if "q \<noteq> p" "q \<in> set ys"
    using that off d(1) by (auto simp: u7 p7 p6)
  show "procs u q = fold del_mlink ys (fold del_link xs (procs s q))" if "q \<noteq> p" "q \<notin> set xs" "q \<notin> set ys"
    using that d(1) by (simp add: u7 p7 p6)
  show "procs u p = (procs (departed E n t p s) p)\<lparr>p_list := [], p_mlist := []\<rparr>"
    using dis np d(2,3) [folded xs ys]
    by (simp add: u7 p7 p6 fold_del_link fold_del_mlink fold_list_del_self flip: s5_def)
  show "tasks u = (tasks s)(t := (tasks s t)\<lparr>t_proc := None\<rparr>)" "dc u = dc s" "dvs u = dvs s" "node u = node s"
    "proxies u = proxies s" "local_nodeid u = local_nodeid s" "umem u = umem s"
    by (simp_all add: u7 f7 f6 d)
qed

text \<open>The state a commit on the old node leaves.\<close>

definition committed :: "env \<Rightarrow> int \<Rightarrow> int \<Rightarrow> pref \<Rightarrow> kstate \<Rightarrow> kstate" where
  "committed E n t p s = clear_mis MIS_BIT_NEEDMIGR p (clear_rts BIT_MIGRATE p
     (upd p (\<lambda>x. x\<lparr>p_nodemap := set_bit (nat n) (p_nodemap x)\<rparr>) (leave_one E n t s)))"

lemma commit_run:
  assumes root: "t_euid (tasks s tid) = USER_ROOT" "\<not> DVS_NOT_INIT s"
    and nr: "0 \<le> dcid" "dcid < d_nr_dcs (dvs s)" "- dc_nr_tasks (dc s dcid) \<le> ENDPOINT_P ep" "ENDPOINT_P ep < dc_nr_procs (dc s dcid)"
    and p: "p = NBR2PTR s dcid (ENDPOINT_P ep)" and lv: "leaving thr s p t" and chk: "commit_check dcid n s = OK"
  shows "mm_migrate E thr tid MIGR_COMMIT pid dcid ep n s = (committed E n t p s, OK)"
proof -
  have l: "threads_of thr s p = [t]" "t_proc (tasks s t) = Some p" "mis s p MIS_BIT_GRPLEADER" "rts s p BIT_MIGRATE"
    "local_nodeid s = p_nodeid (procs s p)"
    using lv by (auto simp: leaving_def)
  have task: "p_task (procs s p) \<noteq> None" using l(1) by (auto simp: threads_of_def split: option.splits)
  have "old_migrate E thr p n s = (leave_one E n t s, OK)"
    using l by (simp add: old_migrate_def bound_threads_def)
  then show ?thesis
    using root nr chk task l(5)
    by (simp add: mm_migrate_def migr_commit_def committed_def Let_def flip: p)
qed

lemma committed_peer:
  assumes "leaving thr s p t"
  shows "IT_IS_REMOTE (committed E n t p s) p" "\<not> rts (committed E n t p s) p BIT_MIGRATE"
    "p_nodeid (procs (committed E n t p s) p) = n" "p_task (procs (committed E n t p s) p) = None"
    "p_list (procs (committed E n t p s) p) = []" "p_mlist (procs (committed E n t p s) p) = []"
    "t_proc (tasks (committed E n t p s) t) = None"
    "p_endpoint (procs (committed E n t p s) p) = p_endpoint (procs s p)"
    "rts (committed E n t p s) p BIT_SLOT_FREE = rts s p BIT_SLOT_FREE"
  using leave_one_state(4,5) [OF assms refl refl refl, of E n]
  by (simp_all add: committed_def departed_facts IT_IS_REMOTE_def)

lemma committed_sender:
  assumes lv: "leaving thr s p t" and q: "q \<in> set (p_list (procs s p))"
  shows "p_rts_flags (procs (committed E n t p s) q) = 0" "p_rcode (procs (committed E n t p s) q) = EMOLMIGRATE"
    "p_pseudosem (procs (committed E n t p s) q) = p_pseudosem (procs s q) + 1"
    "p_misc_flags (procs (committed E n t p s) q) = p_misc_flags (procs s q)"
    "p_endpoint (procs (committed E n t p s) q) = p_endpoint (procs s q)"
    "p_dcid (procs (committed E n t p s) q) = p_dcid (procs s q)"
proof -
  have "q \<noteq> p" using lv q by (auto simp: leaving_def)
  with leave_one_state(1) [OF lv refl refl refl this q, of E n]
  show "p_rts_flags (procs (committed E n t p s) q) = 0" "p_rcode (procs (committed E n t p s) q) = EMOLMIGRATE"
    "p_pseudosem (procs (committed E n t p s) q) = p_pseudosem (procs s q) + 1"
    "p_misc_flags (procs (committed E n t p s) q) = p_misc_flags (procs s q)"
    "p_endpoint (procs (committed E n t p s) q) = p_endpoint (procs s q)"
    "p_dcid (procs (committed E n t p s) q) = p_dcid (procs s q)"
    by (simp_all add: committed_def fold_del_link fold_del_mlink replaying_def)
qed

lemma committed_waiter:
  assumes lv: "leaving thr s p t" and q: "q \<in> set (p_mlist (procs s p))"
  shows "p_rts_flags (procs (committed E n t p s) q) = 0" "p_rcode (procs (committed E n t p s) q) = EMOLMIGRATE"
    "p_pseudosem (procs (committed E n t p s) q) = p_pseudosem (procs s q) + 1"
proof -
  have "q \<noteq> p" using lv q by (auto simp: leaving_def only_waiting_def)
  with leave_one_state(2) [OF lv refl refl refl this q, of E n]
  show "p_rts_flags (procs (committed E n t p s) q) = 0" "p_rcode (procs (committed E n t p s) q) = EMOLMIGRATE"
    "p_pseudosem (procs (committed E n t p s) q) = p_pseudosem (procs s q) + 1"
    by (simp_all add: committed_def fold_del_link fold_del_mlink retrying_def)
qed

lemma committed_proxy:
  assumes lv: "leaving thr s p t" and q: "q \<noteq> p" "q \<notin> set (p_list (procs s p))" "q \<notin> set (p_mlist (procs s p))"
  shows "proxy_status (committed E n t p s) q = proxy_status s q"
  using leave_one_state(3) [OF lv refl refl refl q, of E n] q(1)
  by (simp add: committed_def proxy_status_def fold_del_link fold_del_mlink)

lemma committed_frame:
  assumes "leaving thr s p t"
  shows "dc (committed E n t p s) = dc s" "dvs (committed E n t p s) = dvs s" "node (committed E n t p s) = node s"
    "local_nodeid (committed E n t p s) = local_nodeid s" "umem (committed E n t p s) = umem s"
    "mm_of_task (committed E n t p s) x = mm_of_task s x"
  using leave_one_state(5-) [OF assms refl refl refl, of E n] by (simp_all add: committed_def mm_of_task_def)


text \<open>Process 2 stopped to migrate to node 1; process 1 was sending to it, process 3 waits for it.\<close>

definition scn_leaving :: kstate where
  "scn_leaving =
    upd (DcProc 0 38) (\<lambda>x. x\<lparr>p_rts_flags := set_bit BIT_WAITMIGR 0, p_waitmigr := 2, p_pseudosem := - 1\<rparr>)
     (upd (DcProc 0 36) (\<lambda>x. x\<lparr>p_rts_flags := 4, p_sendto := 2, p_umsg := 8192, p_pseudosem := - 1\<rparr>)
      (upd (DcProc 0 37) (\<lambda>x. x\<lparr>p_rts_flags := set_bit BIT_MIGRATE 0, p_misc_flags := set_bit MIS_BIT_GRPLEADER 0,
         p_list := [DcProc 0 36], p_mlist := [DcProc 0 38]\<rparr>) scn_nodes))"

lemma scn_leaving_ok:
  "leaving (\<lambda>t. [t]) scn_leaving (DcProc 0 37) 102" "commit_check 0 1 scn_leaving = OK"
  by (simp_all add: leaving_def threads_of_def only_sending_def only_waiting_def commit_check_def node_bit_def
      scn_leaving_def scn_nodes_def scn_defs bit_1_iff)


section \<open>Starting and giving up\<close>

text \<open>A migration that is started and given up does not disturb the process: after
  \<open>migr_start\<close> its next call stops at the caller check, in state MIGRATE; \<open>migr_rollback\<close> wakes
  it, the check then passes with the descriptor as it was before the migration, and the call goes on.\<close>

theorem rollback_resumes_call:
  assumes ok: "check_caller t s = (s, Chk_ok p pid)" and thr: "threads_of thr s p = [t]" "t_proc (tasks s t) = Some p"
    and gl: "mis s p MIS_BIT_GRPLEADER" and idle: "p_rts_flags (procs s p) = 0" "p_mlist (procs s p) = []"
  shows "\<exists>s1 s2 s3 s4. migr_start thr p s = (s1, OK)
    \<and> check_caller t s1 = (s2, Chk_sleep p pid (p_dcid (procs s p))) \<and> rts s2 p BIT_MIGRATE
    \<and> p_pseudosem (procs s2 p) = - 1 \<and> migr_rollback E thr p s2 = (s3, OK)
    \<and> procs s3 = (procs s)(p := (procs s p)\<lparr>p_rcode := OK, p_pseudosem := 0\<rparr>)
    \<and> sleep_end E p TIMEOUT_FOREVER 0 s3 = (s4, Some OK) \<and> procs s4 = procs s3
    \<and> check_caller_status p pid (p_dcid (procs s p)) s4 = Inr (p, pid)"
proof -
  have r: "pick_caller s t = Inr (p, pid)" "\<not> mis s p MIS_BIT_NEEDMIGR"
    "check_caller_status p pid (p_dcid (procs s p)) s = Inr (p, pid)"
    using ok by (simp_all add: check_caller_ready)
  define s1 where "s1 = set_mis MIS_BIT_NEEDMIGR p s"
  define s2 where "s2 = upd p (\<lambda>x. x\<lparr>p_pseudosem := - 1, p_rcode := OK\<rparr>)
     (set_rts BIT_MIGRATE p (clear_mis MIS_BIT_NEEDMIGR p s1))"
  define s3 where "s3 = rollback_one E p s2"
  define s4 where "s4 = reset_cpu E p (upd p (\<lambda>x. x\<lparr>p_rcode := OK\<rparr>) s3)"
  have start: "migr_start thr p s = (s1, OK)"
    using thr gl idle by (simp add: migr_start_def IT_IS_REMOTE_def bound_threads_def migr_status_def s1_def)
  have pc: "pick_caller s1 t = Inr (p, pid)" using r(1) pick_caller_cong [of s1 s] by (simp add: s1_def)
  have park: "check_caller t s1 = (s2, Chk_sleep p pid (p_dcid (procs s p)))"
    by (simp add: check_caller_def pc take_needmigr_def sleep_begin_def s2_def Let_def) (simp add: s1_def)
  have p2: "procs s2 = (procs s)(p := (procs s p)\<lparr>p_pseudosem := - 1, p_rcode := OK, p_rts_flags := set_bit BIT_MIGRATE 0\<rparr>)"
    using r(2) idle(1) by (simp add: s2_def s1_def unset_set_bit fun_eq_iff)
  have t2: "tasks s2 = tasks s" by (simp add: s2_def s1_def)
  have "threads_of thr s2 p = [t]" "\<not> IT_IS_REMOTE s2 p" "mis s2 p MIS_BIT_GRPLEADER"
    "bound_threads s2 [t] = [p]" "migr_status True s2 p = OK"
    using thr gl by (simp_all add: threads_of_def IT_IS_REMOTE_def bound_threads_def migr_status_def p2 t2)
  then have undo: "migr_rollback E thr p s2 = (s3, OK)" by (simp add: migr_rollback_def s3_def)
  have p3: "procs s3 = (procs s)(p := (procs s p)\<lparr>p_rcode := OK, p_pseudosem := 0\<rparr>)"
    using r(2) idle
    by (simp add: s3_def rollback_one_def flush_migr_list_def up_if_ready_def p2 unset_set_bit unset_bit_idem fun_eq_iff Let_def)
  have f3: "dvs s3 = dvs s" "dc s3 = dc s"
    using idle by (simp_all add: s3_def rollback_one_def flush_migr_list_def p2 Let_def) (simp_all add: s2_def s1_def)
  have "sleep_end E p TIMEOUT_FOREVER 0 s3 = (s4, Some OK)"
    using r(2) by (simp add: sleep_end_def sleep_wake_def sleep_ret_def sleep_fini_def take_needmigr_def p3 s4_def)
  moreover have p4: "procs s4 = procs s3" by (simp add: s4_def p3 fun_eq_iff)
  moreover have "check_caller_status p pid (p_dcid (procs s p)) s4 = Inr (p, pid)"
    using r(3) f3 idle(1) unfolding check_caller_status_def p4 p3 by (simp add: s4_def split: if_splits)
  ultimately show ?thesis using start park undo p3 by (intro exI conjI) (assumption | simp add: p2)+
qed

text \<open>Process 2 leads its group and is about to make a call.\<close>

definition scn_leader :: kstate where
  "scn_leader = upd (DcProc 0 37) (\<lambda>x. x\<lparr>p_misc_flags := set_bit MIS_BIT_GRPLEADER 0\<rparr>) scn"

theorem rollback_resumes_call_witness:
  "\<exists>s1 s2 s3. migr_start (\<lambda>t. [t]) (DcProc 0 37) scn_leader = (s1, OK)
    \<and> check_caller 102 s1 = (s2, Chk_sleep (DcProc 0 37) 102 0)
    \<and> migr_rollback scn_env (\<lambda>t. [t]) (DcProc 0 37) s2 = (s3, OK)
    \<and> p_rts_flags (procs s3 (DcProc 0 37)) = 0"
proof -
  have "check_caller 102 scn_leader = (scn_leader, Chk_ok (DcProc 0 37) 102)"
    "threads_of (\<lambda>t. [t]) scn_leader (DcProc 0 37) = [102]" "t_proc (tasks scn_leader 102) = Some (DcProc 0 37)"
    "mis scn_leader (DcProc 0 37) MIS_BIT_GRPLEADER" "p_rts_flags (procs scn_leader (DcProc 0 37)) = 0"
    "p_mlist (procs scn_leader (DcProc 0 37)) = []" "p_dcid (procs scn_leader (DcProc 0 37)) = 0"
    by (simp_all add: scn_leader_def scn_defs check_defs threads_of_def bit_1_iff)
  from rollback_resumes_call [OF this(1-6), of scn_env] this(5,7) show ?thesis by fastforce
qed

end
