(* ===== verification/Timers.thy ===== *)
theory Timers
  imports Prelude
begin

text \<open>
  The watchdog timer library \<open>src/lib/timers/timers.c\<close>, which the process manager and the
  CLOCK functions of SYSTASK share.  A queue is a chain of \<open>moltimer_t\<close> structures linked by
  \<open>tmr_next\<close>; the model keeps the structures in a memory from addresses to records and the
  caller's head pointer beside it, so that aliasing (a timer that is already queued) is as in the C code.
  The abstract queue is a list of timers with their expiration times, sorted by time; every operation refines
  the operation on lists.  A walk along a chain need not end on a broken chain, so the walks are
  partial functions; on a queue they return.
\<close>

section \<open>The structures\<close>

type_synonym molclock = "32 word"
type_synonym taddr = nat

record moltimer =
  tmr_next :: "taddr option"
  tmr_exp_time :: molclock
  tmr_func :: int
  tmr_arg :: int

record tqueue =
  tmrs :: "taddr option"
  tmem :: "taddr \<Rightarrow> moltimer"

definition TMR_NEVER :: molclock where
  "TMR_NEVER = 2147483647"

definition upd_timer :: "taddr \<Rightarrow> (moltimer \<Rightarrow> moltimer) \<Rightarrow> tqueue \<Rightarrow> tqueue" where
  "upd_timer a f q = q\<lparr>tmem := (tmem q)(a := f (tmem q a))\<rparr>"

text \<open>The values of \<open>moltimer_t **atp\<close>: the address of the head pointer or of a \<open>tmr_next\<close>.\<close>

datatype tlink = Tmrs | Next taddr

fun deref :: "tqueue \<Rightarrow> tlink \<Rightarrow> taddr option" where
  "deref q Tmrs = tmrs q"
| "deref q (Next a) = tmr_next (tmem q a)"

fun assign :: "tlink \<Rightarrow> taddr option \<Rightarrow> tqueue \<Rightarrow> tqueue" where
  "assign Tmrs p q = q\<lparr>tmrs := p\<rparr>"
| "assign (Next a) p q = upd_timer a (\<lambda>x. x\<lparr>tmr_next := p\<rparr>) q"

definition head_time :: "tqueue \<Rightarrow> molclock" where
  "head_time q = (case tmrs q of None \<Rightarrow> 0 | Some a \<Rightarrow> tmr_exp_time (tmem q a))"

section \<open>The operations\<close>

partial_function (option) clr_walk :: "taddr \<Rightarrow> tlink \<Rightarrow> tqueue \<Rightarrow> tqueue option" where
  "clr_walk tp atp q =
    (case deref q atp of
       None \<Rightarrow> Some q
     | Some a \<Rightarrow> if a = tp then Some (assign atp (tmr_next (tmem q tp)) q) else clr_walk tp (Next a) q)"

text \<open>Both clocks are returned: the time of the old head and the value for \<open>*next_time\<close>.\<close>

definition tmrs_clrtimer :: "taddr \<Rightarrow> tqueue \<Rightarrow> (tqueue \<times> molclock \<times> molclock) option" where
  "tmrs_clrtimer tp q =
    (let prev_time = head_time q; q1 = upd_timer tp (\<lambda>x. x\<lparr>tmr_exp_time := TMR_NEVER\<rparr>) q in
     case clr_walk tp Tmrs q1 of None \<Rightarrow> None | Some q2 \<Rightarrow> Some (q2, prev_time, head_time q2))"

partial_function (option) set_walk :: "molclock \<Rightarrow> tlink \<Rightarrow> tqueue \<Rightarrow> tlink option" where
  "set_walk exp_time atp q =
    (case deref q atp of
       None \<Rightarrow> Some atp
     | Some a \<Rightarrow> if exp_time < tmr_exp_time (tmem q a) then Some atp else set_walk exp_time (Next a) q)"

definition tmrs_settimer ::
  "taddr \<Rightarrow> molclock \<Rightarrow> int \<Rightarrow> tqueue \<Rightarrow> (tqueue \<times> molclock \<times> molclock) option" where
  "tmrs_settimer tp exp_time watchdog q =
    (let old_head = head_time q in
     case tmrs_clrtimer tp q of None \<Rightarrow> None
     | Some (q1, _, _) \<Rightarrow>
       let q2 = upd_timer tp (\<lambda>x. x\<lparr>tmr_exp_time := exp_time, tmr_func := watchdog\<rparr>) q1 in
       case set_walk exp_time Tmrs q2 of None \<Rightarrow> None
       | Some atp \<Rightarrow>
         let q3 = upd_timer tp (\<lambda>x. x\<lparr>tmr_next := deref q2 atp\<rparr>) q2;
             q4 = assign atp (Some tp) q3
         in Some (q4, old_head, head_time q4))"

text \<open>The watchdog functions are the clients': \<open>run f tp\<close> is the call of the function \<open>f\<close> on the
  timer \<open>tp\<close>; it may change the queue and the client's own state.\<close>

partial_function (option) exp_walk ::
  "(int \<Rightarrow> taddr \<Rightarrow> tqueue \<times> 'w \<Rightarrow> (tqueue \<times> 'w) option) \<Rightarrow> molclock \<Rightarrow> tqueue \<times> 'w \<Rightarrow> (tqueue \<times> 'w) option" where
  "exp_walk run now qw =
    (case tmrs (fst qw) of
       None \<Rightarrow> Some qw
     | Some tp \<Rightarrow>
       if tmr_exp_time (tmem (fst qw) tp) \<le> now then
         let q1 = (fst qw)\<lparr>tmrs := tmr_next (tmem (fst qw) tp)\<rparr>;
             q2 = upd_timer tp (\<lambda>x. x\<lparr>tmr_exp_time := TMR_NEVER\<rparr>) q1
         in Option.bind (run (tmr_func (tmem q2 tp)) tp (q2, snd qw)) (exp_walk run now)
       else Some qw)"

definition tmrs_exptimers ::
  "(int \<Rightarrow> taddr \<Rightarrow> tqueue \<times> 'w \<Rightarrow> (tqueue \<times> 'w) option) \<Rightarrow> molclock \<Rightarrow> tqueue \<times> 'w
    \<Rightarrow> (tqueue \<times> 'w \<times> molclock) option" where
  "tmrs_exptimers run now qw =
    (case exp_walk run now qw of None \<Rightarrow> None | Some (q, w) \<Rightarrow> Some (q, w, head_time q))"

section \<open>Chains\<close>

fun chain :: "(taddr \<Rightarrow> moltimer) \<Rightarrow> taddr option \<Rightarrow> taddr list \<Rightarrow> bool" where
  "chain m p [] \<longleftrightarrow> p = None"
| "chain m p (x # xs) \<longleftrightarrow> p = Some x \<and> chain m (tmr_next (m x)) xs"

fun link_after :: "tlink \<Rightarrow> taddr list \<Rightarrow> tlink" where
  "link_after lk [] = lk"
| "link_after lk (x # xs) = link_after (Next x) xs"

lemma link_after_snoc [simp]: "link_after lk (xs @ [x]) = Next x"
  by (induction xs arbitrary: lk) auto

lemma tmem_upd_timer [simp]: "tmem (upd_timer a f q) = (tmem q)(a := f (tmem q a))"
  and tmrs_upd_timer [simp]: "tmrs (upd_timer a f q) = tmrs q"
  by (simp_all add: upd_timer_def)

lemma chain_upd_other [simp]: "a \<notin> set xs \<Longrightarrow> chain (m(a := v)) p xs = chain m p xs"
  by (induction xs arbitrary: p) auto

lemma chain_keep: "(\<And>x. x \<in> set xs \<Longrightarrow> tmr_next (m' x) = tmr_next (m x)) \<Longrightarrow> chain m' p xs = chain m p xs"
  by (induction xs arbitrary: p) auto

lemma chain_tail: "chain (tmem q) (deref q lk) (as @ bs) \<Longrightarrow> chain (tmem q) (deref q (link_after lk as)) bs"
  by (induction as arbitrary: lk) auto

lemma chain_subst_aux:
  assumes "chain m p (as @ [x] @ bs)" "chain m q cs" "distinct (as @ [x])" "x \<notin> set cs"
  shows "chain (m(x := (m x)\<lparr>tmr_next := q\<rparr>)) p (as @ [x] @ cs)"
  using assms by (induction as arbitrary: p) auto

text \<open>Assigning to the link after \<open>as\<close> replaces the rest of the queue.\<close>

lemma chain_assign:
  assumes "chain (tmem q) (tmrs q) (as @ bs)" "chain (tmem q) p cs" "distinct (as @ cs)"
  shows "chain (tmem (assign (link_after Tmrs as) p q)) (tmrs (assign (link_after Tmrs as) p q)) (as @ cs)"
proof (cases as rule: rev_cases)
  case Nil
  then show ?thesis using assms by simp
next
  case (snoc ys y)
  then show ?thesis using assms chain_subst_aux [of "tmem q" "tmrs q" ys y bs p cs] by simp
qed

lemma assign_fields [simp]:
  "tmr_exp_time (tmem (assign lk p q) x) = tmr_exp_time (tmem q x)"
  "tmr_func (tmem (assign lk p q) x) = tmr_func (tmem q x)"
  "tmr_arg (tmem (assign lk p q) x) = tmr_arg (tmem q x)"
  by (cases lk; simp)+

lemma clr_walk_chain:
  assumes "chain (tmem q) (deref q lk) ys"
  shows "clr_walk tp lk q = Some (if tp \<in> set ys
    then assign (link_after lk (takeWhile (\<lambda>x. x \<noteq> tp) ys)) (tmr_next (tmem q tp)) q else q)"
  using assms
proof (induction ys arbitrary: lk)
  case Nil
  then show ?case by (simp add: clr_walk.simps [of tp lk])
next
  case (Cons y ys)
  then show ?case by (simp add: clr_walk.simps [of tp lk])
qed

lemma set_walk_chain:
  assumes "chain (tmem q) (deref q lk) ys"
  shows "set_walk e lk q = Some (link_after lk (takeWhile (\<lambda>x. tmr_exp_time (tmem q x) \<le> e) ys))"
  using assms
proof (induction ys arbitrary: lk)
  case Nil
  then show ?case by (simp add: set_walk.simps [of e lk])
next
  case (Cons y ys)
  then show ?case by (auto simp: set_walk.simps [of e lk])
qed

section \<open>The abstract queue\<close>

type_synonym timerlist = "(taddr \<times> molclock) list"

definition timer_remove :: "taddr \<Rightarrow> timerlist \<Rightarrow> timerlist" where
  "timer_remove tp aq = filter (\<lambda>x. fst x \<noteq> tp) aq"

definition timer_insert :: "taddr \<Rightarrow> molclock \<Rightarrow> timerlist \<Rightarrow> timerlist" where
  "timer_insert tp e aq = takeWhile (\<lambda>x. snd x \<le> e) aq @ (tp, e) # dropWhile (\<lambda>x. snd x \<le> e) aq"

definition next_time :: "timerlist \<Rightarrow> molclock" where
  "next_time aq = (case aq of [] \<Rightarrow> 0 | x # _ \<Rightarrow> snd x)"

definition tq_rel :: "tqueue \<Rightarrow> timerlist \<Rightarrow> bool" where
  "tq_rel q aq \<longleftrightarrow> chain (tmem q) (tmrs q) (map fst aq) \<and> (\<forall>x \<in> set aq. tmr_exp_time (tmem q (fst x)) = snd x)
     \<and> distinct (map fst aq) \<and> sorted (map snd aq)"

text \<open>The structures other than \<open>tp\<close> keep their time, function and argument.\<close>

definition same_timers :: "taddr \<Rightarrow> tqueue \<Rightarrow> tqueue \<Rightarrow> bool" where
  "same_timers tp q q' \<longleftrightarrow> (\<forall>x. x \<noteq> tp \<longrightarrow> tmr_exp_time (tmem q' x) = tmr_exp_time (tmem q x)
     \<and> tmr_func (tmem q' x) = tmr_func (tmem q x) \<and> tmr_arg (tmem q' x) = tmr_arg (tmem q x))"

lemma head_time_rel: "tq_rel q aq \<Longrightarrow> head_time q = next_time aq"
  by (cases aq) (auto simp: tq_rel_def head_time_def next_time_def)

lemma timer_remove_absent: "tp \<notin> fst ` set aq \<Longrightarrow> timer_remove tp aq = aq"
  by (auto simp: timer_remove_def filter_id_conv)

lemma timer_remove_split:
  "tp \<notin> fst ` set as \<Longrightarrow> tp \<notin> fst ` set bs \<Longrightarrow> timer_remove tp (as @ (tp, t) # bs) = as @ bs"
  using timer_remove_absent [of tp as] timer_remove_absent [of tp bs] by (simp add: timer_remove_def)

lemma takeWhile_neq: "y \<notin> set xs \<Longrightarrow> takeWhile (\<lambda>x. x \<noteq> y) (xs @ y # ys) = xs"
  by (induction xs) auto

lemma timer_remove_props:
  "tp \<notin> fst ` set (timer_remove tp aq)" "set (timer_remove tp aq) \<subseteq> set aq"
  "distinct (map fst aq) \<Longrightarrow> distinct (map fst (timer_remove tp aq))"
  "sorted (map snd aq) \<Longrightarrow> sorted (map snd (timer_remove tp aq))"
  by (auto simp: timer_remove_def distinct_map_filter sorted_filter)

lemma timer_insert_props:
  "set (timer_insert tp e aq) = insert (tp, e) (set aq)"
  "distinct (map fst aq) \<Longrightarrow> tp \<notin> fst ` set aq \<Longrightarrow> distinct (map fst (timer_insert tp e aq))"
  "sorted (map snd aq) \<Longrightarrow> sorted (map snd (timer_insert tp e aq))"
proof -
  show "set (timer_insert tp e aq) = insert (tp, e) (set aq)"
    unfolding timer_insert_def by (metis Un_insert_right list.simps(15) set_append takeWhile_dropWhile_id)
  show "distinct (map fst (timer_insert tp e aq))" if "distinct (map fst aq)" "tp \<notin> fst ` set aq"
    using that by (induction aq) (auto simp: timer_insert_def dest: set_takeWhileD set_dropWhileD)
  show "sorted (map snd (timer_insert tp e aq))" if "sorted (map snd aq)"
    using that by (induction aq) (auto simp: timer_insert_def dest: set_takeWhileD set_dropWhileD)
qed

section \<open>Refinement\<close>

lemma clr_walk_rel:
  assumes rel: "chain (tmem q) (tmrs q) (map fst aq)" and d: "distinct (map fst aq)"
  shows "\<exists>q'. clr_walk tp Tmrs q = Some q' \<and> chain (tmem q') (tmrs q') (map fst (timer_remove tp aq))
    \<and> (\<forall>x. tmr_exp_time (tmem q' x) = tmr_exp_time (tmem q x) \<and> tmr_func (tmem q' x) = tmr_func (tmem q x)
         \<and> tmr_arg (tmem q' x) = tmr_arg (tmem q x))"
proof (cases "tp \<in> fst ` set aq")
  case False
  then show ?thesis using clr_walk_chain [of q Tmrs "map fst aq" tp] rel by (simp add: timer_remove_absent)
next
  case True
  then obtain as t bs where aq: "aq = as @ (tp, t) # bs"
    by (metis (no_types, lifting) image_iff prod.collapse split_list)
  have out: "tp \<notin> fst ` set as" "tp \<notin> fst ` set bs" using d by (auto simp: aq)
  have tw: "takeWhile (\<lambda>x. x \<noteq> tp) (map fst aq) = map fst as"
    using out(1) takeWhile_neq [of tp "map fst as" "map fst bs"] by (simp add: aq)
  have "chain (tmem q) (deref q (link_after Tmrs (map fst as))) (tp # map fst bs)"
    using chain_tail [of q Tmrs "map fst as" "tp # map fst bs"] rel by (simp add: aq)
  then have "chain (tmem q) (tmr_next (tmem q tp)) (map fst bs)" by simp
  then have "chain (tmem (assign (link_after Tmrs (map fst as)) (tmr_next (tmem q tp)) q))
      (tmrs (assign (link_after Tmrs (map fst as)) (tmr_next (tmem q tp)) q)) (map fst as @ map fst bs)"
    using chain_assign [of q "map fst as" "tp # map fst bs"] rel d by (auto simp: aq)
  then show ?thesis
    using clr_walk_chain [of q Tmrs "map fst aq" tp] rel True tw out by (simp add: aq timer_remove_split)
qed

lemma tmrs_clrtimer_rel:
  assumes rel: "tq_rel q aq"
  shows "\<exists>q'. tmrs_clrtimer tp q = Some (q', next_time aq, next_time (timer_remove tp aq))
    \<and> tq_rel q' (timer_remove tp aq) \<and> same_timers tp q q' \<and> tmr_exp_time (tmem q' tp) = TMR_NEVER
    \<and> tmr_func (tmem q' tp) = tmr_func (tmem q tp) \<and> tmr_arg (tmem q' tp) = tmr_arg (tmem q tp)"
proof -
  define q1 where "q1 = upd_timer tp (\<lambda>x. x\<lparr>tmr_exp_time := TMR_NEVER\<rparr>) q"
  have "chain (tmem q1) (tmrs q1) (map fst aq)"
    using rel chain_keep [of "map fst aq" "tmem q1" "tmem q"] by (simp add: tq_rel_def q1_def)
  from clr_walk_rel [OF this, of tp] rel obtain q' where q': "clr_walk tp Tmrs q1 = Some q'"
    "chain (tmem q') (tmrs q') (map fst (timer_remove tp aq))"
    "\<And>x. tmr_exp_time (tmem q' x) = tmr_exp_time (tmem q1 x)" "\<And>x. tmr_func (tmem q' x) = tmr_func (tmem q1 x)"
    "\<And>x. tmr_arg (tmem q' x) = tmr_arg (tmem q1 x)"
    by (auto simp: tq_rel_def)
  have rel': "tq_rel q' (timer_remove tp aq)"
    using q'(2,3) rel timer_remove_props [where tp = tp and aq = aq] by (auto simp: tq_rel_def q1_def)
  then show ?thesis
    using q' head_time_rel [OF rel] head_time_rel [OF rel']
    by (auto simp: tmrs_clrtimer_def same_timers_def q1_def [symmetric] Let_def) (simp_all add: q1_def)
qed

lemma settimer_refines_step:
  assumes rel: "tq_rel q aq" and bq: "bq = timer_insert tp e (timer_remove tp aq)"
  shows "\<exists>q'. tmrs_settimer tp e f q = Some (q', next_time aq, next_time bq) \<and> tq_rel q' bq
    \<and> same_timers tp q q' \<and> tmr_func (tmem q' tp) = f \<and> tmr_arg (tmem q' tp) = tmr_arg (tmem q tp)"
proof -
  define rq where "rq = timer_remove tp aq"
  obtain q1 where q1: "tmrs_clrtimer tp q = Some (q1, next_time aq, next_time rq)" "tq_rel q1 rq" "same_timers tp q q1"
    "tmr_arg (tmem q1 tp) = tmr_arg (tmem q tp)"
    using tmrs_clrtimer_rel [OF rel, of tp] by (auto simp: rq_def)
  have out: "tp \<notin> fst ` set rq" by (simp add: rq_def timer_remove_props)
  define as where "as = takeWhile (\<lambda>x. snd x \<le> e) rq"
  define cs where "cs = dropWhile (\<lambda>x. snd x \<le> e) rq"
  have split_rq: "rq = as @ cs" by (simp add: as_def cs_def)
  have bq': "bq = as @ (tp, e) # cs" by (simp add: bq timer_insert_def rq_def [symmetric] as_def cs_def)
  define q2 where "q2 = upd_timer tp (\<lambda>x. x\<lparr>tmr_exp_time := e, tmr_func := f\<rparr>) q1"
  have c2: "chain (tmem q2) (deref q2 Tmrs) (map fst rq)"
    using q1(2) out by (simp add: q2_def tq_rel_def)
  have times: "tmr_exp_time (tmem q2 (fst x)) = snd x" if "x \<in> set rq" for x
    using q1(2) out that by (auto simp: q2_def tq_rel_def image_iff)
  have "takeWhile (\<lambda>x. tmr_exp_time (tmem q2 x) \<le> e) (map fst rq) = map fst as"
    using times by (auto simp: as_def takeWhile_map o_def intro!: arg_cong [where f = "map fst"] takeWhile_cong)
  with set_walk_chain [OF c2, of e] have walk: "set_walk e Tmrs q2 = Some (link_after Tmrs (map fst as))" by simp
  have tail: "chain (tmem q2) (deref q2 (link_after Tmrs (map fst as))) (map fst cs)"
    using chain_tail [of q2 Tmrs "map fst as" "map fst cs"] c2 by (simp add: split_rq)
  define q3 where "q3 = upd_timer tp (\<lambda>x. x\<lparr>tmr_next := deref q2 (link_after Tmrs (map fst as))\<rparr>) q2"
  define q4 where "q4 = assign (link_after Tmrs (map fst as)) (Some tp) q3"
  have d: "distinct (map fst as @ tp # map fst cs)" using q1(2) out by (auto simp: tq_rel_def split_rq)
  have "chain (tmem q3) (tmrs q3) (map fst as @ map fst cs)" using c2 d by (simp add: q3_def split_rq image_Un)
  moreover have "chain (tmem q3) (Some tp) (tp # map fst cs)" using tail d by (simp add: q3_def)
  ultimately have "chain (tmem q4) (tmrs q4) (map fst as @ tp # map fst cs)"
    unfolding q4_def using d by (rule chain_assign)
  moreover have t4: "tmr_exp_time (tmem q4 x) = tmr_exp_time (tmem q2 x)" for x by (simp add: q4_def q3_def)
  moreover have "\<forall>x \<in> set bq. tmr_exp_time (tmem q4 (fst x)) = snd x"
    using times t4 by (auto simp: bq' split_rq) (simp add: q2_def)
  moreover have "sorted (map snd bq)"
    using q1(2) timer_insert_props(3) [of rq tp e] by (simp add: bq rq_def tq_rel_def)
  ultimately have rel4: "tq_rel q4 bq" using d by (simp add: tq_rel_def bq')
  have "tmrs_settimer tp e f q = Some (q4, next_time aq, next_time bq)"
    using q1(1) walk head_time_rel [OF rel] head_time_rel [OF rel4]
    by (simp add: tmrs_settimer_def q2_def [symmetric] q3_def [symmetric] q4_def [symmetric] Let_def)
  moreover have "same_timers tp q q4"
    using q1(3) by (simp add: same_timers_def q4_def q3_def q2_def)
  ultimately show ?thesis using rel4 q1(4) by (simp add: q4_def q3_def q2_def)
qed

text \<open>C35: \<open>tmrs_settimer\<close> refines insertion into a sorted list: whether the timer was queued or
  not, the call returns, the chain afterwards holds the other timers in their order and this one once,
  behind those that expire no later and before the others; it gives the old and the new time of the
  head and leaves the time, function and argument of every other timer alone.\<close>

theorem settimer_refines:
  assumes rel: "tq_rel q aq" and bq: "bq = timer_insert tp e (timer_remove tp aq)"
  shows "\<exists>q'. tmrs_settimer tp e f q = Some (q', next_time aq, next_time bq) \<and> tq_rel q' bq
    \<and> same_timers tp q q' \<and> tmr_func (tmem q' tp) = f \<and> tmr_arg (tmem q' tp) = tmr_arg (tmem q tp)"
  using assms by (rule settimer_refines_step)

text \<open>Two queued timers, at 10 and at 20.\<close>

definition tq_two :: tqueue where
  "tq_two = \<lparr>tmrs = Some 1, tmem = (\<lambda>a. if a = 1 then \<lparr>tmr_next = Some 2, tmr_exp_time = 10, tmr_func = 7, tmr_arg = 5\<rparr>
     else \<lparr>tmr_next = None, tmr_exp_time = 20, tmr_func = 7, tmr_arg = 6\<rparr>)\<rparr>"

lemma tq_two_rel: "tq_rel tq_two [(1, 10), (2, 20)]"
  by (simp add: tq_rel_def tq_two_def)

theorem settimer_refines_witness:
  "\<exists>q'. tmrs_settimer 1 30 8 tq_two = Some (q', 10, 20) \<and> tq_rel q' [(2, 20), (1, 30)]"
  using settimer_refines [OF tq_two_rel refl, of 1 30 8]
  by (auto simp: timer_insert_def timer_remove_def next_time_def)

section \<open>Expiration\<close>

lemma tq_rel_pop:
  assumes "tq_rel q (x # xs)"
  shows "tq_rel (upd_timer (fst x) (\<lambda>y. y\<lparr>tmr_exp_time := TMR_NEVER\<rparr>) (q\<lparr>tmrs := tmr_next (tmem q (fst x))\<rparr>)) xs"
proof -
  have "fst x \<notin> fst ` set xs" using assms by (simp add: tq_rel_def)
  then have "fst y \<noteq> fst x" if "y \<in> set xs" for y using that by (metis imageI)
  then show ?thesis using assms by (simp add: tq_rel_def)
qed

text \<open>The contract of the watchdogs of a queue: a watchdog returns, leaves a queue behind, and does
  not add a timer that has already expired.\<close>

locale watchdog =
  fixes run :: "int \<Rightarrow> taddr \<Rightarrow> tqueue \<times> 'w \<Rightarrow> (tqueue \<times> 'w) option" and now :: molclock
  assumes run_ok: "tq_rel q aq \<Longrightarrow> \<exists>q' w' aq'. run f tp (q, w) = Some (q', w') \<and> tq_rel q' aq'
    \<and> length (filter (\<lambda>x. snd x \<le> now) aq') \<le> length (filter (\<lambda>x. snd x \<le> now) aq)"
begin

lemma exp_walk_returns:
  "tq_rel q aq \<Longrightarrow> \<exists>q' w' aq'. exp_walk run now (q, w) = Some (q', w') \<and> tq_rel q' aq' \<and> (\<forall>x \<in> set aq'. now < snd x)"
proof (induction "length (filter (\<lambda>x. snd x \<le> now) aq)" arbitrary: q w aq rule: less_induct)
  case less
  show ?case
  proof (cases aq)
    case Nil
    then show ?thesis using less.prems by (auto simp: exp_walk.simps [of run] tq_rel_def intro!: exI [of _ "[]"])
  next
    case (Cons x xs)
    show ?thesis
    proof (cases "snd x \<le> now")
      case False
      have "now < snd y" if "y \<in> set aq" for y
        using less.prems False that by (auto simp: Cons tq_rel_def)
      moreover have "exp_walk run now (q, w) = Some (q, w)"
        using less.prems False by (simp add: exp_walk.simps [of run] Cons tq_rel_def)
      ultimately show ?thesis using less.prems by blast
    next
      case True
      define q2 where "q2 = upd_timer (fst x) (\<lambda>y. y\<lparr>tmr_exp_time := TMR_NEVER\<rparr>) (q\<lparr>tmrs := tmr_next (tmem q (fst x))\<rparr>)"
      have hd: "tmrs q = Some (fst x)" "tmr_exp_time (tmem q (fst x)) = snd x"
        using less.prems by (simp_all add: Cons tq_rel_def)
      have "tq_rel q2 xs" using less.prems unfolding Cons q2_def by (rule tq_rel_pop)
      moreover have fn: "tmr_func (tmem q2 (fst x)) = tmr_func (tmem q (fst x))" by (simp add: q2_def)
      ultimately obtain q' w' aq' where r: "run (tmr_func (tmem q2 (fst x))) (fst x) (q2, w) = Some (q', w')" "tq_rel q' aq'"
        "length (filter (\<lambda>x. snd x \<le> now) aq') \<le> length (filter (\<lambda>x. snd x \<le> now) xs)"
        using run_ok by blast
      have "exp_walk run now (q, w) = exp_walk run now (q', w')"
        using hd r(1)[unfolded fn] True by (subst exp_walk.simps) (simp add: q2_def [symmetric] Let_def)
      moreover have "length (filter (\<lambda>x. snd x \<le> now) aq') < length (filter (\<lambda>x. snd x \<le> now) aq)"
        using r(3) True by (simp add: Cons)
      ultimately show ?thesis using less.hyps [OF _ r(2), of w'] by simp
    qed
  qed
qed

end

text \<open>A watchdog that only works on the client's own state, from its function and argument.\<close>

locale passive_watchdog =
  fixes run :: "int \<Rightarrow> taddr \<Rightarrow> tqueue \<times> 'w \<Rightarrow> (tqueue \<times> 'w) option" and act :: "int \<Rightarrow> int \<Rightarrow> 'w \<Rightarrow> 'w"
  assumes run_act: "run f tp (q, w) = Some (q, act f (tmr_arg (tmem q tp)) w)"

sublocale passive_watchdog \<subseteq> watchdog run now for now
  by unfold_locales (auto simp: run_act)

context passive_watchdog
begin

lemma exp_walk_runs:
  "tq_rel q aq \<Longrightarrow> \<exists>q'. exp_walk run now (q, w) = Some (q',
      fold (\<lambda>x. act (tmr_func (tmem q (fst x))) (tmr_arg (tmem q (fst x)))) (takeWhile (\<lambda>x. snd x \<le> now) aq) w)
    \<and> tq_rel q' (dropWhile (\<lambda>x. snd x \<le> now) aq)
    \<and> (\<forall>x \<in> set (takeWhile (\<lambda>x. snd x \<le> now) aq). tmr_exp_time (tmem q' (fst x)) = TMR_NEVER)
    \<and> (\<forall>a. tmr_func (tmem q' a) = tmr_func (tmem q a) \<and> tmr_arg (tmem q' a) = tmr_arg (tmem q a)
         \<and> (a \<notin> fst ` set (takeWhile (\<lambda>x. snd x \<le> now) aq) \<longrightarrow> tmr_exp_time (tmem q' a) = tmr_exp_time (tmem q a)))"
proof (induction aq arbitrary: q w)
  case Nil
  then show ?case by (auto simp: exp_walk.simps [of run] tq_rel_def)
next
  case (Cons x xs)
  show ?case
  proof (cases "snd x \<le> now")
    case False
    then show ?thesis using Cons.prems by (auto simp: exp_walk.simps [of run] tq_rel_def)
  next
    case True
    define q2 where "q2 = upd_timer (fst x) (\<lambda>y. y\<lparr>tmr_exp_time := TMR_NEVER\<rparr>) (q\<lparr>tmrs := tmr_next (tmem q (fst x))\<rparr>)"
    have hd: "tmrs q = Some (fst x)" "tmr_exp_time (tmem q (fst x)) = snd x"
      using Cons.prems by (simp_all add: tq_rel_def)
    have rel: "tq_rel q2 xs" using Cons.prems unfolding q2_def by (rule tq_rel_pop)
    have same: "tmr_func (tmem q2 a) = tmr_func (tmem q a)" "tmr_arg (tmem q2 a) = tmr_arg (tmem q a)" for a
      by (simp_all add: q2_def)
    have never: "tmr_exp_time (tmem q2 (fst x)) = TMR_NEVER" by (simp add: q2_def)
    have other: "tmr_exp_time (tmem q2 a) = tmr_exp_time (tmem q a)" if "a \<noteq> fst x" for a using that by (simp add: q2_def)
    have x: "fst x \<notin> fst ` set (takeWhile (\<lambda>x. snd x \<le> now) xs)"
      using Cons.prems by (auto simp: tq_rel_def dest: set_takeWhileD)
    have "exp_walk run now (q, w) = exp_walk run now (q2, act (tmr_func (tmem q (fst x))) (tmr_arg (tmem q (fst x))) w)"
      using hd True by (subst exp_walk.simps) (simp add: q2_def [symmetric] Let_def run_act same)
    with Cons.IH [OF rel, of "act (tmr_func (tmem q (fst x))) (tmr_arg (tmem q (fst x))) w"] True x
    show ?thesis by (auto simp: same never other)
  qed
qed

end

section \<open>The library's promises\<close>

text \<open>C36: \<open>tmrs_exptimers\<close> returns and leaves no expired timer queued, whatever its watchdogs do to
  the queue, as long as each watchdog returns, leaves a proper queue and adds no timer that has
  already expired.\<close>

theorem exptimers_returns:
  assumes rel: "tq_rel q aq"
    and run: "\<And>q aq f tp w. tq_rel q aq \<Longrightarrow> \<exists>q' w' aq'. run f tp (q, w) = Some (q', w') \<and> tq_rel q' aq'
      \<and> length (filter (\<lambda>x. snd x \<le> now) aq') \<le> length (filter (\<lambda>x. snd x \<le> now) aq)"
  shows "\<exists>q' w' aq'. tmrs_exptimers run now (q, w) = Some (q', w', next_time aq') \<and> tq_rel q' aq'
    \<and> (\<forall>x \<in> set aq'. now < snd x)"
proof -
  have "watchdog run now" by unfold_locales (rule run)
  from watchdog.exp_walk_returns [OF this rel, of w] show ?thesis
    by (auto simp: tmrs_exptimers_def head_time_rel)
qed

text \<open>A watchdog that cancels another timer keeps the contract: here timer 1 cancels timer 2.\<close>

definition cancel_two :: "int \<Rightarrow> taddr \<Rightarrow> tqueue \<times> unit \<Rightarrow> (tqueue \<times> unit) option" where
  "cancel_two f tp qw = (case tmrs_clrtimer 2 (fst qw) of None \<Rightarrow> None | Some (q, _, _) \<Rightarrow> Some (q, snd qw))"

theorem exptimers_returns_witness:
  "\<exists>q' aq'. tmrs_exptimers cancel_two 15 (tq_two, ()) = Some (q', (), next_time aq') \<and> tq_rel q' aq'
    \<and> (\<forall>x \<in> set aq'. 15 < snd x)"
proof -
  have "\<exists>q' w' aq'. cancel_two f tp (q, w) = Some (q', w') \<and> tq_rel q' aq'
      \<and> length (filter (\<lambda>x. snd x \<le> 15) aq') \<le> length (filter (\<lambda>x. snd x \<le> 15) aq)" if rel: "tq_rel q aq" for q aq f tp w
  proof -
    have "length (filter (\<lambda>x. snd x \<le> 15) (timer_remove 2 aq)) \<le> length (filter (\<lambda>x. snd x \<le> 15) aq)"
      by (induction aq) (auto simp: timer_remove_def)
    then show ?thesis using tmrs_clrtimer_rel [OF rel, of 2] by (auto simp: cancel_two_def)
  qed
  from exptimers_returns [where run = cancel_two and now = 15 and w = "()", OF tq_two_rel this] show ?thesis by simp
qed

end
