(* ===== verification/Clock.thy ===== *)
theory Clock
  imports Timers
begin

text \<open>
  The CLOCK functions of SYSTASK (\<open>src/tasks/systask/clock.c\<close>) and the synchronous alarms of
  \<open>do_setalarm.c\<close>.  The alarm timers of the processes, one in each entry of the privileges table, are
  in one timer queue; the Linux interval timer \<open>ITIMER_REAL\<close> drives \<open>clock_handler\<close>, which notifies the
  processes whose alarm expired and programs the interval timer again.  Linux is a parameter: the
  monotonic clock, what \<open>getitimer\<close> and \<open>setitimer\<close> return (0 or an error number), the results of
  \<open>sigaction\<close> and \<open>sysconf\<close>, and what
  \<open>mnx_getpriv\<close> leaves in the alarm timer of the local privileges table.  The handler does not
  interrupt a request in the middle in this model.
\<close>

section \<open>The state\<close>

record timeval =
  tv_sec :: int
  tv_usec :: int

record itimerval =
  it_interval :: timeval
  it_value :: timeval

record clock_st =
  clock_timers :: tqueue
  realtime :: molclock
  next_timeout :: molclock
  clockTicks :: int
  init_time :: molclock
  itimer :: itimerval
  notified :: "int list"

record clock_env =
  ce_getitimer :: int
  ce_setitimer :: "itimerval \<Rightarrow> int"
  ce_sigaction :: int
  ce_clk_tck :: int
  ce_errno :: int

record timespec =
  ts_sec :: int
  ts_nsec :: int

definition INTERVAL_SECS :: int where
  "INTERVAL_SECS = 1"

definition INTERVAL_USECS :: int where
  "INTERVAL_USECS = 0"

section \<open>The interval timer\<close>

definition set_shot :: "clock_env \<Rightarrow> timeval \<Rightarrow> clock_st \<Rightarrow> clock_st \<times> int" where
  "set_shot E p st =
    (if ce_getitimer E \<noteq> 0 then (st, ce_getitimer E)
     else let new_itv = \<lparr>it_interval = \<lparr>tv_sec = 0, tv_usec = 0\<rparr>, it_value = p\<rparr> in
       if ce_setitimer E new_itv \<noteq> 0 then (st, ce_setitimer E new_itv)
       else (st\<lparr>itimer := new_itv\<rparr>, 0))"

definition set_interval :: "clock_env \<Rightarrow> timeval \<Rightarrow> clock_st \<Rightarrow> clock_st \<times> int" where
  "set_interval E p st =
    (let new_itv = \<lparr>it_interval = p, it_value = p\<rparr> in
     if ce_setitimer E new_itv \<noteq> 0 then (st, ce_setitimer E new_itv)
     else (st\<lparr>itimer := new_itv\<rparr>, 0))"

definition get_uptime :: "int \<Rightarrow> timespec \<Rightarrow> molclock" where
  "get_uptime ct t = (let td = 1000000000 div ct; tt = ts_nsec t div td in word_of_int (tt + ts_sec t * ct))"

definition set_clock_handler :: "clock_env \<Rightarrow> timeval \<Rightarrow> clock_st \<Rightarrow> clock_st \<times> int" where
  "set_clock_handler E p st = (if ce_sigaction E = - 1 then (st, ce_sigaction E) else set_interval E p st)"

definition init_clock :: "clock_env \<Rightarrow> timespec \<Rightarrow> clock_st \<Rightarrow> clock_st \<times> int" where
  "init_clock E t st =
    (let st1 = st\<lparr>realtime := 0, clockTicks := ce_clk_tck E\<rparr> in
     if clockTicks st1 = - 1 then (st1, ce_errno E)
     else
      let st2 = st1\<lparr>next_timeout := TMR_NEVER, init_time := get_uptime (clockTicks st1) t\<rparr>
      in (fst (set_clock_handler E \<lparr>tv_sec = INTERVAL_SECS, tv_usec = INTERVAL_USECS\<rparr> st2), 0))"

section \<open>The alarm queue\<close>

text \<open>\<open>do_setalarm\<close> is the only function that puts a timer into this queue, always with
  \<open>cause_alarm\<close>, so the indirect call of a watchdog is a call of \<open>cause_alarm\<close>: it notifies the
  process named by the timer's argument.\<close>

definition CAUSE_ALARM :: int where
  "CAUSE_ALARM = 1"

definition cause_alarm :: "int \<Rightarrow> taddr \<Rightarrow> tqueue \<times> int list \<Rightarrow> (tqueue \<times> int list) option" where
  "cause_alarm f tp qw = Some (fst qw, snd qw @ [tmr_arg (tmem (fst qw) tp)])"

definition set_timer :: "taddr \<Rightarrow> molclock \<Rightarrow> int \<Rightarrow> clock_st \<Rightarrow> clock_st option" where
  "set_timer tp exp_time fn st =
    (case tmrs_settimer tp exp_time fn (clock_timers st) of None \<Rightarrow> None
     | Some (q, _, _) \<Rightarrow> Some (st\<lparr>clock_timers := q, next_timeout := head_time q\<rparr>))"

definition front_timeout :: "tqueue \<Rightarrow> molclock" where
  "front_timeout q = (case tmrs q of None \<Rightarrow> TMR_NEVER | Some a \<Rightarrow> tmr_exp_time (tmem q a))"

definition reset_timer :: "taddr \<Rightarrow> clock_st \<Rightarrow> clock_st option" where
  "reset_timer tp st =
    (case tmrs_clrtimer tp (clock_timers st) of None \<Rightarrow> None
     | Some (q, _, _) \<Rightarrow> Some (st\<lparr>clock_timers := q, next_timeout := front_timeout q\<rparr>))"

section \<open>The handler\<close>

text \<open>Is the next timeout less than one interval away?\<close>

definition due_soon :: "clock_st \<Rightarrow> bool" where
  "due_soon st \<longleftrightarrow> 0 < next_timeout st - realtime st
     \<and> next_timeout st - realtime st < word_of_int (INTERVAL_SECS * clockTicks st)"

definition clock_handler :: "clock_env \<Rightarrow> timespec \<Rightarrow> clock_st \<Rightarrow> clock_st option" where
  "clock_handler E t st =
    (let st1 = st\<lparr>realtime := get_uptime (clockTicks st) t\<rparr>; ct = word_of_int (clockTicks st) in
     if due_soon st1 then
       let delta_sec = next_timeout st1 - realtime st1;
           delta_usec = (delta_sec mod ct) * 1000 div ct
       in Some (fst (set_shot E \<lparr>tv_sec = sint (delta_sec div ct), tv_usec = sint (delta_usec * 1000)\<rparr> st1))
     else if next_timeout st1 > realtime st1 then Some st1
     else
       case tmrs_exptimers cause_alarm (realtime st1) (clock_timers st1, notified st1) of None \<Rightarrow> None
       | Some (q, w, _) \<Rightarrow>
         let st2 = st1\<lparr>clock_timers := q, notified := w, next_timeout := front_timeout q\<rparr>;
             delta = next_timeout st2 - realtime st2
         in if next_timeout st2 \<noteq> TMR_NEVER \<and> due_soon st2
            then Some (fst (set_shot E \<lparr>tv_sec = sint (delta div ct), tv_usec = sint (delta mod ct * 1000)\<rparr> st2))
            else Some (fst (set_interval E \<lparr>tv_sec = INTERVAL_SECS, tv_usec = INTERVAL_USECS\<rparr> st2)))"

section \<open>The SYS_SETALARM call\<close>

text \<open>\<open>tp\<close> is the address of the caller's alarm timer in the privileges table and \<open>(rc, k)\<close> what
  \<open>mnx_getpriv\<close> returns and leaves there; the result is the state, the return code and
  \<open>ALRM_TIME_LEFT\<close> (\<open>None\<close> when it is not set).\<close>

definition do_setalarm ::
  "timespec \<Rightarrow> int \<times> moltimer \<Rightarrow> int \<Rightarrow> taddr \<Rightarrow> int \<Rightarrow> bool \<Rightarrow> clock_st \<Rightarrow> (clock_st \<times> int \<times> int option) option" where
  "do_setalarm t getpriv who_e tp exp_time use_abs_time st =
    (let st1 = st\<lparr>clock_timers := upd_timer tp (\<lambda>_. snd getpriv) (clock_timers st)\<rparr> in
     if fst getpriv \<noteq> 0 then Some (st1, fst getpriv, None)
     else
      let st2 = st1\<lparr>clock_timers := upd_timer tp (\<lambda>x. x\<lparr>tmr_arg := who_e, tmr_func := CAUSE_ALARM\<rparr>) (clock_timers st1)\<rparr>;
          now = get_uptime (clockTicks st2) t;
          left = tmr_exp_time (tmem (clock_timers st2) tp);
          time_left = (if left \<noteq> TMR_NEVER \<and> now < left then sint (left - now) else 0)
      in if exp_time = 0 then
           case reset_timer tp st2 of None \<Rightarrow> None | Some st3 \<Rightarrow> Some (st3, 0, Some time_left)
         else
           let e = (if use_abs_time then word_of_int exp_time else word_of_int exp_time + now);
               st3 = st2\<lparr>clock_timers := upd_timer tp (\<lambda>x. x\<lparr>tmr_exp_time := e\<rparr>) (clock_timers st2)\<rparr>
           in case set_timer tp e (tmr_func (tmem (clock_timers st3) tp)) st3 of None \<Rightarrow> None
              | Some st4 \<Rightarrow> Some (st4, 0, Some time_left))"

section \<open>Alarms are notified in order\<close>

interpretation alarms: passive_watchdog cause_alarm "\<lambda>f arg w. w @ [arg]"
  by unfold_locales (simp add: cause_alarm_def)

lemma fold_snoc: "fold (\<lambda>x w. w @ [g x]) xs w = w @ map g xs"
  by (induction xs arbitrary: w) auto

lemma front_timeout_rel: "tq_rel q aq \<Longrightarrow> front_timeout q = (case aq of [] \<Rightarrow> TMR_NEVER | x # _ \<Rightarrow> snd x)"
  by (cases aq) (auto simp: tq_rel_def front_timeout_def)

lemma get_shot [simp]: "clock_timers (fst (set_shot E p st)) = clock_timers st" "notified (fst (set_shot E p st)) = notified st"
  "next_timeout (fst (set_shot E p st)) = next_timeout st" "realtime (fst (set_shot E p st)) = realtime st"
  "clockTicks (fst (set_shot E p st)) = clockTicks st"
  by (simp_all add: set_shot_def Let_def)

lemma get_interval [simp]: "clock_timers (fst (set_interval E p st)) = clock_timers st"
  "notified (fst (set_interval E p st)) = notified st" "next_timeout (fst (set_interval E p st)) = next_timeout st"
  "realtime (fst (set_interval E p st)) = realtime st" "clockTicks (fst (set_interval E p st)) = clockTicks st"
  by (simp_all add: set_interval_def Let_def)

text \<open>How long an interval timer value is, and what the documentation of \<open>setitimer\<close> promises.\<close>

definition usecs :: "timeval \<Rightarrow> int" where
  "usecs v = tv_sec v * 1000000 + tv_usec v"

definition itimer_works :: "clock_env \<Rightarrow> bool" where
  "itimer_works E \<longleftrightarrow> ce_getitimer E = 0 \<and> (\<forall>v. 0 \<le> tv_sec (it_value v) \<and> 0 \<le> tv_usec (it_value v) \<and> tv_usec (it_value v) < 1000000
     \<and> 0 \<le> tv_sec (it_interval v) \<and> 0 \<le> tv_usec (it_interval v) \<and> tv_usec (it_interval v) < 1000000 \<longrightarrow> ce_setitimer E v = 0)"

lemma sint_small: "uint (w :: molclock) < 2147483648 \<Longrightarrow> sint w = uint w"
  by (simp add: sint_uint signed_take_bit_eq_if_positive bit_iff_odd take_bit_int_eq_self)

lemma div_times_le: "0 < (c :: int) \<Longrightarrow> n div c * c \<le> n"
  using div_mult_mod_eq [of n c] pos_mod_sign [of c n] by linarith

lemma shot_ticks:
  assumes d: "(d :: molclock) < word_of_int ct" and ct: "0 < ct" "ct \<le> 1000"
  shows "d div word_of_int ct = 0" "uint d < ct" "uint (d mod word_of_int ct * 1000) = uint d * 1000"
    "uint ((d mod word_of_int ct) * 1000 div word_of_int ct * 1000) = uint d * 1000 div ct * 1000"
proof -
  have c: "uint (word_of_int ct :: molclock) = ct" using ct by (simp add: unsigned_of_int take_bit_int_eq_self)
  show lt: "uint d < ct" using d c by (simp add: word_less_def)
  then show "d div word_of_int ct = 0" using c by (simp add: word_uint_eq_iff uint_div)
  have m: "d mod word_of_int ct = d" using d lt c by (simp add: word_uint_eq_iff uint_mod)
  have b: "uint d * 1000 < 2 ^ 32" using lt ct by simp
  show u: "uint (d mod word_of_int ct * 1000) = uint d * 1000"
    unfolding m using b by (simp add: uint_word_ariths)
  have "uint d * 1000 div ct * ct < 1000 * ct" using div_times_le [OF ct(1), of "uint d * 1000"] lt by linarith
  then have "uint d * 1000 div ct < 1000" using ct(1) by simp
  moreover have "0 \<le> uint d * 1000 div ct" using ct(1) by (simp add: pos_imp_zdiv_nonneg_iff)
  ultimately show "uint ((d mod word_of_int ct) * 1000 div word_of_int ct * 1000) = uint d * 1000 div ct * 1000"
    using u ct c by (simp add: uint_word_ariths uint_div)
qed

lemma uint_ticks: "0 < ct \<Longrightarrow> ct \<le> 1000 \<Longrightarrow> uint (word_of_int ct :: molclock) = ct"
  by (simp add: unsigned_of_int take_bit_int_eq_self)

lemma due_past:
  assumes "next_timeout st \<le> realtime st" "realtime st < 2147483648" "0 < clockTicks st" "clockTicks st \<le> 1000"
  shows "\<not> due_soon st"
proof (cases "next_timeout st = realtime st")
  case False
  have "uint (next_timeout st) < uint (realtime st)" "uint (realtime st) < 2147483648"
    using assms False by (simp_all add: word_less_def word_le_def word_uint_eq_iff)
  then have "uint (next_timeout st - realtime st) = 4294967296 + uint (next_timeout st) - uint (realtime st)"
    by (simp add: uint_sub_if')
  moreover have "0 \<le> uint (next_timeout st)" by simp
  ultimately have "2147483648 < uint (next_timeout st - realtime st)"
    using \<open>uint (realtime st) < 2147483648\<close> by linarith
  then show ?thesis using assms uint_ticks [of "clockTicks st"] by (simp add: due_soon_def word_less_def INTERVAL_SECS_def)
qed (simp add: due_soon_def)

lemma due_ahead:
  assumes "realtime st < next_timeout st" "0 < clockTicks st" "clockTicks st \<le> 1000"
  shows "due_soon st \<longleftrightarrow> uint (next_timeout st) - uint (realtime st) < clockTicks st"
    "uint (next_timeout st - realtime st) = uint (next_timeout st) - uint (realtime st)"
proof -
  show d: "uint (next_timeout st - realtime st) = uint (next_timeout st) - uint (realtime st)"
    using assms(1) by (simp add: word_less_def uint_sub_if')
  show "due_soon st \<longleftrightarrow> uint (next_timeout st) - uint (realtime st) < clockTicks st"
    using assms d uint_ticks [of "clockTicks st"] by (simp add: due_soon_def word_less_def INTERVAL_SECS_def)
qed

text \<open>The shots both branches of the handler program are not late.\<close>

lemma shots_in_time:
  assumes "uint (d :: molclock) < ct" "0 < uint d" "0 < ct" "ct \<le> 1000" "itimer_works E"
    and a: "a = usecs (it_value (itimer (fst (set_shot E \<lparr>tv_sec = sint (d div word_of_int ct),
       tv_usec = sint (d mod word_of_int ct * 1000)\<rparr> st))))"
    and b: "b = usecs (it_value (itimer (fst (set_shot E \<lparr>tv_sec = sint (d div word_of_int ct),
       tv_usec = sint (d mod word_of_int ct * 1000 div word_of_int ct * 1000)\<rparr> st))))"
  shows "0 < a" "a * ct \<le> 1000000 * uint d" "0 < b" "b * ct \<le> 1000000 * uint d"
proof -
  have "d < word_of_int ct" using assms uint_ticks [of ct] by (simp add: word_less_def)
  note k = shot_ticks [OF this assms(3,4)]
  let ?m = "uint d * 1000 div ct"
  have le: "?m * ct \<le> uint d * 1000" by (rule div_times_le [OF assms(3)])
  have "?m * ct < 1000 * ct" using le assms(1) by linarith
  then have lt: "?m < 1000" using assms(3) by simp
  have "ct \<le> uint d * 1000" using assms(2,4) by linarith
  then have pos: "0 < ?m" using assms(3) by (simp add: pos_imp_zdiv_pos_iff)
  have small: "uint (d mod word_of_int ct * 1000) < 2147483648"
    "uint (d mod word_of_int ct * 1000 div word_of_int ct * 1000) < 2147483648"
    unfolding k(3,4) using assms(1,4) lt by linarith+
  have "sint (d mod word_of_int ct * 1000) = uint d * 1000"
    "sint (d mod word_of_int ct * 1000 div word_of_int ct * 1000) = ?m * 1000"
    unfolding sint_small [OF small(1)] sint_small [OF small(2)] by (simp_all only: k)
  then have "a = uint d * 1000" "b = ?m * 1000"
    unfolding a b k(1) using assms(1,4,5) lt pos
    by (simp_all add: set_shot_def itimer_works_def usecs_def)
  moreover have "uint d * 1000 * ct \<le> uint d * 1000 * 1000" using assms by (intro mult_left_mono) auto
  ultimately show "0 < a" "a * ct \<le> 1000000 * uint d" "0 < b" "b * ct \<le> 1000000 * uint d"
    using assms(2) pos le by (simp_all add: mult.commute)
qed

text \<open>When the clock reaches the next timeout, \<open>clock_handler\<close> notifies exactly the processes whose alarm has
  expired, in the order of their times, takes their timers off the queue and keeps the others;
  \<open>next_timeout\<close> is the time of the new head, or TMR_NEVER; and the interval timer is
  running again and fires no later than the next alarm is due.\<close>

theorem clock_handler_notifies:
  assumes rel: "tq_rel (clock_timers st) aq" and now: "now = get_uptime (clockTicks st) t" "now < 2147483648"
    and due: "next_timeout st \<le> now" and ct: "0 < clockTicks st" "clockTicks st \<le> 1000" and os: "itimer_works E"
    and rest: "rest = dropWhile (\<lambda>x. snd x \<le> now) aq"
  shows "\<exists>st'. clock_handler E t st = Some st'
    \<and> notified st' = notified st @ map (\<lambda>x. tmr_arg (tmem (clock_timers st) (fst x))) (takeWhile (\<lambda>x. snd x \<le> now) aq)
    \<and> tq_rel (clock_timers st') rest
    \<and> next_timeout st' = (case rest of [] \<Rightarrow> TMR_NEVER | x # _ \<Rightarrow> snd x)
    \<and> 0 < usecs (it_value (itimer st'))
    \<and> (rest \<noteq> [] \<and> snd (hd rest) \<noteq> TMR_NEVER \<longrightarrow>
         usecs (it_value (itimer st')) * clockTicks st \<le> 1000000 * (uint (snd (hd rest)) - uint now))"
proof -
  define st1 where "st1 = st\<lparr>realtime := now\<rparr>"
  have past: "\<not> due_soon st1" "\<not> next_timeout st1 > realtime st1"
    using due_past [of st1] due now ct by (simp_all add: st1_def)
  obtain q w where q: "exp_walk cause_alarm now (clock_timers st, notified st) = Some (q, w)" "tq_rel q rest"
    "w = notified st @ map (\<lambda>x. tmr_arg (tmem (clock_timers st) (fst x))) (takeWhile (\<lambda>x. snd x \<le> now) aq)"
    using alarms.exp_walk_runs [OF rel, of now "notified st"] by (auto simp: rest fold_snoc)
  define st2 where "st2 = st1\<lparr>clock_timers := q, notified := w, next_timeout := front_timeout q\<rparr>"
  have nt: "next_timeout st2 = (case rest of [] \<Rightarrow> TMR_NEVER | x # _ \<Rightarrow> snd x)"
    using front_timeout_rel [OF q(2)] by (simp add: st2_def)
  have ahead: "now < snd (hd rest)" if "rest \<noteq> []"
    using that hd_dropWhile [of "\<lambda>x. snd x \<le> now" aq] by (simp add: rest)
  let ?d = "next_timeout st2 - realtime st2" and ?c = "word_of_int (clockTicks st)"
  let ?p = "\<lparr>tv_sec = sint (?d div ?c), tv_usec = sint (?d mod ?c * 1000)\<rparr>"
  define st' where "st' = (if next_timeout st2 \<noteq> TMR_NEVER \<and> due_soon st2 then fst (set_shot E ?p st2)
    else fst (set_interval E \<lparr>tv_sec = INTERVAL_SECS, tv_usec = INTERVAL_USECS\<rparr> st2))"
  have run: "clock_handler E t st = Some st'"
    using past q(1) now(1)
    by (simp add: clock_handler_def tmrs_exptimers_def st1_def st2_def st'_def Let_def)
  have s2: "realtime st2 = now" "clockTicks st2 = clockTicks st" by (simp_all add: st2_def st1_def)
  have armed: "0 < usecs (it_value (itimer st'))
    \<and> (rest \<noteq> [] \<and> snd (hd rest) \<noteq> TMR_NEVER \<longrightarrow>
         usecs (it_value (itimer st')) * clockTicks st \<le> 1000000 * (uint (snd (hd rest)) - uint now))"
  proof (cases "next_timeout st2 \<noteq> TMR_NEVER \<and> due_soon st2")
    case True
    then have r: "rest \<noteq> []" "next_timeout st2 = snd (hd rest)" using nt by (auto split: list.splits)
    then have "realtime st2 < next_timeout st2" using ahead s2 by simp
    note d = due_ahead [of st2, OF this, unfolded s2, OF ct]
    have "uint (next_timeout st2 - now) < clockTicks st" "0 < uint (next_timeout st2 - now)"
      using True d ahead r by (simp_all add: word_less_def)
    from shots_in_time [OF this ct os refl refl, of st2] True d r s2 show ?thesis by (simp add: st'_def)
  next
    case False
    then have "st' = fst (set_interval E \<lparr>tv_sec = INTERVAL_SECS, tv_usec = INTERVAL_USECS\<rparr> st2)"
      unfolding st'_def by (rule if_not_P)
    then have "usecs (it_value (itimer st')) = 1000000"
      using os by (simp add: set_interval_def itimer_works_def usecs_def INTERVAL_SECS_def INTERVAL_USECS_def)
    moreover have "clockTicks st \<le> uint (snd (hd rest)) - uint now" if "rest \<noteq> []" "snd (hd rest) \<noteq> TMR_NEVER"
    proof -
      have n: "next_timeout st2 = snd (hd rest)" using nt that(1) by (auto split: list.splits)
      then have "realtime st2 < next_timeout st2" using ahead that(1) s2 by simp
      from due_ahead [of st2, OF this, unfolded s2, OF ct] show ?thesis using False n that(2) by simp
    qed
    ultimately show ?thesis by (auto simp: algebra_simps) 
  qed
  have "notified st' = w" "clock_timers st' = q" "next_timeout st' = next_timeout st2"
    by (simp_all add: st'_def) (simp_all add: st2_def)
  then show ?thesis using run armed q(2,3) nt by simp
qed

text \<open>Three alarms at 40, 90 and 250 with 100 ticks a second; the clock reads 95.\<close>

definition clk_queue :: tqueue where
  "clk_queue = \<lparr>tmrs = Some 1, tmem = (\<lambda>a.
     if a = 1 then \<lparr>tmr_next = Some 2, tmr_exp_time = 40, tmr_func = CAUSE_ALARM, tmr_arg = 5\<rparr>
     else if a = 2 then \<lparr>tmr_next = Some 3, tmr_exp_time = 90, tmr_func = CAUSE_ALARM, tmr_arg = 6\<rparr>
     else \<lparr>tmr_next = None, tmr_exp_time = 250, tmr_func = CAUSE_ALARM, tmr_arg = 7\<rparr>)\<rparr>"

definition clk_os :: clock_env where
  "clk_os = \<lparr>ce_getitimer = 0, ce_setitimer = (\<lambda>_. 0), ce_sigaction = 0, ce_clk_tck = 100, ce_errno = 0\<rparr>"

definition clk_second :: timeval where
  "clk_second = \<lparr>tv_sec = 1, tv_usec = 0\<rparr>"

definition clk_st :: clock_st where
  "clk_st = \<lparr>clock_timers = clk_queue, realtime = 0, next_timeout = 40, clockTicks = 100, init_time = 0,
     itimer = \<lparr>it_interval = clk_second, it_value = clk_second\<rparr>, notified = []\<rparr>"

lemma clk_queue_rel: "tq_rel clk_queue [(1, 40), (2, 90), (3, 250)]"
  by (simp add: tq_rel_def clk_queue_def)

lemma clk_uptime: "get_uptime 100 \<lparr>ts_sec = 0, ts_nsec = 950000000\<rparr> = 95"
  by (simp add: get_uptime_def)

theorem clock_handler_notifies_witness:
  "\<exists>st'. clock_handler clk_os \<lparr>ts_sec = 0, ts_nsec = 950000000\<rparr> clk_st = Some st'
    \<and> notified st' = [5, 6] \<and> tq_rel (clock_timers st') [(3, 250)] \<and> next_timeout st' = 250"
proof -
  have "tq_rel (clock_timers clk_st) [(1, 40), (2, 90), (3, 250)]" "95 = get_uptime (clockTicks clk_st) \<lparr>ts_sec = 0, ts_nsec = 950000000\<rparr>"
    "(95 :: molclock) < 2147483648" "next_timeout clk_st \<le> 95" "0 < clockTicks clk_st" "clockTicks clk_st \<le> 1000"
    "itimer_works clk_os" "notified clk_st = []" "clock_timers clk_st = clk_queue"
    using clk_queue_rel by (simp_all add: clk_st_def clk_uptime itimer_works_def clk_os_def)
  from clock_handler_notifies [OF this(1-7) refl] this(8,9) show ?thesis
    by (auto simp: clk_queue_def)
qed

section \<open>Setting an alarm\<close>

lemma set_timer_rel:
  assumes "tq_rel (clock_timers st) aq" "bq = timer_insert tp e (timer_remove tp aq)"
  shows "\<exists>q. set_timer tp e f st = Some (st\<lparr>clock_timers := q, next_timeout := next_time bq\<rparr>) \<and> tq_rel q bq
    \<and> tmr_arg (tmem q tp) = tmr_arg (tmem (clock_timers st) tp)"
  using settimer_refines_step [OF assms, of f] by (auto simp: set_timer_def head_time_rel)

text \<open>The state in which \<open>do_setalarm\<close> calls \<open>set_timer\<close>.\<close>

definition alarm_entry :: "moltimer \<Rightarrow> int \<Rightarrow> molclock \<Rightarrow> moltimer" where
  "alarm_entry k who_e e = k\<lparr>tmr_arg := who_e, tmr_func := CAUSE_ALARM, tmr_exp_time := e\<rparr>"

lemma do_setalarm_run:
  assumes "exp_time \<noteq> 0" "e = (if ab then word_of_int exp_time else word_of_int exp_time + get_uptime (clockTicks st) t)"
  shows "do_setalarm t (0, k) who_e tp exp_time ab st =
    (case set_timer tp e CAUSE_ALARM (st\<lparr>clock_timers := upd_timer tp (\<lambda>_. alarm_entry k who_e e) (clock_timers st)\<rparr>) of
       None \<Rightarrow> None
     | Some st' \<Rightarrow> Some (st', 0, Some (if tmr_exp_time k \<noteq> TMR_NEVER \<and> get_uptime (clockTicks st) t < tmr_exp_time k
         then sint (tmr_exp_time k - get_uptime (clockTicks st) t) else 0)))"
  using assms by (auto simp: do_setalarm_def alarm_entry_def upd_timer_def Let_def split: option.split)

text \<open>A process that has no alarm pending and asks for one gets it: \<open>do_setalarm\<close> puts its timer
  into the queue at the requested time, behind the alarms that expire no later, with the
  process as argument; the other alarms stay, and \<open>next_timeout\<close> is the time of the first.\<close>

theorem setalarm_queues:
  assumes rel: "tq_rel (clock_timers st) aq" and new: "tp \<notin> fst ` set aq" and t: "exp_time \<noteq> 0"
    and e: "e = (if ab then word_of_int exp_time else word_of_int exp_time + get_uptime (clockTicks st) t)"
  shows "\<exists>st' left. do_setalarm t (0, k) who_e tp exp_time ab st = Some (st', 0, left)
    \<and> tq_rel (clock_timers st') (timer_insert tp e aq) \<and> next_timeout st' = next_time (timer_insert tp e aq)
    \<and> tmr_arg (tmem (clock_timers st') tp) = who_e \<and> notified st' = notified st \<and> itimer st' = itimer st"
proof -
  define st1 where "st1 = st\<lparr>clock_timers := upd_timer tp (\<lambda>_. alarm_entry k who_e e) (clock_timers st)\<rparr>"
  have "fst x \<noteq> tp" if "x \<in> set aq" for x using new that by (metis imageI)
  then have "tq_rel (clock_timers st1) aq" using rel new by (simp add: st1_def tq_rel_def)
  from set_timer_rel [OF this refl, of tp e CAUSE_ALARM] new show ?thesis
    unfolding do_setalarm_run [OF t e] st1_def [symmetric]
    by (auto simp: timer_remove_absent) (simp_all add: st1_def alarm_entry_def)
qed

theorem setalarm_queues_witness:
  "\<exists>st' left. do_setalarm \<lparr>ts_sec = 0, ts_nsec = 950000000\<rparr> (0, tmem clk_queue 9) 8 9 50 False clk_st = Some (st', 0, left)
    \<and> tq_rel (clock_timers st') [(1, 40), (2, 90), (9, 145), (3, 250)]"
proof -
  have "tq_rel (clock_timers clk_st) [(1, 40), (2, 90), (3, 250)]" "9 \<notin> fst ` set [(1 :: taddr, 40 :: molclock), (2, 90), (3, 250)]"
    "145 = (if False then word_of_int 50 else word_of_int 50 + get_uptime (clockTicks clk_st) \<lparr>ts_sec = 0, ts_nsec = 950000000\<rparr>)"
    using clk_queue_rel by (simp_all add: clk_st_def clk_uptime)
  from setalarm_queues [OF this(1,2) _ this(3), of "tmem clk_queue 9" 8] show ?thesis
    by (auto simp: timer_insert_def)
qed

text \<open>A process that asks again while its alarm is the next one due drops every other alarm of
  the node: \<open>do_setalarm\<close> first reads the kernel's copy of the privileges, whose timer was never
  linked, over the entry that is in the chain, and the chain ends there.\<close>

theorem rearm_drops_alarms:
  assumes rel: "tq_rel (clock_timers st) ((tp, e0) # aq)" and k: "tmr_next k = None" and t: "exp_time \<noteq> 0"
    and e: "e = (if ab then word_of_int exp_time else word_of_int exp_time + get_uptime (clockTicks st) t)"
  shows "\<exists>st' left. do_setalarm t (0, k) who_e tp exp_time ab st = Some (st', 0, left)
    \<and> tq_rel (clock_timers st') [(tp, e)]"
proof -
  define st1 where "st1 = st\<lparr>clock_timers := upd_timer tp (\<lambda>_. alarm_entry k who_e e) (clock_timers st)\<rparr>"
  have "tq_rel (clock_timers st1) [(tp, e)]" using rel k by (simp add: st1_def tq_rel_def alarm_entry_def)
  from set_timer_rel [OF this refl, of tp e CAUSE_ALARM] show ?thesis
    unfolding do_setalarm_run [OF t e] st1_def [symmetric]
    by (auto simp: timer_remove_def timer_insert_def)
qed

theorem rearm_drops_alarms_witness:
  "\<exists>st' left. do_setalarm \<lparr>ts_sec = 0, ts_nsec = 100000000\<rparr>
      (0, \<lparr>tmr_next = None, tmr_exp_time = 0, tmr_func = 0, tmr_arg = 0\<rparr>) 5 1 300 True clk_st = Some (st', 0, left)
    \<and> tq_rel (clock_timers st') [(1, 300)]"
proof -
  have "tq_rel (clock_timers clk_st) ((1, 40) # [(2, 90), (3, 250)])"
    using clk_queue_rel by (simp add: clk_st_def)
  from rearm_drops_alarms [OF this, of "\<lparr>tmr_next = None, tmr_exp_time = 0, tmr_func = 0, tmr_arg = 0\<rparr>" 300 300 True] show ?thesis by simp
qed

section \<open>The clock as a transition system\<close>

text \<open>SIGALRM comes when a running interval timer expires; Linux then loads the interval as the new
  value.\<close>

definition expired :: "clock_st \<Rightarrow> clock_st" where
  "expired st = st\<lparr>itimer := (itimer st)\<lparr>it_value := it_interval (itimer st)\<rparr>\<rparr>"

inductive clock_step :: "clock_env \<Rightarrow> clock_st \<Rightarrow> clock_st \<Rightarrow> bool" for E where
  sigalrm: "0 < usecs (it_value (itimer st)) \<Longrightarrow> clock_handler E t (expired st) = Some st' \<Longrightarrow> clock_step E st st'"
| setalarm: "do_setalarm t getpriv who_e tp exp_time ab st = Some (st', rc, left) \<Longrightarrow> clock_step E st st'"
| reset: "reset_timer tp st = Some st' \<Longrightarrow> clock_step E st st'"

lemma reset_timer_keeps: "reset_timer tp st = Some st' \<Longrightarrow> itimer st' = itimer st \<and> notified st' = notified st"
  by (auto simp: reset_timer_def split: option.splits)

lemma set_timer_keeps: "set_timer tp e f st = Some st' \<Longrightarrow> itimer st' = itimer st \<and> notified st' = notified st"
  by (auto simp: set_timer_def split: option.splits)

lemma do_setalarm_keeps:
  "do_setalarm t g who tp e ab st = Some (st', rc, left) \<Longrightarrow> itimer st' = itimer st \<and> notified st' = notified st"
  by (auto simp: do_setalarm_def Let_def split: if_splits option.splits dest!: reset_timer_keeps set_timer_keeps)

lemma stopped_forever:
  assumes "(clock_step E)\<^sup>*\<^sup>* st st'" "usecs (it_value (itimer st)) = 0"
  shows "notified st' = notified st \<and> usecs (it_value (itimer st')) = 0"
  using assms
proof (induction rule: rtranclp_induct)
  case (step y z)
  then show ?case by (auto elim!: clock_step.cases dest!: reset_timer_keeps do_setalarm_keeps)
qed simp

text \<open>The clock can stop: when a one-shot expires and finds the alarm it was set for withdrawn, so that
  the next timeout is an interval or more away, \<open>clock_handler\<close> returns without programming the interval
  timer again, and whatever alarms are set afterwards no process is notified any more.\<close>

theorem clock_stops:
  assumes shot: "it_interval (itimer st) = \<lparr>tv_sec = 0, tv_usec = 0\<rparr>" "0 < usecs (it_value (itimer st))"
    and ct: "0 < clockTicks st" "clockTicks st \<le> 1000"
    and far: "get_uptime (clockTicks st) t < next_timeout st"
      "clockTicks st \<le> uint (next_timeout st) - uint (get_uptime (clockTicks st) t)"
  shows "\<exists>st1. clock_handler E t (expired st) = Some st1 \<and> clock_step E st st1
    \<and> (\<forall>st2. (clock_step E)\<^sup>*\<^sup>* st1 st2 \<longrightarrow> notified st2 = notified st \<and> usecs (it_value (itimer st2)) = 0)"
proof -
  define st1 where "st1 = (expired st)\<lparr>realtime := get_uptime (clockTicks st) t\<rparr>"
  have "\<not> due_soon st1" "realtime st1 < next_timeout st1"
    using due_ahead(1) [of st1] ct far by (simp_all add: st1_def expired_def)
  then have run: "clock_handler E t (expired st) = Some st1"
    by (simp add: clock_handler_def st1_def expired_def)
  have "usecs (it_value (itimer st1)) = 0" "notified st1 = notified st"
    by (simp_all add: st1_def expired_def shot usecs_def)
  with stopped_forever [of E st1] run clock_step.sigalrm [OF shot(2) run] show ?thesis by auto
qed

text \<open>The alarms at 40 and 90 were withdrawn after a shot was programmed; 250 is more than a second away.\<close>

definition clk_shot :: clock_st where
  "clk_shot = clk_st\<lparr>clock_timers := clk_queue\<lparr>tmrs := Some 3\<rparr>, next_timeout := 250, itimer := \<lparr>it_interval = \<lparr>tv_sec = 0, tv_usec = 0\<rparr>, it_value = \<lparr>tv_sec = 0, tv_usec = 400000\<rparr>\<rparr>\<rparr>"

theorem clock_stops_witness:
  "\<exists>st1. clock_step clk_os clk_shot st1
    \<and> (\<forall>st2. (clock_step clk_os)\<^sup>*\<^sup>* st1 st2 \<longrightarrow> notified st2 = [])"
proof -
  have "it_interval (itimer clk_shot) = \<lparr>tv_sec = 0, tv_usec = 0\<rparr>" "0 < usecs (it_value (itimer clk_shot))"
    "0 < clockTicks clk_shot" "clockTicks clk_shot \<le> 1000"
    "get_uptime (clockTicks clk_shot) \<lparr>ts_sec = 0, ts_nsec = 950000000\<rparr> < next_timeout clk_shot"
    "clockTicks clk_shot \<le> uint (next_timeout clk_shot) - uint (get_uptime (clockTicks clk_shot) \<lparr>ts_sec = 0, ts_nsec = 950000000\<rparr>)"
    "notified clk_shot = []"
    by (simp_all add: clk_shot_def clk_st_def usecs_def clk_uptime)
  from clock_stops [OF this(1-6), of clk_os] this(7) show ?thesis by auto
qed

end
