(* ===== verification/Pm_Timers.thy ===== *)
theory Pm_Timers
  imports Timers Kernel_State
begin

text \<open>
  The alarms of the process manager: \<open>src/servers/pm/timers.c\<close>, which keeps the \<open>alarm(2)\<close> timers of the
  user processes in one queue and asks SYSTASK for a single alarm at the time of the first, and the
  alarm part of \<open>signal.c\<close>.  The state holds the queue, the alarm that SYSTASK last accepted from PM
  (0 when it was cancelled), the process table and the signals sent.  SYSTASK is a
  parameter: the answer of \<open>sys_getuptime\<close> and the return code of \<open>sys_setalarm\<close>; its side of
  the alarm is \<open>do_setalarm\<close> of the theory Clock.  \<open>sig_proc\<close> only prints, so a signal
  sent is recorded.
\<close>

section \<open>The state\<close>

text \<open>The signal sets of \<open>struct mproc\<close> are left out: the compiled code never puts a signal into \<open>mp_sigpending\<close> and
  reads none of the others.  A message is the sequence of
  its 32-bit words: 1 is \<open>m_type\<close>, 2 to 4 are \<open>m1_i1\<close> to \<open>m1_i3\<close> and at the same time \<open>m2_i1\<close> to \<open>m2_i3\<close>.\<close>

record mproc_t =
  mp_flags :: flags
  mp_pid :: int
  mp_procgrp :: int
  mp_realuid :: int
  mp_effuid :: int
  mp_realgid :: int
  mp_effgid :: int
  mp_exitstatus :: int
  mp_sigstatus :: int
  mp_endpoint :: int
  mp_wpid :: int
  mp_parent :: int
  mp_child_utime :: molclock
  mp_child_stime :: molclock
  mp_reply :: "nat \<Rightarrow> int"
  mp_nice :: int

record pm_st =
  pm_timers :: tqueue
  pm_alarm :: molclock
  mproc :: "int \<Rightarrow> mproc_t"
  kp_endpoint :: "int \<Rightarrow> int"
  kp_rts :: "int \<Rightarrow> flags"
  kp_nodeid :: "int \<Rightarrow> int"
  kp_lpid :: "int \<Rightarrow> int"
  kp_name :: "int \<Rightarrow> string"
  procs_in_use :: int
  next_pid :: int
  boottime :: int
  sigs_sent :: "(int \<times> int) list"

record pm_env =
  pe_uptime :: "int \<times> molclock"
  pe_setalarm :: "molclock \<Rightarrow> int"
  pe_ticks :: int
  pe_nr_tasks :: int
  pe_nr_procs :: int
  pe_nr_sysprocs :: int
  pe_mp :: int

abbreviation (input) "BIT_IN_USE \<equiv> 0 :: nat"
abbreviation (input) "BIT_ZOMBIE \<equiv> 2 :: nat"
abbreviation (input) "BIT_ALARM_ON \<equiv> 4 :: nat"
abbreviation (input) "BIT_PRIV_PROC \<equiv> 13 :: nat"
abbreviation (input) "SUSPEND \<equiv> - 998 :: int"
abbreviation (input) "INIT_PID \<equiv> 1 :: int"
abbreviation (input) "SUPER_USER \<equiv> 0 :: int"
abbreviation (input) "MOL_LONG_MAX \<equiv> 2147483647 :: molclock"
abbreviation (input) "SIGKILL \<equiv> 9 :: int"
abbreviation (input) "SIGALRM \<equiv> 14 :: int"
abbreviation (input) "NSIG \<equiv> 65 :: int"
abbreviation (input) "ESRCH \<equiv> 3 :: int"

text \<open>The address of \<open>mproc[n].mp_timer\<close>.\<close>

definition mp_timer :: "pm_env \<Rightarrow> int \<Rightarrow> taddr" where
  "mp_timer E n = nat (n + pe_nr_tasks E)"

definition upd_mproc :: "int \<Rightarrow> (mproc_t \<Rightarrow> mproc_t) \<Rightarrow> pm_st \<Rightarrow> pm_st" where
  "upd_mproc n f st = st\<lparr>mproc := (mproc st)(n := f (mproc st n))\<rparr>"

section \<open>The timers\<close>

text \<open>\<open>sys_setalarm (t, 1)\<close>: SYSTASK replaces PM's alarm when it accepts the request.\<close>

definition sys_setalarm :: "pm_env \<Rightarrow> molclock \<Rightarrow> pm_st \<Rightarrow> pm_st \<times> int" where
  "sys_setalarm E t st =
    (if pe_setalarm E t = OK then (st\<lparr>pm_alarm := t\<rparr>, OK) else (st, pe_setalarm E t))"

definition pm_set_timer :: "pm_env \<Rightarrow> taddr \<Rightarrow> molclock \<Rightarrow> int \<Rightarrow> int \<Rightarrow> pm_st \<Rightarrow> (pm_st \<times> int) option" where
  "pm_set_timer E tp ticks fn arg st =
    (let (rcode, now) = pe_uptime E in
     if rcode < 0 then Some (st, rcode)
     else
       case tmrs_settimer tp (now + ticks) fn (upd_timer tp (\<lambda>x. x\<lparr>tmr_arg := arg\<rparr>) (pm_timers st)) of
         None \<Rightarrow> None
       | Some (q, prev_time, next_t) \<Rightarrow>
         let st1 = st\<lparr>pm_timers := q\<rparr> in
         if prev_time = 0 \<or> prev_time > next_t then Some (sys_setalarm E next_t st1) else Some (st1, OK))"

definition pm_cancel_timer :: "pm_env \<Rightarrow> taddr \<Rightarrow> pm_st \<Rightarrow> (pm_st \<times> int) option" where
  "pm_cancel_timer E tp st =
    (case tmrs_clrtimer tp (pm_timers st) of
       None \<Rightarrow> None
     | Some (q, prev_time, next_t) \<Rightarrow>
       let st1 = st\<lparr>pm_timers := q\<rparr> in
       if prev_time < next_t \<or> next_t = 0 then Some (sys_setalarm E next_t st1) else Some (st1, OK))"

section \<open>Signals\<close>

definition pm_isokendpt :: "pm_env \<Rightarrow> int \<Rightarrow> pm_st \<Rightarrow> int \<times> int" where
  "pm_isokendpt E ep st =
    (let n = ENDPOINT_P ep in
     if n < - pe_nr_tasks E \<or> n \<ge> pe_nr_procs E then (EMOLRANGE, n)
     else if \<not> bit (mp_flags (mproc st n)) BIT_IN_USE \<and> n + pe_nr_tasks E < pe_nr_sysprocs E then (OK, n)
     else if ep \<noteq> kp_endpoint st n then (EMOLENDPOINT, n)
     else (OK, n))"

definition sig_proc :: "int \<Rightarrow> int \<Rightarrow> pm_st \<Rightarrow> pm_st" where
  "sig_proc n signo st = st\<lparr>sigs_sent := sigs_sent st @ [(mp_pid (mproc st n), signo)]\<rparr>"

definition sig_permitted :: "mproc_t \<Rightarrow> mproc_t \<Rightarrow> bool" where
  "sig_permitted mp rmp \<longleftrightarrow> mp_effuid mp = SUPER_USER \<or> mp_realuid mp = mp_realuid rmp \<or> mp_effuid mp = mp_realuid rmp
     \<or> mp_realuid mp = mp_effuid rmp \<or> mp_effuid mp = mp_effuid rmp"

definition sig_skipped :: "mproc_t \<Rightarrow> mproc_t \<Rightarrow> int \<Rightarrow> int \<Rightarrow> bool" where
  "sig_skipped mp rmp proc_id signo \<longleftrightarrow> \<not> bit (mp_flags rmp) BIT_IN_USE \<or> (bit (mp_flags rmp) BIT_ZOMBIE \<and> signo \<noteq> 0)
     \<or> (proc_id > 0 \<and> proc_id \<noteq> mp_pid rmp) \<or> (proc_id = 0 \<and> mp_procgrp mp \<noteq> mp_procgrp rmp)
     \<or> (proc_id = - 1 \<and> mp_pid rmp \<le> INIT_PID) \<or> (proc_id < - 1 \<and> mp_procgrp rmp \<noteq> - proc_id)
     \<or> (proc_id = - 1 \<and> signo = SIGKILL \<and> bit (mp_flags rmp) BIT_PRIV_PROC)"

text \<open>The loop over the table; the result is the state, the number of processes signalled and the
  error code.\<close>

fun sig_loop :: "pm_env \<Rightarrow> int \<Rightarrow> int \<Rightarrow> int list \<Rightarrow> nat \<Rightarrow> int \<Rightarrow> pm_st \<Rightarrow> pm_st \<times> nat \<times> int" where
  "sig_loop E proc_id signo [] cnt err st = (st, cnt, err)"
| "sig_loop E proc_id signo (n # ns) cnt err st =
    (if sig_skipped (mproc st (pe_mp E)) (mproc st n) proc_id signo then sig_loop E proc_id signo ns cnt err st
     else if \<not> sig_permitted (mproc st (pe_mp E)) (mproc st n) then sig_loop E proc_id signo ns cnt EMOLPERM st
     else if signo = 0 then sig_loop E proc_id signo ns (cnt + 1) err st
     else
       let st1 = sig_proc n signo st in
       if proc_id > 0 then (st1, cnt + 1, err) else sig_loop E proc_id signo ns (cnt + 1) err st1)"

definition check_sig :: "pm_env \<Rightarrow> int \<Rightarrow> int \<Rightarrow> pm_st \<Rightarrow> pm_st \<times> int" where
  "check_sig E proc_id signo st =
    (if signo < 0 \<or> signo > NSIG then (st, EMOLINVAL)
     else if proc_id = INIT_PID \<and> signo = SIGKILL then (st, EMOLINVAL)
     else
      let (st1, cnt, err) = sig_loop E proc_id signo [0 .. NR_PROCS - 1] 0 ESRCH st; f = mp_flags (mproc st1 (pe_mp E)) in
      if \<not> (bit f BIT_IN_USE \<and> \<not> bit f BIT_ZOMBIE) then (st1, SUSPEND)
      else (st1, if cnt > 0 then OK else err))"

section \<open>Expiration\<close>

text \<open>\<open>cause_sigalrm\<close> is the only watchdog \<open>signal.c\<close> gives to PM's timers.\<close>

definition CAUSE_SIGALRM :: int where
  "CAUSE_SIGALRM = 1"

definition cause_sigalrm :: "pm_env \<Rightarrow> int \<Rightarrow> taddr \<Rightarrow> tqueue \<times> pm_st \<Rightarrow> (tqueue \<times> pm_st) option" where
  "cause_sigalrm E f tp qs =
    (let st = snd qs; (r, n) = pm_isokendpt E (tmr_arg (tmem (fst qs) tp)) st; fl = mp_flags (mproc st n) in
     if r \<noteq> OK then Some qs
     else if \<not> (bit fl BIT_IN_USE \<and> \<not> bit fl BIT_ZOMBIE) then Some qs
     else if \<not> bit fl BIT_ALARM_ON then Some qs
     else
       let st1 = upd_mproc n (\<lambda>x. x\<lparr>mp_flags := unset_bit BIT_ALARM_ON (mp_flags x)\<rparr>) st
       in Some (fst qs, fst (check_sig E (mp_pid (mproc st1 n)) SIGALRM st1)))"

definition pm_expire_timers :: "pm_env \<Rightarrow> molclock \<Rightarrow> pm_st \<Rightarrow> (pm_st \<times> int) option" where
  "pm_expire_timers E now st =
    (case tmrs_exptimers (cause_sigalrm E) now (pm_timers st, st) of
       None \<Rightarrow> None
     | Some (q, st1, next_t) \<Rightarrow>
       let st2 = st1\<lparr>pm_timers := q\<rparr> in
       if next_t > 0 then Some (sys_setalarm E next_t st2) else Some (st2, OK))"

section \<open>The alarm call\<close>

definition set_alarm_ticks :: "int \<Rightarrow> int \<Rightarrow> molclock" where
  "set_alarm_ticks ct sec =
    (let ticks = word_of_int ct * word_of_int sec in
     if ticks div word_of_int ct \<noteq> word_of_int sec then MOL_LONG_MAX else ticks)"

definition set_alarm :: "pm_env \<Rightarrow> int \<Rightarrow> int \<Rightarrow> pm_st \<Rightarrow> (pm_st \<times> int) option" where
  "set_alarm E proc_nr_e sec st =
    (let (r, n) = pm_isokendpt E proc_nr_e st; (ret, uptime) = pe_uptime E; ct = word_of_int (pe_ticks E);
         on = bit (mp_flags (mproc st n)) BIT_ALARM_ON in
     if r \<noteq> OK then Some (st, EMOLINVAL)
     else if on \<and> ret < 0 then Some (st, ret)
     else
      let rem = (if on then sint (tmr_exp_time (tmem (pm_timers st) (mp_timer E n)) - (uptime + (ct - 1)) div ct) else 0);
          remaining = (if rem < 0 then 0 else rem);
          ticks = set_alarm_ticks (pe_ticks E) sec
      in if ticks \<noteq> 0 then
           case pm_set_timer E (mp_timer E n) ticks CAUSE_SIGALRM proc_nr_e st of None \<Rightarrow> None
           | Some (st1, _) \<Rightarrow> Some (upd_mproc n (\<lambda>x. x\<lparr>mp_flags := set_bit BIT_ALARM_ON (mp_flags x)\<rparr>) st1, remaining)
         else if on then
           case pm_cancel_timer E (mp_timer E n) st of None \<Rightarrow> None
           | Some (st1, _) \<Rightarrow> Some (upd_mproc n (\<lambda>x. x\<lparr>mp_flags := unset_bit BIT_ALARM_ON (mp_flags x)\<rparr>) st1, remaining)
         else Some (st, remaining))"

definition do_alarm :: "pm_env \<Rightarrow> int \<Rightarrow> int \<Rightarrow> pm_st \<Rightarrow> (pm_st \<times> int) option" where
  "do_alarm E who_e seconds st =
    (case set_alarm E who_e seconds st of None \<Rightarrow> None
     | Some (st1, ret) \<Rightarrow> Some (st1, if ret \<noteq> 0 then ret else SUSPEND))"

section \<open>The alarm covers the first timer\<close>

definition sigalrm_act :: "pm_env \<Rightarrow> int \<Rightarrow> int \<Rightarrow> pm_st \<Rightarrow> pm_st" where
  "sigalrm_act E f arg st =
    (let (r, n) = pm_isokendpt E arg st; fl = mp_flags (mproc st n) in
     if r \<noteq> OK \<or> \<not> (bit fl BIT_IN_USE \<and> \<not> bit fl BIT_ZOMBIE) \<or> \<not> bit fl BIT_ALARM_ON then st
     else
       let st1 = upd_mproc n (\<lambda>x. x\<lparr>mp_flags := unset_bit BIT_ALARM_ON (mp_flags x)\<rparr>) st
       in fst (check_sig E (mp_pid (mproc st1 n)) SIGALRM st1))"

interpretation sigalrm: passive_watchdog "cause_sigalrm E" "sigalrm_act E" for E
  by unfold_locales (auto simp: cause_sigalrm_def sigalrm_act_def Let_def split: prod.split)

text \<open>\<open>due\<close> says that SYSTASK's alarm has gone off and PM has not handled the notification yet.\<close>

definition covers :: "bool \<Rightarrow> pm_st \<Rightarrow> timerlist \<Rightarrow> bool" where
  "covers due st aq \<longleftrightarrow> tq_rel (pm_timers st) aq \<and> (\<forall>x \<in> set aq. snd x \<noteq> 0)
     \<and> (aq \<noteq> [] \<and> \<not> due \<longrightarrow> pm_alarm st \<noteq> 0 \<and> pm_alarm st \<le> next_time aq)"

lemma tq_rel_arg: "tq_rel (upd_timer tp (\<lambda>x. x\<lparr>tmr_arg := a\<rparr>) q) aq = tq_rel q aq"
proof -
  have "chain (tmem (upd_timer tp (\<lambda>x. x\<lparr>tmr_arg := a\<rparr>) q)) p xs = chain (tmem q) p xs" for p xs
    by (rule chain_keep) simp
  moreover have "tmr_exp_time (tmem (upd_timer tp (\<lambda>x. x\<lparr>tmr_arg := a\<rparr>) q) x) = tmr_exp_time (tmem q x)" for x by simp
  ultimately show ?thesis unfolding tq_rel_def by (simp only: tmrs_upd_timer)
qed

lemma upd_mproc_keeps [simp]:
  "pm_timers (upd_mproc n f st) = pm_timers st" "pm_alarm (upd_mproc n f st) = pm_alarm st"
  by (simp_all add: upd_mproc_def)

lemma covers_upd [simp]: "covers due (upd_mproc n f st) = covers due st"
  by (simp add: covers_def fun_eq_iff)

lemma next_time_nil [simp]: "next_time [] = 0"
  by (simp add: next_time_def)

lemma next_time_zero: "\<forall>x \<in> set aq. snd x \<noteq> 0 \<Longrightarrow> next_time aq = 0 \<longleftrightarrow> aq = []"
  by (cases aq) (auto simp: next_time_def)

lemma next_time_le: "sorted (map snd aq) \<Longrightarrow> x \<in> set aq \<Longrightarrow> next_time aq \<le> snd x"
  by (cases aq) (auto simp: next_time_def)

lemma covers_alarmed:
  assumes "tq_rel q aq" "\<forall>x \<in> set aq. snd x \<noteq> 0" "pe_setalarm E (next_time aq) = OK"
  shows "covers due (fst (sys_setalarm E (next_time aq) (st\<lparr>pm_timers := q\<rparr>))) aq"
  using assms next_time_zero [of aq] by (auto simp: covers_def sys_setalarm_def)

lemma pm_set_timer_covers:
  assumes "covers due st aq" "\<And>t. pe_setalarm E t = OK" "0 \<le> fst (pe_uptime E)" "snd (pe_uptime E) + ticks \<noteq> 0"
  shows "\<exists>st' r. pm_set_timer E tp ticks fn arg st = Some (st', r)
    \<and> covers due st' (timer_insert tp (snd (pe_uptime E) + ticks) (timer_remove tp aq)) \<and> mproc st' = mproc st"
proof -
  let ?bq = "timer_insert tp (snd (pe_uptime E) + ticks) (timer_remove tp aq)"
  have rel: "tq_rel (upd_timer tp (\<lambda>x. x\<lparr>tmr_arg := arg\<rparr>) (pm_timers st)) aq"
    using assms(1) by (simp add: tq_rel_arg covers_def)
  obtain q where q: "tmrs_settimer tp (snd (pe_uptime E) + ticks) fn (upd_timer tp (\<lambda>x. x\<lparr>tmr_arg := arg\<rparr>) (pm_timers st))
      = Some (q, next_time aq, next_time ?bq)" "tq_rel q ?bq"
    using settimer_refines_step [OF rel refl, of tp "snd (pe_uptime E) + ticks" fn] by blast
  have nz: "\<forall>x \<in> set ?bq. snd x \<noteq> 0"
    using assms(1,4) timer_remove_props(2) [of tp aq] by (auto simp: timer_insert_props covers_def)
  have "covers due (st\<lparr>pm_timers := q\<rparr>) ?bq" if "\<not> (next_time aq = 0 \<or> next_time aq > next_time ?bq)"
    using that assms(1) q(2) nz by (auto simp: covers_def next_time_zero)
  then show ?thesis
    using assms(2,3) q covers_alarmed [OF q(2) nz assms(2)]
    by (auto simp: pm_set_timer_def sys_setalarm_def Let_def split: prod.split)
qed

lemma timer_remove_next:
  assumes "sorted (map snd aq)" "bq = timer_remove tp aq" "bq \<noteq> []"
  shows "next_time aq \<le> next_time bq"
proof -
  obtain x where "x \<in> set bq" "snd x = next_time bq" using assms(3) by (cases bq) (auto simp: next_time_def)
  then show ?thesis
    using next_time_le [OF assms(1), of x] timer_remove_props(2) [of tp aq] assms(2) by auto
qed

lemma pm_cancel_timer_covers:
  assumes "covers due st aq" "\<And>t. pe_setalarm E t = OK"
  shows "\<exists>st' r. pm_cancel_timer E tp st = Some (st', r) \<and> covers due st' (timer_remove tp aq) \<and> mproc st' = mproc st"
proof -
  let ?bq = "timer_remove tp aq"
  obtain q where q: "tmrs_clrtimer tp (pm_timers st) = Some (q, next_time aq, next_time ?bq)" "tq_rel q ?bq"
    using tmrs_clrtimer_rel [of "pm_timers st" aq tp] assms(1) by (auto simp: covers_def)
  have nz: "\<forall>x \<in> set ?bq. snd x \<noteq> 0"
    using assms(1) timer_remove_props(2) [of tp aq] by (auto simp: covers_def)
  have "covers due (st\<lparr>pm_timers := q\<rparr>) ?bq" if "\<not> (next_time aq < next_time ?bq \<or> next_time ?bq = 0)"
  proof -
    have "?bq \<noteq> []" using that by auto
    then have "next_time ?bq = next_time aq" "aq \<noteq> []"
      using that timer_remove_next [of aq ?bq tp] assms(1) by (auto simp: covers_def tq_rel_def timer_remove_def)
    then show ?thesis using assms(1) q(2) nz by (auto simp: covers_def)
  qed
  then show ?thesis
    using assms(2) q covers_alarmed [OF q(2) nz assms(2)]
    by (auto simp: pm_cancel_timer_def sys_setalarm_def Let_def)
qed

lemma pm_expire_timers_covers:
  assumes "covers due st aq" "\<And>t. pe_setalarm E t = OK"
  shows "\<exists>st' r. pm_expire_timers E now st = Some (st', r) \<and> covers False st' (dropWhile (\<lambda>x. snd x \<le> now) aq)"
proof -
  let ?bq = "dropWhile (\<lambda>x. snd x \<le> now) aq"
  obtain q st1 where q: "exp_walk (cause_sigalrm E) now (pm_timers st, st) = Some (q, st1)" "tq_rel q ?bq"
    using sigalrm.exp_walk_runs [of "pm_timers st" aq E now st] assms(1) by (auto simp: covers_def)
  have nz: "\<forall>x \<in> set ?bq. snd x \<noteq> 0" using assms(1) by (auto simp: covers_def dest: set_dropWhileD)
  have "covers False (st1\<lparr>pm_timers := q\<rparr>) ?bq" if "\<not> next_time ?bq > 0"
  proof -
    have "next_time ?bq = 0" using that by (simp add: word_gt_0)
    then have "?bq = []" using next_time_zero [OF nz] by blast
    then show ?thesis using q(2) by (simp only: covers_def pm_st.simps) simp
  qed
  then show ?thesis
    using assms(2) q covers_alarmed [OF q(2) nz assms(2), where st = st1 and due = False]
    by (auto simp: pm_expire_timers_def tmrs_exptimers_def head_time_rel sys_setalarm_def Let_def)
qed

lemma do_alarm_covers:
  assumes "covers due st aq" "\<And>t. pe_setalarm E t = OK" "0 \<le> fst (pe_uptime E)"
    and "set_alarm_ticks (pe_ticks E) sec \<noteq> 0 \<Longrightarrow> snd (pe_uptime E) + set_alarm_ticks (pe_ticks E) sec \<noteq> 0"
  shows "\<exists>st' r bq. do_alarm E who_e sec st = Some (st', r) \<and> covers due st' bq"
proof -
  obtain r n where n: "pm_isokendpt E who_e st = (r, n)" by force
  obtain ret u where u: "pe_uptime E = (ret, u)" by force
  show ?thesis
  proof (cases "set_alarm_ticks (pe_ticks E) sec = 0")
    case True
    then show ?thesis
      using pm_cancel_timer_covers [OF assms(1,2), of "mp_timer E n"] assms(1)
      by (auto simp: do_alarm_def set_alarm_def n u Let_def)
  next
    case False
    then show ?thesis
      using pm_set_timer_covers [OF assms(1,2,3), of "set_alarm_ticks (pe_ticks E) sec" "mp_timer E n" CAUSE_SIGALRM who_e] assms(1,4)
      by (auto simp: do_alarm_def set_alarm_def n u Let_def)
  qed
qed

text \<open>PM at work, beside SYSTASK: PM handles \<open>alarm(2)\<close> requests at any time; SYSTASK's alarm for PM goes off, is
  forgotten there and leaves PM a notification; PM handles the notification with the time it then
  reads.  SYSTASK answers PM's requests and accepts its alarms, and no timer is set to time 0.\<close>

inductive pm_step :: "pm_st \<times> bool \<Rightarrow> pm_st \<times> bool \<Rightarrow> bool" where
  alarm: "(\<And>t. pe_setalarm E t = OK) \<Longrightarrow> 0 \<le> fst (pe_uptime E) \<Longrightarrow>
    (set_alarm_ticks (pe_ticks E) sec \<noteq> 0 \<Longrightarrow> snd (pe_uptime E) + set_alarm_ticks (pe_ticks E) sec \<noteq> 0) \<Longrightarrow>
    do_alarm E who_e sec st = Some (st', r) \<Longrightarrow> pm_step (st, due) (st', due)"
| fire: "pm_alarm st \<noteq> 0 \<Longrightarrow> pm_step (st, due) (st\<lparr>pm_alarm := 0\<rparr>, True)"
| expire: "(\<And>t. pe_setalarm E t = OK) \<Longrightarrow> pm_expire_timers E now st = Some (st', r) \<Longrightarrow>
    pm_step (st, True) (st', False)"

lemma pm_step_covers:
  assumes "pm_step (st, due) (st', due')" "covers due st aq"
  shows "\<exists>bq. covers due' st' bq"
  using assms(1)
proof cases
  case (alarm E sec who_e r)
  then show ?thesis using do_alarm_covers [OF assms(2), of E sec who_e] by auto
next
  case fire
  then show ?thesis using assms(2) by (auto simp: covers_def)
next
  case (expire E now r)
  then show ?thesis using pm_expire_timers_covers [OF assms(2), of E now] by auto
qed

lemma pm_steps_cover:
  assumes "pm_step\<^sup>*\<^sup>* x y" "\<exists>aq. covers (snd x) (fst x) aq"
  shows "\<exists>aq. covers (snd y) (fst y) aq"
  using assms
proof (induction rule: rtranclp_induct)
  case (step y z)
  then show ?case using pm_step_covers [of "fst y" "snd y" "fst z" "snd z"] by auto
qed

text \<open>C38: while SYSTASK accepts PM's requests, no timer of PM is forgotten: after any sequence of alarm calls, of
  SYSTASK's alarm going off and of PM handling the notification, from a start with no timer set,
  the queue is sorted by time, and as long as a timer is in it either PM still has to handle a notification or
  the last alarm it asked for is pending and due no later than the first timer; and handling a notification at
  any time returns and takes exactly the timers due by then off the queue.\<close>

theorem pm_alarm_covers_timers:
  assumes "pm_step\<^sup>*\<^sup>* (st, False) (st', due)" "tmrs (pm_timers st) = None"
  shows "\<exists>aq. tq_rel (pm_timers st') aq
    \<and> (aq \<noteq> [] \<longrightarrow> due \<or> pm_alarm st' \<noteq> 0 \<and> pm_alarm st' \<le> next_time aq)
    \<and> (\<forall>E now. (\<forall>t. pe_setalarm E t = OK) \<longrightarrow> (\<exists>st'' r. pm_expire_timers E now st' = Some (st'', r)
         \<and> tq_rel (pm_timers st'') (dropWhile (\<lambda>x. snd x \<le> now) aq)))"
proof -
  have "covers False st []" using assms(2) by (simp add: covers_def tq_rel_def)
  then obtain aq where c: "covers due st' aq" using pm_steps_cover [OF assms(1)] by auto
  have "\<exists>st'' r. pm_expire_timers E now st' = Some (st'', r) \<and> tq_rel (pm_timers st'') (dropWhile (\<lambda>x. snd x \<le> now) aq)"
    if "\<forall>t. pe_setalarm E t = OK" for E now
    using pm_expire_timers_covers [OF c, of E now] that by (auto simp: covers_def)
  then show ?thesis using c by (auto simp: covers_def)
qed

lemma chain_unique: "chain m p xs \<Longrightarrow> chain m p ys \<Longrightarrow> xs = ys"
proof (induction xs arbitrary: p ys)
  case Nil
  then show ?case by (cases ys) auto
next
  case (Cons x xs)
  then show ?case by (cases ys) auto
qed

lemma tq_rel_unique:
  assumes "tq_rel q aq" "tq_rel q bq"
  shows "aq = bq"
proof -
  have f: "map fst aq = map fst bq" using assms chain_unique unfolding tq_rel_def by blast
  moreover have "map snd aq = map (\<lambda>x. tmr_exp_time (tmem q x)) (map fst aq)"
    "map snd bq = map (\<lambda>x. tmr_exp_time (tmem q x)) (map fst bq)"
    using assms by (auto simp: tq_rel_def)
  ultimately show ?thesis by (metis zip_map_fst_snd)
qed

text \<open>PM of a DC with 35 tasks, at 50000 ticks (500 seconds); process 40 has endpoint 40.\<close>

definition pm_os :: pm_env where
  "pm_os = \<lparr>pe_uptime = (0, 50000), pe_setalarm = (\<lambda>_. 0), pe_ticks = 100, pe_nr_tasks = 35, pe_nr_procs = 221,
     pe_nr_sysprocs = 64, pe_mp = 0\<rparr>"

definition pm_start :: pm_st where
  "pm_start = \<lparr>pm_timers = \<lparr>tmrs = None, tmem = (\<lambda>_. \<lparr>tmr_next = None, tmr_exp_time = TMR_NEVER, tmr_func = 0, tmr_arg = 0\<rparr>)\<rparr>,
     pm_alarm = 0, mproc = (\<lambda>n. \<lparr>mp_flags = 1, mp_pid = n, mp_procgrp = 1, mp_realuid = 0, mp_effuid = 0,
       mp_realgid = 0, mp_effgid = 0, mp_exitstatus = 0, mp_sigstatus = 0, mp_endpoint = n, mp_wpid = 0, mp_parent = 0,
       mp_child_utime = 0, mp_child_stime = 0, mp_reply = (\<lambda>_. 0), mp_nice = 0\<rparr>),
     kp_endpoint = (\<lambda>n. n), kp_rts = (\<lambda>n. 0), kp_nodeid = (\<lambda>n. 0), kp_lpid = (\<lambda>n. 0), kp_name = (\<lambda>n. []), procs_in_use = 1, next_pid = 2, boottime = 0,
     sigs_sent = []\<rparr>"

lemma pm_start_rel: "tq_rel (pm_timers pm_start) []"
  by (simp add: tq_rel_def pm_start_def)

lemma pm_start_endpt: "pm_isokendpt pm_os 40 pm_start = (OK, 40)"
  by (simp add: pm_isokendpt_def pm_os_def pm_start_def ENDPOINT_P_def cmod_def)

section \<open>Setting and cancelling\<close>

text \<open>Converting seconds to ticks does not wrap around: \<open>set_alarm\<close> takes the product when it fits a \<open>molclock_t\<close>
  and an eternity otherwise.\<close>

theorem set_alarm_ticks_saturates:
  assumes "0 < ct" "ct < 2 ^ 31" "0 \<le> sec" "sec < 2 ^ 31"
  shows "uint (set_alarm_ticks ct sec) = (if ct * sec < 2 ^ 32 then ct * sec else 2 ^ 31 - 1)"
proof -
  let ?m = "ct * sec mod 2 ^ 32"
  have u: "uint (word_of_int ct :: molclock) = ct" "uint (word_of_int sec :: molclock) = sec"
    using assms by (simp_all add: unsigned_of_int take_bit_int_eq_self)
  have m: "uint (word_of_int ct * word_of_int sec :: molclock) = ?m"
    by (simp add: uint_word_ariths u)
  have "?m div ct = sec \<longleftrightarrow> ct * sec < 2 ^ 32"
  proof (cases "ct * sec < 2 ^ 32")
    case True
    then show ?thesis using assms by simp
  next
    case False
    have "?m < 2 ^ 32" by simp
    then have "?m < ct * sec" using False by linarith
    moreover have "?m div ct * ct \<le> ?m" using div_mult_mod_eq [of ?m ct] pos_mod_sign [of ct ?m] assms(1) by linarith
    ultimately have "?m div ct \<noteq> sec" by (auto simp: mult.commute)
    then show ?thesis using False by blast
  qed
  moreover have "(word_of_int ct * word_of_int sec :: molclock) div word_of_int ct = word_of_int sec \<longleftrightarrow> ?m div ct = sec"
    by (simp only: word_uint_eq_iff uint_div m u)
  ultimately show ?thesis using m assms by (auto simp: set_alarm_ticks_def Let_def)
qed

theorem set_alarm_ticks_saturates_witness:
  "uint (set_alarm_ticks 100 10) = 1000 \<and> uint (set_alarm_ticks 100 42949673) = 2147483647"
  using set_alarm_ticks_saturates [of 100 10] set_alarm_ticks_saturates [of 100 42949673] by simp

lemma remove_insert: "tp \<notin> fst ` set aq \<Longrightarrow> timer_remove tp (timer_insert tp e aq) = aq"
proof -
  assume "tp \<notin> fst ` set aq"
  then have "timer_remove tp (takeWhile (\<lambda>x. snd x \<le> e) aq @ (tp, e) # dropWhile (\<lambda>x. snd x \<le> e) aq)
    = takeWhile (\<lambda>x. snd x \<le> e) aq @ dropWhile (\<lambda>x. snd x \<le> e) aq"
    by (intro timer_remove_split) (auto dest: set_takeWhileD set_dropWhileD)
  then show ?thesis by (simp add: timer_insert_def)
qed

text \<open>An \<open>alarm(sec)\<close> call and an \<open>alarm(0)\<close> call at the same time undo each other: the timer is in the
  queue in between, the queue and the ALARM_ON flag are as before afterwards.  But the first call gets
  no reply (\<open>do_alarm\<close> takes the 0 of a process without alarm for SUSPEND), and the second
  returns the expiration time in ticks less the uptime in seconds, not the seconds that were left.\<close>

theorem alarm_set_and_cancel:
  assumes rel: "covers due st aq" "mp_timer E n \<notin> fst ` set aq" and ep: "pm_isokendpt E ep st = (OK, n)"
    and off: "\<not> bit (mp_flags (mproc st n)) BIT_ALARM_ON" and sys: "\<And>t. pe_setalarm E t = OK" "pe_uptime E = (OK, u)"
    and ticks: "ticks = set_alarm_ticks (pe_ticks E) sec" "ticks \<noteq> 0" "u + ticks \<noteq> 0"
    and used: "bit (mp_flags (mproc st n)) BIT_IN_USE"
    and left: "r = sint (u + ticks - (u + (word_of_int (pe_ticks E) - 1)) div word_of_int (pe_ticks E))" "0 < r"
  shows "\<exists>st1 st2. do_alarm E ep sec st = Some (st1, SUSPEND)
    \<and> tq_rel (pm_timers st1) (timer_insert (mp_timer E n) (u + ticks) aq) \<and> bit (mp_flags (mproc st1 n)) BIT_ALARM_ON
    \<and> do_alarm E ep 0 st1 = Some (st2, r) \<and> tq_rel (pm_timers st2) aq \<and> mproc st2 = mproc st"
proof -
  let ?tp = "mp_timer E n" and ?bq = "timer_insert (mp_timer E n) (u + ticks) aq"
  obtain st0 r0 where s0: "pm_set_timer E ?tp ticks CAUSE_SIGALRM ep st = Some (st0, r0)" "covers due st0 ?bq"
    "mproc st0 = mproc st" "kp_endpoint st0 = kp_endpoint st"
    using pm_set_timer_covers [OF rel(1) sys(1), of ticks ?tp CAUSE_SIGALRM ep] sys(2) ticks(3) rel(2)
    by (auto simp: timer_remove_absent pm_set_timer_def sys_setalarm_def Let_def split: option.splits if_splits)
  define st1 where "st1 = upd_mproc n (\<lambda>x. x\<lparr>mp_flags := set_bit BIT_ALARM_ON (mp_flags x)\<rparr>) st0"
  have c1: "covers due st1 ?bq" using s0(2) by (simp add: st1_def)
  have run1: "do_alarm E ep sec st = Some (st1, SUSPEND)"
    using ep off ticks(1,2) s0(1) sys(2) by (simp add: do_alarm_def set_alarm_def st1_def)
  have on: "bit (mp_flags (mproc st1 n)) BIT_ALARM_ON" "bit (mp_flags (mproc st1 n)) BIT_IN_USE"
    using used by (simp_all add: st1_def upd_mproc_def s0(3))
  have ep1: "pm_isokendpt E ep st1 = (OK, n)"
    using ep on(2) used by (auto simp: pm_isokendpt_def st1_def upd_mproc_def s0(3,4) Let_def split: if_splits)
  have time: "tmr_exp_time (tmem (pm_timers st1) ?tp) = u + ticks"
    using c1 by (auto simp: covers_def tq_rel_def timer_insert_props)
  obtain st3 r3 where s3: "pm_cancel_timer E ?tp st1 = Some (st3, r3)" "covers due st3 aq" "mproc st3 = mproc st1"
    using pm_cancel_timer_covers [OF c1 sys(1), of ?tp] by (auto simp: remove_insert [OF rel(2)])
  define st2 where "st2 = upd_mproc n (\<lambda>x. x\<lparr>mp_flags := unset_bit BIT_ALARM_ON (mp_flags x)\<rparr>) st3"
  have run2: "do_alarm E ep 0 st1 = Some (st2, r)"
    using ep1 on(1) s3(1) sys(2) left time
    by (simp add: do_alarm_def set_alarm_def set_alarm_ticks_def st2_def Let_def)
  have "mproc st2 = mproc st"
    using off by (simp add: st2_def upd_mproc_def s3(3) st1_def s0(3) unset_set_bit)
  then show ?thesis using run1 run2 on(1) c1 s3(2) by (auto simp: covers_def st2_def)
qed

theorem alarm_set_and_cancel_witness:
  "\<exists>st1 st2. do_alarm pm_os 40 10 pm_start = Some (st1, SUSPEND) \<and> tq_rel (pm_timers st1) [(75, 51000)]
    \<and> do_alarm pm_os 40 0 st1 = Some (st2, 50500) \<and> tq_rel (pm_timers st2) []"
proof -
  have "covers due pm_start []" "mp_timer pm_os 40 \<notin> fst ` set []" "\<not> bit (mp_flags (mproc pm_start 40)) BIT_ALARM_ON"
    "\<And>t. pe_setalarm pm_os t = OK" "pe_uptime pm_os = (OK, 50000)" "bit (mp_flags (mproc pm_start 40)) BIT_IN_USE"
    "mp_timer pm_os 40 = 75" "1000 = set_alarm_ticks (pe_ticks pm_os) 10"
    "50500 = sint ((50000 :: molclock) + 1000 - (50000 + (word_of_int (pe_ticks pm_os) - 1)) div word_of_int (pe_ticks pm_os))"
    by (simp_all add: covers_def pm_start_rel) (simp_all add: pm_start_def pm_os_def mp_timer_def set_alarm_ticks_def bit_1_iff)
  from alarm_set_and_cancel [OF this(1,2) pm_start_endpt this(3,4,5) this(8) _ _ this(6) this(9)] this(7) show ?thesis
    by (auto simp: timer_insert_def)
qed

theorem pm_alarm_covers_timers_witness:
  "\<exists>st1 st2. pm_step\<^sup>*\<^sup>* (pm_start, False) (st1, False) \<and> pm_step\<^sup>*\<^sup>* (pm_start, False) (st2, True)
    \<and> tq_rel (pm_timers st1) [(75, 51000)] \<and> pm_alarm st1 \<noteq> 0 \<and> pm_alarm st1 \<le> 51000
    \<and> tq_rel (pm_timers st2) [(75, 51000)]
    \<and> (\<exists>st3 r. pm_expire_timers pm_os 51000 st2 = Some (st3, r) \<and> tq_rel (pm_timers st3) [])"
proof -
  obtain st1 where s1: "do_alarm pm_os 40 10 pm_start = Some (st1, SUSPEND)" "tq_rel (pm_timers st1) [(75, 51000)]"
    using alarm_set_and_cancel_witness by blast
  have os: "\<And>t. pe_setalarm pm_os t = OK" "0 \<le> fst (pe_uptime pm_os)"
    "snd (pe_uptime pm_os) + set_alarm_ticks (pe_ticks pm_os) 10 \<noteq> 0"
    by (simp_all add: pm_os_def set_alarm_ticks_def)
  have st: "tmrs (pm_timers pm_start) = None" by (simp add: pm_start_def)
  have r1: "pm_step\<^sup>*\<^sup>* (pm_start, False) (st1, False)"
    using pm_step.alarm [of pm_os 10 40 pm_start st1 SUSPEND False] os s1(1) by blast
  have u: "aq = [(75, 51000)]" if "tq_rel (pm_timers st1) aq" for aq by (rule tq_rel_unique [OF that s1(2)])
  have a1: "pm_alarm st1 \<noteq> 0 \<and> pm_alarm st1 \<le> 51000"
    using pm_alarm_covers_timers [OF r1 st] by (auto simp: next_time_def dest!: u)
  have "pm_step (st1, False) (st1\<lparr>pm_alarm := 0\<rparr>, True)" using a1 by (intro pm_step.fire) simp
  with r1 have r2: "pm_step\<^sup>*\<^sup>* (pm_start, False) (st1\<lparr>pm_alarm := 0\<rparr>, True)" by simp
  have "\<exists>st3 r. pm_expire_timers pm_os 51000 (st1\<lparr>pm_alarm := 0\<rparr>) = Some (st3, r) \<and> tq_rel (pm_timers st3) []"
    using pm_alarm_covers_timers [OF r2 st] os(1)
    by (elim exE conjE allE [of _ pm_os] allE [of _ 51000] impE) (auto dest!: u)
  then show ?thesis using r1 r2 s1(2) a1
    by (intro exI [of _ st1] exI [of _ "st1\<lparr>pm_alarm := 0\<rparr>"]) simp
qed

end
