(* ===== verification/Pm_Process.thy ===== *)
theory Pm_Process
  imports Pm_Timers
begin

text \<open>
  The life of processes in the process manager: fork, exit and wait of \<open>src/servers/pm/forkexit.c\<close>, with the helpers of
  \<open>utility.c\<close>.  The state is the one of \<open>Pm_Timers\<close>.

  SYSTASK and the kernel module are parameters (record \<open>pp_env\<close>): what a request returns, and the entry of
  the kernel's process table that \<open>sys_procinfo\<close> copies into \<open>kproc\<close>, before and after the request of the handler.  A handler
  returns a result, or PM exits (\<open>ERROR_EXIT\<close>, a failed assertion); a handler that may walk the chain of timers returns an option,
  as the functions of \<open>Pm_Timers\<close> do.
\<close>

section \<open>The environment\<close>

record kentry =
  ke_rts :: flags
  ke_endpoint :: int
  ke_nodeid :: int
  ke_lpid :: int
  ke_name :: string

record pp_env =
  pp_pm :: pm_env
  pp_procinfo :: "int \<Rightarrow> int \<times> kentry"
  pp_procinfo2 :: "int \<Rightarrow> int \<times> kentry"
  pp_fork :: "int \<Rightarrow> int"
  pp_rfork :: "int \<Rightarrow> int \<Rightarrow> int"
  pp_bindproc :: "int \<Rightarrow> int \<Rightarrow> int \<Rightarrow> int"
  pp_rsetpname :: "int \<Rightarrow> int"
  pp_sysexit :: "int \<Rightarrow> int \<Rightarrow> int"
  pp_rexec :: "int \<Rightarrow> int \<Rightarrow> int \<Rightarrow> int"
  pp_notify :: "int \<Rightarrow> int"
  pp_send :: "int \<Rightarrow> int"
  pp_garbage :: "molclock \<times> molclock"   \<comment> \<open>the array t of pm_exit, which is never set\<close>

datatype pm_res = PmRet int | PmStop int

abbreviation (input) "BIT_WAITING \<equiv> 1 :: nat"
abbreviation (input) "BIT_STOPPED \<equiv> 7 :: nat"
abbreviation (input) "BIT_REPLYPENDING \<equiv> 9 :: nat"
abbreviation (input) "BIT_FORKWAIT \<equiv> 14 :: nat"
abbreviation (input) "BIT_RMT_PROC \<equiv> 15 :: nat"
abbreviation (input) "IN_USE \<equiv> 1 :: flags"
abbreviation (input) "ZOMBIE_USED \<equiv> 5 :: flags"              \<comment> \<open>IN_USE and ZOMBIE\<close>
abbreviation (input) "FORKED \<equiv> 16385 :: flags"              \<comment> \<open>IN_USE and FORKWAIT\<close>
abbreviation (input) "FORKED_PRIV \<equiv> 24577 :: flags"         \<comment> \<open>IN_USE, PRIV_PROC and FORKWAIT\<close>
abbreviation (input) "RMT_USED \<equiv> 32769 :: flags"            \<comment> \<open>IN_USE and RMT_PROC\<close>
abbreviation (input) "RMT_PRIV \<equiv> 40961 :: flags"            \<comment> \<open>IN_USE, RMT_PROC and PRIV_PROC\<close>
abbreviation (input) "PRIV_USED \<equiv> 8193 :: flags"            \<comment> \<open>IN_USE and PRIV_PROC\<close>
abbreviation (input) "PM_PROC_NR \<equiv> 0 :: int"
abbreviation (input) "INIT_PROC_NR \<equiv> 14 :: int"
abbreviation (input) "NR_PIDS \<equiv> 32760 :: int"
abbreviation (input) "MOLEXIT \<equiv> 1 :: int"
abbreviation (input) "MOLUNBIND \<equiv> 101 :: int"
abbreviation (input) "SIGHUP \<equiv> 1 :: int"
abbreviation (input) "SIGCHLD \<equiv> 17 :: int"
abbreviation (input) "PRIO_SERVER \<equiv> - 10 :: int"
abbreviation (input) "EMOLCHILD \<equiv> - 10 :: int"
abbreviation (input) "reply_res \<equiv> 1 :: nat"
abbreviation (input) "reply_res2 \<equiv> 2 :: nat"
abbreviation (input) "reply_res3 \<equiv> 3 :: nat"
abbreviation (input) "reply_endpt \<equiv> 2 :: nat"

abbreviation (input) "nr_procs E \<equiv> pe_nr_procs (pp_pm E)"
abbreviation (input) "mp_of E \<equiv> pe_mp (pp_pm E)"
abbreviation (input) "has_flag st n b \<equiv> bit (mp_flags (mproc st n)) b"

text \<open>Conversion to a signed character.\<close>

definition schar :: "int \<Rightarrow> int" where
  "schar x = (x + 128) mod 256 - 128"

definition set_flag :: "nat \<Rightarrow> int \<Rightarrow> pm_st \<Rightarrow> pm_st" where
  "set_flag b n st = upd_mproc n (\<lambda>x. x\<lparr>mp_flags := set_bit b (mp_flags x)\<rparr>) st"

definition clr_flag :: "nat \<Rightarrow> int \<Rightarrow> pm_st \<Rightarrow> pm_st" where
  "clr_flag b n st = upd_mproc n (\<lambda>x. x\<lparr>mp_flags := unset_bit b (mp_flags x)\<rparr>) st"

definition set_reply :: "nat \<Rightarrow> int \<Rightarrow> int \<Rightarrow> pm_st \<Rightarrow> pm_st" where
  "set_reply w v n st = upd_mproc n (\<lambda>x. x\<lparr>mp_reply := (mp_reply x)(w := v)\<rparr>) st"

section \<open>Helpers\<close>

definition put_kproc :: "int \<Rightarrow> kentry \<Rightarrow> pm_st \<Rightarrow> pm_st" where
  "put_kproc n e st = st\<lparr>kp_endpoint := (kp_endpoint st)(n := ke_endpoint e), kp_rts := (kp_rts st)(n := ke_rts e),
     kp_nodeid := (kp_nodeid st)(n := ke_nodeid e), kp_lpid := (kp_lpid st)(n := ke_lpid e),
     kp_name := (kp_name st)(n := ke_name e)\<rparr>"

definition sys_procinfo :: "(int \<Rightarrow> int \<times> kentry) \<Rightarrow> int \<Rightarrow> pm_st \<Rightarrow> pm_st \<times> int" where
  "sys_procinfo info n st =
    (let (rcode, e) = info n in if rcode \<noteq> 0 then (st, rcode) else (put_kproc n e st, OK))"

text \<open>The process identifiers: a static counter that skips those of processes and process groups.\<close>

definition pid_taken :: "pm_env \<Rightarrow> pm_st \<Rightarrow> int \<Rightarrow> bool" where
  "pid_taken E st p = list_ex (\<lambda>n. mp_pid (mproc st n) = p \<or> mp_procgrp (mproc st n) = p) [0 .. pe_nr_procs E - 1]"

definition bump_pid :: "int \<Rightarrow> int" where
  "bump_pid p = (if p < NR_PIDS then p + 1 else INIT_PID + 1)"

partial_function (option) free_pid_loop :: "pm_env \<Rightarrow> pm_st \<Rightarrow> int \<Rightarrow> int option" where
  "free_pid_loop E st p =
    (if pid_taken E st (bump_pid p) then free_pid_loop E st (bump_pid p) else Some (bump_pid p))"

definition get_free_pid :: "pm_env \<Rightarrow> pm_st \<Rightarrow> (pm_st \<times> int) option" where
  "get_free_pid E st =
    (case free_pid_loop E st (next_pid st) of None \<Rightarrow> None | Some p \<Rightarrow> Some (st\<lparr>next_pid := p\<rparr>, p))"

definition setreply :: "pp_env \<Rightarrow> int \<Rightarrow> int \<Rightarrow> pm_st \<Rightarrow> pm_st \<times> pm_res" where
  "setreply E n result st =
    (if n < 0 \<or> n \<ge> nr_procs E then (st, PmStop EMOLBADPROC)
     else (set_flag BIT_REPLYPENDING n (set_reply reply_res result n st), PmRet OK))"

definition mproc_init :: "int \<Rightarrow> pm_st \<Rightarrow> pm_st" where
  "mproc_init n st =
    upd_mproc n (\<lambda>x. let y = x\<lparr>mp_exitstatus := OK, mp_sigstatus := OK, mp_pid := PROC_NO_PID, mp_endpoint := NONE,
        mp_procgrp := PROC_NO_PID, mp_wpid := PROC_NO_PID, mp_parent := - 1, mp_child_utime := 0, mp_child_stime := 0,
        mp_realuid := - 1, mp_effuid := - 1, mp_realgid := - 1, mp_effgid := - 1, mp_flags := 0, mp_nice := 0\<rparr>
      in if \<not> bit (kp_rts st n) BIT_SLOT_FREE
         then y\<lparr>mp_endpoint := kp_endpoint st n, mp_flags := IN_USE, mp_pid := 0, mp_procgrp := 0, mp_parent := 0\<rparr>
         else y) st"

section \<open>Fork\<close>

text \<open>The assignment of a whole slot to another one, the watchdog timer in it included.\<close>

definition copy_slot :: "pm_env \<Rightarrow> int \<Rightarrow> int \<Rightarrow> pm_st \<Rightarrow> pm_st" where
  "copy_slot E c p st =
    (let q = pm_timers st in
     upd_mproc c (\<lambda>_. mproc st p) (st\<lparr>pm_timers := q\<lparr>tmem := (tmem q)(mp_timer E c := tmem q (mp_timer E p))\<rparr>\<rparr>))"

text \<open>The administration of a new process, on the copy of its parent's slot.\<close>

definition new_slot :: "mproc_t \<Rightarrow> int \<Rightarrow> flags \<Rightarrow> mproc_t" where
  "new_slot m parent fl = m\<lparr>mp_parent := parent, mp_flags := fl, mp_child_utime := 0, mp_child_stime := 0,
     mp_exitstatus := 0, mp_sigstatus := 0\<rparr>"

text \<open>The endpoint SYSTASK gives the child: an error code is negative.\<close>

definition fork_endpt :: "pp_env \<Rightarrow> int \<Rightarrow> bool \<Rightarrow> int \<Rightarrow> int" where
  "fork_endpt E lpid remote nd =
    (if \<not> remote then pp_fork E lpid
     else let ep = pp_rfork E lpid nd; r1 = pp_bindproc E ep nd RMT_BIND; r2 = pp_rsetpname E ep in
       if ep < OK then ep else if r1 < 0 then r1 else if r2 < 0 then r2 else ep)"

definition do_fork :: "pp_env \<Rightarrow> int \<Rightarrow> int \<Rightarrow> pm_st \<Rightarrow> (pm_st \<times> pm_res) option" where
  "do_fork E who lpid st =
    (let (st1, rcode) = sys_procinfo (pp_procinfo E) who st in
     if rcode \<noteq> OK then Some (st1, PmStop rcode)
     else
      let remote = bit (kp_rts st1 who) BIT_REMOTE; child_ep = fork_endpt E lpid remote (kp_nodeid st1 who) in
      if child_ep < 0 then Some (st1, PmRet child_ep)
      else
       let child_nr = ENDPOINT_P child_ep;
           rmp = (if remote then INIT_PROC_NR else mp_of E);
           fl = (if child_nr + pe_nr_tasks (pp_pm E) < pe_nr_sysprocs (pp_pm E) then FORKED_PRIV else FORKED);
           st2 = upd_mproc child_nr (\<lambda>x. new_slot x (if remote then INIT_PROC_NR else who) fl)
             (copy_slot (pp_pm E) child_nr rmp st1) in
       case get_free_pid (pp_pm E) st2 of None \<Rightarrow> None
       | Some (st3, new_pid) \<Rightarrow>
         let st4 = upd_mproc child_nr (\<lambda>x. x\<lparr>mp_pid := new_pid, mp_endpoint := child_ep\<rparr>) st3;
             (st5, rcode) = sys_procinfo (pp_procinfo2 E) child_nr st4 in
         if rcode \<noteq> OK then Some (st5, PmStop rcode)
         else if child_ep \<noteq> kp_endpoint st5 child_nr then Some (st5, PmStop EMOLINVAL)
         else Some (set_reply reply_endpt (kp_endpoint st5 child_nr) rmp st5, PmRet new_pid))"

definition do_wait4fork :: "pp_env \<Rightarrow> int \<Rightarrow> int \<Rightarrow> int \<Rightarrow> pm_st \<Rightarrow> pm_st \<times> pm_res" where
  "do_wait4fork E who who_e child_ep st =
    (let (st1, rcode) = sys_procinfo (pp_procinfo E) who st; child_nr = ENDPOINT_P child_ep in
     if rcode \<noteq> OK then (st1, PmStop rcode)
     else if child_ep \<noteq> who_e then (st1, PmRet EMOLCHILD)
     else if \<not> has_flag st1 child_nr BIT_FORKWAIT then (st1, PmRet EMOLPROCSTS)
     else (clr_flag BIT_FORKWAIT child_nr st1, PmRet (mp_pid (mproc st1 child_nr))))"

section \<open>Exit and wait\<close>

definition exit_code :: "mproc_t \<Rightarrow> int" where
  "exit_code x = mp_exitstatus x * 256 + mp_sigstatus x mod 256"

definition cleanup :: "pp_env \<Rightarrow> int \<Rightarrow> pm_st \<Rightarrow> pm_st \<times> pm_res" where
  "cleanup E n st =
    (let parent = mp_parent (mproc st n);
         (st1, r) =
           (if \<not> has_flag st n BIT_RMT_PROC then
              case setreply E parent (mp_pid (mproc st n)) (set_reply reply_res2 (exit_code (mproc st n)) parent st) of
                (sa, PmRet _) \<Rightarrow> (clr_flag BIT_WAITING parent sa, PmRet OK)
              | other \<Rightarrow> other
            else (st, PmRet OK)) in
     case r of PmStop e \<Rightarrow> (st1, PmStop e)
     | PmRet _ \<Rightarrow>
       let st2 = upd_mproc n (\<lambda>x. x\<lparr>mp_pid := 0, mp_flags := 0, mp_child_utime := 0, mp_child_stime := 0,
                   mp_endpoint := NONE\<rparr>) st1
       in (st2\<lparr>procs_in_use := procs_in_use st2 - 1\<rparr>, PmRet OK))"

text \<open>The children of a process that exits go to INIT.\<close>

fun disinherit :: "pp_env \<Rightarrow> int \<Rightarrow> int list \<Rightarrow> pm_st \<Rightarrow> pm_st \<times> pm_res" where
  "disinherit E proc_nr [] st = (st, PmRet OK)"
| "disinherit E proc_nr (c # cs) st =
    (if mp_parent (mproc st c) = proc_nr \<and> has_flag st c BIT_IN_USE then
       let st1 = upd_mproc c (\<lambda>x. x\<lparr>mp_parent := INIT_PROC_NR\<rparr>) st in
       if has_flag st1 INIT_PROC_NR BIT_WAITING \<and> has_flag st1 c BIT_ZOMBIE then
         (case cleanup E c st1 of (st2, PmRet _) \<Rightarrow> disinherit E proc_nr cs st2 | other \<Rightarrow> other)
       else disinherit E proc_nr cs st1
     else disinherit E proc_nr cs st)"

definition right_child :: "int \<Rightarrow> mproc_t \<Rightarrow> bool" where
  "right_child pidarg x \<longleftrightarrow> pidarg = - 1 \<or> pidarg = mp_pid x \<or> - pidarg = mp_procgrp x"

text \<open>The end of a process: its parent is told if it waits for it, otherwise it becomes a zombie.\<close>

definition bury :: "pp_env \<Rightarrow> int \<Rightarrow> int \<Rightarrow> int \<Rightarrow> pm_st \<Rightarrow> pm_st \<times> pm_res" where
  "bury E n exit_status oper st =
    (if oper = MOLEXIT then
       let st1 = upd_mproc n (\<lambda>x. x\<lparr>mp_exitstatus := schar exit_status\<rparr>) st;
           parent = mp_parent (mproc st1 n); p = mproc st1 parent in
       if (bit (mp_flags p) BIT_WAITING \<and> right_child (mp_wpid p) (mproc st1 n)) \<or> has_flag st1 n BIT_RMT_PROC
       then cleanup E n st1
       else if mp_endpoint p \<noteq> PM_PROC_NR
       then (sig_proc parent SIGCHLD (upd_mproc n (\<lambda>x. x\<lparr>mp_flags := ZOMBIE_USED\<rparr>) st1), PmRet OK)
       else (st1, PmRet OK)
     else cleanup E n st)"

text \<open>What follows the alarm: accounting, SYSTASK unbinds the process, the pending reply is dropped.\<close>

definition leave_kernel :: "pp_env \<Rightarrow> int \<Rightarrow> pm_st \<Rightarrow> pm_st \<times> pm_res" where
  "leave_kernel E n st =
    (let x = mproc st n; parent = mp_parent x; (t0, t1) = pp_garbage E;
         st1 = upd_mproc parent (\<lambda>p. p\<lparr>mp_child_utime := mp_child_utime p + (t0 + mp_child_utime x),
                 mp_child_stime := mp_child_stime p + (t1 + mp_child_stime x)\<rparr>) st;
         rcode = pp_sysexit E (kp_endpoint st1 n) (kp_nodeid st1 n) in
     if rcode < 0 \<and> rcode \<noteq> EMOLNOTBIND \<and> rcode \<noteq> EMOLDSTDIED then (st1, PmStop rcode)
     else
      let (st2, rcode2) = sys_procinfo (pp_procinfo2 E) n st1 in
      if rcode2 \<noteq> OK then (st2, PmStop rcode2)
      else (if bit (kp_rts st2 n) BIT_SLOT_FREE \<or> \<not> has_flag st2 n BIT_RMT_PROC
            then clr_flag BIT_REPLYPENDING n st2 else st2, PmRet OK))"

definition pm_exit :: "pp_env \<Rightarrow> int \<Rightarrow> int \<Rightarrow> int \<Rightarrow> pm_st \<Rightarrow> (pm_st \<times> pm_res) option" where
  "pm_exit E n exit_status oper st =
    (let mp = mproc st (mp_of E); procgrp = (if mp_pid (mproc st n) = mp_procgrp mp then mp_procgrp mp else 0) in
     case (if has_flag st n BIT_ALARM_ON
           then map_option fst (set_alarm (pp_pm E) (kp_endpoint st n) 0 st) else Some st) of None \<Rightarrow> None
     | Some st1 \<Rightarrow>
       (case leave_kernel E n st1 of (st2, PmStop e) \<Rightarrow> Some (st2, PmStop e)
        | (st2, PmRet _) \<Rightarrow>
          (case bury E n exit_status oper st2 of (st3, PmStop e) \<Rightarrow> Some (st3, PmStop e)
           | (st3, PmRet _) \<Rightarrow>
             (case disinherit E n [0 .. nr_procs E - 1] st3 of (st4, PmStop e) \<Rightarrow> Some (st4, PmStop e)
              | (st4, PmRet _) \<Rightarrow>
                let st5 = (if procgrp \<noteq> 0 then fst (check_sig (pp_pm E) (- procgrp) SIGHUP st4) else st4);
                    st6 = (if n + pe_nr_tasks (pp_pm E) < pe_nr_sysprocs (pp_pm E)
                           then upd_mproc n (\<lambda>x. x\<lparr>mp_flags := 0\<rparr>) st5 else st5)
                in Some (st6, PmRet OK)))))"

definition do_pm_exit :: "pp_env \<Rightarrow> int \<Rightarrow> int \<Rightarrow> int \<Rightarrow> pm_st \<Rightarrow> (pm_st \<times> pm_res) option" where
  "do_pm_exit E who status lnx_pid st =
    (if who \<le> 0 then Some (st, PmRet OK)
     else
      let suspend = map_option (\<lambda>(st1, r). (st1, if r = PmRet OK then PmRet SUSPEND else r)) in
      if lnx_pid \<noteq> - 1 then
        (case find (\<lambda>i. kp_lpid st i = lnx_pid) [0 .. nr_procs E - 1] of
           Some i \<Rightarrow> suspend (pm_exit E i status MOLEXIT st)
         | None \<Rightarrow> Some (st, PmRet EMOLBADPID))
      else suspend (pm_exit E (mp_of E) status MOLEXIT st))"

definition pm_do_unbind :: "pp_env \<Rightarrow> int \<Rightarrow> pm_st \<Rightarrow> (pm_st \<times> pm_res) option" where
  "pm_do_unbind E ep st =
    (if ep \<le> 0 then Some (st, PmRet EMOLBADPROC)
     else if ep \<noteq> SELF then pm_exit E (ENDPOINT_P ep) 0 MOLUNBIND st
     else pm_exit E (mp_of E) 0 MOLUNBIND st)"

text \<open>The loop of \<open>do_waitpid\<close>; the last argument counts the children that qualify.\<close>

definition wait_qualifies :: "int \<Rightarrow> int \<Rightarrow> mproc_t \<Rightarrow> bool" where
  "wait_qualifies who pidarg x \<longleftrightarrow> mp_parent x = who \<and> bit (mp_flags x) BIT_IN_USE
     \<and> \<not> (pidarg > 0 \<and> pidarg \<noteq> mp_pid x) \<and> \<not> (pidarg < - 1 \<and> - pidarg \<noteq> mp_procgrp x)"

fun wait_loop :: "pp_env \<Rightarrow> int \<Rightarrow> int \<Rightarrow> int list \<Rightarrow> nat \<Rightarrow> pm_st \<Rightarrow> (pm_st \<times> pm_res) + nat" where
  "wait_loop E who pidarg [] children st = Inr children"
| "wait_loop E who pidarg (n # ns) children st =
    (if wait_qualifies who pidarg (mproc st n) then
       if has_flag st n BIT_ZOMBIE then
         (case cleanup E n st of (st1, PmRet _) \<Rightarrow> Inl (st1, PmRet SUSPEND) | other \<Rightarrow> Inl other)
       else if has_flag st n BIT_STOPPED \<and> mp_sigstatus (mproc st n) \<noteq> 0 then
         Inl (upd_mproc n (\<lambda>x. x\<lparr>mp_sigstatus := 0\<rparr>)
               (set_reply reply_res2 (127 + 256 * mp_sigstatus (mproc st n)) (mp_of E) st), PmRet (mp_pid (mproc st n)))
       else wait_loop E who pidarg ns (children + 1) st
     else wait_loop E who pidarg ns children st)"

text \<open>\<open>is_wait\<close> distinguishes \<open>WAIT\<close> from \<open>WAITPID\<close>; the option bit \<open>WNOHANG\<close> is bit 0.\<close>

definition do_waitpid :: "pp_env \<Rightarrow> int \<Rightarrow> bool \<Rightarrow> int \<Rightarrow> int \<Rightarrow> pm_st \<Rightarrow> pm_st \<times> pm_res" where
  "do_waitpid E who is_wait pid options st =
    (let pidarg0 = (if is_wait then - 1 else pid); opts = (if is_wait then 0 else options);
         pidarg = (if pidarg0 = 0 then - mp_procgrp (mproc st (mp_of E)) else pidarg0) in
     case wait_loop E who pidarg [0 .. nr_procs E - 1] 0 st of
       Inl r \<Rightarrow> r
     | Inr children \<Rightarrow>
       if children > 0 then
         if bit opts 0 then (st, PmRet 0)
         else (upd_mproc (mp_of E) (\<lambda>x. x\<lparr>mp_wpid := pidarg\<rparr>) (set_flag BIT_WAITING (mp_of E) st), PmRet SUSPEND)
       else (st, PmRet EMOLCHILD))"

section \<open>Process identifiers\<close>

lemma bump_range: "1 \<le> p \<Longrightarrow> p \<le> NR_PIDS \<Longrightarrow> 2 \<le> bump_pid p \<and> bump_pid p \<le> NR_PIDS"
  by (simp add: bump_pid_def)

text \<open>How many steps the counter is away from an identifier.\<close>

definition pid_dist :: "int \<Rightarrow> int \<Rightarrow> nat" where
  "pid_dist p q = nat (if p < q then q - p else NR_PIDS - p + (q - 1))"

lemma pid_dist_bump:
  assumes "1 \<le> p" "p \<le> NR_PIDS" "2 \<le> q" "q \<le> NR_PIDS" "bump_pid p \<noteq> q"
  shows "pid_dist (bump_pid p) q < pid_dist p q"
  using assms by (auto simp: pid_dist_def bump_pid_def)

lemma free_pid_loop_finds:
  assumes "\<not> pid_taken E st q" "2 \<le> q" "q \<le> NR_PIDS" "1 \<le> p" "p \<le> NR_PIDS"
  shows "\<exists>r. free_pid_loop E st p = Some r \<and> 2 \<le> r \<and> r \<le> NR_PIDS \<and> \<not> pid_taken E st r"
  using assms(4,5)
proof (induction "pid_dist p q" arbitrary: p rule: less_induct)
  case less
  show ?case
  proof (cases "pid_taken E st (bump_pid p)")
    case True
    then have "bump_pid p \<noteq> q" using assms(1) by auto
    then have "pid_dist (bump_pid p) q < pid_dist p q" using pid_dist_bump less.prems assms(2,3) by blast
    then show ?thesis using less.hyps [of "bump_pid p"] bump_range [OF less.prems] True
      by (simp add: free_pid_loop.simps [of E st p])
  next
    case False
    then show ?thesis using bump_range [OF less.prems] by (simp add: free_pid_loop.simps [of E st p])
  qed
qed

lemma some_pid_free:
  assumes "2 * pe_nr_procs E < NR_PIDS - 1"
  shows "\<exists>q. 2 \<le> q \<and> q \<le> NR_PIDS \<and> \<not> pid_taken E st q"
proof (rule ccontr)
  let ?S = "{0 .. pe_nr_procs E - 1}"
  let ?T = "(\<lambda>n. mp_pid (mproc st n)) ` ?S \<union> (\<lambda>n. mp_procgrp (mproc st n)) ` ?S"
  assume "\<not> ?thesis"
  then have "{2 .. NR_PIDS} \<subseteq> ?T" by (auto simp: pid_taken_def list_ex_iff image_iff)
  then have "card {2 .. NR_PIDS} \<le> card ?T" by (rule card_mono [rotated]) simp
  also have "\<dots> \<le> card ?S + card ?S"
    by (rule order_trans [OF card_Un_le]) (intro add_mono card_image_le finite_atLeastAtMost_int)
  finally have "32759 \<le> 2 * nat (pe_nr_procs E)" by simp
  then show False using assms by simp
qed

text \<open>PM always finds a process identifier for a new process: with fewer than 16380 slots the search of \<open>get_free_pid\<close> ends,
  whatever the table holds and wherever the counter stands, and what it returns lies between 2 and \<open>NR_PIDS\<close> and
  is neither the identifier nor the group of any process of the table.\<close>

theorem get_free_pid_returns:
  assumes "2 * pe_nr_procs E < NR_PIDS - 1" "1 \<le> next_pid st" "next_pid st \<le> NR_PIDS"
  shows "\<exists>p. get_free_pid E st = Some (st\<lparr>next_pid := p\<rparr>, p) \<and> 2 \<le> p \<and> p \<le> NR_PIDS
    \<and> (\<forall>n. 0 \<le> n \<and> n < pe_nr_procs E \<longrightarrow> mp_pid (mproc st n) \<noteq> p \<and> mp_procgrp (mproc st n) \<noteq> p)"
proof -
  obtain q where "2 \<le> q" "q \<le> NR_PIDS" "\<not> pid_taken E st q" using some_pid_free [OF assms(1)] by blast
  then obtain r where "free_pid_loop E st (next_pid st) = Some r" "2 \<le> r" "r \<le> NR_PIDS" "\<not> pid_taken E st r"
    using free_pid_loop_finds assms(2,3) by blast
  then show ?thesis by (auto simp: get_free_pid_def pid_taken_def list_ex_iff)
qed

section \<open>Lemmas on the table\<close>

lemma mproc_upd [simp]: "mproc (upd_mproc n f st) m = (if m = n then f (mproc st n) else mproc st m)"
  by (simp add: upd_mproc_def)

lemma upd_mproc_sel [simp]:
  "kp_endpoint (upd_mproc n f st) = kp_endpoint st" "kp_rts (upd_mproc n f st) = kp_rts st"
  "kp_nodeid (upd_mproc n f st) = kp_nodeid st" "kp_lpid (upd_mproc n f st) = kp_lpid st"
  "procs_in_use (upd_mproc n f st) = procs_in_use st" "next_pid (upd_mproc n f st) = next_pid st"
  "sigs_sent (upd_mproc n f st) = sigs_sent st" "boottime (upd_mproc n f st) = boottime st"
  by (simp_all add: upd_mproc_def)

lemmas pm_upd_defs = set_flag_def clr_flag_def set_reply_def

lemma put_kproc_sel [simp]: "mproc (put_kproc n e st) = mproc st" "procs_in_use (put_kproc n e st) = procs_in_use st"
  "next_pid (put_kproc n e st) = next_pid st" "kp_rts (put_kproc n e st) n = ke_rts e"
  "kp_endpoint (put_kproc n e st) n = ke_endpoint e"
  by (simp_all add: put_kproc_def)

lemma sig_proc_sel [simp]: "mproc (sig_proc n s st) = mproc st" "procs_in_use (sig_proc n s st) = procs_in_use st"
  "next_pid (sig_proc n s st) = next_pid st"
  by (simp_all add: sig_proc_def)

lemma sig_loop_sel: "mproc (fst (sig_loop E i s ns c e st)) = mproc st \<and> procs_in_use (fst (sig_loop E i s ns c e st)) = procs_in_use st
    \<and> next_pid (fst (sig_loop E i s ns c e st)) = next_pid st"
  by (induction E i s ns c e st rule: sig_loop.induct) (auto simp: Let_def)

lemma check_sig_sel [simp]: "mproc (fst (check_sig E i s st)) = mproc st"
  "procs_in_use (fst (check_sig E i s st)) = procs_in_use st" "next_pid (fst (check_sig E i s st)) = next_pid st"
  using sig_loop_sel [of E i s "[0 .. NR_PROCS - 1]" 0 ESRCH st] by (auto simp: check_sig_def Let_def split: prod.split)

lemma cleanup_local:
  assumes "\<not> has_flag st n BIT_RMT_PROC" "mp_parent (mproc st n) = p" "0 \<le> p" "p < nr_procs E" "p \<noteq> n"
  shows "\<exists>st'. cleanup E n st = (st', PmRet OK) \<and> procs_in_use st' = procs_in_use st - 1 \<and> next_pid st' = next_pid st
    \<and> mproc st' = (mproc st)(p := (mproc st p)\<lparr>mp_reply := (mp_reply (mproc st p))(reply_res2 := exit_code (mproc st n),
          reply_res := mp_pid (mproc st n)),
        mp_flags := unset_bit BIT_WAITING (set_bit BIT_REPLYPENDING (mp_flags (mproc st p)))\<rparr>,
      n := (mproc st n)\<lparr>mp_pid := 0, mp_flags := 0, mp_child_utime := 0, mp_child_stime := 0, mp_endpoint := NONE\<rparr>)"
  using assms by (auto simp: cleanup_def setreply_def pm_upd_defs Let_def fun_eq_iff)

lemma disinherit_none:
  assumes "\<And>c. c \<in> set cs \<Longrightarrow> \<not> (mp_parent (mproc st c) = n \<and> has_flag st c BIT_IN_USE)"
  shows "disinherit E n cs st = (st, PmRet OK)"
  using assms by (induction cs) auto

lemma wait_loop_one:
  assumes "distinct ns" "c \<in> set ns" "wait_qualifies who pidarg (mproc st c)"
    and "\<And>n. n \<in> set ns \<Longrightarrow> n \<noteq> c \<Longrightarrow> \<not> wait_qualifies who pidarg (mproc st n)"
  shows "wait_loop E who pidarg ns k st =
    (if has_flag st c BIT_ZOMBIE then
       (case cleanup E c st of (st1, PmRet _) \<Rightarrow> Inl (st1, PmRet SUSPEND) | other \<Rightarrow> Inl other)
     else if has_flag st c BIT_STOPPED \<and> mp_sigstatus (mproc st c) \<noteq> 0 then
       Inl (upd_mproc c (\<lambda>x. x\<lparr>mp_sigstatus := 0\<rparr>)
             (set_reply reply_res2 (127 + 256 * mp_sigstatus (mproc st c)) (mp_of E) st), PmRet (mp_pid (mproc st c)))
     else Inr (k + 1))"
  using assms
proof (induction ns arbitrary: k)
  case (Cons n ns)
  have none: "wait_loop E who pidarg ms k st = Inr k"
    if "\<And>m. m \<in> set ms \<Longrightarrow> \<not> wait_qualifies who pidarg (mproc st m)" for ms k
    using that by (induction ms) auto
  show ?case
  proof (cases "n = c")
    case True
    then show ?thesis using Cons.prems none [of ns "Suc k"] by auto
  next
    case False
    then show ?thesis using Cons.IH [of k] Cons.prems by auto
  qed
qed simp

lemma copy_slot_sel [simp]: "mproc (copy_slot E c p st) n = (if n = c then mproc st p else mproc st n)"
  "procs_in_use (copy_slot E c p st) = procs_in_use st" "next_pid (copy_slot E c p st) = next_pid st"
  "kp_endpoint (copy_slot E c p st) = kp_endpoint st"
  by (simp_all add: copy_slot_def Let_def)

section \<open>Exit and wait meet\<close>

text \<open>A child \<open>c\<close> of \<open>p\<close>, an ordinary user process without alarm and without children, that the kernel lets go.\<close>

definition plain_child :: "pp_env \<Rightarrow> int \<Rightarrow> int \<Rightarrow> pm_st \<Rightarrow> bool" where
  "plain_child E p c st \<longleftrightarrow> 0 \<le> p \<and> p < nr_procs E \<and> 0 < c \<and> c < nr_procs E \<and> p \<noteq> c
     \<and> pe_nr_sysprocs (pp_pm E) \<le> c + pe_nr_tasks (pp_pm E) \<and> mp_parent (mproc st c) = p
     \<and> has_flag st c BIT_IN_USE \<and> \<not> has_flag st c BIT_ZOMBIE \<and> \<not> has_flag st c BIT_STOPPED \<and> \<not> has_flag st c BIT_RMT_PROC
     \<and> \<not> has_flag st c BIT_ALARM_ON \<and> 0 < mp_pid (mproc st c) \<and> mp_endpoint (mproc st p) \<noteq> PM_PROC_NR
     \<and> (\<forall>n. n \<noteq> c \<longrightarrow> mp_pid (mproc st n) \<noteq> mp_pid (mproc st c))
     \<and> (\<forall>n. mp_parent (mproc st n) = c \<longrightarrow> \<not> has_flag st n BIT_IN_USE)"

definition lets_go :: "pp_env \<Rightarrow> int \<Rightarrow> bool" where
  "lets_go E c \<longleftrightarrow> (\<forall>e nd. pp_sysexit E e nd = OK) \<and> fst (pp_procinfo2 E c) = OK"

text \<open>The slot of the child after its accounting, and of its parent.\<close>

definition counted :: "pp_env \<Rightarrow> int \<Rightarrow> pm_st \<Rightarrow> mproc_t" where
  "counted E c st = (let x = mproc st c; p = mproc st (mp_parent x); (t0, t1) = pp_garbage E in
     p\<lparr>mp_child_utime := mp_child_utime p + (t0 + mp_child_utime x),
       mp_child_stime := mp_child_stime p + (t1 + mp_child_stime x)\<rparr>)"

lemma leave_kernel_plain:
  assumes "plain_child E p c st" "lets_go E c"
  shows "\<exists>st'. leave_kernel E c st = (st', PmRet OK) \<and> procs_in_use st' = procs_in_use st \<and> next_pid st' = next_pid st
    \<and> mproc st' = (mproc st)(p := counted E c st, c := (mproc st c)\<lparr>mp_flags := unset_bit BIT_REPLYPENDING (mp_flags (mproc st c))\<rparr>)"
  using assms by (auto simp: leave_kernel_def plain_child_def lets_go_def sys_procinfo_def counted_def pm_upd_defs
    Let_def fun_eq_iff split: prod.split)

lemma exit_plain:
  assumes c: "plain_child E p c st" and E: "lets_go E c" "mp_of E = c"
  shows "\<exists>st' s. do_pm_exit E c status (- 1) st = Some (st', PmRet SUSPEND)
    \<and> mproc s = (mproc st)(p := counted E c st, c := (mproc st c)\<lparr>mp_flags := unset_bit BIT_REPLYPENDING (mp_flags (mproc st c)),
        mp_exitstatus := schar status\<rparr>)
    \<and> procs_in_use s = procs_in_use st
    \<and> (if has_flag st p BIT_WAITING \<and> right_child (mp_wpid (mproc st p)) (mproc st c)
       then \<exists>u. cleanup E c s = (u, PmRet OK) \<and> mproc st' = mproc u \<and> procs_in_use st' = procs_in_use u
       else mproc st' = (mproc s)(c := (mproc s c)\<lparr>mp_flags := ZOMBIE_USED\<rparr>) \<and> procs_in_use st' = procs_in_use s)"
proof -
  obtain s0 where s0: "leave_kernel E c st = (s0, PmRet OK)" "procs_in_use s0 = procs_in_use st"
    "mproc s0 = (mproc st)(p := counted E c st, c := (mproc st c)\<lparr>mp_flags := unset_bit BIT_REPLYPENDING (mp_flags (mproc st c))\<rparr>)"
    using leave_kernel_plain [OF c E(1)] by blast
  define s where "s = upd_mproc c (\<lambda>x. x\<lparr>mp_exitstatus := schar status\<rparr>) s0"
  note cd = c [unfolded plain_child_def]
  have ms: "mproc s = (mproc st)(p := counted E c st, c := (mproc st c)\<lparr>mp_flags := unset_bit BIT_REPLYPENDING (mp_flags (mproc st c)),
        mp_exitstatus := schar status\<rparr>)" by (simp add: s_def s0(3) fun_eq_iff)
  have cp: "mp_flags (counted E c st) = mp_flags (mproc st p)" "mp_wpid (counted E c st) = mp_wpid (mproc st p)"
    "mp_endpoint (counted E c st) = mp_endpoint (mproc st p)" "mp_parent (counted E c st) = mp_parent (mproc st p)"
    using cd by (simp_all add: counted_def Let_def split: prod.split)
  have rc: "right_child (mp_wpid (mproc s p)) (mproc s c) = right_child (mp_wpid (mproc st p)) (mproc st c)"
    using cd cp by (simp add: ms right_child_def)
  have orphan: "disinherit E c ns u = (u, PmRet OK)" if "\<And>n. mp_parent (mproc u n) = mp_parent (mproc st n)"
    "\<And>n. has_flag u n BIT_IN_USE \<Longrightarrow> has_flag st n BIT_IN_USE" for u ns
    using cd that by (intro disinherit_none) auto
  have par: "mp_parent (mproc s n) = mp_parent (mproc st n)" "has_flag s n BIT_IN_USE = has_flag st n BIT_IN_USE" for n
    using cd cp by (auto simp: ms bit_unset_bit_iff)
  let ?tail = "\<lambda>u. (if mp_pid (mproc st c) = mp_procgrp (mproc st c) \<and> mp_procgrp (mproc st c) \<noteq> 0
      then fst (check_sig (pp_pm E) (- mp_procgrp (mproc st c)) SIGHUP u) else u)"
  have run: "do_pm_exit E c status (- 1) st = Some (?tail u, PmRet SUSPEND)"
    if "bury E c status MOLEXIT s0 = (u, PmRet OK)" "\<And>n. mp_parent (mproc u n) = mp_parent (mproc st n)"
      "\<And>n. has_flag u n BIT_IN_USE \<Longrightarrow> has_flag st n BIT_IN_USE" for u
    using cd E(2) that(1) orphan [OF that(2,3)] s0(1)
    by (auto simp: do_pm_exit_def pm_exit_def Let_def)
  have ms_tail: "mproc (?tail u) = mproc u" "procs_in_use (?tail u) = procs_in_use u" for u by simp_all
  show ?thesis
  proof (cases "has_flag st p BIT_WAITING \<and> right_child (mp_wpid (mproc st p)) (mproc st c)")
    case True
    obtain u where u: "cleanup E c s = (u, PmRet OK)" "mproc u = (mproc s)(p := (mproc s p)\<lparr>mp_reply := (mp_reply (mproc s p))
          (reply_res2 := exit_code (mproc s c), reply_res := mp_pid (mproc s c)),
        mp_flags := unset_bit BIT_WAITING (set_bit BIT_REPLYPENDING (mp_flags (mproc s p)))\<rparr>,
      c := (mproc s c)\<lparr>mp_pid := 0, mp_flags := 0, mp_child_utime := 0, mp_child_stime := 0, mp_endpoint := NONE\<rparr>)"
      using cleanup_local [of s c p E] cd by (auto simp: ms bit_unset_bit_iff)
    have "bury E c status MOLEXIT s0 = (u, PmRet OK)"
      using True u(1) cd cp rc unfolding bury_def s_def [symmetric] by (simp add: ms Let_def)
    moreover have "mp_parent (mproc u n) = mp_parent (mproc st n)" "has_flag u n BIT_IN_USE \<Longrightarrow> has_flag st n BIT_IN_USE" for n
      using par [of n] cd by (auto simp: u(2) bit_unset_bit_iff bit_set_bit_iff split: if_splits)
    ultimately have "do_pm_exit E c status (- 1) st = Some (?tail u, PmRet SUSPEND)" by (rule run)
    moreover have "procs_in_use s = procs_in_use st" by (simp add: s_def s0(2))
    moreover have "\<exists>v. cleanup E c s = (v, PmRet OK) \<and> mproc (?tail u) = mproc v \<and> procs_in_use (?tail u) = procs_in_use v"
      using u(1) ms_tail by blast
    ultimately show ?thesis unfolding if_P [OF True] using ms by blast
  next
    case False
    let ?u = "sig_proc p SIGCHLD (upd_mproc c (\<lambda>x. x\<lparr>mp_flags := ZOMBIE_USED\<rparr>) s)"
    have "bury E c status MOLEXIT s0 = (?u, PmRet OK)"
      using False cd cp rc unfolding bury_def s_def [symmetric] by (auto simp: ms Let_def bit_unset_bit_iff)
    moreover have "mp_parent (mproc ?u n) = mp_parent (mproc st n)" "has_flag ?u n BIT_IN_USE \<Longrightarrow> has_flag st n BIT_IN_USE" for n
      using par [of n] cd by (auto split: if_splits)
    ultimately have "do_pm_exit E c status (- 1) st = Some (?tail ?u, PmRet SUSPEND)" by (rule run)
    moreover have "procs_in_use s = procs_in_use st" by (simp add: s_def s0(2))
    moreover have "mproc ?u = (mproc s)(c := (mproc s c)\<lparr>mp_flags := ZOMBIE_USED\<rparr>)" "procs_in_use ?u = procs_in_use s"
      by (simp_all add: fun_eq_iff)
    then have "mproc (?tail ?u) = (mproc s)(c := (mproc s c)\<lparr>mp_flags := ZOMBIE_USED\<rparr>)" "procs_in_use (?tail ?u) = procs_in_use s"
      unfolding ms_tail by blast+
    ultimately show ?thesis unfolding if_not_P [OF False] using ms by blast
  qed
qed

lemma waitpid_waits:
  assumes c: "plain_child E p c st" and E: "mp_of E' = p" "nr_procs E' = nr_procs E" and pid: "pid = mp_pid (mproc st c)"
  shows "do_waitpid E' p False pid 0 st =
    (upd_mproc p (\<lambda>x. x\<lparr>mp_wpid := pid\<rparr>) (set_flag BIT_WAITING p st), PmRet SUSPEND)"
proof -
  note cd = c [unfolded plain_child_def]
  have "wait_loop E' p pid [0 .. nr_procs E - 1] 0 st = Inr 1"
    using cd pid by (subst wait_loop_one [of _ c]) (auto simp: wait_qualifies_def)
  then show ?thesis using E cd pid by (simp add: do_waitpid_def Let_def)
qed

lemma waitpid_collects:
  assumes z: "has_flag st c BIT_ZOMBIE" "has_flag st c BIT_IN_USE" "\<not> has_flag st c BIT_RMT_PROC" "mp_parent (mproc st c) = p"
    and r: "0 \<le> p" "p < nr_procs E" "0 \<le> c" "c < nr_procs E" "p \<noteq> c"
    and pid: "pid = mp_pid (mproc st c)" "0 < pid" "\<forall>n. n \<noteq> c \<longrightarrow> mp_pid (mproc st n) \<noteq> pid"
  shows "\<exists>st'. do_waitpid E p False pid 0 st = (st', PmRet SUSPEND) \<and> cleanup E c st = (st', PmRet OK)"
proof -
  obtain u where u: "cleanup E c st = (u, PmRet OK)" using cleanup_local [OF z(3,4) r(1,2,5)] by blast
  have "wait_loop E p pid [0 .. nr_procs E - 1] 0 st = Inl (u, PmRet SUSPEND)"
    using assms u by (subst wait_loop_one [of _ c]) (auto simp: wait_qualifies_def)
  then show ?thesis using u pid(2) by (simp add: do_waitpid_def Let_def)
qed

text \<open>C8: It does not matter whether a parent waits for its child before or after the child exits.  This holds for a local user process that is
  neither stopped nor a zombie, has no alarm and no children and a parent other than PM, which asks for it by its
  identifier and without options, when the kernel lets the child go.  Either way nobody gets an
  answer from the call itself, and in the end the parent has a reply pending with the child's identifier and its exit status,
  it waits no longer, the child's slot is free, and the tables of the two runs differ in nothing but the parent's record of whom
  it last waited for.\<close>

theorem wait_and_exit_commute:
  assumes c: "plain_child E p c st" "lets_go E c" "mp_of E = c" and p: "\<not> has_flag st p BIT_WAITING"
    and E': "mp_of E' = p" "nr_procs E' = nr_procs E" and pid: "pid = mp_pid (mproc st c)"
  shows "\<exists>s1 s2 t1 t2. do_waitpid E' p False pid 0 st = (s1, PmRet SUSPEND)
      \<and> do_pm_exit E c status (- 1) s1 = Some (s2, PmRet SUSPEND)
    \<and> do_pm_exit E c status (- 1) st = Some (t1, PmRet SUSPEND) \<and> do_waitpid E' p False pid 0 t1 = (t2, PmRet SUSPEND)
    \<and> mproc s2 = (mproc t2)(p := (mproc t2 p)\<lparr>mp_wpid := pid\<rparr>) \<and> procs_in_use s2 = procs_in_use t2
    \<and> mp_flags (mproc t2 c) = 0 \<and> mp_pid (mproc t2 c) = 0
    \<and> has_flag t2 p BIT_REPLYPENDING \<and> \<not> has_flag t2 p BIT_WAITING \<and> mp_reply (mproc t2 p) reply_res = pid
    \<and> mp_reply (mproc t2 p) reply_res2 = schar status * 256 + mp_sigstatus (mproc st c) mod 256"
proof -
  note cd = c(1) [unfolded plain_child_def]
  let ?s1 = "upd_mproc p (\<lambda>x. x\<lparr>mp_wpid := pid\<rparr>) (set_flag BIT_WAITING p st)"
  have m1: "mproc ?s1 = (mproc st)(p := (mproc st p)\<lparr>mp_wpid := pid, mp_flags := set_bit BIT_WAITING (mp_flags (mproc st p))\<rparr>)"
    using cd by (simp add: set_flag_def fun_eq_iff)
  have c1: "plain_child E p c ?s1" using cd unfolding plain_child_def m1 by (auto simp: bit_set_bit_iff)
  have w1: "has_flag ?s1 p BIT_WAITING \<and> right_child (mp_wpid (mproc ?s1 p)) (mproc ?s1 c)"
    using cd pid unfolding m1 by (simp add: right_child_def)
  obtain s s2 u where s: "do_pm_exit E c status (- 1) ?s1 = Some (s2, PmRet SUSPEND)"
    "mproc s = (mproc ?s1)(p := counted E c ?s1, c := (mproc ?s1 c)\<lparr>mp_flags := unset_bit BIT_REPLYPENDING (mp_flags (mproc ?s1 c)),
        mp_exitstatus := schar status\<rparr>)" "procs_in_use s = procs_in_use ?s1"
    "cleanup E c s = (u, PmRet OK)" "mproc s2 = mproc u" "procs_in_use s2 = procs_in_use u"
    using exit_plain [OF c1 c(2,3), of status] unfolding if_P [OF w1] by blast
  have n1: "\<not> (has_flag st p BIT_WAITING \<and> right_child (mp_wpid (mproc st p)) (mproc st c))" using p by blast
  obtain t1 and t :: pm_st where t: "do_pm_exit E c status (- 1) st = Some (t1, PmRet SUSPEND)"
    "mproc t = (mproc st)(p := counted E c st, c := (mproc st c)\<lparr>mp_flags := unset_bit BIT_REPLYPENDING (mp_flags (mproc st c)),
        mp_exitstatus := schar status\<rparr>)" "procs_in_use t = procs_in_use st"
    "mproc t1 = (mproc t)(c := (mproc t c)\<lparr>mp_flags := ZOMBIE_USED\<rparr>)" "procs_in_use t1 = procs_in_use t"
    using exit_plain [OF c, of status] unfolding if_not_P [OF n1] by blast
  have mt1: "mproc t1 = (mproc st)(p := counted E c st, c := (mproc st c)\<lparr>mp_flags := ZOMBIE_USED, mp_exitstatus := schar status\<rparr>)"
    by (simp add: t(2,4) fun_eq_iff)
  have pc: "mp_pid (counted E c st) = mp_pid (mproc st p)" by (use cd in \<open>simp add: counted_def Let_def split: prod.split\<close>)
  have cnt: "counted E c ?s1 = (counted E c st)\<lparr>mp_wpid := pid, mp_flags := set_bit BIT_WAITING (mp_flags (mproc st p))\<rparr>"
    "mp_flags (counted E c st) = mp_flags (mproc st p)"
    using cd by (simp_all add: counted_def set_flag_def Let_def split: prod.split)
  have "\<forall>n. n \<noteq> c \<longrightarrow> mp_pid (mproc t1 n) \<noteq> pid" using cd pid pc by (simp add: mt1)
  then obtain t2 where t2: "do_waitpid E' p False pid 0 t1 = (t2, PmRet SUSPEND)" "cleanup E' c t1 = (t2, PmRet OK)"
    using waitpid_collects [of t1 c p E' pid] cd pid E' by (auto simp: mt1 bit_numeral_rec)
  have z: "\<not> has_flag t1 c BIT_RMT_PROC" "mp_parent (mproc t1 c) = p" "\<not> has_flag s c BIT_RMT_PROC" "mp_parent (mproc s c) = p"
    using cd by (simp_all add: mt1 s(2) set_flag_def bit_unset_bit_iff bit_numeral_rec)
  note ct = cleanup_local [OF z(1,2), of E', unfolded t2(2)] and cs = cleanup_local [OF z(3,4), of E, unfolded s(4)]
  have mt2: "mproc t2 = (mproc t1)(p := (mproc t1 p)\<lparr>mp_reply := (mp_reply (mproc t1 p))(reply_res2 := exit_code (mproc t1 c),
          reply_res := mp_pid (mproc t1 c)),
        mp_flags := unset_bit BIT_WAITING (set_bit BIT_REPLYPENDING (mp_flags (mproc t1 p)))\<rparr>,
      c := (mproc t1 c)\<lparr>mp_pid := 0, mp_flags := 0, mp_child_utime := 0, mp_child_stime := 0, mp_endpoint := NONE\<rparr>)"
    "procs_in_use t2 = procs_in_use t1 - 1" using ct cd E'(2) by auto
  have mu: "mproc u = (mproc s)(p := (mproc s p)\<lparr>mp_reply := (mp_reply (mproc s p))(reply_res2 := exit_code (mproc s c),
          reply_res := mp_pid (mproc s c)),
        mp_flags := unset_bit BIT_WAITING (set_bit BIT_REPLYPENDING (mp_flags (mproc s p)))\<rparr>,
      c := (mproc s c)\<lparr>mp_pid := 0, mp_flags := 0, mp_child_utime := 0, mp_child_stime := 0, mp_endpoint := NONE\<rparr>)"
    "procs_in_use u = procs_in_use s - 1" using cs cd by auto
  have fl: "unset_bit BIT_WAITING (set_bit BIT_REPLYPENDING (set_bit BIT_WAITING f)) = unset_bit BIT_WAITING (set_bit BIT_REPLYPENDING f)"
    for f :: flags by (rule bit_eqI) (auto simp: bit_unset_bit_iff bit_set_bit_iff)
  have m1': "mproc ?s1 c = mproc st c" "n \<noteq> p \<Longrightarrow> mproc ?s1 n = mproc st n" for n using cd by (simp_all add: set_flag_def)
  have "mproc s2 n = ((mproc t2)(p := (mproc t2 p)\<lparr>mp_wpid := pid\<rparr>)) n" for n
    using cd by (simp add: s(5) mu mt2 mt1 s(2) cnt m1' fl exit_code_def del: mproc_upd One_nat_def)
  then have tab: "mproc s2 = (mproc t2)(p := (mproc t2 p)\<lparr>mp_wpid := pid\<rparr>)" by blast
  have use: "procs_in_use s2 = procs_in_use t2" by (simp add: s(3,6) mu(2) mt2(2) t(3,5) set_flag_def)
  have fin: "mp_flags (mproc t2 c) = 0" "mp_pid (mproc t2 c) = 0" "has_flag t2 p BIT_REPLYPENDING" "\<not> has_flag t2 p BIT_WAITING"
    "mp_reply (mproc t2 p) reply_res = pid"
    "mp_reply (mproc t2 p) reply_res2 = schar status * 256 + mp_sigstatus (mproc st c) mod 256"
    using cd pid by (simp_all add: mt2(1) mt1 exit_code_def bit_unset_bit_iff bit_set_bit_iff)
  have "do_waitpid E' p False pid 0 st = (?s1, PmRet SUSPEND)" by (rule waitpid_waits [OF c(1) E' pid])
  then show ?thesis using s(1) t(1) t2(1) tab use fin by metis
qed

end
