(* ===== verification/Pm_Calls.thy ===== *)
theory Pm_Calls
  imports Pm_Process
begin

text \<open>
  The remaining calls of the process manager and its main loop: registration of system processes and remote execution
  (\<open>forkexit.c\<close>, \<open>rexec.c\<close>), identities (\<open>getset.c\<close>), the time (\<open>time.c\<close>), look-up (\<open>misc.c\<close>), the initial table, the check of
  incoming messages, the dispatch over \<open>call_vec\<close> and the loop that sends the replies (\<open>pm.c\<close>, \<open>table.c\<close>).

  A message is the sequence of its 32-bit words: 0 is \<open>m_source\<close>, 1 \<open>m_type\<close>, and from 2 on the union, where a long
  takes one word.  One round of the main loop keeps the variables \<open>who_p\<close>, \<open>mp\<close> and \<open>result\<close> from round to round, as the source
  does.  Where the source reads a variable it never set, or calls a function with an argument missing, the value is
  a parameter.
\<close>

section \<open>Environment and constants\<close>

type_synonym pm_msg = "nat \<Rightarrow> int"

record pc_env =
  pc_pp :: pp_env
  pc_setpname :: "int \<Rightarrow> int"
  pc_times :: "int \<times> (nat \<Rightarrow> molclock)"
  pc_key :: "int \<times> string"
  pc_vircopy :: int
  pc_proctab :: "int \<times> (int \<Rightarrow> kentry)"
  pc_privtab :: int
  pc_slotstab :: int
  pc_rmtpid :: int        \<comment> \<open>rmt_pid of do_rexec when it was not set\<close>
  pc_migr :: int          \<comment> \<open>do_migrproc has no return statement\<close>
  pc_oper :: int          \<comment> \<open>the third argument the main loop does not give to pm_exit\<close>
  pc_systask :: int
  pc_slots :: int

abbreviation (input) "pm_of E \<equiv> pp_pm (pc_pp E)"
abbreviation (input) "cur_mp E \<equiv> pe_mp (pp_pm (pc_pp E))"

abbreviation (input) "MOLFORK \<equiv> 2 :: int"
abbreviation (input) "MOLWAIT \<equiv> 7 :: int"
abbreviation (input) "MOLWAITPID \<equiv> 11 :: int"
abbreviation (input) "MOLTIME \<equiv> 13 :: int"
abbreviation (input) "MOLGETPID \<equiv> 20 :: int"
abbreviation (input) "MOLSETUID \<equiv> 23 :: int"
abbreviation (input) "MOLGETUID \<equiv> 24 :: int"
abbreviation (input) "MOLSTIME \<equiv> 25 :: int"
abbreviation (input) "MOLALARM \<equiv> 27 :: int"
abbreviation (input) "MOLTIMES \<equiv> 43 :: int"
abbreviation (input) "MOLSETGID \<equiv> 46 :: int"
abbreviation (input) "MOLGETGID \<equiv> 47 :: int"
abbreviation (input) "MOLSETSID \<equiv> 62 :: int"
abbreviation (input) "MOLGETPGRP \<equiv> 63 :: int"
abbreviation (input) "MOLPROCSTAT \<equiv> 78 :: int"
abbreviation (input) "MOLGETSYSINFO \<equiv> 79 :: int"
abbreviation (input) "MOLGETPROCNR \<equiv> 80 :: int"
abbreviation (input) "MOLGETTIMEOFDAY \<equiv> 90 :: int"
abbreviation (input) "MOLSETEUID \<equiv> 91 :: int"
abbreviation (input) "MOLSETEGID \<equiv> 92 :: int"
abbreviation (input) "MOLFREEPROC \<equiv> 95 :: int"
abbreviation (input) "MOLBINDPROC \<equiv> 96 :: int"
abbreviation (input) "MOLMIGRPROC \<equiv> 97 :: int"
abbreviation (input) "MOLREXEC \<equiv> 98 :: int"
abbreviation (input) "MOLSETPNAME \<equiv> 99 :: int"
abbreviation (input) "MOLWAIT4FORK \<equiv> 100 :: int"
abbreviation (input) "NCALLS \<equiv> 102 :: int"
abbreviation (input) "ENOSYS \<equiv> 38 :: int"
abbreviation (input) "EINVAL \<equiv> 22 :: int"
abbreviation (input) "EMOLSRCH \<equiv> - 3 :: int"
abbreviation (input) "EMOLNOSYS \<equiv> - 38 :: int"
abbreviation (input) "EMOLEXIST \<equiv> - 17 :: int"
abbreviation (input) "CLOCK_NR \<equiv> - 35 :: int"
abbreviation (input) "LAST_FEW \<equiv> 2 :: int"
abbreviation (input) "MAXPROCNAME \<equiv> 16 :: int"
abbreviation (input) "SIGABRT \<equiv> 6 :: int"
abbreviation (input) "SIGSEGV \<equiv> 11 :: int"
abbreviation (input) "SI_KINFO \<equiv> 0 :: int"
abbreviation (input) "SI_PMPROC_TAB \<equiv> 2 :: int"
abbreviation (input) "SI_KPROC_TAB \<equiv> 7 :: int"
abbreviation (input) "SI_MACHINE \<equiv> 8 :: int"
abbreviation (input) "SI_PRIV_TAB \<equiv> 9 :: int"
abbreviation (input) "SI_SLOTS_TAB \<equiv> 10 :: int"

section \<open>System processes and remote execution\<close>

text \<open>The third component of the result is the slot \<open>mp\<close> points to afterwards: \<open>mproc_init\<close> moves it.  The test
  of \<open>p_rts_flags\<close> is with the number \<open>BIT_REMOTE\<close> as a mask, as in the source.  The slot number is not checked from below: where the
  source then writes in front of the table, the model has a slot of that number.\<close>

definition do_bindproc :: "pc_env \<Rightarrow> pm_msg \<Rightarrow> pm_st \<Rightarrow> (pm_st \<times> pm_res \<times> int) option" where
  "do_bindproc E m st =
    (let P = pc_pp E; new_pid = m 2; lpid = m 3; sysproc_nr = m 4; oper = m 5; mp = cur_mp E in
     if oper < 0 \<or> oper > REPLICA_BIND then Some (st, PmRet EMOLBINDTYPE, mp)
     else if sysproc_nr + pe_nr_tasks (pm_of E) \<ge> pe_nr_sysprocs (pm_of E) then Some (st, PmRet EMOLBADPROC, mp)
     else
      let (st1, rcode) = sys_procinfo (pp_procinfo P) sysproc_nr st; rts = kp_rts st1 sysproc_nr;
          checked = rts \<noteq> 1 \<and> rts AND word_of_nat BIT_REMOTE = 0 in
      if rcode \<noteq> OK then Some (st1, PmStop rcode, mp)
      else if checked \<and> kp_lpid st1 sysproc_nr \<noteq> lpid then Some (st1, PmRet EMOLEXIST, mp)
      else if checked \<and> has_flag st1 sysproc_nr BIT_IN_USE then Some (st1, PmStop SIGABRT, mp)
      else
       let ep = pp_bindproc P sysproc_nr lpid oper in
       if ep < 0 then Some (mproc_init sysproc_nr st1, PmRet ep, sysproc_nr)
       else
        let (st2, rcode2) = sys_procinfo (pp_procinfo2 P) sysproc_nr st1 in
        if rcode2 \<noteq> OK then Some (st2, PmStop rcode2, mp)
        else
         let st3 = upd_mproc sysproc_nr (\<lambda>x. x\<lparr>mp_parent := kp_endpoint st2 PM_PROC_NR, mp_flags := PRIV_USED,
                     mp_child_utime := 0, mp_child_stime := 0, mp_exitstatus := 0, mp_sigstatus := 0, mp_nice := PRIO_SERVER,
                     mp_endpoint := kp_endpoint st2 sysproc_nr\<rparr>) st2;
             st4 = st3\<lparr>procs_in_use := procs_in_use st3 + 1\<rparr> in
         case (if new_pid = PROC_NO_PID then get_free_pid (pm_of E) st4 else Some (st4, new_pid)) of None \<Rightarrow> None
         | Some (st5, pid) \<Rightarrow>
           Some (set_reply reply_endpt (kp_endpoint st5 sysproc_nr) sysproc_nr
                   (upd_mproc sysproc_nr (\<lambda>x. x\<lparr>mp_pid := pid\<rparr>) st5), PmRet pid, mp))"

text \<open>The slot is always 0: the search of a free one is commented out.\<close>

definition do_freeproc :: "pc_env \<Rightarrow> int \<Rightarrow> pm_st \<Rightarrow> pm_st \<times> pm_res" where
  "do_freeproc E who st =
    (let nr = pe_nr_procs (pm_of E); mp = cur_mp E; child_nr = 0 in
     if procs_in_use st = nr \<or> (procs_in_use st \<ge> nr - LAST_FEW \<and> mp_effuid (mproc st mp) \<noteq> 0) then (st, PmRet EMOLAGAIN)
     else
      let st1 = copy_slot (pm_of E) child_nr mp (st\<lparr>procs_in_use := procs_in_use st + 1\<rparr>);
          st2 = upd_mproc child_nr (\<lambda>x. x\<lparr>mp_parent := who, mp_flags := mp_flags x AND FORKED_PRIV\<rparr>) st1
      in (set_reply 3 child_nr mp st2, PmRet child_nr))"

definition do_rexec :: "pc_env \<Rightarrow> int \<Rightarrow> pm_msg \<Rightarrow> pm_st \<Rightarrow> (pm_st \<times> pm_res) option" where
  "do_rexec E who m st =
    (let P = pc_pp E; bind_type = m 3 in
     if bind_type < 0 \<or> bind_type > REPLICA_BIND \<or> bind_type = RMT_BIND then Some (st, PmRet EMOLINVAL)
     else if m 5 > MAXCOPYBUF then Some (st, PmRet EMOL2BIG)
     else
      let rmt_ep = pp_rexec P (m 4) (m 2) bind_type; rmt_nr = ENDPOINT_P rmt_ep in
      if rmt_ep < 0 then Some (st, PmRet rmt_ep)
      else
       case (if bind_type = LCL_BIND \<or> \<not> (has_flag st rmt_nr BIT_IN_USE \<or> has_flag st rmt_nr BIT_RMT_PROC) then
               let fl = (if rmt_nr + pe_nr_tasks (pm_of E) < pe_nr_sysprocs (pm_of E) then RMT_PRIV else RMT_USED);
                   st1 = upd_mproc rmt_nr (\<lambda>x. new_slot x who fl) (copy_slot (pm_of E) rmt_nr who st) in
               map_option (\<lambda>(st2, pid). (upd_mproc rmt_nr (\<lambda>x. x\<lparr>mp_pid := pid\<rparr>) st2, pid)) (get_free_pid (pm_of E) st1)
             else Some (st, pc_rmtpid E)) of None \<Rightarrow> None
       | Some (st1, rmt_pid) \<Rightarrow>
         if has_flag st1 rmt_nr BIT_RMT_PROC \<and> pp_notify P rmt_ep < 0 then Some (st1, PmRet (pp_notify P rmt_ep))
         else
          let (st2, rcode) = sys_procinfo (pp_procinfo2 P) rmt_nr st1 in
          if rcode \<noteq> OK then Some (st2, PmStop rcode) else Some (st2, PmRet rmt_pid))"

section \<open>Identities\<close>

definition do_getset :: "pc_env \<Rightarrow> int \<Rightarrow> pm_msg \<Rightarrow> pm_st \<Rightarrow> pm_st \<times> pm_res" where
  "do_getset E who m st =
    (let P = pc_pp E; call = m 1; mp = cur_mp E; x = mproc st mp; id = m 2 in
     if call = MOLGETUID then (set_reply reply_res2 (mp_effuid x) mp st, PmRet (mp_realuid x))
     else if call = MOLGETGID then (set_reply reply_res2 (mp_effgid x) mp st, PmRet (mp_realgid x))
     else if call = MOLGETPID then
       let st1 = set_reply reply_res2 (mp_pid (mproc st (mp_parent x))) mp st; (ret, p) = pm_isokendpt (pm_of E) (m 0) st1 in
       if ret = OK \<and> p \<ge> 0
       then (set_reply reply_res3 (mp_pid (mproc st1 p)) mp st1, PmRet (mp_pid (mproc st1 who)))
       else (st1, PmRet ret)
     else if call = MOLSETEUID \<or> call = MOLSETUID then
       if mp_realuid x \<noteq> id \<and> mp_effuid x \<noteq> SUPER_USER then (st, PmRet EMOLPERM)
       else (upd_mproc mp (\<lambda>x. x\<lparr>mp_realuid := if call = MOLSETUID then id else mp_realuid x, mp_effuid := id\<rparr>) st, PmRet OK)
     else if call = MOLSETEGID \<or> call = MOLSETGID then
       if mp_realgid x \<noteq> id \<and> mp_effuid x \<noteq> SUPER_USER then (st, PmRet EMOLPERM)
       else (upd_mproc mp (\<lambda>x. x\<lparr>mp_realgid := if call = MOLSETGID then id else mp_realgid x, mp_effgid := id\<rparr>) st, PmRet OK)
     else if call = MOLSETSID then
       if mp_procgrp x = mp_pid x then (st, PmRet EMOLPERM)
       else (upd_mproc mp (\<lambda>x. x\<lparr>mp_procgrp := mp_pid x\<rparr>) st, PmRet (mp_pid x))
     else if call = MOLGETPGRP then (st, PmRet (mp_procgrp x))
     else if call = MOLSETPNAME then
       let (st1, ret) = sys_procinfo (pp_procinfo P) who st in
       if ret \<noteq> OK then (st1, PmStop ret)
       else if pc_setpname E (m 3) \<noteq> OK then (st1, PmStop (pc_setpname E (m 3)))
       else let (st2, ret2) = sys_procinfo (pp_procinfo2 P) who st1 in (st2, if ret2 \<noteq> OK then PmStop ret2 else PmRet OK)
     else (st, PmRet EMOLINVAL))"

section \<open>Time\<close>

definition do_time :: "pc_env \<Rightarrow> pm_st \<Rightarrow> pm_st \<times> pm_res" where
  "do_time E st =
    (let (s, uptime) = pe_uptime (pm_of E); ct = word_of_int (pe_ticks (pm_of E)) in
     if s \<noteq> OK then (st, PmStop s)
     else (set_reply 6 (sint ((uptime mod ct) * (1000000 * ct)))
             (cur_mp E) (set_reply 5 (sint (word_of_int (boottime st) + uptime div ct)) (cur_mp E) st), PmRet OK))"

definition do_stime :: "pc_env \<Rightarrow> pm_msg \<Rightarrow> pm_st \<Rightarrow> pm_st \<times> pm_res" where
  "do_stime E m st =
    (let (s, uptime) = pe_uptime (pm_of E); ct = word_of_int (pe_ticks (pm_of E)) in
     if s \<noteq> OK then (st, PmStop s)
     else (st\<lparr>boottime := sint (word_of_int (m 5) - uptime div ct :: molclock)\<rparr>, PmRet OK))"

definition do_times :: "pc_env \<Rightarrow> pm_st \<Rightarrow> pm_st \<times> pm_res" where
  "do_times E st =
    (let (s, t) = pc_times E; mp = cur_mp E in
     if s \<noteq> OK then (st, PmStop s)
     else (set_reply 6 (sint (t 4)) mp (set_reply 5 (sint (mp_child_stime (mproc st mp))) mp
            (set_reply 4 (sint (mp_child_utime (mproc st mp))) mp (set_reply 3 (sint (t 1)) mp (set_reply 2 (sint (t 0)) mp st)))),
          PmRet OK))"

section \<open>Look-up and tables\<close>

definition strncmp_eq :: "string \<Rightarrow> string \<Rightarrow> nat \<Rightarrow> bool" where
  "strncmp_eq a b n \<longleftrightarrow> take n (takeWhile (\<lambda>c. c \<noteq> CHR 0x00) a) = take n (takeWhile (\<lambda>c. c \<noteq> CHR 0x00) b)"

definition do_getprocnr :: "pc_env \<Rightarrow> pm_msg \<Rightarrow> pm_st \<Rightarrow> pm_st \<times> pm_res" where
  "do_getprocnr E m st =
    (let slots = [0 .. pe_nr_procs (pm_of E) - 1]; mp = cur_mp E in
     if m 2 \<ge> 0 then
       (case find (\<lambda>i. has_flag st i BIT_IN_USE \<and> mp_pid (mproc st i) = m 2) slots of
          Some i \<Rightarrow> (set_reply reply_endpt (kp_endpoint st i) mp st, PmRet OK)
        | None \<Rightarrow> (st, PmRet EMOLSRCH))
     else if m 3 > 0 then
       let key_len = nat (min (m 3) MAXPROCNAME); (ret, key) = pc_key E in
       if ret \<noteq> OK then (st, PmRet ret)
       else
       (case find (\<lambda>i. \<not> bit (kp_rts st i) BIT_SLOT_FREE \<and> strncmp_eq (kp_name st i) (take key_len key) key_len) slots of
          Some i \<Rightarrow> (set_reply reply_endpt (kp_endpoint st i) mp st, PmRet OK)
        | None \<Rightarrow> (st, PmRet EMOLSRCH))
     else (set_reply 3 (kp_endpoint st (mp_parent (mproc st mp))) mp (set_reply reply_endpt (m 0) mp st), PmRet OK))"

text \<open>The pending signals of a process are always the empty set.\<close>

definition do_procstat :: "pc_env \<Rightarrow> pm_msg \<Rightarrow> pm_st \<Rightarrow> pm_st \<times> pm_res" where
  "do_procstat E m st = (if m 2 = SELF then (set_reply 5 0 (cur_mp E) st, PmRet OK) else (st, PmRet EMOLNOSYS))"

definition put_ktab :: "pm_env \<Rightarrow> (int \<Rightarrow> kentry) \<Rightarrow> pm_st \<Rightarrow> pm_st" where
  "put_ktab E tab st =
    foldl (\<lambda>s n. put_kproc n (tab n) s) st [- pe_nr_tasks E .. pe_nr_procs E - 1]"

text \<open>Of \<open>do_getsysinfo\<close>: the tables it refreshes and what it returns.\<close>

definition do_getsysinfo :: "pc_env \<Rightarrow> pm_msg \<Rightarrow> pm_st \<Rightarrow> pm_st \<times> pm_res" where
  "do_getsysinfo E m st =
    (let what = m 2; done = (\<lambda>s. (s, PmRet (pc_vircopy E))) in
     if what = SI_KINFO \<or> what = SI_MACHINE \<or> what = SI_PMPROC_TAB then done st
     else if what = SI_KPROC_TAB then
       if fst (pc_proctab E) \<noteq> 0 then (st, PmRet (fst (pc_proctab E))) else done (put_ktab (pm_of E) (snd (pc_proctab E)) st)
     else if what = SI_PRIV_TAB then (if pc_privtab E \<noteq> 0 then (st, PmRet (pc_privtab E)) else done st)
     else if what = SI_SLOTS_TAB then (if pc_slotstab E \<noteq> 0 then (st, PmRet (pc_slotstab E)) else done st)
     else (st, PmRet EINVAL))"

definition no_sys :: "int \<Rightarrow> pm_st \<Rightarrow> pm_st \<times> pm_res" where
  "no_sys who st = (set_flag BIT_IN_USE who (set_flag BIT_REPLYPENDING who st), PmRet ENOSYS)"

section \<open>The main loop\<close>

text \<open>The table when PM starts: \<open>mproc_init\<close> of every slot, with what the memory of \<open>kproc\<close> holds before
  SYSTASK fills it, then PM's own slot.\<close>

definition pm_init_table :: "pc_env \<Rightarrow> pm_st \<Rightarrow> pm_st" where
  "pm_init_table E st =
    (let st1 = foldl (\<lambda>s n. mproc_init n s) st [0 .. pe_nr_procs (pm_of E) - 1];
         st2 = upd_mproc PM_PROC_NR (\<lambda>x. x\<lparr>mp_nice := PRIO_SERVER, mp_pid := 0, mp_flags := mp_flags x OR 12289\<rparr>)
                 (st1\<lparr>procs_in_use := 1\<rparr>)
     in put_ktab (pm_of E) (snd (pc_proctab E)) st2)"

text \<open>The vector \<open>call_vec\<close>: entry 101 is a null pointer, PM dies of it.\<close>

definition perform :: "pc_env \<Rightarrow> int \<Rightarrow> pm_msg \<Rightarrow> pm_st \<Rightarrow> (pm_st \<times> pm_res \<times> int) option" where
  "perform E who m st =
    (let P = pc_pp E; call = m 1; mp = cur_mp E; opt = map_option (\<lambda>(s, r). (s, r, mp)); now = (\<lambda>(s, r). Some (s, r, mp)) in
     if call = MOLEXIT then opt (do_pm_exit P who (m 2) (m 3) st)
     else if call = MOLFORK then opt (do_fork P who (m 2) st)
     else if call = MOLWAIT \<or> call = MOLWAITPID then now (do_waitpid P who (call = MOLWAIT) (m 2) (m 3) st)
     else if call = MOLTIME \<or> call = MOLGETTIMEOFDAY then now (do_time E st)
     else if call \<in> {MOLGETPID, MOLSETUID, MOLGETUID, MOLSETGID, MOLGETGID, MOLSETSID, MOLGETPGRP, MOLSETEUID, MOLSETEGID, MOLSETPNAME}
     then now (do_getset E who m st)
     else if call = MOLSTIME then now (do_stime E m st)
     else if call = MOLALARM then opt (map_option (\<lambda>(s, r). (s, PmRet r)) (do_alarm (pm_of E) (m 0) (m 2) st))
     else if call = MOLTIMES then now (do_times E st)
     else if call = MOLPROCSTAT then now (do_procstat E m st)
     else if call = MOLGETSYSINFO then now (do_getsysinfo E m st)
     else if call = MOLGETPROCNR then now (do_getprocnr E m st)
     else if call = MOLFREEPROC then now (do_freeproc E who st)
     else if call = MOLBINDPROC then do_bindproc E m st
     else if call = MOLMIGRPROC then Some (st, PmRet (pc_migr E), mp)
     else if call = MOLREXEC then opt (do_rexec E who m st)
     else if call = MOLWAIT4FORK then now (do_wait4fork P who (m 0) (m 3) st)
     else if call = MOLUNBIND then Some (st, PmStop SIGSEGV, mp)
     else let (s, r) = no_sys who st in Some (s, r, who))"

record pm_loop =
  ml_st :: pm_st
  ml_who :: int
  ml_mp :: int
  ml_result :: int

text \<open>\<open>get_work\<close> drops a message from an endpoint it does not know, after it has set \<open>who_p\<close> and perhaps \<open>mp\<close>; a
  notification of the clock leaves the caller of the round before in place.\<close>

definition get_work :: "pc_env \<Rightarrow> pm_msg \<Rightarrow> pm_loop \<Rightarrow> pm_loop option" where
  "get_work E m L =
    (if m 0 = CLOCK_NR \<and> m 1 AND NOTIFY_MESSAGE \<noteq> 0 then Some L
     else
      let (ret, who) = pm_isokendpt (pm_of E) (m 0) (ml_st L) in
      if ret \<noteq> OK then None
      else if who \<ge> 0 \<and> kp_endpoint (ml_st L) who \<noteq> m 0 then None
      else Some (L\<lparr>ml_who := who, ml_mp := if who < 0 then PM_PROC_NR else who\<rparr>))"

definition drop_work :: "pc_env \<Rightarrow> pm_msg \<Rightarrow> pm_loop \<Rightarrow> pm_loop" where
  "drop_work E m L =
    (let (ret, who) = pm_isokendpt (pm_of E) (m 0) (ml_st L) in
     if ret \<noteq> OK then L\<lparr>ml_who := who\<rparr> else L\<lparr>ml_who := who, ml_mp := if who < 0 then PM_PROC_NR else who\<rparr>)"

definition with_mp :: "int \<Rightarrow> pc_env \<Rightarrow> pc_env" where
  "with_mp mp E = E\<lparr>pc_pp := (pc_pp E)\<lparr>pp_pm := (pp_pm (pc_pp E))\<lparr>pe_mp := mp\<rparr>\<rparr>\<rparr>"

definition alarm_ticks :: "int \<Rightarrow> pm_msg \<Rightarrow> molclock" where
  "alarm_ticks ct m = word_of_int (m 5 div (1000000000 div ct) + m 4 * ct)"

text \<open>The replies: the loop sends every pending reply to a process in use that is no zombie.  A failure of certain kinds
  makes the caller of this round exit.\<close>

definition reply_due :: "pm_st \<Rightarrow> int \<Rightarrow> bool" where
  "reply_due st n \<longleftrightarrow> has_flag st n BIT_REPLYPENDING \<and> has_flag st n BIT_IN_USE \<and> \<not> has_flag st n BIT_ZOMBIE"

fun reply_loop :: "pc_env \<Rightarrow> int list \<Rightarrow> pm_st \<Rightarrow> (pm_st \<times> (int \<times> pm_msg) list \<times> pm_res) option" where
  "reply_loop E [] st = Some (st, [], PmRet OK)"
| "reply_loop E (n # ns) st =
    (if reply_due st n then
       let ep = kp_endpoint st n; rcode = pp_send (pc_pp E) ep; out = (if rcode = OK then [(ep, mp_reply (mproc st n))] else []) in
       case (if rcode \<in> {EMOLSRCDIED, EMOLDSTDIED, EMOLNOPROXY, EMOLNOTCONN, EMOLDEADSRCDST}
             then pm_exit (pc_pp E) (cur_mp E) rcode (pc_oper E) st else Some (st, PmRet OK)) of None \<Rightarrow> None
       | Some (st1, PmStop e) \<Rightarrow> Some (st1, out, PmStop e)
       | Some (st1, PmRet _) \<Rightarrow>
         map_option (\<lambda>(s, o2, r). (s, out @ o2, r)) (reply_loop E ns (clr_flag BIT_REPLYPENDING n st1))
     else reply_loop E ns st)"

text \<open>One message.  The result of the round is not set by a notification of SLOTS.\<close>

definition pm_handle :: "pc_env \<Rightarrow> pm_msg \<Rightarrow> pm_loop \<Rightarrow> (pm_loop \<times> pm_res) option" where
  "pm_handle E m L =
    (let st = ml_st L; call = m 1; ret = (\<lambda>r s mp. L\<lparr>ml_st := s, ml_mp := mp, ml_result := r\<rparr>) in
     if call = NOTIFY_MESSAGE OR CLOCK_NR then
       map_option (\<lambda>(s, _). (ret SUSPEND s (ml_mp L), PmRet OK)) (pm_expire_timers (pm_of E) (alarm_ticks (pe_ticks (pm_of E)) m) st)
     else if call = NOTIFY_MESSAGE OR pc_systask E then Some (ret SUSPEND st (ml_mp L), PmRet OK)
     else if call = NOTIFY_MESSAGE OR pc_slots E then
       Some (ret (ml_result L) (fst (sys_procinfo (pp_procinfo (pc_pp E)) (m 3) st)) (ml_mp L), PmRet OK)
     else if call < 0 \<or> call \<ge> NCALLS then Some (ret ENOSYS st (ml_mp L), PmRet OK)
     else
       case perform E (ml_who L) m st of None \<Rightarrow> None
       | Some (s, PmStop e, mp) \<Rightarrow> Some (ret (ml_result L) s mp, PmStop e)
       | Some (s, PmRet r, mp) \<Rightarrow> Some (ret r s mp, PmRet OK))"

definition pm_round :: "pc_env \<Rightarrow> pm_msg \<Rightarrow> pm_loop \<Rightarrow> (pm_loop \<times> (int \<times> pm_msg) list \<times> pm_res) option" where
  "pm_round E0 m L0 =
    (case get_work E0 m L0 of None \<Rightarrow> Some (drop_work E0 m L0, [], PmRet OK)
     | Some L1 \<Rightarrow>
       let E = with_mp (ml_mp L1) E0 in
       case pm_handle E m L1 of None \<Rightarrow> None
       | Some (L2, PmStop e) \<Rightarrow> Some (L2, [], PmStop e)
       | Some (L2, PmRet _) \<Rightarrow>
         (case (if ml_result L2 \<noteq> SUSPEND then setreply (pc_pp E) (ml_who L2) (ml_result L2) (ml_st L2)
                else (ml_st L2, PmRet OK)) of
            (st, PmStop e) \<Rightarrow> Some (L2\<lparr>ml_st := st\<rparr>, [], PmStop e)
          | (st, PmRet _) \<Rightarrow>
            map_option (\<lambda>(s, out, r). (L2\<lparr>ml_st := s\<rparr>, out, r))
              (reply_loop (with_mp (ml_mp L2) E) [0 .. pe_nr_procs (pm_of E) - 1] st)))"

section \<open>What the calls leave alone\<close>

text \<open>Most handlers change a slot only in fields that neither name nor identify the process, or free it.  A relation between the state
  before and after that tolerates this holds for all of them; it is proved once for any such relation.\<close>

definition same_ids :: "mproc_t \<Rightarrow> mproc_t \<Rightarrow> bool" where
  "same_ids x y \<longleftrightarrow> mp_realuid y = mp_realuid x \<and> mp_effuid y = mp_effuid x \<and> mp_realgid y = mp_realgid x \<and> mp_effgid y = mp_effgid x"

definition mild :: "mproc_t \<Rightarrow> mproc_t \<Rightarrow> bool" where
  "mild x y \<longleftrightarrow> (mp_pid y = mp_pid x \<or> mp_pid y = 0) \<and> (mp_exitstatus y = mp_exitstatus x \<or> - 128 \<le> mp_exitstatus y \<and> mp_exitstatus y \<le> 127)
     \<and> same_ids x y"

lemma schar_range [simp]: "- 128 \<le> schar x" "schar x \<le> 127"
  by (simp_all add: schar_def)

lemmas mild_defs = mild_def same_ids_def

locale pm_frame =
  fixes R :: "pm_st \<Rightarrow> pm_st \<Rightarrow> bool"
  assumes R_refl [simp]: "R st st"
    and R_trans: "R a b \<Longrightarrow> R b c \<Longrightarrow> R a c"
    and R_upd: "(\<And>x. mild x (f x)) \<Longrightarrow> R st (upd_mproc n f st)"
    and R_rest: "mproc b = mproc a \<Longrightarrow> next_pid b = next_pid a \<Longrightarrow> R a b"
begin

lemma R_upd_after: "R a st \<Longrightarrow> (\<And>x. mild x (f x)) \<Longrightarrow> R a (upd_mproc n f st)"
  by (blast intro: R_trans R_upd)

lemma R_rest_after: "R a st \<Longrightarrow> mproc st' = mproc st \<Longrightarrow> next_pid st' = next_pid st \<Longrightarrow> R a st'"
  by (blast intro: R_trans R_rest)

lemma R_flags:
  assumes "R a st"
  shows "R a (set_flag b n st)" "R a (clr_flag b n st)" "R a (set_reply w v n st)" "R a (put_kproc n e st)" "R a (sig_proc n s st)"
    "R a (fst (sys_procinfo i n st))" "R a (st\<lparr>procs_in_use := k\<rparr>)" "R a (st\<lparr>boottime := k\<rparr>)" "R a (fst (check_sig E k s st))"
  using assms by (auto simp: pm_upd_defs sys_procinfo_def mild_defs split: prod.split intro: R_upd_after R_rest_after)

lemma R_procinfo: "sys_procinfo i n st = (st', r) \<Longrightarrow> R a st \<Longrightarrow> R a st'"
  using R_flags(6) [of a st i n] by simp

lemma R_setreply: "R a st \<Longrightarrow> R a (fst (setreply E n r st))"
  by (simp add: setreply_def R_flags)

lemma R_cleanup: "R a st \<Longrightarrow> R a (fst (cleanup E n st))"
  by (auto simp: cleanup_def setreply_def Let_def mild_defs intro!: R_flags R_upd_after)

lemma R_disinherit: "R a st \<Longrightarrow> R a (fst (disinherit E n cs st))"
proof (induction E n cs st rule: disinherit.induct)
  case (2 E n c cs st)
  let ?s = "upd_mproc c (\<lambda>x. x\<lparr>mp_parent := INIT_PROC_NR\<rparr>) st"
  have s: "R a ?s" by (rule R_upd_after [OF 2(4)]) (simp add: mild_defs)
  obtain u r where u: "cleanup E c ?s = (u, r)" by force
  have "R a u" using R_cleanup [OF s, of E c] u by simp
  then show ?case using 2 s u by (auto simp: Let_def split: pm_res.split)
qed simp

lemma R_bury: "R a st \<Longrightarrow> R a (fst (bury E n s op st))"
  by (auto simp: bury_def Let_def mild_defs intro!: R_cleanup R_upd_after R_flags)

lemma R_leave_kernel: "R a st \<Longrightarrow> R a (fst (leave_kernel E n st))"
proof -
  assume a: "R a st"
  have s1: "R a (upd_mproc p (\<lambda>p. p\<lparr>mp_child_utime := mp_child_utime p + u, mp_child_stime := mp_child_stime p + v\<rparr>) st)" for p u v
    by (rule R_upd_after [OF a]) (simp add: mild_defs)
  show ?thesis by (auto simp: leave_kernel_def Let_def split: prod.split intro: s1 R_flags R_procinfo [OF _ s1])
qed

lemma R_timers:
  assumes "R a st"
  shows "pm_set_timer E tp t f x st = Some (st', r) \<Longrightarrow> R a st'" "pm_cancel_timer E tp st = Some (st', r) \<Longrightarrow> R a st'"
  using assms by (auto simp: pm_set_timer_def pm_cancel_timer_def sys_setalarm_def Let_def split: option.splits if_splits prod.splits
      intro: R_rest_after)

lemma R_set_alarm: "set_alarm E ep sec st = Some (st', r) \<Longrightarrow> R a st \<Longrightarrow> R a st'"
  by (auto simp: set_alarm_def Let_def mild_defs split: option.splits if_splits prod.splits intro!: R_upd_after dest: R_timers)

lemma R_pm_exit:
  assumes "pm_exit E n s op st = Some (st', r)" "R a st"
  shows "R a st'"
proof -
  let ?x = "if has_flag st n BIT_ALARM_ON then map_option fst (set_alarm (pp_pm E) (kp_endpoint st n) 0 st) else Some st"
  obtain st1 where x: "?x = Some st1" using assms(1) by (cases ?x) (simp_all add: pm_exit_def)
  have st1: "R a st1" using x assms(2) by (auto split: if_splits dest: R_set_alarm)
  obtain st2 r2 where 2: "leave_kernel E n st1 = (st2, r2)" by force
  obtain st3 r3 where 3: "bury E n s op st2 = (st3, r3)" by force
  obtain st4 r4 where 4: "disinherit E n [0 .. nr_procs E - 1] st3 = (st4, r4)" by force
  have "R a st2" using R_leave_kernel [OF st1, of E n] 2 by simp
  moreover from this have "R a st3" using R_bury [of a st2 E n s op] 3 by simp
  moreover from this have "R a st4" using R_disinherit [of a st3 E n "[0 .. nr_procs E - 1]"] 4 by simp
  ultimately show ?thesis using assms(1) 2 3 4 unfolding pm_exit_def x Let_def
    by (auto simp: mild_defs split: pm_res.splits if_splits intro!: R_upd_after R_flags)
qed

lemma R_do_pm_exit: "do_pm_exit E who s l st = Some (st', r) \<Longrightarrow> R a st \<Longrightarrow> R a st'"
  by (auto simp: do_pm_exit_def Let_def split: if_splits option.splits dest: R_pm_exit)

lemma R_wait_loop: "wait_loop E who pid ns k st = Inl (st', r) \<Longrightarrow> R a st \<Longrightarrow> R a st'"
proof (induction E who pid ns k st rule: wait_loop.induct)
  case (2 E who pid n ns k st)
  obtain u q where u: "cleanup E n st = (u, q)" by force
  have "R a u" using R_cleanup [OF 2(4), of E n] u by simp
  then show ?case using 2 u by (auto simp: mild_defs split: if_splits pm_res.splits intro!: R_upd_after R_flags)
qed simp

lemma R_do_waitpid: "R a st \<Longrightarrow> R a (fst (do_waitpid E who w pid opts st))"
  by (auto simp: do_waitpid_def Let_def mild_defs split: sum.split prod.split intro!: R_upd_after R_flags intro: R_wait_loop)

lemma R_do_wait4fork: "R a st \<Longrightarrow> R a (fst (do_wait4fork E who ep c st))"
  by (auto simp: do_wait4fork_def Let_def split: prod.split intro!: R_flags intro: R_procinfo)

end

section \<open>The other calls, in the same frame\<close>

definition getset_calls :: "int set" where
  "getset_calls = {MOLGETPID, MOLSETUID, MOLGETUID, MOLSETGID, MOLGETGID, MOLSETSID, MOLGETPGRP, MOLSETEUID, MOLSETEGID, MOLSETPNAME}"

definition new_slot_calls :: "int set" where
  "new_slot_calls = {MOLFORK, MOLREXEC, MOLFREEPROC, MOLBINDPROC}"


context pm_frame
begin

lemma R_cause: "cause_sigalrm E f tp qs = Some qs' \<Longrightarrow> R a (snd qs) \<Longrightarrow> R a (snd qs')"
  by (auto simp: cause_sigalrm_def Let_def mild_defs split: if_splits prod.splits intro!: R_upd_after R_flags)

lemma R_exp_walk:
  assumes "exp_walk run now qw = Some qw'"
  shows "run = cause_sigalrm E \<longrightarrow> R a (snd qw) \<longrightarrow> R a (snd qw')"
proof (rule exp_walk.raw_induct [OF _ assms], intro impI)
  fix walk run now qw qw'
  assume IH: "\<And>run now qw qw'. walk run now qw = Some qw' \<Longrightarrow> run = cause_sigalrm E \<longrightarrow> R a (snd qw) \<longrightarrow> R a (snd qw')"
    and step: "(case tmrs (fst qw) of None \<Rightarrow> Some qw
      | Some tp \<Rightarrow>
          if tmr_exp_time (tmem (fst qw) tp) \<le> now
          then let q1 = fst qw\<lparr>tmrs := tmr_next (tmem (fst qw) tp)\<rparr>; q2 = upd_timer tp (tmr_exp_time_update (\<lambda>_. TMR_NEVER)) q1
               in Option.bind (run (tmr_func (tmem q2 tp)) tp (q2, snd qw)) (walk run now)
          else Some qw) = Some qw'"
    and run: "run = cause_sigalrm E" and a: "R a (snd qw)"
  have "R a (snd qw')" if "cause_sigalrm E f tp (q, snd qw) = Some w" "walk run now w = Some qw'" for f tp q w
    using IH [OF that(2)] run R_cause [OF that(1)] a by simp
  then show "R a (snd qw')" using step run a by (auto simp: Let_def bind_eq_Some_conv split: option.splits if_splits)
qed

lemma R_expire: "pm_expire_timers E now st = Some (st', r) \<Longrightarrow> R a st \<Longrightarrow> R a st'"
  using R_exp_walk [of "cause_sigalrm E" now "(pm_timers st, st)" _ E a]
  by (fastforce simp: pm_expire_timers_def tmrs_exptimers_def sys_setalarm_def Let_def split: option.splits if_splits prod.splits
      intro: R_rest_after)

lemma R_do_alarm: "do_alarm E who sec st = Some (st', r) \<Longrightarrow> R a st \<Longrightarrow> R a st'"
  by (auto simp: do_alarm_def split: option.splits dest: R_set_alarm)

lemma R_put_ktab: "R a st \<Longrightarrow> R a (put_ktab E tab st)"
proof -
  have "R a s \<Longrightarrow> R a (foldl (\<lambda>s n. put_kproc n (tab n) s) s ns)" for s ns
    by (induction ns arbitrary: s) (simp_all add: R_flags)
  then show "R a st \<Longrightarrow> ?thesis" by (simp add: put_ktab_def)
qed

lemma R_queries:
  assumes "R a st"
  shows "R a (fst (do_time E st))" "R a (fst (do_stime E m st))" "R a (fst (do_times E st))" "R a (fst (do_procstat E m st))"
    "R a (fst (do_getprocnr E m st))" "R a (fst (do_getsysinfo E m st))" "R a (fst (no_sys who st))"
  using assms
  by (auto simp: do_time_def do_stime_def do_times_def do_procstat_def do_getprocnr_def do_getsysinfo_def no_sys_def Let_def
      split: prod.split option.split intro!: R_flags R_put_ktab)

lemma R_reply_loop: "reply_loop E ns st = Some (st', out, r) \<Longrightarrow> R a st \<Longrightarrow> R a st'"
proof (induction E ns st arbitrary: out rule: reply_loop.induct)
  case (2 E n ns st)
  show ?case
  proof (cases "reply_due st n")
    case True
    let ?c = "pp_send (pc_pp E) (kp_endpoint st n)"
    let ?x = "if ?c \<in> {EMOLSRCDIED, EMOLDSTDIED, EMOLNOPROXY, EMOLNOTCONN, EMOLDEADSRCDST}
      then pm_exit (pc_pp E) (cur_mp E) ?c (pc_oper E) st else Some (st, PmRet OK)"
    obtain st1 q where x: "?x = Some (st1, q)" using True 2(3) by (cases ?x) (auto simp: Let_def)
    then have "R a st1" using 2(4) R_pm_exit by (auto split: if_splits)
    then show ?thesis using 2(1) [OF True refl refl refl x] 2(3) True x by (auto simp: Let_def R_flags split: pm_res.splits)
  qed (use 2 in auto)
qed simp

lemma R_perform:
  assumes "perform E who m st = Some (st', r, mp)" "R a st" "m 1 \<notin> getset_calls" "m 1 \<notin> new_slot_calls"
  shows "R a st'"
  using assms R_do_pm_exit [OF _ assms(2)] R_do_alarm [OF _ assms(2)]
    R_queries [OF assms(2)] R_do_waitpid [OF assms(2)] R_do_wait4fork [OF assms(2)]
  by (auto simp: perform_def getset_calls_def new_slot_calls_def Let_def split_beta split: if_splits)

end

section \<open>Process identifiers stay unique\<close>

definition tame :: "pm_st \<Rightarrow> pm_st \<Rightarrow> bool" where
  "tame a b \<longleftrightarrow> next_pid b = next_pid a \<and> (\<forall>n. (mp_pid (mproc b n) = mp_pid (mproc a n) \<or> mp_pid (mproc b n) \<le> 0)
     \<and> (mp_exitstatus (mproc b n) = mp_exitstatus (mproc a n) \<or> - 128 \<le> mp_exitstatus (mproc b n) \<and> mp_exitstatus (mproc b n) \<le> 127))"

interpretation pids: pm_frame tame
proof unfold_locales
  show "tame st (upd_mproc n f st)" if "\<And>x. mild x (f x)" for f st n
    using that [of "mproc st n"] by (auto simp: tame_def mild_def)
qed (force simp: tame_def)+

text \<open>The table of PM is well formed: the counter is in range, identifiers are at most \<open>NR_PIDS\<close> and those above 0 are unique, exit
  codes fit a character.\<close>

definition table_ok :: "int \<Rightarrow> pm_st \<Rightarrow> bool" where
  "table_ok N st \<longleftrightarrow> 1 \<le> next_pid st \<and> next_pid st \<le> NR_PIDS \<and> (\<forall>n \<in> {0 ..< N}. mp_pid (mproc st n) \<le> NR_PIDS
     \<and> - 128 \<le> mp_exitstatus (mproc st n) \<and> mp_exitstatus (mproc st n) \<le> 127
     \<and> (0 < mp_pid (mproc st n) \<longrightarrow> (\<forall>k \<in> {0 ..< N}. k \<noteq> n \<longrightarrow> mp_pid (mproc st k) \<noteq> mp_pid (mproc st n))))"

lemma tame_table:
  assumes "table_ok N st" "tame st st'"
  shows "table_ok N st'"
proof -
  have p: "mp_pid (mproc st' n) = mp_pid (mproc st n) \<or> mp_pid (mproc st' n) \<le> 0" for n using assms(2) by (simp add: tame_def)
  have "mp_pid (mproc st' k) \<noteq> mp_pid (mproc st' n)"
    if "n \<in> {0 ..< N}" "k \<in> {0 ..< N}" "k \<noteq> n" "0 < mp_pid (mproc st' n)" for n k
    using p [of n] p [of k] that assms(1) by (auto simp: table_ok_def)
  moreover have "mp_pid (mproc st' n) \<le> NR_PIDS \<and> - 128 \<le> mp_exitstatus (mproc st' n) \<and> mp_exitstatus (mproc st' n) \<le> 127"
    if "n \<in> {0 ..< N}" for n
  proof -
    have old: "mp_pid (mproc st n) \<le> NR_PIDS" "- 128 \<le> mp_exitstatus (mproc st n)" "mp_exitstatus (mproc st n) \<le> 127"
      using assms(1) that by (simp_all add: table_ok_def)
    have "mp_exitstatus (mproc st' n) = mp_exitstatus (mproc st n)
      \<or> - 128 \<le> mp_exitstatus (mproc st' n) \<and> mp_exitstatus (mproc st' n) \<le> 127" using assms(2) by (simp add: tame_def)
    then show ?thesis using old p [of n] by linarith
  qed
  ultimately show ?thesis using assms by (auto simp: table_ok_def tame_def)
qed

lemma free_pid_loop_sound:
  assumes "free_pid_loop E st p = Some r"
  shows "1 \<le> p \<and> p \<le> NR_PIDS \<longrightarrow> 2 \<le> r \<and> r \<le> NR_PIDS \<and> \<not> pid_taken E st r"
proof (rule free_pid_loop.raw_induct [OF _ assms], intro impI)
  fix loop E st p r
  assume IH: "\<And>E st p r. loop E st p = Some r \<Longrightarrow> 1 \<le> p \<and> p \<le> NR_PIDS \<longrightarrow> 2 \<le> r \<and> r \<le> NR_PIDS \<and> \<not> pid_taken E st r"
    and step: "(if pid_taken E st (bump_pid p) then loop E st (bump_pid p) else Some (bump_pid p)) = Some r"
    and p: "1 \<le> p \<and> p \<le> NR_PIDS"
  show "2 \<le> r \<and> r \<le> NR_PIDS \<and> \<not> pid_taken E st r"
    using step IH [of E st "bump_pid p" r] bump_range [of p] p by (auto split: if_splits)
qed

text \<open>A slot that gets a new identifier, whatever it held before.\<close>

lemma new_pid_table:
  assumes ok: "table_ok (pe_nr_procs E) st" and get: "get_free_pid E st2 = Some (st3, p)" and same: "next_pid st2 = next_pid st"
    "\<And>n. n \<noteq> c \<Longrightarrow> mp_pid (mproc st2 n) = mp_pid (mproc st n) \<and> mp_exitstatus (mproc st2 n) = mp_exitstatus (mproc st n)"
    and slot: "mp_exitstatus (mproc st2 c) = 0" "\<And>x. mp_pid (f x) = p \<and> mp_exitstatus (f x) = mp_exitstatus x"
  shows "table_ok (pe_nr_procs E) (upd_mproc c f st3)"
proof -
  have p: "2 \<le> p" "p \<le> NR_PIDS" "\<not> pid_taken E st2 p" and st3: "st3 = st2\<lparr>next_pid := p\<rparr>"
    using get free_pid_loop_sound [of E st2 "next_pid st2"] ok same(1) by (auto simp: get_free_pid_def table_ok_def split: option.splits)
  have free: "mp_pid (mproc st2 n) \<noteq> p" if "n \<in> {0 ..< pe_nr_procs E}" for n
    using p(3) that by (auto simp: pid_taken_def list_ex_iff)
  have "mp_pid (mproc (upd_mproc c f st3) k) \<noteq> mp_pid (mproc (upd_mproc c f st3) n)"
    if "n \<in> {0 ..< pe_nr_procs E}" "k \<in> {0 ..< pe_nr_procs E}" "k \<noteq> n" "0 < mp_pid (mproc (upd_mproc c f st3) n)" for n k
    using free [OF that(1)] free [OF that(2)] that ok same(2) [of n] same(2) [of k] slot(2)
    by (auto simp: st3 table_ok_def split: if_splits)
  moreover have "mp_pid (mproc (upd_mproc c f st3) n) \<le> NR_PIDS \<and> - 128 \<le> mp_exitstatus (mproc (upd_mproc c f st3) n)
      \<and> mp_exitstatus (mproc (upd_mproc c f st3) n) \<le> 127" if "n \<in> {0 ..< pe_nr_procs E}" for n
    using that ok same(2) [of n] slot p(2) by (auto simp: st3 table_ok_def)
  ultimately show ?thesis using p by (auto simp: table_ok_def st3)
qed

lemma procinfo_sel:
  assumes "sys_procinfo i n st = (st', r)"
  shows "mproc st' = mproc st" "next_pid st' = next_pid st"
  using assms by (auto simp: sys_procinfo_def split: prod.splits if_splits)

lemma table_procinfo: "sys_procinfo i n st = (st', r) \<Longrightarrow> table_ok N st' = table_ok N st"
  by (simp add: table_ok_def procinfo_sel)

lemma table_reply: "table_ok N s \<Longrightarrow> table_ok N (set_reply w v n s)"
  by (erule tame_table) (intro pids.R_flags pids.R_refl)

lemma do_fork_table:
  assumes "do_fork E who lpid st = Some (st', r)" "table_ok (nr_procs E) st"
  shows "table_ok (nr_procs E) st'"
proof -
  obtain st1 rc where 1: "sys_procinfo (pp_procinfo E) who st = (st1, rc)" by force
  have ok1: "table_ok (nr_procs E) st1" using assms(2) table_procinfo [OF 1] by simp
  define remote where "remote = bit (kp_rts st1 who) BIT_REMOTE"
  define ep where "ep = fork_endpt E lpid remote (kp_nodeid st1 who)"
  note run = assms(1) [unfolded do_fork_def 1 Let_def prod.case, folded remote_def, folded ep_def]
  show ?thesis
  proof (cases "rc \<noteq> OK \<or> ep < 0")
    case True
    then show ?thesis using run ok1 by (auto split: if_splits)
  next
    case False
    define c where "c = ENDPOINT_P ep"
    define rmp where "rmp = (if remote then INIT_PROC_NR else mp_of E)"
    define st2 where "st2 = upd_mproc c (\<lambda>x. new_slot x (if remote then INIT_PROC_NR else who)
      (if c + pe_nr_tasks (pp_pm E) < pe_nr_sysprocs (pp_pm E) then FORKED_PRIV else FORKED)) (copy_slot (pp_pm E) c rmp st1)"
    note run = run [folded c_def rmp_def, folded st2_def]
    obtain st3 p where get: "get_free_pid (pp_pm E) st2 = Some (st3, p)" using run False by (auto split: option.splits)
    define st4 where "st4 = upd_mproc c (\<lambda>x. x\<lparr>mp_pid := p, mp_endpoint := ep\<rparr>) st3"
    have ok4: "table_ok (nr_procs E) st4" unfolding st4_def by (rule new_pid_table [OF ok1 get]) (simp_all add: st2_def new_slot_def)
    obtain st5 rc5 where 5: "sys_procinfo (pp_procinfo2 E) c st4 = (st5, rc5)" by force
    have ok5: "table_ok (nr_procs E) st5" using ok4 table_procinfo [OF 5] by simp
    show ?thesis using run False get 5 ok5 by (auto simp: st4_def [symmetric] intro: table_reply split: if_splits)
  qed
qed

lemma do_rexec_table:
  assumes "do_rexec E who m st = Some (st', r)" "table_ok (pe_nr_procs (pm_of E)) st"
  shows "table_ok (pe_nr_procs (pm_of E)) st'"
proof -
  let ?N = "pe_nr_procs (pm_of E)"
  define c where "c = ENDPOINT_P (pp_rexec (pc_pp E) (m 4) (m 2) (m 3))"
  define fl where "fl = (if c + pe_nr_tasks (pm_of E) < pe_nr_sysprocs (pm_of E) then RMT_PRIV else RMT_USED)"
  define x where "x = (if m 3 = LCL_BIND \<or> \<not> (has_flag st c BIT_IN_USE \<or> has_flag st c BIT_RMT_PROC) then
      map_option (\<lambda>(st2, pid). (upd_mproc c (\<lambda>x. x\<lparr>mp_pid := pid\<rparr>) st2, pid))
        (get_free_pid (pm_of E) (upd_mproc c (\<lambda>x. new_slot x who fl) (copy_slot (pm_of E) c who st)))
    else Some (st, pc_rmtpid E))"
  note run = assms(1) [unfolded do_rexec_def Let_def, folded c_def, folded fl_def, folded x_def]
  have new: "table_ok ?N (upd_mproc c (\<lambda>x. x\<lparr>mp_pid := p\<rparr>) s)"
    if "get_free_pid (pm_of E) (upd_mproc c (\<lambda>x. new_slot x who fl) (copy_slot (pm_of E) c who st)) = Some (s, p)" for s p
    by (rule new_pid_table [OF assms(2) that]) (simp_all add: new_slot_def)
  have ok1: "table_ok ?N s" if "x = Some (s, p)" for s p
    using that assms(2) new by (auto simp: x_def split: if_splits)
  then show ?thesis using run assms(2) table_procinfo by (fastforce split: if_splits option.splits prod.splits)
qed

lemma mproc_init_tame: "tame st (mproc_init n st)"
  by (auto simp: tame_def mproc_init_def Let_def)

lemma do_bindproc_table:
  assumes "do_bindproc E m st = Some (st', r, mp)" "table_ok (pe_nr_procs (pm_of E)) st" "m 2 = PROC_NO_PID"
  shows "table_ok (pe_nr_procs (pm_of E)) st'"
proof -
  let ?N = "pe_nr_procs (pm_of E)"
  obtain st1 rc where 1: "sys_procinfo (pp_procinfo (pc_pp E)) (m 4) st = (st1, rc)" by force
  obtain st2 rc2 where 2: "sys_procinfo (pp_procinfo2 (pc_pp E)) (m 4) st1 = (st2, rc2)" by force
  have ok: "table_ok ?N st1" "table_ok ?N st2" using assms(2) table_procinfo [OF 1] table_procinfo [OF 2] by simp_all
  define st4 where "st4 = (upd_mproc (m 4) (\<lambda>x. x\<lparr>mp_parent := kp_endpoint st2 PM_PROC_NR, mp_flags := PRIV_USED,
      mp_child_utime := 0, mp_child_stime := 0, mp_exitstatus := 0, mp_sigstatus := 0, mp_nice := PRIO_SERVER,
      mp_endpoint := kp_endpoint st2 (m 4)\<rparr>) st2)\<lparr>procs_in_use := procs_in_use st2 + 1\<rparr>"
  have new: "table_ok ?N (upd_mproc (m 4) (\<lambda>x. x\<lparr>mp_pid := p\<rparr>) s)" if "get_free_pid (pm_of E) st4 = Some (s, p)" for s p
    by (rule new_pid_table [OF ok(2) that]) (simp_all add: st4_def)
  have "table_ok ?N (mproc_init (m 4) st1)" by (rule tame_table [OF ok(1) mproc_init_tame])
  then show ?thesis using assms ok new
    by (auto simp: do_bindproc_def 1 2 Let_def st4_def [symmetric] intro: table_reply split: if_splits option.splits)
qed

lemma tame_upd: "(\<And>x. mp_pid (f x) = mp_pid x \<and> mp_exitstatus (f x) = mp_exitstatus x) \<Longrightarrow> tame st (upd_mproc n f st)"
  by (auto simp: tame_def)

lemma do_getset_tame: "tame st (fst (do_getset E who m st))"
  by (simp add: do_getset_def Let_def split_beta tame_upd pids.R_flags)

lemma perform_getset:
  assumes "m 1 \<in> getset_calls"
  shows "perform E who m st = Some (fst (do_getset E who m st), snd (do_getset E who m st), cur_mp E)"
  using assms unfolding getset_calls_def by (elim insertE emptyE) (simp_all add: perform_def split_beta)

lemma perform_table:
  assumes run: "perform E who m st = Some (st', r, mp)" and ok: "table_ok (pe_nr_procs (pm_of E)) st"
    and call: "m 1 \<noteq> MOLFREEPROC" "m 1 = MOLBINDPROC \<Longrightarrow> m 2 = PROC_NO_PID"
  shows "table_ok (pe_nr_procs (pm_of E)) st'"
proof (cases "m 1 \<in> new_slot_calls")
  case True
  then show ?thesis using run ok call
    by (auto simp: perform_def new_slot_calls_def Let_def dest: do_fork_table do_rexec_table do_bindproc_table)
next
  case False
  then have "tame st st'" using pids.R_perform [OF run pids.R_refl] perform_getset [of m E who st] run do_getset_tame [of st E who m]
    by (cases "m 1 \<in> getset_calls") auto
  then show ?thesis by (rule tame_table [OF ok])
qed

lemma with_mp_sel [simp]: "pe_nr_procs (pm_of (with_mp mp E)) = pe_nr_procs (pm_of E)" "cur_mp (with_mp mp E) = mp"
  by (simp_all add: with_mp_def)

lemma pm_handle_table:
  assumes "pm_handle E m L = Some (L', r)" "table_ok (pe_nr_procs (pm_of E)) (ml_st L)"
    and "m 1 \<noteq> MOLFREEPROC" "m 1 = MOLBINDPROC \<Longrightarrow> m 2 = PROC_NO_PID"
  shows "table_ok (pe_nr_procs (pm_of E)) (ml_st L')"
proof -
  have ex: "table_ok (pe_nr_procs (pm_of E)) s" if "pm_expire_timers E' now (ml_st L) = Some (s, q)" for s q E' now
    by (rule tame_table [OF assms(2) pids.R_expire [OF that pids.R_refl]])
  have inf: "table_ok (pe_nr_procs (pm_of E)) (fst (sys_procinfo i n (ml_st L)))" for i n
    by (rule tame_table [OF assms(2)]) (intro pids.R_flags pids.R_refl)
  show ?thesis using assms perform_table [of E "ml_who L" m "ml_st L"] ex inf
    by (auto simp: pm_handle_def Let_def split: if_splits option.splits pm_res.splits)
qed

lemma drop_work_st [simp]: "ml_st (drop_work E m L) = ml_st L"
  by (simp add: drop_work_def split: prod.split)

lemma get_work_st: "get_work E m L = Some L' \<Longrightarrow> ml_st L' = ml_st L"
  by (auto simp: get_work_def Let_def split: if_splits prod.splits)

lemma pm_round_table:
  assumes run: "pm_round E m L = Some (L', out, r)" and ok: "table_ok (pe_nr_procs (pm_of E)) (ml_st L)"
    and call: "m 1 \<noteq> MOLFREEPROC" "m 1 = MOLBINDPROC \<Longrightarrow> m 2 = PROC_NO_PID"
  shows "table_ok (pe_nr_procs (pm_of E)) (ml_st L')"
proof (cases "get_work E m L")
  case None
  then show ?thesis using run ok by (auto simp: pm_round_def)
next
  case (Some L1)
  let ?E = "with_mp (ml_mp L1) E" and ?N = "pe_nr_procs (pm_of E)"
  obtain L2 r2 where 2: "pm_handle ?E m L1 = Some (L2, r2)"
    using run Some by (auto simp: pm_round_def Let_def split: option.splits)
  have ok2: "table_ok ?N (ml_st L2)" using pm_handle_table [OF 2 _ call] ok get_work_st [OF Some] by simp
  define x where "x = (if ml_result L2 \<noteq> SUSPEND then setreply (pc_pp ?E) (ml_who L2) (ml_result L2) (ml_st L2) else (ml_st L2, PmRet OK))"
  have ok3: "table_ok ?N (fst x)"
    by (rule tame_table [OF ok2]) (simp add: x_def pids.R_setreply [OF pids.R_refl])
  have ok4: "table_ok ?N s" if "reply_loop E2 ns (fst x) = Some (s, out, q)" for E2 ns s out q
    by (rule tame_table [OF ok3 pids.R_reply_loop [OF that pids.R_refl]])
  show ?thesis using run Some 2 ok2 ok3 ok4 unfolding pm_round_def
    by (cases x) (auto simp: Let_def x_def [symmetric] split: pm_res.splits)
qed

text \<open>PM at work on a table of \<open>N\<close> slots: rounds of its main loop with any messages and any answers of SYSTASK, but for the
  calls that put identifiers into the table without asking \<open>get_free_pid\<close>.\<close>

inductive pm_served :: "int \<Rightarrow> pm_loop \<Rightarrow> pm_loop \<Rightarrow> bool" for N where
  "pe_nr_procs (pm_of E) = N \<Longrightarrow> m 1 \<noteq> MOLFREEPROC \<Longrightarrow> (m 1 = MOLBINDPROC \<Longrightarrow> m 2 = PROC_NO_PID) \<Longrightarrow>
    pm_round E m L = Some (L', out, r) \<Longrightarrow> pm_served N L L'"

lemma mproc_init_fold:
  "\<forall>n. (n \<in> set ns \<or> mp_pid (mproc st n) \<le> 0 \<and> mp_exitstatus (mproc st n) = 0) \<longrightarrow>
    mp_pid (mproc (foldl (\<lambda>s n. mproc_init n s) st ns) n) \<le> 0 \<and> mp_exitstatus (mproc (foldl (\<lambda>s n. mproc_init n s) st ns) n) = 0"
proof (induction ns arbitrary: st)
  case (Cons k ns)
  have "mp_pid (mproc (mproc_init k st) n) \<le> 0 \<and> mp_exitstatus (mproc (mproc_init k st) n) = 0"
    if "n = k \<or> mp_pid (mproc st n) \<le> 0 \<and> mp_exitstatus (mproc st n) = 0" for n
    using that by (auto simp: mproc_init_def Let_def)
  then show ?case using Cons.IH [of "mproc_init k st"] by auto
qed simp

lemma mproc_init_next: "next_pid (foldl (\<lambda>s n. mproc_init n s) st ns) = next_pid st"
  by (induction ns arbitrary: st) (simp_all add: mproc_init_def)

lemma pm_init_table_ok:
  assumes "1 \<le> next_pid st" "next_pid st \<le> NR_PIDS"
  shows "table_ok (pe_nr_procs (pm_of E)) (pm_init_table E st)"
proof -
  let ?N = "pe_nr_procs (pm_of E)" and ?s = "foldl (\<lambda>s n. mproc_init n s) st [0 .. pe_nr_procs (pm_of E) - 1]"
  have s: "mp_pid (mproc ?s n) \<le> 0 \<and> mp_exitstatus (mproc ?s n) = 0" if "n \<in> {0 ..< ?N}" for n
    using mproc_init_fold [of "[0 .. ?N - 1]" st] that by auto
  have "table_ok ?N ?s" using assms s by (fastforce simp: table_ok_def mproc_init_next)
  then have "table_ok ?N (put_ktab (pm_of E) (snd (pc_proctab E)) (upd_mproc PM_PROC_NR
      (\<lambda>x. x\<lparr>mp_nice := PRIO_SERVER, mp_pid := 0, mp_flags := mp_flags x OR 12289\<rparr>) (?s\<lparr>procs_in_use := 1\<rparr>)))"
    by (rule tame_table) (intro pids.R_put_ktab pids.R_upd_after pids.R_flags pids.R_refl, simp add: mild_defs)
  then show ?thesis by (simp add: pm_init_table_def Let_def)
qed

text \<open>C6: From the table PM starts with, whatever the memory of \<open>kproc\<close> holds then, and whatever messages it serves and whatever SYSTASK and
  the kernel answer, PM's table stays well typed: every identifier above 0 belongs to one slot only and is at most \<open>NR_PIDS\<close>, the
  counter stays in its range and every exit code fits a character.  Left out are \<open>do_freeproc\<close>, which copies the caller's
  slot, and \<open>do_bindproc\<close> with an identifier chosen by the caller.\<close>

theorem pm_table_well_typed:
  assumes "(pm_served (pe_nr_procs (pm_of E)))\<^sup>*\<^sup>* L L'" "ml_st L = pm_init_table E st" "next_pid st = INIT_PID + 1"
  shows "table_ok (pe_nr_procs (pm_of E)) (ml_st L')"
  using assms(1)
proof (induction rule: rtranclp_induct)
  case base
  then show ?case using pm_init_table_ok [of st E] assms(2,3) by simp
next
  case (step L1 L2)
  from step(2) show ?case
  proof cases
    case (1 E1 m out r)
    then show ?thesis using pm_round_table [OF 1(4)] step(3) by simp
  qed
qed

section \<open>No privilege is gained\<close>

definition same_owners :: "pm_st \<Rightarrow> pm_st \<Rightarrow> bool" where
  "same_owners a b \<longleftrightarrow> (\<forall>n. same_ids (mproc a n) (mproc b n))"

interpretation ids: pm_frame same_owners
  by unfold_locales (auto simp: same_owners_def mild_def same_ids_def)

definition unprivileged :: "mproc_t \<Rightarrow> bool" where
  "unprivileged x \<longleftrightarrow> mp_realuid x \<noteq> SUPER_USER \<and> mp_effuid x \<noteq> SUPER_USER"

lemma owners_unprivileged: "same_owners a b \<Longrightarrow> unprivileged (mproc b n) = unprivileged (mproc a n)"
  by (simp add: same_owners_def unprivileged_def same_ids_def)

lemma procinfo_fst [simp]: "mproc (fst (sys_procinfo i n st)) = mproc st"
  by (simp add: sys_procinfo_def split_beta)

lemma do_getset_unprivileged:
  assumes "unprivileged (mproc st n)"
  shows "unprivileged (mproc (fst (do_getset E who m st)) n)"
  using assms unfolding do_getset_def Let_def
  by (auto simp: split_beta unprivileged_def pm_upd_defs)

text \<open>Which slot a call may overwrite with a copy of which other slot: fork copies the caller's, or INIT's when the
  caller is remote; rexec and freeproc copy the caller's.\<close>

definition copied :: "pc_env \<Rightarrow> int \<Rightarrow> pm_msg \<Rightarrow> pm_st \<Rightarrow> (int \<times> int) option" where
  "copied E who m st =
    (if m 1 = MOLFORK then
       let st1 = fst (sys_procinfo (pp_procinfo (pc_pp E)) who st); remote = bit (kp_rts st1 who) BIT_REMOTE
       in Some (ENDPOINT_P (fork_endpt (pc_pp E) (m 2) remote (kp_nodeid st1 who)), if remote then INIT_PROC_NR else cur_mp E)
     else if m 1 = MOLREXEC then Some (ENDPOINT_P (pp_rexec (pc_pp E) (m 4) (m 2) (m 3)), who)
     else if m 1 = MOLFREEPROC then Some (0, cur_mp E)
     else None)"

lemma unprivileged_upd:
  assumes "\<And>x. mp_realuid (f x) = mp_realuid x \<and> mp_effuid (f x) = mp_effuid x"
  shows "unprivileged (mproc (upd_mproc k f st) n) = unprivileged (mproc st n)"
  using assms by (simp add: unprivileged_def)

lemma unprivileged_copy:
  assumes "unprivileged (mproc st n)" "c = n \<Longrightarrow> unprivileged (mproc st p)"
  shows "unprivileged (mproc (copy_slot E c p st) n)"
  using assms by (simp add: copy_slot_def Let_def)

lemma unprivileged_reply [simp]: "unprivileged (mproc (set_reply w v k st) n) = unprivileged (mproc st n)"
  unfolding set_reply_def by (rule unprivileged_upd) simp

lemma free_pid_mproc: "get_free_pid E st = Some (st', p) \<Longrightarrow> mproc st' = mproc st"
  by (auto simp: get_free_pid_def split: option.splits)

lemma do_fork_unprivileged:
  assumes run: "do_fork (pc_pp E) who (m 2) st = Some (st', r)" and x: "unprivileged (mproc st n)" and call: "m 1 = MOLFORK"
    and cp: "\<And>p. copied E who m st = Some (n, p) \<Longrightarrow> unprivileged (mproc st p)"
  shows "unprivileged (mproc st' n)"
proof -
  let ?P = "pc_pp E"
  obtain st1 rc where 1: "sys_procinfo (pp_procinfo ?P) who st = (st1, rc)" by force
  define remote where "remote = bit (kp_rts st1 who) BIT_REMOTE"
  define ep where "ep = fork_endpt ?P (m 2) remote (kp_nodeid st1 who)"
  note run = run [unfolded do_fork_def 1 Let_def prod.case, folded remote_def, folded ep_def]
  have m1: "mproc st1 = mproc st" using 1 by (rule procinfo_sel)
  show ?thesis
  proof (cases "rc \<noteq> OK \<or> ep < 0")
    case True
    then show ?thesis using run x m1 by (auto split: if_splits)
  next
    case False
    define c where "c = ENDPOINT_P ep"
    define rmp where "rmp = (if remote then INIT_PROC_NR else mp_of ?P)"
    define st2 where "st2 = upd_mproc c (\<lambda>x. new_slot x (if remote then INIT_PROC_NR else who)
      (if c + pe_nr_tasks (pp_pm ?P) < pe_nr_sysprocs (pp_pm ?P) then FORKED_PRIV else FORKED)) (copy_slot (pp_pm ?P) c rmp st1)"
    note run = run [folded c_def rmp_def, folded st2_def]
    obtain st3 p where get: "get_free_pid (pp_pm ?P) st2 = Some (st3, p)" using run False by (auto split: option.splits)
    have "unprivileged (mproc st rmp)" if "c = n"
      using cp [of rmp] call 1 that by (simp add: copied_def c_def rmp_def remote_def ep_def)
    then have "unprivileged (mproc st2 n)" unfolding st2_def
      by (subst unprivileged_upd) (simp_all add: new_slot_def unprivileged_copy x m1)
    then have u4: "unprivileged (mproc (upd_mproc c (\<lambda>x. x\<lparr>mp_pid := p, mp_endpoint := ep\<rparr>) st3) n)"
      by (subst unprivileged_upd) (simp_all add: free_pid_mproc [OF get])
    obtain st5 rc5 where 5: "sys_procinfo (pp_procinfo2 ?P) c (upd_mproc c (\<lambda>x. x\<lparr>mp_pid := p, mp_endpoint := ep\<rparr>) st3) = (st5, rc5)"
      by force
    have "unprivileged (mproc st5 n)" using u4 procinfo_sel(1) [OF 5] by simp
    then show ?thesis using run False get 5 by (auto split: if_splits)
  qed
qed

lemma do_rexec_unprivileged:
  assumes run: "do_rexec E who m st = Some (st', r)" and x: "unprivileged (mproc st n)" and call: "m 1 = MOLREXEC"
    and cp: "\<And>p. copied E who m st = Some (n, p) \<Longrightarrow> unprivileged (mproc st p)"
  shows "unprivileged (mproc st' n)"
proof -
  define c where "c = ENDPOINT_P (pp_rexec (pc_pp E) (m 4) (m 2) (m 3))"
  define fl where "fl = (if c + pe_nr_tasks (pm_of E) < pe_nr_sysprocs (pm_of E) then RMT_PRIV else RMT_USED)"
  define y where "y = (if m 3 = LCL_BIND \<or> \<not> (has_flag st c BIT_IN_USE \<or> has_flag st c BIT_RMT_PROC) then
      map_option (\<lambda>(st2, pid). (upd_mproc c (\<lambda>x. x\<lparr>mp_pid := pid\<rparr>) st2, pid))
        (get_free_pid (pm_of E) (upd_mproc c (\<lambda>x. new_slot x who fl) (copy_slot (pm_of E) c who st)))
    else Some (st, pc_rmtpid E))"
  note run = run [unfolded do_rexec_def Let_def, folded c_def, folded fl_def, folded y_def]
  have "unprivileged (mproc st who)" if "c = n" using cp [of who] call that by (simp add: copied_def c_def)
  then have cpy: "unprivileged (mproc (upd_mproc c (\<lambda>x. new_slot x who fl) (copy_slot (pm_of E) c who st)) n)"
    by (subst unprivileged_upd) (simp_all add: new_slot_def unprivileged_copy x)
  have new: "unprivileged (mproc (upd_mproc c (\<lambda>x. x\<lparr>mp_pid := p\<rparr>) s) n)"
    if "get_free_pid (pm_of E) (upd_mproc c (\<lambda>x. new_slot x who fl) (copy_slot (pm_of E) c who st)) = Some (s, p)" for s p
    using cpy by (subst unprivileged_upd) (simp_all add: free_pid_mproc [OF that])
  have u1: "unprivileged (mproc s n)" if "y = Some (s, p)" for s p
    using that x new by (auto simp: y_def split: if_splits)
  then show ?thesis using run x procinfo_sel(1) by (fastforce split: if_splits option.splits prod.splits)
qed

lemma do_freeproc_unprivileged:
  assumes x: "unprivileged (mproc st n)" and call: "m 1 = MOLFREEPROC"
    and cp: "\<And>p. copied E who m st = Some (n, p) \<Longrightarrow> unprivileged (mproc st p)"
  shows "unprivileged (mproc (fst (do_freeproc E who st)) n)"
proof -
  let ?s = "st\<lparr>procs_in_use := procs_in_use st + 1\<rparr>"
  have "unprivileged (mproc (copy_slot (pm_of E) 0 (cur_mp E) ?s) n)"
    using x cp [of "cur_mp E"] call by (intro unprivileged_copy) (auto simp: copied_def)
  then have "unprivileged (mproc (upd_mproc 0 (\<lambda>x. x\<lparr>mp_parent := who, mp_flags := mp_flags x AND FORKED_PRIV\<rparr>)
      (copy_slot (pm_of E) 0 (cur_mp E) ?s)) n)"
    by (subst unprivileged_upd) simp_all
  then show ?thesis using x by (simp add: do_freeproc_def Let_def)
qed

lemma mproc_init_unprivileged: "unprivileged (mproc st n) \<Longrightarrow> unprivileged (mproc (mproc_init k st) n)"
  by (simp add: mproc_init_def unprivileged_def Let_def)

lemma do_bindproc_unprivileged:
  assumes "do_bindproc E m st = Some (st', r, mp)" "unprivileged (mproc st n)"
  shows "unprivileged (mproc st' n)"
proof -
  obtain st1 rc where 1: "sys_procinfo (pp_procinfo (pc_pp E)) (m 4) st = (st1, rc)" by force
  obtain st2 rc2 where 2: "sys_procinfo (pp_procinfo2 (pc_pp E)) (m 4) st1 = (st2, rc2)" by force
  have u: "unprivileged (mproc st1 n)" "unprivileged (mproc st2 n)"
    using assms(2) procinfo_sel(1) [OF 1] procinfo_sel(1) [OF 2] by simp_all
  define st4 where "st4 = (upd_mproc (m 4) (\<lambda>x. x\<lparr>mp_parent := kp_endpoint st2 PM_PROC_NR, mp_flags := PRIV_USED,
      mp_child_utime := 0, mp_child_stime := 0, mp_exitstatus := 0, mp_sigstatus := 0, mp_nice := PRIO_SERVER,
      mp_endpoint := kp_endpoint st2 (m 4)\<rparr>) st2)\<lparr>procs_in_use := procs_in_use st2 + 1\<rparr>"
  have u4: "unprivileged (mproc st4 n)" using u(2) by (auto simp: st4_def unprivileged_def)
  have u6: "unprivileged (mproc (upd_mproc (m 4) (\<lambda>x. x\<lparr>mp_pid := p\<rparr>) s) n)" if "mproc s = mproc st4" for s p
    using u4 that by (subst unprivileged_upd) simp_all
  show ?thesis using assms u u6 mproc_init_unprivileged [OF u(1), of "m 4"] free_pid_mproc [of "pm_of E" st4]
    by (auto simp: do_bindproc_def 1 2 Let_def st4_def [symmetric] split: if_splits option.splits)
qed

lemma perform_unprivileged:
  assumes run: "perform E who m st = Some (st', r, mp)" and x: "unprivileged (mproc st n)"
    and cp: "\<And>p. copied E who m st = Some (n, p) \<Longrightarrow> unprivileged (mproc st p)"
  shows "unprivileged (mproc st' n)"
proof (cases "m 1 \<in> new_slot_calls")
  case True
  then show ?thesis using run
      do_fork_unprivileged [OF _ x _ cp] do_rexec_unprivileged [OF _ x _ cp] do_freeproc_unprivileged [OF x _ cp]
      do_bindproc_unprivileged [OF _ x]
    by (auto simp: perform_def new_slot_calls_def Let_def split_beta)
next
  case False
  then show ?thesis
    using run ids.R_perform [OF run ids.R_refl] x owners_unprivileged
      do_getset_unprivileged [OF x, of E who m] perform_getset [of m E who st]
    by (cases "m 1 \<in> getset_calls") auto
qed

lemma pm_handle_unprivileged:
  assumes "pm_handle E m L = Some (L', r)" "unprivileged (mproc (ml_st L) n)"
    and cp: "\<And>p. copied E (ml_who L) m (ml_st L) = Some (n, p) \<Longrightarrow> unprivileged (mproc (ml_st L) p)"
  shows "unprivileged (mproc (ml_st L') n)"
proof -
  have ex: "unprivileged (mproc s n)" if "pm_expire_timers E' now (ml_st L) = Some (s, q)" for s q E' now
    using owners_unprivileged [OF ids.R_expire [OF that ids.R_refl]] assms(2) by simp
  show ?thesis using assms(1,2) ex perform_unprivileged [OF _ assms(2) cp]
    by (auto simp: pm_handle_def Let_def split: if_splits option.splits pm_res.splits)
qed

lemma pm_round_unprivileged:
  assumes run: "pm_round E m L = Some (L', out, r)" and x: "unprivileged (mproc (ml_st L) n)"
    and cp: "\<And>L1 p. get_work E m L = Some L1 \<Longrightarrow> copied (with_mp (ml_mp L1) E) (ml_who L1) m (ml_st L) = Some (n, p) \<Longrightarrow>
      unprivileged (mproc (ml_st L) p)"
  shows "unprivileged (mproc (ml_st L') n)"
proof (cases "get_work E m L")
  case None
  then show ?thesis using run x by (auto simp: pm_round_def)
next
  case (Some L1)
  let ?E = "with_mp (ml_mp L1) E"
  obtain L2 r2 where 2: "pm_handle ?E m L1 = Some (L2, r2)"
    using run Some by (auto simp: pm_round_def Let_def split: option.splits)
  have x2: "unprivileged (mproc (ml_st L2) n)"
    using pm_handle_unprivileged [OF 2, of n] x get_work_st [OF Some] cp [OF Some] by simp
  define y where "y = (if ml_result L2 \<noteq> SUSPEND then setreply (pc_pp ?E) (ml_who L2) (ml_result L2) (ml_st L2) else (ml_st L2, PmRet OK))"
  have x3: "unprivileged (mproc (fst y) n)"
    using x2 owners_unprivileged [OF ids.R_setreply [OF ids.R_refl]] by (simp add: y_def)
  have x4: "unprivileged (mproc s n)" if "reply_loop E2 ns (fst y) = Some (s, out, q)" for E2 ns s out q
    using x3 owners_unprivileged [OF ids.R_reply_loop [OF that ids.R_refl]] by simp
  show ?thesis using run Some 2 x2 x3 x4 unfolding pm_round_def
    by (cases y) (auto simp: Let_def y_def [symmetric] split: pm_res.splits)
qed

text \<open>Rounds of the main loop with any message and any answers of SYSTASK and the kernel, in which slot \<open>n\<close> is not made the
  copy of a slot with the rights of the super-user.\<close>

inductive pm_kept :: "int \<Rightarrow> pm_loop \<Rightarrow> pm_loop \<Rightarrow> bool" for n where
  "pm_round E m L = Some (L', out, r) \<Longrightarrow>
    (\<And>L1 p. get_work E m L = Some L1 \<Longrightarrow> copied (with_mp (ml_mp L1) E) (ml_who L1) m (ml_st L) = Some (n, p) \<Longrightarrow>
      unprivileged (mproc (ml_st L) p)) \<Longrightarrow> pm_kept n L L'"

text \<open>C9: No sequence of rounds gives a process the rights of the super-user that it did not have: a slot whose real and effective user are
  both not 0 keeps such users through any number of rounds of the main loop, whoever calls and whatever the kernel answers, forks and
  bindings of other processes included, as long as no round makes it the copy of a slot that has those rights (fork, rexec and
  freeproc copy the slot of their caller, and a fork by a remote process that of INIT).\<close>

theorem no_privilege_gained:
  assumes "(pm_kept n)\<^sup>*\<^sup>* L L'" "unprivileged (mproc (ml_st L) n)"
  shows "unprivileged (mproc (ml_st L') n)"
  using assms
proof (induction rule: rtranclp_induct)
  case (step L1 L2)
  from step(2) show ?case
  proof cases
    case (1 E m out r)
    then show ?thesis using pm_round_unprivileged [OF 1(1), of n] step(3,4) by blast
  qed
qed

end
