(* ===== verification/Pm_Loop.thy ===== *)
theory Pm_Loop
  imports Pm_Calls
begin

text \<open>
  What a round of PM's main loop does for its callers: the replies that leave PM, the notifications of SLOTS, the
  orphans of a process that exits, the time, and the calls that do not do what they promise.  The examples at the end are a DC of
  221 process slots in which PM, INIT and two user processes live.
\<close>

section \<open>Replies\<close>

definition fatal_send :: "pc_env \<Rightarrow> pm_st \<Rightarrow> int \<Rightarrow> bool" where
  "fatal_send E st n \<longleftrightarrow> pp_send (pc_pp E) (kp_endpoint st n) \<in> {EMOLSRCDIED, EMOLDSTDIED, EMOLNOPROXY, EMOLNOTCONN, EMOLDEADSRCDST}"

definition due_replies :: "pc_env \<Rightarrow> pm_st \<Rightarrow> int list \<Rightarrow> (int \<times> pm_msg) list" where
  "due_replies E st ns = map (\<lambda>n. (kp_endpoint st n, mp_reply (mproc st n)))
     (filter (\<lambda>n. reply_due st n \<and> pp_send (pc_pp E) (kp_endpoint st n) = OK) ns)"

lemma reply_due_upd:
  "n \<noteq> k \<Longrightarrow> reply_due (clr_flag b k st) n = reply_due st n" "kp_endpoint (clr_flag b k st) = kp_endpoint st"
  "\<not> reply_due (clr_flag BIT_REPLYPENDING n st) n" "n \<noteq> k \<Longrightarrow> mproc (clr_flag b k st) n = mproc st n"
  by (simp_all add: reply_due_def clr_flag_def bit_unset_bit_iff)

lemma due_replies_other: "k \<notin> set ns \<Longrightarrow> due_replies E (clr_flag b k st) ns = due_replies E st ns"
  unfolding due_replies_def by (rule map_cong [OF filter_cong]) (auto simp: reply_due_def clr_flag_def)

lemma reply_loop_sends:
  assumes "distinct ns" "\<And>n. n \<in> set ns \<Longrightarrow> reply_due st n \<Longrightarrow> \<not> fatal_send E st n"
  shows "\<exists>st'. reply_loop E ns st = Some (st', due_replies E st ns, PmRet OK) \<and> (\<forall>n \<in> set ns. \<not> reply_due st' n)
    \<and> (\<forall>n. n \<notin> set ns \<longrightarrow> reply_due st' n = reply_due st n)"
  using assms
proof (induction ns arbitrary: st)
  case (Cons k ns)
  show ?case
  proof (cases "reply_due st k")
    case True
    let ?s = "clr_flag BIT_REPLYPENDING k st"
    have "\<not> fatal_send E ?s n" if "n \<in> set ns" "reply_due ?s n" for n
      using that Cons.prems reply_due_upd(1) [of n k BIT_REPLYPENDING st]
      by (cases "n = k") (auto simp: fatal_send_def reply_due_upd)
    with Cons.prems(1) obtain st' where st': "reply_loop E ns ?s = Some (st', due_replies E ?s ns, PmRet OK)"
      "\<forall>n \<in> set ns. \<not> reply_due st' n" "\<forall>n. n \<notin> set ns \<longrightarrow> reply_due st' n = reply_due ?s n"
      using Cons.IH [of ?s] by auto
    have nf: "\<not> fatal_send E st k" using Cons.prems(2) [of k] True by simp
    have "due_replies E st (k # ns) = (if pp_send (pc_pp E) (kp_endpoint st k) = OK then [(kp_endpoint st k, mp_reply (mproc st k))] else [])
        @ due_replies E ?s ns"
      using True Cons.prems(1) due_replies_other [of k ns E BIT_REPLYPENDING st] by (simp add: due_replies_def)
    then have "reply_loop E (k # ns) st = Some (st', due_replies E st (k # ns), PmRet OK)"
      using True nf st'(1) by (auto simp: fatal_send_def Let_def)
    then show ?thesis using st'(2,3) Cons.prems(1) reply_due_upd(1,3) by auto
  next
    case False
    then show ?thesis using Cons.IH [of st] Cons.prems by (auto simp: due_replies_def)
  qed
qed (simp add: due_replies_def)

text \<open>C7: Every call that does not suspend its caller is answered in the same round: if the handler of the message returned \<open>r\<close>, the
  caller is a process in use, the kernel accepts the reply to it and refuses no pending reply with one of the five codes that make PM end the
  caller (such a failure, for whatever process, would end this one instead), the kernel accepts from PM, in the order of the slots, exactly the replies that are pending, the
  one with \<open>r\<close> for the caller among them, and no reply is left pending afterwards, so none is sent twice.\<close>

theorem round_answers_caller:
  assumes work: "get_work E m L = Some L1" and hnd: "pm_handle (with_mp (ml_mp L1) E) m L1 = Some (L2, PmRet OK)"
    and res: "ml_result L2 = r" "r \<noteq> SUSPEND" and who: "ml_who L2 = w" "0 \<le> w" "w < pe_nr_procs (pm_of E)"
    "has_flag (ml_st L2) w BIT_IN_USE" "\<not> has_flag (ml_st L2) w BIT_ZOMBIE"
    and send: "\<And>n. reply_due (ml_st L2) n \<Longrightarrow> \<not> fatal_send E (ml_st L2) n" "pp_send (pc_pp E) (kp_endpoint (ml_st L2) w) = OK"
  shows "\<exists>st st'. setreply (pc_pp E) w r (ml_st L2) = (st, PmRet OK)
    \<and> pm_round E m L = Some (L2\<lparr>ml_st := st'\<rparr>, due_replies E st [0 .. pe_nr_procs (pm_of E) - 1], PmRet OK)
    \<and> (kp_endpoint st w, (mp_reply (mproc (ml_st L2) w))(reply_res := r)) \<in> set (due_replies E st [0 .. pe_nr_procs (pm_of E) - 1])
    \<and> (\<forall>n \<in> {0 ..< pe_nr_procs (pm_of E)}. \<not> reply_due st' n)"
proof -
  let ?N = "pe_nr_procs (pm_of E)" and ?E = "with_mp (ml_mp L2) (with_mp (ml_mp L1) E)"
  define st where "st = set_flag BIT_REPLYPENDING w (set_reply reply_res r w (ml_st L2))"
  have set: "setreply (pc_pp E') w r (ml_st L2) = (st, PmRet OK)" if "pe_nr_procs (pm_of E') = ?N" for E'
    using who that by (simp add: setreply_def st_def)
  have kp: "kp_endpoint st = kp_endpoint (ml_st L2)" by (simp add: st_def pm_upd_defs)
  have snd: "pp_send (pc_pp ?E) = pp_send (pc_pp E)" by (simp add: with_mp_def)
  have nf: "\<not> fatal_send ?E st n" if "reply_due st n" for n
  proof (cases "n = w")
    case True
    then show ?thesis using send(2) by (simp add: fatal_send_def snd kp)
  next
    case False
    then have "reply_due (ml_st L2) n" using that by (simp add: reply_due_def st_def pm_upd_defs)
    then show ?thesis using send(1) [of n] by (simp add: fatal_send_def snd kp)
  qed
  have due: "due_replies ?E st ns = due_replies E st ns" for ns by (simp add: due_replies_def snd)
  obtain st' where st': "reply_loop ?E [0 .. ?N - 1] st = Some (st', due_replies E st [0 .. ?N - 1], PmRet OK)"
    "\<forall>n \<in> set [0 .. ?N - 1]. \<not> reply_due st' n"
    using reply_loop_sends [of "[0 .. ?N - 1]" st ?E] nf due by auto
  have "pm_round E m L = Some (L2\<lparr>ml_st := st'\<rparr>, due_replies E st [0 .. ?N - 1], PmRet OK)"
    using work hnd res who(1) set [of "with_mp (ml_mp L1) E"] st'(1) by (simp add: pm_round_def Let_def)
  moreover have "reply_due st w" "mp_reply (mproc st w) = (mp_reply (mproc (ml_st L2) w))(reply_res := r)"
    using who(4,5) by (simp_all add: st_def reply_due_def pm_upd_defs bit_set_bit_iff)
  then have "(kp_endpoint st w, (mp_reply (mproc (ml_st L2) w))(reply_res := r)) \<in> set (due_replies E st [0 .. ?N - 1])"
    using who(2,3) send(2) kp by (auto simp: due_replies_def)
  ultimately show ?thesis using set [of E] st'(2) by auto
qed

text \<open>A notification of SLOTS stops PM.  The main loop does not set \<open>result\<close> for it, so the answer to the call served before is
  sent again, and to the task SLOTS, whose number is below 0: \<open>setreply\<close> then takes the exit with \<open>EMOLBADPROC\<close>.\<close>

theorem slots_notification_stops_pm:
  assumes "ml_result L \<noteq> SUSPEND" "m 0 = pc_slots E" "m 1 = NOTIFY_MESSAGE OR pc_slots E"
    and "- pe_nr_tasks (pm_of E) \<le> pc_slots E" "pc_slots E < 0" "pe_nr_tasks (pm_of E) \<le> NR_TASKS"
    and "kp_endpoint (ml_st L) (pc_slots E) = pc_slots E" "0 \<le> pe_nr_procs (pm_of E)"
    and "pc_slots E \<noteq> CLOCK_NR" "NOTIFY_MESSAGE OR pc_slots E \<noteq> NOTIFY_MESSAGE OR CLOCK_NR"
    "NOTIFY_MESSAGE OR pc_slots E \<noteq> NOTIFY_MESSAGE OR pc_systask E"
  shows "\<exists>L'. pm_round E m L = Some (L', [], PmStop EMOLBADPROC)"
proof -
  have p: "ENDPOINT_P (pc_slots E) = pc_slots E" using assms(4-6) by (simp add: ENDPOINT_P_small)
  have "pm_isokendpt (pm_of E) (m 0) (ml_st L) = (OK, pc_slots E)"
    using assms(2,4,5,7,8) by (auto simp: pm_isokendpt_def p Let_def)
  then have w: "get_work E m L = Some (L\<lparr>ml_who := pc_slots E, ml_mp := PM_PROC_NR\<rparr>)"
    using assms(2,5,9) by (simp add: get_work_def)
  show ?thesis unfolding pm_round_def w
    using assms by (auto simp: pm_handle_def Let_def setreply_def with_mp_def)
qed

section \<open>Orphans\<close>

definition child_of :: "int \<Rightarrow> pm_st \<Rightarrow> int \<Rightarrow> bool" where
  "child_of n st c \<longleftrightarrow> mp_parent (mproc st c) = n \<and> has_flag st c BIT_IN_USE"

lemma cleanup_child: "child_of n (fst (cleanup E k st)) c \<Longrightarrow> child_of n st c"
  by (auto simp: child_of_def cleanup_def setreply_def pm_upd_defs Let_def bit_set_bit_iff bit_unset_bit_iff split: if_splits)

lemma disinherit_clears:
  assumes "disinherit E n cs st = (st', PmRet k)" "n \<noteq> INIT_PROC_NR"
  shows "child_of n st' c \<Longrightarrow> child_of n st c \<and> c \<notin> set cs"
  using assms
proof (induction E n cs st rule: disinherit.induct)
  case (2 E n d ds st)
  show ?case
  proof (cases "mp_parent (mproc st d) = n \<and> has_flag st d BIT_IN_USE")
    case True
    let ?s = "upd_mproc d (\<lambda>x. x\<lparr>mp_parent := INIT_PROC_NR\<rparr>) st"
    have s: "child_of n st c \<and> c \<noteq> d" if "child_of n ?s c"
      using that 2(6) by (auto simp: child_of_def split: if_splits)
    show ?thesis
    proof (cases "has_flag ?s INIT_PROC_NR BIT_WAITING \<and> has_flag ?s d BIT_ZOMBIE")
      case zombie: True
      obtain u q where u: "cleanup E d ?s = (u, q)" by force
      then obtain j where q: "q = PmRet j" using 2(5) True zombie by (cases q) (auto simp: Let_def)
      have "child_of n u c \<and> c \<notin> set ds"
        using 2(1) [OF True refl zombie u [symmetric] q] 2(4-6) True zombie u q by (simp add: Let_def)
      then show ?thesis using s cleanup_child [of n E d ?s c] u by auto
    next
      case False
      have "disinherit E n ds ?s = (st', PmRet k)"
        using 2(5) by (simp only: disinherit.simps Let_def if_P [OF True] if_not_P [OF False])
      then have "child_of n ?s c \<and> c \<notin> set ds" using 2(2) [OF True refl False] 2(4,6) by blast
      then show ?thesis using s by auto
    qed
  next
    case False
    have "disinherit E n ds st = (st', PmRet k)" using 2(5) False by auto
    then have "child_of n st c \<and> c \<notin> set ds" using 2(3) [OF False] 2(4,6) by blast
    then show ?thesis using False by (auto simp: child_of_def)
  qed
qed simp

text \<open>A process that exits leaves no orphans behind: when \<open>pm_exit\<close> returns, no slot of the table that is in use has the
  process for its parent any more, whatever the kernel answered on the way (INIT itself excepted, which inherits them).\<close>

theorem exit_leaves_no_children:
  assumes run: "pm_exit E n s op st = Some (st', PmRet k)" and n: "n \<noteq> INIT_PROC_NR" and c: "0 \<le> c" "c < nr_procs E"
  shows "\<not> (mp_parent (mproc st' c) = n \<and> has_flag st' c BIT_IN_USE)"
proof -
  let ?x = "if has_flag st n BIT_ALARM_ON then map_option fst (set_alarm (pp_pm E) (kp_endpoint st n) 0 st) else Some st"
  obtain st1 where x: "?x = Some st1" using run by (cases ?x) (simp_all add: pm_exit_def)
  obtain st2 r2 where 2: "leave_kernel E n st1 = (st2, r2)" by force
  obtain st3 r3 where 3: "bury E n s op st2 = (st3, r3)" by force
  obtain st4 r4 where 4: "disinherit E n [0 .. nr_procs E - 1] st3 = (st4, r4)" by force
  obtain j where j: "r4 = PmRet j" and st': "mproc st' c = mproc st4 c \<or> mp_flags (mproc st' c) = 0"
    using run 2 3 4 unfolding pm_exit_def x Let_def by (auto split: pm_res.splits if_splits)
  have "\<not> child_of n st4 c" using disinherit_clears [OF 4 [unfolded j] n, of c] c by auto
  then show ?thesis using st' by (auto simp: child_of_def)
qed

section \<open>Time\<close>

text \<open>The time can be set and read back: after \<open>stime(t)\<close> at uptime \<open>u\<close> a call of \<open>time\<close> at uptime \<open>v\<close> answers \<open>t\<close>
  plus the whole seconds of \<open>v\<close> less those of \<open>u\<close>, in 32-bit arithmetic with wrap-around, whatever the boot time was.\<close>

theorem stime_then_time:
  assumes "pe_uptime (pm_of E) = (OK, u)" "pe_uptime (pm_of E') = (OK, v)" "pe_ticks (pm_of E') = pe_ticks (pm_of E)"
  shows "\<exists>st1 st2. do_stime E m st = (st1, PmRet OK) \<and> do_time E' st1 = (st2, PmRet OK)
    \<and> mp_reply (mproc st2 (cur_mp E')) 5 = sint (word_of_int (m 5)
        + (v div word_of_int (pe_ticks (pm_of E)) - u div word_of_int (pe_ticks (pm_of E))) :: molclock)"
  using assms by (simp add: do_stime_def do_time_def set_reply_def Let_def algebra_simps)

section \<open>A call that does harm\<close>

text \<open>\<open>do_freeproc\<close> does not reserve a free slot: any process with an identifier that calls it while the table is not full gets slot 0 for an
  answer, and PM's own entry is overwritten with a copy of the caller's, so that two slots hold the same identifier.\<close>

theorem freeproc_overwrites_pm:
  assumes "cur_mp E = n" "0 < n" "n < pe_nr_procs (pm_of E)" "procs_in_use st < pe_nr_procs (pm_of E) - LAST_FEW"
    and "0 < mp_pid (mproc st n)"
  shows "\<exists>st'. do_freeproc E who st = (st', PmRet 0) \<and> mp_pid (mproc st' PM_PROC_NR) = mp_pid (mproc st n)
    \<and> mp_pid (mproc st' n) = mp_pid (mproc st n) \<and> mp_parent (mproc st' PM_PROC_NR) = who
    \<and> \<not> table_ok (pe_nr_procs (pm_of E)) st'"
proof -
  obtain st' where st': "do_freeproc E who st = (st', PmRet 0)" "mp_pid (mproc st' 0) = mp_pid (mproc st n)"
    "mp_pid (mproc st' n) = mp_pid (mproc st n)" "mp_parent (mproc st' 0) = who"
    using assms by (auto simp: do_freeproc_def pm_upd_defs Let_def)
  have "mp_pid (mproc st' n) \<noteq> mp_pid (mproc st' 0)" if "table_ok (pe_nr_procs (pm_of E)) st'"
    using that st'(2) assms(2,3,5) unfolding table_ok_def by (elim conjE ballE [of _ _ 0]) auto
  then have "\<not> table_ok (pe_nr_procs (pm_of E)) st'" using st'(2,3) by auto
  then show ?thesis using st' by blast
qed

section \<open>Examples\<close>

text \<open>A kernel that accepts everything, and the main loop of PM about to serve a message from process 40, which runs with user 5 and has process 50
  for a child; the round before answered 0.\<close>

definition ex_entry :: "int \<Rightarrow> int \<times> kentry" where
  "ex_entry n = (0, \<lparr>ke_rts = 0, ke_endpoint = n, ke_nodeid = 0, ke_lpid = n, ke_name = []\<rparr>)"

definition ex_pp :: "int \<Rightarrow> pp_env" where
  "ex_pp mp = \<lparr>pp_pm = pm_os\<lparr>pe_mp := mp\<rparr>, pp_procinfo = ex_entry, pp_procinfo2 = ex_entry, pp_fork = (\<lambda>_. 60), pp_rfork = (\<lambda>_ _. 60),
     pp_bindproc = (\<lambda>_ _ _. 0), pp_rsetpname = (\<lambda>_. 0), pp_sysexit = (\<lambda>_ _. 0), pp_rexec = (\<lambda>_ _ _. 60), pp_notify = (\<lambda>_. 0),
     pp_send = (\<lambda>_. 0), pp_garbage = (0, 0)\<rparr>"

definition ex_pc :: pc_env where
  "ex_pc = \<lparr>pc_pp = ex_pp 40, pc_setpname = (\<lambda>_. 0), pc_times = (0, \<lambda>_. 0), pc_key = (0, []), pc_vircopy = 0,
     pc_proctab = (0, \<lambda>n. snd (ex_entry n)), pc_privtab = 0, pc_slotstab = 0, pc_rmtpid = 0, pc_migr = 0, pc_oper = 0,
     pc_systask = - 2, pc_slots = - 34\<rparr>"

definition ex_st :: pm_st where
  "ex_st = upd_mproc 50 (\<lambda>x. x\<lparr>mp_parent := 40\<rparr>) (upd_mproc 40 (\<lambda>x. x\<lparr>mp_realuid := 5, mp_effuid := 5\<rparr>) pm_start)"

definition ex_loop :: pm_loop where
  "ex_loop = \<lparr>ml_st = ex_st, ml_who = 0, ml_mp = 0, ml_result = 0\<rparr>"

definition ex_msg :: "int \<Rightarrow> int \<Rightarrow> int \<Rightarrow> pm_msg" where
  "ex_msg src type arg = (\<lambda>_. 0)(0 := src, 1 := type, 2 := arg)"

lemmas ex_defs = ex_pc_def ex_pp_def pm_os_def ex_st_def pm_start_def ex_entry_def ex_loop_def ex_msg_def with_mp_def

lemma ex_sel [simp]: "pe_nr_procs (pm_of ex_pc) = 221" "nr_procs (ex_pp mp) = 221" "mp_of (ex_pp mp) = mp" "cur_mp ex_pc = 40"
  "pp_send (ex_pp mp) = (\<lambda>_. 0)" "pc_pp ex_pc = ex_pp 40" "pe_nr_tasks (pm_of ex_pc) = 35"
  by (simp_all add: ex_defs)

lemma ex_no_fatal [simp]: "\<not> fatal_send ex_pc st n"
  by (simp add: fatal_send_def)

lemma ex_ep40: "pm_isokendpt (pm_of ex_pc) 40 ex_st = (OK, 40)"
  by (simp add: pm_isokendpt_def ENDPOINT_P_def cmod_def ex_defs)

lemma ex_work: "get_work ex_pc (ex_msg 40 c a) ex_loop = Some (ex_loop\<lparr>ml_who := 40, ml_mp := 40\<rparr>)"
  using ex_ep40 by (simp add: get_work_def ex_loop_def ex_msg_def) (simp add: ex_st_def pm_start_def)

text \<open>A round in which no reply fails for good ends.\<close>

lemma round_ends:
  assumes "get_work E m L = Some L1" "pm_handle (with_mp (ml_mp L1) E) m L1 = Some (L2, PmRet OK)"
    "ml_result L2 = SUSPEND \<or> 0 \<le> ml_who L2 \<and> ml_who L2 < pe_nr_procs (pm_of E)" "\<And>st n. \<not> fatal_send E st n"
  shows "\<exists>st' out. pm_round E m L = Some (L2\<lparr>ml_st := st'\<rparr>, out, PmRet OK)"
proof -
  let ?E = "with_mp (ml_mp L2) (with_mp (ml_mp L1) E)"
  have nf: "\<not> fatal_send ?E st n" for st n using assms(4) by (simp add: fatal_send_def with_mp_def)
  have "\<exists>st' out. reply_loop ?E [0 .. pe_nr_procs (pm_of E) - 1] st = Some (st', out, PmRet OK)" for st
    using reply_loop_sends [of "[0 .. pe_nr_procs (pm_of E) - 1]" st ?E] nf by auto
  then show ?thesis using assms(1-3) by (fastforce simp: pm_round_def setreply_def Let_def)
qed

definition ex_after :: "int \<Rightarrow> pm_st \<Rightarrow> pm_loop" where
  "ex_after r st = \<lparr>ml_st = st, ml_who = 40, ml_mp = 40, ml_result = r\<rparr>"

lemma ex_getuid:
  "pm_handle (with_mp 40 ex_pc) (ex_msg 40 MOLGETUID 0) (ex_loop\<lparr>ml_who := 40, ml_mp := 40\<rparr>)
    = Some (ex_after 5 (set_reply reply_res2 5 40 ex_st), PmRet OK)"
  by (simp add: pm_handle_def perform_def do_getset_def ex_after_def ex_defs pm_upd_defs)

lemma ex_setuid:
  "pm_handle (with_mp 40 ex_pc) (ex_msg 40 MOLSETUID 0) (ex_loop\<lparr>ml_who := 40, ml_mp := 40\<rparr>)
    = Some (ex_after EMOLPERM ex_st, PmRet OK)"
  by (simp add: pm_handle_def perform_def do_getset_def ex_after_def ex_defs pm_upd_defs)

theorem round_answers_caller_witness:
  "\<exists>L' out. pm_round ex_pc (ex_msg 40 MOLGETUID 0) ex_loop = Some (L', out, PmRet OK) \<and> (40, (\<lambda>_. 0)(2 := 5, 1 := 5)) \<in> set out"
proof -
  let ?s = "set_reply reply_res2 5 40 ex_st"
  have f: "kp_endpoint ?s 40 = 40" "has_flag ?s 40 BIT_IN_USE" "\<not> has_flag ?s 40 BIT_ZOMBIE" "mp_reply (mproc ?s 40) = (\<lambda>_. 0)(2 := 5)"
    by (simp_all add: ex_st_def pm_start_def pm_upd_defs bit_1_iff fun_eq_iff)
  obtain st st' where r: "setreply (pc_pp ex_pc) 40 5 ?s = (st, PmRet OK)"
    "pm_round ex_pc (ex_msg 40 MOLGETUID 0) ex_loop = Some ((ex_after 5 ?s)\<lparr>ml_st := st'\<rparr>, due_replies ex_pc st [0 .. 221 - 1], PmRet OK)"
    "(kp_endpoint st 40, (mp_reply (mproc ?s 40))(reply_res := 5)) \<in> set (due_replies ex_pc st [0 .. 221 - 1])"
    using round_answers_caller [OF ex_work, of "MOLGETUID" 0 "ex_after 5 ?s" 5 40] ex_getuid f by (auto simp: ex_after_def)
  have "kp_endpoint st 40 = 40" using r(1) f(1) by (auto simp: setreply_def pm_upd_defs)
  then show ?thesis using r(2,3) f(4) by auto
qed

lemma ex_do_fork: "\<exists>st r. do_fork (ex_pp 40) 40 0 ex_st = Some (st, PmRet r)"
proof -
  let ?E = "ex_pp 40"
  obtain st1 where 1: "sys_procinfo (pp_procinfo ?E) 40 ex_st = (st1, OK)" "kp_rts st1 40 = 0" "next_pid st1 = 2"
    by (auto simp: sys_procinfo_def put_kproc_def ex_defs)
  define st2 where "st2 = upd_mproc 60 (\<lambda>x. new_slot x 40 FORKED) (copy_slot (pp_pm ?E) 60 40 st1)"
  have "next_pid st2 = 2" "2 * pe_nr_procs (pp_pm ?E) < NR_PIDS - 1"
    using 1(3) by (simp_all add: st2_def copy_slot_def upd_mproc_def Let_def)
  then obtain p where p: "get_free_pid (pp_pm ?E) st2 = Some (st2\<lparr>next_pid := p\<rparr>, p)"
    using get_free_pid_returns [of "pp_pm ?E" st2] by auto
  have k: "fork_endpt ?E 0 False nd = 60" "ENDPOINT_P 60 = 60" "pe_nr_tasks (pp_pm ?E) = 35" "pe_nr_sysprocs (pp_pm ?E) = 64"
    "sys_procinfo (pp_procinfo2 ?E) 60 s = (put_kproc 60 (snd (ex_entry 60)) s, OK)"
    "kp_endpoint (put_kproc 60 (snd (ex_entry 60)) s) 60 = 60" for nd s
    by (simp_all add: fork_endpt_def ENDPOINT_P_def cmod_def ex_defs sys_procinfo_def put_kproc_def)
  have "ke_endpoint (snd (ex_entry 60)) = 60" by (simp add: ex_entry_def)
  then show ?thesis using 1 p by (simp add: do_fork_def k st2_def Let_def)
qed

lemma ex_fork:
  "\<exists>st r. pm_handle (with_mp 40 ex_pc) (ex_msg 40 MOLFORK 0) (ex_loop\<lparr>ml_who := 40, ml_mp := 40\<rparr>) = Some (ex_after r st, PmRet OK)"
proof -
  obtain st r where f: "do_fork (ex_pp 40) 40 0 ex_st = Some (st, PmRet r)" using ex_do_fork by blast
  have "perform ex_pc 40 (ex_msg 40 MOLFORK 0) ex_st = Some (st, PmRet r, 40)"
    using f by (simp add: perform_def ex_msg_def)
  moreover have "with_mp 40 ex_pc = ex_pc" by (simp add: ex_defs)
  ultimately show ?thesis
    by (simp add: pm_handle_def ex_msg_def ex_loop_def ex_after_def)
qed

theorem no_privilege_gained_witness:
  "\<exists>L1 L2 out out'. pm_round ex_pc (ex_msg 40 MOLSETUID 0) ex_loop = Some (L1, out, PmRet OK)
    \<and> pm_round ex_pc (ex_msg 40 MOLFORK 0) ex_loop = Some (L2, out', PmRet OK)
    \<and> unprivileged (mproc (ml_st L1) 40) \<and> unprivileged (mproc (ml_st L2) 40)"
proof -
  obtain st1 out where r1: "pm_round ex_pc (ex_msg 40 MOLSETUID 0) ex_loop = Some ((ex_after EMOLPERM ex_st)\<lparr>ml_st := st1\<rparr>, out, PmRet OK)"
    using round_ends [OF ex_work, of MOLSETUID 0 "ex_after EMOLPERM ex_st"] ex_setuid by (auto simp: ex_after_def)
  obtain st r where f: "pm_handle (with_mp 40 ex_pc) (ex_msg 40 MOLFORK 0) (ex_loop\<lparr>ml_who := 40, ml_mp := 40\<rparr>)
      = Some (ex_after r st, PmRet OK)"
    using ex_fork by blast
  obtain st2 out' where r2: "pm_round ex_pc (ex_msg 40 MOLFORK 0) ex_loop = Some ((ex_after r st)\<lparr>ml_st := st2\<rparr>, out', PmRet OK)"
    using round_ends [OF ex_work, of MOLFORK 0 "ex_after r st"] f by (auto simp: ex_after_def)
  have x: "unprivileged (mproc (ml_st ex_loop) 40)" by (simp add: unprivileged_def ex_defs)
  have "copied (with_mp 40 ex_pc) 40 (ex_msg 40 MOLSETUID 0) ex_st = None"
    "\<exists>p. copied (with_mp 40 ex_pc) 40 (ex_msg 40 MOLFORK 0) ex_st = Some (60, p)"
    by (simp_all add: copied_def ex_defs fork_endpt_def sys_procinfo_def put_kproc_def ENDPOINT_P_def cmod_def)
  moreover have "pm_kept 40 ex_loop L'"
    if "pm_round ex_pc (ex_msg 40 c 0) ex_loop = Some (L', out, q)" "\<And>p. copied (with_mp 40 ex_pc) 40 (ex_msg 40 c 0) ex_st \<noteq> Some (40, p)"
    for c L' out q
  proof (rule pm_kept.intros [OF that(1)])
    fix L1 p assume w: "get_work ex_pc (ex_msg 40 c 0) ex_loop = Some L1"
      and k: "copied (with_mp (ml_mp L1) ex_pc) (ml_who L1) (ex_msg 40 c 0) (ml_st ex_loop) = Some (40, p)"
    have "ml_mp L1 = 40" "ml_who L1 = 40" "ml_st ex_loop = ex_st" using w ex_work by (auto simp: ex_loop_def)
    then show "unprivileged (mproc (ml_st ex_loop) p)" using k that(2) by simp
  qed
  ultimately have "pm_kept 40 ex_loop ((ex_after EMOLPERM ex_st)\<lparr>ml_st := st1\<rparr>)" "pm_kept 40 ex_loop ((ex_after r st)\<lparr>ml_st := st2\<rparr>)"
    using r1 r2 by fastforce+
  then show ?thesis using no_privilege_gained [OF r_into_rtranclp x] r1 r2 by blast
qed

theorem slots_notification_stops_pm_witness:
  "\<exists>L'. pm_round ex_pc (ex_msg (- 34) (- 34) 0) ex_loop = Some (L', [], PmStop EMOLBADPROC)"
  by (rule slots_notification_stops_pm) (simp_all add: ex_defs)

theorem pm_table_well_typed_witness:
  "\<exists>L'. (pm_served 221)\<^sup>*\<^sup>* (ex_loop\<lparr>ml_st := pm_init_table ex_pc pm_start\<rparr>) L' \<and> ml_result L' = SUSPEND \<and> table_ok 221 (ml_st L')"
proof -
  let ?L = "ex_loop\<lparr>ml_st := pm_init_table ex_pc pm_start\<rparr>" and ?m = "ex_msg CLOCK_NR (- 2) 0"
  have w: "get_work ex_pc ?m ?L = Some ?L" by (simp add: get_work_def ex_msg_def)
  have h: "pm_handle (with_mp (ml_mp ?L) ex_pc) ?m ?L = Some (?L\<lparr>ml_result := SUSPEND\<rparr>, PmRet OK)"
    by (simp add: pm_handle_def ex_msg_def ex_loop_def with_mp_def) (simp add: ex_pc_def)
  obtain st' out where r: "pm_round ex_pc ?m ?L = Some (?L\<lparr>ml_result := SUSPEND, ml_st := st'\<rparr>, out, PmRet OK)"
    using round_ends [OF w h] by auto
  have "pm_served 221 ?L (?L\<lparr>ml_result := SUSPEND, ml_st := st'\<rparr>)"
    by (rule pm_served.intros [OF _ _ _ r]) (simp_all add: ex_msg_def)
  then have "(pm_served (pe_nr_procs (pm_of ex_pc)))\<^sup>*\<^sup>* ?L (?L\<lparr>ml_result := SUSPEND, ml_st := st'\<rparr>)" by simp
  from pm_table_well_typed [OF this, of pm_start] this show ?thesis by (auto simp: pm_start_def)
qed

lemma disinherit_returns: "\<not> has_flag st INIT_PROC_NR BIT_WAITING \<Longrightarrow> \<exists>st'. disinherit E n cs st = (st', PmRet OK)"
proof (induction cs arbitrary: st)
  case (Cons c cs)
  then show ?case using Cons.IH [of "upd_mproc c (\<lambda>x. x\<lparr>mp_parent := INIT_PROC_NR\<rparr>) st"] by (auto simp: Let_def)
qed simp

theorem exit_leaves_no_children_witness:
  "\<exists>st'. pm_exit (ex_pp 40) 40 0 MOLEXIT ex_st = Some (st', PmRet OK) \<and> \<not> (mp_parent (mproc st' 50) = 40 \<and> has_flag st' 50 BIT_IN_USE)"
proof -
  obtain st2 where 2: "leave_kernel (ex_pp 40) 40 ex_st = (st2, PmRet OK)" "\<not> has_flag st2 14 BIT_WAITING" "mp_endpoint (mproc st2 0) = 0"
    "\<not> has_flag st2 0 BIT_WAITING" "mp_parent (mproc st2 40) = 0" "\<not> has_flag st2 40 BIT_RMT_PROC"
    by (auto simp: leave_kernel_def sys_procinfo_def pm_upd_defs put_kproc_def Let_def bit_unset_bit_iff ex_defs bit_1_iff)
  let ?s = "upd_mproc 40 (\<lambda>x. x\<lparr>mp_exitstatus := schar 0\<rparr>) st2"
  have b: "bury (ex_pp 40) 40 0 MOLEXIT st2 = (?s, PmRet OK)" using 2 by (simp add: bury_def Let_def)
  obtain st4 where 4: "disinherit (ex_pp 40) 40 [0 .. nr_procs (ex_pp 40) - 1] ?s = (st4, PmRet OK)"
    using disinherit_returns [of ?s "ex_pp 40" 40] 2(2) by auto
  have a: "\<not> has_flag ex_st 40 BIT_ALARM_ON" by (simp add: ex_defs bit_1_iff)
  have "\<exists>st'. pm_exit (ex_pp 40) 40 0 MOLEXIT ex_st = Some (st', PmRet OK)"
    unfolding pm_exit_def Let_def if_not_P [OF a] using 2(1) b 4 by simp
  then show ?thesis using exit_leaves_no_children [of "ex_pp 40" 40 0 MOLEXIT ex_st _ OK 50] by auto
qed

theorem stime_then_time_witness:
  "\<exists>st1 st2. do_stime ex_pc ((\<lambda>_. 0)(5 := 1000000)) ex_st = (st1, PmRet OK) \<and> do_time ex_pc st1 = (st2, PmRet OK)
    \<and> mp_reply (mproc st2 40) 5 = 1000000"
  using stime_then_time [of ex_pc 50000 ex_pc 50000 "(\<lambda>_. 0)(5 := 1000000)" ex_st] by (simp add: ex_defs)

theorem freeproc_overwrites_pm_witness:
  "\<exists>st'. do_freeproc ex_pc 40 ex_st = (st', PmRet 0) \<and> mp_pid (mproc st' PM_PROC_NR) = 40 \<and> mp_pid (mproc st' 40) = 40"
proof -
  have "procs_in_use ex_st = 1" "mp_pid (mproc ex_st 40) = 40" by (simp_all add: ex_st_def pm_start_def)
  then show ?thesis using freeproc_overwrites_pm [of ex_pc 40 ex_st 40] by auto
qed

theorem get_free_pid_returns_witness:
  "\<exists>p. get_free_pid pm_os pm_start = Some (pm_start\<lparr>next_pid := p\<rparr>, p) \<and> 2 \<le> p \<and> p \<le> NR_PIDS"
  using get_free_pid_returns [of pm_os pm_start] by (auto simp: pm_os_def pm_start_def)

lemma ex_child: "plain_child (ex_pp 50) 40 50 ex_st" "lets_go (ex_pp 50) 50"
  by (auto simp: plain_child_def lets_go_def ex_defs bit_1_iff)

theorem wait_and_exit_commute_witness:
  "\<exists>s1 s2 t1 t2. do_waitpid (ex_pp 40) 40 False 50 0 ex_st = (s1, PmRet SUSPEND)
    \<and> do_pm_exit (ex_pp 50) 50 3 (- 1) s1 = Some (s2, PmRet SUSPEND)
    \<and> do_pm_exit (ex_pp 50) 50 3 (- 1) ex_st = Some (t1, PmRet SUSPEND) \<and> do_waitpid (ex_pp 40) 40 False 50 0 t1 = (t2, PmRet SUSPEND)
    \<and> mproc s2 = (mproc t2)(40 := (mproc t2 40)\<lparr>mp_wpid := 50\<rparr>) \<and> mp_reply (mproc t2 40) reply_res2 = 768"
proof -
  have "\<not> has_flag ex_st 40 BIT_WAITING" "50 = mp_pid (mproc ex_st 50)" "schar 3 * 256 + mp_sigstatus (mproc ex_st 50) mod 256 = 768"
    by (simp_all add: ex_st_def pm_start_def bit_1_iff schar_def)
  with wait_and_exit_commute [OF ex_child _ this(1), of "ex_pp 40" 50 3] show ?thesis by auto
qed

end
