(* ===== verification/Slots.thy ===== *)
theory Slots
  imports Kernel_State
begin

text \<open>
  The slot allocation of SYSTASK (\<open>src/tasks/systask/slots.c\<close>).  The process slots of a DC are shared
  out among its nodes: a node creates processes only in slots it owns, and when it runs low it
  asks the others for some.  Requests and donations are multicast to all members with the Spread
  toolkit, in the same order everywhere.  This theory models the handlers of requests and
  donations of one node; the theory \<open>Slots_Safety\<close> puts the nodes together.

  The state is that of the slots thread (\<open>glo.h\<close>) with the flags of the process table it shares with
  the kernel module.  A failed \<open>assert\<close> aborts the task; the use of a pointer that was never set is
  undefined.  Messages multicast are appended to an outbox; what \<open>SP_multicast\<close> returns is a
  parameter, as are the dimensions of the DC.
\<close>

section \<open>The state\<close>

record slot_t =
  s_nr :: int
  s_endpoint :: int
  s_flags :: flags
  s_owner :: int

datatype mcast =
    REQ_SLOTS int int int int      \<comment> \<open>m_source, m_need_slots, m_free_slots, m_owned_slots\<close>
  | DON_SLOTS int int int "int list"  \<comment> \<open>m_source, mA_dst, mA_nr, mA_ia\<close>

record sl_env =
  sl_nr_nodes :: int
  sl_nr_tasks :: int
  sl_nr_procs :: int
  sl_nr_sysprocs :: int
  sl_mcast :: int

record sl_st =
  sl_nodeid :: int
  slot :: "int \<Rightarrow> slot_t"
  pt_flags :: "int \<Rightarrow> flags"
  FSM_state :: flags
  init_nodes :: int
  free_slots :: int
  owned_slots :: int
  free_slots_low :: int
  min_owned_slots :: int
  bm_init :: flags
  bm_donors :: flags
  bm_pending :: flags
  bm_waitsts :: flags
  sys_barrier :: nat
  max_owned_slots :: int
  last_rqst :: int
  next_child :: int
  outbox :: "mcast list"

datatype sl_res = Ret int | Abort | Undef

abbreviation (input) "NO_NEXT_MBR \<equiv> - 1 :: int"
abbreviation (input) "SLOTS_BY_MSG \<equiv> 4 :: nat"
abbreviation (input) "SLOTS_PAUSE \<equiv> 1 :: int"
abbreviation (input) "EMOLNOSPC \<equiv> - 28 :: int"
abbreviation (input) "BIT_SLOT_DONATING \<equiv> 1 :: nat"
abbreviation (input) "BIT_INITIALIZED \<equiv> 12 :: nat"
abbreviation (input) "BIT_MERGING \<equiv> 14 :: nat"
abbreviation (input) "STS_RUNNING \<equiv> 12288 :: flags"      \<comment> \<open>MASK_RUNNING and MASK_INITIALIZED\<close>
abbreviation (input) "STS_REQ_SLOTS \<equiv> 4352 :: flags"     \<comment> \<open>MASK_REQUESTING and MASK_INITIALIZED\<close>

definition upd_slot :: "int \<Rightarrow> (slot_t \<Rightarrow> slot_t) \<Rightarrow> sl_st \<Rightarrow> sl_st" where
  "upd_slot i f st = st\<lparr>slot := (slot st)(i := f (slot st i))\<rparr>"

definition CEILING :: "int \<Rightarrow> int \<Rightarrow> int" where
  "CEILING x y = cdiv x y + (if cmod x y \<noteq> 0 then 1 else 0)"

section \<open>The members\<close>

definition get_init_nodes :: "sl_env \<Rightarrow> sl_st \<Rightarrow> int" where
  "get_init_nodes E st = int (length (filter (\<lambda>i. bit (bm_init st) (nat i)) [0 .. sl_nr_nodes E - 1]))"

definition get_primary_mbr :: "sl_env \<Rightarrow> sl_st \<Rightarrow> int" where
  "get_primary_mbr E st =
    (case find (\<lambda>i. bit (bm_init st) (nat i)) [0 .. sl_nr_nodes E - 1] of None \<Rightarrow> NO_NEXT_MBR | Some i \<Rightarrow> i)"

fun next_mbr_loop :: "int \<Rightarrow> flags \<Rightarrow> nat \<Rightarrow> int \<Rightarrow> int" where
  "next_mbr_loop nn bm 0 nx = NO_NEXT_MBR"
| "next_mbr_loop nn bm (Suc k) nx =
    (let nx1 = (nx + 1) mod nn in if bit bm (nat nx1) then nx1 else next_mbr_loop nn bm k nx1)"

text \<open>\<open>None\<close> is a failed assertion.\<close>

definition get_next_mbr :: "sl_env \<Rightarrow> int \<Rightarrow> flags \<Rightarrow> int option" where
  "get_next_mbr E nd bm =
    (let nd1 = (if nd = NO_NEXT_MBR then 0 else nd) in
     if bm = 0 then Some NO_NEXT_MBR
     else if \<not> (nd1 \<ge> 0 \<and> nd1 < sl_nr_nodes E) then None
     else Some (next_mbr_loop (sl_nr_nodes E) bm (nat (sl_nr_nodes E)) nd1))"

section \<open>Requests\<close>

definition SP_multicast :: "sl_env \<Rightarrow> mcast \<Rightarrow> sl_st \<Rightarrow> sl_st \<times> int" where
  "SP_multicast E msg st = (if sl_mcast E < 0 then st else st\<lparr>outbox := outbox st @ [msg]\<rparr>, sl_mcast E)"

definition mcast_rqst_slots :: "sl_env \<Rightarrow> int \<Rightarrow> sl_st \<Rightarrow> sl_st \<times> int" where
  "mcast_rqst_slots E nr_slots st =
    (if bm_waitsts st \<noteq> 0 then (st, OK)
     else if bit (FSM_state st) BIT_MERGING then (st, OK)
     else
      let st1 = st\<lparr>bm_donors := unset_bit (nat (sl_nodeid st)) (bm_init st)\<rparr> in
      if bm_donors st1 = 0 then (st1, OK)
      else SP_multicast E (REQ_SLOTS (sl_nodeid st1) nr_slots (free_slots st1) (owned_slots st1)) st1)"

definition new_rqst_slots :: "sl_env \<Rightarrow> int \<Rightarrow> sl_st \<Rightarrow> sl_st \<times> int" where
  "new_rqst_slots E nr_slots st =
    (if bm_donors st = 0 \<and> owned_slots st = 0
     then mcast_rqst_slots E nr_slots (st\<lparr>FSM_state := STS_REQ_SLOTS\<rparr>) else (st, OK))"

section \<open>Donations\<close>

text \<open>The slots a node can give away, in the order of the search.\<close>

definition donatable :: "sl_st \<Rightarrow> int \<Rightarrow> bool" where
  "donatable st i \<longleftrightarrow> pt_flags st i = SLOT_FREE \<and> s_owner (slot st i) = sl_nodeid st"

definition donate :: "int \<Rightarrow> int \<Rightarrow> sl_st \<Rightarrow> sl_st" where
  "donate requester i st =
    (let st1 = upd_slot i (\<lambda>x. x\<lparr>s_owner := requester, s_flags := set_bit BIT_SLOT_DONATING (s_flags x)\<rparr>) st
     in st1\<lparr>free_slots := free_slots st1 - 1, owned_slots := owned_slots st1 - 1,
          pt_flags := (pt_flags st1)(i := set_bit BIT_NO_MAP (pt_flags st1 i))\<rparr>)"

fun donate_loop :: "int \<Rightarrow> int list \<Rightarrow> nat \<Rightarrow> sl_st \<Rightarrow> sl_st \<times> int list" where
  "donate_loop requester [] donated st = (st, [])"
| "donate_loop requester (i # is) donated st =
    (if donated = 0 then (st, [])
     else if donatable st i then
       let (st1, ia) = donate_loop requester is (donated - 1) (donate requester i st) in (st1, i # ia)
     else donate_loop requester is donated st)"

text \<open>How many slots to offer: \<open>None\<close> is the assertion \<open>don_nodes > 0\<close>.\<close>

definition offered :: "int \<Rightarrow> sl_st \<Rightarrow> int option" where
  "offered needed_slots st =
    (let don_nodes = init_nodes st - 1; surplus = free_slots st - free_slots_low st in
     if \<not> don_nodes > 0 then None
     else if surplus \<le> 0 then Some 0
     else if surplus > CEILING needed_slots don_nodes then Some (CEILING needed_slots don_nodes)
     else Some surplus)"

definition send_donation :: "sl_env \<Rightarrow> int \<Rightarrow> int \<Rightarrow> sl_st \<Rightarrow> sl_st \<times> sl_res" where
  "send_donation E requester donated st =
    (let nr = min donated (int SLOTS_BY_MSG);
         (st1, found) = donate_loop requester [sl_nr_sysprocs E .. sl_nr_tasks E + sl_nr_procs E - 1] (nat nr) st;
         (st2, rcode) = SP_multicast E (DON_SLOTS (sl_nodeid st) requester nr
            (found @ replicate (SLOTS_BY_MSG - length found) 0)) st1
     in (st2, Ret rcode))"

definition reply_rqst :: "sl_env \<Rightarrow> int \<Rightarrow> int \<Rightarrow> sl_st \<Rightarrow> sl_st \<times> sl_res" where
  "reply_rqst E requester donated st =
    (if donated = 0 \<and> \<not> bit (bm_pending st) (nat requester) then
       (case get_next_mbr E requester (bm_init st) of None \<Rightarrow> (st, Abort)
        | Some nxt \<Rightarrow>
          if nxt \<noteq> sl_nodeid st
          then (st\<lparr>bm_pending := set_bit (nat requester) (bm_pending st)\<rparr>, Ret OK)
          else send_donation E requester donated st)
     else send_donation E requester donated st)"

definition sp_req_slots :: "sl_env \<Rightarrow> int \<Rightarrow> int \<Rightarrow> sl_st \<Rightarrow> sl_st \<times> sl_res" where
  "sp_req_slots E requester needed_slots st =
    (if \<not> bit (FSM_state st) BIT_INITIALIZED then (st, Ret OK)
     else if requester = sl_nodeid st then (st, Ret OK)
     else if \<not> bit (bm_init st) (nat requester) then (st, Abort)
     else if bm_donors st \<noteq> 0 then
       (if bit (bm_donors st) (nat requester) then
          (case get_next_mbr E requester (bm_init st) of None \<Rightarrow> (st, Abort)
           | Some nxt \<Rightarrow>
             if nxt \<noteq> sl_nodeid st
             then (st\<lparr>bm_donors := unset_bit (nat requester) (bm_donors st)\<rparr>, Ret OK)
             else reply_rqst E requester 0 st)
        else reply_rqst E requester 0 st)
     else
       (case offered needed_slots st of None \<Rightarrow> (st, Abort)
        | Some donated \<Rightarrow> reply_rqst E requester donated st))"

text \<open>The loop that records the new owner; the donor returns from inside it, after its first slot.\<close>

fun don_loop :: "int \<Rightarrow> int \<Rightarrow> int list \<Rightarrow> sl_st \<Rightarrow> sl_st \<times> bool" where
  "don_loop src dst [] st = (st, False)"
| "don_loop src dst (i # is) st =
    (let st1 = upd_slot i (\<lambda>x. x\<lparr>s_owner := dst\<rparr>) st in
     if src = sl_nodeid st
     then (upd_slot i (\<lambda>x. x\<lparr>s_flags := unset_bit BIT_SLOT_DONATING (s_flags x)\<rparr>)
             (st1\<lparr>pt_flags := (pt_flags st1)(i := unset_bit BIT_NO_MAP (pt_flags st1 i))\<rparr>), True)
     else don_loop src dst is st1)"

text \<open>A donation for the local node.\<close>

definition take_donation :: "sl_env \<Rightarrow> int \<Rightarrow> int \<Rightarrow> sl_st \<Rightarrow> sl_st \<times> sl_res" where
  "take_donation E src nr st =
    (let st1 = (if owned_slots st = 0 \<and> nr > 0
                then st\<lparr>FSM_state := STS_RUNNING, sys_barrier := sys_barrier st + 1\<rparr> else st);
         st2 = st1\<lparr>free_slots := free_slots st1 + nr, owned_slots := owned_slots st1 + nr,
                  bm_donors := unset_bit (nat src) (bm_donors st1)\<rparr>;
         (st3, rcode) = new_rqst_slots E (min_owned_slots st2) st2
     in (st3, Ret (if rcode \<noteq> OK then rcode else OK)))"

definition sp_don_slots :: "sl_env \<Rightarrow> int \<Rightarrow> int \<Rightarrow> int \<Rightarrow> int list \<Rightarrow> sl_st \<Rightarrow> sl_st \<times> sl_res" where
  "sp_don_slots E src dst nr ia st =
    (if \<not> bit (bm_init st) (nat dst) then (st, Abort)
     else if \<not> bit (bm_init st) (nat src) then (st, Abort)
     else
      let (st1, donor) = don_loop src dst (take (nat nr) ia) st in
      if donor then (st1, Ret OK)
      else if \<not> bit (FSM_state st1) BIT_INITIALIZED then (st1, if dst = sl_nodeid st1 then Abort else Ret OK)
      else if src = sl_nodeid st1 then (st1, Ret OK)
      else if dst \<noteq> sl_nodeid st1 then (st1, if bit (bm_pending st1) (nat dst) then Undef else Ret OK)
      else take_donation E src nr st1)"

text \<open>\<open>slots_loop\<close> on a regular message.\<close>

fun handle :: "sl_env \<Rightarrow> mcast \<Rightarrow> sl_st \<Rightarrow> sl_st \<times> sl_res" where
  "handle E (REQ_SLOTS src need free owned) st = sp_req_slots E src need st"
| "handle E (DON_SLOTS src dst nr ia) st = sp_don_slots E src dst nr ia st"

section \<open>A slot for a new process\<close>

text \<open>The request \<open>get_free_proc\<close> of \<open>do_fork.c\<close> makes when the node runs low; \<open>now\<close> is \<open>time(NULL)\<close>, and
  \<open>None\<close> a division by zero.\<close>

definition low_rqst :: "sl_env \<Rightarrow> int \<Rightarrow> sl_st \<Rightarrow> sl_st option" where
  "low_rqst E now st =
    (if free_slots st < free_slots_low st \<and> owned_slots st < max_owned_slots st
        \<and> bm_donors st = 0 \<and> bm_waitsts st = 0 then
       if init_nodes st = 0 then None
       else
        let share = CEILING (max_owned_slots st) (init_nodes st);
            leftover = (if share > owned_slots st then share - owned_slots st
                        else free_slots_low st - free_slots st) in
        if now - last_rqst st > SLOTS_PAUSE
        then Some ((fst (mcast_rqst_slots E leftover st))\<lparr>last_rqst := now\<rparr>) else Some st
     else Some st)"

definition get_free_proc :: "sl_env \<Rightarrow> int \<Rightarrow> sl_st \<Rightarrow> sl_st \<times> sl_res" where
  "get_free_proc E now st =
    (case low_rqst E now st of None \<Rightarrow> (st, Undef)
     | Some st1 \<Rightarrow>
       if free_slots st1 = 0 then (st1, Ret EMOLNOSPC)
       else
        case find (donatable st1) (sl_nr_sysprocs E # [sl_nr_sysprocs E + 1 .. sl_nr_tasks E + sl_nr_procs E - 1]) of
          Some i \<Rightarrow> (st1\<lparr>next_child := i\<rparr>, Ret (i - sl_nr_tasks E))
        | None \<Rightarrow> (st1\<lparr>next_child := max (sl_nr_sysprocs E + 1) (sl_nr_tasks E + sl_nr_procs E)\<rparr>, Abort))"


section \<open>Lemmas on the handlers\<close>

lemma upd_slot_sel [simp]:
  "slot (upd_slot i f st) = (slot st)(i := f (slot st i))"
  "sl_nodeid (upd_slot i f st) = sl_nodeid st" "outbox (upd_slot i f st) = outbox st"
  "pt_flags (upd_slot i f st) = pt_flags st" "free_slots (upd_slot i f st) = free_slots st"
  "owned_slots (upd_slot i f st) = owned_slots st" "FSM_state (upd_slot i f st) = FSM_state st"
  "bm_init (upd_slot i f st) = bm_init st" "bm_pending (upd_slot i f st) = bm_pending st"
  "bm_donors (upd_slot i f st) = bm_donors st"
  by (simp_all add: upd_slot_def)

lemma donate_sel [simp]:
  "s_owner (slot (donate r i st) j) = (if j = i then r else s_owner (slot st j))"
  "sl_nodeid (donate r i st) = sl_nodeid st" "outbox (donate r i st) = outbox st"
  "free_slots (donate r i st) = free_slots st - 1" "owned_slots (donate r i st) = owned_slots st - 1"
  by (simp_all add: donate_def Let_def)

lemma donate_loop_frame:
  assumes "donate_loop r is d st = (st', ia)"
  shows "sl_nodeid st' = sl_nodeid st" "outbox st' = outbox st" "length ia \<le> d" "set ia \<subseteq> set is"
    "free_slots st' = free_slots st - int (length ia)" "owned_slots st' = owned_slots st - int (length ia)"
proof -
  have "sl_nodeid st' = sl_nodeid st \<and> outbox st' = outbox st \<and> length ia \<le> d \<and> set ia \<subseteq> set is
      \<and> free_slots st' = free_slots st - int (length ia) \<and> owned_slots st' = owned_slots st - int (length ia)"
    using assms
  proof (induction r "is" d st arbitrary: st' ia rule: donate_loop.induct)
    case (2 r i "is" d st)
    obtain st1 ja where l: "donate_loop r is (d - 1) (donate r i st) = (st1, ja)" by (rule prod.exhaust)
    consider "d = 0" | "d \<noteq> 0" "donatable st i" | "d \<noteq> 0" "\<not> donatable st i" by blast
    then show ?case
    proof cases
      case 2
      then have e: "st' = st1" "ia = i # ja" using "2.prems" l by auto
      have "0 < d" using 2(1) by simp
      then show ?thesis using "2.IH"(1) [OF 2 l] unfolding e by auto
    next
      case 3
      then show ?thesis using "2.IH"(2) [OF 3, of st' ia] "2.prems" by auto
    qed (use "2.prems" in auto)
  qed simp
  then show "sl_nodeid st' = sl_nodeid st" "outbox st' = outbox st" "length ia \<le> d" "set ia \<subseteq> set is"
    "free_slots st' = free_slots st - int (length ia)" "owned_slots st' = owned_slots st - int (length ia)"
    by blast+
qed

lemma donate_loop_owners:
  assumes "donate_loop r is d st = (st', ia)" and "r \<noteq> sl_nodeid st"
  shows "\<forall>i. s_owner (slot st' i) = (if i \<in> set ia then r else s_owner (slot st i))"
    and "\<forall>i\<in>set ia. s_owner (slot st i) = sl_nodeid st"
proof -
  have "(\<forall>i. s_owner (slot st' i) = (if i \<in> set ia then r else s_owner (slot st i)))
      \<and> (\<forall>i\<in>set ia. s_owner (slot st i) = sl_nodeid st)"
    using assms
  proof (induction r "is" d st arbitrary: st' ia rule: donate_loop.induct)
    case (2 r i "is" d st)
    show ?case
    proof (cases "d \<noteq> 0 \<and> donatable st i")
      case True
      obtain st1 ja where l: "donate_loop r is (d - 1) (donate r i st) = (st1, ja)" by (rule prod.exhaust)
      have o: "\<forall>j. s_owner (slot st1 j) = (if j \<in> set ja then r else s_owner (slot (donate r i st) j))"
        "\<forall>j\<in>set ja. s_owner (slot (donate r i st) j) = sl_nodeid (donate r i st)"
        using 2(1) [OF _ _ l] True 2(4) by auto
      have e: "st' = st1" "ia = i # ja" using 2(3) True l by auto
      show ?thesis using o True 2(4) unfolding e by (auto simp: donatable_def split: if_splits)
    qed (use 2 in \<open>auto split: if_splits\<close>)
  qed simp
  then show "\<forall>i. s_owner (slot st' i) = (if i \<in> set ia then r else s_owner (slot st i))"
    and "\<forall>i\<in>set ia. s_owner (slot st i) = sl_nodeid st" by blast+
qed

fun mc_src :: "mcast \<Rightarrow> int" where
  "mc_src (REQ_SLOTS src need free owned) = src"
| "mc_src (DON_SLOTS src dst nr ia) = src"

fun mc_dst :: "mcast \<Rightarrow> int" where
  "mc_dst (REQ_SLOTS src need free owned) = src"
| "mc_dst (DON_SLOTS src dst nr ia) = dst"

fun gives :: "mcast \<Rightarrow> int set" where
  "gives (REQ_SLOTS src need free owned) = {}"
| "gives (DON_SLOTS src dst nr ia) = set (take (nat nr) ia)"

text \<open>What a handler that gives the slots \<open>G\<close> to \<open>d\<close> does to a node: the slots are its own and not system slots,
  and if it multicasts at all, it is one message of its own that announces exactly them.\<close>

definition gives_away :: "int \<Rightarrow> int \<Rightarrow> int set \<Rightarrow> sl_st \<Rightarrow> sl_st \<Rightarrow> bool" where
  "gives_away S d G st st' \<longleftrightarrow>
     sl_nodeid st' = sl_nodeid st
   \<and> (\<forall>i. s_owner (slot st' i) = (if i \<in> G then d else s_owner (slot st i)))
   \<and> (\<forall>i\<in>G. s_owner (slot st i) = sl_nodeid st \<and> i \<ge> S \<and> d \<noteq> sl_nodeid st)
   \<and> (outbox st' = outbox st \<or>
      (\<exists>msg. outbox st' = outbox st @ [msg] \<and> mc_src msg = sl_nodeid st \<and>
         (\<forall>i\<ge>S. i \<in> gives msg \<longrightarrow> i \<in> G \<and> mc_dst msg = d)))"

lemma gives_nothing:
  assumes "sl_nodeid st' = sl_nodeid st" "slot st' = slot st"
    "outbox st' = outbox st \<or> (\<exists>msg. outbox st' = outbox st @ [msg] \<and> mc_src msg = sl_nodeid st \<and> gives msg = {})"
  shows "gives_away S d {} st st'"
  using assms by (auto simp: gives_away_def)

lemma gives_away_after:
  assumes "gives_away S d G st st1" "sl_nodeid st2 = sl_nodeid st1" "slot st2 = slot st1" "outbox st2 = outbox st1"
  shows "gives_away S d G st st2"
  using assms by (simp add: gives_away_def)

lemma gives_away_before:
  assumes "gives_away S d G st st1" "sl_nodeid st0 = sl_nodeid st" "slot st0 = slot st" "outbox st0 = outbox st"
  shows "gives_away S d G st0 st1"
  using assms by (simp add: gives_away_def)

lemma send_donation_gives:
  assumes "send_donation E r d st = (st', x)" "r \<noteq> sl_nodeid st" "sl_nr_sysprocs E = S" "0 < S"
  shows "\<exists>G. gives_away S r G st st'"
proof -
  let ?n = "nat (min d (int SLOTS_BY_MSG))"
  obtain st1 ia where l: "donate_loop r [S .. sl_nr_tasks E + sl_nr_procs E - 1] ?n st = (st1, ia)"
    by (rule prod.exhaust)
  note f = donate_loop_frame [OF l] and o = donate_loop_owners [OF l assms(2)]
  let ?m = "DON_SLOTS (sl_nodeid st) r (min d (int SLOTS_BY_MSG)) (ia @ replicate (SLOTS_BY_MSG - length ia) 0)"
  have "st' = fst (SP_multicast E ?m st1)"
    using assms(1,3) l by (auto simp: send_donation_def Let_def split: prod.splits)
  then have "gives_away S r (set ia) st st'"
    using f o assms(2,4) by (auto simp: gives_away_def SP_multicast_def dest!: in_set_takeD)
  then show ?thesis by blast
qed

lemma reply_rqst_gives:
  assumes "reply_rqst E r d st = (st', x)" "r \<noteq> sl_nodeid st" "sl_nr_sysprocs E = S" "0 < S"
  shows "\<exists>G. gives_away S r G st st'"
  using assms send_donation_gives [OF _ assms(2-4)]
  by (auto simp: reply_rqst_def intro!: exI [of _ "{}"] gives_nothing split: if_splits option.splits)

lemma sp_req_slots_gives:
  assumes "sp_req_slots E r k st = (st', x)" "sl_nr_sysprocs E = S" "0 < S"
  shows "\<exists>G. gives_away S r G st st'"
proof (cases "r = sl_nodeid st")
  case True
  then have "st' = st" using assms(1) by (auto simp: sp_req_slots_def split: if_splits)
  then show ?thesis by (auto intro!: exI [of _ "{}"] gives_nothing)
next
  case False
  have rep: "\<exists>G. gives_away S r G st st'" if "reply_rqst E r d st = (st', x)" for d
    by (rule reply_rqst_gives [OF that False assms(2,3)])
  show ?thesis using assms(1) False rep
    by (auto simp: sp_req_slots_def intro!: exI [of _ "{}"] gives_nothing split: if_splits option.splits)
qed

lemma mcast_rqst_slots_gives:
  "gives_away S d {} st (fst (mcast_rqst_slots E k st))"
  by (rule gives_nothing) (auto simp: mcast_rqst_slots_def SP_multicast_def Let_def)

lemma get_free_proc_gives:
  assumes "get_free_proc E now st = (st', x)"
  shows "gives_away S d {} st st'"
proof -
  have low: "gives_away S d {} st st1" if "low_rqst E now st = Some st1" for st1
    using that by (auto simp: low_rqst_def Let_def gives_nothing split: if_splits
      intro: gives_away_after [OF mcast_rqst_slots_gives])
  show ?thesis using assms low
    by (auto simp: get_free_proc_def gives_nothing split: option.splits if_splits intro: gives_away_after)
qed

lemma don_loop_other:
  assumes "src \<noteq> sl_nodeid st" "don_loop src dst is st = (st', b)"
  shows "\<not> b \<and> sl_nodeid st' = sl_nodeid st \<and> outbox st' = outbox st
    \<and> (\<forall>i. s_owner (slot st' i) = (if i \<in> set is then dst else s_owner (slot st i)))"
  using assms by (induction src dst "is" st rule: don_loop.induct) (auto simp: Let_def)

lemma don_loop_self:
  assumes "don_loop (sl_nodeid st) dst is st = (st', b)"
  shows "sl_nodeid st' = sl_nodeid st \<and> outbox st' = outbox st \<and> (b \<or> st' = st)
    \<and> (\<forall>i. s_owner (slot st' i) = dst \<or> s_owner (slot st' i) = s_owner (slot st i))
    \<and> (\<forall>i. i \<notin> set is \<longrightarrow> s_owner (slot st' i) = s_owner (slot st i))"
  using assms by (cases "is") (auto simp: Let_def)

lemma take_donation_gives: "gives_away S d {} st (fst (take_donation E src nr st))"
proof -
  let ?st1 = "if owned_slots st = 0 \<and> nr > 0
    then st\<lparr>FSM_state := STS_RUNNING, sys_barrier := sys_barrier st + 1\<rparr> else st"
  let ?st2 = "?st1\<lparr>free_slots := free_slots ?st1 + nr, owned_slots := owned_slots ?st1 + nr,
    bm_donors := unset_bit (nat src) (bm_donors ?st1)\<rparr>"
  have "gives_away S d {} ?st2 (fst (new_rqst_slots E (min_owned_slots ?st2) ?st2))"
    by (auto simp: new_rqst_slots_def gives_nothing intro: gives_away_before [OF mcast_rqst_slots_gives])
  moreover have "fst (take_donation E src nr st) = fst (new_rqst_slots E (min_owned_slots ?st2) ?st2)"
    by (simp add: take_donation_def Let_def split: prod.split)
  ultimately show ?thesis by (auto intro: gives_away_before)
qed

lemma don_loop_owners:
  assumes "don_loop src dst is st = (st', b)"
  shows "sl_nodeid st' = sl_nodeid st" "outbox st' = outbox st"
    "s_owner (slot st' i) = s_owner (slot st i) \<or> (i \<in> set is \<and> s_owner (slot st' i) = dst)"
    "src \<noteq> sl_nodeid st \<Longrightarrow> i \<in> set is \<Longrightarrow> s_owner (slot st' i) = dst"
proof -
  have "sl_nodeid st' = sl_nodeid st \<and> outbox st' = outbox st
    \<and> (s_owner (slot st' i) = s_owner (slot st i) \<or> (i \<in> set is \<and> s_owner (slot st' i) = dst))"
  proof (cases "src = sl_nodeid st")
    case True
    show ?thesis using don_loop_self [OF assms [unfolded True]] by auto
  next
    case False
    show ?thesis using don_loop_other [OF False assms] by simp
  qed
  then show "sl_nodeid st' = sl_nodeid st" "outbox st' = outbox st"
    "s_owner (slot st' i) = s_owner (slot st i) \<or> (i \<in> set is \<and> s_owner (slot st' i) = dst)" by blast+
  show "src \<noteq> sl_nodeid st \<Longrightarrow> i \<in> set is \<Longrightarrow> s_owner (slot st' i) = dst"
    using don_loop_other [OF _ assms] by simp
qed

lemma sp_don_slots_owners:
  assumes "sp_don_slots E src dst nr ia st = (st', Ret x)"
  shows "\<exists>st1. sl_nodeid st1 = sl_nodeid st \<and> outbox st1 = outbox st \<and> gives_away S 0 {} st1 st' \<and>
    (\<forall>i. s_owner (slot st1 i) = s_owner (slot st i)
       \<or> (i \<in> gives (DON_SLOTS src dst nr ia) \<and> s_owner (slot st1 i) = dst)) \<and>
    (\<forall>i. src \<noteq> sl_nodeid st \<longrightarrow> i \<in> gives (DON_SLOTS src dst nr ia) \<longrightarrow> s_owner (slot st1 i) = dst)"
proof -
  obtain st1 b where l: "don_loop src dst (take (nat nr) ia) st = (st1, b)" by (rule prod.exhaust)
  have "st' = st1 \<or> (\<exists>nr. st' = fst (take_donation E src nr st1))"
    using assms l by (auto simp: sp_don_slots_def split: if_splits) (metis fst_conv)+
  then have "gives_away S 0 {} st1 st'" using take_donation_gives gives_nothing by auto
  then show ?thesis using don_loop_owners [OF l] by (intro exI [of _ st1]) auto
qed

lemma find_SomeD: "find P xs = Some x \<Longrightarrow> x \<in> set xs \<and> P x"
  by (induction xs) (auto split: if_splits)

section \<open>Who replies, and with how much\<close>

text \<open>The loop of \<open>get_next_mbr\<close> finds the nearest member after a node, going round.\<close>

lemma next_mbr_loop_nearest:
  assumes "0 \<le> nx" "nx < nn" "1 \<le> d" "d \<le> k" "bit bm (nat ((nx + int d) mod nn))"
    "\<And>e. 1 \<le> e \<Longrightarrow> e < d \<Longrightarrow> \<not> bit bm (nat ((nx + int e) mod nn))"
  shows "next_mbr_loop nn bm k nx = (nx + int d) mod nn"
  using assms
proof (induction nn bm k nx arbitrary: d rule: next_mbr_loop.induct)
  case (2 nn bm k nx)
  let ?x = "(nx + 1) mod nn"
  have sh: "(?x + int e) mod nn = (nx + int (Suc e)) mod nn" for e
    using mod_add_left_eq [of "nx + 1" nn "int e"] by (simp add: algebra_simps)
  show ?case
  proof (cases "d = 1")
    case False
    then obtain d' where d: "d = Suc d'" "1 \<le> d'" using "2.prems"(3) by (cases d) auto
    have n1: "\<not> bit bm (nat ?x)" using "2.prems"(6) [of 1] d by simp
    have "next_mbr_loop nn bm k ?x = (?x + int d') mod nn"
    proof (rule "2.IH" [OF refl n1])
      show "\<not> bit bm (nat ((?x + int e) mod nn))" if "1 \<le> e" "e < d'" for e
        using "2.prems"(6) [of "Suc e"] that d(1) unfolding sh by simp
    qed (use "2.prems" d in \<open>auto simp: sh\<close>)
    then show ?thesis using n1 unfolding d(1) by (simp add: Let_def sh)
  qed (use "2.prems" in \<open>simp add: Let_def\<close>)
qed simp

lemma get_next_mbr_nearest:
  assumes "0 \<le> nd" "nd < sl_nr_nodes E" "1 \<le> d" "d \<le> nat (sl_nr_nodes E)"
    "bit bm (nat ((nd + int d) mod sl_nr_nodes E))"
    "\<And>e. 1 \<le> e \<Longrightarrow> e < d \<Longrightarrow> \<not> bit bm (nat ((nd + int e) mod sl_nr_nodes E))"
  shows "get_next_mbr E nd bm = Some ((nd + int d) mod sl_nr_nodes E)"
proof -
  have "bm \<noteq> 0" using assms(5) by auto
  then show ?thesis using assms(1,2) next_mbr_loop_nearest [OF assms]
    by (simp add: get_next_mbr_def)
qed

text \<open>A node asked for slots, when it is the nearest initialised member after the one that asks, always
  answers: it multicasts exactly one donation to the requester, of at most four slots, even if of none at all.  The
  node has to be initialised, and not the only one unless it waits for donations itself.\<close>

lemma next_member_always_replies:
  assumes "bit (FSM_state st) BIT_INITIALIZED" "r \<noteq> sl_nodeid st" "bit (bm_init st) (nat r)"
    and "0 \<le> r" "r < sl_nr_nodes E" "1 \<le> d" "d \<le> nat (sl_nr_nodes E)"
    and "sl_nodeid st = (r + int d) mod sl_nr_nodes E" "bit (bm_init st) (nat (sl_nodeid st))"
    and "\<forall>e. 1 \<le> e \<longrightarrow> e < d \<longrightarrow> \<not> bit (bm_init st) (nat ((r + int e) mod sl_nr_nodes E))"
    and "bm_donors st \<noteq> 0 \<or> 1 < init_nodes st" "0 \<le> sl_mcast E"
  shows "\<exists>st' nr ia. sp_req_slots E r k st = (st', Ret (sl_mcast E)) \<and> nr \<le> 4
    \<and> outbox st' = outbox st @ [DON_SLOTS (sl_nodeid st) r nr ia]"
proof -
  have nx: "get_next_mbr E r (bm_init st) = Some (sl_nodeid st)"
    using get_next_mbr_nearest [of r E d "bm_init st"] assms by auto
  have send: "\<exists>st' nr ia. send_donation E r n st = (st', Ret (sl_mcast E)) \<and> nr \<le> 4
      \<and> outbox st' = outbox st @ [DON_SLOTS (sl_nodeid st) r nr ia]" for n
  proof -
    obtain st1 ia where l: "donate_loop r [sl_nr_sysprocs E .. sl_nr_tasks E + sl_nr_procs E - 1]
        (nat (min n (int SLOTS_BY_MSG))) st = (st1, ia)" by (rule prod.exhaust)
    show ?thesis using l donate_loop_frame(2) [OF l] assms(12)
      by (auto simp: send_donation_def SP_multicast_def)
  qed
  have rep: "\<exists>st' nr ia. reply_rqst E r n st = (st', Ret (sl_mcast E)) \<and> nr \<le> 4
      \<and> outbox st' = outbox st @ [DON_SLOTS (sl_nodeid st) r nr ia]" for n
    using send [of n] nx by (auto simp: reply_rqst_def)
  have "bm_donors st = 0 \<Longrightarrow> \<exists>n. offered k st = Some n" using assms(11) by (simp add: offered_def Let_def)
  then show ?thesis using assms(1-3) nx rep by (auto simp: sp_req_slots_def)
qed

text \<open>Giving slots away never takes a node below its reserve: after a request it has as many free slots as
  before, or at least its low-water mark.\<close>

lemma donation_keeps_reserve:
  "free_slots (fst (sp_req_slots E r k st)) \<ge> min (free_slots st) (free_slots_low st)"
proof -
  have send: "free_slots (fst (send_donation E r n st)) \<ge> free_slots st - max 0 n" for n
  proof -
    obtain st1 ia where l: "donate_loop r [sl_nr_sysprocs E .. sl_nr_tasks E + sl_nr_procs E - 1]
        (nat (min n (int SLOTS_BY_MSG))) st = (st1, ia)" by (rule prod.exhaust)
    show ?thesis using l donate_loop_frame(3,5) [OF l]
      by (auto simp: send_donation_def SP_multicast_def Let_def)
  qed
  have rep: "free_slots (fst (reply_rqst E r n st)) \<ge> free_slots st - max 0 n" for n
    using send [of n] by (auto simp: reply_rqst_def split: option.splits)
  have off: "n \<le> max 0 (free_slots st - free_slots_low st)" if "offered k st = Some n" for n
    using that by (auto simp: offered_def Let_def split: if_splits)
  have "free_slots (fst (reply_rqst E r n st)) \<ge> min (free_slots st) (free_slots_low st)"
    if "n = 0 \<or> offered k st = Some n" for n
    using rep [of n] off [of n] that by (auto simp: max_def min_def split: if_splits)
  then show ?thesis by (auto simp: sp_req_slots_def split: option.split)
qed

text \<open>The slot \<open>get_free_proc\<close> returns for a new process is a user slot of the table that is free and that the
  node owns; no slot changes hands, and no process is created when no slot is free.\<close>

lemma get_free_proc_owned:
  assumes "get_free_proc E now st = (st', Ret c)" "sl_nr_sysprocs E < sl_nr_tasks E + sl_nr_procs E"
  shows "(c = EMOLNOSPC \<and> free_slots st = 0) \<or>
    (let i = c + sl_nr_tasks E in
       sl_nr_sysprocs E \<le> i \<and> i < sl_nr_tasks E + sl_nr_procs E \<and> free_slots st \<noteq> 0
       \<and> pt_flags st i = SLOT_FREE \<and> s_owner (slot st i) = sl_nodeid st
       \<and> next_child st' = i \<and> slot st' = slot st)"
proof -
  obtain st1 where l: "low_rqst E now st = Some st1" using assms(1)
    by (auto simp: get_free_proc_def split: option.splits)
  have f: "free_slots st1 = free_slots st" "pt_flags st1 = pt_flags st" "slot st1 = slot st" "sl_nodeid st1 = sl_nodeid st"
    using l by (auto simp: low_rqst_def mcast_rqst_slots_def SP_multicast_def Let_def split: if_splits)
  show ?thesis
  proof (cases "free_slots st = 0")
    case False
    let ?is = "sl_nr_sysprocs E # [sl_nr_sysprocs E + 1 .. sl_nr_tasks E + sl_nr_procs E - 1]"
    obtain i where i: "find (donatable st1) ?is = Some i" "st' = st1\<lparr>next_child := i\<rparr>" "c = i - sl_nr_tasks E"
      using assms(1) l False f(1) by (auto simp: get_free_proc_def simp del: find.simps split: option.splits)
    have "i \<in> set ?is" "donatable st1 i" using find_SomeD [OF i(1)] by blast+
    then show ?thesis using assms(2) i(2,3) f False by (auto simp: donatable_def Let_def)
  qed (use assms(1) l f(1) in \<open>auto simp: get_free_proc_def\<close>)
qed

text \<open>The donor's loop over a donation it gets back returns after the first slot: that one loses its donating and
  no-map bits, every other slot of the donation keeps them (a slot whose bits are kept is not free for the donor
  when it comes back to it).\<close>

lemma donor_clears_one_slot:
  assumes "bit (bm_init st) (nat dst)" "bit (bm_init st) (nat (sl_nodeid st))" "0 < nr" "j \<noteq> i"
  shows "\<exists>st'. sp_don_slots E (sl_nodeid st) dst nr (i # ia) st = (st', Ret OK)
    \<and> \<not> bit (s_flags (slot st' i)) BIT_SLOT_DONATING \<and> \<not> bit (pt_flags st' i) BIT_NO_MAP
    \<and> slot st' j = slot st j \<and> pt_flags st' j = pt_flags st j"
proof -
  obtain n where n: "nat nr = Suc n" using assms(3) by (metis Suc_pred zero_less_nat_eq)
  show ?thesis using assms(1,2,4) by (simp add: sp_don_slots_def n Let_def bit_unset_bit_iff)
qed

section \<open>A node of the examples\<close>

definition sl_scn_env :: sl_env where
  "sl_scn_env = \<lparr>sl_nr_nodes = 4, sl_nr_tasks = 34, sl_nr_procs = 36, sl_nr_sysprocs = 64, sl_mcast = 36\<rparr>"

definition sl_scn :: "int \<Rightarrow> sl_st" where
  "sl_scn n = \<lparr>sl_nodeid = n,
     slot = (\<lambda>i. \<lparr>s_nr = i, s_endpoint = 0, s_flags = 0, s_owner = (if i < 68 then 0 else 2)\<rparr>),
     pt_flags = (\<lambda>i. SLOT_FREE), FSM_state = STS_RUNNING, init_nodes = 3, free_slots = 96, owned_slots = 96,
     free_slots_low = 31, min_owned_slots = 63, bm_init = 7, bm_donors = 0, bm_pending = 0, bm_waitsts = 0,
     sys_barrier = 0, max_owned_slots = 129, last_rqst = 0, next_child = 64, outbox = []\<rparr>"

lemma next_member_always_replies_witness:
  "\<exists>st' nr ia. sp_req_slots sl_scn_env 1 3 (sl_scn 2) = (st', Ret 36) \<and> nr \<le> 4
    \<and> outbox st' = outbox (sl_scn 2) @ [DON_SLOTS 2 1 nr ia]"
  using next_member_always_replies [of "sl_scn 2" 1 sl_scn_env 1 3]
  by (simp add: sl_scn_def sl_scn_env_def)

lemma get_free_proc_owned_witness:
  "\<exists>c. snd (get_free_proc sl_scn_env 9 (sl_scn 0)) = Ret c \<and>
    pt_flags (sl_scn 0) (c + 34) = SLOT_FREE \<and> s_owner (slot (sl_scn 0) (c + 34)) = 0"
proof -
  have low: "low_rqst sl_scn_env 9 (sl_scn 0) = Some (sl_scn 0)" by (simp add: low_rqst_def sl_scn_def)
  have g: "get_free_proc sl_scn_env 9 (sl_scn 0) = ((sl_scn 0)\<lparr>next_child := 64\<rparr>, Ret 30)"
    unfolding get_free_proc_def low by (simp add: sl_scn_def sl_scn_env_def donatable_def)
  show ?thesis using get_free_proc_owned [OF g] g
    by (intro exI [of _ 30]) (simp add: sl_scn_env_def sl_scn_def Let_def)
qed

lemma donor_clears_one_slot_witness:
  "\<exists>st'. sp_don_slots sl_scn_env 0 1 2 [64, 65, 0, 0] ((sl_scn 0)\<lparr>pt_flags := (\<lambda>i. 3)\<rparr>) = (st', Ret OK)
    \<and> \<not> bit (pt_flags st' 64) BIT_NO_MAP \<and> bit (pt_flags st' 65) BIT_NO_MAP"
  using donor_clears_one_slot [of "(sl_scn 0)\<lparr>pt_flags := (\<lambda>i. 3)\<rparr>" 1 2 65 64 sl_scn_env "[65, 0, 0]"]
  by (auto simp: sl_scn_def)

end
