(* ===== verification/Slots_Safety.thy ===== *)
theory Slots_Safety
  imports Slots
begin

text \<open>
  The nodes of a DC that share its slots, put together.  Each node runs the handlers of \<open>Slots\<close>; what it
  multicasts waits in its outbox until the group communication system (Spread, with its SAFE service) gives the
  message its place in the order in which every node gets all messages.  A node is at some position of that order,
  the nodes at different ones.  The membership does not change during a run,
  and no process migrates (a migration moves its slot's owner without a donation).

  The claim is the safety of the protocol: no two nodes believe at the same time that they own the same user slot,
  although they see each donation at different times and a donor gives its slot up before anybody sees the message.
\<close>

section \<open>The system\<close>

record sl_sys =
  sy_node :: "int \<Rightarrow> sl_st"
  sy_log :: "mcast list"
  sy_pos :: "int \<Rightarrow> nat"

abbreviation (input) "owner_at sys n i \<equiv> s_owner (slot (sy_node sys n) i)"

definition upd_sy :: "int \<Rightarrow> sl_st \<Rightarrow> sl_sys \<Rightarrow> sl_sys" where
  "upd_sy n st sys = sys\<lparr>sy_node := (sy_node sys)(n := st)\<rparr>"

text \<open>The steps: a node handles its next message, and the handler returns; the next message of a node's outbox is
  ordered; a node asks for slots; SYSTASK takes a slot for a new process; and it changes anything but owners and
  messages (processes start and end, counters are adjusted).\<close>

inductive sy_step :: "int \<Rightarrow> sl_sys \<Rightarrow> sl_sys \<Rightarrow> bool" for S where
  deliver: "sl_nr_sysprocs E = S \<Longrightarrow> sy_pos sys n < length (sy_log sys)
    \<Longrightarrow> handle E (sy_log sys ! sy_pos sys n) (sy_node sys n) = (st', Ret x)
    \<Longrightarrow> sy_step S sys ((upd_sy n st' sys)\<lparr>sy_pos := (sy_pos sys)(n := Suc (sy_pos sys n))\<rparr>)"
| order: "outbox (sy_node sys n) = msg # rest
    \<Longrightarrow> sy_step S sys ((upd_sy n ((sy_node sys n)\<lparr>outbox := rest\<rparr>) sys)\<lparr>sy_log := sy_log sys @ [msg]\<rparr>)"
| ask: "mcast_rqst_slots E k (sy_node sys n) = (st', x) \<Longrightarrow> sy_step S sys (upd_sy n st' sys)"
| alloc: "get_free_proc E now (sy_node sys n) = (st', Ret x) \<Longrightarrow> sy_step S sys (upd_sy n st' sys)"
| work: "sl_nodeid st' = sl_nodeid (sy_node sys n) \<Longrightarrow> outbox st' = outbox (sy_node sys n)
    \<Longrightarrow> (\<And>i. s_owner (slot st' i) = owner_at sys n i) \<Longrightarrow> sy_step S sys (upd_sy n st' sys)"

text \<open>A run starts when the tables agree and nothing is under way.\<close>

definition sy_start :: "(int \<Rightarrow> int) \<Rightarrow> sl_sys \<Rightarrow> bool" where
  "sy_start f sys \<longleftrightarrow> sy_log sys = [] \<and> (\<forall>n. sy_pos sys n = 0 \<and> sl_nodeid (sy_node sys n) = n
     \<and> outbox (sy_node sys n) = [] \<and> (\<forall>i. owner_at sys n i = f i))"

section \<open>The owner the order of messages agrees on\<close>

definition registers :: "int \<Rightarrow> int \<Rightarrow> mcast \<Rightarrow> int" where
  "registers i o1 msg = (if i \<in> gives msg then mc_dst msg else o1)"

definition agreed :: "(int \<Rightarrow> int) \<Rightarrow> int \<Rightarrow> mcast list \<Rightarrow> int" where
  "agreed f i ms = foldl (registers i) (f i) ms"

definition by_owner :: "(int \<Rightarrow> int) \<Rightarrow> int \<Rightarrow> mcast list \<Rightarrow> bool" where
  "by_owner f i ms \<longleftrightarrow> (\<forall>k < length ms. i \<in> gives (ms ! k) \<longrightarrow> mc_src (ms ! k) = agreed f i (take k ms))"

lemma agreed_Nil [simp]: "agreed f i [] = f i" by (simp add: agreed_def)

lemma agreed_snoc [simp]: "agreed f i (ms @ [msg]) = registers i (agreed f i ms) msg"
  by (simp add: agreed_def)

lemma agreed_Suc:
  "k < length ms \<Longrightarrow> agreed f i (take (Suc k) ms) = registers i (agreed f i (take k ms)) (ms ! k)"
  by (simp add: take_Suc_conv_app_nth)

lemma by_owner_snoc:
  "by_owner f i (ms @ [msg]) \<longleftrightarrow> by_owner f i ms \<and> (i \<in> gives msg \<longrightarrow> mc_src msg = agreed f i ms)"
  by (auto simp: by_owner_def nth_append less_Suc_eq)

text \<open>As long as the owner at some point gives nothing away, he stays the owner.\<close>

lemma agreed_stays:
  assumes "by_owner f i ms" "p \<le> q" "q \<le> length ms"
    and "\<And>k. p \<le> k \<Longrightarrow> k < q \<Longrightarrow> i \<in> gives (ms ! k) \<Longrightarrow> mc_src (ms ! k) \<noteq> agreed f i (take p ms)"
  shows "agreed f i (take q ms) = agreed f i (take p ms)"
  using assms(2,3,4)
proof (induction q rule: dec_induct)
  case (step q)
  have eq: "agreed f i (take q ms) = agreed f i (take p ms)" using step by simp
  have "i \<notin> gives (ms ! q)" using step.prems assms(1) eq step.hyps unfolding by_owner_def by fastforce
  then show ?case using step.prems(1) by (simp add: agreed_Suc registers_def eq)
qed simp

section \<open>The invariant\<close>

text \<open>The donations of a slot by a node that it has not got back yet.\<close>

definition under_way :: "sl_sys \<Rightarrow> int \<Rightarrow> int \<Rightarrow> mcast list" where
  "under_way sys n i =
    filter (\<lambda>msg. mc_src msg = n \<and> i \<in> gives msg) (drop (sy_pos sys n) (sy_log sys) @ outbox (sy_node sys n))"

abbreviation (input) "agreed_at f sys n i \<equiv> agreed f i (take (sy_pos sys n) (sy_log sys))"

definition node_ok :: "(int \<Rightarrow> int) \<Rightarrow> sl_sys \<Rightarrow> int \<Rightarrow> int \<Rightarrow> bool" where
  "node_ok f sys i n \<longleftrightarrow>
     (owner_at sys n i \<noteq> agreed_at f sys n i \<longrightarrow> agreed_at f sys n i = n)
   \<and> length (under_way sys n i) \<le> 1
   \<and> (\<forall>msg \<in> set (under_way sys n i). agreed_at f sys n i = n \<and> owner_at sys n i = mc_dst msg \<and> mc_dst msg \<noteq> n)"

definition sy_ok :: "(int \<Rightarrow> int) \<Rightarrow> int \<Rightarrow> sl_sys \<Rightarrow> bool" where
  "sy_ok f S sys \<longleftrightarrow>
     (\<forall>n. sl_nodeid (sy_node sys n) = n \<and> sy_pos sys n \<le> length (sy_log sys)
        \<and> (\<forall>msg \<in> set (outbox (sy_node sys n)). mc_src msg = n))
   \<and> (\<forall>i \<ge> S. by_owner f i (sy_log sys) \<and> (\<forall>n. node_ok f sys i n))"

lemma sy_okD:
  assumes "sy_ok f S sys"
  shows "sl_nodeid (sy_node sys n) = n" "sy_pos sys n \<le> length (sy_log sys)"
    "msg \<in> set (outbox (sy_node sys n)) \<Longrightarrow> mc_src msg = n"
    "i \<ge> S \<Longrightarrow> by_owner f i (sy_log sys)" "i \<ge> S \<Longrightarrow> node_ok f sys i n"
  using assms unfolding sy_ok_def by blast+

lemma sy_start_ok: "sy_start f sys \<Longrightarrow> sy_ok f S sys"
  by (auto simp: sy_start_def sy_ok_def node_ok_def by_owner_def under_way_def)

text \<open>The heart of the matter: the invariant rules out two owners.\<close>

lemma under_way_log:
  assumes "sy_pos sys n \<le> k" "k < length (sy_log sys)" "mc_src (sy_log sys ! k) = n" "i \<in> gives (sy_log sys ! k)"
  shows "sy_log sys ! k \<in> set (under_way sys n i)"
proof -
  have "sy_log sys ! k \<in> set (drop (sy_pos sys n) (sy_log sys))"
    using nth_mem [of "k - sy_pos sys n" "drop (sy_pos sys n) (sy_log sys)"] assms(1,2) by simp
  then show ?thesis using assms(3,4) by (simp add: under_way_def)
qed

lemma owner_agreed: "node_ok f sys i n \<Longrightarrow> owner_at sys n i = n \<Longrightarrow> agreed_at f sys n i = n \<and> under_way sys n i = []"
  by (cases "under_way sys n i") (auto simp: node_ok_def)

lemma owner_stays:
  assumes "sy_ok f S sys" "i \<ge> S" "owner_at sys n i = n" "sy_pos sys n \<le> q" "q \<le> length (sy_log sys)"
  shows "agreed f i (take q (sy_log sys)) = n"
proof -
  note a = owner_agreed [OF sy_okD(5) [OF assms(1,2)] assms(3)]
  have "agreed f i (take q (sy_log sys)) = agreed_at f sys n i"
    using under_way_log [of sys n _ i] a assms(5)
    by (intro agreed_stays [OF sy_okD(4) [OF assms(1,2)] assms(4,5)]) fastforce
  then show ?thesis using a by simp
qed

lemma sy_ok_one_owner:
  assumes "sy_ok f S sys" "i \<ge> S" "owner_at sys n i = n" "owner_at sys m i = m"
  shows "n = m"
proof -
  have *: "a = b" if "owner_at sys a i = a" "owner_at sys b i = b" "sy_pos sys a \<le> sy_pos sys b" for a b
    using owner_stays [OF assms(1,2) that(1,3)] owner_stays [OF assms(1,2) that(2) order_refl]
      sy_okD(2) [OF assms(1)] by simp
  show ?thesis using *[of n m] *[of m n] assms(3,4) by (metis nle_le)
qed

section \<open>Every step keeps the invariant\<close>

text \<open>A node that gives slots away, or nothing at all.\<close>

lemma under_way_upd:
  "under_way (upd_sy n st sys) m i = (if m = n
    then filter (\<lambda>msg. mc_src msg = n \<and> i \<in> gives msg) (drop (sy_pos sys n) (sy_log sys) @ outbox st)
    else under_way sys m i)"
  by (simp add: under_way_def upd_sy_def)

lemma node_ok_other: "m \<noteq> n \<Longrightarrow> node_ok f (upd_sy n st sys) i m = node_ok f sys i m"
  by (simp add: node_ok_def under_way_upd) (simp add: upd_sy_def)

lemma give_step:
  assumes ok: "sy_ok f S sys" and g: "gives_away S d G (sy_node sys n) st'"
  shows "sy_ok f S (upd_sy n st' sys)"
proof -
  note D = sy_okD [OF ok]
  have g': "sl_nodeid st' = n" "s_owner (slot st' i) = (if i \<in> G then d else owner_at sys n i)"
    "i \<in> G \<Longrightarrow> owner_at sys n i = n \<and> d \<noteq> n" for i
    using g D(1) unfolding gives_away_def by auto
  obtain new where new: "outbox st' = outbox (sy_node sys n) @ new" "length new \<le> 1"
    "\<And>msg. msg \<in> set new \<Longrightarrow> mc_src msg = n \<and> (\<forall>i\<ge>S. i \<in> gives msg \<longrightarrow> i \<in> G \<and> mc_dst msg = d)"
    using g D(1) [of n] unfolding gives_away_def by (metis append_Nil2 empty_iff length_Cons list.set(1) list.size(3)
      One_nat_def le_refl set_ConsD zero_le_one)
  have "node_ok f (upd_sy n st' sys) i n" if i: "i \<ge> S" for i
  proof -
    let ?new = "filter (\<lambda>msg. mc_src msg = n \<and> i \<in> gives msg) new"
    have uw: "under_way (upd_sy n st' sys) n i = under_way sys n i @ ?new"
      unfolding under_way_upd new(1) by (simp add: under_way_def)
    have o: "owner_at (upd_sy n st' sys) n i = (if i \<in> G then d else owner_at sys n i)" 
      "agreed_at f (upd_sy n st' sys) n i = agreed_at f sys n i" by (simp_all add: upd_sy_def g'(2))
    show ?thesis
    proof (cases "i \<in> G")
      case True
      note a = owner_agreed [OF D(5) [OF i] g'(3) [OF True, THEN conjunct1]]
      have "length ?new \<le> 1" using new(2) by (meson length_filter_le order_trans)
      then show ?thesis using a new(3) i g'(3) [OF True] True unfolding node_ok_def uw o by auto
    next
      case False
      then have "?new = []" using new(3) i by (auto simp: filter_empty_conv)
      then show ?thesis using D(5) [OF i, of n] False unfolding node_ok_def uw o by simp
    qed
  qed
  then have "node_ok f (upd_sy n st' sys) i m" if "i \<ge> S" for i m
    using that D(5) by (cases "m = n") (simp_all add: node_ok_other)
  then show ?thesis using D(1-4) g'(1) new(1,3) unfolding sy_ok_def by (auto simp: upd_sy_def)
qed

text \<open>The next message of an outbox gets its place.\<close>

lemma order_step:
  assumes ok: "sy_ok f S sys" and o: "outbox (sy_node sys n) = msg # rest"
  shows "sy_ok f S ((upd_sy n ((sy_node sys n)\<lparr>outbox := rest\<rparr>) sys)\<lparr>sy_log := sy_log sys @ [msg]\<rparr>)" (is "sy_ok f S ?sys")
proof -
  note D = sy_okD [OF ok]
  have src: "mc_src msg = n" using D(3) o by simp
  have sel: "sy_log ?sys = sy_log sys @ [msg]" "sy_pos ?sys = sy_pos sys"
    "sl_nodeid (sy_node ?sys m) = sl_nodeid (sy_node sys m)" "slot (sy_node ?sys m) = slot (sy_node sys m)"
    "outbox (sy_node ?sys m) = (if m = n then rest else outbox (sy_node sys m))" for m
    by (simp_all add: upd_sy_def)
  have uw: "under_way ?sys m i = under_way sys m i" for m i
    using src o D(2) [of m] unfolding under_way_def sel by auto
  have "node_ok f ?sys i m" if "i \<ge> S" for i m using D(5) [OF that, of m] D(2) [of m]
    unfolding node_ok_def uw sel by simp
  moreover have "by_owner f i (sy_log ?sys)" if i: "i \<ge> S" for i
    unfolding sel by_owner_snoc
  proof (intro conjI impI)
    assume m: "i \<in> gives msg"
    have in_uw: "msg \<in> set (under_way sys n i)" using m src o by (simp add: under_way_def)
    have one: "length (under_way sys n i) \<le> 1" and agn: "agreed_at f sys n i = n"
      using D(5) [OF i, of n] in_uw unfolding node_ok_def by auto
    have "filter (\<lambda>msg. mc_src msg = n \<and> i \<in> gives msg) (drop (sy_pos sys n) (sy_log sys)) = []"
      using one m src o by (simp add: under_way_def)
    then have none: "msg' \<in> set (drop (sy_pos sys n) (sy_log sys)) \<Longrightarrow> i \<in> gives msg' \<Longrightarrow> mc_src msg' \<noteq> n" for msg'
      by (auto simp: filter_empty_conv)
    have "agreed f i (take (length (sy_log sys)) (sy_log sys)) = agreed_at f sys n i"
    proof (rule agreed_stays [OF D(4) [OF i] D(2) order_refl])
      fix k assume k: "sy_pos sys n \<le> k" "k < length (sy_log sys)" "i \<in> gives (sy_log sys ! k)"
      have "sy_log sys ! k \<in> set (drop (sy_pos sys n) (sy_log sys))"
        using nth_mem [of "k - sy_pos sys n" "drop (sy_pos sys n) (sy_log sys)"] k by simp
      then show "mc_src (sy_log sys ! k) \<noteq> agreed_at f sys n i" using none k(3) agn by simp
    qed
    then show "mc_src msg = agreed f i (sy_log sys)" using agn src by simp
  qed (rule D(4) [OF i])
  ultimately show ?thesis using D(1-3) o unfolding sy_ok_def sel
    by (auto simp: le_SucI split: if_splits)
qed

text \<open>A node moves on to the next position.\<close>

lemma advance_step:
  assumes ok: "sy_ok f S sys" and p: "sy_pos sys n < length (sy_log sys)" and msg: "sy_log sys ! sy_pos sys n = msg"
    and st: "sl_nodeid st1 = n" "outbox st1 = outbox (sy_node sys n)"
    and own: "\<And>i. s_owner (slot st1 i) = owner_at sys n i \<or> (i \<in> gives msg \<and> s_owner (slot st1 i) = mc_dst msg)"
    and own': "\<And>i. mc_src msg \<noteq> n \<Longrightarrow> i \<in> gives msg \<Longrightarrow> s_owner (slot st1 i) = mc_dst msg"
  shows "sy_ok f S ((upd_sy n st1 sys)\<lparr>sy_pos := (sy_pos sys)(n := Suc (sy_pos sys n))\<rparr>)" (is "sy_ok f S ?sys")
proof -
  note D = sy_okD [OF ok]
  have sel: "sy_log ?sys = sy_log sys" "sy_pos ?sys m = (if m = n then Suc (sy_pos sys n) else sy_pos sys m)"
    "sy_node ?sys m = (if m = n then st1 else sy_node sys m)" for m
    by (simp_all add: upd_sy_def)
  have "node_ok f ?sys i n" if i: "i \<ge> S" for i
  proof -
    have uw: "under_way sys n i = (if mc_src msg = n \<and> i \<in> gives msg then [msg] else []) @ under_way ?sys n i"
      using st(2) Cons_nth_drop_Suc [OF p, symmetric] unfolding under_way_def sel by (simp add: msg)
    have ag: "agreed_at f ?sys n i = registers i (agreed_at f sys n i) msg" using agreed_Suc [OF p] msg unfolding sel by simp
    have src: "i \<in> gives msg \<Longrightarrow> mc_src msg = agreed_at f sys n i"
      using D(4) [OF i] p msg unfolding by_owner_def by blast
    note K = D(5) [OF i, of n, unfolded node_ok_def]
    have o: "owner_at ?sys n i = s_owner (slot st1 i)" by (simp add: upd_sy_def)
    consider "i \<notin> gives msg" | "i \<in> gives msg" "mc_src msg = n" | "i \<in> gives msg" "mc_src msg \<noteq> n" by blast
    then show ?thesis
    proof cases
      case 1
      then show ?thesis using K own [of i] uw unfolding node_ok_def ag o by (simp add: registers_def)
    next
      case 2
      then have "under_way ?sys n i = []" "owner_at sys n i = mc_dst msg" using K uw by auto
      then show ?thesis using 2 own [of i] unfolding node_ok_def ag o by (auto simp: registers_def)
    next
      case 3
      then have "under_way ?sys n i = under_way sys n i" using uw by simp
      moreover have "agreed_at f sys n i \<noteq> n" using src [OF 3(1)] 3(2) by simp
      then have "msg' \<notin> set (under_way sys n i)" for msg' using K by blast
      then have "under_way sys n i = []" by (cases "under_way sys n i") auto
      ultimately have "under_way ?sys n i = []" by simp
      then show ?thesis using 3 own' [of i] unfolding node_ok_def ag o by (simp add: registers_def)
    qed
  qed
  moreover have "node_ok f ?sys i m" if "i \<ge> S" "m \<noteq> n" for i m
    using D(5) [OF that(1), of m] that(2) unfolding node_ok_def under_way_def sel by simp
  ultimately have "by_owner f i (sy_log ?sys) \<and> (\<forall>m. node_ok f ?sys i m)" if "i \<ge> S" for i
    using that D(4) unfolding sel by metis
  moreover have "sl_nodeid (sy_node ?sys m) = m \<and> sy_pos ?sys m \<le> length (sy_log ?sys)
      \<and> (\<forall>msg \<in> set (outbox (sy_node ?sys m)). mc_src msg = m)" for m
    using D(1,2) [of m] D(3) [of _ m] p st unfolding sel by simp
  ultimately show ?thesis unfolding sy_ok_def by blast
qed

lemma deliver_step:
  assumes ok: "sy_ok f S sys" and S: "sl_nr_sysprocs E = S" "0 < S" and p: "sy_pos sys n < length (sy_log sys)"
    and h: "handle E (sy_log sys ! sy_pos sys n) (sy_node sys n) = (st', Ret x)"
  shows "sy_ok f S ((upd_sy n st' sys)\<lparr>sy_pos := (sy_pos sys)(n := Suc (sy_pos sys n))\<rparr>)"
proof -
  let ?st = "sy_node sys n" and ?m = "sy_log sys ! sy_pos sys n"
  have "\<exists>st1 d G. sl_nodeid st1 = n \<and> outbox st1 = outbox ?st \<and> gives_away S d G st1 st'
    \<and> (\<forall>i. s_owner (slot st1 i) = owner_at sys n i \<or> (i \<in> gives ?m \<and> s_owner (slot st1 i) = mc_dst ?m))
    \<and> (\<forall>i. mc_src ?m \<noteq> n \<longrightarrow> i \<in> gives ?m \<longrightarrow> s_owner (slot st1 i) = mc_dst ?m)"
  proof (cases ?m)
    case (REQ_SLOTS src need free owned)
    then show ?thesis using h sp_req_slots_gives [OF _ S, of src need ?st st' "Ret x"] sy_okD(1) [OF ok, of n]
      by (intro exI [of _ ?st]) auto
  next
    case (DON_SLOTS src dst nr ia)
    then show ?thesis using h sp_don_slots_owners [of E src dst nr ia ?st st' x S] sy_okD(1) [OF ok, of n]
      by (simp del: gives.simps) metis
  qed
  then obtain st1 d G where s: "sl_nodeid st1 = n" "outbox st1 = outbox ?st" and g: "gives_away S d G st1 st'"
    and o: "\<And>i. s_owner (slot st1 i) = owner_at sys n i \<or> (i \<in> gives ?m \<and> s_owner (slot st1 i) = mc_dst ?m)"
      "\<And>i. mc_src ?m \<noteq> n \<Longrightarrow> i \<in> gives ?m \<Longrightarrow> s_owner (slot st1 i) = mc_dst ?m" by blast
  let ?sys1 = "(upd_sy n st1 sys)\<lparr>sy_pos := (sy_pos sys)(n := Suc (sy_pos sys n))\<rparr>"
  have "sy_ok f S (upd_sy n st' ?sys1)"
    by (rule give_step [OF advance_step [OF ok p refl s o]]) (use g in \<open>simp_all add: upd_sy_def\<close>)
  moreover have "upd_sy n st' ?sys1 = (upd_sy n st' sys)\<lparr>sy_pos := (sy_pos sys)(n := Suc (sy_pos sys n))\<rparr>"
    by (cases sys) (simp add: upd_sy_def)
  ultimately show ?thesis by simp
qed

lemma sy_step_ok:
  assumes "sy_step S sys sys'" "sy_ok f S sys" "0 < S"
  shows "sy_ok f S sys'"
  using assms(1)
proof cases
  case (deliver E n st' x)
  then show ?thesis using deliver_step [OF assms(2)] assms(3) by blast
next
  case (order n msg rest)
  then show ?thesis using order_step [OF assms(2)] by blast
next
  case (ask E k n st' x)
  then show ?thesis using give_step [OF assms(2)] mcast_rqst_slots_gives by (metis fst_conv)
next
  case (alloc E now n st' x)
  then show ?thesis using give_step [OF assms(2) get_free_proc_gives] by blast
next
  case (work st' n)
  have "gives_away S 0 {} (sy_node sys n) st'" using work by (simp add: gives_away_def)
  then show ?thesis using give_step [OF assms(2)] work(1) by blast
qed

section \<open>One owner\<close>

text \<open>C4: No two nodes ever take the same user slot for their own: whatever the nodes ask for, give away and allocate,
  in whatever order the messages are placed and however far behind one another the nodes are, two nodes whose slot
  tables both say that they own a slot are the same node.  The tables agree at the start, and slot 0 is a system slot.\<close>

theorem slot_has_one_owner:
  assumes "sy_start f sys0" "(sy_step S)\<^sup>*\<^sup>* sys0 sys" "0 < S" "S \<le> i"
    and "s_owner (slot (sy_node sys n) i) = n" "s_owner (slot (sy_node sys m) i) = m"
  shows "n = m"
proof -
  have "sy_ok f S sys" using assms(2)
    by (induction rule: rtranclp_induct) (auto intro: sy_start_ok [OF assms(1)] sy_step_ok [OF _ _ assms(3)])
  then show ?thesis by (rule sy_ok_one_owner [OF _ assms(4-6)])
qed

text \<open>Node 1 asks, node 0 gives it four slots, and node 1 gets them.\<close>

definition sy_scn :: sl_sys where
  "sy_scn = \<lparr>sy_node = sl_scn, sy_log = [], sy_pos = (\<lambda>n. 0)\<rparr>"

abbreviation (input) "scn_req \<equiv> REQ_SLOTS 1 63 96 96"
abbreviation (input) "scn_don \<equiv> DON_SLOTS 0 1 4 [64, 65, 66, 67]"

lemma scn_ask: "mcast_rqst_slots sl_scn_env 63 (sl_scn 1) = ((sl_scn 1)\<lparr>bm_donors := 5, outbox := [scn_req]\<rparr>, 36)"
  by (simp add: mcast_rqst_slots_def SP_multicast_def sl_scn_def sl_scn_env_def Let_def unset_bit_eq_and_not)

lemma scn_give: "\<exists>st. handle sl_scn_env scn_req (sl_scn 0) = (st, Ret 36) \<and> outbox st = [scn_don]"
  by (simp add: sp_req_slots_def reply_rqst_def send_donation_def offered_def CEILING_def sl_scn_def sl_scn_env_def
    SP_multicast_def upto_rec1 donatable_def donate_def Let_def upd_slot_def)

lemma scn_take: "\<exists>st1 st2. handle sl_scn_env scn_req ((sl_scn 1)\<lparr>bm_donors := 5\<rparr>) = (st1, Ret 0)
    \<and> handle sl_scn_env scn_don st1 = (st2, Ret 0) \<and> s_owner (slot st2 64) = 1"
  by (simp add: sp_req_slots_def sp_don_slots_def take_donation_def new_rqst_slots_def sl_scn_def sl_scn_env_def Let_def)

lemma scn_start: "sy_start (\<lambda>i. if i < 68 then 0 else 2) sy_scn"
  by (simp add: sy_start_def sy_scn_def sl_scn_def)

lemma scn_run: "\<exists>sys. (sy_step 64)\<^sup>*\<^sup>* sy_scn sys \<and> owner_at sys 1 64 = 1"
proof -
  have env: "sl_nr_sysprocs sl_scn_env = 64" by (simp add: sl_scn_env_def)
  obtain st0 where g: "handle sl_scn_env scn_req (sl_scn 0) = (st0, Ret 36)" "outbox st0 = [scn_don]"
    using scn_give by blast
  obtain st1 st2 where t: "handle sl_scn_env scn_req ((sl_scn 1)\<lparr>bm_donors := 5\<rparr>) = (st1, Ret 0)"
    "handle sl_scn_env scn_don st1 = (st2, Ret 0)" "s_owner (slot st2 64) = 1" using scn_take by blast
  have b1: "(sl_scn 1)\<lparr>bm_donors := 5, outbox := []\<rparr> = (sl_scn 1)\<lparr>bm_donors := 5\<rparr>" by (simp add: sl_scn_def)
  let ?sys = "\<lambda>a b ms p q. \<lparr>sy_node = sl_scn(0 := a, 1 := b), sy_log = ms, sy_pos = (\<lambda>n. 0)(0 := p, 1 := q)\<rparr>"
  let ?b = "(sl_scn 1)\<lparr>bm_donors := 5\<rparr>" and ?a = "st0\<lparr>outbox := []\<rparr>"
  have "sy_step 64 sy_scn (?sys (sl_scn 0) ((sl_scn 1)\<lparr>bm_donors := 5, outbox := [scn_req]\<rparr>) [] 0 0)"
    using sy_step.ask [of sl_scn_env 63 sy_scn 1, OF _] scn_ask by (simp add: sy_scn_def upd_sy_def fun_upd_idem)
  moreover have "sy_step 64 (?sys (sl_scn 0) ((sl_scn 1)\<lparr>bm_donors := 5, outbox := [scn_req]\<rparr>) [] 0 0)
      (?sys (sl_scn 0) ?b [scn_req] 0 0)"
    using sy_step.order [of "?sys (sl_scn 0) ((sl_scn 1)\<lparr>bm_donors := 5, outbox := [scn_req]\<rparr>) [] 0 0" 1 scn_req "[]" 64]
    by (simp add: upd_sy_def b1)
  moreover have "sy_step 64 (?sys (sl_scn 0) ?b [scn_req] 0 0) (?sys st0 ?b [scn_req] 1 0)"
    using sy_step.deliver [OF env, of "?sys (sl_scn 0) ?b [scn_req] 0 0" 0 st0 36] g
    by (simp add: upd_sy_def fun_upd_twist)
  moreover have "sy_step 64 (?sys st0 ?b [scn_req] 1 0) (?sys ?a ?b [scn_req, scn_don] 1 0)"
    using sy_step.order [of "?sys st0 ?b [scn_req] 1 0" 0 scn_don "[]" 64] g by (simp add: upd_sy_def fun_upd_twist)
  moreover have "sy_step 64 (?sys ?a ?b [scn_req, scn_don] 1 0) (?sys ?a st1 [scn_req, scn_don] 1 1)"
    using sy_step.deliver [OF env, of "?sys ?a ?b [scn_req, scn_don] 1 0" 1 st1 0] t by (simp add: upd_sy_def)
  moreover have "sy_step 64 (?sys ?a st1 [scn_req, scn_don] 1 1) (?sys ?a st2 [scn_req, scn_don] 1 2)"
    using sy_step.deliver [OF env, of "?sys ?a st1 [scn_req, scn_don] 1 1" 1 st2 0] t
    by (simp add: upd_sy_def numeral_2_eq_2)
  ultimately have "(sy_step 64)\<^sup>*\<^sup>* sy_scn (?sys ?a st2 [scn_req, scn_don] 1 2)"
    by (meson converse_rtranclp_into_rtranclp rtranclp.rtrancl_refl)
  then show ?thesis using t(3) by (intro exI conjI) (assumption, simp)
qed

lemma slot_has_one_owner_witness:
  "\<exists>sys. (sy_step 64)\<^sup>*\<^sup>* sy_scn sys \<and> owner_at sys 1 64 = 1 \<and> \<not> (\<exists>n. n \<noteq> 1 \<and> owner_at sys n 64 = n)"
proof -
  obtain sys where r: "(sy_step 64)\<^sup>*\<^sup>* sy_scn sys" "owner_at sys 1 64 = 1" using scn_run by blast
  have "n = 1" if "owner_at sys n 64 = n" for n
    by (rule slot_has_one_owner [OF scn_start r(1) _ _ that r(2)]) simp_all
  then show ?thesis using r by blast
qed

end
