(* ===== verification/Slot_Members.thy ===== *)
theory Slot_Members
  imports Slots
begin

text \<open>
  The slot allocation of SYSTASK when the membership of a DC changes (\<open>src/tasks/systask/slots.c\<close>): a
  node joins, leaves or dies, the network splits or heals.  The handlers give the slots of a lost node to the primary
  member, take back the donations that were under way, and start what was lost again.

  The state is the one of \<open>Slots\<close> (field \<open>core\<close>) with the variables only these handlers use, and the fields of the
  process table they read.  What a handler passes to Spread is appended to \<open>sent\<close>, in order.  The calls of the kernel
  module are parameters, functions on the process table.  A shift count of a bit map test is
  taken modulo the width, as the processor does: the owner of a slot may be \<open>-1\<close>.
\<close>

unbundle bit_operations_syntax

section \<open>The state\<close>

type_synonym ktab = "(int \<Rightarrow> flags) \<times> (int \<Rightarrow> int) \<times> (int \<Rightarrow> int)"  \<comment> \<open>p_rts_flags, p_nodeid, p_endpoint\<close>

datatype spread_call =
    Mcast mcast
  | Status int int int flags flags "int \<Rightarrow> slot_t"  \<comment> \<open>m_source, m_dest, m_type, m_bm_init, m_bm_waitsts, the table\<close>
  | SP_disconnect
  | SP_join

record mb_env =
  mb_sl :: sl_env
  mb_mem :: bool
  mnx_unbind :: "int \<Rightarrow> ktab \<Rightarrow> ktab \<times> int"
  mnx_migr_start :: "int \<Rightarrow> ktab \<Rightarrow> ktab \<times> int"

record mb_st =
  core :: sl_st
  primary_mbr :: int
  waitsts_mbr :: int
  active_nodes :: int
  total_slots :: int
  bm_active :: flags
  slot_merge :: "int \<Rightarrow> slot_t"
  bm_waitsts_mrg :: flags
  bm_init_mrg :: flags
  pt_nodeid :: "int \<Rightarrow> int"
  pt_endpoint :: "int \<Rightarrow> int"
  sent :: "spread_call list"

abbreviation (input) "NO_PRIMARY_MBR \<equiv> - 1 :: int"
abbreviation (input) "BIT_SLOT_PARTITION \<equiv> 2 :: nat"
abbreviation (input) "BIT_RUNNING \<equiv> 13 :: nat"
abbreviation (input) "STS_NEW \<equiv> 0 :: flags"
abbreviation (input) "STS_WAIT_STATUS \<equiv> 1 :: flags"
abbreviation (input) "STS_DISCONNECTED \<equiv> 4 :: flags"
abbreviation (input) "STS_MERGE_STATUS \<equiv> 28704 :: flags"
abbreviation (input) "SYS_PUT_STATUS \<equiv> 3 :: int"
abbreviation (input) "SYS_MERGE_STATUS \<equiv> 4 :: int"
abbreviation (input) "EMOLNOREPLICA \<equiv> - 402 :: int"
abbreviation (input) "EMOLNOMEM \<equiv> - 12 :: int"

abbreviation (input) "lnode st \<equiv> sl_nodeid (core st)"
abbreviation (input) "sl_slots E \<equiv> sl_nr_tasks (mb_sl E) + sl_nr_procs (mb_sl E)"
abbreviation (input) "sl_sysprocs E \<equiv> sl_nr_sysprocs (mb_sl E)"

definition tbit :: "flags \<Rightarrow> int \<Rightarrow> bool" where "tbit bm n = bit bm (nat (n mod 32))"
definition sbit :: "flags \<Rightarrow> int \<Rightarrow> flags" where "sbit bm n = set_bit (nat (n mod 32)) bm"
definition cbit :: "flags \<Rightarrow> int \<Rightarrow> flags" where "cbit bm n = unset_bit (nat (n mod 32)) bm"

definition upd_core :: "(sl_st \<Rightarrow> sl_st) \<Rightarrow> mb_st \<Rightarrow> mb_st" where
  "upd_core f st = st\<lparr>core := f (core st)\<rparr>"

definition spread :: "spread_call list \<Rightarrow> mb_st \<Rightarrow> mb_st" where
  "spread cs st = st\<lparr>sent := sent st @ cs\<rparr>"

text \<open>A function of \<open>Slots\<close>, with what it multicasts passed to Spread.\<close>

definition lift_core :: "(sl_st \<Rightarrow> sl_st \<times> int) \<Rightarrow> mb_st \<Rightarrow> mb_st \<times> int" where
  "lift_core f st =
    (let (c, r) = f ((core st)\<lparr>outbox := []\<rparr>)
     in (spread (map Mcast (outbox c)) (st\<lparr>core := c\<lparr>outbox := []\<rparr>\<rparr>), r))"

definition kernel_call :: "(ktab \<Rightarrow> ktab \<times> int) \<Rightarrow> mb_st \<Rightarrow> mb_st \<times> int" where
  "kernel_call f st =
    (let ((fl, nd, ep), r) = f (pt_flags (core st), pt_nodeid st, pt_endpoint st)
     in ((upd_core (\<lambda>c. c\<lparr>pt_flags := fl\<rparr>) st)\<lparr>pt_nodeid := nd, pt_endpoint := ep\<rparr>, r))"

text \<open>A loop over slots whose body may return from the function.\<close>

fun loop_until :: "(int \<Rightarrow> 's \<Rightarrow> 's \<times> sl_res option) \<Rightarrow> int list \<Rightarrow> 's \<Rightarrow> 's \<times> sl_res option" where
  "loop_until f [] st = (st, None)"
| "loop_until f (i # is) st =
    (case f i st of (st1, None) \<Rightarrow> loop_until f is st1 | (st1, Some r) \<Rightarrow> (st1, Some r))"

section \<open>Shared routines\<close>

definition init_global_vars :: "mb_st \<Rightarrow> mb_st" where
  "init_global_vars st =
    (upd_core (\<lambda>c. c\<lparr>FSM_state := STS_NEW, init_nodes := 0, bm_init := 0, bm_waitsts := 0, bm_donors := 0,
        bm_pending := 0\<rparr>) st)\<lparr>primary_mbr := NO_PRIMARY_MBR, waitsts_mbr := 0, bm_active := 0\<rparr>"

definition restart :: "mb_st \<Rightarrow> mb_st" where
  "restart st = spread [SP_disconnect, SP_join] (init_global_vars st)"

definition copy_to_mrg :: "mb_env \<Rightarrow> mb_st \<Rightarrow> mb_st" where
  "copy_to_mrg E st = st\<lparr>slot_merge := (\<lambda>i. if 0 \<le> i \<and> i < sl_slots E then slot (core st) i else slot_merge st i),
     bm_waitsts_mrg := bm_waitsts (core st), bm_init_mrg := bm_init (core st)\<rparr>"

definition copy_from_mrg :: "mb_env \<Rightarrow> mb_st \<Rightarrow> mb_st" where
  "copy_from_mrg E st = upd_core (\<lambda>c. c\<lparr>
     slot := (\<lambda>i. if 0 \<le> i \<and> i < sl_slots E then slot_merge st i else slot c i),
     bm_waitsts := bm_waitsts_mrg st, bm_init := bm_init_mrg st\<rparr>) st"

text \<open>The system slots of the table are refreshed from the process table before it is sent; \<open>tab\<close> is a copy of the
  table made before, or \<open>None\<close> for the table itself.\<close>

definition sys_entry :: "mb_st \<Rightarrow> int \<Rightarrow> slot_t \<Rightarrow> slot_t" where
  "sys_entry st i x = (if pt_flags (core st) i \<noteq> SLOT_FREE
     then x\<lparr>s_owner := pt_nodeid st i, s_endpoint := pt_endpoint st i\<rparr>
     else x\<lparr>s_owner := NO_PRIMARY_MBR, s_endpoint := NONE\<rparr>)"

definition mcast_status_info :: "mb_env \<Rightarrow> int \<Rightarrow> int \<Rightarrow> (int \<Rightarrow> slot_t) option \<Rightarrow> mb_st \<Rightarrow> mb_st \<times> int" where
  "mcast_status_info E dest mtype tab st =
    (let st1 = upd_core (\<lambda>c. c\<lparr>slot := (\<lambda>i. if 0 \<le> i \<and> i < sl_sysprocs E then sys_entry st i (slot c i) else slot c i)\<rparr>) st;
         t = (case tab of None \<Rightarrow> slot (core st1) | Some t \<Rightarrow> t)
     in (if sl_mcast (mb_sl E) < 0 then st1
         else spread [Status (lnode st) dest mtype (bm_init (core st)) (bm_waitsts (core st)) t] st1,
         sl_mcast (mb_sl E)))"

definition primary_sts_mcast :: "mb_env \<Rightarrow> mb_st \<Rightarrow> mb_st \<times> sl_res" where
  "primary_sts_mcast E st =
    (if primary_mbr st \<noteq> lnode st then (st, Ret OK)
     else case get_next_mbr (mb_sl E) (waitsts_mbr st) (bm_waitsts (core st)) of None \<Rightarrow> (st, Abort)
     | Some w \<Rightarrow>
       let st1 = st\<lparr>waitsts_mbr := w\<rparr> in
       if w = NO_NEXT_MBR then (st1, Ret OK)
       else let (st2, rcode) = mcast_status_info E w SYS_PUT_STATUS None st1 in (st2, Ret rcode))"

definition unbind_rmt_sysproc :: "mb_env \<Rightarrow> int \<Rightarrow> mb_st \<Rightarrow> mb_st \<times> int" where
  "unbind_rmt_sysproc E endpt st =
    (let (st1, rcode) = kernel_call (mnx_unbind E endpt) st in
     (upd_core (upd_slot (ENDPOINT_P endpt + sl_nr_tasks (mb_sl E))
        (\<lambda>x. x\<lparr>s_endpoint := NONE, s_flags := 0, s_owner := lnode st1\<rparr>)) st1, OK))"

definition new_high_water :: "mb_st \<Rightarrow> mb_st" where
  "new_high_water st =
    upd_core (\<lambda>c. c\<lparr>max_owned_slots := total_slots st - min_owned_slots c * (init_nodes c - 1)\<rparr>) st"

text \<open>The end of the handlers: the status for a member that waits for it, and a new request of a node without slots,
  because the requests of the old view are void.\<close>

definition forget_requests :: "mb_st \<Rightarrow> mb_st" where
  "forget_requests st = upd_core (\<lambda>c. c\<lparr>bm_donors := 0, bm_pending := 0\<rparr>) st"

definition rqst_again :: "mb_env \<Rightarrow> mb_st \<Rightarrow> mb_st \<times> sl_res" where
  "rqst_again E st =
    (let (st1, rcode) = lift_core (new_rqst_slots (mb_sl E) (min_owned_slots (core st))) st
     in (st1, Ret (if rcode \<noteq> OK then rcode else OK)))"

definition end_of_view :: "mb_env \<Rightarrow> mb_st \<Rightarrow> mb_st \<times> sl_res" where
  "end_of_view E st =
    (case primary_sts_mcast E st of (st1, Ret r) \<Rightarrow> rqst_again E (forget_requests st1) | other \<Rightarrow> other)"

section \<open>A node joins\<close>

definition join_slot :: "mb_env \<Rightarrow> int \<Rightarrow> int \<Rightarrow> mb_st \<Rightarrow> mb_st \<times> sl_res option" where
  "join_slot E new_mbr i st =
    (if \<not> (s_owner (slot (core st) i) = new_mbr \<and> bit (s_flags (slot (core st) i)) BIT_SLOT_PARTITION) then (st, None)
     else if i < sl_sysprocs E then
       (let (st1, rcode) = unbind_rmt_sysproc E (pt_endpoint st i) st
        in (st1, if rcode \<noteq> OK then Some (Ret rcode) else None))
     else
       let st1 = (if primary_mbr st = lnode st
                  then upd_core (\<lambda>c. c\<lparr>free_slots := free_slots c + 1, owned_slots := owned_slots c + 1\<rparr>) st else st);
           st2 = upd_core (upd_slot i (\<lambda>x. x\<lparr>s_owner := primary_mbr st, s_flags := 0\<rparr>))
                  (st1\<lparr>total_slots := total_slots st1 + 1\<rparr>)
       in (st2, None))"

definition sp_join :: "mb_env \<Rightarrow> int \<Rightarrow> mb_st \<Rightarrow> mb_st \<times> sl_res" where
  "sp_join E new_mbr st =
    (let me = lnode st in
     if new_mbr = me then
       if active_nodes st = 1 then
         (upd_core (\<lambda>c. c\<lparr>FSM_state := STS_RUNNING, bm_init := sbit (bm_init c) me, init_nodes := 1,
             owned_slots := total_slots st,
             slot := (\<lambda>i. if 0 \<le> i \<and> i < sl_slots E then (slot c i)\<lparr>s_owner := me\<rparr> else slot c i),
             sys_barrier := sys_barrier c + 1\<rparr>) (st\<lparr>primary_mbr := me\<rparr>), Ret OK)
       else (upd_core (\<lambda>c. c\<lparr>bm_waitsts := sbit (bm_waitsts c) me, FSM_state := STS_WAIT_STATUS\<rparr>) st, Ret OK)
     else
       let st1 = upd_core (\<lambda>c. c\<lparr>bm_waitsts := sbit (bm_waitsts c) new_mbr\<rparr>) st in
       if FSM_state (core st1) = STS_WAIT_STATUS then (st1, Ret OK)
       else
        case loop_until (join_slot E new_mbr) [0 .. sl_slots E - 1] st1 of
          (st2, Some r) \<Rightarrow> (st2, r)
        | (st2, None) \<Rightarrow>
          (case primary_sts_mcast E (forget_requests st2) of (st3, Ret r) \<Rightarrow> rqst_again E st3 | other \<Rightarrow> other))"

section \<open>The network heals\<close>

definition sp_net_merge :: "mb_env \<Rightarrow> mb_st \<Rightarrow> mb_st \<times> sl_res" where
  "sp_net_merge E st =
    (let st1 = copy_to_mrg E (upd_core (\<lambda>c. c\<lparr>FSM_state := set_bit BIT_MERGING (FSM_state c)\<rparr>) (forget_requests st));
         c = core st1 in
     if \<not> bit (FSM_state c) BIT_RUNNING then (st1, Ret OK)
     else if primary_mbr st1 \<noteq> lnode st1 then (st1, Ret OK)
     else if \<not> mb_mem E then (st1, Ret EMOLNOMEM)
     else
      let slot_part = (\<lambda>i. if tbit (bm_init c) (s_owner (slot c i)) then slot c i
                            else (slot c i)\<lparr>s_owner := NO_PRIMARY_MBR\<rparr>);
          st2 = st1\<lparr>total_slots :=
            int (length (filter (\<lambda>i. tbit (bm_init c) (s_owner (slot c i))) [0 .. sl_slots E - 1]))\<rparr>;
          (st3, rcode) = mcast_status_info E ANY SYS_MERGE_STATUS (Some slot_part) st2
      in (st3, Ret OK))"

section \<open>A node leaves\<close>

definition disc_slot :: "mb_env \<Rightarrow> int \<Rightarrow> int \<Rightarrow> mb_st \<Rightarrow> mb_st \<times> sl_res option" where
  "disc_slot E disc_mbr i st =
    (if s_owner (slot (core st) i) \<noteq> disc_mbr then (st, None)
     else
      let st1 =
        (if bit (s_flags (slot (core st) i)) BIT_SLOT_DONATING then
           upd_core (\<lambda>c. (upd_slot i (\<lambda>x. x\<lparr>s_owner := sl_nodeid c\<rparr>) c)\<lparr>free_slots := free_slots c + 1,
             owned_slots := owned_slots c + 1, pt_flags := (pt_flags c)(i := unset_bit BIT_NO_MAP (pt_flags c i))\<rparr>) st
         else
           upd_core (\<lambda>c. let c1 = upd_slot i (\<lambda>x. x\<lparr>s_owner := primary_mbr st\<rparr>) c in
             if primary_mbr st = sl_nodeid c1 then
               let c2 = (if owned_slots c1 = 0
                         then c1\<lparr>FSM_state := STS_RUNNING, sys_barrier := sys_barrier c1 + 1\<rparr> else c1)
               in c2\<lparr>owned_slots := owned_slots c2 + 1, free_slots := free_slots c2 + 1\<rparr>
             else c1) st) in
      if FSM_state (core st1) = STS_WAIT_STATUS then (st1, None)
      else if \<not> bit (pt_flags (core st1) i) BIT_SLOT_FREE then
        if pt_nodeid st1 i \<noteq> disc_mbr then (st1, Some Abort)
        else let (st2, rcode) = kernel_call (mnx_unbind E (pt_endpoint st1 i)) st1
             in (st2, if rcode \<noteq> OK then Some (Ret rcode) else None)
      else (st1, None))"

definition disc_sysproc :: "mb_env \<Rightarrow> int \<Rightarrow> int \<Rightarrow> mb_st \<Rightarrow> mb_st \<times> sl_res option" where
  "disc_sysproc E disc_mbr i st =
    (if pt_nodeid st i = disc_mbr then
       let (st1, rcode) = unbind_rmt_sysproc E (pt_endpoint st i) st
       in (st1, if rcode \<noteq> OK then Some (Ret rcode) else None)
     else (st, None))"

definition leave_maps :: "int \<Rightarrow> mb_st \<Rightarrow> mb_st" where
  "leave_maps disc_mbr st =
    upd_core (\<lambda>c. (if tbit (bm_init c) disc_mbr then c\<lparr>init_nodes := init_nodes c - 1\<rparr> else c)
      \<lparr>bm_init := cbit (bm_init c) disc_mbr, bm_donors := cbit (bm_donors c) disc_mbr,
       bm_waitsts := cbit (bm_waitsts c) disc_mbr, bm_pending := cbit (bm_pending c) disc_mbr\<rparr>) st"

definition disc_slots :: "mb_env \<Rightarrow> int \<Rightarrow> mb_st \<Rightarrow> mb_st \<times> sl_res" where
  "disc_slots E disc_mbr st =
    (case loop_until (disc_slot E disc_mbr) [sl_sysprocs E .. sl_slots E - 1] (new_high_water st) of
       (st1, Some r) \<Rightarrow> (st1, r)
     | (st1, None) \<Rightarrow>
       if FSM_state (core st1) = STS_WAIT_STATUS then (st1, Ret OK)
       else case loop_until (disc_sysproc E disc_mbr) [0 .. sl_sysprocs E - 1] st1 of
              (st2, Some r) \<Rightarrow> (st2, r)
            | (st2, None) \<Rightarrow> end_of_view E st2)"

definition sp_disconnect :: "mb_env \<Rightarrow> int \<Rightarrow> mb_st \<Rightarrow> mb_st \<times> sl_res" where
  "sp_disconnect E disc_mbr st =
    (if lnode st = disc_mbr then (upd_core (\<lambda>c. c\<lparr>FSM_state := STS_DISCONNECTED\<rparr>) st, Ret OK)
     else if \<not> bit (FSM_state (core st)) BIT_INITIALIZED \<and> active_nodes st = 1 then (restart st, Ret OK)
     else if bit (FSM_state (core st)) BIT_MERGING then sp_net_merge E st
     else
      let st1 = leave_maps disc_mbr st in
      if primary_mbr st1 = disc_mbr then
        let st2 = st1\<lparr>primary_mbr := get_primary_mbr (mb_sl E) (core st1)\<rparr> in
        if primary_mbr st2 = NO_PRIMARY_MBR then (restart st2, Ret OK) else disc_slots E disc_mbr st2
      else disc_slots E disc_mbr st1)"

section \<open>The network splits\<close>

definition part_slot :: "mb_env \<Rightarrow> int \<Rightarrow> mb_st \<Rightarrow> mb_st" where
  "part_slot E i st =
    (if i < sl_sysprocs E then
       if s_owner (slot (core st) i) \<noteq> lnode st \<and> \<not> tbit (bm_init (core st)) (s_owner (slot (core st) i)) then
         let st1 = upd_core (upd_slot i (\<lambda>x. x\<lparr>s_flags := set_bit BIT_SLOT_PARTITION (s_flags x)\<rparr>)) st
         in if bit (pt_flags (core st1) i) BIT_REMOTE
            then fst (kernel_call (mnx_migr_start E (pt_endpoint st1 i)) st1) else st1
       else st
     else
      let st1 =
        (if bit (s_flags (slot (core st) i)) BIT_SLOT_DONATING then
           upd_core (\<lambda>c. (upd_slot i (\<lambda>x. x\<lparr>s_owner := sl_nodeid c, s_flags := unset_bit BIT_SLOT_DONATING (s_flags x)\<rparr>) c)
             \<lparr>free_slots := free_slots c + 1, owned_slots := owned_slots c + 1,
              pt_flags := (pt_flags c)(i := unset_bit BIT_NO_MAP (pt_flags c i))\<rparr>) st
         else st)
      in if tbit (bm_init (core st1)) (s_owner (slot (core st1) i)) then st1\<lparr>total_slots := total_slots st1 + 1\<rparr>
         else upd_core (upd_slot i (\<lambda>x. x\<lparr>s_flags := set_bit BIT_SLOT_PARTITION (s_flags x)\<rparr>)) st1)"

definition part_rest :: "mb_env \<Rightarrow> mb_st \<Rightarrow> mb_st \<times> sl_res" where
  "part_rest E st =
    (let st1 = fold (part_slot E) [0 .. sl_slots E - 1] (st\<lparr>total_slots := 0\<rparr>);
         st2 = new_high_water (upd_core (\<lambda>c. c\<lparr>init_nodes := get_init_nodes (mb_sl E) c\<rparr>) st1) in
     case primary_sts_mcast E st2 of
       (st3, Ret r) \<Rightarrow>
         let st4 = forget_requests st3 in
         if owned_slots (core st4) \<noteq> 0 then (st4, Ret OK)
         else if init_nodes (core st4) > 1 then rqst_again E st4
         else (st4, Ret EMOLNOREPLICA)
     | other \<Rightarrow> other)"

definition sp_net_partition :: "mb_env \<Rightarrow> mb_st \<Rightarrow> mb_st \<times> sl_res" where
  "sp_net_partition E st =
    (let st1 = upd_core (\<lambda>c. c\<lparr>bm_init := bm_init c AND bm_active st, bm_waitsts := bm_waitsts c AND bm_active st\<rparr>) st in
     if FSM_state (core st1) = STS_WAIT_STATUS
     then (st1, Ret (if bm_init (core st1) = 0 then EMOLNOREPLICA else OK))
     else
      let st2 = (if FSM_state (core st1) = STS_MERGE_STATUS
                 then upd_core (\<lambda>c. c\<lparr>FSM_state := STS_RUNNING\<rparr>) st1 else st1) in
      if \<not> tbit (bm_init (core st2)) (primary_mbr st2) then
        let st3 = st2\<lparr>primary_mbr := get_primary_mbr (mb_sl E) (core st2)\<rparr> in
        if primary_mbr st3 \<noteq> NO_PRIMARY_MBR then (restart st3, Ret OK) else part_rest E st3
      else part_rest E st2)"

section \<open>What the loops do to the table\<close>

lemma upd_core_sel [simp]:
  "core (upd_core f st) = f (core st)" "primary_mbr (upd_core f st) = primary_mbr st"
  "active_nodes (upd_core f st) = active_nodes st" "total_slots (upd_core f st) = total_slots st"
  "pt_endpoint (upd_core f st) = pt_endpoint st" "pt_nodeid (upd_core f st) = pt_nodeid st"
  "waitsts_mbr (upd_core f st) = waitsts_mbr st" "bm_active (upd_core f st) = bm_active st"
  by (simp_all add: upd_core_def)

lemma spread_sel [simp]: "core (spread cs st) = core st" "primary_mbr (spread cs st) = primary_mbr st"
  by (simp_all add: spread_def)

lemma kernel_call_sel [simp]:
  "slot (core (fst (kernel_call f st))) = slot (core st)" "lnode (fst (kernel_call f st)) = lnode st"
  "primary_mbr (fst (kernel_call f st)) = primary_mbr st" "owned_slots (core (fst (kernel_call f st))) = owned_slots (core st)"
  "bm_init (core (fst (kernel_call f st))) = bm_init (core st)" "total_slots (fst (kernel_call f st)) = total_slots st"
  by (auto simp: kernel_call_def split: prod.split)

definition disc_owner :: "int \<Rightarrow> int \<Rightarrow> int \<Rightarrow> slot_t \<Rightarrow> int" where
  "disc_owner me prim d x =
    (if s_owner x \<noteq> d then s_owner x else if bit (s_flags x) BIT_SLOT_DONATING then me else prim)"

lemma disc_slot_table:
  "slot (core (fst (disc_slot E d i st))) =
     (slot (core st))(i := (slot (core st) i)\<lparr>s_owner := disc_owner (lnode st) (primary_mbr st) d (slot (core st) i)\<rparr>)"
  "lnode (fst (disc_slot E d i st)) = lnode st" "primary_mbr (fst (disc_slot E d i st)) = primary_mbr st"
proof -
  show "slot (core (fst (disc_slot E d i st))) =
     (slot (core st))(i := (slot (core st) i)\<lparr>s_owner := disc_owner (lnode st) (primary_mbr st) d (slot (core st) i)\<rparr>)"
    by (simp add: disc_slot_def disc_owner_def Let_def case_prod_beta)
  show "lnode (fst (disc_slot E d i st)) = lnode st" "primary_mbr (fst (disc_slot E d i st)) = primary_mbr st"
    by (simp_all add: disc_slot_def Let_def case_prod_beta)
qed

lemma loop_untilD:
  assumes "loop_until f is st = (st', None)" "P st"
    and "\<And>i st. i \<in> set is \<Longrightarrow> P st \<Longrightarrow> P (fst (f i st))"
  shows "P st'"
  using assms by (induction f "is" st rule: loop_until.induct) (fastforce split: prod.splits option.splits)+

lemma disc_loop:
  assumes "loop_until (disc_slot E d) is st = (st', None)" "distinct is"
  shows "lnode st' = lnode st" "primary_mbr st' = primary_mbr st"
    "s_owner (slot (core st') j) = (if j \<in> set is then disc_owner (lnode st) (primary_mbr st) d (slot (core st) j)
       else s_owner (slot (core st) j))"
proof -
  have "lnode st' = lnode st \<and> primary_mbr st' = primary_mbr st \<and>
    s_owner (slot (core st') j) = (if j \<in> set is then disc_owner (lnode st) (primary_mbr st) d (slot (core st) j)
       else s_owner (slot (core st) j))"
    using assms
  proof (induction "is" arbitrary: st)
    case (Cons i "is")
    obtain st1 r where b: "disc_slot E d i st = (st1, r)" by (rule prod.exhaust)
    have r: "loop_until (disc_slot E d) is st1 = (st', None)" using Cons.prems(1) b by (auto split: option.splits)
    note t = disc_slot_table [of E d i st, unfolded b fst_conv]
    show ?case using Cons.IH [OF r] Cons.prems(2) t by auto
  qed simp
  then show "lnode st' = lnode st" "primary_mbr st' = primary_mbr st"
    "s_owner (slot (core st') j) = (if j \<in> set is then disc_owner (lnode st) (primary_mbr st) d (slot (core st) j)
       else s_owner (slot (core st) j))" by blast+
qed

lemma mcast_status_user:
  "sl_sysprocs E \<le> j \<Longrightarrow> slot (core (fst (mcast_status_info E dest t tab st))) j = slot (core st) j"
  by (simp add: mcast_status_info_def Let_def)

lemma primary_sts_user:
  "sl_sysprocs E \<le> j \<Longrightarrow> slot (core (fst (primary_sts_mcast E st))) j = slot (core st) j"
  using mcast_status_user [of E j]
  by (auto simp: primary_sts_mcast_def Let_def case_prod_beta split: option.split)

lemma new_rqst_slots_slot: "slot (fst (new_rqst_slots E k c)) = slot c"
  by (simp add: new_rqst_slots_def mcast_rqst_slots_def SP_multicast_def Let_def)

lemma rqst_again_slot: "slot (core (fst (rqst_again E st))) = slot (core st)"
  using new_rqst_slots_slot [of "mb_sl E" "min_owned_slots (core st)" "(core st)\<lparr>outbox := []\<rparr>"]
  by (simp add: rqst_again_def lift_core_def case_prod_beta)

lemma end_of_view_user:
  assumes "sl_sysprocs E \<le> j"
  shows "slot (core (fst (end_of_view E st))) j = slot (core st) j"
proof -
  obtain st1 r where p: "primary_sts_mcast E st = (st1, r)" by (rule prod.exhaust)
  show ?thesis using primary_sts_user [OF assms, of st] p
    by (cases r) (simp_all add: end_of_view_def rqst_again_slot forget_requests_def)
qed

text \<open>What the handlers rely on of the kernel module: an unbind returns \<open>OK\<close> or a negative code, and a descriptor
  keeps its endpoint.\<close>

definition kernel_ok :: "mb_env \<Rightarrow> bool" where
  "kernel_ok E \<longleftrightarrow> (\<forall>ep t. snd (mnx_unbind E ep t) \<le> 0 \<and> snd (snd (fst (mnx_unbind E ep t))) = snd (snd t))"

definition in_place :: "mb_env \<Rightarrow> mb_st \<Rightarrow> bool" where
  "in_place E st \<longleftrightarrow> (\<forall>i. 0 \<le> i \<longrightarrow> i < sl_sysprocs E \<longrightarrow> ENDPOINT_P (pt_endpoint st i) + sl_nr_tasks (mb_sl E) = i)"

lemma kernel_unbind:
  assumes "kernel_ok E"
  shows "snd (kernel_call (mnx_unbind E ep) st) \<le> 0" "pt_endpoint (fst (kernel_call (mnx_unbind E ep) st)) = pt_endpoint st"
proof -
  let ?t = "(pt_flags (core st), pt_nodeid st, pt_endpoint st)"
  obtain fl nd en r where u: "mnx_unbind E ep ?t = ((fl, nd, en), r)" by (metis prod.exhaust)
  have "r \<le> 0" "en = pt_endpoint st"
    using assms [unfolded kernel_ok_def, rule_format, of ep ?t] unfolding u by simp_all
  then show "snd (kernel_call (mnx_unbind E ep) st) \<le> 0" "pt_endpoint (fst (kernel_call (mnx_unbind E ep) st)) = pt_endpoint st"
    by (simp_all add: kernel_call_def u)
qed

lemma disc_slot_endpoint: "kernel_ok E \<Longrightarrow> pt_endpoint (fst (disc_slot E d i st)) = pt_endpoint st"
  by (simp add: disc_slot_def Let_def case_prod_beta kernel_unbind)

lemma disc_sysproc_user:
  assumes "kernel_ok E" "in_place E st" "0 \<le> i" "i < sl_sysprocs E"
  shows "in_place E (fst (disc_sysproc E d i st))"
    "sl_sysprocs E \<le> j \<Longrightarrow> slot (core (fst (disc_sysproc E d i st))) j = slot (core st) j"
proof -
  have e: "ENDPOINT_P (pt_endpoint st i) + sl_nr_tasks (mb_sl E) = i" using assms(2-4) unfolding in_place_def by blast
  show "in_place E (fst (disc_sysproc E d i st))"
    using assms(2) kernel_unbind(2) [OF assms(1)]
    by (simp add: disc_sysproc_def unbind_rmt_sysproc_def case_prod_beta in_place_def)
  show "sl_sysprocs E \<le> j \<Longrightarrow> slot (core (fst (disc_sysproc E d i st))) j = slot (core st) j"
    using e assms(4) by (simp add: disc_sysproc_def unbind_rmt_sysproc_def case_prod_beta)
qed

lemma loop_until_Some:
  "loop_until f is st = (st', Some q) \<Longrightarrow> \<exists>i st0 st1. f i st0 = (st1, Some q)"
  by (induction f "is" st rule: loop_until.induct) (auto split: prod.splits option.splits)

lemma disc_slot_fails:
  assumes "kernel_ok E" "disc_slot E d i st = (st', Some q)"
  shows "q = Abort \<or> (\<exists>c<0. q = Ret c)"
proof -
  have "snd (disc_slot E d i st) = Some q" using assms(2) by simp
  then show ?thesis using kernel_unbind(1) [OF assms(1)]
    by (auto simp: disc_slot_def Let_def case_prod_beta order_less_le split: if_splits)
qed

lemma disc_sysproc_ok: "snd (disc_sysproc E d i st) = None"
  by (simp add: disc_sysproc_def unbind_rmt_sysproc_def case_prod_beta)

lemma new_high_water_sel [simp]: "slot (core (new_high_water st)) = slot (core st)" "lnode (new_high_water st) = lnode st"
  "primary_mbr (new_high_water st) = primary_mbr st" "pt_endpoint (new_high_water st) = pt_endpoint st"
  by (simp_all add: new_high_water_def)

text \<open>The table after a departure.\<close>

lemma disc_slots_table:
  assumes k: "kernel_ok E" "in_place E st" and d: "disc_slots E d st = (st', Ret r)" "0 \<le> r"
    and j: "sl_sysprocs E \<le> j" "j < sl_slots E"
  shows "s_owner (slot (core st') j) = disc_owner (lnode st) (primary_mbr st) d (slot (core st) j)"
proof -
  obtain st1 q where l1: "loop_until (disc_slot E d) [sl_sysprocs E .. sl_slots E - 1] (new_high_water st) = (st1, q)"
    by (rule prod.exhaust)
  have q: "q = None"
  proof (cases q)
    case (Some x)
    then have "x = Ret r" using d(1) l1 by (simp add: disc_slots_def)
    then show ?thesis using loop_until_Some [OF l1 [unfolded Some]] disc_slot_fails [OF k(1)] d(2) by fastforce
  qed
  have o: "s_owner (slot (core st1) j) = disc_owner (lnode st) (primary_mbr st) d (slot (core st) j)"
    using disc_loop(3) [OF l1 [unfolded q], of j] j by simp
  have ip: "in_place E st1" using loop_untilD [OF l1 [unfolded q], of "in_place E"] k
    by (simp add: in_place_def disc_slot_endpoint)
  obtain st2 q2 where l2: "loop_until (disc_sysproc E d) [0 .. sl_sysprocs E - 1] st1 = (st2, q2)" by (rule prod.exhaust)
  have q2: "q2 = None" using loop_until_Some [of "disc_sysproc E d" _ st1 st2] disc_sysproc_ok l2
    by (cases q2) (auto, metis option.discI snd_conv)
  have "in_place E st2 \<and> slot (core st2) j = slot (core st1) j"
    by (rule loop_untilD [OF l2 [unfolded q2], of "\<lambda>x. in_place E x \<and> slot (core x) j = slot (core st1) j"])
      (use ip disc_sysproc_user [OF k(1)] j(1) in auto)
  moreover have "st' = st1 \<or> st' = fst (end_of_view E st2)"
    using d(1) l1 l2 unfolding disc_slots_def q q2 by (auto split: if_splits)
  ultimately show ?thesis using end_of_view_user [OF j(1), of st2] o by auto
qed

definition new_primary :: "mb_env \<Rightarrow> int \<Rightarrow> mb_st \<Rightarrow> int" where
  "new_primary E d st = (if primary_mbr st = d
     then get_primary_mbr (mb_sl E) (core (leave_maps d st)) else primary_mbr st)"

lemma leave_maps_sel [simp]: "slot (core (leave_maps d st)) = slot (core st)" "lnode (leave_maps d st) = lnode st"
  "primary_mbr (leave_maps d st) = primary_mbr st" "pt_endpoint (leave_maps d st) = pt_endpoint st"
  "bm_init (core (leave_maps d st)) = cbit (bm_init (core st)) d"
  by (simp_all add: leave_maps_def)

definition survives :: "mb_env \<Rightarrow> int \<Rightarrow> mb_st \<Rightarrow> bool" where
  "survives E d st \<longleftrightarrow> lnode st \<noteq> d \<and> 0 \<le> lnode st \<and> lnode st < sl_nr_nodes (mb_sl E) \<and> sl_nr_nodes (mb_sl E) \<le> 32
     \<and> 0 \<le> d \<and> d < 32 \<and> bit (bm_init (core st)) (nat (lnode st))
     \<and> bit (FSM_state (core st)) BIT_INITIALIZED \<and> \<not> bit (FSM_state (core st)) BIT_MERGING"

lemma new_primary_member:
  assumes "survives E d st"
  shows "new_primary E d st \<noteq> d" "primary_mbr st = d \<Longrightarrow> new_primary E d st \<noteq> NO_PRIMARY_MBR"
proof -
  let ?P = "\<lambda>i. bit (cbit (bm_init (core st)) d) (nat i)"
  have me: "?P (lnode st)" "lnode st \<in> set [0 .. sl_nr_nodes (mb_sl E) - 1]"
    using assms by (auto simp: survives_def cbit_def bit_unset_bit_iff nat_eq_iff)
  then obtain i where i: "find ?P [0 .. sl_nr_nodes (mb_sl E) - 1] = Some i"
    by (meson find_None_iff not_None_eq)
  have nd: "\<not> ?P d" using assms by (simp add: survives_def cbit_def bit_unset_bit_iff)
  have "0 \<le> i" "?P i" using find_SomeD [OF i] by auto
  then show "new_primary E d st \<noteq> d" "primary_mbr st = d \<Longrightarrow> new_primary E d st \<noteq> NO_PRIMARY_MBR"
    using i nd by (auto simp: new_primary_def get_primary_mbr_def)
qed

lemma sp_disconnect_table:
  assumes s: "survives E d st" and k: "kernel_ok E" "in_place E st"
    and d: "sp_disconnect E d st = (st', Ret r)" "0 \<le> r" and j: "sl_sysprocs E \<le> j" "j < sl_slots E"
  shows "s_owner (slot (core st') j) = disc_owner (lnode st) (new_primary E d st) d (slot (core st) j)"
proof -
  let ?st1 = "leave_maps d st"
  let ?st2 = "if primary_mbr st = d then ?st1\<lparr>primary_mbr := get_primary_mbr (mb_sl E) (core ?st1)\<rparr> else ?st1"
  have p: "primary_mbr ?st2 = new_primary E d st" by (simp add: new_primary_def)
  have "disc_slots E d ?st2 = (st', Ret r)"
    using d(1) s new_primary_member(2) [OF s]
    by (auto simp: sp_disconnect_def survives_def Let_def new_primary_def split: if_splits)
  moreover have "in_place E ?st2" using k(2) by (simp add: in_place_def)
  ultimately have "s_owner (slot (core st') j) = disc_owner (lnode ?st2) (primary_mbr ?st2) d (slot (core ?st2) j)"
    using disc_slots_table [OF k(1)] d(2) j by blast
  then show ?thesis unfolding p by simp
qed


section \<open>Slots that are taken back\<close>

lemma part_slot_user:
  "lnode (part_slot E i st) = lnode st" "j \<noteq> i \<Longrightarrow> slot (core (part_slot E i st)) j = slot (core st) j"
  "sl_sysprocs E \<le> i \<Longrightarrow> s_owner (slot (core (part_slot E i st)) i) =
     (if bit (s_flags (slot (core st) i)) BIT_SLOT_DONATING then lnode st else s_owner (slot (core st) i))"
  by (simp_all add: part_slot_def Let_def)

lemma part_fold:
  assumes "distinct is"
  shows "lnode (fold (part_slot E) is st) = lnode st"
    "sl_sysprocs E \<le> j \<Longrightarrow> s_owner (slot (core (fold (part_slot E) is st)) j) =
      (if j \<in> set is \<and> bit (s_flags (slot (core st) j)) BIT_SLOT_DONATING then lnode st else s_owner (slot (core st) j))"
proof -
  have "lnode (fold (part_slot E) is st) = lnode st \<and> (sl_sysprocs E \<le> j \<longrightarrow>
      s_owner (slot (core (fold (part_slot E) is st)) j) = (if j \<in> set is \<and> bit (s_flags (slot (core st) j)) BIT_SLOT_DONATING
        then lnode st else s_owner (slot (core st) j)))"
    using assms
  proof (induction "is" arbitrary: st)
    case (Cons i "is")
    show ?case using Cons.IH [of "part_slot E i st"] Cons.prems part_slot_user(1,3) [of E i st] part_slot_user(2) [where i = i and j = j]
      by (cases "j = i") auto
  qed simp
  then show "lnode (fold (part_slot E) is st) = lnode st"
    "sl_sysprocs E \<le> j \<Longrightarrow> s_owner (slot (core (fold (part_slot E) is st)) j) =
      (if j \<in> set is \<and> bit (s_flags (slot (core st) j)) BIT_SLOT_DONATING then lnode st else s_owner (slot (core st) j))"
    by blast+
qed

text \<open>The partition in which the primary member is keeps its table, but for the donations it takes back.\<close>

lemma sp_net_partition_table:
  assumes "FSM_state (core st) \<noteq> STS_WAIT_STATUS" "tbit (bm_init (core st) AND bm_active st) (primary_mbr st)"
    and j: "0 \<le> j" "sl_sysprocs E \<le> j" "j < sl_slots E"
  shows "s_owner (slot (core (fst (sp_net_partition E st))) j) =
    (if bit (s_flags (slot (core st) j)) BIT_SLOT_DONATING then lnode st else s_owner (slot (core st) j))"
proof -
  let ?st1 = "upd_core (\<lambda>c. c\<lparr>bm_init := bm_init c AND bm_active st, bm_waitsts := bm_waitsts c AND bm_active st\<rparr>) st"
  let ?st2 = "if FSM_state (core ?st1) = STS_MERGE_STATUS then upd_core (\<lambda>c. c\<lparr>FSM_state := STS_RUNNING\<rparr>) ?st1 else ?st1"
  let ?st3 = "fold (part_slot E) [0 .. sl_slots E - 1] (?st2\<lparr>total_slots := 0\<rparr>)"
  let ?st4 = "new_high_water (upd_core (\<lambda>c. c\<lparr>init_nodes := get_init_nodes (mb_sl E) c\<rparr>) ?st3)"
  have "sp_net_partition E st = part_rest E ?st2" using assms(1,2) by (simp add: sp_net_partition_def Let_def)
  moreover have "slot (core (fst (part_rest E ?st2))) j = slot (core ?st4) j"
  proof -
    obtain st5 r where p: "primary_sts_mcast E ?st4 = (st5, r)" by (rule prod.exhaust)
    show ?thesis using primary_sts_user [OF j(2), of ?st4] p unfolding part_rest_def Let_def
      by (cases r) (simp_all add: rqst_again_slot forget_requests_def)
  qed
  ultimately show ?thesis using part_fold(2) [OF _ j(2), of "[0 .. sl_slots E - 1]" "?st2\<lparr>total_slots := 0\<rparr>"] j
    by simp
qed

text \<open>C34: A slot whose donating mark was left behind gets two owners when the network splits: the donor and the node it
  gave the slot to, on the same side of the split with the primary member, both handle the partition, and afterwards
  each of them has the slot for its own.\<close>

lemma partition_two_owners:
  assumes "FSM_state (core a) \<noteq> STS_WAIT_STATUS" "tbit (bm_init (core a) AND bm_active a) (primary_mbr a)"
    and "FSM_state (core b) \<noteq> STS_WAIT_STATUS" "tbit (bm_init (core b) AND bm_active b) (primary_mbr b)"
    and "0 \<le> j" "sl_nr_sysprocs (mb_sl E) \<le> j" "j < sl_nr_tasks (mb_sl E) + sl_nr_procs (mb_sl E)"
    and "bit (s_flags (slot (core a) j)) BIT_SLOT_DONATING" "s_owner (slot (core b) j) = sl_nodeid (core b)"
  shows "s_owner (slot (core (fst (sp_net_partition E a))) j) = sl_nodeid (core a)
    \<and> s_owner (slot (core (fst (sp_net_partition E b))) j) = sl_nodeid (core b)"
  using sp_net_partition_table [OF assms(1,2,5-7)] sp_net_partition_table [OF assms(3-7)] assms(8,9) by simp

section \<open>Nodes of the examples\<close>

definition mb_scn_env :: mb_env where
  "mb_scn_env = \<lparr>mb_sl = sl_scn_env, mb_mem = True, mnx_unbind = (\<lambda>ep t. (t, 0)), mnx_migr_start = (\<lambda>ep t. (t, 0))\<rparr>"

definition mb_scn :: "sl_st \<Rightarrow> mb_st" where
  "mb_scn c = \<lparr>core = c, primary_mbr = 0, waitsts_mbr = 0, active_nodes = 2, total_slots = 6, bm_active = 3,
     slot_merge = slot c, bm_waitsts_mrg = 0, bm_init_mrg = 0, pt_nodeid = (\<lambda>i. 0), pt_endpoint = (\<lambda>i. i - 34),
     sent = []\<rparr>"

lemma scn_kernel: "kernel_ok mb_scn_env" "in_place mb_scn_env (mb_scn c)"
  by (simp_all add: kernel_ok_def in_place_def mb_scn_env_def mb_scn_def sl_scn_env_def ENDPOINT_P_def)

lemma scn_survives: "n = 0 \<or> n = 1 \<Longrightarrow> survives mb_scn_env 2 (mb_scn (sl_scn n))"
  by (auto simp: survives_def mb_scn_env_def mb_scn_def sl_scn_def sl_scn_env_def)

lemma loop_until_skip: "(\<And>i. i \<in> set is \<Longrightarrow> f i st = (st, None)) \<Longrightarrow> loop_until f is st = (st, None)"
  by (induction "is") auto

lemma scn_disc_slots: "\<exists>st. loop_until (disc_slot mb_scn_env 2) [64 .. 69] (new_high_water (leave_maps 2 (mb_scn (sl_scn n)))) = (st, None)
    \<and> FSM_state (core st) = STS_RUNNING \<and> pt_nodeid st = (\<lambda>i. 0) \<and> primary_mbr st = 0 \<and> waitsts_mbr st = 0
    \<and> bm_waitsts (core st) = 0 \<and> bm_donors (core st) = 0 \<and> owned_slots (core st) \<noteq> 0 \<and> lnode st = n"
  by (simp add: upto_rec1 disc_slot_def new_high_water_def leave_maps_def mb_scn_def sl_scn_def mb_scn_env_def Let_def
    upd_core_def upd_slot_def cbit_def)

lemma scn_disconnect:
  assumes "n = 0 \<or> n = 1"
  shows "\<exists>st. sp_disconnect mb_scn_env 2 (mb_scn (sl_scn n)) = (st, Ret OK)"
proof -
  obtain st where l: "loop_until (disc_slot mb_scn_env 2) [64 .. 69] (new_high_water (leave_maps 2 (mb_scn (sl_scn n)))) = (st, None)"
    and f: "FSM_state (core st) = STS_RUNNING" "pt_nodeid st = (\<lambda>i. 0)" "primary_mbr st = 0" "waitsts_mbr st = 0"
      "bm_waitsts (core st) = 0" "bm_donors (core st) = 0" "owned_slots (core st) \<noteq> 0" "lnode st = n"
    using scn_disc_slots by blast
  have e: "sl_sysprocs mb_scn_env = 64" "sl_slots mb_scn_env - 1 = 69" by (simp_all add: mb_scn_env_def sl_scn_env_def)
  have l2: "loop_until (disc_sysproc mb_scn_env 2) [0 .. 63] st = (st, None)"
    by (rule loop_until_skip) (simp add: disc_sysproc_def f)
  have v: "\<exists>st'. end_of_view mb_scn_env st = (st', Ret OK)"
    using f by (auto simp: end_of_view_def primary_sts_mcast_def get_next_mbr_def rqst_again_def lift_core_def
      new_rqst_slots_def forget_requests_def)
  have "sp_disconnect mb_scn_env 2 (mb_scn (sl_scn n)) = disc_slots mb_scn_env 2 (leave_maps 2 (mb_scn (sl_scn n)))"
    using assms by (auto simp: sp_disconnect_def mb_scn_def sl_scn_def leave_maps_def)
  then show ?thesis using l l2 v f(1) e by (simp add: disc_slots_def)
qed


text \<open>Node 0 gives node 1 four slots; both handle the donation; the second slot is still marked at node 0.\<close>

definition scn_traffic :: "int \<Rightarrow> sl_st" where
  "scn_traffic n = fst (sp_don_slots sl_scn_env 0 1 4 [64, 65, 66, 67] (fst (sp_req_slots sl_scn_env 1 63 (sl_scn n))))"

lemma scn_donor: "sl_nodeid (scn_traffic 0) = 0" "s_owner (slot (scn_traffic 0) 65) = 1"
  "bit (s_flags (slot (scn_traffic 0) 65)) BIT_SLOT_DONATING" "FSM_state (scn_traffic 0) = STS_RUNNING" "bm_init (scn_traffic 0) = 7"
  by (simp_all add: scn_traffic_def sp_don_slots_def sp_req_slots_def reply_rqst_def send_donation_def offered_def CEILING_def
    sl_scn_def sl_scn_env_def SP_multicast_def upto_rec1 donatable_def donate_def Let_def upd_slot_def bit_set_bit_iff)

lemma scn_taker: "sl_nodeid (scn_traffic 1) = 1" "s_owner (slot (scn_traffic 1) 65) = 1"
  "FSM_state (scn_traffic 1) = STS_RUNNING" "bm_init (scn_traffic 1) = 7"
  by (simp_all add: scn_traffic_def sp_don_slots_def sp_req_slots_def take_donation_def new_rqst_slots_def
    sl_scn_def sl_scn_env_def Let_def upd_slot_def)

lemma partition_two_owners_witness:
  "s_owner (slot (core (fst (sp_net_partition mb_scn_env (mb_scn (scn_traffic 0))))) 65) = 0
    \<and> s_owner (slot (core (fst (sp_net_partition mb_scn_env (mb_scn (scn_traffic 1))))) 65) = 1"
proof -
  have "tbit (7 AND 3) 0" by (simp add: tbit_def)
  then show ?thesis
    using partition_two_owners [of "mb_scn (scn_traffic 0)" "mb_scn (scn_traffic 1)" 65 mb_scn_env] scn_donor scn_taker
    by (simp add: mb_scn_def mb_scn_env_def sl_scn_env_def)
qed

end
