(* ===== verification/Fs_Cache.thy ===== *)
theory Fs_Cache
  imports Prelude "HOL-Library.Multiset"
begin

text \<open>
  The buffer cache of the file server (\<open>src/servers/fs/cache.c\<close>, \<open>buf.h\<close>, \<open>buf_pool\<close> of \<open>main.c\<close>): buffers linked by their number
  into one LRU chain with both links and into hash chains.  A block is a function from offsets to bytes.  The devices are part of
  the state; whether a transfer succeeds is a parameter (record \<open>io_env\<close>), and a block that was not transferred stays
  as it was.  The walks along hash chains are partial functions; \<open>None\<close> also stands for the end of the server (\<open>panic\<close>, a null
  pointer).  The second level cache is switched off in the build.
\<close>

section \<open>State\<close>

type_synonym bufno = nat
type_synonym block = "nat \<Rightarrow> 8 word"

definition NR_BUFS :: nat where "NR_BUFS = 1200"
definition NR_BUF_HASH :: nat where "NR_BUF_HASH = 2048"
definition NR_IOREQS :: nat where "NR_IOREQS = 64"

record bufr =
  b_data :: block
  b_next :: "bufno option"
  b_prev :: "bufno option"
  b_hash :: "bufno option"
  b_blocknr :: int
  b_dev :: int
  b_dirt :: bool
  b_count :: int

record cache =
  bufs :: "bufno \<Rightarrow> bufr"
  buf_hash :: "nat \<Rightarrow> bufno option"
  lru_front :: "bufno option"
  lru_rear :: "bufno option"
  bufs_in_use :: int
  rdwt_err :: int
  disk :: "int \<Rightarrow> int \<Rightarrow> block"

text \<open>\<open>io_rw\<close> is what \<open>dev_io\<close> returns for one block (written or not, device, block); \<open>io_vec\<close> how many blocks of a vector
  (device, first block, length) were transferred and what \<open>dev_io\<close> returned; \<open>io_now\<close> is what \<open>clock_time\<close> returns.\<close>

record io_env =
  io_bsize :: "int \<Rightarrow> nat"
  io_rw :: "bool \<Rightarrow> int \<Rightarrow> int \<Rightarrow> int"
  io_vec :: "bool \<Rightarrow> int \<Rightarrow> int \<Rightarrow> nat \<Rightarrow> nat \<times> int"
  io_now :: int

abbreviation (input) "NO_DEV \<equiv> 0 :: int"
abbreviation (input) "NO_BLOCK \<equiv> 0 :: int"
abbreviation (input) "DEV_RAM \<equiv> 256 :: int"
abbreviation (input) "END_OF_FILE \<equiv> - 104 :: int"
abbreviation (input) "BIT_WRITE_IMMED \<equiv> 6 :: nat"
abbreviation (input) "BIT_ONE_SHOT \<equiv> 7 :: nat"
abbreviation (input) "INDIRECT_BLOCK \<equiv> 2 :: int"
abbreviation (input) "MAP_BLOCK \<equiv> 3 :: int"
abbreviation (input) "FULL_DATA_BLOCK \<equiv> 5 :: int"
abbreviation (input) "PARTIAL_DATA_BLOCK \<equiv> 6 :: int"
abbreviation (input) "NORMAL \<equiv> 0 :: int"
abbreviation (input) "NO_READ \<equiv> 1 :: int"
abbreviation (input) "PREFETCH \<equiv> 2 :: int"
abbreviation (input) "READING \<equiv> False"
abbreviation (input) "WRITING \<equiv> True"

definition upd_buf :: "bufno \<Rightarrow> (bufr \<Rightarrow> bufr) \<Rightarrow> cache \<Rightarrow> cache" where
  "upd_buf n f st = st\<lparr>bufs := (bufs st)(n := f (bufs st n))\<rparr>"

definition hash_of :: "int \<Rightarrow> nat" where
  "hash_of b = nat (b mod int NR_BUF_HASH)"

text \<open>The pool of \<open>buf_pool\<close>: all buffers are free, on the LRU chain and on hash chain 0.\<close>

definition buf_pool :: "cache \<Rightarrow> cache" where
  "buf_pool st = st\<lparr>bufs_in_use := 0, lru_front := Some 0, lru_rear := Some (NR_BUFS - 1),
     bufs := (\<lambda>i. if i < NR_BUFS then
         (bufs st i)\<lparr>b_blocknr := NO_BLOCK, b_dev := NO_DEV, b_next := if i = NR_BUFS - 1 then None else Some (i + 1),
           b_prev := if i = 0 then None else Some (i - 1), b_hash := if i = NR_BUFS - 1 then None else Some (i + 1)\<rparr>
       else bufs st i),
     buf_hash := (buf_hash st)(0 := Some 0)\<rparr>"

section \<open>Transfers\<close>

definition write_out :: "io_env \<Rightarrow> bufno \<Rightarrow> cache \<Rightarrow> cache" where
  "write_out E n st =
    (let x = bufs st n; d = disk st (b_dev x) (b_blocknr x) in
     st\<lparr>disk := (disk st)(b_dev x := (disk st (b_dev x))(b_blocknr x := (\<lambda>k. if k < io_bsize E (b_dev x) then b_data x k else d k)))\<rparr>)"

definition read_in :: "io_env \<Rightarrow> int \<Rightarrow> bufno \<Rightarrow> cache \<Rightarrow> cache" where
  "read_in E dev n st =
    upd_buf n (\<lambda>x. x\<lparr>b_data := (\<lambda>k. if k < io_bsize E dev then disk st dev (b_blocknr x) k else b_data x k)\<rparr>) st"

text \<open>Both callers make sure that the buffer has a device.\<close>

definition rw_block :: "io_env \<Rightarrow> bool \<Rightarrow> bufno \<Rightarrow> cache \<Rightarrow> cache" where
  "rw_block E writing n st =
    (let x = bufs st n; r = io_rw E writing (b_dev x) (b_blocknr x);
         st1 = (if r = int (io_bsize E (b_dev x)) then (if writing then write_out E n st else read_in E (b_dev x) n st)
                else
                  let s = upd_buf n (\<lambda>x. x\<lparr>b_dev := NO_DEV\<rparr>) st
                  in if writing then s else s\<lparr>rdwt_err := if r \<ge> 0 then END_OF_FILE else r\<rparr>)
     in upd_buf n (\<lambda>x. x\<lparr>b_dirt := False\<rparr>) st1)"

section \<open>The LRU chain\<close>

definition rm_lru :: "bufno \<Rightarrow> cache \<Rightarrow> cache" where
  "rm_lru n st =
    (let nxt = b_next (bufs st n); prv = b_prev (bufs st n); st0 = st\<lparr>bufs_in_use := bufs_in_use st + 1\<rparr>;
         st1 = (case prv of Some p \<Rightarrow> upd_buf p (\<lambda>x. x\<lparr>b_next := nxt\<rparr>) st0 | None \<Rightarrow> st0\<lparr>lru_front := nxt\<rparr>)
     in case nxt of Some q \<Rightarrow> upd_buf q (\<lambda>x. x\<lparr>b_prev := prv\<rparr>) st1 | None \<Rightarrow> st1\<lparr>lru_rear := prv\<rparr>)"

definition put_front :: "bufno \<Rightarrow> cache \<Rightarrow> cache" where
  "put_front n st =
    (let st1 = upd_buf n (\<lambda>x. x\<lparr>b_prev := None, b_next := lru_front st\<rparr>) st;
         st2 = (case lru_front st of None \<Rightarrow> st1\<lparr>lru_rear := Some n\<rparr> | Some f \<Rightarrow> upd_buf f (\<lambda>x. x\<lparr>b_prev := Some n\<rparr>) st1)
     in st2\<lparr>lru_front := Some n\<rparr>)"

definition put_rear :: "bufno \<Rightarrow> cache \<Rightarrow> cache" where
  "put_rear n st =
    (let st1 = upd_buf n (\<lambda>x. x\<lparr>b_prev := lru_rear st, b_next := None\<rparr>) st;
         st2 = (case lru_rear st of None \<Rightarrow> st1\<lparr>lru_front := Some n\<rparr> | Some r \<Rightarrow> upd_buf r (\<lambda>x. x\<lparr>b_next := Some n\<rparr>) st1)
     in st2\<lparr>lru_rear := Some n\<rparr>)"

definition put_block :: "io_env \<Rightarrow> bufno option \<Rightarrow> int \<Rightarrow> cache \<Rightarrow> cache" where
  "put_block E bp block_type st =
    (case bp of None \<Rightarrow> st
     | Some n \<Rightarrow>
       let st1 = upd_buf n (\<lambda>x. x\<lparr>b_count := b_count x - 1\<rparr>) st in
       if b_count (bufs st1 n) \<noteq> 0 then st1
       else
        let st2 = st1\<lparr>bufs_in_use := bufs_in_use st1 - 1\<rparr>;
            st3 = (if b_dev (bufs st2 n) = DEV_RAM \<or> bit block_type BIT_ONE_SHOT then put_front n st2 else put_rear n st2) in
        if bit block_type BIT_WRITE_IMMED \<and> b_dirt (bufs st3 n) \<and> b_dev (bufs st3 n) \<noteq> NO_DEV
        then rw_block E WRITING n st3 else st3)"

section \<open>Flushing\<close>

text \<open>The Shell sort of \<open>rw_scattered\<close>: \<open>r\<close> is the index of the right element of the comparison.\<close>

function first_gap :: "nat \<Rightarrow> nat \<Rightarrow> nat" where
  "first_gap sz gap = (if 3 * gap + 1 \<le> sz then first_gap sz (3 * gap + 1) else 3 * gap + 1)"
  by auto
termination by (relation "measure (\<lambda>(sz, gap). sz - gap)") auto

function sift :: "(bufno \<Rightarrow> int) \<Rightarrow> nat \<Rightarrow> nat \<Rightarrow> bufno list \<Rightarrow> bufno list" where
  "sift key gap r q =
    (if 0 < gap \<and> gap \<le> r \<and> key (q ! (r - gap)) > key (q ! r)
     then sift key gap (r - gap) (q[r - gap := q ! r, r := q ! (r - gap)]) else q)"
  by auto
termination by (relation "measure (\<lambda>(key, gap, r, q). r)") auto

definition gap_pass :: "(bufno \<Rightarrow> int) \<Rightarrow> nat \<Rightarrow> bufno list \<Rightarrow> bufno list" where
  "gap_pass key gap q = foldl (\<lambda>q j. sift key gap j q) q [gap ..< length q]"

text \<open>The gaps are never 0, so that the loop over them ends at 1.\<close>

fun shell_loop :: "(bufno \<Rightarrow> int) \<Rightarrow> nat \<Rightarrow> bufno list \<Rightarrow> bufno list" where
  "shell_loop key gap q = (if gap \<le> 1 then q else shell_loop key (gap div 3) (gap_pass key (gap div 3) q))"

definition shell_sort :: "(bufno \<Rightarrow> int) \<Rightarrow> bufno list \<Rightarrow> bufno list" where
  "shell_sort key q = shell_loop key (first_gap (length q) 1) q"

declare first_gap.simps [simp del] sift.simps [simp del] shell_loop.simps [simp del]

text \<open>The length of the vector: the macro \<open>NR_IOREQS\<close> has no parentheses around its conditional, so that
  \<open>j < NR_IOREQS && j < bufqsize\<close> only tests \<open>j < bufqsize\<close>.  The array \<open>iovec\<close> has 64 entries: what becomes of a longer
  vector is up to the parameter \<open>io_vec\<close>.\<close>

fun vec_len :: "(bufno \<Rightarrow> int) \<Rightarrow> int \<Rightarrow> nat \<Rightarrow> bufno list \<Rightarrow> nat" where
  "vec_len key first j [] = j"
| "vec_len key first j (n # q) = (if key n \<noteq> first + int j then j else vec_len key first (j + 1) q)"

text \<open>A vector of which \<open>i\<close> blocks were transferred.\<close>

definition harvest :: "io_env \<Rightarrow> bool \<Rightarrow> int \<Rightarrow> int \<Rightarrow> bufno list \<Rightarrow> nat \<Rightarrow> nat \<Rightarrow> cache \<Rightarrow> cache" where
  "harvest E writing dev r q j i st =
    (let st1 = foldl (\<lambda>s n. if writing then upd_buf n (\<lambda>x. x\<lparr>b_dirt := False\<rparr>) (write_out E n s)
                 else put_block E (Some n) PARTIAL_DATA_BLOCK (upd_buf n (\<lambda>x. x\<lparr>b_dev := dev\<rparr>) (read_in E dev n s))) st (take i q)
     in if i = 0 \<and> r \<noteq> 0 \<and> 0 < j then upd_buf (hd q) (\<lambda>x. x\<lparr>b_dev := NO_DEV\<rparr>) st1 else st1)"

function rw_loop :: "io_env \<Rightarrow> bool \<Rightarrow> int \<Rightarrow> bufno list \<Rightarrow> cache \<Rightarrow> cache" where
  "rw_loop E writing dev q st =
    (if q = [] then st
     else
      let key = (\<lambda>n. b_blocknr (bufs st n)); first = key (hd q); j = vec_len key first 0 q;
          (d, r) = io_vec E writing dev first j; i = min d j; st1 = harvest E writing dev r q j i st in
      if \<not> writing then foldl (\<lambda>s n. put_block E (Some n) PARTIAL_DATA_BLOCK s) st1 (drop i q)
      else if i = 0 then st1
      else rw_loop E writing dev (drop i q) st1)"
  by pat_completeness auto
termination by (relation "measure (\<lambda>(E, w, dev, q, st). length q)") auto

declare rw_loop.simps [simp del]

definition rw_scattered :: "io_env \<Rightarrow> int \<Rightarrow> bufno list \<Rightarrow> bool \<Rightarrow> cache \<Rightarrow> cache" where
  "rw_scattered E dev q writing st = rw_loop E writing dev (shell_sort (\<lambda>n. b_blocknr (bufs st n)) q) st"

definition flushall :: "io_env \<Rightarrow> int \<Rightarrow> cache \<Rightarrow> cache" where
  "flushall E dev st =
    rw_scattered E dev (filter (\<lambda>n. b_dirt (bufs st n) \<and> b_dev (bufs st n) = dev) [0 ..< NR_BUFS]) WRITING st"

definition invalidate :: "int \<Rightarrow> cache \<Rightarrow> cache" where
  "invalidate dev st =
    st\<lparr>bufs := (\<lambda>i. if i < NR_BUFS \<and> b_dev (bufs st i) = dev then (bufs st i)\<lparr>b_dev := NO_DEV\<rparr> else bufs st i)\<rparr>"

section \<open>Getting a block\<close>

partial_function (option) hash_walk :: "int \<Rightarrow> int \<Rightarrow> cache \<Rightarrow> bufno option \<Rightarrow> bufno option option" where
  "hash_walk dev b st bp =
    (if bp = None then Some None
     else if b_blocknr (bufs st (the bp)) = b \<and> b_dev (bufs st (the bp)) = dev then Some bp
     else hash_walk dev b st (b_hash (bufs st (the bp))))"

partial_function (option) unhash_walk :: "bufno \<Rightarrow> cache \<Rightarrow> bufno option \<Rightarrow> cache option" where
  "unhash_walk n st prv =
    (if prv = None then None
     else if b_hash (bufs st (the prv)) = None then Some st
     else if b_hash (bufs st (the prv)) = Some n then Some (upd_buf (the prv) (\<lambda>x. x\<lparr>b_hash := b_hash (bufs st n)\<rparr>) st)
     else unhash_walk n st (b_hash (bufs st (the prv))))"

definition unhash :: "bufno \<Rightarrow> cache \<Rightarrow> cache option" where
  "unhash n st =
    (let h = hash_of (b_blocknr (bufs st n)) in
     if buf_hash st h = Some n then Some (st\<lparr>buf_hash := (buf_hash st)(h := b_hash (bufs st n))\<rparr>)
     else unhash_walk n st (buf_hash st h))"

definition fill_buf :: "int \<Rightarrow> int \<Rightarrow> bufno \<Rightarrow> cache \<Rightarrow> cache" where
  "fill_buf dev b n st =
    (let h = hash_of b in
     (upd_buf n (\<lambda>x. x\<lparr>b_dev := dev, b_blocknr := b, b_count := b_count x + 1, b_hash := buf_hash st h\<rparr>) st)
       \<lparr>buf_hash := (buf_hash st)(h := Some n)\<rparr>)"

definition take_buf :: "io_env \<Rightarrow> int \<Rightarrow> int \<Rightarrow> int \<Rightarrow> cache \<Rightarrow> (cache \<times> bufno) option" where
  "take_buf E dev b only_search st =
    (case lru_front st of None \<Rightarrow> None
     | Some n \<Rightarrow>
       (case unhash n (rm_lru n st) of None \<Rightarrow> None
        | Some st1 \<Rightarrow>
          let x = bufs st1 n; st2 = (if b_dev x \<noteq> NO_DEV \<and> b_dirt x then flushall E (b_dev x) st1 else st1);
              st3 = fill_buf dev b n st2 in
          Some (if dev = NO_DEV then st3
                else if only_search = PREFETCH then upd_buf n (\<lambda>x. x\<lparr>b_dev := NO_DEV\<rparr>) st3
                else if only_search = NORMAL then rw_block E READING n st3 else st3, n)))"

definition get_block :: "io_env \<Rightarrow> int \<Rightarrow> int \<Rightarrow> int \<Rightarrow> cache \<Rightarrow> (cache \<times> bufno) option" where
  "get_block E dev b only_search st =
    (case (if dev \<noteq> NO_DEV then hash_walk dev b st (buf_hash st (hash_of b)) else Some None) of None \<Rightarrow> None
     | Some (Some n) \<Rightarrow>
       let st1 = (if b_count (bufs st n) = 0 then rm_lru n st else st)
       in Some (upd_buf n (\<lambda>x. x\<lparr>b_count := b_count x + 1\<rparr>) st1, n)
     | Some None \<Rightarrow> take_buf E dev b only_search st)"

section \<open>Chains of buffers\<close>

definition hd_opt :: "'a list \<Rightarrow> 'a option" where
  "hd_opt xs = (case xs of [] \<Rightarrow> None | x # _ \<Rightarrow> Some x)"

definition last_opt :: "'a list \<Rightarrow> 'a option" where
  "last_opt xs = (if xs = [] then None else Some (last xs))"

lemma hd_opt_simps [simp]: "hd_opt [] = None" "hd_opt (x # xs) = Some x" "hd_opt xs = None \<longleftrightarrow> xs = []"
  by (auto simp: hd_opt_def split: list.split)

lemma last_opt_simps [simp]: "last_opt [] = None" "last_opt (xs @ [x]) = Some x" "last_opt xs = None \<longleftrightarrow> xs = []"
  by (auto simp: last_opt_def)

lemma last_opt_in: "last_opt xs = Some l \<Longrightarrow> l \<in> set xs"
  by (auto simp: last_opt_def split: if_splits)

lemma hd_opt_append: "hd_opt (xs @ ys) = (if xs = [] then hd_opt ys else hd_opt xs)"
  by (cases xs) auto

lemma last_opt_append: "last_opt (xs @ ys) = (if ys = [] then last_opt xs else last_opt ys)"
  by (simp add: last_opt_def)

lemma last_opt_Cons: "last_opt (x # xs) = (if xs = [] then Some x else last_opt xs)"
  by (simp add: last_opt_def)

fun dll :: "(bufno \<Rightarrow> bufr) \<Rightarrow> bufno option \<Rightarrow> bufno list \<Rightarrow> bufno option \<Rightarrow> bool" where
  "dll m p [] q \<longleftrightarrow> True"
| "dll m p (x # xs) q \<longleftrightarrow> b_prev (m x) = p \<and> b_next (m x) = (if xs = [] then q else hd_opt xs) \<and> dll m (Some x) xs q"

lemma dll_append:
  "dll m p (xs @ ys) q \<longleftrightarrow> dll m p xs (if ys = [] then q else hd_opt ys) \<and> dll m (if xs = [] then p else last_opt xs) ys q"
  by (induction xs arbitrary: p) (auto simp: hd_opt_append last_opt_Cons)

lemma dll_cong:
  "(\<And>n. n \<in> set xs \<Longrightarrow> b_prev (m' n) = b_prev (m n) \<and> b_next (m' n) = b_next (m n)) \<Longrightarrow> dll m' p xs q = dll m p xs q"
  by (induction xs arbitrary: p) auto

lemma dll_upd_other [simp]: "n \<notin> set xs \<Longrightarrow> dll (m(n := y)) p xs q = dll m p xs q"
  by (induction xs arbitrary: p) auto

lemma dll_new_next:
  "dll m p xs q \<Longrightarrow> distinct xs \<Longrightarrow> last_opt xs = Some l \<Longrightarrow> dll (m(l := (m l)\<lparr>b_next := q'\<rparr>)) p xs q'"
proof (induction xs arbitrary: p)
  case (Cons x xs)
  then show ?case by (cases "xs = []") (auto simp: last_opt_def)
qed simp

lemma dll_new_prev: "dll m p (x # xs) q \<Longrightarrow> x \<notin> set xs \<Longrightarrow> dll (m(x := (m x)\<lparr>b_prev := p'\<rparr>)) p' (x # xs) q"
  by auto

fun hchain :: "(bufno \<Rightarrow> bufr) \<Rightarrow> bufno option \<Rightarrow> bufno list \<Rightarrow> bool" where
  "hchain m p [] \<longleftrightarrow> p = None"
| "hchain m p (x # xs) \<longleftrightarrow> p = Some x \<and> hchain m (b_hash (m x)) xs"

lemma hchain_cong: "(\<And>n. n \<in> set xs \<Longrightarrow> b_hash (m' n) = b_hash (m n)) \<Longrightarrow> hchain m' p xs = hchain m p xs"
  by (induction xs arbitrary: p) auto

lemma hchain_hd: "hchain m p xs \<Longrightarrow> p = hd_opt xs"
  by (cases xs) auto

lemma bufs_upd_buf [simp]: "bufs (upd_buf n f st) m = (if m = n then f (bufs st n) else bufs st m)"
  by (simp add: upd_buf_def)

lemma upd_buf_sel [simp]: "buf_hash (upd_buf n f st) = buf_hash st" "lru_front (upd_buf n f st) = lru_front st"
  "lru_rear (upd_buf n f st) = lru_rear st" "disk (upd_buf n f st) = disk st" "rdwt_err (upd_buf n f st) = rdwt_err st"
  by (simp_all add: upd_buf_def)

lemma bufs_upd_buf': "bufs (upd_buf n f st) = (bufs st)(n := f (bufs st n))"
  by (simp add: upd_buf_def)

text \<open>What the links of the LRU chain do not touch.\<close>

definition same_core :: "bufr \<Rightarrow> bufr \<Rightarrow> bool" where
  "same_core x y \<longleftrightarrow> b_data y = b_data x \<and> b_hash y = b_hash x \<and> b_blocknr y = b_blocknr x \<and> b_dev y = b_dev x \<and> b_dirt y = b_dirt x
     \<and> b_count y = b_count x"

lemma rm_lru_core: "same_core (bufs st m) (bufs (rm_lru n st) m)" "buf_hash (rm_lru n st) = buf_hash st" "disk (rm_lru n st) = disk st"
  by (auto simp: rm_lru_def same_core_def Let_def split: option.split)

lemma put_front_core: "same_core (bufs st m) (bufs (put_front n st) m)" "buf_hash (put_front n st) = buf_hash st"
  "disk (put_front n st) = disk st"
  by (auto simp: put_front_def same_core_def Let_def split: option.split)

lemma put_rear_core: "same_core (bufs st m) (bufs (put_rear n st) m)" "buf_hash (put_rear n st) = buf_hash st"
  "disk (put_rear n st) = disk st"
  by (auto simp: put_rear_def same_core_def Let_def split: option.split)

definition lru :: "cache \<Rightarrow> bufno list \<Rightarrow> bool" where
  "lru st ls \<longleftrightarrow> distinct ls \<and> dll (bufs st) None ls None \<and> lru_front st = hd_opt ls \<and> lru_rear st = last_opt ls"

lemma lru_cong:
  assumes "\<And>n. n \<in> set ls \<Longrightarrow> b_prev (bufs st' n) = b_prev (bufs st n) \<and> b_next (bufs st' n) = b_next (bufs st n)"
    "lru_front st' = lru_front st" "lru_rear st' = lru_rear st"
  shows "lru st' ls = lru st ls"
  using dll_cong [OF assms(1), of ls] assms(2,3) by (simp add: lru_def)

lemma rm_lru_lru:
  assumes "lru st (as @ n # bs)"
  shows "lru (rm_lru n st) (as @ bs)"
proof -
  let ?m = "bufs st"
  have d: "distinct (as @ n # bs)" and a: "dll ?m None as (Some n)" and n: "b_prev (?m n) = last_opt as" "b_next (?m n) = hd_opt bs"
    and b: "dll ?m (Some n) bs None" and fr: "lru_front st = hd_opt (as @ n # bs)" "lru_rear st = last_opt (as @ n # bs)"
    using assms by (auto simp: lru_def dll_append split: if_splits)
  define m1 where "m1 = (case last_opt as of None \<Rightarrow> ?m | Some l \<Rightarrow> ?m(l := (?m l)\<lparr>b_next := hd_opt bs\<rparr>))"
  define m2 where "m2 = (case hd_opt bs of None \<Rightarrow> m1 | Some f \<Rightarrow> m1(f := (m1 f)\<lparr>b_prev := last_opt as\<rparr>))"
  have bufs: "bufs (rm_lru n st) = m2"
    by (auto simp: rm_lru_def m1_def m2_def n Let_def bufs_upd_buf' split: option.split)
  have a1: "dll m1 None as (hd_opt bs)"
    using dll_new_next [OF a, of _ "hd_opt bs"] d by (cases "last_opt as") (auto simp: m1_def)
  have "l \<notin> set bs" if "last_opt as = Some l" for l using last_opt_in [OF that] d by auto
  then have b1: "dll m1 (Some n) bs None" using b by (cases "last_opt as") (simp_all add: m1_def)
  have a2: "dll m2 None as (hd_opt bs)"
  proof -
    have "b_prev (m2 k) = b_prev (m1 k) \<and> b_next (m2 k) = b_next (m1 k)" if "k \<in> set as" for k
      using that d by (cases bs) (auto simp: m2_def)
    then show ?thesis using dll_cong [of as m2 m1 None "hd_opt bs"] a1 by blast
  qed
  have b2: "dll m2 (last_opt as) bs None"
    using dll_new_prev [of m1 "Some n" "hd bs" "tl bs" None "last_opt as"] b1 d by (cases bs) (auto simp: m2_def)
  have "dll m2 None (as @ bs) None" using a2 b2 by (cases "bs = []") (auto simp: dll_append)
  moreover have "lru_front (rm_lru n st) = hd_opt (as @ bs)"
    using fr(1) by (auto simp: rm_lru_def n Let_def hd_opt_append split: option.split)
  moreover have "lru_rear (rm_lru n st) = last_opt (as @ bs)"
    using fr(2) by (auto simp: rm_lru_def n Let_def last_opt_append last_opt_Cons split: option.split)
  ultimately show ?thesis using d bufs by (simp add: lru_def)
qed

lemma put_front_lru:
  assumes "lru st ls" "n \<notin> set ls"
  shows "lru (put_front n st) (n # ls)"
proof (cases ls)
  case Nil
  then show ?thesis using assms by (simp add: put_front_def lru_def Let_def last_opt_def)
next
  case (Cons f fs)
  let ?m = "(bufs st)(n := (bufs st n)\<lparr>b_prev := None, b_next := Some f\<rparr>)"
  have "dll ?m None (f # fs) None" "f \<notin> set fs" using assms Cons by (simp_all add: lru_def)
  then have "dll (?m(f := (?m f)\<lparr>b_prev := Some n\<rparr>)) (Some n) (f # fs) None" by (intro dll_new_prev) auto
  moreover have "bufs (put_front n st) = ?m(f := (?m f)\<lparr>b_prev := Some n\<rparr>)" "lru_front (put_front n st) = Some n"
    "lru_rear (put_front n st) = lru_rear st"
    using assms Cons by (auto simp: put_front_def lru_def Let_def bufs_upd_buf')
  ultimately show ?thesis using assms Cons by (auto simp: lru_def last_opt_def)
qed

lemma put_rear_lru:
  assumes "lru st ls" "n \<notin> set ls"
  shows "lru (put_rear n st) (ls @ [n])"
proof (cases "last_opt ls")
  case None
  then have "ls = []" by simp
  then show ?thesis using assms by (simp add: put_rear_def lru_def Let_def last_opt_def)
next
  case (Some l)
  let ?m = "(bufs st)(n := (bufs st n)\<lparr>b_prev := Some l, b_next := None\<rparr>)"
  have ne: "ls \<noteq> []" "l \<in> set ls" using Some by (auto simp: last_opt_def split: if_splits)
  have "dll ?m None ls None" "distinct ls" using assms by (simp_all add: lru_def)
  then have "dll (?m(l := (?m l)\<lparr>b_next := Some n\<rparr>)) None ls (Some n)" using Some by (rule dll_new_next)
  moreover have "bufs (put_rear n st) = ?m(l := (?m l)\<lparr>b_next := Some n\<rparr>)" "lru_rear (put_rear n st) = Some n"
    "lru_front (put_rear n st) = lru_front st"
    using assms Some by (auto simp: put_rear_def lru_def Let_def bufs_upd_buf')
  ultimately show ?thesis using assms ne Some by (auto simp: lru_def dll_append hd_opt_append)
qed

text \<open>The hash chains: searching, and taking a buffer off its chain.\<close>

lemma hash_walk_chain:
  "hchain (bufs st) p xs \<Longrightarrow> hash_walk dev b st p = Some (find (\<lambda>n. b_blocknr (bufs st n) = b \<and> b_dev (bufs st n) = dev) xs)"
proof (induction xs arbitrary: p)
  case Nil
  then show ?case by (simp add: hash_walk.simps)
next
  case (Cons x xs)
  then show ?case by (subst hash_walk.simps) auto
qed

lemma unhash_walk_chain:
  "hchain (bufs st) (Some p) (p # as @ n # bs) \<Longrightarrow> distinct (p # as @ n # bs)
   \<Longrightarrow> unhash_walk n st (Some p) = Some (upd_buf (last (p # as)) (\<lambda>x. x\<lparr>b_hash := b_hash (bufs st n)\<rparr>) st)"
proof (induction as arbitrary: p)
  case Nil
  then show ?case by (subst unhash_walk.simps) auto
next
  case (Cons a as)
  then show ?case by (subst unhash_walk.simps) auto
qed

lemma hchain_remove:
  "hchain m p (as @ n # bs) \<Longrightarrow> distinct (as @ n # bs) \<Longrightarrow> as \<noteq> []
   \<Longrightarrow> hchain (m(last as := (m (last as))\<lparr>b_hash := b_hash (m n)\<rparr>)) p (as @ bs)"
proof (induction as arbitrary: p)
  case (Cons a as)
  show ?case
  proof (cases "as = []")
    case True
    have "hchain (m(a := (m a)\<lparr>b_hash := b_hash (m n)\<rparr>)) (b_hash (m n)) bs = hchain m (b_hash (m n)) bs"
      using Cons.prems(2) by (intro hchain_cong) auto
    then show ?thesis using True Cons.prems by (simp add: fun_upd_def)
  next
    case False
    then have "a \<noteq> last as" using Cons.prems(2) last_in_set [of as] by auto
    then show ?thesis using False Cons by simp
  qed
qed simp

definition off_hash :: "bufr \<Rightarrow> bufr \<Rightarrow> bool" where
  "off_hash x y \<longleftrightarrow> y = x\<lparr>b_hash := b_hash y\<rparr>"

lemma unhash_chain:
  assumes "hchain (bufs st) (buf_hash st h) (as @ n # bs)" "distinct (as @ n # bs)" "h = hash_of (b_blocknr (bufs st n))"
  obtains st1 where "unhash n st = Some st1" "hchain (bufs st1) (buf_hash st1 h) (as @ bs)"
    "\<And>m. off_hash (bufs st m) (bufs st1 m)" "\<And>m. m \<notin> set as \<Longrightarrow> bufs st1 m = bufs st m"
    "\<And>i. i \<noteq> h \<Longrightarrow> buf_hash st1 i = buf_hash st i" "lru_front st1 = lru_front st" "lru_rear st1 = lru_rear st" "disk st1 = disk st"
proof (cases as)
  case Nil
  let ?s = "st\<lparr>buf_hash := (buf_hash st)(h := b_hash (bufs st n))\<rparr>"
  have "unhash n st = Some ?s" using Nil assms by (simp add: unhash_def Let_def)
  moreover have "hchain (bufs ?s) (buf_hash ?s h) (as @ bs)" using Nil assms by simp
  ultimately show thesis by (rule that) (auto simp: off_hash_def)
next
  case (Cons p ps)
  let ?s = "upd_buf (last as) (\<lambda>x. x\<lparr>b_hash := b_hash (bufs st n)\<rparr>) st"
  have p: "buf_hash st h = Some p" "p \<noteq> n" using Cons assms by auto
  have "unhash n st = unhash_walk n st (Some p)" using p assms(3) by (simp add: unhash_def Let_def)
  also have "\<dots> = Some ?s" using unhash_walk_chain [of st p ps n bs] Cons assms p by simp
  finally have "unhash n st = Some ?s" .
  moreover have "hchain (bufs ?s) (buf_hash ?s h) (as @ bs)"
    using hchain_remove [OF assms(1,2)] Cons by (simp add: bufs_upd_buf')
  moreover have "last as \<in> set as" using Cons by simp
  ultimately show thesis by (intro that [of ?s]) (auto simp: off_hash_def)
qed

section \<open>Invariant of the links\<close>

definition chain_of :: "cache \<Rightarrow> nat \<Rightarrow> bufno set \<Rightarrow> bool" where
  "chain_of st h A \<longleftrightarrow> (\<exists>xs. hchain (bufs st) (buf_hash st h) xs \<and> distinct xs \<and> set xs = A)"

definition lru_of :: "cache \<Rightarrow> bufno set \<Rightarrow> bool" where
  "lru_of st A \<longleftrightarrow> (\<exists>ls. lru st ls \<and> set ls = A)"

definition on_chain :: "cache \<Rightarrow> nat \<Rightarrow> bufno set" where
  "on_chain st h = {n. n < NR_BUFS \<and> hash_of (b_blocknr (bufs st n)) = h}"

definition free_bufs :: "cache \<Rightarrow> bufno set" where
  "free_bufs st = {n. n < NR_BUFS \<and> b_count (bufs st n) = 0}"

definition links_ok :: "cache \<Rightarrow> bool" where
  "links_ok st \<longleftrightarrow> lru_of st (free_bufs st) \<and> (\<forall>h. h < NR_BUF_HASH \<longrightarrow> chain_of st h (on_chain st h)) \<and> (\<forall>n. n < NR_BUFS \<longrightarrow> b_count (bufs st n) \<ge> 0)"

lemma hash_of_less [simp]: "hash_of b < NR_BUF_HASH"
  by (simp add: hash_of_def NR_BUF_HASH_def nat_less_iff)

lemma chain_of_cong: "(\<And>n. n \<in> A \<Longrightarrow> b_hash (bufs st' n) = b_hash (bufs st n)) \<Longrightarrow> buf_hash st' h = buf_hash st h
   \<Longrightarrow> chain_of st h A \<Longrightarrow> chain_of st' h A"
  unfolding chain_of_def using hchain_cong by metis

lemma lru_of_cong:
  "(\<And>n. n \<in> A \<Longrightarrow> b_prev (bufs st' n) = b_prev (bufs st n) \<and> b_next (bufs st' n) = b_next (bufs st n))
   \<Longrightarrow> lru_front st' = lru_front st \<Longrightarrow> lru_rear st' = lru_rear st \<Longrightarrow> lru_of st A \<Longrightarrow> lru_of st' A"
  unfolding lru_of_def using lru_cong by metis

lemma rm_lru_of: "lru_of st A \<Longrightarrow> n \<in> A \<Longrightarrow> lru_of (rm_lru n st) (A - {n})"
proof -
  assume "lru_of st A" "n \<in> A"
  then obtain as bs where l: "lru st (as @ n # bs)" "set (as @ n # bs) = A" unfolding lru_of_def by (metis split_list)
  then have "distinct (as @ n # bs)" by (simp add: lru_def)
  then have "set (as @ bs) = A - {n}" using l(2) by auto
  then show ?thesis using rm_lru_lru [OF l(1)] unfolding lru_of_def by blast
qed

lemma put_front_of: "lru_of st A \<Longrightarrow> n \<notin> A \<Longrightarrow> lru_of (put_front n st) (insert n A)"
  unfolding lru_of_def using put_front_lru by (metis list.simps(15))

lemma put_rear_of: "lru_of st A \<Longrightarrow> n \<notin> A \<Longrightarrow> lru_of (put_rear n st) (insert n A)"
proof -
  assume "lru_of st A" "n \<notin> A"
  then obtain ls where "lru st ls" "set ls = A" unfolding lru_of_def by blast
  then have "lru (put_rear n st) (ls @ [n])" "set (ls @ [n]) = insert n A" using put_rear_lru \<open>n \<notin> A\<close> by auto
  then show ?thesis unfolding lru_of_def by blast
qed

lemma unhash_of:
  assumes "chain_of st h A" "n \<in> A" "h = hash_of (b_blocknr (bufs st n))"
  obtains st1 where "unhash n st = Some st1" "chain_of st1 h (A - {n})"
    "\<And>m. off_hash (bufs st m) (bufs st1 m)" "\<And>m. m \<notin> A \<Longrightarrow> bufs st1 m = bufs st m"
    "\<And>i. i \<noteq> h \<Longrightarrow> buf_hash st1 i = buf_hash st i" "lru_front st1 = lru_front st" "lru_rear st1 = lru_rear st" "disk st1 = disk st"
proof -
  obtain as bs where l: "hchain (bufs st) (buf_hash st h) (as @ n # bs)" "distinct (as @ n # bs)" "set (as @ n # bs) = A"
    using assms(1,2) unfolding chain_of_def by (metis split_list)
  from unhash_chain [OF l(1,2) assms(3)] obtain st1 where u: "unhash n st = Some st1"
    "hchain (bufs st1) (buf_hash st1 h) (as @ bs)" "\<And>m. off_hash (bufs st m) (bufs st1 m)" "\<And>m. m \<notin> set as \<Longrightarrow> bufs st1 m = bufs st m"
    "\<And>i. i \<noteq> h \<Longrightarrow> buf_hash st1 i = buf_hash st i" "lru_front st1 = lru_front st" "lru_rear st1 = lru_rear st" "disk st1 = disk st"
    by blast
  have "set (as @ bs) = A - {n}" "distinct (as @ bs)" using l(2,3) by auto
  then have "chain_of st1 h (A - {n})" using u(2) unfolding chain_of_def by blast
  moreover have "bufs st1 m = bufs st m" if "m \<notin> A" for m using that l(3) u(4) by auto
  ultimately show thesis using that u(1,3,5-8) by blast
qed

section \<open>The Shell sort\<close>

fun knuth :: "nat \<Rightarrow> nat" where
  "knuth 0 = 1"
| "knuth (Suc k) = 3 * knuth k + 1"

lemma knuth_pos: "0 < knuth k"
  by (induction k) auto

lemma knuth_step: "knuth (Suc k) div 3 = knuth k" "1 < knuth (Suc k)"
  using knuth_pos [of k] by auto

lemma first_gap_knuth: "\<exists>k'. first_gap sz (knuth k) = knuth (Suc k')"
proof (induction "sz - knuth k" arbitrary: k rule: less_induct)
  case less
  show ?case
  proof (cases "knuth (Suc k) \<le> sz")
    case True
    then have "first_gap sz (knuth k) = first_gap sz (knuth (Suc k))" by (simp add: first_gap.simps [of sz "knuth k"])
    moreover have "sz - knuth (Suc k) < sz - knuth k" using True by auto
    ultimately show ?thesis using less [of "Suc k"] by (simp del: knuth.simps)
  next
    case False
    then have "first_gap sz (knuth k) = knuth (Suc k)" by (simp add: first_gap.simps [of sz "knuth k"])
    then show ?thesis by blast
  qed
qed

lemma mset_sift: "r < length q \<Longrightarrow> mset (sift key gap r q) = mset q"
proof (induction key gap r q rule: sift.induct)
  case (1 key gap r q)
  show ?case
  proof (cases "0 < gap \<and> gap \<le> r \<and> key (q ! (r - gap)) > key (q ! r)")
    case True
    then have "mset (sift key gap (r - gap) (q[r - gap := q ! r, r := q ! (r - gap)])) = mset (q[r - gap := q ! r, r := q ! (r - gap)])"
      using 1 by simp
    also have "\<dots> = mset q" using 1(2) by (intro mset_swap) auto
    finally show ?thesis using True by (subst sift.simps) simp
  next
    case False
    then show ?thesis by (subst sift.simps) auto
  qed
qed

lemma length_sift: "r < length q \<Longrightarrow> length (sift key gap r q) = length q"
  using mset_sift mset_eq_length by blast

lemma mset_sifts: "\<forall>j \<in> set js. j < length p \<Longrightarrow> mset (foldl (\<lambda>q j. sift key gap j q) p js) = mset p"
proof (induction js rule: rev_induct)
  case (snoc j js)
  then have m: "mset (foldl (\<lambda>q j. sift key gap j q) p js) = mset p" by simp
  then have "length (foldl (\<lambda>q j. sift key gap j q) p js) = length p" by (rule mset_eq_length)
  then show ?case using m mset_sift snoc.prems by simp
qed simp

lemma mset_gap_pass: "mset (gap_pass key gap q) = mset q"
  by (simp add: gap_pass_def mset_sifts)

lemma sift_insert:
  "\<exists>zs. sift key 1 (length xs) (xs @ x # ys) = zs @ ys \<and> mset zs = mset (xs @ [x])
     \<and> (sorted (map key xs) \<longrightarrow> sorted (map key zs))"
proof (induction xs arbitrary: ys rule: rev_induct)
  case Nil
  have "sift key 1 0 (x # ys) = [x] @ ys" by (subst sift.simps) simp
  then show ?case by (intro exI [of _ "[x]"]) simp
next
  case (snoc y xs)
  show ?case
  proof (cases "key y > key x")
    case True
    from snoc obtain zs where zs: "sift key 1 (length xs) (xs @ x # y # ys) = zs @ y # ys" "mset zs = mset (xs @ [x])"
      "sorted (map key xs) \<longrightarrow> sorted (map key zs)" by blast
    have "sift key 1 (length (xs @ [y])) ((xs @ [y]) @ x # ys) = sift key 1 (length xs) (xs @ x # y # ys)"
      using True by (subst sift.simps) (simp add: nth_append list_update_append)
    moreover have "set zs = insert x (set xs)" using mset_eq_setD [OF zs(2)] by simp
    ultimately show ?thesis using zs True by (intro exI [of _ "zs @ [y]"]) (auto simp: sorted_append)
  next
    case False
    have "sift key 1 (length (xs @ [y])) ((xs @ [y]) @ x # ys) = (xs @ [y, x]) @ ys"
      using False by (subst sift.simps) (simp add: nth_append)
    then show ?thesis using False by (intro exI [of _ "xs @ [y, x]"]) (auto simp: sorted_append)
  qed
qed

lemma sorted_sift_prefix:
  assumes "j < length q" "sorted (map key (take j q))"
  shows "sorted (map key (take (Suc j) (sift key 1 j q)))"
proof -
  obtain zs where zs: "sift key 1 (length (take j q)) (take j q @ q ! j # drop (Suc j) q) = zs @ drop (Suc j) q"
    "mset zs = mset (take j q @ [q ! j])" "sorted (map key zs)"
    using sift_insert [of key "take j q" "q ! j" "drop (Suc j) q"] assms(2) by blast
  have "length zs = Suc j" using arg_cong [OF zs(2), of size] assms(1) by simp
  then show ?thesis using zs assms(1) by (simp add: Cons_nth_drop_Suc)
qed

lemma sorted_gap_pass: "sorted (map key (gap_pass key 1 q))"
proof -
  have "length (foldl (\<lambda>q j. sift key 1 j q) q [1 ..< j]) = length q
     \<and> sorted (map key (take j (foldl (\<lambda>q j. sift key 1 j q) q [1 ..< j])))" if "1 \<le> j" "j \<le> length q" for j
    using that
  proof (induction j rule: dec_induct)
    case base
    then show ?case by (cases q) auto
  next
    case (step j)
    then show ?case using sorted_sift_prefix length_sift by simp
  qed
  from this [of "length q"] show ?thesis by (cases q) (auto simp: gap_pass_def)
qed

lemma shell_loop_knuth:
  "mset (shell_loop key (knuth (Suc k)) q) = mset q \<and> sorted (map key (shell_loop key (knuth (Suc k)) q))"
proof (induction k arbitrary: q)
  case 0
  then show ?case using sorted_gap_pass mset_gap_pass by (simp add: shell_loop.simps [of key 4] shell_loop.simps [of key "Suc 0"])
next
  case (Suc k)
  have "shell_loop key (knuth (Suc (Suc k))) q = shell_loop key (knuth (Suc k)) (gap_pass key (knuth (Suc k)) q)"
    using knuth_step [of "Suc k"] by (subst shell_loop.simps) (simp del: knuth.simps)
  then show ?case using Suc mset_gap_pass by metis
qed

lemma shell_sort_correct: "mset (shell_sort key q) = mset q" "sorted (map key (shell_sort key q))"
  using first_gap_knuth [of "length q" 0] shell_loop_knuth unfolding shell_sort_def by (metis knuth.simps(1))+

section \<open>The contents: one copy of a block, clean buffers agree with the disk\<close>

definition cached :: "cache \<Rightarrow> int \<Rightarrow> int \<Rightarrow> bufno \<Rightarrow> bool" where
  "cached st dev b n \<longleftrightarrow> n < NR_BUFS \<and> b_blocknr (bufs st n) = b \<and> b_dev (bufs st n) = dev"

text \<open>What a reader of the device sees through the cache.\<close>

definition view :: "cache \<Rightarrow> int \<Rightarrow> int \<Rightarrow> block" where
  "view st dev b = (case find (cached st dev b) [0 ..< NR_BUFS] of Some n \<Rightarrow> b_data (bufs st n) | None \<Rightarrow> disk st dev b)"

definition one_copy :: "cache \<Rightarrow> bool" where
  "one_copy st \<longleftrightarrow> (\<forall>n m dev b. dev \<noteq> NO_DEV \<longrightarrow> cached st dev b n \<longrightarrow> cached st dev b m \<longrightarrow> n = m)"

definition clean_ok :: "io_env \<Rightarrow> cache \<Rightarrow> bool" where
  "clean_ok E st \<longleftrightarrow>
    (\<forall>n dev b k. dev \<noteq> NO_DEV \<longrightarrow> cached st dev b n \<longrightarrow> \<not> b_dirt (bufs st n) \<longrightarrow> k < io_bsize E dev \<longrightarrow> b_data (bufs st n) k = disk st dev b k)"

definition same_view :: "io_env \<Rightarrow> cache \<Rightarrow> cache \<Rightarrow> bool" where
  "same_view E st st' \<longleftrightarrow> (\<forall>dev b k. dev \<noteq> NO_DEV \<longrightarrow> k < io_bsize E dev \<longrightarrow> view st' dev b k = view st dev b k)"

definition cache_ok :: "io_env \<Rightarrow> cache \<Rightarrow> bool" where
  "cache_ok E st \<longleftrightarrow> links_ok st \<and> one_copy st \<and> clean_ok E st"

definition io_good :: "io_env \<Rightarrow> bool" where
  "io_good E \<longleftrightarrow> (\<forall>w dev b. io_rw E w dev b = int (io_bsize E dev)) \<and> (\<forall>w dev b j. io_vec E w dev b j = (j, 0))"

lemma same_view_refl [simp]: "same_view E st st"
  by (simp add: same_view_def)

lemma same_view_trans: "same_view E s t \<Longrightarrow> same_view E t u \<Longrightarrow> same_view E s u"
  by (simp add: same_view_def)

lemma view_uncached: "(\<And>n. \<not> cached st dev b n) \<Longrightarrow> view st dev b = disk st dev b"
  by (auto simp: view_def find_Some_iff split: option.split)

lemma view_cached:
  assumes "one_copy st" "dev \<noteq> NO_DEV" "cached st dev b n"
  shows "view st dev b = b_data (bufs st n)"
proof (cases "find (cached st dev b) [0 ..< NR_BUFS]")
  case None
  have "n \<in> set [0 ..< NR_BUFS]" using assms(3) by (simp add: cached_def)
  then show ?thesis using None assms(3) by (metis find_None_iff)
next
  case (Some m)
  then have "cached st dev b m" by (auto simp: find_Some_iff)
  then have "m = n" using assms unfolding one_copy_def by blast
  then show ?thesis using Some by (simp add: view_def)
qed

text \<open>Two states with the same blocks in the same buffers, the same data in them.\<close>

lemma same_viewI:
  assumes "one_copy st" "\<And>n dev b. cached st' dev b n = cached st dev b n" "\<And>n. n < NR_BUFS \<Longrightarrow> b_data (bufs st' n) = b_data (bufs st n)"
    "\<And>dev b k. dev \<noteq> NO_DEV \<Longrightarrow> (\<And>n. \<not> cached st dev b n) \<Longrightarrow> k < io_bsize E dev \<Longrightarrow> disk st' dev b k = disk st dev b k"
  shows "same_view E st st'"
  unfolding same_view_def
proof (intro allI impI)
  fix dev b k
  assume d: "dev \<noteq> NO_DEV" "k < io_bsize E dev"
  have o: "one_copy st'" using assms(1,2) by (simp add: one_copy_def)
  show "view st' dev b k = view st dev b k"
  proof (cases "\<exists>n. cached st dev b n")
    case True
    then obtain n where n: "cached st dev b n" by blast
    then have "view st dev b = b_data (bufs st n)" "view st' dev b = b_data (bufs st' n)"
      using view_cached assms(1,2) o d(1) by blast+
    then show ?thesis using assms(3) n by (simp add: cached_def)
  next
    case False
    then show ?thesis using assms(2,4) d by (simp add: view_uncached)
  qed
qed

definition same_content :: "cache \<Rightarrow> cache \<Rightarrow> bool" where
  "same_content st st' \<longleftrightarrow> (\<forall>n. b_data (bufs st' n) = b_data (bufs st n) \<and> b_blocknr (bufs st' n) = b_blocknr (bufs st n)
     \<and> b_dev (bufs st' n) = b_dev (bufs st n) \<and> b_dirt (bufs st' n) = b_dirt (bufs st n)) \<and> disk st' = disk st"

lemma same_content_trans: "same_content s t \<Longrightarrow> same_content t u \<Longrightarrow> same_content s u"
  by (simp add: same_content_def)

lemma same_content_cached: "same_content st st' \<Longrightarrow> cached st' = cached st"
  by (auto simp: same_content_def cached_def fun_eq_iff)

lemma same_content_ok:
  assumes "same_content st st'"
  shows "one_copy st' = one_copy st" "clean_ok E st' = clean_ok E st" "one_copy st \<Longrightarrow> same_view E st st'"
proof -
  note c = same_content_cached [OF assms]
  show "one_copy st' = one_copy st" by (simp add: one_copy_def c)
  show "clean_ok E st' = clean_ok E st" using assms by (simp add: clean_ok_def c) (simp add: same_content_def)
  assume "one_copy st"
  then show "same_view E st st'" by (rule same_viewI) (use assms c in \<open>simp_all add: same_content_def\<close>)
qed

section \<open>Writing buffers out\<close>

definition flush_one :: "io_env \<Rightarrow> cache \<Rightarrow> bufno \<Rightarrow> cache" where
  "flush_one E st n = upd_buf n (\<lambda>x. x\<lparr>b_dirt := False\<rparr>) (write_out E n st)"

definition same_links :: "cache \<Rightarrow> cache \<Rightarrow> bool" where
  "same_links st st' \<longleftrightarrow> (\<forall>n. b_next (bufs st' n) = b_next (bufs st n) \<and> b_prev (bufs st' n) = b_prev (bufs st n) \<and> b_hash (bufs st' n) = b_hash (bufs st n))
     \<and> buf_hash st' = buf_hash st \<and> lru_front st' = lru_front st \<and> lru_rear st' = lru_rear st"

lemma same_links_trans: "same_links s t \<Longrightarrow> same_links t u \<Longrightarrow> same_links s u"
  by (simp add: same_links_def)

lemma same_links_of: "same_links st st' \<Longrightarrow> lru_of st A \<Longrightarrow> lru_of st' A" "same_links st st' \<Longrightarrow> chain_of st h A \<Longrightarrow> chain_of st' h A"
  by (rule lru_of_cong; simp add: same_links_def) (rule chain_of_cong; simp add: same_links_def)

lemma write_out_sel [simp]: "bufs (write_out E n st) = bufs st" "buf_hash (write_out E n st) = buf_hash st"
  "lru_front (write_out E n st) = lru_front st" "lru_rear (write_out E n st) = lru_rear st"
  by (simp_all add: write_out_def Let_def)

lemma disk_write_out: "disk (write_out E n st) dev b k =
   (if dev = b_dev (bufs st n) \<and> b = b_blocknr (bufs st n) \<and> k < io_bsize E dev then b_data (bufs st n) k else disk st dev b k)"
  by (simp add: write_out_def Let_def)

lemma bufs_flush_one: "bufs (flush_one E st n) m = (bufs st m)\<lparr>b_dirt := b_dirt (bufs st m) \<and> m \<noteq> n\<rparr>"
  by (simp add: flush_one_def)

lemma flush_one_links: "same_links st (flush_one E st n)"
  by (simp add: same_links_def bufs_flush_one) (simp add: flush_one_def)

lemma flush_one_cached: "cached (flush_one E st n) = cached st"
  by (simp add: cached_def fun_eq_iff bufs_flush_one)

lemma disk_flush_one: "disk (flush_one E st n) dev b k =
   (if dev = b_dev (bufs st n) \<and> b = b_blocknr (bufs st n) \<and> k < io_bsize E dev then b_data (bufs st n) k else disk st dev b k)"
  by (simp add: flush_one_def disk_write_out)

lemma flush_one_ok:
  assumes "one_copy st" "clean_ok E st" "n < NR_BUFS"
  shows "one_copy (flush_one E st n)" "clean_ok E (flush_one E st n)" "same_view E st (flush_one E st n)"
proof -
  have n: "cached st (b_dev (bufs st n)) (b_blocknr (bufs st n)) n" using assms(3) by (simp add: cached_def)
  show "one_copy (flush_one E st n)" using assms(1) by (simp add: one_copy_def flush_one_cached)
  show "same_view E st (flush_one E st n)"
    by (rule same_viewI [OF assms(1)]) (use n in \<open>auto simp: flush_one_cached bufs_flush_one disk_flush_one\<close>)
  show "clean_ok E (flush_one E st n)"
    unfolding clean_ok_def flush_one_cached
  proof (intro allI impI)
    fix m dev b k
    assume d: "dev \<noteq> NO_DEV" and m: "cached st dev b m" and c: "\<not> b_dirt (bufs (flush_one E st n) m)" and k: "k < io_bsize E dev"
    have "m = n" if "dev = b_dev (bufs st n)" "b = b_blocknr (bufs st n)" using assms(1) d m n that unfolding one_copy_def by blast
    moreover have "b_data (bufs st m) k = disk st dev b k" if "m \<noteq> n" using assms(2) d m c k that unfolding clean_ok_def by (auto simp: bufs_flush_one)
    ultimately show "b_data (bufs (flush_one E st n) m) k = disk (flush_one E st n) dev b k"
      using m k by (auto simp: bufs_flush_one disk_flush_one cached_def)
  qed
qed

lemma foldl_flush_one:
  assumes "one_copy st" "clean_ok E st" "set q \<subseteq> {..< NR_BUFS}"
  shows "one_copy (foldl (flush_one E) st q) \<and> clean_ok E (foldl (flush_one E) st q) \<and> same_view E st (foldl (flush_one E) st q)
     \<and> same_links st (foldl (flush_one E) st q) \<and> (\<forall>m. bufs (foldl (flush_one E) st q) m = (bufs st m)\<lparr>b_dirt := b_dirt (bufs st m) \<and> m \<notin> set q\<rparr>)"
  using assms(3)
proof (induction q rule: rev_induct)
  case Nil
  then show ?case using assms by (simp add: same_links_def)
next
  case (snoc n q)
  let ?s = "foldl (flush_one E) st q"
  have i: "one_copy ?s" "clean_ok E ?s" "same_view E st ?s" "same_links st ?s" "\<forall>m. bufs ?s m = (bufs st m)\<lparr>b_dirt := b_dirt (bufs st m) \<and> m \<notin> set q\<rparr>"
    using snoc by auto
  have n: "n < NR_BUFS" using snoc.prems by simp
  note f = flush_one_ok [OF i(1,2) n]
  show ?case using f same_view_trans [OF i(3) f(3)] same_links_trans [OF i(4) flush_one_links] i(5) by (auto simp: bufs_flush_one conj_ac)
qed

lemma vec_len_ge: "j \<le> vec_len key first j q"
proof (induction q arbitrary: j)
  case (Cons n q)
  then show ?case by (auto intro: Suc_leD)
qed simp

lemma vec_len_le: "vec_len key first j q \<le> j + length q"
proof (induction q arbitrary: j)
  case (Cons n q)
  then show ?case using Cons [of "j + 1"] by simp
qed simp

lemma rw_loop_writes:
  "(\<And>b j. j \<le> length q \<Longrightarrow> io_vec E WRITING dev b j = (j, 0)) \<Longrightarrow> rw_loop E WRITING dev q st = foldl (flush_one E) st q"
proof (induction q arbitrary: st rule: length_induct)
  case (1 q)
  show ?case
  proof (cases q)
    case Nil
    then show ?thesis by (simp add: rw_loop.simps)
  next
    case (Cons n q')
    let ?j = "vec_len (\<lambda>n. b_blocknr (bufs st n)) (b_blocknr (bufs st (hd q))) 0 q"
    have "0 < ?j" using vec_len_ge [of 1] Cons by (simp add: Suc_le_lessD)
    moreover have "q \<noteq> []" using Cons by simp
    moreover have "io_vec E WRITING dev b ?j = (?j, 0)" for b using vec_len_le [of _ _ 0 q] by (intro 1(2)) simp
    ultimately have h: "rw_loop E WRITING dev q st = rw_loop E WRITING dev (drop ?j q) (foldl (flush_one E) st (take ?j q))" "length (drop ?j q) < length q"
      by (simp_all add: rw_loop.simps [of E True dev q] harvest_def flush_one_def [abs_def] Let_def)
    then have "rw_loop E WRITING dev q st = foldl (flush_one E) (foldl (flush_one E) st (take ?j q)) (drop ?j q)"
      using 1 by (metis le_trans less_imp_le)
    then show ?thesis by (simp flip: foldl_append)
  qed
qed

definition dirty_bufs :: "int \<Rightarrow> cache \<Rightarrow> bufno list" where
  "dirty_bufs dev st = filter (\<lambda>n. b_dirt (bufs st n) \<and> b_dev (bufs st n) = dev) [0 ..< NR_BUFS]"

lemma flushall_writes_short:
  assumes "\<And>b j. j \<le> length (dirty_bufs dev st) \<Longrightarrow> io_vec E WRITING dev b j = (j, 0)"
  obtains q where "flushall E dev st = foldl (flush_one E) st q" "q = shell_sort (\<lambda>n. b_blocknr (bufs st n)) (dirty_bufs dev st)" "set q = set (dirty_bufs dev st)"
proof -
  let ?s = "shell_sort (\<lambda>n. b_blocknr (bufs st n)) (dirty_bufs dev st)"
  note m = shell_sort_correct(1) [of "\<lambda>n. b_blocknr (bufs st n)" "dirty_bufs dev st"]
  have "length ?s = length (dirty_bufs dev st)" using mset_eq_length [OF m] .
  then show thesis using that [of ?s] rw_loop_writes [of ?s E dev st] assms mset_eq_setD [OF m] by (auto simp: flushall_def rw_scattered_def dirty_bufs_def)
qed

lemma flushall_writes:
  assumes "io_good E"
  obtains q where "flushall E dev st = foldl (flush_one E) st q" "set q = {n. n < NR_BUFS \<and> b_dirt (bufs st n) \<and> b_dev (bufs st n) = dev}"
  using flushall_writes_short [of dev st E] assms by (auto simp: io_good_def dirty_bufs_def)

section \<open>Getting and releasing a block\<close>

lemma links_lru: "links_ok st \<Longrightarrow> lru_of st (free_bufs st)" by (simp add: links_ok_def)

lemma links_chain: "links_ok st \<Longrightarrow> h < NR_BUF_HASH \<Longrightarrow> chain_of st h (on_chain st h)" by (simp add: links_ok_def)

lemma links_count: "links_ok st \<Longrightarrow> n < NR_BUFS \<Longrightarrow> 0 \<le> b_count (bufs st n)" by (simp add: links_ok_def)

lemma hash_walk_search:
  assumes "links_ok st"
  shows "\<exists>r. hash_walk dev b st (buf_hash st (hash_of b)) = Some r \<and>
    (case r of Some n \<Rightarrow> cached st dev b n | None \<Rightarrow> \<forall>n. \<not> cached st dev b n)"
proof -
  obtain xs where xs: "hchain (bufs st) (buf_hash st (hash_of b)) xs" "set xs = on_chain st (hash_of b)"
    using links_chain [OF assms hash_of_less] unfolding chain_of_def by blast
  show ?thesis
    using xs(2) hash_walk_chain [OF xs(1), of dev b]
    by (auto simp: cached_def on_chain_def find_None_iff find_Some_iff set_conv_nth split: option.split)
qed

lemma same_core_content: "(\<And>m. same_core (bufs st m) (bufs st' m)) \<Longrightarrow> disk st' = disk st \<Longrightarrow> same_content st st'"
  by (simp add: same_content_def same_core_def)

lemma lru_front_free:
  assumes "links_ok st" "lru_front st = Some n"
  shows "n < NR_BUFS" "b_count (bufs st n) = 0"
proof -
  obtain ls where "lru st ls" "set ls = free_bufs st" using links_lru [OF assms(1)] unfolding lru_of_def by blast
  moreover have "n \<in> set ls" using calculation(1) assms(2) by (cases ls) (auto simp: lru_def)
  ultimately show "n < NR_BUFS" "b_count (bufs st n) = 0" by (auto simp: free_bufs_def)
qed

text \<open>A buffer that is found: it leaves the LRU chain when nobody used it.\<close>

lemma hit_ok:
  assumes "cache_ok E st" "cached st dev b n" "dev \<noteq> NO_DEV"
    and s: "s = upd_buf n (\<lambda>x. x\<lparr>b_count := b_count x + 1\<rparr>) (if b_count (bufs st n) = 0 then rm_lru n st else st)"
  shows "cache_ok E s" "same_view E st s" "cached s = cached st" "b_data (bufs s n) = b_data (bufs st n)"
    "b_count (bufs s m) = b_count (bufs st m) + (if m = n then 1 else 0)"
proof -
  have ok: "links_ok st" "one_copy st" "clean_ok E st" using assms(1) by (simp_all add: cache_ok_def)
  define t0 where "t0 = (if b_count (bufs st n) = 0 then rm_lru n st else st)"
  have t: "same_core (bufs st m) (bufs t0 m)" "disk t0 = disk st" "buf_hash t0 = buf_hash st" for m
    using rm_lru_core by (auto simp: same_core_def t0_def)
  note s = s [folded t0_def]
  have c: "same_content st s" using t by (simp add: s same_content_def same_core_def)
  have n: "n < NR_BUFS" using assms(2) by (simp add: cached_def)
  have cnt: "b_count (bufs s m) = b_count (bufs st m) + (if m = n then 1 else 0)" for m using t by (simp add: s same_core_def)
  have "lru_of t0 (free_bufs s)"
  proof (cases "b_count (bufs st n) = 0")
    case True
    then have "free_bufs s = free_bufs st - {n}" using cnt by (auto simp: free_bufs_def)
    then show ?thesis using True n rm_lru_of [OF links_lru [OF ok(1)], of n] by (simp add: free_bufs_def t0_def)
  next
    case False
    then have "free_bufs s = free_bufs st" using cnt links_count [OF ok(1) n] by (auto simp: free_bufs_def)
    then show ?thesis using False links_lru [OF ok(1)] by (simp add: t0_def)
  qed
  then have "lru_of s (free_bufs s)" by (rule lru_of_cong [rotated 3]) (simp_all add: s)
  moreover have "chain_of s h (on_chain s h)" if "h < NR_BUF_HASH" for h
  proof -
    have "on_chain s h = on_chain st h" using c by (simp add: on_chain_def same_content_def)
    moreover have "chain_of s h (on_chain st h)"
      using links_chain [OF ok(1) that] by (rule chain_of_cong [rotated 2]) (use t in \<open>simp_all add: s same_core_def\<close>)
    ultimately show ?thesis by simp
  qed
  moreover have "0 \<le> b_count (bufs s m)" if "m < NR_BUFS" for m using cnt links_count [OF ok(1) that] by simp
  ultimately have "links_ok s" by (simp add: links_ok_def)
  then show "cache_ok E s" using same_content_ok(1,2) [OF c] ok by (simp add: cache_ok_def)
  show "same_view E st s" using same_content_ok(3) [OF c ok(2)] .
  show "cached s = cached st" by (rule same_content_cached [OF c])
  show "b_data (bufs s n) = b_data (bufs st n)" using c by (simp add: same_content_def)
  show "b_count (bufs s m) = b_count (bufs st m) + (if m = n then 1 else 0)" by (rule cnt)
qed

lemma off_hashD: "off_hash x y \<Longrightarrow> b_data y = b_data x \<and> b_blocknr y = b_blocknr x \<and> b_dev y = b_dev x \<and> b_dirt y = b_dirt x
   \<and> b_count y = b_count x \<and> b_next y = b_next x \<and> b_prev y = b_prev x"
  by (cases x; cases y) (simp add: off_hash_def)

text \<open>The oldest free buffer is taken off both chains.\<close>

lemma evict_links:
  assumes "links_ok st" "lru_front st = Some n"
  obtains s where "unhash n (rm_lru n st) = Some s" "same_content st s" "\<And>m. b_count (bufs s m) = b_count (bufs st m)"
    "lru_of s (free_bufs st - {n})" "\<And>h. h < NR_BUF_HASH \<Longrightarrow> chain_of s h (on_chain st h - {n})"
proof -
  note n = lru_front_free [OF assms]
  let ?t = "rm_lru n st" and ?h = "hash_of (b_blocknr (bufs st n))"
  have t: "same_content st ?t" "\<And>m. same_core (bufs st m) (bufs ?t m)" using rm_lru_core same_core_content by blast+
  have ch: "chain_of ?t h (on_chain st h)" if "h < NR_BUF_HASH" for h
    using links_chain [OF assms(1) that] by (rule chain_of_cong [rotated 2]) (use rm_lru_core in \<open>simp_all add: same_core_def\<close>)
  have "n \<in> on_chain st ?h" "?h = hash_of (b_blocknr (bufs ?t n))" using n t(1) by (simp_all add: on_chain_def same_content_def)
  from unhash_of [OF ch [OF hash_of_less] this] obtain s where s: "unhash n ?t = Some s" "chain_of s ?h (on_chain st ?h - {n})"
    "\<And>m. off_hash (bufs ?t m) (bufs s m)" "\<And>m. m \<notin> on_chain st ?h \<Longrightarrow> bufs s m = bufs ?t m"
    "\<And>i. i \<noteq> ?h \<Longrightarrow> buf_hash s i = buf_hash ?t i" "lru_front s = lru_front ?t" "lru_rear s = lru_rear ?t" "disk s = disk ?t"
    by blast
  have f: "b_data (bufs s m) = b_data (bufs ?t m)" "b_blocknr (bufs s m) = b_blocknr (bufs ?t m)" "b_dev (bufs s m) = b_dev (bufs ?t m)"
    "b_dirt (bufs s m) = b_dirt (bufs ?t m)" "b_count (bufs s m) = b_count (bufs ?t m)" "b_next (bufs s m) = b_next (bufs ?t m)"
    "b_prev (bufs s m) = b_prev (bufs ?t m)" for m
    using off_hashD [OF s(3) [of m]] by simp_all
  have "same_content st s" using t(1) f s(8) by (simp add: same_content_def)
  moreover have "b_count (bufs s m) = b_count (bufs st m)" for m using f(5) t(2) [of m] by (simp add: same_core_def)
  moreover have "lru_of ?t (free_bufs st - {n})" using rm_lru_of [OF links_lru [OF assms(1)]] n by (simp add: free_bufs_def)
  then have "lru_of s (free_bufs st - {n})" by (rule lru_of_cong [rotated 3]) (use f s in simp_all)
  moreover have "chain_of s h (on_chain st h - {n})" if "h < NR_BUF_HASH" for h
  proof (cases "h = ?h")
    case False
    then have "on_chain st h - {n} = on_chain st h" by (auto simp: on_chain_def)
    moreover have "bufs s m = bufs ?t m" if "m \<in> on_chain st h" for m using that False by (intro s(4)) (simp add: on_chain_def)
    ultimately show ?thesis using ch [OF that] False s(5) by (auto intro: chain_of_cong)
  qed (use s(2) in simp)
  ultimately show thesis using that s(1) by blast
qed

text \<open>The buffer gets its new name and goes to the front of the hash chain of the new block.\<close>

lemma fill_links:
  assumes "n < NR_BUFS" "b_count (bufs st n) = 0" "\<And>m. m < NR_BUFS \<Longrightarrow> 0 \<le> b_count (bufs st m)"
    "lru_of st (free_bufs st - {n})" "\<And>h. h < NR_BUF_HASH \<Longrightarrow> chain_of st h (on_chain st h - {n})"
  shows "links_ok (fill_buf dev b n st)"
proof -
  let ?s = "fill_buf dev b n st"
  have sel: "bufs ?s = (bufs st)(n := (bufs st n)\<lparr>b_dev := dev, b_blocknr := b, b_count := b_count (bufs st n) + 1, b_hash := buf_hash st (hash_of b)\<rparr>)"
    "buf_hash ?s = (buf_hash st)(hash_of b := Some n)" "lru_front ?s = lru_front st" "lru_rear ?s = lru_rear st"
    by (simp_all add: fill_buf_def Let_def bufs_upd_buf')
  have "free_bufs ?s = free_bufs st - {n}" using assms(2) by (auto simp: free_bufs_def sel)
  moreover have "lru_of ?s (free_bufs st - {n})" using assms(4) by (rule lru_of_cong [rotated 3]) (auto simp: sel)
  ultimately have l: "lru_of ?s (free_bufs ?s)" by simp
  have c: "chain_of ?s h (on_chain ?s h)" if h: "h < NR_BUF_HASH" for h
  proof (cases "h = hash_of b")
    case True
    obtain xs where xs: "hchain (bufs st) (buf_hash st h) xs" "distinct xs" "set xs = on_chain st h - {n}"
      using assms(5) [OF h] unfolding chain_of_def by blast
    have "hchain (bufs ?s) (buf_hash st h) xs" using xs hchain_cong [of xs "bufs ?s" "bufs st"] by (auto simp: sel)
    then have "hchain (bufs ?s) (buf_hash ?s h) (n # xs)" "distinct (n # xs)" "set (n # xs) = on_chain ?s h"
      using True xs assms(1) by (auto simp: sel on_chain_def)
    then show ?thesis unfolding chain_of_def by blast
  next
    case False
    then have "on_chain ?s h = on_chain st h - {n}" by (auto simp: on_chain_def sel)
    moreover have "chain_of ?s h (on_chain st h - {n})" using assms(5) [OF h] by (rule chain_of_cong [rotated 2]) (use False in \<open>auto simp: sel\<close>)
    ultimately show ?thesis by simp
  qed
  show ?thesis using l c assms(2,3) by (auto simp: links_ok_def sel)
qed

lemma links_ok_cong:
  assumes "same_links st st'" "\<And>m. b_blocknr (bufs st' m) = b_blocknr (bufs st m) \<and> b_count (bufs st' m) = b_count (bufs st m)"
  shows "links_ok st \<Longrightarrow> links_ok st'"
  using assms same_links_of [OF assms(1)] by (simp add: links_ok_def free_bufs_def on_chain_def)

text \<open>The contents after the read: the buffer had a clean block or none, the new block was not in the cache.\<close>

definition renamed :: "io_env \<Rightarrow> bufno \<Rightarrow> int \<Rightarrow> int \<Rightarrow> cache \<Rightarrow> cache \<Rightarrow> bool" where
  "renamed E n dev b st s \<longleftrightarrow> n < NR_BUFS \<and> (b_dev (bufs st n) \<noteq> NO_DEV \<longrightarrow> \<not> b_dirt (bufs st n)) \<and> dev \<noteq> NO_DEV \<and> (\<forall>m. \<not> cached st dev b m)
     \<and> (\<forall>m. m \<noteq> n \<longrightarrow> bufs s m = bufs st m) \<and> disk s = disk st \<and> b_blocknr (bufs s n) = b \<and> b_dev (bufs s n) = dev
     \<and> (\<forall>k. k < io_bsize E dev \<longrightarrow> b_data (bufs s n) k = disk st dev b k)"

lemma renamed_cached: "renamed E n dev b st s \<Longrightarrow> cached s d c m = (if m = n then d = dev \<and> c = b else cached st d c m)"
  by (auto simp: renamed_def cached_def)

lemma renamed_one_copy:
  assumes "renamed E n dev b st s" "one_copy st"
  shows "one_copy s"
  unfolding one_copy_def
proof (intro allI impI)
  fix p q d e
  assume "d \<noteq> NO_DEV" "cached s d e p" "cached s d e q"
  moreover have "\<not> cached st dev b m" for m using assms(1) by (simp add: renamed_def)
  ultimately show "p = q" using assms(2) renamed_cached [OF assms(1), of d e p] renamed_cached [OF assms(1), of d e q]
    unfolding one_copy_def by (cases "p = n"; cases "q = n") auto
qed

lemma renamed_clean:
  assumes "renamed E n dev b st s" "clean_ok E st"
  shows "clean_ok E s"
  unfolding clean_ok_def
proof (intro allI impI)
  fix p d e k
  assume p: "d \<noteq> NO_DEV" "cached s d e p" "\<not> b_dirt (bufs s p)" "k < io_bsize E d"
  show "b_data (bufs s p) k = disk s d e k"
  proof (cases "p = n")
    case True
    then show ?thesis using p renamed_cached [OF assms(1), of d e p] assms(1) by (simp add: renamed_def)
  next
    case False
    then have "bufs s p = bufs st p" "disk s = disk st" "cached st d e p" using assms(1) p(2) renamed_cached [OF assms(1)] by (simp_all add: renamed_def)
    then show ?thesis using assms(2) p unfolding clean_ok_def by metis
  qed
qed

lemma renamed_view:
  assumes "renamed E n dev b st s" "one_copy st" "clean_ok E st"
  shows "same_view E st s"
  unfolding same_view_def
proof (intro allI impI)
  fix d c k
  assume d: "d \<noteq> NO_DEV" "k < io_bsize E d"
  note cs = renamed_cached [OF assms(1)] and o = renamed_one_copy [OF assms(1,2)]
  have s: "disk s = disk st" using assms(1) by (simp add: renamed_def)
  consider "d = dev \<and> c = b" | m where "m \<noteq> n" "cached st d c m" | "\<not> (d = dev \<and> c = b)" "\<And>m. m \<noteq> n \<Longrightarrow> \<not> cached st d c m" by blast
  then show "view s d c k = view st d c k"
  proof cases
    case 1
    then have "cached s d c n" "\<not> cached st d c m" for m using cs assms(1) by (simp_all add: renamed_def)
    then have "view s d c = b_data (bufs s n)" "view st d c = disk st d c" using view_cached [OF o d(1)] view_uncached by blast+
    then show ?thesis using 1 assms(1) d by (simp add: renamed_def)
  next
    case (2 m)
    then have "cached s d c m" "bufs s m = bufs st m" using cs assms(1) by (simp_all add: renamed_def)
    then show ?thesis using view_cached [OF o d(1), of c m] view_cached [OF assms(2) d(1), of c m] 2 by simp
  next
    case 3
    then have "\<not> cached s d c m" for m using cs by auto
    then have v: "view s d c = disk st d c" using view_uncached s by simp
    show ?thesis
    proof (cases "cached st d c n")
      case True
      then have "\<not> b_dirt (bufs st n)" using assms(1) d by (simp add: cached_def renamed_def)
      then show ?thesis using v view_cached [OF assms(2) d(1) True] assms(3) True d by (auto simp: clean_ok_def)
    qed (use v 3 view_uncached in metis)
  qed
qed

definition read_new :: "io_env \<Rightarrow> int \<Rightarrow> int \<Rightarrow> bufno \<Rightarrow> cache \<Rightarrow> cache" where
  "read_new E dev b n st = rw_block E READING n (fill_buf dev b n st)"

lemma read_new_sel:
  assumes "io_good E"
  shows "m \<noteq> n \<Longrightarrow> bufs (read_new E dev b n st) m = bufs st m" "disk (read_new E dev b n st) = disk st"
    "bufs (read_new E dev b n st) n = (bufs (fill_buf dev b n st) n)\<lparr>b_dirt := False,
       b_data := (\<lambda>k. if k < io_bsize E dev then disk st dev b k else b_data (bufs st n) k)\<rparr>"
    "same_links (fill_buf dev b n st) (read_new E dev b n st)"
  using assms by (auto simp: read_new_def rw_block_def fill_buf_def Let_def io_good_def read_in_def same_links_def fun_eq_iff)

lemma read_new_ok:
  assumes "io_good E" "one_copy st" "clean_ok E st" "n < NR_BUFS" "b_count (bufs st n) = 0" "\<And>m. m < NR_BUFS \<Longrightarrow> 0 \<le> b_count (bufs st m)"
    "lru_of st (free_bufs st - {n})" "\<And>h. h < NR_BUF_HASH \<Longrightarrow> chain_of st h (on_chain st h - {n})"
    "b_dev (bufs st n) \<noteq> NO_DEV \<Longrightarrow> \<not> b_dirt (bufs st n)" "\<And>m. \<not> cached st dev b m" "dev \<noteq> NO_DEV"
    and s: "s = read_new E dev b n st"
  shows "cache_ok E s" "same_view E st s" "cached s dev b n" "b_count (bufs s m) = b_count (bufs st m) + (if m = n then 1 else 0)" "k < io_bsize E dev \<Longrightarrow> b_data (bufs s n) k = view st dev b k"
    "i \<noteq> n \<Longrightarrow> cached s d a i = cached st d a i"
proof -
  note r = read_new_sel [OF assms(1), where dev = dev and b = b and n = n and st = st, folded s]
  have f: "bufs (fill_buf dev b n st) m = (if m = n then (bufs st n)\<lparr>b_dev := dev, b_blocknr := b, b_count := b_count (bufs st n) + 1,
      b_hash := buf_hash st (hash_of b)\<rparr> else bufs st m)" for m by (simp add: fill_buf_def Let_def)
  have "b_blocknr (bufs s m) = b_blocknr (bufs (fill_buf dev b n st) m) \<and> b_count (bufs s m) = b_count (bufs (fill_buf dev b n st) m)" for m
    by (cases "m = n") (simp_all add: r(1,3) f)
  then have "links_ok s" using fill_links [OF assms(4-8)] links_ok_cong [OF r(4)] by blast
  moreover have rn: "renamed E n dev b st s" using assms(4,9,10,11) r f by (simp add: renamed_def)
  have "one_copy s" "clean_ok E s" "same_view E st s"
    using renamed_one_copy [OF rn assms(2)] renamed_clean [OF rn assms(3)] renamed_view [OF rn assms(2,3)] .
  ultimately show "cache_ok E s" "same_view E st s" by (simp_all add: cache_ok_def)
  show "cached s dev b n" "b_count (bufs s m) = b_count (bufs st m) + (if m = n then 1 else 0)"
    using assms(4,5) r(1) [of m] r(3) f by (simp_all add: cached_def)
  show "b_data (bufs s n) k = view st dev b k" if "k < io_bsize E dev" using that r(3) view_uncached assms(10) by simp
  show "cached s d a i = cached st d a i" if "i \<noteq> n" using renamed_cached [OF rn] that by simp
qed

lemma flushed_ok:
  assumes "io_good E" "one_copy s" "clean_ok E s" "n < NR_BUFS"
    and t: "t = (if b_dev (bufs s n) \<noteq> NO_DEV \<and> b_dirt (bufs s n) then flushall E (b_dev (bufs s n)) s else s)"
  shows "one_copy t" "clean_ok E t" "same_view E s t" "same_links s t" "cached t = cached s" "b_dev (bufs t n) \<noteq> NO_DEV \<Longrightarrow> \<not> b_dirt (bufs t n)"
    "\<And>m. b_count (bufs t m) = b_count (bufs s m) \<and> b_blocknr (bufs t m) = b_blocknr (bufs s m)"
proof -
  let ?d = "b_dev (bufs s n)"
  obtain q where q: "flushall E ?d s = foldl (flush_one E) s q" "set q = {n. n < NR_BUFS \<and> b_dirt (bufs s n) \<and> b_dev (bufs s n) = ?d}"
    using flushall_writes [OF assms(1)] by metis
  then have "set q \<subseteq> {..< NR_BUFS}" by auto
  note f = foldl_flush_one [OF assms(2,3) this, folded q(1)]
  show "one_copy t" "clean_ok E t" "same_view E s t" "same_links s t" using f assms(2,3) t by (auto simp: same_links_def)
  have b: "bufs t m = (bufs s m)\<lparr>b_dirt := b_dirt (bufs t m)\<rparr>" for m using f t by simp
  then have "b_count (bufs t m) = b_count (bufs s m) \<and> b_blocknr (bufs t m) = b_blocknr (bufs s m) \<and> b_dev (bufs t m) = b_dev (bufs s m)" for m
    by (metis bufr.select_convs(5,6,8) bufr.surjective bufr.update_convs(7))
  then show "\<And>m. b_count (bufs t m) = b_count (bufs s m) \<and> b_blocknr (bufs t m) = b_blocknr (bufs s m)" "cached t = cached s"
    by (auto simp: cached_def fun_eq_iff)
  show "b_dev (bufs t n) \<noteq> NO_DEV \<Longrightarrow> \<not> b_dirt (bufs t n)" using f t q(2) assms(4) by (auto split: if_splits)
qed

text \<open>The least recently used buffer leaves the chains; the dirty blocks of its device are written.\<close>

definition evicted :: "io_env \<Rightarrow> cache \<Rightarrow> bufno \<Rightarrow> cache \<Rightarrow> bool" where
  "evicted E st n t \<longleftrightarrow>
    (\<forall>dev b w. take_buf E dev b w st = Some (if dev = NO_DEV then fill_buf dev b n t
        else if w = PREFETCH then upd_buf n (\<lambda>x. x\<lparr>b_dev := NO_DEV\<rparr>) (fill_buf dev b n t)
        else if w = NORMAL then read_new E dev b n t else fill_buf dev b n t, n))
    \<and> one_copy t \<and> clean_ok E t \<and> same_view E st t \<and> cached t = cached st \<and> (b_dev (bufs t n) \<noteq> NO_DEV \<longrightarrow> \<not> b_dirt (bufs t n))
    \<and> (\<forall>m. b_count (bufs t m) = b_count (bufs st m)) \<and> n < NR_BUFS \<and> b_count (bufs t n) = 0 \<and> (\<forall>m. m < NR_BUFS \<longrightarrow> 0 \<le> b_count (bufs t m))
    \<and> lru_of t (free_bufs t - {n}) \<and> (\<forall>h. h < NR_BUF_HASH \<longrightarrow> chain_of t h (on_chain t h - {n}))"

lemma evict_ok:
  assumes "cache_ok E st" "io_good E" "lru_front st = Some n"
  obtains t where "evicted E st n t"
proof -
  have ok: "links_ok st" "one_copy st" "clean_ok E st" using assms(1) by (simp_all add: cache_ok_def)
  note nf = lru_front_free [OF ok(1) assms(3)]
  from evict_links [OF ok(1) assms(3)] obtain s where s: "unhash n (rm_lru n st) = Some s" "same_content st s"
    "\<And>m. b_count (bufs s m) = b_count (bufs st m)" "lru_of s (free_bufs st - {n})" "\<And>h. h < NR_BUF_HASH \<Longrightarrow> chain_of s h (on_chain st h - {n})"
    by blast
  define t where "t = (if b_dev (bufs s n) \<noteq> NO_DEV \<and> b_dirt (bufs s n) then flushall E (b_dev (bufs s n)) s else s)"
  note sc = same_content_ok [OF s(2)]
  have c: "one_copy s" "clean_ok E s" using sc ok by simp_all
  note f = flushed_ok [OF assms(2) c nf(1) t_def]
  have bn: "b_blocknr (bufs s m) = b_blocknr (bufs st m)" for m using s(2) by (simp add: same_content_def)
  have sets: "free_bufs st = free_bufs t" "on_chain st h = on_chain t h" for h
    using f(7) s(3) bn by (simp_all add: free_bufs_def on_chain_def)
  have "cached t = cached st" using f(5) same_content_cached [OF s(2)] by simp
  moreover have "b_count (bufs t n) = 0" "\<And>m. m < NR_BUFS \<Longrightarrow> 0 \<le> b_count (bufs t m)" "lru_of t (free_bufs t - {n})"
    "\<And>h. h < NR_BUF_HASH \<Longrightarrow> chain_of t h (on_chain t h - {n})"
    using f(5,7) s(3) nf links_count [OF ok(1)] same_links_of [OF f(4)] s(4,5) by (simp_all add: sets)
  ultimately show thesis using that [of t] f(1,2,6,7) s(1,3) nf(1) assms(3) same_view_trans [OF sc(3) [OF ok(2)] f(3)]
    by (simp add: evicted_def take_buf_def Let_def read_new_def t_def)
qed

lemma miss_ok:
  assumes "cache_ok E st" "io_good E" "dev \<noteq> NO_DEV" "\<And>m. \<not> cached st dev b m" "lru_front st \<noteq> None"
  obtains s n where "take_buf E dev b NORMAL st = Some (s, n)" "cache_ok E s" "same_view E st s" "cached s dev b n"
    "\<And>m. b_count (bufs s m) = b_count (bufs st m) + (if m = n then 1 else 0)" "\<And>k. k < io_bsize E dev \<Longrightarrow> b_data (bufs s n) k = view st dev b k"
    "\<And>d a m. cached st d a m \<Longrightarrow> b_count (bufs st m) \<noteq> 0 \<Longrightarrow> cached s d a m"
proof -
  obtain n where n: "lru_front st = Some n" using assms(5) by blast
  from evict_ok [OF assms(1,2) n] obtain t where e: "evicted E st n t" .
  then have t: "one_copy t" "clean_ok E t" "same_view E st t" "cached t = cached st" "b_dev (bufs t n) \<noteq> NO_DEV \<Longrightarrow> \<not> b_dirt (bufs t n)"
    "b_count (bufs t m) = b_count (bufs st m)" "n < NR_BUFS" "b_count (bufs t n) = 0" "m < NR_BUFS \<Longrightarrow> 0 \<le> b_count (bufs t m)"
    "lru_of t (free_bufs t - {n})" "h < NR_BUF_HASH \<Longrightarrow> chain_of t h (on_chain t h - {n})" for m h unfolding evicted_def by blast+
  have u: "\<And>m. \<not> cached t dev b m" using t(4) assms(4) by simp
  note r = read_new_ok [OF assms(2) t(1,2,7-11,5) u assms(3) refl]
  have "view t dev b k = view st dev b k" if "k < io_bsize E dev" for k using t(3) that assms(3) unfolding same_view_def by simp
  moreover have "cached (read_new E dev b n t) d a m" if "cached st d a m" "b_count (bufs st m) \<noteq> 0" for d a m
    using that t(4) t(6) [of m] t(8) r(6) by (cases "m = n") auto
  ultimately show thesis using that [of "read_new E dev b n t" n] e t(6) assms(3) r(1,3,4,5) same_view_trans [OF t(3) r(2)] by (simp add: evicted_def)
qed

text \<open>A cache in which not every buffer is in use: reading a block returns a buffer with what the reader of the device should see.\<close>

lemma get_block_reads:
  assumes "cache_ok E st" "io_good E" "dev \<noteq> NO_DEV" "lru_front st \<noteq> None"
  obtains s n where "get_block E dev b NORMAL st = Some (s, n)" "cache_ok E s" "same_view E st s" "cached s dev b n"
    "\<And>m. b_count (bufs s m) = b_count (bufs st m) + (if m = n then 1 else 0)" "\<And>k. k < io_bsize E dev \<Longrightarrow> b_data (bufs s n) k = view st dev b k"
    "\<And>d a m. cached st d a m \<Longrightarrow> b_count (bufs st m) \<noteq> 0 \<Longrightarrow> cached s d a m"
proof -
  have ok: "links_ok st" "one_copy st" using assms(1) by (simp_all add: cache_ok_def)
  obtain r where r: "hash_walk dev b st (buf_hash st (hash_of b)) = Some r"
    "case r of Some n \<Rightarrow> cached st dev b n | None \<Rightarrow> \<forall>n. \<not> cached st dev b n" using hash_walk_search [OF ok(1)] by blast
  show thesis
  proof (cases r)
    case None
    then have "\<And>m. \<not> cached st dev b m" using r(2) by simp
    from miss_ok [OF assms(1-3) this assms(4)] obtain s n where "take_buf E dev b NORMAL st = Some (s, n)" "cache_ok E s" "same_view E st s"
      "cached s dev b n" "\<And>m. b_count (bufs s m) = b_count (bufs st m) + (if m = n then 1 else 0)" "\<And>k. k < io_bsize E dev \<Longrightarrow> b_data (bufs s n) k = view st dev b k"
    "\<And>d a m. cached st d a m \<Longrightarrow> b_count (bufs st m) \<noteq> 0 \<Longrightarrow> cached s d a m" by blast
    then show thesis using that None r(1) assms(3) by (simp add: get_block_def)
  next
    case (Some n)
    then have n: "cached st dev b n" using r(2) by simp
    note h = hit_ok [OF assms(1) n assms(3) refl]
    show thesis using that h n view_cached [OF ok(2) assms(3) n] Some r(1) assms(3) by (simp add: get_block_def Let_def)
  qed
qed

lemma cache_ok_of:
  assumes "links_ok s" "same_content st s" "cache_ok E st"
  shows "cache_ok E s" "same_view E st s"
  using assms same_content_ok [OF assms(2)] by (simp_all add: cache_ok_def)

lemma flush_one_cache_ok:
  assumes "cache_ok E st" "n < NR_BUFS"
  shows "cache_ok E (flush_one E st n)" "same_view E st (flush_one E st n)"
  using assms flush_one_ok [of st E n] links_ok_cong [OF flush_one_links [of st E n]] by (simp_all add: cache_ok_def bufs_flush_one)

lemma rw_block_writes: "io_good E \<Longrightarrow> rw_block E WRITING n st = flush_one E st n"
  by (simp add: rw_block_def io_good_def flush_one_def Let_def)

text \<open>Releasing: the last user puts the buffer back on the LRU chain.\<close>

lemma release_ok:
  assumes "cache_ok E st" "n < NR_BUFS" "b_count (bufs st n) = 1" "t = upd_buf n (\<lambda>x. x\<lparr>b_count := b_count x - 1\<rparr>) st"
    and s: "s = put_front n (t\<lparr>bufs_in_use := u\<rparr>) \<or> s = put_rear n (t\<lparr>bufs_in_use := u\<rparr>)"
  shows "cache_ok E s" "same_view E st s" "same_content st s" "b_count (bufs s m) = b_count (bufs st m) - (if m = n then 1 else 0)"
proof -
  let ?t = "t\<lparr>bufs_in_use := u\<rparr>"
  have ok: "links_ok st" using assms(1) by (simp add: cache_ok_def)
  have core: "same_core (bufs ?t m) (bufs s m)" "buf_hash s = buf_hash ?t" "disk s = disk ?t" for m
    using s put_front_core(1) [of ?t m n] put_rear_core(1) [of ?t m n] by (auto simp: put_front_core(2,3) put_rear_core(2,3))
  have c: "same_content st s" using core assms(4) by (simp add: same_content_def same_core_def)
  have cnt: "b_count (bufs s m) = b_count (bufs st m) - (if m = n then 1 else 0)" for m using core assms(4) by (simp add: same_core_def)
  have "lru_of ?t (free_bufs st)" using links_lru [OF ok] by (rule lru_of_cong [rotated 3]) (simp_all add: assms(4))
  moreover have "free_bufs s = insert n (free_bufs st)" "n \<notin> free_bufs st" using cnt assms(2,3) by (auto simp: free_bufs_def)
  ultimately have "lru_of s (free_bufs s)" using s put_front_of put_rear_of by metis
  moreover have "chain_of s h (on_chain s h)" if "h < NR_BUF_HASH" for h
  proof -
    have "on_chain s h = on_chain st h" using c by (simp add: on_chain_def same_content_def)
    moreover have "chain_of s h (on_chain st h)"
      using links_chain [OF ok that] by (rule chain_of_cong [rotated 2]) (use core in \<open>simp_all add: assms(4) same_core_def\<close>)
    ultimately show ?thesis by simp
  qed
  moreover have "0 \<le> b_count (bufs s m)" if "m < NR_BUFS" for m using cnt links_count [OF ok that] assms(3) by simp
  ultimately have "links_ok s" by (simp add: links_ok_def)
  then show "cache_ok E s" "same_view E st s" using cache_ok_of c assms(1) by blast+
  show "same_content st s" "b_count (bufs s m) = b_count (bufs st m) - (if m = n then 1 else 0)" using c cnt by blast+
qed

lemma drop_user_ok:
  assumes "cache_ok E st" "n < NR_BUFS" "1 < b_count (bufs st n)" "s = upd_buf n (\<lambda>x. x\<lparr>b_count := b_count x - 1\<rparr>) st"
  shows "cache_ok E s" "same_view E st s"
proof -
  have ok: "links_ok st" using assms(1) by (simp add: cache_ok_def)
  have "same_links st s" by (simp add: same_links_def assms(4))
  moreover have "free_bufs s = free_bufs st" "on_chain s = on_chain st" using assms(3,4) by (auto simp: free_bufs_def on_chain_def fun_eq_iff)
  moreover have "0 \<le> b_count (bufs s m)" if "m < NR_BUFS" for m using links_count [OF ok that] assms(3,4) by simp
  ultimately have "links_ok s" using ok same_links_of by (simp add: links_ok_def)
  moreover have "same_content st s" by (simp add: same_content_def assms(4))
  ultimately show "cache_ok E s" "same_view E st s" using cache_ok_of assms(1) by blast+
qed

lemma put_block_ok:
  assumes "cache_ok E st" "io_good E" "n < NR_BUFS" "0 < b_count (bufs st n)"
  shows "cache_ok E (put_block E (Some n) ty st)" "same_view E st (put_block E (Some n) ty st)"
    "b_count (bufs (put_block E (Some n) ty st) m) = b_count (bufs st m) - (if m = n then 1 else 0)" "cached (put_block E (Some n) ty st) = cached st"
proof -
  define t where "t = upd_buf n (\<lambda>x. x\<lparr>b_count := b_count x - 1\<rparr>) st"
  define s where "s = (if b_dev (bufs t n) = DEV_RAM \<or> bit ty BIT_ONE_SHOT then put_front n (t\<lparr>bufs_in_use := bufs_in_use t - 1\<rparr>)
      else put_rear n (t\<lparr>bufs_in_use := bufs_in_use t - 1\<rparr>))"
  have "cache_ok E (put_block E (Some n) ty st) \<and> same_view E st (put_block E (Some n) ty st)
      \<and> (\<forall>m. b_count (bufs (put_block E (Some n) ty st) m) = b_count (bufs st m) - (if m = n then 1 else 0)) \<and> cached (put_block E (Some n) ty st) = cached st"
  proof (cases "b_count (bufs st n) = 1")
    case True
    have "s = put_front n (t\<lparr>bufs_in_use := bufs_in_use t - 1\<rparr>) \<or> s = put_rear n (t\<lparr>bufs_in_use := bufs_in_use t - 1\<rparr>)"
      by (simp add: s_def)
    note r = release_ok [OF assms(1,3) True t_def this]
    have "put_block E (Some n) ty st = (if bit ty BIT_WRITE_IMMED \<and> b_dirt (bufs s n) \<and> b_dev (bufs s n) \<noteq> NO_DEV then flush_one E s n else s)"
      using True by (simp add: put_block_def Let_def s_def t_def rw_block_writes [OF assms(2)])
    then show ?thesis using r(1,2,4) flush_one_cache_ok [OF r(1) assms(3)] same_view_trans same_content_cached [OF r(3)] by (auto simp: bufs_flush_one flush_one_cached)
  next
    case False
    then have "put_block E (Some n) ty st = t" by (simp add: put_block_def Let_def t_def)
    then show ?thesis using False drop_user_ok [OF assms(1,3) _ t_def] assms(4) by (simp add: t_def cached_def fun_eq_iff)
  qed
  then show "cache_ok E (put_block E (Some n) ty st)" "same_view E st (put_block E (Some n) ty st)"
    "b_count (bufs (put_block E (Some n) ty st) m) = b_count (bufs st m) - (if m = n then 1 else 0)"
    "cached (put_block E (Some n) ty st) = cached st" by auto
qed

text \<open>A user who changes the data of a buffer marks it dirty.\<close>

definition set_data :: "bufno \<Rightarrow> block \<Rightarrow> cache \<Rightarrow> cache" where
  "set_data n d st = upd_buf n (\<lambda>x. x\<lparr>b_data := d, b_dirt := True\<rparr>) st"

lemma set_data_cached: "cached (set_data n d st) = cached st"
  by (auto simp: set_data_def cached_def fun_eq_iff)

lemma set_data_ok:
  assumes "cache_ok E st" "cached st dev b n" "dev \<noteq> NO_DEV"
  shows "cache_ok E (set_data n d st)" "d' \<noteq> NO_DEV \<Longrightarrow> view (set_data n d st) d' b' = (if d' = dev \<and> b' = b then d else view st d' b')"
proof -
  let ?s = "set_data n d st"
  have ok: "links_ok st" "one_copy st" "clean_ok E st" using assms(1) by (simp_all add: cache_ok_def)
  have b: "bufs ?s m = (if m = n then (bufs st n)\<lparr>b_data := d, b_dirt := True\<rparr> else bufs st m)" "disk ?s = disk st" "same_links st ?s" for m
    by (simp_all add: set_data_def same_links_def)
  have o: "one_copy ?s" using ok(2) by (simp add: one_copy_def set_data_cached)
  have "clean_ok E ?s" using ok(3) b by (simp add: clean_ok_def set_data_cached)
  moreover have "links_ok ?s" using ok(1) by (rule links_ok_cong [rotated 2, OF _ b(3)]) (simp add: b)
  ultimately show "cache_ok E ?s" using o by (simp add: cache_ok_def)
  assume d: "d' \<noteq> NO_DEV"
  show "view ?s d' b' = (if d' = dev \<and> b' = b then d else view st d' b')"
  proof (cases "\<exists>m. cached st d' b' m")
    case True
    then obtain m where m: "cached st d' b' m" by blast
    then have "view ?s d' b' = b_data (bufs ?s m)" "view st d' b' = b_data (bufs st m)"
      using view_cached [OF o d] view_cached [OF ok(2) d] by (simp_all add: set_data_cached)
    moreover have "m = n \<longleftrightarrow> d' = dev \<and> b' = b" using m assms(2) ok(2) d unfolding one_copy_def by (auto simp: cached_def)
    ultimately show ?thesis by (simp add: b)
  next
    case False
    then show ?thesis using assms(2) b(2) by (auto simp: view_uncached set_data_cached)
  qed
qed

section \<open>The pool at the start\<close>

lemma buf_pool_buf: "n < NR_BUFS \<Longrightarrow> b_next (bufs (buf_pool st) n) = (if Suc n = NR_BUFS then None else Some (Suc n))
   \<and> b_prev (bufs (buf_pool st) n) = (if n = 0 then None else Some (n - 1)) \<and> b_hash (bufs (buf_pool st) n) = (if Suc n = NR_BUFS then None else Some (Suc n))
   \<and> b_dev (bufs (buf_pool st) n) = NO_DEV \<and> b_blocknr (bufs (buf_pool st) n) = NO_BLOCK"
  by (auto simp: buf_pool_def)

lemma hd_opt_upt: "hd_opt [i ..< j] = (if i < j then Some i else None)"
  by (simp add: hd_opt_def upt_rec [of i])

lemma dll_upt: "dll (bufs (buf_pool st)) (if i = 0 then None else Some (i - 1)) [i ..< NR_BUFS] None"
proof (induction "NR_BUFS - i" arbitrary: i)
  case (Suc k)
  then have i: "i < NR_BUFS" "[i ..< NR_BUFS] = i # [Suc i ..< NR_BUFS]" by (simp_all add: upt_conv_Cons)
  have "dll (bufs (buf_pool st)) (Some i) [Suc i ..< NR_BUFS] None" using Suc.hyps(1) [of "Suc i"] Suc.hyps(2) by simp
  then show ?case using i buf_pool_buf [OF i(1)] by (auto simp: hd_opt_upt)
qed simp

lemma hchain_upt: "i < NR_BUFS \<Longrightarrow> hchain (bufs (buf_pool st)) (Some i) [i ..< NR_BUFS]"
proof (induction "NR_BUFS - i" arbitrary: i)
  case (Suc k)
  then show ?case using buf_pool_buf [of i st] by (cases "Suc i = NR_BUFS") (auto simp: upt_conv_Cons)
qed simp

lemma buf_pool_ok:
  assumes "\<And>n. b_count (bufs st n) = 0" "\<And>h. buf_hash st h = None"
  shows "cache_ok E (buf_pool st)" "lru_front (buf_pool st) \<noteq> None"
proof -
  let ?s = "buf_pool st"
  have n: "0 < NR_BUFS" by (simp add: NR_BUFS_def)
  have b: "b_count (bufs ?s m) = 0" "m < NR_BUFS \<Longrightarrow> b_dev (bufs ?s m) = NO_DEV \<and> b_blocknr (bufs ?s m) = NO_BLOCK" for m
    using assms buf_pool_buf by (simp_all add: buf_pool_def)
  have f: "lru_front ?s = Some 0" "lru_rear ?s = Some (NR_BUFS - 1)" by (simp_all add: buf_pool_def)
  have "lru ?s [0 ..< NR_BUFS]" using dll_upt [of st 0] n by (simp add: lru_def f hd_opt_upt last_opt_def)
  then have "lru_of ?s (free_bufs ?s)" unfolding lru_of_def by (rule exI [of _ "[0 ..< NR_BUFS]", OF conjI]) (auto simp: free_bufs_def b)
  moreover have "chain_of ?s h (on_chain ?s h)" for h
  proof (cases "h = 0")
    case True
    have "hchain (bufs ?s) (buf_hash ?s 0) [0 ..< NR_BUFS]" using hchain_upt [of 0 st] n by (simp add: buf_pool_def)
    moreover have "set [0 ..< NR_BUFS] = on_chain ?s 0" using b by (auto simp: on_chain_def hash_of_def)
    ultimately show ?thesis using True unfolding chain_of_def by (metis distinct_upt)
  next
    case False
    then have "on_chain ?s h = {}" using b by (auto simp: on_chain_def hash_of_def)
    then show ?thesis using False assms(2) by (auto simp: chain_of_def buf_pool_def intro!: exI [of _ "[]"])
  qed
  ultimately show "cache_ok E ?s" using b by (auto simp: cache_ok_def links_ok_def one_copy_def clean_ok_def cached_def)
  show "lru_front ?s \<noteq> None" by (simp add: buf_pool_def)
qed

end
