(* ===== verification/Fs_Store.thy ===== *)
theory Fs_Store
  imports Fs_Cache
begin

text \<open>
  The contract of the buffer cache as its users in the file server rely on it: a store of blocks, of which a user holds some while it
  reads or changes them.  The locale \<open>block_store\<close> states it, with the two ways in which the file server uses a block (look into it,
  or read, change and release it); it is interpreted on \<open>get_block\<close> and \<open>put_block\<close>.
\<close>

section \<open>The devices as the file server sees them\<close>

definition clip :: "io_env \<Rightarrow> int \<Rightarrow> block \<Rightarrow> block" where
  "clip E dev d k = (if dev \<noteq> NO_DEV \<and> k < io_bsize E dev then d k else 0)"

definition dev_image :: "io_env \<Rightarrow> cache \<Rightarrow> int \<Rightarrow> int \<Rightarrow> block" where
  "dev_image E st dev b = clip E dev (view st dev b)"

definition users :: "cache \<Rightarrow> bufno \<Rightarrow> int" where
  "users st n = b_count (bufs st n)"

definition room :: "cache \<Rightarrow> bool" where
  "room st \<longleftrightarrow> lru_front st \<noteq> None"

definition buf_data :: "cache \<Rightarrow> bufno \<Rightarrow> block" where
  "buf_data st n = b_data (bufs st n)"

definition io_ok :: "io_env \<Rightarrow> cache \<Rightarrow> bool" where
  "io_ok E st \<longleftrightarrow> cache_ok E st \<and> io_good E"

definition zero_block :: "bufno \<Rightarrow> cache \<Rightarrow> cache" where
  "zero_block n st = set_data n (\<lambda>k. if k < 4096 then 0 else b_data (bufs st n) k) st"

section \<open>The contract\<close>

text \<open>What stays when a user has released every block it took: the users of the buffers, and the blocks that others hold.\<close>

definition settled :: "('s \<Rightarrow> bool) \<Rightarrow> ('s \<Rightarrow> bool) \<Rightarrow> ('s \<Rightarrow> bufno \<Rightarrow> int) \<Rightarrow> ('s \<Rightarrow> int \<Rightarrow> int \<Rightarrow> bufno \<Rightarrow> bool) \<Rightarrow> 's \<Rightarrow> 's \<Rightarrow> bool" where
  "settled ok free cnt held s s' \<longleftrightarrow> ok s' \<and> free s' \<and> cnt s' = cnt s \<and> (\<forall>d a m. held s d a m \<longrightarrow> cnt s m \<noteq> 0 \<longrightarrow> held s' d a m)"

lemma settled_trans: "settled ok free cnt held s t \<Longrightarrow> settled ok free cnt held t u \<Longrightarrow> settled ok free cnt held s u"
  by (simp add: settled_def)

locale block_store =
  fixes ok :: "'s \<Rightarrow> bool" and free :: "'s \<Rightarrow> bool" and cnt :: "'s \<Rightarrow> bufno \<Rightarrow> int" and img :: "'s \<Rightarrow> int \<Rightarrow> int \<Rightarrow> block"
    and held :: "'s \<Rightarrow> int \<Rightarrow> int \<Rightarrow> bufno \<Rightarrow> bool" and get :: "int \<Rightarrow> int \<Rightarrow> 's \<Rightarrow> ('s \<times> bufno) option" and dat :: "'s \<Rightarrow> bufno \<Rightarrow> block"
    and store :: "bufno \<Rightarrow> block \<Rightarrow> 's \<Rightarrow> 's" and put :: "bufno \<Rightarrow> 's \<Rightarrow> 's" and cut :: "int \<Rightarrow> block \<Rightarrow> block"
  assumes get_ok: "ok s \<Longrightarrow> free s \<Longrightarrow> dev \<noteq> NO_DEV \<Longrightarrow> \<exists>s' n. get dev b s = Some (s', n) \<and> ok s' \<and> img s' = img s \<and> held s' dev b n
      \<and> cut dev (dat s' n) = img s dev b \<and> cnt s' = (cnt s)(n := cnt s n + 1) \<and> 0 \<le> cnt s n
      \<and> (\<forall>d a m. held s d a m \<longrightarrow> cnt s m \<noteq> 0 \<longrightarrow> held s' d a m)"
    and held_dat: "ok s \<Longrightarrow> held s dev b n \<Longrightarrow> dev \<noteq> NO_DEV \<Longrightarrow> cut dev (dat s n) = img s dev b"
    and store_ok: "ok s \<Longrightarrow> held s dev b n \<Longrightarrow> dev \<noteq> NO_DEV \<Longrightarrow> ok (store n d s) \<and> held (store n d s) = held s \<and> cnt (store n d s) = cnt s
      \<and> img (store n d s) = (img s)(dev := (img s dev)(b := cut dev d))"
    and put_ok: "ok s \<Longrightarrow> held s dev b n \<Longrightarrow> 0 < cnt s n \<Longrightarrow> ok (put n s) \<and> img (put n s) = img s \<and> cnt (put n s) = (cnt s)(n := cnt s n - 1) \<and> held (put n s) = held s"
    and free_cnt: "ok s \<Longrightarrow> ok t \<Longrightarrow> cnt s = cnt t \<Longrightarrow> free s = free t"
begin

lemma changed:
  assumes "ok s" "free s" "dev \<noteq> NO_DEV"
  obtains s' n where "get dev b s = Some (s', n)" "cut dev (dat s' n) = img s dev b" "held s' dev b n"
    "\<And>d. settled ok free cnt held s (put n (store n d s'))" "\<And>d. img (put n (store n d s')) = (img s)(dev := (img s dev)(b := cut dev d))"
    "settled ok free cnt held s (put n s')" "img (put n s') = img s"
proof -
  from get_ok [OF assms, of b] obtain s' n where g: "get dev b s = Some (s', n)" "ok s'" "img s' = img s" "held s' dev b n"
    "cut dev (dat s' n) = img s dev b" "cnt s' = (cnt s)(n := cnt s n + 1)" "0 \<le> cnt s n" "\<And>d a m. held s d a m \<Longrightarrow> cnt s m \<noteq> 0 \<Longrightarrow> held s' d a m"
    by blast
  have put: "ok (put n t)" "img (put n t) = img t" "cnt (put n t) = cnt s" "held (put n t) = held s'" "free (put n t)"
    if t: "ok t" "held t = held s'" "cnt t = cnt s'" for t
  proof -
    have "ok (put n t) \<and> img (put n t) = img t \<and> cnt (put n t) = (cnt t)(n := cnt t n - 1) \<and> held (put n t) = held t"
      using t g(4,6,7) by (intro put_ok [of _ dev b]) simp_all
    then show "ok (put n t)" "img (put n t) = img t" "cnt (put n t) = cnt s" "held (put n t) = held s'" using t g(6) by auto
    then show "free (put n t)" using free_cnt assms(1,2) by blast
  qed
  note st = store_ok [OF g(2,4) assms(3)]
  show thesis
    by (rule that [OF g(1,5,4)]) (use put [of s'] put [of "store n d s'" for d] st g in \<open>simp_all add: settled_def\<close>)
qed

end

section \<open>The cache keeps it\<close>

abbreviation (input) calm :: "io_env \<Rightarrow> cache \<Rightarrow> cache \<Rightarrow> bool" where
  "calm E \<equiv> settled (io_ok E) room users cached"

lemma image_same: "same_view E s t \<Longrightarrow> dev_image E t = dev_image E s"
  by (auto simp: same_view_def dev_image_def clip_def fun_eq_iff)

lemma room_iff: "cache_ok E st \<Longrightarrow> room st \<longleftrightarrow> (\<exists>n. n < NR_BUFS \<and> users st n = 0)"
proof -
  assume "cache_ok E st"
  then obtain ls where "lru st ls" "set ls = free_bufs st" using links_lru unfolding cache_ok_def lru_of_def by blast
  moreover have "room st \<longleftrightarrow> set ls \<noteq> {}" using calculation(1) by (auto simp: room_def lru_def)
  ultimately show ?thesis by (auto simp: free_bufs_def users_def)
qed

lemma cached_upd_count: "cached (upd_buf n (\<lambda>x. x\<lparr>b_count := f x\<rparr>) st) = cached st"
  by (auto simp: cached_def fun_eq_iff)

interpretation bc: block_store "io_ok E" room users "dev_image E" cached "\<lambda>dev b. get_block E dev b NORMAL" buf_data set_data
  "\<lambda>n. put_block E (Some n) ty" "clip E" for E ty
proof (unfold_locales, goal_cases)
  case (1 s dev b)
  then obtain s' n where g: "get_block E dev b NORMAL s = Some (s', n)" "cache_ok E s'" "same_view E s s'" "cached s' dev b n"
    "\<And>m. b_count (bufs s' m) = b_count (bufs s m) + (if m = n then 1 else 0)" "\<And>k. k < io_bsize E dev \<Longrightarrow> b_data (bufs s' n) k = view s dev b k"
    "\<And>d a m. cached s d a m \<Longrightarrow> b_count (bufs s m) \<noteq> 0 \<Longrightarrow> cached s' d a m"
    using get_block_reads [of E s dev b] unfolding io_ok_def room_def by metis
  then have "0 \<le> b_count (bufs s n)" using 1 links_count [of s n] by (auto simp: io_ok_def cache_ok_def cached_def)
  then show ?case using g 1 image_same [OF g(3)]
    by (intro exI [of _ s'] exI [of _ n]) (auto simp: io_ok_def clip_def dev_image_def buf_data_def users_def fun_eq_iff)
next
  case (2 s dev b n)
  then show ?case using view_cached [of s dev b n] by (simp add: io_ok_def cache_ok_def dev_image_def buf_data_def)
next
  case (3 s dev b n d)
  then have c: "cache_ok E s" "io_good E" by (simp_all add: io_ok_def)
  have "dev_image E (set_data n d s) = (dev_image E s)(dev := (dev_image E s dev)(b := clip E dev d))"
    using set_data_ok(2) [OF c(1) 3(2,3), where d = d] 3(3) by (auto simp: fun_eq_iff dev_image_def clip_def)
  then show ?case using 3 c set_data_ok(1) [OF c(1) 3(2,3), where d = d]
    by (simp add: io_ok_def set_data_cached) (simp add: users_def fun_eq_iff set_data_def)
next
  case (4 s dev b n)
  then have "n < NR_BUFS" by (simp add: cached_def)
  then show ?case using 4 put_block_ok [of E s n] image_same [OF put_block_ok(2) [of E s n]]
    by (auto simp: io_ok_def users_def fun_eq_iff)
next
  case (5 s t)
  then show ?case using room_iff [of E s] room_iff [of E t] by (simp add: io_ok_def)
qed

text \<open>A new block is not read: the user overwrites the buffer, here with zeros.\<close>

lemma set_data_fill: "io_good E \<Longrightarrow> set_data n d (fill_buf dev b n t) = set_data n d (read_new E dev b n t)"
  by (simp add: read_new_def rw_block_def io_good_def read_in_def Let_def set_data_def upd_buf_def)

lemma take_buf_no_read:
  assumes "dev \<noteq> NO_DEV" "take_buf E dev b NORMAL st = Some (s, n)" "io_good E"
  obtains s' where "take_buf E dev b NO_READ st = Some (s', n)" "\<And>d. set_data n d s' = set_data n d s"
proof -
  obtain t where "take_buf E dev b NO_READ st = Some (fill_buf dev b n t, n)" "s = read_new E dev b n t"
    using assms(1,2) by (auto simp: take_buf_def read_new_def Let_def split: option.splits)
  then show thesis using that set_data_fill [OF assms(3)] by simp
qed

lemma get_block_new:
  assumes "io_ok E st" "dev \<noteq> NO_DEV" "get_block E dev b NORMAL st = Some (s, n)"
  obtains s' where "get_block E dev b NO_READ st = Some (s', n)" "\<And>d. set_data n d s' = set_data n d s"
proof -
  obtain r where r: "hash_walk dev b st (buf_hash st (hash_of b)) = Some r"
    using hash_walk_search [of st dev b] assms(1) by (auto simp: io_ok_def cache_ok_def)
  show thesis
  proof (cases r)
    case None
    then have "take_buf E dev b NORMAL st = Some (s, n)" using assms(2,3) r by (simp add: get_block_def)
    moreover have "io_good E" using assms(1) by (simp add: io_ok_def)
    ultimately obtain s' where "take_buf E dev b NO_READ st = Some (s', n)" "\<And>d. set_data n d s' = set_data n d s"
      using take_buf_no_read [OF assms(2)] by metis
    then show thesis using that [of s'] None r assms(2) by (simp add: get_block_def)
  next
    case (Some m)
    then have "get_block E dev b NO_READ st = get_block E dev b NORMAL st" using assms(2) r by (simp add: get_block_def)
    then show thesis using that [of s] assms(3) by simp
  qed
qed

section \<open>Vectors that fit\<close>

text \<open>The hypothesis \<open>io_good\<close> covers vectors of every length.  As long as no device has more dirty blocks in the cache than \<open>iovec\<close> has
  entries, it is enough that vectors of that length are transferred: \<open>short_io\<close> is the environment that transfers all, and the cache cannot tell
  the difference.\<close>

definition io_works :: "io_env \<Rightarrow> bool" where
  "io_works E \<longleftrightarrow> (\<forall>w dev b. io_rw E w dev b = int (io_bsize E dev)) \<and> (\<forall>w dev b j. j \<le> NR_IOREQS \<longrightarrow> io_vec E w dev b j = (j, 0))"

definition few_dirty :: "int \<Rightarrow> cache \<Rightarrow> bool" where
  "few_dirty dev st \<longleftrightarrow> length (dirty_bufs dev st) \<le> NR_IOREQS"

definition short_io :: "io_env \<Rightarrow> io_env" where
  "short_io E = E\<lparr>io_vec := (\<lambda>_ _ _ j. (j, 0))\<rparr>"

lemma short_io_good: "io_works E \<Longrightarrow> io_good (short_io E)"
  by (simp add: io_works_def io_good_def short_io_def)

lemma short_io_ops [simp]:
  "rw_block (short_io E) w n = rw_block E w n" "flush_one (short_io E) = flush_one E" "put_block (short_io E) = put_block E"
  "clip (short_io E) = clip E" "dev_image (short_io E) = dev_image E" "cache_ok (short_io E) = cache_ok E"
proof -
  show r: "rw_block (short_io E) w n = rw_block E w n" for w n by (simp add: fun_eq_iff rw_block_def write_out_def read_in_def short_io_def Let_def)
  show "put_block (short_io E) = put_block E" by (simp add: fun_eq_iff put_block_def r Let_def split: option.split)
  show "flush_one (short_io E) = flush_one E" by (simp add: fun_eq_iff flush_one_def write_out_def short_io_def)
  show c: "clip (short_io E) = clip E" by (simp add: fun_eq_iff clip_def short_io_def)
  show "dev_image (short_io E) = dev_image E" by (simp add: fun_eq_iff dev_image_def c)
  show "cache_ok (short_io E) = cache_ok E" by (simp add: fun_eq_iff cache_ok_def clean_ok_def short_io_def)
qed

lemma flushall_short: "io_works E \<Longrightarrow> few_dirty dev st \<Longrightarrow> flushall (short_io E) dev st = flushall E dev st"
  using flushall_writes_short [of dev st E] flushall_writes_short [of dev st "short_io E"]
  by (simp add: io_works_def few_dirty_def short_io_def [of E]) (metis short_io_def short_io_ops(2))

lemma off_hash_refl [simp]: "off_hash x x" by (simp add: off_hash_def)

lemma unhash_walk_off: "unhash_walk n st prv = Some st1 \<Longrightarrow> off_hash (bufs st m) (bufs st1 m)"
proof (erule unhash_walk.raw_induct [rotated, of n st prv st1 "\<lambda>n st prv st1. off_hash (bufs st m) (bufs st1 m)"])
  fix walk n st prv st1
  assume "\<And>n st prv st1. walk n st prv = Some st1 \<Longrightarrow> off_hash (bufs st m) (bufs st1 m)"
    and "(if prv = None then None
      else if b_hash (bufs st (the prv)) = None then Some st
      else if b_hash (bufs st (the prv)) = Some n then Some (upd_buf (the prv) (\<lambda>x. x\<lparr>b_hash := b_hash (bufs st n)\<rparr>) st)
      else walk n st (b_hash (bufs st (the prv)))) = Some st1"
  then show "off_hash (bufs st m) (bufs st1 m)" by (auto simp: off_hash_def split: if_splits)
qed

lemma unhash_off: "unhash n st = Some st1 \<Longrightarrow> off_hash (bufs st m) (bufs st1 m)"
  by (auto simp: unhash_def Let_def unhash_walk_off split: if_splits)

lemma few_dirty_unhash: "unhash n (rm_lru n st) = Some st1 \<Longrightarrow> few_dirty dev st1 = few_dirty dev st"
proof -
  assume u: "unhash n (rm_lru n st) = Some st1"
  have "b_dirt (bufs st1 m) = b_dirt (bufs st m) \<and> b_dev (bufs st1 m) = b_dev (bufs st m)" for m
    using off_hashD [OF unhash_off [OF u]] rm_lru_core(1) [of st m n] by (simp add: same_core_def)
  then show ?thesis by (simp add: few_dirty_def dirty_bufs_def)
qed

lemma get_block_short: "io_works E \<Longrightarrow> (\<And>dv. few_dirty dv st) \<Longrightarrow> get_block (short_io E) dev b s st = get_block E dev b s st"
  by (auto simp: get_block_def take_buf_def Let_def flushall_short few_dirty_unhash split: option.split)

end
