(* ===== verification/Fs_Super.thy ===== *)
theory Fs_Super
  imports Fs_Store
begin

text \<open>
  The super block table and the bit maps of inodes and zones of the file server (\<open>src/servers/fs/super.c\<close>, \<open>alloc_zone\<close> and \<open>free_zone\<close> of
  \<open>cache.c\<close>, \<open>conv2\<close> and \<open>conv4\<close> of \<open>utility.c\<close>).  The maps live in blocks of the device and are read and changed through the cache.
  \<open>None\<close> is the end of the server in \<open>panic\<close>.  Unsigned 32 bit arithmetic that can wrap is written out.
\<close>

section \<open>State\<close>

record super_block =
  s_ninodes :: nat
  s_nzones :: nat
  s_imap_blocks :: int
  s_zmap_blocks :: int
  s_firstdatazone :: nat
  s_log_zone_size :: int
  s_max_size :: nat
  s_zones :: nat
  s_magic :: int
  s_block_size :: nat
  s_isup :: "nat option"
  s_imount :: "nat option"
  s_inodes_per_block :: nat
  s_dev :: int
  s_rd_only :: bool
  s_native :: bool
  s_version :: nat
  s_ndzones :: nat
  s_nindirs :: nat
  s_isearch :: nat
  s_zsearch :: nat

record inode =
  i_mode :: nat
  i_nlinks :: int
  i_uid :: int
  i_gid :: int
  i_size :: nat
  i_atime :: int
  i_mtime :: int
  i_ctime :: int
  i_zone :: "nat list"
  i_dev :: int
  i_num :: nat
  i_count :: int
  i_ndzones :: nat
  i_nindirs :: nat
  i_sp :: nat
  i_dirt :: bool
  i_pipe :: bool
  i_mount :: bool
  i_seek :: bool
  i_update :: nat

record filp =
  filp_mode :: nat
  filp_flags :: nat
  filp_count :: int
  filp_ino :: nat
  filp_pos :: nat

record fproc =
  fp_umask :: nat
  fp_workdir :: nat
  fp_rootdir :: nat
  fp_filp :: "nat \<Rightarrow> nat option"
  fp_filp_inuse :: "nat \<Rightarrow> bool"
  fp_realuid :: int
  fp_effuid :: int
  fp_realgid :: int
  fp_effgid :: int
  fp_fd :: int
  fp_buffer :: nat
  fp_nbytes :: int
  fp_suspended :: bool
  fp_revived :: bool
  fp_task :: int
  fp_pid :: int
  fp_cloexec :: nat
  fp_endpoint :: int

record file_lock =
  lock_type :: nat
  lock_pid :: int
  lock_inode :: nat
  lock_first :: nat
  lock_last :: nat

text \<open>\<open>cur_fp\<close> is the process table entry of the caller (\<open>fp\<close>), \<open>fs_out\<close> the replies that were sent, to whom and with which result; \<open>fp_filp_inuse\<close> and \<open>fp_cloexec\<close> are sets of file descriptors.\<close>

record fs_st =
  fcache :: cache
  supers :: "nat \<Rightarrow> super_block"
  inodes :: "nat \<Rightarrow> inode"
  err_code :: int
  fprocs :: "nat \<Rightarrow> fproc"
  filps :: "nat \<Rightarrow> filp"
  cur_fp :: nat
  file_locks :: "file_lock list"
  nr_locks :: int
  reviving :: int
  susp_count :: int
  fs_out :: "(int \<times> int) list"

definition NR_SUPERS :: nat where "NR_SUPERS = 12"
definition MIN_BLOCK_SIZE :: nat where "MIN_BLOCK_SIZE = 1024"

abbreviation (input) "IMAP \<equiv> 0 :: nat"
abbreviation (input) "ZMAP \<equiv> 1 :: nat"
abbreviation (input) "NO_BIT \<equiv> 0 :: nat"
abbreviation (input) "NO_ZONE \<equiv> 0 :: nat"
abbreviation (input) "START_BLOCK \<equiv> 2 :: int"
abbreviation (input) "ENOSPC \<equiv> 28 :: int"

section \<open>Words of a block\<close>

definition conv2 :: "bool \<Rightarrow> 32 word \<Rightarrow> 32 word" where
  "conv2 norm w = (if norm then and w 0xFFFF else or (push_bit 8 (and w 0xFF)) (and (drop_bit 8 w) 0xFF))"

definition conv4 :: "bool \<Rightarrow> 32 word \<Rightarrow> 32 word" where
  "conv4 norm x =
    (if norm then x
     else or (push_bit 16 (conv2 False (and x 0xFFFF))) (conv2 False (and (drop_bit 16 x) 0xFFFF)))"

definition get16 :: "block \<Rightarrow> nat \<Rightarrow> 16 word" where
  "get16 d i = or (ucast (d (2 * i))) (push_bit 8 (ucast (d (2 * i + 1))))"

definition put16 :: "block \<Rightarrow> nat \<Rightarrow> 16 word \<Rightarrow> block" where
  "put16 d i w = d(2 * i := ucast w, 2 * i + 1 := ucast (drop_bit 8 w))"

definition conv16 :: "bool \<Rightarrow> 16 word \<Rightarrow> 16 word" where
  "conv16 norm w = ucast (conv2 norm (ucast w))"

section \<open>The table\<close>

definition get_super :: "int \<Rightarrow> (nat \<Rightarrow> super_block) \<Rightarrow> nat option" where
  "get_super dev sps = (if dev = NO_DEV then None else find (\<lambda>i. s_dev (sps i) = dev) [0 ..< NR_SUPERS])"

definition get_block_size :: "int \<Rightarrow> (nat \<Rightarrow> super_block) \<Rightarrow> nat option" where
  "get_block_size dev sps =
    (if dev = NO_DEV then None
     else case find (\<lambda>i. s_dev (sps i) = dev) [0 ..< NR_SUPERS] of Some i \<Rightarrow> Some (s_block_size (sps i)) | None \<Rightarrow> Some MIN_BLOCK_SIZE)"

section \<open>The bit maps\<close>

definition bitmap_chunks :: "super_block \<Rightarrow> nat" where "bitmap_chunks sp = s_block_size sp div 2"
definition bits_per_block :: "super_block \<Rightarrow> nat" where "bits_per_block sp = bitmap_chunks sp * 16"

definition map_start :: "nat \<Rightarrow> super_block \<Rightarrow> int" where
  "map_start mp sp = (if mp = IMAP then START_BLOCK else (START_BLOCK + s_imap_blocks sp) mod 2 ^ 32)"

definition map_bits :: "nat \<Rightarrow> super_block \<Rightarrow> nat" where
  "map_bits mp sp = nat ((if mp = IMAP then int (s_ninodes sp) + 1 else int (s_zones sp) - (int (s_firstdatazone sp) - 1)) mod 2 ^ 32)"

definition bit_blocks :: "nat \<Rightarrow> super_block \<Rightarrow> nat" where
  "bit_blocks mp sp = nat ((if mp = IMAP then s_imap_blocks sp else s_zmap_blocks sp) mod 2 ^ 32)"

text \<open>The search for a free bit: in a word, in the words of a block, in the blocks.\<close>

function first_zero :: "16 word \<Rightarrow> nat \<Rightarrow> nat" where
  "first_zero k i = (if bit k i then first_zero k (i + 1) else i)"
  by auto
termination by (relation "measure (\<lambda>(k, i). 16 - i)") (auto dest: bit_imp_le_length)

declare first_zero.simps [simp del]

fun scan_words :: "bool \<Rightarrow> nat \<Rightarrow> nat \<Rightarrow> block \<Rightarrow> nat \<Rightarrow> nat \<Rightarrow> (nat \<times> block) option" where
  "scan_words native base lim d w 0 = None"
| "scan_words native base lim d w (Suc m) =
    (if get16 d w = - 1 then scan_words native base lim d (w + 1) m
     else
      let k = conv16 native (get16 d w); i = first_zero k 0; b = base + w * 16 + i in
      if b \<ge> lim then None else Some (b, put16 d w (conv16 native (or k (push_bit i 1)))))"

fun alloc_loop :: "io_env \<Rightarrow> super_block \<Rightarrow> nat \<Rightarrow> nat \<Rightarrow> nat \<Rightarrow> nat \<Rightarrow> cache \<Rightarrow> (cache \<times> nat) option" where
  "alloc_loop E sp mp blk word 0 c = Some (c, NO_BIT)"
| "alloc_loop E sp mp blk word (Suc m) c =
    (case get_block E (s_dev sp) (map_start mp sp + int blk) NORMAL c of None \<Rightarrow> None
     | Some (c1, n) \<Rightarrow>
       (case scan_words (s_native sp) (blk * bits_per_block sp) (map_bits mp sp) (buf_data c1 n) word (bitmap_chunks sp - word) of
          Some (b, d) \<Rightarrow> Some (put_block E (Some n) MAP_BLOCK (set_data n d c1), b)
        | None \<Rightarrow> alloc_loop E sp mp (if blk + 1 \<ge> bit_blocks mp sp then 0 else blk + 1) 0 m (put_block E (Some n) MAP_BLOCK c1)))"

definition alloc_bit :: "io_env \<Rightarrow> super_block \<Rightarrow> nat \<Rightarrow> nat \<Rightarrow> cache \<Rightarrow> (cache \<times> nat) option" where
  "alloc_bit E sp mp origin c =
    (if s_rd_only sp then None
     else
      let org = (if origin \<ge> map_bits mp sp then 0 else origin)
      in alloc_loop E sp mp (org div bits_per_block sp) ((org mod bits_per_block sp) div 16) (bit_blocks mp sp + 1) c)"

definition free_bit :: "io_env \<Rightarrow> super_block \<Rightarrow> nat \<Rightarrow> nat \<Rightarrow> cache \<Rightarrow> cache option" where
  "free_bit E sp mp b c =
    (if s_rd_only sp then None
     else
      let w = (b mod bits_per_block sp) div 16 in
      case get_block E (s_dev sp) (map_start mp sp + int (b div bits_per_block sp)) NORMAL c of None \<Rightarrow> None
      | Some (c1, n) \<Rightarrow>
        let d = buf_data c1 n; k = conv16 (s_native sp) (get16 d w) in
        if \<not> bit k (b mod 16) then None
        else Some (put_block E (Some n) MAP_BLOCK (set_data n (put16 d w (conv16 (s_native sp) (and k (not (push_bit (b mod 16) 1))))) c1)))"

section \<open>Zones\<close>

definition alloc_zone :: "io_env \<Rightarrow> int \<Rightarrow> nat \<Rightarrow> fs_st \<Rightarrow> (fs_st \<times> nat) option" where
  "alloc_zone E dev z st =
    (case get_super dev (supers st) of None \<Rightarrow> None
     | Some i \<Rightarrow>
       let sp = supers st i;
           origin = (if z = s_firstdatazone sp then s_zsearch sp else nat ((int z - (int (s_firstdatazone sp) - 1)) mod 2 ^ 32)) in
       case alloc_bit E sp ZMAP origin (fcache st) of None \<Rightarrow> None
       | Some (c, b) \<Rightarrow>
         if b = NO_BIT then Some (st\<lparr>fcache := c, err_code := ENOSPC\<rparr>, NO_ZONE)
         else
          let sps = (if z = s_firstdatazone sp then (supers st)(i := sp\<lparr>s_zsearch := b\<rparr>) else supers st)
          in Some (st\<lparr>fcache := c, supers := sps\<rparr>, nat ((int (s_firstdatazone sp) - 1 + int b) mod 2 ^ 32)))"

definition free_zone :: "io_env \<Rightarrow> int \<Rightarrow> nat \<Rightarrow> fs_st \<Rightarrow> fs_st option" where
  "free_zone E dev numb st =
    (case get_super dev (supers st) of None \<Rightarrow> None
     | Some i \<Rightarrow>
       let sp = supers st i in
       if numb < s_firstdatazone sp \<or> numb \<ge> s_zones sp then Some st
       else
        let b = nat ((int numb - (int (s_firstdatazone sp) - 1)) mod 2 ^ 32) in
        case free_bit E sp ZMAP b (fcache st) of None \<Rightarrow> None
        | Some c \<Rightarrow> Some (st\<lparr>fcache := c, supers := (if b < s_zsearch sp then (supers st)(i := sp\<lparr>s_zsearch := b\<rparr>) else supers st)\<rparr>))"

section \<open>Bits of a block\<close>

lemma conv2_bits: "conv2 norm w = (if norm then take_bit 16 w else or (push_bit 8 (take_bit 8 w)) (take_bit 8 (drop_bit 8 w)))"
  by (simp add: conv2_def take_bit_eq_mask mask_eq_exp_minus_1)

lemma bit_conv16: "bit (conv16 norm w) i = (if norm then bit w i else if i < 8 then bit w (i + 8) else i < 16 \<and> bit w (i - 8))"
  by (auto simp: conv16_def conv2_bits bit_or_iff bit_push_bit_iff bit_drop_bit_eq bit_ucast_iff bit_take_bit_iff add.commute
      dest: bit_imp_le_length)

lemma conv16_conv16 [simp]: "conv16 norm (conv16 norm w) = w"
  by (rule bit_word_eqI) (auto simp: bit_conv16)

lemma bit_get16: "bit (get16 d i) j = (if j < 8 then bit (d (2 * i)) j else bit (d (2 * i + 1)) (j - 8) \<and> j < 16)"
  by (auto simp: get16_def bit_or_iff bit_push_bit_iff bit_ucast_iff dest: bit_imp_le_length)

lemma get16_put16: "get16 (put16 d i w) j = (if i = j then w else get16 d j)"
proof (cases "i = j")
  case True
  show ?thesis
    by (rule bit_word_eqI) (use True in \<open>auto simp: bit_get16 put16_def bit_ucast_iff bit_drop_bit_eq\<close>)
next
  case False
  then have "2 * j \<noteq> 2 * i" "2 * j \<noteq> 2 * i + 1" "2 * j + 1 \<noteq> 2 * i" "2 * j + 1 \<noteq> 2 * i + 1" by presburger+
  then show ?thesis using False by (simp add: get16_def put16_def)
qed

lemma put16_put16 [simp]: "put16 (put16 d i w) i v = put16 d i v"
  by (auto simp: put16_def fun_eq_iff)

lemma put16_get16 [simp]: "put16 d i (get16 d i) = d"
proof -
  have "ucast (get16 d i) = d (2 * i)" "ucast (drop_bit 8 (get16 d i)) = d (2 * i + 1)"
    by (rule bit_word_eqI; simp add: bit_ucast_iff bit_get16 bit_drop_bit_eq)+
  then show ?thesis by (simp add: put16_def)
qed

definition map_bit :: "bool \<Rightarrow> block \<Rightarrow> nat \<Rightarrow> bool" where
  "map_bit norm d j \<longleftrightarrow> bit (conv16 norm (get16 d (j div 16))) (j mod 16)"

definition set_map :: "bool \<Rightarrow> block \<Rightarrow> nat \<Rightarrow> bool \<Rightarrow> block" where
  "set_map norm d j v =
    (let k = conv16 norm (get16 d (j div 16))
     in put16 d (j div 16) (conv16 norm (if v then or k (push_bit (j mod 16) 1) else and k (not (push_bit (j mod 16) 1)))))"

lemma bit_push_one: "bit (2 ^ i :: 16 word) j \<longleftrightarrow> i = j \<and> j < 16"
  by (auto simp: bit_exp_iff)

lemma map_bit_set_map: "map_bit norm (set_map norm d j v) i = (if i = j then v else map_bit norm d i)"
proof (cases "i div 16 = j div 16")
  case True
  then have "i mod 16 = j mod 16 \<longleftrightarrow> i = j" by (metis div_mult_mod_eq)
  then show ?thesis using True
    by (auto simp: map_bit_def set_map_def Let_def get16_put16 bit_or_iff bit_and_iff bit_not_iff bit_push_one)
next
  case False
  then show ?thesis by (auto simp: map_bit_def set_map_def Let_def get16_put16)
qed

lemma set_map_back: "\<not> map_bit norm d j \<Longrightarrow> set_map norm (set_map norm d j True) j False = d"
proof -
  assume f: "\<not> map_bit norm d j"
  let ?k = "conv16 norm (get16 d (j div 16))" and ?b = "push_bit (j mod 16) (1 :: 16 word)"
  have "and (or ?k ?b) (not ?b) = ?k"
    by (rule bit_word_eqI) (use f in \<open>auto simp: map_bit_def bit_or_iff bit_and_iff bit_not_iff bit_push_one\<close>)
  then show ?thesis by (simp add: set_map_def Let_def get16_put16)
qed

lemma first_zero: "\<not> bit k (first_zero k i) \<and> i \<le> first_zero k i \<and> (\<forall>j. i \<le> j \<longrightarrow> j < first_zero k i \<longrightarrow> bit k j)"
proof (induction k i rule: first_zero.induct)
  case (1 k i)
  show ?case
  proof (cases "bit k i")
    case True
    then have "first_zero k i = first_zero k (i + 1)" by (subst first_zero.simps) simp
    then show ?thesis using 1 True by (metis Suc_eq_plus1 Suc_leD le_eq_less_or_eq Suc_leI)
  next
    case False
    then have "first_zero k i = i" by (subst first_zero.simps) simp
    then show ?thesis using False by simp
  qed
qed

lemma first_zero_less: "k \<noteq> - 1 \<Longrightarrow> first_zero k 0 < 16"
proof (rule ccontr)
  assume "k \<noteq> - 1" "\<not> first_zero k 0 < 16"
  then have "bit k j" if "j < 16" for j using first_zero [of k 0] that by simp
  then have "k = - 1" by (intro bit_word_eqI) simp
  then show False using \<open>k \<noteq> - 1\<close> by simp
qed

lemma conv16_full: "conv16 norm w = - 1 \<longleftrightarrow> w = - 1"
proof
  assume "conv16 norm w = - 1"
  then have "w = conv16 norm (- 1)" by (metis conv16_conv16)
  also have "\<dots> = - 1" by (rule bit_word_eqI) (auto simp: bit_conv16)
  finally show "w = - 1" .
next
  assume "w = - 1"
  then show "conv16 norm w = - 1" by (auto intro!: bit_word_eqI simp: bit_conv16)
qed

lemma scan_words_some:
  "scan_words norm base lim d w m = Some (b, d') \<Longrightarrow>
     \<exists>j. w * 16 \<le> j \<and> j < (w + m) * 16 \<and> b = base + j \<and> b < lim \<and> \<not> map_bit norm d j \<and> d' = set_map norm d j True"
proof (induction m arbitrary: w)
  case (Suc m)
  show ?case
  proof (cases "get16 d w = - 1")
    case True
    then show ?thesis using Suc.IH [of "w + 1"] Suc.prems by fastforce
  next
    case False
    let ?k = "conv16 norm (get16 d w)"
    have z: "first_zero ?k 0 < 16" "\<not> bit ?k (first_zero ?k 0)" using first_zero_less False conv16_full first_zero by blast+
    then have j: "(w * 16 + first_zero ?k 0) div 16 = w" "(w * 16 + first_zero ?k 0) mod 16 = first_zero ?k 0" by simp_all
    show ?thesis using False Suc.prems z
      by (intro exI [of _ "w * 16 + first_zero ?k 0"]) (auto simp: Let_def map_bit_def set_map_def j split: if_splits)
  qed
qed simp

lemma scan_words_none:
  "scan_words norm base lim d w m = None \<Longrightarrow> w * 16 \<le> j \<Longrightarrow> j < (w + m) * 16 \<Longrightarrow> base + j < lim \<Longrightarrow> map_bit norm d j"
proof (induction m arbitrary: w)
  case (Suc m)
  show ?case
  proof (cases "get16 d w = - 1")
    case True
    then have "map_bit norm d j" if "j div 16 = w" using that conv16_full [of norm "- 1"] by (simp add: map_bit_def)
    moreover have "map_bit norm d j" if "j div 16 \<noteq> w" using True Suc that by (intro Suc.IH [of "w + 1"]) auto
    ultimately show ?thesis by blast
  next
    case False
    let ?k = "conv16 norm (get16 d w)"
    have "lim \<le> base + w * 16 + first_zero ?k 0" using False Suc.prems(1) by (simp add: Let_def split: if_splits)
    then have "j < w * 16 + first_zero ?k 0" using Suc.prems(4) by simp
    moreover have "first_zero ?k 0 < 16" using first_zero_less False conv16_full by blast
    moreover obtain e where "j = w * 16 + e" using Suc.prems(2) le_Suc_ex by blast
    ultimately have "j div 16 = w" "j mod 16 < first_zero ?k 0" by simp_all
    then show ?thesis using first_zero [of ?k 0] by (simp add: map_bit_def)
  qed
qed simp

section \<open>Allocating and freeing a bit\<close>

text \<open>A map on the blocks of the device.\<close>

definition on_map :: "nat \<Rightarrow> super_block \<Rightarrow> (int \<Rightarrow> int \<Rightarrow> block) \<Rightarrow> nat \<Rightarrow> bool" where
  "on_map mp sp I b \<longleftrightarrow> map_bit (s_native sp) (I (s_dev sp) (map_start mp sp + int (b div bits_per_block sp))) (b mod bits_per_block sp)"

definition upd_map :: "nat \<Rightarrow> super_block \<Rightarrow> (int \<Rightarrow> int \<Rightarrow> block) \<Rightarrow> nat \<Rightarrow> bool \<Rightarrow> int \<Rightarrow> int \<Rightarrow> block" where
  "upd_map mp sp I b v =
    (let dev = s_dev sp; blk = map_start mp sp + int (b div bits_per_block sp)
     in I(dev := (I dev)(blk := set_map (s_native sp) (I dev blk) (b mod bits_per_block sp) v)))"

text \<open>A mounted file system whose map has the room it needs.\<close>

definition map_ok :: "io_env \<Rightarrow> nat \<Rightarrow> super_block \<Rightarrow> bool" where
  "map_ok E mp sp \<longleftrightarrow> s_dev sp \<noteq> NO_DEV \<and> io_bsize E (s_dev sp) = s_block_size sp \<and> 2 \<le> s_block_size sp \<and> 0 < bit_blocks mp sp
     \<and> map_bits mp sp \<le> bit_blocks mp sp * bits_per_block sp"

lemma bits_per_block_pos: "map_ok E mp sp \<Longrightarrow> 0 < bits_per_block sp"
  by (simp add: map_ok_def bits_per_block_def bitmap_chunks_def)

lemma on_upd_map:
  assumes "0 < bits_per_block sp"
  shows "on_map mp sp (upd_map mp sp I b v) a = (if a = b then v else on_map mp sp I a)"
proof -
  have "a div bits_per_block sp = b div bits_per_block sp \<and> a mod bits_per_block sp = b mod bits_per_block sp \<longleftrightarrow> a = b"
    by (metis div_mult_mod_eq)
  then show ?thesis by (auto simp: on_map_def upd_map_def Let_def map_bit_set_map)
qed

lemma upd_map_back: "\<not> on_map mp sp I b \<Longrightarrow> upd_map mp sp (upd_map mp sp I b True) b False = I"
  by (simp add: on_map_def upd_map_def Let_def set_map_back fun_eq_iff)

lemma clip_words:
  assumes "map_ok E mp sp" "j < bits_per_block sp"
  shows "get16 (clip E (s_dev sp) d) (j div 16) = get16 d (j div 16)"
    "clip E (s_dev sp) (put16 d (j div 16) w) = put16 (clip E (s_dev sp) d) (j div 16) w"
proof -
  have "j div 16 < s_block_size sp div 2" using assms(2) by (simp add: bits_per_block_def bitmap_chunks_def less_mult_imp_div_less)
  then have "2 * (j div 16) + 1 < io_bsize E (s_dev sp)" "s_dev sp \<noteq> NO_DEV" using assms(1) by (auto simp: map_ok_def)
  then show "get16 (clip E (s_dev sp) d) (j div 16) = get16 d (j div 16)"
    "clip E (s_dev sp) (put16 d (j div 16) w) = put16 (clip E (s_dev sp) d) (j div 16) w"
    by (auto simp: get16_def put16_def clip_def fun_eq_iff)
qed

lemma clip_map:
  assumes "map_ok E mp sp" "j < bits_per_block sp"
  shows "map_bit norm (clip E (s_dev sp) d) j = map_bit norm d j" "clip E (s_dev sp) (set_map norm d j v) = set_map norm (clip E (s_dev sp) d) j v"
  by (simp_all add: map_bit_def set_map_def Let_def clip_words [OF assms])

lemma next_block: "b < bb \<Longrightarrow> (if b + 1 \<ge> bb then 0 else b + 1) = (b + 1) mod (bb :: nat)"
  by (cases "Suc b = bb") auto

lemma cyclic_reach: "a < bb \<Longrightarrow> s < bb \<Longrightarrow> \<exists>j. 0 < j \<and> j < bb + 1 \<and> a = (s + j) mod (bb :: nat)"
  by (rule exI [of _ "if s < a then a - s else a + bb - s"]) (auto simp: mod_if)

text \<open>The search in one block of the map.\<close>

lemma scan_found:
  assumes ok: "map_ok E mp sp" and d0: "clip E (s_dev sp) d0 = I (s_dev sp) (map_start mp sp + int blk)" and "word \<le> bitmap_chunks sp"
    and s: "scan_words (s_native sp) (blk * bits_per_block sp) (map_bits mp sp) d0 word (bitmap_chunks sp - word) = Some (b, d)"
  shows "b < map_bits mp sp" "\<not> on_map mp sp I b"
    "I(s_dev sp := (I (s_dev sp))(map_start mp sp + int blk := clip E (s_dev sp) d)) = upd_map mp sp I b True"
proof -
  obtain j where j: "j < bits_per_block sp" "b = blk * bits_per_block sp + j" "b < map_bits mp sp" "\<not> map_bit (s_native sp) d0 j"
    "d = set_map (s_native sp) d0 j True"
    using scan_words_some [OF s] assms(3) by (auto simp: bits_per_block_def)
  then have b: "b div bits_per_block sp = blk" "b mod bits_per_block sp = j" by simp_all
  show "b < map_bits mp sp" by (rule j(3))
  show "\<not> on_map mp sp I b" using j(4) clip_map(1) [OF ok j(1)] by (simp add: on_map_def b flip: d0)
  show "I(s_dev sp := (I (s_dev sp))(map_start mp sp + int blk := clip E (s_dev sp) d)) = upd_map mp sp I b True"
    by (simp add: upd_map_def b Let_def j(5) clip_map(2) [OF ok j(1)] d0)
qed

lemma scan_full:
  assumes ok: "map_ok E mp sp" and d0: "clip E (s_dev sp) d0 = I (s_dev sp) (map_start mp sp + int blk)" and w: "word \<le> bitmap_chunks sp"
    and s: "scan_words (s_native sp) (blk * bits_per_block sp) (map_bits mp sp) d0 word (bitmap_chunks sp - word) = None"
    and b: "b div bits_per_block sp = blk" "word * 16 \<le> b mod bits_per_block sp" "b < map_bits mp sp"
  shows "on_map mp sp I b"
proof -
  have bm: "b mod bits_per_block sp < bits_per_block sp" "blk * bits_per_block sp + b mod bits_per_block sp = b"
    using bits_per_block_pos [OF ok] b(1) by (auto simp: div_mult_mod_eq)
  then have "map_bit (s_native sp) d0 (b mod bits_per_block sp)"
    using b w by (intro scan_words_none [OF s]) (simp_all, simp add: bits_per_block_def)
  then show ?thesis using clip_map(1) [OF ok bm(1)] by (simp add: on_map_def b(1) flip: d0)
qed

text \<open>The blocks that \<open>m\<close> rounds of the loop have searched in vain.\<close>

definition swept :: "nat \<Rightarrow> super_block \<Rightarrow> (int \<Rightarrow> int \<Rightarrow> block) \<Rightarrow> nat \<Rightarrow> nat \<Rightarrow> nat \<Rightarrow> bool" where
  "swept mp sp I blk word m \<longleftrightarrow> (\<forall>j b. j < m \<longrightarrow> b div bits_per_block sp = (blk + j) mod bit_blocks mp sp \<longrightarrow> (j = 0 \<longrightarrow> word * 16 \<le> b mod bits_per_block sp)
     \<longrightarrow> b < map_bits mp sp \<longrightarrow> on_map mp sp I b)"

lemma swept_all:
  assumes "map_ok E mp sp" "blk < bit_blocks mp sp" "swept mp sp I blk word (bit_blocks mp sp + 1)" "b < map_bits mp sp"
  shows "on_map mp sp I b"
proof -
  have lt: "b div bits_per_block sp < bit_blocks mp sp" using assms(1,4) unfolding map_ok_def by (meson less_le_trans less_mult_imp_div_less)
  obtain j where "0 < j" "j < bit_blocks mp sp + 1" "b div bits_per_block sp = (blk + j) mod bit_blocks mp sp"
    using cyclic_reach [OF lt assms(2)] by blast
  then show ?thesis using assms(3,4) unfolding swept_def by blast
qed

lemma swept_Suc:
  assumes "swept mp sp I ((blk + 1) mod bit_blocks mp sp) 0 m" "blk < bit_blocks mp sp"
    "\<And>b. b div bits_per_block sp = blk \<Longrightarrow> word * 16 \<le> b mod bits_per_block sp \<Longrightarrow> b < map_bits mp sp \<Longrightarrow> on_map mp sp I b"
  shows "swept mp sp I blk word (Suc m)"
  unfolding swept_def
proof (intro allI impI)
  fix j b
  assume a: "j < Suc m" "b div bits_per_block sp = (blk + j) mod bit_blocks mp sp" "j = 0 \<longrightarrow> word * 16 \<le> b mod bits_per_block sp" "b < map_bits mp sp"
  show "on_map mp sp I b"
  proof (cases j)
    case 0
    then show ?thesis using a assms(2,3) by simp
  next
    case (Suc j')
    then have "((blk + 1) mod bit_blocks mp sp + j') mod bit_blocks mp sp = (blk + j) mod bit_blocks mp sp" by (simp add: mod_simps)
    then show ?thesis using a Suc assms(1) unfolding swept_def by auto
  qed
qed

lemma calm_ok: "calm E c c' \<Longrightarrow> io_ok E c'" "calm E c c' \<Longrightarrow> room c'"
  by (simp_all add: settled_def)

lemma alloc_loop_spec:
  assumes ok: "map_ok E mp sp"
  shows "io_ok E c \<Longrightarrow> room c \<Longrightarrow> blk < bit_blocks mp sp \<Longrightarrow> word \<le> bitmap_chunks sp \<Longrightarrow>
    \<exists>c' r. alloc_loop E sp mp blk word m c = Some (c', r) \<and> calm E c c' \<and>
      (r < map_bits mp sp \<and> \<not> on_map mp sp (dev_image E c) r \<and> dev_image E c' = upd_map mp sp (dev_image E c) r True
       \<or> r = NO_BIT \<and> dev_image E c' = dev_image E c \<and> swept mp sp (dev_image E c) blk word m)"
proof (induction m arbitrary: blk word c)
  case (Suc m)
  let ?bb = "bit_blocks mp sp" and ?bpb = "bits_per_block sp" and ?blk = "map_start mp sp + int blk" and ?dev = "s_dev sp"
  have pos: "0 < ?bpb" "?dev \<noteq> NO_DEV" using bits_per_block_pos [OF ok] ok by (auto simp: map_ok_def)
  obtain c1 n where g: "get_block E ?dev ?blk NORMAL c = Some (c1, n)" "clip E ?dev (buf_data c1 n) = dev_image E c ?dev ?blk"
    "cached c1 ?dev ?blk n" "\<And>d. calm E c (put_block E (Some n) MAP_BLOCK (set_data n d c1))"
    "\<And>d. dev_image E (put_block E (Some n) MAP_BLOCK (set_data n d c1)) = (dev_image E c)(?dev := (dev_image E c ?dev)(?blk := clip E ?dev d))"
    "calm E c (put_block E (Some n) MAP_BLOCK c1)" "dev_image E (put_block E (Some n) MAP_BLOCK c1) = dev_image E c"
    using bc.changed [OF Suc.prems(1,2) pos(2), of ?blk MAP_BLOCK] by blast
  show ?case
  proof (cases "scan_words (s_native sp) (blk * ?bpb) (map_bits mp sp) (buf_data c1 n) word (bitmap_chunks sp - word)")
    case (Some p)
    then obtain b d where p: "p = (b, d)" by (cases p) auto
    then show ?thesis using g(1,4,5) Some scan_found [where I = "dev_image E c", OF ok g(2) Suc.prems(4) Some [unfolded p]] by simp
  next
    case None
    note here = scan_full [where I = "dev_image E c", OF ok g(2) Suc.prems(4) None]
    let ?nb = "if blk + 1 \<ge> ?bb then 0 else blk + 1"
    have nb: "?nb = (blk + 1) mod ?bb" "?nb < ?bb" using next_block [OF Suc.prems(3)] Suc.prems(3) by auto
    obtain c' r where r: "alloc_loop E sp mp ?nb 0 m (put_block E (Some n) MAP_BLOCK c1) = Some (c', r)" "calm E c c'"
      "r < map_bits mp sp \<and> \<not> on_map mp sp (dev_image E c) r \<and> dev_image E c' = upd_map mp sp (dev_image E c) r True
       \<or> r = NO_BIT \<and> dev_image E c' = dev_image E c \<and> swept mp sp (dev_image E c) ?nb 0 m"
      using Suc.IH [OF calm_ok [OF g(6)] nb(2), of 0] g(7) settled_trans [OF g(6)] by auto
    have "swept mp sp (dev_image E c) blk word (Suc m)" if "swept mp sp (dev_image E c) ?nb 0 m"
      by (rule swept_Suc [OF that [unfolded nb(1)] Suc.prems(3)]) (rule here)
    moreover have "alloc_loop E sp mp blk word (Suc m) c = Some (c', r)" using g(1) None r(1) by simp
    ultimately show ?thesis using r(2,3) by blast
  qed
qed (simp add: swept_def settled_def)

lemma alloc_bit_spec:
  assumes "map_ok E mp sp" "io_ok E c" "room c" "\<not> s_rd_only sp" "on_map mp sp (dev_image E c) NO_BIT"
  shows "\<exists>c' r. alloc_bit E sp mp origin c = Some (c', r) \<and> calm E c c' \<and>
    (if r = NO_BIT then dev_image E c' = dev_image E c \<and> (\<forall>b. b < map_bits mp sp \<longrightarrow> on_map mp sp (dev_image E c) b)
     else r < map_bits mp sp \<and> \<not> on_map mp sp (dev_image E c) r \<and> dev_image E c' = upd_map mp sp (dev_image E c) r True)"
proof -
  let ?org = "if origin \<ge> map_bits mp sp then 0 else origin" and ?bb = "bit_blocks mp sp" and ?bpb = "bits_per_block sp"
  have pos: "0 < ?bpb" "0 < ?bb" "map_bits mp sp \<le> ?bb * ?bpb" using bits_per_block_pos [OF assms(1)] assms(1) by (auto simp: map_ok_def)
  have o: "?org div ?bpb < ?bb" using pos by (auto simp: less_mult_imp_div_less)
  have "(?org mod ?bpb) div 16 \<le> bitmap_chunks sp"
    using pos mod_less_divisor [OF pos(1), of ?org] unfolding bits_per_block_def by (meson less_mult_imp_div_less less_imp_le)
  then obtain c' r where r: "alloc_loop E sp mp (?org div ?bpb) ((?org mod ?bpb) div 16) (?bb + 1) c = Some (c', r)"
    "calm E c c'"
    "r < map_bits mp sp \<and> \<not> on_map mp sp (dev_image E c) r \<and> dev_image E c' = upd_map mp sp (dev_image E c) r True
     \<or> r = NO_BIT \<and> dev_image E c' = dev_image E c \<and> swept mp sp (dev_image E c) (?org div ?bpb) ((?org mod ?bpb) div 16) (?bb + 1)"
    using alloc_loop_spec [OF assms(1-3) o] by blast
  have "alloc_bit E sp mp origin c = Some (c', r)" using r(1) assms(4) by (simp add: alloc_bit_def Let_def)
  moreover have "if r = NO_BIT then dev_image E c' = dev_image E c \<and> (\<forall>b. b < map_bits mp sp \<longrightarrow> on_map mp sp (dev_image E c) b)
     else r < map_bits mp sp \<and> \<not> on_map mp sp (dev_image E c) r \<and> dev_image E c' = upd_map mp sp (dev_image E c) r True"
  proof (cases "r = NO_BIT")
    case True
    then have "on_map mp sp (dev_image E c) r" using assms(5) by simp
    then show ?thesis using True r(3) swept_all [OF assms(1) o] by auto
  next
    case False
    then show ?thesis using r(3) by argo
  qed
  ultimately show ?thesis using r(2) by blast
qed

lemma free_bit_spec:
  assumes "map_ok E mp sp" "io_ok E c" "room c" "\<not> s_rd_only sp"
  shows "\<not> on_map mp sp (dev_image E c) b \<Longrightarrow> free_bit E sp mp b c = None"
    "on_map mp sp (dev_image E c) b \<Longrightarrow> \<exists>c'. free_bit E sp mp b c = Some c' \<and> calm E c c'
       \<and> dev_image E c' = upd_map mp sp (dev_image E c) b False"
proof -
  let ?bpb = "bits_per_block sp" and ?blk = "map_start mp sp + int (b div bits_per_block sp)" and ?dev = "s_dev sp"
  have pos: "0 < ?bpb" "?dev \<noteq> NO_DEV" using bits_per_block_pos [OF assms(1)] assms(1) by (auto simp: map_ok_def)
  then have j: "b mod ?bpb < ?bpb" by simp
  obtain c1 n where g: "get_block E ?dev ?blk NORMAL c = Some (c1, n)" "clip E ?dev (buf_data c1 n) = dev_image E c ?dev ?blk"
    "cached c1 ?dev ?blk n" "\<And>d. calm E c (put_block E (Some n) MAP_BLOCK (set_data n d c1))"
    "\<And>d. dev_image E (put_block E (Some n) MAP_BLOCK (set_data n d c1)) = (dev_image E c)(?dev := (dev_image E c ?dev)(?blk := clip E ?dev d))"
    "calm E c (put_block E (Some n) MAP_BLOCK c1)" "dev_image E (put_block E (Some n) MAP_BLOCK c1) = dev_image E c"
    using bc.changed [OF assms(2,3) pos(2), of ?blk MAP_BLOCK] by blast
  have "16 dvd ?bpb" by (simp add: bits_per_block_def)
  then have m: "b mod ?bpb mod 16 = b mod 16" by (rule mod_mod_cancel)
  have on: "on_map mp sp (dev_image E c) b = map_bit (s_native sp) (buf_data c1 n) (b mod ?bpb)"
    using clip_map(1) [OF assms(1) j] by (simp add: on_map_def flip: g(2))
  have r: "free_bit E sp mp b c = (if \<not> map_bit (s_native sp) (buf_data c1 n) (b mod ?bpb) then None
      else Some (put_block E (Some n) MAP_BLOCK (set_data n (set_map (s_native sp) (buf_data c1 n) (b mod ?bpb) False) c1)))"
    using g(1) assms(4) by (simp add: free_bit_def Let_def map_bit_def set_map_def m)
  show "free_bit E sp mp b c = None" if "\<not> on_map mp sp (dev_image E c) b" using that on r by simp
  show "\<exists>c'. free_bit E sp mp b c = Some c' \<and> calm E c c' \<and> dev_image E c' = upd_map mp sp (dev_image E c) b False"
    if "on_map mp sp (dev_image E c) b"
    using that on r g(4,5) clip_map(2) [OF assms(1) j] by (simp add: upd_map_def Let_def g(2))
qed

section \<open>Zones\<close>

text \<open>A super block as \<open>read_super\<close> accepts it on a device made by \<open>mkfs\<close>: zones are data zones, the map has one bit per zone and
  one more, which is never free.\<close>

definition zones_ok :: "io_env \<Rightarrow> super_block \<Rightarrow> bool" where
  "zones_ok E sp \<longleftrightarrow> map_ok E ZMAP sp \<and> \<not> s_rd_only sp \<and> 0 < s_firstdatazone sp \<and> s_firstdatazone sp \<le> s_zones sp \<and> s_zones sp < 2 ^ 32"

lemma zone_map_bits: "zones_ok E sp \<Longrightarrow> map_bits ZMAP sp = s_zones sp + 1 - s_firstdatazone sp"
  by (simp add: zones_ok_def map_bits_def)

definition zone_used :: "super_block \<Rightarrow> (int \<Rightarrow> int \<Rightarrow> block) \<Rightarrow> nat \<Rightarrow> bool" where
  "zone_used sp I z \<longleftrightarrow> on_map ZMAP sp I (z + 1 - s_firstdatazone sp)"

definition data_zone :: "super_block \<Rightarrow> nat \<Rightarrow> bool" where
  "data_zone sp z \<longleftrightarrow> s_firstdatazone sp \<le> z \<and> z < s_zones sp"

definition zone_st :: "io_env \<Rightarrow> fs_st \<Rightarrow> nat \<Rightarrow> bool" where
  "zone_st E st i \<longleftrightarrow> io_ok E (fcache st) \<and> room (fcache st) \<and> zones_ok E (supers st i) \<and> get_super (s_dev (supers st i)) (supers st) = Some i
     \<and> on_map ZMAP (supers st i) (dev_image E (fcache st)) NO_BIT"

lemma alloc_zone_spec:
  assumes "zone_st E st i" "sp = supers st i" "dev = s_dev sp"
  shows "\<exists>st' r. alloc_zone E dev z st = Some (st', r) \<and> calm E (fcache st) (fcache st') \<and> inodes st' = inodes st \<and>
    (if r = NO_ZONE then err_code st' = ENOSPC \<and> dev_image E (fcache st') = dev_image E (fcache st) \<and> supers st' = supers st
         \<and> (\<forall>y. data_zone sp y \<longrightarrow> zone_used sp (dev_image E (fcache st)) y)
     else data_zone sp r \<and> \<not> zone_used sp (dev_image E (fcache st)) r
         \<and> dev_image E (fcache st') = upd_map ZMAP sp (dev_image E (fcache st)) (r + 1 - s_firstdatazone sp) True
         \<and> (\<exists>zs. supers st' = (supers st)(i := sp\<lparr>s_zsearch := zs\<rparr>)))"
proof -
  let ?I = "dev_image E (fcache st)" and ?f = "s_firstdatazone sp"
  define org where "org = (if z = ?f then s_zsearch sp else nat ((int z - (int ?f - 1)) mod 2 ^ 32))"
  have zo: "zones_ok E sp" and a: "map_ok E ZMAP sp" "io_ok E (fcache st)" "room (fcache st)" "\<not> s_rd_only sp" "on_map ZMAP sp ?I NO_BIT"
    and gs: "get_super dev (supers st) = Some i"
    using assms by (auto simp: zone_st_def zones_ok_def)
  have f: "0 < ?f" "?f \<le> s_zones sp" "s_zones sp < 2 ^ 32" using zo by (auto simp: zones_ok_def)
  note mb = zone_map_bits [OF zo]
  obtain c r where r: "alloc_bit E sp ZMAP org (fcache st) = Some (c, r)" "calm E (fcache st) c"
    "if r = NO_BIT then dev_image E c = ?I \<and> (\<forall>b. b < map_bits ZMAP sp \<longrightarrow> on_map ZMAP sp ?I b)
     else r < map_bits ZMAP sp \<and> \<not> on_map ZMAP sp ?I r \<and> dev_image E c = upd_map ZMAP sp ?I r True"
    using alloc_bit_spec [OF a, of org] by blast
  show ?thesis
  proof (cases "r = NO_BIT")
    case True
    have "y + 1 - ?f < map_bits ZMAP sp" if "data_zone sp y" for y using that f unfolding mb data_zone_def by linarith
    then have "zone_used sp ?I y" if "data_zone sp y" for y using r(3) that True by (simp add: zone_used_def del: One_nat_def)
    then show ?thesis using True r gs a
      by (intro exI [of _ "st\<lparr>fcache := c, err_code := ENOSPC\<rparr>"] exI [of _ NO_ZONE]) (simp add: alloc_zone_def Let_def org_def flip: assms(2))
  next
    case False
    then have b: "r < s_zones sp + 1 - ?f" "0 < r" using r(3) mb by auto
    have v: "nat ((int ?f - 1 + int r) mod 2 ^ 32) = ?f - 1 + r" using b f by (simp add: nat_eq_iff of_nat_diff)
    then have "data_zone sp (?f - 1 + r)" "?f - 1 + r + 1 - ?f = r" "?f - 1 + r \<noteq> 0" using b f by (auto simp: data_zone_def)
    moreover have "\<exists>zs. (if z = ?f then (supers st)(i := sp\<lparr>s_zsearch := r\<rparr>) else supers st) = (supers st)(i := sp\<lparr>s_zsearch := zs\<rparr>)"
      using assms(2) by (cases "z = ?f") (auto intro: exI [of _ "s_zsearch sp"])
    ultimately show ?thesis using False r gs v
      by (intro exI [of _ "st\<lparr>fcache := c, supers := (if z = ?f then (supers st)(i := sp\<lparr>s_zsearch := r\<rparr>) else supers st)\<rparr>"] exI [of _ "?f - 1 + r"])
        (simp add: alloc_zone_def Let_def org_def zone_used_def flip: assms(2))
  qed
qed

text \<open>The field \<open>s_zsearch\<close> only says where the next search starts.\<close>

lemma zsearch_irrelevant [simp]:
  "map_bits mp (sp\<lparr>s_zsearch := z\<rparr>) = map_bits mp sp" "bit_blocks mp (sp\<lparr>s_zsearch := z\<rparr>) = bit_blocks mp sp"
  "map_start mp (sp\<lparr>s_zsearch := z\<rparr>) = map_start mp sp" "bits_per_block (sp\<lparr>s_zsearch := z\<rparr>) = bits_per_block sp"
  "on_map mp (sp\<lparr>s_zsearch := z\<rparr>) I b = on_map mp sp I b" "upd_map mp (sp\<lparr>s_zsearch := z\<rparr>) I b v = upd_map mp sp I b v"
  "map_ok E mp (sp\<lparr>s_zsearch := z\<rparr>) = map_ok E mp sp" "zones_ok E (sp\<lparr>s_zsearch := z\<rparr>) = zones_ok E sp"
  "zone_used (sp\<lparr>s_zsearch := z\<rparr>) I y = zone_used sp I y" "data_zone (sp\<lparr>s_zsearch := z\<rparr>) y = data_zone sp y"
  by (simp_all add: map_bits_def bit_blocks_def map_start_def bits_per_block_def bitmap_chunks_def on_map_def upd_map_def map_ok_def zones_ok_def
      zone_used_def data_zone_def)

lemma get_super_zsearch: "sps i = sp \<Longrightarrow> get_super dev (sps(i := sp\<lparr>s_zsearch := z\<rparr>)) = get_super dev sps"
proof -
  assume "sps i = sp"
  then have "(\<lambda>k. s_dev ((sps(i := sp\<lparr>s_zsearch := z\<rparr>)) k) = dev) = (\<lambda>k. s_dev (sps k) = dev)" by auto
  then show ?thesis by (simp add: get_super_def)
qed

lemma zone_st_step:
  assumes "zone_st E st i" "io_ok E (fcache st')" "room (fcache st')" "supers st' = (supers st)(i := (supers st i)\<lparr>s_zsearch := zs\<rparr>)"
    "dev_image E (fcache st') = upd_map ZMAP (supers st i) (dev_image E (fcache st)) b v" "b \<noteq> NO_BIT"
  shows "zone_st E st' i"
proof -
  let ?sp = "supers st i"
  have "0 < bits_per_block ?sp" using assms(1) bits_per_block_pos unfolding zone_st_def zones_ok_def by blast
  then have "on_map ZMAP ?sp (dev_image E (fcache st')) NO_BIT" using assms(1,5,6) by (simp add: on_upd_map zone_st_def del: One_nat_def)
  then show ?thesis using assms(1-4) get_super_zsearch [of "supers st" i ?sp] by (simp add: zone_st_def del: One_nat_def)
qed

lemma free_zone_spec:
  assumes "zone_st E st i" "sp = supers st i" "dev = s_dev sp" "data_zone sp z"
  shows "\<not> zone_used sp (dev_image E (fcache st)) z \<Longrightarrow> free_zone E dev z st = None"
    "zone_used sp (dev_image E (fcache st)) z \<Longrightarrow> \<exists>st'. free_zone E dev z st = Some st' \<and> zone_st E st' i \<and> calm E (fcache st) (fcache st') \<and> inodes st' = inodes st
       \<and> dev_image E (fcache st') = upd_map ZMAP sp (dev_image E (fcache st)) (z + 1 - s_firstdatazone sp) False"
proof -
  let ?I = "dev_image E (fcache st)" and ?b = "z + 1 - s_firstdatazone sp"
  have zo: "zones_ok E sp" and a: "map_ok E ZMAP sp" "io_ok E (fcache st)" "room (fcache st)" "\<not> s_rd_only sp"
    and gs: "get_super dev (supers st) = Some i" using assms by (auto simp: zone_st_def zones_ok_def)
  have "0 < s_firstdatazone sp" "s_zones sp < 2 ^ 32" "s_firstdatazone sp \<le> z" "z < s_zones sp" using zo assms(4) by (auto simp: zones_ok_def data_zone_def)
  then have b: "nat ((int z - (int (s_firstdatazone sp) - 1)) mod 2 ^ 32) = ?b" "?b \<noteq> NO_BIT" by (simp_all add: nat_eq_iff of_nat_diff)
  have nd: "(z < s_firstdatazone sp \<or> z \<ge> s_zones sp) = False" using assms(4) by (auto simp: data_zone_def)
  have f: "free_zone E dev z st = (case free_bit E sp ZMAP ?b (fcache st) of None \<Rightarrow> None
      | Some c \<Rightarrow> Some (st\<lparr>fcache := c, supers := (if ?b < s_zsearch sp then (supers st)(i := sp\<lparr>s_zsearch := ?b\<rparr>) else supers st)\<rparr>))"
    by (simp only: free_zone_def gs option.case Let_def nd b(1) if_False flip: assms(2))
  note fb = free_bit_spec [OF a, of ?b]
  show "free_zone E dev z st = None" if "\<not> zone_used sp ?I z" using that f fb(1) by (simp add: zone_used_def)
  assume "zone_used sp ?I z"
  then obtain c where c: "free_bit E sp ZMAP ?b (fcache st) = Some c" "calm E (fcache st) c" "dev_image E c = upd_map ZMAP sp ?I ?b False"
    using fb(2) by (auto simp: zone_used_def)
  let ?st = "st\<lparr>fcache := c, supers := (if ?b < s_zsearch sp then (supers st)(i := sp\<lparr>s_zsearch := ?b\<rparr>) else supers st)\<rparr>"
  have "supers ?st = (supers st)(i := (supers st i)\<lparr>s_zsearch := if ?b < s_zsearch sp then ?b else s_zsearch sp\<rparr>)"
    by (simp add: assms(2) fun_upd_idem_iff)
  then have "zone_st E ?st i" using calm_ok [OF c(2)] c(3) b(2) assms(2) by (intro zone_st_step [OF assms(1), of ?st _ ?b False]) simp_all
  then show "\<exists>st'. free_zone E dev z st = Some st' \<and> zone_st E st' i \<and> calm E (fcache st) (fcache st') \<and> inodes st' = inodes st \<and> dev_image E (fcache st') = upd_map ZMAP sp ?I ?b False"
    using f c by (intro exI [of _ ?st]) simp
qed

end
