(* ===== verification/Fs_Map.thy ===== *)
theory Fs_Map
  imports Fs_Super "HOL-Library.Monad_Syntax"
begin

text \<open>
  The zones of a file (\<open>read_map\<close>, \<open>rd_indir\<close> of \<open>src/servers/fs/read.c\<close> and \<open>write.c\<close>): a file position is mapped to a block through the zone
  numbers of the inode, the single indirect and the double indirect block; writing a zone number creates the indirect blocks it needs,
  freeing one releases those that become empty.  \<open>None\<close> is the end of the server (\<open>panic\<close>, or the null buffer that \<open>write_map\<close> hands to
  \<open>empty_indir\<close>).
\<close>

section \<open>Operations on the whole state\<close>

definition fget :: "io_env \<Rightarrow> int \<Rightarrow> nat \<Rightarrow> int \<Rightarrow> fs_st \<Rightarrow> (fs_st \<times> bufno) option" where
  "fget E dev b only_search st = map_option (\<lambda>(c, n). (st\<lparr>fcache := c\<rparr>, n)) (get_block E dev (int b) only_search (fcache st))"

definition fput :: "io_env \<Rightarrow> bufno option \<Rightarrow> int \<Rightarrow> fs_st \<Rightarrow> fs_st" where
  "fput E bp ty st = st\<lparr>fcache := put_block E bp ty (fcache st)\<rparr>"

definition fzero :: "bufno \<Rightarrow> fs_st \<Rightarrow> fs_st" where
  "fzero n st = st\<lparr>fcache := zero_block n (fcache st)\<rparr>"

definition mark_dirty :: "bufno \<Rightarrow> fs_st \<Rightarrow> fs_st" where
  "mark_dirty n st = st\<lparr>fcache := upd_buf n (\<lambda>x. x\<lparr>b_dirt := True\<rparr>) (fcache st)\<rparr>"

definition set_zone :: "nat \<Rightarrow> nat \<Rightarrow> nat \<Rightarrow> fs_st \<Rightarrow> fs_st" where
  "set_zone ip k z st = st\<lparr>inodes := (inodes st)(ip := (inodes st ip)\<lparr>i_zone := (i_zone (inodes st ip))[k := z]\<rparr>)\<rparr>"

abbreviation (input) "EFBIG \<equiv> 27 :: int"
abbreviation (input) "V1_INDIRECTS \<equiv> 512 :: nat"

section \<open>Entries of an indirect block\<close>

definition get32 :: "block \<Rightarrow> nat \<Rightarrow> 32 word" where
  "get32 d i = or (ucast (get16 d (2 * i))) (push_bit 16 (ucast (get16 d (2 * i + 1))))"

definition put32 :: "block \<Rightarrow> nat \<Rightarrow> 32 word \<Rightarrow> block" where
  "put32 d i w = put16 (put16 d (2 * i) (ucast w)) (2 * i + 1) (ucast (drop_bit 16 w))"

definition ind_entry :: "super_block \<Rightarrow> block \<Rightarrow> nat \<Rightarrow> nat" where
  "ind_entry sp d i =
    (if s_version sp = 1 then unat (conv2 (s_native sp) (ucast (get16 d i))) else unat (conv4 (s_native sp) (get32 d i)))"

definition ind_write :: "super_block \<Rightarrow> block \<Rightarrow> nat \<Rightarrow> nat \<Rightarrow> block" where
  "ind_write sp d i z =
    (if s_version sp = 1 then put16 d i (ucast (conv2 (s_native sp) (word_of_nat z))) else put32 d i (conv4 (s_native sp) (word_of_nat z)))"

definition rd_indir :: "bufno \<Rightarrow> nat \<Rightarrow> fs_st \<Rightarrow> nat option" where
  "rd_indir n i st =
    (case get_super (b_dev (bufs (fcache st) n)) (supers st) of None \<Rightarrow> None
     | Some k \<Rightarrow>
       let sp = supers st k; z = ind_entry sp (b_data (bufs (fcache st) n)) i
       in if z \<noteq> NO_ZONE \<and> (z < s_firstdatazone sp \<or> z \<ge> s_zones sp) then None else Some z)"

definition wr_indir :: "bufno option \<Rightarrow> nat \<Rightarrow> nat \<Rightarrow> fs_st \<Rightarrow> fs_st option" where
  "wr_indir bp i z st =
    (case bp of None \<Rightarrow> None
     | Some n \<Rightarrow>
       (case get_super (b_dev (bufs (fcache st) n)) (supers st) of None \<Rightarrow> None
        | Some k \<Rightarrow> Some (st\<lparr>fcache := upd_buf n (\<lambda>x. x\<lparr>b_data := ind_write (supers st k) (b_data x) i z\<rparr>) (fcache st)\<rparr>)))"

definition empty_indir :: "bufno \<Rightarrow> super_block \<Rightarrow> fs_st \<Rightarrow> bool" where
  "empty_indir n sp st =
    (let d = b_data (bufs (fcache st) n)
     in if s_version sp = 1 then list_all (\<lambda>i. get16 d i = 0) [0 ..< V1_INDIRECTS]
        else list_all (\<lambda>i. get32 d i = 0) [0 ..< s_block_size sp div 4])"

section \<open>Reading the map\<close>

definition zone_block :: "super_block \<Rightarrow> nat \<Rightarrow> nat" where
  "zone_block sp z = (z * 2 ^ nat (s_log_zone_size sp)) mod 2 ^ 32"

definition inode_sp :: "nat \<Rightarrow> fs_st \<Rightarrow> super_block" where
  "inode_sp ip st = supers st (i_sp (inodes st ip))"

definition zone_of :: "super_block \<Rightarrow> nat \<Rightarrow> nat" where
  "zone_of sp position = (position div s_block_size sp) div 2 ^ nat (s_log_zone_size sp)"

definition block_of :: "super_block \<Rightarrow> nat \<Rightarrow> nat \<Rightarrow> nat" where
  "block_of sp position z =
    (if z = NO_ZONE then 0
     else (zone_block sp z + (position div s_block_size sp - zone_of sp position * 2 ^ nat (s_log_zone_size sp))) mod 2 ^ 32)"

text \<open>The zone of the single indirect block and the index in it.\<close>

definition rm_first :: "io_env \<Rightarrow> nat \<Rightarrow> nat \<Rightarrow> fs_st \<Rightarrow> (fs_st \<times> nat \<times> nat) option" where
  "rm_first E ip excess st =
    (let r = inodes st ip; nr_indirects = i_nindirs r in
     if excess < nr_indirects then Some (st, i_zone r ! i_ndzones r, excess)
     else
      let z = i_zone r ! (i_ndzones r + 1) in
      if z = NO_ZONE then Some (st, NO_ZONE, 0)
      else
       do {
         (s, n) \<leftarrow> fget E (i_dev r) (zone_block (inode_sp ip st) z) NORMAL st;
         z1 \<leftarrow> rd_indir n ((excess - nr_indirects) div nr_indirects) s;
         Some (fput E (Some n) INDIRECT_BLOCK s, z1, (excess - nr_indirects) mod nr_indirects)
       })"

text \<open>The block, through the single indirect block.\<close>

definition rm_last :: "io_env \<Rightarrow> nat \<Rightarrow> nat \<Rightarrow> nat \<Rightarrow> nat \<Rightarrow> fs_st \<Rightarrow> (fs_st \<times> nat) option" where
  "rm_last E ip position z ex st =
    (if z = NO_ZONE then Some (st, 0)
     else
      do {
        (s, n) \<leftarrow> fget E (i_dev (inodes st ip)) (zone_block (inode_sp ip st) z) NORMAL st;
        z1 \<leftarrow> rd_indir n ex s;
        Some (fput E (Some n) INDIRECT_BLOCK s, block_of (inode_sp ip st) position z1)
      })"

definition read_map :: "io_env \<Rightarrow> nat \<Rightarrow> nat \<Rightarrow> fs_st \<Rightarrow> (fs_st \<times> nat) option" where
  "read_map E ip position st =
    (let r = inodes st ip; sp = inode_sp ip st; zone = zone_of sp position; dzones = i_ndzones r in
     if zone < dzones then Some (st, block_of sp position (i_zone r ! zone))
     else do { (st1, z, ex) \<leftarrow> rm_first E ip (zone - dzones) st; rm_last E ip position z ex st1 })"

section \<open>Writing the map\<close>

text \<open>The double indirect block: either \<open>write_map\<close> returns, or the zone of the single indirect block, the two indices, the buffer and the
  zone number the inode had before.\<close>

definition wm_double :: "io_env \<Rightarrow> nat \<Rightarrow> nat \<Rightarrow> bool \<Rightarrow> fs_st \<Rightarrow> ((fs_st \<times> int) + (fs_st \<times> nat \<times> nat \<times> nat \<times> bufno option \<times> nat)) option" where
  "wm_double E ip excess wfree st =
    (let r = inodes st ip; sp = inode_sp ip st; zones = i_ndzones r; nr_indirects = i_nindirs r; z2 = i_zone r ! (zones + 1) in
     do {
       (st1, z, new_dbl) \<leftarrow>
         (if z2 = NO_ZONE \<and> \<not> wfree
          then do {
            (s, z) \<leftarrow> alloc_zone E (i_dev r) (i_zone r ! 0) st;
            Some (if z = NO_ZONE then (s, z, False) else (set_zone ip (zones + 1) z s, z, True))
          }
          else Some (st, z2, False));
       if z = NO_ZONE \<and> \<not> wfree then Some (Inl (st1, err_code st1))
       else
        let ind_ex = (excess - nr_indirects) div nr_indirects; ex = (excess - nr_indirects) mod nr_indirects in
        if ind_ex \<ge> nr_indirects then Some (Inl (st1, EFBIG))
        else if z = NO_ZONE then Some (Inr (st1, NO_ZONE, ind_ex, ex, None, z2))
        else
         do {
           (s, n) \<leftarrow> fget E (i_dev r) (zone_block sp z) (if new_dbl then NO_READ else NORMAL) st1;
           let s1 = (if new_dbl then fzero n s else s);
           z1 \<leftarrow> rd_indir n ind_ex s1;
           Some (Inr (s1, z1, ind_ex, ex, Some n, z2))
         }
     })"

text \<open>The single indirect block with the entry.\<close>

definition wm_entry :: "io_env \<Rightarrow> nat \<Rightarrow> bool \<Rightarrow> nat \<Rightarrow> nat \<Rightarrow> bufno option \<Rightarrow> nat \<Rightarrow> nat \<Rightarrow> bool \<Rightarrow> bool \<Rightarrow> fs_st \<Rightarrow> (fs_st \<times> nat) option" where
  "wm_entry E ip single ind_ex ex bp_dindir z1 new_zone wfree new_ind st =
    (let r = inodes st ip; sp = inode_sp ip st; dev = i_dev r in
     do {
       (s, n) \<leftarrow> fget E dev (zone_block sp z1) (if new_ind then NO_READ else NORMAL) st;
       let s1 = (if new_ind then fzero n s else s);
       (s2, z) \<leftarrow>
         (if wfree
          then do {
            old_zone \<leftarrow> rd_indir n ex s1;
            sa \<leftarrow> (if old_zone \<noteq> NO_ZONE then do { t \<leftarrow> free_zone E dev old_zone s1; wr_indir (Some n) ex NO_ZONE t } else Some s1);
            if empty_indir n sp sa
            then do {
              sb \<leftarrow> free_zone E dev z1 sa;
              sc \<leftarrow> (if single then Some (set_zone ip (i_ndzones r) NO_ZONE sb)
                    else do { t \<leftarrow> wr_indir bp_dindir ind_ex NO_ZONE sb; Some (mark_dirty (the bp_dindir) t) });
              Some (sc, NO_ZONE)
            }
            else Some (sa, z1)
          }
          else do { t \<leftarrow> wr_indir (Some n) ex new_zone s1; Some (t, z1) });
       Some (fput E (Some n) INDIRECT_BLOCK (mark_dirty n s2), z)
     })"

definition wm_indirect :: "io_env \<Rightarrow> nat \<Rightarrow> bool \<Rightarrow> nat \<Rightarrow> nat \<Rightarrow> bufno option \<Rightarrow> nat \<Rightarrow> nat \<Rightarrow> nat \<Rightarrow> bool \<Rightarrow> fs_st \<Rightarrow> (fs_st \<times> int) option" where
  "wm_indirect E ip single ind_ex ex bp_dindir z1 z2 new_zone wfree st =
    (let r = inodes st ip; sp = inode_sp ip st; dev = i_dev r; zones = i_ndzones r in
     do {
       (st1, z, new_ind) \<leftarrow>
         (if z1 = NO_ZONE \<and> \<not> wfree
          then do {
            (s, z) \<leftarrow> alloc_zone E dev (i_zone r ! 0) st;
            s1 \<leftarrow> (if single then Some (set_zone ip zones z s) else wr_indir bp_dindir ind_ex z s);
            Some (case bp_dindir of None \<Rightarrow> s1 | Some d \<Rightarrow> mark_dirty d s1, z, True)
          }
          else Some (st, z1, False));
       if z = NO_ZONE \<and> \<not> wfree then Some (fput E bp_dindir INDIRECT_BLOCK st1, err_code st1)
       else
        do {
          (st2, y) \<leftarrow> (if z \<noteq> NO_ZONE then wm_entry E ip single ind_ex ex bp_dindir z new_zone wfree new_ind st1 else Some (st1, z));
          st3 \<leftarrow>
            (if y = NO_ZONE \<and> \<not> single
             then (case bp_dindir of None \<Rightarrow> None
                   | Some d \<Rightarrow>
                     if empty_indir d sp st2 \<and> z2 \<noteq> NO_ZONE
                     then do { s \<leftarrow> free_zone E dev z2 st2; Some (set_zone ip (zones + 1) NO_ZONE s) } else Some st2)
             else Some st2);
          Some (fput E bp_dindir INDIRECT_BLOCK st3, 0)
        }
     })"

definition write_map :: "io_env \<Rightarrow> nat \<Rightarrow> nat \<Rightarrow> nat \<Rightarrow> bool \<Rightarrow> fs_st \<Rightarrow> (fs_st \<times> int) option" where
  "write_map E ip position new_zone wfree st0 =
    (let st = st0\<lparr>inodes := (inodes st0)(ip := (inodes st0 ip)\<lparr>i_dirt := True\<rparr>)\<rparr>; r = inodes st ip; sp = inode_sp ip st;
         zone = zone_of sp position; zones = i_ndzones r; nr_indirects = i_nindirs r in
     if zone < zones then
       (if i_zone r ! zone \<noteq> NO_ZONE \<and> wfree
        then do { s \<leftarrow> free_zone E (i_dev r) (i_zone r ! zone) st; Some (set_zone ip zone NO_ZONE s, 0) }
        else Some (set_zone ip zone new_zone st, 0))
     else
      let excess = zone - zones in
      if excess < nr_indirects then wm_indirect E ip True 0 excess None (i_zone r ! zones) NO_ZONE new_zone wfree st
      else
       do {
         w \<leftarrow> wm_double E ip excess wfree st;
         (case w of Inl p \<Rightarrow> Some p
          | Inr (s, z1, ind_ex, ex, bp, z2) \<Rightarrow> wm_indirect E ip False ind_ex ex bp z1 z2 new_zone wfree s)
       })"

section \<open>New blocks\<close>

fun clear_blocks :: "io_env \<Rightarrow> int \<Rightarrow> nat \<Rightarrow> nat \<Rightarrow> fs_st \<Rightarrow> fs_st option" where
  "clear_blocks E dev b 0 st = Some st"
| "clear_blocks E dev b (Suc m) st =
    do { (s, n) \<leftarrow> fget E dev b NO_READ st; clear_blocks E dev (b + 1) m (fput E (Some n) FULL_DATA_BLOCK (fzero n s)) }"

definition clear_zone :: "io_env \<Rightarrow> nat \<Rightarrow> nat \<Rightarrow> bool \<Rightarrow> fs_st \<Rightarrow> fs_st option" where
  "clear_zone E ip pos flag st =
    (let sp = inode_sp ip st; scale = nat (s_log_zone_size sp); zone_size = s_block_size sp * 2 ^ scale;
         p = (if flag then (pos div zone_size) * zone_size else pos); nxt = p + s_block_size sp - 1 in
     if scale = 0 then Some st
     else if nxt div zone_size \<noteq> p div zone_size then Some st
     else
      do {
        (s, blo) \<leftarrow> read_map E ip nxt st;
        if blo = 0 then Some s
        else let bhi = (blo div 2 ^ scale + 1) * 2 ^ scale - 1 in clear_blocks E (i_dev (inodes st ip)) blo (bhi + 1 - blo) s
      })"

definition new_block :: "io_env \<Rightarrow> nat \<Rightarrow> nat \<Rightarrow> fs_st \<Rightarrow> (fs_st \<times> bufno option) option" where
  "new_block E ip position st =
    (let dev = i_dev (inodes st ip) in
     do {
       (s, b) \<leftarrow> read_map E ip position st;
       (s1, bo) \<leftarrow>
         (if b \<noteq> 0 then Some (s, Some b)
          else
           let r = inodes s ip; sp = inode_sp ip s; scale = nat (s_log_zone_size sp); zone_size = s_block_size sp * 2 ^ scale in
           do {
             (s2, z) \<leftarrow> alloc_zone E dev (if i_zone r ! 0 = NO_ZONE then s_firstdatazone sp else i_zone r ! 0) s;
             if z = NO_ZONE then Some (s2, None)
             else
              do {
                (s3, code) \<leftarrow> write_map E ip position z False s2;
                if code \<noteq> 0 then do { s4 \<leftarrow> free_zone E dev z s3; Some (s4\<lparr>err_code := code\<rparr>, None) }
                else
                 do {
                   s4 \<leftarrow> (if position \<noteq> i_size (inodes s3 ip) then clear_zone E ip position True s3 else Some s3);
                   Some (s4, Some ((zone_block sp z + (position mod zone_size) div s_block_size sp) mod 2 ^ 32))
                 }
              }
           });
       (case bo of None \<Rightarrow> Some (s1, None)
        | Some c \<Rightarrow> do { (t, n) \<leftarrow> fget E dev c NO_READ s1; Some (fzero n t, Some n) })
     })"

section \<open>The map as the inode and the device describe it\<close>

definition legal_zone :: "super_block \<Rightarrow> nat \<Rightarrow> bool" where
  "legal_zone sp z \<longleftrightarrow> z = NO_ZONE \<or> data_zone sp z"

definition ind_ref :: "super_block \<Rightarrow> (int \<Rightarrow> int \<Rightarrow> block) \<Rightarrow> int \<Rightarrow> nat \<Rightarrow> nat \<Rightarrow> nat" where
  "ind_ref sp I dev z i = (if z = NO_ZONE then NO_ZONE else ind_entry sp (I dev (int (zone_block sp z))) i)"

text \<open>The zone of the single indirect block on the way to a zone behind the direct ones, the index in it, and the zone itself.\<close>

definition ind_zone :: "super_block \<Rightarrow> (int \<Rightarrow> int \<Rightarrow> block) \<Rightarrow> inode \<Rightarrow> nat \<Rightarrow> nat" where
  "ind_zone sp I r e =
    (if e < i_nindirs r then i_zone r ! i_ndzones r
     else ind_ref sp I (i_dev r) (i_zone r ! (i_ndzones r + 1)) ((e - i_nindirs r) div i_nindirs r))"

definition ind_index :: "inode \<Rightarrow> nat \<Rightarrow> nat" where
  "ind_index r e = (if e < i_nindirs r then e else (e - i_nindirs r) mod i_nindirs r)"

definition zone_ref :: "super_block \<Rightarrow> (int \<Rightarrow> int \<Rightarrow> block) \<Rightarrow> inode \<Rightarrow> nat \<Rightarrow> nat" where
  "zone_ref sp I r zone =
    (if zone < i_ndzones r then i_zone r ! zone
     else ind_ref sp I (i_dev r) (ind_zone sp I r (zone - i_ndzones r)) (ind_index r (zone - i_ndzones r)))"

text \<open>An inode of a mounted file system.\<close>

definition file_ok :: "io_env \<Rightarrow> fs_st \<Rightarrow> nat \<Rightarrow> bool" where
  "file_ok E st ip \<longleftrightarrow>
    (let r = inodes st ip; sp = inode_sp ip st in
     zone_st E st (i_sp r) \<and> i_dev r = s_dev sp \<and> length (i_zone r) = i_ndzones r + 3 \<and> 0 < i_nindirs r
     \<and> i_nindirs r * (if s_version sp = 1 then 2 else 4) \<le> s_block_size sp \<and> s_block_size sp \<le> 4096
     \<and> s_zones sp * 2 ^ nat (s_log_zone_size sp) \<le> 2 ^ 32 \<and> (s_version sp = 1 \<longrightarrow> s_zones sp \<le> 2 ^ 16)
     \<and> map_start ZMAP sp + int (bit_blocks ZMAP sp) \<le> int (s_firstdatazone sp * 2 ^ nat (s_log_zone_size sp)))"

lemma get32_clip:
  assumes "dev \<noteq> NO_DEV" "4 * i + 3 < io_bsize E dev"
  shows "get32 (clip E dev d) i = get32 d i"
  using assms by (simp add: get32_def get16_def clip_def)

lemma get16_clip:
  assumes "dev \<noteq> NO_DEV" "2 * i + 1 < io_bsize E dev"
  shows "get16 (clip E dev d) i = get16 d i"
  using assms by (simp add: get16_def clip_def)

lemma ind_entry_clip:
  assumes "file_ok E st ip" "i < i_nindirs (inodes st ip)" "sp = inode_sp ip st"
  shows "ind_entry sp (clip E (s_dev sp) d) i = ind_entry sp d i"
proof -
  have b: "s_dev sp \<noteq> NO_DEV" "io_bsize E (s_dev sp) = s_block_size sp" "i_nindirs (inodes st ip) * (if s_version sp = 1 then 2 else 4) \<le> s_block_size sp"
    using assms by (auto simp: file_ok_def Let_def zone_st_def zones_ok_def map_ok_def inode_sp_def)
  show ?thesis
  proof (cases "s_version sp = 1")
    case True
    then have "2 * i + 1 < io_bsize E (s_dev sp)" using b assms(2) by auto
    then show ?thesis using True b(1) by (simp add: ind_entry_def get16_clip)
  next
    case False
    then have "4 * i + 3 < io_bsize E (s_dev sp)" using b assms(2) by auto
    then show ?thesis using False b(1) by (simp add: ind_entry_def get32_clip)
  qed
qed

lemma file_okD:
  assumes "file_ok E st ip" "sp = inode_sp ip st" "r = inodes st ip"
  shows "zone_st E st (i_sp r)" "i_dev r = s_dev sp" "s_dev sp \<noteq> NO_DEV" "io_ok E (fcache st)" "room (fcache st)"
    "get_super (s_dev sp) (supers st) = Some (i_sp r)" "0 < i_nindirs r" "length (i_zone r) = i_ndzones r + 3"
  using assms by (auto simp: file_ok_def Let_def zone_st_def zones_ok_def map_ok_def inode_sp_def)

text \<open>A look into an indirect block.\<close>

lemma look_indir:
  assumes "file_ok E st ip" "sp = inode_sp ip st" "dev = s_dev sp" "i < i_nindirs (inodes st ip)" "z' = ind_entry sp (dev_image E (fcache st) dev (int b)) i"
  obtains s n where "fget E dev b NORMAL st = Some (s, n)" "rd_indir n i s = (if legal_zone sp z' then Some z' else None)"
    "\<exists>c. fput E (Some n) INDIRECT_BLOCK s = st\<lparr>fcache := c\<rparr> \<and> calm E (fcache st) c \<and> dev_image E c = dev_image E (fcache st)"
proof -
  note f = file_okD [OF assms(1,2) refl]
  have d: "dev \<noteq> NO_DEV" using assms(3) f(3) by simp
  obtain c n where g: "get_block E dev (int b) NORMAL (fcache st) = Some (c, n)" "clip E dev (buf_data c n) = dev_image E (fcache st) dev (int b)"
    "cached c dev (int b) n" "\<And>d. calm E (fcache st) (put_block E (Some n) INDIRECT_BLOCK (set_data n d c))"
    "\<And>d. dev_image E (put_block E (Some n) INDIRECT_BLOCK (set_data n d c))
        = (dev_image E (fcache st))(dev := (dev_image E (fcache st) dev)(int b := clip E dev d))"
    "calm E (fcache st) (put_block E (Some n) INDIRECT_BLOCK c)" "dev_image E (put_block E (Some n) INDIRECT_BLOCK c) = dev_image E (fcache st)"
    using bc.changed [OF f(4,5) d, of "int b" INDIRECT_BLOCK] by blast
  have "ind_entry sp (buf_data c n) i = z'" using ind_entry_clip [OF assms(1,4,2), of "buf_data c n"] g(2) assms(3,5) by simp
  then have "rd_indir n i (st\<lparr>fcache := c\<rparr>) = (if legal_zone sp z' then Some z' else None)"
    using f(6) g(3) assms(2,3) by (auto simp: rd_indir_def cached_def Let_def legal_zone_def data_zone_def inode_sp_def buf_data_def)
  moreover have "fget E dev b NORMAL st = Some (st\<lparr>fcache := c\<rparr>, n)" using g(1) by (simp add: fget_def)
  moreover have "fput E (Some n) INDIRECT_BLOCK (st\<lparr>fcache := c\<rparr>) = st\<lparr>fcache := put_block E (Some n) INDIRECT_BLOCK c\<rparr>" by (simp add: fput_def)
  ultimately show thesis using that g(6,7) by blast
qed

lemma file_ok_cache:
  assumes "file_ok E st ip" "calm E (fcache st) c" "dev_image E c = dev_image E (fcache st)"
  shows "file_ok E (st\<lparr>fcache := c\<rparr>) ip"
  using assms by (simp add: file_ok_def Let_def zone_st_def inode_sp_def settled_def)

definition legal_path :: "super_block \<Rightarrow> (int \<Rightarrow> int \<Rightarrow> block) \<Rightarrow> inode \<Rightarrow> nat \<Rightarrow> bool" where
  "legal_path sp I r zone \<longleftrightarrow> zone < i_ndzones r
     \<or> (zone - i_ndzones r < i_nindirs r \<or> legal_zone sp (ind_zone sp I r (zone - i_ndzones r))) \<and> legal_zone sp (zone_ref sp I r zone)"

definition same_fs :: "io_env \<Rightarrow> fs_st \<Rightarrow> fs_st \<Rightarrow> bool" where
  "same_fs E st st' \<longleftrightarrow> (\<exists>c. st' = st\<lparr>fcache := c\<rparr> \<and> calm E (fcache st) c \<and> dev_image E c = dev_image E (fcache st))"

lemma same_fs_refl: "file_ok E st ip \<Longrightarrow> same_fs E st st"
  using file_okD(4,5) unfolding same_fs_def settled_def by (intro exI [of _ "fcache st"]) auto

lemma same_fs_trans: "same_fs E s t \<Longrightarrow> same_fs E t u \<Longrightarrow> same_fs E s u"
  unfolding same_fs_def using settled_trans by fastforce

lemma same_fs_sel:
  assumes "same_fs E st s"
  shows "inodes s = inodes st" "supers s = supers st" "inode_sp ip s = inode_sp ip st" "dev_image E (fcache s) = dev_image E (fcache st)"
    "file_ok E st ip \<Longrightarrow> file_ok E s ip"
  using assms file_ok_cache by (auto simp: same_fs_def inode_sp_def)

text \<open>A block looked into and released.\<close>

lemma look_ref:
  assumes "file_ok E st ip" "sp = inode_sp ip st" "r = inodes st ip" "i < i_nindirs r" "z \<noteq> NO_ZONE"
    "y = ind_ref sp (dev_image E (fcache st)) (i_dev r) z i"
  obtains s n where "fget E (i_dev r) (zone_block sp z) NORMAL st = Some (s, n)" "rd_indir n i s = (if legal_zone sp y then Some y else None)"
    "same_fs E st (fput E (Some n) INDIRECT_BLOCK s)"
proof -
  note f = file_okD [OF assms(1-3)]
  have "y = ind_entry sp (dev_image E (fcache st) (i_dev r) (int (zone_block sp z))) i" using assms(5,6) by (simp add: ind_ref_def)
  then show thesis using that assms(3,4) by (elim look_indir [OF assms(1,2) f(2), rotated]) (auto simp: same_fs_def)
qed

lemma rm_last_spec:
  assumes "file_ok E st ip" "sp = inode_sp ip st" "r = inodes st ip" "ex < i_nindirs r \<or> z = NO_ZONE" "y = ind_ref sp (dev_image E (fcache st)) (i_dev r) z ex"
  shows "(if legal_zone sp y then \<exists>s. rm_last E ip position z ex st = Some (s, block_of sp position y) \<and> same_fs E st s
     else rm_last E ip position z ex st = None)"
proof (cases "z = NO_ZONE")
  case True
  then show ?thesis using assms(1,5) same_fs_refl by (simp add: rm_last_def ind_ref_def block_of_def legal_zone_def)
next
  case False
  then obtain s n where "fget E (i_dev r) (zone_block sp z) NORMAL st = Some (s, n)" "rd_indir n ex s = (if legal_zone sp y then Some y else None)"
    "same_fs E st (fput E (Some n) INDIRECT_BLOCK s)" using look_ref [OF assms(1-3)] assms(4,5) by metis
  then show ?thesis using False assms(2,3) by (simp add: rm_last_def)
qed

lemma rm_first_spec:
  assumes "file_ok E st ip" "sp = inode_sp ip st" "r = inodes st ip" "e < i_nindirs r + i_nindirs r * i_nindirs r"
    "z = ind_zone sp (dev_image E (fcache st)) r e"
  shows "(if e < i_nindirs r \<or> legal_zone sp z then \<exists>s ex. rm_first E ip e st = Some (s, z, ex) \<and> (z = NO_ZONE \<or> ex = ind_index r e) \<and> same_fs E st s
     else rm_first E ip e st = None)"
proof -
  let ?i = "(e - i_nindirs r) div i_nindirs r" and ?z2 = "i_zone r ! (i_ndzones r + 1)"
  consider "e < i_nindirs r" | "\<not> e < i_nindirs r" "?z2 = NO_ZONE" | "\<not> e < i_nindirs r" "?z2 \<noteq> NO_ZONE" by blast
  then show ?thesis
  proof cases
    case 1
    then show ?thesis using assms(1,3,5) same_fs_refl by (simp add: rm_first_def Let_def ind_zone_def ind_index_def)
  next
    case 2
    then show ?thesis using assms(1,3,5) same_fs_refl by (simp add: rm_first_def Let_def ind_zone_def ind_ref_def legal_zone_def)
  next
    case 3
    have "?i < i_nindirs r" using 3(1) assms(4) by (auto intro: less_mult_imp_div_less)
    moreover have "z = ind_ref sp (dev_image E (fcache st)) (i_dev r) ?z2 ?i" using 3 assms(5) by (simp add: ind_zone_def)
    ultimately obtain s n where "fget E (i_dev r) (zone_block sp ?z2) NORMAL st = Some (s, n)" "rd_indir n ?i s = (if legal_zone sp z then Some z else None)"
      "same_fs E st (fput E (Some n) INDIRECT_BLOCK s)" using look_ref [OF assms(1-3) _ 3(2)] by metis
    then show ?thesis using 3 assms(2,3) by (simp add: rm_first_def Let_def ind_index_def)
  qed
qed

lemma ind_index_less: "0 < i_nindirs r \<Longrightarrow> ind_index r e < i_nindirs r"
  by (simp add: ind_index_def)

lemma read_map_spec:
  assumes "file_ok E st ip" "sp = inode_sp ip st" "r = inodes st ip" "I = dev_image E (fcache st)" "zone = zone_of sp position"
    "zone < i_ndzones r + i_nindirs r + i_nindirs r * i_nindirs r"
  shows "(if legal_path sp I r zone then \<exists>s. read_map E ip position st = Some (s, block_of sp position (zone_ref sp I r zone)) \<and> same_fs E st s
     else read_map E ip position st = None)"
proof (cases "zone < i_ndzones r")
  case True
  then show ?thesis using assms same_fs_refl by (simp add: legal_path_def read_map_def Let_def zone_ref_def)
next
  case False
  define e z where "e = zone - i_ndzones r" and "z = ind_zone sp I r e"
  have m: "read_map E ip position st = do { (st1, z, ex) \<leftarrow> rm_first E ip e st; rm_last E ip position z ex st1 }"
    using False assms(2,3,5) by (simp add: read_map_def Let_def e_def)
  have y: "zone_ref sp I r zone = ind_ref sp I (i_dev r) z (ind_index r e)" using False by (simp add: zone_ref_def e_def z_def)
  have lp: "legal_path sp I r zone \<longleftrightarrow> (e < i_nindirs r \<or> legal_zone sp z) \<and> legal_zone sp (zone_ref sp I r zone)"
    using False by (simp add: legal_path_def e_def z_def)
  have "e < i_nindirs r + i_nindirs r * i_nindirs r" using False assms(6) by (simp add: e_def)
  note first = rm_first_spec [OF assms(1-3) this z_def [unfolded assms(4)], folded assms(4)]
  show ?thesis
  proof (cases "e < i_nindirs r \<or> legal_zone sp z")
    case True
    then obtain s ex where s: "rm_first E ip e st = Some (s, z, ex)" "z = NO_ZONE \<or> ex = ind_index r e" "same_fs E st s" using first by auto
    note sel = same_fs_sel [OF s(3)]
    have ex: "ex < i_nindirs r \<or> z = NO_ZONE" using s(2) ind_index_less file_okD(7) [OF assms(1-3)] by auto
    have "zone_ref sp I r zone = ind_ref sp (dev_image E (fcache s)) (i_dev r) z ex" using y s(2) assms(4) sel(4) by (auto simp: ind_ref_def)
    note last = rm_last_spec [OF sel(5) [OF assms(1)] _ _ ex this, of position]
    then show ?thesis using True lp m s(1) sel assms(2,3) same_fs_trans [OF s(3)] by (auto split: if_splits)
  next
    case False
    then show ?thesis using first lp m by simp
  qed
qed

section \<open>The tree of indirect blocks\<close>

definition img_put :: "(int \<Rightarrow> int \<Rightarrow> block) \<Rightarrow> int \<Rightarrow> nat \<Rightarrow> block \<Rightarrow> int \<Rightarrow> int \<Rightarrow> block" where
  "img_put I dev b d = I(dev := (I dev)(int b := d))"

text \<open>Slot 0 is the single indirect block, slot 1 the double indirect block, the slots from 2 on are the entries of the latter.\<close>

definition islot :: "super_block \<Rightarrow> (int \<Rightarrow> int \<Rightarrow> block) \<Rightarrow> inode \<Rightarrow> nat \<Rightarrow> nat" where
  "islot sp I r k =
    (if k < 2 then i_zone r ! (i_ndzones r + k) else ind_ref sp I (i_dev r) (i_zone r ! (i_ndzones r + 1)) (k - 2))"

definition slot_of :: "inode \<Rightarrow> nat \<Rightarrow> nat" where
  "slot_of r e = (if e < i_nindirs r then 0 else 2 + (e - i_nindirs r) div i_nindirs r)"

lemma zone_ref_slot:
  "\<not> zone < i_ndzones r \<Longrightarrow> zone_ref sp I r zone =
     ind_ref sp I (i_dev r) (islot sp I r (slot_of r (zone - i_ndzones r))) (ind_index r (zone - i_ndzones r))"
  by (auto simp: zone_ref_def ind_zone_def islot_def slot_of_def)

lemma slot_of_less: "0 < i_nindirs r \<Longrightarrow> e < i_nindirs r + i_nindirs r * i_nindirs r \<Longrightarrow> slot_of r e < i_nindirs r + 2 \<and> slot_of r e \<noteq> 1"
  by (auto simp: slot_of_def intro: less_mult_imp_div_less)

lemma slot_index_inj:
  assumes "slot_of r e = slot_of r e'" "ind_index r e = ind_index r e'" "0 < i_nindirs r"
  shows "e = e'"
proof (cases "e < i_nindirs r")
  case True
  then show ?thesis using assms by (auto simp: slot_of_def ind_index_def split: if_splits)
next
  case False
  then have "\<not> e' < i_nindirs r" using assms(1) by (auto simp: slot_of_def split: if_splits)
  then have "e - i_nindirs r = e' - i_nindirs r" using False assms(1,2) by (metis ind_index_def slot_of_def add_left_cancel div_mult_mod_eq)
  then show ?thesis using False \<open>\<not> e' < i_nindirs r\<close> by simp
qed

text \<open>Every indirect block is a data zone in use, and none is used twice.\<close>

definition tree_ok :: "super_block \<Rightarrow> (int \<Rightarrow> int \<Rightarrow> block) \<Rightarrow> inode \<Rightarrow> bool" where
  "tree_ok sp I r \<longleftrightarrow>
    (\<forall>k. k < i_nindirs r + 2 \<longrightarrow> islot sp I r k \<noteq> NO_ZONE \<longrightarrow> data_zone sp (islot sp I r k) \<and> zone_used sp I (islot sp I r k)
       \<and> (\<forall>l. l < i_nindirs r + 2 \<longrightarrow> islot sp I r l = islot sp I r k \<longrightarrow> l = k))"

definition layout_ok :: "io_env \<Rightarrow> super_block \<Rightarrow> bool" where
  "layout_ok E sp \<longleftrightarrow> zones_ok E sp \<and> s_zones sp * 2 ^ nat (s_log_zone_size sp) \<le> 2 ^ 32
     \<and> map_start ZMAP sp + int (bit_blocks ZMAP sp) \<le> int (s_firstdatazone sp * 2 ^ nat (s_log_zone_size sp)) \<and> (s_version sp = 1 \<longrightarrow> s_zones sp \<le> 2 ^ 16)"

lemma zone_block_data:
  assumes "layout_ok E sp" "data_zone sp z"
  shows "zone_block sp z = z * 2 ^ nat (s_log_zone_size sp)"
proof -
  have "z < s_zones sp" using assms(2) by (simp add: data_zone_def)
  then have "z * 2 ^ nat (s_log_zone_size sp) < s_zones sp * 2 ^ nat (s_log_zone_size sp)" by simp
  also have "\<dots> \<le> 2 ^ 32" using assms(1) by (simp add: layout_ok_def)
  finally show ?thesis by (simp add: zone_block_def)
qed

lemma zone_block_inj: "layout_ok E sp \<Longrightarrow> data_zone sp z \<Longrightarrow> data_zone sp y \<Longrightarrow> zone_block sp z = zone_block sp y \<longleftrightarrow> z = y"
  by (simp add: zone_block_data)

lemma map_before_data:
  assumes "layout_ok E sp" "data_zone sp z" "b < map_bits ZMAP sp"
  shows "map_start ZMAP sp + int (b div bits_per_block sp) < int (zone_block sp z)"
proof -
  have "b div bits_per_block sp < bit_blocks ZMAP sp"
    using assms(1,3) unfolding layout_ok_def zones_ok_def map_ok_def by (meson less_le_trans less_mult_imp_div_less)
  then have "map_start ZMAP sp + int (b div bits_per_block sp) < int (s_firstdatazone sp * 2 ^ nat (s_log_zone_size sp))"
    using assms(1) unfolding layout_ok_def by linarith
  also have "\<dots> \<le> int (z * 2 ^ nat (s_log_zone_size sp))" using assms(2) by (simp add: data_zone_def)
  finally show ?thesis using zone_block_data [OF assms(1,2)] by simp
qed

lemma map_below_data: "layout_ok E sp \<Longrightarrow> data_zone sp z \<Longrightarrow> b < map_bits ZMAP sp \<Longrightarrow> map_start ZMAP sp + int (b div bits_per_block sp) \<noteq> int (zone_block sp z)"
  using map_before_data [of E sp z b] by simp

lemma zone_bit_less: "layout_ok E sp \<Longrightarrow> data_zone sp z \<Longrightarrow> z + 1 - s_firstdatazone sp < map_bits ZMAP sp"
  using zone_map_bits unfolding layout_ok_def data_zone_def by fastforce

lemma upd_map_data:
  assumes "layout_ok E sp" "data_zone sp z" "data_zone sp y"
  shows "upd_map ZMAP sp I (y + 1 - s_firstdatazone sp) v dev (int (zone_block sp z)) = I dev (int (zone_block sp z))"
  using map_below_data [OF assms(1,2) zone_bit_less [OF assms(1,3)]] by (simp add: upd_map_def Let_def del: One_nat_def)

lemma used_upd_map:
  assumes "layout_ok E sp" "data_zone sp z" "data_zone sp y"
  shows "zone_used sp (upd_map ZMAP sp I (y + 1 - s_firstdatazone sp) v) z = (if z = y then v else zone_used sp I z)"
proof -
  have "0 < bits_per_block sp" using assms(1) bits_per_block_pos unfolding layout_ok_def zones_ok_def by blast
  moreover have "z + 1 - s_firstdatazone sp = y + 1 - s_firstdatazone sp \<longleftrightarrow> z = y" using assms(2,3) unfolding data_zone_def by linarith
  ultimately show ?thesis by (simp add: zone_used_def on_upd_map del: One_nat_def)
qed

lemma used_img_put:
  assumes "layout_ok E sp" "data_zone sp z" "data_zone sp y"
  shows "zone_used sp (img_put I dev (zone_block sp y) d) z = zone_used sp I z"
  using map_below_data [OF assms(1,3) zone_bit_less [OF assms(1,2)]] by (simp add: zone_used_def on_map_def img_put_def del: One_nat_def)

lemma img_put_data:
  assumes "layout_ok E sp" "data_zone sp z" "data_zone sp y"
  shows "img_put I dev (zone_block sp y) d dev (int (zone_block sp z)) = (if z = y then d else I dev (int (zone_block sp z)))"
  using zone_block_inj [OF assms(1,2,3)] by (simp add: img_put_def)

section \<open>What is written into an indirect block is read from it\<close>

lemma conv2_ucast: "conv2 norm (ucast (w :: 16 word)) = ucast (conv16 norm w)"
  by (rule bit_word_eqI) (auto simp: bit_ucast_iff bit_conv16 conv2_bits bit_or_iff bit_push_bit_iff bit_drop_bit_eq bit_take_bit_iff add.commute
      dest: bit_imp_le_length)

lemma ucast_conv2: "(ucast (conv2 norm (w :: 32 word)) :: 16 word) = conv16 norm (ucast w)"
  by (rule bit_word_eqI) (auto simp: bit_ucast_iff bit_conv16 conv2_bits bit_or_iff bit_push_bit_iff bit_drop_bit_eq bit_take_bit_iff add.commute)

lemma bit_conv4: "bit (conv4 False x) i =
   (if i < 8 then bit x (i + 24) else if i < 16 then bit x (i + 8) else if i < 24 then bit x (i - 8) else i < 32 \<and> bit x (i - 24))"
proof -
  have c: "conv4 False x = or (push_bit 16 (or (push_bit 8 (take_bit 8 (take_bit 16 x))) (take_bit 8 (drop_bit 8 (take_bit 16 x)))))
      (or (push_bit 8 (take_bit 8 (take_bit 16 (drop_bit 16 x)))) (take_bit 8 (drop_bit 8 (take_bit 16 (drop_bit 16 x)))))"
    by (simp add: conv4_def conv2_bits take_bit_eq_mask mask_eq_exp_minus_1)
  show ?thesis
    unfolding c
    by (auto simp: bit_or_iff bit_push_bit_iff bit_drop_bit_eq bit_take_bit_iff add.commute dest: bit_imp_le_length)
qed

lemma conv4_conv4 [simp]: "conv4 norm (conv4 norm x) = x"
proof (cases norm)
  case False
  have "conv4 False (conv4 False x) = x" by (rule bit_word_eqI) (auto simp: bit_conv4)
  then show ?thesis using False by simp
qed (simp add: conv4_def)

lemma get32_put32: "get32 (put32 d i w) j = (if i = j then w else get32 d j)"
proof (cases "i = j")
  case True
  have n: "2 * j \<noteq> 2 * j + 1" by simp
  have "or (ucast (ucast w :: 16 word)) (push_bit 16 (ucast (ucast (drop_bit 16 w) :: 16 word))) = (w :: 32 word)"
    by (rule bit_word_eqI) (auto simp: bit_or_iff bit_push_bit_iff bit_drop_bit_eq bit_ucast_iff)
  then show ?thesis using True n by (simp add: get32_def put32_def get16_put16)
next
  case False
  then have "2 * j \<noteq> 2 * i" "2 * j \<noteq> 2 * i + 1" "2 * j + 1 \<noteq> 2 * i" "2 * j + 1 \<noteq> 2 * i + 1" by presburger+
  then show ?thesis using False by (simp add: get32_def put32_def get16_put16)
qed

definition fits :: "super_block \<Rightarrow> nat \<Rightarrow> bool" where
  "fits sp z \<longleftrightarrow> (if s_version sp = 1 then z < 2 ^ 16 else z < 2 ^ 32)"

lemma ind_entry_write: "fits sp z \<Longrightarrow> ind_entry sp (ind_write sp d i z) j = (if i = j then z else ind_entry sp d j)"
proof (cases "s_version sp = 1")
  case True
  assume "fits sp z"
  then have z: "unat (ucast (word_of_nat z :: 32 word) :: 16 word) = z" using True by (simp add: fits_def unsigned_ucast_eq unsigned_take_bit_eq unat_of_nat take_bit_nat_eq_self)
  have "unat (ucast (conv16 (s_native sp) (conv16 (s_native sp) (ucast (word_of_nat z :: 32 word)))) :: 32 word) = z"
    using z by (simp add: unsigned_ucast_eq unsigned_take_bit_eq take_bit_nat_eq_self)
  then show ?thesis using True by (simp add: ind_entry_def ind_write_def get16_put16 conv2_ucast ucast_conv2)
next
  case False
  assume "fits sp z"
  then have "unat (word_of_nat z :: 32 word) = z" using False by (simp add: fits_def unat_of_nat take_bit_nat_eq_self)
  then show ?thesis using False by (simp add: ind_entry_def ind_write_def get32_put32)
qed

lemma conv_zero: "conv2 norm 0 = 0" "conv4 norm 0 = 0"
  by (simp_all add: conv2_def conv4_def)

lemma ind_entry_zero [simp]: "ind_entry sp (\<lambda>_. 0) i = 0"
  by (simp add: ind_entry_def get16_def get32_def conv_zero)

lemma put16_clip:
  assumes "dev \<noteq> NO_DEV" "2 * i + 1 < io_bsize E dev"
  shows "clip E dev (put16 d i w) = put16 (clip E dev d) i w"
  using assms by (auto simp: put16_def clip_def fun_eq_iff)

lemma ind_write_clip:
  assumes "file_ok E st ip" "i < i_nindirs (inodes st ip)" "sp = inode_sp ip st"
  shows "clip E (s_dev sp) (ind_write sp d i z) = ind_write sp (clip E (s_dev sp) d) i z"
proof -
  have b: "s_dev sp \<noteq> NO_DEV" "io_bsize E (s_dev sp) = s_block_size sp" "i_nindirs (inodes st ip) * (if s_version sp = 1 then 2 else 4) \<le> s_block_size sp"
    using assms by (auto simp: file_ok_def Let_def zone_st_def zones_ok_def map_ok_def inode_sp_def)
  show ?thesis
  proof (cases "s_version sp = 1")
    case True
    then have "2 * i + 1 < io_bsize E (s_dev sp)" using b assms(2) by auto
    then show ?thesis using True b(1) by (simp add: ind_write_def put16_clip)
  next
    case False
    then have "2 * (2 * i) + 1 < io_bsize E (s_dev sp)" "2 * (2 * i + 1) + 1 < io_bsize E (s_dev sp)" using b assms(2) by auto
    then show ?thesis using False b(1) by (simp add: ind_write_def put32_def put16_clip)
  qed
qed

section \<open>How the tree grows\<close>

definition entry :: "super_block \<Rightarrow> (int \<Rightarrow> int \<Rightarrow> block) \<Rightarrow> inode \<Rightarrow> nat \<Rightarrow> nat \<Rightarrow> nat" where
  "entry sp I r k i = ind_ref sp I (i_dev r) (islot sp I r k) i"

lemma zone_ref_entry:
  "\<not> zone < i_ndzones r \<Longrightarrow> zone_ref sp I r zone = entry sp I r (slot_of r (zone - i_ndzones r)) (ind_index r (zone - i_ndzones r))"
  by (simp add: zone_ref_slot entry_def)

definition same_shape :: "inode \<Rightarrow> inode \<Rightarrow> bool" where
  "same_shape r r' \<longleftrightarrow> i_dev r' = i_dev r \<and> i_ndzones r' = i_ndzones r \<and> i_nindirs r' = i_nindirs r \<and> length (i_zone r') = length (i_zone r)
     \<and> (\<forall>j. j < i_ndzones r \<longrightarrow> i_zone r' ! j = i_zone r ! j)"

text \<open>A new block in slot \<open>k0\<close>, which was empty: the other slots and all entries are the same.\<close>

definition grown :: "super_block \<Rightarrow> nat \<Rightarrow> nat \<Rightarrow> (int \<Rightarrow> int \<Rightarrow> block) \<Rightarrow> inode \<Rightarrow> (int \<Rightarrow> int \<Rightarrow> block) \<Rightarrow> inode \<Rightarrow> bool" where
  "grown sp k0 z I r I' r' \<longleftrightarrow> same_shape r r' \<and> (\<forall>k. k < i_nindirs r + 2 \<longrightarrow> islot sp I' r' k = (if k = k0 then z else islot sp I r k))
     \<and> (\<forall>k i. k < i_nindirs r + 2 \<longrightarrow> k \<noteq> 1 \<longrightarrow> entry sp I' r' k i = entry sp I r k i)
     \<and> (\<forall>y. data_zone sp y \<longrightarrow> zone_used sp I' y = (y = z \<or> zone_used sp I y))"

lemma grown_tree:
  assumes "grown sp k0 z I r I' r'" "tree_ok sp I r" "data_zone sp z" "\<not> zone_used sp I z" "z \<noteq> NO_ZONE"
  shows "tree_ok sp I' r'"
  unfolding tree_ok_def
proof (intro allI impI)
  fix k
  have nr: "i_nindirs r' = i_nindirs r" using assms(1) by (simp add: grown_def same_shape_def)
  assume "k < i_nindirs r' + 2" and nz: "islot sp I' r' k \<noteq> NO_ZONE"
  then have k: "k < i_nindirs r + 2" by (simp add: nr)
  have sl: "islot sp I' r' l = (if l = k0 then z else islot sp I r l)" if "l < i_nindirs r + 2" for l using assms(1) that by (simp add: grown_def)
  have us: "zone_used sp I' y = (y = z \<or> zone_used sp I y)" if "data_zone sp y" for y using assms(1) that by (simp add: grown_def)
  have old: "data_zone sp (islot sp I r l) \<and> zone_used sp I (islot sp I r l)" if "l < i_nindirs r + 2" "islot sp I r l \<noteq> NO_ZONE" for l
    using assms(2) that unfolding tree_ok_def by blast
  have "islot sp I r l \<noteq> z" if "l < i_nindirs r + 2" for l using old [OF that] assms(4,5) by auto
  moreover have "l = k" if "l < i_nindirs r + 2" "islot sp I r l = islot sp I r k" "islot sp I r k \<noteq> NO_ZONE" for l
    using assms(2) k that unfolding tree_ok_def by blast
  ultimately show "data_zone sp (islot sp I' r' k) \<and> zone_used sp I' (islot sp I' r' k) \<and> (\<forall>l. l < i_nindirs r' + 2 \<longrightarrow> islot sp I' r' l = islot sp I' r' k \<longrightarrow> l = k)"
    using nz k sl [OF k] old [OF k] assms(3) us sl nr by (auto split: if_splits)
qed

lemma grown_zone_ref:
  assumes "grown sp k0 z I r I' r'" "0 < i_nindirs r" "zone < i_ndzones r + i_nindirs r + i_nindirs r * i_nindirs r"
  shows "zone_ref sp I' r' zone = zone_ref sp I r zone"
proof (cases "zone < i_ndzones r")
  case True
  then show ?thesis using assms(1) by (simp add: grown_def same_shape_def zone_ref_def)
next
  case False
  have s: "i_dev r' = i_dev r" "i_ndzones r' = i_ndzones r" "i_nindirs r' = i_nindirs r" using assms(1) by (simp_all add: grown_def same_shape_def)
  have "slot_of r (zone - i_ndzones r) < i_nindirs r + 2 \<and> slot_of r (zone - i_ndzones r) \<noteq> 1" using slot_of_less assms(2,3) False by auto
  moreover have "slot_of r' = slot_of r" "ind_index r' = ind_index r" using s by (simp_all add: slot_of_def ind_index_def fun_eq_iff)
  moreover have "entry sp I' r' k i = entry sp I r k i" if "k < i_nindirs r + 2" "k \<noteq> 1" for k i using assms(1) that by (simp add: grown_def)
  ultimately show ?thesis using False s by (simp add: zone_ref_entry)
qed

lemma ind_ref_zero [simp]: "ind_ref sp I dev 0 i = 0"
  by (simp add: ind_ref_def)

lemma tree_inj: "tree_ok sp I r \<Longrightarrow> k < i_nindirs r + 2 \<Longrightarrow> l < i_nindirs r + 2 \<Longrightarrow> islot sp I r k = islot sp I r l \<Longrightarrow> islot sp I r l \<noteq> NO_ZONE \<Longrightarrow> k = l"
  unfolding tree_ok_def by blast

lemma ind_ref_img_put:
  assumes "layout_ok E sp" "data_zone sp y" "legal_zone sp z"
  shows "ind_ref sp (img_put I dev (zone_block sp y) d) dev z i = (if z = y then (if z = NO_ZONE then NO_ZONE else ind_entry sp d i) else ind_ref sp I dev z i)"
  using assms img_put_data [OF assms(1) _ assms(2)] by (auto simp: ind_ref_def legal_zone_def)

lemma ind_ref_upd_map:
  assumes "layout_ok E sp" "data_zone sp y" "legal_zone sp z"
  shows "ind_ref sp (upd_map ZMAP sp I (y + 1 - s_firstdatazone sp) v) dev z i = ind_ref sp I dev z i"
  using assms(3) upd_map_data [OF assms(1) _ assms(2)] by (auto simp: ind_ref_def legal_zone_def simp del: One_nat_def)

lemma tree_legal: "tree_ok sp I r \<Longrightarrow> k < i_nindirs r + 2 \<Longrightarrow> legal_zone sp (islot sp I r k)"
  by (auto simp: tree_ok_def legal_zone_def)

lemma tree_used: "tree_ok sp I r \<Longrightarrow> k < i_nindirs r + 2 \<Longrightarrow> \<not> zone_used sp I z \<Longrightarrow> z \<noteq> NO_ZONE \<Longrightarrow> islot sp I r k \<noteq> z"
  by (auto simp: tree_ok_def)

lemma used_grown:
  assumes "layout_ok E sp" "data_zone sp z" "data_zone sp y" "data_zone sp x"
  shows "zone_used sp (img_put (upd_map ZMAP sp I (z + 1 - s_firstdatazone sp) True) dev (zone_block sp y) d) x = (x = z \<or> zone_used sp I x)"
  using used_img_put [OF assms(1,4,3)] used_upd_map [OF assms(1,4,2)] by auto

lemma grow_double:
  assumes lay: "layout_ok E sp" and t: "tree_ok sp I r" and z: "data_zone sp z" "\<not> zone_used sp I z" "z \<noteq> NO_ZONE" and "islot sp I r 1 = NO_ZONE"
    and len: "length (i_zone r) = i_ndzones r + 3"
    and I': "I' = img_put (upd_map ZMAP sp I (z + 1 - s_firstdatazone sp) True) (i_dev r) (zone_block sp z) (\<lambda>_. 0)"
    and r': "r' = r\<lparr>i_zone := (i_zone r)[i_ndzones r + 1 := z]\<rparr>"
  shows "grown sp 1 z I r I' r'"
proof -
  have sh: "same_shape r r'" by (simp add: same_shape_def r')
  have ref: "ind_ref sp I' (i_dev r) y i = (if y = z then 0 else ind_ref sp I (i_dev r) y i)" if "legal_zone sp y" for y i
    using that by (simp add: I' ind_ref_img_put [OF lay z(1)] ind_ref_upd_map [OF lay z(1)] del: One_nat_def)
  have z1: "i_zone r' ! (i_ndzones r + 1) = z" using len by (simp add: r')
  have sl: "islot sp I' r' k = (if k = 1 then z else islot sp I r k)" if "k < i_nindirs r + 2" for k
  proof -
    consider "k = 0" | "k = 1" | "2 \<le> k" by linarith
    then show ?thesis
    proof cases
      case 3
      have "legal_zone sp z" using z by (simp add: legal_zone_def)
      then have "islot sp I' r' k = 0" using 3 z1 ref [of z] by (simp add: islot_def r')
      then show ?thesis using 3 assms(6) by (simp add: islot_def ind_ref_def)
    qed (use z1 len in \<open>simp_all add: islot_def r'\<close>)
  qed
  have "entry sp I' r' k i = entry sp I r k i" if "k < i_nindirs r + 2" "k \<noteq> 1" for k i
    using sl [OF that(1)] that ref [OF tree_legal [OF t that(1)]] tree_used [OF t that(1) z(2,3)] by (simp add: entry_def r')
  then show ?thesis using sh sl used_grown [OF lay z(1) z(1)] by (simp add: grown_def I' del: One_nat_def)
qed

lemma grow_single:
  assumes lay: "layout_ok E sp" and t: "tree_ok sp I r" and z: "data_zone sp z" "\<not> zone_used sp I z" "z \<noteq> NO_ZONE" and "islot sp I r 0 = NO_ZONE"
    and len: "length (i_zone r) = i_ndzones r + 3"
    and I': "I' = img_put (upd_map ZMAP sp I (z + 1 - s_firstdatazone sp) True) (i_dev r) (zone_block sp z) (\<lambda>_. 0)"
    and r': "r' = r\<lparr>i_zone := (i_zone r)[i_ndzones r := z]\<rparr>"
  shows "grown sp 0 z I r I' r'"
proof -
  have sh: "same_shape r r'" by (simp add: same_shape_def r')
  have lz: "legal_zone sp z" using z by (simp add: legal_zone_def)
  have ref: "ind_ref sp I' (i_dev r) y i = (if y = z then 0 else ind_ref sp I (i_dev r) y i)" if "legal_zone sp y" for y i
    using that by (simp add: I' ind_ref_img_put [OF lay z(1)] ind_ref_upd_map [OF lay z(1)] del: One_nat_def)
  have z0: "i_zone r' ! i_ndzones r = z" "i_zone r' ! (i_ndzones r + 1) = islot sp I r 1" using len by (simp_all add: r' islot_def)
  have z2: "islot sp I r 1 \<noteq> z" "legal_zone sp (islot sp I r 1)" using tree_used [OF t _ z(2,3)] tree_legal [OF t] by simp_all
  have sl: "islot sp I' r' k = (if k = 0 then z else islot sp I r k)" if "k < i_nindirs r + 2" for k
    using z0 z2 ref [OF z2(2)] by (auto simp: islot_def r' less_Suc_eq numeral_2_eq_2)
  have "entry sp I' r' k i = entry sp I r k i" if "k < i_nindirs r + 2" "k \<noteq> 1" for k i
    using sl [OF that(1)] ref [OF lz] ref [OF tree_legal [OF t that(1)]] tree_used [OF t that(1) z(2,3)] assms(6) by (cases "k = 0") (simp_all add: entry_def r')
  then show ?thesis using sh sl used_grown [OF lay z(1) z(1)] by (simp add: grown_def I' del: One_nat_def)
qed

lemma grow_entry:
  assumes lay: "layout_ok E sp" and t: "tree_ok sp I r" and z: "data_zone sp z" "\<not> zone_used sp I z" "z \<noteq> NO_ZONE" "fits sp z"
    and k0: "k0 < i_nindirs r + 2" "2 \<le> k0" "islot sp I r k0 = NO_ZONE" and z2: "z2 = islot sp I r 1" "z2 \<noteq> NO_ZONE"
    and J: "J = upd_map ZMAP sp I (z + 1 - s_firstdatazone sp) True"
    and I': "I' = img_put (img_put J (i_dev r) (zone_block sp z2) (ind_write sp (J (i_dev r) (int (zone_block sp z2))) (k0 - 2) z))
       (i_dev r) (zone_block sp z) (\<lambda>_. 0)"
  shows "grown sp k0 z I r I' r"
proof -
  have z2d: "data_zone sp z2" "z2 \<noteq> z" "legal_zone sp z2" using t z2 tree_used [OF t _ z(2,3)] unfolding tree_ok_def by (auto simp: legal_zone_def)
  have ref: "ind_ref sp I' (i_dev r) y i = (if y = z then 0 else if y = z2 then (if i = k0 - 2 then z else ind_ref sp I (i_dev r) y i) else ind_ref sp I (i_dev r) y i)"
    if "legal_zone sp y" for y i
    using that z2(2) upd_map_data [OF lay z2d(1) z(1)]
    by (simp add: I' J ind_ref_img_put [OF lay z(1)] ind_ref_img_put [OF lay z2d(1)] ind_ref_upd_map [OF lay z(1)] ind_entry_write [OF z(4)] del: One_nat_def)
      (auto simp: ind_ref_def)
  have one: "k = 1" if "k < i_nindirs r + 2" "islot sp I r k = z2" for k using tree_inj [OF t that(1), of 1] that(2) z2 by simp
  have i1: "i_zone r ! (i_ndzones r + 1) = z2" using z2 by (simp add: islot_def)
  have sl: "islot sp I' r k = (if k = k0 then z else islot sp I r k)" if "k < i_nindirs r + 2" for k
    using k0(2) i1 ref [OF z2d(3)] z2d(2) by (auto simp: islot_def)
  have "entry sp I' r k i = entry sp I r k i" if "k < i_nindirs r + 2" "k \<noteq> 1" for k i
  proof (cases "k = k0")
    case True
    then show ?thesis using sl [OF k0(1)] k0(3) ref [of z] z by (simp add: entry_def legal_zone_def)
  next
    case False
    then show ?thesis using sl [OF that(1)] ref [OF tree_legal [OF t that(1)]] tree_used [OF t that(1) z(2,3)] one [OF that(1)] that(2) by (auto simp: entry_def)
  qed
  moreover have "zone_used sp I' y = (y = z \<or> zone_used sp I y)" if "data_zone sp y" for y
    using that used_img_put [OF lay that z(1)] used_img_put [OF lay that z2d(1)] used_upd_map [OF lay that z(1)] by (auto simp: I' J)
  ultimately show ?thesis using sl by (simp add: grown_def same_shape_def)
qed

text \<open>The entry itself.\<close>

lemma put_entry:
  assumes lay: "layout_ok E sp" and t: "tree_ok sp I r" and k0: "k0 < i_nindirs r + 2" "k0 \<noteq> 1" and y: "y = islot sp I r k0" "y \<noteq> NO_ZONE" and "fits sp z"
    and I': "I' = img_put I (i_dev r) (zone_block sp y) (ind_write sp (I (i_dev r) (int (zone_block sp y))) ex z)"
  shows "tree_ok sp I' r" "k < i_nindirs r + 2 \<Longrightarrow> k \<noteq> 1 \<Longrightarrow> entry sp I' r k i = (if k = k0 \<and> i = ex then z else entry sp I r k i)"
proof -
  have yd: "data_zone sp y" using t y k0(1) unfolding tree_ok_def by blast
  have ref: "ind_ref sp I' (i_dev r) x i = (if x = y \<and> i = ex then z else ind_ref sp I (i_dev r) x i)" if "legal_zone sp x" for x i
    using that y(2) by (simp add: I' ind_ref_img_put [OF lay yd] ind_entry_write [OF assms(7)]) (auto simp: ind_ref_def)
  have one: "k = k0" if "k < i_nindirs r + 2" "islot sp I r k = y" for k using tree_inj [OF t that(1) k0(1)] that(2) y by simp
  have "islot sp I r 1 \<noteq> y" "legal_zone sp (islot sp I r 1)" using one [of 1] k0(2) tree_legal [OF t, of 1] by auto
  then have sl: "islot sp I' r k = islot sp I r k" for k using ref by (simp add: islot_def)
  have us: "zone_used sp I' x = zone_used sp I x" if "data_zone sp x" for x using used_img_put [OF lay that yd] by (simp add: I')
  show "tree_ok sp I' r" using t us unfolding tree_ok_def sl by blast
  show "entry sp I' r k i = (if k = k0 \<and> i = ex then z else entry sp I r k i)" if "k < i_nindirs r + 2" "k \<noteq> 1"
    using ref [OF tree_legal [OF t that(1)]] one [OF that(1)] y(1) by (auto simp: entry_def sl)
qed

section \<open>A block held while other blocks are used\<close>

definition two_free :: "cache \<Rightarrow> bool" where
  "two_free c \<longleftrightarrow> (\<exists>a b. a \<noteq> b \<and> a < NR_BUFS \<and> b < NR_BUFS \<and> users c a = 0 \<and> users c b = 0)"

definition holds_buf :: "io_env \<Rightarrow> cache \<Rightarrow> cache \<Rightarrow> int \<Rightarrow> nat \<Rightarrow> bufno \<Rightarrow> bool" where
  "holds_buf E c c1 dev b n \<longleftrightarrow> io_ok E c1 \<and> room c1 \<and> users c1 = (users c)(n := users c n + 1) \<and> 0 \<le> users c n \<and> cached c1 dev (int b) n
     \<and> (\<forall>d a m. cached c d a m \<longrightarrow> users c m \<noteq> 0 \<longrightarrow> cached c1 d a m)"

lemma hold_block:
  assumes "io_ok E c" "two_free c" "dev \<noteq> NO_DEV"
  obtains c1 n where "get_block E dev (int b) NORMAL c = Some (c1, n)" "holds_buf E c c1 dev b n" "dev_image E c1 = dev_image E c"
    "clip E dev (buf_data c1 n) = dev_image E c dev (int b)"
proof -
  have cok: "cache_ok E c" using assms(1) by (simp add: io_ok_def)
  obtain x y where xy: "x \<noteq> y" "x < NR_BUFS" "y < NR_BUFS" "users c x = 0" "users c y = 0" using assms(2) unfolding two_free_def by blast
  then have "room c" using room_iff [OF cok] by blast
  from bc.get_ok [OF assms(1) this assms(3), of "int b"] obtain c1 n where g: "get_block E dev (int b) NORMAL c = Some (c1, n)" "io_ok E c1"
    "dev_image E c1 = dev_image E c" "cached c1 dev (int b) n" "clip E dev (buf_data c1 n) = dev_image E c dev (int b)"
    "users c1 = (users c)(n := users c n + 1)" "0 \<le> users c n" "\<forall>d a m. cached c d a m \<longrightarrow> users c m \<noteq> 0 \<longrightarrow> cached c1 d a m" by blast
  have "\<exists>m. m < NR_BUFS \<and> users c1 m = 0" using xy g(6) by (cases "x = n") (auto intro: exI [of _ x] exI [of _ y])
  then have "room c1" using room_iff [of E c1] g(2) by (simp add: io_ok_def)
  then show thesis using that g by (simp add: holds_buf_def)
qed

lemma holds_calm: "holds_buf E c c1 dev b n \<Longrightarrow> calm E c1 c2 \<Longrightarrow> holds_buf E c c2 dev b n"
  by (auto simp: holds_buf_def settled_def)

lemma holds_store:
  assumes "holds_buf E c c1 dev b n" "dev \<noteq> NO_DEV"
  shows "holds_buf E c (set_data n d c1) dev b n" "dev_image E (set_data n d c1) = img_put (dev_image E c1) dev b (clip E dev d)"
proof -
  have h: "io_ok E c1" "cached c1 dev (int b) n" "room c1" using assms(1) by (simp_all add: holds_buf_def)
  note s = bc.store_ok [OF h(1,2) assms(2), of d]
  then have "room (set_data n d c1)" using bc.free_cnt [of E "set_data n d c1" c1] h by simp
  then show "holds_buf E c (set_data n d c1) dev b n" using s assms(1) by (simp add: holds_buf_def)
  show "dev_image E (set_data n d c1) = img_put (dev_image E c1) dev b (clip E dev d)" using s by (simp add: img_put_def)
qed

lemma holds_put:
  assumes "holds_buf E c c1 dev b n" "io_ok E c" "room c"
  shows "calm E c (put_block E (Some n) ty c1)" "dev_image E (put_block E (Some n) ty c1) = dev_image E c1"
proof -
  have h: "io_ok E c1" "cached c1 dev (int b) n" "0 < users c1 n" using assms(1) by (auto simp: holds_buf_def)
  note p = bc.put_ok [OF h, of ty]
  have u: "users (put_block E (Some n) ty c1) = users c" using p assms(1) by (auto simp: holds_buf_def)
  then have "room (put_block E (Some n) ty c1)" using bc.free_cnt [of E "put_block E (Some n) ty c1" c] p assms(2,3) by simp
  then show "calm E c (put_block E (Some n) ty c1)" using p u assms(1) by (simp add: settled_def holds_buf_def)
  show "dev_image E (put_block E (Some n) ty c1) = dev_image E c1" using p by simp
qed

lemma holds_data:
  assumes "holds_buf E c c1 dev b n" "dev \<noteq> NO_DEV"
  shows "clip E dev (buf_data c1 n) = dev_image E c1 dev (int b)" "b_dev (bufs c1 n) = dev"
proof -
  have "io_ok E c1" "cached c1 dev (int b) n" using assms(1) by (simp_all add: holds_buf_def)
  then show "clip E dev (buf_data c1 n) = dev_image E c1 dev (int b)" "b_dev (bufs c1 n) = dev" using bc.held_dat assms(2) by (auto simp: cached_def)
qed

text \<open>A block that is not read but zeroed.\<close>

lemma hold_new:
  assumes "io_ok E c" "two_free c" "dev \<noteq> NO_DEV" "io_bsize E dev \<le> 4096"
  obtains c1 c2 n where "get_block E dev (int b) NO_READ c = Some (c1, n)" "zero_block n c1 = c2" "holds_buf E c c2 dev b n"
    "dev_image E c2 = img_put (dev_image E c) dev b (\<lambda>_. 0)"
proof -
  obtain s n where g: "get_block E dev (int b) NORMAL c = Some (s, n)" "holds_buf E c s dev b n" "dev_image E s = dev_image E c"
    using hold_block [OF assms(1-3)] by metis
  obtain c1 where c1: "get_block E dev (int b) NO_READ c = Some (c1, n)" "\<And>d. set_data n d c1 = set_data n d s"
    using get_block_new [OF assms(1,3) g(1)] by metis
  let ?d = "\<lambda>k. if k < 4096 then 0 else b_data (bufs c1 n) k"
  have "zero_block n c1 = set_data n ?d s" by (simp add: zero_block_def c1(2))
  moreover have "clip E dev ?d = (\<lambda>_. 0)" using assms(4) by (auto simp: clip_def fun_eq_iff)
  ultimately show thesis using that [OF c1(1)] holds_store [OF g(2) assms(3), of ?d] g(3) by simp
qed

lemma set_data_set_data [simp]: "set_data n d (set_data n e c) = set_data n d c"
  by (simp add: set_data_def upd_buf_def)

lemma dirty_upd: "upd_buf n (\<lambda>x. x\<lparr>b_dirt := True\<rparr>) (upd_buf n (\<lambda>x. x\<lparr>b_data := f (b_data x)\<rparr>) c) = set_data n (f (buf_data c n)) c"
  by (simp add: set_data_def upd_buf_def buf_data_def)

section \<open>Writing an entry\<close>

lemma wr_indir_mark:
  assumes "get_super (b_dev (bufs (fcache s) n)) (supers s) = Some k" "sp = supers s k"
  shows "\<exists>t. wr_indir (Some n) i z s = Some t \<and> mark_dirty n t = s\<lparr>fcache := set_data n (ind_write sp (buf_data (fcache s) n) i z) (fcache s)\<rparr>"
  using assms by (simp add: wr_indir_def mark_dirty_def dirty_upd [where f = "\<lambda>d. ind_write (supers s k) d i z"])

lemma file_ok_bs:
  assumes "file_ok E st ip" "sp = inode_sp ip st"
  shows "io_bsize E (s_dev sp) \<le> 4096" "layout_ok E sp"
  using assms by (auto simp: file_ok_def Let_def zone_st_def zones_ok_def map_ok_def inode_sp_def layout_ok_def)

lemma fget_entry:
  assumes "file_ok E st ip" "sp = inode_sp ip st" "dev = s_dev sp" "I = dev_image E (fcache st)"
  obtains s n c where "fget E dev b (if fresh then NO_READ else NORMAL) st = Some (s, n)"
    "(if fresh then fzero n s else s) = st\<lparr>fcache := c\<rparr>" "b_dev (bufs c n) = dev" "clip E dev (buf_data c n) = (if fresh then (\<lambda>_. 0) else I dev (int b))"
    "\<And>d. calm E (fcache st) (put_block E (Some n) INDIRECT_BLOCK (set_data n d c))"
    "\<And>d. dev_image E (put_block E (Some n) INDIRECT_BLOCK (set_data n d c)) = img_put I dev b (clip E dev d)"
proof -
  note f = file_okD [OF assms(1,2) refl]
  have d: "dev \<noteq> NO_DEV" using assms(3) f(3) by simp
  obtain c n where g: "get_block E dev (int b) NORMAL (fcache st) = Some (c, n)" "clip E dev (buf_data c n) = dev_image E (fcache st) dev (int b)"
    "cached c dev (int b) n" "\<And>d. calm E (fcache st) (put_block E (Some n) INDIRECT_BLOCK (set_data n d c))"
    "\<And>d. dev_image E (put_block E (Some n) INDIRECT_BLOCK (set_data n d c))
        = (dev_image E (fcache st))(dev := (dev_image E (fcache st) dev)(int b := clip E dev d))"
    "calm E (fcache st) (put_block E (Some n) INDIRECT_BLOCK c)" "dev_image E (put_block E (Some n) INDIRECT_BLOCK c) = dev_image E (fcache st)"
    using bc.changed [OF f(4,5) d, of "int b" INDIRECT_BLOCK] by blast
  show thesis
  proof (cases fresh)
    case False
    then show thesis using that [of "st\<lparr>fcache := c\<rparr>" n c] g assms(4) by (simp add: fget_def cached_def img_put_def)
  next
    case True
    obtain c1 where c1: "get_block E dev (int b) NO_READ (fcache st) = Some (c1, n)" "\<And>d. set_data n d c1 = set_data n d c"
      using get_block_new [OF f(4) d g(1)] by metis
    let ?d = "\<lambda>k. if k < 4096 then 0 else b_data (bufs c1 n) k"
    have "clip E dev ?d = (\<lambda>_. 0)" using file_ok_bs(1) [OF assms(1,2)] assms(3) by (auto simp: clip_def fun_eq_iff)
    moreover have "b_dev (bufs (set_data n ?d c) n) = dev" "buf_data (set_data n ?d c) n = ?d"
      using g(3) by (simp_all add: set_data_def cached_def buf_data_def)
    ultimately show thesis using that [of "st\<lparr>fcache := c1\<rparr>" n "set_data n ?d c"] True c1 g(4,5) assms(4)
      by (simp add: fget_def fzero_def zero_block_def img_put_def)
  qed
qed

lemma wm_entry_spec:
  assumes "file_ok E st ip" "sp = inode_sp ip st" "r = inodes st ip" "I = dev_image E (fcache st)" "ex < i_nindirs r"
  obtains c where "wm_entry E ip single ind_ex ex bpd z1 z False new_ind st = Some (st\<lparr>fcache := c\<rparr>, z1)" "calm E (fcache st) c"
    "dev_image E c = img_put I (i_dev r) (zone_block sp z1) (ind_write sp (if new_ind then (\<lambda>_. 0) else I (i_dev r) (int (zone_block sp z1))) ex z)"
proof -
  note f = file_okD [OF assms(1-3)]
  obtain s n c where g: "fget E (i_dev r) (zone_block sp z1) (if new_ind then NO_READ else NORMAL) st = Some (s, n)"
    "(if new_ind then fzero n s else s) = st\<lparr>fcache := c\<rparr>" "b_dev (bufs c n) = i_dev r"
    "clip E (i_dev r) (buf_data c n) = (if new_ind then (\<lambda>_. 0) else I (i_dev r) (int (zone_block sp z1)))"
    "\<And>d. calm E (fcache st) (put_block E (Some n) INDIRECT_BLOCK (set_data n d c))"
    "\<And>d. dev_image E (put_block E (Some n) INDIRECT_BLOCK (set_data n d c)) = img_put I (i_dev r) (zone_block sp z1) (clip E (i_dev r) d)"
    using fget_entry [OF assms(1,2) f(2) assms(4), where b = "zone_block sp z1" and fresh = new_ind] by blast
  have "get_super (b_dev (bufs (fcache (st\<lparr>fcache := c\<rparr>)) n)) (supers (st\<lparr>fcache := c\<rparr>)) = Some (i_sp r)" using g(3) f(2,6) by simp
  then obtain t where t: "wr_indir (Some n) ex z (st\<lparr>fcache := c\<rparr>) = Some t"
    "mark_dirty n t = st\<lparr>fcache := set_data n (ind_write sp (buf_data c n) ex z) c\<rparr>"
    using wr_indir_mark [of "st\<lparr>fcache := c\<rparr>" n "i_sp r" sp] assms(2,3) by (auto simp: inode_sp_def)
  have w: "wm_entry E ip single ind_ex ex bpd z1 z False new_ind st
      = Some (st\<lparr>fcache := put_block E (Some n) INDIRECT_BLOCK (set_data n (ind_write sp (buf_data c n) ex z) c)\<rparr>, z1)"
    using g(1,2) t assms(2,3) by (simp add: wm_entry_def Let_def fput_def)
  have cl: "clip E (i_dev r) (ind_write sp (buf_data c n) ex z) = ind_write sp (if new_ind then (\<lambda>_. 0) else I (i_dev r) (int (zone_block sp z1))) ex z"
    using ind_write_clip [OF assms(1) _ assms(2), of ex "buf_data c n" z] assms(3,5) f(2) g(4) by simp
  show thesis by (rule that [OF w g(5)]) (simp only: g(6) cl)
qed

section \<open>Allocating a zone for the tree\<close>

definition sp_like :: "super_block \<Rightarrow> super_block \<Rightarrow> bool" where
  "sp_like sp sp' \<longleftrightarrow> (\<exists>zs. sp' = sp\<lparr>s_zsearch := zs\<rparr>)"

lemma sp_like_refl [simp]: "sp_like sp sp"
  unfolding sp_like_def by (rule exI [of _ "s_zsearch sp"]) simp

lemma sp_like_trans: "sp_like a b \<Longrightarrow> sp_like b c \<Longrightarrow> sp_like a c"
  unfolding sp_like_def by auto

lemma sp_like_ind:
  assumes "sp_like sp sp'"
  shows "ind_entry sp' = ind_entry sp" "ind_write sp' = ind_write sp" "zone_block sp' = zone_block sp" "legal_zone sp' = legal_zone sp"
    "zone_used sp' = zone_used sp" "data_zone sp' = data_zone sp" "layout_ok E sp' = layout_ok E sp" "fits sp' = fits sp" "s_dev sp' = s_dev sp"
    "zone_of sp' = zone_of sp"
  using assms
  by (auto simp: sp_like_def ind_entry_def ind_write_def zone_block_def legal_zone_def data_zone_def layout_ok_def fits_def zone_of_def fun_eq_iff)

lemma sp_like_tree:
  assumes "sp_like sp sp'"
  shows "ind_ref sp' = ind_ref sp" "islot sp' = islot sp" "entry sp' = entry sp" "tree_ok sp' = tree_ok sp" "zone_ref sp' = zone_ref sp"
proof -
  note i = sp_like_ind [OF assms]
  show r: "ind_ref sp' = ind_ref sp" by (simp add: fun_eq_iff ind_ref_def i)
  show s: "islot sp' = islot sp" by (simp add: fun_eq_iff islot_def r)
  show "entry sp' = entry sp" by (simp add: fun_eq_iff entry_def r s)
  show "tree_ok sp' = tree_ok sp" by (simp add: fun_eq_iff tree_ok_def s i)
  show "zone_ref sp' = zone_ref sp" by (simp add: fun_eq_iff zone_ref_def ind_zone_def r)
qed

lemma data_zone_fits: "layout_ok E sp \<Longrightarrow> data_zone sp z \<Longrightarrow> fits sp z \<and> z \<noteq> NO_ZONE"
  by (auto simp: layout_ok_def zones_ok_def data_zone_def fits_def)

lemma file_ok_zone_st:
  assumes "file_ok E st ip" "inodes s = inodes st" "sp_like (inode_sp ip st) (inode_sp ip s)" "zone_st E s (i_sp (inodes st ip))"
  shows "file_ok E s ip"
proof -
  obtain zs where "inode_sp ip s = (inode_sp ip st)\<lparr>s_zsearch := zs\<rparr>" using assms(3) unfolding sp_like_def by blast
  then show ?thesis using assms(1,2,4) by (simp add: file_ok_def Let_def)
qed

lemma alloc_file:
  assumes "file_ok E st ip" "sp = inode_sp ip st" "r = inodes st ip" "I = dev_image E (fcache st)"
  obtains s y where "alloc_zone E (i_dev r) z st = Some (s, y)" "calm E (fcache st) (fcache s)" "inodes s = inodes st" "file_ok E s ip"
    "sp_like sp (inode_sp ip s)" "y = NO_ZONE \<Longrightarrow> err_code s = ENOSPC \<and> dev_image E (fcache s) = I"
    "y \<noteq> NO_ZONE \<Longrightarrow> data_zone sp y \<and> \<not> zone_used sp I y \<and> dev_image E (fcache s) = upd_map ZMAP sp I (y + 1 - s_firstdatazone sp) True"
proof -
  note f = file_okD [OF assms(1-3)]
  have sp: "sp = supers st (i_sp r)" using assms(2,3) by (simp add: inode_sp_def)
  obtain s y where a: "alloc_zone E (i_dev r) z st = Some (s, y)" "calm E (fcache st) (fcache s)" "inodes s = inodes st"
    "if y = NO_ZONE then err_code s = ENOSPC \<and> dev_image E (fcache s) = I \<and> supers s = supers st \<and> (\<forall>x. data_zone sp x \<longrightarrow> zone_used sp I x)
     else data_zone sp y \<and> \<not> zone_used sp I y \<and> dev_image E (fcache s) = upd_map ZMAP sp I (y + 1 - s_firstdatazone sp) True
         \<and> (\<exists>zs. supers s = (supers st)(i_sp r := sp\<lparr>s_zsearch := zs\<rparr>))"
    using alloc_zone_spec [OF f(1) sp f(2), of z] assms(4) by blast
  have like: "sp_like sp (inode_sp ip s)"
    using a(3,4) assms(2,3) sp by (cases "y = NO_ZONE") (auto simp: inode_sp_def sp_like_def intro: exI [of _ "s_zsearch sp"])
  have "zone_st E s (i_sp r)"
  proof (cases "y = NO_ZONE")
    case True
    then show ?thesis using f(1) a(4) calm_ok [OF a(2)] assms(4) by (simp add: zone_st_def)
  next
    case False
    then obtain zs where "supers s = (supers st)(i_sp r := (supers st (i_sp r))\<lparr>s_zsearch := zs\<rparr>)" using a(4) sp by auto
    moreover have "y + 1 - s_firstdatazone sp \<noteq> NO_BIT" using a(4) False by (auto simp: data_zone_def)
    ultimately show ?thesis using a(4) False calm_ok [OF a(2)] zone_st_step [OF f(1), of s zs "y + 1 - s_firstdatazone sp" True] sp assms(4) by simp
  qed
  then have "file_ok E s ip" using file_ok_zone_st [OF assms(1) a(3)] like assms(2,3) by simp
  then show thesis using that [OF a(1-3) _ like] a(4) by (auto split: if_splits)
qed

lemma set_zone_sel:
  "inodes (set_zone ip k z st) ip = (inodes st ip)\<lparr>i_zone := (i_zone (inodes st ip))[k := z]\<rparr>" "inode_sp ip (set_zone ip k z st) = inode_sp ip st"
  "fcache (set_zone ip k z st) = fcache st" "supers (set_zone ip k z st) = supers st" "err_code (set_zone ip k z st) = err_code st"
  by (simp_all add: set_zone_def inode_sp_def)

lemma set_zone_file_ok: "file_ok E st ip \<Longrightarrow> file_ok E (set_zone ip k z st) ip"
  by (simp add: file_ok_def Let_def set_zone_sel zone_st_def)

lemma file_ok_img:
  assumes "file_ok E st ip" "io_ok E c" "room c" "I = dev_image E (fcache st)" "dev_image E c = img_put I (i_dev (inodes st ip)) (zone_block (inode_sp ip st) y) d"
    "data_zone (inode_sp ip st) y"
  shows "file_ok E (st\<lparr>fcache := c\<rparr>) ip"
proof -
  let ?sp = "inode_sp ip st"
  note f = file_okD [OF assms(1) refl refl]
  have lay: "layout_ok E ?sp" using file_ok_bs [OF assms(1) refl] by simp
  have "map_start ZMAP ?sp \<noteq> int (zone_block ?sp y)"
  proof -
    have "0 < map_bits ZMAP ?sp" using zone_bit_less [OF lay assms(6)] by simp
    then show ?thesis using map_below_data [OF lay assms(6), of 0] by simp
  qed
  then have "on_map ZMAP ?sp (dev_image E c) NO_BIT = on_map ZMAP ?sp I NO_BIT" by (simp add: on_map_def assms(5) img_put_def)
  then show ?thesis using assms(1-4) by (simp add: file_ok_def Let_def zone_st_def inode_sp_def)
qed

end
