(* ===== verification/Fs_Write.thy ===== *)
theory Fs_Write
  imports Fs_Map
begin

text \<open>
  The correctness of \<open>write_map\<close> (\<open>servers/fs/write.c\<close>) for the storing of a zone number.  \<open>wrote\<close> says what it must have done: it either
  reports an error, and then every file zone is mapped as before, or returns 0, and then exactly the entry asked for is changed; in
  both cases the tree of indirect blocks is well formed again.  The lemmas follow the branches of the code: a direct zone, an entry of an
  indirect block that exists, a new single indirect block, a new double indirect block; \<open>write_map_spec\<close> joins them.
\<close>

section \<open>Writing a zone number\<close>

definition wrote :: "io_env \<Rightarrow> nat \<Rightarrow> nat \<Rightarrow> nat \<Rightarrow> nat \<Rightarrow> fs_st \<Rightarrow> fs_st \<Rightarrow> int \<Rightarrow> bool" where
  "wrote E ip k ex z st s code \<longleftrightarrow>
    (let sp = inode_sp ip st; r = inodes st ip; r' = inodes s ip; I = dev_image E (fcache st); I' = dev_image E (fcache s) in
     file_ok E s ip \<and> calm E (fcache st) (fcache s) \<and> sp_like sp (inode_sp ip s) \<and> same_shape r r' \<and> tree_ok sp I' r' \<and> (code = 0 \<or> code = ENOSPC)
     \<and> (\<forall>k' i. k' < i_nindirs r + 2 \<longrightarrow> k' \<noteq> 1 \<longrightarrow> entry sp I' r' k' i = (if code = 0 \<and> k' = k \<and> i = ex then z else entry sp I r k' i)))"

definition same_range :: "inode \<Rightarrow> inode \<Rightarrow> bool" where
  "same_range r r' \<longleftrightarrow> i_dev r' = i_dev r \<and> i_ndzones r' = i_ndzones r \<and> i_nindirs r' = i_nindirs r"

lemma img_put_simps [simp]: "img_put (img_put I dev b d) dev b e = img_put I dev b e" "img_put I dev b d dev (int b) = d"
  by (simp_all add: img_put_def)

lemma inode_sp_cache [simp]: "inode_sp ip (st\<lparr>fcache := c\<rparr>) = inode_sp ip st"
  by (simp add: inode_sp_def)

lemma fput_None [simp]: "fput E None ty st = st"
  by (simp add: fput_def put_block_def)

lemma same_shape_refl [simp]: "same_shape r r"
  by (simp add: same_shape_def)

lemma grown_same_shape: "grown sp k z I r I' r' \<Longrightarrow> same_shape r r'"
  by (simp add: grown_def)

lemma same_shape_trans: "same_shape a b \<Longrightarrow> same_shape b c \<Longrightarrow> same_shape a c"
  by (simp add: same_shape_def)

text \<open>An entry in a slot that has just grown.\<close>

lemma grown_put_entry:
  assumes lay: "layout_ok E sp" and t: "tree_ok sp I r" and z: "data_zone sp y" "\<not> zone_used sp I y" "y \<noteq> NO_ZONE"
    and g: "grown sp k0 y I r (img_put J (i_dev r) (zone_block sp y) (\<lambda>_. 0)) r'" and k0: "k0 < i_nindirs r + 2" "k0 \<noteq> 1" "fits sp x"
    and I': "I' = img_put J (i_dev r) (zone_block sp y) (ind_write sp (\<lambda>_. 0) ex x)"
  shows "tree_ok sp I' r'" "k < i_nindirs r + 2 \<Longrightarrow> k \<noteq> 1 \<Longrightarrow> entry sp I' r' k i = (if k = k0 \<and> i = ex then x else entry sp I r k i)"
proof -
  let ?I = "img_put J (i_dev r) (zone_block sp y) (\<lambda>_. 0)"
  have sh: "i_nindirs r' = i_nindirs r" "i_dev r' = i_dev r" using g by (simp_all add: grown_def same_shape_def)
  have t': "tree_ok sp ?I r'" by (rule grown_tree [OF g t z])
  have y: "y = islot sp ?I r' k0" "k0 < i_nindirs r' + 2" using g k0(1) sh by (simp_all add: grown_def)
  have e: "I' = img_put ?I (i_dev r') (zone_block sp y) (ind_write sp (?I (i_dev r') (int (zone_block sp y))) ex x)" by (simp add: I' sh)
  note p = put_entry [OF lay t' y(2) k0(2) y(1) z(3) k0(3) e]
  show "tree_ok sp I' r'" by (rule p(1))
  show "entry sp I' r' k i = (if k = k0 \<and> i = ex then x else entry sp I r k i)" if "k < i_nindirs r + 2" "k \<noteq> 1"
    using p(2) [of k i] that g sh by (simp add: grown_def)
qed

lemma wm_single_old:
  assumes "file_ok E st ip" "sp = inode_sp ip st" "r = inodes st ip" "I = dev_image E (fcache st)" "tree_ok sp I r" "ex < i_nindirs r" "fits sp x"
    "islot sp I r 0 \<noteq> NO_ZONE"
  shows "\<exists>s. wm_indirect E ip True 0 ex None (islot sp I r 0) z2 x False st = Some (s, 0) \<and> wrote E ip 0 ex x st s 0"
proof -
  let ?y = "islot sp I r 0"
  have lay: "layout_ok E sp" using file_ok_bs [OF assms(1,2)] by simp
  have y: "data_zone sp ?y" using assms(5,8) unfolding tree_ok_def by simp
  obtain c where c: "wm_entry E ip True 0 ex None ?y x False False st = Some (st\<lparr>fcache := c\<rparr>, ?y)" "calm E (fcache st) c"
    "dev_image E c = img_put I (i_dev r) (zone_block sp ?y) (ind_write sp (I (i_dev r) (int (zone_block sp ?y))) ex x)"
    using wm_entry_spec [OF assms(1-4,6), of True 0 None ?y x False] by auto
  have "wm_indirect E ip True 0 ex None ?y z2 x False st = Some (st\<lparr>fcache := c\<rparr>, 0)" using c(1) assms(8) by (simp add: wm_indirect_def Let_def)
  moreover have "file_ok E (st\<lparr>fcache := c\<rparr>) ip" using file_ok_img [OF assms(1) calm_ok [OF c(2)] assms(4)] c(3) assms(2,3) y by simp
  moreover note put_entry [OF lay assms(5) _ _ refl assms(8,7) c(3)]
  ultimately show ?thesis using c(2) assms(2-4) by (simp add: wrote_def Let_def inode_sp_def)
qed

lemma wm_single_new:
  assumes "file_ok E st ip" "sp = inode_sp ip st" "r = inodes st ip" "I = dev_image E (fcache st)" "tree_ok sp I r" "ex < i_nindirs r" "fits sp x"
    "islot sp I r 0 = NO_ZONE"
  shows "\<exists>s code. wm_indirect E ip True 0 ex None NO_ZONE z2 x False st = Some (s, code) \<and> wrote E ip 0 ex x st s code"
proof -
  note f = file_okD [OF assms(1-3)]
  have lay: "layout_ok E sp" using file_ok_bs [OF assms(1,2)] by simp
  obtain s y where a: "alloc_zone E (i_dev r) (i_zone r ! 0) st = Some (s, y)" "calm E (fcache st) (fcache s)" "inodes s = inodes st" "file_ok E s ip"
    "sp_like sp (inode_sp ip s)" "y = NO_ZONE \<Longrightarrow> err_code s = ENOSPC \<and> dev_image E (fcache s) = I"
    "y \<noteq> NO_ZONE \<Longrightarrow> data_zone sp y \<and> \<not> zone_used sp I y \<and> dev_image E (fcache s) = upd_map ZMAP sp I (y + 1 - s_firstdatazone sp) True"
    using alloc_file [OF assms(1-4), where z = "i_zone r ! 0"] by blast
  let ?t = "set_zone ip (i_ndzones r) y s"
  have t: "file_ok E ?t ip" "inode_sp ip ?t = inode_sp ip s" "fcache ?t = fcache s" "inodes ?t ip = r\<lparr>i_zone := (i_zone r)[i_ndzones r := y]\<rparr>"
    using set_zone_file_ok [OF a(4)] a(3) assms(3) by (simp_all add: set_zone_sel)
  show ?thesis
  proof (cases "y = NO_ZONE")
    case True
    have "i_zone r ! i_ndzones r = NO_ZONE" using assms(8) by (simp add: islot_def)
    then have "inodes ?t ip = r" using t(4) True by (metis inode.surjective inode.update_convs(9) list_update_id)
    then have "wrote E ip 0 ex x st ?t ENOSPC" using True a t assms(2-5) by (simp add: wrote_def Let_def)
    then show ?thesis using True a(1,6) assms(3) by (simp add: wm_indirect_def Let_def set_zone_sel)
  next
    case False
    note y = a(7) [OF False]
    let ?r = "inodes ?t ip" and ?sp = "inode_sp ip ?t"
    have like: "sp_like sp ?sp" using a(5) t(2) by simp
    have sh: "i_nindirs ?r = i_nindirs r" "i_dev ?r = i_dev r" by (simp_all add: t(4))
    obtain c where c: "wm_entry E ip True 0 ex None y x False True ?t = Some (?t\<lparr>fcache := c\<rparr>, y)" "calm E (fcache ?t) c"
      "dev_image E c = img_put (dev_image E (fcache ?t)) (i_dev ?r) (zone_block ?sp y) (ind_write ?sp (\<lambda>_. 0) ex x)"
      using wm_entry_spec [OF t(1) refl refl refl, of ex True 0 None y x True] assms(6) sh by auto
    have J: "dev_image E (fcache ?t) = upd_map ZMAP sp I (y + 1 - s_firstdatazone sp) True" using y t(3) by simp
    have w: "wm_indirect E ip True 0 ex None NO_ZONE z2 x False st = Some (?t\<lparr>fcache := c\<rparr>, 0)" using False c(1) a(1) assms(3) by (simp add: wm_indirect_def Let_def)
    have I': "dev_image E c = img_put (upd_map ZMAP sp I (y + 1 - s_firstdatazone sp) True) (i_dev r) (zone_block sp y) (ind_write sp (\<lambda>_. 0) ex x)"
      using c(3) J sh sp_like_ind [OF like] by simp
    have g: "grown sp 0 y I r (img_put (upd_map ZMAP sp I (y + 1 - s_firstdatazone sp) True) (i_dev r) (zone_block sp y) (\<lambda>_. 0)) ?r"
      using y False by (intro grow_single [OF lay assms(5) _ _ _ assms(8) f(8) refl t(4)]) auto
    note p = grown_put_entry [OF lay assms(5) _ _ False g _ _ assms(7) I']
    have "file_ok E (?t\<lparr>fcache := c\<rparr>) ip" using file_ok_img [OF t(1) calm_ok [OF c(2)] refl c(3)] sp_like_ind [OF like] y by simp
    moreover have "calm E (fcache st) c" using settled_trans [OF a(2)] c(2) t(3) by simp
    ultimately have "wrote E ip 0 ex x st (?t\<lparr>fcache := c\<rparr>) 0" using p y like grown_same_shape [OF g] assms(2-4) by (simp add: wrote_def Let_def inode_sp_def)
    then show ?thesis using w by blast
  qed
qed

text \<open>The double indirect block is held while the rest is done.\<close>

definition opened :: "io_env \<Rightarrow> nat \<Rightarrow> fs_st \<Rightarrow> fs_st \<Rightarrow> bufno \<Rightarrow> nat \<Rightarrow> bool" where
  "opened E ip st s n z2 \<longleftrightarrow>
    (let sp = inode_sp ip st; r = inodes st ip; r' = inodes s ip; I = dev_image E (fcache st); I' = dev_image E (fcache s) in
     holds_buf E (fcache st) (fcache s) (i_dev r) (zone_block sp z2) n \<and> file_ok E s ip \<and> sp_like sp (inode_sp ip s) \<and> same_shape r r' \<and> tree_ok sp I' r'
     \<and> islot sp I' r' 1 = z2 \<and> z2 \<noteq> NO_ZONE
     \<and> (\<forall>k i. k < i_nindirs r + 2 \<longrightarrow> k \<noteq> 1 \<longrightarrow> islot sp I' r' k = islot sp I r k \<and> entry sp I' r' k i = entry sp I r k i))"

lemma two_free_calm: "calm E c c' \<Longrightarrow> two_free c \<Longrightarrow> two_free c'"
  by (simp add: settled_def two_free_def)

lemma file_ok_same:
  assumes "file_ok E st ip" "io_ok E c" "room c" "dev_image E c = dev_image E (fcache st)"
  shows "file_ok E (st\<lparr>fcache := c\<rparr>) ip"
  using assms by (simp add: file_ok_def Let_def zone_st_def inode_sp_def)

lemma holds_ok: "holds_buf E c c1 dev b n \<Longrightarrow> io_ok E c1" "holds_buf E c c1 dev b n \<Longrightarrow> room c1"
  by (simp_all add: holds_buf_def)

lemma rd_indir_held:
  assumes "file_ok E s ip" "sp = inode_sp ip s" "r = inodes s ip" "holds_buf E c (fcache s) (i_dev r) b n" "i < i_nindirs r"
    "y = ind_entry sp (dev_image E (fcache s) (i_dev r) (int b)) i" "legal_zone sp y"
  shows "rd_indir n i s = Some y"
proof -
  note f = file_okD [OF assms(1-3)]
  have d: "clip E (s_dev sp) (buf_data (fcache s) n) = dev_image E (fcache s) (s_dev sp) (int b)" "b_dev (bufs (fcache s) n) = s_dev sp"
    using holds_data [OF assms(4)] f(2,3) by simp_all
  have "ind_entry sp (buf_data (fcache s) n) i = y" using ind_entry_clip [OF assms(1) _ assms(2)] assms(3,5,6) d(1) f(2) by metis
  then show ?thesis using d(2) f(6) assms(2,3,7)
    by (auto simp: rd_indir_def Let_def inode_sp_def buf_data_def legal_zone_def data_zone_def)
qed

lemma wm_double_old:
  assumes "file_ok E st ip" "sp = inode_sp ip st" "r = inodes st ip" "I = dev_image E (fcache st)" "tree_ok sp I r" "two_free (fcache st)"
    "\<not> e < i_nindirs r" "e < i_nindirs r + i_nindirs r * i_nindirs r" "islot sp I r 1 \<noteq> NO_ZONE"
  shows "\<exists>s n. wm_double E ip e False st
      = Some (Inr (s, islot sp I r (slot_of r e), (e - i_nindirs r) div i_nindirs r, (e - i_nindirs r) mod i_nindirs r, Some n, islot sp I r 1))
      \<and> opened E ip st s n (islot sp I r 1)"
proof -
  let ?z2 = "islot sp I r 1" and ?i = "(e - i_nindirs r) div i_nindirs r"
  note f = file_okD [OF assms(1-3)]
  have z2: "i_zone r ! (i_ndzones r + 1) = ?z2" by (simp add: islot_def)
  have i: "?i < i_nindirs r" using assms(7,8) by (auto intro: less_mult_imp_div_less)
  have k: "slot_of r e = ?i + 2" "slot_of r e < i_nindirs r + 2" using assms(7) i by (simp_all add: slot_of_def)
  obtain c n where g: "get_block E (i_dev r) (int (zone_block sp ?z2)) NORMAL (fcache st) = Some (c, n)"
    "holds_buf E (fcache st) c (i_dev r) (zone_block sp ?z2) n" "dev_image E c = I"
    using hold_block [OF f(4) assms(6), of "i_dev r" "zone_block sp ?z2"] f(2,3) assms(4) by metis
  let ?s = "st\<lparr>fcache := c\<rparr>"
  have ok: "file_ok E ?s ip" using file_ok_same [OF assms(1) holds_ok [OF g(2)]] g(3) assms(4) by simp
  have y: "islot sp I r (slot_of r e) = ind_entry sp (I (i_dev r) (int (zone_block sp ?z2))) ?i" using k(1) z2 assms(9) by (simp add: islot_def ind_ref_def)
  have "rd_indir n ?i ?s = Some (islot sp I r (slot_of r e))"
    using tree_legal [OF assms(5) k(2)] g(2,3) i y assms(2,3) by (intro rd_indir_held [OF ok]) (auto simp: inode_sp_def)
  then have "wm_double E ip e False st = Some (Inr (?s, islot sp I r (slot_of r e), ?i, (e - i_nindirs r) mod i_nindirs r, Some n, ?z2))"
    using g(1) i assms(2,3,9) z2 by (simp add: wm_double_def Let_def fget_def)
  moreover have "opened E ip st ?s n ?z2" using g ok assms(2-5,9) by (simp add: opened_def Let_def)
  ultimately show ?thesis by blast
qed

lemma wm_double_new:
  assumes "file_ok E st ip" "sp = inode_sp ip st" "r = inodes st ip" "I = dev_image E (fcache st)" "tree_ok sp I r" "two_free (fcache st)"
    "\<not> e < i_nindirs r" "e < i_nindirs r + i_nindirs r * i_nindirs r" "islot sp I r 1 = NO_ZONE"
  shows "(\<exists>s. wm_double E ip e False st = Some (Inl (s, ENOSPC)) \<and> wrote E ip k ex x st s ENOSPC)
    \<or> (\<exists>s n y. wm_double E ip e False st
      = Some (Inr (s, islot sp I r (slot_of r e), (e - i_nindirs r) div i_nindirs r, (e - i_nindirs r) mod i_nindirs r, Some n, NO_ZONE))
      \<and> opened E ip st s n y)"
proof -
  let ?i = "(e - i_nindirs r) div i_nindirs r"
  note f = file_okD [OF assms(1-3)]
  have lay: "layout_ok E sp" using file_ok_bs [OF assms(1,2)] by simp
  have z2: "i_zone r ! (i_ndzones r + 1) = NO_ZONE" using assms(9) by (simp add: islot_def)
  have i: "?i < i_nindirs r" using assms(7,8) by (auto intro: less_mult_imp_div_less)
  have sl: "islot sp I r (slot_of r e) = NO_ZONE" using assms(7) z2 by (simp add: slot_of_def islot_def)
  obtain s y where a: "alloc_zone E (i_dev r) (i_zone r ! 0) st = Some (s, y)" "calm E (fcache st) (fcache s)" "inodes s = inodes st" "file_ok E s ip"
    "sp_like sp (inode_sp ip s)" "y = NO_ZONE \<Longrightarrow> err_code s = ENOSPC \<and> dev_image E (fcache s) = I"
    "y \<noteq> NO_ZONE \<Longrightarrow> data_zone sp y \<and> \<not> zone_used sp I y \<and> dev_image E (fcache s) = upd_map ZMAP sp I (y + 1 - s_firstdatazone sp) True"
    using alloc_file [OF assms(1-4), where z = "i_zone r ! 0"] by blast
  show ?thesis
  proof (cases "y = NO_ZONE")
    case True
    then have "wm_double E ip e False st = Some (Inl (s, ENOSPC))" using a(1,6) assms(3) z2 by (simp add: wm_double_def Let_def)
    moreover have "wrote E ip k ex x st s ENOSPC" using True a assms(2-5) by (simp add: wrote_def Let_def)
    ultimately show ?thesis by blast
  next
    case False
    note y = a(7) [OF False]
    let ?t = "set_zone ip (i_ndzones r + 1) y s"
    have t: "file_ok E ?t ip" "inode_sp ip ?t = inode_sp ip s" "fcache ?t = fcache s" "inodes ?t ip = r\<lparr>i_zone := (i_zone r)[i_ndzones r + 1 := y]\<rparr>"
      using set_zone_file_ok [OF a(4)] a(3) assms(3) by (simp_all add: set_zone_sel)
    note lk = sp_like_ind [OF a(5)] and lt = sp_like_tree [OF a(5)]
    obtain c1 c2 n where g: "get_block E (i_dev r) (int (zone_block sp y)) NO_READ (fcache s) = Some (c1, n)" "zero_block n c1 = c2"
      "holds_buf E (fcache s) c2 (i_dev r) (zone_block sp y) n" "dev_image E c2 = img_put (dev_image E (fcache s)) (i_dev r) (zone_block sp y) (\<lambda>_. 0)"
      using hold_new [of E "fcache s" "i_dev r" "zone_block sp y"] calm_ok [OF a(2)] two_free_calm [OF a(2) assms(6)] f(2,3) file_ok_bs(1) [OF assms(1,2)] by metis
    let ?s = "?t\<lparr>fcache := c2\<rparr>"
    have g4: "dev_image E c2 = img_put (upd_map ZMAP sp I (y + 1 - s_firstdatazone sp) True) (i_dev r) (zone_block sp y) (\<lambda>_. 0)" using g(4) y by simp
    have gr: "grown sp 1 y I r (dev_image E c2) (inodes ?t ip)"
      using y False by (intro grow_double [OF lay assms(5) _ _ _ assms(9) f(8) g4 t(4)]) auto
    have ok: "file_ok E ?s ip" using file_ok_img [OF t(1) holds_ok [OF g(3)] refl, of y "\<lambda>_. 0"] g(4) t lk y by simp
    have hold: "holds_buf E (fcache st) c2 (i_dev r) (zone_block sp y) n"
      using g(3) a(2) by (auto simp: holds_buf_def settled_def)
    have "rd_indir n ?i ?s = Some NO_ZONE"
      using i g(3,4) t lk by (intro rd_indir_held [OF ok refl refl, where b = "zone_block sp y"]) (auto simp: inode_sp_def legal_zone_def)
    then have "wm_double E ip e False st = Some (Inr (?s, islot sp I r (slot_of r e), ?i, (e - i_nindirs r) mod i_nindirs r, Some n, NO_ZONE))"
      using a(1) False g(1,2) i sl assms(2,3) z2 t by (simp add: wm_double_def Let_def fget_def fzero_def)
    moreover have "opened E ip st ?s n y"
      using hold ok a(5) t(2) gr grown_tree [OF gr assms(5)] y False assms(2-4) by (auto simp: opened_def Let_def grown_def inode_sp_def)
    ultimately show ?thesis by blast
  qed
qed

lemma put32_get32: "put32 d i (get32 d i) = d"
proof -
  have "ucast (get32 d i) = get16 d (2 * i)" "ucast (drop_bit 16 (get32 d i)) = get16 d (2 * i + 1)"
    by (rule bit_word_eqI; auto simp: get32_def bit_ucast_iff bit_or_iff bit_push_bit_iff bit_drop_bit_eq dest: bit_imp_le_length)+
  moreover have "get16 d (2 * i + 1) = get16 (put16 d (2 * i) (get16 d (2 * i))) (2 * i + 1)" by simp
  ultimately show ?thesis by (simp add: put32_def)
qed

lemma ucast_zero: "(ucast (x :: 16 word) :: 32 word) = 0 \<Longrightarrow> x = 0"
proof (rule bit_word_eqI)
  fix n
  assume a: "(ucast x :: 32 word) = 0" "n < LENGTH(16)"
  have "bit x n = bit (ucast x :: 32 word) n" using a(2) by (simp add: bit_ucast_iff)
  then show "bit x n = bit 0 n" unfolding a(1) by simp
qed

lemma ind_write_nothing:
  assumes "ind_entry sp d i = NO_ZONE"
  shows "ind_write sp d i NO_ZONE = d"
proof (cases "s_version sp = 1")
  case True
  then have "(ucast (conv16 (s_native sp) (get16 d i)) :: 32 word) = 0" using assms unsigned_eq_0_iff by (metis conv2_ucast ind_entry_def)
  then have "conv16 (s_native sp) (get16 d i) = 0" by (rule ucast_zero)
  then have "get16 d i = conv16 (s_native sp) 0" by (metis conv16_conv16)
  moreover have "ucast (conv2 (s_native sp) 0) = conv16 (s_native sp) 0" by (simp add: conv16_def)
  ultimately show ?thesis using True put16_get16 [of d i] by (simp add: ind_write_def)
next
  case False
  then have "conv4 (s_native sp) (get32 d i) = 0" using assms unsigned_eq_0_iff by (metis ind_entry_def)
  then have "get32 d i = conv4 (s_native sp) 0" by (metis conv4_conv4)
  then show ?thesis using False put32_get32 [of d i] by (simp add: ind_write_def)
qed

lemma img_put_nothing: "img_put I dev b (I dev (int b)) = I"
  by (simp add: img_put_def)

text \<open>The entry of the double indirect block, written while it is held.\<close>

lemma store_held:
  assumes "file_ok E s ip" "sp = inode_sp ip s" "r = inodes s ip" "holds_buf E c (fcache s) (i_dev r) b n" "i < i_nindirs r"
  obtains t d where "wr_indir (Some n) i z s = Some t" "mark_dirty n t = s\<lparr>fcache := d\<rparr>" "holds_buf E c d (i_dev r) b n"
    "dev_image E d = img_put (dev_image E (fcache s)) (i_dev r) b (ind_write sp (dev_image E (fcache s) (i_dev r) (int b)) i z)"
proof -
  note f = file_okD [OF assms(1-3)]
  have d: "clip E (i_dev r) (buf_data (fcache s) n) = dev_image E (fcache s) (i_dev r) (int b)" "b_dev (bufs (fcache s) n) = i_dev r"
    using holds_data [OF assms(4)] f(2,3) by simp_all
  have "get_super (b_dev (bufs (fcache s) n)) (supers s) = Some (i_sp r)" using d(2) f(2,6) by simp
  then obtain t where t: "wr_indir (Some n) i z s = Some t" "mark_dirty n t = s\<lparr>fcache := set_data n (ind_write sp (buf_data (fcache s) n) i z) (fcache s)\<rparr>"
    using wr_indir_mark [of s n "i_sp r" sp] assms(2,3) by (auto simp: inode_sp_def)
  have "clip E (i_dev r) (ind_write sp (buf_data (fcache s) n) i z) = ind_write sp (dev_image E (fcache s) (i_dev r) (int b)) i z"
    using ind_write_clip [OF assms(1) _ assms(2), of i "buf_data (fcache s) n" z] assms(3,5) d(1) f(2) by simp
  then show thesis using that [OF t] holds_store [OF assms(4), of "ind_write sp (buf_data (fcache s) n) i z"] f(2,3) by simp
qed

text \<open>The end of \<open>write_map\<close>: the double indirect block is released.\<close>

lemma close_held:
  assumes "file_ok E t ip" "holds_buf E c (fcache t) dev b n" "io_ok E c" "room c"
  obtains u where "fput E (Some n) INDIRECT_BLOCK t = u" "file_ok E u ip" "calm E c (fcache u)" "dev_image E (fcache u) = dev_image E (fcache t)"
    "inodes u = inodes t" "inode_sp ip u = inode_sp ip t"
proof -
  note p = holds_put [OF assms(2-4), of INDIRECT_BLOCK]
  show thesis
    by (rule that [OF refl]) (use p file_ok_same [OF assms(1) calm_ok [OF p(1)] p(2)] in \<open>simp_all add: fput_def\<close>)
qed

lemma openedD:
  assumes "opened E ip st s n z2" "sp = inode_sp ip st" "r = inodes st ip" "r' = inodes s ip" "I = dev_image E (fcache st)" "I' = dev_image E (fcache s)"
  shows "holds_buf E (fcache st) (fcache s) (i_dev r) (zone_block sp z2) n" "file_ok E s ip" "sp_like sp (inode_sp ip s)" "same_shape r r'" "tree_ok sp I' r'"
    "islot sp I' r' 1 = z2" "z2 \<noteq> NO_ZONE" "i_nindirs r' = i_nindirs r" "i_dev r' = i_dev r"
    "k < i_nindirs r + 2 \<Longrightarrow> k \<noteq> 1 \<Longrightarrow> islot sp I' r' k = islot sp I r k \<and> entry sp I' r' k i = entry sp I r k i"
  using assms by (auto simp: opened_def Let_def same_shape_def)

lemma wm_rest_old:
  assumes o: "opened E ip st s n z2" and st: "file_ok E st ip" and names: "sp = inode_sp ip st" "r = inodes st ip" "I = dev_image E (fcache st)"
    and k: "2 \<le> k" "k < i_nindirs r + 2" "y = islot sp I r k" "y \<noteq> NO_ZONE" and "ex < i_nindirs r" "fits sp x"
  shows "\<exists>t. wm_indirect E ip False (k - 2) ex (Some n) y zz x False s = Some (t, 0) \<and> wrote E ip k ex x st t 0"
proof -
  let ?r = "inodes s ip" and ?I = "dev_image E (fcache s)" and ?sp = "inode_sp ip s"
  note d = openedD [OF o names(1,2) refl names(3) refl] and f = file_okD [OF st names(1,2)]
  note lk = sp_like_ind [OF d(3)]
  have lay: "layout_ok E sp" using file_ok_bs [OF st names(1)] by simp
  have y: "y = islot sp ?I ?r k" "k < i_nindirs ?r + 2" "k \<noteq> 1" using k d(8) d(10) [of k] by auto
  have yd: "data_zone sp y" using d(5) y(1,2) k(4) unfolding tree_ok_def by blast
  obtain c where c: "wm_entry E ip False (k - 2) ex (Some n) y x False False s = Some (s\<lparr>fcache := c\<rparr>, y)" "calm E (fcache s) c"
    "dev_image E c = img_put ?I (i_dev r) (zone_block sp y) (ind_write sp (?I (i_dev r) (int (zone_block sp y))) ex x)"
    using wm_entry_spec [OF d(2) refl refl refl, of ex False "k - 2" "Some n" y x False] assms(10) d(8,9) lk by auto
  have ok: "file_ok E (s\<lparr>fcache := c\<rparr>) ip" using file_ok_img [OF d(2) calm_ok [OF c(2)] refl] c(3) yd lk d(9) by simp
  have "holds_buf E (fcache st) (fcache (s\<lparr>fcache := c\<rparr>)) (i_dev r) (zone_block sp z2) n" using holds_calm [OF d(1) c(2)] by simp
  from close_held [OF ok this f(4,5)] obtain u where "fput E (Some n) INDIRECT_BLOCK (s\<lparr>fcache := c\<rparr>) = u" "file_ok E u ip" "calm E (fcache st) (fcache u)"
    "dev_image E (fcache u) = dev_image E (fcache (s\<lparr>fcache := c\<rparr>))" "inodes u = inodes (s\<lparr>fcache := c\<rparr>)" "inode_sp ip u = inode_sp ip (s\<lparr>fcache := c\<rparr>)"
    by blast
  note u = this [simplified]
  note p = put_entry [OF lay d(5) y(2,3,1) k(4) assms(11) c(3) [folded d(9)]]
  have "wm_indirect E ip False (k - 2) ex (Some n) y zz x False s = Some (u, 0)" using c(1) k(4) u(1) by (simp add: wm_indirect_def Let_def)
  moreover have "wrote E ip k ex x st u 0" using u(2-6) d(3,4,8,10) p names by (simp add: wrote_def Let_def)
  ultimately show ?thesis by blast
qed

lemma wm_rest_full:
  assumes o: "opened E ip st s n z2" and st: "file_ok E st ip" and names: "sp = inode_sp ip st" "r = inodes st ip" "I = dev_image E (fcache st)"
    and k: "2 \<le> k" "k < i_nindirs r + 2" "islot sp I r k = NO_ZONE"
    and a: "alloc_zone E (i_dev r) (i_zone (inodes s ip) ! 0) s = Some (a, NO_ZONE)" "calm E (fcache s) (fcache a)" "inodes a = inodes s" "file_ok E a ip"
      "sp_like (inode_sp ip s) (inode_sp ip a)" "err_code a = ENOSPC" "dev_image E (fcache a) = dev_image E (fcache s)"
  shows "\<exists>t. wm_indirect E ip False (k - 2) ex (Some n) NO_ZONE zz x False s = Some (t, ENOSPC) \<and> wrote E ip k ex x st t ENOSPC"
proof -
  let ?r = "inodes s ip" and ?I = "dev_image E (fcache s)"
  note d = openedD [OF o names(1,2) refl names(3) refl] and f = file_okD [OF st names(1,2)]
  have like: "sp_like sp (inode_sp ip a)" by (rule sp_like_trans [OF d(3) a(5)])
  have ia: "inodes a ip = ?r" "i_dev (inodes a ip) = i_dev r" "i_nindirs (inodes a ip) = i_nindirs r" using a(3) d(8,9) by simp_all
  have hold: "holds_buf E (fcache st) (fcache a) (i_dev r) (zone_block sp z2) n" by (rule holds_calm [OF d(1) a(2)])
  have "k - 2 < i_nindirs r" using k by simp
  then obtain t b where t: "wr_indir (Some n) (k - 2) NO_ZONE a = Some t" "mark_dirty n t = a\<lparr>fcache := b\<rparr>"
    "holds_buf E (fcache st) b (i_dev r) (zone_block sp z2) n"
    "dev_image E b = img_put ?I (i_dev r) (zone_block sp z2) (ind_write sp (?I (i_dev r) (int (zone_block sp z2))) (k - 2) NO_ZONE)"
    using store_held [OF a(4) refl refl hold [folded ia(2)], of "k - 2" NO_ZONE] ia a(7) sp_like_ind [OF like] by auto
  have z2: "i_zone ?r ! (i_ndzones ?r + 1) = z2" using d(6) by (simp add: islot_def)
  have "islot sp ?I ?r k = NO_ZONE" using d(10) [of k] k by simp
  then have "ind_entry sp (?I (i_dev r) (int (zone_block sp z2))) (k - 2) = NO_ZONE" using k(1) z2 d(7,9) by (simp add: islot_def ind_ref_def)
  then have img: "dev_image E b = ?I" using t(4) by (simp add: ind_write_nothing img_put_nothing)
  have ok: "file_ok E (a\<lparr>fcache := b\<rparr>) ip" using file_ok_same [OF a(4) holds_ok [OF t(3)]] img a(7) by simp
  have "holds_buf E (fcache st) (fcache (a\<lparr>fcache := b\<rparr>)) (i_dev r) (zone_block sp z2) n" using t(3) by simp
  from close_held [OF ok this f(4,5)] obtain u where "fput E (Some n) INDIRECT_BLOCK (a\<lparr>fcache := b\<rparr>) = u" "file_ok E u ip" "calm E (fcache st) (fcache u)"
    "dev_image E (fcache u) = dev_image E (fcache (a\<lparr>fcache := b\<rparr>))" "inodes u = inodes (a\<lparr>fcache := b\<rparr>)" "inode_sp ip u = inode_sp ip (a\<lparr>fcache := b\<rparr>)"
    by blast
  note u = this [simplified]
  have "wm_indirect E ip False (k - 2) ex (Some n) NO_ZONE zz x False s = Some (u, ENOSPC)"
    using a(1,6) t(1,2) u(1) d(9) by (simp add: wm_indirect_def Let_def)
  moreover have "wrote E ip k ex x st u ENOSPC" using u(2-6) like d(4,5,10) img a(3) names by (simp add: wrote_def Let_def)
  ultimately show ?thesis by blast
qed

lemma wm_rest_grow:
  assumes o: "opened E ip st s n z2" and st: "file_ok E st ip" and names: "sp = inode_sp ip st" "r = inodes st ip" "I = dev_image E (fcache st)"
    and k: "2 \<le> k" "k < i_nindirs r + 2" "islot sp I r k = NO_ZONE" and ex: "ex < i_nindirs r" "fits sp x"
    and a: "alloc_zone E (i_dev r) (i_zone (inodes s ip) ! 0) s = Some (a, y)" "calm E (fcache s) (fcache a)" "inodes a = inodes s" "file_ok E a ip"
      "sp_like (inode_sp ip s) (inode_sp ip a)" "y \<noteq> NO_ZONE" "data_zone sp y" "\<not> zone_used sp (dev_image E (fcache s)) y"
      "dev_image E (fcache a) = upd_map ZMAP sp (dev_image E (fcache s)) (y + 1 - s_firstdatazone sp) True"
  shows "\<exists>t. wm_indirect E ip False (k - 2) ex (Some n) NO_ZONE zz x False s = Some (t, 0) \<and> wrote E ip k ex x st t 0"
proof -
  let ?r = "inodes s ip" and ?I = "dev_image E (fcache s)"
  define J where "J = upd_map ZMAP sp ?I (y + 1 - s_firstdatazone sp) True"
  note d = openedD [OF o names(1,2) refl names(3) refl] and f = file_okD [OF st names(1,2)]
  have like: "sp_like sp (inode_sp ip a)" by (rule sp_like_trans [OF d(3) a(5)])
  note lk = sp_like_ind [OF like]
  have lay: "layout_ok E sp" using file_ok_bs [OF st names(1)] by simp
  have ia: "inodes a ip = ?r" "i_dev (inodes a ip) = i_dev r" "i_nindirs (inodes a ip) = i_nindirs r" using a(3) d(8,9) by simp_all
  have z2d: "data_zone sp z2" using d(5,6,7) unfolding tree_ok_def by auto
  have hold: "holds_buf E (fcache st) (fcache a) (i_dev r) (zone_block sp z2) n" by (rule holds_calm [OF d(1) a(2)])
  have "k - 2 < i_nindirs r" using k by simp
  then obtain t b where t: "wr_indir (Some n) (k - 2) y a = Some t" "mark_dirty n t = a\<lparr>fcache := b\<rparr>"
    "holds_buf E (fcache st) b (i_dev r) (zone_block sp z2) n"
    "dev_image E b = img_put J (i_dev r) (zone_block sp z2) (ind_write sp (J (i_dev r) (int (zone_block sp z2))) (k - 2) y)"
    using store_held [OF a(4) refl refl hold [folded ia(2)], of "k - 2" y] ia a(9) [folded J_def] lk by auto
  let ?b = "a\<lparr>fcache := b\<rparr>"
  have okb: "file_ok E ?b ip" using file_ok_img [OF a(4) holds_ok [OF t(3)] refl] t(4) a(9) [folded J_def] z2d lk ia by simp
  obtain c where c: "wm_entry E ip False (k - 2) ex (Some n) y x False True ?b = Some (?b\<lparr>fcache := c\<rparr>, y)" "calm E b c"
    "dev_image E c = img_put (dev_image E b) (i_dev r) (zone_block sp y) (ind_write sp (\<lambda>_. 0) ex x)"
    using wm_entry_spec [OF okb refl refl refl, of ex False "k - 2" "Some n" y x True] ex(1) ia lk by auto
  have okc: "file_ok E (a\<lparr>fcache := c\<rparr>) ip" using file_ok_img [OF okb calm_ok [OF c(2)] refl] c(3) a(7) lk ia by simp
  have "holds_buf E (fcache st) (fcache (a\<lparr>fcache := c\<rparr>)) (i_dev r) (zone_block sp z2) n" using holds_calm [OF t(3) c(2)] by simp
  from close_held [OF okc this f(4,5)] obtain u where "fput E (Some n) INDIRECT_BLOCK (a\<lparr>fcache := c\<rparr>) = u" "file_ok E u ip" "calm E (fcache st) (fcache u)"
    "dev_image E (fcache u) = dev_image E (fcache (a\<lparr>fcache := c\<rparr>))" "inodes u = inodes (a\<lparr>fcache := c\<rparr>)" "inode_sp ip u = inode_sp ip (a\<lparr>fcache := c\<rparr>)"
    by blast
  note u = this [simplified]
  have k': "k < i_nindirs ?r + 2" "k \<noteq> 1" "islot sp ?I ?r k = NO_ZONE" using d(8) d(10) [of k] k by auto
  have g: "grown sp k y ?I ?r (img_put (dev_image E b) (i_dev ?r) (zone_block sp y) (\<lambda>_. 0)) ?r"
    using data_zone_fits [OF lay a(7)] k(1) k' t(4) d(9) by (intro grow_entry [OF lay d(5) a(7,8,6) _ _ _ _ d(6) [symmetric] d(7) J_def]) simp_all
  note p = grown_put_entry [OF lay d(5) a(7,8,6) g k'(1,2) ex(2) c(3) [folded d(9)]]
  have "wm_indirect E ip False (k - 2) ex (Some n) NO_ZONE zz x False s = Some (u, 0)"
    using a(1,6) t(1,2) c(1) u(1) d(9) by (simp add: wm_indirect_def Let_def)
  moreover have "wrote E ip k ex x st u 0" using u(2-6) like d(4,8,10) p a(3) names by (simp add: wrote_def Let_def)
  ultimately show ?thesis by blast
qed

lemma wm_rest:
  assumes o: "opened E ip st s n z2" and st: "file_ok E st ip" and names: "sp = inode_sp ip st" "r = inodes st ip" "I = dev_image E (fcache st)"
    and k: "2 \<le> k" "k < i_nindirs r + 2" and ex: "ex < i_nindirs r" "fits sp x"
  shows "\<exists>t code. wm_indirect E ip False (k - 2) ex (Some n) (islot sp I r k) zz x False s = Some (t, code) \<and> wrote E ip k ex x st t code"
proof (cases "islot sp I r k = NO_ZONE")
  case False
  then show ?thesis using wm_rest_old [OF o st names k refl False ex, of zz] by blast
next
  case True
  note d = openedD [OF o names(1,2) refl names(3) refl]
  obtain a y where a: "alloc_zone E (i_dev (inodes s ip)) (i_zone (inodes s ip) ! 0) s = Some (a, y)" "calm E (fcache s) (fcache a)" "inodes a = inodes s" "file_ok E a ip"
    "sp_like (inode_sp ip s) (inode_sp ip a)" "y = NO_ZONE \<Longrightarrow> err_code a = ENOSPC \<and> dev_image E (fcache a) = dev_image E (fcache s)"
    "y \<noteq> NO_ZONE \<Longrightarrow> data_zone (inode_sp ip s) y \<and> \<not> zone_used (inode_sp ip s) (dev_image E (fcache s)) y
       \<and> dev_image E (fcache a) = upd_map ZMAP (inode_sp ip s) (dev_image E (fcache s)) (y + 1 - s_firstdatazone (inode_sp ip s)) True"
    using alloc_file [OF d(2) refl refl refl, where z = "i_zone (inodes s ip) ! 0"] by blast
  obtain zs where zs: "inode_sp ip s = sp\<lparr>s_zsearch := zs\<rparr>" using d(3) unfolding sp_like_def by blast
  show ?thesis
  proof (cases "y = NO_ZONE")
    case full: True
    then show ?thesis using wm_rest_full [OF o st names k True _ a(2-5), of ex zz x] a(1,6) d(9) True by auto
  next
    case False
    then show ?thesis using wm_rest_grow [OF o st names k True ex _ a(2-5) False, of zz] a(1,7) zs d(9) True by (auto simp del: One_nat_def)
  qed
qed

lemma wrote_zone_ref:
  assumes "wrote E ip (slot_of r e) (ind_index r e) x st s code" "file_ok E st ip" "sp = inode_sp ip st" "r = inodes st ip" "I = dev_image E (fcache st)"
    and range: "zone < i_ndzones r + i_nindirs r + i_nindirs r * i_nindirs r" "y = i_ndzones r + e"
  shows "zone_ref sp (dev_image E (fcache s)) (inodes s ip) zone = (if code = 0 \<and> zone = y then x else zone_ref sp I r zone)"
proof (cases "zone < i_ndzones r")
  case True
  then show ?thesis using assms(1,3,4) range(2) by (simp add: wrote_def Let_def same_shape_def zone_ref_def)
next
  case False
  let ?r = "inodes s ip" and ?e = "zone - i_ndzones r"
  have nr: "0 < i_nindirs r" using file_okD(7) [OF assms(2-4)] .
  have sh: "i_nindirs ?r = i_nindirs r" "i_ndzones ?r = i_ndzones r" using assms(1,3,4) by (simp_all add: wrote_def Let_def same_shape_def)
  then have eq: "slot_of ?r = slot_of r" "ind_index ?r = ind_index r" by (simp_all add: slot_of_def ind_index_def fun_eq_iff)
  have "slot_of r ?e < i_nindirs r + 2 \<and> slot_of r ?e \<noteq> 1" using slot_of_less [OF nr] range(1) False by simp
  then have "entry sp (dev_image E (fcache s)) ?r (slot_of r ?e) (ind_index r ?e)
      = (if code = 0 \<and> slot_of r ?e = slot_of r e \<and> ind_index r ?e = ind_index r e then x else entry sp I r (slot_of r ?e) (ind_index r ?e))"
    using assms(1,3-5) by (simp add: wrote_def Let_def)
  moreover have "slot_of r ?e = slot_of r e \<and> ind_index r ?e = ind_index r e \<longleftrightarrow> zone = y" using slot_index_inj [of r ?e e] nr False range(2) by auto
  ultimately show ?thesis using False sh eq by (simp add: zone_ref_entry)
qed

text \<open>Indirect zones, single or double.\<close>

lemma write_map_indirect:
  assumes "file_ok E st ip" "sp = inode_sp ip st" "r = inodes st ip" "I = dev_image E (fcache st)" "tree_ok sp I r" "two_free (fcache st)" "fits sp x"
    "e < i_nindirs r + i_nindirs r * i_nindirs r"
  shows "\<exists>s code. (if e < i_nindirs r then wm_indirect E ip True 0 e None (i_zone r ! i_ndzones r) NO_ZONE x False st
      else do { w \<leftarrow> wm_double E ip e False st;
                (case w of Inl p \<Rightarrow> Some p | Inr (s, z1, ind_ex, ex, bp, z2) \<Rightarrow> wm_indirect E ip False ind_ex ex bp z1 z2 x False s) }) = Some (s, code)
    \<and> wrote E ip (slot_of r e) (ind_index r e) x st s code"
proof (cases "e < i_nindirs r")
  case True
  have z: "i_zone r ! i_ndzones r = islot sp I r 0" by (simp add: islot_def)
  show ?thesis
    using True wm_single_old [OF assms(1-5) True assms(7)] wm_single_new [OF assms(1-5) True assms(7)]
    by (cases "islot sp I r 0 = NO_ZONE") (force simp: z slot_of_def ind_index_def)+
next
  case False
  let ?k = "slot_of r e" and ?ex = "ind_index r e"
  have nr: "0 < i_nindirs r" using file_okD(7) [OF assms(1-3)] .
  have k: "2 \<le> ?k" "?k < i_nindirs r + 2" "?k - 2 = (e - i_nindirs r) div i_nindirs r" "?ex = (e - i_nindirs r) mod i_nindirs r" "?ex < i_nindirs r"
    using slot_of_less [OF nr assms(8)] False nr by (simp_all add: slot_of_def ind_index_def)
  note rest = wm_rest [OF _ assms(1-4) k(1,2,5) assms(7)]
  show ?thesis
  proof (cases "islot sp I r 1 = NO_ZONE")
    case True
    then consider s where "wm_double E ip e False st = Some (Inl (s, ENOSPC))" "wrote E ip ?k ?ex x st s ENOSPC"
      | s n y where "wm_double E ip e False st = Some (Inr (s, islot sp I r ?k, ?k - 2, ?ex, Some n, NO_ZONE))" "opened E ip st s n y"
      using wm_double_new [OF assms(1-6) False assms(8) True, of ?k ?ex x] k(3,4) by metis
    then show ?thesis
    proof cases
      case 1
      then show ?thesis using False by simp
    next
      case (2 s n y)
      then show ?thesis using False rest [OF 2(2), of NO_ZONE] by simp
    qed
  next
    case old: False
    then obtain s n where "wm_double E ip e False st = Some (Inr (s, islot sp I r ?k, ?k - 2, ?ex, Some n, islot sp I r 1))" "opened E ip st s n (islot sp I r 1)"
      using wm_double_old [OF assms(1-6) False assms(8) old] k(3,4) by metis
    then show ?thesis using False rest by simp
  qed
qed

text \<open>\<open>write_map\<close> changes one zone number of the file and no other, whatever blocks it has to create.\<close>

lemma dirty_irrelevant:
  "file_ok E (st\<lparr>inodes := (inodes st)(ip := (inodes st ip)\<lparr>i_dirt := b\<rparr>)\<rparr>) ip = file_ok E st ip"
  "tree_ok sp I (r\<lparr>i_dirt := b\<rparr>) = tree_ok sp I r" "zone_ref sp I (r\<lparr>i_dirt := b\<rparr>) zone = zone_ref sp I r zone"
  by (simp_all add: file_ok_def Let_def zone_st_def inode_sp_def tree_ok_def islot_def zone_ref_def ind_zone_def ind_index_def)

lemma write_map_spec:
  assumes "file_ok E st ip" "sp = inode_sp ip st" "r = inodes st ip" "I = dev_image E (fcache st)" "tree_ok sp I r" "two_free (fcache st)" "fits sp x"
    and range: "zone_of sp position < i_ndzones r + i_nindirs r + i_nindirs r * i_nindirs r"
  shows "\<exists>s code. write_map E ip position x False st = Some (s, code) \<and> file_ok E s ip \<and> calm E (fcache st) (fcache s) \<and> (code = 0 \<or> code = ENOSPC)
    \<and> sp_like sp (inode_sp ip s) \<and> tree_ok sp (dev_image E (fcache s)) (inodes s ip) \<and> same_range r (inodes s ip)
    \<and> (\<forall>zone. zone < i_ndzones r + i_nindirs r + i_nindirs r * i_nindirs r \<longrightarrow>
         zone_ref sp (dev_image E (fcache s)) (inodes s ip) zone = (if code = 0 \<and> zone = zone_of sp position then x else zone_ref sp I r zone))"
proof -
  define st1 where "st1 = st\<lparr>inodes := (inodes st)(ip := (inodes st ip)\<lparr>i_dirt := True\<rparr>)\<rparr>"
  define r1 where "r1 = r\<lparr>i_dirt := True\<rparr>"
  let ?zone = "zone_of sp position"
  have s1: "file_ok E st1 ip" "sp = inode_sp ip st1" "r1 = inodes st1 ip" "I = dev_image E (fcache st1)" "fcache st1 = fcache st" "tree_ok sp I r1"
    using assms(1-5) dirty_irrelevant by (simp_all add: st1_def r1_def inode_sp_def)
  have sel: "i_ndzones r1 = i_ndzones r" "i_nindirs r1 = i_nindirs r" "i_zone r1 = i_zone r" "i_dev r1 = i_dev r" by (simp_all add: r1_def)
  note f = file_okD [OF s1(1-3)]
  show ?thesis
  proof (cases "?zone < i_ndzones r")
    case True
    let ?s = "set_zone ip ?zone x st1"
    have w: "write_map E ip position x False st = Some (?s, 0)"
      using True by (simp add: write_map_def Let_def flip: st1_def s1(2,3)) (simp add: sel)
    have rs: "inodes ?s ip = r1\<lparr>i_zone := (i_zone r)[?zone := x]\<rparr>" using s1(3) sel by (simp add: set_zone_sel)
    have e: "islot sp I (inodes ?s ip) = islot sp I r" using True by (simp add: rs islot_def fun_eq_iff sel)
    have t: "tree_ok sp I (inodes ?s ip)" using assms(5) by (simp add: tree_ok_def e) (simp add: rs sel)
    have z: "zone_ref sp I (inodes ?s ip) zone = (if zone = ?zone then x else zone_ref sp I r zone)" for zone
      using True f(8) sel e by (auto simp: rs zone_ref_def ind_zone_def ind_index_def)
    show ?thesis using w t z set_zone_file_ok [OF s1(1)] f(4,5) s1 sel by (intro exI [of _ ?s] exI [of _ 0]) (simp add: set_zone_sel settled_def same_range_def)
  next
    case False
    let ?e = "?zone - i_ndzones r"
    have e: "?e < i_nindirs r1 + i_nindirs r1 * i_nindirs r1" using range False sel by simp
    have two: "two_free (fcache st1)" using assms(6) s1(5) by simp
    have "write_map E ip position x False st = (if ?e < i_nindirs r1 then wm_indirect E ip True 0 ?e None (i_zone r1 ! i_ndzones r1) NO_ZONE x False st1
      else do { w \<leftarrow> wm_double E ip ?e False st1;
                (case w of Inl p \<Rightarrow> Some p | Inr (s, z1, ind_ex, ex, bp, z2) \<Rightarrow> wm_indirect E ip False ind_ex ex bp z1 z2 x False s) })"
      unfolding write_map_def Let_def st1_def [symmetric] s1(2,3) [symmetric] using False by (simp only: sel if_False)
    then obtain s code where w: "write_map E ip position x False st = Some (s, code)" "wrote E ip (slot_of r1 ?e) (ind_index r1 ?e) x st1 s code"
      using write_map_indirect [OF s1(1-4,6) two assms(7) e] by metis
    have "zone_ref sp (dev_image E (fcache s)) (inodes s ip) zone = (if code = 0 \<and> zone = ?zone then x else zone_ref sp I r zone)"
      if "zone < i_ndzones r + i_nindirs r + i_nindirs r * i_nindirs r" for zone
      using wrote_zone_ref [OF w(2) s1(1-4), of zone ?zone] that False sel dirty_irrelevant(3) by (simp add: r1_def)
    moreover have "same_range r (inodes s ip)" using w(2) s1(3) sel by (simp add: wrote_def Let_def same_shape_def same_range_def)
    ultimately show ?thesis using w s1(2,3,5) by (auto simp: wrote_def Let_def)
  qed
qed

end
