(* ===== verification/Fs_Inode.thy ===== *)
theory Fs_Inode
  imports Fs_Write
begin

text \<open>
  The inode table of the file server (\<open>src/servers/fs/inode.c\<close>), the truncation of files (\<open>truncate_inode\<close> and what it calls in \<open>link.c\<close>) and the
  reading of a super block (\<open>read_super\<close> of \<open>super.c\<close>).  An inode pointer is an index of the table.  An inode on the disk is 32 bytes (V1)
  or 64 bytes (V2 and V3) of a block; the fields are read and written as the half words and words of the block, with the bytes swapped for a
  file system of the other byte order.  \<open>None\<close> is the end of the server.
\<close>

section \<open>Constants\<close>

abbreviation (input) "EMOLPERM \<equiv> - 1 :: int"
abbreviation (input) "EMOLNOENT \<equiv> - 2 :: int"
abbreviation (input) "EMOLIO \<equiv> - 5 :: int"
abbreviation (input) "EMOLBADF \<equiv> - 9 :: int"
abbreviation (input) "EMOLAGAIN \<equiv> - 11 :: int"
abbreviation (input) "EMOLACCES \<equiv> - 13 :: int"
abbreviation (input) "EMOLEXIST \<equiv> - 17 :: int"
abbreviation (input) "EMOLNOTDIR \<equiv> - 20 :: int"
abbreviation (input) "EMOLISDIR \<equiv> - 21 :: int"
abbreviation (input) "EMOLINVAL \<equiv> - 22 :: int"
abbreviation (input) "EMOLNFILE \<equiv> - 23 :: int"
abbreviation (input) "EMOLMFILE \<equiv> - 24 :: int"
abbreviation (input) "EMOLFBIG \<equiv> - 27 :: int"
abbreviation (input) "EMOLROFS \<equiv> - 30 :: int"
abbreviation (input) "EMOLNOLCK \<equiv> - 37 :: int"
abbreviation (input) "EMOLLOOP \<equiv> - 40 :: int"

abbreviation (input) "INODE_BLOCK \<equiv> 0 :: int"
abbreviation (input) "DIRECTORY_BLOCK \<equiv> 1 :: int"
abbreviation (input) "V1_NR_DZONES \<equiv> 7 :: nat"
abbreviation (input) "V1_NR_TZONES \<equiv> 9 :: nat"
abbreviation (input) "V2_NR_DZONES \<equiv> 7 :: nat"
abbreviation (input) "V2_NR_TZONES \<equiv> 10 :: nat"
abbreviation (input) "V1_INODES_PER_BLOCK \<equiv> 32 :: nat"
abbreviation (input) "I_NOT_ALLOC \<equiv> 0 :: nat"
abbreviation (input) "ATIME \<equiv> 2 :: nat"
abbreviation (input) "CTIME \<equiv> 4 :: nat"
abbreviation (input) "MTIME \<equiv> 8 :: nat"

definition NR_INODES :: nat where "NR_INODES = 256"

definition i_type :: "nat \<Rightarrow> nat" where
  "i_type m = and m 0xF000"

abbreviation (input) "I_REGULAR \<equiv> 0x8000 :: nat"
abbreviation (input) "I_BLOCK_SPECIAL \<equiv> 0x6000 :: nat"
abbreviation (input) "I_DIRECTORY \<equiv> 0x4000 :: nat"
abbreviation (input) "I_CHAR_SPECIAL \<equiv> 0x2000 :: nat"
abbreviation (input) "I_NAMED_PIPE \<equiv> 0x1000 :: nat"
abbreviation (input) "I_SYMBOLIC_LINK \<equiv> 0xA000 :: nat"

definition upd_inode :: "nat \<Rightarrow> (inode \<Rightarrow> inode) \<Rightarrow> fs_st \<Rightarrow> fs_st" where
  "upd_inode ip f st = st\<lparr>inodes := (inodes st)(ip := f (inodes st ip))\<rparr>"

definition upd_super :: "nat \<Rightarrow> (super_block \<Rightarrow> super_block) \<Rightarrow> fs_st \<Rightarrow> fs_st" where
  "upd_super k f st = st\<lparr>supers := (supers st)(k := f (supers st k))\<rparr>"

section \<open>Inodes on the disk\<close>

text \<open>The inode at place \<open>k\<close> of a block with V1 inodes: half word \<open>16 * k + j\<close>, word \<open>8 * k + j\<close>, byte \<open>32 * k + j\<close>.\<close>

definition old_icopy_read :: "bool \<Rightarrow> block \<Rightarrow> nat \<Rightarrow> inode \<Rightarrow> inode" where
  "old_icopy_read norm d k r =
    (let mtime = sint (conv4 norm (get32 d (8 * k + 2))) in
     r\<lparr>i_mode := unat (conv16 norm (get16 d (16 * k))), i_uid := sint (conv16 norm (get16 d (16 * k + 1))),
       i_size := unat (conv4 norm (get32 d (8 * k + 1))), i_mtime := mtime, i_atime := mtime, i_ctime := mtime,
       i_nlinks := int (unat (d (32 * k + 13))), i_gid := sint (d (32 * k + 12)), i_ndzones := V1_NR_DZONES, i_nindirs := V1_INDIRECTS,
       i_zone := map (\<lambda>i. unat (conv2 norm (ucast (get16 d (16 * k + 7 + i))))) [0 ..< V1_NR_TZONES] @ drop V1_NR_TZONES (i_zone r)\<rparr>)"

definition old_icopy_write :: "bool \<Rightarrow> inode \<Rightarrow> nat \<Rightarrow> block \<Rightarrow> block" where
  "old_icopy_write norm r k d =
    (let d1 = put16 d (16 * k) (conv16 norm (word_of_nat (i_mode r)));
         d2 = put16 d1 (16 * k + 1) (conv16 norm (word_of_int (i_uid r)));
         d3 = put32 d2 (8 * k + 1) (conv4 norm (word_of_nat (i_size r)));
         d4 = put32 d3 (8 * k + 2) (conv4 norm (word_of_int (i_mtime r)));
         d5 = d4(32 * k + 13 := word_of_int (i_nlinks r), 32 * k + 12 := word_of_int (i_gid r))
     in foldl (\<lambda>d i. put16 d (16 * k + 7 + i) (ucast (conv2 norm (word_of_nat (i_zone r ! i))))) d5 [0 ..< V1_NR_TZONES])"

text \<open>A V2 inode: half word \<open>32 * k + j\<close>, word \<open>16 * k + j\<close>.\<close>

definition new_icopy_read :: "bool \<Rightarrow> nat \<Rightarrow> block \<Rightarrow> nat \<Rightarrow> inode \<Rightarrow> inode" where
  "new_icopy_read norm bsize d k r =
    r\<lparr>i_mode := unat (conv16 norm (get16 d (32 * k))), i_uid := sint (conv16 norm (get16 d (32 * k + 2))),
      i_nlinks := sint (conv16 norm (get16 d (32 * k + 1))), i_gid := sint (ucast (conv16 norm (get16 d (32 * k + 3))) :: 8 word),
      i_size := unat (conv4 norm (get32 d (16 * k + 2))), i_atime := sint (conv4 norm (get32 d (16 * k + 3))),
      i_ctime := sint (conv4 norm (get32 d (16 * k + 5))), i_mtime := sint (conv4 norm (get32 d (16 * k + 4))),
      i_ndzones := V2_NR_DZONES, i_nindirs := bsize div 4,
      i_zone := map (\<lambda>i. unat (conv4 norm (get32 d (16 * k + 6 + i)))) [0 ..< V2_NR_TZONES]\<rparr>"

definition new_icopy_write :: "bool \<Rightarrow> inode \<Rightarrow> nat \<Rightarrow> block \<Rightarrow> block" where
  "new_icopy_write norm r k d =
    (let d1 = put16 d (32 * k) (conv16 norm (word_of_nat (i_mode r)));
         d2 = put16 d1 (32 * k + 2) (conv16 norm (word_of_int (i_uid r)));
         d3 = put16 d2 (32 * k + 1) (conv16 norm (word_of_int (i_nlinks r)));
         d4 = put16 d3 (32 * k + 3) (conv16 norm (word_of_int (i_gid r)));
         d5 = put32 d4 (16 * k + 2) (conv4 norm (word_of_nat (i_size r)));
         d6 = put32 d5 (16 * k + 3) (conv4 norm (word_of_int (i_atime r)));
         d7 = put32 d6 (16 * k + 5) (conv4 norm (word_of_int (i_ctime r)));
         d8 = put32 d7 (16 * k + 4) (conv4 norm (word_of_int (i_mtime r)))
     in foldl (\<lambda>d i. put32 d (16 * k + 6 + i) (conv4 norm (word_of_nat (i_zone r ! i)))) d8 [0 ..< V2_NR_TZONES])"

section \<open>Reading and writing inodes\<close>

definition update_times :: "io_env \<Rightarrow> nat \<Rightarrow> fs_st \<Rightarrow> fs_st" where
  "update_times E ip st =
    (if s_rd_only (inode_sp ip st) then st
     else upd_inode ip (\<lambda>r. r\<lparr>i_atime := if bit (i_update r) 1 then io_now E else i_atime r, i_ctime := if bit (i_update r) 2 then io_now E else i_ctime r,
            i_mtime := if bit (i_update r) 3 then io_now E else i_mtime r, i_update := 0\<rparr>) st)"

definition inode_block :: "super_block \<Rightarrow> nat \<Rightarrow> nat" where
  "inode_block sp num = nat ((int ((num + 2 ^ 32 - 1) mod 2 ^ 32 div s_inodes_per_block sp) + (s_imap_blocks sp + s_zmap_blocks sp + 2)) mod 2 ^ 32)"

definition inode_place :: "super_block \<Rightarrow> nat \<Rightarrow> nat" where
  "inode_place sp num =
    (num + 2 ^ 32 - 1) mod 2 ^ 32 mod (if s_version sp = 1 then V1_INODES_PER_BLOCK else s_block_size sp div 64)"

definition icopy :: "bool \<Rightarrow> super_block \<Rightarrow> nat \<Rightarrow> bufno \<Rightarrow> fs_st \<Rightarrow> fs_st" where
  "icopy writing sp ip n st =
    (let r = inodes st ip; k = inode_place sp (i_num r); norm = s_native sp; d = b_data (bufs (fcache st) n) in
     if writing then
       st\<lparr>fcache := upd_buf n (\<lambda>x. x\<lparr>b_data := if s_version sp = 1 then old_icopy_write norm r k d else new_icopy_write norm r k d\<rparr>) (fcache st)\<rparr>
     else upd_inode ip (\<lambda>r. if s_version sp = 1 then old_icopy_read norm d k r else new_icopy_read norm (s_block_size sp) d k r) st)"

definition rw_inode :: "io_env \<Rightarrow> nat \<Rightarrow> bool \<Rightarrow> fs_st \<Rightarrow> fs_st option" where
  "rw_inode E ip writing st =
    do {
      k \<leftarrow> get_super (i_dev (inodes st ip)) (supers st);
      let st1 = upd_inode ip (\<lambda>r. r\<lparr>i_sp := k\<rparr>) st;
      let sp = supers st k;
      (s, n) \<leftarrow> (if s_inodes_per_block sp = 0 then None else fget E (i_dev (inodes st ip)) (inode_block sp (i_num (inodes st ip))) NORMAL st1);
      let s1 = (if writing \<and> i_update (inodes s ip) \<noteq> 0 then update_times E ip s else s);
      let s2 = (if writing \<and> \<not> s_rd_only sp then mark_dirty n s1 else s1);
      Some (upd_inode ip (\<lambda>r. r\<lparr>i_dirt := False\<rparr>) (fput E (Some n) INODE_BLOCK (icopy writing sp ip n s2)))
    }"

section \<open>The table\<close>

text \<open>The search of \<open>get_inode\<close> stops at the inode; the free slot is the last one it passed.\<close>

definition get_inode :: "io_env \<Rightarrow> int \<Rightarrow> nat \<Rightarrow> fs_st \<Rightarrow> (fs_st \<times> nat option) option" where
  "get_inode E dev numb st =
    (case find (\<lambda>i. i_count (inodes st i) > 0 \<and> i_dev (inodes st i) = dev \<and> i_num (inodes st i) = numb) [0 ..< NR_INODES] of
       Some i \<Rightarrow> Some (upd_inode i (\<lambda>r. r\<lparr>i_count := i_count r + 1\<rparr>) st, Some i)
     | None \<Rightarrow>
       (case find (\<lambda>i. \<not> i_count (inodes st i) > 0) (rev [0 ..< NR_INODES]) of
          None \<Rightarrow> Some (st\<lparr>err_code := EMOLNFILE\<rparr>, None)
        | Some xp \<Rightarrow>
          do {
            let st1 = upd_inode xp (\<lambda>r. r\<lparr>i_dev := dev, i_num := numb, i_count := 1\<rparr>) st;
            st2 \<leftarrow> (if dev \<noteq> NO_DEV then rw_inode E xp READING st1 else Some st1);
            Some (upd_inode xp (\<lambda>r. r\<lparr>i_update := 0\<rparr>) st2, Some xp)
          }))"

definition dup_inode :: "nat \<Rightarrow> fs_st \<Rightarrow> fs_st" where
  "dup_inode ip st = upd_inode ip (\<lambda>r. r\<lparr>i_count := i_count r + 1\<rparr>) st"

definition wipe_inode :: "nat \<Rightarrow> fs_st \<Rightarrow> fs_st" where
  "wipe_inode ip st = upd_inode ip (\<lambda>r. r\<lparr>i_size := 0, i_update := ATIME + CTIME + MTIME, i_dirt := True, i_zone := replicate V2_NR_TZONES NO_ZONE\<rparr>) st"

definition free_inode :: "io_env \<Rightarrow> int \<Rightarrow> nat \<Rightarrow> fs_st \<Rightarrow> fs_st option" where
  "free_inode E dev inumb st =
    do {
      k \<leftarrow> get_super dev (supers st);
      if inumb = 0 \<or> inumb > s_ninodes (supers st k) then Some st
      else do {
        c \<leftarrow> free_bit E (supers st k) IMAP inumb (fcache st);
        Some (upd_super k (\<lambda>sp. if inumb < s_isearch sp then sp\<lparr>s_isearch := inumb\<rparr> else sp) (st\<lparr>fcache := c\<rparr>))
      }
    }"

definition alloc_inode :: "io_env \<Rightarrow> int \<Rightarrow> nat \<Rightarrow> fs_st \<Rightarrow> (fs_st \<times> nat option) option" where
  "alloc_inode E dev bits st =
    do {
      k \<leftarrow> get_super dev (supers st);
      let sp = supers st k;
      if s_rd_only sp then Some (st\<lparr>err_code := EMOLROFS\<rparr>, None)
      else do {
        (c, b) \<leftarrow> alloc_bit E sp IMAP (s_isearch sp) (fcache st);
        if b = NO_BIT then Some (st\<lparr>fcache := c, err_code := EMOLNFILE\<rparr>, None)
        else do {
          (st1, rip) \<leftarrow> get_inode E NO_DEV b (upd_super k (\<lambda>sp. sp\<lparr>s_isearch := b\<rparr>) (st\<lparr>fcache := c\<rparr>));
          (case rip of
             None \<Rightarrow> do { c2 \<leftarrow> free_bit E (supers st1 k) IMAP b (fcache st1); Some (st1\<lparr>fcache := c2\<rparr>, None) }
           | Some ip \<Rightarrow>
             let p = fprocs st1 (cur_fp st1) in
             Some (wipe_inode ip (upd_inode ip (\<lambda>r. r\<lparr>i_mode := bits, i_nlinks := 0, i_uid := fp_effuid p, i_gid := fp_effgid p, i_dev := dev,
               i_ndzones := s_ndzones sp, i_nindirs := s_nindirs sp, i_sp := k\<rparr>) st1), Some ip))
        }
      }
    }"

section \<open>Truncation\<close>

definition nextblock :: "nat \<Rightarrow> nat \<Rightarrow> nat" where
  "nextblock pos zone_size = (pos div zone_size * zone_size + (if pos mod zone_size \<noteq> 0 then zone_size else 0)) mod 2 ^ 32"

definition zeroblock_range :: "io_env \<Rightarrow> nat \<Rightarrow> nat \<Rightarrow> nat \<Rightarrow> fs_st \<Rightarrow> fs_st option" where
  "zeroblock_range E ip pos len st =
    (if len = 0 then Some st
     else do {
       (s, b) \<leftarrow> read_map E ip pos st;
       if b = 0 then Some s
       else do {
         (t, n) \<leftarrow> fget E (i_dev (inodes s ip)) b NORMAL s;
         let bsize = s_block_size (inode_sp ip t);
         let off = pos mod bsize;
         if off + len > bsize then None
         else Some (fput E (Some n) FULL_DATA_BLOCK
           (t\<lparr>fcache := set_data n (\<lambda>k. if off \<le> k \<and> k < off + len then 0 else b_data (bufs (fcache t) n) k) (fcache t)\<rparr>))
       }
     })"

definition zeroblock_half :: "io_env \<Rightarrow> nat \<Rightarrow> nat \<Rightarrow> bool \<Rightarrow> fs_st \<Rightarrow> fs_st option" where
  "zeroblock_half E ip pos last_half st =
    (let off = pos mod s_block_size (inode_sp ip st)
     in if last_half then zeroblock_range E ip pos (s_block_size (inode_sp ip st) - off) st else zeroblock_range E ip (pos - off) off st)"

fun free_zones :: "io_env \<Rightarrow> nat \<Rightarrow> nat \<Rightarrow> nat list \<Rightarrow> fs_st \<Rightarrow> fs_st option" where
  "free_zones E ip zone_size [] st = Some st"
| "free_zones E ip zone_size (p # ps) st =
    do { (s, r) \<leftarrow> write_map E ip (p * zone_size mod 2 ^ 32) NO_ZONE True st; free_zones E ip zone_size ps s }"

definition freesp_inode :: "io_env \<Rightarrow> nat \<Rightarrow> nat \<Rightarrow> nat \<Rightarrow> fs_st \<Rightarrow> (fs_st \<times> int) option" where
  "freesp_inode E ip start end0 st =
    (let size = i_size (inodes st ip); sp = inode_sp ip st; zone_size = s_block_size sp * 2 ^ nat (s_log_zone_size sp); end1 = min end0 size in
     if end1 \<le> start then Some (st, EMOLINVAL)
     else do {
       s \<leftarrow> (if start div zone_size = (end1 - 1) div zone_size then zeroblock_range E ip start (end1 - start) st
            else do {
              t \<leftarrow> (if start mod zone_size \<noteq> 0 then zeroblock_half E ip start True st else Some st);
              if end1 mod zone_size \<noteq> 0 \<and> end1 < size then zeroblock_half E ip end1 False t else Some t
            });
       let e = end1 div zone_size + (if end1 = size \<and> end1 mod zone_size \<noteq> 0 then 1 else 0);
       s2 \<leftarrow> free_zones E ip zone_size [nextblock start zone_size div zone_size ..< e] s;
       Some (s2, 0)
     })"

definition truncate_inode :: "io_env \<Rightarrow> nat \<Rightarrow> nat \<Rightarrow> fs_st \<Rightarrow> (fs_st \<times> int) option" where
  "truncate_inode E ip newsize st =
    (let r = inodes st ip; sp = inode_sp ip st; file_type = i_type (i_mode r); waspipe = i_pipe r in
     if file_type = I_CHAR_SPECIAL \<or> file_type = I_BLOCK_SPECIAL then Some (st, EMOLINVAL)
     else if newsize > s_max_size sp then Some (st, EMOLFBIG)
     else if waspipe \<and> newsize \<noteq> 0 then Some (st, EMOLINVAL)
     else do {
       let st1 = (if waspipe then upd_inode ip (\<lambda>r. r\<lparr>i_size := V1_NR_DZONES * s_block_size sp\<rparr>) st else st);
       st2 \<leftarrow> (if newsize < i_size (inodes st1 ip) then map_option fst (freesp_inode E ip newsize (i_size (inodes st1 ip)) st1) else Some st1);
       let st3 = (if waspipe then wipe_inode ip st2 else upd_inode ip (\<lambda>r. r\<lparr>i_size := newsize\<rparr>) st2);
       Some (upd_inode ip (\<lambda>r. r\<lparr>i_dirt := True\<rparr>) st3, 0)
     })"

section \<open>Releasing an inode\<close>

definition put_inode :: "io_env \<Rightarrow> nat option \<Rightarrow> fs_st \<Rightarrow> fs_st option" where
  "put_inode E rip st =
    (case rip of None \<Rightarrow> Some st
     | Some ip \<Rightarrow>
       let st1 = upd_inode ip (\<lambda>r. r\<lparr>i_count := i_count r - 1\<rparr>) st in
       if i_count (inodes st1 ip) \<noteq> 0 then Some st1
       else do {
         st2 \<leftarrow> (if i_nlinks (inodes st1 ip) = 0
                then do {
                  (s, r) \<leftarrow> truncate_inode E ip 0 st1;
                  let s1 = upd_inode ip (\<lambda>r. r\<lparr>i_mode := I_NOT_ALLOC, i_dirt := True\<rparr>) s;
                  free_inode E (i_dev (inodes s1 ip)) (i_num (inodes s1 ip)) s1
                }
                else if i_pipe (inodes st1 ip) then map_option fst (truncate_inode E ip 0 st1)
                else Some st1);
         let st3 = upd_inode ip (\<lambda>r. r\<lparr>i_pipe := False\<rparr>) st2;
         if i_dirt (inodes st3 ip) then rw_inode E ip WRITING st3 else Some st3
       })"

section \<open>Writing everything back\<close>

fun sync_inodes :: "io_env \<Rightarrow> nat list \<Rightarrow> fs_st \<Rightarrow> fs_st option" where
  "sync_inodes E [] st = Some st"
| "sync_inodes E (ip # ips) st =
    do { s \<leftarrow> (if i_count (inodes st ip) > 0 \<and> i_dirt (inodes st ip) then rw_inode E ip WRITING st else Some st); sync_inodes E ips s }"

definition sync_bufs :: "io_env \<Rightarrow> cache \<Rightarrow> cache" where
  "sync_bufs E c = foldl (\<lambda>c n. if b_dev (bufs c n) \<noteq> NO_DEV \<and> b_dirt (bufs c n) then flushall E (b_dev (bufs c n)) c else c) c [0 ..< NR_BUFS]"

definition do_sync :: "io_env \<Rightarrow> fs_st \<Rightarrow> fs_st option" where
  "do_sync E st = do { s \<leftarrow> sync_inodes E [0 ..< NR_INODES] st; Some (s\<lparr>fcache := sync_bufs E (fcache s)\<rparr>) }"

section \<open>Reading a super block\<close>

text \<open>The block \<open>d\<close> is what \<open>dev_io\<close> put into \<open>sbbuf\<close> and \<open>r\<close> what it returned.  The copy also fills the fields that are only valid in memory;
  \<open>ptr\<close> stands for the inode that a word of the disk happens to point to.\<close>

definition raw_super :: "(32 word \<Rightarrow> nat option) \<Rightarrow> block \<Rightarrow> super_block" where
  "raw_super ptr d =
    \<lparr>s_ninodes = unat (get32 d 0), s_nzones = unat (get16 d 2), s_imap_blocks = sint (get16 d 3), s_zmap_blocks = sint (get16 d 4),
     s_firstdatazone = unat (get16 d 5), s_log_zone_size = sint (get16 d 6), s_max_size = unat (get32 d 4), s_zones = unat (get32 d 5),
     s_magic = sint (get16 d 12), s_block_size = unat (get16 d 14), s_isup = ptr (get32 d 8), s_imount = ptr (get32 d 9),
     s_inodes_per_block = unat (get32 d 10), s_dev = NO_DEV, s_rd_only = get32 d 12 \<noteq> 0, s_native = get32 d 13 \<noteq> 0, s_version = unat (get32 d 14),
     s_ndzones = unat (get32 d 15), s_nindirs = unat (get32 d 16), s_isearch = unat (get32 d 17), s_zsearch = unat (get32 d 18)\<rparr>"

definition swap_super :: "bool \<Rightarrow> super_block \<Rightarrow> super_block" where
  "swap_super native sp =
    sp\<lparr>s_ninodes := unat (conv4 native (word_of_nat (s_ninodes sp))), s_nzones := unat (conv16 native (word_of_nat (s_nzones sp))),
       s_imap_blocks := sint (conv16 native (word_of_int (s_imap_blocks sp))), s_zmap_blocks := sint (conv16 native (word_of_int (s_zmap_blocks sp))),
       s_firstdatazone := unat (conv16 native (word_of_nat (s_firstdatazone sp))),
       s_log_zone_size := sint (conv16 native (word_of_int (s_log_zone_size sp))), s_max_size := unat (conv4 native (word_of_nat (s_max_size sp))),
       s_zones := unat (conv4 native (word_of_nat (s_zones sp)))\<rparr>"

definition super_version :: "int \<Rightarrow> (nat \<times> bool) option" where
  "super_version magic =
    (if magic = 0x137F \<or> magic = 0x7F13 then Some (1, magic = 0x137F)
     else if magic = 0x2468 \<or> magic = 0x6824 then Some (2, magic = 0x2468)
     else if magic = 0x4d5a then Some (3, True) else None)"

definition sized_super :: "nat \<Rightarrow> super_block \<Rightarrow> super_block" where
  "sized_super version sp =
    (if version = 1 then sp\<lparr>s_block_size := 1024, s_zones := s_nzones sp, s_inodes_per_block := 32, s_ndzones := 7, s_nindirs := 512\<rparr>
     else
      let bsize = (if version = 2 then 1024 else s_block_size sp)
      in sp\<lparr>s_block_size := bsize, s_inodes_per_block := bsize div 64, s_ndzones := 7, s_nindirs := bsize div 4\<rparr>)"

definition read_super :: "(32 word \<Rightarrow> nat option) \<Rightarrow> int \<Rightarrow> block \<Rightarrow> nat \<Rightarrow> fs_st \<Rightarrow> (fs_st \<times> int) option" where
  "read_super ptr r d k st =
    (let dev = s_dev (supers st k); raw = raw_super ptr d in
     if dev = NO_DEV then None
     else if r \<noteq> 1024 then Some (st, EMOLINVAL)
     else
      (case super_version (s_magic raw) of None \<Rightarrow> Some (upd_super k (\<lambda>_. raw) st, EMOLINVAL)
       | Some (version, native) \<Rightarrow>
         let swapped = swap_super native raw; sp = sized_super version swapped;
             sp2 = sp\<lparr>s_isearch := 0, s_zsearch := 0, s_version := version, s_native := native\<rparr> in
         if version = 3 \<and> s_block_size sp < 1024 then Some (upd_super k (\<lambda>_. swapped) st, EMOLINVAL)
         else if s_block_size sp > 4096 \<or> s_block_size sp mod 512 \<noteq> 0 \<or> 76 > s_block_size sp \<or> s_block_size sp mod 64 \<noteq> 0 \<or> s_block_size sp mod 32 \<noteq> 0
         then Some (upd_super k (\<lambda>_. sp) st, EMOLINVAL)
         else if s_imap_blocks sp < 1 \<or> s_zmap_blocks sp < 1 \<or> s_ninodes sp < 1 \<or> s_zones sp < 1 \<or> s_log_zone_size sp < 0 \<or> s_log_zone_size sp > 4
         then Some (upd_super k (\<lambda>_. sp2) st, EMOLINVAL)
         else Some (upd_super k (\<lambda>_. sp2\<lparr>s_dev := dev\<rparr>) st, 0)))"

section \<open>Fields of a block\<close>

lemma get16_put32: "get16 (put32 d j w) i = (if i = 2 * j then ucast w else if i = 2 * j + 1 then ucast (drop_bit 16 w) else get16 d i)"
  by (auto simp: put32_def get16_put16)

lemma get32_put16: "2 * i \<noteq> j \<Longrightarrow> 2 * i + 1 \<noteq> j \<Longrightarrow> get32 (put16 d j w) i = get32 d i"
  by (auto simp: get32_def get16_put16)

lemma sint_fits: "- (2 ^ (LENGTH('a) - 1)) \<le> x \<Longrightarrow> x < 2 ^ (LENGTH('a) - 1) \<Longrightarrow> sint (word_of_int x :: 'a::len word) = x"
  by (simp add: sint_sbintrunc' signed_take_bit_int_eq_self)

lemma unat_fits: "x < 2 ^ LENGTH('a) \<Longrightarrow> unat (word_of_nat x :: 'a::len word) = x"
  by (simp add: unat_of_nat)

lemma gid_fits:
  assumes "- 128 \<le> x" "x < 128"
  shows "sint (ucast (word_of_int x :: 16 word) :: 8 word) = x"
proof -
  have "(ucast (word_of_int x :: 16 word) :: 8 word) = word_of_int x" by (simp add: bit_eq_iff bit_simps)
  then show ?thesis using sint_fits [where 'a = 8, of x] assms by simp
qed

text \<open>What the formats can hold.\<close>

definition fits2 :: "inode \<Rightarrow> bool" where
  "fits2 r \<longleftrightarrow> i_mode r < 2 ^ 16 \<and> - (2 ^ 15) \<le> i_nlinks r \<and> i_nlinks r < 2 ^ 15 \<and> - (2 ^ 15) \<le> i_uid r \<and> i_uid r < 2 ^ 15
     \<and> - 128 \<le> i_gid r \<and> i_gid r < 128 \<and> i_size r < 2 ^ 32 \<and> - (2 ^ 31) \<le> i_atime r \<and> i_atime r < 2 ^ 31 \<and> - (2 ^ 31) \<le> i_mtime r \<and> i_mtime r < 2 ^ 31
     \<and> - (2 ^ 31) \<le> i_ctime r \<and> i_ctime r < 2 ^ 31 \<and> length (i_zone r) = V2_NR_TZONES \<and> (\<forall>z \<in> set (i_zone r). z < 2 ^ 32)"

lemma get32_zones: "get32 (foldl (\<lambda>d i. put32 d (b + i) (f i)) d [0 ..< m]) j = (if b \<le> j \<and> j < b + m then f (j - b) else get32 d j)"
  by (induction m) (auto simp: get32_put32)

lemma get16_zones: "i < 2 * b \<or> 2 * (b + m) \<le> i \<Longrightarrow> get16 (foldl (\<lambda>d i. put32 d (b + i) (f i)) d [0 ..< m]) i = get16 d i"
  by (induction m) (auto simp: get16_put32)

lemmas ino_simps = get16_put16 get32_put32 get16_put32 get32_put16 get32_zones get16_zones

lemma new_write_outside: "i < 32 * k \<or> 32 * k + 32 \<le> i \<Longrightarrow> get16 (new_icopy_write norm r k d) i = get16 d i"
  by (auto simp: new_icopy_write_def Let_def ino_simps)

lemma new_write_fields:
  "get16 (new_icopy_write norm r k d) (32 * k) = conv16 norm (word_of_nat (i_mode r))"
  "get16 (new_icopy_write norm r k d) (32 * k + 2) = conv16 norm (word_of_int (i_uid r))"
  "get16 (new_icopy_write norm r k d) (32 * k + 1) = conv16 norm (word_of_int (i_nlinks r))"
  "get16 (new_icopy_write norm r k d) (32 * k + 3) = conv16 norm (word_of_int (i_gid r))"
  "get32 (new_icopy_write norm r k d) (16 * k + 2) = conv4 norm (word_of_nat (i_size r))"
  "get32 (new_icopy_write norm r k d) (16 * k + 3) = conv4 norm (word_of_int (i_atime r))"
  "get32 (new_icopy_write norm r k d) (16 * k + 5) = conv4 norm (word_of_int (i_ctime r))"
  "get32 (new_icopy_write norm r k d) (16 * k + 4) = conv4 norm (word_of_int (i_mtime r))"
  "i < V2_NR_TZONES \<Longrightarrow> get32 (new_icopy_write norm r k d) (16 * k + 6 + i) = conv4 norm (word_of_nat (i_zone r ! i))"
  by (simp_all add: new_icopy_write_def Let_def ino_simps)

lemma new_write_read:
  assumes "fits2 r"
  shows "new_icopy_read norm bs (new_icopy_write norm r k d) k r0 =
    r0\<lparr>i_mode := i_mode r, i_uid := i_uid r, i_nlinks := i_nlinks r, i_gid := i_gid r, i_size := i_size r, i_atime := i_atime r, i_ctime := i_ctime r,
       i_mtime := i_mtime r, i_ndzones := V2_NR_DZONES, i_nindirs := bs div 4, i_zone := i_zone r\<rparr>"
proof -
  have "map (\<lambda>i. unat (word_of_nat (i_zone r ! i) :: 32 word)) [0 ..< V2_NR_TZONES] = i_zone r"
    using assms by (auto simp: fits2_def unat_fits intro!: nth_equalityI)
  moreover have "map (\<lambda>i. unat (conv4 norm (get32 (new_icopy_write norm r k d) (16 * k + 6 + i)))) [0 ..< V2_NR_TZONES]
      = map (\<lambda>i. unat (word_of_nat (i_zone r ! i) :: 32 word)) [0 ..< V2_NR_TZONES]"
    by (rule map_cong [OF refl]) (simp add: new_write_fields(9))
  ultimately have "map (\<lambda>i. unat (conv4 norm (get32 (new_icopy_write norm r k d) (16 * k + 6 + i)))) [0 ..< V2_NR_TZONES] = i_zone r" by simp
  then show ?thesis using assms sint_fits [where 'a = 16] sint_fits [where 'a = 32] unat_fits [where 'a = 16] unat_fits [where 'a = 32]
    unfolding new_icopy_read_def new_write_fields conv16_conv16 conv4_conv4 by (simp add: fits2_def gid_fits)
qed

lemma new_read_outside:
  assumes "k \<noteq> k'"
  shows "new_icopy_read norm bs (new_icopy_write norm r k d) k' r0 = new_icopy_read norm bs d k' r0"
proof -
  have 16: "get16 (new_icopy_write norm r k d) (32 * k' + i) = get16 d (32 * k' + i)" if "i < 32" for i
    using assms that by (intro new_write_outside) linarith
  have 32: "get32 (new_icopy_write norm r k d) (16 * k' + i) = get32 d (16 * k' + i)" if "i < 16" for i
    using that 16 [of "2 * i"] 16 [of "2 * i + 1"] by (simp add: get32_def distrib_left mult.assoc [symmetric])
  have "map (\<lambda>i. unat (conv4 norm (get32 (new_icopy_write norm r k d) (16 * k' + 6 + i)))) [0 ..< V2_NR_TZONES]
      = map (\<lambda>i. unat (conv4 norm (get32 d (16 * k' + 6 + i)))) [0 ..< V2_NR_TZONES]"
    by (rule map_cong [OF refl]) (simp add: 32 add.assoc)
  then show ?thesis using 16 [of 0] 16 [of 1] 16 [of 2] 32 [of 2] by (simp add: new_icopy_read_def 16 32)
qed

text \<open>The same for V1, which keeps one time, a short link count and nine zones.\<close>

definition fits1 :: "inode \<Rightarrow> bool" where
  "fits1 r \<longleftrightarrow> i_mode r < 2 ^ 16 \<and> 0 \<le> i_nlinks r \<and> i_nlinks r < 256 \<and> - (2 ^ 15) \<le> i_uid r \<and> i_uid r < 2 ^ 15 \<and> - 128 \<le> i_gid r \<and> i_gid r < 128
     \<and> i_size r < 2 ^ 32 \<and> - (2 ^ 31) \<le> i_mtime r \<and> i_mtime r < 2 ^ 31 \<and> V1_NR_TZONES \<le> length (i_zone r) \<and> (\<forall>z \<in> set (i_zone r). z < 2 ^ 16)"

lemma put16_byte: "i \<noteq> 2 * j \<Longrightarrow> i \<noteq> 2 * j + 1 \<Longrightarrow> put16 d j w i = d i"
  by (simp add: put16_def)

lemma get16_byte: "i \<noteq> 2 * j \<Longrightarrow> i \<noteq> 2 * j + 1 \<Longrightarrow> get16 (d(i := b)) j = get16 d j"
  by (simp add: get16_def)

lemma get32_byte: "i < 4 * j \<or> 4 * j + 4 \<le> i \<Longrightarrow> get32 (d(i := b)) j = get32 d j"
  by (auto simp: get32_def get16_byte)

lemma get16_zones1: "get16 (foldl (\<lambda>d i. put16 d (b + i) (f i)) d [0 ..< m]) j = (if b \<le> j \<and> j < b + m then f (j - b) else get16 d j)"
  by (induction m) (auto simp: get16_put16)

lemma byte_zones1: "i < 2 * b \<Longrightarrow> foldl (\<lambda>d i. put16 d (b + i) (f i)) d [0 ..< m] i = d i"
  by (induction m) (auto simp: put16_byte)

lemma get32_zones1: "2 * j + 1 < b \<Longrightarrow> get32 (foldl (\<lambda>d i. put16 d (b + i) (f i)) d [0 ..< m]) j = get32 d j"
  by (simp add: get32_def get16_zones1)

lemmas ino1_simps = get16_put16 get32_put32 get16_put32 get32_put16 get16_byte get32_byte get16_zones1 get32_zones1 byte_zones1

lemma old_write_outside: "i < 16 * k \<or> 16 * k + 16 \<le> i \<Longrightarrow> get16 (old_icopy_write norm r k d) i = get16 d i"
  by (auto simp: old_icopy_write_def Let_def ino1_simps)

lemma old_write_fields:
  "get16 (old_icopy_write norm r k d) (16 * k) = conv16 norm (word_of_nat (i_mode r))"
  "get16 (old_icopy_write norm r k d) (16 * k + 1) = conv16 norm (word_of_int (i_uid r))"
  "get32 (old_icopy_write norm r k d) (8 * k + 1) = conv4 norm (word_of_nat (i_size r))"
  "get32 (old_icopy_write norm r k d) (8 * k + 2) = conv4 norm (word_of_int (i_mtime r))"
  "old_icopy_write norm r k d (32 * k + 13) = word_of_int (i_nlinks r)"
  "old_icopy_write norm r k d (32 * k + 12) = word_of_int (i_gid r)"
  "i < V1_NR_TZONES \<Longrightarrow> get16 (old_icopy_write norm r k d) (16 * k + 7 + i) = ucast (conv2 norm (word_of_nat (i_zone r ! i)))"
  by (simp_all add: old_icopy_write_def Let_def ino1_simps)

lemma old_write_read:
  assumes "fits1 r"
  shows "old_icopy_read norm (old_icopy_write norm r k d) k r0 =
    r0\<lparr>i_mode := i_mode r, i_uid := i_uid r, i_size := i_size r, i_mtime := i_mtime r, i_atime := i_mtime r, i_ctime := i_mtime r, i_nlinks := i_nlinks r,
       i_gid := i_gid r, i_ndzones := V1_NR_DZONES, i_nindirs := V1_INDIRECTS, i_zone := take V1_NR_TZONES (i_zone r) @ drop V1_NR_TZONES (i_zone r0)\<rparr>"
proof -
  have z: "unat (conv2 norm (ucast (ucast (conv2 norm (word_of_nat z)) :: 16 word))) = z" if "z < 2 ^ 16" for z :: nat
  proof -
    have "(ucast (word_of_nat z :: 32 word) :: 16 word) = word_of_nat z" by (simp add: bit_eq_iff bit_simps)
    then have "conv2 norm (ucast (ucast (conv2 norm (word_of_nat z)) :: 16 word)) = ucast (word_of_nat z :: 16 word)" by (simp add: conv2_ucast ucast_conv2)
    then show ?thesis using that by (simp add: unsigned_of_nat unsigned_ucast_eq take_bit_nat_eq_self)
  qed
  have "map (\<lambda>i. unat (conv2 norm (ucast (get16 (old_icopy_write norm r k d) (16 * k + 7 + i))))) [0 ..< V1_NR_TZONES] = take V1_NR_TZONES (i_zone r)"
    using assms by (auto simp: fits1_def old_write_fields(7) z intro!: nth_equalityI)
  moreover have "int (unat (word_of_int (i_nlinks r) :: 8 word)) = i_nlinks r" using assms by (simp add: fits1_def unsigned_of_int take_bit_int_eq_self)
  ultimately show ?thesis
    using assms sint_fits [where 'a = 8] sint_fits [where 'a = 16] sint_fits [where 'a = 32] unat_fits [where 'a = 16] unat_fits [where 'a = 32]
    unfolding old_icopy_read_def Let_def old_write_fields conv16_conv16 conv4_conv4 by (simp add: fits1_def)
qed

lemma old_read_outside:
  assumes "k \<noteq> k'"
  shows "old_icopy_read norm (old_icopy_write norm r k d) k' r0 = old_icopy_read norm d k' r0"
proof -
  let ?w = "old_icopy_write norm r k d"
  have 16: "get16 ?w (16 * k' + i) = get16 d (16 * k' + i)" if "i < 16" for i
    using assms that by (intro old_write_outside) linarith
  have 32: "get32 ?w (8 * k' + i) = get32 d (8 * k' + i)" if "i < 8" for i
    using that 16 [of "2 * i"] 16 [of "2 * i + 1"] by (simp add: get32_def distrib_left mult.assoc [symmetric])
  have "map (\<lambda>i. unat (conv2 norm (ucast (get16 ?w (16 * k' + 7 + i))))) [0 ..< V1_NR_TZONES] = map (\<lambda>i. unat (conv2 norm (ucast (get16 d (16 * k' + 7 + i))))) [0 ..< V1_NR_TZONES]"
    by (rule map_cong [OF refl]) (simp add: 16 add.assoc)
  moreover have "?w (32 * k' + 12) = d (32 * k' + 12)" "?w (32 * k' + 13) = d (32 * k' + 13)"
  proof -
    have g: "ucast (get16 x i) = x (2 * i)" "ucast (drop_bit 8 (get16 x i)) = x (2 * i + 1)" for x :: block and i
      by (rule bit_eqI; auto simp: bit_simps bit_get16 dest: bit_imp_le_length)+
    show "?w (32 * k' + 12) = d (32 * k' + 12)" using g(1) [of ?w "16 * k' + 6"] g(1) [of d "16 * k' + 6"] 16 [of 6] by simp
    have "2 * (16 * k' + 6) + 1 = 32 * k' + 13" "get16 ?w (16 * k' + 6) = get16 d (16 * k' + 6)" by (simp_all add: 16)
    then show "?w (32 * k' + 13) = d (32 * k' + 13)" using g(2) [of ?w "16 * k' + 6"] g(2) [of d "16 * k' + 6"] by metis
  qed
  ultimately show ?thesis using 16 [of 0] 16 [of 1] 32 [of 1] 32 [of 2] by (simp add: old_icopy_read_def Let_def)
qed

section \<open>Inodes through the cache\<close>

definition per_block :: "super_block \<Rightarrow> nat" where
  "per_block sp = (if s_version sp = 1 then V1_INODES_PER_BLOCK else s_block_size sp div 64)"

text \<open>A mounted file system whose sizes are those that \<open>read_super\<close> accepts.\<close>

definition sized_ok :: "super_block \<Rightarrow> bool" where
  "sized_ok sp \<longleftrightarrow> 1024 \<le> s_block_size sp \<and> s_block_size sp \<le> 4096 \<and> s_block_size sp mod 64 = 0 \<and> s_inodes_per_block sp = per_block sp
     \<and> (s_version sp = 1 \<longrightarrow> s_block_size sp = 1024 \<and> s_zones sp < 2 ^ 16) \<and> 1 \<le> s_imap_blocks sp \<and> s_imap_blocks sp < 2 ^ 15 \<and> 1 \<le> s_zmap_blocks sp
     \<and> s_zmap_blocks sp < 2 ^ 15 \<and> 0 \<le> s_log_zone_size sp \<and> s_log_zone_size sp \<le> 4 \<and> s_zones sp < 2 ^ 32 \<and> s_ndzones sp = 7
     \<and> s_nindirs sp * (if s_version sp = 1 then 2 else 4) = s_block_size sp"

definition ino_dev :: "io_env \<Rightarrow> fs_st \<Rightarrow> nat \<Rightarrow> bool" where
  "ino_dev E st k \<longleftrightarrow>
    (let sp = supers st k in io_ok E (fcache st) \<and> room (fcache st) \<and> get_super (s_dev sp) (supers st) = Some k \<and> s_dev sp \<noteq> NO_DEV
       \<and> io_bsize E (s_dev sp) = s_block_size sp \<and> sized_ok sp)"

definition ino_read :: "super_block \<Rightarrow> block \<Rightarrow> nat \<Rightarrow> inode \<Rightarrow> inode" where
  "ino_read sp d k r = (if s_version sp = 1 then old_icopy_read (s_native sp) d k r else new_icopy_read (s_native sp) (s_block_size sp) d k r)"

definition ino_write :: "super_block \<Rightarrow> inode \<Rightarrow> nat \<Rightarrow> block \<Rightarrow> block" where
  "ino_write sp r k d = (if s_version sp = 1 then old_icopy_write (s_native sp) r k d else new_icopy_write (s_native sp) r k d)"

text \<open>The inode \<open>num\<close> as the device has it, in the place of \<open>r\<close>.\<close>

definition disk_ino :: "super_block \<Rightarrow> (int \<Rightarrow> int \<Rightarrow> block) \<Rightarrow> nat \<Rightarrow> inode \<Rightarrow> inode" where
  "disk_ino sp I num r = ino_read sp (I (s_dev sp) (int (inode_block sp num))) (inode_place sp num) r"

lemma inode_place_less: "sized_ok sp \<Longrightarrow> inode_place sp num < per_block sp"
  by (auto simp: sized_ok_def inode_place_def per_block_def div_greater_zero_iff intro!: mod_less_divisor)

lemma per_block_bytes: "sized_ok sp \<Longrightarrow> k < per_block sp \<Longrightarrow> (k + 1) * (if s_version sp = 1 then 32 else 64) \<le> s_block_size sp"
  by (auto simp: sized_ok_def per_block_def)

lemma ino_read_clip:
  assumes "sized_ok sp" "dev \<noteq> NO_DEV" "io_bsize E dev = s_block_size sp" "k < per_block sp"
  shows "ino_read sp (clip E dev d) k r = ino_read sp d k r"
proof (cases "s_version sp = 1")
  case True
  have b: "32 * k + 32 \<le> io_bsize E dev" using per_block_bytes [OF assms(1,4)] assms(3) True by simp
  have 16: "get16 (clip E dev d) (16 * k + i) = get16 d (16 * k + i)" if "i < 16" for i using b that by (intro get16_clip assms(2)) simp
  have 32: "get32 (clip E dev d) (8 * k + i) = get32 d (8 * k + i)" if "i < 8" for i using b that by (intro get32_clip assms(2)) simp
  have "map (\<lambda>i. unat (conv2 (s_native sp) (ucast (get16 (clip E dev d) (16 * k + 7 + i))))) [0 ..< V1_NR_TZONES] = map (\<lambda>i. unat (conv2 (s_native sp) (ucast (get16 d (16 * k + 7 + i))))) [0 ..< V1_NR_TZONES]"
    by (rule map_cong [OF refl]) (simp add: 16 add.assoc)
  moreover have "clip E dev d (32 * k + 12) = d (32 * k + 12)" "clip E dev d (32 * k + 13) = d (32 * k + 13)" using b assms(2) by (simp_all add: clip_def)
  ultimately show ?thesis using True 16 [of 0] 16 [of 1] 32 [of 1] 32 [of 2] by (simp add: ino_read_def old_icopy_read_def Let_def)
next
  case False
  have b: "64 * k + 64 \<le> io_bsize E dev" using per_block_bytes [OF assms(1,4)] assms(3) False by simp
  have 16: "get16 (clip E dev d) (32 * k + i) = get16 d (32 * k + i)" if "i < 32" for i using b that by (intro get16_clip assms(2)) simp
  have 32: "get32 (clip E dev d) (16 * k + i) = get32 d (16 * k + i)" if "i < 16" for i using b that by (intro get32_clip assms(2)) simp
  have "map (\<lambda>i. unat (conv4 (s_native sp) (get32 (clip E dev d) (16 * k + 6 + i)))) [0 ..< V2_NR_TZONES] = map (\<lambda>i. unat (conv4 (s_native sp) (get32 d (16 * k + 6 + i)))) [0 ..< V2_NR_TZONES]"
    by (rule map_cong [OF refl]) (simp add: 32 add.assoc)
  then show ?thesis using False 16 [of 0] 16 [of 1] 16 [of 2] 32 [of 2] by (simp add: ino_read_def new_icopy_read_def 16 32)
qed

lemma ino_write_read:
  assumes "if s_version sp = 1 then fits1 r else fits2 r"
  shows "ino_read sp (ino_write sp r k d) k r0 =
    r0\<lparr>i_mode := i_mode r, i_uid := i_uid r, i_nlinks := i_nlinks r, i_gid := i_gid r, i_size := i_size r,
       i_atime := if s_version sp = 1 then i_mtime r else i_atime r, i_ctime := if s_version sp = 1 then i_mtime r else i_ctime r, i_mtime := i_mtime r,
       i_ndzones := 7, i_nindirs := if s_version sp = 1 then V1_INDIRECTS else s_block_size sp div 4,
       i_zone := if s_version sp = 1 then take V1_NR_TZONES (i_zone r) @ drop V1_NR_TZONES (i_zone r0) else i_zone r\<rparr>"
  using assms old_write_read new_write_read by (simp add: ino_read_def ino_write_def)

lemma ino_read_outside: "k \<noteq> k' \<Longrightarrow> ino_read sp (ino_write sp r k d) k' r0 = ino_read sp d k' r0"
  by (simp add: ino_read_def ino_write_def old_read_outside new_read_outside)

lemma ino_devD:
  assumes "ino_dev E st k" "sp = supers st k"
  shows "io_ok E (fcache st)" "room (fcache st)" "get_super (s_dev sp) (supers st) = Some k" "s_dev sp \<noteq> NO_DEV" "io_bsize E (s_dev sp) = s_block_size sp"
    "sized_ok sp" "s_inodes_per_block sp \<noteq> 0"
  using assms by (auto simp: ino_dev_def Let_def sized_ok_def per_block_def div_eq_0_iff split: if_splits)

lemma icopy_read: "icopy False sp ip n st = upd_inode ip (\<lambda>r. ino_read sp (buf_data (fcache st) n) (inode_place sp (i_num r)) r) st"
  by (simp add: icopy_def ino_read_def upd_inode_def buf_data_def Let_def)

lemma dirty_data: "upd_buf n (\<lambda>x. x\<lparr>b_data := d\<rparr>) (upd_buf n (\<lambda>x. x\<lparr>b_dirt := True\<rparr>) c) = set_data n d c"
  by (rule cache.equality) (simp_all add: set_data_def upd_buf_def fun_eq_iff)

lemma icopy_write:
  "icopy True sp ip n (mark_dirty n st) = st\<lparr>fcache := set_data n (ino_write sp (inodes st ip) (inode_place sp (i_num (inodes st ip))) (buf_data (fcache st) n)) (fcache st)\<rparr>"
  by (simp add: icopy_def ino_write_def buf_data_def mark_dirty_def dirty_data Let_def)

lemma rw_inode_read:
  assumes "ino_dev E st k" "sp = supers st k" "I = dev_image E (fcache st)" "i_dev (inodes st ip) = s_dev sp"
  obtains c where "rw_inode E ip READING st
      = Some (upd_inode ip (\<lambda>r. (disk_ino sp I (i_num r) (r\<lparr>i_sp := k\<rparr>))\<lparr>i_dirt := False\<rparr>) (st\<lparr>fcache := c\<rparr>))" "calm E (fcache st) c" "dev_image E c = I"
proof -
  note d = ino_devD [OF assms(1,2)]
  let ?b = "inode_block sp (i_num (inodes st ip))"
  obtain c1 n where g: "get_block E (s_dev sp) (int ?b) NORMAL (fcache st) = Some (c1, n)" "clip E (s_dev sp) (buf_data c1 n) = I (s_dev sp) (int ?b)"
    "cached c1 (s_dev sp) (int ?b) n" "\<And>e. calm E (fcache st) (put_block E (Some n) INODE_BLOCK (set_data n e c1))"
    "\<And>e. dev_image E (put_block E (Some n) INODE_BLOCK (set_data n e c1)) = I(s_dev sp := (I (s_dev sp))(int ?b := clip E (s_dev sp) e))"
    "calm E (fcache st) (put_block E (Some n) INODE_BLOCK c1)" "dev_image E (put_block E (Some n) INODE_BLOCK c1) = I"
    using bc.changed [OF d(1,2,4), of "int ?b" INODE_BLOCK] unfolding assms(3) by blast
  have rd: "ino_read sp (buf_data c1 n) (inode_place sp m) r = ino_read sp (I (s_dev sp) (int ?b)) (inode_place sp m) r" for m r
    using ino_read_clip [OF d(6,4,5) inode_place_less [OF d(6)]] g(2) by metis
  have "rw_inode E ip READING st = Some (upd_inode ip (\<lambda>r. (disk_ino sp I (i_num r) (r\<lparr>i_sp := k\<rparr>))\<lparr>i_dirt := False\<rparr>)
      (st\<lparr>fcache := put_block E (Some n) INODE_BLOCK c1\<rparr>))"
    using d(3,7) assms(2,4) g(1) by (simp add: rw_inode_def fget_def icopy_read upd_inode_def fput_def disk_ino_def Let_def rd [unfolded assms(2)])
  then show thesis using that g(6,7) by blast
qed

text \<open>The inode that is written, with the times brought up to date.\<close>

definition timed :: "io_env \<Rightarrow> inode \<Rightarrow> inode" where
  "timed E r = (if i_update r \<noteq> 0 then r\<lparr>i_atime := if bit (i_update r) 1 then io_now E else i_atime r, i_ctime := if bit (i_update r) 2 then io_now E else i_ctime r,
     i_mtime := if bit (i_update r) 3 then io_now E else i_mtime r, i_update := 0\<rparr> else r)"

lemma rw_inode_write:
  assumes "ino_dev E st k" "sp = supers st k" "I = dev_image E (fcache st)" "i_dev (inodes st ip) = s_dev sp" "\<not> s_rd_only sp"
    "r' = timed E ((inodes st ip)\<lparr>i_sp := k\<rparr>)" "b = inode_block sp (i_num (inodes st ip))" "p = inode_place sp (i_num (inodes st ip))"
  obtains c d where "rw_inode E ip WRITING st = Some (upd_inode ip (\<lambda>_. r'\<lparr>i_dirt := False\<rparr>) (st\<lparr>fcache := c\<rparr>))" "calm E (fcache st) c"
    "clip E (s_dev sp) d = I (s_dev sp) (int b)" "dev_image E c = img_put I (s_dev sp) b (clip E (s_dev sp) (ino_write sp r' p d))"
proof -
  note d = ino_devD [OF assms(1,2)]
  obtain c1 n where g: "get_block E (s_dev sp) (int b) NORMAL (fcache st) = Some (c1, n)" "clip E (s_dev sp) (buf_data c1 n) = I (s_dev sp) (int b)"
    "cached c1 (s_dev sp) (int b) n" "\<And>e. calm E (fcache st) (put_block E (Some n) INODE_BLOCK (set_data n e c1))"
    "\<And>e. dev_image E (put_block E (Some n) INODE_BLOCK (set_data n e c1)) = I(s_dev sp := (I (s_dev sp))(int b := clip E (s_dev sp) e))"
    "calm E (fcache st) (put_block E (Some n) INODE_BLOCK c1)" "dev_image E (put_block E (Some n) INODE_BLOCK c1) = I"
    using bc.changed [OF d(1,2,4), of "int b" INODE_BLOCK] unfolding assms(3) by blast
  let ?c = "put_block E (Some n) INODE_BLOCK (set_data n (ino_write sp r' p (buf_data c1 n)) c1)"
  have num: "i_num r' = i_num (inodes st ip)" by (simp add: assms(6) timed_def)
  have "rw_inode E ip WRITING st = Some (upd_inode ip (\<lambda>_. r'\<lparr>i_dirt := False\<rparr>) (st\<lparr>fcache := ?c\<rparr>))"
  proof (cases "i_update (inodes st ip) = 0")
    case True
    then show ?thesis using d(3,7) assms(2,4-8) g(1) num
      by (simp add: rw_inode_def fget_def icopy_write upd_inode_def fput_def Let_def timed_def inode_sp_def)
  next
    case False
    then show ?thesis using d(3,7) assms(2,4-8) g(1) num
      by (simp add: rw_inode_def fget_def icopy_write upd_inode_def fput_def Let_def timed_def inode_sp_def update_times_def)
  qed
  then show thesis using g(2,4,5) by (intro that [of ?c "buf_data c1 n"]) (simp_all add: img_put_def)
qed

section \<open>What is written is read again\<close>

lemma inode_block_sized:
  assumes "sized_ok sp" "1 \<le> n" "n < 2 ^ 32"
  shows "int (inode_block sp n) = int ((n - 1) div per_block sp) + (s_imap_blocks sp + s_zmap_blocks sp + 2)" "inode_place sp n = (n - 1) mod per_block sp"
proof -
  have m: "(n + 2 ^ 32 - 1) mod 2 ^ 32 = n - 1" using assms(2,3) mod_add_self2 [of "n - 1" "2 ^ 32"] by (simp add: algebra_simps)
  have "16 \<le> per_block sp" using assms(1) div_le_mono [of 1024 "s_block_size sp" 64] by (auto simp: sized_ok_def per_block_def)
  then have "(n - 1) div per_block sp \<le> (n - 1) div 16" by (intro div_le_mono2) auto
  moreover have "(n - 1) div 16 < 2 ^ 28" using assms(2,3) by (simp add: less_mult_imp_div_less)
  ultimately have "(n - 1) div per_block sp < 2 ^ 28" by linarith
  then show "int (inode_block sp n) = int ((n - 1) div per_block sp) + (s_imap_blocks sp + s_zmap_blocks sp + 2)"
    using assms(1) m by (simp add: inode_block_def sized_ok_def)
  show "inode_place sp n = (n - 1) mod per_block sp" by (simp only: inode_place_def m per_block_def)
qed

text \<open>Different inodes have different places on the device.\<close>

lemma inode_slot_inj:
  assumes "sized_ok sp" "1 \<le> n" "n < 2 ^ 32" "1 \<le> m" "m < 2 ^ 32" "inode_block sp n = inode_block sp m" "inode_place sp n = inode_place sp m"
  shows "n = m"
proof -
  have "(n - 1) div per_block sp = (m - 1) div per_block sp" "(n - 1) mod per_block sp = (m - 1) mod per_block sp"
    using assms(6,7) inode_block_sized [OF assms(1-3)] inode_block_sized [OF assms(1,4,5)] by simp_all
  then have "n - 1 = m - 1" by (metis div_mult_mod_eq)
  then show ?thesis using assms(2,4) by simp
qed

lemma disk_ino_put:
  assumes "sized_ok sp" "s_dev sp \<noteq> NO_DEV" "io_bsize E (s_dev sp) = s_block_size sp" "1 \<le> n" "n < 2 ^ 32" "1 \<le> m" "m < 2 ^ 32"
    "clip E (s_dev sp) d = I (s_dev sp) (int (inode_block sp n))" "b = inode_block sp n" "p = inode_place sp n"
  shows "disk_ino sp (img_put I (s_dev sp) b (clip E (s_dev sp) (ino_write sp r p d))) m r0
    = (if m = n then ino_read sp (ino_write sp r p d) p r0 else disk_ino sp I m r0)"
proof -
  note rc = ino_read_clip [OF assms(1-3) inode_place_less [OF assms(1)]]
  show ?thesis
  proof (cases "inode_block sp m = inode_block sp n")
    case True
    have "ino_read sp d (inode_place sp m) r0 = ino_read sp (I (s_dev sp) (int (inode_block sp n))) (inode_place sp m) r0" using rc assms(8) by metis
    moreover have "m \<noteq> n \<Longrightarrow> inode_place sp n \<noteq> inode_place sp m" using inode_slot_inj [OF assms(1,6,7,4,5) True] by metis
    ultimately show ?thesis using True rc assms(9,10) ino_read_outside by (auto simp: disk_ino_def img_put_def)
  next
    case False
    then show ?thesis using assms(9) by (auto simp: disk_ino_def img_put_def)
  qed
qed

text \<open>The fields that both the table and the device have, with what the V1 format keeps of them.\<close>

definition same_inode :: "super_block \<Rightarrow> inode \<Rightarrow> inode \<Rightarrow> bool" where
  "same_inode sp r x \<longleftrightarrow> i_mode x = i_mode r \<and> i_uid x = i_uid r \<and> i_gid x = i_gid r \<and> i_nlinks x = i_nlinks r \<and> i_size x = i_size r \<and> i_mtime x = i_mtime r
     \<and> (if s_version sp = 1 then i_atime x = i_mtime r \<and> i_ctime x = i_mtime r \<and> take V1_NR_TZONES (i_zone x) = take V1_NR_TZONES (i_zone r)
        else i_atime x = i_atime r \<and> i_ctime x = i_ctime r \<and> i_zone x = i_zone r)"

definition storable :: "super_block \<Rightarrow> inode \<Rightarrow> bool" where
  "storable sp r \<longleftrightarrow> (if s_version sp = 1 then fits1 r else fits2 r)"

lemma ino_same: "storable sp r \<Longrightarrow> same_inode sp r (ino_read sp (ino_write sp r k d) k r0)"
  by (subst ino_write_read) (auto simp: storable_def same_inode_def fits1_def)

lemma calm_dev: "ino_dev E st k \<Longrightarrow> calm E (fcache st) c \<Longrightarrow> supers s = supers st \<Longrightarrow> fcache s = c \<Longrightarrow> ino_dev E s k"
  using calm_ok by (auto simp: ino_dev_def Let_def)

section \<open>The slots of the table\<close>

text \<open>Which inodes the table has, and how often each is in use.  Reading, writing and truncating change neither that nor the tables of processes,
  open files and locks.\<close>

definition slots :: "fs_st \<Rightarrow> nat \<Rightarrow> int \<times> nat \<times> int" where
  "slots st j = (i_dev (inodes st j), i_num (inodes st j), i_count (inodes st j))"

definition frame where
  "frame st = (slots st, fprocs st, filps st, cur_fp st, file_locks st, nr_locks st, reviving st, susp_count st, fs_out st)"

lemma frame_simps [simp]:
  "frame (st\<lparr>fcache := c\<rparr>) = frame st" "frame (st\<lparr>supers := p\<rparr>) = frame st" "frame (st\<lparr>err_code := e\<rparr>) = frame st" "frame (mark_dirty n st) = frame st"
  "frame (fput E bp ty st) = frame st" "frame (fzero n st) = frame st" "frame (set_zone ip k z st) = frame st"
  "frame (upd_super k g st) = frame st"
  "frame (st\<lparr>inodes := (inodes st)(ip := (inodes st ip)\<lparr>i_dirt := dd\<rparr>)\<rparr>) = frame st"
  by (auto simp: frame_def slots_def fun_eq_iff mark_dirty_def fput_def fzero_def set_zone_def upd_super_def)

lemma frame_upd: "i_dev (g (inodes st ip)) = i_dev (inodes st ip) \<Longrightarrow> i_num (g (inodes st ip)) = i_num (inodes st ip) \<Longrightarrow>
    i_count (g (inodes st ip)) = i_count (inodes st ip) \<Longrightarrow> frame (upd_inode ip g st) = frame st"
  by (auto simp: frame_def slots_def fun_eq_iff upd_inode_def)

lemma frame_fget: "fget E dev b m st = Some (s, n) \<Longrightarrow> frame s = frame st"
  by (auto simp: fget_def)

lemma frame_alloc_zone: "alloc_zone E dev z st = Some (s, y) \<Longrightarrow> frame s = frame st"
  by (auto simp: alloc_zone_def Let_def split: option.splits prod.splits if_splits)

lemma frame_free_zone: "free_zone E dev z st = Some s \<Longrightarrow> frame s = frame st"
  by (auto simp: free_zone_def Let_def split: option.splits prod.splits if_splits)

lemma frame_wr_indir: "wr_indir bp i z st = Some s \<Longrightarrow> frame s = frame st"
  by (auto simp: wr_indir_def split: option.splits)

lemmas frame_dests = frame_fget frame_alloc_zone frame_free_zone frame_wr_indir

lemma frame_rm_first: "rm_first E ip ex st = Some (s, z) \<Longrightarrow> frame s = frame st"
  by (auto simp: rm_first_def Let_def split: if_splits Option.bind_splits dest!: frame_dests)

lemma frame_rm_last: "rm_last E ip p z ex st = Some (s, b) \<Longrightarrow> frame s = frame st"
  by (auto simp: rm_last_def Let_def split: if_splits Option.bind_splits dest!: frame_dests)

lemma frame_read_map: "read_map E ip p st = Some (s, b) \<Longrightarrow> frame s = frame st"
  by (auto simp: read_map_def Let_def split: if_splits Option.bind_splits dest!: frame_rm_first frame_rm_last)

lemma frame_wm_double:
  "wm_double E ip ex w st = Some (Inl (s, c)) \<Longrightarrow> frame s = frame st" "wm_double E ip ex w st = Some (Inr (s, x)) \<Longrightarrow> frame s = frame st"
  by (auto simp: wm_double_def Let_def split: if_splits Option.bind_splits dest!: frame_dests)

lemma frame_wm_entry: "wm_entry E ip single i ex bp z y w new st = Some (s, x) \<Longrightarrow> frame s = frame st"
  by (auto simp: wm_entry_def Let_def split: if_splits Option.bind_splits dest!: frame_dests)

lemma frame_wm_indirect: "wm_indirect E ip single i ex bp z1 z2 y w st = Some (s, x) \<Longrightarrow> frame s = frame st"
  by (auto simp: wm_indirect_def Let_def split: if_splits Option.bind_splits option.splits dest!: frame_dests frame_wm_entry)

lemma frame_write_map: "write_map E ip p z w st = Some (s, x) \<Longrightarrow> frame s = frame st"
  by (auto simp: write_map_def Let_def split: if_splits Option.bind_splits sum.splits dest!: frame_dests frame_wm_double frame_wm_indirect)

lemma frame_zeroblock_range: "zeroblock_range E ip p len st = Some s \<Longrightarrow> frame s = frame st"
  by (auto simp: zeroblock_range_def Let_def split: if_splits Option.bind_splits dest!: frame_dests frame_read_map)

lemma frame_free_zones: "free_zones E ip z ps st = Some s \<Longrightarrow> frame s = frame st"
  by (induction ps arbitrary: st) (auto split: Option.bind_splits dest!: frame_write_map)

lemma frame_freesp_inode: "freesp_inode E ip a b st = Some (s, x) \<Longrightarrow> frame s = frame st"
  by (auto simp: freesp_inode_def zeroblock_half_def Let_def split: if_splits Option.bind_splits dest!: frame_zeroblock_range frame_free_zones)

lemma frame_truncate_inode: "truncate_inode E ip z st = Some (s, x) \<Longrightarrow> frame s = frame st"
  by (auto simp: truncate_inode_def wipe_inode_def frame_upd Let_def split: if_splits Option.bind_splits dest!: frame_freesp_inode)

lemma frame_free_inode: "free_inode E dev n st = Some s \<Longrightarrow> frame s = frame st"
  by (auto simp: free_inode_def split: if_splits Option.bind_splits)

lemma frame_icopy: "frame (icopy w sp ip n st) = frame st"
  by (auto simp: icopy_def frame_upd old_icopy_read_def new_icopy_read_def Let_def)

lemma frame_rw_inode: "rw_inode E ip w st = Some s \<Longrightarrow> frame s = frame st"
  by (auto simp: rw_inode_def update_times_def frame_upd frame_icopy Let_def split: if_splits Option.bind_splits dest!: frame_dests)

lemma frame_count:
  "frame (upd_inode ip (\<lambda>r. r\<lparr>i_count := i_count r - k\<rparr>) st)
    = ((slots st)(ip := (fst (slots st ip), fst (snd (slots st ip)), snd (snd (slots st ip)) - k)), snd (frame st))"
  by (auto simp: frame_def slots_def fun_eq_iff upd_inode_def)

lemma slots_count:
  "slots (upd_inode ip (\<lambda>r. r\<lparr>i_count := i_count r + k\<rparr>) st) = (slots st)(ip := (fst (slots st ip), fst (snd (slots st ip)), snd (snd (slots st ip)) + k))"
  by (auto simp: slots_def fun_eq_iff upd_inode_def)

lemma frame_put_inode: "put_inode E (Some ip) st = Some s \<Longrightarrow>
    frame s = ((slots st)(ip := (fst (slots st ip), fst (snd (slots st ip)), snd (snd (slots st ip)) - 1)), snd (frame st))"
  by (auto simp: put_inode_def frame_count frame_upd Let_def split: if_splits Option.bind_splits
      dest!: frame_truncate_inode frame_free_inode frame_rw_inode)

lemma frame_sync_inodes: "sync_inodes E ips st = Some s \<Longrightarrow> frame s = frame st"
  by (induction ips arbitrary: st) (auto split: if_splits Option.bind_splits dest!: frame_rw_inode)

lemma frame_do_sync: "do_sync E st = Some s \<Longrightarrow> frame s = frame st"
  by (auto simp: do_sync_def split: Option.bind_splits dest!: frame_sync_inodes)

lemma slots_frame: "frame s = frame st \<Longrightarrow> slots s = slots st"
  by (simp add: frame_def)

lemmas slots_rw_inode = frame_rw_inode [THEN slots_frame] and slots_do_sync = frame_do_sync [THEN slots_frame]

lemma slots_upd: "i_dev (g (inodes st ip)) = i_dev (inodes st ip) \<Longrightarrow> i_num (g (inodes st ip)) = i_num (inodes st ip) \<Longrightarrow>
    i_count (g (inodes st ip)) = i_count (inodes st ip) \<Longrightarrow> slots (upd_inode ip g st) = slots st"
  by (auto simp: slots_def fun_eq_iff upd_inode_def)

lemma slots_err [simp]: "slots (st\<lparr>err_code := e\<rparr>) = slots st"
  by (simp add: slots_def fun_eq_iff)

lemma slots_put_inode: "put_inode E (Some ip) st = Some s \<Longrightarrow> slots s = (slots st)(ip := (fst (slots st ip), fst (snd (slots st ip)), snd (snd (slots st ip)) - 1))"
  using frame_put_inode by (simp add: frame_def)

text \<open>The slots that are in use, and that no two of them are for one inode.\<close>

definition in_use :: "fs_st \<Rightarrow> nat \<Rightarrow> bool" where
  "in_use st j \<longleftrightarrow> j < NR_INODES \<and> snd (snd (slots st j)) > 0"

definition tab_unique :: "fs_st \<Rightarrow> bool" where
  "tab_unique st \<longleftrightarrow> (\<forall>i j. in_use st i \<and> in_use st j \<and> fst (slots st i) = fst (slots st j) \<and> fst (snd (slots st i)) = fst (snd (slots st j)) \<longrightarrow> i = j)"

lemma tab_unique_less:
  assumes "tab_unique st" "\<And>j. in_use s j \<Longrightarrow> in_use st j" "\<And>j. fst (slots s j) = fst (slots st j) \<and> fst (snd (slots s j)) = fst (snd (slots st j))"
  shows "tab_unique s"
  using assms unfolding tab_unique_def by metis

lemma get_inode_cases:
  assumes "get_inode E dev numb st = Some (s, x)"
  obtains (found) i where "in_use st i" "i_dev (inodes st i) = dev" "i_num (inodes st i) = numb" "x = Some i" "s = upd_inode i (\<lambda>r. r\<lparr>i_count := i_count r + 1\<rparr>) st"
    | (full) "\<And>i. i < NR_INODES \<Longrightarrow> in_use st i \<and> \<not> (i_dev (inodes st i) = dev \<and> i_num (inodes st i) = numb)" "x = None" "s = st\<lparr>err_code := EMOLNFILE\<rparr>"
    | (fresh) i where "i < NR_INODES" "\<not> in_use st i" "\<And>j. in_use st j \<Longrightarrow> \<not> (i_dev (inodes st j) = dev \<and> i_num (inodes st j) = numb)" "x = Some i"
        "slots s = (slots st)(i := (dev, numb, 1))"
proof -
  let ?P = "\<lambda>i. i_count (inodes st i) > 0 \<and> i_dev (inodes st i) = dev \<and> i_num (inodes st i) = numb"
  show thesis
  proof (cases "find ?P [0 ..< NR_INODES]")
    case (Some i)
    then have i: "i \<in> set [0 ..< NR_INODES]" "?P i" unfolding find_Some_iff by (metis nth_mem)+
    have "s = upd_inode i (\<lambda>r. r\<lparr>i_count := i_count r + 1\<rparr>) st" "x = Some i" using assms Some by (simp_all add: get_inode_def)
    then show thesis using i by (intro found [of i]) (auto simp: in_use_def slots_def)
  next
    case n: None
    then have no: "\<not> ?P i" if "i < NR_INODES" for i using that by (auto simp: find_None_iff)
    show thesis
    proof (cases "find (\<lambda>i. \<not> i_count (inodes st i) > 0) (rev [0 ..< NR_INODES])")
      case None
      then have "\<And>i. i < NR_INODES \<Longrightarrow> i_count (inodes st i) > 0" by (auto simp: find_None_iff)
      then show thesis using assms n None no by (intro full) (auto simp: get_inode_def in_use_def slots_def)
    next
      case (Some i)
      then have i: "i \<in> set (rev [0 ..< NR_INODES])" "\<not> i_count (inodes st i) > 0" unfolding find_Some_iff by (metis nth_mem)+
      let ?s = "upd_inode i (\<lambda>r. r\<lparr>i_dev := dev, i_num := numb, i_count := 1\<rparr>) st"
      have "slots ?s = (slots st)(i := (dev, numb, 1))" by (auto simp: slots_def upd_inode_def fun_eq_iff)
      then have "slots s = (slots st)(i := (dev, numb, 1))" "x = Some i"
        using assms n Some by (auto simp: get_inode_def slots_upd Let_def split: if_splits Option.bind_splits dest!: slots_rw_inode)
      then show thesis using i no by (intro fresh [of i]) (auto simp: in_use_def slots_def)
    qed
  qed
qed

end
