(* ===== verification/Fs_Props.thy ===== *)
theory Fs_Props
  imports Fs_Write
begin

text \<open>
  What the parts of the file server achieve together: the cache as a store of blocks, flushing, the bit maps, the zones of a file; and two
  places where the server misbehaves.  The witnesses use a freshly mounted, empty file system of 100 zones with blocks of 1024 bytes.
\<close>

section \<open>A mounted file system\<close>

definition fs_E :: io_env where
  "fs_E = \<lparr>io_bsize = (\<lambda>_. 1024), io_rw = (\<lambda>_ _ _. 1024), io_vec = (\<lambda>_ _ _ j. (j, 0)), io_now = 1000\<rparr>"

definition fs_buf :: bufr where
  "fs_buf = \<lparr>b_data = (\<lambda>_. 0), b_next = None, b_prev = None, b_hash = None, b_blocknr = 0, b_dev = 0, b_dirt = False, b_count = 0\<rparr>"

definition fs_disk :: "int \<Rightarrow> int \<Rightarrow> block" where
  "fs_disk dev b k = (if dev = 3 \<and> b = 3 \<and> k = 0 then 1 else 0)"

definition fs_pool :: "(int \<Rightarrow> int \<Rightarrow> block) \<Rightarrow> cache" where
  "fs_pool dk = buf_pool \<lparr>bufs = (\<lambda>_. fs_buf), buf_hash = (\<lambda>_. None), lru_front = None, lru_rear = None, bufs_in_use = 0, rdwt_err = 0, disk = dk\<rparr>"

definition fs_cache :: cache where
  "fs_cache = fs_pool fs_disk"

definition fs_sp :: super_block where
  "fs_sp = \<lparr>s_ninodes = 16, s_nzones = 0, s_imap_blocks = 1, s_zmap_blocks = 1, s_firstdatazone = 6, s_log_zone_size = 0, s_max_size = 1000000,
     s_zones = 100, s_magic = 0x4d5a, s_block_size = 1024, s_isup = None, s_imount = None, s_inodes_per_block = 16, s_dev = 3, s_rd_only = False, s_native = True, s_version = 3,
     s_ndzones = 7, s_nindirs = 256, s_isearch = 0, s_zsearch = 0\<rparr>"

definition fs_ino :: inode where
  "fs_ino = \<lparr>i_mode = 0, i_nlinks = 1, i_uid = 0, i_gid = 0, i_size = 0, i_atime = 0, i_mtime = 0, i_ctime = 0, i_zone = replicate 10 0,
     i_dev = 3, i_num = 1, i_count = 1, i_ndzones = 7, i_nindirs = 256, i_sp = 0, i_dirt = False, i_pipe = False, i_mount = False, i_seek = False, i_update = 0\<rparr>"

definition fs_proc :: fproc where
  "fs_proc = \<lparr>fp_umask = 0xFFFF, fp_workdir = 5, fp_rootdir = 5, fp_filp = (\<lambda>_. None), fp_filp_inuse = (\<lambda>_. False), fp_realuid = 0, fp_effuid = 0,
     fp_realgid = 0, fp_effgid = 0, fp_fd = - 1, fp_buffer = 0, fp_nbytes = 0, fp_suspended = False, fp_revived = False, fp_task = 0, fp_pid = 77,
     fp_cloexec = 0, fp_endpoint = 30\<rparr>"

definition fs_filp :: filp where
  "fs_filp = \<lparr>filp_mode = 0, filp_flags = 0, filp_count = 0, filp_ino = 0, filp_pos = 0\<rparr>"

definition fs_lock :: file_lock where
  "fs_lock = \<lparr>lock_type = 0, lock_pid = 0, lock_inode = 0, lock_first = 0, lock_last = 0\<rparr>"

definition fs_mounted :: "(int \<Rightarrow> int \<Rightarrow> block) \<Rightarrow> fs_st" where
  "fs_mounted dk = \<lparr>fcache = fs_pool dk, supers = (\<lambda>_. fs_sp), inodes = (\<lambda>_. fs_ino), err_code = 0, fprocs = (\<lambda>_. fs_proc), filps = (\<lambda>_. fs_filp), cur_fp = 30,
     file_locks = replicate 8 fs_lock, nr_locks = 0, reviving = 0, susp_count = 0, fs_out = []\<rparr>"

definition fs_new :: fs_st where
  "fs_new = fs_mounted fs_disk"

lemma fs_good: "io_good fs_E"
  by (simp add: io_good_def fs_E_def)

lemma fs_works: "io_works fs_E"
  by (simp add: io_works_def fs_E_def)

lemma fs_clean: "few_dirty dev (fs_pool dk)"
  by (simp add: few_dirty_def dirty_bufs_def fs_pool_def buf_pool_def fs_buf_def)

lemma fs_pool_ok: "cache_ok fs_E (fs_pool dk)" "room (fs_pool dk)"
  unfolding fs_pool_def room_def by (rule buf_pool_ok; simp add: fs_buf_def)+

lemma fs_image: "dev \<noteq> NO_DEV \<Longrightarrow> dev_image fs_E (fs_pool dk) dev b = clip fs_E dev (dk dev b)"
proof -
  assume d: "dev \<noteq> NO_DEV"
  have "\<not> cached (fs_pool dk) dev b n" for n using d buf_pool_buf by (simp add: cached_def fs_pool_def)
  moreover have "disk (fs_pool dk) = dk" by (simp add: fs_pool_def buf_pool_def)
  ultimately show ?thesis by (simp add: dev_image_def view_uncached)
qed

lemma fs_two_free: "two_free (fs_pool dk)"
proof -
  have "users (fs_pool dk) n = 0" for n by (simp add: users_def fs_pool_def buf_pool_def fs_buf_def)
  then show ?thesis unfolding two_free_def by (intro exI [of _ 0] exI [of _ 1]) (simp add: NR_BUFS_def)
qed

lemma fs_map_ok: "map_ok fs_E ZMAP fs_sp" "map_start ZMAP fs_sp = 3" "bit_blocks ZMAP fs_sp = 1" "bits_per_block fs_sp = 8192" "map_bits ZMAP fs_sp = 95"
  by (simp_all add: map_ok_def fs_E_def fs_sp_def map_start_def bit_blocks_def bits_per_block_def bitmap_chunks_def map_bits_def)

text \<open>The bits of the zone map on the disk.\<close>

lemma fs_on_map: "b < 95 \<Longrightarrow> on_map ZMAP fs_sp (dev_image fs_E (fs_pool dk)) b \<longleftrightarrow> bit (get16 (dk 3 3) (b div 16)) (b mod 16)"
proof -
  assume b: "b < 95"
  then have "b div 16 < 6" by (simp add: less_mult_imp_div_less)
  then have "get16 (clip fs_E 3 (dk 3 3)) (b div 16) = get16 (dk 3 3) (b div 16)" by (simp add: get16_clip fs_E_def)
  moreover have "dev_image fs_E (fs_pool dk) 3 3 = clip fs_E 3 (dk 3 3)" by (rule fs_image) simp
  moreover have "s_dev fs_sp = 3" "s_native fs_sp" by (simp_all add: fs_sp_def)
  ultimately show ?thesis using fs_map_ok(2,4) b by (simp add: on_map_def map_bit_def bit_conv16 del: One_nat_def)
qed

lemma fs_zone_used: "data_zone fs_sp y \<Longrightarrow> zone_used fs_sp (dev_image fs_E (fs_pool dk)) y \<longleftrightarrow> bit (get16 (dk 3 3) ((y - 5) div 16)) ((y - 5) mod 16)"
proof -
  assume "data_zone fs_sp y"
  then have "y + 1 - s_firstdatazone fs_sp = y - 5" "y - 5 < 95" by (auto simp: data_zone_def fs_sp_def)
  then show ?thesis using fs_on_map [of "y - 5" dk] by (simp add: zone_used_def del: One_nat_def)
qed

lemma fs_zone_st: "bit (dk 3 3 0) 0 \<Longrightarrow> zone_st fs_E (fs_mounted dk) 0"
proof -
  assume "bit (dk 3 3 0) 0"
  then have "on_map ZMAP fs_sp (dev_image fs_E (fs_pool dk)) NO_BIT" using fs_on_map [of 0] by (simp add: bit_get16)
  moreover have "get_super 3 (\<lambda>_. fs_sp) = Some 0" by (simp add: get_super_def NR_SUPERS_def fs_sp_def upt_rec)
  moreover have "zones_ok fs_E fs_sp" using fs_map_ok(1) by (simp add: zones_ok_def fs_sp_def)
  ultimately show ?thesis using fs_pool_ok fs_good by (simp add: zone_st_def fs_mounted_def io_ok_def fs_sp_def)
qed

lemma fs_disk_bit: "bit (fs_disk 3 3 0) 0"
  by (simp add: fs_disk_def)

lemma fs_mounted_sel: "inode_sp ip (fs_mounted dk) = fs_sp" "inodes (fs_mounted dk) ip = fs_ino" "fcache (fs_mounted dk) = fs_pool dk" "supers (fs_mounted dk) i = fs_sp"
  by (simp_all add: inode_sp_def fs_mounted_def)

lemma fs_file_ok: "bit (dk 3 3 0) 0 \<Longrightarrow> file_ok fs_E (fs_mounted dk) ip"
proof -
  assume b: "bit (dk 3 3 0) 0"
  have "inode_sp ip (fs_mounted dk) = fs_sp" "inodes (fs_mounted dk) ip = fs_ino" by (simp_all add: fs_mounted_sel)
  moreover have "i_sp fs_ino = 0" "i_dev fs_ino = s_dev fs_sp" "length (i_zone fs_ino) = i_ndzones fs_ino + 3" "0 < i_nindirs fs_ino"
    "i_nindirs fs_ino * (if s_version fs_sp = 1 then 2 else 4) \<le> s_block_size fs_sp" "s_block_size fs_sp \<le> 4096"
    "s_zones fs_sp * 2 ^ nat (s_log_zone_size fs_sp) \<le> 2 ^ 32" "s_version fs_sp = 1 \<longrightarrow> s_zones fs_sp \<le> 2 ^ 16"
    "int (s_firstdatazone fs_sp) * 2 ^ nat (s_log_zone_size fs_sp) = 6"
    by (simp_all add: fs_ino_def fs_sp_def)
  ultimately show ?thesis using fs_zone_st [of dk] b fs_map_ok(2,3) by (simp add: file_ok_def Let_def del: One_nat_def)
qed

lemma fs_tree_ok: "tree_ok sp I fs_ino"
  by (simp add: tree_ok_def islot_def fs_ino_def nth_Cons' less_2_cases_iff)

section \<open>The cache\<close>

text \<open>C17: The buffer cache refines a store of blocks: when not all buffers are in use, the devices work and no device has more than the 64 dirty
  blocks that a vector can hold, \<open>get_block\<close> returns a buffer with the contents of the block, whatever buffers it has to flush and to rename for
  that; when the user puts new data into it and releases it, whatever the hint to \<open>put_block\<close>, exactly this block has changed for every later
  reader, and the chains and the other users' blocks are in order.\<close>

theorem cache_refines_store:
  assumes "cache_ok E c" "io_works E" "\<And>dv. few_dirty dv c" "room c" "dev \<noteq> NO_DEV"
  shows "\<exists>c1 n. get_block E dev b NORMAL c = Some (c1, n) \<and> clip E dev (buf_data c1 n) = dev_image E c dev b \<and>
    (\<forall>d. dev_image E (put_block E (Some n) ty (set_data n d c1)) = (dev_image E c)(dev := (dev_image E c dev)(b := clip E dev d))
       \<and> settled (cache_ok E) room users cached c (put_block E (Some n) ty (set_data n d c1)))"
proof -
  let ?E = "short_io E"
  have "io_ok ?E c" using assms(1,2) by (simp add: io_ok_def short_io_good)
  then obtain c1 n where g: "get_block ?E dev b NORMAL c = Some (c1, n)" "clip ?E dev (buf_data c1 n) = dev_image ?E c dev b"
    "cached c1 dev b n" "\<And>d. calm ?E c (put_block ?E (Some n) ty (set_data n d c1))"
    "\<And>d. dev_image ?E (put_block ?E (Some n) ty (set_data n d c1)) = (dev_image ?E c)(dev := (dev_image ?E c dev)(b := clip ?E dev d))"
    "calm ?E c (put_block ?E (Some n) ty c1)" "dev_image ?E (put_block ?E (Some n) ty c1) = dev_image ?E c"
    using bc.changed [OF _ assms(4,5), of ?E b ty] by blast
  then show ?thesis using get_block_short [OF assms(2,3)] by (simp add: settled_def io_ok_def)
qed

theorem cache_refines_store_witness:
  "\<exists>c1 n. get_block fs_E 3 7 NORMAL fs_cache = Some (c1, n) \<and> clip fs_E 3 (buf_data c1 n) = dev_image fs_E fs_cache 3 7 \<and>
    (\<forall>d. dev_image fs_E (put_block fs_E (Some n) 3 (set_data n d c1))
         = (dev_image fs_E fs_cache)(3 := (dev_image fs_E fs_cache 3)(7 := clip fs_E 3 d))
       \<and> settled (cache_ok fs_E) room users cached fs_cache (put_block fs_E (Some n) 3 (set_data n d c1)))"
  by (rule cache_refines_store) (use fs_pool_ok fs_works fs_clean in \<open>simp_all add: fs_cache_def\<close>)

text \<open>C37: Flushing a device that works brings the disk up to date: when every transfer succeeds and the device has no more than the 64 dirty
  blocks that a vector can hold, after \<open>flushall\<close> the blocks on the disk are what the readers of the device see through the cache, for every block,
  cached or not, in whatever order the Shell sort and the vectors of \<open>rw_scattered\<close> write them; what the readers see does not change.\<close>

theorem flushall_writes_back:
  assumes "cache_ok E st" "io_works E" "few_dirty dev st" "dev \<noteq> NO_DEV" "k < io_bsize E dev"
  shows "disk (flushall E dev st) dev b k = view st dev b k \<and> view (flushall E dev st) dev b k = view st dev b k"
proof -
  have ok: "one_copy st" "clean_ok E st" using assms(1) by (simp_all add: cache_ok_def)
  obtain q where q: "flushall E dev st = foldl (flush_one E) st q" "set q = {n. n < NR_BUFS \<and> b_dirt (bufs st n) \<and> b_dev (bufs st n) = dev}"
    using flushall_writes_short [of dev st E] assms(2,3) by (auto simp: io_works_def few_dirty_def dirty_bufs_def)
  define t where "t = flushall E dev st"
  have "set q \<subseteq> {..< NR_BUFS}" using q(2) by auto
  note f = foldl_flush_one [OF ok this, folded q(1) t_def]
  have v: "view t dev b k = view st dev b k" using f assms(4,5) by (simp add: same_view_def)
  have "disk t dev b k = view t dev b k"
  proof (cases "\<exists>n. cached t dev b n")
    case True
    then obtain n where n: "cached t dev b n" by blast
    have b: "bufs t n = (bufs st n)\<lparr>b_dirt := b_dirt (bufs st n) \<and> n \<notin> set q\<rparr>" using f by blast
    have "\<not> b_dirt (bufs t n)" using n q(2) by (auto simp: cached_def b)
    then show ?thesis using f n assms(4,5) view_cached [OF _ assms(4) n] by (auto simp: clean_ok_def)
  next
    case False
    then show ?thesis by (simp add: view_uncached)
  qed
  then show ?thesis using v by (simp add: t_def)
qed

text \<open>Getting a block of a cache without dirty buffers leaves none.\<close>

lemma clean_get_block:
  assumes "get_block E dev b NORMAL st = Some (s, n)" "\<And>m. \<not> b_dirt (bufs st m)"
  shows "\<not> b_dirt (bufs s m)"
proof -
  have rm: "\<not> b_dirt (bufs (rm_lru n st) m)" for n m
    using assms(2) rm_lru_core(1) [of st m n] by (simp add: same_core_def)
  have un: "\<not> b_dirt (bufs t m)" if "unhash n (rm_lru n st) = Some t" for n t m
    using off_hashD [OF unhash_off [OF that]] rm [of n m] by simp
  show ?thesis
    using assms(1) assms(2) rm un
    by (auto simp: get_block_def take_buf_def fill_buf_def rw_block_def read_in_def upd_buf_def Let_def split: option.splits if_splits)
qed

theorem flushall_writes_back_witness:
  "\<exists>c n. get_block fs_E 3 7 NORMAL fs_cache = Some (c, n) \<and> b_dirt (bufs (set_data n (\<lambda>_. 9) c) n)
    \<and> disk (set_data n (\<lambda>_. 9) c) 3 7 5 = 0 \<and> disk (flushall fs_E 3 (set_data n (\<lambda>_. 9) c)) 3 7 5 = 9"
proof -
  obtain c n where c: "get_block fs_E 3 7 NORMAL fs_cache = Some (c, n)" "cache_ok fs_E c" "cached c 3 7 n"
    "b_data (bufs c n) 5 = view fs_cache 3 7 5"
  proof (rule get_block_reads [of fs_E fs_cache 3 7])
    show "cache_ok fs_E fs_cache" "lru_front fs_cache \<noteq> None" using fs_pool_ok [of fs_disk] by (simp_all add: fs_cache_def room_def)
  qed (use fs_good in \<open>simp_all add: fs_E_def\<close>)
  let ?s = "set_data n (\<lambda>_. 9) c"
  have clean: "\<not> b_dirt (bufs fs_cache m)" for m by (simp add: fs_cache_def fs_pool_def buf_pool_def fs_buf_def)
  note d = clean_get_block [OF c(1) clean]
  have "set (dirty_bufs 3 ?s) \<subseteq> {n}" "distinct (dirty_bufs 3 ?s)"
    using d by (auto simp: dirty_bufs_def set_data_def upd_buf_def split: if_splits)
  then have "length (dirty_bufs 3 ?s) \<le> 1"
    using card_mono [of "{n}" "set (dirty_bufs 3 ?s)"] distinct_card [of "dirty_bufs 3 ?s"] by simp
  then have "few_dirty 3 ?s" by (simp add: few_dirty_def NR_IOREQS_def)
  then have "disk (flushall fs_E 3 ?s) 3 7 5 = view ?s 3 7 5"
    using flushall_writes_back [of fs_E ?s 3 5 7] set_data_ok(1) [OF c(2,3)] fs_works by (simp add: fs_E_def)
  moreover have "view ?s 3 7 5 = 9" using set_data_ok(2) [OF c(2,3)] by simp
  moreover have "disk c 3 7 5 = 0"
  proof -
    have "\<not> cached fs_cache 3 7 m" for m using buf_pool_buf by (simp add: cached_def fs_cache_def fs_pool_def)
    then have "view fs_cache 3 7 5 = 0" by (simp add: view_uncached) (simp add: fs_cache_def fs_pool_def buf_pool_def fs_disk_def)
    then have "b_data (bufs c n) 5 = 0" using c(4) by simp
    moreover have "b_data (bufs c n) 5 = disk c 3 7 5"
      using c(2) [unfolded cache_ok_def clean_ok_def, THEN conjunct2, THEN conjunct2, rule_format, of 3 7 n 5] c(3) d by (simp add: fs_E_def)
    ultimately show ?thesis by simp
  qed
  then have "disk ?s 3 7 5 = 0" "b_dirt (bufs ?s n)" by (simp_all add: set_data_def upd_buf_def)
  ultimately show ?thesis using c(1) by (intro exI conjI) simp_all
qed

section \<open>Bit maps and zones\<close>

text \<open>C19: \<open>alloc_bit\<close> finds a free bit when there is one: whatever the origin of the search, on a map whose bit 0 is taken it returns
  \<open>NO_BIT\<close> exactly when every bit of the map is taken, and otherwise a bit of the map that was free; that bit is taken afterwards, and all
  others are as they were.\<close>

theorem alloc_bit_complete:
  assumes "map_ok E mp sp" "io_ok E c" "room c" "\<not> s_rd_only sp" "on_map mp sp (dev_image E c) NO_BIT"
  shows "\<exists>c' r. alloc_bit E sp mp origin c = Some (c', r) \<and> io_ok E c' \<and> room c'
    \<and> (r = NO_BIT \<longleftrightarrow> (\<forall>b. b < map_bits mp sp \<longrightarrow> on_map mp sp (dev_image E c) b))
    \<and> (r \<noteq> NO_BIT \<longrightarrow> r < map_bits mp sp \<and> \<not> on_map mp sp (dev_image E c) r)
    \<and> (\<forall>b. on_map mp sp (dev_image E c') b = (b = r \<or> on_map mp sp (dev_image E c) b))"
proof -
  obtain c' r where a: "alloc_bit E sp mp origin c = Some (c', r)" "calm E c c'"
    "if r = NO_BIT then dev_image E c' = dev_image E c \<and> (\<forall>b. b < map_bits mp sp \<longrightarrow> on_map mp sp (dev_image E c) b)
     else r < map_bits mp sp \<and> \<not> on_map mp sp (dev_image E c) r \<and> dev_image E c' = upd_map mp sp (dev_image E c) r True"
    using alloc_bit_spec [OF assms, of origin] by blast
  show ?thesis
  proof (cases "r = NO_BIT")
    case True
    then show ?thesis using a calm_ok [OF a(2)] assms(5) by auto
  next
    case False
    then show ?thesis using a calm_ok [OF a(2)] on_upd_map [OF bits_per_block_pos [OF assms(1)]] by auto
  qed
qed

theorem alloc_bit_complete_witness:
  "\<exists>c' r. alloc_bit fs_E fs_sp ZMAP 40 fs_cache = Some (c', r) \<and> io_ok fs_E c' \<and> room c'
    \<and> (r = NO_BIT \<longleftrightarrow> (\<forall>b. b < map_bits ZMAP fs_sp \<longrightarrow> on_map ZMAP fs_sp (dev_image fs_E fs_cache) b))
    \<and> (r \<noteq> NO_BIT \<longrightarrow> r < map_bits ZMAP fs_sp \<and> \<not> on_map ZMAP fs_sp (dev_image fs_E fs_cache) r)
    \<and> (\<forall>b. on_map ZMAP fs_sp (dev_image fs_E c') b = (b = r \<or> on_map ZMAP fs_sp (dev_image fs_E fs_cache) b))"
  by (rule alloc_bit_complete [OF fs_map_ok(1)]) (use fs_pool_ok fs_good fs_on_map [of 0 fs_disk] fs_disk_bit in \<open>simp_all add: io_ok_def fs_cache_def fs_sp_def bit_get16\<close>)

text \<open>A zone that is allocated and freed again leaves the device as it was, block by block: \<open>free_zone\<close> accepts every zone that
  \<open>alloc_zone\<close> returned and undoes it.\<close>

theorem zone_alloc_free:
  assumes "zone_st E st i" "alloc_zone E (s_dev (supers st i)) z st = Some (st', r)" "r \<noteq> NO_ZONE"
  shows "\<exists>st2. free_zone E (s_dev (supers st i)) r st' = Some st2 \<and> zone_st E st2 i \<and> dev_image E (fcache st2) = dev_image E (fcache st)"
proof -
  let ?sp = "supers st i" and ?I = "dev_image E (fcache st)" and ?b = "r + 1 - s_firstdatazone (supers st i)"
  have a: "calm E (fcache st) (fcache st')" "data_zone ?sp r" "\<not> zone_used ?sp ?I r" "dev_image E (fcache st') = upd_map ZMAP ?sp ?I ?b True"
    "\<exists>zs. supers st' = (supers st)(i := ?sp\<lparr>s_zsearch := zs\<rparr>)"
    using alloc_zone_spec [OF assms(1) refl refl, of z] assms(2,3) by auto
  then obtain zs where zs: "supers st' = (supers st)(i := ?sp\<lparr>s_zsearch := zs\<rparr>)" by blast
  have b: "?b \<noteq> NO_BIT" using a(2) by (auto simp: data_zone_def)
  have z: "zone_st E st' i" using zone_st_step [OF assms(1) calm_ok [OF a(1)] zs a(4) b] .
  have sp: "supers st' i = ?sp\<lparr>s_zsearch := zs\<rparr>" using zs by simp
  have "0 < bits_per_block ?sp" using assms(1) bits_per_block_pos unfolding zone_st_def zones_ok_def by blast
  then have "zone_used (supers st' i) (dev_image E (fcache st')) r" using sp a(4) by (simp add: zone_used_def on_upd_map del: One_nat_def)
  then obtain st2 where "free_zone E (s_dev ?sp) r st' = Some st2" "zone_st E st2 i"
    "dev_image E (fcache st2) = upd_map ZMAP (supers st' i) (dev_image E (fcache st')) (r + 1 - s_firstdatazone (supers st' i)) False"
    using free_zone_spec(2) [OF z refl refl, of r] sp a(2) by auto
  moreover have "upd_map ZMAP ?sp (upd_map ZMAP ?sp ?I ?b True) ?b False = ?I" using a(3) by (intro upd_map_back) (simp add: zone_used_def)
  ultimately show ?thesis using sp a(4) by (simp del: One_nat_def)
qed

lemma fs_alloc: "\<exists>st' r. alloc_zone fs_E 3 0 fs_new = Some (st', r) \<and> r \<noteq> NO_ZONE"
proof -
  have d: "data_zone fs_sp 50" by (simp add: data_zone_def fs_sp_def)
  moreover have "\<not> zone_used fs_sp (dev_image fs_E (fs_pool fs_disk)) 50" by (simp add: fs_zone_used [OF d] bit_get16 fs_disk_def)
  moreover obtain st' r where "alloc_zone fs_E 3 0 fs_new = Some (st', r)"
    "r = NO_ZONE \<longrightarrow> (\<forall>y. data_zone fs_sp y \<longrightarrow> zone_used fs_sp (dev_image fs_E (fs_pool fs_disk)) y)"
    using alloc_zone_spec [OF fs_zone_st [of fs_disk, OF fs_disk_bit] refl refl, of 0] by (auto simp: fs_mounted_sel fs_new_def fs_sp_def split: if_splits)
  ultimately show ?thesis by blast
qed

theorem zone_alloc_free_witness:
  "\<exists>st' r st2. alloc_zone fs_E 3 0 fs_new = Some (st', r) \<and> r \<noteq> NO_ZONE \<and> free_zone fs_E 3 r st' = Some st2
    \<and> dev_image fs_E (fcache st2) = dev_image fs_E (fcache fs_new)"
proof -
  obtain st' r where a: "alloc_zone fs_E 3 0 fs_new = Some (st', r)" "r \<noteq> NO_ZONE" using fs_alloc by blast
  have d: "s_dev (supers fs_new 0) = 3" by (simp add: fs_new_def fs_mounted_sel fs_sp_def)
  show ?thesis using zone_alloc_free [OF fs_zone_st [of fs_disk, OF fs_disk_bit, folded fs_new_def] a(1) [folded d] a(2)] a d by auto
qed

section \<open>The zones of a file\<close>

text \<open>\<open>read_map\<close> computes the block of a file position from the zone numbers in the inode and in the indirect blocks as they are on the
  device, for every position that the double indirect block can reach: it returns that block, or \<open>NO_BLOCK\<close> for a hole, changes neither the
  device nor the inode, and stops the server exactly when an entry on its way is not a zone of the device.\<close>

theorem read_map_lookup:
  assumes "file_ok E st ip" "sp = inode_sp ip st" "r = inodes st ip" "I = dev_image E (fcache st)"
    and "zone_of sp position < i_ndzones r + i_nindirs r + i_nindirs r * i_nindirs r"
  shows "if legal_path sp I r (zone_of sp position)
    then \<exists>c. read_map E ip position st = Some (st\<lparr>fcache := c\<rparr>, block_of sp position (zone_ref sp I r (zone_of sp position))) \<and> dev_image E c = I
    else read_map E ip position st = None"
  using read_map_spec [OF assms(1-4) refl assms(5)] assms(4) by (auto simp: same_fs_def split: if_splits)

lemma fs_names: "inode_sp ip fs_new = fs_sp" "inodes fs_new ip = fs_ino" "fcache fs_new = fs_cache"
  by (simp_all add: fs_new_def fs_mounted_sel fs_cache_def)

lemma fs_new_ok: "file_ok fs_E fs_new ip"
  unfolding fs_new_def by (rule fs_file_ok [of fs_disk, OF fs_disk_bit])

lemma fs_range: "zone_of fs_sp 9000000 = 8789" "i_ndzones fs_ino = 7" "i_nindirs fs_ino = 256" "i_zone fs_ino = replicate 10 0"
  by (simp_all add: zone_of_def fs_sp_def fs_ino_def)

lemma fs_hole: "zone_ref fs_sp I fs_ino 8789 = 0" "legal_path fs_sp I fs_ino 8789"
  by (simp_all add: legal_path_def legal_zone_def zone_ref_def ind_zone_def fs_range nth_Cons')

theorem read_map_lookup_witness: "\<exists>c. read_map fs_E 5 9000000 fs_new = Some (fs_new\<lparr>fcache := c\<rparr>, 0) \<and> dev_image fs_E c = dev_image fs_E fs_cache"
  using read_map_lookup [OF fs_new_ok [of 5] refl refl refl, of 9000000] by (simp add: fs_names fs_range fs_hole block_of_def)

text \<open>C18: \<open>write_map\<close> refines the update of one entry of the map from file zones to device zones: whatever indirect blocks it has to create
  for it, afterwards the zone of the position is the new one and every other zone of the file is the one it was, so that \<open>read_map\<close> finds the
  new zone; when the device is full it returns the error and no zone of the file has changed.\<close>

theorem write_map_updates:
  assumes "file_ok E st ip" "sp = inode_sp ip st" "r = inodes st ip" "I = dev_image E (fcache st)" "tree_ok sp I r" "two_free (fcache st)"
    and "data_zone sp x" "zone_of sp position < i_ndzones r + i_nindirs r + i_nindirs r * i_nindirs r"
  shows "\<exists>s code. write_map E ip position x False st = Some (s, code) \<and> file_ok E s ip \<and> (code = 0 \<or> code = ENOSPC)
    \<and> tree_ok sp (dev_image E (fcache s)) (inodes s ip)
    \<and> (\<forall>zone. zone < i_ndzones r + i_nindirs r + i_nindirs r * i_nindirs r \<longrightarrow>
         zone_ref sp (dev_image E (fcache s)) (inodes s ip) zone = (if code = 0 \<and> zone = zone_of sp position then x else zone_ref sp I r zone))
    \<and> (code = 0 \<longrightarrow> (\<exists>t. read_map E ip position s = Some (t, block_of sp position x)))"
proof -
  let ?z = "zone_of sp position"
  have fit: "fits sp x" using data_zone_fits file_ok_bs(2) [OF assms(1,2)] assms(7) by blast
  obtain s code where w: "write_map E ip position x False st = Some (s, code)" "file_ok E s ip" "code = 0 \<or> code = ENOSPC"
    "sp_like sp (inode_sp ip s)" "tree_ok sp (dev_image E (fcache s)) (inodes s ip)" "same_range r (inodes s ip)"
    "\<forall>zone. zone < i_ndzones r + i_nindirs r + i_nindirs r * i_nindirs r \<longrightarrow>
         zone_ref sp (dev_image E (fcache s)) (inodes s ip) zone = (if code = 0 \<and> zone = ?z then x else zone_ref sp I r zone)"
    using write_map_spec [OF assms(1-6) fit assms(8)] by blast
  let ?r = "inodes s ip" and ?I = "dev_image E (fcache s)" and ?sp = "inode_sp ip s"
  note lk = sp_like_ind [OF w(4)] and lt = sp_like_tree [OF w(4)]
  have rg: "i_ndzones ?r = i_ndzones r" "i_nindirs ?r = i_nindirs r" using w(6) by (simp_all add: same_range_def)
  have "\<exists>t. read_map E ip position s = Some (t, block_of sp position x)" if "code = 0"
  proof -
    have x: "zone_ref ?sp ?I ?r ?z = x" using w(7) assms(8) that lt by simp
    have "legal_zone sp (ind_zone sp ?I ?r (?z - i_ndzones ?r))" if "\<not> ?z < i_ndzones ?r"
    proof -
      have "ind_zone sp ?I ?r (?z - i_ndzones ?r) = islot sp ?I ?r (slot_of ?r (?z - i_ndzones ?r))" by (simp add: ind_zone_def islot_def slot_of_def)
      moreover have "slot_of ?r (?z - i_ndzones ?r) < i_nindirs ?r + 2"
        using slot_of_less [of ?r "?z - i_ndzones ?r"] file_okD(7) [OF w(2) refl refl] assms(8) rg that by simp
      ultimately show ?thesis using tree_legal [OF w(5)] by simp
    qed
    moreover have "ind_zone ?sp = ind_zone sp" by (simp add: ind_zone_def fun_eq_iff lt)
    ultimately have "legal_path ?sp ?I ?r (zone_of ?sp position)" using x assms(7) lk by (auto simp: legal_path_def legal_zone_def)
    then obtain t where "read_map E ip position s = Some (t, block_of ?sp position (zone_ref ?sp ?I ?r (zone_of ?sp position)))"
      using read_map_spec [OF w(2) refl refl refl refl, of position] assms(8) rg lk by auto
    moreover have "block_of ?sp = block_of sp" using w(4) by (auto simp: sp_like_def block_of_def fun_eq_iff zone_of_def zone_block_def)
    ultimately show ?thesis using x lk by simp
  qed
  then show ?thesis using w by blast
qed

theorem write_map_updates_witness:
  "\<exists>s code. write_map fs_E 5 9000000 50 False fs_new = Some (s, code) \<and> (code = 0 \<longrightarrow> (\<exists>t. read_map fs_E 5 9000000 s = Some (t, 50)))"
proof -
  have b: "block_of fs_sp 9000000 50 = 50" by (simp add: block_of_def zone_block_def zone_of_def fs_sp_def)
  have d: "data_zone fs_sp 50" by (simp add: data_zone_def fs_sp_def)
  have r: "zone_of fs_sp 9000000 < i_ndzones fs_ino + i_nindirs fs_ino + i_nindirs fs_ino * i_nindirs fs_ino" by (simp add: fs_range)
  note w = write_map_updates [OF fs_new_ok [of 5] refl refl refl, unfolded fs_names, OF fs_tree_ok fs_two_free [of fs_disk, folded fs_cache_def] d r]
  show ?thesis using w by (auto simp: b)
qed

section \<open>Errors\<close>

text \<open>On a device whose zones are all taken, \<open>new_block\<close> returns no buffer for a position without a zone among the direct ones and leaves
  28 in \<open>err_code\<close>: the \<open>ENOSPC\<close> of the C library, a positive number, where every other code of the server is negative.\<close>

theorem full_device_code:
  assumes "file_ok E st ip" "sp = inode_sp ip st" "zone_of sp position < i_ndzones (inodes st ip)" "i_zone (inodes st ip) ! zone_of sp position = NO_ZONE"
    and "\<forall>y. data_zone sp y \<longrightarrow> zone_used sp (dev_image E (fcache st)) y"
  shows "\<exists>s. new_block E ip position st = Some (s, None) \<and> err_code s = 28"
proof -
  let ?r = "inodes st ip"
  define z where "z = (if i_zone ?r ! 0 = NO_ZONE then s_firstdatazone sp else i_zone ?r ! 0)"
  have m: "read_map E ip position st = Some (st, 0)" using assms(2-4) by (simp add: read_map_def Let_def block_of_def)
  obtain s y where "alloc_zone E (i_dev ?r) z st = Some (s, y)" "y = NO_ZONE \<Longrightarrow> err_code s = ENOSPC"
    "y \<noteq> NO_ZONE \<Longrightarrow> data_zone sp y \<and> \<not> zone_used sp (dev_image E (fcache st)) y"
    using alloc_file [OF assms(1,2) refl refl, of z] by metis
  then have "alloc_zone E (i_dev ?r) z st = Some (s, NO_ZONE)" "err_code s = 28" using assms(5) by auto
  then show ?thesis using m assms(2) by (cases "i_zone ?r ! 0 = NO_ZONE") (simp_all add: new_block_def Let_def z_def)
qed

definition fs_full :: fs_st where
  "fs_full = fs_mounted (\<lambda>_ _ _. - 1)"

theorem full_device_code_witness: "\<exists>s. new_block fs_E 5 2048 fs_full = Some (s, None) \<and> err_code s = 28"
proof -
  have "zone_used fs_sp (dev_image fs_E (fs_pool (\<lambda>_ _ _. - 1))) y" if "data_zone fs_sp y" for y
    using that mod_less_divisor [of 16 "y - 5"] by (simp add: fs_zone_used bit_get16) linarith
  then show ?thesis unfolding fs_full_def
    by (intro full_device_code [OF fs_file_ok [of "\<lambda>_ _ _. - 1"] refl]) (simp_all add: fs_mounted_sel fs_range(2,4) zone_of_def fs_sp_def)
qed

text \<open>Truncating a file in the range of the double indirect block stops the server when the file has none: \<open>write_map\<close> with
  \<open>WMAP_FREE\<close> evaluates \<open>empty_indir\<close> on the null buffer before it tests whether there was a double indirect block at all.\<close>

theorem free_in_hole_stops_server:
  assumes "zone_of (inode_sp ip st) position = i_ndzones (inodes st ip) + i_nindirs (inodes st ip) + e" "0 < i_nindirs (inodes st ip)"
    and "e < i_nindirs (inodes st ip) * i_nindirs (inodes st ip)" "i_zone (inodes st ip) ! (i_ndzones (inodes st ip) + 1) = NO_ZONE"
  shows "write_map E ip position x True st = None"
proof -
  have "e div i_nindirs (inodes st ip) < i_nindirs (inodes st ip)" using assms(3) by (rule less_mult_imp_div_less)
  then show ?thesis using assms(1,2,4) by (simp add: write_map_def wm_double_def wm_indirect_def Let_def inode_sp_def)
qed

theorem free_in_hole_stops_server_witness: "write_map fs_E 5 9000000 0 True fs_new = None"
  by (rule free_in_hole_stops_server [of _ _ _ 8526]) (simp_all add: fs_names fs_range nth_Cons')

end
