(* ===== verification/Fs_Inode_Props.thy ===== *)
theory Fs_Inode_Props
  imports Fs_Inode Fs_Props
begin

text \<open>
  What the inode table of the file server achieves: inodes survive the way to the device and back, a super block that was accepted has the sizes that
  the rest of the server relies on, and an inode is in the table only once.
\<close>

section \<open>Inodes on the device\<close>

text \<open>C20: An inode that \<open>rw_inode\<close> writes is read back: on a mounted, writable file system of any of the three versions and either byte order, when the
  values fit into the fields of the format, writing succeeds, brings the times of the inode up to date and clears the dirt flag; another slot
  of the table that reads the same inode then gets the same mode, owner, links, size, times and zones (a V1 inode has one time and nine zones); and
  every other inode on the device is as it was.\<close>

theorem inode_write_read:
  assumes "ino_dev E st k" "sp = supers st k" "r = timed E (inodes st ip)" "i_dev (inodes st ip) = s_dev sp" "\<not> s_rd_only sp"
    and "1 \<le> i_num (inodes st ip)" "i_num (inodes st ip) < 2 ^ 32" "storable sp r"
  shows "\<exists>s. rw_inode E ip WRITING st = Some s \<and> inodes s ip = r\<lparr>i_sp := k, i_dirt := False\<rparr>
    \<and> (\<forall>jp. jp \<noteq> ip \<and> i_dev (inodes st jp) = s_dev sp \<and> i_num (inodes st jp) = i_num (inodes st ip) \<longrightarrow>
         (\<exists>t. rw_inode E jp READING s = Some t \<and> same_inode sp r (inodes t jp)))
    \<and> (\<forall>n r0. 1 \<le> n \<and> n < 2 ^ 32 \<and> n \<noteq> i_num (inodes st ip) \<longrightarrow>
         disk_ino sp (dev_image E (fcache s)) n r0 = disk_ino sp (dev_image E (fcache st)) n r0)"
proof -
  note d = ino_devD [OF assms(1,2)]
  let ?I = "dev_image E (fcache st)" and ?n = "i_num (inodes st ip)" and ?r = "timed E ((inodes st ip)\<lparr>i_sp := k\<rparr>)"
  obtain c e where w: "rw_inode E ip WRITING st = Some (upd_inode ip (\<lambda>_. ?r\<lparr>i_dirt := False\<rparr>) (st\<lparr>fcache := c\<rparr>))" "calm E (fcache st) c"
    "clip E (s_dev sp) e = ?I (s_dev sp) (int (inode_block sp ?n))"
    "dev_image E c = img_put ?I (s_dev sp) (inode_block sp ?n) (clip E (s_dev sp) (ino_write sp ?r (inode_place sp ?n) e))"
    using rw_inode_write [OF assms(1,2) refl assms(4,5) refl refl refl] by blast
  define s where "s = upd_inode ip (\<lambda>_. ?r\<lparr>i_dirt := False\<rparr>) (st\<lparr>fcache := c\<rparr>)"
  have rr: "?r = r\<lparr>i_sp := k\<rparr>" by (simp add: assms(3) timed_def)
  have "storable sp ?r" using assms(8) by (cases "s_version sp = 1") (simp_all add: rr storable_def fits1_def fits2_def)
  note same = ino_same [OF this]
  note put = disk_ino_put [where r = ?r and d = e and I = ?I, OF d(6,4,5) assms(6,7) _ _ w(3) refl refl, folded w(4)]
  have s: "ino_dev E s k" "supers s k = sp" "fcache s = c" "inodes s ip = r\<lparr>i_sp := k, i_dirt := False\<rparr>" "\<And>j. j \<noteq> ip \<Longrightarrow> inodes s j = inodes st j"
    using calm_dev [OF assms(1) w(2)] assms(2) by (simp_all add: s_def upd_inode_def rr)
  have "\<exists>t. rw_inode E jp READING s = Some t \<and> same_inode sp r (inodes t jp)"
    if j: "jp \<noteq> ip \<and> i_dev (inodes st jp) = s_dev sp \<and> i_num (inodes st jp) = ?n" for jp
  proof -
    let ?x = "(inodes st jp)\<lparr>i_sp := k\<rparr>"
    obtain c2 where "rw_inode E jp READING s
        = Some (upd_inode jp (\<lambda>q. (disk_ino sp (dev_image E c) (i_num q) (q\<lparr>i_sp := k\<rparr>))\<lparr>i_dirt := False\<rparr>) (s\<lparr>fcache := c2\<rparr>))"
      using rw_inode_read [OF s(1) s(2) [symmetric] refl, of jp] s(3,5) j by auto
    moreover have "same_inode sp r ((disk_ino sp (dev_image E c) ?n ?x)\<lparr>i_dirt := False\<rparr>)"
      using put [OF assms(6,7), of ?x] same [of "inode_place sp ?n" e ?x] by (simp add: same_inode_def rr)
    ultimately show ?thesis using j s(5) by (simp add: upd_inode_def)
  qed
  then show ?thesis using w(1) s put by (intro exI [of _ s]) (auto simp: s_def [symmetric])
qed

definition fs_two :: fs_st where
  "fs_two = fs_new\<lparr>inodes := (\<lambda>_. fs_ino)(4 := fs_ino\<lparr>i_mode := 0x81A4, i_size := 5000, i_uid := 7, i_zone := [6, 7, 8, 9, 10, 0, 0, 0, 0, 0], i_update := 8\<rparr>)\<rparr>"

lemma fs_ino_dev: "ino_dev fs_E fs_new 0" "ino_dev fs_E fs_two 0"
proof -
  have "get_super 3 (\<lambda>_. fs_sp) = Some 0" by (simp add: get_super_def NR_SUPERS_def fs_sp_def upt_rec)
  then show "ino_dev fs_E fs_new 0" "ino_dev fs_E fs_two 0" using fs_pool_ok fs_good
    by (simp_all add: ino_dev_def fs_two_def fs_new_def fs_mounted_def io_ok_def sized_ok_def per_block_def fs_sp_def fs_E_def)
qed

theorem inode_write_read_witness:
  "\<exists>s t. rw_inode fs_E 4 WRITING fs_two = Some s \<and> rw_inode fs_E 9 READING s = Some t
    \<and> i_mode (inodes t 9) = 0x81A4 \<and> i_size (inodes t 9) = 5000 \<and> i_uid (inodes t 9) = 7 \<and> i_mtime (inodes t 9) = 1000
    \<and> i_zone (inodes t 9) = [6, 7, 8, 9, 10, 0, 0, 0, 0, 0]"
proof -
  note w = inode_write_read [OF fs_ino_dev(2) refl refl, of 4]
  have sel: "supers fs_two 0 = fs_sp" "inodes fs_two 9 = fs_ino"
    "inodes fs_two 4 = fs_ino\<lparr>i_mode := 0x81A4, i_size := 5000, i_uid := 7, i_zone := [6, 7, 8, 9, 10, 0, 0, 0, 0, 0], i_update := 8\<rparr>"
    by (simp_all add: fs_two_def fs_new_def fs_mounted_def)
  have v: "s_version fs_sp = 3" "s_dev fs_sp = 3" "\<not> s_rd_only fs_sp" "i_dev fs_ino = 3" "i_num fs_ino = 1" by (simp_all add: fs_sp_def fs_ino_def)
  have "storable fs_sp (timed fs_E (inodes fs_two 4))" by (simp add: storable_def sel v fits2_def timed_def fs_ino_def fs_E_def)
  then obtain s where s: "rw_inode fs_E 4 WRITING fs_two = Some s"
    "\<And>jp. jp \<noteq> 4 \<Longrightarrow> i_dev (inodes fs_two jp) = 3 \<Longrightarrow> i_num (inodes fs_two jp) = 1 \<Longrightarrow>
       \<exists>t. rw_inode fs_E jp READING s = Some t \<and> same_inode fs_sp (timed fs_E (inodes fs_two 4)) (inodes t jp)"
    using w by (auto simp: sel v)
  have t: "i_mtime (timed fs_E (inodes fs_two 4)) = 1000" by (simp add: timed_def sel bit_iff_odd) (simp add: fs_E_def)
  have "\<exists>t. rw_inode fs_E 9 READING s = Some t \<and> same_inode fs_sp (timed fs_E (inodes fs_two 4)) (inodes t 9)" by (rule s(2)) (simp_all add: sel v)
  then show ?thesis using s(1) t by (auto simp: v same_inode_def) (auto simp: timed_def sel)
qed

section \<open>Super blocks\<close>

lemma sint16_less: "sint (w :: 16 word) < 2 ^ 15"
  using sint_lt [of w] by simp

text \<open>C23: A super block that \<open>read_super\<close> accepts has the sizes that the bit maps, the inode blocks and the zone tables of the server rely on, whatever the
  block on the device holds: a block size of one to four kilobytes that whole inodes and zone numbers fill, at least one block for each map, a
  sane ratio of zone and block size, zone numbers that fit into the format; the slot keeps its device, the searches start at the beginning, and no
  other slot changes.\<close>

theorem read_super_sizes:
  assumes "read_super ptr r d k st = Some (s, 0)"
  shows "sized_ok (supers s k) \<and> s_version (supers s k) \<in> {1, 2, 3} \<and> 1 \<le> s_ninodes (supers s k) \<and> 1 \<le> s_zones (supers s k)
    \<and> s_dev (supers s k) = s_dev (supers st k) \<and> s_dev (supers st k) \<noteq> NO_DEV \<and> s_isearch (supers s k) = 0 \<and> s_zsearch (supers s k) = 0
    \<and> (\<forall>j. j \<noteq> k \<longrightarrow> supers s j = supers st j) \<and> fcache s = fcache st"
proof -
  define raw where "raw = raw_super ptr d"
  obtain v nat where v: "super_version (s_magic raw) = Some (v, nat)"
    using assms by (auto simp: read_super_def raw_def Let_def split: if_splits option.splits)
  then have ver: "v = 1 \<or> v = 2 \<or> v = 3" by (auto simp: super_version_def split: if_splits)
  define w where "w = swap_super nat raw"
  have small: "s_nzones w < 2 ^ 16" "s_imap_blocks w < 2 ^ 15" "s_zmap_blocks w < 2 ^ 15" "s_zones w < 2 ^ 32"
    using unsigned_less [of "conv16 nat (word_of_nat (s_nzones raw))"] unsigned_less [of "conv4 nat (word_of_nat (s_zones raw))"] sint16_less
    by (simp_all add: w_def swap_super_def)
  define sp where "sp = sized_super v w"
  let ?sp = "sp\<lparr>s_isearch := 0, s_zsearch := 0, s_version := v, s_native := nat, s_dev := s_dev (supers st k)\<rparr>"
  have a: "s = upd_super k (\<lambda>_. ?sp) st" "s_dev (supers st k) \<noteq> NO_DEV" "v = 3 \<longrightarrow> 1024 \<le> s_block_size sp" "s_block_size sp \<le> 4096" "s_block_size sp mod 64 = 0"
    "1 \<le> s_imap_blocks sp" "1 \<le> s_zmap_blocks sp" "1 \<le> s_ninodes sp" "1 \<le> s_zones sp" "0 \<le> s_log_zone_size sp" "s_log_zone_size sp \<le> 4"
    using assms v by (auto simp: read_super_def raw_def w_def sp_def Let_def split: if_splits)
  have "s_block_size sp mod 4 = 0" using a(5) by presburger
  then have "sized_ok ?sp" using ver a small by (auto simp: sized_ok_def per_block_def sp_def sized_super_def Let_def split: if_splits)
  then show ?thesis using a ver by (auto simp: upd_super_def)
qed

definition fs_sb :: block where
  "fs_sb = (\<lambda>i. if i < 32 then [16, 0, 0, 0, 0, 0, 1, 0, 1, 0, 6, 0, 0, 0, 0, 0, 64, 66, 15, 0, 100, 0, 0, 0, 0x5a, 0x4d, 0, 0, 0, 4, 0, 0] ! i else 0)"

theorem read_super_sizes_witness:
  "\<exists>s. read_super (\<lambda>_. None) 1024 fs_sb 2 fs_new = Some (s, 0) \<and> sized_ok (supers s 2) \<and> s_zones (supers s 2) = 100"
proof -
  have g: "get32 fs_sb 0 = 16" "get16 fs_sb 2 = 0" "get16 fs_sb 3 = 1" "get16 fs_sb 4 = 1" "get16 fs_sb 5 = 6" "get16 fs_sb 6 = 0" "get32 fs_sb 4 = 1000000"
    "get32 fs_sb 5 = 100" "get16 fs_sb 12 = 0x4d5a" "get16 fs_sb 14 = 1024" "conv16 True 1 = 1" "conv16 True 0 = 0" by code_simp+
  have "\<exists>s. read_super (\<lambda>_. None) 1024 fs_sb 2 fs_new = Some (s, 0) \<and> s_zones (supers s 2) = 100"
    by (simp add: read_super_def raw_super_def g super_version_def swap_super_def sized_super_def upd_super_def fs_new_def fs_mounted_sel fs_sp_def conv4_def Let_def)
  then show ?thesis using read_super_sizes [of "\<lambda>_. None" 1024 fs_sb 2 fs_new] by blast
qed

section \<open>The inode table\<close>

lemma get_inode_table:
  assumes "tab_unique st" "get_inode E dev numb st = Some (s, x)"
  shows "tab_unique s
      \<and> (case x of None \<Rightarrow> (\<forall>i < NR_INODES. in_use st i \<and> \<not> (i_dev (inodes st i) = dev \<and> i_num (inodes st i) = numb)) \<and> err_code s = EMOLNFILE
         | Some i \<Rightarrow> in_use s i \<and> slots s = (slots st)(i := (dev, numb, if in_use st i then i_count (inodes st i) + 1 else 1)))"
  using assms(2)
proof (cases rule: get_inode_cases)
  case (found i)
  then have "slots s = (slots st)(i := (dev, numb, i_count (inodes st i) + 1))" by (simp add: slots_count) (simp add: slots_def)
  moreover have "tab_unique s" by (rule tab_unique_less [OF assms(1)]) (use calculation found(1-3) in \<open>auto simp: in_use_def slots_def split: if_splits\<close>)
  ultimately show ?thesis using found by (auto simp: in_use_def slots_def)
next
  case full
  then show ?thesis using assms(1) by (auto simp: tab_unique_def in_use_def)
next
  case (fresh i)
  have "tab_unique s" unfolding tab_unique_def
  proof (intro allI impI)
    fix a b assume "in_use s a \<and> in_use s b \<and> fst (slots s a) = fst (slots s b) \<and> fst (snd (slots s a)) = fst (snd (slots s b))"
    moreover have "in_use s c \<Longrightarrow> c \<noteq> i \<Longrightarrow> in_use st c \<and> slots s c = slots st c \<and> (fst (slots st c), fst (snd (slots st c))) \<noteq> (dev, numb)" for c
      using fresh(3) [of c] fresh(5) by (simp add: in_use_def slots_def)
    moreover have "slots s i = (dev, numb, 1)" using fresh(5) by simp
    ultimately show "a = b" using assms(1) unfolding tab_unique_def by (metis fst_conv snd_conv)
  qed
  then show ?thesis using fresh by (auto simp: in_use_def)
qed

lemma put_inode_table:
  assumes "tab_unique st" "put_inode E (Some ip) st = Some s"
  shows "tab_unique s \<and> i_count (inodes s ip) = i_count (inodes st ip) - 1 \<and> (\<forall>j. j \<noteq> ip \<longrightarrow> slots s j = slots st j)"
proof -
  note p = slots_put_inode [OF assms(2)]
  have "tab_unique s" by (rule tab_unique_less [OF assms(1)]) (use p in \<open>auto simp: in_use_def split: if_splits\<close>)
  moreover have "i_count (inodes s ip) = i_count (inodes st ip) - 1" using fun_cong [OF p, of ip] by (simp add: slots_def)
  ultimately show ?thesis using p by simp
qed

text \<open>C21: The inode table never has an inode twice: when no two slots in use are for the same device and number, this is so after \<open>get_inode\<close>,
  \<open>put_inode\<close> of a slot in use and \<open>do_sync\<close>, whatever the device holds.  \<open>get_inode\<close> returns a slot for the inode it was asked for, with one user more when it
  was there and one user otherwise, and changes no slot beside it; it returns none only when all 256 slots are in use by other inodes.\<close>

theorem inode_table:
  assumes "tab_unique st"
  shows "(\<forall>s x. get_inode E dev numb st = Some (s, x) \<longrightarrow> tab_unique s
      \<and> (case x of None \<Rightarrow> (\<forall>i < NR_INODES. in_use st i \<and> \<not> (i_dev (inodes st i) = dev \<and> i_num (inodes st i) = numb)) \<and> err_code s = EMOLNFILE
         | Some i \<Rightarrow> in_use s i \<and> slots s = (slots st)(i := (dev, numb, if in_use st i then i_count (inodes st i) + 1 else 1))))
    \<and> (\<forall>s. put_inode E (Some ip) st = Some s \<longrightarrow> tab_unique s \<and> i_count (inodes s ip) = i_count (inodes st ip) - 1 \<and> (\<forall>j. j \<noteq> ip \<longrightarrow> slots s j = slots st j))
    \<and> (\<forall>s. do_sync E st = Some s \<longrightarrow> tab_unique s)"
proof -
  have "tab_unique s" if "do_sync E st = Some s" for s using assms slots_do_sync [OF that] by (auto simp: tab_unique_def in_use_def)
  then show ?thesis using get_inode_table [OF assms, of E dev numb] put_inode_table [OF assms, of E ip] by blast
qed

definition fs_tab :: fs_st where
  "fs_tab = fs_new\<lparr>inodes := (\<lambda>_. fs_ino\<lparr>i_count := 0\<rparr>)(5 := fs_ino)\<rparr>"

theorem inode_table_witness:
  "\<exists>s. get_inode fs_E 3 1 fs_tab = Some (s, Some 5) \<and> tab_unique s \<and> i_count (inodes s 5) = 2 \<and> (\<forall>i. i \<noteq> 5 \<longrightarrow> \<not> in_use s i)"
proof -
  have i: "inodes fs_tab 5 = fs_ino" "\<And>j. j \<noteq> 5 \<Longrightarrow> inodes fs_tab j = fs_ino\<lparr>i_count := 0\<rparr>" "i_count fs_ino = 1" "i_dev fs_ino = 3" "i_num fs_ino = 1"
    by (simp_all add: fs_tab_def fs_ino_def)
  have u: "in_use fs_tab j \<longleftrightarrow> j = 5" for j by (cases "j = 5") (simp_all add: in_use_def slots_def i NR_INODES_def)
  have "find (\<lambda>i. i_count (inodes fs_tab i) > 0 \<and> i_dev (inodes fs_tab i) = 3 \<and> i_num (inodes fs_tab i) = 1) [0 ..< NR_INODES] = Some 5"
    unfolding find_Some_iff by (intro exI [of _ 5]) (auto simp: NR_INODES_def i)
  then obtain s where g: "get_inode fs_E 3 1 fs_tab = Some (s, Some 5)" by (simp add: get_inode_def)
  have "tab_unique fs_tab" by (simp add: tab_unique_def u)
  note inode_table [OF this, of fs_E 3 1]
  then have "tab_unique s" "slots s = (slots fs_tab)(5 := (3, 1, 2))" using g i by (auto simp: u)
  moreover from this(2) have "slots s 5 = (3, 1, 2)" by simp
  then have "i_count (inodes s 5) = 2" by (simp add: slots_def)
  ultimately show ?thesis using g u by (auto simp: in_use_def)
qed

end
