(* ===== verification/Fs_Lock.thy ===== *)
theory Fs_Lock
  imports Fs_Inode_Props Endpoint
begin

text \<open>
  Open files and locks of the file server: the descriptors (\<open>src/servers/fs/filedes.c\<close>), record locks (\<open>lock.c\<close>), the suspension and revival of processes
  that wait for a lock (\<open>pipe.c\<close>), and the calls \<open>close\<close>, \<open>lseek\<close>, \<open>dup\<close> and \<open>fcntl\<close> (\<open>open.c\<close>, \<open>misc.c\<close>).  Descriptors lead to slots of the filp table,
  these to slots of the inode table; file positions and the ends of locked regions are unsigned 32 bit numbers.  \<open>None\<close> is the end of the
  server.
\<close>

section \<open>Constants and messages\<close>

definition NR_FILPS :: nat where "NR_FILPS = 256"
definition NR_LOCKS :: nat where "NR_LOCKS = 8"
definition MNX_OPEN_MAX :: nat where "MNX_OPEN_MAX = 30"

abbreviation (input) "MAX_FILE_POS \<equiv> 0xFFFFFFFF :: nat"
abbreviation (input) "R_BIT \<equiv> 4 :: nat"
abbreviation (input) "W_BIT \<equiv> 2 :: nat"
abbreviation (input) "X_BIT \<equiv> 1 :: nat"
abbreviation (input) "FILP_CLOSED \<equiv> 0 :: nat"
abbreviation (input) "F_DUPFD \<equiv> 0 :: int"
abbreviation (input) "F_GETFD \<equiv> 1 :: int"
abbreviation (input) "F_SETFD \<equiv> 2 :: int"
abbreviation (input) "F_GETFL \<equiv> 3 :: int"
abbreviation (input) "F_SETFL \<equiv> 4 :: int"
abbreviation (input) "F_GETLK \<equiv> 5 :: int"
abbreviation (input) "F_SETLK \<equiv> 6 :: int"
abbreviation (input) "F_SETLKW \<equiv> 7 :: int"
abbreviation (input) "F_FREESP \<equiv> 8 :: int"
abbreviation (input) "F_RDLCK \<equiv> 1 :: nat"
abbreviation (input) "F_WRLCK \<equiv> 2 :: nat"
abbreviation (input) "F_UNLCK \<equiv> 3 :: nat"
abbreviation (input) "SEEK_SET \<equiv> 0 :: int"
abbreviation (input) "SEEK_CUR \<equiv> 1 :: int"
abbreviation (input) "SEEK_END \<equiv> 2 :: int"
abbreviation (input) "O_NONBLOCK \<equiv> 0x800 :: nat"
abbreviation (input) "O_APPEND \<equiv> 0x400 :: nat"
abbreviation (input) "O_ACCMODE \<equiv> 3 :: nat"
abbreviation (input) "XPIPE \<equiv> - NR_TASKS - 1"
abbreviation (input) "XLOCK \<equiv> - NR_TASKS - 2"
abbreviation (input) "XPOPEN \<equiv> - NR_TASKS - 3"
abbreviation (input) "XSELECT \<equiv> - NR_TASKS - 4"
abbreviation (input) "SUSPEND \<equiv> - 998 :: int"
abbreviation (input) "EINVAL \<equiv> 22 :: int"
abbreviation (input) "EMOLSPIPE \<equiv> - 29 :: int"
abbreviation (input) "PID_FREE \<equiv> 0 :: int"

record flock =
  l_type :: nat
  l_whence :: int
  l_start :: nat
  l_len :: nat
  l_pid :: int

text \<open>A request: the words of the message (\<open>m_i2\<close> is \<open>fd2\<close>, \<open>request\<close> and \<open>nbytes\<close>, \<open>m_p1\<close> is \<open>buffer\<close> and \<open>name1\<close>), the number of the call, and what copying from and to the
  caller gives: the return value and the structure it reads, and the return value of the copy back.\<close>

record fs_msg =
  m_fd :: int
  m_i2 :: int
  m_addr :: int
  m_p1 :: nat
  m_offset :: int
  m_whence :: int
  m_call :: int
  m_copy :: "int \<times> flock"
  m_back :: int

text \<open>The number of process slots of the container, and what the drivers do when a device is closed and opened.\<close>

record fs_sys =
  nr_procs :: nat
  dev_close :: "int \<Rightarrow> fs_st \<Rightarrow> fs_st"
  dev_open :: "int \<Rightarrow> int \<Rightarrow> fs_st \<Rightarrow> fs_st \<times> int"

definition add32 :: "nat \<Rightarrow> int \<Rightarrow> nat" where
  "add32 pos off = nat ((int pos + off) mod 2 ^ 32)"

definition s32 :: "nat \<Rightarrow> int" where
  "s32 x = sint (word_of_nat x :: 32 word)"

definition upd_proc :: "nat \<Rightarrow> (fproc \<Rightarrow> fproc) \<Rightarrow> fs_st \<Rightarrow> fs_st" where
  "upd_proc p f st = st\<lparr>fprocs := (fprocs st)(p := f (fprocs st p))\<rparr>"

definition upd_filp :: "nat \<Rightarrow> (filp \<Rightarrow> filp) \<Rightarrow> fs_st \<Rightarrow> fs_st" where
  "upd_filp k f st = st\<lparr>filps := (filps st)(k := f (filps st k))\<rparr>"

abbreviation (input) the_fp :: "fs_st \<Rightarrow> fproc" where
  "the_fp st \<equiv> fprocs st (cur_fp st)"

section \<open>Descriptors\<close>

definition get_fd :: "nat \<Rightarrow> nat \<Rightarrow> fs_st \<Rightarrow> (fs_st \<times> int) + (fs_st \<times> nat \<times> nat)" where
  "get_fd start bits st =
    (case find (\<lambda>i. fp_filp (the_fp st) i = None \<and> \<not> fp_filp_inuse (the_fp st) i) [start ..< MNX_OPEN_MAX] of
       None \<Rightarrow> Inl (st, EMOLMFILE)
     | Some k \<Rightarrow>
       (case find (\<lambda>f. filp_count (filps st f) = 0) [0 ..< NR_FILPS] of
          None \<Rightarrow> Inl (st, EMOLNFILE)
        | Some f \<Rightarrow> Inr (upd_filp f (\<lambda>x. x\<lparr>filp_mode := bits, filp_pos := 0, filp_flags := 0\<rparr>) st, k, f)))"

definition get_filp :: "int \<Rightarrow> fs_st \<Rightarrow> fs_st \<times> nat option" where
  "get_filp fild st =
    (st\<lparr>err_code := EMOLBADF\<rparr>, if fild < 0 \<or> fild \<ge> int MNX_OPEN_MAX then None else fp_filp (the_fp st) (nat fild))"

definition find_filp :: "nat \<Rightarrow> nat \<Rightarrow> fs_st \<Rightarrow> nat option" where
  "find_filp rip bits st =
    find (\<lambda>f. filp_count (filps st f) \<noteq> 0 \<and> filp_ino (filps st f) = rip \<and> and (filp_mode (filps st f)) bits \<noteq> 0) [0 ..< NR_FILPS]"

definition inval_filp :: "fs_sys \<Rightarrow> nat \<Rightarrow> fs_st \<Rightarrow> fs_st \<times> nat" where
  "inval_filp S f st =
    (let hit = (\<lambda>p k. p < nr_procs S \<and> fp_pid (fprocs st p) \<noteq> PID_FREE \<and> k < MNX_OPEN_MAX \<and> fp_filp (fprocs st p) k = Some f)
     in (st\<lparr>fprocs := (\<lambda>p. (fprocs st p)\<lparr>fp_filp := \<lambda>k. if hit p k then None else fp_filp (fprocs st p) k\<rparr>)\<rparr>,
         length (filter (\<lambda>(p, k). hit p k) (List.product [0 ..< nr_procs S] [0 ..< MNX_OPEN_MAX]))))"

section \<open>Suspending and reviving\<close>

definition suspend :: "fs_msg \<Rightarrow> int \<Rightarrow> fs_st \<Rightarrow> fs_st option" where
  "suspend m task st =
    (if task = NONE then None
     else Some (upd_proc (cur_fp st) (\<lambda>x. x\<lparr>fp_suspended := True, fp_fd := sint (or (push_bit 8 (word_of_int (m_fd m))) (word_of_int (m_call m)) :: 32 word),
        fp_task := - task, fp_buffer := m_p1 m, fp_nbytes := m_i2 m\<rparr>)
       (if task = XPIPE \<or> task = XPOPEN then st\<lparr>susp_count := susp_count st + 1\<rparr> else st)))"

definition isokendpt :: "fs_sys \<Rightarrow> int \<Rightarrow> fs_st \<Rightarrow> nat option" where
  "isokendpt S endpoint st =
    (let proc = ENDPOINT_P endpoint
     in if proc < 0 \<or> proc \<ge> int (nr_procs S) then None else if fp_endpoint (fprocs st (nat proc)) \<noteq> endpoint then None else Some (nat proc))"

definition revive :: "fs_sys \<Rightarrow> int \<Rightarrow> int \<Rightarrow> fs_st \<Rightarrow> fs_st" where
  "revive S proc_nr_e returned st =
    (case isokendpt S proc_nr_e st of None \<Rightarrow> st
     | Some p \<Rightarrow>
       let rfp = fprocs st p; task = - fp_task rfp in
       if \<not> fp_suspended rfp \<or> fp_revived rfp then st
       else if task = XPIPE \<or> task = XLOCK then (upd_proc p (\<lambda>x. x\<lparr>fp_revived := True\<rparr>) st)\<lparr>reviving := reviving st + 1\<rparr>
       else
        let st1 = upd_proc p (\<lambda>x. x\<lparr>fp_suspended := False\<rparr>) st in
        if task = XPOPEN then st1\<lparr>fs_out := fs_out st1 @ [(proc_nr_e, drop_bit 8 (fp_fd rfp))]\<rparr>
        else if task = XSELECT then st1\<lparr>fs_out := fs_out st1 @ [(proc_nr_e, returned)]\<rparr>
        else (upd_proc p (\<lambda>x. x\<lparr>fp_nbytes := returned\<rparr>) st1)\<lparr>fs_out := fs_out st1 @ [(proc_nr_e, returned)]\<rparr>)"

definition lock_revive :: "fs_sys \<Rightarrow> fs_st \<Rightarrow> fs_st" where
  "lock_revive S st =
    foldl (\<lambda>s p. let x = fprocs s p
                 in if fp_pid x = PID_FREE then s else if fp_suspended x \<and> - fp_task x = XLOCK then revive S (fp_endpoint x) 0 s else s)
      st [15 ..< nr_procs S]"

section \<open>Locks\<close>

text \<open>The first and the last byte of the region.\<close>

definition lock_region :: "filp \<Rightarrow> nat \<Rightarrow> flock \<Rightarrow> int + (nat \<times> nat)" where
  "lock_region f fsize fl =
    (if l_whence fl \<noteq> SEEK_SET \<and> l_whence fl \<noteq> SEEK_CUR \<and> l_whence fl \<noteq> SEEK_END then Inl EINVAL
     else
      let base = (if l_whence fl = SEEK_SET then 0 else if l_whence fl = SEEK_CUR then filp_pos f else fsize);
          first = (base + l_start fl) mod 2 ^ 32;
          lastb = (if l_len fl = 0 then MAX_FILE_POS else (first + l_len fl + 2 ^ 32 - 1) mod 2 ^ 32) in
      if s32 (l_start fl) > 0 \<and> first < base then Inl EMOLINVAL
      else if s32 (l_start fl) < 0 \<and> first > base then Inl EMOLINVAL
      else if lastb < first then Inl EMOLINVAL
      else Inr (first, lastb))"

record lock_acc =
  la_locks :: "file_lock list"
  la_nr :: int
  la_empty :: "nat option"
  la_conflict :: "nat option"
  la_unlocking :: bool

datatype lock_exit = LDone | LReturn int | LSuspend

text \<open>The search for conflicts from slot \<open>i\<close> on, with the unlocking it does on the way.\<close>

fun lock_scan :: "nat \<Rightarrow> int \<Rightarrow> int \<Rightarrow> nat \<Rightarrow> nat \<Rightarrow> nat \<Rightarrow> nat list \<Rightarrow> lock_acc \<Rightarrow> (lock_exit \<times> lock_acc) option" where
  "lock_scan ltype req pid ino first lastb [] a = Some (LDone, a)"
| "lock_scan ltype req pid ino first lastb (i # is) a =
    (let l = la_locks a ! i; go = lock_scan ltype req pid ino first lastb is; a1 = a\<lparr>la_unlocking := True\<rparr> in
     if lock_type l = 0 then go (if la_empty a = None then a\<lparr>la_empty := Some i\<rparr> else a)
     else if lock_inode l \<noteq> ino then go a
     else if lastb < lock_first l then go a
     else if first > lock_last l then go a
     else if ltype = F_RDLCK \<and> lock_type l = F_RDLCK then go a
     else if ltype \<noteq> F_UNLCK \<and> lock_pid l = pid then go a
     else if req = F_GETLK then Some (LDone, a\<lparr>la_conflict := Some i\<rparr>)
     else if ltype = F_RDLCK \<or> ltype = F_WRLCK then Some (if req = F_SETLK then LReturn EMOLAGAIN else LSuspend, a)
     else if first \<le> lock_first l \<and> lastb \<ge> lock_last l then go (a1\<lparr>la_locks := (la_locks a)[i := l\<lparr>lock_type := 0\<rparr>], la_nr := la_nr a - 1\<rparr>)
     else if first \<le> lock_first l then go (a1\<lparr>la_locks := (la_locks a)[i := l\<lparr>lock_first := lastb + 1\<rparr>]\<rparr>)
     else if lastb \<ge> lock_last l then go (a1\<lparr>la_locks := (la_locks a)[i := l\<lparr>lock_last := first - 1\<rparr>]\<rparr>)
     else if la_nr a = int NR_LOCKS then Some (LReturn EMOLNOLCK, a1)
     else
      (case find (\<lambda>j. lock_type (la_locks a ! j) = 0) [0 ..< NR_LOCKS] of None \<Rightarrow> None
       | Some j \<Rightarrow>
         go (a1\<lparr>la_locks := (la_locks a)[j := l\<lparr>lock_first := lastb + 1\<rparr>, i := l\<lparr>lock_last := first - 1\<rparr>], la_nr := la_nr a + 1\<rparr>)))"

text \<open>The result is the state, the return value and the structure that was copied back to the caller.  First the part of \<open>lock_op\<close> that works on the table.\<close>

definition lock_found :: "fs_sys \<Rightarrow> fs_msg \<Rightarrow> nat \<Rightarrow> int \<Rightarrow> nat \<Rightarrow> nat \<Rightarrow> fs_st \<Rightarrow> (fs_st \<times> int \<times> flock option) option" where
  "lock_found S m fno req first lastb st =
    (let f = filps st fno; fl = snd (m_copy m); ltype = l_type fl; pid = fp_pid (the_fp st) in
     case lock_scan ltype req pid (filp_ino f) first lastb [0 ..< NR_LOCKS]
         \<lparr>la_locks = file_locks st, la_nr = nr_locks st, la_empty = None, la_conflict = None, la_unlocking = False\<rparr> of
       None \<Rightarrow> None
     | Some (ex, a) \<Rightarrow>
       let st1 = st\<lparr>file_locks := la_locks a, nr_locks := la_nr a\<rparr> in
       (case ex of LReturn code \<Rightarrow> Some (st1, code, None)
        | LSuspend \<Rightarrow> map_option (\<lambda>s. (s, SUSPEND, None)) (suspend m XLOCK st1)
        | LDone \<Rightarrow>
          let st2 = (if la_unlocking a then lock_revive S st1 else st1) in
          if req = F_GETLK then
            Some (st2, m_back m, Some (case la_conflict a of
              None \<Rightarrow> fl\<lparr>l_type := F_UNLCK\<rparr>
            | Some i \<Rightarrow> let l = la_locks a ! i
                       in \<lparr>l_type = lock_type l, l_whence = SEEK_SET, l_start = lock_first l,
                           l_len = (lock_last l - lock_first l + 1) mod 2 ^ 32, l_pid = lock_pid l\<rparr>))
          else if ltype = F_UNLCK then Some (st2, 0, None)
          else (case la_empty a of None \<Rightarrow> Some (st2, EMOLNOLCK, None)
                | Some i \<Rightarrow>
                  Some (st2\<lparr>file_locks := (file_locks st2)[i := \<lparr>lock_type = ltype, lock_pid = pid, lock_inode = filp_ino f, lock_first = first,
                           lock_last = lastb\<rparr>], nr_locks := nr_locks st2 + 1\<rparr>, 0, None))))"

definition lock_op :: "fs_sys \<Rightarrow> fs_msg \<Rightarrow> nat \<Rightarrow> int \<Rightarrow> fs_st \<Rightarrow> (fs_st \<times> int \<times> flock option) option" where
  "lock_op S m fno req st =
    (let f = filps st fno; fl = snd (m_copy m); ltype = l_type fl; mo = filp_mode f; ino = inodes st (filp_ino f) in
     if fst (m_copy m) \<noteq> 0 then Some (st, EMOLINVAL, None)
     else if ltype \<noteq> F_UNLCK \<and> ltype \<noteq> F_RDLCK \<and> ltype \<noteq> F_WRLCK then Some (st, EMOLINVAL, None)
     else if req = F_GETLK \<and> ltype = F_UNLCK then Some (st, EINVAL, None)
     else if i_type (i_mode ino) \<noteq> I_REGULAR then Some (st, EMOLINVAL, None)
     else if req \<noteq> F_GETLK \<and> ltype = F_RDLCK \<and> and mo R_BIT = 0 then Some (st, EMOLBADF, None)
     else if req \<noteq> F_GETLK \<and> ltype = F_WRLCK \<and> and mo W_BIT = 0 then Some (st, EMOLBADF, None)
     else (case lock_region f (i_size ino) fl of Inl code \<Rightarrow> Some (st, code, None) | Inr (first, lastb) \<Rightarrow> lock_found S m fno req first lastb st))"

section \<open>Calls on open files\<close>

definition release_locks :: "nat \<Rightarrow> fs_st \<Rightarrow> fs_st" where
  "release_locks rip st =
    (let mine = (\<lambda>l. lock_type l \<noteq> 0 \<and> lock_inode l = rip \<and> lock_pid l = fp_pid (the_fp st))
     in if nr_locks st = 0 then st
        else st\<lparr>file_locks := map (\<lambda>l. if mine l then l\<lparr>lock_type := 0\<rparr> else l) (file_locks st),
                nr_locks := nr_locks st - int (length (filter mine (file_locks st)))\<rparr>)"

text \<open>The last close of a special file.\<close>

definition close_special :: "io_env \<Rightarrow> fs_sys \<Rightarrow> nat \<Rightarrow> nat \<Rightarrow> fs_st \<Rightarrow> fs_st option" where
  "close_special E S f rip st =
    (let mode_word = i_type (i_mode (inodes st rip)) in
     if filp_count (filps st f) - 1 = 0 \<and> filp_mode (filps st f) \<noteq> FILP_CLOSED \<and> (mode_word = I_CHAR_SPECIAL \<or> mode_word = I_BLOCK_SPECIAL)
     then do {
       let dev = sint (word_of_nat (i_zone (inodes st rip) ! 0) :: 16 word);
       s \<leftarrow> (if mode_word = I_BLOCK_SPECIAL then do_sync E st else Some st);
       Some (dev_close S dev s)
     }
     else Some st)"

text \<open>The last user of an open file.\<close>

definition close_last :: "io_env \<Rightarrow> nat \<Rightarrow> nat \<Rightarrow> fs_st \<Rightarrow> fs_st option" where
  "close_last E f rip st =
    (if filp_count (filps st f) = 0
     then
       let s = (if i_pipe (inodes st rip) \<and> i_count (inodes st rip) > 1
                then set_zone rip (V2_NR_DZONES + (if filp_mode (filps st f) = R_BIT then 0 else 1)) (filp_pos (filps st f)) st
                else st)
       in put_inode E (Some rip) s
     else Some st)"

definition do_close :: "io_env \<Rightarrow> fs_sys \<Rightarrow> fs_msg \<Rightarrow> fs_st \<Rightarrow> (fs_st \<times> int) option" where
  "do_close E S m st =
    (case get_filp (m_fd m) st of (st0, None) \<Rightarrow> Some (st0, err_code st0)
     | (st0, Some f) \<Rightarrow>
       let rip = filp_ino (filps st0 f) in
       do {
         st1 \<leftarrow> close_special E S f rip st0;
         st2 \<leftarrow> close_last E f rip (upd_filp f (\<lambda>x. x\<lparr>filp_count := filp_count x - 1\<rparr>) st1);
         Some (release_locks rip (upd_proc (cur_fp st2) (\<lambda>x. x\<lparr>fp_cloexec := unset_bit (nat (m_fd m)) (fp_cloexec x),
           fp_filp := (fp_filp x)(nat (m_fd m) := None), fp_filp_inuse := (fp_filp_inuse x)(nat (m_fd m) := False)\<rparr>) st2), 0)
       })"

text \<open>The new position is both in the filp and in the reply.\<close>

definition do_lseek :: "fs_msg \<Rightarrow> fs_st \<Rightarrow> fs_st \<times> int" where
  "do_lseek m st =
    (case get_filp (m_fd m) st of (st0, None) \<Rightarrow> (st0, err_code st0)
     | (st0, Some f) \<Rightarrow>
       let rip = filp_ino (filps st0 f) in
       if i_pipe (inodes st0 rip) then (st0, EMOLSPIPE)
       else if m_whence m \<noteq> SEEK_SET \<and> m_whence m \<noteq> SEEK_CUR \<and> m_whence m \<noteq> SEEK_END then (st0, EMOLINVAL)
       else
        let pos = (if m_whence m = SEEK_SET then 0 else if m_whence m = SEEK_CUR then filp_pos (filps st0 f) else i_size (inodes st0 rip));
            npos = add32 pos (m_offset m) in
        if m_offset m > 0 \<and> s32 npos < s32 pos then (st0, EMOLINVAL)
        else if m_offset m < 0 \<and> s32 npos > s32 pos then (st0, EMOLINVAL)
        else (upd_filp f (\<lambda>x. x\<lparr>filp_pos := npos\<rparr>)
               (if npos \<noteq> filp_pos (filps st0 f) then upd_inode rip (\<lambda>r. r\<lparr>i_seek := True\<rparr>) st0 else st0), 0))"

definition share_filp :: "nat \<Rightarrow> nat \<Rightarrow> fs_st \<Rightarrow> fs_st" where
  "share_filp f k st =
    upd_proc (cur_fp st) (\<lambda>x. x\<lparr>fp_filp := (fp_filp x)(k := Some f)\<rparr>) (upd_filp f (\<lambda>x. x\<lparr>filp_count := filp_count x + 1\<rparr>) st)"

definition set_inuse :: "nat \<Rightarrow> fs_st \<Rightarrow> fs_st" where
  "set_inuse k st = upd_proc (cur_fp st) (\<lambda>x. x\<lparr>fp_filp_inuse := (fp_filp_inuse x)(k := True)\<rparr>) st"

definition do_dup :: "io_env \<Rightarrow> fs_sys \<Rightarrow> fs_msg \<Rightarrow> fs_st \<Rightarrow> (fs_st \<times> int) option" where
  "do_dup E S m st =
    (let rfd = and (m_fd m) (not 0x40) in
     case get_filp rfd st of (st0, None) \<Rightarrow> Some (st0, err_code st0)
     | (st0, Some f) \<Rightarrow>
       if m_fd m = rfd then
         (case get_fd 0 0 st0 of Inl p \<Rightarrow> Some p
          | Inr (s, k, _) \<Rightarrow> Some (set_inuse k (share_filp f k s), int k))
       else if m_i2 m < 0 \<or> m_i2 m \<ge> int MNX_OPEN_MAX then Some (st0, EMOLBADF)
       else if rfd = m_i2 m then Some (st0, m_i2 m)
       else do {
         (s, _) \<leftarrow> do_close E S (m\<lparr>m_fd := m_i2 m\<rparr>) st0;
         Some (set_inuse (nat (m_i2 m)) (share_filp f (nat (m_i2 m)) s), m_i2 m)
       })"

text \<open>\<open>F_FREESP\<close>: the region to free.\<close>

definition freesp_start :: "filp \<Rightarrow> nat \<Rightarrow> flock \<Rightarrow> nat option" where
  "freesp_start f fsize fl =
    (let offset = s32 (l_start fl) in
     if l_whence fl \<noteq> SEEK_SET \<and> l_whence fl \<noteq> SEEK_CUR \<and> l_whence fl \<noteq> SEEK_END then None
     else if l_whence fl = SEEK_SET \<and> offset < 0 then None
     else
      let start = (if l_whence fl = SEEK_SET then 0 else if l_whence fl = SEEK_CUR then filp_pos f else fsize);
          start1 = add32 start offset in
      if offset > 0 \<and> start1 < start then None else if offset < 0 \<and> start1 > start then None else Some start1)"

definition do_fcntl :: "io_env \<Rightarrow> fs_sys \<Rightarrow> fs_msg \<Rightarrow> fs_st \<Rightarrow> (fs_st \<times> int \<times> flock option) option" where
  "do_fcntl E S m st =
    (case get_filp (m_fd m) st of (st0, None) \<Rightarrow> Some (st0, err_code st0, None)
     | (st0, Some f) \<Rightarrow>
       let req = m_i2 m; fd = nat (m_fd m); x = filps st0 f; rip = filp_ino x; fl = snd (m_copy m) in
       if req = F_DUPFD then
         (if m_addr m < 0 \<or> m_addr m \<ge> int MNX_OPEN_MAX then Some (st0, EMOLINVAL, None)
          else (case get_fd (nat (m_addr m)) 0 st0 of Inl (s, r) \<Rightarrow> Some (s, r, None) | Inr (s, k, _) \<Rightarrow> Some (share_filp f k s, int k, None)))
       else if req = F_GETFD then Some (st0, if bit (fp_cloexec (the_fp st0)) fd then 1 else 0, None)
       else if req = F_SETFD then
         Some (upd_proc (cur_fp st0) (\<lambda>p. p\<lparr>fp_cloexec := if odd (m_addr m) then set_bit fd (fp_cloexec p) else unset_bit fd (fp_cloexec p)\<rparr>) st0, 0, None)
       else if req = F_GETFL then Some (st0, int (and (filp_flags x) (or (or O_NONBLOCK O_APPEND) O_ACCMODE)), None)
       else if req = F_SETFL then
         Some (upd_filp f (\<lambda>x. x\<lparr>filp_flags := nat (or (and (int (filp_flags x)) (not (int (or O_NONBLOCK O_APPEND)))) (and (m_addr m) (int (or O_NONBLOCK O_APPEND))))\<rparr>) st0, 0, None)
       else if req = F_GETLK \<or> req = F_SETLK \<or> req = F_SETLKW then lock_op S m f req st0
       else if req = F_FREESP then
         (if i_type (i_mode (inodes st0 rip)) \<noteq> I_REGULAR then Some (st0, EMOLINVAL, None)
          else if fst (m_copy m) \<noteq> 0 then Some (st0, fst (m_copy m), None)
          else
           (case freesp_start x (i_size (inodes st0 rip)) fl of None \<Rightarrow> Some (st0, EMOLINVAL, None)
            | Some start \<Rightarrow>
              if l_len fl > 0 then
                (let end0 = (start + l_len fl) mod 2 ^ 32
                 in if end0 \<le> start then Some (st0, EMOLINVAL, None)
                    else map_option (\<lambda>(s, r). (s, r, None)) (freesp_inode E rip start end0 st0))
              else map_option (\<lambda>(s, r). (s, r, None)) (truncate_inode E rip start st0)))
       else Some (st0, EMOLINVAL, None))"

section \<open>The lock table as a set of locked bytes\<close>

definition lock_covers :: "file_lock \<Rightarrow> nat \<Rightarrow> int \<Rightarrow> nat \<Rightarrow> nat \<Rightarrow> bool" where
  "lock_covers l ino pid ty b \<longleftrightarrow> ty \<noteq> 0 \<and> lock_type l = ty \<and> lock_inode l = ino \<and> lock_pid l = pid \<and> lock_first l \<le> b \<and> b \<le> lock_last l"

text \<open>Process \<open>pid\<close> holds a lock of type \<open>ty\<close> on byte \<open>b\<close> of the file.\<close>

definition held :: "file_lock list \<Rightarrow> nat \<Rightarrow> int \<Rightarrow> nat \<Rightarrow> nat \<Rightarrow> bool" where
  "held ls ino pid ty b \<longleftrightarrow> (\<exists>k < length ls. lock_covers (ls ! k) ino pid ty b)"

definition lock_count :: "file_lock list \<Rightarrow> int" where
  "lock_count ls = int (length (filter (\<lambda>l. lock_type l \<noteq> 0) ls))"

definition locks_wf :: "file_lock list \<Rightarrow> int \<Rightarrow> bool" where
  "locks_wf ls nr \<longleftrightarrow> length ls = NR_LOCKS \<and> nr = lock_count ls \<and> (\<forall>l \<in> set ls. lock_type l \<le> 2 \<and> (lock_type l \<noteq> 0 \<longrightarrow> lock_first l \<le> lock_last l))"

text \<open>No byte is locked by two processes unless both have read locks.\<close>

definition exclusive :: "file_lock list \<Rightarrow> bool" where
  "exclusive ls \<longleftrightarrow> (\<forall>ino p q t u b. held ls ino p t b \<and> held ls ino q u b \<and> p \<noteq> q \<longrightarrow> t = F_RDLCK \<and> u = F_RDLCK)"

lemma filter_update:
  "i < length xs \<Longrightarrow> int (length (filter P (xs[i := x]))) = int (length (filter P xs)) - (if P (xs ! i) then 1 else 0) + (if P x then 1 else 0)"
proof (induction xs arbitrary: i)
  case (Cons a xs)
  show ?case
  proof (cases i)
    case (Suc k)
    then show ?thesis using Cons.IH [of k] Cons.prems by (auto split: if_splits)
  qed simp
qed simp

lemma lock_count_update: "i < length ls \<Longrightarrow> lock_count (ls[i := x]) = lock_count ls - (if lock_type (ls ! i) \<noteq> 0 then 1 else 0) + (if lock_type x \<noteq> 0 then 1 else 0)"
  unfolding lock_count_def by (subst filter_update) auto

lemma lock_count_free: "length ls = NR_LOCKS \<Longrightarrow> lock_count ls \<noteq> int NR_LOCKS \<Longrightarrow> \<exists>j < NR_LOCKS. lock_type (ls ! j) = 0"
proof (rule ccontr)
  assume a: "length ls = NR_LOCKS" "lock_count ls \<noteq> int NR_LOCKS" "\<not> (\<exists>j < NR_LOCKS. lock_type (ls ! j) = 0)"
  have "filter (\<lambda>l. lock_type l \<noteq> 0) ls = ls" using a(1,3) by (intro filter_True) (auto simp: in_set_conv_nth)
  then show False using a(1,2) by (simp add: lock_count_def)
qed

lemma free_slot:
  assumes "length ls = NR_LOCKS" "lock_count ls \<noteq> int NR_LOCKS"
  obtains j where "j < NR_LOCKS" "lock_type (ls ! j) = 0" "find (\<lambda>j. lock_type (ls ! j) = 0) [0 ..< NR_LOCKS] = Some j"
proof (cases "find (\<lambda>j. lock_type (ls ! j) = 0) [0 ..< NR_LOCKS]")
  case None
  then show ?thesis using lock_count_free [OF assms] by (auto simp: find_None_iff)
next
  case (Some j)
  then have "j \<in> set [0 ..< NR_LOCKS]" "lock_type (ls ! j) = 0" unfolding find_Some_iff by (metis nth_mem)+
  then show ?thesis using that Some by auto
qed

lemma held_update:
  assumes "i < length ls"
  shows "held (ls[i := x]) ino p t b \<longleftrightarrow> lock_covers x ino p t b \<or> (\<exists>k < length ls. k \<noteq> i \<and> lock_covers (ls ! k) ino p t b)"
  using assms by (auto simp: held_def nth_list_update split: if_splits)

text \<open>A slot that has nothing to do with the region.\<close>

definition clear_of :: "nat \<Rightarrow> nat \<Rightarrow> nat \<Rightarrow> file_lock \<Rightarrow> bool" where
  "clear_of ino first lastb l \<longleftrightarrow> lock_type l = 0 \<or> lock_inode l \<noteq> ino \<or> lastb < lock_first l \<or> first > lock_last l"

text \<open>What unlocking a part of the region does to the table.\<close>

definition shrunk :: "nat \<Rightarrow> nat \<Rightarrow> nat \<Rightarrow> file_lock list \<Rightarrow> file_lock list \<Rightarrow> bool" where
  "shrunk ino first lastb ls ls' \<longleftrightarrow> (\<forall>j p t b. (held ls' j p t b \<longrightarrow> held ls j p t b) \<and> (held ls j p t b \<and> \<not> (j = ino \<and> first \<le> b \<and> b \<le> lastb) \<longrightarrow> held ls' j p t b))
     \<and> (\<forall>k < NR_LOCKS. clear_of ino first lastb (ls ! k) \<longrightarrow> clear_of ino first lastb (ls' ! k))"

lemma shrunk_refl: "shrunk ino first lastb ls ls"
  by (simp add: shrunk_def)

lemma shrunk_trans: "shrunk ino first lastb ls ms \<Longrightarrow> shrunk ino first lastb ms ns \<Longrightarrow> shrunk ino first lastb ls ns"
  unfolding shrunk_def by blast

lemma locks_wf_update:
  assumes "locks_wf ls nr" "i < NR_LOCKS" "lock_type x \<le> 2" "lock_type x \<noteq> 0 \<longrightarrow> lock_first x \<le> lock_last x"
    "nr' = nr - (if lock_type (ls ! i) \<noteq> 0 then 1 else 0) + (if lock_type x \<noteq> 0 then 1 else 0)"
  shows "locks_wf (ls[i := x]) nr'"
  using assms set_update_subset_insert [of ls i x] by (auto simp: locks_wf_def lock_count_update)

lemma shrunk_split:
  assumes "i < NR_LOCKS" "j < NR_LOCKS" "i \<noteq> j" "length ls = NR_LOCKS" "lock_type (ls ! j) = 0"
    "\<And>n p t b. lock_covers x n p t b \<or> lock_covers y n p t b \<Longrightarrow> lock_covers (ls ! i) n p t b"
    "\<And>n p t b. lock_covers (ls ! i) n p t b \<Longrightarrow> \<not> (n = ino \<and> first \<le> b \<and> b \<le> lastb) \<Longrightarrow> lock_covers x n p t b \<or> lock_covers y n p t b"
    "clear_of ino first lastb x" "clear_of ino first lastb y"
  shows "shrunk ino first lastb ls (ls[j := y, i := x])"
proof -
  let ?A = "\<lambda>n p t b. \<exists>k < NR_LOCKS. k \<noteq> i \<and> k \<noteq> j \<and> lock_covers (ls ! k) n p t b"
  have e: "\<not> lock_covers (ls ! j) n p t b" for n p t b using assms(5) by (auto simp: lock_covers_def)
  have h1: "held ls n p t b \<longleftrightarrow> lock_covers (ls ! i) n p t b \<or> ?A n p t b" for n p t b using e assms(1-4) unfolding held_def by metis
  have h2: "held (ls[j := y, i := x]) n p t b \<longleftrightarrow> lock_covers x n p t b \<or> lock_covers y n p t b \<or> ?A n p t b" for n p t b
    using assms(1-4) by (auto simp: held_update nth_list_update)
  have c: "clear_of ino first lastb (ls ! k) \<Longrightarrow> clear_of ino first lastb (ls[j := y, i := x] ! k)" if "k < NR_LOCKS" for k
    using that assms(1-4,8,9) by (simp add: nth_list_update)
  show ?thesis unfolding shrunk_def h1 h2 using assms(6,7) c by blast
qed

lemma shrunk_update:
  assumes "i < NR_LOCKS" "length ls = NR_LOCKS" "\<And>n p t b. lock_covers x n p t b \<Longrightarrow> lock_covers (ls ! i) n p t b"
    "\<And>n p t b. lock_covers (ls ! i) n p t b \<Longrightarrow> \<not> (n = ino \<and> first \<le> b \<and> b \<le> lastb) \<Longrightarrow> lock_covers x n p t b" "clear_of ino first lastb x"
  shows "shrunk ino first lastb ls (ls[i := x])"
proof -
  let ?A = "\<lambda>n p t b. \<exists>k < NR_LOCKS. k \<noteq> i \<and> lock_covers (ls ! k) n p t b"
  have h1: "held ls n p t b \<longleftrightarrow> lock_covers (ls ! i) n p t b \<or> ?A n p t b" for n p t b using assms(1,2) unfolding held_def by metis
  have h2: "held (ls[i := x]) n p t b \<longleftrightarrow> lock_covers x n p t b \<or> ?A n p t b" for n p t b using assms(1,2) by (simp add: held_update)
  have c: "clear_of ino first lastb (ls ! k) \<Longrightarrow> clear_of ino first lastb (ls[i := x] ! k)" if "k < NR_LOCKS" for k
    using that assms(1,2,5) by (simp add: nth_list_update)
  show ?thesis unfolding shrunk_def h1 h2 using assms(3,4) c by blast
qed

lemma shrunk_exclusive: "shrunk ino first lastb ls ls' \<Longrightarrow> exclusive ls \<Longrightarrow> exclusive ls'"
  unfolding shrunk_def exclusive_def by meson

section \<open>Unlocking\<close>

definition unlock_step :: "nat \<Rightarrow> nat \<Rightarrow> nat \<Rightarrow> nat \<Rightarrow> lock_acc \<Rightarrow> lock_acc \<Rightarrow> bool" where
  "unlock_step ino first lastb i a a1 \<longleftrightarrow> locks_wf (la_locks a1) (la_nr a1) \<and> shrunk ino first lastb (la_locks a) (la_locks a1) \<and> clear_of ino first lastb (la_locks a1 ! i)
     \<and> (la_unlocking a \<longrightarrow> la_unlocking a1) \<and> (\<not> la_unlocking a1 \<longrightarrow> la_locks a1 = la_locks a)"

lemma unlock_one:
  assumes "locks_wf (la_locks a) (la_nr a)" "i < NR_LOCKS" "req \<noteq> F_GETLK" "first \<le> lastb"
  shows "(\<forall>is. lock_scan F_UNLCK req pid ino first lastb (i # is) a = Some (LReturn EMOLNOLCK, a\<lparr>la_unlocking := True\<rparr>))
    \<or> (\<exists>a1. unlock_step ino first lastb i a a1 \<and> (\<forall>is. lock_scan F_UNLCK req pid ino first lastb (i # is) a = lock_scan F_UNLCK req pid ino first lastb is a1))"
proof -
  let ?ls = "la_locks a" and ?l = "la_locks a ! i" and ?a = "a\<lparr>la_unlocking := True\<rparr>"
  have len: "length ?ls = NR_LOCKS" using assms(1) by (simp add: locks_wf_def)
  have ty: "lock_type ?l \<le> 2" "lock_type ?l \<noteq> 0 \<longrightarrow> lock_first ?l \<le> lock_last ?l" using assms(1,2) len by (auto simp: locks_wf_def)
  consider (skip) "clear_of ino first lastb ?l" | (whole) "\<not> clear_of ino first lastb ?l" "first \<le> lock_first ?l" "lock_last ?l \<le> lastb"
    | (front) "\<not> clear_of ino first lastb ?l" "first \<le> lock_first ?l" "lastb < lock_last ?l" | (rear) "\<not> clear_of ino first lastb ?l" "lock_first ?l < first" "lock_last ?l \<le> lastb"
    | (mid) "\<not> clear_of ino first lastb ?l" "lock_first ?l < first" "lastb < lock_last ?l" using not_le by blast
  then show ?thesis
  proof cases
    case skip
    define a1 where "a1 = (if lock_type ?l = 0 \<and> la_empty a = None then a\<lparr>la_empty := Some i\<rparr> else a)"
    have "unlock_step ino first lastb i a a1" using assms(1) skip by (simp add: unlock_step_def a1_def shrunk_refl)
    moreover have "\<forall>is. lock_scan F_UNLCK req pid ino first lastb (i # is) a = lock_scan F_UNLCK req pid ino first lastb is a1"
      using skip by (auto simp: a1_def clear_of_def Let_def)
    ultimately show ?thesis by blast
  next
    case whole
    let ?x = "?l\<lparr>lock_type := 0\<rparr>"
    have "shrunk ino first lastb ?ls (?ls[i := ?x])" using whole by (intro shrunk_update assms(2) len) (auto simp: lock_covers_def clear_of_def)
    moreover have "locks_wf (?ls[i := ?x]) (la_nr a - 1)" using whole by (intro locks_wf_update [OF assms(1,2)]) (auto simp: clear_of_def)
    ultimately have "unlock_step ino first lastb i a (?a\<lparr>la_locks := ?ls[i := ?x], la_nr := la_nr a - 1\<rparr>)"
      using len assms(2) by (simp add: unlock_step_def clear_of_def)
    moreover have "\<forall>is. lock_scan F_UNLCK req pid ino first lastb (i # is) a = lock_scan F_UNLCK req pid ino first lastb is (?a\<lparr>la_locks := ?ls[i := ?x], la_nr := la_nr a - 1\<rparr>)"
      using whole assms(3) by (auto simp: clear_of_def Let_def)
    ultimately show ?thesis by blast
  next
    case front
    let ?x = "?l\<lparr>lock_first := lastb + 1\<rparr>"
    have "shrunk ino first lastb ?ls (?ls[i := ?x])" using front by (intro shrunk_update assms(2) len) (auto simp: lock_covers_def clear_of_def)
    moreover have "locks_wf (?ls[i := ?x]) (la_nr a)" using front ty by (intro locks_wf_update [OF assms(1,2)]) auto
    ultimately have "unlock_step ino first lastb i a (?a\<lparr>la_locks := ?ls[i := ?x]\<rparr>)" using len assms(2) by (simp add: unlock_step_def clear_of_def)
    moreover have "\<forall>is. lock_scan F_UNLCK req pid ino first lastb (i # is) a = lock_scan F_UNLCK req pid ino first lastb is (?a\<lparr>la_locks := ?ls[i := ?x]\<rparr>)"
      using front assms(3) by (auto simp: clear_of_def Let_def)
    ultimately show ?thesis by blast
  next
    case rear
    let ?x = "?l\<lparr>lock_last := first - 1\<rparr>"
    have "shrunk ino first lastb ?ls (?ls[i := ?x])" using rear by (intro shrunk_update assms(2) len) (auto simp: lock_covers_def clear_of_def)
    moreover have "locks_wf (?ls[i := ?x]) (la_nr a)" using rear ty by (intro locks_wf_update [OF assms(1,2)]) auto
    ultimately have "unlock_step ino first lastb i a (?a\<lparr>la_locks := ?ls[i := ?x]\<rparr>)" using len assms(2) rear(2) by (simp add: unlock_step_def clear_of_def)
    moreover have "\<forall>is. lock_scan F_UNLCK req pid ino first lastb (i # is) a = lock_scan F_UNLCK req pid ino first lastb is (?a\<lparr>la_locks := ?ls[i := ?x]\<rparr>)"
      using rear assms(3) by (auto simp: clear_of_def Let_def)
    ultimately show ?thesis by blast
  next
    case mid
    show ?thesis
    proof (cases "la_nr a = int NR_LOCKS")
      case True
      then show ?thesis using mid assms(3) by (auto simp: clear_of_def Let_def)
    next
      case False
      then obtain j where j: "j < NR_LOCKS" "lock_type (?ls ! j) = 0" "find (\<lambda>j. lock_type (?ls ! j) = 0) [0 ..< NR_LOCKS] = Some j"
        using free_slot [OF len] assms(1) by (auto simp: locks_wf_def)
      have ij: "i \<noteq> j" using mid(1) j(2) by (auto simp: clear_of_def)
      let ?x = "?l\<lparr>lock_last := first - 1\<rparr>" and ?y = "?l\<lparr>lock_first := lastb + 1\<rparr>"
      let ?ms = "?ls[j := ?y, i := ?x]"
      have "shrunk ino first lastb ?ls ?ms" using mid by (intro shrunk_split assms(2) len j(1,2) ij) (auto simp: lock_covers_def clear_of_def)
      moreover have u: "lock_type ?l \<noteq> 0" using mid(1) by (auto simp: clear_of_def)
      moreover have "locks_wf (?ls[j := ?y]) (la_nr a + 1)" using mid ty u j(2) by (intro locks_wf_update [OF assms(1) j(1)]) auto
      then have "locks_wf ?ms (la_nr a + 1)" using mid ty ij by (intro locks_wf_update [OF _ assms(2)]) auto
      ultimately have "unlock_step ino first lastb i a (?a\<lparr>la_locks := ?ms, la_nr := la_nr a + 1\<rparr>)" using len assms(2) mid(2) by (simp add: unlock_step_def clear_of_def)
      moreover have "\<forall>is. lock_scan F_UNLCK req pid ino first lastb (i # is) a = lock_scan F_UNLCK req pid ino first lastb is (?a\<lparr>la_locks := ?ms, la_nr := la_nr a + 1\<rparr>)"
        using mid assms(3) False j(3) by (auto simp: clear_of_def Let_def)
      ultimately show ?thesis by blast
    qed
  qed
qed

lemma unlock_scan:
  assumes "locks_wf (la_locks a) (la_nr a)" "set js \<subseteq> {..< NR_LOCKS}" "req \<noteq> F_GETLK" "first \<le> lastb"
  shows "\<exists>ex a'. lock_scan F_UNLCK req pid ino first lastb js a = Some (ex, a') \<and> locks_wf (la_locks a') (la_nr a') \<and> shrunk ino first lastb (la_locks a) (la_locks a')
    \<and> (ex = LDone \<and> (\<forall>k \<in> set js. clear_of ino first lastb (la_locks a' ! k)) \<or> ex = LReturn EMOLNOLCK)"
  using assms
proof (induction js arbitrary: a)
  case Nil
  then show ?case by (simp add: shrunk_refl)
next
  case (Cons i js)
  have i: "i < NR_LOCKS" "set js \<subseteq> {..< NR_LOCKS}" using Cons.prems(2) by auto
  from unlock_one [OF Cons.prems(1) i(1) Cons.prems(3,4), of pid ino]
  show ?case
  proof (elim disjE exE conjE)
    assume "\<forall>js. lock_scan F_UNLCK req pid ino first lastb (i # js) a = Some (LReturn EMOLNOLCK, a\<lparr>la_unlocking := True\<rparr>)"
    then show ?thesis using Cons.prems(1) shrunk_refl by (auto simp del: lock_scan.simps)
  next
    fix a1 assume u: "unlock_step ino first lastb i a a1"
      "\<forall>is. lock_scan F_UNLCK req pid ino first lastb (i # is) a = lock_scan F_UNLCK req pid ino first lastb is a1"
    then have u1: "locks_wf (la_locks a1) (la_nr a1)" "shrunk ino first lastb (la_locks a) (la_locks a1)" "clear_of ino first lastb (la_locks a1 ! i)"
      by (simp_all add: unlock_step_def)
    from Cons.IH [OF u1(1) i(2) Cons.prems(3,4)] obtain ex a' where r: "lock_scan F_UNLCK req pid ino first lastb js a1 = Some (ex, a')"
      "locks_wf (la_locks a') (la_nr a')" "shrunk ino first lastb (la_locks a1) (la_locks a')"
      "ex = LDone \<and> (\<forall>k \<in> set js. clear_of ino first lastb (la_locks a' ! k)) \<or> ex = LReturn EMOLNOLCK" by blast
    moreover have "clear_of ino first lastb (la_locks a' ! i)" using u1(3) r(3) i(1) unfolding shrunk_def by blast
    ultimately show ?thesis using u(2) shrunk_trans [OF u1(2) r(3)] by (auto simp del: lock_scan.simps)
  qed
qed

lemma clear_shrunk:
  assumes "locks_wf ls' nr" "shrunk ino first lastb ls ls'" "\<forall>k < NR_LOCKS. clear_of ino first lastb (ls' ! k)"
  shows "held ls' j p t b \<longleftrightarrow> held ls j p t b \<and> \<not> (j = ino \<and> first \<le> b \<and> b \<le> lastb)"
proof -
  have "\<not> (j = ino \<and> first \<le> b \<and> b \<le> lastb)" if "held ls' j p t b"
    using that assms(1,3) by (fastforce simp: held_def lock_covers_def clear_of_def locks_wf_def)
  then show ?thesis using assms(2) unfolding shrunk_def by blast
qed

section \<open>Locking\<close>

text \<open>A lock that another process holds and that does not go with the one that is asked for.\<close>

definition in_conflict :: "nat \<Rightarrow> int \<Rightarrow> nat \<Rightarrow> nat \<Rightarrow> nat \<Rightarrow> file_lock \<Rightarrow> bool" where
  "in_conflict ltype pid ino first lastb l \<longleftrightarrow> \<not> clear_of ino first lastb l \<and> \<not> (ltype = F_RDLCK \<and> lock_type l = F_RDLCK) \<and> lock_pid l \<noteq> pid"

lemma set_scan:
  assumes "ltype = F_RDLCK \<or> ltype = F_WRLCK"
  shows "\<exists>ex a'. lock_scan ltype req pid ino first lastb js a = Some (ex, a') \<and> la_locks a' = la_locks a \<and> la_nr a' = la_nr a \<and> la_unlocking a' = la_unlocking a
    \<and> (if \<exists>k \<in> set js. in_conflict ltype pid ino first lastb (la_locks a ! k)
       then (if req = F_GETLK then ex = LDone \<and> (\<exists>k \<in> set js. la_conflict a' = Some k \<and> in_conflict ltype pid ino first lastb (la_locks a ! k))
             else ex = (if req = F_SETLK then LReturn EMOLAGAIN else LSuspend))
       else ex = LDone \<and> la_conflict a' = la_conflict a \<and> la_empty a' = (case la_empty a of None \<Rightarrow> find (\<lambda>k. lock_type (la_locks a ! k) = 0) js | Some e \<Rightarrow> Some e))"
proof (induction js arbitrary: a)
  case Nil
  then show ?case by (simp split: option.splits)
next
  case (Cons i js)
  let ?l = "la_locks a ! i"
  show ?case
  proof (cases "in_conflict ltype pid ino first lastb ?l")
    case True
    then have "lock_scan ltype req pid ino first lastb (i # js) a
        = (if req = F_GETLK then Some (LDone, a\<lparr>la_conflict := Some i\<rparr>) else Some (if req = F_SETLK then LReturn EMOLAGAIN else LSuspend, a))"
      using assms by (auto simp: in_conflict_def clear_of_def Let_def)
    then show ?thesis using True by (auto simp del: lock_scan.simps)
  next
    case False
    define a1 where "a1 = (if lock_type ?l = 0 \<and> la_empty a = None then a\<lparr>la_empty := Some i\<rparr> else a)"
    have "lock_scan ltype req pid ino first lastb (i # js) a = lock_scan ltype req pid ino first lastb js a1"
      using False assms by (auto simp: in_conflict_def clear_of_def a1_def Let_def)
    moreover have "la_locks a1 = la_locks a" "la_nr a1 = la_nr a" "la_unlocking a1 = la_unlocking a" "la_conflict a1 = la_conflict a"
      "la_empty a1 = (case la_empty a of None \<Rightarrow> if lock_type ?l = 0 then Some i else None | Some e \<Rightarrow> Some e)" by (simp_all add: a1_def split: option.splits)
    ultimately show ?thesis using Cons.IH [of a1] False by (auto simp del: lock_scan.simps split: option.splits if_splits)
  qed
qed

lemma held_set:
  assumes "locks_wf ls nr" "i < NR_LOCKS" "lock_type (ls ! i) = 0"
  shows "held (ls[i := x]) j p t b \<longleftrightarrow> lock_covers x j p t b \<or> held ls j p t b"
proof -
  have i: "i < length ls" using assms(1,2) by (simp add: locks_wf_def)
  have "\<not> lock_covers (ls ! i) j p t b" using assms(3) by (auto simp: lock_covers_def)
  then show ?thesis using held_update [OF i, of x j p t b] unfolding held_def [of ls] by metis
qed

lemma set_exclusive:
  assumes "locks_wf ls nr" "exclusive ls" "i < NR_LOCKS" "lock_type (ls ! i) = 0" "\<forall>k < NR_LOCKS. \<not> in_conflict ltype pid ino first lastb (ls ! k)"
    "x = \<lparr>lock_type = ltype, lock_pid = pid, lock_inode = ino, lock_first = first, lock_last = lastb\<rparr>"
  shows "exclusive (ls[i := x])"
proof -
  have c: "t = F_RDLCK \<and> u = F_RDLCK" if h: "lock_covers x j p t b" "held ls j q u b" "p \<noteq> q" for j p q t u b
  proof -
    obtain k where k: "k < NR_LOCKS" "lock_covers (ls ! k) j q u b" using h(2) assms(1) by (auto simp: held_def locks_wf_def)
    then show ?thesis using assms(5) h(1,3) unfolding assms(6) by (fastforce simp: lock_covers_def in_conflict_def clear_of_def)
  qed
  have d: "p = q" if "lock_covers x j p t b" "lock_covers x j q u b" for j p q t u b using that by (simp add: lock_covers_def)
  show ?thesis unfolding exclusive_def held_set [OF assms(1,3,4)] using assms(2) c d unfolding exclusive_def by metis
qed

section \<open>The contract of the lock table\<close>

definition lock_inv :: "fs_st \<Rightarrow> bool" where
  "lock_inv st \<longleftrightarrow> locks_wf (file_locks st) (nr_locks st) \<and> exclusive (file_locks st)"

lemma revive_locks: "file_locks (revive S e v st) = file_locks st" "nr_locks (revive S e v st) = nr_locks st"
  by (auto simp: revive_def upd_proc_def Let_def split: option.splits)

lemma lock_revive_locks: "file_locks (lock_revive S st) = file_locks st" "nr_locks (lock_revive S st) = nr_locks st"
proof -
  have "file_locks (foldl g st ps) = file_locks st \<and> nr_locks (foldl g st ps) = nr_locks st"
    if "\<And>s p. file_locks (g s p) = file_locks s \<and> nr_locks (g s p) = nr_locks s" for g :: "fs_st \<Rightarrow> nat \<Rightarrow> fs_st" and ps using that by (induction ps arbitrary: st) auto
  then show "file_locks (lock_revive S st) = file_locks st" "nr_locks (lock_revive S st) = nr_locks st"
    by (simp_all add: lock_revive_def Let_def revive_locks)
qed

lemma suspend_lock: "\<exists>s. suspend m XLOCK st = Some s \<and> file_locks s = file_locks st \<and> nr_locks s = nr_locks st \<and> fp_suspended (the_fp s) \<and> fp_task (the_fp s) = - XLOCK"
  by (simp add: suspend_def upd_proc_def)

text \<open>The search of \<open>lock_op\<close> in the whole table.\<close>

abbreviation lock_search where
  "lock_search ltype req pid ino first lastb st \<equiv> lock_scan ltype req pid ino first lastb [0 ..< NR_LOCKS]
     \<lparr>la_locks = file_locks st, la_nr = nr_locks st, la_empty = None, la_conflict = None, la_unlocking = False\<rparr>"

lemma search_unlock:
  assumes "lock_inv st" "req \<noteq> F_GETLK" "first \<le> lastb"
  obtains ex a where "lock_search F_UNLCK req pid ino first lastb st = Some (ex, a)" "locks_wf (la_locks a) (la_nr a)" "exclusive (la_locks a)"
    "ex = LDone \<and> (\<forall>j p t b. held (la_locks a) j p t b \<longleftrightarrow> held (file_locks st) j p t b \<and> \<not> (j = ino \<and> first \<le> b \<and> b \<le> lastb)) \<or> ex = LReturn EMOLNOLCK"
proof -
  let ?a = "\<lparr>la_locks = file_locks st, la_nr = nr_locks st, la_empty = None, la_conflict = None, la_unlocking = False\<rparr>"
  have w: "locks_wf (la_locks ?a) (la_nr ?a)" "set [0 ..< NR_LOCKS] \<subseteq> {..< NR_LOCKS}" using assms(1) by (auto simp: lock_inv_def)
  from unlock_scan [OF w assms(2,3), of pid ino]
  obtain ex a where s: "lock_search F_UNLCK req pid ino first lastb st = Some (ex, a)" "locks_wf (la_locks a) (la_nr a)" "shrunk ino first lastb (file_locks st) (la_locks a)"
    "ex = LDone \<and> (\<forall>k \<in> set [0 ..< NR_LOCKS]. clear_of ino first lastb (la_locks a ! k)) \<or> ex = LReturn EMOLNOLCK"
    unfolding lock_acc.simps by blast
  moreover have "exclusive (la_locks a)" using shrunk_exclusive [OF s(3)] assms(1) by (simp add: lock_inv_def)
  ultimately show thesis using that clear_shrunk [OF s(2,3)] by auto
qed

lemma search_set:
  assumes "lock_inv st" "req = F_SETLK \<or> req = F_SETLKW" "ltype = F_RDLCK \<or> ltype = F_WRLCK"
  obtains ex a where "lock_search ltype req pid ino first lastb st = Some (ex, a)" "la_locks a = file_locks st" "la_nr a = nr_locks st" "\<not> la_unlocking a"
    "if \<exists>k < NR_LOCKS. in_conflict ltype pid ino first lastb (file_locks st ! k) then ex = (if req = F_SETLK then LReturn EMOLAGAIN else LSuspend)
     else ex = LDone \<and> la_empty a = find (\<lambda>k. lock_type (file_locks st ! k) = 0) [0 ..< NR_LOCKS]"
proof -
  let ?a = "\<lparr>la_locks = file_locks st, la_nr = nr_locks st, la_empty = None, la_conflict = None, la_unlocking = False\<rparr>"
  let ?C = "\<exists>k \<in> set [0 ..< NR_LOCKS]. in_conflict ltype pid ino first lastb (file_locks st ! k)"
  have g: "req \<noteq> F_GETLK" using assms(2) by auto
  have c: "?C \<longleftrightarrow> (\<exists>k < NR_LOCKS. in_conflict ltype pid ino first lastb (file_locks st ! k))" by auto
  from set_scan [OF assms(3), of req pid ino first lastb "[0 ..< NR_LOCKS]" ?a]
  obtain ex a where "lock_search ltype req pid ino first lastb st = Some (ex, a)" "la_locks a = file_locks st" "la_nr a = nr_locks st" "\<not> la_unlocking a"
    "if ?C then ex = (if req = F_SETLK then LReturn EMOLAGAIN else LSuspend)
     else ex = LDone \<and> la_empty a = find (\<lambda>k. lock_type (file_locks st ! k) = 0) [0 ..< NR_LOCKS]"
    using g by (cases ?C) auto
  then show thesis using that unfolding c by blast
qed

lemma set_lock_inv:
  assumes "lock_inv st" "i < NR_LOCKS" "lock_type (file_locks st ! i) = 0" "first \<le> lastb" "ltype = F_RDLCK \<or> ltype = F_WRLCK"
    "\<not> (\<exists>k < NR_LOCKS. in_conflict ltype pid ino first lastb (file_locks st ! k))"
    "x = \<lparr>lock_type = ltype, lock_pid = pid, lock_inode = ino, lock_first = first, lock_last = lastb\<rparr>"
  shows "locks_wf ((file_locks st)[i := x]) (nr_locks st + 1)" "exclusive ((file_locks st)[i := x])"
  using assms set_exclusive [of "file_locks st" "nr_locks st" i ltype pid ino first lastb x]
  by (auto simp: lock_inv_def intro!: locks_wf_update)

lemma lock_region_ordered: "lock_region f n fl = Inr (first, lastb) \<Longrightarrow> first \<le> lastb"
  by (auto simp: lock_region_def Let_def split: if_splits)

lemma find_free: "find (\<lambda>k. lock_type (ls ! k) = 0) [0 ..< NR_LOCKS] = Some i \<Longrightarrow> i < NR_LOCKS \<and> lock_type (ls ! i) = 0"
  by (auto simp: find_Some_iff)

text \<open>The checks that \<open>lock_op\<close> makes before it looks at the table.\<close>

definition lock_allowed :: "fs_msg \<Rightarrow> nat \<Rightarrow> int \<Rightarrow> fs_st \<Rightarrow> bool" where
  "lock_allowed m f req st \<longleftrightarrow> (let x = filps st f; ltype = l_type (snd (m_copy m)) in
     fst (m_copy m) = 0 \<and> (ltype = F_UNLCK \<or> ltype = F_RDLCK \<or> ltype = F_WRLCK) \<and> \<not> (req = F_GETLK \<and> ltype = F_UNLCK)
     \<and> i_type (i_mode (inodes st (filp_ino x))) = I_REGULAR
     \<and> (req = F_GETLK \<or> (ltype = F_RDLCK \<longrightarrow> and (filp_mode x) R_BIT \<noteq> 0) \<and> (ltype = F_WRLCK \<longrightarrow> and (filp_mode x) W_BIT \<noteq> 0)))"

lemma lock_op_refused: "\<not> lock_allowed m f req st \<Longrightarrow> \<exists>r. lock_op S m f req st = Some (st, r, None) \<and> (r = EMOLINVAL \<or> r = EINVAL \<or> r = EMOLBADF)"
  by (auto simp: lock_op_def lock_allowed_def Let_def split: if_splits)

lemma lock_op_region: "lock_allowed m f req st \<Longrightarrow> lock_region (filps st f) (i_size (inodes st (filp_ino (filps st f)))) (snd (m_copy m)) = Inl r \<Longrightarrow>
    lock_op S m f req st = Some (st, r, None) \<and> (r = EMOLINVAL \<or> r = EINVAL)"
  by (auto simp: lock_op_def lock_allowed_def lock_region_def Let_def split: if_splits)

lemma lock_op_table:
  assumes "lock_allowed m f req st" "lock_region (filps st f) (i_size (inodes st (filp_ino (filps st f)))) (snd (m_copy m)) = Inr (first, lastb)" "req \<noteq> F_GETLK"
    "lock_search (l_type (snd (m_copy m))) req (fp_pid (the_fp st)) (filp_ino (filps st f)) first lastb st = Some (ex, a)"
    "st1 = st\<lparr>file_locks := la_locks a, nr_locks := la_nr a\<rparr>" "st2 = (if la_unlocking a then lock_revive S st1 else st1)"
  shows "lock_op S m f req st = (case ex of LReturn code \<Rightarrow> Some (st1, code, None) | LSuspend \<Rightarrow> map_option (\<lambda>s. (s, SUSPEND, None)) (suspend m XLOCK st1)
    | LDone \<Rightarrow>
      if l_type (snd (m_copy m)) = F_UNLCK then Some (st2, 0, None)
      else (case la_empty a of None \<Rightarrow> Some (st2, EMOLNOLCK, None)
        | Some i \<Rightarrow> Some (st2\<lparr>file_locks := (file_locks st2)[i := \<lparr>lock_type = l_type (snd (m_copy m)), lock_pid = fp_pid (the_fp st), lock_inode = filp_ino (filps st f),
            lock_first = first, lock_last = lastb\<rparr>], nr_locks := nr_locks st2 + 1\<rparr>, 0, None)))"
proof -
  have c: "fst (m_copy m) = 0" "l_type (snd (m_copy m)) = F_UNLCK \<or> l_type (snd (m_copy m)) = F_RDLCK \<or> l_type (snd (m_copy m)) = F_WRLCK"
    "i_type (i_mode (inodes st (filp_ino (filps st f)))) = I_REGULAR" "l_type (snd (m_copy m)) = F_RDLCK \<longrightarrow> and (filp_mode (filps st f)) R_BIT \<noteq> 0"
    "l_type (snd (m_copy m)) = F_WRLCK \<longrightarrow> and (filp_mode (filps st f)) W_BIT \<noteq> 0"
    using assms(1,3) by (auto simp: lock_allowed_def Let_def)
  have "lock_op S m f req st = (case lock_region (filps st f) (i_size (inodes st (filp_ino (filps st f)))) (snd (m_copy m)) of Inl code \<Rightarrow> Some (st, code, None)
    | Inr (first, lastb) \<Rightarrow> lock_found S m f req first lastb st)"
    unfolding lock_op_def lock_found_def Let_def using c assms(3) by auto
  then show ?thesis using assms(2-6) by (cases ex; cases "la_unlocking a"; cases "la_empty a") (simp_all add: lock_found_def Let_def)
qed

text \<open>What the call has to do to the locked bytes.\<close>

definition lock_effect :: "nat \<Rightarrow> int \<Rightarrow> nat \<Rightarrow> nat \<Rightarrow> nat \<Rightarrow> file_lock list \<Rightarrow> file_lock list \<Rightarrow> bool" where
  "lock_effect ltype pid ino first lastb ls ls' \<longleftrightarrow> (\<forall>j p t b. held ls' j p t b \<longleftrightarrow>
     (if ltype = F_UNLCK then held ls j p t b \<and> \<not> (j = ino \<and> first \<le> b \<and> b \<le> lastb)
      else held ls j p t b \<or> j = ino \<and> p = pid \<and> t = ltype \<and> first \<le> b \<and> b \<le> lastb))"

lemma unlock_op:
  assumes "lock_inv st" "lock_allowed m f req st" "lock_region (filps st f) (i_size (inodes st (filp_ino (filps st f)))) (snd (m_copy m)) = Inr (first, lastb)" "req \<noteq> F_GETLK"
    "l_type (snd (m_copy m)) = F_UNLCK" "ino = filp_ino (filps st f)"
  shows "\<exists>s r. lock_op S m f req st = Some (s, r, None) \<and> lock_inv s
    \<and> (r = 0 \<and> lock_effect F_UNLCK pid ino first lastb (file_locks st) (file_locks s) \<or> r = EMOLNOLCK)"
proof -
  from search_unlock [OF assms(1,4) lock_region_ordered [OF assms(3)], of "fp_pid (the_fp st)" ino]
  obtain ex a where s: "lock_search F_UNLCK req (fp_pid (the_fp st)) ino first lastb st = Some (ex, a)" "locks_wf (la_locks a) (la_nr a)" "exclusive (la_locks a)"
    "ex = LDone \<and> (\<forall>j p t b. held (la_locks a) j p t b \<longleftrightarrow> held (file_locks st) j p t b \<and> \<not> (j = ino \<and> first \<le> b \<and> b \<le> lastb)) \<or> ex = LReturn EMOLNOLCK" by blast
  note t = lock_op_table [OF assms(2-4) _ refl refl, unfolded assms(5) assms(6) [symmetric], OF s(1), of S]
  show ?thesis using s(4)
  proof
    assume e: "ex = LReturn EMOLNOLCK"
    show ?thesis unfolding t using s(2,3) e by (simp add: lock_inv_def)
  next
    assume "ex = LDone \<and> (\<forall>j p t b. held (la_locks a) j p t b \<longleftrightarrow> held (file_locks st) j p t b \<and> \<not> (j = ino \<and> first \<le> b \<and> b \<le> lastb))"
    then show ?thesis unfolding t using s(2,3) by (auto simp: lock_inv_def lock_effect_def lock_revive_locks)
  qed
qed

lemma set_op:
  assumes "lock_inv st" "lock_allowed m f req st" "lock_region (filps st f) (i_size (inodes st (filp_ino (filps st f)))) (snd (m_copy m)) = Inr (first, lastb)"
    "req = F_SETLK \<or> req = F_SETLKW" "ltype = l_type (snd (m_copy m))" "ltype = F_RDLCK \<or> ltype = F_WRLCK" "ino = filp_ino (filps st f)" "pid = fp_pid (the_fp st)"
    "C \<longleftrightarrow> (\<exists>k < NR_LOCKS. in_conflict ltype pid ino first lastb (file_locks st ! k))"
  shows "\<exists>s r. lock_op S m f req st = Some (s, r, None) \<and> lock_inv s
    \<and> (if C then r = (if req = F_SETLK then EMOLAGAIN else SUSPEND) \<and> file_locks s = file_locks st \<and> (req = F_SETLKW \<longrightarrow> fp_suspended (the_fp s) \<and> fp_task (the_fp s) = - XLOCK)
       else if lock_count (file_locks st) = int NR_LOCKS then r = EMOLNOLCK \<and> file_locks s = file_locks st
       else r = 0 \<and> lock_effect ltype pid ino first lastb (file_locks st) (file_locks s))"
proof -
  obtain ex a where s: "lock_search ltype req pid ino first lastb st = Some (ex, a)" "la_locks a = file_locks st" "la_nr a = nr_locks st" "\<not> la_unlocking a"
    "if C then ex = (if req = F_SETLK then LReturn EMOLAGAIN else LSuspend) else ex = LDone \<and> la_empty a = find (\<lambda>k. lock_type (file_locks st ! k) = 0) [0 ..< NR_LOCKS]"
    unfolding assms(9) by (rule search_set [OF assms(1,4,6)])
  have g: "req \<noteq> F_GETLK" using assms(4) by auto
  have l: "length (file_locks st) = NR_LOCKS" "nr_locks st = lock_count (file_locks st)" using assms(1) by (simp_all add: lock_inv_def locks_wf_def)
  note t = lock_op_table [OF assms(2,3) g _ refl refl, folded assms(5,7,8), OF s(1), of S]
  have st1: "st\<lparr>file_locks := la_locks a, nr_locks := la_nr a\<rparr> = st" using s(2,3) by simp
  show ?thesis
  proof (cases C)
    case True
    then show ?thesis unfolding t using s(5) suspend_lock [of m st] assms(1,4) by (auto simp: st1 lock_inv_def)
  next
    case C: False
    show ?thesis
    proof (cases "find (\<lambda>k. lock_type (file_locks st ! k) = 0) [0 ..< NR_LOCKS]")
      case None
      then have "lock_count (file_locks st) = int NR_LOCKS" using lock_count_free [OF l(1)] by (fastforce simp: find_None_iff)
      then show ?thesis unfolding t using s(4,5) C None assms(1,6) by (auto simp: st1)
    next
      case (Some i)
      note i = find_free [OF Some]
      have "lock_count (file_locks st) \<noteq> int NR_LOCKS"
        using length_filter_less [of "file_locks st ! i" "file_locks st" "\<lambda>l. lock_type l \<noteq> 0"] i l(1) by (simp add: lock_count_def)
      moreover let ?x = "\<lparr>lock_type = ltype, lock_pid = pid, lock_inode = ino, lock_first = first, lock_last = lastb\<rparr>"
      note v = set_lock_inv [OF assms(1) conjunct1 [OF i] conjunct2 [OF i] lock_region_ordered [OF assms(3)] assms(6) C [unfolded assms(9)] refl]
      have "held ((file_locks st)[i := ?x]) j p t b \<longleftrightarrow> held (file_locks st) j p t b \<or> j = ino \<and> p = pid \<and> t = ltype \<and> first \<le> b \<and> b \<le> lastb" for j p t b
        using held_set [of "file_locks st" "nr_locks st" i ?x j p t b] i assms(1,6) by (auto simp: lock_inv_def lock_covers_def)
      ultimately show ?thesis unfolding t using s(4,5) C Some assms(6) v by (auto simp: st1 lock_inv_def lock_effect_def)
    qed
  qed
qed

text \<open>C10: Record locks refine a set of locked bytes: setting or clearing a lock with \<open>fcntl\<close> always returns, keeps the table in order (eight slots, \<open>nr_locks\<close> of
  them in use, no empty regions) and the locks exclusive, so that no byte of a file is locked by two processes unless both have read locks.  When
  the call succeeds, a lock adds exactly the bytes of the region to what the caller holds, and an unlock takes exactly the bytes of the region
  from what is held on the file, splitting locks where necessary (it takes them from every process, not only from the caller).  A call is refused
  with \<open>EMOLAGAIN\<close>, or suspends the caller, only when another process has a lock that does not go with it, and a lock that fails changes
  nothing.\<close>

theorem lock_op_refines:
  assumes "lock_inv st" "req = F_SETLK \<or> req = F_SETLKW" "x = filps st f" "fl = snd (m_copy m)" "pid = fp_pid (fprocs st (cur_fp st))"
  shows "\<exists>s r. lock_op S m f req st = Some (s, r, None) \<and> lock_inv s
    \<and> (r = 0 \<longrightarrow> (\<exists>first lastb. lock_region x (i_size (inodes st (filp_ino x))) fl = Inr (first, lastb)
         \<and> lock_effect (l_type fl) pid (filp_ino x) first lastb (file_locks st) (file_locks s)))
    \<and> (r = EMOLAGAIN \<or> r = SUSPEND \<longrightarrow> (\<exists>first lastb k. lock_region x (i_size (inodes st (filp_ino x))) fl = Inr (first, lastb)
         \<and> k < NR_LOCKS \<and> in_conflict (l_type fl) pid (filp_ino x) first lastb (file_locks st ! k)))
    \<and> (r = SUSPEND \<longrightarrow> fp_suspended (fprocs s (cur_fp s)) \<and> fp_task (fprocs s (cur_fp s)) = - XLOCK)
    \<and> (r \<noteq> 0 \<and> l_type fl \<noteq> F_UNLCK \<longrightarrow> file_locks s = file_locks st)"
proof (cases "lock_allowed m f req st")
  case False
  then show ?thesis using lock_op_refused [OF False, of S] assms(1) by auto
next
  case al: True
  have g: "req \<noteq> F_GETLK" using assms(2) by auto
  show ?thesis
  proof (cases "lock_region x (i_size (inodes st (filp_ino x))) fl")
    case (Inl r)
    then show ?thesis using lock_op_region [OF al Inl [unfolded assms(3,4)], of S] assms(1) by auto
  next
    case (Inr reg)
    obtain first lastb where reg: "lock_region x (i_size (inodes st (filp_ino x))) fl = Inr (first, lastb)" using Inr by (cases reg) auto
    have "l_type fl = F_UNLCK \<or> l_type fl = F_RDLCK \<or> l_type fl = F_WRLCK" using al assms(4) by (auto simp: lock_allowed_def Let_def)
    then show ?thesis
    proof (cases "l_type fl = F_UNLCK")
      case True
      from unlock_op [OF assms(1) al reg [unfolded assms(3,4)] g True [unfolded assms(4)] refl, of S pid] show ?thesis using True reg assms(3) by auto
    next
      case False
      then have t: "l_type fl = F_RDLCK \<or> l_type fl = F_WRLCK" using \<open>l_type fl = F_UNLCK \<or> _\<close> by simp
      let ?C = "\<exists>k < NR_LOCKS. in_conflict (l_type fl) pid (filp_ino x) first lastb (file_locks st ! k)"
      from set_op [OF assms(1) al reg [unfolded assms(3,4)] assms(2) refl _ refl refl refl, of S, folded assms(3,4,5), OF t]
      obtain s r where o: "lock_op S m f req st = Some (s, r, None)" "lock_inv s"
        "if ?C then r = (if req = F_SETLK then EMOLAGAIN else SUSPEND) \<and> file_locks s = file_locks st \<and> (req = F_SETLKW \<longrightarrow> fp_suspended (the_fp s) \<and> fp_task (the_fp s) = - XLOCK)
         else if lock_count (file_locks st) = int NR_LOCKS then r = EMOLNOLCK \<and> file_locks s = file_locks st
         else r = 0 \<and> lock_effect (l_type fl) pid (filp_ino x) first lastb (file_locks st) (file_locks s)" by blast
      have "r = 0 \<longrightarrow> lock_effect (l_type fl) pid (filp_ino x) first lastb (file_locks st) (file_locks s)" using o(3) by (auto split: if_splits)
      moreover have "r = EMOLAGAIN \<or> r = SUSPEND \<longrightarrow> ?C" using o(3) by (auto split: if_splits)
      moreover have "r = SUSPEND \<longrightarrow> fp_suspended (the_fp s) \<and> fp_task (the_fp s) = - XLOCK" using o(3) assms(2) by (auto split: if_splits)
      moreover have "r \<noteq> 0 \<longrightarrow> file_locks s = file_locks st" using o(3) by (auto split: if_splits)
      ultimately show ?thesis using o(1,2) reg by auto
    qed
  qed
qed

definition fs_locked :: fs_st where
  "fs_locked = fs_two\<lparr>filps := (\<lambda>_. fs_filp)(0 := fs_filp\<lparr>filp_mode := 6, filp_count := 1, filp_ino := 4\<rparr>),
     file_locks := (replicate 8 fs_lock)[2 := \<lparr>lock_type = 1, lock_pid = 50, lock_inode = 4, lock_first = 0, lock_last = 9\<rparr>], nr_locks := 1\<rparr>"

definition fs_ask :: "nat \<Rightarrow> fs_msg" where
  "fs_ask ty = \<lparr>m_fd = 3, m_i2 = 7, m_addr = 0, m_p1 = 0, m_offset = 0, m_whence = 0, m_call = 55,
     m_copy = (0, \<lparr>l_type = ty, l_whence = 0, l_start = 3, l_len = 4, l_pid = 0\<rparr>), m_back = 0\<rparr>"

definition fs_env :: fs_sys where
  "fs_env = \<lparr>nr_procs = 64, dev_close = (\<lambda>_ st. st), dev_open = (\<lambda>_ _ st. (st, 0))\<rparr>"

lemma held_none: "\<not> held (replicate n fs_lock) j p t b"
  by (auto simp: held_def lock_covers_def) (simp add: fs_lock_def)

lemma fs_lock_inv: "lock_inv fs_locked"
proof -
  let ?x = "\<lparr>lock_type = 1, lock_pid = 50, lock_inode = 4, lock_first = 0, lock_last = 9\<rparr>"
  have n: "locks_wf (replicate 8 fs_lock) 0" by (simp add: locks_wf_def NR_LOCKS_def lock_count_def fs_lock_def)
  have z: "lock_type (replicate 8 fs_lock ! 2) = 0" by (simp add: fs_lock_def)
  have w: "locks_wf ((replicate 8 fs_lock)[2 := ?x]) 1" by (rule locks_wf_update [OF n]) (simp_all add: NR_LOCKS_def fs_lock_def)
  have h: "held ((replicate 8 fs_lock)[2 := ?x]) j p t b \<longleftrightarrow> lock_covers ?x j p t b" for j p t b
    using held_set [OF n _ z, of ?x j p t b] held_none by (simp add: NR_LOCKS_def)
  have "exclusive ((replicate 8 fs_lock)[2 := ?x])" unfolding exclusive_def h by (auto simp: lock_covers_def)
  then show ?thesis using w by (simp add: lock_inv_def fs_locked_def)
qed

lemma fs_unlocks: "\<exists>s. lock_op fs_env (fs_ask F_UNLCK) 0 F_SETLKW fs_locked = Some (s, 0, None)"
proof -
  have i: "i_type (i_mode (inodes fs_locked 4)) = I_REGULAR" by (simp add: fs_locked_def fs_two_def i_type_def)
  have u: "[0 ..< NR_LOCKS] = [0, 1, 2, 3, 4, 5, 6, 7]" by (simp add: NR_LOCKS_def upt_rec)
  have f: "filps fs_locked 0 = \<lparr>filp_mode = 6, filp_flags = 0, filp_count = 1, filp_ino = 4, filp_pos = 0\<rparr>" by (simp add: fs_locked_def fs_filp_def)
  have l: "file_locks fs_locked = [fs_lock, fs_lock, \<lparr>lock_type = 1, lock_pid = 50, lock_inode = 4, lock_first = 0, lock_last = 9\<rparr>, fs_lock, fs_lock, fs_lock, fs_lock, fs_lock]"
    "nr_locks fs_locked = 1" "lock_type fs_lock = 0" by (simp_all add: fs_locked_def fs_lock_def numeral_nat)
  have m: "m_copy (fs_ask F_UNLCK) = (0, \<lparr>l_type = 3, l_whence = 0, l_start = 3, l_len = 4, l_pid = 0\<rparr>)" by (simp add: fs_ask_def)
  have r: "lock_region x n \<lparr>l_type = 3, l_whence = 0, l_start = 3, l_len = 4, l_pid = 0\<rparr> = Inr (3, 6)" for x n by (simp add: lock_region_def s32_def Let_def)
  show ?thesis by (simp add: lock_op_def lock_found_def i f l m r u Let_def) (simp add: NR_LOCKS_def l)
qed

theorem lock_op_refines_witness:
  "\<exists>s. lock_op fs_env (fs_ask F_UNLCK) 0 F_SETLKW fs_locked = Some (s, 0, None) \<and> lock_inv s
    \<and> held (file_locks s) 4 50 F_RDLCK 2 \<and> \<not> held (file_locks s) 4 50 F_RDLCK 5"
proof -
  have x: "filp_ino (filps fs_locked 0) = 4" by (simp add: fs_locked_def)
  have r: "lock_region f n (snd (m_copy (fs_ask F_UNLCK))) = Inr (3, 6)" for f n by (simp add: lock_region_def fs_ask_def s32_def Let_def)
  have t: "l_type (snd (m_copy (fs_ask F_UNLCK))) = F_UNLCK" by (simp add: fs_ask_def)
  have h: "held (file_locks fs_locked) 4 50 F_RDLCK 2" unfolding held_def by (rule exI [of _ 2]) (simp add: fs_locked_def lock_covers_def)
  obtain s where s: "lock_op fs_env (fs_ask F_UNLCK) 0 F_SETLKW fs_locked = Some (s, 0, None)" using fs_unlocks by blast
  have "F_SETLKW = F_SETLK \<or> F_SETLKW = F_SETLKW" by simp
  from lock_op_refines [OF fs_lock_inv this refl refl refl, of fs_env "fs_ask F_UNLCK" 0]
  have "lock_inv s" "lock_effect F_UNLCK (fp_pid (fprocs fs_locked (cur_fp fs_locked))) 4 3 6 (file_locks fs_locked) (file_locks s)" using s by (auto simp: r t x)
  then show ?thesis using s h by (simp add: lock_effect_def)
qed

section \<open>Descriptors\<close>

text \<open>Who has which open file, and how many users the table has for it.\<close>

definition opens :: "fs_st \<Rightarrow> (nat \<Rightarrow> nat \<Rightarrow> nat option) \<times> (nat \<Rightarrow> int) \<times> nat" where
  "opens st = (\<lambda>p. fp_filp (fprocs st p), \<lambda>f. filp_count (filps st f), cur_fp st)"

definition users_of :: "(nat \<Rightarrow> nat \<Rightarrow> nat option) \<Rightarrow> nat \<Rightarrow> (nat \<times> nat) set" where
  "users_of g f = {(p, k). g p k = Some f}"

definition counts_ok :: "fs_sys \<Rightarrow> (nat \<Rightarrow> nat \<Rightarrow> nat option) \<times> (nat \<Rightarrow> int) \<times> nat \<Rightarrow> bool" where
  "counts_ok S = (\<lambda>(g, n, c). c < nr_procs S \<and> (\<forall>p k f. g p k = Some f \<longrightarrow> p < nr_procs S \<and> k < MNX_OPEN_MAX \<and> f < NR_FILPS) \<and> (\<forall>f. n f = int (card (users_of g f))))"

lemma users_finite: "counts_ok S (g, n, c) \<Longrightarrow> finite (users_of g f)"
  by (rule finite_subset [of _ "{..< nr_procs S} \<times> {..< MNX_OPEN_MAX}"]) (auto simp: counts_ok_def users_of_def)

lemma counts_drop:
  assumes "counts_ok S (g, n, c)" "g c k = Some f"
  shows "counts_ok S (g(c := (g c)(k := None)), n(f := n f - 1), c)"
proof -
  have u: "users_of (g(c := (g c)(k := None))) h = users_of g h - {(c, k)}" for h by (auto simp: users_of_def split: if_splits)
  have "(c, k) \<in> users_of g h \<longleftrightarrow> h = f" for h using assms(2) by (auto simp: users_of_def)
  moreover have "card (users_of g f) > 0" using assms users_finite [OF assms(1)] by (auto simp: card_gt_0_iff users_of_def)
  ultimately show ?thesis using assms(1) by (auto simp: counts_ok_def u split: if_splits)
qed

lemma counts_add:
  assumes "counts_ok S (g, n, c)" "g c k = None" "k < MNX_OPEN_MAX" "f < NR_FILPS"
  shows "counts_ok S (g(c := (g c)(k := Some f)), n(f := n f + 1), c)"
proof -
  have u: "users_of (g(c := (g c)(k := Some f))) h = (if h = f then insert (c, k) (users_of g h) else users_of g h)" for h
    using assms(2) by (auto simp: users_of_def split: if_splits)
  have "(c, k) \<notin> users_of g f" using assms(2) by (auto simp: users_of_def)
  then show ?thesis using assms users_finite [OF assms(1)] by (auto simp: counts_ok_def u split: if_splits)
qed

lemma opens_frame: "snd (frame s) = snd (frame st) \<Longrightarrow> opens s = opens st"
  by (simp add: frame_def opens_def)

lemma opens_simps [simp]:
  "opens (st\<lparr>err_code := e\<rparr>) = opens st" "opens (st\<lparr>file_locks := l, nr_locks := n\<rparr>) = opens st" "opens (st\<lparr>inodes := i\<rparr>) = opens st" "opens (st\<lparr>fcache := c\<rparr>) = opens st"
  "opens (st\<lparr>susp_count := v\<rparr>) = opens st" "opens (st\<lparr>reviving := v\<rparr>) = opens st" "opens (st\<lparr>fs_out := v2\<rparr>) = opens st"
  by (simp_all add: opens_def)

lemma opens_upd:
  "(\<And>x. fp_filp (h x) = fp_filp x) \<Longrightarrow> opens (upd_proc p h st) = opens st"
  "(\<And>x. filp_count (h' x) = filp_count x) \<Longrightarrow> opens (upd_filp f h' st) = opens st"
  "opens (upd_inode ip g st) = opens st" "opens (set_zone ip k z st) = opens st" "opens (release_locks rip st) = opens st"
  by (auto simp: opens_def upd_proc_def upd_filp_def upd_inode_def set_zone_def release_locks_def Let_def fun_eq_iff)

lemma opens_suspend: "suspend m t st = Some s \<Longrightarrow> opens s = opens st"
  by (auto simp: suspend_def opens_upd split: if_splits)

lemma opens_revive: "opens (revive S e v st) = opens st"
  by (auto simp: revive_def opens_upd Let_def split: option.splits)

lemma opens_lock_revive: "opens (lock_revive S st) = opens st"
proof -
  have "opens (foldl g st ps) = opens st" if "\<And>s p. opens (g s p) = opens s" for g :: "fs_st \<Rightarrow> nat \<Rightarrow> fs_st" and ps using that by (induction ps arbitrary: st) auto
  then show ?thesis by (simp add: lock_revive_def Let_def opens_revive)
qed

lemma opens_lock_op: "lock_op S m f req st = Some (s, r) \<Longrightarrow> opens s = opens st"
  by (auto simp: lock_op_def lock_found_def Let_def opens_lock_revive split: if_splits option.splits sum.splits lock_exit.splits dest!: opens_suspend)

lemma opens_get_filp: "get_filp fd st = (s, x) \<Longrightarrow> opens s = opens st \<and> (x \<noteq> None \<longrightarrow> 0 \<le> fd \<and> fd < int MNX_OPEN_MAX \<and> fp_filp (the_fp st) (nat fd) = x)"
  by (auto simp: get_filp_def split: if_splits)

lemma opens_share:
  "opens st = (g, n, c) \<Longrightarrow> opens (share_filp f k st) = (g(c := (g c)(k := Some f)), n(f := n f + 1), c)"
  by (auto simp: opens_def share_filp_def upd_proc_def upd_filp_def fun_eq_iff)

lemma opens_inuse: "opens (set_inuse k st) = opens st"
  by (simp add: set_inuse_def opens_upd)

lemma get_fd_free: "get_fd start bits st = Inr (s, k, f) \<Longrightarrow> opens s = opens st \<and> start \<le> k \<and> k < MNX_OPEN_MAX \<and> fp_filp (the_fp st) k = None"
  by (auto simp: get_fd_def opens_upd find_Some_iff split: option.splits)

lemma get_fd_none: "get_fd start bits st = Inl (s, r) \<Longrightarrow> s = st \<and> (r = EMOLMFILE \<or> r = EMOLNFILE)"
  by (auto simp: get_fd_def split: option.splits)

lemma opens_close_special:
  assumes "close_special E S f rip st = Some s" "\<And>d t. opens (dev_close S d t) = opens t"
  shows "opens s = opens st"
proof -
  have "opens t = opens st" if "do_sync E st = Some t" for t using frame_do_sync [OF that] by (intro opens_frame) simp
  then show ?thesis using assms by (auto simp: close_special_def Let_def split: if_splits Option.bind_splits)
qed

lemma opens_close_last: "close_last E f rip st = Some s \<Longrightarrow> opens s = opens st"
proof -
  assume a: "close_last E f rip st = Some s"
  have "opens t = opens u" if "put_inode E (Some rip) u = Some t" for t u using frame_put_inode [OF that] by (intro opens_frame) simp
  then show ?thesis using a by (auto simp: close_last_def Let_def opens_upd split: if_splits)
qed

text \<open>Closing takes the descriptor, and one user of the open file.\<close>

lemma close_opens:
  assumes "do_close E S m st = Some (s, r)" "opens st = (g, n, c)" "\<And>d t. opens (dev_close S d t) = opens t"
  shows "if 0 \<le> m_fd m \<and> m_fd m < int MNX_OPEN_MAX \<and> g c (nat (m_fd m)) \<noteq> None
    then r = 0 \<and> opens s = (g(c := (g c)(nat (m_fd m) := None)), n(the (g c (nat (m_fd m))) := n (the (g c (nat (m_fd m)))) - 1), c)
    else r = EMOLBADF \<and> opens s = opens st"
proof (cases "0 \<le> m_fd m \<and> m_fd m < int MNX_OPEN_MAX \<and> g c (nat (m_fd m)) \<noteq> None")
  case False
  then have "get_filp (m_fd m) st = (st\<lparr>err_code := EMOLBADF\<rparr>, None)" using assms(2) by (auto simp: get_filp_def opens_def)
  then show ?thesis using assms(1) False by (auto simp: do_close_def)
next
  case True
  then obtain f where f: "g c (nat (m_fd m)) = Some f" by blast
  let ?st0 = "st\<lparr>err_code := EMOLBADF\<rparr>" and ?fd = "nat (m_fd m)"
  have gf: "get_filp (m_fd m) st = (?st0, Some f)" using True f assms(2) by (auto simp: get_filp_def opens_def)
  obtain st1 st3 where c: "close_special E S f (filp_ino (filps ?st0 f)) ?st0 = Some st1"
    "close_last E f (filp_ino (filps ?st0 f)) (upd_filp f (\<lambda>x. x\<lparr>filp_count := filp_count x - 1\<rparr>) st1) = Some st3" and r: "r = 0"
    and s: "s = release_locks (filp_ino (filps ?st0 f)) (upd_proc (cur_fp st3) (\<lambda>x. x\<lparr>fp_cloexec := unset_bit ?fd (fp_cloexec x), fp_filp := (fp_filp x)(?fd := None),
        fp_filp_inuse := (fp_filp_inuse x)(?fd := False)\<rparr>) st3)"
    using assms(1) gf by (auto simp: do_close_def Let_def split: Option.bind_splits)
  have st1: "opens st1 = opens st" using opens_close_special [OF c(1) assms(3)] by simp
  note st3 = opens_close_last [OF c(2)]
  have "opens st3 = (g, n(f := n f - 1), c)" using st1 st3 assms(2) by (auto simp: opens_def upd_filp_def fun_eq_iff)
  then have "opens s = (g(c := (g c)(?fd := None)), n(f := n f - 1), c)" by (auto simp: s opens_upd(5)) (auto simp: opens_def upd_proc_def fun_eq_iff)
  then show ?thesis using True r f by simp
qed

lemma close_counts:
  assumes "counts_ok S (opens st)" "\<And>d t. opens (dev_close S d t) = opens t" "do_close E S m st = Some (s, r)"
  shows "counts_ok S (opens s)" "0 \<le> m_fd m \<Longrightarrow> m_fd m < int MNX_OPEN_MAX \<Longrightarrow> fp_filp (the_fp s) (nat (m_fd m)) = None" "cur_fp s = cur_fp st"
    "k \<noteq> nat (m_fd m) \<Longrightarrow> fp_filp (the_fp s) k = fp_filp (the_fp st) k"
proof -
  obtain g n c where o: "opens st = (g, n, c)" by (cases "opens st") auto
  note e = close_opens [OF assms(3) o assms(2)]
  show "counts_ok S (opens s)" using e counts_drop [of S g n c "nat (m_fd m)"] assms(1) o by (auto split: if_splits)
  show "fp_filp (the_fp s) (nat (m_fd m)) = None" if "0 \<le> m_fd m" "m_fd m < int MNX_OPEN_MAX"
    using e o that by (auto simp: opens_def fun_eq_iff split: if_splits)
  show "cur_fp s = cur_fp st" using e o by (auto simp: opens_def split: if_splits)
  then show "fp_filp (the_fp s) k = fp_filp (the_fp st) k" if "k \<noteq> nat (m_fd m)"
    using e o that by (auto simp: opens_def fun_eq_iff split: if_splits)
qed

lemma share_counts:
  assumes "counts_ok S (opens st)" "fp_filp (the_fp st) k = None" "k < MNX_OPEN_MAX" "f < NR_FILPS"
  shows "counts_ok S (opens (share_filp f k st))" "fp_filp (the_fp (share_filp f k st)) k = Some f"
proof -
  obtain g n c where o: "opens st = (g, n, c)" by (cases "opens st") auto
  have "g c k = None" using o assms(2) by (auto simp: opens_def)
  then show "counts_ok S (opens (share_filp f k st))" using counts_add [OF assms(1) [unfolded o] _ assms(3,4)] opens_share [OF o] by simp
  show "fp_filp (the_fp (share_filp f k st)) k = Some f" by (simp add: share_filp_def upd_proc_def upd_filp_def)
qed

lemma counts_filp: "counts_ok S (opens st) \<Longrightarrow> fp_filp (fprocs st p) k = Some f \<Longrightarrow> f < NR_FILPS"
  by (auto simp: counts_ok_def opens_def)

lemma get_fd_fp: "get_fd start bits st = Inr (s, k, f) \<Longrightarrow> fp_filp (the_fp s) k = None"
  by (auto simp: get_fd_def upd_filp_def find_Some_iff split: option.splits)

lemma dup_counts:
  assumes "counts_ok S (opens st)" "\<And>d t. opens (dev_close S d t) = opens t" "do_dup E S m st = Some (s, r)"
  shows "counts_ok S (opens s) \<and> (r \<ge> 0 \<longrightarrow> fp_filp (fprocs s (cur_fp s)) (nat r) = fp_filp (the_fp st) (nat (and (m_fd m) (not 0x40))) \<and> fp_filp (fprocs s (cur_fp s)) (nat r) \<noteq> None)"
proof -
  let ?rfd = "and (m_fd m) (not 0x40)" and ?st0 = "st\<lparr>err_code := EMOLBADF\<rparr>"
  have c0: "counts_ok S (opens ?st0)" using assms(1) by simp
  show ?thesis
  proof (cases "snd (get_filp ?rfd st)")
    case None
    then have "get_filp ?rfd st = (?st0, None)" by (simp add: get_filp_def)
    then show ?thesis using assms(3) c0 by (auto simp: do_dup_def)
  next
    case (Some f)
    then have gf: "get_filp ?rfd st = (?st0, Some f)" by (simp add: get_filp_def)
    then have f: "fp_filp (the_fp st) (nat ?rfd) = Some f" "0 \<le> ?rfd" "f < NR_FILPS" using opens_get_filp [OF gf] counts_filp [OF assms(1)] by auto
    show ?thesis
    proof (cases "m_fd m = ?rfd")
      case True
      show ?thesis
      proof (cases "get_fd 0 0 ?st0")
        case (Inl p)
        then show ?thesis using assms(3) gf True c0 by (cases p) (auto simp: do_dup_def dest!: get_fd_none)
      next
        case (Inr q)
        obtain t k y where q: "get_fd 0 0 ?st0 = Inr (t, k, y)" using Inr by (cases q) auto
        have s: "s = set_inuse k (share_filp f k t)" "r = int k" using assms(3) gf True q by (auto simp: do_dup_def Let_def)
        have "counts_ok S (opens t)" "k < MNX_OPEN_MAX" using get_fd_free [OF q] c0 by auto
        note h = share_counts [OF this(1) get_fd_fp [OF q] this(2) f(3)]
        then show ?thesis using s f(1) by (simp add: opens_inuse) (simp add: set_inuse_def upd_proc_def)
      qed
    next
      case False
      show ?thesis
      proof (cases "m_i2 m < 0 \<or> m_i2 m \<ge> int MNX_OPEN_MAX \<or> ?rfd = m_i2 m")
        case True
        then show ?thesis using assms(3) gf False c0 f by (auto simp: do_dup_def Let_def split: if_splits)
      next
        case ok: False
        let ?m = "m\<lparr>m_fd := m_i2 m\<rparr>" and ?k = "nat (m_i2 m)"
        obtain t q where t: "do_close E S ?m ?st0 = Some (t, q)" "s = set_inuse ?k (share_filp f ?k t)" "r = m_i2 m"
          using assms(3) gf False ok by (auto simp: do_dup_def Let_def split: Option.bind_splits if_splits)
        note e = close_counts [OF c0 assms(2) t(1)]
        have "?k < MNX_OPEN_MAX" "fp_filp (the_fp t) ?k = None" using e(2) ok by auto
        note h = share_counts [OF e(1) this(2,1) f(3)]
        then show ?thesis using t(2,3) f(1) by (simp add: opens_inuse) (simp add: set_inuse_def upd_proc_def)
      qed
    qed
  qed
qed

lemma fcntl_counts:
  assumes "counts_ok S (opens st)" "do_fcntl E S m st = Some (s, r)"
  shows "counts_ok S (opens s)"
proof -
  let ?st0 = "st\<lparr>err_code := EMOLBADF\<rparr>"
  have c0: "counts_ok S (opens ?st0)" using assms(1) by simp
  have fs: "opens t = opens ?st0" if "freesp_inode E ip a b ?st0 = Some (t, x)" for ip a b t x using frame_freesp_inode [OF that] by (intro opens_frame) simp
  have tr: "opens t = opens ?st0" if "truncate_inode E ip a ?st0 = Some (t, x)" for ip a t x using frame_truncate_inode [OF that] by (intro opens_frame) simp
  show ?thesis
  proof (cases "snd (get_filp (m_fd m) st)")
    case None
    then have "get_filp (m_fd m) st = (?st0, None)" by (simp add: get_filp_def)
    then show ?thesis using assms(2) c0 by (auto simp: do_fcntl_def)
  next
    case (Some f)
    then have gf: "get_filp (m_fd m) st = (?st0, Some f)" by (simp add: get_filp_def)
    then have f: "f < NR_FILPS" using opens_get_filp [OF gf] counts_filp [OF assms(1)] by auto
    show ?thesis
    proof (cases "m_i2 m = F_DUPFD \<and> 0 \<le> m_addr m \<and> m_addr m < int MNX_OPEN_MAX")
      case dup: True
      show ?thesis
      proof (cases "get_fd (nat (m_addr m)) 0 ?st0")
        case (Inl p)
        then show ?thesis using assms(2) gf dup c0 by (cases p) (auto simp: do_fcntl_def dest!: get_fd_none)
      next
        case (Inr q)
        obtain t k y where q: "get_fd (nat (m_addr m)) 0 ?st0 = Inr (t, k, y)" using Inr by (cases q) auto
        have "s = share_filp f k t" using assms(2) gf dup q by (auto simp: do_fcntl_def Let_def)
        moreover have "counts_ok S (opens t)" "k < MNX_OPEN_MAX" using get_fd_free [OF q] c0 by auto
        ultimately show ?thesis using share_counts(1) [OF _ get_fd_fp [OF q] _ f] by simp
      qed
    next
      case False
      then have "opens s = opens ?st0" using assms(2) gf unfolding do_fcntl_def
        by (auto simp: Let_def opens_upd split: if_splits option.splits dest!: opens_lock_op fs tr)
      then show ?thesis using c0 by simp
    qed
  qed
qed

text \<open>C22: The reference counts of open files are exact: when every slot of the filp table counts the descriptors, of all processes, that lead to it, this is so
  after \<open>close\<close>, \<open>dup\<close>, \<open>dup2\<close>, \<open>lseek\<close> and every \<open>fcntl\<close>, whether they succeed or fail, and whatever the device and the locks do; a successful \<open>dup\<close>
  or \<open>dup2\<close> returns a descriptor of the caller that leads to the open file of the one duplicated.\<close>

theorem open_file_counts:
  assumes "counts_ok S (opens st)" "\<And>d t. opens (dev_close S d t) = opens t"
  shows "(\<forall>s r. do_close E S m st = Some (s, r) \<longrightarrow> counts_ok S (opens s))
    \<and> (\<forall>s r. do_dup E S m st = Some (s, r) \<longrightarrow> counts_ok S (opens s) \<and> (r \<ge> 0 \<longrightarrow>
         fp_filp (fprocs s (cur_fp s)) (nat r) = fp_filp (fprocs st (cur_fp st)) (nat (and (m_fd m) (not 0x40))) \<and> fp_filp (fprocs s (cur_fp s)) (nat r) \<noteq> None))
    \<and> (\<forall>s r. do_fcntl E S m st = Some (s, r) \<longrightarrow> counts_ok S (opens s))
    \<and> counts_ok S (opens (fst (do_lseek m st)))"
proof -
  have "opens (fst (do_lseek m st)) = opens st"
    by (auto simp: do_lseek_def get_filp_def Let_def opens_upd split: option.splits)
  then have "counts_ok S (opens (fst (do_lseek m st)))" using assms(1) by simp
  then show ?thesis using close_counts(1) [OF assms] dup_counts [OF assms] fcntl_counts [OF assms(1)] by blast
qed

definition fs_open :: fs_st where
  "fs_open = fs_locked\<lparr>fprocs := (fprocs fs_locked)(30 := fs_proc\<lparr>fp_filp := (\<lambda>_. None)(3 := Some 0), fp_filp_inuse := (\<lambda>_. False)(3 := True)\<rparr>)\<rparr>"

lemma fs_open_ok: "counts_ok fs_env (opens fs_open)"
proof -
  have "fp_filp (fprocs fs_open p) k = Some f \<longleftrightarrow> p = 30 \<and> k = 3 \<and> f = 0" for p k f
    by (simp add: fs_open_def fs_locked_def fs_two_def fs_new_def fs_mounted_def fs_proc_def)
  moreover from this have "users_of (\<lambda>p. fp_filp (fprocs fs_open p)) f = (if f = 0 then {(30, 3)} else {})" for f by (auto simp: users_of_def)
  moreover have "filp_count (filps fs_open f) = (if f = 0 then 1 else 0)" "cur_fp fs_open = 30" for f
    by (simp_all add: fs_open_def fs_locked_def fs_two_def fs_new_def fs_mounted_def fs_filp_def)
  ultimately show ?thesis by (auto simp: counts_ok_def opens_def fs_env_def MNX_OPEN_MAX_def NR_FILPS_def)
qed

theorem open_file_counts_witness:
  "\<exists>s. do_dup fs_E fs_env ((fs_ask 1)\<lparr>m_fd := 3\<rparr>) fs_open = Some (s, 0) \<and> counts_ok fs_env (opens s) \<and> fp_filp (fprocs s (cur_fp s)) 0 = Some 0"
proof -
  have p: "fprocs fs_open (cur_fp fs_open) = fs_proc\<lparr>fp_filp := (\<lambda>_. None)(3 := Some 0), fp_filp_inuse := (\<lambda>_. False)(3 := True)\<rparr>" "filp_count (filps fs_open 1) = 0" "filp_count (filps fs_open 0) = 1"
    by (simp_all add: fs_open_def fs_locked_def fs_two_def fs_new_def fs_mounted_def fs_filp_def)
  have "find P [0 ..< n] = Some 0" if "P 0" "0 < n" for P n using that by (simp add: upt_rec)
  moreover have "find (\<lambda>f. filp_count (filps (fs_open\<lparr>err_code := EMOLBADF\<rparr>) f) = 0) [0 ..< NR_FILPS] = Some 1" using p(2,3) by (simp add: NR_FILPS_def upt_rec)
  ultimately have "\<exists>s. do_dup fs_E fs_env ((fs_ask 1)\<lparr>m_fd := 3\<rparr>) fs_open = Some (s, 0)"
    by (simp add: do_dup_def get_filp_def get_fd_def p MNX_OPEN_MAX_def Let_def)
  then obtain s where s: "do_dup fs_E fs_env ((fs_ask 1)\<lparr>m_fd := 3\<rparr>) fs_open = Some (s, 0)" by blast
  have "opens (dev_close fs_env d t) = opens t" for d t by (simp add: fs_env_def)
  from open_file_counts [OF fs_open_ok this, of fs_E "(fs_ask 1)\<lparr>m_fd := 3\<rparr>"] show ?thesis using s p by auto
qed

end
