(* ===== verification/Fs_Path.thy ===== *)
theory Fs_Path
  imports Fs_Lock
begin

text \<open>
  Path names, permissions and the creation of files: \<open>src/servers/fs/path.c\<close>, \<open>protect.c\<close> and the part of \<open>open.c\<close> that opens and makes files and
  directories.  A path is the list of its bytes up to the terminating zero, and the pointer into a path is the rest of it.  A directory is a file of entries of
  64 bytes, the inode number and the name.  The code tells the names \<open>.\<close> and \<open>..\<close> that the server itself uses by the address of the string; here a
  flag \<open>own\<close> does.  Loops that may not end are partial functions; \<open>None\<close> is a loop that does not end or the end of the server.
\<close>

section \<open>Constants\<close>

definition MNX_PATH_MAX :: nat where "MNX_PATH_MAX = 255"
definition NAME_MAX :: nat where "NAME_MAX = 60"
definition DIR_ENTRY_SIZE :: nat where "DIR_ENTRY_SIZE = 64"

abbreviation (input) "slash \<equiv> 47 :: 8 word"
abbreviation (input) "ROOT_INODE \<equiv> 1 :: nat"
abbreviation (input) "SU_UID \<equiv> 0 :: int"
abbreviation (input) "SYMLOOP \<equiv> 16 :: nat"
abbreviation (input) "ENOENT \<equiv> 2 :: int"
abbreviation (input) "EACCES \<equiv> 13 :: int"
abbreviation (input) "EEXIST \<equiv> 17 :: int"
abbreviation (input) "ENOTDIR \<equiv> 20 :: int"
abbreviation (input) "EMLINK \<equiv> 31 :: int"
abbreviation (input) "ENAMETOOLONG \<equiv> 36 :: int"
abbreviation (input) "ENOTEMPTY \<equiv> 39 :: int"
abbreviation (input) "PATH_TRANSPARENT \<equiv> 0 :: nat"
abbreviation (input) "PATH_PENULTIMATE \<equiv> 1 :: nat"
abbreviation (input) "PATH_OPAQUE \<equiv> 2 :: nat"
abbreviation (input) "PATH_NONSYMBOLIC \<equiv> 4 :: nat"
abbreviation (input) "O_CREAT \<equiv> 0x40 :: nat"
abbreviation (input) "O_EXCL \<equiv> 0x80 :: nat"
abbreviation (input) "O_TRUNC \<equiv> 0x200 :: nat"
abbreviation (input) "ALL_MODES \<equiv> 0xDFF :: nat"
abbreviation (input) "RWX_MODES \<equiv> 0x1FF :: nat"
abbreviation (input) "I_SET_UID_BIT \<equiv> 0x800 :: nat"
abbreviation (input) "I_SET_GID_BIT \<equiv> 0x400 :: nat"

type_synonym name = "8 word list"

datatype dirflag = LOOK_UP | ENTER | DELETE | IS_EMPTY

section \<open>Components of a path\<close>

text \<open>The three loops of \<open>get_name\<close>; \<open>pos\<close> is the distance from \<open>old_name\<close>.\<close>

fun skip_lead :: "name \<Rightarrow> nat \<Rightarrow> name \<times> nat" where
  "skip_lead (c # cs) pos = (if c = slash then skip_lead cs (pos + 1) else (c # cs, pos))"
| "skip_lead [] pos = ([], pos)"

fun copy_name :: "name \<Rightarrow> nat \<Rightarrow> name \<Rightarrow> name \<times> name \<times> nat" where
  "copy_name (c # cs) pos np =
    (if pos < MNX_PATH_MAX \<and> c \<noteq> slash then copy_name cs (pos + 1) (if length np < NAME_MAX then np @ [c] else np) else (np, c # cs, pos))"
| "copy_name [] pos np = (np, [], pos)"

fun skip_trail :: "name \<Rightarrow> nat \<Rightarrow> name \<times> nat" where
  "skip_trail (c # cs) pos = (if c = slash \<and> pos < MNX_PATH_MAX then skip_trail cs (pos + 1) else (c # cs, pos))"
| "skip_trail [] pos = ([], pos)"

text \<open>The component and the rest, or none and \<open>ENAMETOOLONG\<close>.\<close>

definition get_name :: "name \<Rightarrow> (name \<times> name) option" where
  "get_name old_name =
    (let (r1, p1) = skip_lead old_name 0; (np, r2, p2) = copy_name r1 p1 []; (r3, p3) = skip_trail r2 p2
     in if p3 \<ge> MNX_PATH_MAX then None else Some (np, r3))"

section \<open>Permissions\<close>

definition read_only :: "nat \<Rightarrow> fs_st \<Rightarrow> int" where
  "read_only ip st = (if s_rd_only (inode_sp ip st) then EMOLROFS else 0)"

definition perm_bits :: "int \<Rightarrow> int \<Rightarrow> inode \<Rightarrow> nat" where
  "perm_bits test_uid test_gid r =
    (let bits = i_mode r in
     if test_uid = SU_UID then
       (if i_type bits = I_DIRECTORY \<or> and bits 0x49 \<noteq> 0 then or R_BIT (or W_BIT X_BIT) else or R_BIT W_BIT)
     else and (drop_bit (if test_uid = i_uid r then 6 else if test_gid = i_gid r then 3 else 0) bits) (or R_BIT (or W_BIT X_BIT)))"

definition forbidden :: "io_env \<Rightarrow> fs_msg \<Rightarrow> nat \<Rightarrow> nat \<Rightarrow> fs_st \<Rightarrow> (fs_st \<times> int) option" where
  "forbidden E m old_rip access_desired st =
    do {
      (st1, rip) \<leftarrow>
        (if i_mount (inodes st old_rip)
         then (case find (\<lambda>k. s_imount (supers st k) = Some old_rip) [1 ..< NR_SUPERS] of
                 None \<Rightarrow> Some (st, old_rip)
               | Some k \<Rightarrow> do { (s, x) \<leftarrow> get_inode E (s_dev (supers st k)) ROOT_INODE st; map_option (Pair s) x })
         else Some (st, old_rip));
      let p = the_fp st1;
      let test_uid = (if m_call m = EMOLACCES then fp_realuid p else fp_effuid p);
      let test_gid = (if m_call m = EMOLACCES then fp_realgid p else fp_effgid p);
      let perm = perm_bits test_uid test_gid (inodes st1 rip);
      let r = (if or perm access_desired \<noteq> perm then EACCES else if and access_desired W_BIT \<noteq> 0 then read_only rip st1 else 0);
      st2 \<leftarrow> (if rip \<noteq> old_rip then put_inode E (Some rip) st1 else Some st1);
      Some (st2, r)
    }"

definition do_umask :: "int \<Rightarrow> fs_st \<Rightarrow> fs_st \<times> int" where
  "do_umask co_mode st =
    (let p = the_fp st
     in (upd_proc (cur_fp st) (\<lambda>x. x\<lparr>fp_umask := unat (not (word_of_int (and co_mode (int RWX_MODES))) :: 16 word)\<rparr>) st,
         int (unat (not (word_of_nat (fp_umask p)) :: 16 word))))"

section \<open>Directories\<close>

text \<open>Entry \<open>i\<close> of a block.\<close>

definition d_ino :: "block \<Rightarrow> nat \<Rightarrow> 32 word" where
  "d_ino d i = get32 d (16 * i)"

definition cstr :: "name \<Rightarrow> name" where
  "cstr s = takeWhile (\<lambda>c. c \<noteq> 0) s"

definition d_name :: "block \<Rightarrow> nat \<Rightarrow> name" where
  "d_name d i = cstr (map (\<lambda>k. d (64 * i + 4 + k)) [0 ..< NAME_MAX])"

datatype dir_hit = Match nat | Room nat | NoHit

text \<open>The search of one block; \<open>new_slots\<close> counts the entries.\<close>

fun scan_block :: "dirflag \<Rightarrow> name \<Rightarrow> nat \<Rightarrow> block \<Rightarrow> nat list \<Rightarrow> nat \<Rightarrow> nat \<times> dir_hit" where
  "scan_block flag str old_slots d [] new_slots = (new_slots, NoHit)"
| "scan_block flag str old_slots d (i # is) new_slots =
    (let n = new_slots + 1 in
     if n > old_slots then (n, if flag = ENTER then Room i else NoHit)
     else if flag \<noteq> ENTER \<and> d_ino d i \<noteq> 0 \<and> (if flag = IS_EMPTY then d_name d i \<noteq> [46] \<and> d_name d i \<noteq> [46, 46] else d_name d i = cstr (take NAME_MAX str))
     then (n, Match i)
     else if flag = ENTER \<and> d_ino d i = 0 then (n, Room i)
     else scan_block flag str old_slots d is n)"

text \<open>The search of the blocks from position \<open>pos\<close> on; the buffer with the entry stays in use.\<close>

fun scan_dir :: "io_env \<Rightarrow> nat \<Rightarrow> dirflag \<Rightarrow> name \<Rightarrow> nat \<Rightarrow> nat list \<Rightarrow> nat \<Rightarrow> fs_st \<Rightarrow> (fs_st \<times> nat \<times> (bufno \<times> dir_hit) option) option" where
  "scan_dir E ip flag str old_slots [] new_slots st =
    (if i_size (inodes st ip) + s_block_size (inode_sp ip st) > 2 ^ 32 then None else Some (st, new_slots, None))"
| "scan_dir E ip flag str old_slots (pos # ps) new_slots st =
    do {
      (s, b) \<leftarrow> read_map E ip pos st;
      (t, n) \<leftarrow> fget E (i_dev (inodes s ip)) b NORMAL s;
      let (k, hit) = scan_block flag str old_slots (b_data (bufs (fcache t) n)) [0 ..< s_block_size (inode_sp ip t) div DIR_ENTRY_SIZE] new_slots;
      (case hit of NoHit \<Rightarrow> scan_dir E ip flag str old_slots ps k (fput E (Some n) DIRECTORY_BLOCK t) | _ \<Rightarrow> Some (t, k, Some (n, hit)))
    }"

definition touch_dir :: "nat \<Rightarrow> fs_st \<Rightarrow> fs_st" where
  "touch_dir ip st = upd_inode ip (\<lambda>r. r\<lparr>i_update := or (i_update r) (or CTIME MTIME), i_dirt := True\<rparr>) st"

definition erase_entry :: "nat \<Rightarrow> block \<Rightarrow> block" where
  "erase_entry i d = put32 (put32 d (16 * i + 15) (d_ino d i)) (16 * i) 0"

definition write_entry :: "bool \<Rightarrow> nat \<Rightarrow> name \<Rightarrow> nat \<Rightarrow> block \<Rightarrow> block" where
  "write_entry native i str numb d =
    (let s = cstr (take NAME_MAX str)
     in put32 (\<lambda>k. if 64 * i + 4 \<le> k \<and> k < 64 * i + 64 then (let j = k - (64 * i + 4) in if j < length s then s ! j else 0) else d k)
          (16 * i) (conv4 native (word_of_nat numb)))"

text \<open>The result is the state, the return value and \<open>*numb\<close>.\<close>

definition enter_dir :: "io_env \<Rightarrow> nat \<Rightarrow> name \<Rightarrow> nat \<Rightarrow> nat \<Rightarrow> (bufno \<times> nat) option \<Rightarrow> nat \<Rightarrow> fs_st \<Rightarrow> (fs_st \<times> int \<times> nat) option" where
  "enter_dir E ip str numb old_slots slot new_slots st =
    (let extended = (slot = None); k = (if extended then (new_slots + 1) mod 2 ^ 32 else new_slots) in
     if extended \<and> k = 0 then Some (st, EFBIG, numb)
     else do {
       (s, slot1) \<leftarrow>
         (case slot of Some p \<Rightarrow> Some (st, Some p)
          | None \<Rightarrow> do { (s, bp) \<leftarrow> new_block E ip (i_size (inodes st ip)) st; Some (s, map_option (\<lambda>n. (n, 0)) bp) });
       (case slot1 of None \<Rightarrow> Some (s, err_code s, numb)
        | Some (n, i) \<Rightarrow>
          do {
            let s1 = s\<lparr>fcache := set_data n (write_entry (s_native (inode_sp ip s)) i str numb (b_data (bufs (fcache s) n))) (fcache s)\<rparr>;
            let s2 = touch_dir ip (fput E (Some n) DIRECTORY_BLOCK s1);
            s3 \<leftarrow>
              (if k > old_slots
               then
                 let t = upd_inode ip (\<lambda>r. r\<lparr>i_size := (k * DIR_ENTRY_SIZE) mod 2 ^ 32\<rparr>) s2
                 in if extended then rw_inode E ip WRITING t else Some t
               else Some s2);
            Some (s3, 0, numb)
          })
     })"

definition search_dir :: "io_env \<Rightarrow> fs_msg \<Rightarrow> nat \<Rightarrow> bool \<Rightarrow> name \<Rightarrow> nat \<Rightarrow> dirflag \<Rightarrow> fs_st \<Rightarrow> (fs_st \<times> int \<times> nat) option" where
  "search_dir E m ip own str numb flag st =
    (if i_type (i_mode (inodes st ip)) \<noteq> I_DIRECTORY then Some (st, ENOTDIR, numb)
     else do {
       (st1, r) \<leftarrow>
         (if flag = IS_EMPTY then Some (st, 0)
          else if own then Some (st, if flag \<noteq> LOOK_UP then read_only ip st else 0)
          else forbidden E m ip (if flag = LOOK_UP then X_BIT else or W_BIT X_BIT) st);
       if r \<noteq> 0 then Some (st1, r, numb)
       else do {
         let bsize = s_block_size (inode_sp ip st1);
         let old_slots = i_size (inodes st1 ip) div DIR_ENTRY_SIZE;
         (st2, k, found) \<leftarrow>
           (if bsize = 0 then None else scan_dir E ip flag str old_slots (map (\<lambda>j. j * bsize) [0 ..< (i_size (inodes st1 ip) + bsize - 1) div bsize]) 0 st1);
         (case found of
            Some (n, Match i) \<Rightarrow>
              if flag = IS_EMPTY then Some (fput E (Some n) DIRECTORY_BLOCK st2, ENOTEMPTY, numb)
              else if flag = DELETE then
                Some (fput E (Some n) DIRECTORY_BLOCK (touch_dir ip (st2\<lparr>fcache := set_data n (erase_entry i (b_data (bufs (fcache st2) n))) (fcache st2)\<rparr>)), 0, numb)
              else Some (fput E (Some n) DIRECTORY_BLOCK st2, 0, unat (conv4 (s_native (inode_sp ip st2)) (d_ino (b_data (bufs (fcache st2) n)) i)))
          | Some (n, Room i) \<Rightarrow> enter_dir E ip str numb old_slots (Some (n, i)) k st2
          | _ \<Rightarrow>
            if flag \<noteq> ENTER then Some (st2, if flag = IS_EMPTY then 0 else EMOLNOENT, numb)
            else enter_dir E ip str numb old_slots None k st2)
       }
     })"

section \<open>Following a path\<close>

partial_function (option) mount_loop :: "io_env \<Rightarrow> nat \<Rightarrow> fs_st \<Rightarrow> (fs_st \<times> nat option) option" where
  "mount_loop E ip st =
    (if i_mount (inodes st ip)
     then (case find (\<lambda>k. s_imount (supers st k) = Some ip) [0 ..< NR_SUPERS] of
             None \<Rightarrow> mount_loop E ip st
           | Some k \<Rightarrow>
             do {
               s \<leftarrow> put_inode E (Some ip) st;
               (t, x) \<leftarrow> get_inode E (s_dev (supers s k)) ROOT_INODE s;
               (case x of None \<Rightarrow> Some (t, None) | Some q \<Rightarrow> mount_loop E q t)
             })
     else Some (st, Some ip))"

text \<open>The result is the state, \<open>*pdirp\<close> and the inode.\<close>

partial_function (option) advance :: "io_env \<Rightarrow> fs_msg \<Rightarrow> bool \<Rightarrow> name \<Rightarrow> nat option \<Rightarrow> fs_st \<Rightarrow> (fs_st \<times> nat option \<times> nat option) option" where
  "advance E m own str dirp st =
    (case dirp of None \<Rightarrow> if str = [] then None else Some (st, None, None)
     | Some d \<Rightarrow>
       if str = [] then do { (s, x) \<leftarrow> get_inode E (i_dev (inodes st d)) (i_num (inodes st d)) st; Some (s, Some d, x) }
       else do {
         (s1, r, numb) \<leftarrow> search_dir E m d own str 0 LOOK_UP st;
         if r \<noteq> 0 then Some (s1\<lparr>err_code := r\<rparr>, Some d, None)
         else if d = fp_rootdir (the_fp s1) \<and> cstr str = [46, 46] \<and> \<not> own
         then do { (s, x) \<leftarrow> get_inode E (i_dev (inodes s1 d)) (i_num (inodes s1 d)) s1; Some (s, Some d, x) }
         else do {
           (s2, rip) \<leftarrow> get_inode E (i_dev (inodes s1 d)) numb s1;
           (case rip of None \<Rightarrow> Some (s2, Some d, None)
            | Some ip \<Rightarrow>
              do {
                let k = i_sp (inodes s2 ip);
                (s3, dp, x) \<leftarrow>
                  (if i_num (inodes s2 ip) = ROOT_INODE \<and> i_num (inodes s2 d) = ROOT_INODE \<and> 1 < length str \<and> str ! 1 = 46
                      \<and> s_imount (supers s2 k) \<noteq> s_isup (supers s2 k)
                   then do {
                     a \<leftarrow> put_inode E (Some ip) s2;
                     b \<leftarrow> put_inode E (Some d) a;
                     mi \<leftarrow> s_imount (supers b k);
                     (c, nd) \<leftarrow> get_inode E (i_dev (inodes b mi)) (i_num (inodes b mi)) b;
                     advance E m own str nd c
                   }
                   else Some (s2, Some d, Some ip));
                (case x of None \<Rightarrow> Some (s3, dp, None) | Some q \<Rightarrow> do { (s4, z) \<leftarrow> mount_loop E q s3; Some (s4, dp, z) })
              })
         }
       })"

text \<open>The result is the state, the inode of the base directory and the path that the link text has been put into.\<close>

definition ltraverse :: "io_env \<Rightarrow> nat \<Rightarrow> name \<Rightarrow> name \<Rightarrow> nat option \<Rightarrow> fs_st \<Rightarrow> (fs_st \<times> nat option \<times> name) option" where
  "ltraverse E rip path suffix ldip st =
    do {
      (s, b) \<leftarrow> read_map E rip 0 st;
      (t, bip, path1) \<leftarrow>
        (if b \<noteq> 0
         then do {
           (t, n) \<leftarrow> fget E (i_dev (inodes s rip)) b NORMAL s;
           let sl = i_size (inodes t rip);
           if sl > 0 \<and> sl + length suffix \<le> MNX_PATH_MAX - 1
           then do {
             let p = cstr (map (b_data (bufs (fcache t) n)) [0 ..< sl] @ suffix);
             bi \<leftarrow> (if b_data (bufs (fcache t) n) 0 = slash then Some (fp_rootdir (the_fp t)) else ldip);
             Some (fput E (Some n) DIRECTORY_BLOCK (dup_inode bi t), Some bi, p)
           }
           else Some (fput E (Some n) DIRECTORY_BLOCK t, None, path)
         }
         else Some (s, None, path));
      u \<leftarrow> put_inode E (Some rip) t;
      Some (if bip = None then u\<lparr>err_code := ENOENT\<rparr> else u, bip, path1)
    }"

text \<open>The loop of \<open>parse_path\<close>; the result is the state, the inode and the last component.\<close>

partial_function (option) parse_loop :: "io_env \<Rightarrow> fs_msg \<Rightarrow> nat \<Rightarrow> nat \<Rightarrow> name \<Rightarrow> nat \<Rightarrow> fs_st \<Rightarrow> (fs_st \<times> nat option \<times> name) option" where
  "parse_loop E m action symloop path rip st =
    (case get_name path of None \<Rightarrow> do { s \<leftarrow> put_inode E (Some rip) (st\<lparr>err_code := ENAMETOOLONG\<rparr>); Some (s, None, []) }
     | Some (str, rest) \<Rightarrow>
       if rest = [] \<and> and action PATH_PENULTIMATE \<noteq> 0 then
         (if i_type (i_mode (inodes st rip)) = I_DIRECTORY then Some (st, Some rip, str)
          else do { s \<leftarrow> put_inode E (Some rip) st; Some (s\<lparr>err_code := EMOLNOTDIR\<rparr>, None, str) })
       else do {
         (s, dir_ip, x) \<leftarrow> advance E m False str (Some rip) st;
         (case x of
            None \<Rightarrow>
              if rest = [] \<and> and action PATH_NONSYMBOLIC \<noteq> 0 then Some (s, dir_ip, str)
              else do { t \<leftarrow> put_inode E dir_ip s; Some (t, None, str) }
          | Some q \<Rightarrow>
            if i_type (i_mode (inodes s q)) = I_SYMBOLIC_LINK \<and> (rest \<noteq> [] \<or> and action PATH_OPAQUE = 0) then
              do {
                (t, bip, path1) \<leftarrow> ltraverse E q path (if rest = [] then [] else slash # rest) dir_ip s;
                u \<leftarrow> put_inode E dir_ip t;
                (v, b1) \<leftarrow>
                  (if symloop + 1 > SYMLOOP then do { w \<leftarrow> put_inode E bip (u\<lparr>err_code := EMOLLOOP\<rparr>); Some (w, None) } else Some (u, bip));
                (case b1 of None \<Rightarrow> Some (v, None, str) | Some b2 \<Rightarrow> parse_loop E m action (symloop + 1) path1 b2 v)
              }
            else if i_type (i_mode (inodes s q)) \<noteq> I_SYMBOLIC_LINK \<and> rest \<noteq> [] then
              do { t \<leftarrow> put_inode E dir_ip s; parse_loop E m action symloop rest q t }
            else if and action PATH_NONSYMBOLIC \<noteq> 0 then do { t \<leftarrow> put_inode E (Some q) s; Some (t, dir_ip, str) }
            else do { t \<leftarrow> put_inode E dir_ip s; Some (t, Some q, str) })
       })"

definition parse_path :: "io_env \<Rightarrow> fs_msg \<Rightarrow> name \<Rightarrow> nat \<Rightarrow> fs_st \<Rightarrow> (fs_st \<times> nat option \<times> name) option" where
  "parse_path E m path action st =
    (let rip = (if path \<noteq> [] \<and> hd path = slash then fp_rootdir (the_fp st) else fp_workdir (the_fp st))
     in if i_nlinks (inodes st rip) = 0 \<or> path = [] then Some (st\<lparr>err_code := EMOLNOENT\<rparr>, None, [])
        else parse_loop E m action 0 path rip (dup_inode rip st))"

definition eat_path :: "io_env \<Rightarrow> fs_msg \<Rightarrow> name \<Rightarrow> fs_st \<Rightarrow> (fs_st \<times> nat option) option" where
  "eat_path E m path st = map_option (\<lambda>(s, x, _). (s, x)) (parse_path E m path PATH_TRANSPARENT st)"

definition last_dir :: "io_env \<Rightarrow> fs_msg \<Rightarrow> name \<Rightarrow> fs_st \<Rightarrow> (fs_st \<times> nat option \<times> name) option" where
  "last_dir E m path st = parse_path E m path PATH_PENULTIMATE st"

section \<open>Opening and making files\<close>

text \<open>The path of the calls is the one that \<open>fetch_name\<close> has put into \<open>user_path\<close>.\<close>

definition super_user :: "fs_st \<Rightarrow> bool" where
  "super_user st \<longleftrightarrow> fp_effuid (the_fp st) = SU_UID"

text \<open>The result is the state, the directory, the inode and the last component.\<close>

definition new_node :: "io_env \<Rightarrow> fs_msg \<Rightarrow> name \<Rightarrow> nat \<Rightarrow> nat \<Rightarrow> bool \<Rightarrow> fs_st \<Rightarrow> (fs_st \<times> nat option \<times> nat option \<times> name) option" where
  "new_node E m path bits z0 opaque st =
    do {
      (s, ld, str) \<leftarrow> parse_path E m path (if opaque then PATH_PENULTIMATE else PATH_NONSYMBOLIC) st;
      if ld = None then Some (s, None, None, str)
      else do {
        (s1, ld1, rip) \<leftarrow> advance E m False str ld s;
        full \<leftarrow>
          (if i_type bits = I_DIRECTORY
           then map_option (\<lambda>d. i_nlinks (inodes s1 d) \<ge> (if s_version (inode_sp d s1) = 1 then 127 else 32767)) ld1
           else Some False);
        if full then do { t \<leftarrow> put_inode E rip s1; Some (t\<lparr>err_code := EMLINK\<rparr>, ld1, None, str) }
        else if rip = None \<and> err_code s1 = EMOLNOENT then
          do {
            d \<leftarrow> ld1;
            (s2, x) \<leftarrow> alloc_inode E (i_dev (inodes s1 d)) bits s1;
            (case x of None \<Rightarrow> Some (s2, ld1, None, str)
             | Some ip \<Rightarrow>
               do {
                 s3 \<leftarrow> rw_inode E ip WRITING (upd_inode ip (\<lambda>r. r\<lparr>i_nlinks := i_nlinks r + 1, i_zone := (i_zone r)[0 := z0]\<rparr>) s2);
                 (s4, r, _) \<leftarrow> search_dir E m d False str (i_num (inodes s3 ip)) ENTER s3;
                 if r \<noteq> 0 then
                   do {
                     t \<leftarrow> put_inode E (Some ip) (upd_inode ip (\<lambda>r. r\<lparr>i_nlinks := i_nlinks r - 1, i_dirt := True\<rparr>) s4);
                     Some (t\<lparr>err_code := r\<rparr>, ld1, None, str)
                   }
                 else Some (s4\<lparr>err_code := 0\<rparr>, ld1, Some ip, str)
               })
          }
        else Some (s1\<lparr>err_code := if rip \<noteq> None then EMOLEXIST else err_code s1\<rparr>, ld1, rip, str)
      }
    }"

text \<open>What \<open>common_open\<close> does with a file that was there before.\<close>

definition open_existing :: "io_env \<Rightarrow> fs_sys \<Rightarrow> fs_msg \<Rightarrow> nat \<Rightarrow> nat \<Rightarrow> nat \<Rightarrow> fs_st \<Rightarrow> (fs_st \<times> int) option" where
  "open_existing E S m rip bits oflags st =
    do {
      (s, r) \<leftarrow> forbidden E m rip bits st;
      let ty = i_type (i_mode (inodes s rip));
      if r \<noteq> 0 then Some (s, r)
      else if ty = I_REGULAR then
        (if and oflags O_TRUNC \<noteq> 0
         then do {
           (t, r1) \<leftarrow> forbidden E m rip W_BIT s;
           if r1 \<noteq> 0 then Some (t, r1)
           else do {
             (u, _) \<leftarrow> truncate_inode E rip 0 t;
             v \<leftarrow> rw_inode E rip WRITING (wipe_inode rip u);
             Some (v, 0)
           }
         }
         else Some (s, 0))
      else if ty = I_DIRECTORY then Some (s, if and bits W_BIT \<noteq> 0 then EMOLISDIR else 0)
      else if ty = I_CHAR_SPECIAL \<or> ty = I_BLOCK_SPECIAL then
        Some (dev_open S (sint (word_of_nat (i_zone (inodes s rip) ! 0) :: 16 word)) (or (int bits) (and (int oflags) (not (int O_ACCMODE)))) s)
      else Some (s, 0)
    }"

text \<open>The descriptor and the filp slot are filled in, or given back.\<close>

definition claim_fd :: "nat \<Rightarrow> nat \<Rightarrow> nat \<Rightarrow> nat \<Rightarrow> fs_st \<Rightarrow> fs_st" where
  "claim_fd k f rip oflags st =
    upd_filp f (\<lambda>x. x\<lparr>filp_count := 1, filp_ino := rip, filp_flags := oflags\<rparr>)
      (set_inuse k (upd_proc (cur_fp st) (\<lambda>x. x\<lparr>fp_filp := (fp_filp x)(k := Some f)\<rparr>) st))"

definition unclaim_fd :: "nat \<Rightarrow> nat \<Rightarrow> fs_st \<Rightarrow> fs_st" where
  "unclaim_fd k f st =
    upd_filp f (\<lambda>x. x\<lparr>filp_count := 0\<rparr>)
      (upd_proc (cur_fp st) (\<lambda>x. x\<lparr>fp_filp := (fp_filp x)(k := None), fp_filp_inuse := (fp_filp_inuse x)(k := False)\<rparr>) st)"

definition finish_open :: "io_env \<Rightarrow> nat \<Rightarrow> nat \<Rightarrow> nat \<Rightarrow> int \<Rightarrow> fs_st \<Rightarrow> (fs_st \<times> int) option" where
  "finish_open E k f rip r st =
    (if r < 0 then
       (if r = SUSPEND then Some (st, r) else do { t \<leftarrow> put_inode E (Some rip) (unclaim_fd k f st); Some (t, r) })
     else Some (st, int k))"

definition common_open :: "io_env \<Rightarrow> fs_sys \<Rightarrow> fs_msg \<Rightarrow> name \<Rightarrow> nat \<Rightarrow> nat \<Rightarrow> fs_st \<Rightarrow> (fs_st \<times> int) option" where
  "common_open E S m path oflags omode st =
    (let bits = [R_BIT, W_BIT, or R_BIT W_BIT, 0] ! (and oflags O_ACCMODE) in
     case get_fd 0 bits st of Inl p \<Rightarrow> Some p
     | Inr (st1, k, f) \<Rightarrow>
       if and oflags O_CREAT \<noteq> 0 then
         do {
           (s, ld, rip, _) \<leftarrow> new_node E m path (or I_REGULAR (and (and omode ALL_MODES) (fp_umask (the_fp st1)))) NO_ZONE (and oflags O_EXCL \<noteq> 0) st1;
           let r = err_code s;
           t \<leftarrow> put_inode E ld s;
           if r \<noteq> 0 \<and> r \<noteq> EMOLEXIST then Some (t, r)
           else do {
             ip \<leftarrow> rip;
             let u = claim_fd k f ip oflags t;
             (v, r1) \<leftarrow> (if r \<noteq> 0 \<and> and oflags O_EXCL = 0 then open_existing E S m ip bits oflags u else Some (u, r));
             finish_open E k f ip r1 v
           }
         }
       else
         do {
           (s, rip) \<leftarrow> eat_path E m path st1;
           (case rip of None \<Rightarrow> Some (s, err_code s)
            | Some ip \<Rightarrow> do { (v, r) \<leftarrow> open_existing E S m ip bits oflags (claim_fd k f ip oflags s); finish_open E k f ip r v })
         })"

definition do_mknod :: "io_env \<Rightarrow> fs_msg \<Rightarrow> name \<Rightarrow> nat \<Rightarrow> nat \<Rightarrow> fs_st \<Rightarrow> (fs_st \<times> int) option" where
  "do_mknod E m path mode_bits mk_z0 st =
    (if \<not> super_user st \<and> i_type mode_bits \<noteq> I_NAMED_PIPE then Some (st, EMOLPERM)
     else do {
       (s, ld, ip, _) \<leftarrow> new_node E m path (or (i_type mode_bits) (and (and mode_bits ALL_MODES) (fp_umask (the_fp st)))) mk_z0 True st;
       t \<leftarrow> put_inode E ip s;
       u \<leftarrow> put_inode E ld t;
       Some (u, err_code u)
     })"

text \<open>The entries \<open>.\<close> and \<open>..\<close> of a new directory and the link counts.\<close>

definition fill_directory :: "io_env \<Rightarrow> fs_msg \<Rightarrow> nat \<Rightarrow> nat \<Rightarrow> name \<Rightarrow> fs_st \<Rightarrow> fs_st option" where
  "fill_directory E m rip ld str st =
    do {
      let dotdot = i_num (inodes st ld);
      let dot = i_num (inodes st rip);
      (s1, r1, _) \<leftarrow> search_dir E m rip True [46] dot ENTER st;
      (s2, r2, _) \<leftarrow> search_dir E m rip True [46, 46] dotdot ENTER s1;
      s3 \<leftarrow>
        (if r1 = 0 \<and> r2 = 0
         then Some (upd_inode ld (\<lambda>r. r\<lparr>i_nlinks := i_nlinks r + 1, i_dirt := True\<rparr>) (upd_inode rip (\<lambda>r. r\<lparr>i_nlinks := i_nlinks r + 1\<rparr>) s2))
         else do {
           (s, r, _) \<leftarrow> search_dir E m ld False str 0 DELETE s2;
           if r \<noteq> 0 then None else Some (upd_inode rip (\<lambda>r. r\<lparr>i_nlinks := i_nlinks r - 1\<rparr>) s)
         });
      Some (upd_inode rip (\<lambda>r. r\<lparr>i_dirt := True\<rparr>) s3)
    }"

definition do_mkdir :: "io_env \<Rightarrow> fs_msg \<Rightarrow> name \<Rightarrow> nat \<Rightarrow> fs_st \<Rightarrow> (fs_st \<times> int) option" where
  "do_mkdir E m path mode st =
    (let bits = or I_DIRECTORY (and (and mode RWX_MODES) (fp_umask (the_fp st))) in
     do {
       (s, ld, rip, str) \<leftarrow> new_node E m path bits 0 True st;
       if rip = None \<or> err_code s = EEXIST then
         do { t \<leftarrow> put_inode E rip s; u \<leftarrow> put_inode E ld t; Some (u, err_code u) }
       else do {
         ip \<leftarrow> rip;
         d \<leftarrow> ld;
         t \<leftarrow> fill_directory E m ip d (take (NAME_MAX - 1) (cstr str)) (upd_inode ip (\<lambda>r. r\<lparr>i_mode := bits\<rparr>) s);
         u \<leftarrow> put_inode E (Some d) t;
         v \<leftarrow> put_inode E (Some ip) u;
         Some (v, err_code v)
       }
     })"

section \<open>Modes and owners\<close>

definition do_access :: "io_env \<Rightarrow> fs_msg \<Rightarrow> name \<Rightarrow> nat \<Rightarrow> fs_st \<Rightarrow> (fs_st \<times> int) option" where
  "do_access E m path mode st =
    (if and (int mode) (not 7) \<noteq> 0 then Some (st, EMOLINVAL)
     else do {
       (s, rip) \<leftarrow> eat_path E m path st;
       (case rip of None \<Rightarrow> Some (s, err_code s)
        | Some ip \<Rightarrow> do { (t, r) \<leftarrow> forbidden E m ip mode s; u \<leftarrow> put_inode E (Some ip) t; Some (u, r) })
     })"

definition do_chmod :: "io_env \<Rightarrow> fs_msg \<Rightarrow> name \<Rightarrow> nat \<Rightarrow> fs_st \<Rightarrow> (fs_st \<times> int) option" where
  "do_chmod E m path mode st =
    do {
      (s, rip) \<leftarrow> eat_path E m path st;
      (case rip of None \<Rightarrow> Some (s, err_code s)
       | Some ip \<Rightarrow>
         let r = (if i_uid (inodes s ip) \<noteq> fp_effuid (the_fp s) \<and> \<not> super_user s then EMOLPERM else read_only ip s) in
         if r \<noteq> 0 then do { t \<leftarrow> put_inode E (Some ip) s; Some (t, r) }
         else do {
           let clear = \<not> super_user s \<and> i_gid (inodes s ip) \<noteq> fp_effgid (the_fp s);
           t \<leftarrow> put_inode E (Some ip) (upd_inode ip (\<lambda>x.
             let md = or (and (i_mode x) 0xF200) (and mode ALL_MODES)
             in x\<lparr>i_mode := if clear then and md 0xFBFF else md, i_update := or (i_update x) CTIME, i_dirt := True\<rparr>) s);
           Some (t, 0)
         })
    }"

definition do_chown :: "io_env \<Rightarrow> fs_msg \<Rightarrow> name \<Rightarrow> int \<Rightarrow> int \<Rightarrow> fs_st \<Rightarrow> (fs_st \<times> int) option" where
  "do_chown E m path owner grp st =
    do {
      (s, rip) \<leftarrow> eat_path E m path st;
      (case rip of None \<Rightarrow> Some (s, err_code s)
       | Some ip \<Rightarrow>
         let uid = i_uid (inodes s ip);
             r = (if read_only ip s \<noteq> 0 then read_only ip s
                  else if super_user s then 0
                  else if uid \<noteq> fp_effuid (the_fp s) \<or> uid \<noteq> owner \<or> fp_effgid (the_fp s) \<noteq> grp then EMOLPERM else 0);
             s1 = (if read_only ip s = 0 \<and> super_user s then upd_inode ip (\<lambda>x. x\<lparr>i_uid := sint (word_of_int owner :: 16 word)\<rparr>) s else s);
             s2 = (if r = 0
                   then upd_inode ip (\<lambda>x. x\<lparr>i_gid := sint (word_of_int grp :: 8 word), i_mode := and (i_mode x) 0xF3FF, i_update := or (i_update x) CTIME, i_dirt := True\<rparr>) s1
                   else s1)
         in do { t \<leftarrow> put_inode E (Some ip) s2; Some (t, r) })
    }"

section \<open>Components\<close>

text \<open>A path split at the slashes.\<close>

fun split_path :: "name \<Rightarrow> name list" where
  "split_path [] = [[]]"
| "split_path (c # cs) = (if c = slash then [] # split_path cs else (c # hd (split_path cs)) # tl (split_path cs))"

text \<open>The components that repeated \<open>get_name\<close> finds, as \<open>parse_path\<close> does it.\<close>

function components :: "name \<Rightarrow> name list option" where
  "components path =
    (case get_name path of None \<Rightarrow> None
     | Some (str, rest) \<Rightarrow> if rest = [] then Some [str] else if length rest < length path then map_option ((#) str) (components rest) else None)"
  by auto
termination by (relation "measure length") auto

declare components.simps [simp del]

lemma skip_lead_eq: "skip_lead cs pos = (dropWhile (\<lambda>c. c = slash) cs, pos + length (takeWhile (\<lambda>c. c = slash) cs))"
  by (induction cs pos rule: skip_lead.induct) auto

lemma skip_trail_eq: "pos + length cs < MNX_PATH_MAX \<Longrightarrow> skip_trail cs pos = (dropWhile (\<lambda>c. c = slash) cs, pos + length (takeWhile (\<lambda>c. c = slash) cs))"
  by (induction cs pos rule: skip_trail.induct) auto

lemma copy_name_eq: "pos + length cs < MNX_PATH_MAX \<Longrightarrow>
    copy_name cs pos np = (if length np < NAME_MAX then np @ take (NAME_MAX - length np) (takeWhile (\<lambda>c. c \<noteq> slash) cs) else np,
      dropWhile (\<lambda>c. c \<noteq> slash) cs, pos + length (takeWhile (\<lambda>c. c \<noteq> slash) cs))"
proof (induction cs pos np rule: copy_name.induct)
  case (1 c cs pos np)
  then show ?case by (cases "length np < NAME_MAX - 1"; cases "length np < NAME_MAX") (auto simp: take_Cons' min_def)
qed simp

text \<open>One component of a path that is short enough.\<close>

definition comp_of :: "name \<Rightarrow> name" where
  "comp_of p = takeWhile (\<lambda>c. c \<noteq> slash) (dropWhile (\<lambda>c. c = slash) p)"

definition rest_of :: "name \<Rightarrow> name" where
  "rest_of p = dropWhile (\<lambda>c. c = slash) (dropWhile (\<lambda>c. c \<noteq> slash) (dropWhile (\<lambda>c. c = slash) p))"

lemma get_name_eq: "length p < MNX_PATH_MAX \<Longrightarrow> get_name p = Some (take NAME_MAX (comp_of p), rest_of p)"
proof -
  assume p: "length p < MNX_PATH_MAX"
  let ?a = "takeWhile (\<lambda>c. c = slash) p" and ?b = "dropWhile (\<lambda>c. c = slash) p"
  let ?c = "takeWhile (\<lambda>c. c \<noteq> slash) ?b" and ?d = "dropWhile (\<lambda>c. c \<noteq> slash) ?b"
  have ab: "length ?a + length ?b = length p" using takeWhile_dropWhile_id [of "\<lambda>c. c = slash" p] by (metis length_append)
  have cd: "length ?c + length ?d = length ?b" using takeWhile_dropWhile_id [of "\<lambda>c. c \<noteq> slash" ?b] by (metis length_append)
  have ef: "length (takeWhile (\<lambda>c. c = slash) ?d) \<le> length ?d" by (rule length_takeWhile_le)
  have "copy_name ?b (length ?a) [] = (take NAME_MAX ?c, ?d, length ?a + length ?c)" using p ab by (subst copy_name_eq) (auto simp: NAME_MAX_def)
  moreover have "skip_trail ?d (length ?a + length ?c) = (dropWhile (\<lambda>c. c = slash) ?d, length ?a + length ?c + length (takeWhile (\<lambda>c. c = slash) ?d))"
    using p ab cd by (intro skip_trail_eq) simp
  ultimately show ?thesis using p ab cd ef by (simp add: get_name_def skip_lead_eq comp_of_def rest_of_def)
qed

abbreviation (input) parts :: "name \<Rightarrow> name list" where
  "parts p \<equiv> filter (\<lambda>s. s \<noteq> []) (split_path p)"

lemma parts_lead: "parts (dropWhile (\<lambda>c. c = slash) p) = parts p"
  by (induction p) auto

lemma split_path_first: "split_path p = takeWhile (\<lambda>c. c \<noteq> slash) p # (case dropWhile (\<lambda>c. c \<noteq> slash) p of [] \<Rightarrow> [] | _ # cs \<Rightarrow> split_path cs)"
  by (induction p) auto

lemma dropWhile_slash_hd: "dropWhile (\<lambda>c. c \<noteq> slash) p = d # cs \<Longrightarrow> d = slash"
  using hd_dropWhile [of "\<lambda>c. c \<noteq> slash" p] by auto

lemma parts_step: "parts p = (if comp_of p = [] then [] else comp_of p # parts (rest_of p))"
proof -
  let ?b = "dropWhile (\<lambda>c. c = slash) p"
  let ?d = "dropWhile (\<lambda>c. c \<noteq> slash) ?b"
  show ?thesis
  proof (cases ?d)
    case Nil
    have "parts p = parts ?b" by (rule parts_lead [symmetric])
    also have "\<dots> = (if comp_of p = [] then [] else [comp_of p])" unfolding comp_of_def by (subst split_path_first) (simp add: Nil)
    finally show ?thesis by (simp add: rest_of_def Nil)
  next
    case (Cons d cs)
    have d: "d = slash" by (rule dropWhile_slash_hd [OF Cons])
    have "?b \<noteq> []" using Cons by (metis dropWhile.simps(1) list.distinct(1))
    then have "comp_of p \<noteq> []" using hd_dropWhile [of "\<lambda>c. c = slash" p] unfolding comp_of_def by (cases ?b) auto
    moreover have "parts (rest_of p) = parts cs" unfolding rest_of_def Cons d using parts_lead [of cs] by simp
    moreover have "parts p = parts ?b" by (rule parts_lead [symmetric])
    moreover have "parts ?b = (if comp_of p = [] then parts cs else comp_of p # parts cs)" unfolding comp_of_def by (subst split_path_first) (simp add: Cons)
    ultimately show ?thesis by simp
  qed
qed

lemma rest_of_shorter: "comp_of p \<noteq> [] \<Longrightarrow> length (rest_of p) < length p"
proof -
  assume c: "comp_of p \<noteq> []"
  let ?b = "dropWhile (\<lambda>c. c = slash) p"
  have "length (comp_of p) + length (dropWhile (\<lambda>c. c \<noteq> slash) ?b) = length ?b"
    unfolding comp_of_def using takeWhile_dropWhile_id [of "\<lambda>c. c \<noteq> slash" ?b] by (metis length_append)
  moreover have "length ?b \<le> length p" "length (rest_of p) \<le> length (dropWhile (\<lambda>c. c \<noteq> slash) ?b)" by (simp_all add: rest_of_def length_dropWhile_le)
  moreover have "0 < length (comp_of p)" using c by simp
  ultimately show ?thesis by linarith
qed

lemma comp_of_rest: "rest_of p \<noteq> [] \<Longrightarrow> comp_of p \<noteq> [] \<and> comp_of (rest_of p) \<noteq> []"
proof -
  assume r: "rest_of p \<noteq> []"
  let ?b = "dropWhile (\<lambda>c. c = slash) p"
  have "?b \<noteq> []" using r unfolding rest_of_def by (metis dropWhile.simps(1))
  then have "comp_of p \<noteq> []" using hd_dropWhile [of "\<lambda>c. c = slash" p] unfolding comp_of_def by (cases ?b) auto
  moreover have h: "hd (rest_of p) \<noteq> slash" using r hd_dropWhile unfolding rest_of_def by blast
  then have "dropWhile (\<lambda>c. c = slash) (rest_of p) = rest_of p" using r by (cases "rest_of p") auto
  then have "comp_of (rest_of p) \<noteq> []" using r h unfolding comp_of_def by (cases "rest_of p") auto
  ultimately show ?thesis by simp
qed

text \<open>C24: Following a path finds the components of it between the slashes, whatever the number of slashes in front, between and at the end: for every path that
  \<open>fetch_name\<close> lets through, repeating \<open>get_name\<close> until the rest is empty ends, and gives the non-empty parts of the path split at the slashes, each cut after
  60 bytes (a path of slashes only has one empty component).\<close>

theorem components_split:
  "length p < MNX_PATH_MAX \<Longrightarrow> components p =
    Some (if filter (\<lambda>s. s \<noteq> []) (split_path p) = [] then [[]] else map (take NAME_MAX) (filter (\<lambda>s. s \<noteq> []) (split_path p)))"
proof (induction "length p" arbitrary: p rule: less_induct)
  case less
  note g = get_name_eq [OF less.prems]
  show ?case
  proof (cases "rest_of p = []")
    case True
    then show ?thesis using g parts_step [of p] by (subst components.simps) (auto simp: NAME_MAX_def)
  next
    case False
    note c = comp_of_rest [OF False]
    have l: "length (rest_of p) < length p" using rest_of_shorter c by blast
    have "parts (rest_of p) \<noteq> []" using parts_step [of "rest_of p"] c by (auto split: if_splits)
    then have "components (rest_of p) = Some (map (take NAME_MAX) (parts (rest_of p)))" using less.hyps [OF l] less.prems l by simp
    moreover have "parts p = comp_of p # parts (rest_of p)" using parts_step [of p] c by simp
    ultimately show ?thesis using g False l by (subst components.simps) simp
  qed
qed

theorem components_split_witness:
  "components [47, 117, 115, 114, 47, 47, 97, 115, 116, 47] = Some [[117, 115, 114], [97, 115, 116]]"
  using components_split [of "[47, 117, 115, 114, 47, 47, 97, 115, 116, 47]"] by (simp add: MNX_PATH_MAX_def NAME_MAX_def)

section \<open>The root directory\<close>

lemma get_inode_again:
  assumes "tab_unique st" "in_use st r"
  shows "get_inode E (i_dev (inodes st r)) (i_num (inodes st r)) st = Some (upd_inode r (\<lambda>x. x\<lparr>i_count := i_count x + 1\<rparr>) st, Some r)"
proof -
  let ?P = "\<lambda>i. i_count (inodes st i) > 0 \<and> i_dev (inodes st i) = i_dev (inodes st r) \<and> i_num (inodes st i) = i_num (inodes st r)"
  have u: "i = r" if "i < NR_INODES" "?P i" for i using assms that unfolding tab_unique_def in_use_def slots_def by simp
  have "?P r" "r < NR_INODES" using assms(2) by (simp_all add: in_use_def slots_def)
  moreover have "\<not> ?P j" if "j < r" for j using that u [of j] \<open>r < NR_INODES\<close> by force
  ultimately have "find ?P [0 ..< NR_INODES] = Some r" unfolding find_Some_iff by (intro exI [of _ r]) simp
  then show ?thesis by (simp add: get_inode_def)
qed

lemma in_use_more: "in_use st r \<Longrightarrow> tab_unique st \<Longrightarrow> s = upd_inode r (\<lambda>x. x\<lparr>i_count := i_count x + 1\<rparr>) st \<Longrightarrow> in_use s r \<and> tab_unique s"
proof -
  assume a: "in_use st r" "tab_unique st" "s = upd_inode r (\<lambda>x. x\<lparr>i_count := i_count x + 1\<rparr>) st"
  have "slots s = (slots st)(r := (fst (slots st r), fst (snd (slots st r)), snd (snd (slots st r)) + 1))" unfolding a(3) by (rule slots_count)
  then show ?thesis using a(1) by (intro conjI tab_unique_less [OF a(2)]) (auto simp: in_use_def split: if_splits)
qed

lemma put_inode_back: "i_count (inodes st r) > 1 \<Longrightarrow> put_inode E (Some r) st = Some (upd_inode r (\<lambda>x. x\<lparr>i_count := i_count x - 1\<rparr>) st)"
  by (simp add: put_inode_def upd_inode_def)

lemma upd_inode_twice: "upd_inode r g (upd_inode r h st) = upd_inode r (\<lambda>x. g (h x)) st"
  by (simp add: upd_inode_def)

lemma get_name_slash: "get_name [slash] = Some ([], [])"
  by (simp add: get_name_def MNX_PATH_MAX_def)

lemma eat_root:
  assumes "tab_unique st" "in_use st r" "r = fp_rootdir (the_fp st)" "i_nlinks (inodes st r) \<noteq> 0" "i_type (i_mode (inodes st r)) \<noteq> I_SYMBOLIC_LINK"
  shows "eat_path E m [slash] st = Some (upd_inode r (\<lambda>x. x\<lparr>i_count := i_count x + 1\<rparr>) st, Some r)"
proof -
  let ?d = "dup_inode r st"
  have d: "in_use ?d r" "tab_unique ?d" using in_use_more [OF assms(2,1), of ?d] by (simp_all add: dup_inode_def)
  define s where "s = upd_inode r (\<lambda>x. x\<lparr>i_count := i_count x + 1\<rparr>) ?d"
  have "advance E m False [] (Some r) ?d = Some (s, Some r, Some r)"
    by (subst advance.simps) (simp add: get_inode_again [OF d(2,1)] s_def)
  moreover have "put_inode E (Some r) s = Some (upd_inode r (\<lambda>x. x\<lparr>i_count := i_count x - 1\<rparr>) s)"
    using assms(2) by (intro put_inode_back) (simp add: s_def dup_inode_def upd_inode_def in_use_def slots_def)
  moreover have "upd_inode r (\<lambda>x. x\<lparr>i_count := i_count x - 1\<rparr>) s = upd_inode r (\<lambda>x. x\<lparr>i_count := i_count x + 1\<rparr>) st" by (simp add: s_def dup_inode_def upd_inode_twice add.commute)
  moreover have "i_type (i_mode (inodes s r)) \<noteq> I_SYMBOLIC_LINK" using assms(5) by (simp add: s_def dup_inode_def upd_inode_def)
  ultimately have "parse_loop E m PATH_TRANSPARENT 0 [slash] r ?d = Some (upd_inode r (\<lambda>x. x\<lparr>i_count := i_count x + 1\<rparr>) st, Some r, [])"
    by (subst parse_loop.simps) (simp add: get_name_slash)
  then show ?thesis using assms(3,4) by (simp add: eat_path_def parse_path_def Let_def)
qed

section \<open>Errors\<close>

text \<open>C39: Opening a file without permission succeeds.  \<open>forbidden\<close> reports the refusal with the \<open>EACCES\<close> of the C library, a positive number, and \<open>common_open\<close>
  gives the descriptor back only for negative results: when the path leads to a file whose mode does not allow the caller the access asked for,
  the call returns a descriptor for it all the same.\<close>

theorem open_without_permission:
  assumes "get_fd 0 bits st = Inr (st1, k, f)" "bits = [R_BIT, W_BIT, or R_BIT W_BIT, 0] ! (and oflags O_ACCMODE)" "and oflags O_CREAT = 0"
    and "eat_path E m path st1 = Some (s, Some ip)" "\<not> i_mount (inodes s ip)" "m_call m \<noteq> EMOLACCES"
    and "perm = perm_bits (fp_effuid (fprocs s (cur_fp s))) (fp_effgid (fprocs s (cur_fp s))) (inodes s ip)" "or perm bits \<noteq> perm"
  shows "\<exists>t. common_open E S m path oflags omode st = Some (t, int k) \<and> fp_filp (fprocs t (cur_fp t)) k = Some f \<and> filp_ino (filps t f) = ip \<and> filp_count (filps t f) = 1"
proof -
  let ?t = "claim_fd k f ip oflags s"
  have t: "inodes ?t = inodes s" "cur_fp ?t = cur_fp s" "fp_effuid (the_fp ?t) = fp_effuid (the_fp s)" "fp_effgid (the_fp ?t) = fp_effgid (the_fp s)"
    "fp_filp (the_fp ?t) k = Some f" "filp_ino (filps ?t f) = ip" "filp_count (filps ?t f) = 1"
    by (simp_all add: claim_fd_def upd_filp_def set_inuse_def upd_proc_def)
  have "forbidden E m ip bits ?t = Some (?t, EACCES)" using assms(5-8) t(1-4) by (simp add: forbidden_def Let_def)
  then have "open_existing E S m ip bits oflags ?t = Some (?t, EACCES)" by (simp add: open_existing_def Let_def)
  then have "common_open E S m path oflags omode st = Some (?t, int k)"
    unfolding common_open_def Let_def assms(2) [symmetric] using assms(1,3,4) by (simp add: finish_open_def)
  then show ?thesis using t by blast
qed

definition fs_dir :: fs_st where
  "fs_dir = fs_tab\<lparr>inodes := (\<lambda>_. fs_ino\<lparr>i_count := 0\<rparr>)(5 := fs_ino\<lparr>i_mode := 0x41C0\<rparr>), fprocs := (\<lambda>_. fs_proc\<lparr>fp_effuid := 7, fp_effgid := 7\<rparr>)\<rparr>"

lemma fs_dir_sel: "inodes fs_dir 5 = fs_ino\<lparr>i_mode := 0x41C0\<rparr>" "fprocs fs_dir p = fs_proc\<lparr>fp_effuid := 7, fp_effgid := 7\<rparr>" "filps fs_dir f = fs_filp"
  "supers fs_dir k = fs_sp" "cur_fp fs_dir = 30"
  by (simp_all add: fs_dir_def fs_tab_def fs_new_def fs_mounted_def)

lemma fs_dir_root: "tab_unique fs_dir" "in_use fs_dir 5" "i_type (i_mode (inodes fs_dir 5)) = I_DIRECTORY"
proof -
  have u: "in_use fs_dir j \<longleftrightarrow> j = 5" for j by (cases "j = 5") (simp_all add: in_use_def slots_def fs_dir_def NR_INODES_def fs_ino_def)
  then show "tab_unique fs_dir" "in_use fs_dir 5" by (simp_all add: tab_unique_def)
  show "i_type (i_mode (inodes fs_dir 5)) = I_DIRECTORY" by (simp add: fs_dir_sel i_type_def)
qed

theorem open_without_permission_witness:
  "\<exists>t. common_open fs_E fs_env (fs_ask 1) [slash] 0 0 fs_dir = Some (t, 0) \<and> fp_filp (fprocs t (cur_fp t)) 0 = Some 0 \<and> filp_ino (filps t 0) = 5
    \<and> fp_effuid (fprocs fs_dir (cur_fp fs_dir)) = 7 \<and> i_mode (inodes fs_dir 5) = 0x41C0"
proof -
  define st1 where "st1 = upd_filp 0 (\<lambda>x. x\<lparr>filp_mode := R_BIT, filp_pos := 0, filp_flags := 0\<rparr>) fs_dir"
  have f: "find P [0 ..< n] = Some 0" if "P 0" "0 < n" for P n using that by (simp add: upt_rec)
  have g: "get_fd 0 R_BIT fs_dir = Inr (st1, 0, 0)"
    by (simp add: get_fd_def fs_dir_sel fs_proc_def fs_filp_def f MNX_OPEN_MAX_def NR_FILPS_def st1_def)
  have s1: "inodes st1 = inodes fs_dir" "fprocs st1 = fprocs fs_dir" "cur_fp st1 = 30" by (simp_all add: st1_def upd_filp_def fs_dir_sel)
  then have sl: "slots st1 = slots fs_dir" by (simp add: slots_def fun_eq_iff)
  have u: "tab_unique st1" "in_use st1 5" using fs_dir_root(1,2) sl by (simp_all add: tab_unique_def in_use_def)
  define s where "s = upd_inode 5 (\<lambda>x. x\<lparr>i_count := i_count x + 1\<rparr>) st1"
  have e: "eat_path fs_E (fs_ask 1) [slash] st1 = Some (s, Some 5)" unfolding s_def
    by (rule eat_root [OF u]) (use s1 fs_dir_root(3) in \<open>simp_all add: fs_dir_sel fs_proc_def fs_ino_def\<close>)
  have p: "perm_bits (fp_effuid (fprocs s (cur_fp s))) (fp_effgid (fprocs s (cur_fp s))) (inodes s 5) = 0"
    by (simp add: s_def upd_inode_def s1 fs_dir_sel fs_proc_def fs_ino_def perm_bits_def)
  have i: "\<not> i_mount (inodes s 5)" by (simp add: s_def upd_inode_def s1 fs_dir_sel fs_ino_def)
  have b: "R_BIT = [R_BIT, W_BIT, or R_BIT W_BIT, 0] ! (and 0 O_ACCMODE)" by simp
  have "\<exists>t. common_open fs_E fs_env (fs_ask 1) [slash] 0 0 fs_dir = Some (t, int 0) \<and> fp_filp (fprocs t (cur_fp t)) 0 = Some 0 \<and> filp_ino (filps t 0) = 5 \<and> filp_count (filps t 0) = 1"
    by (rule open_without_permission [OF g b _ e i _ p [symmetric]]) (simp_all add: fs_ask_def)
  then show ?thesis by (auto simp: fs_dir_sel)
qed

lemma dir_bits: "i_type (or I_DIRECTORY (and (and mode RWX_MODES) u)) = I_DIRECTORY"
proof -
  have "and I_DIRECTORY 0xF000 = I_DIRECTORY" "and RWX_MODES 0xF000 = (0 :: nat)" by simp_all
  then have "bit (0xF000 :: nat) n \<or> \<not> bit I_DIRECTORY n" "\<not> (bit RWX_MODES n \<and> bit (0xF000 :: nat) n)" for n
    by (metis bit_and_iff, metis bit_and_iff bit_0_eq bot_apply bot_bool_def)
  then show ?thesis unfolding i_type_def by (intro bit_eqI) (auto simp: bit_and_iff bit_or_iff)
qed

text \<open>C40: Making a directory under a name that exists can stop the server.  \<open>new_node\<close> reports such a name with \<open>EMOLEXIST\<close>, and \<open>do_mkdir\<close> looks for the \<open>EEXIST\<close> of
  the C library: it goes on with the file it found as if it had just made it, gives it the mode of a directory and enters \<open>.\<close> and \<open>..\<close> into it.  On a
  file system that is mounted read-only the entries cannot be made, the name cannot be removed from the directory either, and the server
  panics.\<close>

theorem mkdir_existing_stops_server:
  assumes "bits = or I_DIRECTORY (and (and mode RWX_MODES) (fp_umask (fprocs st (cur_fp st))))" "new_node E m path bits 0 True st = Some (s, Some d, Some ip, str)"
    and "err_code s = EMOLEXIST" "s_rd_only (inode_sp ip s)" "s_rd_only (inode_sp d s)" "\<not> i_mount (inodes s d)"
  shows "do_mkdir E m path mode st = None"
proof -
  let ?s = "upd_inode ip (\<lambda>r. r\<lparr>i_mode := bits\<rparr>) s" and ?str = "take (NAME_MAX - 1) (cstr str)"
  have sp: "inode_sp j ?s = inode_sp j s" for j by (simp add: inode_sp_def upd_inode_def)
  have dir: "i_type (i_mode (inodes ?s ip)) = I_DIRECTORY" using dir_bits assms(1) by (simp add: upd_inode_def)
  have enter: "search_dir E m ip True x n ENTER ?s = Some (?s, EMOLROFS, n)" for x n
    using dir assms(4) by (simp add: search_dir_def sp read_only_def)
  have "\<not> i_mount (inodes ?s d)" using assms(6) by (auto simp: upd_inode_def)
  then have "forbidden E m d (or W_BIT X_BIT) ?s = Some (?s, EACCES) \<or> forbidden E m d (or W_BIT X_BIT) ?s = Some (?s, EMOLROFS)"
    using assms(5) by (simp add: forbidden_def Let_def read_only_def sp)
  then have "\<exists>r. r \<noteq> 0 \<and> search_dir E m d False ?str 0 DELETE ?s = Some (?s, r, 0)"
    by (cases "i_type (i_mode (inodes ?s d)) = I_DIRECTORY") (auto simp: search_dir_def)
  then have "fill_directory E m ip d ?str ?s = None" using enter by (auto simp: fill_directory_def Let_def)
  then show ?thesis using assms(2,3) unfolding do_mkdir_def Let_def assms(1) [symmetric] by simp
qed

lemma root_exists:
  assumes "tab_unique st" "in_use st r" "r = fp_rootdir (the_fp st)" "i_nlinks (inodes st r) \<noteq> 0" "i_nlinks (inodes st r) < 127" "i_type (i_mode (inodes st r)) = I_DIRECTORY"
  shows "\<exists>s. new_node E m [slash] bits 0 True st = Some (s, Some r, Some r, []) \<and> err_code s = EMOLEXIST \<and> supers s = supers st \<and> i_sp (inodes s r) = i_sp (inodes st r)
    \<and> i_mount (inodes s r) = i_mount (inodes st r)"
proof -
  let ?d = "dup_inode r st"
  let ?s = "upd_inode r (\<lambda>x. x\<lparr>i_count := i_count x + 1\<rparr>) ?d"
  have d: "in_use ?d r" "tab_unique ?d" using in_use_more [OF assms(2,1), of ?d] by (simp_all add: dup_inode_def)
  have p: "parse_path E m [slash] PATH_PENULTIMATE st = Some (?d, Some r, [])" using assms(3,4,6)
    by (simp add: parse_path_def Let_def) (subst parse_loop.simps, simp add: get_name_slash dup_inode_def upd_inode_def)
  have a: "advance E m False [] (Some r) ?d = Some (?s, Some r, Some r)" by (subst advance.simps) (simp add: get_inode_again [OF d(2,1)])
  have l: "i_nlinks (inodes ?s r) < 127" "supers ?s = supers st" "i_sp (inodes ?s r) = i_sp (inodes st r)" "i_mount (inodes ?s r) = i_mount (inodes st r)"
    using assms(5) by (simp_all add: dup_inode_def upd_inode_def)
  have "new_node E m [slash] bits 0 True st = Some (?s\<lparr>err_code := EMOLEXIST\<rparr>, Some r, Some r, [])"
    using l(1) by (simp add: new_node_def p a del: One_nat_def)
  then show ?thesis using l by simp
qed

definition fs_ro :: fs_st where
  "fs_ro = fs_dir\<lparr>supers := (\<lambda>_. fs_sp\<lparr>s_rd_only := True\<rparr>)\<rparr>"

theorem mkdir_existing_stops_server_witness: "do_mkdir fs_E (fs_ask 1) [slash] 0x1FF fs_ro = None"
proof -
  have i: "inodes fs_ro = inodes fs_dir" "fprocs fs_ro = fprocs fs_dir" "cur_fp fs_ro = 30" "supers fs_ro k = fs_sp\<lparr>s_rd_only := True\<rparr>" for k
    by (simp_all add: fs_ro_def fs_dir_sel)
  then have "slots fs_ro = slots fs_dir" by (simp add: slots_def fun_eq_iff)
  then have u: "tab_unique fs_ro" "in_use fs_ro 5" using fs_dir_root(1,2) by (simp_all add: tab_unique_def in_use_def)
  from root_exists [OF u, of fs_E "fs_ask 1"] obtain s where s: "new_node fs_E (fs_ask 1) [slash] (or I_DIRECTORY (and (and 0x1FF RWX_MODES) (fp_umask (fprocs fs_ro (cur_fp fs_ro))))) 0 True fs_ro
      = Some (s, Some 5, Some 5, [])" "err_code s = EMOLEXIST" "supers s = supers fs_ro" "i_mount (inodes s 5) = i_mount (inodes fs_ro 5)"
    using fs_dir_root(3) by (auto simp: i fs_dir_sel fs_proc_def fs_ino_def)
  show ?thesis by (rule mkdir_existing_stops_server [OF refl s(1,2)]) (simp_all add: inode_sp_def s(3,4) i fs_dir_sel fs_ino_def)
qed

section \<open>A directory as a list of entries\<close>

definition dir_block :: "super_block \<Rightarrow> (int \<Rightarrow> int \<Rightarrow> block) \<Rightarrow> inode \<Rightarrow> nat \<Rightarrow> block" where
  "dir_block sp I r b = (let pos = b * s_block_size sp in I (s_dev sp) (int (block_of sp pos (zone_ref sp I r (zone_of sp pos)))))"

definition dir_entry :: "super_block \<Rightarrow> (int \<Rightarrow> int \<Rightarrow> block) \<Rightarrow> inode \<Rightarrow> nat \<Rightarrow> 32 word \<times> name" where
  "dir_entry sp I r j = (let per = s_block_size sp div 64; d = dir_block sp I r (j div per) in (d_ino d (j mod per), d_name d (j mod per)))"

abbreviation (input) is_entry :: "name \<Rightarrow> 32 word \<times> name \<Rightarrow> bool" where
  "is_entry str e \<equiv> fst e \<noteq> 0 \<and> snd e = cstr (take NAME_MAX str)"

definition hits :: "dirflag \<Rightarrow> name \<Rightarrow> 32 word \<times> name \<Rightarrow> bool" where
  "hits flag str e \<longleftrightarrow> fst e \<noteq> 0 \<and> (if flag = IS_EMPTY then snd e \<noteq> [46] \<and> snd e \<noteq> [46, 46] else snd e = cstr (take NAME_MAX str))"

text \<open>The first entry of the directory with the name.\<close>

definition dir_find :: "super_block \<Rightarrow> (int \<Rightarrow> int \<Rightarrow> block) \<Rightarrow> inode \<Rightarrow> name \<Rightarrow> nat option" where
  "dir_find sp I r str = find (\<lambda>j. is_entry str (dir_entry sp I r j)) [0 ..< i_size r div 64]"

text \<open>A directory whose blocks are in reach of the zone table.\<close>

definition dir_ok :: "io_env \<Rightarrow> fs_st \<Rightarrow> nat \<Rightarrow> bool" where
  "dir_ok E st ip \<longleftrightarrow> (let r = inodes st ip; sp = inode_sp ip st; I = dev_image E (fcache st); bs = s_block_size sp in
     file_ok E st ip \<and> 64 \<le> bs \<and> bs mod 64 = 0 \<and> io_bsize E (s_dev sp) = bs \<and> i_size r mod 64 = 0 \<and> i_size r + bs \<le> 2 ^ 32
     \<and> (\<forall>b. b * bs < i_size r \<longrightarrow> zone_of sp (b * bs) < i_ndzones r + i_nindirs r + i_nindirs r * i_nindirs r \<and> legal_path sp I r (zone_of sp (b * bs))))"

text \<open>Buffer \<open>n\<close> holds block \<open>b\<close> of the directory: it can be released, or changed and released, and then the device has changed in that block only.\<close>

definition dir_num :: "super_block \<Rightarrow> (int \<Rightarrow> int \<Rightarrow> block) \<Rightarrow> inode \<Rightarrow> nat \<Rightarrow> nat" where
  "dir_num sp I r b = block_of sp (b * s_block_size sp) (zone_ref sp I r (zone_of sp (b * s_block_size sp)))"

definition dir_buf :: "io_env \<Rightarrow> fs_st \<Rightarrow> super_block \<Rightarrow> (int \<Rightarrow> int \<Rightarrow> block) \<Rightarrow> inode \<Rightarrow> nat \<Rightarrow> fs_st \<Rightarrow> bufno \<Rightarrow> bool" where
  "dir_buf E st sp I r b t n \<longleftrightarrow>
    (\<exists>c. t = st\<lparr>fcache := c\<rparr> \<and> clip E (s_dev sp) (b_data (bufs c n)) = dir_block sp I r b
       \<and> calm E (fcache st) (put_block E (Some n) DIRECTORY_BLOCK c) \<and> dev_image E (put_block E (Some n) DIRECTORY_BLOCK c) = I
       \<and> (\<forall>e. calm E (fcache st) (put_block E (Some n) DIRECTORY_BLOCK (set_data n e c))
            \<and> dev_image E (put_block E (Some n) DIRECTORY_BLOCK (set_data n e c)) = img_put I (s_dev sp) (dir_num sp I r b) (clip E (s_dev sp) e)))"

lemma dir_buf_sel:
  assumes "dir_buf E st sp I r b t n" "I = dev_image E (fcache st)"
  shows "inodes t = inodes st" "supers t = supers st" "same_fs E st (fput E (Some n) DIRECTORY_BLOCK t)"
  using assms by (auto simp: dir_buf_def same_fs_def fput_def)

lemma find_shift: "find P [a + i ..< a + n] = map_option (\<lambda>j. a + j) (find (\<lambda>j. P (a + j)) [i ..< n])"
proof -
  have "find P (map ((+) a) xs) = map_option (\<lambda>j. a + j) (find (\<lambda>j. P (a + j)) xs)" for xs :: "nat list" by (induction xs) auto
  moreover have "[a + i ..< a + n] = map ((+) a) [i ..< n]" by (rule nth_equalityI) simp_all
  ultimately show ?thesis by simp
qed

lemma find_append: "find P (xs @ ys) = (case find P xs of None \<Rightarrow> find P ys | Some x \<Rightarrow> Some x)"
  by (induction xs) auto

lemma scan_block_hits:
  "flag \<noteq> ENTER \<Longrightarrow> scan_block flag str old d (i # is) n =
    (if old < Suc n then (Suc n, NoHit) else if hits flag str (d_ino d i, d_name d i) then (Suc n, Match i) else scan_block flag str old d is (Suc n))"
  by (cases "flag = IS_EMPTY") (simp_all add: hits_def Let_def)

text \<open>The search of one block, from entry \<open>i\<close> on.\<close>

lemma scan_lookup:
  assumes "n \<le> old" "flag \<noteq> ENTER"
  shows "case find (\<lambda>j. hits flag str (d_ino d j, d_name d j)) [i ..< min m (i + (old - n))] of
      Some j \<Rightarrow> snd (scan_block flag str old d [i ..< m] n) = Match j
    | None \<Rightarrow> snd (scan_block flag str old d [i ..< m] n) = NoHit \<and> (m \<le> i + (old - n) \<longrightarrow> fst (scan_block flag str old d [i ..< m] n) = n + (m - i))"
  using assms(1)
proof (induction "m - i" arbitrary: i n)
  case 0
  then show ?case by simp
next
  case (Suc k)
  then have im: "i < m" "[i ..< m] = i # [Suc i ..< m]" by (simp_all add: upt_conv_Cons)
  show ?case
  proof (cases "n = old")
    case True
    then show ?thesis using im by (simp add: scan_block_hits [OF assms(2)] del: scan_block.simps)
  next
    case False
    then have n: "n < old" "min m (i + (old - n)) = min m (Suc i + (old - Suc n))" "i < min m (i + (old - n))" using Suc.prems im by auto
    show ?thesis
    proof (cases "hits flag str (d_ino d i, d_name d i)")
      case True
      have "[i ..< min m (i + (old - n))] = i # [Suc i ..< min m (i + (old - n))]" by (rule upt_conv_Cons [OF n(3)])
      then show ?thesis using True n(1) im(2) by (simp add: scan_block_hits [OF assms(2)] del: scan_block.simps)
    next
      case False
      have a: "[i ..< min m (i + (old - n))] = i # [Suc i ..< min m (Suc i + (old - Suc n))]" using upt_conv_Cons [OF n(3)] n(2) by simp
      have b: "scan_block flag str old d [i ..< m] n = scan_block flag str old d [Suc i ..< m] (Suc n)" using False n(1) im(2) by (simp add: scan_block_hits [OF assms(2)] del: scan_block.simps)
      have "k = m - Suc i" using Suc.hyps(2) by simp
      from Suc.hyps(1) [OF this, of "Suc n"] n(1) show ?thesis unfolding a b using False im(1) by (auto split: option.splits)
    qed
  qed
qed

lemma entry_clip:
  assumes "dev \<noteq> NO_DEV" "64 * i + 64 \<le> io_bsize E dev"
  shows "d_ino (clip E dev d) i = d_ino d i" "d_name (clip E dev d) i = d_name d i"
proof -
  show "d_ino (clip E dev d) i = d_ino d i" unfolding d_ino_def using assms by (intro get32_clip) simp_all
  have "map (\<lambda>k. clip E dev d (64 * i + 4 + k)) [0 ..< NAME_MAX] = map (\<lambda>k. d (64 * i + 4 + k)) [0 ..< NAME_MAX]"
    by (rule map_cong [OF refl]) (use assms in \<open>simp add: clip_def NAME_MAX_def\<close>)
  then show "d_name (clip E dev d) i = d_name d i" unfolding d_name_def by (rule arg_cong)
qed

lemma dir_step:
  assumes "dir_ok E st ip" "sp = inode_sp ip st" "r = inodes st ip" "I = dev_image E (fcache st)" "same_fs E st s" "b * s_block_size sp < i_size r"
  obtains s1 blk t n where "read_map E ip (b * s_block_size sp) s = Some (s1, blk)" "fget E (i_dev (inodes s1 ip)) blk NORMAL s1 = Some (t, n)"
    "dir_buf E st sp I r b t n"
proof -
  let ?p = "b * s_block_size sp"
  have f: "file_ok E st ip" "zone_of sp ?p < i_ndzones r + i_nindirs r + i_nindirs r * i_nindirs r" "legal_path sp I r (zone_of sp ?p)"
    using assms(1,2,3,4,6) by (simp_all add: dir_ok_def Let_def)
  obtain c0 where c0: "s = st\<lparr>fcache := c0\<rparr>" "calm E (fcache st) c0" "dev_image E c0 = I" using assms(4,5) by (auto simp: same_fs_def)
  have fs: "file_ok E s ip" using file_ok_cache [OF f(1) c0(2)] c0 assms(4) by simp
  have sel: "inode_sp ip s = sp" "inodes s ip = r" "dev_image E (fcache s) = I" using c0 assms(2,3) by (simp_all add: inode_sp_def)
  from read_map_spec [OF fs sel(1) [symmetric] sel(2) [symmetric] sel(3) [symmetric] refl f(2)] f(3)
  obtain s1 where s1: "read_map E ip ?p s = Some (s1, block_of sp ?p (zone_ref sp I r (zone_of sp ?p)))" "same_fs E s s1" by auto
  define blk where "blk = block_of sp ?p (zone_ref sp I r (zone_of sp ?p))"
  obtain c1 where c1: "s1 = st\<lparr>fcache := c1\<rparr>" "calm E (fcache st) c1" "dev_image E c1 = I" using same_fs_trans [OF assms(5) s1(2)] assms(4) by (auto simp: same_fs_def)
  have d: "s_dev sp \<noteq> NO_DEV" "i_dev r = s_dev sp" using file_okD(2,3) [OF f(1) assms(2,3)] by auto
  obtain c2 n where g: "get_block E (s_dev sp) (int blk) NORMAL c1 = Some (c2, n)" "clip E (s_dev sp) (buf_data c2 n) = dev_image E c1 (s_dev sp) (int blk)"
    "cached c2 (s_dev sp) (int blk) n" "\<And>e. calm E c1 (put_block E (Some n) DIRECTORY_BLOCK (set_data n e c2))"
    "\<And>e. dev_image E (put_block E (Some n) DIRECTORY_BLOCK (set_data n e c2)) = (dev_image E c1)(s_dev sp := (dev_image E c1 (s_dev sp))(int blk := clip E (s_dev sp) e))"
    "calm E c1 (put_block E (Some n) DIRECTORY_BLOCK c2)" "dev_image E (put_block E (Some n) DIRECTORY_BLOCK c2) = dev_image E c1"
    using bc.changed [OF calm_ok [OF c1(2)] d(1), of "int blk" DIRECTORY_BLOCK] by blast
  define t where "t = s1\<lparr>fcache := c2\<rparr>"
  have n: "blk = dir_num sp I r b" by (simp add: blk_def dir_num_def)
  have "dir_buf E st sp I r b t n" unfolding dir_buf_def
    using g(2,4-7) c1 settled_trans [OF c1(2)] by (intro exI [of _ c2]) (simp add: t_def buf_data_def dir_block_def img_put_def n dir_num_def Let_def)
  moreover have "fget E (i_dev (inodes s1 ip)) blk NORMAL s1 = Some (t, n)" using g(1) c1(1) assms(3) d(2) by (simp add: fget_def t_def)
  ultimately show thesis using that s1(1) [folded blk_def] by blast
qed

lemma block_range: "0 < per \<Longrightarrow> b < (64 * old + 64 * per - 1) div (64 * per) \<longleftrightarrow> b * per < old" for per :: nat
proof -
  assume p: "0 < per"
  have "Suc b \<le> (64 * old + 64 * per - 1) div (64 * per) \<longleftrightarrow> Suc b * (64 * per) \<le> 64 * old + 64 * per - 1" by (rule less_eq_div_iff_mult_less_eq) (use p in simp)
  moreover have "Suc b * (64 * per) = 64 * (b * per) + 64 * per" by simp
  ultimately show ?thesis using p by linarith
qed

lemma dir_okD:
  assumes "dir_ok E st ip" "sp = inode_sp ip st" "r = inodes st ip" "per = s_block_size sp div 64" "old = i_size r div 64"
  shows "s_block_size sp = 64 * per" "i_size r = 64 * old" "0 < per" "i_size r + s_block_size sp \<le> 2 ^ 32" "s_dev sp \<noteq> NO_DEV" "io_bsize E (s_dev sp) = s_block_size sp"
    "file_ok E st ip"
proof -
  have d: "file_ok E st ip" "64 \<le> s_block_size sp" "s_block_size sp mod 64 = 0" "io_bsize E (s_dev sp) = s_block_size sp" "i_size r mod 64 = 0"
    "i_size r + s_block_size sp \<le> 2 ^ 32" using assms(1-3) by (simp_all add: dir_ok_def Let_def)
  show "s_block_size sp = 64 * per" "i_size r = 64 * old" "0 < per" using d assms(4,5) by auto
  show "i_size r + s_block_size sp \<le> 2 ^ 32" "io_bsize E (s_dev sp) = s_block_size sp" "file_ok E st ip" using d by simp_all
  show "s_dev sp \<noteq> NO_DEV" by (rule file_okD(3) [OF d(1) assms(2,3)])
qed

text \<open>The search of the blocks from block \<open>b\<close> on.\<close>

lemma scan_dir_lookup:
  assumes "dir_ok E st ip" "sp = inode_sp ip st" "r = inodes st ip" "I = dev_image E (fcache st)" "per = s_block_size sp div 64" "old = i_size r div 64"
    "nb = (i_size r + s_block_size sp - 1) div s_block_size sp" "same_fs E st s" "b * per \<le> old" "flag \<noteq> ENTER"
  shows "case find (\<lambda>j. hits flag str (dir_entry sp I r j)) [b * per ..< old] of
      None \<Rightarrow> \<exists>t k. scan_dir E ip flag str old (map (\<lambda>j. j * s_block_size sp) [b ..< nb]) (b * per) s = Some (t, k, None) \<and> same_fs E st t
    | Some j \<Rightarrow> \<exists>t k n. scan_dir E ip flag str old (map (\<lambda>j. j * s_block_size sp) [b ..< nb]) (b * per) s = Some (t, k, Some (n, Match (j mod per)))
        \<and> dir_buf E st sp I r (j div per) t n \<and> d_ino (b_data (bufs (fcache t) n)) (j mod per) = fst (dir_entry sp I r j)"
  using assms(8,9)
proof (induction "nb - b" arbitrary: b s)
  case 0
  let ?bs = "s_block_size sp"
  have sz: "?bs = 64 * per" "i_size r = 64 * old" "0 < per" "i_size r + ?bs \<le> 2 ^ 32" using dir_okD(1-4) [OF assms(1-3,5,6)] by simp_all
  have "\<not> b * per < old" using 0(1) block_range [OF sz(3), of b old] sz(1,2) assms(7) by simp
  moreover have "inodes s = inodes st" "inode_sp ip s = sp" using 0(2) assms(2) by (auto simp: same_fs_def inode_sp_def)
  ultimately show ?case using 0 sz assms(3) by auto
next
  case (Suc k)
  let ?bs = "s_block_size sp" and ?P = "\<lambda>j. hits flag str (dir_entry sp I r j)"
  have sz: "?bs = 64 * per" "i_size r = 64 * old" "0 < per" "s_dev sp \<noteq> NO_DEV" "io_bsize E (s_dev sp) = ?bs"
    using dir_okD [OF assms(1-3,5,6)] by simp_all
  have b: "b < nb" "b * per < old" using Suc.hyps(2) block_range [OF sz(3), of b old] sz(1,2) assms(7) by auto
  then have "b * ?bs < i_size r" using sz by simp
  from dir_step [OF assms(1-4) Suc.prems(1) this]
  obtain s1 blk t n where t: "read_map E ip (b * ?bs) s = Some (s1, blk)" "fget E (i_dev (inodes s1 ip)) blk NORMAL s1 = Some (t, n)"
    "dir_buf E st sp I r b t n" .
  note db = dir_buf_sel [OF t(3) assms(4)]
  have cl: "clip E (s_dev sp) (b_data (bufs (fcache t) n)) = dir_block sp I r b" using t(3) by (auto simp: dir_buf_def)
  define d where "d = b_data (bufs (fcache t) n)"
  have ent: "dir_entry sp I r (b * per + i) = (d_ino d i, d_name d i)" if "i < per" for i
  proof -
    have m: "(b * per + i) div per = b" "(b * per + i) mod per = i" using that sz(3) by simp_all
    have "64 * i + 64 \<le> io_bsize E (s_dev sp)" unfolding sz(5) sz(1) using that by simp
    note c = entry_clip [OF sz(4) this, of d, unfolded d_def cl, folded d_def]
    show ?thesis unfolding dir_entry_def Let_def assms(5) [symmetric] m by (simp add: c)
  qed
  have sp: "inode_sp ip t = sp" using db(1,2) assms(2) by (simp add: inode_sp_def)
  let ?m = "min per (old - b * per)"
  have fe: "find (\<lambda>i. hits flag str (d_ino d i, d_name d i)) [0 ..< ?m] = find (\<lambda>i. ?P (b * per + i)) [0 ..< ?m]"
    by (rule find_cong [OF refl]) (simp add: ent)
  have sh: "find ?P [b * per ..< b * per + ?m] = map_option (\<lambda>i. b * per + i) (find (\<lambda>i. ?P (b * per + i)) [0 ..< ?m])"
    using find_shift [of ?P "b * per" 0 ?m] by simp
  have ups: "[b * per ..< old] = [b * per ..< b * per + ?m] @ [(b + 1) * per ..< old]" using b(2) upt_add_eq_append [of "b * per" "b * per + ?m" "old - (b * per + ?m)"]
    by (auto simp: min_def add.commute split: if_splits)
  have l: "map (\<lambda>j. j * ?bs) [b ..< nb] = b * ?bs # map (\<lambda>j. j * ?bs) [Suc b ..< nb]" using upt_conv_Cons [OF b(1)] by simp
  obtain k' hit where h: "scan_block flag str old d [0 ..< per] (b * per) = (k', hit)" by (cases "scan_block flag str old d [0 ..< per] (b * per)") auto
  have go: "scan_dir E ip flag str old (map (\<lambda>j. j * ?bs) [b ..< nb]) (b * per) s
      = (case hit of NoHit \<Rightarrow> scan_dir E ip flag str old (map (\<lambda>j. j * ?bs) [Suc b ..< nb]) k' (fput E (Some n) DIRECTORY_BLOCK t) | _ \<Rightarrow> Some (t, k', Some (n, hit)))"
    using t(1,2) h by (simp add: l sp DIR_ENTRY_SIZE_def d_def assms(5) [symmetric] del: upt_Suc)
  note sl = scan_lookup [where i = 0 and m = per and n = "b * per" and old = old and d = d and str = str, OF Suc.prems(2) assms(10), unfolded h]
  show ?case
  proof (cases "find (\<lambda>i. ?P (b * per + i)) [0 ..< ?m]")
    case (Some i)
    then have i: "i < per" unfolding find_Some_iff by auto
    have "hit = Match i" using sl Some fe by (simp add: min.commute)
    moreover have "find ?P [b * per ..< old] = Some (b * per + i)" unfolding ups find_append sh Some by simp
    ultimately show ?thesis unfolding go using i t(3) ent [OF i] sz(3) by (simp add: d_def)
  next
    case None
    then have hit: "hit = NoHit" "per \<le> old - b * per \<longrightarrow> k' = b * per + per" using sl fe by (simp_all add: min.commute)
    have f: "find ?P [b * per ..< old] = find ?P [(b + 1) * per ..< old]" unfolding ups find_append sh None by simp
    show ?thesis
    proof (cases "per \<le> old - b * per")
      case True
      then have kk: "(b + 1) * per \<le> old" "k' = (b + 1) * per" using hit b(2) by simp_all
      have "k = nb - (b + 1)" using Suc.hyps(2) by simp
      from Suc.hyps(1) [OF this db(3) kk(1)] show ?thesis unfolding go f hit(1) kk(2) by (simp only: dir_hit.case Suc_eq_plus1)
    next
      case False
      then have "\<not> (b + 1) * per < old" by simp
      then have "nb \<le> Suc b" using block_range [OF sz(3), of "b + 1" old] sz(1,2) assms(7) by simp
      then have e2: "[Suc b ..< nb] = []" by simp
      have e1: "[(b + 1) * per ..< old] = []" using \<open>\<not> (b + 1) * per < old\<close> by simp
      have "i_size (inodes (fput E (Some n) DIRECTORY_BLOCK t) ip) + s_block_size (inode_sp ip (fput E (Some n) DIRECTORY_BLOCK t)) \<le> 2 ^ 32"
        using assms(1-3) db(1,2) by (simp add: fput_def inode_sp_def dir_ok_def Let_def)
      then show ?thesis unfolding go f hit(1) e1 e2 using db(3) by simp
    qed
  qed
qed

text \<open>C11: Looking up a name in a directory is looking it up in the list of its entries: on a device that works and is mounted for writing, when the caller may search the directory, \<open>search_dir\<close> with \<open>LOOK_UP\<close> goes through the
  blocks of the file and finds the first entry in use whose name is the one asked for (both cut after 60 bytes), returning its inode number in the byte
  order of the machine, and reports \<open>EMOLNOENT\<close> exactly when there is none; the devices and the tables of the server stay as they are.\<close>

theorem search_dir_lookup:
  assumes "dir_ok E st ip" "sp = inode_sp ip st" "r = inodes st ip" "I = dev_image E (fcache st)" "i_type (i_mode r) = I_DIRECTORY"
    and "own \<or> \<not> i_mount r \<and> m_call m \<noteq> EMOLACCES \<and> bit (perm_bits (fp_effuid (fprocs st (cur_fp st))) (fp_effgid (fprocs st (cur_fp st))) r) 0"
  shows "\<exists>c. dev_image E c = I \<and> search_dir E m ip own str numb LOOK_UP st = Some (st\<lparr>fcache := c\<rparr>,
    (case dir_find sp I r str of None \<Rightarrow> (EMOLNOENT, numb) | Some j \<Rightarrow> (0, unat (conv4 (s_native sp) (fst (dir_entry sp I r j))))))"
proof -
  let ?bs = "s_block_size sp" and ?per = "s_block_size sp div 64" and ?old = "i_size r div 64"
  note d = dir_okD [OF assms(1-3) refl refl]
  have "or p X_BIT = p" if "bit p 0" for p :: nat using that by (simp add: or_Suc_0_eq bit_0)
  then have fb: "(if own then Some (st, 0) else forbidden E m ip X_BIT st) = Some (st, 0)"
    using assms(3,6) by (auto simp: forbidden_def Let_def)
  have same: "same_fs E st st" using same_fs_refl [OF d(7)] .
  have bs0: "?bs \<noteq> 0" using d(1,3) by simp
  show ?thesis
  proof (cases "dir_find sp I r str")
    case None
    then obtain t k where t: "scan_dir E ip LOOK_UP str ?old (map (\<lambda>j. j * ?bs) [0 ..< (i_size r + ?bs - 1) div ?bs]) 0 st = Some (t, k, None)" "same_fs E st t"
      using scan_dir_lookup [OF assms(1-4) refl refl refl same, of 0 LOOK_UP str] by (auto simp: dir_find_def hits_def)
    then obtain c where "t = st\<lparr>fcache := c\<rparr>" "dev_image E c = I" using assms(4) by (auto simp: same_fs_def)
    moreover have "search_dir E m ip own str numb LOOK_UP st = Some (t, EMOLNOENT, numb)"
      using assms(2,3,5) fb t(1) bs0 by (cases own) (simp_all add: search_dir_def DIR_ENTRY_SIZE_def Let_def)
    ultimately show ?thesis using None by auto
  next
    case (Some j)
    then obtain t k n where t: "scan_dir E ip LOOK_UP str ?old (map (\<lambda>j. j * ?bs) [0 ..< (i_size r + ?bs - 1) div ?bs]) 0 st = Some (t, k, Some (n, Match (j mod ?per)))"
      "dir_buf E st sp I r (j div ?per) t n" "d_ino (b_data (bufs (fcache t) n)) (j mod ?per) = fst (dir_entry sp I r j)"
      using scan_dir_lookup [OF assms(1-4) refl refl refl same, of 0 LOOK_UP str] by (auto simp: dir_find_def hits_def)
    note db = dir_buf_sel [OF t(2) assms(4)]
    obtain c where "fput E (Some n) DIRECTORY_BLOCK t = st\<lparr>fcache := c\<rparr>" "dev_image E c = I" using db(3) assms(4) by (auto simp: same_fs_def)
    moreover have "inode_sp ip t = sp" using db(1,2) assms(2) by (simp add: inode_sp_def)
    then have "search_dir E m ip own str numb LOOK_UP st = Some (fput E (Some n) DIRECTORY_BLOCK t, 0, unat (conv4 (s_native sp) (fst (dir_entry sp I r j))))"
      using assms(2,3,5) fb t(1,3) bs0 by (cases own) (simp_all add: search_dir_def DIR_ENTRY_SIZE_def Let_def)
    ultimately show ?thesis using Some by auto
  qed
qed

definition fs_etc_block :: block where
  "fs_etc_block k = (if k < 72 then ([1, 0, 0, 0, 46] @ replicate 59 0 @ [9, 0, 0, 0, 101, 116, 99, 0]) ! k else 0)"

definition fs_etc_disk :: "int \<Rightarrow> int \<Rightarrow> block" where
  "fs_etc_disk dev b = (if dev = 3 \<and> b = 6 then fs_etc_block else fs_disk dev b)"

definition fs_etc_ino :: inode where
  "fs_etc_ino = fs_ino\<lparr>i_mode := 0x41C0, i_size := 128, i_zone := [6, 0, 0, 0, 0, 0, 0, 0, 0, 0]\<rparr>"

definition fs_etc :: fs_st where
  "fs_etc = (fs_mounted fs_etc_disk)\<lparr>inodes := (\<lambda>_. fs_ino)(5 := fs_etc_ino)\<rparr>"

lemma fs_etc_sel: "inode_sp 5 fs_etc = fs_sp" "inodes fs_etc 5 = fs_etc_ino" "fcache fs_etc = fs_pool fs_etc_disk" "fprocs fs_etc p = fs_proc"
  by (simp_all add: fs_etc_def fs_mounted_def inode_sp_def fs_etc_ino_def fs_ino_def)

lemma fs_etc_ok: "dir_ok fs_E fs_etc 5"
proof -
  have "bit (fs_etc_disk 3 3 0) 0" by (simp add: fs_etc_disk_def fs_disk_def)
  note f = fs_file_ok [of fs_etc_disk 5, OF this]
  have s: "supers fs_etc = supers (fs_mounted fs_etc_disk)" "fcache fs_etc = fcache (fs_mounted fs_etc_disk)" by (simp_all add: fs_etc_def)
  have "file_ok fs_E fs_etc 5" using f by (simp add: file_ok_def Let_def fs_etc_sel fs_mounted_sel zone_st_def s) (simp add: fs_etc_ino_def fs_ino_def, simp add: fs_sp_def)
  moreover have "zone_of fs_sp (b * 1024) < 7" if "b * 1024 < 128" for b using that by (simp add: zone_of_def fs_sp_def)
  moreover have "i_ndzones fs_etc_ino = 7" "i_size fs_etc_ino = 128" "s_block_size fs_sp = 1024" "io_bsize fs_E (s_dev fs_sp) = 1024" by (simp_all add: fs_etc_ino_def fs_ino_def fs_sp_def fs_E_def)
  ultimately show ?thesis by (simp add: dir_ok_def fs_etc_sel legal_path_def)
qed

lemma fs_etc_entry:
  assumes "j < 16"
  shows "dir_entry fs_sp (dev_image fs_E (fs_pool fs_etc_disk)) fs_etc_ino j = (d_ino fs_etc_block j, d_name fs_etc_block j)"
proof -
  let ?I = "dev_image fs_E (fs_pool fs_etc_disk)"
  have "block_of fs_sp 0 (zone_ref fs_sp ?I fs_etc_ino 0) = 6" by (simp add: zone_ref_def block_of_def zone_block_def zone_of_def fs_sp_def fs_etc_ino_def fs_ino_def)
  moreover have "?I 3 6 = clip fs_E 3 fs_etc_block" using fs_image [of 3 fs_etc_disk 6] by (simp add: fs_etc_disk_def)
  ultimately have "dir_block fs_sp ?I fs_etc_ino 0 = clip fs_E 3 fs_etc_block" by (simp add: dir_block_def zone_of_def fs_sp_def)
  moreover have "io_bsize fs_E 3 = 1024" by (simp add: fs_E_def)
  ultimately show ?thesis using assms entry_clip [of 3 j fs_E fs_etc_block] by (simp add: dir_entry_def Let_def fs_sp_def)
qed

theorem search_dir_lookup_witness:
  "\<exists>c. search_dir fs_E (fs_ask 1) 5 False [101, 116, 99] 0 LOOK_UP fs_etc = Some (fs_etc\<lparr>fcache := c\<rparr>, 0, 9)
    \<and> (\<exists>c. search_dir fs_E (fs_ask 1) 5 False [101, 116] 0 LOOK_UP fs_etc = Some (fs_etc\<lparr>fcache := c\<rparr>, EMOLNOENT, 0))"
proof -
  let ?I = "dev_image fs_E (fs_pool fs_etc_disk)"
  have e: "d_ino fs_etc_block 0 = 1" "d_ino fs_etc_block 1 = 9" "d_name fs_etc_block 0 = [46]" "d_name fs_etc_block 1 = [101, 116, 99]" by code_simp+
  have c: "cstr (take NAME_MAX [101, 116, 99]) = [101, 116, 99]" "cstr (take NAME_MAX [101, 116]) = [101, 116]" by code_simp+
  have u: "[0 ..< 2] = [0, 1 :: nat]" by (simp add: upt_rec)
  have z: "i_size fs_etc_ino div 64 = 2" by (simp add: fs_etc_ino_def)
  have f: "dir_find fs_sp ?I fs_etc_ino [101, 116, 99] = Some 1" "dir_find fs_sp ?I fs_etc_ino [101, 116] = None"
    by (simp_all add: dir_find_def z u c fs_etc_entry e del: One_nat_def)
  have p: "i_type (i_mode fs_etc_ino) = I_DIRECTORY" "\<not> i_mount fs_etc_ino" "m_call (fs_ask 1) \<noteq> EMOLACCES" "s_native fs_sp" "conv4 True w = w" for w
    by (simp_all add: fs_etc_ino_def fs_ino_def i_type_def fs_ask_def fs_sp_def conv4_def)
  have b: "bit (perm_bits (fp_effuid fs_proc) (fp_effgid fs_proc) fs_etc_ino) 0" using p(1) by (simp add: perm_bits_def fs_proc_def Let_def)
  note l = search_dir_lookup [OF fs_etc_ok refl refl refl, unfolded fs_etc_sel, OF p(1), of False "fs_ask 1"]
  show ?thesis using l [of "[101, 116, 99]" 0] l [of "[101, 116]" 0] p b f fs_etc_entry [of 1] e by (auto simp: conv4_def simp del: One_nat_def)
qed

end
