(* ===== verification/Fs_Blocks.thy ===== *)
theory Fs_Blocks
  imports Fs_Map
begin

text \<open>
  The blocks of a file.  A file whose zones are data zones, different from each other and from its indirect blocks, can be changed block by block: a
  change of one of its blocks changes neither the map of the file nor its other blocks.  Directories and regular files both rest on it.
\<close>

definition zone_range :: "inode \<Rightarrow> nat" where
  "zone_range r = i_ndzones r + i_nindirs r + i_nindirs r * i_nindirs r"

text \<open>The block of a position, 0 for a hole.\<close>

definition file_num :: "super_block \<Rightarrow> (int \<Rightarrow> int \<Rightarrow> block) \<Rightarrow> inode \<Rightarrow> nat \<Rightarrow> nat" where
  "file_num sp I r p = block_of sp p (zone_ref sp I r (zone_of sp p))"

definition zones_apart :: "super_block \<Rightarrow> (int \<Rightarrow> int \<Rightarrow> block) \<Rightarrow> inode \<Rightarrow> bool" where
  "zones_apart sp I r \<longleftrightarrow> tree_ok sp I r \<and>
    (\<forall>z. z < zone_range r \<longrightarrow> zone_ref sp I r z \<noteq> NO_ZONE \<longrightarrow> data_zone sp (zone_ref sp I r z)
       \<and> (\<forall>k. k < i_nindirs r + 2 \<longrightarrow> islot sp I r k \<noteq> zone_ref sp I r z)
       \<and> (\<forall>y. y < zone_range r \<longrightarrow> zone_ref sp I r y = zone_ref sp I r z \<longrightarrow> y = z))"

lemma block_of_data:
  assumes "layout_ok E sp" "data_zone sp z" "z \<noteq> NO_ZONE" "s = 2 ^ nat (s_log_zone_size sp)"
  shows "block_of sp p z = z * s + (p div s_block_size sp) mod s" "block_of sp p z div s = z"
proof -
  have s: "0 < s" using assms(4) by simp
  have m: "(p div s_block_size sp) mod s < s" using s by simp
  have "z < s_zones sp" using assms(2) by (simp add: data_zone_def)
  then have "z * s + s \<le> s_zones sp * s" using mult_le_mono1 [of "Suc z" "s_zones sp" s] by simp
  also have "\<dots> \<le> 2 ^ 32" using assms(1,4) by (simp add: layout_ok_def)
  finally have l: "z * s + s \<le> 2 ^ 32" .
  have "p div s_block_size sp - zone_of sp p * s = (p div s_block_size sp) mod s"
    using assms(4) by (simp add: zone_of_def minus_div_mult_eq_mod)
  moreover have "(z * s + (p div s_block_size sp) mod s) mod 2 ^ 32 = z * s + (p div s_block_size sp) mod s" using l m by (intro mod_less) linarith
  ultimately show e: "block_of sp p z = z * s + (p div s_block_size sp) mod s"
    using zone_block_data [OF assms(1,2)] assms(3) by (simp add: block_of_def assms(4) [symmetric])
  show "block_of sp p z div s = z" unfolding e using m by (simp add: div_mult_self3)
qed

text \<open>A block of zone \<open>z\<close> is changed, which is none of the indirect blocks.\<close>

lemma put_other_zone:
  assumes "layout_ok E sp" "b div 2 ^ nat (s_log_zone_size sp) = z" "legal_zone sp y" "y \<noteq> z \<or> y = NO_ZONE"
  shows "ind_ref sp (img_put I dev b d) dev y i = ind_ref sp I dev y i"
proof (cases "y = NO_ZONE")
  case False
  then have "data_zone sp y" using assms(3) by (simp add: legal_zone_def)
  then have "zone_block sp y div 2 ^ nat (s_log_zone_size sp) = y" using zone_block_data [OF assms(1)] by simp
  then have "zone_block sp y \<noteq> b" using assms(2,4) False by auto
  then show ?thesis by (simp add: ind_ref_def img_put_def)
qed (simp add: ind_ref_def)

lemma put_same_map:
  assumes "layout_ok E sp" "tree_ok sp I r" "b div 2 ^ nat (s_log_zone_size sp) = z" "\<And>k. k < i_nindirs r + 2 \<Longrightarrow> islot sp I r k \<noteq> z"
    "dev = i_dev r" "0 < i_nindirs r"
  shows "k < i_nindirs r + 2 \<Longrightarrow> islot sp (img_put I dev b d) r k = islot sp I r k"
    "zone < zone_range r \<Longrightarrow> zone_ref sp (img_put I dev b d) r zone = zone_ref sp I r zone"
proof -
  let ?I = "img_put I dev b d"
  have leg: "legal_zone sp (islot sp I r k)" if "k < i_nindirs r + 2" for k using tree_legal [OF assms(2) that] .
  have o: "ind_ref sp ?I (i_dev r) (islot sp I r k) i = ind_ref sp I (i_dev r) (islot sp I r k) i" if "k < i_nindirs r + 2" for k i
    using put_other_zone [OF assms(1,3) leg [OF that]] assms(4) [OF that] assms(5) by simp
  show s: "islot sp ?I r k = islot sp I r k" if "k < i_nindirs r + 2" for k
    using o [of 1 "k - 2"] by (simp add: islot_def del: One_nat_def)
  show "zone_ref sp ?I r zone = zone_ref sp I r zone" if z: "zone < zone_range r"
  proof (cases "zone < i_ndzones r")
    case False
    then have "slot_of r (zone - i_ndzones r) < i_nindirs r + 2" using slot_of_less assms(6) z by (auto simp: zone_range_def)
    then show ?thesis using False s o by (simp add: zone_ref_slot)
  qed (simp add: zone_ref_def)
qed

lemma file_num_eq:
  assumes "layout_ok E sp" "zones_apart sp I r" "zone_of sp p < zone_range r" "zone_of sp q < zone_range r" "0 < s_block_size sp"
    "zone_ref sp I r (zone_of sp p) \<noteq> NO_ZONE" "zone_ref sp I r (zone_of sp q) \<noteq> NO_ZONE"
  shows "file_num sp I r p = file_num sp I r q \<longleftrightarrow> p div s_block_size sp = q div s_block_size sp"
proof
  let ?s = "2 ^ nat (s_log_zone_size sp) :: nat" and ?z = "\<lambda>p. zone_ref sp I r (zone_of sp p)"
  have d: "data_zone sp (?z p)" "data_zone sp (?z q)" using assms(2-4,6,7) by (simp_all add: zones_apart_def)
  note b = block_of_data [OF assms(1) d(1) assms(6) refl, of p] block_of_data [OF assms(1) d(2) assms(7) refl, of q]
  assume "file_num sp I r p = file_num sp I r q"
  then have e: "?z p = ?z q" "(p div s_block_size sp) mod ?s = (q div s_block_size sp) mod ?s" using b by (auto simp: file_num_def)
  then have "zone_of sp p = zone_of sp q" using assms(2-4,6) unfolding zones_apart_def by metis
  then show "p div s_block_size sp = q div s_block_size sp" using e(2) unfolding zone_of_def by (metis mod_mult_div_eq)
next
  assume "p div s_block_size sp = q div s_block_size sp"
  then show "file_num sp I r p = file_num sp I r q" by (simp add: file_num_def zone_of_def block_of_def)
qed

text \<open>The blocks of a file are behind the bit maps, and legal.\<close>

lemma block_above_map:
  assumes "layout_ok E sp" "zones_apart sp I r" "zone_of sp p < zone_range r" "zone_ref sp I r (zone_of sp p) \<noteq> NO_ZONE" "c < map_bits ZMAP sp"
  shows "map_start ZMAP sp + int (c div bits_per_block sp) \<noteq> int (file_num sp I r p)"
proof -
  let ?z = "zone_ref sp I r (zone_of sp p)"
  have z: "data_zone sp ?z" using assms(2-4) by (simp add: zones_apart_def)
  have "map_start ZMAP sp + int (c div bits_per_block sp) < int (zone_block sp ?z)" using assms(1,5) z map_before_data by blast
  moreover have "zone_block sp ?z \<le> file_num sp I r p"
    using block_of_data(1) [OF assms(1) z assms(4) refl, of p] zone_block_data [OF assms(1) z] by (simp add: file_num_def)
  ultimately show ?thesis by linarith
qed

lemma apart_legal:
  assumes "zones_apart sp I r" "zone < zone_range r" "0 < i_nindirs r"
  shows "legal_path sp I r zone"
proof (cases "zone < i_ndzones r")
  case False
  let ?e = "zone - i_ndzones r"
  have s: "slot_of r ?e < i_nindirs r + 2" using slot_of_less assms(2,3) False by (auto simp: zone_range_def)
  have "ind_zone sp I r ?e = islot sp I r (slot_of r ?e)" by (auto simp: ind_zone_def islot_def slot_of_def)
  moreover have "legal_zone sp (islot sp I r (slot_of r ?e))" using tree_legal [OF _ s] assms(1) by (simp add: zones_apart_def)
  moreover have "legal_zone sp (zone_ref sp I r zone)" using assms(1,2) by (auto simp: zones_apart_def legal_zone_def)
  ultimately show ?thesis by (simp add: legal_path_def)
qed (simp add: legal_path_def)

text \<open>The block at position \<open>p\<close> is changed.\<close>

lemma put_file_block:
  assumes "layout_ok E sp" "zones_apart sp I r" "zone_of sp p < zone_range r" "zone_ref sp I r (zone_of sp p) \<noteq> NO_ZONE" "0 < s_block_size sp"
    "0 < i_nindirs r" "dev = i_dev r" "I' = img_put I dev (file_num sp I r p) d"
  shows "zones_apart sp I' r" "zone < zone_range r \<Longrightarrow> zone_ref sp I' r zone = zone_ref sp I r zone"
    "zone_of sp q < zone_range r \<Longrightarrow> file_num sp I' r q = file_num sp I r q"
    "zone_of sp q < zone_range r \<Longrightarrow> zone_ref sp I r (zone_of sp q) \<noteq> NO_ZONE \<Longrightarrow>
      I' dev (int (file_num sp I r q)) = (if q div s_block_size sp = p div s_block_size sp then d else I dev (int (file_num sp I r q)))"
proof -
  let ?z = "zone_ref sp I r (zone_of sp p)"
  have z: "data_zone sp ?z" "\<And>k. k < i_nindirs r + 2 \<Longrightarrow> islot sp I r k \<noteq> ?z" "tree_ok sp I r" using assms(2-4) by (simp_all add: zones_apart_def)
  have n: "file_num sp I r p div 2 ^ nat (s_log_zone_size sp) = ?z" unfolding file_num_def using block_of_data(2) [OF assms(1) z(1) assms(4) refl] .
  note m = put_same_map [OF assms(1) z(3) n z(2) assms(7,6), where d = d, folded assms(8)]
  show zr: "zone_ref sp I' r zone = zone_ref sp I r zone" if "zone < zone_range r" for zone using m(2) that by simp
  then show "file_num sp I' r q = file_num sp I r q" if "zone_of sp q < zone_range r" using that by (simp add: file_num_def)
  show "I' dev (int (file_num sp I r q)) = (if q div s_block_size sp = p div s_block_size sp then d else I dev (int (file_num sp I r q)))"
    if "zone_of sp q < zone_range r" "zone_ref sp I r (zone_of sp q) \<noteq> NO_ZONE"
    using file_num_eq [OF assms(1,2) that(1) assms(3,5) that(2) assms(4)] by (auto simp: assms(8) img_put_def)
  have u: "zone_used sp I' y = zone_used sp I y" if y: "data_zone sp y" for y
  proof -
    have "map_start ZMAP sp + int (c div bits_per_block sp) \<noteq> int (file_num sp I r p)" if "c < map_bits ZMAP sp" for c
      using block_above_map [OF assms(1-4) that] .
    then show ?thesis using zone_bit_less [OF assms(1) y] by (simp add: zone_used_def on_map_def assms(8) img_put_def del: One_nat_def)
  qed
  have "tree_ok sp I' r" using z(3) u m(1) unfolding tree_ok_def by auto
  then show "zones_apart sp I' r" using assms(2) zr m(1) unfolding zones_apart_def by auto
qed

end
