(* ===== verification/Fs_Link.thy ===== *)
theory Fs_Link
  imports Fs_Path Fs_Blocks
begin

text \<open>
  Names of files: the calls \<open>link\<close>, \<open>unlink\<close>, \<open>rmdir\<close>, \<open>rename\<close>, \<open>truncate\<close> and \<open>ftruncate\<close> of \<open>src/servers/fs/link.c\<close> and \<open>fetch_name\<close> of
  \<open>utility.c\<close>; the truncation itself is in \<open>Fs_Inode\<close>.  The lemmas show what \<open>search_dir\<close> does to the directory as a list of entries: how an
  entry is removed, and that a directory with an entry besides the two fixed ones is never removed.
\<close>

section \<open>Fetching a name\<close>

abbreviation (input) "EMOLXDEV \<equiv> - 18 :: int"
abbreviation (input) "EMOLMLINK \<equiv> - 31 :: int"
abbreviation (input) "EMOLNAMETOOLONG \<equiv> - 36 :: int"
abbreviation (input) "FS_EMOLBUSY \<equiv> - 16 :: int"
abbreviation (input) "EBUSY \<equiv> 16 :: int"
abbreviation (input) "EXDEV \<equiv> 18 :: int"
abbreviation (input) "FETCH_FAILED \<equiv> - 99 :: int"
abbreviation (input) "SAME \<equiv> 1000 :: int"
abbreviation (input) "MOLUNLINK \<equiv> 10 :: int"
abbreviation (input) "FIRST_USER_FP \<equiv> 15 :: nat"

text \<open>A name in a request: the length that the message gives, whether the name is in the message itself, the result of the copy otherwise, and the
  string in \<open>user_path\<close> after the call.\<close>

record path_arg =
  pa_len :: int
  pa_inside :: bool
  pa_copy :: int
  pa_path :: name

definition fetch_name :: "path_arg \<Rightarrow> fs_st \<Rightarrow> fs_st \<times> int" where
  "fetch_name a st =
    (if pa_len a \<le> 0 then (st\<lparr>err_code := EMOLINVAL\<rparr>, FETCH_FAILED)
     else if pa_len a > int MNX_PATH_MAX then (st\<lparr>err_code := EMOLNAMETOOLONG\<rparr>, FETCH_FAILED)
     else (st, if pa_inside a then 0 else pa_copy a))"

section \<open>Links\<close>

definition max_links :: "nat \<Rightarrow> fs_st \<Rightarrow> int" where
  "max_links ip st = (if s_version (inode_sp ip st) = 1 then 127 else 32767)"

definition is_dir :: "nat \<Rightarrow> fs_st \<Rightarrow> bool" where
  "is_dir ip st \<longleftrightarrow> i_type (i_mode (inodes st ip)) = I_DIRECTORY"

text \<open>The second half of \<open>do_link\<close>: the directory of the new name is \<open>ld\<close>.\<close>

definition link_into :: "io_env \<Rightarrow> fs_msg \<Rightarrow> nat \<Rightarrow> nat option \<Rightarrow> name \<Rightarrow> fs_st \<Rightarrow> (fs_st \<times> nat option \<times> int) option" where
  "link_into E m rip ld str st =
    (case ld of None \<Rightarrow> Some (st, None, err_code st)
     | Some _ \<Rightarrow>
       do {
         (s, ip, new_ip) \<leftarrow> advance E m False str ld st;
         s1 \<leftarrow> put_inode E new_ip s;
         let r = (if new_ip \<noteq> None then EMOLEXIST else if err_code s = EMOLNOENT then 0 else err_code s);
         if r \<noteq> 0 then Some (s1, ip, r)
         else do {
           d \<leftarrow> ip;
           if i_dev (inodes s1 rip) \<noteq> i_dev (inodes s1 d) then Some (s1, ip, EMOLXDEV)
           else do {
             (t, r1, _) \<leftarrow> search_dir E m d False str (i_num (inodes s1 rip)) ENTER s1;
             let t1 = (if r1 = 0 then upd_inode rip (\<lambda>x. x\<lparr>i_nlinks := i_nlinks x + 1, i_update := or (i_update x) CTIME, i_dirt := True\<rparr>) t else t);
             Some (t1, ip, r1)
           }
         }
       })"

definition do_link :: "io_env \<Rightarrow> fs_msg \<Rightarrow> path_arg \<Rightarrow> path_arg \<Rightarrow> fs_st \<Rightarrow> (fs_st \<times> int) option" where
  "do_link E m name1 name2 st =
    (let (st1, r1) = fetch_name name1 st in
     if r1 \<noteq> 0 then Some (st1, err_code st1)
     else do {
       (s, x) \<leftarrow> eat_path E m (pa_path name1) st1;
       (case x of None \<Rightarrow> Some (s, err_code s)
        | Some rip \<Rightarrow>
          let r = (if i_nlinks (inodes s rip) \<ge> max_links rip s then EMOLMLINK else if is_dir rip s \<and> \<not> super_user s then EMOLPERM else 0);
              (s1, r2) = fetch_name name2 s in
          if r \<noteq> 0 then do { t \<leftarrow> put_inode E (Some rip) s; Some (t, r) }
          else if r2 \<noteq> 0 then do { t \<leftarrow> put_inode E (Some rip) s1; Some (t, err_code t) }
          else do {
            (s2, ld, str) \<leftarrow> last_dir E m (pa_path name2) s1;
            (s3, ip, r3) \<leftarrow> link_into E m rip ld str s2;
            t \<leftarrow> put_inode E (Some rip) s3;
            u \<leftarrow> put_inode E ip t;
            Some (u, r3)
          })
     })"

section \<open>Removing names\<close>

definition unlink_file :: "io_env \<Rightarrow> fs_msg \<Rightarrow> nat \<Rightarrow> nat option \<Rightarrow> bool \<Rightarrow> name \<Rightarrow> fs_st \<Rightarrow> (fs_st \<times> int) option" where
  "unlink_file E m dirp rip own file_name st =
    do {
      (s, x) \<leftarrow>
        (case rip of Some ip \<Rightarrow> Some (dup_inode ip st, Inr ip)
         | None \<Rightarrow>
           do {
             (s1, r, numb) \<leftarrow> search_dir E m dirp own file_name 0 LOOK_UP st;
             let s2 = s1\<lparr>err_code := r\<rparr>;
             (s3, y) \<leftarrow> (if r = 0 then get_inode E (i_dev (inodes s2 dirp)) numb s2 else Some (s2, None));
             Some (s3, if err_code s3 \<noteq> 0 then Inl (err_code s3) else case y of None \<Rightarrow> Inl (err_code s3) | Some ip \<Rightarrow> Inr ip)
           });
      (case x of Inl e \<Rightarrow> Some (s, e)
       | Inr ip \<Rightarrow>
         do {
           (t, r, _) \<leftarrow> search_dir E m dirp own file_name 0 DELETE s;
           let t1 = (if r = 0 then upd_inode ip (\<lambda>x. x\<lparr>i_nlinks := i_nlinks x - 1, i_update := or (i_update x) CTIME, i_dirt := True\<rparr>) t else t);
           u \<leftarrow> put_inode E (Some ip) t1;
           Some (u, r)
         })
    }"

text \<open>\<open>FIRST_USER_FP\<close> is the first slot after \<open>INIT\<close>.\<close>

definition remove_dir :: "io_env \<Rightarrow> fs_sys \<Rightarrow> fs_msg \<Rightarrow> nat \<Rightarrow> nat \<Rightarrow> name \<Rightarrow> fs_st \<Rightarrow> (fs_st \<times> int) option" where
  "remove_dir E S m rldirp rip dir_name st =
    do {
      (s, r, _) \<leftarrow> search_dir E m rip False [] 0 IS_EMPTY st;
      if r \<noteq> 0 then Some (s, r)
      else if cstr dir_name = [46] \<or> cstr dir_name = [46, 46] then Some (s, EMOLINVAL)
      else if i_num (inodes s rip) = ROOT_INODE then Some (s, FS_EMOLBUSY)
      else if list_ex (\<lambda>p. fp_pid (fprocs s p) \<noteq> PID_FREE \<and> (fp_workdir (fprocs s p) = rip \<or> fp_rootdir (fprocs s p) = rip)) [FIRST_USER_FP ..< nr_procs S]
      then Some (s, EBUSY)
      else do {
        (t, r1) \<leftarrow> unlink_file E m rldirp (Some rip) False dir_name s;
        if r1 \<noteq> 0 then Some (t, r1)
        else do {
          (u, _) \<leftarrow> unlink_file E m rip None True [46] t;
          (v, _) \<leftarrow> unlink_file E m rip None True [46, 46] u;
          Some (v, 0)
        }
      }
    }"

definition do_unlink :: "io_env \<Rightarrow> fs_sys \<Rightarrow> fs_msg \<Rightarrow> path_arg \<Rightarrow> fs_st \<Rightarrow> (fs_st \<times> int) option" where
  "do_unlink E S m name1 st =
    (let (st1, r1) = fetch_name name1 st in
     if r1 \<noteq> 0 then Some (st1, err_code st1)
     else do {
       (s, ld, str) \<leftarrow> last_dir E m (pa_path name1) st1;
       (case ld of None \<Rightarrow> Some (s, err_code s)
        | Some _ \<Rightarrow>
          do {
            (s1, dirp, x) \<leftarrow> advance E m False str ld s;
            (case x of None \<Rightarrow> do { let r = err_code s1; t \<leftarrow> put_inode E dirp s1; if r \<noteq> 0 then Some (t, r) else None }
             | Some rip \<Rightarrow>
               if i_num (inodes s1 rip) = ROOT_INODE then do { t \<leftarrow> put_inode E dirp s1; u \<leftarrow> put_inode E x t; Some (u, FS_EMOLBUSY) }
               else do {
                 d \<leftarrow> dirp;
                 (s2, r) \<leftarrow>
                   (if m_call m = MOLUNLINK then
                      (if is_dir rip s1 \<and> \<not> super_user s1 then Some (s1, EMOLPERM) else unlink_file E m d x False str s1)
                    else remove_dir E S m d rip str s1);
                 t \<leftarrow> put_inode E x s2;
                 u \<leftarrow> put_inode E dirp t;
                 Some (u, r)
               })
          })
     })"

section \<open>Renaming\<close>

text \<open>The loop that climbs from the new directory to the root: the state, the error and the inode that is left to release.\<close>

partial_function (option) superdir_loop :: "io_env \<Rightarrow> fs_msg \<Rightarrow> nat \<Rightarrow> nat \<Rightarrow> fs_st \<Rightarrow> (fs_st \<times> int \<times> nat option) option" where
  "superdir_loop E m old_ip sd st =
    (if sd = old_ip then Some (st, EMOLINVAL, Some sd)
     else do {
       (s, sd1, nxt) \<leftarrow> advance E m True [46, 46] (Some sd) st;
       t \<leftarrow> put_inode E sd1 s;
       if nxt = sd1 then Some (t, 0, sd1)
       else (case nxt of None \<Rightarrow> Some (t, EMOLINVAL, None) | Some q \<Rightarrow> superdir_loop E m old_ip q t)
     })"

text \<open>The tests of a rename whose two names could be followed.  Later tests overwrite the result of earlier ones.\<close>

definition rename_checks :: "io_env \<Rightarrow> fs_msg \<Rightarrow> nat \<Rightarrow> nat \<Rightarrow> nat \<Rightarrow> nat option \<Rightarrow> name \<Rightarrow> name \<Rightarrow> fs_st \<Rightarrow> (fs_st \<times> int) option" where
  "rename_checks E m od old_ip nd new_ip old_name new_name st =
    do {
      let odir = is_dir old_ip st;
      let same_pdir = (od = nd);
      (s, r1) \<leftarrow>
        (if odir \<and> \<not> same_pdir
         then do { (a, r, sd) \<leftarrow> superdir_loop E m old_ip nd (dup_inode nd st); b \<leftarrow> put_inode E sd a; Some (b, r) }
         else Some (st, 0));
      let r2 = (if cstr old_name = [46] \<or> cstr old_name = [46, 46] \<or> cstr new_name = [46] \<or> cstr new_name = [46, 46] then EMOLINVAL else r1);
      let r3 = (if i_dev (inodes s od) \<noteq> i_dev (inodes s nd) then EXDEV else r2);
      (s1, f1) \<leftarrow> forbidden E m od (or W_BIT X_BIT) s;
      (s2, f2) \<leftarrow> (if f1 \<noteq> 0 then Some (s1, f1) else forbidden E m nd (or W_BIT X_BIT) s1);
      let r4 = (if f2 \<noteq> 0 then f2 else r3);
      let r5 =
        (case new_ip of
           None \<Rightarrow>
             (let a = (if i_dev (inodes s2 old_ip) \<noteq> i_dev (inodes s2 od) then EMOLXDEV else r4)
              in if odir \<and> i_nlinks (inodes s2 nd) \<ge> max_links nd s2 \<and> \<not> same_pdir \<and> a = 0 then EMOLMLINK else a)
         | Some ni \<Rightarrow>
             (let a = (if old_ip = ni then SAME else r4);
                  b = (if i_dev (inodes s2 old_ip) \<noteq> i_dev (inodes s2 ni) then EMOLXDEV else a);
                  ndir = is_dir ni s2
              in if odir \<and> \<not> ndir then EMOLNOTDIR else if \<not> odir \<and> ndir then EMOLISDIR else b));
      Some (s2, r5)
    }"

text \<open>The entries are exchanged, and \<open>..\<close> of a directory that moves is redirected.\<close>

definition rename_entries :: "io_env \<Rightarrow> fs_msg \<Rightarrow> bool \<Rightarrow> nat \<Rightarrow> nat \<Rightarrow> nat \<Rightarrow> name \<Rightarrow> name \<Rightarrow> fs_st \<Rightarrow> (fs_st \<times> int) option" where
  "rename_entries E m odir od old_ip nd old_name new_name st =
    do {
      let numb = i_num (inodes st old_ip);
      (s, r) \<leftarrow>
        (if od = nd
         then do {
           (a, r, _) \<leftarrow> search_dir E m od False old_name 0 DELETE st;
           b \<leftarrow> (if r = 0 then map_option fst (search_dir E m od False new_name numb ENTER a) else Some a);
           Some (b, r)
         }
         else do {
           (a, r, _) \<leftarrow> search_dir E m nd False new_name numb ENTER st;
           b \<leftarrow> (if r = 0 then map_option fst (search_dir E m od False old_name 0 DELETE a) else Some a);
           Some (b, r)
         });
      if r = 0 \<and> odir \<and> od \<noteq> nd
      then do {
        let up = i_num (inodes s nd);
        (t, _) \<leftarrow> unlink_file E m old_ip None True [46, 46] s;
        (u, r1, _) \<leftarrow> search_dir E m old_ip True [46, 46] up ENTER t;
        Some (if r1 = 0 then upd_inode nd (\<lambda>x. x\<lparr>i_nlinks := i_nlinks x + 1, i_dirt := True\<rparr>) u else u, r)
      }
      else Some (s, r)
    }"

text \<open>What \<open>do_rename\<close> does once both names have been followed without an error.\<close>

definition rename_found :: "io_env \<Rightarrow> fs_sys \<Rightarrow> fs_msg \<Rightarrow> nat \<Rightarrow> nat \<Rightarrow> nat \<Rightarrow> nat option \<Rightarrow> name \<Rightarrow> name \<Rightarrow> fs_st \<Rightarrow> (fs_st \<times> int) option" where
  "rename_found E S m od old_ip nd new_ip old_name new_name st =
    do {
      let odir = is_dir old_ip st;
      (s, r) \<leftarrow> rename_checks E m od old_ip nd new_ip old_name new_name st;
      (s1, r1) \<leftarrow>
        (case new_ip of Some ni \<Rightarrow> if r \<noteq> 0 then Some (s, r) else if odir then remove_dir E S m nd ni new_name s else unlink_file E m nd new_ip False new_name s
         | None \<Rightarrow> Some (s, r));
      if r1 \<noteq> 0 then Some (s1, r1) else rename_entries E m odir od old_ip nd old_name new_name s1
    }"

text \<open>\<open>junk\<close> is what the buffer of the new name holds when \<open>last_dir\<close> returns without having written to it.\<close>

definition do_rename :: "io_env \<Rightarrow> fs_sys \<Rightarrow> fs_msg \<Rightarrow> name \<Rightarrow> path_arg \<Rightarrow> path_arg \<Rightarrow> fs_st \<Rightarrow> (fs_st \<times> int) option" where
  "do_rename E S m junk name1 name2 st =
    (let (st1, r1) = fetch_name name1 st in
     if r1 \<noteq> 0 then Some (st1, err_code st1)
     else do {
       (s, od0, old_name) \<leftarrow> last_dir E m (pa_path name1) st1;
       if od0 = None then Some (s, err_code s)
       else do {
         (s1, od, old_ip) \<leftarrow> advance E m False old_name od0 s;
         let e1 = (if old_ip = None then err_code s1 else 0);
         let (s2, r2) = fetch_name name2 s1;
         let e2 = (if r2 \<noteq> 0 then err_code s2 else e1);
         (s3, nd0, str) \<leftarrow> last_dir E m (pa_path name2) s2;
         let e3 = (if nd0 = None then err_code s3 else e2);
         let new_name = (if nd0 = None \<and> str = [] then junk else str);
         (s4, nd, new_ip) \<leftarrow> advance E m False new_name nd0 s3;
         (s5, r) \<leftarrow>
           (if e3 \<noteq> 0 then Some (s4, e3)
            else do { o1 \<leftarrow> od; o2 \<leftarrow> old_ip; n1 \<leftarrow> nd; rename_found E S m o1 o2 n1 new_ip old_name new_name s4 });
         t1 \<leftarrow> put_inode E od s5;
         t2 \<leftarrow> put_inode E old_ip t1;
         t3 \<leftarrow> put_inode E nd t2;
         t4 \<leftarrow> put_inode E new_ip t3;
         Some (t4, if r = SAME then 0 else r)
       }
     })"

section \<open>Truncation by name and by descriptor\<close>

definition do_truncate :: "io_env \<Rightarrow> fs_msg \<Rightarrow> path_arg \<Rightarrow> nat \<Rightarrow> fs_st \<Rightarrow> (fs_st \<times> int) option" where
  "do_truncate E m a newsize st =
    (let (st1, r1) = fetch_name a st in
     if r1 \<noteq> 0 then Some (st1, err_code st1)
     else do {
       (s, x) \<leftarrow> eat_path E m (pa_path a) st1;
       (case x of None \<Rightarrow> Some (s, err_code s)
        | Some rip \<Rightarrow>
          do {
            (t, r) \<leftarrow> (if i_type (i_mode (inodes s rip)) \<noteq> I_REGULAR then Some (s, EMOLINVAL) else truncate_inode E rip newsize s);
            u \<leftarrow> put_inode E x t;
            Some (u, r)
          })
     })"

definition do_ftruncate :: "io_env \<Rightarrow> int \<Rightarrow> nat \<Rightarrow> fs_st \<Rightarrow> (fs_st \<times> int) option" where
  "do_ftruncate E fd newsize st =
    (case get_filp fd st of (st0, None) \<Rightarrow> Some (st0, err_code st0)
     | (st0, Some f) \<Rightarrow>
       let rip = filp_ino (filps st0 f)
       in if i_type (i_mode (inodes st0 rip)) \<noteq> I_REGULAR then Some (st0, EMOLINVAL) else truncate_inode E rip newsize st0)"

section \<open>Directories and their entries\<close>

text \<open>A directory that is not empty is never removed.\<close>

lemma search_empty:
  assumes "dir_ok E st ip" "sp = inode_sp ip st" "r = inodes st ip" "I = dev_image E (fcache st)" "i_type (i_mode r) = I_DIRECTORY"
  shows "\<exists>c. dev_image E c = I \<and> search_dir E m ip own str numb IS_EMPTY st = Some (st\<lparr>fcache := c\<rparr>,
    (if \<exists>j < i_size r div 64. hits IS_EMPTY str (dir_entry sp I r j) then ENOTEMPTY else 0), numb)"
proof -
  let ?bs = "s_block_size sp" and ?per = "s_block_size sp div 64" and ?old = "i_size r div 64" and ?P = "\<lambda>j. hits IS_EMPTY str (dir_entry sp I r j)"
  note d = dir_okD [OF assms(1-3) refl refl]
  have same: "same_fs E st st" using same_fs_refl [OF d(7)] .
  have bs0: "?bs \<noteq> 0" using d(1,3) by simp
  show ?thesis
  proof (cases "find ?P [0 ..< ?old]")
    case None
    then obtain t k where t: "scan_dir E ip IS_EMPTY str ?old (map (\<lambda>j. j * ?bs) [0 ..< (i_size r + ?bs - 1) div ?bs]) 0 st = Some (t, k, None)" "same_fs E st t"
      using scan_dir_lookup [OF assms(1-4) refl refl refl same, of 0 IS_EMPTY str] by auto
    then obtain c where "t = st\<lparr>fcache := c\<rparr>" "dev_image E c = I" using assms(4) by (auto simp: same_fs_def)
    moreover have "search_dir E m ip own str numb IS_EMPTY st = Some (t, 0, numb)"
      using assms(2,3,5) t(1) bs0 by (simp add: search_dir_def DIR_ENTRY_SIZE_def Let_def)
    moreover have "\<not> (\<exists>j < ?old. ?P j)" using None by (auto simp: find_None_iff)
    ultimately show ?thesis by auto
  next
    case (Some j)
    then obtain t k n where t: "scan_dir E ip IS_EMPTY str ?old (map (\<lambda>j. j * ?bs) [0 ..< (i_size r + ?bs - 1) div ?bs]) 0 st = Some (t, k, Some (n, Match (j mod ?per)))"
      "dir_buf E st sp I r (j div ?per) t n" using scan_dir_lookup [OF assms(1-4) refl refl refl same, of 0 IS_EMPTY str] by auto
    obtain c where "fput E (Some n) DIRECTORY_BLOCK t = st\<lparr>fcache := c\<rparr>" "dev_image E c = I" using dir_buf_sel(3) [OF t(2) assms(4)] assms(4) by (auto simp: same_fs_def)
    moreover have "search_dir E m ip own str numb IS_EMPTY st = Some (fput E (Some n) DIRECTORY_BLOCK t, ENOTEMPTY, numb)"
      using assms(2,3,5) t(1) bs0 by (simp add: search_dir_def DIR_ENTRY_SIZE_def Let_def)
    moreover have "\<exists>j < ?old. ?P j" using Some by (auto simp: find_Some_iff)
    ultimately show ?thesis by auto
  qed
qed

text \<open>The entries of a directory.\<close>

definition dir_list :: "super_block \<Rightarrow> (int \<Rightarrow> int \<Rightarrow> block) \<Rightarrow> inode \<Rightarrow> (32 word \<times> name) list" where
  "dir_list sp I r = map (dir_entry sp I r) [0 ..< i_size r div 64]"

lemma put32_byte: "k < 4 * i \<or> 4 * i + 4 \<le> k \<Longrightarrow> put32 d i w k = d k"
  by (auto simp: put32_def put16_byte)

lemma erase_entry_others:
  assumes "k \<noteq> i"
  shows "d_ino (erase_entry i d) k = d_ino d k" "d_name (erase_entry i d) k = d_name d k"
proof -
  show "d_ino (erase_entry i d) k = d_ino d k" using assms by (simp add: d_ino_def erase_entry_def get32_put32)
  have "erase_entry i d (64 * k + 4 + j) = d (64 * k + 4 + j)" if "j < 60" for j
  proof -
    have "64 * k + 64 \<le> 64 * i \<or> 64 * i + 64 \<le> 64 * k" using assms by linarith
    then have "64 * k + 4 + j < 4 * (16 * i) \<or> 4 * (16 * i) + 4 \<le> 64 * k + 4 + j" "64 * k + 4 + j < 4 * (16 * i + 15) \<or> 4 * (16 * i + 15) + 4 \<le> 64 * k + 4 + j"
      using that by auto
    then show ?thesis unfolding erase_entry_def by (simp only: put32_byte)
  qed
  then have "map (\<lambda>j. erase_entry i d (64 * k + 4 + j)) [0 ..< NAME_MAX] = map (\<lambda>j. d (64 * k + 4 + j)) [0 ..< NAME_MAX]" by (simp add: NAME_MAX_def)
  then show "d_name (erase_entry i d) k = d_name d k" unfolding d_name_def by (rule arg_cong)
qed

lemma erase_entry_free: "d_ino (erase_entry i d) i = 0"
  by (simp add: d_ino_def erase_entry_def get32_put32)

lemma touched_map: "dir_entry sp I (r\<lparr>i_update := u, i_dirt := v\<rparr>) = dir_entry sp I r"
  by (simp add: dir_entry_def dir_block_def zone_ref_def ind_zone_def ind_index_def fun_eq_iff Let_def)

text \<open>A directory without holes whose zones are its own.\<close>

definition dir_whole :: "super_block \<Rightarrow> (int \<Rightarrow> int \<Rightarrow> block) \<Rightarrow> inode \<Rightarrow> bool" where
  "dir_whole sp I r \<longleftrightarrow> zones_apart sp I r \<and> (\<forall>p. p < i_size r \<longrightarrow> zone_ref sp I r (zone_of sp p) \<noteq> NO_ZONE)"

text \<open>Entry \<open>j\<close> is erased in its block.\<close>

lemma dir_erase:
  assumes "dir_ok E st ip" "sp = inode_sp ip st" "r = inodes st ip" "I = dev_image E (fcache st)" "dir_whole sp I r" "j < i_size r div 64"
    "per = s_block_size sp div 64" "clip E (s_dev sp) d = dir_block sp I r (j div per)"
    "I' = img_put I (s_dev sp) (dir_num sp I r (j div per)) (clip E (s_dev sp) (erase_entry (j mod per) d))"
  shows "\<exists>nm. dir_list sp I' r = (dir_list sp I r)[j := (0, nm)]"
proof -
  note o = dir_okD [OF assms(1-3,7) refl]
  let ?bs = "s_block_size sp" and ?p = "\<lambda>k. k div per * s_block_size sp"
  have lay: "layout_ok E sp" using file_ok_bs [OF o(7) assms(2)] by simp
  note fo = file_okD [OF o(7) assms(2,3)]
  have in_dir: "?p k < i_size r" "zone_of sp (?p k) < zone_range r" "zone_ref sp I r (zone_of sp (?p k)) \<noteq> NO_ZONE" if "k < i_size r div 64" for k
  proof -
    have "?p k = 64 * (k div per * per)" using o(1) by simp
    moreover have "k div per * per \<le> k" by simp
    ultimately show l: "?p k < i_size r" using that by linarith
    then show "zone_of sp (?p k) < zone_range r" using assms(1-4) by (simp add: dir_ok_def Let_def zone_range_def)
    show "zone_ref sp I r (zone_of sp (?p k)) \<noteq> NO_ZONE" using l assms(5) by (simp add: dir_whole_def)
  qed
  have num: "dir_num sp I r b = file_num sp I r (b * ?bs)" for b I by (simp add: dir_num_def file_num_def)
  have blk: "dir_block sp I r b = I (s_dev sp) (int (file_num sp I r (b * ?bs)))" for b I by (simp add: dir_block_def file_num_def Let_def)
  have za: "zones_apart sp I r" "0 < ?bs" using assms(5) o(1,3) by (simp_all add: dir_whole_def)
  note put = put_file_block [OF lay za(1) in_dir(2,3) [OF assms(6)] za(2) fo(7) fo(2) [symmetric] assms(9) [unfolded num]]
  have b: "dir_block sp I' r (k div per) = (if k div per = j div per then clip E (s_dev sp) (erase_entry (j mod per) d) else dir_block sp I r (k div per))"
    if "k < i_size r div 64" for k using put(3,4) [OF in_dir(2) [OF that]] in_dir(3) [OF that] za(2) by (simp add: blk)
  have ent: "dir_entry sp I' r k = (if k = j then (0, d_name (erase_entry (j mod per) d) (j mod per)) else dir_entry sp I r k)" if k: "k < i_size r div 64" for k
  proof (cases "k div per = j div per")
    case True
    have "k mod per < per" using o(3) by simp
    then have "64 * (k mod per) + 64 \<le> io_bsize E (s_dev sp)" unfolding o(6) o(1) by linarith
    note c = entry_clip [OF o(5) this]
    have e: "d_ino d (k mod per) = d_ino (dir_block sp I r (j div per)) (k mod per)" "d_name d (k mod per) = d_name (dir_block sp I r (j div per)) (k mod per)"
      using c [of d] assms(8) by simp_all
    have "k = j \<longleftrightarrow> k mod per = j mod per" using True by (metis div_mod_decomp)
    then show ?thesis using b [OF k] True c e erase_entry_others [of "k mod per" "j mod per" d] erase_entry_free
      by (auto simp: dir_entry_def Let_def assms(7) [symmetric])
  next
    case False
    then show ?thesis using b [OF k] by (auto simp: dir_entry_def Let_def assms(7) [symmetric])
  qed
  show ?thesis unfolding dir_list_def
    by (intro exI [of _ "d_name (erase_entry (j mod per) d) (j mod per)"] nth_equalityI) (use ent assms(6) in \<open>auto simp: nth_list_update\<close>)
qed

lemma forbidden_ok:
  assumes "\<not> i_mount (inodes st ip)" "m_call m \<noteq> EMOLACCES" "p = perm_bits (fp_effuid (the_fp st)) (fp_effgid (the_fp st)) (inodes st ip)" "or p a = p"
    "\<not> s_rd_only (inode_sp ip st)"
  shows "forbidden E m ip a st = Some (st, 0)"
  using assms by (simp add: forbidden_def Let_def read_only_def)

lemma search_dir_delete:
  assumes "dir_ok E st ip" "sp = inode_sp ip st" "r = inodes st ip" "I = dev_image E (fcache st)" "i_type (i_mode r) = I_DIRECTORY" "dir_whole sp I r"
    "own \<or> \<not> i_mount r \<and> m_call m \<noteq> EMOLACCES \<and> or p 3 = p" "p = perm_bits (fp_effuid (the_fp st)) (fp_effgid (the_fp st)) r" "dir_find sp I r str = Some j"
  obtains c nm where "search_dir E m ip own str numb DELETE st = Some (touch_dir ip (st\<lparr>fcache := c\<rparr>), 0, numb)"
    "dir_list sp (dev_image E c) r = (dir_list sp I r)[j := (0, nm)]" "calm E (fcache st) c"
proof -
  let ?bs = "s_block_size sp" and ?per = "s_block_size sp div 64" and ?old = "i_size r div 64"
  note d = dir_okD [OF assms(1-3) refl refl]
  have rw: "\<not> s_rd_only sp" using file_ok_bs(2) [OF d(7) assms(2)] by (simp add: layout_ok_def zones_ok_def)
  then have fb: "(if own then Some (st, read_only ip st) else forbidden E m ip (or W_BIT X_BIT) st) = Some (st, 0)"
    using assms(2,3,7,8) forbidden_ok [of st ip m p "or W_BIT X_BIT" E] by (auto simp: read_only_def)
  have bs0: "?bs \<noteq> 0" using d(1,3) by simp
  obtain t k n where t: "scan_dir E ip DELETE str ?old (map (\<lambda>j. j * ?bs) [0 ..< (i_size r + ?bs - 1) div ?bs]) 0 st = Some (t, k, Some (n, Match (j mod ?per)))"
    "dir_buf E st sp I r (j div ?per) t n"
    using scan_dir_lookup [OF assms(1-4) refl refl refl same_fs_refl [OF d(7)], of 0 DELETE str] assms(9) by (auto simp: dir_find_def hits_def)
  obtain c where c: "t = st\<lparr>fcache := c\<rparr>" "clip E (s_dev sp) (b_data (bufs c n)) = dir_block sp I r (j div ?per)"
    "\<And>e. calm E (fcache st) (put_block E (Some n) DIRECTORY_BLOCK (set_data n e c))"
    "\<And>e. dev_image E (put_block E (Some n) DIRECTORY_BLOCK (set_data n e c)) = img_put I (s_dev sp) (dir_num sp I r (j div ?per)) (clip E (s_dev sp) e)"
    using t(2) unfolding dir_buf_def by blast
  define e where "e = erase_entry (j mod ?per) (b_data (bufs c n))"
  have j: "j < ?old" using assms(9) by (auto simp: dir_find_def find_Some_iff)
  obtain nm where nm: "dir_list sp (dev_image E (put_block E (Some n) DIRECTORY_BLOCK (set_data n e c))) r = (dir_list sp I r)[j := (0, nm)]"
    using dir_erase [OF assms(1-4,6) j refl c(2) c(4) [of e, unfolded e_def]] by (auto simp: e_def)
  have "search_dir E m ip own str numb DELETE st = Some (fput E (Some n) DIRECTORY_BLOCK (touch_dir ip (t\<lparr>fcache := set_data n e (fcache t)\<rparr>)), 0, numb)"
    using assms(2,3,5) fb t(1) bs0 c(1) by (cases own) (simp_all add: search_dir_def DIR_ENTRY_SIZE_def Let_def e_def)
  also have "fput E (Some n) DIRECTORY_BLOCK (touch_dir ip (t\<lparr>fcache := set_data n e (fcache t)\<rparr>))
      = touch_dir ip (st\<lparr>fcache := put_block E (Some n) DIRECTORY_BLOCK (set_data n e c)\<rparr>)"
    using c(1) by (simp add: fput_def touch_dir_def upd_inode_def)
  finally show thesis using that nm c(3) by blast
qed

lemma dir_ok_other: "x \<noteq> ip \<Longrightarrow> dir_ok E (upd_inode x f st) ip = dir_ok E st ip"
  by (simp add: dir_ok_def file_ok_def zone_st_def inode_sp_def upd_inode_def Let_def)

lemma dir_list_touched: "dir_list sp I (r\<lparr>i_update := u, i_dirt := v\<rparr>) = dir_list sp I r"
  by (simp add: dir_list_def touched_map)

text \<open>C15: Unlinking a file removes its name and nothing else: when the caller may write and search the directory, the call succeeds, the entry that a look-up of the
  name finds becomes free, all the other entries of the directory are what they were, in the same places, the file has one link less and the inode
  as many users as before.\<close>

theorem unlink_file_removes_entry:
  assumes "dir_ok E st d" "sp = inode_sp d st" "r = inodes st d" "I = dev_image E (fcache st)" "i_type (i_mode r) = I_DIRECTORY" "dir_whole sp I r"
    and "\<not> i_mount r" "m_call m \<noteq> EMOLACCES" "or (perm_bits (fp_effuid (fprocs st (cur_fp st))) (fp_effgid (fprocs st (cur_fp st))) r) 3 = perm_bits (fp_effuid (fprocs st (cur_fp st))) (fp_effgid (fprocs st (cur_fp st))) r"
    and "dir_find sp I r name = Some j" "ip \<noteq> d" "0 < i_count (inodes st ip)"
  shows "\<exists>s nm. unlink_file E m d (Some ip) False name st = Some (s, 0) \<and> dir_list sp (dev_image E (fcache s)) (inodes s d) = (dir_list sp I r)[j := (0, nm)]
    \<and> i_nlinks (inodes s ip) = i_nlinks (inodes st ip) - 1 \<and> i_count (inodes s ip) = i_count (inodes st ip)"
proof -
  let ?st = "dup_inode ip st"
  have st: "dir_ok E ?st d" "inode_sp d ?st = sp" "inodes ?st d = r" "fcache ?st = fcache st" "fprocs ?st = fprocs st" "cur_fp ?st = cur_fp st"
    using assms(1-3,11) dir_ok_other [OF assms(11)] by (simp_all add: dup_inode_def inode_sp_def upd_inode_def)
  let ?p = "perm_bits (fp_effuid (the_fp st)) (fp_effgid (the_fp st)) r"
  have pm: "False \<or> \<not> i_mount r \<and> m_call m \<noteq> EMOLACCES \<and> or ?p 3 = ?p" using assms(7-9) by simp
  from search_dir_delete [OF st(1) st(2,3) [symmetric], where own = False and str = name and numb = 0 and j = j and I = I and m = m, unfolded st(4-6), OF assms(4-6) pm refl assms(10)]
  obtain c nm where c: "search_dir E m d False name 0 DELETE ?st = Some (touch_dir d (?st\<lparr>fcache := c\<rparr>), 0, 0)" "dir_list sp (dev_image E c) r = (dir_list sp I r)[j := (0, nm)]"
    by blast
  define u where "u = upd_inode ip (\<lambda>x. x\<lparr>i_nlinks := i_nlinks x - 1, i_update := or (i_update x) CTIME, i_dirt := True\<rparr>) (touch_dir d (?st\<lparr>fcache := c\<rparr>))"
  have u: "i_count (inodes u ip) = i_count (inodes st ip) + 1" "i_nlinks (inodes u ip) = i_nlinks (inodes st ip) - 1" "fcache u = c"
    "inodes u d = r\<lparr>i_update := or (i_update r) (or CTIME MTIME), i_dirt := True\<rparr>"
    using assms(3,11) by (simp_all add: u_def touch_dir_def dup_inode_def upd_inode_def)
  have "put_inode E (Some ip) u = Some (upd_inode ip (\<lambda>x. x\<lparr>i_count := i_count x - 1\<rparr>) u)" using u(1) assms(12) by (intro put_inode_back) simp
  then have "unlink_file E m d (Some ip) False name st = Some (upd_inode ip (\<lambda>x. x\<lparr>i_count := i_count x - 1\<rparr>) u, 0)"
    using c(1) by (simp add: unlink_file_def u_def)
  then show ?thesis using u c(2) assms(11) dir_list_touched by (intro exI [of _ "upd_inode ip (\<lambda>x. x\<lparr>i_count := i_count x - 1\<rparr>) u"] exI [of _ nm]) (simp add: upd_inode_def)
qed

lemma fs_etc_whole: "dir_whole fs_sp (dev_image fs_E (fs_pool fs_etc_disk)) fs_etc_ino"
proof -
  let ?I = "dev_image fs_E (fs_pool fs_etc_disk)"
  have i: "islot fs_sp ?I fs_etc_ino k = 0" for k by (simp add: islot_def ind_ref_def fs_etc_ino_def fs_ino_def nth_Cons')
  have z: "zone_ref fs_sp ?I fs_etc_ino k = (if k = 0 then 6 else 0)" for k
    by (cases "k < 7") (auto simp: zone_ref_def ind_zone_def ind_ref_def fs_etc_ino_def fs_ino_def nth_Cons')
  have "data_zone fs_sp 6" by (simp add: data_zone_def fs_sp_def)
  then have "zones_apart fs_sp ?I fs_etc_ino" unfolding zones_apart_def tree_ok_def using i z by simp
  moreover have "zone_of fs_sp p = 0" if "p < 128" for p using that by (simp add: zone_of_def fs_sp_def)
  ultimately show ?thesis using z by (simp add: dir_whole_def fs_etc_ino_def)
qed

lemma fs_etc_find: "dir_find fs_sp (dev_image fs_E (fs_pool fs_etc_disk)) fs_etc_ino [101, 116, 99] = Some 1"
proof -
  have e: "d_ino fs_etc_block 0 = 1" "d_ino fs_etc_block 1 = 9" "d_name fs_etc_block 0 = [46]" "d_name fs_etc_block 1 = [101, 116, 99]" by code_simp+
  have c: "cstr (take NAME_MAX [101, 116, 99]) = [101, 116, 99]" by code_simp
  have "[0 ..< i_size fs_etc_ino div 64] = [0, 1]" by (simp add: fs_etc_ino_def upt_rec)
  then show ?thesis by (simp add: dir_find_def c fs_etc_entry e del: One_nat_def)
qed

theorem unlink_file_removes_entry_witness:
  "\<exists>s nm. unlink_file fs_E (fs_ask 10) 5 (Some 7) False [101, 116, 99] fs_etc = Some (s, 0)
    \<and> dir_list fs_sp (dev_image fs_E (fcache s)) (inodes s 5) = [(1, [46]), (0, nm)] \<and> i_nlinks (inodes s 7) = 0"
proof -
  let ?I = "dev_image fs_E (fs_pool fs_etc_disk)"
  have p: "i_type (i_mode fs_etc_ino) = I_DIRECTORY" "\<not> i_mount fs_etc_ino" "m_call (fs_ask 10) \<noteq> EMOLACCES"
    by (simp_all add: fs_etc_ino_def fs_ino_def i_type_def fs_ask_def)
  have "or (perm_bits (fp_effuid fs_proc) (fp_effgid fs_proc) fs_etc_ino) 3 = perm_bits (fp_effuid fs_proc) (fp_effgid fs_proc) fs_etc_ino"
    using p(1) by (simp add: perm_bits_def fs_proc_def Let_def)
  moreover have i7: "inodes fs_etc 7 = fs_ino" by (simp add: fs_etc_def)
  moreover have "0 < i_count (inodes fs_etc 7)" by (simp add: i7 fs_ino_def)
  ultimately obtain s nm where s: "unlink_file fs_E (fs_ask 10) 5 (Some 7) False [101, 116, 99] fs_etc = Some (s, 0)"
    "dir_list fs_sp (dev_image fs_E (fcache s)) (inodes s 5) = (dir_list fs_sp ?I fs_etc_ino)[1 := (0, nm)]" "i_nlinks (inodes s 7) = i_nlinks (inodes fs_etc 7) - 1"
    using unlink_file_removes_entry [OF fs_etc_ok refl refl refl, unfolded fs_etc_sel, OF p(1) fs_etc_whole p(2,3) _ fs_etc_find, of 7] by auto
  have e: "d_ino fs_etc_block 0 = 1" "d_name fs_etc_block 0 = [46]" by code_simp+
  have "[0 ..< i_size fs_etc_ino div 64] = [0, 1]" by (simp add: fs_etc_ino_def upt_rec)
  then have "(dir_list fs_sp ?I fs_etc_ino)[1 := (0, nm)] = [(1, [46]), (0, nm)]" by (simp add: dir_list_def fs_etc_entry e)
  moreover have "i_nlinks fs_ino = 1" by (simp add: fs_ino_def)
  ultimately show ?thesis using s i7 by auto
qed

text \<open>C16: A directory with an entry besides \<open>.\<close> and \<open>..\<close> is never removed: \<open>remove_dir\<close>, which serves \<open>rmdir\<close> and \<open>rename\<close>, refuses the call, and neither the devices
  nor the tables of the server have changed.\<close>

theorem remove_dir_refuses_nonempty:
  assumes "dir_ok E st rip" "sp = inode_sp rip st" "r = inodes st rip" "I = dev_image E (fcache st)" "i_type (i_mode r) = I_DIRECTORY"
    and "(num, nm) \<in> set (dir_list sp I r)" "num \<noteq> 0" "nm \<noteq> [46]" "nm \<noteq> [46, 46]"
  shows "\<exists>c. remove_dir E S m d rip name st = Some (st\<lparr>fcache := c\<rparr>, ENOTEMPTY) \<and> dev_image E c = I"
proof -
  obtain j where "j < i_size r div 64" "dir_entry sp I r j = (num, nm)" using assms(6) by (auto simp: dir_list_def)
  then have "\<exists>j < i_size r div 64. hits IS_EMPTY [] (dir_entry sp I r j)" using assms(7-9) by (intro exI [of _ j]) (simp add: hits_def)
  then obtain c where "dev_image E c = I" "search_dir E m rip False [] 0 IS_EMPTY st = Some (st\<lparr>fcache := c\<rparr>, ENOTEMPTY, 0)"
    using search_empty [OF assms(1-5), of m False "[]" 0] by auto
  then show ?thesis by (auto simp: remove_dir_def)
qed

theorem remove_dir_refuses_nonempty_witness: "\<exists>c. remove_dir fs_E fs_env (fs_ask 40) 6 5 [120] fs_etc = Some (fs_etc\<lparr>fcache := c\<rparr>, 39)"
proof -
  let ?I = "dev_image fs_E (fs_pool fs_etc_disk)"
  have p: "i_type (i_mode fs_etc_ino) = I_DIRECTORY" by (simp add: fs_etc_ino_def fs_ino_def i_type_def)
  have e: "d_ino fs_etc_block 1 = 9" "d_name fs_etc_block 1 = [101, 116, 99]" by code_simp+
  have "[0 ..< i_size fs_etc_ino div 64] = [0, 1]" by (simp add: fs_etc_ino_def upt_rec)
  then have "(9, [101, 116, 99]) \<in> set (dir_list fs_sp ?I fs_etc_ino)" using fs_etc_entry [of 1] e by (simp add: dir_list_def del: One_nat_def)
  then show ?thesis using remove_dir_refuses_nonempty [OF fs_etc_ok refl refl refl, unfolded fs_etc_sel, OF p, of 9 "[101, 116, 99]" fs_env "fs_ask 40" 6 "[120]"] by auto
qed

end
