(* ===== verification/Fs_Read.thy ===== *)
theory Fs_Read
  imports Fs_Link
begin

text \<open>
  Reading and writing files (\<open>src/servers/fs/read.c\<close>, \<open>do_write\<close> of \<open>write.c\<close>): the calls \<open>read\<close> and \<open>write\<close>, the transfer of one chunk within a
  block, and read-ahead.  Record \<open>rw_st\<close> adds the memory of the user processes, the pending read-ahead and the partial counts of pipes to the
  state of the server.  The copies between the server and a process go through the kernel and character devices through their drivers: record
  \<open>rw_sys\<close> says how many bytes were copied and with which result, and what a driver does.  The test for pipes is switched off in the build, so that
  pipes are read and written like files.  \<open>None\<close> is the end of the server.
\<close>

section \<open>State\<close>

abbreviation (input) "FS_PM_PROC_NR \<equiv> 0 :: int"
abbreviation (input) "PM_SEG_BIT \<equiv> 30 :: nat"
abbreviation (input) "BLOCKS_MINIMUM \<equiv> 32 :: nat"

record rw_st =
  rw_fs :: fs_st
  rw_mem :: "int \<Rightarrow> nat \<Rightarrow> 8 word"
  rdahed_inode :: "nat option"
  rdahedpos :: nat
  cum_io_partial :: "nat \<Rightarrow> int"

text \<open>\<open>vcopy\<close>: written to the process or not, endpoint, address and length to the number of bytes copied and the result of \<open>mnx_vcopy\<close>; \<open>dev_rw\<close>: written
  or not, device, endpoint, address, position, length and flags of \<open>dev_io\<close>.\<close>

record rw_sys =
  vcopy :: "bool \<Rightarrow> int \<Rightarrow> nat \<Rightarrow> nat \<Rightarrow> nat \<times> int"
  dev_rw :: "bool \<Rightarrow> int \<Rightarrow> int \<Rightarrow> nat \<Rightarrow> nat \<Rightarrow> nat \<Rightarrow> nat \<Rightarrow> rw_st \<Rightarrow> (rw_st \<times> int) option"

definition zone_dev :: "inode \<Rightarrow> int" where
  "zone_dev r = sint (word_of_nat (i_zone r ! 0) :: 16 word)"

definition is_block_spec :: "inode \<Rightarrow> bool" where
  "is_block_spec r \<longleftrightarrow> i_type (i_mode r) = I_BLOCK_SPECIAL"

section \<open>Read-ahead\<close>

text \<open>The loop of \<open>rahead\<close>: \<open>todo\<close> blocks may still be asked for.\<close>

fun prefetch :: "io_env \<Rightarrow> int \<Rightarrow> nat \<Rightarrow> nat \<Rightarrow> bufno list \<Rightarrow> fs_st \<Rightarrow> (fs_st \<times> bufno list) option" where
  "prefetch E dev block 0 read_q st = Some (st, read_q)"
| "prefetch E dev block (Suc todo) read_q st =
    (if bufs_in_use (fcache st) \<ge> int NR_BUFS - 4 then Some (st, read_q)
     else
      let b1 = (block + 1) mod 2 ^ 32 in
      do {
        (s, n) \<leftarrow> fget E dev b1 PREFETCH st;
        if b_dev (bufs (fcache s) n) \<noteq> NO_DEV then Some (fput E (Some n) FULL_DATA_BLOCK s, read_q)
        else prefetch E dev b1 todo (read_q @ [n]) s
      })"

text \<open>How many blocks are asked for.  \<open>NR_IOREQS\<close> has no parentheses around its conditional: \<open>blocks_ahead > NR_IOREQS\<close> is
  \<open>blocks_ahead > 0 ? NR_BUFS : 64\<close>, which is never 0, and every request becomes one for 64 blocks.\<close>

definition blocks_to_read :: "nat \<Rightarrow> inode \<Rightarrow> super_block \<Rightarrow> nat \<Rightarrow> nat \<Rightarrow> nat" where
  "blocks_to_read block_size r sp position bytes_ahead =
    (let fragment = position mod block_size;
         pos = position - fragment;
         ahead = ((bytes_ahead + fragment + block_size - 1) mod 2 ^ 32) div block_size;
         bl = ((i_size r + 2 ^ 32 - pos + block_size - 1) mod 2 ^ 32) div block_size;
         ind1_pos = (i_ndzones r * (block_size * 2 ^ nat (s_log_zone_size sp))) mod 2 ^ 32;
         near = \<not> is_block_spec r \<and> pos \<le> ind1_pos \<and> i_size r > ind1_pos;
         (ahead1, bleft) = (if is_block_spec r \<and> i_size r = 0 then (ahead, NR_IOREQS) else if near then (ahead + 1, bl + 1) else (ahead, bl));
         ahead2 = (if (if ahead1 > 0 then NR_BUFS else 64) \<noteq> 0 then NR_IOREQS else ahead1);
         ahead3 = (if ahead2 < BLOCKS_MINIMUM \<and> \<not> i_seek r then BLOCKS_MINIMUM else ahead2)
     in if ahead3 > bleft then bleft else ahead3)"

definition rahead :: "io_env \<Rightarrow> nat \<Rightarrow> nat \<Rightarrow> nat \<Rightarrow> nat \<Rightarrow> fs_st \<Rightarrow> (fs_st \<times> bufno) option" where
  "rahead E ip baseblock position bytes_ahead st =
    (let r = inodes st ip; dev = (if is_block_spec r then zone_dev r else i_dev r); block_size = io_bsize E dev in
     do {
       (s, n) \<leftarrow> fget E dev baseblock PREFETCH st;
       if b_dev (bufs (fcache s) n) \<noteq> NO_DEV then Some (s, n)
       else if block_size = 0 then None
       else do {
         let todo = (blocks_to_read block_size r (inode_sp ip st) position bytes_ahead + 2 ^ 32 - 1) mod 2 ^ 32;
         (t, q) \<leftarrow> prefetch E dev baseblock todo [n] s;
         fget E dev baseblock NORMAL (t\<lparr>fcache := rw_scattered E dev q READING (fcache t)\<rparr>)
       }
     })"

definition read_ahead :: "io_env \<Rightarrow> rw_st \<Rightarrow> rw_st option" where
  "read_ahead E st =
    do {
      ip \<leftarrow> rdahed_inode st;
      let block_size = io_bsize E (i_dev (inodes (rw_fs st) ip));
      (s, b) \<leftarrow> read_map E ip (rdahedpos st) (rw_fs st);
      if b = 0 then Some (st\<lparr>rw_fs := s, rdahed_inode := None\<rparr>)
      else do {
        (t, n) \<leftarrow> rahead E ip b (rdahedpos st) block_size s;
        Some (st\<lparr>rw_fs := fput E (Some n) PARTIAL_DATA_BLOCK t, rdahed_inode := None\<rparr>)
      }
    }"

section \<open>One chunk\<close>

text \<open>Bytes of a block to a process and back.\<close>

definition copy_out :: "block \<Rightarrow> nat \<Rightarrow> int \<Rightarrow> nat \<Rightarrow> nat \<Rightarrow> (int \<Rightarrow> nat \<Rightarrow> 8 word) \<Rightarrow> int \<Rightarrow> nat \<Rightarrow> 8 word" where
  "copy_out d off usr buff cnt mem = mem(usr := (\<lambda>a. if buff \<le> a \<and> a < buff + cnt then d (off + (a - buff)) else mem usr a))"

definition copy_in :: "(nat \<Rightarrow> 8 word) \<Rightarrow> nat \<Rightarrow> nat \<Rightarrow> nat \<Rightarrow> block \<Rightarrow> block" where
  "copy_in um buff off cnt d = (\<lambda>k. if off \<le> k \<and> k < off + cnt then um (buff + (k - off)) else d k)"

text \<open>The buffer for the chunk.\<close>

definition chunk_buf :: "io_env \<Rightarrow> nat \<Rightarrow> nat \<Rightarrow> nat \<Rightarrow> nat \<Rightarrow> nat \<Rightarrow> bool \<Rightarrow> nat \<Rightarrow> fs_st \<Rightarrow> (fs_st \<times> bufno option) option" where
  "chunk_buf E ip position off chunk bytes writing block_size st =
    (let r = inodes st ip; bspec = is_block_spec r in
     do {
       (s, b) \<leftarrow> (if bspec then Some (st, position div block_size) else read_map E ip position st);
       if \<not> bspec \<and> b = 0 then
         (if writing then new_block E ip position s else do { (t, n) \<leftarrow> fget E NO_DEV 0 NORMAL s; Some (fzero n t, Some n) })
       else if \<not> writing then do { (t, n) \<leftarrow> rahead E ip b position bytes s; Some (t, Some n) }
       else do {
         (t, n) \<leftarrow> fget E (if bspec then zone_dev r else i_dev r) b
            (if \<not> bspec \<and> off = 0 \<and> position \<ge> i_size (inodes s ip) then NO_READ else if chunk = block_size then NO_READ else NORMAL) s;
         Some (t, Some n)
       }
     })"

definition rw_chunk :: "io_env \<Rightarrow> rw_sys \<Rightarrow> nat \<Rightarrow> nat \<Rightarrow> nat \<Rightarrow> nat \<Rightarrow> nat \<Rightarrow> bool \<Rightarrow> nat \<Rightarrow> int \<Rightarrow> nat \<Rightarrow> rw_st \<Rightarrow> (rw_st \<times> int) option" where
  "rw_chunk E V ip position off chunk bytes writing buff usr block_size st =
    do {
      (t, bp) \<leftarrow> chunk_buf E ip position off chunk bytes writing block_size (rw_fs st);
      (case bp of None \<Rightarrow> Some (st\<lparr>rw_fs := t\<rparr>, err_code t)
       | Some n \<Rightarrow>
         let t1 = (if writing \<and> chunk \<noteq> block_size \<and> \<not> is_block_spec (inodes t ip) \<and> position \<ge> i_size (inodes t ip) \<and> off = 0 then fzero n t else t);
             d = b_data (bufs (fcache t1) n);
             (cnt, r) = vcopy V (\<not> writing) usr buff chunk;
             t2 = (if writing then t1\<lparr>fcache := set_data n (copy_in (rw_mem st usr) buff off cnt d) (fcache t1)\<rparr> else t1);
             mem = (if writing then rw_mem st else copy_out d off usr buff cnt (rw_mem st));
             ty = (if off + chunk = block_size then FULL_DATA_BLOCK else PARTIAL_DATA_BLOCK)
         in Some (st\<lparr>rw_fs := fput E (Some n) ty t2, rw_mem := mem\<rparr>, r))
    }"

section \<open>The calls\<close>

definition chunk_size :: "bool \<Rightarrow> nat \<Rightarrow> nat \<Rightarrow> nat \<Rightarrow> nat \<Rightarrow> nat" where
  "chunk_size writing nbytes block_size f_size position =
    (let c = min nbytes (block_size - position mod block_size)
     in if writing then c else min c (f_size - position))"

text \<open>The loop over the chunks: the state, the bytes transferred, the new position and the last result.\<close>

function rw_chunks :: "io_env \<Rightarrow> rw_sys \<Rightarrow> nat \<Rightarrow> bool \<Rightarrow> int \<Rightarrow> nat \<Rightarrow> nat \<Rightarrow> nat \<Rightarrow> nat \<Rightarrow> nat \<Rightarrow> int \<Rightarrow> rw_st \<Rightarrow> (rw_st \<times> int \<times> nat \<times> int) option" where
  "rw_chunks E V ip writing usr block_size f_size nbytes buff position cum_io st =
    (if nbytes = 0 then Some (st, cum_io, position, 0)
     else if block_size = 0 then None
     else if \<not> writing \<and> position \<ge> f_size then Some (st, cum_io, position, 0)
     else
      let off = position mod block_size; chunk = chunk_size writing nbytes block_size f_size position in
      (case rw_chunk E V ip position off chunk nbytes writing buff usr block_size st of None \<Rightarrow> None
       | Some (s, r) \<Rightarrow>
         if r \<noteq> 0 \<or> rdwt_err (fcache (rw_fs s)) < 0 then Some (s, cum_io, position, r)
         else rw_chunks E V ip writing usr block_size f_size (nbytes - chunk) ((buff + chunk) mod 2 ^ 32) ((position + chunk) mod 2 ^ 32) (cum_io + int chunk) s))"
  by pat_completeness auto
termination
  by (relation "measure (\<lambda>(E, V, ip, writing, usr, block_size, f_size, nbytes, buff, position, cum_io, st). nbytes)")
    (auto simp: chunk_size_def Let_def min_def)

declare rw_chunks.simps [simp del]

text \<open>What follows the transfer: file size, position, read-ahead, times and the result.\<close>

definition rw_finish :: "nat \<Rightarrow> nat \<Rightarrow> bool \<Rightarrow> nat \<Rightarrow> nat \<Rightarrow> int \<Rightarrow> nat \<Rightarrow> int \<Rightarrow> rw_st \<Rightarrow> (rw_st \<times> int) option" where
  "rw_finish f ip writing block_size f_size cum_io position r st =
    (let s = rw_fs st; ino = inodes s ip; mode_word = i_type (i_mode ino);
         regular = (mode_word = I_REGULAR \<or> mode_word = I_NAMED_PIPE);
         drained = (\<not> writing \<and> i_pipe ino \<and> position \<ge> i_size ino);
         s1 = (if writing \<and> (regular \<or> mode_word = I_DIRECTORY) \<and> position > f_size then upd_inode ip (\<lambda>x. x\<lparr>i_size := position\<rparr>) s
               else if drained then
                 let a = upd_inode ip (\<lambda>x. x\<lparr>i_size := 0\<rparr>) s
                 in (case find_filp ip W_BIT a of None \<Rightarrow> a | Some w \<Rightarrow> upd_filp w (\<lambda>x. x\<lparr>filp_pos := 0\<rparr>) a)
               else s);
         pos = (if drained then 0 else position);
         s2 = upd_filp f (\<lambda>x. x\<lparr>filp_pos := pos\<rparr>) s1 in
     if \<not> writing \<and> \<not> i_seek ino \<and> block_size = 0 then None
     else
      let ahead = (\<not> writing \<and> \<not> i_seek ino \<and> pos mod block_size = 0 \<and> (regular \<or> mode_word = I_DIRECTORY));
          s3 = upd_inode ip (\<lambda>x. x\<lparr>i_seek := False\<rparr>) s2;
          e = rdwt_err (fcache s3);
          r1 = (if e = END_OF_FILE then 0 else if e \<noteq> 0 then e else r);
          s4 = (if r1 = 0 then upd_inode ip (\<lambda>x. x\<lparr>i_update := or (i_update x) (if writing then or CTIME MTIME else ATIME), i_dirt := True\<rparr>) s3 else s3);
          st1 = st\<lparr>rw_fs := s4, rdahed_inode := if ahead then Some ip else rdahed_inode st, rdahedpos := if ahead then pos else rdahedpos st\<rparr> in
      Some (if r1 = 0 then (st1\<lparr>cum_io_partial := (cum_io_partial st1)(cur_fp s4 := 0)\<rparr>, cum_io) else (st1, r1)))"

text \<open>The transfer itself: the state, the bytes transferred, the new position and the result; or the call returns at once.\<close>

definition rw_transfer :: "io_env \<Rightarrow> rw_sys \<Rightarrow> nat \<Rightarrow> nat \<Rightarrow> bool \<Rightarrow> int \<Rightarrow> nat \<Rightarrow> nat \<Rightarrow> nat \<Rightarrow> rw_st \<Rightarrow> ((rw_st \<times> int) + (rw_st \<times> int \<times> nat \<times> int)) option" where
  "rw_transfer E V f ip writing usr buffer nbytes block_size st =
    (let s = rw_fs st; ino = inodes s ip; x = filps s f; position = filp_pos x; mode_word = i_type (i_mode ino);
         cum = (if i_pipe ino then cum_io_partial st (cur_fp s) else 0) in
     if mode_word = I_CHAR_SPECIAL then
       do {
         (t, r) \<leftarrow> dev_rw V writing (zone_dev ino) usr buffer position nbytes (filp_flags x) st;
         Some (Inr (if r \<ge> 0 then (t, r, nat ((int position + r) mod 2 ^ 32), 0) else (t, cum, position, r)))
       }
     else if writing \<and> mode_word \<noteq> I_BLOCK_SPECIAL then
       (if position > (s_max_size (inode_sp ip s) + 2 ^ 32 - nbytes) mod 2 ^ 32 then Some (Inl (st, EMOLFBIG))
        else do {
          let pos = (if and (filp_flags x) O_APPEND \<noteq> 0 then i_size ino else position);
          s1 \<leftarrow> (if pos > i_size ino then clear_zone E ip (i_size ino) False s else Some s);
          p \<leftarrow> rw_chunks E V ip writing usr block_size (i_size ino) nbytes buffer pos cum (st\<lparr>rw_fs := s1\<rparr>);
          Some (Inr p)
        })
     else do {
       p \<leftarrow> rw_chunks E V ip writing usr block_size (if mode_word = I_BLOCK_SPECIAL then 2 ^ 32 - 1 else i_size ino) nbytes buffer position cum st;
       Some (Inr p)
     })"

text \<open>The process manager marks a request on behalf of another process by a bit of the descriptor, and names the process in \<open>pm_usr\<close>.\<close>

definition read_write :: "io_env \<Rightarrow> rw_sys \<Rightarrow> bool \<Rightarrow> int \<Rightarrow> int \<Rightarrow> int \<Rightarrow> nat \<Rightarrow> int \<Rightarrow> rw_st \<Rightarrow> (rw_st \<times> int) option" where
  "read_write E V writing who_e pm_usr fd0 buffer nbytes st =
    (let for_pm = (who_e = FS_PM_PROC_NR \<and> bit fd0 PM_SEG_BIT); fd = (if for_pm then unset_bit PM_SEG_BIT fd0 else fd0);
         usr = (if for_pm then pm_usr else who_e) in
     if nbytes < 0 then Some (st, EMOLINVAL)
     else
      (case get_filp fd (rw_fs st) of (s, None) \<Rightarrow> Some (st\<lparr>rw_fs := s\<rparr>, err_code s)
       | (s, Some f) \<Rightarrow>
         let x = filps s f; ip = filp_ino x; ino = inodes s ip; mode_word = i_type (i_mode ino);
             special = (mode_word = I_CHAR_SPECIAL \<or> mode_word = I_BLOCK_SPECIAL);
             block_size = (if special then io_bsize E (zone_dev ino) else s_block_size (inode_sp ip s));
             f_size = (if mode_word = I_BLOCK_SPECIAL then 2 ^ 32 - 1 else i_size ino) in
         if and (filp_mode x) (if writing then W_BIT else R_BIT) = 0 then Some (st\<lparr>rw_fs := s\<rparr>, if filp_mode x = FILP_CLOSED then EMOLIO else EMOLBADF)
         else if nbytes = 0 then Some (st\<lparr>rw_fs := s\<rparr>, 0)
         else if special \<and> i_zone ino ! 0 = 0 then None
         else do {
           out \<leftarrow> rw_transfer E V f ip writing usr buffer (nat nbytes) block_size (st\<lparr>rw_fs := s\<lparr>fcache := (fcache s)\<lparr>rdwt_err := 0\<rparr>\<rparr>\<rparr>);
           (case out of Inl p \<Rightarrow> Some p | Inr (t, cum_io, position, r) \<Rightarrow> rw_finish f ip writing block_size f_size cum_io position r t)
         }))"

definition fs_do_read :: "io_env \<Rightarrow> rw_sys \<Rightarrow> int \<Rightarrow> int \<Rightarrow> int \<Rightarrow> nat \<Rightarrow> int \<Rightarrow> rw_st \<Rightarrow> (rw_st \<times> int) option" where
  "fs_do_read E V who_e pm_usr fd buffer nbytes st = read_write E V READING who_e pm_usr fd buffer nbytes st"

definition fs_do_write :: "io_env \<Rightarrow> rw_sys \<Rightarrow> int \<Rightarrow> int \<Rightarrow> int \<Rightarrow> nat \<Rightarrow> int \<Rightarrow> rw_st \<Rightarrow> (rw_st \<times> int) option" where
  "fs_do_write E V who_e pm_usr fd buffer nbytes st = read_write E V WRITING who_e pm_usr fd buffer nbytes st"

end
