(* ===== verification/Fs_Read_Props.thy ===== *)
theory Fs_Read_Props
  imports Fs_Read
begin

text \<open>
  What reading and writing files achieves.  First the cache during read-ahead: buffers are taken without a device, filled by one request for all of
  them and released, and the blocks of the devices stay what they are.  Then the transfer of a chunk and the loop over the chunks: a call
  of \<open>read\<close> delivers the bytes of the file, and what a call of \<open>write\<close> has put into the file is what is read from it.
\<close>

section \<open>Errors of transfers\<close>

lemma rdwt_rm_lru: "rdwt_err (rm_lru n st) = rdwt_err st"
  by (auto simp: rm_lru_def Let_def split: option.split)

lemma rdwt_unhash_walk: "unhash_walk n st prv = Some st1 \<Longrightarrow> rdwt_err st1 = rdwt_err st"
proof (erule unhash_walk.raw_induct [rotated, of n st prv st1 "\<lambda>n st prv st1. rdwt_err st1 = rdwt_err st"])
  fix walk n st prv st1
  assume "\<And>n st prv st1. walk n st prv = Some st1 \<Longrightarrow> rdwt_err st1 = rdwt_err st"
    and "(if prv = None then None
      else if b_hash (bufs st (the prv)) = None then Some st
      else if b_hash (bufs st (the prv)) = Some n then Some (upd_buf (the prv) (\<lambda>x. x\<lparr>b_hash := b_hash (bufs st n)\<rparr>) st)
      else walk n st (b_hash (bufs st (the prv)))) = Some st1"
  then show "rdwt_err st1 = rdwt_err st" by (auto split: if_splits)
qed

lemma rdwt_unhash: "unhash n st = Some st1 \<Longrightarrow> rdwt_err st1 = rdwt_err st"
  by (auto simp: unhash_def Let_def rdwt_unhash_walk split: if_splits)

lemma rdwt_write_out: "rdwt_err (write_out E n st) = rdwt_err st"
  by (simp add: write_out_def Let_def)

lemma rdwt_flushall: "io_good E \<Longrightarrow> rdwt_err (flushall E dev st) = rdwt_err st"
proof -
  assume "io_good E"
  then obtain q where "flushall E dev st = foldl (flush_one E) st q" using flushall_writes by metis
  moreover have "rdwt_err (foldl (flush_one E) s q) = rdwt_err s" for s by (induction q arbitrary: s) (simp_all add: flush_one_def rdwt_write_out)
  ultimately show ?thesis by simp
qed

lemma rdwt_rw_block: "io_good E \<Longrightarrow> rdwt_err (rw_block E w n st) = rdwt_err st"
  by (simp add: rw_block_def io_good_def Let_def read_in_def rdwt_write_out)

lemma rdwt_put_block: "io_good E \<Longrightarrow> rdwt_err (put_block E bp ty st) = rdwt_err st"
  by (auto simp: put_block_def Let_def rdwt_rw_block put_front_def put_rear_def split: option.split)

lemma rdwt_get_block:
  assumes "io_good E" "get_block E dev b w st = Some (s, n)"
  shows "rdwt_err s = rdwt_err st"
proof -
  have t: "rdwt_err s = rdwt_err st" if "take_buf E dev b w st = Some (s, n)" for s n
    using that assms(1) by (auto simp: take_buf_def Let_def fill_buf_def rdwt_rw_block rdwt_flushall rdwt_unhash rdwt_rm_lru split: option.splits if_splits)
  then show ?thesis using assms(2) by (auto simp: get_block_def Let_def rdwt_rm_lru split: option.splits if_splits)
qed

section \<open>Buffers without a device\<close>

lemma take_nodev:
  assumes "cache_ok E st" "io_good E" "room st" "dev = NO_DEV \<or> w = PREFETCH"
  obtains s n where "take_buf E dev b w st = Some (s, n)" "cache_ok E s" "same_view E st s" "n < NR_BUFS" "users st n = 0" "b_dev (bufs s n) = NO_DEV"
    "b_blocknr (bufs s n) = b" "users s = (users st)(n := 1)" "\<And>d a m. d \<noteq> NO_DEV \<Longrightarrow> cached s d a m \<longleftrightarrow> m \<noteq> n \<and> cached st d a m"
    "\<And>m. m \<noteq> n \<Longrightarrow> m < NR_BUFS \<Longrightarrow> b_blocknr (bufs s m) = b_blocknr (bufs st m) \<and> b_dev (bufs s m) = b_dev (bufs st m)"
proof -
  obtain n where n: "lru_front st = Some n" using assms(3) by (auto simp: room_def)
  obtain t where e: "evicted E st n t" using evict_ok [OF assms(1,2) n] .
  then have t: "one_copy t" "clean_ok E t" "same_view E st t" "cached t = cached st" "b_dev (bufs t n) \<noteq> NO_DEV \<Longrightarrow> \<not> b_dirt (bufs t n)"
    "b_count (bufs t m) = b_count (bufs st m)" "n < NR_BUFS" "b_count (bufs t n) = 0" "m < NR_BUFS \<Longrightarrow> 0 \<le> b_count (bufs t m)"
    "lru_of t (free_bufs t - {n})" "h < NR_BUF_HASH \<Longrightarrow> chain_of t h (on_chain t h - {n})" for m h unfolding evicted_def by blast+
  define f where "f = fill_buf dev b n t"
  define s where "s = (if dev = NO_DEV then f else upd_buf n (\<lambda>x. x\<lparr>b_dev := NO_DEV\<rparr>) f)"
  have b: "bufs s m = (if m = n then (bufs t n)\<lparr>b_dev := NO_DEV, b_blocknr := b, b_count := b_count (bufs t n) + 1, b_hash := buf_hash t (hash_of b)\<rparr> else bufs t m)" for m
    by (simp add: s_def f_def fill_buf_def Let_def)
  have ds: "disk s = disk t" by (simp add: s_def f_def fill_buf_def Let_def)
  have "links_ok f" unfolding f_def by (rule fill_links [OF t(7,8,9,10,11)])
  moreover have "same_links f s" by (simp add: s_def same_links_def)
  ultimately have l: "links_ok s" by (rule links_ok_cong [rotated 2]) (simp add: s_def)
  have c: "cached s d a m \<longleftrightarrow> m \<noteq> n \<and> cached st d a m" if "d \<noteq> NO_DEV" for d a m using that t(4) by (auto simp: cached_def b fun_eq_iff)
  have o: "one_copy s" using t(1,4) c unfolding one_copy_def by metis
  have cl: "clean_ok E s" unfolding clean_ok_def
  proof (intro allI impI)
    fix m d a k
    assume p: "d \<noteq> NO_DEV" "cached s d a m" "\<not> b_dirt (bufs s m)" "k < io_bsize E d"
    then have "cached t d a m" "bufs s m = bufs t m" using c t(4) by (simp_all add: b)
    then show "b_data (bufs s m) k = disk s d a k" using t(2) p ds unfolding clean_ok_def by metis
  qed
  have "same_view E t s" unfolding same_view_def
  proof (intro allI impI)
    fix d a k
    assume d: "d \<noteq> NO_DEV" "k < io_bsize E d"
    show "view s d a k = view t d a k"
    proof (cases "\<exists>m. m \<noteq> n \<and> cached t d a m")
      case True
      then obtain m where m: "m \<noteq> n" "cached t d a m" by blast
      then have "cached s d a m" using c d t(4) by simp
      then show ?thesis using view_cached [OF o d(1)] view_cached [OF t(1) d(1) m(2)] m by (simp add: b)
    next
      case False
      then have "\<not> cached s d a m" for m using c [OF d(1)] t(4) by auto
      then have v: "view s d a = disk t d a" using view_uncached ds by metis
      show ?thesis
      proof (cases "cached t d a n")
        case True
        then have "\<not> b_dirt (bufs t n)" using t(5) d by (simp add: cached_def)
        then have "b_data (bufs t n) k = disk t d a k" using t(2) True d unfolding clean_ok_def by blast
        then show ?thesis using v view_cached [OF t(1) d(1) True] by simp
      next
        case f: False
        then have "\<not> cached t d a m" for m using False by metis
        then show ?thesis using v view_uncached by metis
      qed
    qed
  qed
  moreover have "take_buf E dev b w st = Some (s, n)" using e assms(4) unfolding evicted_def s_def f_def by auto
  moreover have "b_blocknr (bufs s m) = b_blocknr (bufs st m) \<and> b_dev (bufs s m) = b_dev (bufs st m)" if "m \<noteq> n" "m < NR_BUFS" for m
  proof -
    have "cached t (b_dev (bufs st m)) (b_blocknr (bufs st m)) m" using t(4) that(2) by (simp add: cached_def)
    then show ?thesis using that(1) by (simp add: cached_def b)
  qed
  moreover have "users s = (users st)(n := 1)" using t(6,8) by (simp add: users_def b fun_eq_iff)
  ultimately show thesis using that [of s n] t(7,8) t(6) [of n] same_view_trans [OF t(3)] l o cl c b by (simp add: cache_ok_def users_def)
qed

lemma put_block_core:
  "io_good E \<Longrightarrow> b_blocknr (bufs (put_block E (Some n) ty c) m) = b_blocknr (bufs c m) \<and> b_dev (bufs (put_block E (Some n) ty c) m) = b_dev (bufs c m)"
proof -
  assume g: "io_good E"
  have f: "b_blocknr (bufs (put_front n s) m) = b_blocknr (bufs s m) \<and> b_dev (bufs (put_front n s) m) = b_dev (bufs s m)"
    "b_blocknr (bufs (put_rear n s) m) = b_blocknr (bufs s m) \<and> b_dev (bufs (put_rear n s) m) = b_dev (bufs s m)" for s m
    using put_front_core(1) [of s m n] put_rear_core(1) [of s m n] by (simp_all add: same_core_def)
  have w: "b_blocknr (bufs (rw_block E True n s) m) = b_blocknr (bufs s m) \<and> b_dev (bufs (rw_block E True n s) m) = b_dev (bufs s m)" for s m
    using g by (simp add: rw_block_def io_good_def Let_def write_out_def)
  show ?thesis by (simp add: put_block_def Let_def w f)
qed

section \<open>One request for many blocks\<close>

definition load_one :: "io_env \<Rightarrow> int \<Rightarrow> cache \<Rightarrow> bufno \<Rightarrow> cache" where
  "load_one E dev s n = put_block E (Some n) PARTIAL_DATA_BLOCK (upd_buf n (\<lambda>x. x\<lparr>b_dev := dev\<rparr>) (read_in E dev n s))"

text \<open>Buffers that wait for blocks of \<open>dev\<close> which are not in the cache.\<close>

definition waiting :: "int \<Rightarrow> bufno list \<Rightarrow> cache \<Rightarrow> bool" where
  "waiting dev q c \<longleftrightarrow> dev \<noteq> NO_DEV \<and> distinct (map (\<lambda>n. b_blocknr (bufs c n)) q)
     \<and> (\<forall>n \<in> set q. n < NR_BUFS \<and> b_dev (bufs c n) = NO_DEV \<and> users c n = 1 \<and> (\<forall>m. \<not> cached c dev (b_blocknr (bufs c n)) m))"

text \<open>The devices look as before, and the blocks in use have stayed where they were.\<close>

definition undisturbed :: "io_env \<Rightarrow> cache \<Rightarrow> cache \<Rightarrow> bool" where
  "undisturbed E c c' \<longleftrightarrow> cache_ok E c' \<and> same_view E c c' \<and> (\<forall>d a m. d \<noteq> NO_DEV \<longrightarrow> users c m \<noteq> 0 \<longrightarrow> cached c d a m \<longrightarrow> cached c' d a m) \<and> rdwt_err c' = rdwt_err c"

lemma load_one_ok:
  assumes "io_ok E c" "waiting dev [n] c" "c' = load_one E dev c n"
  shows "undisturbed E c c'" "users c' = (users c)(n := 0)" "m \<noteq> n \<Longrightarrow> cached c' d a m = cached c d a m"
    "m \<noteq> n \<Longrightarrow> b_blocknr (bufs c' m) = b_blocknr (bufs c m) \<and> b_dev (bufs c' m) = b_dev (bufs c m)" "cached c' d a n \<longleftrightarrow> d = dev \<and> a = b_blocknr (bufs c n)"
proof -
  have co: "cache_ok E c" and io: "io_good E" and dv: "dev \<noteq> NO_DEV" using assms(1,2) by (simp_all add: io_ok_def waiting_def)
  define u where "u = upd_buf n (\<lambda>x. x\<lparr>b_dev := dev\<rparr>) (read_in E dev n c)"
  have w: "n < NR_BUFS" "b_dev (bufs c n) = NO_DEV" "users c n = 1" "\<not> cached c dev (b_blocknr (bufs c n)) m" for m using assms(2) by (simp_all add: waiting_def)
  have rn: "renamed E n dev (b_blocknr (bufs c n)) c u" using w dv by (simp add: renamed_def u_def read_in_def)
  have k: "one_copy c" "clean_ok E c" "links_ok c" using co by (simp_all add: cache_ok_def)
  have "same_links c u" by (simp add: same_links_def u_def read_in_def)
  moreover have "b_blocknr (bufs u m) = b_blocknr (bufs c m) \<and> b_count (bufs u m) = b_count (bufs c m)" for m by (simp add: u_def read_in_def)
  ultimately have "links_ok u" using links_ok_cong k(3) by blast
  then have ok: "cache_ok E u" using renamed_one_copy [OF rn k(1)] renamed_clean [OF rn k(2)] by (simp add: cache_ok_def)
  have cu: "users u = users c" by (simp add: users_def u_def read_in_def fun_eq_iff)
  then have pos: "0 < b_count (bufs u n)" using w(3) by (simp add: users_def fun_eq_iff)
  note p = put_block_ok [OF ok io w(1) pos, of PARTIAL_DATA_BLOCK]
  have c': "c' = put_block E (Some n) PARTIAL_DATA_BLOCK u" by (simp add: assms(3) load_one_def u_def)
  have ca: "cached c' d a m = (if m = n then d = dev \<and> a = b_blocknr (bufs c n) else cached c d a m)" for d a m
    using p(4) renamed_cached [OF rn] by (simp add: c')
  then show "m \<noteq> n \<Longrightarrow> cached c' d a m = cached c d a m" "cached c' d a n \<longleftrightarrow> d = dev \<and> a = b_blocknr (bufs c n)" by simp_all
  show us: "users c' = (users c)(n := 0)" using p(3) cu w(3) by (auto simp: users_def c' fun_eq_iff)
  have "rdwt_err c' = rdwt_err c" using rdwt_put_block [OF io] by (simp add: c' u_def read_in_def)
  moreover have "cached c' d a m" if "d \<noteq> NO_DEV" "cached c d a m" for d a m
  proof -
    have "m \<noteq> n" using that w(2) by (auto simp: cached_def)
    then show ?thesis using that ca by simp
  qed
  ultimately show "undisturbed E c c'" using p(1,2) renamed_view [OF rn k(1,2)] same_view_trans unfolding undisturbed_def c' by blast
  show "b_blocknr (bufs c' m) = b_blocknr (bufs c m) \<and> b_dev (bufs c' m) = b_dev (bufs c m)" if "m \<noteq> n"
    using that put_block_core [of E n PARTIAL_DATA_BLOCK u m] io by (simp add: c' u_def read_in_def)
qed

lemma release_one_ok:
  assumes "io_ok E c" "waiting dev [n] c" "c' = put_block E (Some n) ty c"
  shows "undisturbed E c c'" "users c' = (users c)(n := 0)" "cached c' = cached c"
    "b_blocknr (bufs c' m) = b_blocknr (bufs c m) \<and> b_dev (bufs c' m) = b_dev (bufs c m)"
proof -
  have co: "cache_ok E c" and io: "io_good E" using assms(1) by (simp_all add: io_ok_def)
  have w: "n < NR_BUFS" "users c n = 1" using assms(2) by (simp_all add: waiting_def)
  then have "0 < b_count (bufs c n)" by (simp add: users_def)
  note p = put_block_ok [OF co io w(1) this, of ty, folded assms(3)]
  show "cached c' = cached c" using p(4) .
  show "users c' = (users c)(n := 0)" using p(3) w(2) by (auto simp: users_def fun_eq_iff)
  show "undisturbed E c c'" using p rdwt_put_block [OF io] by (simp add: undisturbed_def assms(3))
  show "b_blocknr (bufs c' m) = b_blocknr (bufs c m) \<and> b_dev (bufs c' m) = b_dev (bufs c m)" using put_block_core [OF io] by (simp add: assms(3))
qed

text \<open>All the buffers of \<open>q\<close> have been finished.\<close>

definition sunk :: "io_env \<Rightarrow> int \<Rightarrow> bufno list \<Rightarrow> cache \<Rightarrow> cache \<Rightarrow> bool" where
  "sunk E dev q c c' \<longleftrightarrow> undisturbed E c c' \<and> users c' = (\<lambda>m. if m \<in> set q then 0 else users c m)
     \<and> (\<forall>m d a. m \<notin> set q \<longrightarrow> cached c' d a m = cached c d a m \<and> b_blocknr (bufs c' m) = b_blocknr (bufs c m) \<and> b_dev (bufs c' m) = b_dev (bufs c m))
     \<and> (\<forall>a m. cached c' dev a m \<longrightarrow> cached c dev a m \<or> a \<in> (\<lambda>n. b_blocknr (bufs c n)) ` set q)"

text \<open>A step that finishes one waiting buffer: the others are left as they are, and no other block of the device comes into the cache.  Both what the
  request has filled and what it has not reached is finished by such steps.\<close>

locale buffer_sink =
  fixes E :: io_env and dev :: int and sink :: "cache \<Rightarrow> bufno \<Rightarrow> cache"
  assumes sink_ok: "io_ok E c \<Longrightarrow> waiting dev [n] c \<Longrightarrow> undisturbed E c (sink c n)"
    and sink_users: "io_ok E c \<Longrightarrow> waiting dev [n] c \<Longrightarrow> users (sink c n) = (users c)(n := 0)"
    and sink_others: "io_ok E c \<Longrightarrow> waiting dev [n] c \<Longrightarrow> m \<noteq> n \<Longrightarrow>
      cached (sink c n) d a m = cached c d a m \<and> b_blocknr (bufs (sink c n) m) = b_blocknr (bufs c m) \<and> b_dev (bufs (sink c n) m) = b_dev (bufs c m)"
    and sink_block: "io_ok E c \<Longrightarrow> waiting dev [n] c \<Longrightarrow> cached (sink c n) dev a n \<Longrightarrow> a = b_blocknr (bufs c n)"
begin

lemma sink_waiting:
  assumes "io_ok E c" "waiting dev (n # q) c"
  shows "waiting dev [n] c" "waiting dev q (sink c n)" "n \<notin> set q"
proof -
  show w: "waiting dev [n] c" using assms(2) by (simp add: waiting_def)
  show n: "n \<notin> set q" using assms(2) by (auto simp: waiting_def)
  note o = sink_others [OF assms(1) w] and b = sink_block [OF assms(1) w]
  have u: "users (sink c n) m = users c m" "m \<noteq> n" if "m \<in> set q" for m using sink_users [OF assms(1) w] n that by auto
  have blk: "b_blocknr (bufs (sink c n) m) = b_blocknr (bufs c m)" "b_dev (bufs (sink c n) m) = b_dev (bufs c m)" if "m \<in> set q" for m using o u(2) [OF that] by simp_all
  have d: "b_blocknr (bufs c m) \<noteq> b_blocknr (bufs c n)" if "m \<in> set q" for m
  proof -
    have "b_blocknr (bufs c n) \<notin> (\<lambda>n. b_blocknr (bufs c n)) ` set q" using assms(2) by (simp add: waiting_def)
    then show ?thesis using that by (metis imageI)
  qed
  have "\<not> cached (sink c n) dev (b_blocknr (bufs c m)) k" if m: "m \<in> set q" for m k
    using o [of k] b [of "b_blocknr (bufs c m)"] d [OF m] assms(2) m by (cases "k = n") (auto simp: waiting_def)
  moreover have eq: "map (\<lambda>k. b_blocknr (bufs (sink c n) k)) q = map (\<lambda>k. b_blocknr (bufs c k)) q" using blk by simp
  have "distinct (map (\<lambda>k. b_blocknr (bufs (sink c n) k)) q)" unfolding eq using assms(2) by (simp add: waiting_def)
  ultimately show "waiting dev q (sink c n)" using assms(2) blk u by (simp add: waiting_def)
qed

lemma sink_all:
  assumes "io_ok E c" "waiting dev q c"
  shows "sunk E dev q c (foldl sink c q)"
  using assms
proof (induction q arbitrary: c)
  case Nil
  then show ?case by (simp add: sunk_def undisturbed_def io_ok_def)
next
  case (Cons n q)
  note w = sink_waiting [OF Cons.prems] and b = sink_block [OF Cons.prems(1)]
  note s = sink_ok [OF Cons.prems(1) w(1)] and u = sink_users [OF Cons.prems(1) w(1)] and o = sink_others [OF Cons.prems(1) w(1)]
  have ok: "io_ok E (sink c n)" using s Cons.prems(1) by (simp add: undisturbed_def io_ok_def)
  note ih = Cons.IH [OF ok w(2), unfolded sunk_def]
  have nd: "\<not> cached c d a n" if "d \<noteq> NO_DEV" for d a using Cons.prems(2) that by (auto simp: waiting_def cached_def)
  have keep: "cached (foldl sink (sink c n) q) d a m" if "d \<noteq> NO_DEV" "users c m \<noteq> 0" "cached c d a m" for d a m
  proof -
    have "m \<noteq> n" using nd that by blast
    then have "users (sink c n) m \<noteq> 0" "cached (sink c n) d a m" using u o that by simp_all
    then show ?thesis using ih that(1) unfolding undisturbed_def by blast
  qed
  have "same_view E c (foldl sink (sink c n) q)" using s ih same_view_trans unfolding undisturbed_def by blast
  then have "undisturbed E c (foldl sink (sink c n) q)" using keep ih s unfolding undisturbed_def by simp
  moreover have "cached c dev a m \<or> a \<in> (\<lambda>n. b_blocknr (bufs c n)) ` set (n # q)" if c1: "cached (foldl sink (sink c n) q) dev a m" for a m
  proof (cases "cached (sink c n) dev a m")
    case True
    then show ?thesis using b [OF w(1)] o by (cases "m = n") auto
  next
    case False
    then obtain x where "x \<in> set q" "a = b_blocknr (bufs (sink c n) x)" using ih c1 False by blast
    moreover have "x \<noteq> n" using calculation(1) w(3) by blast
    ultimately show ?thesis using o by auto
  qed
  ultimately show ?case using ih u o w(3) unfolding sunk_def foldl_Cons by (auto simp: fun_eq_iff)
qed

end

interpretation ld: buffer_sink E dev "load_one E dev" for E dev
proof (unfold_locales, goal_cases)
  case (1 c n)
  then show ?case using load_one_ok(1) [OF 1 refl] by simp
next
  case (2 c n)
  then show ?case using load_one_ok(2) [OF 2 refl] by simp
next
  case (3 c n m d a)
  then show ?case using load_one_ok(3,4) [OF 3(1,2) refl 3(3)] by simp
next
  case (4 c n a)
  then show ?case using load_one_ok(5) [OF 4(1,2) refl] by simp
qed

interpretation rel: buffer_sink E dev "\<lambda>c n. put_block E (Some n) ty c" for E dev ty
proof (unfold_locales, goal_cases)
  case (1 c n)
  then show ?case using release_one_ok(1) [OF 1 refl] by simp
next
  case (2 c n)
  then show ?case using release_one_ok(2) [OF 2 refl] by simp
next
  case (3 c n m d a)
  then show ?case using release_one_ok(3,4) [OF 3(1,2) refl] by simp
next
  case (4 c n a)
  then show ?case using release_one_ok(3) [OF 4(1,2) refl] by (simp add: waiting_def cached_def)
qed

lemma waiting_rest:
  assumes "waiting dev (q1 @ q2) c" "sunk E dev q1 c c'"
  shows "waiting dev q2 c'"
proof -
  let ?blk = "\<lambda>n. b_blocknr (bufs c n)"
  have d: "distinct (map ?blk q2)" "?blk ` set q1 \<inter> ?blk ` set q2 = {}" using assms(1) by (simp_all add: waiting_def)
  have o: "m \<notin> set q1" if "m \<in> set q2" for m using d(2) that by blast
  have same: "b_blocknr (bufs c' m) = ?blk m" "b_dev (bufs c' m) = b_dev (bufs c m)" "users c' m = users c m" if "m \<in> set q2" for m
    using assms(2) o [OF that] by (simp_all add: sunk_def)
  have eq: "map (\<lambda>k. b_blocknr (bufs c' k)) q2 = map ?blk q2" using same by simp
  have "\<not> cached c' dev (?blk m) k" if m: "m \<in> set q2" for m k
  proof
    assume "cached c' dev (?blk m) k"
    then have "cached c dev (?blk m) k \<or> ?blk m \<in> ?blk ` set q1" using assms(2) unfolding sunk_def by blast
    then show False using d(2) m assms(1) by (auto simp: waiting_def)
  qed
  moreover have "distinct (map (\<lambda>k. b_blocknr (bufs c' k)) q2)" unfolding eq by (rule d(1))
  ultimately show ?thesis using assms(1) same by (simp add: waiting_def)
qed

lemma waiting_first: "waiting dev (q1 @ q2) c \<Longrightarrow> waiting dev q1 c"
  by (simp add: waiting_def)

lemma waiting_mset: "mset q' = mset q \<Longrightarrow> waiting dev q' c = waiting dev q c"
proof -
  assume m: "mset q' = mset q"
  then have "distinct (map f q') = distinct (map f q)" for f :: "bufno \<Rightarrow> int" by (metis mset_eq_imp_distinct_iff mset_map)
  then show ?thesis using mset_eq_setD [OF m] by (simp add: waiting_def)
qed

lemma undisturbed_trans:
  assumes "undisturbed E a b" "undisturbed E b c" "\<And>m. users a m \<noteq> 0 \<Longrightarrow> (\<exists>d x. d \<noteq> NO_DEV \<and> cached a d x m) \<Longrightarrow> users b m \<noteq> 0"
  shows "undisturbed E a c"
  using assms same_view_trans unfolding undisturbed_def by metis

text \<open>A request for reading leaves every block as it is and releases all buffers.\<close>

lemma scattered_reads:
  assumes "io_ok E c" "waiting dev q c" "c' = rw_scattered E dev q READING c"
  shows "undisturbed E c c'" "users c' = (\<lambda>m. if m \<in> set q then 0 else users c m)"
    "m \<notin> set q \<Longrightarrow> b_blocknr (bufs c' m) = b_blocknr (bufs c m) \<and> b_dev (bufs c' m) = b_dev (bufs c m)"
proof -
  define p where "p = shell_sort (\<lambda>n. b_blocknr (bufs c n)) q"
  have m: "mset p = mset q" using shell_sort_correct(1) by (simp add: p_def)
  then have w: "waiting dev p c" "set p = set q" using assms(2) waiting_mset mset_eq_setD by metis+
  have g: "io_good E" using assms(1) by (simp add: io_ok_def)
  let ?key = "\<lambda>n. b_blocknr (bufs c n)"
  define j where "j = vec_len ?key (?key (hd p)) 0 p"
  define c1 where "c1 = foldl (load_one E dev) c (take j p)"
  have c': "c' = foldl (\<lambda>s n. put_block E (Some n) PARTIAL_DATA_BLOCK s) c1 (drop j p)"
    using g unfolding assms(3) rw_scattered_def p_def [symmetric]
    by (subst rw_loop.simps) (cases "p = []"; simp add: c1_def j_def io_good_def harvest_def load_one_def [abs_def] Let_def)
  have wt: "waiting dev (take j p @ drop j p) c" using w(1) by simp
  have w1: "waiting dev (take j p) c" using waiting_first [OF wt] .
  note s1 = ld.sink_all [OF assms(1) w1, folded c1_def]
  have io: "io_ok E c1" using s1 g by (simp add: sunk_def undisturbed_def io_ok_def)
  note s2 = rel.sink_all [OF io waiting_rest [OF wt s1], of PARTIAL_DATA_BLOCK, folded c']
  have st: "set q = set (take j p) \<union> set (drop j p)" using w(2) by (metis append_take_drop_id set_append)
  show "users c' = (\<lambda>m. if m \<in> set q then 0 else users c m)" using s1 s2 unfolding sunk_def st by auto
  show "b_blocknr (bufs c' m) = b_blocknr (bufs c m) \<and> b_dev (bufs c' m) = b_dev (bufs c m)" if "m \<notin> set q" using s1 s2 that unfolding sunk_def st by auto
  have "users c1 m \<noteq> 0" if "users c m \<noteq> 0" "\<exists>d x. d \<noteq> NO_DEV \<and> cached c d x m" for m
  proof -
    have "m \<notin> set (take j p)" using w1 that(2) by (auto simp: waiting_def cached_def)
    then show ?thesis using s1 that(1) by (simp add: sunk_def)
  qed
  then show "undisturbed E c c'" using undisturbed_trans s1 s2 unfolding sunk_def by metis
qed

section \<open>Asking for blocks ahead\<close>

lemma io_okD: "io_ok E c \<Longrightarrow> cache_ok E c" "io_ok E c \<Longrightarrow> io_good E"
  by (simp_all add: io_ok_def)

text \<open>A block is asked for without being read: it is in the cache already, or a buffer waits for it.\<close>

lemma get_prefetch:
  assumes "io_ok E c" "room c" "dev \<noteq> NO_DEV"
  obtains (hit) s n where "get_block E dev b PREFETCH c = Some (s, n)" "get_block E dev b NORMAL c = Some (s, n)" "cached c dev b n" "cached s = cached c" "undisturbed E c s"
      "users s = (users c)(n := users c n + 1)" "\<And>m. b_blocknr (bufs s m) = b_blocknr (bufs c m) \<and> b_dev (bufs s m) = b_dev (bufs c m)"
  | (miss) s n where "get_block E dev b PREFETCH c = Some (s, n)" "\<And>m. \<not> cached c dev b m" "undisturbed E c s" "n < NR_BUFS" "users c n = 0"
      "b_dev (bufs s n) = NO_DEV" "b_blocknr (bufs s n) = b" "users s = (users c)(n := 1)" "\<And>d a m. d \<noteq> NO_DEV \<Longrightarrow> cached s d a m \<longleftrightarrow> m \<noteq> n \<and> cached c d a m"
      "\<And>m. m \<noteq> n \<Longrightarrow> m < NR_BUFS \<Longrightarrow> b_blocknr (bufs s m) = b_blocknr (bufs c m) \<and> b_dev (bufs s m) = b_dev (bufs c m)"
proof -
  have ok: "cache_ok E c" "io_good E" using assms(1) by (simp_all add: io_ok_def)
  obtain r where r: "hash_walk dev b c (buf_hash c (hash_of b)) = Some r" "case r of Some n \<Rightarrow> cached c dev b n | None \<Rightarrow> \<forall>n. \<not> cached c dev b n"
    using hash_walk_search ok(1) unfolding cache_ok_def by blast
  show thesis
  proof (cases r)
    case None
    from take_nodev [OF ok assms(2), of dev PREFETCH b] obtain s n where s: "take_buf E dev b PREFETCH c = Some (s, n)" "cache_ok E s" "same_view E c s" "n < NR_BUFS" "users c n = 0"
      "b_dev (bufs s n) = NO_DEV" "b_blocknr (bufs s n) = b" "users s = (users c)(n := 1)" "\<And>d a m. d \<noteq> NO_DEV \<Longrightarrow> cached s d a m \<longleftrightarrow> m \<noteq> n \<and> cached c d a m"
      "\<And>m. m \<noteq> n \<Longrightarrow> m < NR_BUFS \<Longrightarrow> b_blocknr (bufs s m) = b_blocknr (bufs c m) \<and> b_dev (bufs s m) = b_dev (bufs c m)" by blast
    have g: "get_block E dev b PREFETCH c = Some (s, n)" using s(1) r(1) None assms(3) by (simp add: get_block_def)
    moreover have "undisturbed E c s" using s(2,3,5,9) rdwt_get_block [OF ok(2) g] unfolding undisturbed_def by metis
    ultimately show thesis using miss s r(2) None by simp
  next
    case (Some n)
    then have n: "cached c dev b n" using r(2) by simp
    define s where "s = upd_buf n (\<lambda>x. x\<lparr>b_count := b_count x + 1\<rparr>) (if b_count (bufs c n) = 0 then rm_lru n c else c)"
    note h = hit_ok [OF ok(1) n assms(3) s_def]
    have g: "get_block E dev b w c = Some (s, n)" for w using r(1) Some assms(3) by (simp add: get_block_def Let_def s_def)
    have "undisturbed E c s" using h(1,2,3) rdwt_get_block [OF ok(2) g] unfolding undisturbed_def by simp
    moreover have "users s = (users c)(n := users c n + 1)" using h(5) by (auto simp: users_def fun_eq_iff)
    moreover have "b_blocknr (bufs s m) = b_blocknr (bufs c m) \<and> b_dev (bufs s m) = b_dev (bufs c m)" for m
      using rm_lru_core(1) [of c m n] by (auto simp: s_def same_core_def)
    ultimately show thesis using hit g n h(3) by blast
  qed
qed

text \<open>The buffers of \<open>q\<close> wait for the blocks from \<open>base\<close> on, the rest is as in \<open>c0\<close>.\<close>

definition asked :: "io_env \<Rightarrow> int \<Rightarrow> nat \<Rightarrow> cache \<Rightarrow> bufno list \<Rightarrow> cache \<Rightarrow> bool" where
  "asked E dev base c0 q c \<longleftrightarrow> undisturbed E c0 c \<and> waiting dev q c \<and> users c = (\<lambda>m. if m \<in> set q then 1 else users c0 m) \<and> (\<forall>m \<in> set q. users c0 m = 0)
     \<and> map (\<lambda>n. b_blocknr (bufs c n)) q = map (\<lambda>i. int ((base + i) mod 2 ^ 32)) [0 ..< length q]
     \<and> (\<forall>m < NR_BUFS. users c0 m \<noteq> 0 \<longrightarrow> b_blocknr (bufs c m) = b_blocknr (bufs c0 m) \<and> b_dev (bufs c m) = b_dev (bufs c0 m))"

lemma mod_shift_eq: "i < j \<Longrightarrow> j < M \<Longrightarrow> (base + j) mod M \<noteq> (base + i) mod M" for i j M base :: nat
  using mod_eq_dvd_iff_nat [of "base + i" "base + j" M] by (auto dest: dvd_imp_le)

lemma free_room: "io_ok E c \<Longrightarrow> 0 < card (free_bufs c) \<Longrightarrow> room c"
  using room_iff [of E c] by (auto simp: io_ok_def free_bufs_def users_def card_gt_0_iff)

lemma asked_room:
  assumes "asked E dev base c0 q c" "io_good E" "length q < card (free_bufs c0)"
  shows "room c"
proof -
  have "free_bufs c0 - set q \<subseteq> free_bufs c" using assms(1) by (auto simp: asked_def free_bufs_def users_def fun_eq_iff)
  moreover have f: "finite (free_bufs c)" "finite (free_bufs c0)" by (simp_all add: free_bufs_def)
  ultimately have "card (free_bufs c0) - card (set q) \<le> card (free_bufs c)" by (meson card_mono diff_card_le_card_Diff finite_set le_trans)
  moreover have "card (set q) \<le> length q" by (rule card_length)
  moreover have "io_ok E c" using assms(1,2) by (simp add: asked_def undisturbed_def io_ok_def)
  ultimately show ?thesis using free_room assms(3) by simp
qed

lemma asked_more:
  assumes "asked E dev base c0 q c" "get_block E dev (int ((base + length q) mod 2 ^ 32)) PREFETCH c = Some (s, n)" "\<And>m. \<not> cached c dev (int ((base + length q) mod 2 ^ 32)) m"
    "undisturbed E c s" "n < NR_BUFS" "users c n = 0" "b_dev (bufs s n) = NO_DEV" "b_blocknr (bufs s n) = int ((base + length q) mod 2 ^ 32)" "users s = (users c)(n := 1)"
    "\<And>d a m. d \<noteq> NO_DEV \<Longrightarrow> cached s d a m \<longleftrightarrow> m \<noteq> n \<and> cached c d a m"
    "\<And>m. m \<noteq> n \<Longrightarrow> m < NR_BUFS \<Longrightarrow> b_blocknr (bufs s m) = b_blocknr (bufs c m) \<and> b_dev (bufs s m) = b_dev (bufs c m)" "length q < 2 ^ 32"
  shows "asked E dev base c0 (q @ [n]) s"
proof -
  have a: "undisturbed E c0 c" "waiting dev q c" "users c = (\<lambda>m. if m \<in> set q then 1 else users c0 m)" "\<And>m. m \<in> set q \<Longrightarrow> users c0 m = 0"
    "map (\<lambda>n. b_blocknr (bufs c n)) q = map (\<lambda>i. int ((base + i) mod 2 ^ 32)) [0 ..< length q]"
    "\<And>m. m < NR_BUFS \<Longrightarrow> users c0 m \<noteq> 0 \<Longrightarrow> b_blocknr (bufs c m) = b_blocknr (bufs c0 m) \<and> b_dev (bufs c m) = b_dev (bufs c0 m)" using assms(1) by (simp_all add: asked_def)
  have n: "n \<notin> set q" using a(3) assms(6) by auto
  have q: "m < NR_BUFS" "m \<noteq> n" if "m \<in> set q" for m using a(2) n that by (auto simp: waiting_def)
  have same: "b_blocknr (bufs s m) = b_blocknr (bufs c m)" "b_dev (bufs s m) = b_dev (bufs c m)" if "m \<in> set q" for m using assms(11) q [OF that] by simp_all
  have eq: "map (\<lambda>k. b_blocknr (bufs s k)) q = map (\<lambda>i. int ((base + i) mod 2 ^ 32)) [0 ..< length q]" unfolding a(5) [symmetric] using same by simp
  have dq: "distinct (map (\<lambda>k. b_blocknr (bufs s k)) q)"
  proof -
    have "map (\<lambda>k. b_blocknr (bufs s k)) q = map (\<lambda>k. b_blocknr (bufs c k)) q" using same by simp
    then show ?thesis using a(2) by (simp only: waiting_def)
  qed
  have nb: "b_blocknr (bufs s n) \<notin> set (map (\<lambda>k. b_blocknr (bufs s k)) q)"
    unfolding eq assms(8)
  proof
    assume "int ((base + length q) mod 2 ^ 32) \<in> set (map (\<lambda>i. int ((base + i) mod 2 ^ 32)) [0 ..< length q])"
    then obtain i where i: "i < length q" "(base + length q) mod 2 ^ 32 = (base + i) mod 2 ^ 32" by (auto simp del: of_nat_mod)
    then show False using mod_shift_eq [OF i(1) assms(12)] by blast
  qed
  have "\<not> cached s dev (b_blocknr (bufs s m)) k" if "m \<in> set (q @ [n])" for m k
    using that a(2) same assms(3,8,10) by (cases "m = n") (auto simp: waiting_def)
  then have w: "waiting dev (q @ [n]) s" using a(2) same dq nb assms(5,7,9) q by (simp add: waiting_def)
  have u: "users s = (\<lambda>m. if m \<in> set (q @ [n]) then 1 else users c0 m)" using a(3) assms(9) by (auto simp: fun_eq_iff)
  have c0: "users c0 m = 0" if "m \<in> set (q @ [n])" for m using that a(3,4) assms(6) n by (auto simp: fun_eq_iff split: if_splits)
  have "users c m \<noteq> 0" if "users c0 m \<noteq> 0" for m using that a(3) by simp
  then have "undisturbed E c0 s" using undisturbed_trans [OF a(1) assms(4)] by blast
  moreover have "b_blocknr (bufs s m) = b_blocknr (bufs c0 m) \<and> b_dev (bufs s m) = b_dev (bufs c0 m)" if "m < NR_BUFS" "users c0 m \<noteq> 0" for m
    using a(6) [OF that] assms(11) [OF _ that(1)] c0 [of n] that(2) by auto
  ultimately show ?thesis using w u c0 eq assms(8) by (simp add: asked_def)
qed

lemma asked_back:
  assumes "asked E dev base c0 q c" "io_good E" "cached c dev b n" "dev \<noteq> NO_DEV" "cached s = cached c" "undisturbed E c s" "users s = (users c)(n := users c n + 1)"
    "\<And>m. b_blocknr (bufs s m) = b_blocknr (bufs c m) \<and> b_dev (bufs s m) = b_dev (bufs c m)" "c' = put_block E (Some n) ty s"
  shows "asked E dev base c0 q c'"
proof -
  have a: "undisturbed E c0 c" "waiting dev q c" "users c = (\<lambda>m. if m \<in> set q then 1 else users c0 m)" using assms(1) by (simp_all add: asked_def)
  have ok: "cache_ok E c" "cache_ok E s" using a(1) assms(6) by (simp_all add: undisturbed_def)
  have "n < NR_BUFS" "0 < b_count (bufs s n)" using assms(3,7) links_count [of c n] ok(1) by (auto simp: cached_def cache_ok_def users_def fun_eq_iff)
  note p = put_block_ok [OF ok(2) assms(2) this, of ty, folded assms(9)]
  have u: "users c' = users c" using p(3) assms(7) by (auto simp: users_def fun_eq_iff)
  have b: "b_blocknr (bufs c' m) = b_blocknr (bufs c m) \<and> b_dev (bufs c' m) = b_dev (bufs c m)" for m
    using put_block_core [OF assms(2)] assms(8) by (simp add: assms(9))
  have ca: "cached c' = cached c" using p(4) assms(5) by simp
  have un: "undisturbed E c c'" using p(1,2) assms(6) ca rdwt_put_block [OF assms(2)] same_view_trans unfolding undisturbed_def assms(9) by metis
  have "undisturbed E c0 c'" by (rule undisturbed_trans [OF a(1) un]) (simp add: a(3))
  moreover have "waiting dev q c'" using a(2) u b ca by (simp add: waiting_def)
  ultimately show ?thesis using assms(1) u b by (simp add: asked_def)
qed

lemma prefetch_asks:
  assumes "asked E dev base c0 q c" "io_good E" "dev \<noteq> NO_DEV" "block = (base + length q - 1) mod 2 ^ 32" "q \<noteq> []" "length q + todo < card (free_bufs c0)" "length q + todo < 2 ^ 32"
  shows "\<exists>c' q'. prefetch E dev block todo q (st\<lparr>fcache := c\<rparr>) = Some (st\<lparr>fcache := c'\<rparr>, q') \<and> asked E dev base c0 q' c' \<and> length q' < card (free_bufs c0)"
  using assms(1,4-7)
proof (induction todo arbitrary: q c block)
  case 0
  then show ?case by auto
next
  case (Suc todo)
  let ?b = "(block + 1) mod 2 ^ 32"
  have lq: "0 < length q" using Suc.prems(3) by simp
  have b: "?b = (base + length q) mod 2 ^ 32" unfolding Suc.prems(2) mod_add_left_eq using lq by simp
  have io: "io_ok E c" using Suc.prems(1) assms(2) by (simp add: asked_def undisturbed_def io_ok_def)
  have room: "room c" by (rule asked_room [OF Suc.prems(1) assms(2)]) (use Suc.prems(4) in simp)
  show ?case
  proof (cases "bufs_in_use c \<ge> int NR_BUFS - 4")
    case True
    then show ?thesis using Suc.prems(1,4) by (intro exI [of _ c] exI [of _ q]) simp
  next
    case use: False
    show ?thesis
    proof (cases rule: get_prefetch [OF io room assms(3), of "int ?b"])
      case (1 s n)
      have d: "b_dev (bufs s n) \<noteq> NO_DEV" using 1(3,7) assms(3) by (simp add: cached_def)
      have "asked E dev base c0 q (put_block E (Some n) FULL_DATA_BLOCK s)" by (rule asked_back [OF Suc.prems(1) assms(2) 1(3) assms(3) 1(4-7) refl])
      moreover have "prefetch E dev block (Suc todo) q (st\<lparr>fcache := c\<rparr>) = Some (st\<lparr>fcache := put_block E (Some n) FULL_DATA_BLOCK s\<rparr>, q)"
        using use 1(1) d by (simp add: fget_def fput_def Let_def)
      ultimately show ?thesis using Suc.prems(4) by auto
    next
      case (2 s n)
      have "asked E dev base c0 (q @ [n]) s" by (rule asked_more [OF Suc.prems(1)]) (use 2 b Suc.prems(5) in \<open>simp_all\<close>)
      from Suc.IH [OF this, of ?b] Suc.prems(4,5) b
      obtain c' q' where "prefetch E dev ?b todo (q @ [n]) (st\<lparr>fcache := s\<rparr>) = Some (st\<lparr>fcache := c'\<rparr>, q')" "asked E dev base c0 q' c'" "length q' < card (free_bufs c0)"
        by auto
      moreover have "prefetch E dev block (Suc todo) q (st\<lparr>fcache := c\<rparr>) = prefetch E dev ?b todo (q @ [n]) (st\<lparr>fcache := s\<rparr>)"
        using use 2(1,6) by (simp add: fget_def Let_def)
      ultimately show ?thesis by auto
    qed
  qed
qed

lemma blocks_ahead_bound:
  assumes "\<not> is_block_spec r" "position < i_size r" "0 < bs" "i_size r + bs \<le> 2 ^ 32"
  shows "1 \<le> blocks_to_read bs r sp position bytes" "blocks_to_read bs r sp position bytes \<le> 64"
proof -
  define pos where "pos = position - position mod bs"
  define bl where "bl = ((i_size r + 2 ^ 32 - pos + bs - 1) mod 2 ^ 32) div bs"
  have p: "pos < i_size r" using assms(2) by (simp add: pos_def)
  have e: "i_size r + 2 ^ 32 - pos + bs - 1 = (i_size r - pos + bs - 1) + 2 ^ 32" using p assms(3) by simp
  have "(i_size r + 2 ^ 32 - pos + bs - 1) mod 2 ^ 32 = i_size r - pos + bs - 1" unfolding e mod_add_self2 using p assms(3,4) by (intro mod_less) simp
  then have "bl = (i_size r - pos + bs - 1) div bs" by (simp add: bl_def)
  moreover have "bs \<le> i_size r - pos + bs - 1" using p by simp
  ultimately have "1 \<le> bl" using assms(3) by (simp add: div_greater_zero_iff Suc_le_eq)
  moreover define near where "near = (pos \<le> (i_ndzones r * (bs * 2 ^ nat (s_log_zone_size sp))) mod 2 ^ 32 \<and> i_size r > (i_ndzones r * (bs * 2 ^ nat (s_log_zone_size sp))) mod 2 ^ 32)"
  define x where "x = (if near then bl + 1 else bl)"
  have "blocks_to_read bs r sp position bytes = (if NR_IOREQS > x then x else NR_IOREQS)"
    unfolding blocks_to_read_def Let_def pos_def [symmetric] bl_def [symmetric] using assms(1) by (simp add: near_def x_def NR_BUFS_def NR_IOREQS_def)
  ultimately show "1 \<le> blocks_to_read bs r sp position bytes" "blocks_to_read bs r sp position bytes \<le> 64" by (auto simp: NR_IOREQS_def x_def)
qed

lemma asked_none: "io_ok E c \<Longrightarrow> dev \<noteq> NO_DEV \<Longrightarrow> asked E dev base c [] c"
  by (simp add: asked_def undisturbed_def waiting_def io_ok_def)

lemma rahead_holds:
  assumes "file_ok E st ip" "sp = inode_sp ip st" "r = inodes st ip" "\<not> is_block_spec r" "position < i_size r" "i_size r + bs \<le> 2 ^ 32" "bs = io_bsize E (i_dev r)" "0 < bs"
    "66 \<le> card (free_bufs (fcache st))" "b < 2 ^ 32"
  obtains c n where "rahead E ip b position bytes st = Some (st\<lparr>fcache := c\<rparr>, n)" "holds_buf E (fcache st) c (i_dev r) b n" "dev_image E c = dev_image E (fcache st)"
    "rdwt_err c = rdwt_err (fcache st)"
proof -
  let ?dev = "i_dev r" and ?c0 = "fcache st" and ?b = "int b"
  note f = file_okD [OF assms(1-3)]
  have dev: "?dev \<noteq> NO_DEV" using f(2,3) by simp
  have g: "io_good E" using io_okD(2) [OF f(4)] .
  have bb: "b mod 2 ^ 32 = b" using assms(10) by simp
  have two: "two_free c" if "free_bufs ?c0 \<subseteq> free_bufs c" for c
  proof -
    have "2 \<le> card (free_bufs c)" using card_mono [OF _ that] assms(9) by (simp add: free_bufs_def)
    then obtain x y where "x \<in> free_bufs c" "y \<in> free_bufs c" "x \<noteq> y" by (meson card_2_iff' obtain_subset_with_card_n subsetD)
    then show ?thesis unfolding two_free_def by (auto simp: free_bufs_def users_def)
  qed
  note ra = rahead_def [of E ip b position bytes st, unfolded Let_def, folded assms(2,3)]
  show thesis
  proof (cases rule: get_prefetch [OF f(4,5) dev, of ?b])
    case (1 s n)
    have d: "b_dev (bufs s n) \<noteq> NO_DEV" using 1(3,7) dev by (simp add: cached_def)
    from hold_block [OF f(4) two [OF order_refl] dev, of b] obtain c1 n1 where h: "get_block E ?dev ?b NORMAL ?c0 = Some (c1, n1)" "holds_buf E ?c0 c1 ?dev b n1"
      "dev_image E c1 = dev_image E ?c0" by blast
    then have "c1 = s" "n1 = n" using 1(2) by simp_all
    then show thesis using that [of s n] h 1(1) d rdwt_get_block [OF g 1(1)] assms(4) by (simp add: fget_def ra)
  next
    case (2 s n)
    have a1: "asked E ?dev b ?c0 ([] @ [n]) s" by (rule asked_more [OF asked_none [OF f(4) dev]]) (use 2 bb in simp_all)
    define k where "k = (blocks_to_read bs r sp position bytes + 2 ^ 32 - 1) mod 2 ^ 32"
    have "k = blocks_to_read bs r sp position bytes - 1" "k < 64"
      using blocks_ahead_bound [OF assms(4,5,8,6), of sp bytes] by (auto simp: k_def mod_if)
    then have "length [n] + k < card (free_bufs ?c0)" "length [n] + k < 2 ^ 32" using assms(9) by simp_all
    from prefetch_asks [OF a1 [simplified] g dev _ _ this, of b st] obtain c q where q: "prefetch E ?dev b k [n] (st\<lparr>fcache := s\<rparr>) = Some (st\<lparr>fcache := c\<rparr>, q)"
      "asked E ?dev b ?c0 q c" using bb by auto
    define c2 where "c2 = rw_scattered E ?dev q READING c"
    have aq: "undisturbed E ?c0 c" "waiting ?dev q c" "users c = (\<lambda>m. if m \<in> set q then 1 else users ?c0 m)" "\<And>m. m \<in> set q \<Longrightarrow> users ?c0 m = 0"
      "\<And>m. m < NR_BUFS \<Longrightarrow> users ?c0 m \<noteq> 0 \<Longrightarrow> b_blocknr (bufs c m) = b_blocknr (bufs ?c0 m) \<and> b_dev (bufs c m) = b_dev (bufs ?c0 m)"
      using q(2) by (simp_all add: asked_def)
    have ioc: "io_ok E c" using aq(1) g by (simp add: undisturbed_def io_ok_def)
    note sr = scattered_reads [OF ioc aq(2) c2_def]
    have u2: "users c2 = users ?c0" using sr(2) aq(3,4) by (auto simp: fun_eq_iff)
    have "undisturbed E ?c0 c2" by (rule undisturbed_trans [OF aq(1) sr(1)]) (simp add: aq(3))
    then have un: "io_ok E c2" "same_view E ?c0 c2" "rdwt_err c2 = rdwt_err ?c0" using g by (simp_all add: undisturbed_def io_ok_def)
    have keep: "cached c2 d a m" if "cached ?c0 d a m" "users ?c0 m \<noteq> 0" for d a m
    proof -
      have "m < NR_BUFS" "m \<notin> set q" using that aq(4) by (auto simp: cached_def)
      then show ?thesis using that aq(5) sr(3) by (simp add: cached_def)
    qed
    have "two_free c2" using two u2 by (simp add: free_bufs_def users_def fun_eq_iff)
    from hold_block [OF un(1) this dev, of b] obtain c3 n3 where h: "get_block E ?dev ?b NORMAL c2 = Some (c3, n3)" "holds_buf E c2 c3 ?dev b n3"
      "dev_image E c3 = dev_image E c2" by blast
    have "holds_buf E ?c0 c3 ?dev b n3" using h(2) keep u2 unfolding holds_buf_def by metis
    moreover have "rahead E ip b position bytes st = Some (st\<lparr>fcache := c3\<rparr>, n3)"
      using 2(1,6) q(1) h(1) assms(4,7,8) by (simp add: fget_def ra k_def c2_def)
    ultimately show thesis using that h(3) image_same [OF un(2)] rdwt_get_block [OF g h(1)] un(3) by simp
  qed
qed

section \<open>A hole\<close>

lemma set_data_nodev:
  assumes "cache_ok E c" "b_dev (bufs c n) = NO_DEV"
  shows "cache_ok E (set_data n d c)" "same_view E c (set_data n d c)"
proof -
  let ?s = "set_data n d c"
  have b: "bufs ?s m = (if m = n then (bufs c n)\<lparr>b_data := d, b_dirt := True\<rparr> else bufs c m)" "disk ?s = disk c" "same_links c ?s" for m
    by (simp_all add: set_data_def same_links_def)
  have k: "links_ok c" "one_copy c" "clean_ok E c" using assms(1) by (simp_all add: cache_ok_def)
  have "links_ok ?s" using k(1) by (rule links_ok_cong [rotated 2, OF _ b(3)]) (simp add: b)
  moreover have "one_copy ?s" using k(2) by (simp add: one_copy_def set_data_cached)
  moreover have "clean_ok E ?s" using k(3) b by (simp add: clean_ok_def set_data_cached)
  ultimately show "cache_ok E ?s" by (simp add: cache_ok_def)
  have "view ?s dev a = view c dev a" if dv: "dev \<noteq> NO_DEV" for dev a
  proof (cases "find (cached c dev a) [0 ..< NR_BUFS]")
    case (Some m)
    then have "cached c dev a m" by (auto simp: find_Some_iff)
    then have "m \<noteq> n" using assms(2) dv by (auto simp: cached_def)
    then show ?thesis using Some b(1) by (simp add: view_def set_data_cached)
  qed (simp add: view_def set_data_cached b(2))
  then show "same_view E c ?s" by (simp add: same_view_def)
qed

lemma nodev_block:
  assumes "io_ok E c" "room c"
  obtains s n where "get_block E NO_DEV b NORMAL c = Some (s, n)" "calm E c (put_block E (Some n) ty (set_data n d s))"
    "dev_image E (put_block E (Some n) ty (set_data n d s)) = dev_image E c" "rdwt_err (put_block E (Some n) ty (set_data n d s)) = rdwt_err c"
proof -
  have ok: "cache_ok E c" "io_good E" using assms(1) by (simp_all add: io_ok_def)
  from take_nodev [OF ok assms(2), of NO_DEV NORMAL b] obtain s n where s: "take_buf E NO_DEV b NORMAL c = Some (s, n)" "cache_ok E s" "same_view E c s" "n < NR_BUFS" "users c n = 0"
    "b_dev (bufs s n) = NO_DEV" "users s = (users c)(n := 1)" "\<And>m. m \<noteq> n \<Longrightarrow> m < NR_BUFS \<Longrightarrow> b_blocknr (bufs s m) = b_blocknr (bufs c m) \<and> b_dev (bufs s m) = b_dev (bufs c m)"
    by blast
  have g: "get_block E NO_DEV b NORMAL c = Some (s, n)" using s(1) by (simp add: get_block_def)
  let ?t = "set_data n d s" and ?u = "put_block E (Some n) ty (set_data n d s)"
  note t = set_data_nodev [OF s(2,6), of d]
  have "users ?t = users s" by (simp add: users_def set_data_def fun_eq_iff)
  then have ut: "users ?t = (users c)(n := 1)" "0 < b_count (bufs ?t n)" using s(7) by (auto simp: users_def fun_eq_iff)
  note p = put_block_ok [OF t(1) ok(2) s(4) ut(2), of ty]
  have u: "users ?u = users c" using p(3) ut(1) s(5) by (auto simp: users_def fun_eq_iff)
  have io: "io_ok E ?u" using p(1) ok(2) by (simp add: io_ok_def)
  have "cached ?u d' a m" if "cached c d' a m" "users c m \<noteq> 0" for d' a m
    using that s(5,8) by (cases "m = n") (simp_all add: p(4) set_data_cached cached_def)
  moreover have "room ?u" using bc.free_cnt [of E ?u c] io assms u by simp
  ultimately have "calm E c ?u" using io u by (simp add: settled_def)
  moreover have "dev_image E ?u = dev_image E c" using same_view_trans [OF s(3) same_view_trans [OF t(2) p(2)]] by (rule image_same)
  moreover have "rdwt_err ?u = rdwt_err c" using rdwt_put_block [OF ok(2)] rdwt_get_block [OF ok(2) g] by (simp add: set_data_def)
  ultimately show thesis using that g by blast
qed

section \<open>Reading a chunk\<close>

text \<open>The bytes of a file, as the inode and the devices have them.\<close>

definition file_byte :: "super_block \<Rightarrow> (int \<Rightarrow> int \<Rightarrow> block) \<Rightarrow> inode \<Rightarrow> nat \<Rightarrow> 8 word" where
  "file_byte sp I r p = (let b = file_num sp I r p in if b = 0 then 0 else I (i_dev r) (int b) (p mod s_block_size sp))"

definition put_mem :: "int \<Rightarrow> nat \<Rightarrow> nat \<Rightarrow> (nat \<Rightarrow> 8 word) \<Rightarrow> (int \<Rightarrow> nat \<Rightarrow> 8 word) \<Rightarrow> int \<Rightarrow> nat \<Rightarrow> 8 word" where
  "put_mem usr buff cnt f mem = mem(usr := (\<lambda>a. if buff \<le> a \<and> a < buff + cnt then f (a - buff) else mem usr a))"

text \<open>A file that can be read up to position \<open>lim\<close>: no special file, its zones are in reach, and there are buffers for a request of 64 blocks.\<close>

definition file_ready :: "io_env \<Rightarrow> nat \<Rightarrow> fs_st \<Rightarrow> nat \<Rightarrow> bool" where
  "file_ready E lim st ip \<longleftrightarrow>
    (let r = inodes st ip; sp = inode_sp ip st; I = dev_image E (fcache st) in
     file_ok E st ip \<and> \<not> is_block_spec r \<and> io_bsize E (i_dev r) = s_block_size sp \<and> 0 < s_block_size sp \<and> lim + s_block_size sp \<le> 2 ^ 32
     \<and> (\<forall>p < lim. zone_of sp p < zone_range r \<and> legal_path sp I r (zone_of sp p)) \<and> 66 \<le> card (free_bufs (fcache st)))"

lemma file_readyD:
  assumes "file_ready E lim st ip" "sp = inode_sp ip st" "r = inodes st ip" "I = dev_image E (fcache st)"
  shows "file_ok E st ip" "\<not> is_block_spec r" "io_bsize E (i_dev r) = s_block_size sp" "0 < s_block_size sp" "lim + s_block_size sp \<le> 2 ^ 32"
    "p < lim \<Longrightarrow> zone_of sp p < zone_range r" "p < lim \<Longrightarrow> legal_path sp I r (zone_of sp p)" "66 \<le> card (free_bufs (fcache st))"
  using assms by (simp_all add: file_ready_def Let_def)

lemma free_calm: "calm E c c' \<Longrightarrow> free_bufs c' = free_bufs c"
  by (auto simp: settled_def free_bufs_def users_def fun_eq_iff)

lemma file_ready_calm:
  assumes "file_ready E lim st ip" "calm E (fcache st) c" "dev_image E c = dev_image E (fcache st)"
  shows "file_ready E lim (st\<lparr>fcache := c\<rparr>) ip"
  using assms file_ok_cache [of E st ip c] free_calm [OF assms(2)] by (simp add: file_ready_def Let_def inode_sp_def)

lemma file_num_less: "file_num sp I r p < 2 ^ 32"
  by (simp add: file_num_def block_of_def)

lemma file_byte_chunk:
  assumes "k < s_block_size sp - p mod s_block_size sp"
  shows "file_byte sp I r (p + k) = (if file_num sp I r p = 0 then 0 else I (i_dev r) (int (file_num sp I r p)) (p mod s_block_size sp + k))"
proof -
  let ?bs = "s_block_size sp"
  have l: "p mod ?bs + k < ?bs" using assms by simp
  have e: "p + k = p div ?bs * ?bs + (p mod ?bs + k)" by (simp add: add.assoc [symmetric])
  have "(a * ?bs + x) div ?bs = a" "(a * ?bs + x) mod ?bs = x" if "x < ?bs" for a x using that by simp_all
  note this [OF l, of "p div ?bs"]
  then have "(p + k) div ?bs = p div ?bs" "(p + k) mod ?bs = p mod ?bs + k" unfolding e [symmetric] .
  then show ?thesis by (simp add: file_byte_def file_num_def block_of_def zone_of_def Let_def)
qed

lemma get_nodev: "io_ok E c \<Longrightarrow> room c \<Longrightarrow> \<exists>s n. get_block E NO_DEV b NORMAL c = Some (s, n)"
  using nodev_block by metis

lemma rdwt_fget: "io_good E \<Longrightarrow> fget E dev b w st = Some (s, n) \<Longrightarrow> rdwt_err (fcache s) = rdwt_err (fcache st)"
  using rdwt_get_block by (auto simp: fget_def)

lemma rdwt_fput: "io_good E \<Longrightarrow> rdwt_err (fcache (fput E bp ty st)) = rdwt_err (fcache st)"
  by (simp add: fput_def rdwt_put_block)

lemma rdwt_read_map:
  assumes "io_good E" "read_map E ip position st = Some (s, b)"
  shows "rdwt_err (fcache s) = rdwt_err (fcache st)"
proof -
  note f = rdwt_fget [OF assms(1)] and p = rdwt_fput [OF assms(1)]
  have "rdwt_err (fcache u) = rdwt_err (fcache t)" if "rm_first E ip e t = Some (u, z, x)" for e t u z x
    using that by (auto simp: rm_first_def Let_def p split: if_splits Option.bind_splits) (rule f)
  moreover have "rdwt_err (fcache u) = rdwt_err (fcache t)" if "rm_last E ip position z x t = Some (u, y)" for t u z x y
    using that by (auto simp: rm_last_def Let_def p split: if_splits Option.bind_splits) (rule f)
  ultimately show ?thesis using assms(2) by (auto simp: read_map_def Let_def split: if_splits Option.bind_splits)
qed

lemma copy_out_put:
  assumes "\<And>k. k < cnt \<Longrightarrow> d (off + k) = f k"
  shows "copy_out d off usr buff cnt mem = put_mem usr buff cnt f mem"
proof -
  have "(if buff \<le> a \<and> a < buff + cnt then d (off + (a - buff)) else mem usr a) = (if buff \<le> a \<and> a < buff + cnt then f (a - buff) else mem usr a)" for a
    using assms [of "a - buff"] by (intro if_cong) auto
  then show ?thesis unfolding copy_out_def put_mem_def by presburger
qed

text \<open>The buffer of a chunk that is read: its bytes, and that it can be released.\<close>

lemma chunk_buf_reads:
  assumes "file_ready E lim st ip" "sp = inode_sp ip st" "r = inodes st ip" "I = dev_image E (fcache st)" "position < lim" "lim \<le> i_size r" "i_size r + s_block_size sp \<le> 2 ^ 32"
  obtains c n where "chunk_buf E ip position off chunk bytes READING (s_block_size sp) st = Some (st\<lparr>fcache := c\<rparr>, Some n)"
    "\<And>k. k < s_block_size sp - position mod s_block_size sp \<Longrightarrow> b_data (bufs c n) (position mod s_block_size sp + k) = file_byte sp I r (position + k)"
    "calm E (fcache st) (put_block E (Some n) ty c)" "dev_image E (put_block E (Some n) ty c) = I" "rdwt_err (put_block E (Some n) ty c) = rdwt_err (fcache st)"
proof -
  let ?bs = "s_block_size sp" and ?b = "file_num sp I r position" and ?dev = "i_dev r"
  note f = file_readyD [OF assms(1-4)]
  note fo = file_okD [OF f(1) assms(2,3)]
  have g: "io_good E" using io_okD(2) [OF fo(4)] .
  from read_map_spec [OF f(1) assms(2-4) refl, of position] f(6,7) [OF assms(5)]
  obtain s1 where s1: "read_map E ip position st = Some (s1, ?b)" "same_fs E st s1" by (auto simp: zone_range_def file_num_def)
  from s1(2) obtain c1 where c1: "s1 = st\<lparr>fcache := c1\<rparr>" "calm E (fcache st) c1" "dev_image E c1 = I" using assms(4) by (auto simp: same_fs_def)
  have rd1: "rdwt_err c1 = rdwt_err (fcache st)" using rdwt_read_map [OF g s1(1)] c1(1) by simp
  have io1: "io_ok E c1" "room c1" using c1(2) by (simp_all add: settled_def)
  note onto = settled_trans [OF c1(2)]
  show thesis
  proof (cases "?b = 0")
    case True
    define z where "z c n = (\<lambda>k. if k < 4096 then 0 else b_data (bufs c n) k)" for c :: cache and n :: bufno
    have small: "?bs \<le> 4096" using file_ok_bs(1) [OF f(1) assms(2)] f(3) fo(2) by simp
    from get_nodev [OF io1(1,2)] obtain s n where s: "get_block E NO_DEV 0 NORMAL c1 = Some (s, n)" by blast
    from nodev_block [OF io1, of 0 ty "z s n"] s have p: "calm E c1 (put_block E (Some n) ty (set_data n (z s n) s))"
      "dev_image E (put_block E (Some n) ty (set_data n (z s n) s)) = dev_image E c1" "rdwt_err (put_block E (Some n) ty (set_data n (z s n) s)) = rdwt_err c1" by auto
    have "zero_block n s = set_data n (z s n) s" by (simp add: zero_block_def z_def)
    then have "chunk_buf E ip position off chunk bytes READING ?bs st = Some (st\<lparr>fcache := set_data n (z s n) s\<rparr>, Some n)"
      using s1(1) c1(1) True s f(2) assms(3) by (simp add: chunk_buf_def Let_def fget_def fzero_def)
    moreover have "b_data (bufs (set_data n (z s n) s) n) (position mod ?bs + k) = file_byte sp I r (position + k)" if "k < ?bs - position mod ?bs" for k
    proof -
      have "position mod ?bs + k < 4096" using that small by linarith
      then show ?thesis using file_byte_chunk [OF that, of I r] True by (simp add: set_data_def z_def)
    qed
    ultimately show thesis using that onto [OF p(1)] p(2,3) c1(3) rd1 by simp
  next
    case False
    have st1: "file_ready E lim s1 ip" unfolding c1(1) by (rule file_ready_calm [OF assms(1) c1(2)]) (use c1(3) assms(4) in simp)
    have sel: "inode_sp ip s1 = sp" "inodes s1 ip = r" "dev_image E (fcache s1) = I" using c1 assms(2,3) by (simp_all add: inode_sp_def)
    note f1 = file_readyD [OF st1 refl refl refl, unfolded sel]
    have "position < i_size r" using assms(5,6) by simp
    from rahead_holds [OF f1(1) sel(1,2) [symmetric] f1(2) this assms(7) f1(3) [symmetric] f1(4,8) file_num_less [of sp I r position], of bytes]
    obtain c n where h: "rahead E ip ?b position bytes s1 = Some (s1\<lparr>fcache := c\<rparr>, n)" "holds_buf E (fcache s1) c ?dev ?b n" "dev_image E c = I"
      "rdwt_err c = rdwt_err (fcache s1)" using sel(3) by metis
    have dv: "?dev \<noteq> NO_DEV" using fo(2,3) by simp
    note hp = holds_put [OF h(2), of ty] holds_data(1) [OF h(2) dv]
    have "chunk_buf E ip position off chunk bytes READING ?bs st = Some (st\<lparr>fcache := c\<rparr>, Some n)"
      using s1(1) c1(1) False h(1) f(2) assms(3) by (simp add: chunk_buf_def Let_def)
    moreover have "b_data (bufs c n) (position mod ?bs + k) = file_byte sp I r (position + k)" if "k < ?bs - position mod ?bs" for k
    proof -
      have "clip E ?dev (buf_data c n) (position mod ?bs + k) = I ?dev (int ?b) (position mod ?bs + k)" using hp(3) h(3) by simp
      moreover have "position mod ?bs + k < ?bs" using that by linarith
      ultimately show ?thesis using file_byte_chunk [OF that, of I r] False dv f(3) by (simp add: clip_def buf_data_def)
    qed
    moreover have "calm E c1 (put_block E (Some n) ty c)" "dev_image E (put_block E (Some n) ty c) = I" using hp(1,2) io1 h(3) c1(1) by simp_all
    moreover have "rdwt_err (put_block E (Some n) ty c) = rdwt_err (fcache st)" using rdwt_put_block [OF g] h(4) rd1 c1(1) by simp
    ultimately show thesis using that onto by blast
  qed
qed

lemma rw_chunk_reads:
  assumes "file_ready E lim (rw_fs st) ip" "sp = inode_sp ip (rw_fs st)" "r = inodes (rw_fs st) ip" "I = dev_image E (fcache (rw_fs st))" "position < lim" "lim \<le> i_size r"
    "i_size r + s_block_size sp \<le> 2 ^ 32" "chunk \<le> s_block_size sp - position mod s_block_size sp" "vcopy V True usr buff chunk = (chunk, 0)"
  shows "\<exists>c. rw_chunk E V ip position (position mod s_block_size sp) chunk bytes READING buff usr (s_block_size sp) st
      = Some (st\<lparr>rw_fs := (rw_fs st)\<lparr>fcache := c\<rparr>, rw_mem := put_mem usr buff chunk (\<lambda>k. file_byte sp I r (position + k)) (rw_mem st)\<rparr>, 0)
    \<and> calm E (fcache (rw_fs st)) c \<and> dev_image E c = I \<and> rdwt_err c = rdwt_err (fcache (rw_fs st))"
proof -
  let ?bs = "s_block_size sp" and ?ty = "if position mod s_block_size sp + chunk = s_block_size sp then FULL_DATA_BLOCK else PARTIAL_DATA_BLOCK"
  from chunk_buf_reads [OF assms(1-7), of "position mod ?bs" chunk bytes ?ty]
  obtain c n where c: "chunk_buf E ip position (position mod ?bs) chunk bytes READING ?bs (rw_fs st) = Some ((rw_fs st)\<lparr>fcache := c\<rparr>, Some n)"
    "\<And>k. k < ?bs - position mod ?bs \<Longrightarrow> b_data (bufs c n) (position mod ?bs + k) = file_byte sp I r (position + k)"
    "calm E (fcache (rw_fs st)) (put_block E (Some n) ?ty c)" "dev_image E (put_block E (Some n) ?ty c) = I" "rdwt_err (put_block E (Some n) ?ty c) = rdwt_err (fcache (rw_fs st))" by blast
  have "copy_out (b_data (bufs c n)) (position mod ?bs) usr buff chunk (rw_mem st) = put_mem usr buff chunk (\<lambda>k. file_byte sp I r (position + k)) (rw_mem st)"
    by (rule copy_out_put) (use c(2) assms(8) in simp)
  then have "rw_chunk E V ip position (position mod ?bs) chunk bytes READING buff usr ?bs st
      = Some (st\<lparr>rw_fs := (rw_fs st)\<lparr>fcache := put_block E (Some n) ?ty c\<rparr>, rw_mem := put_mem usr buff chunk (\<lambda>k. file_byte sp I r (position + k)) (rw_mem st)\<rparr>, 0)"
    using c(1) assms(9) by (simp add: rw_chunk_def Let_def fput_def)
  then show ?thesis using c(3-5) by blast
qed

section \<open>Reading\<close>

lemma put_mem_append:
  "put_mem usr (buff + c) d (\<lambda>k. f (c + k)) (put_mem usr buff c f mem) = put_mem usr buff (c + d) f mem"
  by (rule ext) (auto simp: put_mem_def fun_eq_iff)

lemma put_mem_none: "put_mem usr buff 0 f mem = mem"
  by (auto simp: put_mem_def fun_eq_iff)

definition copies_all :: "rw_sys \<Rightarrow> bool \<Rightarrow> int \<Rightarrow> bool" where
  "copies_all V to_user usr \<longleftrightarrow> (\<forall>b c. vcopy V to_user usr b c = (c, 0))"

text \<open>The loop delivers the bytes from the position on, up to the end of the file, and leaves the devices as they are.\<close>

lemma rw_chunks_read:
  assumes "file_ready E (i_size r) (rw_fs st) ip" "sp = inode_sp ip (rw_fs st)" "r = inodes (rw_fs st) ip" "I = dev_image E (fcache (rw_fs st))"
    "copies_all V True usr" "buff + nbytes < 2 ^ 32" "rdwt_err (fcache (rw_fs st)) = 0"
  shows "\<exists>c. rw_chunks E V ip READING usr (s_block_size sp) (i_size r) nbytes buff position cum st
      = Some (st\<lparr>rw_fs := (rw_fs st)\<lparr>fcache := c\<rparr>, rw_mem := put_mem usr buff (min nbytes (i_size r - position)) (\<lambda>k. file_byte sp I r (position + k)) (rw_mem st)\<rparr>,
        cum + int (min nbytes (i_size r - position)), position + min nbytes (i_size r - position), 0)
    \<and> calm E (fcache (rw_fs st)) c \<and> dev_image E c = I \<and> rdwt_err c = 0"
  using assms
proof (induction nbytes arbitrary: buff position cum st rule: less_induct)
  case (less nbytes)
  let ?bs = "s_block_size sp" and ?n = "i_size r"
  note f = file_readyD [OF less.prems(1-4)]
  have io: "io_ok E (fcache (rw_fs st))" "room (fcache (rw_fs st))" using file_okD [OF f(1) less.prems(2,3)] by simp_all
  show ?case
  proof (cases "nbytes = 0 \<or> ?n \<le> position")
    case True
    then have "min nbytes (?n - position) = 0" "calm E (fcache (rw_fs st)) (fcache (rw_fs st))" using io by (auto simp: settled_def)
    moreover have "rw_chunks E V ip READING usr ?bs ?n nbytes buff position cum st = Some (st, cum, position, 0)"
      using True f(4) by (subst rw_chunks.simps) auto
    ultimately show ?thesis using less.prems(4,7) by (intro exI [of _ "fcache (rw_fs st)"]) (simp add: put_mem_none)
  next
    case False
    define ch where "ch = chunk_size READING nbytes ?bs ?n position"
    have ch: "0 < ch" "ch \<le> nbytes" "ch \<le> ?bs - position mod ?bs" "ch \<le> ?n - position" "position < ?n"
      using False mod_less_divisor [OF f(4), of position] by (auto simp: ch_def chunk_size_def Let_def min_def)
    have mn: "min nbytes (?n - position) = ch + min (nbytes - ch) (?n - (position + ch))" using ch by linarith
    obtain c where c: "rw_chunk E V ip position (position mod ?bs) ch nbytes READING buff usr ?bs st
        = Some (st\<lparr>rw_fs := (rw_fs st)\<lparr>fcache := c\<rparr>, rw_mem := put_mem usr buff ch (\<lambda>k. file_byte sp I r (position + k)) (rw_mem st)\<rparr>, 0)"
      "calm E (fcache (rw_fs st)) c" "dev_image E c = I" "rdwt_err c = 0"
      using rw_chunk_reads [OF less.prems(1-4) ch(5) order_refl f(5) ch(3), of V usr buff nbytes] less.prems(5,7) by (auto simp: copies_all_def)
    let ?s = "st\<lparr>rw_fs := (rw_fs st)\<lparr>fcache := c\<rparr>, rw_mem := put_mem usr buff ch (\<lambda>k. file_byte sp I r (position + k)) (rw_mem st)\<rparr>"
    have m: "(buff + ch) mod 2 ^ 32 = buff + ch" "(position + ch) mod 2 ^ 32 = position + ch" using ch f(4,5) less.prems(6) by auto
    have e: "rw_chunks E V ip READING usr ?bs ?n nbytes buff position cum st
        = rw_chunks E V ip READING usr ?bs ?n (nbytes - ch) (buff + ch) (position + ch) (cum + int ch) ?s"
      using False f(4) c(1,4) m by (subst rw_chunks.simps) (simp add: Let_def ch_def [symmetric])
    have rd: "file_ready E ?n (rw_fs ?s) ip" using file_ready_calm [OF less.prems(1) c(2)] c(3) less.prems(4) by simp
    have sel: "sp = inode_sp ip (rw_fs ?s)" "r = inodes (rw_fs ?s) ip" "I = dev_image E (fcache (rw_fs ?s))" using less.prems(2,3) c(3) by (simp_all add: inode_sp_def)
    obtain d where d: "rw_chunks E V ip READING usr ?bs ?n (nbytes - ch) (buff + ch) (position + ch) (cum + int ch) ?s
       = Some (?s\<lparr>rw_fs := (rw_fs ?s)\<lparr>fcache := d\<rparr>, rw_mem := put_mem usr (buff + ch) (min (nbytes - ch) (?n - (position + ch))) (\<lambda>k. file_byte sp I r (position + ch + k)) (rw_mem ?s)\<rparr>,
         cum + int ch + int (min (nbytes - ch) (?n - (position + ch))), position + ch + min (nbytes - ch) (?n - (position + ch)), 0)"
      "calm E (fcache (rw_fs ?s)) d" "dev_image E d = I" "rdwt_err d = 0"
      using less.IH [OF _ rd sel less.prems(5), of "nbytes - ch" "buff + ch" "position + ch" "cum + int ch"] ch less.prems(6) c(4) by auto
    have "calm E (fcache (rw_fs st)) d" using settled_trans [OF c(2)] d(2) by simp
    moreover have "rw_chunks E V ip READING usr ?bs ?n nbytes buff position cum st
      = Some (st\<lparr>rw_fs := (rw_fs st)\<lparr>fcache := d\<rparr>, rw_mem := put_mem usr buff (min nbytes (?n - position)) (\<lambda>k. file_byte sp I r (position + k)) (rw_mem st)\<rparr>,
        cum + int (min nbytes (?n - position)), position + min nbytes (?n - position), 0)"
      unfolding e d(1) mn using put_mem_append [of usr buff ch _ "\<lambda>k. file_byte sp I r (position + k)"] by (simp add: add.assoc)
    ultimately show ?thesis using d(3,4) by blast
  qed
qed

lemma rdwt_image: "dev_image E (c\<lparr>rdwt_err := w\<rparr>) = dev_image E c"
proof -
  have "cached (c\<lparr>rdwt_err := w\<rparr>) = cached c" by (simp add: cached_def fun_eq_iff)
  then have "view (c\<lparr>rdwt_err := w\<rparr>) dev b = view c dev b" for dev b by (simp add: view_def split: option.split)
  then show ?thesis by (intro ext) (simp add: dev_image_def)
qed

lemma file_ready_rdwt:
  assumes "file_ready E lim st ip"
  shows "file_ready E lim (st\<lparr>err_code := e, fcache := (fcache st)\<lparr>rdwt_err := w\<rparr>\<rparr>) ip"
proof -
  let ?c = "(fcache st)\<lparr>rdwt_err := w\<rparr>"
  note f = file_readyD [OF assms refl refl refl]
  have s: "same_links (fcache st) ?c" "cached ?c = cached (fcache st)" "bufs ?c = bufs (fcache st)" "disk ?c = disk (fcache st)"
    by (simp_all add: same_links_def cached_def fun_eq_iff)
  have i: "io_ok E (fcache st)" "room (fcache st)" using file_okD [OF f(1) refl refl] by simp_all
  then have "cache_ok E (fcache st)" "io_good E" by (simp_all add: io_ok_def)
  then have k: "links_ok (fcache st)" "one_copy (fcache st)" "clean_ok E (fcache st)" by (simp_all add: cache_ok_def)
  have "links_ok ?c" using k(1) by (rule links_ok_cong [rotated 2, OF _ s(1)]) simp
  then have "cache_ok E ?c" using k(2,3) s by (simp add: cache_ok_def one_copy_def clean_ok_def)
  then have "calm E (fcache st) ?c" using i \<open>io_good E\<close> by (simp add: settled_def io_ok_def users_def room_def s fun_eq_iff)
  moreover have "dev_image E ?c = dev_image E (fcache st)" by (rule rdwt_image)
  moreover have "file_ready E lim (st\<lparr>err_code := e\<rparr>) ip = file_ready E lim st ip" by (simp add: file_ready_def file_ok_def zone_st_def inode_sp_def Let_def)
  ultimately show ?thesis using assms file_ready_calm [of E lim "st\<lparr>err_code := e\<rparr>" ip ?c] by simp
qed

text \<open>A descriptor for a regular file, open for the call.\<close>

definition fd_open :: "rw_st \<Rightarrow> int \<Rightarrow> nat \<Rightarrow> nat \<Rightarrow> nat \<Rightarrow> bool" where
  "fd_open st fd bits f ip \<longleftrightarrow>
    (let s = rw_fs st in 0 \<le> fd \<and> fd < int MNX_OPEN_MAX \<and> fp_filp (the_fp s) (nat fd) = Some f \<and> filp_ino (filps s f) = ip
     \<and> and (filp_mode (filps s f)) bits \<noteq> 0 \<and> i_type (i_mode (inodes s ip)) = I_REGULAR \<and> \<not> i_pipe (inodes s ip))"

lemma fd_openD:
  assumes "fd_open st fd bits f ip"
  shows "get_filp fd (rw_fs st) = ((rw_fs st)\<lparr>err_code := EMOLBADF\<rparr>, Some f)" "filp_ino (filps (rw_fs st) f) = ip" "and (filp_mode (filps (rw_fs st) f)) bits \<noteq> 0"
    "i_type (i_mode (inodes (rw_fs st) ip)) = I_REGULAR" "\<not> i_pipe (inodes (rw_fs st) ip)"
  using assms by (auto simp: fd_open_def get_filp_def Let_def)

text \<open>What a call leaves besides the blocks: the position of the descriptor, and the marks of the inode.\<close>

definition call_ends :: "nat \<Rightarrow> nat \<Rightarrow> nat \<Rightarrow> fs_st \<Rightarrow> fs_st \<Rightarrow> bool" where
  "call_ends f ip position s s' \<longleftrightarrow> supers s' = supers s \<and> fprocs s' = fprocs s \<and> cur_fp s' = cur_fp s
     \<and> filps s' = (filps s)(f := (filps s f)\<lparr>filp_pos := position\<rparr>)
     \<and> inodes s' = (inodes s)(ip := (inodes s ip)\<lparr>i_seek := False, i_update := i_update (inodes s' ip), i_dirt := True\<rparr>)"

lemma rw_finish_regular:
  assumes "i_type (i_mode (inodes (rw_fs st) ip)) = I_REGULAR" "\<not> i_pipe (inodes (rw_fs st) ip)" "rdwt_err (fcache (rw_fs st)) = 0" "0 < bs" "writing \<longrightarrow> position \<le> f_size"
  shows "\<exists>st'. rw_finish f ip writing bs f_size cum position 0 st = Some (st', cum) \<and> rw_mem st' = rw_mem st \<and> fcache (rw_fs st') = fcache (rw_fs st)
     \<and> call_ends f ip position (rw_fs st) (rw_fs st')"
  using assms by (auto simp: rw_finish_def Let_def upd_inode_def upd_filp_def call_ends_def)

lemma marked_map:
  fixes r :: inode
  assumes "r' = r\<lparr>i_seek := a, i_update := u, i_dirt := d\<rparr>"
  shows "zone_range r' = zone_range r" "is_block_spec r' = is_block_spec r" "zone_ref sp I r' = zone_ref sp I r" "legal_path sp I r' = legal_path sp I r"
    "file_num sp I r' = file_num sp I r" "file_byte sp I r' = file_byte sp I r" "zones_apart sp I r' = zones_apart sp I r"
proof -
  have z: "ind_zone sp I r' = ind_zone sp I r" "ind_index r' = ind_index r" "islot sp I r' = islot sp I r" using assms by (simp_all add: ind_zone_def ind_index_def islot_def fun_eq_iff)
  show "zone_range r' = zone_range r" "is_block_spec r' = is_block_spec r" using assms by (simp_all add: zone_range_def is_block_spec_def)
  moreover show "zone_ref sp I r' = zone_ref sp I r" using assms z by (simp add: zone_ref_def fun_eq_iff)
  moreover show "legal_path sp I r' = legal_path sp I r" using assms z calculation by (simp add: legal_path_def fun_eq_iff)
  moreover show "file_num sp I r' = file_num sp I r" using calculation by (simp add: file_num_def fun_eq_iff)
  moreover show "file_byte sp I r' = file_byte sp I r" using assms calculation by (intro ext) (simp add: file_byte_def Let_def)
  moreover show "zones_apart sp I r' = zones_apart sp I r" using assms z calculation by (simp add: zones_apart_def tree_ok_def)
qed

lemma file_ready_ends:
  assumes "file_ready E lim st ip" "call_ends f ip p st s" "calm E (fcache st) (fcache s)" "dev_image E (fcache s) = dev_image E (fcache st)"
  shows "file_ready E lim s ip"
proof -
  let ?t = "st\<lparr>fcache := fcache s\<rparr>"
  have e: "supers s = supers st" "inodes s ip = (inodes st ip)\<lparr>i_seek := False, i_update := i_update (inodes s ip), i_dirt := True\<rparr>"
    using assms(2) unfolding call_ends_def by (blast, metis fun_upd_same)
  note m = marked_map [OF e(2)]
  have k: "i_sp (inodes s ip) = i_sp (inodes st ip)" "i_dev (inodes s ip) = i_dev (inodes st ip)" "i_zone (inodes s ip) = i_zone (inodes st ip)"
    "i_ndzones (inodes s ip) = i_ndzones (inodes st ip)" "i_nindirs (inodes s ip) = i_nindirs (inodes st ip)" by (subst e(2), simp)+
  have "file_ready E lim ?t ip" using file_ready_calm [OF assms(1,3,4)] .
  moreover have "file_ready E lim s ip = file_ready E lim ?t ip"
    unfolding file_ready_def file_ok_def zone_st_def inode_sp_def Let_def e(1) m k by simp
  ultimately show ?thesis by simp
qed

end
