(* ===== verification/Fs_Write_Props.thy ===== *)
theory Fs_Write_Props
  imports Fs_Read_Props
begin

text \<open>
  What \<open>write\<close> does to a file whose blocks exist: the bytes of the range get the bytes of the process, the other bytes of the file and every other
  block keep theirs, and the map of the file stays.  Together with the theorem about \<open>read\<close>: what is written is what is read.
\<close>

section \<open>Changing the bytes of a file\<close>

text \<open>The bytes \<open>g\<close> are in the file from position \<open>p\<close> on, and nothing else has changed.\<close>

definition written :: "super_block \<Rightarrow> inode \<Rightarrow> nat \<Rightarrow> nat \<Rightarrow> (nat \<Rightarrow> 8 word) \<Rightarrow> (int \<Rightarrow> int \<Rightarrow> block) \<Rightarrow> (int \<Rightarrow> int \<Rightarrow> block) \<Rightarrow> bool" where
  "written sp r p n g I I' \<longleftrightarrow>
    (\<forall>q < i_size r. file_byte sp I' r q = (if p \<le> q \<and> q < p + n then g (q - p) else file_byte sp I r q))
    \<and> (\<forall>d b. I' d b \<noteq> I d b \<longrightarrow> d = i_dev r \<and> (\<exists>q. p \<le> q \<and> q < p + n \<and> b = int (file_num sp I r q)))"

definition file_mapped :: "super_block \<Rightarrow> (int \<Rightarrow> int \<Rightarrow> block) \<Rightarrow> inode \<Rightarrow> bool" where
  "file_mapped sp I r \<longleftrightarrow> zones_apart sp I r \<and> (\<forall>q < i_size r. zone_of sp q < zone_range r \<and> zone_ref sp I r (zone_of sp q) \<noteq> NO_ZONE)"

text \<open>The map of the file, which a change of its bytes must not touch.\<close>

definition same_map :: "super_block \<Rightarrow> inode \<Rightarrow> (int \<Rightarrow> int \<Rightarrow> block) \<Rightarrow> (int \<Rightarrow> int \<Rightarrow> block) \<Rightarrow> bool" where
  "same_map sp r I I' \<longleftrightarrow> (\<forall>q < i_size r. file_num sp I' r q = file_num sp I r q) \<and> on_map ZMAP sp I' NO_BIT = on_map ZMAP sp I NO_BIT"

lemma same_map_trans: "same_map sp r I J \<Longrightarrow> same_map sp r J K \<Longrightarrow> same_map sp r I K"
  by (simp add: same_map_def)

lemma written_none: "written sp r p 0 g I I"
  by (auto simp: written_def)

lemma written_trans:
  assumes "written sp r p c g I J" "written sp r (p + c) d (\<lambda>k. g (c + k)) J K" "same_map sp r I J" "p + c + d \<le> i_size r"
  shows "written sp r p (c + d) g I K"
  unfolding written_def
proof (intro conjI allI impI)
  fix q
  assume q: "q < i_size r"
  have "file_byte sp K r q = (if p + c \<le> q \<and> q < p + c + d then g (c + (q - (p + c))) else file_byte sp J r q)" using assms(2) q by (simp add: written_def)
  moreover have "file_byte sp J r q = (if p \<le> q \<and> q < p + c then g (q - p) else file_byte sp I r q)" using assms(1) q by (simp add: written_def)
  ultimately show "file_byte sp K r q = (if p \<le> q \<and> q < p + (c + d) then g (q - p) else file_byte sp I r q)" by auto
next
  fix e b
  assume k: "K e b \<noteq> I e b"
  show "e = i_dev r"
  proof (cases "J e b = I e b")
    case True
    then show ?thesis using k assms(2) unfolding written_def by metis
  next
    case False
    then show ?thesis using assms(1) unfolding written_def by metis
  qed
  show "\<exists>q \<ge> p. q < p + (c + d) \<and> b = int (file_num sp I r q)"
  proof (cases "J e b = I e b")
    case True
    then obtain q where q: "p + c \<le> q" "q < p + c + d" "b = int (file_num sp J r q)" using k assms(2) unfolding written_def by metis
    then have "file_num sp J r q = file_num sp I r q" using assms(3,4) by (simp add: same_map_def)
    then show ?thesis using q by (intro exI [of _ q]) simp
  next
    case False
    then obtain q where q: "p \<le> q" "q < p + c" "b = int (file_num sp I r q)" using assms(1) unfolding written_def by metis
    then show ?thesis by (intro exI [of _ q]) simp
  qed
qed

text \<open>The bytes of one block.\<close>

lemma file_num_pos:
  assumes "layout_ok E sp" "file_mapped sp I r" "q < i_size r"
  shows "file_num sp I r q \<noteq> 0"
proof -
  let ?z = "zone_ref sp I r (zone_of sp q)"
  have z: "?z \<noteq> NO_ZONE" "data_zone sp ?z" using assms(2,3) by (simp_all add: file_mapped_def zones_apart_def)
  then show ?thesis unfolding file_num_def using block_of_data(1) [OF assms(1) z(2,1) refl, of q] by simp
qed

lemma same_block_range:
  fixes p q bs :: nat
  assumes "q div bs = p div bs" "c \<le> bs - p mod bs"
  shows "(p mod bs \<le> q mod bs \<and> q mod bs < p mod bs + c) = (p \<le> q \<and> q < p + c)" "p \<le> q \<Longrightarrow> q mod bs - p mod bs = q - p"
proof -
  have "q = p div bs * bs + q mod bs" "p = p div bs * bs + p mod bs" using assms(1) by (metis div_mult_mod_eq, simp)
  then obtain a where "q = a + q mod bs" "p = a + p mod bs" by blast
  then show "(p mod bs \<le> q mod bs \<and> q mod bs < p mod bs + c) = (p \<le> q \<and> q < p + c)" "p \<le> q \<Longrightarrow> q mod bs - p mod bs = q - p" by linarith+
qed

lemma other_block_range:
  fixes p q bs :: nat
  assumes "q div bs \<noteq> p div bs" "c \<le> bs - p mod bs" "0 < bs"
  shows "\<not> (p \<le> q \<and> q < p + c)"
proof
  assume q: "p \<le> q \<and> q < p + c"
  have "(p div bs + 1) * bs = p div bs * bs + bs" by simp
  then have "q < (p div bs + 1) * bs" using q assms(2) mod_less_divisor [OF assms(3), of p] div_mult_mod_eq [of p bs] by linarith
  then have "q div bs < p div bs + 1" by (simp add: less_mult_imp_div_less)
  moreover have "p div bs \<le> q div bs" using q by (simp add: div_le_mono)
  ultimately show False using assms(1) by simp
qed

lemma chunk_written:
  assumes "layout_ok E sp" "file_mapped sp I r" "io_bsize E (i_dev r) = s_block_size sp" "0 < s_block_size sp" "0 < i_nindirs r" "p < i_size r" "0 < c"
    "c \<le> s_block_size sp - p mod s_block_size sp" "b = file_num sp I r p"
    "I' = img_put I (i_dev r) b (clip E (i_dev r) (copy_in um buff (p mod s_block_size sp) c (I (i_dev r) (int b))))"
    "i_dev r \<noteq> NO_DEV"
  shows "written sp r p c (\<lambda>k. um (buff + k)) I I'" "same_map sp r I I'" "file_mapped sp I' r"
proof -
  let ?bs = "s_block_size sp" and ?dev = "i_dev r"
  define d where "d = clip E ?dev (copy_in um buff (p mod ?bs) c (I ?dev (int b)))"
  have I': "I' = img_put I ?dev (file_num sp I r p) d" using assms(9,10) by (simp add: d_def)
  have m: "zones_apart sp I r" "\<And>q. q < i_size r \<Longrightarrow> zone_of sp q < zone_range r" "\<And>q. q < i_size r \<Longrightarrow> zone_ref sp I r (zone_of sp q) \<noteq> NO_ZONE"
    using assms(2) by (simp_all add: file_mapped_def)
  note pf = put_file_block [OF assms(1) m(1) m(2,3) [OF assms(6)] assms(4,5) refl I']
  show al: "file_mapped sp I' r" using pf(1,2) m by (simp add: file_mapped_def)
  have fn: "file_num sp I' r q = file_num sp I r q" if "q < i_size r" for q using pf(3) m(2) [OF that] .
  have "data_zone sp (zone_ref sp I r (zone_of sp p))" using m assms(6) by (simp add: zones_apart_def)
  then have "0 < map_bits ZMAP sp" using zone_bit_less [OF assms(1)] by fastforce
  then have "on_map ZMAP sp I' NO_BIT = on_map ZMAP sp I NO_BIT"
    using block_above_map [OF assms(1) m(1) m(2,3) [OF assms(6)], of 0] by (simp add: on_map_def I' img_put_def)
  then show "same_map sp r I I'" using fn by (simp add: same_map_def)
  have fb: "file_byte sp I' r q = (if p \<le> q \<and> q < p + c then um (buff + (q - p)) else file_byte sp I r q)" if q: "q < i_size r" for q
  proof -
    have n: "file_num sp I r q \<noteq> 0" by (rule file_num_pos [OF assms(1,2) q])
    have e: "file_byte sp I' r q = (if q div ?bs = p div ?bs then d else I ?dev (int (file_num sp I r q))) (q mod ?bs)"
      using n fn [OF q] pf(4) [OF m(2,3) [OF q]] by (simp add: file_byte_def Let_def)
    show ?thesis
    proof (cases "q div ?bs = p div ?bs")
      case True
      then have "file_num sp I r q = b" using assms(9) by (simp add: file_num_def zone_of_def block_of_def)
      moreover have "q mod ?bs < ?bs" using assms(4) by simp
      ultimately have "file_byte sp I' r q = (if p mod ?bs \<le> q mod ?bs \<and> q mod ?bs < p mod ?bs + c then um (buff + (q mod ?bs - p mod ?bs)) else file_byte sp I r q)"
        using e True n assms(3,11) by (simp add: d_def clip_def copy_in_def file_byte_def Let_def)
      then show ?thesis using same_block_range [OF True assms(8)] by simp
    next
      case False
      then show ?thesis using e n other_block_range [OF False assms(8,4)] by (auto simp: file_byte_def Let_def)
    qed
  qed
  have "?dev = e \<and> int (file_num sp I r p) = a" if "I' e a \<noteq> I e a" for e a using that by (auto simp: I' img_put_def split: if_splits)
  then show "written sp r p c (\<lambda>k. um (buff + k)) I I'" using fb assms(7) unfolding written_def by (metis less_add_same_cancel1 order_refl)
qed

section \<open>Writing a chunk\<close>

lemma clip_copy_in:
  assumes "clip E dev d = clip E dev d' \<or> off = 0 \<and> cnt = io_bsize E dev"
  shows "clip E dev (copy_in um buff off cnt d) = clip E dev (copy_in um buff off cnt d')"
proof
  fix k
  have "dev \<noteq> NO_DEV \<Longrightarrow> k < io_bsize E dev \<Longrightarrow> clip E dev d = clip E dev d' \<Longrightarrow> d k = d' k" by (auto simp: clip_def fun_eq_iff dest: spec [of _ k])
  then show "clip E dev (copy_in um buff off cnt d) k = clip E dev (copy_in um buff off cnt d') k" using assms by (auto simp: clip_def copy_in_def)
qed

text \<open>A block taken with or without its contents and filled.\<close>

lemma fill_block:
  assumes "io_ok E c" "room c" "two_free c" "dev \<noteq> NO_DEV" "w = NORMAL \<or> w = NO_READ \<and> off = 0 \<and> cnt = io_bsize E dev"
  obtains c1 n where "get_block E dev (int b) w c = Some (c1, n)"
    "calm E c (put_block E (Some n) ty (set_data n (copy_in um buff off cnt (b_data (bufs c1 n))) c1))"
    "dev_image E (put_block E (Some n) ty (set_data n (copy_in um buff off cnt (b_data (bufs c1 n))) c1))
      = img_put (dev_image E c) dev b (clip E dev (copy_in um buff off cnt (dev_image E c dev (int b))))"
    "rdwt_err (put_block E (Some n) ty (set_data n (copy_in um buff off cnt (b_data (bufs c1 n))) c1)) = rdwt_err c"
proof -
  have g: "io_good E" using assms(1) by (simp add: io_ok_def)
  obtain c2 n where h: "get_block E dev (int b) NORMAL c = Some (c2, n)" "holds_buf E c c2 dev b n" "dev_image E c2 = dev_image E c"
    "clip E dev (buf_data c2 n) = dev_image E c dev (int b)" using hold_block [OF assms(1,3,4)] by metis
  obtain c1 where c1: "get_block E dev (int b) w c = Some (c1, n)" "\<And>d. set_data n d c1 = set_data n d c2" "w = NORMAL \<longrightarrow> c1 = c2"
    using get_block_new [OF assms(1,4) h(1)] h(1) assms(5) by metis
  let ?d = "copy_in um buff off cnt (b_data (bufs c1 n))"
  have "clip E dev (dev_image E c dev (int b)) = dev_image E c dev (int b)" by (auto simp: clip_def dev_image_def)
  then have "clip E dev ?d = clip E dev (copy_in um buff off cnt (dev_image E c dev (int b)))"
    using clip_copy_in [of E dev "b_data (bufs c1 n)" "dev_image E c dev (int b)" off cnt um buff] assms(5) c1(3) h(4) by (fastforce simp: buf_data_def)
  moreover note s = holds_store [OF h(2) assms(4), of ?d, folded c1(2)]
  moreover note p = holds_put [OF s(1) assms(1,2), of ty]
  moreover have "rdwt_err (put_block E (Some n) ty (set_data n ?d c1)) = rdwt_err c"
    using rdwt_put_block [OF g] rdwt_get_block [OF g c1(1)] by (simp add: set_data_def)
  ultimately show thesis using that c1(1) h(3) by simp
qed

text \<open>A file that can be written without new blocks.\<close>

definition file_full :: "io_env \<Rightarrow> fs_st \<Rightarrow> nat \<Rightarrow> bool" where
  "file_full E st ip \<longleftrightarrow>
    (let r = inodes st ip in file_ready E (i_size r) st ip \<and> two_free (fcache st) \<and> file_mapped (inode_sp ip st) (dev_image E (fcache st)) r)"

lemma file_full_put:
  assumes "file_full E st ip" "calm E (fcache st) c" "sp = inode_sp ip st" "r = inodes st ip" "same_map sp r (dev_image E (fcache st)) (dev_image E c)"
    "file_mapped sp (dev_image E c) r"
  shows "file_full E (st\<lparr>fcache := c\<rparr>) ip"
proof -
  have f: "file_ready E (i_size r) st ip" "two_free (fcache st)" using assms(1,4) by (simp_all add: file_full_def Let_def)
  note fr = file_readyD [OF f(1) refl refl refl]
  have "legal_path sp (dev_image E c) r (zone_of sp p)" if "p < i_size r" for p
    using apart_legal [of sp "dev_image E c" r "zone_of sp p"] assms(3,4,6) fr(6) [of p] that file_okD(7) [OF fr(1) refl refl] by (simp add: file_mapped_def)
  moreover have "file_ok E (st\<lparr>fcache := c\<rparr>) ip"
    using fr(1) assms(2-5) by (simp add: file_ok_def Let_def zone_st_def inode_sp_def settled_def same_map_def)
  ultimately have "file_ready E (i_size r) (st\<lparr>fcache := c\<rparr>) ip"
    using f(1) assms(3,4) free_calm [OF assms(2)] by (simp add: file_ready_def Let_def inode_sp_def)
  then show ?thesis using two_free_calm [OF assms(2) f(2)] assms(3,4,6) by (simp add: file_full_def Let_def inode_sp_def)
qed

lemma rw_chunk_writes:
  assumes "file_full E (rw_fs st) ip" "sp = inode_sp ip (rw_fs st)" "r = inodes (rw_fs st) ip" "I = dev_image E (fcache (rw_fs st))" "position < i_size r" "0 < chunk"
    "chunk \<le> s_block_size sp - position mod s_block_size sp" "vcopy V False usr buff chunk = (chunk, 0)"
  shows "\<exists>c. rw_chunk E V ip position (position mod s_block_size sp) chunk bytes WRITING buff usr (s_block_size sp) st = Some (st\<lparr>rw_fs := (rw_fs st)\<lparr>fcache := c\<rparr>\<rparr>, 0)
    \<and> calm E (fcache (rw_fs st)) c \<and> rdwt_err c = rdwt_err (fcache (rw_fs st)) \<and> file_mapped sp (dev_image E c) r
    \<and> same_map sp r I (dev_image E c) \<and> written sp r position chunk (\<lambda>k. rw_mem st usr (buff + k)) I (dev_image E c)"
proof -
  let ?bs = "s_block_size sp" and ?b = "file_num sp I r position" and ?dev = "i_dev r" and ?s = "rw_fs st" and ?um = "rw_mem st usr"
  have ff: "file_ready E (i_size r) ?s ip" "two_free (fcache ?s)" "file_mapped sp I r" using assms(1-4) by (simp_all add: file_full_def Let_def)
  note f = file_readyD [OF ff(1) assms(2-4)]
  note fo = file_okD [OF f(1) assms(2,3)]
  have lay: "layout_ok E sp" using file_ok_bs(2) [OF f(1) assms(2)] .
  have dv: "?dev \<noteq> NO_DEV" using fo(2,3) by simp
  from read_map_spec [OF f(1) assms(2-4) refl, of position] f(6,7) [OF assms(5)]
  obtain s1 where s1: "read_map E ip position ?s = Some (s1, ?b)" "same_fs E ?s s1" by (auto simp: zone_range_def file_num_def)
  from s1(2) obtain c1 where c1: "s1 = ?s\<lparr>fcache := c1\<rparr>" "calm E (fcache ?s) c1" "dev_image E c1 = I" using assms(4) by (auto simp: same_fs_def)
  have rd1: "rdwt_err c1 = rdwt_err (fcache ?s)" using rdwt_read_map [OF io_okD(2) [OF fo(4)] s1(1)] c1(1) by simp
  have io1: "io_ok E c1" "room c1" "two_free c1" using c1(2) two_free_calm [OF c1(2) ff(2)] by (simp_all add: settled_def)
  let ?w = "if chunk = ?bs then NO_READ else NORMAL" and ?ty = "if position mod ?bs + chunk = ?bs then FULL_DATA_BLOCK else PARTIAL_DATA_BLOCK"
  have "chunk = ?bs \<longrightarrow> position mod ?bs = 0" using assms(7) mod_less_divisor [OF f(4), of position] by linarith
  then have w: "?w = NORMAL \<or> ?w = NO_READ \<and> position mod ?bs = 0 \<and> chunk = io_bsize E ?dev" using f(3) by simp
  obtain c2 n where c2: "get_block E ?dev (int ?b) ?w c1 = Some (c2, n)"
    "calm E c1 (put_block E (Some n) ?ty (set_data n (copy_in ?um buff (position mod ?bs) chunk (b_data (bufs c2 n))) c2))"
    "dev_image E (put_block E (Some n) ?ty (set_data n (copy_in ?um buff (position mod ?bs) chunk (b_data (bufs c2 n))) c2))
      = img_put I ?dev ?b (clip E ?dev (copy_in ?um buff (position mod ?bs) chunk (I ?dev (int ?b))))"
    "rdwt_err (put_block E (Some n) ?ty (set_data n (copy_in ?um buff (position mod ?bs) chunk (b_data (bufs c2 n))) c2)) = rdwt_err c1"
    using fill_block [OF io1 dv w, of ?b ?ty ?um buff] c1(3) by metis
  let ?c = "put_block E (Some n) ?ty (set_data n (copy_in ?um buff (position mod ?bs) chunk (b_data (bufs c2 n))) c2)"
  note cw = chunk_written [OF lay ff(3) f(3,4) fo(7) assms(5,6,7) refl c2(3) dv]
  have "?b \<noteq> 0" by (rule file_num_pos [OF lay ff(3) assms(5)])
  then have "chunk_buf E ip position (position mod ?bs) chunk bytes WRITING ?bs ?s = Some (?s\<lparr>fcache := c2\<rparr>, Some n)"
    using s1(1) c1(1) c2(1) f(2) assms(3,5) by (simp add: chunk_buf_def Let_def fget_def)
  then have "rw_chunk E V ip position (position mod ?bs) chunk bytes WRITING buff usr ?bs st = Some (st\<lparr>rw_fs := ?s\<lparr>fcache := ?c\<rparr>\<rparr>, 0)"
    using assms(3,5,8) by (simp add: rw_chunk_def Let_def fput_def)
  then show ?thesis using cw c2(4) rd1 settled_trans [OF c1(2) c2(2)] by auto
qed

section \<open>Writing\<close>

text \<open>The loop writes every chunk.\<close>

lemma rw_chunks_write:
  assumes "file_full E (rw_fs st) ip" "sp = inode_sp ip (rw_fs st)" "r = inodes (rw_fs st) ip" "I = dev_image E (fcache (rw_fs st))"
    "copies_all V False usr" "buff + nbytes < 2 ^ 32" "rdwt_err (fcache (rw_fs st)) = 0" "position + nbytes \<le> i_size r"
  shows "\<exists>c. rw_chunks E V ip WRITING usr (s_block_size sp) f_size nbytes buff position cum st
      = Some (st\<lparr>rw_fs := (rw_fs st)\<lparr>fcache := c\<rparr>\<rparr>, cum + int nbytes, position + nbytes, 0)
    \<and> calm E (fcache (rw_fs st)) c \<and> rdwt_err c = 0 \<and> file_mapped sp (dev_image E c) r
    \<and> same_map sp r I (dev_image E c) \<and> written sp r position nbytes (\<lambda>k. rw_mem st usr (buff + k)) I (dev_image E c)"
  using assms
proof (induction nbytes arbitrary: buff position cum st I rule: less_induct)
  case (less nbytes)
  let ?bs = "s_block_size sp"
  have ff: "file_ready E (i_size r) (rw_fs st) ip" "file_mapped sp I r" using less.prems(1-4) by (simp_all add: file_full_def Let_def)
  note f = file_readyD [OF ff(1) less.prems(2-4)]
  show ?case
  proof (cases "nbytes = 0")
    case True
    have "calm E (fcache (rw_fs st)) (fcache (rw_fs st))" using file_okD(4,5) [OF f(1) less.prems(2,3)] by (auto simp: settled_def)
    moreover have "rw_chunks E V ip WRITING usr ?bs f_size nbytes buff position cum st = Some (st, cum, position, 0)" using True by (subst rw_chunks.simps) simp
    ultimately show ?thesis using True less.prems(4,7) ff(2) written_none by (intro exI [of _ "fcache (rw_fs st)"]) (simp add: same_map_def)
  next
    case False
    define ch where "ch = chunk_size WRITING nbytes ?bs f_size position"
    have ch: "0 < ch" "ch \<le> nbytes" "ch \<le> ?bs - position mod ?bs" "position < i_size r"
      using False mod_less_divisor [OF f(4), of position] less.prems(8) by (auto simp: ch_def chunk_size_def Let_def min_def)
    obtain c where c: "rw_chunk E V ip position (position mod ?bs) ch nbytes WRITING buff usr ?bs st = Some (st\<lparr>rw_fs := (rw_fs st)\<lparr>fcache := c\<rparr>\<rparr>, 0)"
      "calm E (fcache (rw_fs st)) c" "rdwt_err c = 0" "file_mapped sp (dev_image E c) r" "same_map sp r I (dev_image E c)"
      "written sp r position ch (\<lambda>k. rw_mem st usr (buff + k)) I (dev_image E c)"
      using rw_chunk_writes [OF less.prems(1-4) ch(4,1,3), of V usr buff nbytes] less.prems(5,7) by (auto simp: copies_all_def)
    let ?s = "st\<lparr>rw_fs := (rw_fs st)\<lparr>fcache := c\<rparr>\<rparr>"
    have m: "(buff + ch) mod 2 ^ 32 = buff + ch" "(position + ch) mod 2 ^ 32 = position + ch" using ch f(4,5) less.prems(6,8) by auto
    have e: "rw_chunks E V ip WRITING usr ?bs f_size nbytes buff position cum st
        = rw_chunks E V ip WRITING usr ?bs f_size (nbytes - ch) (buff + ch) (position + ch) (cum + int ch) ?s"
      using False f(4) c(1,3) m by (subst rw_chunks.simps) (simp add: Let_def ch_def [symmetric])
    have fu: "file_full E (rw_fs ?s) ip" using file_full_put [OF less.prems(1) c(2) less.prems(2,3)] c(4,5) less.prems(4) by simp
    have sel: "sp = inode_sp ip (rw_fs ?s)" "r = inodes (rw_fs ?s) ip" "dev_image E c = dev_image E (fcache (rw_fs ?s))" using less.prems(2,3) by (simp_all add: inode_sp_def)
    obtain d where d: "rw_chunks E V ip WRITING usr ?bs f_size (nbytes - ch) (buff + ch) (position + ch) (cum + int ch) ?s
       = Some (?s\<lparr>rw_fs := (rw_fs ?s)\<lparr>fcache := d\<rparr>\<rparr>, cum + int ch + int (nbytes - ch), position + ch + (nbytes - ch), 0)"
      "calm E c d" "rdwt_err d = 0" "file_mapped sp (dev_image E d) r" "same_map sp r (dev_image E c) (dev_image E d)"
      "written sp r (position + ch) (nbytes - ch) (\<lambda>k. rw_mem st usr (buff + ch + k)) (dev_image E c) (dev_image E d)"
      using less.IH [OF _ fu sel less.prems(5), of "nbytes - ch" "buff + ch" "position + ch" "cum + int ch"] ch less.prems(6,8) c(3) by auto
    have "written sp r position (ch + (nbytes - ch)) (\<lambda>k. rw_mem st usr (buff + k)) I (dev_image E d)"
      using written_trans [OF c(6) _ c(5), of "nbytes - ch" "dev_image E d"] d(6) ch(2) less.prems(8) by (simp add: add.assoc)
    moreover have "rw_chunks E V ip WRITING usr ?bs f_size nbytes buff position cum st = Some (st\<lparr>rw_fs := (rw_fs st)\<lparr>fcache := d\<rparr>\<rparr>, cum + int nbytes, position + nbytes, 0)"
      unfolding e d(1) using ch(2) by simp
    ultimately show ?thesis using settled_trans [OF c(2) d(2)] d(3,4) same_map_trans [OF c(5) d(5)] ch(2) by auto
  qed
qed

section \<open>The calls\<close>

text \<open>The calls on a regular file come down to their loops.\<close>

lemma rw_call:
  assumes "fd_open st fd (if writing then W_BIT else R_BIT) f ip" "who_e \<noteq> FS_PM_PROC_NR" "0 < n" "r = inodes (rw_fs st) ip" "sp = inode_sp ip (rw_fs st)" "pos = filp_pos (filps (rw_fs st) f)"
    "writing \<Longrightarrow> and (filp_flags (filps (rw_fs st) f)) O_APPEND = 0 \<and> pos \<le> i_size r \<and> pos \<le> (s_max_size sp + 2 ^ 32 - n) mod 2 ^ 32"
    "u = st\<lparr>rw_fs := (rw_fs st)\<lparr>err_code := EMOLBADF, fcache := (fcache (rw_fs st))\<lparr>rdwt_err := 0\<rparr>\<rparr>\<rparr>"
    "rw_chunks E V ip writing who_e (s_block_size sp) (i_size r) n buffer pos 0 u = Some (t, cnt, p, 0)" "0 < s_block_size sp" "writing \<Longrightarrow> p \<le> i_size r"
    "\<exists>c m. t = u\<lparr>rw_fs := (rw_fs u)\<lparr>fcache := c\<rparr>, rw_mem := m\<rparr>" "rdwt_err (fcache (rw_fs t)) = 0"
  shows "\<exists>st'. read_write E V writing who_e pm_usr fd buffer (int n) st = Some (st', cnt) \<and> rw_mem st' = rw_mem t \<and> fcache (rw_fs st') = fcache (rw_fs t)
    \<and> call_ends f ip p (rw_fs t) (rw_fs st') \<and> call_ends f ip p (rw_fs st) (rw_fs st')"
proof -
  note op = fd_openD [OF assms(1)]
  have sel: "inodes (rw_fs u) = inodes (rw_fs st)" "filps (rw_fs u) = filps (rw_fs st)" "inode_sp ip (rw_fs u) = sp" using assms(5,8) by (simp_all add: inode_sp_def)
  have tr: "rw_transfer E V f ip writing who_e buffer n (s_block_size sp) u = Some (Inr (t, cnt, p, 0))"
    using op assms(4,6,7,9) sel by (auto simp: rw_transfer_def Let_def)
  have "i_type (i_mode (inodes (rw_fs t) ip)) = I_REGULAR" "\<not> i_pipe (inodes (rw_fs t) ip)" using op(4,5) assms(12) sel(1) by auto
  from rw_finish_regular [OF this assms(13,10), of writing p "i_size r" f cnt] assms(11)
  obtain st' where st': "rw_finish f ip writing (s_block_size sp) (i_size r) cnt p 0 t = Some (st', cnt)" "rw_mem st' = rw_mem t"
    "fcache (rw_fs st') = fcache (rw_fs t)" "call_ends f ip p (rw_fs t) (rw_fs st')" by auto
  have s: "inode_sp ip ((rw_fs st)\<lparr>err_code := e\<rparr>) = sp" for e using assms(5) by (simp add: inode_sp_def)
  have "read_write E V writing who_e pm_usr fd buffer (int n) st = Some (st', cnt)"
    using op tr st'(1) assms(2-4) s by (simp add: read_write_def Let_def assms(8))
  moreover have "call_ends f ip p (rw_fs st) (rw_fs st')" using st'(4) assms(8,12) by (auto simp: call_ends_def)
  ultimately show ?thesis using st'(2-4) by blast
qed

lemma do_read_spec:
  assumes "fd_open st fd R_BIT f ip" "who_e \<noteq> FS_PM_PROC_NR" "0 < n" "buffer + n < 2 ^ 32" "copies_all V True who_e"
    "r = inodes (rw_fs st) ip" "file_ready E (i_size r) (rw_fs st) ip" "pos = filp_pos (filps (rw_fs st) f)" "cnt = min n (i_size r - pos)"
    "I = dev_image E (fcache (rw_fs st))"
  shows "\<exists>st'. fs_do_read E V who_e pm_usr fd buffer (int n) st = Some (st', int cnt)
    \<and> rw_mem st' = put_mem who_e buffer cnt (\<lambda>k. file_byte (inode_sp ip (rw_fs st)) I r (pos + k)) (rw_mem st)
    \<and> dev_image E (fcache (rw_fs st')) = I \<and> call_ends f ip (pos + cnt) (rw_fs st) (rw_fs st')"
proof -
  define u where "u = st\<lparr>rw_fs := (rw_fs st)\<lparr>err_code := EMOLBADF, fcache := (fcache (rw_fs st))\<lparr>rdwt_err := 0\<rparr>\<rparr>\<rparr>"
  let ?sp = "inode_sp ip (rw_fs st)" and ?m = "put_mem who_e buffer cnt (\<lambda>k. file_byte (inode_sp ip (rw_fs st)) I r (pos + k)) (rw_mem st)"
  have sel: "?sp = inode_sp ip (rw_fs u)" "r = inodes (rw_fs u) ip" "I = dev_image E (fcache (rw_fs u))" "rdwt_err (fcache (rw_fs u)) = 0" "rw_mem u = rw_mem st"
    using assms(6,10) by (simp_all add: u_def inode_sp_def rdwt_image)
  have rd: "file_ready E (i_size r) (rw_fs u) ip" using file_ready_rdwt [OF assms(7)] by (simp add: u_def)
  have bs: "0 < s_block_size ?sp" using file_readyD(4) [OF rd sel(1-3)] .
  obtain c where c: "rw_chunks E V ip READING who_e (s_block_size ?sp) (i_size r) n buffer pos 0 u
      = Some (u\<lparr>rw_fs := (rw_fs u)\<lparr>fcache := c\<rparr>, rw_mem := ?m\<rparr>, int cnt, pos + cnt, 0)" "dev_image E c = I" "rdwt_err c = 0"
    using rw_chunks_read [OF rd sel(1-3) assms(5,4) sel(4), of pos 0] assms(9) sel(5) by auto
  show ?thesis using rw_call [of st fd False f ip who_e n r ?sp pos u E V buffer _ "int cnt" "pos + cnt" pm_usr, OF _ assms(2,3,6) refl assms(8) _ u_def c(1) bs] assms(1) c(2,3)
    by (auto simp: fs_do_read_def)
qed

lemma file_full_rdwt:
  assumes "file_full E st ip"
  shows "file_full E (st\<lparr>err_code := e, fcache := (fcache st)\<lparr>rdwt_err := w\<rparr>\<rparr>) ip"
  using assms file_ready_rdwt [of E _ st ip w e] by (simp add: file_full_def Let_def inode_sp_def rdwt_image two_free_def users_def)

lemma do_write_spec:
  assumes "fd_open st fd W_BIT f ip" "who_e \<noteq> FS_PM_PROC_NR" "0 < n" "buffer + n < 2 ^ 32" "copies_all V False who_e"
    "r = inodes (rw_fs st) ip" "sp = inode_sp ip (rw_fs st)" "file_full E (rw_fs st) ip" "pos = filp_pos (filps (rw_fs st) f)" "pos + n \<le> i_size r"
    "and (filp_flags (filps (rw_fs st) f)) O_APPEND = 0" "pos \<le> (s_max_size sp + 2 ^ 32 - n) mod 2 ^ 32" "I = dev_image E (fcache (rw_fs st))"
  shows "\<exists>st'. fs_do_write E V who_e pm_usr fd buffer (int n) st = Some (st', int n) \<and> rw_mem st' = rw_mem st
    \<and> written sp r pos n (\<lambda>k. rw_mem st who_e (buffer + k)) I (dev_image E (fcache (rw_fs st'))) \<and> call_ends f ip (pos + n) (rw_fs st) (rw_fs st')
    \<and> file_ready E (i_size r) (rw_fs st') ip"
proof -
  define u where "u = st\<lparr>rw_fs := (rw_fs st)\<lparr>err_code := EMOLBADF, fcache := (fcache (rw_fs st))\<lparr>rdwt_err := 0\<rparr>\<rparr>\<rparr>"
  have sel: "sp = inode_sp ip (rw_fs u)" "r = inodes (rw_fs u) ip" "I = dev_image E (fcache (rw_fs u))" "rdwt_err (fcache (rw_fs u)) = 0" "rw_mem u = rw_mem st"
    using assms(6,7,13) by (simp_all add: u_def inode_sp_def rdwt_image)
  have fu: "file_full E (rw_fs u) ip" using file_full_rdwt [OF assms(8)] by (simp add: u_def)
  then have rd: "file_ready E (i_size r) (rw_fs u) ip" using sel(2) by (simp add: file_full_def Let_def)
  have bs: "0 < s_block_size sp" using file_readyD(4) [OF rd sel(1-3)] .
  obtain c where c: "rw_chunks E V ip WRITING who_e (s_block_size sp) (i_size r) n buffer pos 0 u = Some (u\<lparr>rw_fs := (rw_fs u)\<lparr>fcache := c\<rparr>\<rparr>, int n, pos + n, 0)"
    "calm E (fcache (rw_fs u)) c" "rdwt_err c = 0" "file_mapped sp (dev_image E c) r" "same_map sp r I (dev_image E c)"
    "written sp r pos n (\<lambda>k. rw_mem st who_e (buffer + k)) I (dev_image E c)"
    using rw_chunks_write [OF fu sel(1-3) assms(5,4) sel(4) assms(10), of "i_size r" 0] sel(5) by auto
  let ?t = "u\<lparr>rw_fs := (rw_fs u)\<lparr>fcache := c\<rparr>\<rparr>"
  have ex: "\<exists>d m. ?t = u\<lparr>rw_fs := (rw_fs u)\<lparr>fcache := d\<rparr>, rw_mem := m\<rparr>" by (intro exI [of _ c] exI [of _ "rw_mem u"]) simp
  obtain st' where st': "fs_do_write E V who_e pm_usr fd buffer (int n) st = Some (st', int n)" "rw_mem st' = rw_mem ?t" "fcache (rw_fs st') = c"
    "call_ends f ip (pos + n) (rw_fs ?t) (rw_fs st')" "call_ends f ip (pos + n) (rw_fs st) (rw_fs st')"
    using rw_call [of st fd True f ip who_e n r sp pos u E V buffer ?t "int n" "pos + n" pm_usr, OF _ assms(2,3,6,7,9) _ u_def c(1) bs _ ex] assms(1,10,11,12) c(3)
    by (auto simp: fs_do_write_def)
  have "file_full E (rw_fs ?t) ip" using file_full_put [OF fu c(2) sel(1,2)] c(4,5) sel(3) by simp
  then have "file_ready E (i_size r) (rw_fs ?t) ip" using sel(2) by (simp add: file_full_def Let_def)
  moreover have "calm E (fcache (rw_fs ?t)) (fcache (rw_fs st'))" using c(2) st'(3) by (simp add: settled_def)
  ultimately have "file_ready E (i_size r) (rw_fs st') ip" using file_ready_ends [OF _ st'(4)] st'(3) by simp
  then show ?thesis using st' c(6) sel(5) by auto
qed

lemma ends_pos: "call_ends f ip p s s' \<Longrightarrow> filp_pos (filps s' f) = p"
  by (simp add: call_ends_def)

text \<open>A descriptor stays open during calls on another one.\<close>

lemma fd_open_ends:
  assumes "fd_open st fd bits g ip" "call_ends f ip p (rw_fs st) (rw_fs st')" "g \<noteq> f"
  shows "fd_open st' fd bits g ip" "filps (rw_fs st') g = filps (rw_fs st) g"
proof -
  have e: "fprocs (rw_fs st') = fprocs (rw_fs st)" "cur_fp (rw_fs st') = cur_fp (rw_fs st)" "filps (rw_fs st') = (filps (rw_fs st))(f := (filps (rw_fs st) f)\<lparr>filp_pos := p\<rparr>)"
    "inodes (rw_fs st') ip = (inodes (rw_fs st) ip)\<lparr>i_seek := False, i_update := i_update (inodes (rw_fs st') ip), i_dirt := True\<rparr>"
    using assms(2) unfolding call_ends_def by (blast, blast, blast, metis fun_upd_same)
  have "i_mode (inodes (rw_fs st') ip) = i_mode (inodes (rw_fs st) ip)" "i_pipe (inodes (rw_fs st') ip) = i_pipe (inodes (rw_fs st) ip)" by (subst e(4), simp)+
  moreover show "filps (rw_fs st') g = filps (rw_fs st) g" using e(3) assms(3) by simp
  ultimately show "fd_open st' fd bits g ip" using assms(1) e(1,2) by (simp add: fd_open_def Let_def)
qed

text \<open>C13: A call of \<open>read\<close> on a regular file whose zones are in reach, on a device that works and is mounted for writing, with buffers for a request and copies that succeed, delivers the bytes of the
  file from the position of the descriptor on, as many as were asked for or as the file has left, returns that count, moves the position by it, and
  leaves every block of every device as it is.\<close>

theorem read_delivers_file:
  assumes "fd_open st fd R_BIT f ip" "who_e \<noteq> FS_PM_PROC_NR" "0 < n" "buffer + n < 2 ^ 32" "copies_all V True who_e"
    "r = inodes (rw_fs st) ip" "file_ready E (i_size r) (rw_fs st) ip" "pos = filp_pos (filps (rw_fs st) f)" "cnt = min n (i_size r - pos)"
    "I = dev_image E (fcache (rw_fs st))"
  shows "\<exists>st'. fs_do_read E V who_e pm_usr fd buffer (int n) st = Some (st', int cnt)
    \<and> rw_mem st' = put_mem who_e buffer cnt (\<lambda>k. file_byte (inode_sp ip (rw_fs st)) I r (pos + k)) (rw_mem st)
    \<and> dev_image E (fcache (rw_fs st')) = I \<and> filp_pos (filps (rw_fs st') f) = pos + cnt"
  using do_read_spec [OF assms] ends_pos by metis

text \<open>C14: A call of \<open>write\<close>, not in append mode, within a regular file whose blocks exist, with a device, buffers and copies that work, puts the bytes of the process into the file at the position of the descriptor,
  returns their number, and moves the position by it; the other bytes of the file and every block outside the range that was written, of this and of every
  other device, keep their contents.\<close>

theorem write_changes_range:
  assumes "fd_open st fd W_BIT f ip" "who_e \<noteq> FS_PM_PROC_NR" "0 < n" "buffer + n < 2 ^ 32" "copies_all V False who_e"
    "r = inodes (rw_fs st) ip" "sp = inode_sp ip (rw_fs st)" "file_full E (rw_fs st) ip" "pos = filp_pos (filps (rw_fs st) f)" "pos + n \<le> i_size r"
    "and (filp_flags (filps (rw_fs st) f)) O_APPEND = 0" "pos \<le> (s_max_size sp + 2 ^ 32 - n) mod 2 ^ 32" "I = dev_image E (fcache (rw_fs st))"
  shows "\<exists>st'. fs_do_write E V who_e pm_usr fd buffer (int n) st = Some (st', int n) \<and> filp_pos (filps (rw_fs st') f) = pos + n
    \<and> written sp r pos n (\<lambda>k. rw_mem st who_e (buffer + k)) I (dev_image E (fcache (rw_fs st')))"
  using do_write_spec [OF assms] ends_pos by metis

text \<open>C12: What is written over is what is read: when one descriptor, not in append mode, writes over a range inside a regular file, all of whose blocks exist
  on a device that works, with buffers for the requests and copies that succeed, the whole range is written, and reading it through another descriptor that
  stands at its start delivers to the reader the bytes that the writer had in its memory.  Writes that make the file grow or fill a hole are not covered.\<close>

theorem write_then_read:
  assumes "fd_open st fd W_BIT f ip" "fd_open st fd' R_BIT g ip" "g \<noteq> f" "who_e \<noteq> FS_PM_PROC_NR" "reader \<noteq> FS_PM_PROC_NR" "0 < n"
    "buffer + n < 2 ^ 32" "buffer' + n < 2 ^ 32" "copies_all V False who_e" "copies_all V True reader"
    "r = inodes (rw_fs st) ip" "sp = inode_sp ip (rw_fs st)" "file_full E (rw_fs st) ip" "pos = filp_pos (filps (rw_fs st) f)" "filp_pos (filps (rw_fs st) g) = pos"
    "pos + n \<le> i_size r" "and (filp_flags (filps (rw_fs st) f)) O_APPEND = 0" "pos \<le> (s_max_size sp + 2 ^ 32 - n) mod 2 ^ 32"
  shows "\<exists>s t. fs_do_write E V who_e pm_usr fd buffer (int n) st = Some (s, int n) \<and> fs_do_read E V reader pm_usr fd' buffer' (int n) s = Some (t, int n)
    \<and> (\<forall>k. k < n \<longrightarrow> rw_mem t reader (buffer' + k) = rw_mem st who_e (buffer + k))"
proof -
  let ?I = "dev_image E (fcache (rw_fs st))" and ?um = "\<lambda>k. rw_mem st who_e (buffer + k)"
  obtain s where s: "fs_do_write E V who_e pm_usr fd buffer (int n) st = Some (s, int n)" "written sp r pos n ?um ?I (dev_image E (fcache (rw_fs s)))"
    "call_ends f ip (pos + n) (rw_fs st) (rw_fs s)" "file_ready E (i_size r) (rw_fs s) ip"
    using do_write_spec [OF assms(1,4,6,7,9,11-14,16-18) refl] by blast
  let ?J = "dev_image E (fcache (rw_fs s))" and ?r = "inodes (rw_fs s) ip"
  have e: "?r = r\<lparr>i_seek := False, i_update := i_update ?r, i_dirt := True\<rparr>" "supers (rw_fs s) = supers (rw_fs st)"
    using s(3) assms(11) unfolding call_ends_def by (metis fun_upd_same, blast)
  have z: "i_size ?r = i_size r" "i_sp ?r = i_sp r" by (subst e(1), simp)+
  then have sp: "inode_sp ip (rw_fs s) = sp" using e(2) assms(11,12) by (simp add: inode_sp_def)
  note o = fd_open_ends [OF assms(2) s(3) assms(3)]
  have "n = min n (i_size ?r - pos)" using z(1) assms(16) by simp
  then obtain t where t: "fs_do_read E V reader pm_usr fd' buffer' (int n) s = Some (t, int n)"
    "rw_mem t = put_mem reader buffer' n (\<lambda>k. file_byte sp ?J ?r (pos + k)) (rw_mem s)"
    using do_read_spec [OF o(1) assms(5,6,8,10) refl _ refl _ refl, of E n pm_usr] s(4) z(1) o(2) assms(15) sp by auto
  have "rw_mem t reader (buffer' + k) = ?um k" if "k < n" for k
    using s(2) that assms(16) t(2) marked_map(6) [OF e(1)] by (simp add: written_def put_mem_def)
  then show ?thesis using s(1) t(1) by blast
qed

section \<open>A file of two blocks\<close>

text \<open>A file of 1500 bytes in zones 6 and 7, the first full of \<open>A\<close>, the second of \<open>B\<close>, open for writing and for reading at position 1022.\<close>

definition fs_text_disk :: "int \<Rightarrow> int \<Rightarrow> block" where
  "fs_text_disk dev b = (if dev = 3 \<and> b = 6 then (\<lambda>_. 65) else if dev = 3 \<and> b = 7 then (\<lambda>_. 66) else fs_disk dev b)"

definition fs_text_ino :: inode where
  "fs_text_ino = fs_ino\<lparr>i_mode := 0x8180, i_size := 1500, i_zone := [6, 7, 0, 0, 0, 0, 0, 0, 0, 0]\<rparr>"

definition fs_text_fs :: fs_st where
  "fs_text_fs = (fs_mounted fs_text_disk)\<lparr>inodes := (\<lambda>_. fs_text_ino), fprocs := (\<lambda>_. fs_proc\<lparr>fp_filp := [0 \<mapsto> 0, 1 \<mapsto> 1]\<rparr>),
     filps := (\<lambda>_. fs_filp)(0 := \<lparr>filp_mode = 2, filp_flags = 0, filp_count = 1, filp_ino = 4, filp_pos = 1022\<rparr>,
       1 := \<lparr>filp_mode = 4, filp_flags = 0, filp_count = 1, filp_ino = 4, filp_pos = 1022\<rparr>)\<rparr>"

definition fs_text :: rw_st where
  "fs_text = \<lparr>rw_fs = fs_text_fs, rw_mem = (\<lambda>_ a. word_of_nat a), rdahed_inode = None, rdahedpos = 0, cum_io_partial = (\<lambda>_. 0)\<rparr>"

definition fs_sys_ok :: rw_sys where
  "fs_sys_ok = \<lparr>vcopy = (\<lambda>_ _ _ c. (c, 0)), dev_rw = (\<lambda>_ _ _ _ _ _ _ s. Some (s, 0))\<rparr>"

lemma fs_text_sel: "rw_fs fs_text = fs_text_fs" "inodes fs_text_fs ip = fs_text_ino" "inode_sp ip fs_text_fs = fs_sp" "fcache fs_text_fs = fs_pool fs_text_disk"
  "supers fs_text_fs = supers (fs_mounted fs_text_disk)" "filp_pos (filps fs_text_fs 0) = 1022" "filp_pos (filps fs_text_fs 1) = 1022" "filp_flags (filps fs_text_fs 0) = 0"
  by (simp_all add: fs_text_def fs_text_fs_def inode_sp_def fs_mounted_def fs_text_ino_def fs_ino_def)

lemma fs_text_ino_sel: "i_size fs_text_ino = 1500" "i_ndzones fs_text_ino = 7" "i_nindirs fs_text_ino = 256" "i_dev fs_text_ino = 3" "i_sp fs_text_ino = 0"
  "i_zone fs_text_ino = [6, 7, 0, 0, 0, 0, 0, 0, 0, 0]" "zone_range fs_text_ino = 65799" "s_block_size fs_sp = 1024"
  by (simp_all add: fs_text_ino_def fs_ino_def zone_range_def fs_sp_def)

lemma fs_text_open: "fd_open fs_text 0 W_BIT 0 4" "fd_open fs_text 1 R_BIT 1 4"
  by (simp_all add: fd_open_def MNX_OPEN_MAX_def fs_text_def fs_text_fs_def fs_mounted_def fs_text_ino_def fs_ino_def i_type_def)

lemma fs_text_copies: "copies_all fs_sys_ok to_user usr"
  by (simp add: copies_all_def fs_sys_ok_def)

lemma fs_zone_of: "zone_of fs_sp p = p div 1024"
  by (simp add: zone_of_def fs_sp_def)

lemma fs_text_slot: "islot fs_sp I fs_text_ino k = 0"
  by (auto simp: islot_def ind_ref_def fs_text_ino_sel less_2_cases_iff)

lemma fs_text_refs: "zone_ref fs_sp I fs_text_ino z = (if z = 0 then 6 else if z = 1 then 7 else 0)"
proof (cases "z < 7")
  case True
  then have "z \<in> {0, 1, 2, 3, 4, 5, 6}" by auto
  then show ?thesis by (auto simp: zone_ref_def fs_text_ino_sel)
next
  case False
  then show ?thesis by (simp add: zone_ref_slot fs_text_ino_sel fs_text_slot ind_ref_def)
qed

lemma fs_text_mapped: "file_mapped fs_sp I fs_text_ino"
proof -
  have "tree_ok fs_sp I fs_text_ino" by (simp add: tree_ok_def fs_text_slot)
  moreover have "data_zone fs_sp 6" "data_zone fs_sp 7" by (simp_all add: data_zone_def fs_sp_def)
  ultimately have "zones_apart fs_sp I fs_text_ino" by (auto simp: zones_apart_def fs_text_refs fs_text_slot)
  moreover have "q div 1024 < 2" if "q < 1500" for q :: nat using that by (simp add: less_mult_imp_div_less)
  ultimately show ?thesis by (fastforce simp: file_mapped_def fs_zone_of fs_text_refs fs_text_ino_sel)
qed

lemma fs_free: "card (free_bufs (fs_pool dk)) = NR_BUFS"
proof -
  have "free_bufs (fs_pool dk) = {0 ..< NR_BUFS}" by (auto simp: free_bufs_def users_def fs_pool_def buf_pool_def fs_buf_def)
  then show ?thesis by simp
qed

lemma fs_text_full: "file_full fs_E fs_text_fs 4"
proof -
  let ?I = "dev_image fs_E (fs_pool fs_text_disk)"
  have "file_ok fs_E (fs_mounted fs_text_disk) 4" by (rule fs_file_ok) (simp add: fs_text_disk_def fs_disk_def)
  then have ok: "file_ok fs_E fs_text_fs 4"
    by (simp add: file_ok_def Let_def fs_text_sel fs_mounted_sel zone_st_def fs_text_ino_sel) (simp add: fs_ino_def fs_sp_def)
  have "zone_of fs_sp p < zone_range fs_text_ino \<and> legal_path fs_sp ?I fs_text_ino (zone_of fs_sp p)" if "p < 1500" for p
    using fs_text_mapped [of ?I] apart_legal [of fs_sp ?I fs_text_ino "zone_of fs_sp p"] that by (simp add: file_mapped_def fs_text_ino_sel)
  then have "file_ready fs_E 1500 fs_text_fs 4"
    using ok fs_free [of fs_text_disk] by (simp add: file_ready_def Let_def fs_text_sel fs_text_ino_sel fs_E_def NR_BUFS_def) (simp add: is_block_spec_def fs_text_ino_def fs_ino_def i_type_def)
  then show ?thesis using fs_text_mapped fs_two_free by (simp add: file_full_def Let_def fs_text_sel fs_text_ino_sel)
qed

lemma fs_text_byte: "p < 1500 \<Longrightarrow> file_byte fs_sp (dev_image fs_E (fs_pool fs_text_disk)) fs_text_ino p = (if p < 1024 then 65 else 66)"
proof -
  assume p: "p < 1500"
  let ?I = "dev_image fs_E (fs_pool fs_text_disk)"
  have i: "?I 3 6 = clip fs_E 3 (\<lambda>_. 65)" "?I 3 7 = clip fs_E 3 (\<lambda>_. 66)" using fs_image [of 3 fs_text_disk] by (simp_all add: fs_text_disk_def)
  have d: "p div 1024 = (if p < 1024 then 0 else 1)" using p div_nat_eqI [of 1 1024 p] by auto
  have "file_num fs_sp ?I fs_text_ino p = (if p < 1024 then 6 else 7)"
    using d by (simp add: file_num_def fs_zone_of fs_text_refs block_of_def zone_block_def) (simp add: fs_sp_def)
  then show ?thesis using i by (simp add: file_byte_def Let_def fs_text_ino_sel clip_def fs_E_def)
qed

lemma map_shift: "map f [a ..< a + n] = map (\<lambda>k. f (a + k)) [0 ..< n]"
  by (simp add: list_eq_iff_nth_eq)

theorem read_delivers_file_witness:
  "\<exists>st'. fs_do_read fs_E fs_sys_ok 30 0 1 100 4 fs_text = Some (st', 4) \<and> map (rw_mem st' 30) [100 ..< 104] = [65, 65, 66, 66] \<and> filp_pos (filps (rw_fs st') 1) = 1026"
proof -
  have "file_ready fs_E 1500 fs_text_fs 4" using fs_text_full by (simp add: file_full_def Let_def fs_text_sel fs_text_ino_sel)
  then obtain st' where s: "fs_do_read fs_E fs_sys_ok 30 0 1 100 4 fs_text = Some (st', 4)" "filp_pos (filps (rw_fs st') 1) = 1026"
    "rw_mem st' = put_mem 30 100 4 (\<lambda>k. file_byte fs_sp (dev_image fs_E (fs_pool fs_text_disk)) fs_text_ino (1022 + k)) (rw_mem fs_text)"
    using read_delivers_file [OF fs_text_open(2), of 30 4 100 fs_sys_ok fs_text_ino fs_E 1022 4 "dev_image fs_E (fs_pool fs_text_disk)" 0] by (auto simp: fs_text_copies fs_text_sel fs_text_ino_sel simp del: One_nat_def)
  have "rw_mem st' 30 (100 + k) = (if k < 2 then 65 else 66)" if "k < 4" for k using that fs_text_byte [of "1022 + k"] by (simp add: s(3) put_mem_def)
  then have "map (rw_mem st' 30) [100 ..< 100 + 4] = map (\<lambda>k. if k < 2 then 65 else 66) [0 ..< 4]" unfolding map_shift by simp
  moreover have "map (\<lambda>k. if k < 2 then 65 else 66) [0 ..< 4] = [65, 65, 66, 66 :: 8 word]" by code_simp
  ultimately have "map (rw_mem st' 30) [100 ..< 104] = [65, 65, 66, 66]" by simp
  then show ?thesis using s(1,2) by (intro exI conjI)
qed

theorem write_changes_range_witness:
  "\<exists>st'. fs_do_write fs_E fs_sys_ok 30 0 0 100 4 fs_text = Some (st', 4)
    \<and> map (file_byte fs_sp (dev_image fs_E (fcache (rw_fs st'))) fs_text_ino) [1021 ..< 1027] = [65, 100, 101, 102, 103, 66]"
proof -
  have m: "s_max_size fs_sp = 1000000" by (simp add: fs_sp_def)
  obtain st' where s: "fs_do_write fs_E fs_sys_ok 30 0 0 100 4 fs_text = Some (st', 4)"
    "written fs_sp fs_text_ino 1022 4 (\<lambda>k. rw_mem fs_text 30 (100 + k)) (dev_image fs_E (fs_pool fs_text_disk)) (dev_image fs_E (fcache (rw_fs st')))"
    using write_changes_range [OF fs_text_open(1), of 30 4 100 fs_sys_ok fs_text_ino fs_sp fs_E 1022 "dev_image fs_E (fs_pool fs_text_disk)" 0] by (auto simp: fs_text_copies fs_text_sel fs_text_ino_sel fs_text_full m)
  let ?f = "file_byte fs_sp (dev_image fs_E (fcache (rw_fs st'))) fs_text_ino"
  have "?f (1021 + k) = (if k = 0 then 65 else if k < 5 then word_of_nat (99 + k) else 66)" if "k < 6" for k
  proof -
    have "1021 + k < i_size fs_text_ino" using that by (simp add: fs_text_ino_sel)
    then have "?f (1021 + k) = (if 1022 \<le> 1021 + k \<and> 1021 + k < 1022 + 4 then rw_mem fs_text 30 (100 + (1021 + k - 1022)) else if 1021 + k < 1024 then 65 else 66)"
      using s(2) fs_text_byte [of "1021 + k"] unfolding written_def fs_text_ino_sel(1) by metis
    then show ?thesis using that by (auto simp: fs_text_def)
  qed
  then have "map ?f [1021 ..< 1021 + 6] = map (\<lambda>k. if k = 0 then 65 else if k < 5 then word_of_nat (99 + k) else 66) [0 ..< 6]" unfolding map_shift by simp
  moreover have "map (\<lambda>k. if k = 0 then 65 else if k < 5 then word_of_nat (99 + k) else 66) [0 ..< 6] = [65, 100, 101, 102, 103, 66 :: 8 word]" by code_simp
  ultimately have "map ?f [1021 ..< 1027] = [65, 100, 101, 102, 103, 66]" by simp
  then show ?thesis using s(1) by (intro exI conjI)
qed

theorem write_then_read_witness:
  "\<exists>s t. fs_do_write fs_E fs_sys_ok 30 0 0 100 4 fs_text = Some (s, 4) \<and> fs_do_read fs_E fs_sys_ok 31 0 1 200 4 s = Some (t, 4) \<and> map (rw_mem t 31) [200 ..< 204] = [100, 101, 102, 103]"
proof -
  have m: "s_max_size fs_sp = 1000000" by (simp add: fs_sp_def)
  obtain s t where s: "fs_do_write fs_E fs_sys_ok 30 0 0 100 4 fs_text = Some (s, 4)" "fs_do_read fs_E fs_sys_ok 31 0 1 200 4 s = Some (t, 4)"
    "\<forall>k. k < 4 \<longrightarrow> rw_mem t 31 (200 + k) = rw_mem fs_text 30 (100 + k)"
    using write_then_read [OF fs_text_open, of 30 31 4 100 200 fs_sys_ok fs_text_ino fs_sp fs_E 1022 0] by (auto simp: fs_text_copies fs_text_sel fs_text_ino_sel fs_text_full m simp del: One_nat_def)
  then have "map (rw_mem t 31) [200 ..< 200 + 4] = map (\<lambda>k. word_of_nat (100 + k)) [0 ..< 4]" unfolding map_shift by (simp add: fs_text_def)
  moreover have "map (\<lambda>k. word_of_nat (100 + k)) [0 ..< 4] = [100, 101, 102, 103 :: 8 word]" by code_simp
  ultimately have "map (rw_mem t 31) [200 ..< 204] = [100, 101, 102, 103]" by simp
  then show ?thesis using s(1,2) by (intro exI conjI)
qed

end
