(* ===== verification/Spec2Isabelle.thy ===== *)
theory Spec2Isabelle
  imports Ipc_Step Dvs_Admin Migrate Clock Pm_Loop Slots_Safety Slot_Members Fs_Write_Props
begin

text \<open>
  MOL-IPC (M3-IPC) is a Linux kernel module that gives the processes of a distributed
  virtualisation system (DVS) the message passing of MINIX 3, on one node and between nodes.  A
  Distributed Container (DC) is a set of processes that may span several nodes; each process
  has a slot of its DC's table and an endpoint.  Calls are synchronous: a sender and a receiver meet,
  the first to come sleeps.  A message for another node is turned into a command, queued
  on the sender proxy of that node (a user process that calls \<open>mm_get2rmt\<close> in a loop and
  writes to the network) and handed to the module of the other node by its receiver proxy
  (\<open>mm_put2lcl\<close>), whose acknowledgement comes back the same way.

  \<^bold>\<open>Theories.\<close>
  \<^item> \<open>Prelude\<close>: flag words, C arithmetic, integers in byte buffers, user memory, Linux lists.
  \<^item> \<open>Endpoint\<close>: endpoint arithmetic (\<open>src/kernel/minix/endpoint.h\<close>).
  \<^item> \<open>Sys_Map\<close>: the system bit maps and the interface \<open>bitset\<close>, interpreted on
    \<open>sys_map_t\<close> and on flag words.
  \<^item> \<open>Kernel_State\<close>: the records of \<open>struct proc\<close>, \<open>priv\<close>, \<open>cmd_t\<close>, DC, node,
    proxy pair, DVS parameters, the state \<open>kstate\<close> of the module and the small macros.
  \<^item> \<open>Kernel_Ops\<close>: the layout of messages and commands, \<open>init_proc_desc\<close>, the wake-up and
    notification macros.
  \<^item> \<open>User_Copy\<close>: the page-wise copies of \<open>mm_utils.c\<close>; \<open>copy_usr2usr\<close> equals one block
    write and touches nothing else.
  \<^item> \<open>Sleep\<close>: \<open>sleep_proc\<close> cut at its wait, the program points, \<open>check_caller\<close>.
  \<^item> \<open>Proxy_Queue\<close>: the interface \<open>fifo\<close> of the three kinds of queue, \<open>sproxy_enqueue\<close> and the
    acknowledgements of \<open>mm_acks.c\<close>.
  \<^item> \<open>Scenario\<close>: a small running DVS on which the witnesses evaluate.
  \<^item> \<open>Ipc_Send\<close>, \<open>Ipc_Receive\<close>, \<open>Ipc_Sendrec\<close>, \<open>Ipc_Notify\<close>, \<open>Vcopy\<close>: the primitives
    of \<open>mm_ipc.c\<close>, each with its functional behaviour, error paths and timeouts.
  \<^item> \<open>Unbind\<close>, \<open>Nodes\<close>, \<open>Bind\<close>, \<open>Dvs_Admin\<close>: the administration calls of
    \<open>mm_hyper.c\<close> and the flushes of \<open>mm_utils.c\<close>.
  \<^item> \<open>Migrate\<close>: process migration (\<open>mm_migrate.c\<close>): start, rollback, commit on the node the
    process leaves and on the node it enters, and the flushes of those who wait for it.
  \<^item> \<open>Rproxy\<close>, \<open>Sproxy\<close>: \<open>mm_put2lcl\<close> and \<open>mm_get2rmt\<close>.
  \<^item> \<open>Timers\<close>, \<open>Clock\<close>, \<open>Pm_Timers\<close>: the watchdog timer library (\<open>src/lib/timers\<close>) as a refinement of
    sorted lists, with the contract \<open>watchdog\<close> of its callbacks, and its two clients: the alarms of
    SYSTASK (\<open>src/tasks/systask/clock.c\<close>, \<open>do_setalarm.c\<close>) and of the process manager
    (\<open>src/servers/pm/timers.c\<close>, \<open>signal.c\<close>), each a transition system of its own.
  \<^item> \<open>Pm_Process\<close>, \<open>Pm_Calls\<close>, \<open>Pm_Loop\<close>: the process manager (\<open>src/servers/pm\<close>): the life of processes (fork, exit, wait), its
    other calls and its main loop as a function of one message.  The interface \<open>pm_frame\<close> says which changes of a slot a relation between two
    tables must tolerate; interpreted twice, it gives the uniqueness of process identifiers and the safety of user
    identities over every round.
  \<^item> \<open>Slots\<close>, \<open>Slots_Safety\<close>: how the SYSTASKs of a DC share its process slots
    (\<open>src/tasks/systask/slots.c\<close>, \<open>get_free_proc\<close> of \<open>do_fork.c\<close>): the handlers of requests and donations
    on one node, and all nodes together over the totally ordered multicast, with the proof that no two own one slot.
  \<^item> \<open>Slot_Members\<close>: the same when the membership changes: a node joins or leaves, the network splits or
    heals; survivors of a departure agree, and where a split gives a slot two owners.
  \<^item> \<open>Fs_Cache\<close>, \<open>Fs_Store\<close>: the buffer cache of the file server (\<open>src/servers/fs/cache.c\<close>), with the invariants of its LRU and hash
    chains and its Shell sort; the interface \<open>block_store\<close> is what its clients rely on, interpreted on \<open>get_block\<close> and \<open>put_block\<close>.
  \<^item> \<open>Fs_Super\<close>, \<open>Fs_Map\<close>, \<open>Fs_Write\<close>: super blocks, bit maps and zones (\<open>super.c\<close>, \<open>alloc_zone\<close> and \<open>free_zone\<close>), the map from file positions
    to blocks (\<open>read_map\<close> of \<open>read.c\<close>, \<open>write.c\<close>) and the proof that \<open>write_map\<close> changes one entry of it.
  \<^item> \<open>Fs_Props\<close>: the properties of these parts, with a small mounted file system as their witness.
  \<^item> \<open>Fs_Inode\<close>, \<open>Fs_Inode_Props\<close>: the inode table, inodes on the device in the three formats, truncation (\<open>inode.c\<close>, \<open>link.c\<close>) and the
    reading of a super block; what is written is read back, an inode is in the table once, an accepted super block has sane sizes.
  \<^item> \<open>Fs_Lock\<close>: descriptors and open files (\<open>filedes.c\<close>), record locks (\<open>lock.c\<close>), \<open>close\<close>, \<open>lseek\<close>, \<open>dup\<close>, \<open>fcntl\<close>; the lock
    table refines a set of locked bytes with exclusion, and the reference counts of open files are exact.
  \<^item> \<open>Fs_Path\<close>: components of paths, directories, the following of paths with mount points and symbolic links (\<open>path.c\<close>), permissions
    (\<open>protect.c\<close>), opening and making files (\<open>open.c\<close>); looking up a name is looking it up in the list of entries, and two errors that
    come from mixing positive and negative error codes.
  \<^item> \<open>Fs_Blocks\<close>, \<open>Fs_Link\<close>: the blocks of a file, and the calls that link, unlink, rename and truncate files and remove directories (\<open>link.c\<close>,
    \<open>fetch_name\<close>); an unlinked name leaves the list of entries and nothing else, and a directory with entries is never removed.
  \<^item> \<open>Fs_Read\<close>, \<open>Fs_Read_Props\<close>, \<open>Fs_Write_Props\<close>: \<open>read\<close> and \<open>write\<close> with their chunks and the read-ahead (\<open>read.c\<close>, \<open>do_write\<close>).  The interface
    \<open>buffer_sink\<close> is what a scattered request may do to the cache, interpreted on the transfer of a block and on its release.  A read delivers the
    bytes of the file, a write changes its range and no other block, and what is written is what is read.
  \<^item> \<open>Ipc_Step\<close>: the module as a transition system: threads call, sleep, are woken and go on, in any order.
  \<^item> this theory: properties that span components: the way of a message on one node, between nodes and after its receiver has migrated,
    and a run in which the sender proxy falls asleep on a queued command.

  \<^bold>\<open>State and effects.\<close>  A call is a function from a \<open>kstate\<close> to a \<open>kstate\<close> and an outcome:
  it returns a code, sleeps at a program point with its live local variables, or goes on at a
  program point.  The locks themselves are not state: a part between two program points is one step, and what other threads
  do while a call exchanges one lock for another inside such a part is placed before or after it.  The walk of \<open>mm_get2rmt\<close> over the
  queue of the proxy, which gives up the proxy's lock at every entry, is cut after each entry it skips; and since a sleeper takes its lock
  after its wait, a wait that timed out may find that it has been woken meanwhile.  Queues are lists of
  descriptor references, pointers to descriptors are values of type \<open>pref\<close>.  Flag words
  are 32-bit words; the ABI is ILP32, a message has 36 bytes and a command header 88.

  \<^bold>\<open>Parameters.\<close>  Linux is a parameter: which user pages are mapped, how many bytes a copy to or from
  user space leaves, the clock, the CPU, signals and affinity (record \<open>env\<close>), the result of a
  wait (\<open>wait_result\<close>), whether files and memory can be had (\<open>dvs_env\<close>, \<open>dc_env\<close>), the
  threads of a process, the interval timer (\<open>clock_env\<close>), SYSTASK's answers to PM (\<open>pm_env\<close>)
  and the transfers of the disk drivers (\<open>io_env\<close>), the copies and the character devices of the file server (\<open>rw_sys\<close>).
  The theorems about files and directories are about a device every transfer of which succeeds (\<open>io_good\<close>, for vectors of any length; \<open>io_works\<close>
  asks it only for the 64 blocks a vector can hold) and a file system mounted for writing (\<open>zones_ok\<close>).
  The Spread toolkit is a parameter too: what a multicast returns (\<open>sl_env\<close>) and the order of the messages.

  \<^bold>\<open>Loops.\<close>  Loops over queues and tables are structural recursion or \<open>fold\<close>; the copy
  loops and \<open>proc_align\<close> have a termination proof by a measure; a loop that sleeps or may not
  end is a sequence of steps through its program point, so no fuel is needed.  The walks along a chain
  of timers or of buffers, the following of a path, and the climb to the root in \<open>rename\<close> are partial functions with values in \<open>option\<close>; on a proper chain they return.
  The loop of \<open>read_write\<close> ends because every chunk has at least one byte.

  \<^bold>\<open>Not modelled.\<close>  Lock order and deadlock freedom; \<open>/proc\<close> and debugfs views; the stubs that install
  the system calls; \<open>do_proxies_unbind\<close> and \<open>mm_dvs_end\<close>, which take a mutex they already hold;
  the code under \<open>MOL_AUTOBIND\<close>, \<open>MOLAUTOFORK\<close> and \<open>WARN_PROC\<close>, which the build does not
  define; the exchange of slot tables after a join or a merge (\<open>sp_put_status\<close>, \<open>sp_merge_status\<close>) and \<open>sp_syscall\<close>; a signal handler that interrupts SYSTASK in the middle of a request; the user-space
  proxies; the rest of the file server (pipes, devices, mounting, \<open>stat\<close>, its main loop) and of the tasks and servers, and the
  FUSE file systems, which are clients of the module.
\<close>

section \<open>A message from one process to another\<close>

text \<open>The queued sender does not change what the receiver's checks read.\<close>

definition queued_send :: "pref \<Rightarrow> pref \<Rightarrow> int \<Rightarrow> addr \<Rightarrow> kstate \<Rightarrow> kstate" where
  "queued_send c d dst_ep m s =
    upd c (\<lambda>x. x\<lparr>p_pseudosem := - 1, p_rcode := OK\<rparr>) (LIST_ADD_TAIL c d
      (upd c (\<lambda>x. x\<lparr>p_sendto := dst_ep, p_umsg := m\<rparr>) (set_rts BIT_SENDING c
        (upd c (\<lambda>x. x\<lparr>p_rcode := OK\<rparr>) (upd c (\<lambda>x. x\<lparr>p_umsg := m\<rparr>) s)))))"

lemma queued_send_run:
  assumes ready: "call_ready s tid c dst_ep" and l: "l = mk_locals s c dst_ep m t"
    and ok: "dst_ok s l" "\<not> IT_IS_REMOTE s (l_peer l)"
    and w: "\<not> waiting_for s (l_peer l) (p_endpoint (procs s c))" and t: "t \<noteq> TIMEOUT_NOWAIT"
  shows "mm_mini_send E tid dst_ep m t s = (queued_send c (l_peer l) dst_ep m s, Block (PP_send_lcl l))"
    "l_peer l \<noteq> c"
proof -
  let ?s1 = "upd c (\<lambda>x. x\<lparr>p_rcode := OK\<rparr>) (upd c (\<lambda>x. x\<lparr>p_umsg := m\<rparr>) s)"
  show ne: "l_peer l \<noteq> c" using dst_ok_ne [OF ready] ok(1) unfolding l by blast
  have lsel: "l_caller l = c" "l_msg l = m" "l_ep l = dst_ep" "l_timeout l = t" using l by simp_all
  have "mm_mini_send E tid dst_ep m t s = send_local E l ?s1"
    using ne ok mm_mini_send_ready [OF ready, of E m t] lsel l
    by (simp add: send_replay_local IT_IS_REMOTE_def)
  moreover have "\<not> waiting_for ?s1 (l_peer l) (p_endpoint (procs ?s1 (l_caller l)))"
    using w ne lsel by (simp add: waiting_for_def)
  ultimately show "mm_mini_send E tid dst_ep m t s = (queued_send c (l_peer l) dst_ep m s, Block (PP_send_lcl l))"
    using lsel t by (simp add: send_local_block queued_send_def)
qed

lemma queued_send_facts:
  assumes "c \<noteq> d" "s1 = queued_send c d dst_ep m s"
  shows "p_list (procs s1 d) = p_list (procs s d) @ [c]" "mm_of s1 q = mm_of s q" "umem s1 = umem s"
    "p_umsg (procs s1 c) = m" "p_endpoint (procs s1 q) = p_endpoint (procs s q)"
    "IT_IS_REMOTE s1 q = IT_IS_REMOTE s q" "p_rts_flags (procs s1 c) = set_bit BIT_SENDING (p_rts_flags (procs s c))"
    "p_sendto (procs s1 c) = dst_ep" "p_pseudosem (procs s1 c) = - 1" "no_pending s1 d = no_pending s d"
    "p_misc_flags (procs s1 c) = p_misc_flags (procs s c)"
  using assms by (simp_all add: queued_send_def no_pending_def IT_IS_REMOTE_def mm_of_def split: option.split)

lemma recv_ready_queued:
  assumes "c \<noteq> d" "recv_ready s td d ANY" "s1 = queued_send c d dst_ep m s"
  shows "recv_ready s1 td d ANY"
proof -
  have "tasks s1 = tasks s" "p_misc_flags (procs s1 d) = p_misc_flags (procs s d)"
    "p_rts_flags (procs s1 d) = p_rts_flags (procs s d)" "p_dcid (procs s1 d) = p_dcid (procs s d)"
    "p_lpid (procs s1 d) = p_lpid (procs s d)" "p_priv (procs s1 d) = p_priv (procs s d)"
    "dc s1 = dc s" "dvs s1 = dvs s" "local_nodeid s1 = local_nodeid s"
    using assms(1,3) by (simp_all add: queued_send_def)
  then show ?thesis
    using assms(2) unfolding recv_ready_def check_caller_ready
    by (auto simp: receive_check_src_def DVS_NOT_INIT_def pick_caller_cong [of s1 s] check_caller_status_def
        split: if_splits)
qed

text \<open>C2: a message travels from one local process to another that is not waiting for it: when a running process
  sends to a local one that is ready to receive from anyone, with no pending notification and an empty queue, the
  sender blocks in the receiver's queue; the receiver's next receive from anyone returns OK with the
  sender's bytes, m_source set to the sender, in its buffer; the sender can then be woken, and
  unless a signal or the timeout ends its wait its call returns OK, with no flag left and the queue
  empty again.  When the wait of a send with a timeout runs out just before the delivery, the lock being taken
  only afterwards, the call returns EMOLTIMEDOUT although the message was delivered.\<close>

theorem message_travels:
  assumes ready: "call_ready s ts c dst_ep" and l: "l = mk_locals s c dst_ep m t" and d: "d = l_peer l"
    and ok: "dst_ok s l" "\<not> IT_IS_REMOTE s d" "\<not> IT_IS_REMOTE s c"
    and w: "\<not> waiting_for s d (p_endpoint (procs s c))" and t: "t \<noteq> TIMEOUT_NOWAIT"
    and idle: "p_rts_flags (procs s c) = 0" "p_endpoint (procs s c) \<noteq> NONE"
    and rcv: "recv_ready s td d ANY" "no_pending s d" "p_list (procs s d) = []"
    and cp: "msg_copyable E s c m d m'"
  shows "\<exists>s1 s2. do_call E ts (Send dst_ep m t) s = (s1, Block (PP_send_lcl l))
    \<and> do_call E td (Receive ANY m' t') s1 = (s2, Return OK)
    \<and> read_mem (umem s2 (mm_of s d)) m' MSG_SIZE = delivered_bytes (p_endpoint (procs s c)) s c m
    \<and> (\<exists>wret. may_wake s2 (PP_send_lcl l) wret \<and> wret \<noteq> ERESTARTSYS_NEG \<and> (0 \<le> t \<longrightarrow> wret \<noteq> 0))
    \<and> (\<forall>wret. may_wake s2 (PP_send_lcl l) wret \<and> wret \<noteq> ERESTARTSYS_NEG \<and> (0 \<le> t \<longrightarrow> wret \<noteq> 0) \<longrightarrow>
        (\<exists>s3. resume E ts (PP_send_lcl l) wret s2 = (s3, Return OK)
          \<and> p_rts_flags (procs s3 c) = 0 \<and> p_list (procs s3 d) = []))
    \<and> (0 \<le> t \<longrightarrow> may_wake s2 (PP_send_lcl l) 0
        \<and> (\<exists>s3. resume E ts (PP_send_lcl l) 0 s2 = (s3, Return EMOLTIMEDOUT)))"
proof -
  note run = queued_send_run [OF ready l ok(1) ok(2)[unfolded d] w[unfolded d] t]
  have ne: "c \<noteq> d" using run(2) d by simp
  define s1 where "s1 = queued_send c d dst_ep m s"
  note q = queued_send_facts [OF ne s1_def]
  have nm: "\<not> mis s c MIS_BIT_NEEDMIGR" using ready by (simp add: call_ready_def check_caller_ready)
  have flags: "p_rts_flags (procs s1 c) = 4" using q(7) idle(1) by simp
  have snd: "sending_to s1 c d"
    using q(8) ok(1) d l by (simp add: sending_to_def flags q(5) dst_ok_def)
  have cp1: "msg_copyable E s1 c (p_umsg (procs s1 c)) d m'" using cp by (simp add: msg_copyable_def q(2,4))
  define s2 where "s2 = served E d c m' s1"
  have rec: "mm_mini_receive E td ANY m' t' s1 = (s2, Return OK)"
    unfolding s2_def using receive_served [OF recv_ready_queued [OF ne rcv(1) s1_def] _ _ _ _ snd _ ne cp1, of "[]" "[]"]
      rcv(2,3) q(1,5,6,10) ok(3) idle(2) by simp
  have msg: "read_mem (umem s2 (mm_of s d)) m' MSG_SIZE = delivered_bytes (p_endpoint (procs s c)) s c m"
  proof -
    have "delivered_bytes (p_endpoint (procs s1 c)) s1 c (p_umsg (procs s1 c)) = delivered_bytes (p_endpoint (procs s c)) s c m"
      by (simp add: delivered_bytes_def q)
    then show ?thesis by (simp add: s2_def served_def read_delivered q(2))
  qed
  have s2: "p_rts_flags (procs s2 c) = 0" "p_pseudosem (procs s2 c) = 0" "p_rcode (procs s2 c) = OK"
    "p_misc_flags (procs s2 c) = p_misc_flags (procs s c)" "p_list (procs s2 d) = []"
    using ne flags q rcv(3) by (simp_all add: s2_def served_def up_if_ready_def unset_sending_4 list_del_def)
  have lc: "l_caller l = c" "l_timeout l = t" using l by simp_all
  note ends = may_wake_def wait_result_def resume_def resume_sleep_def sleep_end_def sleep_wake_def sleep_ret_def
    sleep_fini_def take_needmigr_def send_local_post_def
  have woken: "\<exists>s3. resume E ts (PP_send_lcl l) wret s2 = (s3, Return OK)
      \<and> p_rts_flags (procs s3 c) = 0 \<and> p_list (procs s3 d) = []"
    if "may_wake s2 (PP_send_lcl l) wret" "wret \<noteq> ERESTARTSYS_NEG" "0 \<le> t \<longrightarrow> wret \<noteq> 0" for wret
    using that s2 nm ne lc by (auto simp: ends split: if_splits)
  have late: "may_wake s2 (PP_send_lcl l) 0 \<and> (\<exists>s3. resume E ts (PP_send_lcl l) 0 s2 = (s3, Return EMOLTIMEDOUT))"
    if "0 \<le> t"
    using that s2 nm ne lc by (auto simp: ends)
  have "may_wake s2 (PP_send_lcl l) (if t < 0 then 0 else 1)" "(if t < 0 then 0 else 1 :: int) \<noteq> ERESTARTSYS_NEG"
    "0 \<le> t \<longrightarrow> (if t < 0 then 0 else 1 :: int) \<noteq> 0"
    using s2 lc by (simp_all add: may_wake_def wait_result_def)
  then have wakes: "\<exists>wret. may_wake s2 (PP_send_lcl l) wret \<and> wret \<noteq> ERESTARTSYS_NEG \<and> (0 \<le> t \<longrightarrow> wret \<noteq> 0)" by blast
  have calls: "do_call E ts (Send dst_ep m t) s = (s1, Block (PP_send_lcl l))" "do_call E td (Receive ANY m' t') s1 = (s2, Return OK)"
    using run(1) rec by (simp_all add: s1_def d)
  show ?thesis
    by (rule exI [of _ s1], rule exI [of _ s2]) (use calls msg wakes woken late in blast)
qed

theorem message_travels_witness:
  "\<exists>s1 s2. do_call scn_env 101 (Send 2 8192 500) scn = (s1, Block (PP_send_lcl (mk_locals scn (DcProc 0 36) 2 8192 500)))
    \<and> do_call scn_env 102 (Receive ANY 4096 TIMEOUT_FOREVER) s1 = (s2, Return OK)
    \<and> read_mem (umem s2 102) 4096 MSG_SIZE = delivered_bytes 1 scn (DcProc 0 36) 8192
    \<and> (\<exists>s3. resume scn_env 101 (PP_send_lcl (mk_locals scn (DcProc 0 36) 2 8192 500)) 0 s2 = (s3, Return EMOLTIMEDOUT))"
proof -
  let ?l = "mk_locals scn (DcProc 0 36) 2 8192 500"
  have "call_ready scn 101 (DcProc 0 36) 2" "dst_ok scn ?l" "l_peer ?l = DcProc 0 37"
    by (simp_all add: call_ready_def dst_ok_def NBR2PTR_def scn_defs node_bit_def check_defs)
  moreover have "\<not> IT_IS_REMOTE scn (DcProc 0 37)" "\<not> IT_IS_REMOTE scn (DcProc 0 36)"
    "\<not> waiting_for scn (DcProc 0 37) 1" "p_endpoint (procs scn (DcProc 0 36)) = 1"
    "p_rts_flags (procs scn (DcProc 0 36)) = 0" "p_list (procs scn (DcProc 0 37)) = []" "mm_of scn (DcProc 0 37) = 102"
    by (simp_all add: waiting_for_def IT_IS_REMOTE_def mm_of_def scn_defs)
  moreover have "recv_ready scn 102 (DcProc 0 37) ANY" "no_pending scn (DcProc 0 37)"
    by (simp_all add: recv_ready_def no_pending_def scn_defs check_defs receive_check_src_def)
  moreover have "msg_copyable scn_env scn (DcProc 0 36) 8192 (DcProc 0 37) 4096"
    by (simp add: msg_copyable_def mm_of_def scn_defs)
  ultimately show ?thesis
    using message_travels [of scn 101 "DcProc 0 36" 2 ?l 8192 500 "DcProc 0 37" 102 scn_env 4096 "- 1"] by auto
qed

section \<open>A message from one node to another\<close>

text \<open>The sender's node: the proxy pair of the receiver's node is connected and idle, the node belongs to
  the DC, and every integer of the command fits a C \<open>int\<close>.\<close>

definition outbound_ready :: "kstate \<Rightarrow> pref \<Rightarrow> int \<Rightarrow> int \<Rightarrow> pref \<Rightarrow> bool" where
  "outbound_ready s c dst_ep n sp \<longleftrightarrow> p_rts_flags (procs s c) = 0 \<and> node_bit (p_dcid (procs s c)) (n_dcs (node s n))
     \<and> 0 \<le> p_dcid (procs s c) \<and> p_dcid (procs s c) < d_nr_dcs (dvs s) \<and> dc_flags (dc s (p_dcid (procs s c))) = 0
     \<and> sp = NODE2SPROXY s n \<and> proxy_status s sp = OK \<and> node_bit n (p_nodemap (procs s sp)) \<and> \<not> mis s sp MIS_BIT_KTHREAD
     \<and> p_list (procs s sp) = [] \<and> int32 (p_endpoint (procs s c)) \<and> int32 dst_ep \<and> int32 (p_dcid (procs s c))
     \<and> int32 (local_nodeid s) \<and> int32 n
     \<and> int32 (fst (c_timestamp (p_rmtcmd (procs s c)))) \<and> int32 (snd (c_timestamp (p_rmtcmd (procs s c))))"

text \<open>A send from a process of a DC leaves its command, ready to go, in the proxy's queue.\<close>

lemma send_outbound:
  assumes ready: "call_ready s ts c dst_ep" and l: "l = mk_locals s c dst_ep m t" and d: "d = l_peer l"
    and ok: "dst_ok s l" "IT_IS_REMOTE s d" and n: "n = p_nodeid (procs s d)" and out: "outbound_ready s c dst_ep n sp"
    and c: "c = DcProc (p_dcid (procs s c)) j" and t: "t \<noteq> TIMEOUT_NOWAIT" and cp: "e_uncopied E (mm_of_task s ts) m MSG_SIZE = 0"
    and sent: "mm_mini_send E ts dst_ep m t s = (s1, out')"
  shows "out' = Block (PP_send_rmt l)" "p_list (procs s1 sp) = [c]" "get2rmt_status sp c s1 = OK"
    "dc_flags (dc s1 (p_dcid (procs s1 c))) = 0" "\<not> IT_IS_REMOTE s1 c" "\<not> mis s1 sp MIS_BIT_KTHREAD"
    "c_cmd (p_rmtcmd (procs s1 c)) = CMD_SEND_MSG" "cmd_ok (p_rmtcmd (procs s1 c))"
    "c_dnode (p_rmtcmd (procs s1 c)) = p_nodeid (procs s1 (ENDPOINT2PTR s1 (p_dcid (procs s1 c)) (c_dst (p_rmtcmd (procs s1 c)))))"
    "c_u (p_rmtcmd (procs s1 c)) = read_mem (umem s (mm_of_task s ts)) m MSG_SIZE"
    "p_endpoint (procs s1 c) = p_endpoint (procs s c)" "mm_of_task s1 x = mm_of_task s x"
    "c_src (p_rmtcmd (procs s1 c)) = p_endpoint (procs s c)" "c_dst (p_rmtcmd (procs s1 c)) = dst_ep"
    "c_dcid (p_rmtcmd (procs s1 c)) = p_dcid (procs s c)"
    "c_snode (p_rmtcmd (procs s1 c)) = local_nodeid s" "c_dnode (p_rmtcmd (procs s1 c)) = n"
    "p_pseudosem (procs s1 c) = - 1"
proof -
  let ?s0 = "upd c (\<lambda>x. x\<lparr>p_rcode := OK\<rparr>) (upd c (\<lambda>x. x\<lparr>p_umsg := m\<rparr>) s)"
  note o = out [unfolded outbound_ready_def]
  have ne: "d \<noteq> c" and dp: "d = DcProc (p_dcid (procs s c)) (ENDPOINT_P dst_ep + dc_nr_tasks (dc s (p_dcid (procs s c))))"
    and run: "send_remote E ts l ?s0 = (s1, out')"
    using mm_mini_send_remote [OF ready l d ok] sent by auto
  have lsel: "l_caller l = c" "l_peer l = d" "l_msg l = m" "l_ep l = dst_ep" "l_timeout l = t" using l d by simp_all
  have spc: "sp \<noteq> c" "sp \<noteq> d" using o c dp by (cases c; auto simp: NODE2SPROXY_def)+
  have px: "p_nodeid (procs ?s0 d) = n" "NODE2SPROXY ?s0 n = sp"
    using o n ne by (simp_all add: NODE2SPROXY_def)
  have st: "proxy_status ?s0 sp = OK" using o spc by (simp add: proxy_status_def split: if_splits)
  note q = send_remote_queued [of ?s0 l "p_dcid (procs s c)" j _ E ts, unfolded lsel px, OF st ne c dp t]
  from q cp run show o1: "out' = Block (PP_send_rmt l)" by (auto simp: mm_of_task_def)
  have q': "p_list (procs s1 sp) = [c]" "c_cmd (p_rmtcmd (procs s1 c)) = CMD_SEND_MSG"
    "c_src (p_rmtcmd (procs s1 c)) = p_endpoint (procs s c)" "c_dst (p_rmtcmd (procs s1 c)) = dst_ep"
    "c_snode (p_rmtcmd (procs s1 c)) = local_nodeid s" "c_dnode (p_rmtcmd (procs s1 c)) = n"
    "c_u (p_rmtcmd (procs s1 c)) = read_mem (umem s (mm_of_task s ts)) m MSG_SIZE"
    using q cp run o spc by (auto simp: mm_of_task_def)
  note fr = send_remote_frame [of E ts l ?s0 s1 "p_dcid (procs s c)" j, unfolded lsel, OF run [unfolded o1] t c ne]
  have fq: "p_dcid (procs s1 q) = p_dcid (procs s q)" "p_nodeid (procs s1 q) = p_nodeid (procs s q)"
    "p_nodemap (procs s1 q) = p_nodemap (procs s q)" "p_misc_flags (procs s1 q) = p_misc_flags (procs s q)"
    "p_endpoint (procs s1 q) = p_endpoint (procs s q)" for q
    by (simp_all add: fr(6-10))
  have fs: "dc s1 = dc s" "dvs s1 = dvs s" "node s1 = node s" "tasks s1 = tasks s" by (simp_all add: fr(1-4))
  have fl: "p_rts_flags (procs s1 c) = set_bit BIT_RMTOPER (set_bit BIT_SENDING 0)" using o by (simp add: fr(11))
  show "c_dcid (p_rmtcmd (procs s1 c)) = p_dcid (procs s c)" "p_pseudosem (procs s1 c) = - 1" by (simp_all add: fr(12,16))
  show "p_list (procs s1 sp) = [c]" "c_cmd (p_rmtcmd (procs s1 c)) = CMD_SEND_MSG"
    "c_src (p_rmtcmd (procs s1 c)) = p_endpoint (procs s c)" "c_dst (p_rmtcmd (procs s1 c)) = dst_ep"
    "c_snode (p_rmtcmd (procs s1 c)) = local_nodeid s" "c_dnode (p_rmtcmd (procs s1 c)) = n"
    "c_u (p_rmtcmd (procs s1 c)) = read_mem (umem s (mm_of_task s ts)) m MSG_SIZE"
    by (rule q')+
  show "get2rmt_status sp c s1 = OK" using o by (auto simp: get2rmt_status_def fq fs fl q'(6))
  show "dc_flags (dc s1 (p_dcid (procs s1 c))) = 0" "\<not> mis s1 sp MIS_BIT_KTHREAD" "p_endpoint (procs s1 c) = p_endpoint (procs s c)"
    "mm_of_task s1 x = mm_of_task s x"
    using o by (auto simp: mm_of_task_def fq fs)
  show "\<not> IT_IS_REMOTE s1 c" using fl by (simp add: IT_IS_REMOTE_def)
  show "cmd_ok (p_rmtcmd (procs s1 c))" using o q' by (simp add: cmd_ok_def fr(12-15) int32_def)
  have "ENDPOINT2PTR s1 (p_dcid (procs s1 c)) dst_ep = d" using dp by (simp add: fq fs ENDPOINT2PTR_def NBR2PTR_def)
  then show "c_dnode (p_rmtcmd (procs s1 c)) = p_nodeid (procs s1 (ENDPOINT2PTR s1 (p_dcid (procs s1 c)) (c_dst (p_rmtcmd (procs s1 c)))))"
    using q'(4,6) n by (simp add: fq)
qed

text \<open>C3: a message travels from one node to another: the sender blocks with its message queued for the
  sender proxy of the receiver's node; the proxy's next \<open>mm_get2rmt\<close> takes it; and on any node whose receiver
  proxy holds the bytes of that header and where the destination waits, \<open>mm_put2lcl\<close>
  returns OK, puts the sender's bytes with m_source set to the sender into the receiver's buffer, wakes
  the receiver with OK and queues an acknowledgement with code OK for the sender.\<close>

theorem message_crosses_nodes:
  assumes ready: "call_ready s ts c dst_ep" and l: "l = mk_locals s c dst_ep m t" and d: "d = l_peer l"
    and ok: "dst_ok s l" "IT_IS_REMOTE s d" and n: "n = p_nodeid (procs s d)" and out: "outbound_ready s c dst_ep n sp"
    and c: "c = DcProc (p_dcid (procs s c)) j" and t: "t \<noteq> TIMEOUT_NOWAIT" and cp: "e_uncopied E (mm_of_task s ts) m MSG_SIZE = 0"
    and hd: "e_uncopied E (mm_of_task s tp) hdr HDR_SIZE = 0" "int32 (fst (e_now E))" "int32 (snd (e_now E))"
  shows "\<exists>s1 s2. do_call E ts (Send dst_ep m t) s = (s1, Block (PP_send_rmt l))
    \<and> get2rmt_loop E tp sp hdr pay t' s1 = (s2, Return OK) \<and> p_list (procs s2 sp) = []
    \<and> (\<exists>h. decode_cmd (read_mem (umem s2 (mm_of_task s tp)) hdr HDR_SIZE) = h \<and> c_cmd h = CMD_SEND_MSG
         \<and> c_src h = p_endpoint (procs s c) \<and> c_dst h = dst_ep \<and> c_dcid h = p_dcid (procs s c)
         \<and> c_snode h = local_nodeid s \<and> c_dnode h = n)
    \<and> (\<forall>F r tr rp uh upay h rmt lcl.
        read_mem (umem r (mm_of_task r tr)) uh HDR_SIZE = read_mem (umem s2 (mm_of_task s tp)) hdr HDR_SIZE
        \<and> inbound_send F r tr rp uh h rmt lcl \<and> waiting_for r lcl (p_endpoint (procs r rmt)) \<and> p_rts_flags (procs r lcl) = 8
        \<and> mm_of r rp \<noteq> mm_of r lcl \<and> pages_ok F (mm_of r rp) (uh + 52) MSG_SIZE \<and> pages_ok F (mm_of r lcl) (p_umsg (procs r lcl)) MSG_SIZE
        \<longrightarrow> (\<exists>r'. mm_put2lcl_body F tr uh upay rp r = (r', Return OK)
          \<and> read_mem (umem r' (mm_of r lcl)) (p_umsg (procs r lcl)) MSG_SIZE
              = put_i32 0 (p_endpoint (procs s c)) (read_mem (umem s (mm_of_task s ts)) m MSG_SIZE)
          \<and> p_rcode (procs r' lcl) = OK \<and> p_pseudosem (procs r' lcl) = p_pseudosem (procs r lcl) + 1
          \<and> rmt \<in> set (p_list (procs r' (NODE2SPROXY r (p_nodeid (procs r rmt)))))
          \<and> c_cmd (p_rmtcmd (procs r' rmt)) = CMD_SEND_ACK \<and> c_rcode (p_rmtcmd (procs r' rmt)) = OK))"
proof -
  obtain s1 out' where sent: "mm_mini_send E ts dst_ep m t s = (s1, out')" by force
  note q = send_outbound [OF ready l d ok n out c t cp sent]
  obtain i where sp: "sp = Sproxy i" using out by (auto simp: outbound_ready_def NODE2SPROXY_def)
  have hd1: "e_uncopied E (mm_of_task s1 tp) hdr HDR_SIZE = 0" using hd(1) q(12) by simp
  obtain s2 where s2: "get2rmt_loop E tp sp hdr pay t' s1 = (s2, Return OK)" "p_list (procs s2 sp) = []"
    "decode_cmd (read_mem (umem s2 (mm_of_task s tp)) hdr HDR_SIZE) = stamped E (p_endpoint (procs s c)) (p_rmtcmd (procs s1 c))"
    using get2rmt_head [OF q(2) sp c refl _ q(8) q(3,4,5,9,6) hd1 hd(2,3), of pay t'] q(7,11,12) by auto
  have "\<exists>r'. mm_put2lcl_body F tr uh upay rp r = (r', Return OK)
          \<and> read_mem (umem r' (mm_of r lcl)) (p_umsg (procs r lcl)) MSG_SIZE
              = put_i32 0 (p_endpoint (procs s c)) (read_mem (umem s (mm_of_task s ts)) m MSG_SIZE)
          \<and> p_rcode (procs r' lcl) = OK \<and> p_pseudosem (procs r' lcl) = p_pseudosem (procs r lcl) + 1
          \<and> rmt \<in> set (p_list (procs r' (NODE2SPROXY r (p_nodeid (procs r rmt)))))
          \<and> c_cmd (p_rmtcmd (procs r' rmt)) = CMD_SEND_ACK \<and> c_rcode (p_rmtcmd (procs r' rmt)) = OK"
    if same: "read_mem (umem r (mm_of_task r tr)) uh HDR_SIZE = read_mem (umem s2 (mm_of_task s tp)) hdr HDR_SIZE"
      and ib: "inbound_send F r tr rp uh h rmt lcl" and w: "waiting_for r lcl (p_endpoint (procs r rmt))" "p_rts_flags (procs r lcl) = 8"
      and mm: "mm_of r rp \<noteq> mm_of r lcl" "pages_ok F (mm_of r rp) (uh + 52) MSG_SIZE" "pages_ok F (mm_of r lcl) (p_umsg (procs r lcl)) MSG_SIZE"
    for F r tr rp uh upay h rmt lcl
  proof -
    have "h = decode_cmd (read_mem (umem r (mm_of_task r tr)) uh HDR_SIZE)" using ib by (simp add: inbound_send_def)
    then have h: "c_u h = put_i32 0 (p_endpoint (procs s c)) (read_mem (umem s (mm_of_task s ts)) m MSG_SIZE)"
      using same s2(3) q(10) by (simp add: stamped_def)
    then have "length (c_u h) = MSG_SIZE" by simp
    then have "read_mem (write_mem (p_umsg (procs r lcl)) (c_u h) M) (p_umsg (procs r lcl)) MSG_SIZE = c_u h" for M
      using read_write_mem [of "c_u h" "p_umsg (procs r lcl)" M] by simp
    with put2lcl_body_delivers [OF ib w mm refl, of upay] h show ?thesis by auto
  qed
  then show ?thesis
    using sent q(1) s2 q(7,13-17) by (intro exI [of _ s1] exI [of _ s2]) (auto simp: stamped_def)
qed

text \<open>Node 1 of the same DC: process 5 waits there for a message from anyone, process 1 is remote, on
  node 0, and the receiver proxy of node 0 has a header at address 4096.\<close>

definition scn_peer :: "byte list \<Rightarrow> kstate" where
  "scn_peer H = scn\<lparr>local_nodeid := 1,
     procs := (procs scn)(DcProc 0 36 := scn_remote 1 0,
       DcProc 0 40 := (scn_local 5)\<lparr>p_nodeid := 1, p_rts_flags := 8, p_getfrom := ANY, p_umsg := 12288, p_pseudosem := - 1\<rparr>,
       Sproxy 0 := (scn_proxy 0 401), Rproxy 0 := scn_proxy 0 402),
     tasks := (tasks scn)(105 := scn_task 105 (DcProc 0 40), 402 := scn_task 402 (Rproxy 0)),
     umem := (umem scn)(402 := write_mem 4096 H (umem scn 402))\<rparr>"

lemma scn_peer_inbound:
  assumes len: "length H = HDR_SIZE" and h: "h = decode_cmd H" "c_cmd h = CMD_SEND_MSG" "c_src h = 1" "c_dst h = 5"
    "c_dcid h = 0" "c_snode h = 0" "c_dnode h = 1"
  shows "inbound_send scn_env (scn_peer H) 402 (Rproxy 0) 4096 h (DcProc 0 36) (DcProc 0 40)"
    "read_mem (umem (scn_peer H) 402) 4096 HDR_SIZE = H"
proof -
  show r: "read_mem (umem (scn_peer H) 402) 4096 HDR_SIZE = H"
    using read_write_mem [of H 4096 "umem scn 402"] len by (simp add: scn_peer_def)
  have "mm_of_task (scn_peer H) 402 = 402" "mm_of (scn_peer H) (Rproxy 0) = 402"
    by (simp_all add: scn_peer_def mm_of_task_def mm_of_def scn_defs)
  moreover have "put2lcl_range h (scn_peer H) = OK" "put2lcl_status h (DcProc 0 36) (DcProc 0 40) (scn_peer H) = OK"
    "NBR2PTR (scn_peer H) 0 1 = DcProc 0 36" "NBR2PTR (scn_peer H) 0 5 = DcProc 0 40"
    using h by (simp_all add: put2lcl_range_def put2lcl_status_def NBR2PTR_def IT_IS_REMOTE_def scn_peer_def scn_defs
        node_bit_def ENDPOINT_P_def cmod_def bit_1_iff)
  moreover have "ENDPOINT_P 1 = 1" "ENDPOINT_P 5 = 5" by (simp_all add: ENDPOINT_P_def cmod_def)
  ultimately show "inbound_send scn_env (scn_peer H) 402 (Rproxy 0) 4096 h (DcProc 0 36) (DcProc 0 40)"
    using h r by (simp add: inbound_send_def) (simp add: NODE2RPROXY_def NODE2SPROXY_def scn_peer_def scn_defs)
qed

theorem message_crosses_nodes_witness:
  "\<exists>s1 s2 r'. do_call scn_env 101 (Send 5 8192 (- 1)) scn = (s1, Block (PP_send_rmt (mk_locals scn (DcProc 0 36) 5 8192 (- 1))))
    \<and> get2rmt_loop scn_env 301 (Sproxy 1) 4096 8192 (- 1) s1 = (s2, Return OK)
    \<and> mm_put2lcl_body scn_env 402 4096 8192 (Rproxy 0) (scn_peer (read_mem (umem s2 301) 4096 HDR_SIZE)) = (r', Return OK)
    \<and> read_mem (umem r' 105) 12288 MSG_SIZE = put_i32 0 1 (read_mem (umem scn 101) 8192 MSG_SIZE)"
proof -
  let ?l = "mk_locals scn (DcProc 0 36) 5 8192 (- 1)"
  have a: "l_peer ?l = DcProc 0 40" "call_ready scn 101 (DcProc 0 36) 5" "dst_ok scn ?l" "IT_IS_REMOTE scn (DcProc 0 40)"
    "p_dcid (procs scn (DcProc 0 36)) = 0" "p_nodeid (procs scn (DcProc 0 40)) = 1" "mm_of_task scn 301 = 301" "mm_of_task scn 101 = 101"
    "p_endpoint (procs scn (DcProc 0 36)) = 1" "local_nodeid scn = 0"
    by (simp_all add: call_ready_def dst_ok_def NBR2PTR_def scn_defs check_defs node_bit_def IT_IS_REMOTE_def mm_of_task_def bit_1_iff)
  have o: "outbound_ready scn (DcProc 0 36) 5 1 (Sproxy 1)"
    by (simp add: outbound_ready_def NODE2SPROXY_def proxy_status_def scn_defs node_bit_def int32_def)
  have m: "DcProc 0 36 = DcProc (p_dcid (procs scn (DcProc 0 36))) 36" "(- 1 :: int) \<noteq> 0"
    "e_uncopied scn_env (mm_of_task scn 101) 8192 MSG_SIZE = 0" "e_uncopied scn_env (mm_of_task scn 301) 4096 HDR_SIZE = 0"
    "int32 (fst (e_now scn_env))" "int32 (snd (e_now scn_env))"
    using a by (simp_all add: int32_def)
  show ?thesis
    using message_crosses_nodes [OF a(2) refl a(1)[symmetric] a(3,4) a(6)[symmetric] o m, of 8192 "- 1", unfolded a(5,7-10)]
  proof (elim exE conjE, goal_cases)
    case (1 s1 s2 h)
    let ?H = "read_mem (umem s2 301) 4096 HDR_SIZE" and ?r = "scn_peer (read_mem (umem s2 301) 4096 HDR_SIZE)"
    note ib = scn_peer_inbound [of ?H h, OF length_read_mem 1(5)[symmetric] 1(6-11)]
    have r: "waiting_for ?r (DcProc 0 40) (p_endpoint (procs ?r (DcProc 0 36)))"
      "p_rts_flags (procs ?r (DcProc 0 40)) = 8" "mm_of ?r (DcProc 0 40) = 105" "mm_of ?r (Rproxy 0) = 402"
      "p_umsg (procs ?r (DcProc 0 40)) = 12288" "mm_of_task ?r 402 = 402"
      by (simp_all add: waiting_for_def mm_of_def mm_of_task_def scn_peer_def scn_defs)
    have "\<exists>r'. mm_put2lcl_body scn_env 402 4096 8192 (Rproxy 0) ?r = (r', Return OK)
        \<and> read_mem (umem r' 105) 12288 MSG_SIZE = put_i32 0 1 (read_mem (umem scn 101) 8192 MSG_SIZE)"
      using 1(4) [rule_format, of ?r 402 4096 scn_env "Rproxy 0" h "DcProc 0 36" "DcProc 0 40" 8192] ib r by auto
    then show ?case using 1(1,2) by blast
  qed
qed

section \<open>A command the proxy does not see\<close>

text \<open>C1: the sender proxy can fall asleep on a queued command.  The walk over the queue reads the successor of an
  entry before it gives up the lock of the proxy; when the proxy skips the last entry of its queue and
  a process sends to the same node before the walk goes on, the proxy is not marked as waiting, so that it is not
  woken, and the walk ends at the head it has read before.  In the state reached the message is in the queue with nothing against
  sending it, the sender and the proxy are both asleep, and as it is, only a signal or a
  timeout can end the wait of either.\<close>

theorem proxy_sleeps_on_command:
  assumes skip: "do_call E tp (Get2rmt hdr pay t') s0 = (s, Goto (PP_get2rmt_next sp hdr pay t' None))"
    and C: "C tp = Idle" "C ts = Idle" "ts \<noteq> tp" and t': "t' \<noteq> TIMEOUT_NOWAIT"
    and ready: "call_ready s ts c dst_ep" and l: "l = mk_locals s c dst_ep m t" and d: "d = l_peer l"
    and ok: "dst_ok s l" "IT_IS_REMOTE s d" and n: "n = p_nodeid (procs s d)" and out: "outbound_ready s c dst_ep n sp"
    and c: "c = DcProc (p_dcid (procs s c)) j" and t: "t \<noteq> TIMEOUT_NOWAIT" and cp: "e_uncopied E (mm_of_task s ts) m MSG_SIZE = 0"
  shows "\<exists>s2 C'. reaches (s0, C) (s2, C') \<and> C' ts = Asleep (PP_send_rmt l) \<and> C' tp = Asleep (PP_get2rmt sp hdr pay t')
    \<and> p_list (procs s2 sp) = [c] \<and> get2rmt_status sp c s2 = OK \<and> c_cmd (p_rmtcmd (procs s2 c)) = CMD_SEND_MSG
    \<and> (\<forall>wret. may_wake s2 (PP_get2rmt sp hdr pay t') wret \<longrightarrow> wret = ERESTARTSYS_NEG \<or> 0 \<le> t' \<and> wret = 0)
    \<and> (\<forall>wret. may_wake s2 (PP_send_rmt l) wret \<longrightarrow> wret = ERESTARTSYS_NEG \<or> 0 \<le> t \<and> wret = 0)"
proof -
  obtain s1 out' where sent: "mm_mini_send E ts dst_ep m t s = (s1, out')" by force
  note q = send_outbound [OF ready l d ok n out c t cp sent]
  define s2 where "s2 = upd sp (\<lambda>x. x\<lparr>p_pseudosem := - 1, p_rcode := OK\<rparr>)
    (set_rts BIT_RECEIVING sp (upd sp (\<lambda>y. y\<lparr>p_getfrom := ANY\<rparr>) s1))"
  have sleep: "run_pp E tp (PP_get2rmt_next sp hdr pay t' None) s1 = (s2, Block (PP_get2rmt sp hdr pay t'))"
    using t' by (simp add: get2rmt_at_def sleep_or_block s2_def)
  define C1 where "C1 = C(tp := Running (PP_get2rmt_next sp hdr pay t' None))"
  define C2 where "C2 = C1(ts := Asleep (PP_send_rmt l))"
  have "step (s0, C) (s, C1)" using step.call [of C tp, OF C(1) skip] by (simp add: C1_def ctl_of_def)
  moreover have "step (s, C1) (s1, C2)"
    using step.call [of C1 ts E "Send dst_ep m t" s s1 out'] C(2,3) sent q(1) by (simp add: C1_def C2_def ctl_of_def)
  moreover have "step (s1, C2) (s2, C2(tp := Asleep (PP_get2rmt sp hdr pay t')))"
    using step.run [of C2 tp, OF _ sleep] C(3) by (simp add: C1_def C2_def ctl_of_def)
  ultimately have run: "reaches (s0, C) (s2, C2(tp := Asleep (PP_get2rmt sp hdr pay t')))"
    by (blast intro: reaches.intros)
  have spc: "sp \<noteq> c" using out c by (auto simp: outbound_ready_def NODE2SPROXY_def)
  have "get2rmt_status sp c s2 = OK" using q(3) spc by (simp add: get2rmt_status_def s2_def Let_def split: if_splits)
  moreover have "l_caller l = c" "l_timeout l = t" using l by simp_all
  ultimately show ?thesis
    using run q(2,7,18) spc C(3)
    by (intro exI [of _ s2] exI [of _ "C2(tp := Asleep (PP_get2rmt sp hdr pay t'))"])
      (auto simp: C2_def s2_def may_wake_def wait_result_def split: if_splits)
qed

text \<open>The queue of proxy 1 holds only an acknowledgement for remote process 6, which is migrating.\<close>

definition scn_stale :: kstate where
  "scn_stale = upd (Sproxy 1) (\<lambda>x. x\<lparr>p_list := [DcProc 0 41]\<rparr>) (upd (DcProc 0 41) (\<lambda>_. (scn_remote 6 1)
     \<lparr>p_rts_flags := set_bit BIT_MIGRATE REMOTE, p_rmtcmd := zero_cmd\<lparr>c_cmd := CMD_SEND_ACK, c_dnode := 1\<rparr>\<rparr>) scn)"

theorem proxy_sleeps_on_command_witness:
  "\<exists>s2 C'. reaches (scn_stale, \<lambda>_. Idle) (s2, C') \<and> C' 301 = Asleep (PP_get2rmt (Sproxy 1) 4096 8192 (- 1))
    \<and> p_list (procs s2 (Sproxy 1)) = [DcProc 0 36]
    \<and> \<not> may_wake s2 (PP_get2rmt (Sproxy 1) 4096 8192 (- 1)) 0"
proof -
  define s where "s = upd (DcProc 0 41) (\<lambda>y. y\<lparr>p_rts_flags := REMOTE\<rparr>) (upd (DcProc 0 41) (\<lambda>y. y\<lparr>p_proxy := NONE\<rparr>)
    (LIST_DEL_INIT (DcProc 0 41) (upd (Sproxy 1) (\<lambda>y. y\<lparr>p_umsg := 8192\<rparr>) scn_stale)))"
  let ?l = "mk_locals s (DcProc 0 36) 5 8192 (- 1)"
  have skip: "do_call scn_env 301 (Get2rmt 4096 8192 (- 1)) scn_stale
      = (s, Goto (PP_get2rmt_next (Sproxy 1) 4096 8192 (- 1) None))"
  proof -
    let ?s = "upd (Sproxy 1) (\<lambda>y. y\<lparr>p_umsg := 8192\<rparr>) scn_stale"
    have pre: "check_caller 301 scn_stale = (scn_stale, Chk_ok (Sproxy 1) 301)" "t_euid (tasks scn_stale 301) = USER_ROOT"
      "\<not> DVS_NOT_INIT scn_stale" "mis scn_stale (Sproxy 1) MIS_BIT_PROXY" "mis scn_stale (Sproxy 1) MIS_BIT_CONNECTED"
      "p_nr (procs scn_stale (Sproxy 1)) = 1"
      by (simp_all add: scn_stale_def scn_defs check_defs)
    have st: "get2rmt_status (Sproxy 1) (DcProc 0 41) ?s = EMOLMIGRATE" "IT_IS_REMOTE ?s (DcProc 0 41)"
      "p_list (procs ?s (Sproxy 1)) = [DcProc 0 41]"
      by (simp_all add: scn_stale_def scn_defs get2rmt_status_def node_bit_def IT_IS_REMOTE_def)
    have "get2rmt_one scn_env 301 (Sproxy 1) 4096 8192 (DcProc 0 41) ?s = (s, None)"
      using st by (simp add: get2rmt_one_def Let_def IT_IS_REMOTE_def s_def)
    then show ?thesis
      using pre st(3) by (simp add: mm_get2rmt_def mm_get2rmt_body_def get2rmt_loop_def get2rmt_at_def after_check_def)
  qed
  have a: "l_peer ?l = DcProc 0 40" "call_ready s 101 (DcProc 0 36) 5" "dst_ok s ?l" "IT_IS_REMOTE s (DcProc 0 40)"
    "p_dcid (procs s (DcProc 0 36)) = 0" "p_nodeid (procs s (DcProc 0 40)) = 1" 
    by (simp_all add: s_def scn_stale_def call_ready_def dst_ok_def NBR2PTR_def scn_defs check_defs node_bit_def IT_IS_REMOTE_def
        mm_of_task_def bit_1_iff)
  have o: "outbound_ready s (DcProc 0 36) 5 1 (Sproxy 1)"
    by (simp add: s_def scn_stale_def outbound_ready_def NODE2SPROXY_def proxy_status_def scn_defs node_bit_def int32_def list_del_def)
  obtain s2 C' where r: "reaches (scn_stale, \<lambda>_. Idle) (s2, C')" "C' 301 = Asleep (PP_get2rmt (Sproxy 1) 4096 8192 (- 1))"
    "p_list (procs s2 (Sproxy 1)) = [DcProc 0 36]"
    "\<forall>wret. may_wake s2 (PP_get2rmt (Sproxy 1) 4096 8192 (- 1)) wret \<longrightarrow> wret = ERESTARTSYS_NEG"
    using proxy_sleeps_on_command [OF skip _ _ _ _ a(2) refl a(1)[symmetric] a(3,4) a(6)[symmetric] o, of "\<lambda>_. Idle" 36] a(5)
    by auto
  show ?thesis
    by (rule exI [of _ s2], rule exI [of _ C']) (use r(1-3) r(4) [rule_format, of 0] in auto)
qed

section \<open>A message that follows its receiver\<close>

text \<open>C29: a send blocked on a process of one thread that migrates, with only local senders in its queue, blocked on
  sending and perhaps receiving alone, is not lost: when the migration commits, the sender can be
  woken, and however its wait ends short of a signal its call looks at the destination again and
  finds it on the new node; the message, still the bytes of the sender's buffer, is then
  queued as a SEND command for that node on its sender proxy.\<close>

theorem migrated_send_goes_remote:
  assumes root: "t_euid (tasks s tid) = USER_ROOT" "\<not> DVS_NOT_INIT s" "0 \<le> dcid" "dcid < d_nr_dcs (dvs s)"
    and nr: "- dc_nr_tasks (dc s dcid) \<le> ENDPOINT_P ep" "ENDPOINT_P ep < dc_nr_procs (dc s dcid)"
    and p: "p = NBR2PTR s dcid (ENDPOINT_P ep)" and lv: "leaving thr s p t" and chk: "commit_check dcid n s = OK"
    and c: "c \<in> set (p_list (procs s p))" "c = DcProc dcid j" "p_pseudosem (procs s c) = - 1" "\<not> mis s c MIS_BIT_NEEDMIGR"
    and l: "l_caller l = c" "l_peer l = p" "l_ep l = p_endpoint (procs s p)" "l_dcid l = dcid" "l_timeout l \<noteq> TIMEOUT_NOWAIT"
    and n: "0 \<le> n" "n < d_nr_nodes (dvs s)" "node_bit n (dc_nodes (dc s dcid))" "\<not> rts s p BIT_SLOT_FREE"
    and sp: "sp = NODE2SPROXY s n" "proxy_status s sp = OK" "sp \<notin> set (p_list (procs s p))" "sp \<notin> set (p_mlist (procs s p))"
    and cp: "e_uncopied E (mm_of_task s tc) (l_msg l) MSG_SIZE = 0"
  shows "\<exists>s1. mm_migrate E thr tid MIGR_COMMIT pid dcid ep n s = (s1, OK)
    \<and> (\<exists>wret. may_wake s1 (PP_send_lcl l) wret \<and> wret \<noteq> ERESTARTSYS_NEG)
    \<and> (\<forall>wret. may_wake s1 (PP_send_lcl l) wret \<and> wret \<noteq> ERESTARTSYS_NEG \<longrightarrow>
        (\<exists>s2 s3. resume E tc (PP_send_lcl l) wret s1 = (s2, Goto (PP_send_replay l))
          \<and> run_pp E tc (PP_send_replay l) s2 = (s3, Block (PP_send_rmt l))
          \<and> p_list (procs s3 sp) = p_list (procs s1 sp) @ [c]
          \<and> c_cmd (p_rmtcmd (procs s3 c)) = CMD_SEND_MSG \<and> c_src (p_rmtcmd (procs s3 c)) = p_endpoint (procs s c)
          \<and> c_dst (p_rmtcmd (procs s3 c)) = p_endpoint (procs s p) \<and> c_dnode (p_rmtcmd (procs s3 c)) = n
          \<and> c_u (p_rmtcmd (procs s3 c)) = read_mem (umem s (mm_of_task s tc)) (l_msg l) MSG_SIZE))"
proof -
  define s1 where "s1 = committed E n t p s"
  note peer = committed_peer [OF lv, of E n, folded s1_def] and me = committed_sender [OF lv c(1), of E n, folded s1_def]
    and fr = committed_frame [OF lv, of E n, folded s1_def]
  have pk: "p = DcProc dcid (ENDPOINT_P ep + dc_nr_tasks (dc s dcid))" by (simp add: p NBR2PTR_def)
  have ne: "p \<noteq> c" using lv c(1) by (auto simp: leaving_def)
  have spc: "sp \<noteq> c" "sp \<noteq> p" using sp(1) c(2) pk by (auto simp: NODE2SPROXY_def)
  have st: "proxy_status s1 sp = OK" using committed_proxy [OF lv spc(2) sp(3,4), of E n] sp(2) by (simp add: s1_def)
  define s2 where "s2 = upd c (\<lambda>x. x\<lparr>p_sendto := NONE\<rparr>) (clear_rts BIT_SENDING c
    (reset_cpu E c (upd c (\<lambda>x. if p_pseudosem x < 0 then x\<lparr>p_pseudosem := p_pseudosem x + 1\<rparr> else x)
      (upd c (\<lambda>x. x\<lparr>p_rcode := EMOLMIGRATE\<rparr>) s1))))"
  define s2' where "s2' = upd c (\<lambda>x. x\<lparr>p_rcode := OK\<rparr>) s2"
  have nm: "\<not> mis s1 c MIS_BIT_NEEDMIGR" "p_pseudosem (procs s1 c) = 0" using me c(3,4) by simp_all
  have woken: "resume E tc (PP_send_lcl l) wret s1 = (s2, Goto (PP_send_replay l))"
    if "may_wake s1 (PP_send_lcl l) wret" "wret \<noteq> ERESTARTSYS_NEG" for wret
    using that nm me(1,2) l(1,5) by (auto simp: may_wake_def wait_result_def resume_def resume_sleep_def sleep_end_def
      sleep_wake_def sleep_ret_def sleep_fini_def take_needmigr_def send_local_post_def s2_def split: if_splits)
  have s2: "procs s2' q = procs s1 q" if "q \<noteq> c" for q using that by (simp add: s2'_def s2_def)
  have f2: "node s2' = node s1" "mm_of_task s2' tc = mm_of_task s tc" "umem s2' = umem s" "local_nodeid s2' = local_nodeid s"
    "p_endpoint (procs s2' c) = p_endpoint (procs s c)"
    using fr me by (simp_all add: s2'_def s2_def mm_of_task_def)
  have again: "run_pp E tc (PP_send_replay l) s2 = send_remote E tc l s2'"
    using l n ne peer fr by (simp add: send_replay_def IT_IS_REMOTE_def s2'_def s2_def Let_def)
  have px: "p_nodeid (procs s2' (l_peer l)) = n" "NODE2SPROXY s2' n = sp"
    using peer(3) ne f2(1) fr(3) sp(1) l(2) by (simp_all add: s2 NODE2SPROXY_def)
  have pst: "proxy_status s2' sp = OK" using st spc by (simp add: proxy_status_def s2 split: if_splits)
  have "\<exists>s3. run_pp E tc (PP_send_replay l) s2 = (s3, Block (PP_send_rmt l))
          \<and> p_list (procs s3 sp) = p_list (procs s1 sp) @ [c]
          \<and> c_cmd (p_rmtcmd (procs s3 c)) = CMD_SEND_MSG \<and> c_src (p_rmtcmd (procs s3 c)) = p_endpoint (procs s c)
          \<and> c_dst (p_rmtcmd (procs s3 c)) = p_endpoint (procs s p) \<and> c_dnode (p_rmtcmd (procs s3 c)) = n
          \<and> c_u (p_rmtcmd (procs s3 c)) = read_mem (umem s (mm_of_task s tc)) (l_msg l) MSG_SIZE"
    using send_remote_queued [of s2' l dcid j "ENDPOINT_P ep + dc_nr_tasks (dc s dcid)" E tc, unfolded px,
      OF pst] ne l c(2) pk cp f2 s2 [OF spc(1)]
    unfolding again by auto
  moreover have "may_wake s1 (PP_send_lcl l) (if l_timeout l < 0 then 0 else 1)" "(if l_timeout l < 0 then 0 else 1 :: int) \<noteq> ERESTARTSYS_NEG"
    using nm(2) l(1) by (simp_all add: may_wake_def wait_result_def)
  ultimately show ?thesis
    using commit_run [OF root nr p lv chk, of E pid, folded s1_def] woken by blast
qed

theorem migrated_send_goes_remote_witness:
  "\<exists>s1 s2 s3. mm_migrate scn_env (\<lambda>t. [t]) 101 MIGR_COMMIT 0 0 2 1 scn_leaving = (s1, OK)
    \<and> resume scn_env 101 (PP_send_lcl (mk_locals scn_leaving (DcProc 0 36) 2 8192 (- 1))) 0 s1
        = (s2, Goto (PP_send_replay (mk_locals scn_leaving (DcProc 0 36) 2 8192 (- 1))))
    \<and> run_pp scn_env 101 (PP_send_replay (mk_locals scn_leaving (DcProc 0 36) 2 8192 (- 1))) s2
        = (s3, Block (PP_send_rmt (mk_locals scn_leaving (DcProc 0 36) 2 8192 (- 1))))
    \<and> c_dnode (p_rmtcmd (procs s3 (DcProc 0 36))) = 1"
proof -
  let ?l = "mk_locals scn_leaving (DcProc 0 36) 2 8192 (- 1)"
  have st: "t_euid (tasks scn_leaving 101) = USER_ROOT" "\<not> DVS_NOT_INIT scn_leaving" "(0 :: int) \<le> 0" "0 < d_nr_dcs (dvs scn_leaving)"
    "- dc_nr_tasks (dc scn_leaving 0) \<le> ENDPOINT_P 2" "ENDPOINT_P 2 < dc_nr_procs (dc scn_leaving 0)"
    by (simp_all add: scn_leaving_def scn_nodes_def scn_defs DVS_NOT_INIT_def ENDPOINT_P_def ENDPOINT_GENERATION_SIZE_def cmod_def)
  have p: "DcProc 0 37 = NBR2PTR scn_leaving 0 (ENDPOINT_P 2)" "l_peer ?l = DcProc 0 37"
    by (simp_all add: NBR2PTR_def scn_leaving_def scn_nodes_def scn_defs ENDPOINT_P_def ENDPOINT_GENERATION_SIZE_def cmod_def)
  have c: "DcProc 0 36 \<in> set (p_list (procs scn_leaving (DcProc 0 37)))" "DcProc 0 36 = DcProc 0 (36 :: int)"
    "p_pseudosem (procs scn_leaving (DcProc 0 36)) = - 1" "\<not> mis scn_leaving (DcProc 0 36) MIS_BIT_NEEDMIGR"
    "l_ep ?l = p_endpoint (procs scn_leaving (DcProc 0 37))" "l_dcid ?l = 0"
    by (simp_all add: scn_leaving_def scn_nodes_def scn_defs)
  have n: "(0 :: int) \<le> 1" "1 < d_nr_nodes (dvs scn_leaving)" "node_bit 1 (dc_nodes (dc scn_leaving 0))"
    "\<not> rts scn_leaving (DcProc 0 37) BIT_SLOT_FREE"
    by (simp_all add: scn_leaving_def scn_nodes_def scn_defs node_bit_def bit_1_iff)
  have sp: "Sproxy 1 = NODE2SPROXY scn_leaving 1" "proxy_status scn_leaving (Sproxy 1) = OK"
    "Sproxy 1 \<notin> set (p_list (procs scn_leaving (DcProc 0 37)))" "Sproxy 1 \<notin> set (p_mlist (procs scn_leaving (DcProc 0 37)))"
    by (simp_all add: scn_leaving_def scn_nodes_def scn_defs NODE2SPROXY_def proxy_status_def)
  show ?thesis
    using migrated_send_goes_remote [OF st p(1) scn_leaving_ok c(1-4) _ p(2) c(5,6) _ n sp, of scn_env 101 0]
    by (auto simp: may_wake_def wait_result_def)
qed

end
